(* ===== verification/Prelude.thy ===== *)
theory Prelude
  imports Complex_Main "HOL-Library.List_Lexorder" "HOL-Library.Char_ord" "HOL-Library.AList"
begin

text \<open>
  Shared vocabulary of the development: what the services use of Python and of the SQL layer.
  \<^item> exceptions as values (\<open>py_error\<close>, \<open>'a result\<close>) and their sequencing \<open>rbind\<close>;
  \<^item> JSON documents as Python holds them after parsing (\<open>json\<close>), truthiness,
    equality across numeric types, hashability, and the text \<open>json.dumps\<close> writes;
  \<^item> the string methods the code calls (\<open>lower\<close>, \<open>strip\<close>, \<open>split\<close>, \<open>isdigit\<close>);
  \<^item> time as microseconds since the epoch, naive UTC, unbounded;
  \<^item> tables as lists of rows in primary-key order with the queries the code sends.
  Strings are lists of characters below code point 256.
  The collections \<open>store\<close> and \<open>result_simps\<close> carry the component proofs.
\<close>

named_theorems store \<open>queries and updates on tables\<close>
named_theorems result_simps \<open>sequencing of results\<close>

section \<open>Exceptions\<close>

datatype py_error =
    ValueError string
  | TypeError string
  | KeyError string
  | RuntimeError string
  | OSError string
  | IdempotencyConflict string
  | EnforcementConflict string
  | EnforcementDenied string
  | ProviderRateLimitExceeded string int
  | HTTPException int string
  | OtherError string

type_synonym 'a result = "py_error + 'a"

definition rbind :: "'a result \<Rightarrow> ('a \<Rightarrow> 'b result) \<Rightarrow> 'b result" where
  "rbind m f = (case m of Inl e \<Rightarrow> Inl e | Inr x \<Rightarrow> f x)"

definition is_ok :: "'a result \<Rightarrow> bool" where
  "is_ok r = (case r of Inl e \<Rightarrow> False | Inr x \<Rightarrow> True)"

lemma rbind_simps [simp, result_simps]:
  "rbind (Inl e) f = Inl e"
  "rbind (Inr x) f = f x"
  by (simp_all add: rbind_def)

lemma rbind_Inr_iff [result_simps]: "rbind m f = Inr y \<longleftrightarrow> (\<exists>x. m = Inr x \<and> f x = Inr y)"
  by (cases m) auto

lemma rbindE:
  assumes "rbind m f = Inr y"
  obtains x where "m = Inr x" "f x = Inr y"
  using assms by (auto simp: rbind_Inr_iff)

lemma rbind_Inl_iff [result_simps]:
  "rbind m f = Inl e \<longleftrightarrow> m = Inl e \<or> (\<exists>x. m = Inr x \<and> f x = Inl e)"
  by (cases m) auto

lemma rbind_assoc: "rbind (rbind m f) g = rbind m (\<lambda>x. rbind (f x) g)"
  by (cases m) auto

lemma is_ok_simps [simp, result_simps]: "is_ok (Inr x)" "\<not> is_ok (Inl e)"
  by (simp_all add: is_ok_def)

lemma is_ok_iff: "is_ok r \<longleftrightarrow> (\<exists>x. r = Inr x)"
  by (cases r) auto

text \<open>The result is a value with the property; used to state that a concrete run succeeds.\<close>

definition ok_with :: "('a \<Rightarrow> bool) \<Rightarrow> 'a result \<Rightarrow> bool" where
  "ok_with P r = (case r of Inl e \<Rightarrow> False | Inr x \<Rightarrow> P x)"

lemma ok_with_simps [simp, result_simps]: "ok_with P (Inr x) = P x" "\<not> ok_with P (Inl e)"
  by (simp_all add: ok_with_def)

lemma ok_withE:
  assumes "ok_with P r"
  obtains x where "r = Inr x" "P x"
  using assms by (cases r) auto

text \<open>A guard: \<open>if bad: raise e\<close>.\<close>

definition raise_if :: "bool \<Rightarrow> py_error \<Rightarrow> unit result" where
  "raise_if b e = (if b then Inl e else Inr ())"

lemma raise_if_simps [simp, result_simps]:
  "raise_if True e = Inl e"
  "raise_if False e = Inr ()"
  "raise_if b e = Inr u \<longleftrightarrow> \<not> b"
  "raise_if b e = Inl e' \<longleftrightarrow> b \<and> e = e'"
  by (auto simp: raise_if_def)

text \<open>Running a checker over a list, stopping at the first exception.\<close>

fun rforall :: "('a \<Rightarrow> unit result) \<Rightarrow> 'a list \<Rightarrow> unit result" where
  "rforall f [] = Inr ()"
| "rforall f (x # xs) = rbind (f x) (\<lambda>_. rforall f xs)"

lemma rforall_Inr: "rforall f xs = Inr () \<longleftrightarrow> (\<forall>x \<in> set xs. f x = Inr ())"
  by (induction xs) (auto simp: result_simps)

fun rmap :: "('a \<Rightarrow> 'b result) \<Rightarrow> 'a list \<Rightarrow> 'b list result" where
  "rmap f [] = Inr []"
| "rmap f (x # xs) = rbind (f x) (\<lambda>y. rbind (rmap f xs) (\<lambda>ys. Inr (y # ys)))"

lemma rmap_Inr: "rmap f xs = Inr ys \<longleftrightarrow> list_all2 (\<lambda>x y. f x = Inr y) xs ys"
  by (induction xs arbitrary: ys) (auto simp: result_simps list_all2_Cons1)

lemma rmap_length: "rmap f xs = Inr ys \<Longrightarrow> length ys = length xs"
  by (auto simp: rmap_Inr list_all2_lengthD)

section \<open>Time\<close>

type_synonym time = int

definition td_seconds :: "int \<Rightarrow> time" where "td_seconds n = n * 1000000"
definition td_minutes :: "int \<Rightarrow> time" where "td_minutes n = td_seconds (n * 60)"
definition td_hours :: "int \<Rightarrow> time" where "td_hours n = td_seconds (n * 3600)"
definition td_days :: "int \<Rightarrow> time" where "td_days n = td_seconds (n * 86400)"

lemmas td_defs = td_seconds_def td_minutes_def td_hours_def td_days_def

text \<open>The retry delay every worker loop of the services uses: \<open>min(300, 2 ** attempts)\<close>.\<close>

definition backoff :: "nat \<Rightarrow> int" where
  "backoff attempts = min 300 (2 ^ attempts)"

lemma backoff_bounds: "1 \<le> backoff n \<and> backoff n \<le> 300"
  by (simp add: backoff_def)

lemma backoff_pos: "0 < td_seconds (backoff n)"
  using backoff_bounds[of n] by (simp add: td_seconds_def)

section \<open>Strings\<close>

definition py_lower_char :: "char \<Rightarrow> char" where
  "py_lower_char c =
     (let n = (of_char c :: nat) in
      if 65 \<le> n \<and> n \<le> 90 \<or> 192 \<le> n \<and> n \<le> 222 \<and> n \<noteq> 215 then char_of (n + 32) else c)"

definition py_lower :: "string \<Rightarrow> string" where
  "py_lower s = map py_lower_char s"

definition py_space :: "char \<Rightarrow> bool" where
  "py_space c =
     (let n = (of_char c :: nat) in
      9 \<le> n \<and> n \<le> 13 \<or> 28 \<le> n \<and> n \<le> 32 \<or> n = 133 \<or> n = 160)"

definition py_strip :: "string \<Rightarrow> string" where
  "py_strip s = rev (dropWhile py_space (rev (dropWhile py_space s)))"

text \<open>\<open>s.split(c)\<close> for a one-character separator: never the empty list.\<close>

fun py_split :: "char \<Rightarrow> string \<Rightarrow> string list" where
  "py_split c [] = [[]]"
| "py_split c (x # xs) =
     (if x = c then [] # py_split c xs
      else case py_split c xs of [] \<Rightarrow> [[x]] | p # ps \<Rightarrow> (x # p) # ps)"

lemma py_split_not_Nil [simp]: "py_split c s \<noteq> []"
  by (induction s) (auto split: list.splits)

lemma py_split_pieces: "p \<in> set (py_split c s) \<Longrightarrow> c \<notin> set p"
  by (induction s arbitrary: p) (auto split: list.splits if_splits)

text \<open>\<open>s.partition(c)\<close>: the part before, whether the separator occurs, the part after.\<close>

fun py_partition :: "char \<Rightarrow> string \<Rightarrow> string \<times> bool \<times> string" where
  "py_partition c [] = ([], False, [])"
| "py_partition c (x # xs) =
     (if x = c then ([], True, xs)
      else case py_partition c xs of (a, b, r) \<Rightarrow> (x # a, b, r))"

definition is_ascii_digit :: "char \<Rightarrow> bool" where
  "is_ascii_digit c = (let n = (of_char c :: nat) in 48 \<le> n \<and> n \<le> 57)"

text \<open>\<open>str.isdigit\<close> also accepts the superscripts two, three and one, which \<open>int\<close> rejects.\<close>

definition py_isdigit :: "string \<Rightarrow> bool" where
  "py_isdigit s =
     (s \<noteq> [] \<and> list_all (\<lambda>c. is_ascii_digit c \<or> (of_char c :: nat) \<in> {178, 179, 185}) s)"

fun digits_value :: "nat \<Rightarrow> string \<Rightarrow> nat" where
  "digits_value acc [] = acc"
| "digits_value acc (c # cs) = digits_value (acc * 10 + (of_char c - 48)) cs"

definition py_int_of_digits :: "string \<Rightarrow> int result" where
  "py_int_of_digits s =
     (if s \<noteq> [] \<and> list_all is_ascii_digit s then Inr (int (digits_value 0 s))
      else Inl (ValueError ''invalid literal for int() with base 10''))"

fun show_nat :: "nat \<Rightarrow> string" where
  "show_nat n = (if n < 10 then [char_of (48 + n)] else show_nat (n div 10) @ [char_of (48 + n mod 10)])"

declare show_nat.simps [simp del]

definition show_int :: "int \<Rightarrow> string" where
  "show_int i = (if i < 0 then CHR ''-'' # show_nat (nat (- i)) else show_nat (nat i))"

lemma show_nat_not_Nil [simp]: "show_nat n \<noteq> []"
  by (subst show_nat.simps) simp

lemma digit_char: "(d::nat) < 10 \<Longrightarrow> is_ascii_digit (char_of (48 + d)) \<and> of_char (char_of (48 + d) :: char) = 48 + d"
  by (simp add: is_ascii_digit_def Let_def of_char_of)

lemma show_nat_digits: "list_all is_ascii_digit (show_nat n)"
proof (induction n rule: show_nat.induct)
  case (1 n)
  then show ?case
    using digit_char[of n] digit_char[of "n mod 10"] by (subst show_nat.simps) auto
qed

lemma digits_value_append: "digits_value a (xs @ [c]) = digits_value a xs * 10 + (of_char c - 48)"
  by (induction xs arbitrary: a) auto

lemma digits_value_show: "digits_value 0 (show_nat n) = n"
proof (induction n rule: show_nat.induct)
  case (1 n)
  then show ?case
    using digit_char[of n] digit_char[of "n mod 10"]
    by (subst show_nat.simps) (auto simp: digits_value_append)
qed

lemma show_nat_inj: "show_nat m = show_nat n \<longleftrightarrow> m = n"
  by (metis digits_value_show)

lemma py_int_show_nat: "py_int_of_digits (show_nat n) = Inr (int n)"
  by (simp add: py_int_of_digits_def show_nat_digits digits_value_show)

section \<open>JSON documents\<close>

text \<open>
  A document as \<open>json.loads\<close> and \<open>yaml.safe_load\<close> return it: numbers are integers or
  finite floats (the rational they denote), objects keep the order of their keys.
\<close>

datatype json =
    JNull
  | JBool bool
  | JInt int
  | JFloat rat
  | JStr string
  | JList "json list"
  | JObj "(string \<times> json) list"

type_synonym dict = "(string \<times> json) list"

definition dict_get :: "dict \<Rightarrow> string \<Rightarrow> json option" where
  "dict_get d k = map_of d k"

text \<open>\<open>d.get(k)\<close>, with \<open>None\<close> for a missing key, and \<open>d.get(k, default)\<close>.\<close>

definition py_get :: "dict \<Rightarrow> string \<Rightarrow> json" where
  "py_get d k = (case map_of d k of None \<Rightarrow> JNull | Some v \<Rightarrow> v)"

definition py_get_default :: "dict \<Rightarrow> string \<Rightarrow> json \<Rightarrow> json" where
  "py_get_default d k v = (case map_of d k of None \<Rightarrow> v | Some w \<Rightarrow> w)"

text \<open>\<open>d[k] = v\<close>: in place when the key is there, appended otherwise.\<close>

definition dict_set :: "string \<Rightarrow> json \<Rightarrow> dict \<Rightarrow> dict" where
  "dict_set k v d = AList.update k v d"

lemma dict_get_set [simp]: "dict_get (dict_set k v d) k' = (if k' = k then Some v else dict_get d k')"
  by (simp add: dict_get_def dict_set_def AList.update_conv')

lemma py_get_conv: "py_get d k = (case dict_get d k of None \<Rightarrow> JNull | Some v \<Rightarrow> v)"
  by (simp add: py_get_def dict_get_def)

lemma py_get_set [simp]: "py_get (dict_set k v d) k' = (if k' = k then v else py_get d k')"
  by (simp add: py_get_conv)

fun py_truthy :: "json \<Rightarrow> bool" where
  "py_truthy JNull = False"
| "py_truthy (JBool b) = b"
| "py_truthy (JInt n) = (n \<noteq> 0)"
| "py_truthy (JFloat r) = (r \<noteq> 0)"
| "py_truthy (JStr s) = (s \<noteq> [])"
| "py_truthy (JList xs) = (xs \<noteq> [])"
| "py_truthy (JObj kvs) = (kvs \<noteq> [])"

fun is_jstr :: "json \<Rightarrow> bool" where
  "is_jstr (JStr s) = True"
| "is_jstr _ = False"

fun is_jobj :: "json \<Rightarrow> bool" where
  "is_jobj (JObj d) = True"
| "is_jobj _ = False"

fun is_jlist :: "json \<Rightarrow> bool" where
  "is_jlist (JList xs) = True"
| "is_jlist _ = False"

text \<open>\<open>isinstance(v, int)\<close>: booleans are integers.\<close>

fun is_jint :: "json \<Rightarrow> bool" where
  "is_jint (JInt n) = True"
| "is_jint (JBool b) = True"
| "is_jint _ = False"

fun jint :: "json \<Rightarrow> int" where
  "jint (JInt n) = n"
| "jint (JBool b) = (if b then 1 else 0)"
| "jint _ = 0"

fun jstr :: "json \<Rightarrow> string" where
  "jstr (JStr s) = s"
| "jstr _ = []"

fun jlist :: "json \<Rightarrow> json list" where
  "jlist (JList xs) = xs"
| "jlist _ = []"

fun jobj :: "json \<Rightarrow> dict" where
  "jobj (JObj d) = d"
| "jobj _ = []"

lemma is_jstr_iff: "is_jstr v \<longleftrightarrow> (\<exists>s. v = JStr s)"
  by (cases v) auto

lemma is_jobj_iff: "is_jobj v \<longleftrightarrow> (\<exists>d. v = JObj d)"
  by (cases v) auto

lemma is_jlist_iff: "is_jlist v \<longleftrightarrow> (\<exists>xs. v = JList xs)"
  by (cases v) auto

text \<open>Only lists and objects are unhashable.\<close>

fun py_hashable :: "json \<Rightarrow> bool" where
  "py_hashable (JList xs) = False"
| "py_hashable (JObj d) = False"
| "py_hashable _ = True"

text \<open>
  Python's \<open>==\<close>: \<open>True == 1 == 1.0\<close>, lists elementwise, objects as mappings.
  \<open>py_norm\<close> maps a document to one representative of its class: numbers of integral value
  become integers, the keys of an object are sorted.
\<close>

fun py_norm :: "json \<Rightarrow> json" where
  "py_norm (JBool b) = JInt (if b then 1 else 0)"
| "py_norm (JFloat r) = (if of_int \<lfloor>r\<rfloor> = r then JInt \<lfloor>r\<rfloor> else JFloat r)"
| "py_norm (JList xs) = JList (map py_norm xs)"
| "py_norm (JObj d) = JObj (sort_key fst (map (\<lambda>(k, v). (k, py_norm v)) d))"
| "py_norm v = v"

definition py_eq :: "json \<Rightarrow> json \<Rightarrow> bool" where
  "py_eq a b = (py_norm a = py_norm b)"

lemma py_eq_refl [simp]: "py_eq a a"
  by (simp add: py_eq_def)

lemma py_eq_sym: "py_eq a b \<longleftrightarrow> py_eq b a"
  by (auto simp: py_eq_def)

lemma py_eq_trans: "py_eq a b \<Longrightarrow> py_eq b c \<Longrightarrow> py_eq a c"
  by (simp add: py_eq_def)

lemma py_eq_JStr [simp]:
  "py_eq (JStr s) (JStr t) \<longleftrightarrow> s = t"
  "py_eq (JStr s) JNull \<longleftrightarrow> False"
  "py_eq JNull (JStr s) \<longleftrightarrow> False"
  by (simp_all add: py_eq_def)

definition py_in :: "json \<Rightarrow> json list \<Rightarrow> bool" where
  "py_in v xs = list_ex (py_eq v) xs"

lemma py_in_JStr: "py_in (JStr s) (map JStr ss) \<longleftrightarrow> s \<in> set ss"
  by (auto simp: py_in_def list_ex_iff)

text \<open>\<open>list(dict.fromkeys(xs))\<close>: the first of each class of equal values, in order.\<close>

fun dedup_onto :: "json list \<Rightarrow> json list \<Rightarrow> json list" where
  "dedup_onto seen [] = []"
| "dedup_onto seen (x # xs) =
     (if py_in x seen then dedup_onto seen xs else x # dedup_onto (x # seen) xs)"

definition dict_fromkeys :: "json list \<Rightarrow> json list result" where
  "dict_fromkeys xs =
     (if list_all py_hashable xs then Inr (dedup_onto [] xs)
      else Inl (TypeError ''unhashable type''))"

lemma dedup_onto_subset: "set (dedup_onto seen xs) \<subseteq> set xs"
  by (induction seen xs rule: dedup_onto.induct) auto

lemma dedup_onto_empty [simp]: "dedup_onto [] xs = [] \<longleftrightarrow> xs = []"
  by (cases xs) (auto simp: py_in_def)

lemma dedup_onto_covers: "x \<in> set xs \<Longrightarrow> py_in x seen \<or> py_in x (dedup_onto seen xs)"
proof (induction seen xs rule: dedup_onto.induct)
  case (2 seen y ys)
  then show ?case
    by (auto simp: py_in_def list_ex_iff py_eq_sym intro: py_eq_trans split: if_splits)
qed simp

lemma dict_fromkeys_covers: "dict_fromkeys xs = Inr ys \<Longrightarrow> x \<in> set xs \<Longrightarrow> py_in x ys"
  using dedup_onto_covers[of x xs "[]"] by (auto simp: dict_fromkeys_def py_in_def split: if_splits)

lemma dict_fromkeys_last: "\<exists>xs. dict_fromkeys (xs @ [x]) = Inr ys \<Longrightarrow> py_in x ys"
  by (auto intro: dict_fromkeys_covers)

text \<open>\<open>sort_keys=True\<close>: keys in order, at every level.\<close>

fun sort_keys :: "json \<Rightarrow> json" where
  "sort_keys (JList xs) = JList (map sort_keys xs)"
| "sort_keys (JObj d) = JObj (sort_key fst (map (\<lambda>(k, v). (k, sort_keys v)) d))"
| "sort_keys v = v"

definition hex_digit :: "nat \<Rightarrow> char" where
  "hex_digit n = (if n < 10 then char_of (48 + n) else char_of (87 + n))"

text \<open>One character of a JSON string literal, with \<open>ensure_ascii\<close> left at its default.\<close>

definition json_escape_char :: "char \<Rightarrow> string" where
  "json_escape_char c =
     (let n = (of_char c :: nat) in
      if n = 34 then [char_of (92::nat), char_of (34::nat)]
      else if n = 92 then [char_of (92::nat), char_of (92::nat)]
      else if n = 10 then char_of (92::nat) # ''n''
      else if n = 13 then char_of (92::nat) # ''r''
      else if n = 9 then char_of (92::nat) # ''t''
      else if n = 8 then char_of (92::nat) # ''b''
      else if n = 12 then char_of (92::nat) # ''f''
      else if 32 \<le> n \<and> n < 127 then [c]
      else char_of (92::nat) # ''u00'' @ [hex_digit (n div 16), hex_digit (n mod 16)])"

definition json_quote :: "string \<Rightarrow> string" where
  "json_quote s = [char_of (34::nat)] @ concat (map json_escape_char s) @ [char_of (34::nat)]"

fun join :: "string \<Rightarrow> string list \<Rightarrow> string" where
  "join sep [] = []"
| "join sep [x] = x"
| "join sep (x # y # xs) = x @ sep @ join sep (y # xs)"

text \<open>
  \<open>json.dumps(value, separators=(item, key))\<close>. The text of a float is CPython's
  \<open>float.__repr__\<close>, passed as \<open>frepr\<close>.
\<close>

fun json_dumps :: "(rat \<Rightarrow> string) \<Rightarrow> string \<Rightarrow> string \<Rightarrow> json \<Rightarrow> string" where
  "json_dumps frepr isep ksep JNull = ''null''"
| "json_dumps frepr isep ksep (JBool b) = (if b then ''true'' else ''false'')"
| "json_dumps frepr isep ksep (JInt n) = show_int n"
| "json_dumps frepr isep ksep (JFloat r) = frepr r"
| "json_dumps frepr isep ksep (JStr s) = json_quote s"
| "json_dumps frepr isep ksep (JList xs) =
     ''['' @ join isep (map (json_dumps frepr isep ksep) xs) @ '']''"
| "json_dumps frepr isep ksep (JObj d) =
     ''{'' @ join isep (map (\<lambda>(k, v). json_quote k @ ksep @ json_dumps frepr isep ksep v) d) @ ''}''"

text \<open>\<open>canonical_json\<close> of \<open>evidence_signing.py\<close> and the compact sorted form the services store.\<close>

definition canonical_json :: "(rat \<Rightarrow> string) \<Rightarrow> json \<Rightarrow> string" where
  "canonical_json frepr v = json_dumps frepr '','' '':'' (sort_keys v)"

definition jopt :: "('a \<Rightarrow> json) \<Rightarrow> 'a option \<Rightarrow> json" where
  "jopt f v = (case v of None \<Rightarrow> JNull | Some x \<Rightarrow> f x)"

section \<open>Tables\<close>

text \<open>
  A table is the list of its rows in primary-key order.
  \<open>scalar\<close> is \<open>db.scalar(select(...).where(P))\<close>, \<open>where_rows\<close> the whole result,
  \<open>update_rows\<close> an \<open>UPDATE ... WHERE\<close> (its row count is \<open>row_count\<close>).
  An \<open>ORDER BY\<close> is a stable sort: ties, which SQL leaves open, keep the key order.
\<close>

definition scalar :: "('r \<Rightarrow> bool) \<Rightarrow> 'r list \<Rightarrow> 'r option" where
  "scalar P t = find P t"

definition where_rows :: "('r \<Rightarrow> bool) \<Rightarrow> 'r list \<Rightarrow> 'r list" where
  "where_rows P t = filter P t"

definition update_rows :: "('r \<Rightarrow> bool) \<Rightarrow> ('r \<Rightarrow> 'r) \<Rightarrow> 'r list \<Rightarrow> 'r list" where
  "update_rows P f t = map (\<lambda>r. if P r then f r else r) t"

definition row_count :: "('r \<Rightarrow> bool) \<Rightarrow> 'r list \<Rightarrow> nat" where
  "row_count P t = length (filter P t)"

definition order_by :: "('r \<Rightarrow> 'k::linorder) \<Rightarrow> 'r list \<Rightarrow> 'r list" where
  "order_by k t = sort_key k t"

definition order_by_desc :: "('r \<Rightarrow> int) \<Rightarrow> 'r list \<Rightarrow> 'r list" where
  "order_by_desc k t = sort_key (\<lambda>r. - k r) t"

text \<open>The key of the next row of a table.\<close>

definition next_id :: "('r \<Rightarrow> nat) \<Rightarrow> 'r list \<Rightarrow> nat" where
  "next_id k t = Suc (fold (\<lambda>r m. max (k r) m) t 0)"

definition unique_key :: "('r \<Rightarrow> 'k) \<Rightarrow> 'r list \<Rightarrow> bool" where
  "unique_key k t = distinct (map k t)"

lemma scalar_Some: "scalar P t = Some r \<Longrightarrow> r \<in> set t \<and> P r"
  by (auto simp: scalar_def find_Some_iff in_set_conv_nth)

lemma scalar_None [store]: "scalar P t = None \<longleftrightarrow> (\<forall>r \<in> set t. \<not> P r)"
  by (auto simp: scalar_def find_None_iff)

lemma scalar_ex: "r \<in> set t \<Longrightarrow> P r \<Longrightarrow> \<exists>r'. scalar P t = Some r'"
  by (cases "scalar P t") (auto simp: store)

lemma scalar_append [store]:
  "scalar P (t @ u) = (case scalar P t of None \<Rightarrow> scalar P u | Some r \<Rightarrow> Some r)"
  by (induction t) (auto simp: scalar_def)

lemma scalar_Cons [store]: "scalar P (r # t) = (if P r then Some r else scalar P t)"
  by (simp add: scalar_def)

lemma scalar_Nil [simp, store]: "scalar P [] = None"
  by (simp add: scalar_def)

lemma scalar_unique:
  assumes "unique_key k t" and "r \<in> set t" and "P r" and "\<And>r'. P r' \<Longrightarrow> k r' = k r"
  shows "scalar P t = Some r"
proof -
  obtain r' where r': "scalar P t = Some r'"
    using scalar_ex[of r t P] assms(2,3) by auto
  then have mem: "r' \<in> set t" and P: "P r'"
    using scalar_Some[OF r'] by simp_all
  from P have "k r' = k r" by (rule assms(4))
  moreover have "inj_on k (set t)"
    using assms(1) by (simp add: unique_key_def distinct_map)
  ultimately have "r' = r"
    using mem assms(2) by (auto dest: inj_onD)
  with r' show ?thesis by simp
qed

lemma set_where_rows [store]: "set (where_rows P t) = {r \<in> set t. P r}"
  by (auto simp: where_rows_def)

lemma set_order_by [simp, store]: "set (order_by k t) = set t"
  by (simp add: order_by_def)

lemma order_by_Nil [simp]: "order_by k t = [] \<longleftrightarrow> t = []"
  by (metis set_empty set_order_by)

lemma set_order_by_desc [simp, store]: "set (order_by_desc k t) = set t"
  by (simp add: order_by_desc_def)

lemma update_rows_simps [simp]:
  "update_rows P f [] = []"
  "update_rows P f (r # t) = (if P r then f r else r) # update_rows P f t"
  by (simp_all add: update_rows_def)

lemma length_update_rows [simp, store]: "length (update_rows P f t) = length t"
  by (simp add: update_rows_def)

lemma set_update_rows [store]: "set (update_rows P f t) = (\<lambda>r. if P r then f r else r) ` set t"
  by (simp add: update_rows_def)

lemma update_rows_none [store]: "\<forall>r \<in> set t. \<not> P r \<Longrightarrow> update_rows P f t = t"
  by (induction t) auto

lemma scalar_update:
  assumes "\<And>r. Q r \<Longrightarrow> P (f r) = P r"
  shows "scalar P (update_rows Q f t) = map_option (\<lambda>r. if Q r then f r else r) (scalar P t)"
  using assms by (induction t) (auto simp: scalar_Cons)

lemma map_update_rows:
  assumes "\<And>r. P r \<Longrightarrow> g (f r) = g r"
  shows "map g (update_rows P f t) = map g t"
  using assms by (simp add: update_rows_def)

lemma update_rows_all:
  assumes "\<forall>r \<in> set t. Q r" and "\<And>r. r \<in> set t \<Longrightarrow> P r \<Longrightarrow> Q r \<Longrightarrow> Q (f r)"
  shows "\<forall>r \<in> set (update_rows P f t). Q r"
  using assms by (auto simp: set_update_rows)

lemma row_count_zero: "row_count P t = 0 \<longleftrightarrow> (\<forall>r \<in> set t. \<not> P r)"
  by (simp add: row_count_def filter_empty_conv)

lemma unique_row_count:
  assumes "unique_key k t" and "r \<in> set t" and "P r" and "\<And>r'. P r' \<Longrightarrow> k r' = k r"
  shows "row_count P t = 1"
  using assms(1,2)
proof (induction t)
  case (Cons x t)
  have "filter P t = []" if "k r \<notin> k ` set t"
  proof -
    have "\<not> P y" if "y \<in> set t" for y
      using \<open>k r \<notin> k ` set t\<close> that assms(4)[of y] by (metis imageI)
    then show ?thesis by (simp add: filter_empty_conv)
  qed
  moreover have "\<not> P x" if "k x \<noteq> k r" using that assms(4)[of x] by blast
  ultimately show ?case
    using Cons assms(3) by (auto simp: unique_key_def row_count_def)
qed simp

lemma unique_key_eq: "unique_key k t \<Longrightarrow> r \<in> set t \<Longrightarrow> r' \<in> set t \<Longrightarrow> k r = k r' \<Longrightarrow> r = r'"
  by (auto simp: unique_key_def distinct_map inj_on_def)

lemma update_rows_cong: "(\<And>r. r \<in> set t \<Longrightarrow> P r = Q r) \<Longrightarrow> update_rows P f t = update_rows Q f t"
  by (simp add: update_rows_def)

lemma update_rows_twice:
  "(\<And>r. P (f r) = P r) \<Longrightarrow> update_rows P g (update_rows P f t) = update_rows P (g \<circ> f) t"
  by (auto simp: update_rows_def)

lemma row_count_append: "row_count P (t @ u) = row_count P t + row_count P u"
  by (simp add: row_count_def)

lemma row_count_Cons: "row_count P (r # t) = (if P r then 1 else 0) + row_count P t" "row_count P [] = 0"
  by (simp_all add: row_count_def)

lemma next_id_upper: "r \<in> set t \<Longrightarrow> k r < next_id k t"
proof -
  have *: "m \<le> fold (\<lambda>r m. max (k r) m) t m \<and>
           (\<forall>r \<in> set t. k r \<le> fold (\<lambda>r m. max (k r) m) t m)" for m
  proof (induction t arbitrary: m)
    case (Cons x t)
    from Cons[of "max (k x) m"] show ?case by auto
  qed simp
  show "r \<in> set t \<Longrightarrow> k r < next_id k t"
    using *[of 0] by (auto simp: next_id_def le_imp_less_Suc)
qed

lemma unique_key_insert:
  "unique_key k t \<Longrightarrow> k r = next_id k t \<Longrightarrow> unique_key k (t @ [r])"
  using next_id_upper[of _ t k] by (force simp: unique_key_def)

lemma unique_key_update [store]:
  "(\<And>r. P r \<Longrightarrow> k (f r) = k r) \<Longrightarrow> unique_key k (update_rows P f t) = unique_key k t"
  by (simp add: unique_key_def map_update_rows)

text \<open>\<open>x or d\<close> on an optional integer, and \<open>min(max(1, x or d), cap)\<close>.\<close>

definition or_int :: "int option \<Rightarrow> int \<Rightarrow> int" where
  "or_int x d = (case x of None \<Rightarrow> d | Some n \<Rightarrow> if n = 0 then d else n)"

definition bounded_limit :: "int option \<Rightarrow> int \<Rightarrow> int \<Rightarrow> nat" where
  "bounded_limit x d cap = nat (min (max 1 (or_int x d)) cap)"

lemma bounded_limit_bounds: "1 \<le> cap \<Longrightarrow> 1 \<le> bounded_limit x d cap \<and> int (bounded_limit x d cap) \<le> cap"
  by (auto simp: bounded_limit_def nat_le_iff Suc_le_eq)

text \<open>\<open>s or None\<close> and \<open>s or d\<close> on strings.\<close>

definition or_none :: "string \<Rightarrow> string option" where
  "or_none s = (if s = [] then None else Some s)"

definition truthy_opt :: "string option \<Rightarrow> bool" where
  "truthy_opt x = (case x of None \<Rightarrow> False | Some s \<Rightarrow> s \<noteq> [])"

end
