(* ===== verification/WorkQueue.thy ===== *)
theory WorkQueue
  imports Prelude
begin

text \<open>
  The contract of the three tables the workers drain by claiming: background jobs, the governance
  outbox and the receipts waiting for a signature. A row waits, is held by a worker, or is closed; a
  claim counts an attempt, settling a held row closes it or lets it wait again while attempts are
  left, and the recovery of stale claims never counts an attempt. The lemmas, proved once, bound the
  attempts and the number of steps any row can take.
\<close>

datatype phase = Waiting | Held | Closed

datatype 'o queue_event = Claim time | Settle 'o | Recover time

locale work_queue =
  fixes phase :: "'r \<Rightarrow> phase"
    and attempts :: "'r \<Rightarrow> nat"
    and limit :: "'r \<Rightarrow> nat"
    and claim :: "time \<Rightarrow> 'r \<Rightarrow> 'r"
    and settle :: "'o \<Rightarrow> 'r \<Rightarrow> 'r"
    and recover :: "time \<Rightarrow> 'r \<Rightarrow> 'r"
  assumes claim_law: "phase r = Waiting \<Longrightarrow>
      phase (claim now r) = Held \<and> attempts (claim now r) = Suc (attempts r) \<and> limit (claim now r) = limit r"
    and settle_law: "phase r = Held \<Longrightarrow>
      phase (settle out r) \<noteq> Held \<and> attempts (settle out r) = attempts r \<and> limit (settle out r) = limit r \<and>
      (phase (settle out r) = Waiting \<longrightarrow> attempts r < limit r)"
    and recover_law: "phase r = Held \<Longrightarrow>
      attempts (recover now r) = attempts r \<and> limit (recover now r) = limit r \<and>
      (phase (recover now r) = Waiting \<longrightarrow> attempts r < limit r)"
begin

fun enabled :: "'r \<Rightarrow> 'o queue_event \<Rightarrow> bool" where
  "enabled r (Claim now) \<longleftrightarrow> phase r = Waiting"
| "enabled r (Settle out) \<longleftrightarrow> phase r = Held"
| "enabled r (Recover now) \<longleftrightarrow> phase r = Held \<and> phase (recover now r) \<noteq> Held"

fun apply_event :: "'o queue_event \<Rightarrow> 'r \<Rightarrow> 'r" where
  "apply_event (Claim now) r = claim now r"
| "apply_event (Settle out) r = settle out r"
| "apply_event (Recover now) r = recover now r"

text \<open>The history of a row: events in order, those that do not apply having no effect.\<close>

fun history :: "'o queue_event list \<Rightarrow> 'r \<Rightarrow> 'r" where
  "history [] r = r"
| "history (e # es) r = history es (if enabled r e then apply_event e r else r)"

fun effective :: "'o queue_event list \<Rightarrow> 'r \<Rightarrow> nat" where
  "effective [] r = 0"
| "effective (e # es) r =
     (if enabled r e then Suc (effective es (apply_event e r)) else effective es r)"

fun claims :: "'o queue_event list \<Rightarrow> 'r \<Rightarrow> nat" where
  "claims [] r = 0"
| "claims (e # es) r =
     (if enabled r e
      then (case e of Claim _ \<Rightarrow> 1 | _ \<Rightarrow> 0) + claims es (apply_event e r)
      else claims es r)"

definition within_limit :: "'r \<Rightarrow> bool" where
  "within_limit r \<longleftrightarrow>
     attempts r \<le> limit r \<and> (phase r = Waiting \<longrightarrow> attempts r < limit r)"

definition work_left :: "'r \<Rightarrow> nat" where
  "work_left r =
     2 * (limit r - attempts r) + (case phase r of Held \<Rightarrow> 1 | _ \<Rightarrow> 0)"

lemma event_within_limit:
  "within_limit r \<Longrightarrow> enabled r e \<Longrightarrow> within_limit (apply_event e r) \<and> limit (apply_event e r) = limit r"
  by (cases e) (auto simp: within_limit_def claim_law settle_law recover_law)

lemma event_decreases:
  "within_limit r \<Longrightarrow> enabled r e \<Longrightarrow> work_left (apply_event e r) < work_left r"
  using claim_law[of r] settle_law[of r] recover_law[of r]
  by (cases e) (auto simp: within_limit_def work_left_def split: phase.splits)

lemma history_within_limit:
  "within_limit r \<Longrightarrow> within_limit (history es r) \<and> limit (history es r) = limit r"
  by (induction es arbitrary: r) (auto simp: event_within_limit)

lemma event_attempts:
  "enabled r e \<Longrightarrow> attempts (apply_event e r) = attempts r + (case e of Claim _ \<Rightarrow> 1 | _ \<Rightarrow> 0)"
  by (cases e) (auto simp: claim_law settle_law recover_law)

lemma history_attempts: "attempts (history es r) = attempts r + claims es r"
  by (induction es arbitrary: r) (auto simp: event_attempts)

text \<open>A row is claimed at most as often as its limit allows, and settles after boundedly many steps.\<close>

lemma claims_bounded: "within_limit r \<Longrightarrow> attempts r + claims es r \<le> limit r"
  using history_within_limit[of r es] history_attempts[of es r] by (simp add: within_limit_def)

lemma steps_bounded: "within_limit r \<Longrightarrow> effective es r \<le> work_left r"
proof (induction es arbitrary: r)
  case (Cons e es)
  show ?case
  proof (cases "enabled r e")
    case True
    from Cons.IH[of "apply_event e r"] event_within_limit[OF Cons.prems True]
      event_decreases[OF Cons.prems True] True show ?thesis by simp
  qed (use Cons in auto)
qed simp

end

end
