(* ===== verification/Models.thy ===== *)
theory Models
  imports Prelude
begin

text \<open>
  The relational state of \<open>app/models.py\<close>: one record per mapped class, in the order of the
  file, its fields named \<open>prefix_column\<close>, and the record \<open>db\<close> of the tables a session sees.
  A \<open>status\<close>, \<open>stage\<close> or \<open>role\<close> column whose only values in the code are
  a fixed set of literals is a datatype with one constructor per literal; every other text column
  is a string. A \<open>..._json\<close> column holds the document that \<open>json.loads\<close> reads from it.
  Decisions and roles are linearly ordered as \<open>DECISION_ORDER\<close> and \<open>ROLES\<close> order them.
\<close>

section \<open>Enumerated columns\<close>

text \<open>\<open>DECISION_ORDER\<close> of \<open>policy_engine.py\<close>.\<close>

datatype decision = Allow | Conditional | Deny

fun decision_rank :: "decision \<Rightarrow> nat" where
  "decision_rank Allow = 0"
| "decision_rank Conditional = 1"
| "decision_rank Deny = 2"

lemma decision_rank_inject: "decision_rank a = decision_rank b \<longleftrightarrow> a = b"
  by (cases a; cases b) simp_all

instantiation decision :: linorder
begin

definition less_eq_decision :: "decision \<Rightarrow> decision \<Rightarrow> bool" where
  "less_eq_decision a b \<longleftrightarrow> decision_rank a \<le> decision_rank b"

definition less_decision :: "decision \<Rightarrow> decision \<Rightarrow> bool" where
  "less_decision a b \<longleftrightarrow> decision_rank a < decision_rank b"

instance
proof
  fix a b :: decision
  show "a \<le> b \<Longrightarrow> b \<le> a \<Longrightarrow> a = b"
    by (cases a; cases b) (auto simp: less_eq_decision_def)
qed (auto simp: less_eq_decision_def less_decision_def)

end

definition decision_str :: "decision \<Rightarrow> string" where
  "decision_str d = (case d of Allow \<Rightarrow> ''allow'' | Conditional \<Rightarrow> ''conditional'' | Deny \<Rightarrow> ''deny'')"

definition decision_of :: "json \<Rightarrow> decision option" where
  "decision_of v =
     (if v = JStr ''allow'' then Some Allow
      else if v = JStr ''conditional'' then Some Conditional
      else if v = JStr ''deny'' then Some Deny else None)"

lemma decision_of_str [simp]: "decision_of (JStr (decision_str d)) = Some d"
  by (cases d) (simp_all add: decision_of_def decision_str_def)

lemma decision_of_Some: "decision_of v = Some d \<longleftrightarrow> v = JStr (decision_str d)"
  by (cases d) (auto simp: decision_of_def decision_str_def)

lemma Deny_greatest [simp]: "d \<le> Deny"
  by (cases d) (simp_all add: less_eq_decision_def)

lemma decision_le_Allow [simp]: "d \<le> Allow \<longleftrightarrow> d = Allow"
  by (cases d) (simp_all add: less_eq_decision_def)

lemma Deny_le [simp]: "Deny \<le> d \<longleftrightarrow> d = Deny"
  by (cases d) (simp_all add: less_eq_decision_def)

text \<open>\<open>ROLES\<close> of \<open>auth.py\<close>, from the least to the greatest.\<close>

datatype role = ReadOnly | Auditor | Analyst | ConnectorOperator | DataOwner | Administrator

fun role_index :: "role \<Rightarrow> nat" where
  "role_index ReadOnly = 0"
| "role_index Auditor = 1"
| "role_index Analyst = 2"
| "role_index ConnectorOperator = 3"
| "role_index DataOwner = 4"
| "role_index Administrator = 5"

instantiation role :: linorder
begin

definition less_eq_role :: "role \<Rightarrow> role \<Rightarrow> bool" where
  "less_eq_role a b \<longleftrightarrow> role_index a \<le> role_index b"

definition less_role :: "role \<Rightarrow> role \<Rightarrow> bool" where
  "less_role a b \<longleftrightarrow> role_index a < role_index b"

instance
proof
  fix a b :: role
  show "a \<le> b \<Longrightarrow> b \<le> a \<Longrightarrow> a = b"
    by (cases a; cases b) (auto simp: less_eq_role_def)
qed (auto simp: less_eq_role_def less_role_def)

end

record principal =
  p_subject :: string
  p_role :: role
  p_tenant_id :: string

datatype job_state = JobPending | JobRunning | JobCompleted | JobFailed | JobCancelled
datatype outbox_state = OutPending | OutDispatching | OutDispatched | OutFailed
datatype signing_state = SigUnsigned | SigPending | SigSigning | SigSigned | SigFailed
datatype bundle_state = BDraft | BPending | BApproved | BActive | BRetired
datatype rollout_stage = Shadow | Canary | Paused | Enforce | StageCompleted
datatype rollout_state = RolloutActive | RolloutCompleted
datatype delivery_state = DelPending | DelDelivered | DelFailed | DelDeadLetter
datatype task_state = TaskOpen | TaskInProgress | TaskCompleted
datatype account_state = AcctActive | AcctDisabled
datatype credential_state = CredActive | CredRevoked
datatype rotation_state = RotGrace | RotCompleted
datatype resource_state = ResDraft | ResReview | ResApproved | ResDisabled
datatype enforcement_outcome = Applied | Rejected | Failed
datatype renewal_state = RenewalPending | RenewalApproved

section \<open>Rows\<close>

text \<open>\<open>DataAsset\<close>: table \<open>data_assets\<close>.\<close>

record data_asset =
  asset_id :: nat
  asset_tenant_id :: string
  asset_source :: string
  asset_source_account :: string
  asset_external_id :: string
  asset_name :: string
  asset_path :: string
  asset_mime_type :: string
  asset_size_bytes :: int
  asset_owner :: string
  asset_business_domain :: string
  asset_sensitivity :: string
  asset_classification_labels :: string
  asset_classification_reason :: string
  asset_classification_confidence :: rat
  asset_created_at :: "time option"
  asset_modified_at :: "time option"
  asset_last_accessed_at :: "time option"
  asset_first_seen_at :: time
  asset_last_seen_at :: time
  asset_age_days :: int
  asset_stale_score :: int
  asset_lifecycle_state :: string
  asset_retention_action :: string
  asset_retention_reason :: string
  asset_public_access :: bool
  asset_encryption :: string
  asset_ai_access :: string
  asset_ai_access_reason :: string
  asset_metadata_json :: json

text \<open>\<open>AIAgent\<close>: table \<open>ai_agents\<close>.\<close>

record ai_agent =
  agent_id :: nat
  agent_tenant_id :: string
  agent_key :: string
  agent_name :: string
  agent_owner :: string
  agent_business_purpose :: string
  agent_framework :: string
  agent_models :: string
  agent_allowed_domains :: string
  agent_max_sensitivity :: string
  agent_allowed_destinations :: string
  agent_approval_status :: string
  agent_risk_level :: string
  agent_last_activity_at :: "time option"

text \<open>\<open>DecisionAudit\<close>: table \<open>decision_audits\<close>.\<close>

record decision_audit =
  audit_id :: nat
  audit_tenant_id :: string
  audit_created_at :: time
  audit_agent_key :: string
  audit_asset_id :: nat
  audit_action :: string
  audit_destination :: string
  audit_purpose :: string
  audit_decision :: decision
  audit_risk_score :: int
  audit_policy_version :: string
  audit_reasons_json :: json
  audit_controls_json :: json

text \<open>\<open>GraphEdge\<close>: table \<open>graph_edges\<close>.\<close>

record graph_edge =
  edge_id :: nat
  edge_tenant_id :: string
  edge_source_type :: string
  edge_source_id :: string
  edge_relationship :: string
  edge_target_type :: string
  edge_target_id :: string
  edge_metadata_json :: json
  edge_created_at :: time

text \<open>\<open>BackgroundJob\<close>: table \<open>background_jobs\<close>.\<close>

record background_job =
  job_id :: nat
  job_tenant_id :: string
  job_job_id :: string
  job_job_type :: string
  job_status :: job_state
  job_payload_json :: json
  job_result_json :: json
  job_attempts :: nat
  job_max_attempts :: nat
  job_available_at :: time
  job_claimed_at :: "time option"
  job_finished_at :: "time option"
  job_cancel_requested :: bool
  job_error :: "string option"
  job_created_by :: string
  job_created_at :: time

text \<open>\<open>ConnectorSchedule\<close>: table \<open>connector_schedules\<close>.\<close>

record connector_schedule =
  sched_id :: nat
  sched_tenant_id :: string
  sched_schedule_id :: string
  sched_connector_type :: string
  sched_account :: string
  sched_interval_seconds :: int
  sched_schedule_type :: string
  sched_cron_expression :: "string option"
  sched_timezone :: string
  sched_maintenance_windows_json :: json
  sched_payload_json :: json
  sched_enabled :: bool
  sched_next_run_at :: time
  sched_last_enqueued_at :: "time option"
  sched_created_by :: string
  sched_created_at :: time
  sched_updated_at :: time

text \<open>\<open>ConnectorCapabilityPolicy\<close>: table \<open>connector_capability_policies\<close>.\<close>

record connector_capability_policy =
  ccp_id :: nat
  ccp_tenant_id :: string
  ccp_version :: int
  ccp_policy_json :: json
  ccp_updated_by :: string
  ccp_created_at :: time
  ccp_updated_at :: time

text \<open>\<open>ProviderRateLimit\<close>: table \<open>provider_rate_limits\<close>.\<close>

record provider_rate_limit =
  budget_id :: nat
  budget_tenant_id :: string
  budget_provider :: string
  budget_max_requests :: int
  budget_window_seconds :: int
  budget_used_requests :: int
  budget_window_started_at :: time
  budget_updated_at :: time

text \<open>\<open>SCIMResource\<close>: table \<open>scim_resources\<close>.\<close>

record scim_resource =
  scim_id :: nat
  scim_tenant_id :: string
  scim_resource_type :: string
  scim_resource_id :: string
  scim_external_id :: "string option"
  scim_user_name :: "string option"
  scim_display_name :: string
  scim_active :: bool
  scim_data_json :: json
  scim_deprovisioned_at :: "time option"
  scim_deprovisioned_by :: "string option"
  scim_created_at :: time
  scim_updated_at :: time

text \<open>\<open>PolicyBundle\<close>: table \<open>policy_bundles\<close>.\<close>

record policy_bundle =
  bundle_id :: nat
  bundle_tenant_id :: string
  bundle_bundle_id :: string
  bundle_name :: string
  bundle_version :: int
  bundle_status :: bundle_state
  bundle_definition_json :: json
  bundle_created_by :: string
  bundle_approved_by :: "string option"
  bundle_created_at :: time
  bundle_submitted_at :: "time option"
  bundle_approved_at :: "time option"
  bundle_activated_at :: "time option"
  bundle_retired_at :: "time option"

text \<open>\<open>PolicyException\<close>: table \<open>policy_exceptions\<close>.\<close>

record policy_exception =
  exn_id :: nat
  exn_tenant_id :: string
  exn_exception_id :: string
  exn_policy_id :: "string option"
  exn_agent_key :: "string option"
  exn_asset_id :: "nat option"
  exn_destination :: "string option"
  exn_action :: "string option"
  exn_purpose :: "string option"
  exn_override_decision :: decision
  exn_reason :: string
  exn_controls_json :: json
  exn_expires_at :: time
  exn_active :: bool
  exn_created_by :: string
  exn_approved_by :: string
  exn_created_at :: time
  exn_revoked_at :: "time option"
  exn_renewal_status :: "renewal_state option"
  exn_renewal_requested_until :: "time option"
  exn_renewal_requested_by :: "string option"
  exn_renewal_requested_at :: "time option"
  exn_renewal_reason :: "string option"
  exn_renewed_by :: "string option"
  exn_renewed_at :: "time option"

text \<open>\<open>PolicyApproverDelegation\<close>: table \<open>policy_approver_delegations\<close>.\<close>

record policy_approver_delegation =
  deleg_id :: nat
  deleg_tenant_id :: string
  deleg_delegation_id :: string
  deleg_subject :: string
  deleg_bundle_name :: "string option"
  deleg_can_approve_bundles :: bool
  deleg_can_approve_exceptions :: bool
  deleg_expires_at :: time
  deleg_active :: bool
  deleg_created_by :: string
  deleg_created_at :: time
  deleg_revoked_at :: "time option"

text \<open>\<open>IntegrationEndpoint\<close>: table \<open>integration_endpoints\<close>.\<close>

record integration_endpoint =
  endpoint_id :: nat
  endpoint_tenant_id :: string
  endpoint_endpoint_id :: string
  endpoint_name :: string
  endpoint_endpoint_type :: string
  endpoint_mode :: string
  endpoint_event_format :: string
  endpoint_url :: string
  endpoint_secret_ref :: "string option"
  endpoint_events_json :: json
  endpoint_enabled :: bool
  endpoint_created_by :: string
  endpoint_created_at :: time
  endpoint_updated_at :: time

text \<open>\<open>IntegrationDelivery\<close>: table \<open>integration_deliveries\<close>.\<close>

record integration_delivery =
  deliv_id :: nat
  deliv_tenant_id :: string
  deliv_delivery_id :: string
  deliv_endpoint_id :: string
  deliv_idempotency_key :: "string option"
  deliv_event_type :: string
  deliv_payload_json :: json
  deliv_status :: delivery_state
  deliv_attempts :: nat
  deliv_response_code :: "int option"
  deliv_error :: "string option"
  deliv_replayed_from :: "string option"
  deliv_last_attempted_at :: "time option"
  deliv_dead_lettered_at :: "time option"
  deliv_created_at :: time
  deliv_delivered_at :: "time option"

text \<open>\<open>LineageEvent\<close>: table \<open>lineage_events\<close>.\<close>

record lineage_event =
  lin_id :: nat
  lin_tenant_id :: string
  lin_event_id :: string
  lin_event_type :: string
  lin_event_time :: time
  lin_run_id :: string
  lin_job_namespace :: string
  lin_job_name :: string
  lin_producer :: "string option"
  lin_payload_json :: json
  lin_created_at :: time

text \<open>\<open>ServiceAccount\<close>: table \<open>service_accounts\<close>.\<close>

record service_account =
  acct_id :: nat
  acct_tenant_id :: string
  acct_account_id :: string
  acct_name :: string
  acct_description :: string
  acct_owner :: string
  acct_role :: role
  acct_status :: account_state
  acct_last_authenticated_at :: "time option"
  acct_created_by :: string
  acct_created_at :: time
  acct_disabled_at :: "time option"

text \<open>\<open>ServiceAccountCredential\<close>: table \<open>service_account_credentials\<close>.\<close>

record service_account_credential =
  cred_id :: nat
  cred_tenant_id :: string
  cred_credential_id :: string
  cred_account_id :: string
  cred_secret_salt :: string
  cred_secret_hash :: string
  cred_status :: credential_state
  cred_issued_at :: time
  cred_expires_at :: time
  cred_retire_after :: "time option"
  cred_revoked_at :: "time option"
  cred_last_used_at :: "time option"

text \<open>\<open>CredentialRotation\<close>: table \<open>credential_rotations\<close>.\<close>

record credential_rotation =
  rot_id :: nat
  rot_tenant_id :: string
  rot_rotation_id :: string
  rot_account_id :: string
  rot_old_credential_id :: string
  rot_new_credential_id :: string
  rot_status :: rotation_state
  rot_grace_ends_at :: time
  rot_requested_by :: string
  rot_created_at :: time
  rot_completed_at :: "time option"

text \<open>\<open>GovernanceReviewTask\<close>: table \<open>governance_review_tasks\<close>.\<close>

record governance_review_task =
  task_id :: nat
  task_tenant_id :: string
  task_task_id :: string
  task_task_type :: string
  task_subject_id :: string
  task_title :: string
  task_priority :: string
  task_status :: task_state
  task_assigned_to :: "string option"
  task_details_json :: json
  task_due_at :: time
  task_created_by :: string
  task_created_at :: time
  task_completed_by :: "string option"
  task_completed_at :: "time option"
  task_sla_notified_at :: "time option"

text \<open>\<open>RuntimeDecisionReceipt\<close>: table \<open>runtime_decision_receipts\<close>.\<close>

record runtime_decision_receipt =
  rcpt_id :: nat
  rcpt_tenant_id :: string
  rcpt_receipt_id :: string
  rcpt_request_id :: "string option"
  rcpt_idempotency_key :: "string option"
  rcpt_subject_type :: string
  rcpt_subject_id :: string
  rcpt_action_name :: string
  rcpt_resource_type :: string
  rcpt_resource_id :: string
  rcpt_request_sha256 :: string
  rcpt_decision :: bool
  rcpt_policy_decision :: decision
  rcpt_enforcement_mode :: string
  rcpt_risk_score :: int
  rcpt_policy_version :: string
  rcpt_matched_policies_json :: json
  rcpt_reasons_json :: json
  rcpt_obligations_json :: json
  rcpt_replay_context_json :: json
  rcpt_replayable :: bool
  rcpt_rollout_id :: "string option"
  rcpt_rollout_stage :: "rollout_stage option"
  rcpt_baseline_policy_decision :: "decision option"
  rcpt_candidate_policy_decision :: "decision option"
  rcpt_manifest_json :: json
  rcpt_manifest_sha256 :: string
  rcpt_signing_status :: signing_state
  rcpt_signing_profile :: "string option"
  rcpt_assurance_json :: json
  rcpt_signing_attempts :: nat
  rcpt_signing_available_at :: time
  rcpt_signing_claimed_at :: "time option"
  rcpt_signing_error :: "string option"
  rcpt_retention_until :: time
  rcpt_created_at :: time

text \<open>\<open>AIResource\<close>: table \<open>ai_resources\<close>.\<close>

record ai_resource =
  res_id :: nat
  res_tenant_id :: string
  res_resource_key :: string
  res_resource_type :: string
  res_name :: string
  res_owner :: string
  res_provider :: string
  res_region :: string
  res_status :: resource_state
  res_risk_tier :: string
  res_metadata_json :: json
  res_created_by :: string
  res_created_at :: time
  res_updated_at :: time

text \<open>\<open>EnforcementEvent\<close>: table \<open>enforcement_events\<close>.\<close>

record enforcement_event =
  enf_id :: nat
  enf_tenant_id :: string
  enf_event_id :: string
  enf_receipt_id :: string
  enf_pep_id :: string
  enf_outcome :: enforcement_outcome
  enf_required_obligations_json :: json
  enf_satisfied_obligations_json :: json
  enf_failure_reason :: "string option"
  enf_metadata_sha256 :: string
  enf_occurred_at :: time
  enf_recorded_by :: string
  enf_created_at :: time

text \<open>\<open>PolicyRollout\<close>: table \<open>policy_rollouts\<close>.\<close>

record policy_rollout =
  roll_id :: nat
  roll_tenant_id :: string
  roll_rollout_id :: string
  roll_bundle_id :: string
  roll_baseline_bundle_id :: "string option"
  roll_stage :: rollout_stage
  roll_status :: rollout_state
  roll_traffic_percentage :: int
  roll_replay_limit :: int
  roll_replay_evaluated :: nat
  roll_replay_changed :: nat
  roll_replay_newly_denied :: nat
  roll_replay_newly_permitted :: nat
  roll_replay_incomplete :: nat
  roll_last_replay_id :: "string option"
  roll_created_by :: string
  roll_promoted_by :: "string option"
  roll_created_at :: time
  roll_updated_at :: time
  roll_completed_at :: "time option"

text \<open>\<open>PolicyReplay\<close>: table \<open>policy_replays\<close>.\<close>

record policy_replay =
  replay_id :: nat
  replay_tenant_id :: string
  replay_replay_id :: string
  replay_rollout_id :: string
  replay_bundle_id :: string
  replay_baseline_policy_version :: string
  replay_evaluated :: nat
  replay_changed :: nat
  replay_newly_denied :: nat
  replay_newly_permitted :: nat
  replay_incomplete :: nat
  replay_examples_json :: json
  replay_created_by :: string
  replay_created_at :: time

text \<open>\<open>GovernanceOutboxEvent\<close>: table \<open>governance_outbox_events\<close>.\<close>

record governance_outbox_event =
  out_id :: nat
  out_tenant_id :: string
  out_event_id :: string
  out_idempotency_key :: "string option"
  out_aggregate_type :: string
  out_aggregate_id :: string
  out_event_type :: string
  out_payload_json :: json
  out_status :: outbox_state
  out_attempts :: nat
  out_available_at :: time
  out_claimed_at :: "time option"
  out_last_error :: "string option"
  out_created_at :: time
  out_dispatched_at :: "time option"

section \<open>The database\<close>

record db =
  db_assets :: "data_asset list"
  db_agents :: "ai_agent list"
  db_audits :: "decision_audit list"
  db_edges :: "graph_edge list"
  db_jobs :: "background_job list"
  db_schedules :: "connector_schedule list"
  db_capability_policies :: "connector_capability_policy list"
  db_budgets :: "provider_rate_limit list"
  db_scim :: "scim_resource list"
  db_bundles :: "policy_bundle list"
  db_exceptions :: "policy_exception list"
  db_delegations :: "policy_approver_delegation list"
  db_endpoints :: "integration_endpoint list"
  db_deliveries :: "integration_delivery list"
  db_lineage :: "lineage_event list"
  db_accounts :: "service_account list"
  db_credentials :: "service_account_credential list"
  db_rotations :: "credential_rotation list"
  db_tasks :: "governance_review_task list"
  db_receipts :: "runtime_decision_receipt list"
  db_resources :: "ai_resource list"
  db_enforcement :: "enforcement_event list"
  db_rollouts :: "policy_rollout list"
  db_replays :: "policy_replay list"
  db_outbox :: "governance_outbox_event list"

definition empty_db :: db where
  "empty_db =
     \<lparr>db_assets = [], db_agents = [], db_audits = [], db_edges = [], db_jobs = [],
      db_schedules = [], db_capability_policies = [], db_budgets = [], db_scim = [], db_bundles = [], db_exceptions = [],
      db_delegations = [], db_endpoints = [], db_deliveries = [], db_lineage = [],
      db_accounts = [], db_credentials = [], db_rotations = [], db_tasks = [],
      db_receipts = [], db_resources = [], db_enforcement = [], db_rollouts = [],
      db_replays = [], db_outbox = []\<rparr>"

section \<open>Configuration and environment\<close>

text \<open>The fields of \<open>Settings\<close> (\<open>app/config.py\<close>) that the modelled services read, with their
  defaults. A configured text that is parsed as JSON is the parsed document, or \<open>None\<close> when it does not parse.\<close>

record settings =
  cfg_auth_disabled :: bool
  cfg_service_account_credential_days :: int
  cfg_service_account_rotation_grace_hours :: int
  cfg_service_account_stale_days :: int
  cfg_policy_cache_seconds :: int
  cfg_runtime_authorization_mode :: string
  cfg_runtime_authorization_batch_max :: int
  cfg_authzen_search_max :: int
  cfg_authzen_pagination_secret :: string
  cfg_policy_rollout_cache_seconds :: int
  cfg_runtime_receipt_retention_days :: int
  cfg_runtime_receipt_signing_profile :: string
  cfg_runtime_receipt_signing_batch_size :: int
  cfg_runtime_receipt_signing_max_attempts :: int
  cfg_governance_outbox_batch_size :: int
  cfg_governance_outbox_max_attempts :: int
  cfg_worker_claim_timeout_seconds :: int
  cfg_graph_max_depth :: int
  cfg_graph_max_export_edges :: int
  cfg_governance_default_sla_hours :: int
  cfg_governance_due_soon_hours :: int
  cfg_connector_plugin_allowlist :: "string list"
  cfg_connector_capability_policy_json :: "json option"
  cfg_github_allowed_hosts :: "string list"
  cfg_gitlab_allowed_hosts :: "string list"
  cfg_sharepoint_allowed_hosts :: "string list"
  cfg_integration_allowed_hosts :: "string list"
  cfg_governance_package_signing_profiles_json :: "json option"
  cfg_governance_package_verification_profiles_json :: "json option"
  cfg_governance_package_default_signing_profile :: string
  cfg_governance_package_signing_required :: bool
  cfg_cosign_executable :: string
  cfg_secret_file_roots :: "string list list"

definition default_settings :: settings where
  "default_settings =
     \<lparr>cfg_auth_disabled = True,
      cfg_service_account_credential_days = 90,
      cfg_service_account_rotation_grace_hours = 24,
      cfg_service_account_stale_days = 30,
      cfg_policy_cache_seconds = 5,
      cfg_runtime_authorization_mode = ''enforce'',
      cfg_runtime_authorization_batch_max = 100,
      cfg_authzen_search_max = 100,
      cfg_authzen_pagination_secret = [],
      cfg_policy_rollout_cache_seconds = 5,
      cfg_runtime_receipt_retention_days = 90,
      cfg_runtime_receipt_signing_profile = [],
      cfg_runtime_receipt_signing_batch_size = 100,
      cfg_runtime_receipt_signing_max_attempts = 3,
      cfg_governance_outbox_batch_size = 100,
      cfg_governance_outbox_max_attempts = 5,
      cfg_worker_claim_timeout_seconds = 900,
      cfg_graph_max_depth = 5,
      cfg_graph_max_export_edges = 10000,
      cfg_governance_default_sla_hours = 48,
      cfg_governance_due_soon_hours = 24,
      cfg_connector_plugin_allowlist = [],
      cfg_connector_capability_policy_json = Some (JObj []),
      cfg_github_allowed_hosts = [''api.github.com''],
      cfg_gitlab_allowed_hosts = [''gitlab.com''],
      cfg_sharepoint_allowed_hosts = [''graph.microsoft.com''],
      cfg_integration_allowed_hosts = [],
      cfg_governance_package_signing_profiles_json = Some (JObj []),
      cfg_governance_package_verification_profiles_json = Some (JObj []),
      cfg_governance_package_default_signing_profile = [],
      cfg_governance_package_signing_required = False,
      cfg_cosign_executable = ''cosign'',
      cfg_secret_file_roots = [[''run'', ''secrets'']]\<rparr>"

text \<open>
  What a request reads from outside the repository: the two clocks, the parsed policy files of
  \<open>policy_directory\<close>, CPython's float text, the SHA-256 hex digest of a text, the test
  \<open>urllib.parse\<close> makes of a bracketed IPv6 network location, \<open>datetime.fromisoformat\<close>,
  and the texts \<open>isoformat()\<close> and \<open>str()\<close> give of a naive time in UTC. Nothing is assumed
  of the functions.
\<close>

record env =
  env_settings :: settings
  env_now :: time
  env_monotonic :: time
  env_policy_files :: "(string \<times> json) list"
  env_frepr :: "rat \<Rightarrow> string"
  env_sha256 :: "string \<Rightarrow> string"
  env_bracketed_ok :: "string \<Rightarrow> bool"
  env_iso :: "string \<Rightarrow> time option"
  env_isoformat :: "time \<Rightarrow> string"
  env_str_time :: "time \<Rightarrow> string"

text \<open>An environment for concrete instances.\<close>

definition base_env :: env where
  "base_env =
     \<lparr>env_settings = default_settings, env_now = 1000000000, env_monotonic = 5000000,
      env_policy_files = [], env_frepr = (\<lambda>r. ''0.5''), env_sha256 = (\<lambda>s. ''ab''),
      env_bracketed_ok = (\<lambda>n. True), env_iso = (\<lambda>s. Some 0),
      env_isoformat = (\<lambda>t. ''1970-01-01T00:00:00''), env_str_time = (\<lambda>t. ''1970-01-01 00:00:00'')\<rparr>"

definition sorted_set :: "string list \<Rightarrow> string list" where
  "sorted_set xs = sort (remdups xs)"

lemma set_sorted_set [simp]: "set (sorted_set xs) = set xs"
  by (simp add: sorted_set_def)

lemma sorted_set_sorted: "sorted (sorted_set xs) \<and> distinct (sorted_set xs)"
  by (simp add: sorted_set_def)

lemma sorted_set_eq: "sorted_set xs = sorted_set ys \<longleftrightarrow> set xs = set ys"
  by (metis set_sorted_set sorted_distinct_set_unique sorted_set_sorted)

end
