(* ===== verification/Connectors.thy ===== *)
theory Connectors
  imports Models
begin

text \<open>
  \<open>connectors/security.py\<close>, \<open>connectors/sdk.py\<close> and \<open>connectors/registry.py\<close>:
  validation of provider URLs, connector manifests and their registry, and the capability policy
  that every connector must pass before it is built or queued. The factories, which open network
  clients, are not modelled. The lemmas show what a validated URL guarantees and that the
  normalisation of a policy is stable, so that a stored policy is read back unchanged.
\<close>

section \<open>URLs\<close>

text \<open>\<open>urlsplit\<close>: control characters and blanks go, then the scheme, then the network location.\<close>

definition url_clean :: "string \<Rightarrow> string" where
  "url_clean u =
     filter (\<lambda>c. (of_char c :: nat) \<notin> {9, 10, 13}) (dropWhile (\<lambda>c. (of_char c :: nat) \<le> 32) u)"

definition is_ascii_alpha :: "char \<Rightarrow> bool" where
  "is_ascii_alpha c = (let n = (of_char c :: nat) in 65 \<le> n \<and> n \<le> 90 \<or> 97 \<le> n \<and> n \<le> 122)"

definition is_scheme_char :: "char \<Rightarrow> bool" where
  "is_scheme_char c = (is_ascii_alpha c \<or> is_ascii_digit c \<or> c \<in> set ''+-.'')"

definition url_split_scheme :: "string \<Rightarrow> string \<times> string" where
  "url_split_scheme u =
     (case py_partition CHR '':'' u of
        (a, found, r) \<Rightarrow>
          if found \<and> a \<noteq> [] \<and> is_ascii_alpha (hd a) \<and> list_all is_scheme_char a
          then (py_lower a, r) else ([], u))"

definition url_netloc_of :: "string \<Rightarrow> string" where
  "url_netloc_of rest =
     (if take 2 rest = ''//'' then takeWhile (\<lambda>c. c \<notin> set ''/?#'') (drop 2 rest) else [])"

definition url_scheme :: "string \<Rightarrow> string" where
  "url_scheme u = fst (url_split_scheme (url_clean u))"

definition url_netloc :: "string \<Rightarrow> string" where
  "url_netloc u = url_netloc_of (snd (url_split_scheme (url_clean u)))"

definition py_rpartition :: "char \<Rightarrow> string \<Rightarrow> string \<times> bool \<times> string" where
  "py_rpartition c s =
     (case py_partition c (rev s) of
        (a, found, r) \<Rightarrow> if found then (rev r, True, rev a) else ([], False, s))"

definition netloc_userinfo :: "string \<Rightarrow> string" where
  "netloc_userinfo n = fst (py_rpartition CHR ''@'' n)"

definition netloc_hostinfo :: "string \<Rightarrow> string" where
  "netloc_hostinfo n = snd (snd (py_rpartition CHR ''@'' n))"

definition netloc_hostname :: "string \<Rightarrow> string option" where
  "netloc_hostname n =
     (let info = netloc_hostinfo n;
          host = (case py_partition CHR ''['' info of
                    (before, found, bracketed) \<Rightarrow>
                      if found then fst (py_partition CHR '']'' bracketed)
                      else fst (py_partition CHR '':'' info))
      in if host = [] then None
         else case py_partition CHR ''%'' host of
                (a, found, zone) \<Rightarrow> Some (py_lower a @ (if found then CHR ''%'' # zone else [])))"

text \<open>\<open>parsed.username or parsed.password\<close>.\<close>

definition netloc_has_user :: "string \<Rightarrow> bool" where
  "netloc_has_user n =
     (case py_partition CHR '':'' (netloc_userinfo n) of (user, found, password) \<Rightarrow> user \<noteq> [] \<or> password \<noteq> [])"

definition netloc_malformed :: "env \<Rightarrow> string \<Rightarrow> bool" where
  "netloc_malformed env n =
     ((CHR ''['' \<in> set n) \<noteq> (CHR '']'' \<in> set n) \<or>
      CHR ''['' \<in> set n \<and> CHR '']'' \<in> set n \<and> \<not> env_bracketed_ok env n)"

definition normalized_hosts :: "string list \<Rightarrow> string list" where
  "normalized_hosts hosts = map (\<lambda>h. py_strip (py_lower h)) (filter (\<lambda>h. py_strip h \<noteq> []) hosts)"

definition py_rstrip_char :: "char \<Rightarrow> string \<Rightarrow> string" where
  "py_rstrip_char c s = rev (dropWhile (\<lambda>x. x = c) (rev s))"

definition validate_https_url :: "env \<Rightarrow> string \<Rightarrow> string list option \<Rightarrow> string result" where
  "validate_https_url env url allowed_hosts =
     (let n = url_netloc url in
      rbind (raise_if (netloc_malformed env n) (ValueError ''Invalid IPv6 URL'')) (\<lambda>_.
      rbind (raise_if (url_scheme url \<noteq> ''https'' \<or> netloc_hostname n = None)
              (ValueError ''Connector endpoints must use an absolute HTTPS URL'')) (\<lambda>_.
      rbind (raise_if (netloc_has_user n)
              (ValueError ''Connector endpoints must not contain user information'')) (\<lambda>_.
      rbind (case allowed_hosts of
               None \<Rightarrow> Inr ()
             | Some hosts \<Rightarrow>
                 raise_if (py_lower (the (netloc_hostname n)) \<notin> set (normalized_hosts hosts))
                   (ValueError ''Connector endpoint host is not in the configured provider allowlist'')) (\<lambda>_.
      Inr (py_rstrip_char CHR ''/'' url))))))"

section \<open>Manifests\<close>

record connector_capabilities =
  cap_content_access :: string
  cap_pagination :: bool
  cap_incremental_cursor :: bool
  cap_opaque_cursor :: bool
  cap_rate_limit_behavior :: string
  cap_timestamp_provenance :: "string list"
  cap_public_access_interpretation :: string
  cap_destructive_actions :: bool

record connector_manifest =
  man_connector_type :: string
  man_display_name :: string
  man_version :: string
  man_permissions :: "string list"
  man_egress_hosts :: "string list"
  man_capabilities :: connector_capabilities
  man_sdk_version :: string
  man_description :: string
  man_plugin :: bool

definition jstrs :: "string list \<Rightarrow> json" where
  "jstrs xs = JList (map JStr xs)"

definition capabilities_dict :: "connector_capabilities \<Rightarrow> json" where
  "capabilities_dict c = JObj
     [(''content_access'', JStr (cap_content_access c)),
      (''pagination'', JBool (cap_pagination c)),
      (''incremental_cursor'', JBool (cap_incremental_cursor c)),
      (''opaque_cursor'', JBool (cap_opaque_cursor c)),
      (''rate_limit_behavior'', JStr (cap_rate_limit_behavior c)),
      (''timestamp_provenance'', jstrs (cap_timestamp_provenance c)),
      (''public_access_interpretation'', JStr (cap_public_access_interpretation c)),
      (''destructive_actions'', JBool (cap_destructive_actions c))]"

definition manifest_dict :: "connector_manifest \<Rightarrow> json" where
  "manifest_dict m = JObj
     [(''connector_type'', JStr (man_connector_type m)),
      (''display_name'', JStr (man_display_name m)),
      (''version'', JStr (man_version m)),
      (''permissions'', jstrs (man_permissions m)),
      (''egress_hosts'', jstrs (man_egress_hosts m)),
      (''capabilities'', capabilities_dict (man_capabilities m)),
      (''sdk_version'', JStr (man_sdk_version m)),
      (''description'', JStr (man_description m)),
      (''plugin'', JBool (man_plugin m))]"

definition manifest_digest :: "env \<Rightarrow> connector_manifest \<Rightarrow> string" where
  "manifest_digest env m = env_sha256 env (canonical_json (env_frepr env) (manifest_dict m))"

section \<open>Registry\<close>

record registration =
  reg_manifest :: connector_manifest
  reg_validate_payload :: "(env \<Rightarrow> dict \<Rightarrow> unit result) option"

definition py_isalnum :: "string \<Rightarrow> bool" where
  "py_isalnum s =
     (s \<noteq> [] \<and> list_all (\<lambda>c. is_ascii_alpha c \<or> is_ascii_digit c \<or>
        (let n = (of_char c :: nat) in
         n \<in> {170, 178, 179, 181, 185, 186, 188, 189, 190} \<or> 192 \<le> n \<and> n \<noteq> 215 \<and> n \<noteq> 247)) s)"

definition find_registration :: "registration list \<Rightarrow> string \<Rightarrow> registration option" where
  "find_registration registry ctype = scalar (\<lambda>r. man_connector_type (reg_manifest r) = ctype) registry"

definition register_connector :: "registration list \<Rightarrow> registration \<Rightarrow> registration list result" where
  "register_connector registry registration =
     (let manifest = reg_manifest registration; ctype = man_connector_type manifest in
      rbind (raise_if (ctype = [] \<or> length ctype > 80 \<or> \<not> py_isalnum (filter (\<lambda>c. c \<noteq> CHR ''-'') ctype))
              (ValueError ''Connector manifest type is invalid'')) (\<lambda>_.
      rbind (raise_if (man_version manifest = [] \<or> length (man_version manifest) > 40)
              (ValueError ''Connector manifest version is invalid'')) (\<lambda>_.
      rbind (raise_if (cap_content_access (man_capabilities manifest) \<notin>
                {''metadata-only'', ''optional-sampled-content'', ''content-required''})
              (ValueError ''Connector manifest content access is invalid'')) (\<lambda>_.
      rbind (raise_if (find_registration registry ctype \<noteq> None)
              (ValueError (''Connector type is already registered: '' @ ctype))) (\<lambda>_.
      Inr (registry @ [registration]))))))"

text \<open>
  \<open>_load_plugins\<close>: the entry points are a list of names with what calling or reading them gave,
  \<open>None\<close> when that is not a registration. The flag of the code is set before the first plugin is
  loaded, so a failed load leaves the plugins before it registered.
\<close>

fun load_entry_points ::
  "string list \<Rightarrow> (string \<times> registration option) list \<Rightarrow> registration list \<Rightarrow>
     registration list \<times> unit result" where
  "load_entry_points allowed [] registry = (registry, Inr ())"
| "load_entry_points allowed ((name, loaded) # eps) registry =
     (if name \<notin> set allowed then load_entry_points allowed eps registry
      else case loaded of
        None \<Rightarrow> (registry, Inl (ValueError (''Connector plugin registration is invalid: '' @ name)))
      | Some r \<Rightarrow>
          (case register_connector registry (r\<lparr>reg_manifest := (reg_manifest r)\<lparr>man_plugin := True\<rparr>\<rparr>) of
             Inl e \<Rightarrow> (registry, Inl e)
           | Inr registry' \<Rightarrow> load_entry_points allowed eps registry'))"

definition load_plugins ::
  "env \<Rightarrow> (string \<times> registration option) list \<Rightarrow> registration list \<times> bool \<Rightarrow>
     (registration list \<times> bool) \<times> unit result" where
  "load_plugins env eps st =
     (case st of (registry, loaded) \<Rightarrow>
        let allowed = cfg_connector_plugin_allowlist (env_settings env) in
        if loaded \<or> allowed = [] then ((registry, True), Inr ())
        else case load_entry_points allowed eps registry of (registry', r) \<Rightarrow> ((registry', True), r))"

text \<open>After the plugins are loaded, a lookup; the key of the payload may be any document.\<close>

definition connector_registration :: "registration list \<Rightarrow> json \<Rightarrow> registration result" where
  "connector_registration registry ctype =
     (case ctype of
        JList _ \<Rightarrow> Inl (TypeError ''unhashable type'')
      | JObj _ \<Rightarrow> Inl (TypeError ''unhashable type'')
      | JStr s \<Rightarrow>
          (case find_registration registry s of
             None \<Rightarrow> Inl (ValueError (''Unsupported connector type: '' @ s))
           | Some r \<Rightarrow> Inr r)
      | _ \<Rightarrow> Inl (ValueError ''Unsupported connector type''))"

section \<open>The built-in connectors\<close>

text \<open>The payload validators: \<open>payload.get(k) or default\<close> given to \<open>urlsplit\<close>.\<close>

definition validate_url_value :: "env \<Rightarrow> json \<Rightarrow> string list \<Rightarrow> unit result" where
  "validate_url_value env v hosts =
     (case v of
        JStr u \<Rightarrow> rbind (validate_https_url env u (Some hosts)) (\<lambda>_. Inr ())
      | _ \<Rightarrow> Inl (OtherError ''AttributeError''))"

definition get_or :: "dict \<Rightarrow> string \<Rightarrow> string \<Rightarrow> json" where
  "get_or d k dflt = (if py_truthy (py_get d k) then py_get d k else JStr dflt)"

definition validate_github :: "env \<Rightarrow> dict \<Rightarrow> unit result" where
  "validate_github env payload =
     validate_url_value env (get_or payload ''api_url'' ''https://api.github.com'')
       (cfg_github_allowed_hosts (env_settings env))"

definition validate_gitlab :: "env \<Rightarrow> dict \<Rightarrow> unit result" where
  "validate_gitlab env payload =
     validate_url_value env (get_or payload ''api_url'' ''https://gitlab.com/api/v4'')
       (cfg_gitlab_allowed_hosts (env_settings env))"

definition validate_sharepoint :: "env \<Rightarrow> dict \<Rightarrow> unit result" where
  "validate_sharepoint env payload =
     (if py_truthy (py_get payload ''cursor'')
      then validate_url_value env (py_get payload ''cursor'') (cfg_sharepoint_allowed_hosts (env_settings env))
      else Inr ())"

definition validate_postgresql :: "env \<Rightarrow> dict \<Rightarrow> unit result" where
  "validate_postgresql env payload =
     (let schemas = py_get_default payload ''schemas'' (JList []) in
      raise_if (\<not> is_jlist schemas \<or> length (jlist schemas) > 100 \<or>
                list_ex (\<lambda>s. \<not> is_jstr s \<or> py_strip (jstr s) = [] \<or> length (jstr s) > 63) (jlist schemas))
        (ValueError ''PostgreSQL connector schemas are invalid''))"

definition builtin_manifest ::
  "string \<Rightarrow> string \<Rightarrow> string list \<Rightarrow> string list \<Rightarrow> string list \<Rightarrow> string \<Rightarrow> string \<Rightarrow> connector_manifest" where
  "builtin_manifest ctype display permissions hosts provenance public_access desc =
     \<lparr>man_connector_type = ctype, man_display_name = display, man_version = ''1.9.0'',
      man_permissions = permissions, man_egress_hosts = hosts,
      man_capabilities =
        \<lparr>cap_content_access = ''metadata-only'', cap_pagination = True, cap_incremental_cursor = True,
         cap_opaque_cursor = True, cap_rate_limit_behavior = ''provider-aware'',
         cap_timestamp_provenance = provenance, cap_public_access_interpretation = public_access,
         cap_destructive_actions = False\<rparr>,
      man_sdk_version = ''2.0'', man_description = desc, man_plugin = False\<rparr>"

definition builtin_registry :: "registration list" where
  "builtin_registry =
     [\<lparr>reg_manifest = builtin_manifest ''aws-s3'' ''AWS S3''
         [''s3:ListBucket'', ''s3:GetObject'', ''s3:GetBucketPolicyStatus''] [''s3.amazonaws.com'']
         [''provider-object-last-modified''] ''bucket-policy-status-or-unknown''
         ''Metadata-only S3 object inventory'',
       reg_validate_payload = None\<rparr>,
      \<lparr>reg_manifest = builtin_manifest ''google-drive'' ''Google Drive''
         [''drive.metadata.readonly''] [''www.googleapis.com'', ''oauth2.googleapis.com'']
         [''provider-created-time'', ''provider-modified-time''] ''anyone-permission''
         ''Metadata-only Google Drive and shared-drive inventory'',
       reg_validate_payload = None\<rparr>,
      \<lparr>reg_manifest = builtin_manifest ''github'' ''GitHub''
         [''organization-repositories:read''] [''api.github.com'']
         [''provider-created-at'', ''provider-updated-at''] ''repository-visibility''
         ''Metadata-only GitHub repository inventory'',
       reg_validate_payload = Some validate_github\<rparr>,
      \<lparr>reg_manifest = builtin_manifest ''gitlab'' ''GitLab''
         [''read_api''] [''gitlab.com'']
         [''provider-created-at'', ''provider-last-activity-at''] ''project-visibility''
         ''Metadata-only GitLab project inventory'',
       reg_validate_payload = Some validate_gitlab\<rparr>,
      \<lparr>reg_manifest = builtin_manifest ''sharepoint'' ''SharePoint / OneDrive''
         [''Files.Read.All'', ''Sites.Read.All''] [''graph.microsoft.com'']
         [''provider-created-date-time'', ''provider-last-modified-date-time''] ''not-evaluated''
         ''Metadata-only SharePoint and OneDrive delta inventory'',
       reg_validate_payload = Some validate_sharepoint\<rparr>,
      \<lparr>reg_manifest = builtin_manifest ''postgresql'' ''PostgreSQL''
         [''CONNECT'', ''schema:USAGE'', ''catalog-metadata-visibility''] []
         [''catalog-scan-time''] ''not-evaluated''
         ''Metadata-only PostgreSQL table and view inventory'',
       reg_validate_payload = Some validate_postgresql\<rparr>]"

section \<open>The capability policy\<close>

definition policy_object :: "json option \<Rightarrow> dict result" where
  "policy_object v =
     (case v of
        None \<Rightarrow> Inl (ValueError ''Connector capability policy must be valid JSON'')
      | Some (JObj d) \<Rightarrow> Inr d
      | Some _ \<Rightarrow> Inl (ValueError ''Connector capability policy must be an object''))"

definition string_list :: "json \<Rightarrow> nat \<Rightarrow> string list result" where
  "string_list v maximum =
     rbind (raise_if (\<not> is_jlist v \<or> length (jlist v) > maximum \<or>
              list_ex (\<lambda>i. \<not> is_jstr i \<or> py_strip (jstr i) = [] \<or> length (jstr i) > 255) (jlist v))
            (ValueError ''Connector capability policy contains an invalid list'')) (\<lambda>_.
     Inr (sorted_set (map (\<lambda>i. py_lower (py_strip (jstr i))) (jlist v))))"

definition content_kinds :: "string list" where
  "content_kinds = [''metadata-only'', ''optional-sampled-content'', ''content-required'']"

record capability_policy =
  cp_allowed_connectors :: "string list"
  cp_denied_connectors :: "string list"
  cp_allowed_content_access :: "string list"
  cp_allowed_egress_hosts :: "string list"
  cp_deny_destructive_actions :: bool
  cp_require_incremental_cursor :: bool
  cp_require_opaque_cursor :: bool
  cp_max_declared_permissions :: json

definition content_list :: "json \<Rightarrow> string list result" where
  "content_list v =
     (let invalid = ValueError ''Connector capability policy content access is invalid'' in
      case v of
        JList xs \<Rightarrow>
          if \<not> list_all py_hashable xs then Inl (TypeError ''unhashable type'')
          else if list_all (\<lambda>x. is_jstr x \<and> jstr x \<in> set content_kinds) xs
          then Inr (sorted_set (map jstr xs)) else Inl invalid
      | _ \<Rightarrow> Inl invalid)"

definition normalized_policy :: "dict \<Rightarrow> capability_policy result" where
  "normalized_policy policy =
     rbind (content_list (py_get_default policy ''allowed_content_access'' (jstrs [''metadata-only'']))) (\<lambda>content.
     rbind (string_list (py_get_default policy ''allowed_connectors'' (JList [])) 200) (\<lambda>allowed.
     rbind (string_list (py_get_default policy ''denied_connectors'' (JList [])) 200) (\<lambda>denied.
     rbind (string_list (py_get_default policy ''allowed_egress_hosts'' (JList [])) 500) (\<lambda>hosts.
     let limit = py_get_default policy ''max_declared_permissions'' (JInt 100) in
     rbind (raise_if (\<not> is_jint limit \<or> \<not> (1 \<le> jint limit \<and> jint limit \<le> 1000))
             (ValueError ''Connector capability policy permission limit is invalid'')) (\<lambda>_.
     rbind (raise_if (set allowed \<inter> set denied \<noteq> {})
             (ValueError ''Connector capability policy cannot allow and deny the same connector'')) (\<lambda>_.
     Inr \<lparr>cp_allowed_connectors = allowed, cp_denied_connectors = denied,
          cp_allowed_content_access = content, cp_allowed_egress_hosts = hosts,
          cp_deny_destructive_actions = py_truthy (py_get_default policy ''deny_destructive_actions'' (JBool True)),
          cp_require_incremental_cursor = py_truthy (py_get_default policy ''require_incremental_cursor'' (JBool False)),
          cp_require_opaque_cursor = py_truthy (py_get_default policy ''require_opaque_cursor'' (JBool True)),
          cp_max_declared_permissions = limit\<rparr>))))))"

text \<open>The dictionary the code builds, and what it stores after \<open>json.dumps(..., sort_keys=True)\<close>.\<close>

definition capability_policy_dict :: "capability_policy \<Rightarrow> dict" where
  "capability_policy_dict p =
     [(''allowed_connectors'', jstrs (cp_allowed_connectors p)),
      (''denied_connectors'', jstrs (cp_denied_connectors p)),
      (''allowed_content_access'', jstrs (cp_allowed_content_access p)),
      (''allowed_egress_hosts'', jstrs (cp_allowed_egress_hosts p)),
      (''deny_destructive_actions'', JBool (cp_deny_destructive_actions p)),
      (''require_incremental_cursor'', JBool (cp_require_incremental_cursor p)),
      (''require_opaque_cursor'', JBool (cp_require_opaque_cursor p)),
      (''max_declared_permissions'', cp_max_declared_permissions p)]"

text \<open>\<open>{**base, **override}\<close>.\<close>

definition merge_policy :: "dict \<Rightarrow> dict \<Rightarrow> dict" where
  "merge_policy base override = fold (\<lambda>(k, v). dict_set k v) override base"

definition connector_policy ::
  "env \<Rightarrow> db option \<Rightarrow> string \<Rightarrow> (capability_policy \<times> int option) result" where
  "connector_policy env db tenant_id =
     rbind (policy_object (cfg_connector_capability_policy_json (env_settings env))) (\<lambda>configured.
     case (case db of None \<Rightarrow> None
           | Some d \<Rightarrow> if tenant_id = [] then None
                       else scalar (\<lambda>r. ccp_tenant_id r = tenant_id) (db_capability_policies d)) of
       None \<Rightarrow> rbind (normalized_policy configured) (\<lambda>p. Inr (p, None))
     | Some stored \<Rightarrow>
         rbind (policy_object (Some (ccp_policy_json stored))) (\<lambda>d.
         rbind (normalized_policy (merge_policy configured d)) (\<lambda>p.
         Inr (p, Some (ccp_version stored)))))"

definition set_connector_policy ::
  "env \<Rightarrow> db \<Rightarrow> string \<Rightarrow> dict \<Rightarrow> string \<Rightarrow> db result" where
  "set_connector_policy env db tenant_id policy updated_by =
     rbind (normalized_policy policy) (\<lambda>normalized.
     let doc = sort_keys (JObj (capability_policy_dict normalized)); rows = db_capability_policies db in
     Inr (db\<lparr>db_capability_policies :=
       (case scalar (\<lambda>r. ccp_tenant_id r = tenant_id) rows of
          Some record \<Rightarrow>
            update_rows (\<lambda>r. ccp_id r = ccp_id record)
              (\<lambda>r. r\<lparr>ccp_version := ccp_version r + 1, ccp_policy_json := doc,
                     ccp_updated_by := updated_by, ccp_updated_at := env_now env\<rparr>) rows
        | None \<Rightarrow>
            rows @ [\<lparr>ccp_id = next_id ccp_id rows, ccp_tenant_id = tenant_id, ccp_version = 1,
                     ccp_policy_json = doc, ccp_updated_by = updated_by,
                     ccp_created_at = env_now env, ccp_updated_at = env_now env\<rparr>])\<rparr>))"

record connector_decision =
  cd_allowed :: bool
  cd_reasons :: "string list"
  cd_connector_type :: string
  cd_connector_version :: string
  cd_capability_digest :: string
  cd_policy_version :: "int option"

definition capability_checks :: "env \<Rightarrow> connector_manifest \<Rightarrow> capability_policy \<Rightarrow> (bool \<times> string) list" where
  "capability_checks env manifest policy =
     (let ctype = man_connector_type manifest; caps = man_capabilities manifest in
      [(cp_allowed_connectors policy \<noteq> [] \<and> ctype \<notin> set (cp_allowed_connectors policy), ''connector-not-allowlisted''),
       (ctype \<in> set (cp_denied_connectors policy), ''connector-denied''),
       (cap_content_access caps \<notin> set (cp_allowed_content_access policy), ''content-access-not-allowed''),
       (cp_deny_destructive_actions policy \<and> cap_destructive_actions caps, ''destructive-actions-not-allowed''),
       (cp_require_incremental_cursor policy \<and> \<not> cap_incremental_cursor caps, ''incremental-cursor-required''),
       (cp_require_opaque_cursor policy \<and> \<not> cap_opaque_cursor caps, ''opaque-cursor-required''),
       (int (length (man_permissions manifest)) > jint (cp_max_declared_permissions policy),
          ''permission-declaration-limit-exceeded''),
       (cp_allowed_egress_hosts policy \<noteq> [] \<and>
          \<not> set (man_egress_hosts manifest) \<subseteq> set (cp_allowed_egress_hosts policy), ''egress-host-not-allowed''),
       (man_plugin manifest \<and> ctype \<notin> set (cfg_connector_plugin_allowlist (env_settings env)),
          ''plugin-not-allowlisted'')])"

definition evaluate_connector_policy ::
  "env \<Rightarrow> connector_manifest \<Rightarrow> capability_policy \<Rightarrow> int option \<Rightarrow> connector_decision" where
  "evaluate_connector_policy env manifest policy version =
     (let reasons = map snd (filter fst (capability_checks env manifest policy)) in
      \<lparr>cd_allowed = (reasons = []), cd_reasons = reasons,
       cd_connector_type = man_connector_type manifest, cd_connector_version = man_version manifest,
       cd_capability_digest = manifest_digest env manifest, cd_policy_version = version\<rparr>)"

definition enforce_connector_policy ::
  "env \<Rightarrow> db option \<Rightarrow> string \<Rightarrow> connector_manifest \<Rightarrow> connector_decision result" where
  "enforce_connector_policy env db tenant_id manifest =
     rbind (connector_policy env db tenant_id) (\<lambda>(policy, version).
      let decision = evaluate_connector_policy env manifest policy version in
     if cd_allowed decision then Inr decision
     else Inl (ValueError (''Connector capability policy denied execution: '' @ join '', '' (cd_reasons decision))))"


section \<open>Facts about URLs\<close>

lemma py_partition_absent: "c \<notin> set s \<Longrightarrow> py_partition c s = (s, False, [])"
  by (induction s) auto

lemma py_partition_append:
  "c \<notin> set sl \<Longrightarrow> py_partition c (v @ sl) =
     (case py_partition c v of (a, found, r) \<Rightarrow> if found then (a, True, r @ sl) else (v @ sl, False, []))"
  by (induction v) (auto split: prod.splits if_splits simp: py_partition_absent)

lemma py_rstrip_char_split:
  obtains n where "v = py_rstrip_char c v @ replicate n c"
proof -
  have "v = py_rstrip_char c v @ rev (takeWhile (\<lambda>x. x = c) (rev v))"
    by (metis py_rstrip_char_def rev_append rev_rev_ident takeWhile_dropWhile_id)
  moreover have "takeWhile (\<lambda>x. x = c) xs = replicate (length (takeWhile (\<lambda>x. x = c) xs)) c" for xs :: string
    by (induction xs) auto
  ultimately show ?thesis by (metis that rev_replicate)
qed

lemma py_rstrip_char_idem [simp]: "py_rstrip_char c (py_rstrip_char c v) = py_rstrip_char c v"
proof -
  have "dropWhile P (dropWhile P xs) = dropWhile P xs" for P and xs :: string
    by (induction xs) auto
  then show ?thesis by (simp add: py_rstrip_char_def)
qed

text \<open>Trailing slashes change neither the scheme nor the network location of an https URL.\<close>

lemma url_clean_slashes:
  "url_clean (v @ replicate n CHR ''/'') = url_clean v @ replicate n CHR ''/''"
proof -
  have drop: "dropWhile (\<lambda>c. (of_char c :: nat) \<le> 32) (replicate n CHR ''/'') = replicate n CHR ''/''"
    by (cases n) auto
  have "dropWhile (\<lambda>c. (of_char c :: nat) \<le> 32) (v @ replicate n CHR ''/'') =
        dropWhile (\<lambda>c. (of_char c :: nat) \<le> 32) v @ replicate n CHR ''/''"
    by (induction v) (simp_all add: drop)
  then show ?thesis by (simp add: url_clean_def filter_replicate)
qed

lemma url_netloc_slashes:
  assumes "url_netloc_of (r @ replicate n CHR ''/'') \<noteq> []"
  shows "url_netloc_of r = url_netloc_of (r @ replicate n CHR ''/'')"
proof -
  have none: "takeWhile (\<lambda>c. c \<notin> set ''/?#'') (replicate m CHR ''/'') = []" for m
    by (cases m) auto
  show ?thesis
  proof (cases r)
    case Nil
    with assms none show ?thesis by (auto simp: url_netloc_of_def split: if_splits)
  next
    case (Cons a r')
    with assms none show ?thesis
      by (cases r') (auto simp: url_netloc_of_def takeWhile_append split: if_splits)
  qed
qed

lemma url_split_slashes:
  assumes "url_split_scheme (u @ replicate n CHR ''/'') = (''https'', r)"
  shows "\<exists>r'. url_split_scheme u = (''https'', r') \<and> r = r' @ replicate n CHR ''/''"
  using assms
  by (auto simp: url_split_scheme_def py_partition_append split: prod.splits if_splits)

lemma url_rstrip:
  assumes "url_scheme u = ''https''" and "url_netloc u \<noteq> []"
  shows "url_scheme (py_rstrip_char CHR ''/'' u) = ''https'' \<and>
         url_netloc (py_rstrip_char CHR ''/'' u) = url_netloc u"
proof -
  let ?v = "py_rstrip_char CHR ''/'' u"
  obtain n where u: "u = ?v @ replicate n CHR ''/''" by (rule py_rstrip_char_split)
  have clean: "url_clean u = url_clean ?v @ replicate n CHR ''/''"
    by (subst u) (rule url_clean_slashes)
  obtain r where r: "url_split_scheme (url_clean u) = (''https'', r)"
    using assms(1) by (metis prod.collapse url_scheme_def)
  from url_split_slashes[OF this[unfolded clean]] obtain r' where
    r': "url_split_scheme (url_clean ?v) = (''https'', r')" "r = r' @ replicate n CHR ''/''" by blast
  with assms(2) r url_netloc_slashes[of r' n] show ?thesis
    by (simp add: url_scheme_def url_netloc_def)
qed

lemma netloc_hostname_Nil: "netloc_hostname [] = None"
  by code_simp

lemma validated_url:
  assumes "validate_https_url env u (Some hosts) = Inr v"
  shows "url_scheme v = ''https'' \<and> \<not> netloc_has_user (url_netloc v) \<and>
         (\<exists>h. netloc_hostname (url_netloc v) = Some h \<and> py_lower h \<in> set (normalized_hosts hosts)) \<and>
         netloc_hostname (url_netloc v) = netloc_hostname (url_netloc u) \<and>
         validate_https_url env v (Some hosts) = Inr v"
proof -
  from assms have ok: "\<not> netloc_malformed env (url_netloc u)" "url_scheme u = ''https''"
    "netloc_hostname (url_netloc u) \<noteq> None" "\<not> netloc_has_user (url_netloc u)"
    "py_lower (the (netloc_hostname (url_netloc u))) \<in> set (normalized_hosts hosts)"
    and v: "v = py_rstrip_char CHR ''/'' u"
    by (auto simp: validate_https_url_def Let_def result_simps)
  from ok(3) have "url_netloc u \<noteq> []"
    by (auto simp: netloc_hostname_Nil)
  with url_rstrip ok(2) v have "url_scheme v = ''https''" "url_netloc v = url_netloc u" by simp_all
  with ok v show ?thesis
    by (auto simp: validate_https_url_def Let_def raise_if_def)
qed

text \<open>
  A URL that passes is an https URL without user information whose host is one of the configured
  ones, and the text handed on, stripped of its trailing slashes, still names the same host and passes again.
\<close>

theorem validated_url_safe:
  assumes "validate_https_url env u (Some hosts) = Inr v"
  shows "url_scheme v = ''https'' \<and> \<not> netloc_has_user (url_netloc v) \<and>
         (\<exists>h. netloc_hostname (url_netloc v) = Some h \<and> py_lower h \<in> set (normalized_hosts hosts)) \<and>
         netloc_hostname (url_netloc v) = netloc_hostname (url_netloc u) \<and>
         validate_https_url env v (Some hosts) = Inr v"
  using assms by (rule validated_url)

theorem validated_url_safe_witness:
  "url_scheme ''https://API.github.com/v3'' = ''https''"
proof -
  have "validate_https_url base_env '' https://API.github.com/v3//'' (Some [''api.github.com''])
          = Inr '' https://API.github.com/v3''"
    by code_simp
  from validated_url_safe[OF this] show ?thesis
    by (simp add: url_scheme_def url_clean_def)
qed

section \<open>Facts about capability policies\<close>

lemma py_strip_set: "set (py_strip s) \<subseteq> set s"
  by (auto simp: py_strip_def dest!: set_dropWhileD)

lemma py_strip_length: "length (py_strip s) \<le> length s"
  by (auto simp: py_strip_def intro: order.trans[OF length_dropWhile_le] simp: length_dropWhile_le)

lemma py_space_lower [simp]: "py_space (py_lower_char c) = py_space c"
  by (auto simp: py_space_def py_lower_char_def Let_def)

lemma py_strip_lower: "py_strip (py_lower s) = py_lower (py_strip s)"
  by (simp add: py_strip_def py_lower_def dropWhile_map comp_def rev_map)

lemma py_lower_char_idem [simp]: "py_lower_char (py_lower_char c) = py_lower_char c"
  by (auto simp: py_lower_char_def Let_def)

lemma py_lower_idem [simp]: "py_lower (py_lower s) = py_lower s"
  by (simp add: py_lower_def)

lemma py_lower_Nil [simp]: "py_lower s = [] \<longleftrightarrow> s = []"
  by (simp add: py_lower_def)

lemma py_strip_idem [simp]: "py_strip (py_strip s) = py_strip s"
proof -
  let ?D = "dropWhile py_space"
  have idem: "?D (?D xs) = ?D xs" for xs by (induction xs) auto
  have "?D (rev (?D (rev (?D s)))) = rev (?D (rev (?D s)))"
  proof (cases "?D s")
    case (Cons a r)
    then have a: "\<not> py_space a" by (metis hd_dropWhile list.distinct(1) list.sel(1))
    have "\<exists>z. ?D (rev r @ [a]) = z @ [a]"
      using a by (auto simp: dropWhile_append)
    then obtain z where "?D (rev r @ [a]) = z @ [a]" ..
    then have "rev (?D (rev (a # r))) = a # rev z" by simp
    with a Cons show ?thesis by simp
  qed (simp del: dropWhile_eq_Nil_conv)
  with idem show ?thesis by (simp add: py_strip_def)
qed

lemma string_list_ok:
  assumes "string_list v n = Inr xs"
  shows "sorted xs \<and> distinct xs \<and> length xs \<le> n \<and>
         list_all (\<lambda>x. py_strip x = x \<and> py_lower x = x \<and> x \<noteq> [] \<and> length x \<le> 255) xs"
proof -
  from assms have v: "is_jlist v" "length (jlist v) \<le> n"
      "list_all (\<lambda>i. is_jstr i \<and> py_strip (jstr i) \<noteq> [] \<and> length (jstr i) \<le> 255) (jlist v)"
    and xs: "xs = sorted_set (map (\<lambda>i. py_lower (py_strip (jstr i))) (jlist v))"
    by (auto simp: string_list_def result_simps list_all_iff list_ex_iff)
  have "length xs \<le> length (jlist v)"
    by (simp add: xs sorted_set_def) (metis length_map length_remdups_leq)
  moreover have "length (py_lower (py_strip t)) \<le> length t" for t
    by (simp add: py_lower_def py_strip_length)
  then have "list_all (\<lambda>x. py_strip x = x \<and> py_lower x = x \<and> x \<noteq> [] \<and> length x \<le> 255) xs"
    using v(3) by (auto simp: xs list_all_iff py_strip_lower intro: order.trans)
  moreover have "sorted xs \<and> distinct xs" by (simp add: xs sorted_set_sorted)
  ultimately show ?thesis
    using v(2) by simp
qed

lemma sorted_set_id: "sorted xs \<Longrightarrow> distinct xs \<Longrightarrow> sorted_set xs = xs"
  by (simp add: sorted_set_def sort_key_id_if_sorted distinct_remdups_id)

lemma string_list_stable:
  assumes "string_list v n = Inr xs"
  shows "string_list (jstrs xs) n = Inr xs"
proof -
  note ok = string_list_ok[OF assms]
  then have "map (\<lambda>i. py_lower (py_strip (jstr i))) (jlist (jstrs xs)) = xs"
    by (auto simp: jstrs_def list_all_iff intro!: map_idI)
  moreover have "\<not> list_ex (\<lambda>i. \<not> is_jstr i \<or> py_strip (jstr i) = [] \<or> length (jstr i) > 255) (jlist (jstrs xs))"
    using ok by (force simp: jstrs_def list_all_iff list_ex_iff)
  moreover have "is_jlist (jstrs xs)" "length (jlist (jstrs xs)) = length xs"
    by (simp_all add: jstrs_def)
  ultimately show ?thesis
    using ok by (simp add: string_list_def sorted_set_id)
qed

lemma content_list_stable:
  assumes "content_list v = Inr xs"
  shows "content_list (jstrs xs) = Inr xs"
proof -
  from assms obtain ys where "v = JList ys" "list_all (\<lambda>x. is_jstr x \<and> jstr x \<in> set content_kinds) ys"
    and xs: "xs = sorted_set (map jstr ys)"
    by (auto simp: content_list_def Let_def split: json.splits if_splits)
  then have "set xs \<subseteq> set content_kinds" by (auto simp: list_all_iff)
  moreover have "sorted xs \<and> distinct xs" by (simp add: xs sorted_set_sorted)
  ultimately show ?thesis
    by (auto simp: content_list_def jstrs_def list_all_iff sorted_set_id comp_def)
qed

lemma map_of_sort_key:
  assumes "distinct (map fst d)"
  shows "map_of (sort_key fst d) = map_of d"
  using assms by (intro map_of_eqI) (auto simp: distinct_map map_of_eq_Some_iff)

lemma map_of_merge:
  "map_of (merge_policy base override) k =
     (case map_of (rev override) k of None \<Rightarrow> map_of base k | Some v \<Rightarrow> Some v)"
proof (induction override arbitrary: base)
  case (Cons x xs)
  obtain k' v where x: "x = (k', v)" by (cases x)
  have "map_of (dict_set k' v base) k = (if k = k' then Some v else map_of base k)"
    using dict_get_set[of k' v base k] by (simp add: dict_get_def)
  with Cons[of "dict_set k' v base"] show ?case
    by (auto simp: x merge_policy_def map_add_Some_iff split: option.splits)
qed (simp add: merge_policy_def)

lemma normalized_policy_fields:
  assumes "normalized_policy d = Inr p"
  shows "\<exists>c a x h. content_list c = Inr (cp_allowed_content_access p) \<and>
           string_list a 200 = Inr (cp_allowed_connectors p) \<and>
           string_list x 200 = Inr (cp_denied_connectors p) \<and>
           string_list h 500 = Inr (cp_allowed_egress_hosts p)"
    and "is_jint (cp_max_declared_permissions p)" "1 \<le> jint (cp_max_declared_permissions p)"
      "jint (cp_max_declared_permissions p) \<le> 1000"
    and "set (cp_allowed_connectors p) \<inter> set (cp_denied_connectors p) = {}"
  using assms by (auto simp: normalized_policy_def Let_def result_simps)

lemma normalized_policy_stable:
  assumes p: "normalized_policy d0 = Inr p"
    and same: "\<forall>k \<in> set (map fst (capability_policy_dict p)). map_of d k = map_of (capability_policy_dict p) k"
  shows "normalized_policy d = Inr p"
proof -
  from normalized_policy_fields(1)[OF p] string_list_stable content_list_stable
  have lists: "content_list (jstrs (cp_allowed_content_access p)) = Inr (cp_allowed_content_access p)"
    "string_list (jstrs (cp_allowed_connectors p)) 200 = Inr (cp_allowed_connectors p)"
    "string_list (jstrs (cp_denied_connectors p)) 200 = Inr (cp_denied_connectors p)"
    "string_list (jstrs (cp_allowed_egress_hosts p)) 500 = Inr (cp_allowed_egress_hosts p)"
    by blast+
  have get: "py_get_default d k v = (case map_of (capability_policy_dict p) k of None \<Rightarrow> v | Some w \<Rightarrow> w)"
    if "k \<in> set (map fst (capability_policy_dict p))" for k v
    using same that by (auto simp: py_get_default_def)
  show ?thesis
    using lists normalized_policy_fields(2-5)[OF p]
    by (simp add: normalized_policy_def get capability_policy_dict_def raise_if_def)
qed

lemma stored_policy_lookup:
  assumes "is_jint (cp_max_declared_permissions p)" and "k \<in> set (map fst (capability_policy_dict p))"
  shows "map_of (merge_policy base (jobj (sort_keys (JObj (capability_policy_dict p))))) k =
         map_of (capability_policy_dict p) k"
proof -
  have id: "sort_keys (jstrs xs) = jstrs xs" for xs
    by (simp add: jstrs_def comp_def)
  have "sort_keys (cp_max_declared_permissions p) = cp_max_declared_permissions p"
    using assms(1) by (cases "cp_max_declared_permissions p") auto
  then have "map (\<lambda>(k, v). (k, sort_keys v)) (capability_policy_dict p) = capability_policy_dict p"
    by (simp add: capability_policy_dict_def id)
  moreover have keys: "distinct (map fst (capability_policy_dict p))"
    by (simp add: capability_policy_dict_def)
  moreover have "map_of (rev (sort_key fst (capability_policy_dict p))) = map_of (capability_policy_dict p)"
    using keys by (subst map_of_inject_set) (auto simp: distinct_map rev_map)
  ultimately show ?thesis
    using assms(2) by (auto simp: map_of_merge split: option.split dest: map_of_eq_None_iff[THEN iffD1])
qed

text \<open>
  A capability policy that an administrator stores for a tenant is read back exactly as it was
  normalised, whatever the configured default says, with the version of the stored record.
\<close>

theorem connector_policy_roundtrip:
  assumes "set_connector_policy env db t policy who = Inr db'"
    and "cfg_connector_capability_policy_json (env_settings env) = Some (JObj base)" and "t \<noteq> []"
  shows "\<exists>p version. normalized_policy policy = Inr p \<and>
           connector_policy env (Some db') t = Inr (p, Some version) \<and>
           (\<forall>r. scalar (\<lambda>r. ccp_tenant_id r = t) (db_capability_policies db) = Some r \<longrightarrow> version = ccp_version r + 1)"
proof -
  from assms(1) obtain p where p: "normalized_policy policy = Inr p"
    by (auto simp: set_connector_policy_def result_simps)
  let ?doc = "sort_keys (JObj (capability_policy_dict p))"
  let ?rows = "db_capability_policies db"
  let ?old = "scalar (\<lambda>r. ccp_tenant_id r = t) ?rows"
  obtain r where r: "scalar (\<lambda>r. ccp_tenant_id r = t) (db_capability_policies db') = Some r"
    and doc: "ccp_policy_json r = ?doc"
    and v: "\<forall>r0. ?old = Some r0 \<longrightarrow> ccp_version r = ccp_version r0 + 1"
    using assms(1) p
    by (cases ?old) (auto simp: set_connector_policy_def Let_def scalar_append scalar_Cons scalar_update)
  have "normalized_policy (merge_policy base (jobj ?doc)) = Inr p"
    using stored_policy_lookup[OF normalized_policy_fields(2)[OF p]]
    by (intro normalized_policy_stable[OF p]) blast
  moreover have "policy_object (Some ?doc) = Inr (jobj ?doc)"
    by (simp add: policy_object_def)
  ultimately have "connector_policy env (Some db') t = Inr (p, Some (ccp_version r))"
    using r doc assms(2,3) by (simp add: connector_policy_def policy_object_def)
  with p v show ?thesis by blast
qed

definition s3_denied :: dict where
  "s3_denied = [(''denied_connectors'', JList [JStr '' AWS-S3 ''])]"

lemma set_s3_denied: "is_ok (set_connector_policy base_env empty_db ''default'' s3_denied ''root'')"
  by code_simp

theorem connector_policy_roundtrip_witness:
  "case set_connector_policy base_env empty_db ''default'' s3_denied ''root'' of
     Inl e \<Rightarrow> False
   | Inr db' \<Rightarrow> is_ok (connector_policy base_env (Some db') ''default'')"
proof -
  from set_s3_denied obtain db' where
    s: "set_connector_policy base_env empty_db ''default'' s3_denied ''root'' = Inr db'"
    by (auto simp: is_ok_iff)
  from connector_policy_roundtrip[OF s, of "[]"] s show ?thesis
    by (auto simp: base_env_def default_settings_def)
qed

text \<open>
  Once a tenant's policy denies a connector, no scan of it is authorised: every spelling of an
  entry that differs only in case and outer blanks from a connector type in lower case blocks it.
\<close>

theorem denied_connector_blocked:
  assumes set: "set_connector_policy env db t policy who = Inr db'"
    and cfg: "cfg_connector_capability_policy_json (env_settings env) = Some (JObj base)" and t: "t \<noteq> []"
    and listed: "py_get policy ''denied_connectors'' = JList entries" "JStr s \<in> set entries"
    and spelled: "py_lower (py_strip s) = man_connector_type m"
  shows "\<not> is_ok (enforce_connector_policy env (Some db') t m)"
proof -
  from connector_policy_roundtrip[OF set cfg t] obtain p v where p: "normalized_policy policy = Inr p"
    and c: "connector_policy env (Some db') t = Inr (p, Some v)" by blast
  have "py_get_default policy ''denied_connectors'' (JList []) = JList entries"
    using listed(1) by (auto simp: py_get_def py_get_default_def split: option.splits)
  with p have "string_list (JList entries) 200 = Inr (cp_denied_connectors p)"
    by (auto simp: normalized_policy_def Let_def result_simps)
  then have "cp_denied_connectors p = sorted_set (map (\<lambda>i. py_lower (py_strip (jstr i))) entries)"
    by (auto simp: string_list_def result_simps)
  with listed(2) spelled have "man_connector_type m \<in> set (cp_denied_connectors p)"
    by (force simp: image_iff)
  then have "\<not> cd_allowed (evaluate_connector_policy env m p (Some v))"
    by (simp add: evaluate_connector_policy_def capability_checks_def Let_def)
  with c show ?thesis by (simp add: enforce_connector_policy_def)
qed

theorem denied_connector_blocked_witness:
  "case set_connector_policy base_env empty_db ''default'' s3_denied ''root'' of
     Inl e \<Rightarrow> False
   | Inr db' \<Rightarrow> \<not> is_ok (enforce_connector_policy base_env (Some db') ''default''
                        (reg_manifest (builtin_registry ! 0)))"
proof -
  from set_s3_denied obtain db' where
    s: "set_connector_policy base_env empty_db ''default'' s3_denied ''root'' = Inr db'"
    by (auto simp: is_ok_iff)
  have "py_lower (py_strip '' AWS-S3 '') = man_connector_type (reg_manifest (builtin_registry ! 0))"
    by code_simp
  from denied_connector_blocked[OF s _ _ _ _ this, of "[]" "[JStr '' AWS-S3 '']"] s show ?thesis
    by (simp add: base_env_def default_settings_def s3_denied_def py_get_def)
qed

text \<open>The entry is put in lower case but the type of a plugin is not: an upper-case type is never blocked.\<close>

lemma upper_case_type_not_blocked:
  assumes "normalized_policy policy = Inr p" and "py_lower (man_connector_type m) \<noteq> man_connector_type m"
  shows "man_connector_type m \<notin> set (cp_denied_connectors p)"
  using normalized_policy_fields(1)[OF assms(1)] string_list_ok assms(2) by (fastforce simp: list_all_iff)

end
