(* ===== verification/Jobs.thy ===== *)
theory Jobs
  imports WorkQueue Connectors
begin

text \<open>
  \<open>app/services/jobs.py\<close>: background jobs. Queueing validates the payload of each job type; a
  worker selects the oldest ready job and claims it by a conditional update, so that of several
  workers that selected it one wins; executing it dispatches on the type and settles the row, with a
  retry after a delay while attempts are left; recovery takes back or fails the jobs of workers that
  stopped. The services the dispatcher calls are the fields of \<open>job_handlers\<close>. The table
  satisfies the contract of \<open>WorkQueue\<close>, and a job is run by two workers at once only after
  recovery took it from one that held it longer than the claim timeout.
\<close>

section \<open>Queueing\<close>

definition SUPPORTED_JOB_TYPES :: "string list" where
  "SUPPORTED_JOB_TYPES =
     [''connector.scan'', ''catalog.reindex'', ''evidence.retention'', ''evidence.disposition'',
      ''identity.deprovision'', ''integration.deliver'', ''governance.sla-notify'', ''graph.export'',
      ''ownership.campaign.launch'', ''governance.evidence-package'']"

text \<open>\<open>set(payload) != {key} or not isinstance(payload.get(key), str)\<close>.\<close>

definition only_string_key :: "dict \<Rightarrow> string \<Rightarrow> bool" where
  "only_string_key payload key = (set (map fst payload) = {key} \<and> is_jstr (py_get payload key))"

definition validate_scan_payload :: "env \<Rightarrow> registration list \<Rightarrow> dict \<Rightarrow> unit result" where
  "validate_scan_payload env registry payload =
     (let ctype = py_get payload ''connector_type'' in
      rbind (connector_registration registry ctype) (\<lambda>reg.
      rbind (enforce_connector_policy env None [] (reg_manifest reg)) (\<lambda>_.
      rbind (raise_if (list_ex (\<lambda>k. py_lower k \<in> {''token'', ''password'', ''secret'', ''authorization'', ''credentials''})
                (map fst payload)) (ValueError ''Connector credentials must be supplied by secret_ref'')) (\<lambda>_.
      rbind (raise_if (jstr ctype \<in> {''google-drive'', ''github'', ''gitlab'', ''sharepoint'', ''postgresql''} \<and>
                \<not> py_truthy (py_get payload ''secret_ref''))
              (ValueError (''secret_ref is required for '' @ jstr ctype))) (\<lambda>_.
      case reg_validate_payload reg of None \<Rightarrow> Inr () | Some check \<Rightarrow> check env payload)))))"

definition validate_campaign_payload :: "env \<Rightarrow> dict \<Rightarrow> unit result" where
  "validate_campaign_payload env payload =
     rbind (raise_if (set (map fst payload) \<noteq> {''schedule_id'', ''scheduled_for''})
             (ValueError ''Ownership campaign launch jobs require schedule_id and scheduled_for'')) (\<lambda>_.
     rbind (raise_if (\<not> is_jstr (py_get payload ''schedule_id''))
             (ValueError ''Ownership campaign schedule_id is invalid'')) (\<lambda>_.
     raise_if (case py_get_default payload ''scheduled_for'' (JStr []) of
                 JStr s \<Rightarrow> env_iso env s = None | _ \<Rightarrow> True)
       (ValueError ''Ownership campaign scheduled_for is invalid'')))"

definition validate_job_payload :: "env \<Rightarrow> registration list \<Rightarrow> string \<Rightarrow> dict \<Rightarrow> unit result" where
  "validate_job_payload env registry job_type payload =
     rbind (raise_if (length (json_dumps (env_frepr env) '', '' '': '' (JObj payload)) > 16384)
             (ValueError ''Job payload exceeds 16 KiB'')) (\<lambda>_.
     if job_type = ''connector.scan'' then validate_scan_payload env registry payload
     else if job_type = ''integration.deliver'' then
       raise_if (\<not> only_string_key payload ''delivery_id'')
         (ValueError ''Integration delivery jobs require only delivery_id'')
     else if job_type = ''identity.deprovision'' then
       raise_if (\<not> only_string_key payload ''workflow_id'')
         (ValueError ''Identity deprovision jobs require only workflow_id'')
     else if job_type = ''evidence.disposition'' then
       raise_if (\<not> only_string_key payload ''disposition_id'')
         (ValueError ''Evidence disposition jobs require only disposition_id'')
     else if job_type = ''graph.export'' then
       raise_if (\<not> only_string_key payload ''export_id'')
         (ValueError ''Graph export jobs require only export_id'')
     else if job_type = ''governance.sla-notify'' then
       rbind (raise_if (set (map fst payload) \<noteq> {''limit''} \<or> \<not> is_jint (py_get payload ''limit''))
               (ValueError ''Governance notification jobs require only an integer limit'')) (\<lambda>_.
       raise_if (\<not> (1 \<le> jint (py_get payload ''limit'') \<and> jint (py_get payload ''limit'') \<le> 5000))
         (ValueError ''Governance notification job limit must be 1 to 5000''))
     else if job_type = ''ownership.campaign.launch'' then validate_campaign_payload env payload
     else if job_type = ''governance.evidence-package'' then
       raise_if (\<not> only_string_key payload ''package_id'')
         (ValueError ''Governance evidence package jobs require only package_id'')
     else Inr ())"

definition new_job :: "db \<Rightarrow> time \<Rightarrow> string \<Rightarrow> string \<Rightarrow> string \<Rightarrow> dict \<Rightarrow> string \<Rightarrow> nat \<Rightarrow> background_job" where
  "new_job db now uuid tenant_id job_type payload created_by max_attempts =
     \<lparr>job_id = next_id job_id (db_jobs db), job_tenant_id = tenant_id, job_job_id = uuid,
      job_job_type = job_type, job_status = JobPending, job_payload_json = JObj payload,
      job_result_json = JObj [], job_attempts = 0, job_max_attempts = max_attempts,
      job_available_at = now, job_claimed_at = None, job_finished_at = None,
      job_cancel_requested = False, job_error = None, job_created_by = created_by,
      job_created_at = now\<rparr>"

definition enqueue_job ::
  "env \<Rightarrow> registration list \<Rightarrow> string \<Rightarrow> db \<Rightarrow> string \<Rightarrow> string \<Rightarrow> dict \<Rightarrow> string \<Rightarrow> nat \<Rightarrow>
     (db \<times> background_job) result" where
  "enqueue_job env registry uuid db tenant_id job_type payload created_by max_attempts =
     rbind (raise_if (job_type \<notin> set SUPPORTED_JOB_TYPES)
             (ValueError (''Unsupported job type: '' @ job_type))) (\<lambda>_.
     rbind (validate_job_payload env registry job_type payload) (\<lambda>_.
     rbind (if job_type = ''connector.scan''
            then rbind (connector_registration registry (py_get payload ''connector_type'')) (\<lambda>reg.
                 rbind (enforce_connector_policy env (Some db) tenant_id (reg_manifest reg)) (\<lambda>_. Inr ()))
            else Inr ()) (\<lambda>_.
     let job = new_job db (env_now env) uuid tenant_id job_type payload created_by max_attempts in
     Inr (db\<lparr>db_jobs := db_jobs db @ [job]\<rparr>, job))))"

section \<open>Claiming\<close>

definition ready :: "time \<Rightarrow> background_job \<Rightarrow> bool" where
  "ready now j = (job_status j = JobPending \<and> job_available_at j \<le> now \<and> \<not> job_cancel_requested j)"

definition select_candidate :: "time \<Rightarrow> db \<Rightarrow> background_job option" where
  "select_candidate now db =
     (case order_by job_created_at (where_rows (ready now) (db_jobs db)) of [] \<Rightarrow> None | j # _ \<Rightarrow> Some j)"

definition claim_job_row :: "time \<Rightarrow> background_job \<Rightarrow> background_job" where
  "claim_job_row now j =
     j\<lparr>job_status := JobRunning, job_claimed_at := Some now, job_attempts := Suc (job_attempts j)\<rparr>"

text \<open>The conditional update: its row count tells whether this worker won.\<close>

definition claimable :: "nat \<Rightarrow> background_job \<Rightarrow> bool" where
  "claimable i j = (job_id j = i \<and> job_status j = JobPending)"

definition claim_update :: "time \<Rightarrow> nat \<Rightarrow> db \<Rightarrow> db \<times> nat" where
  "claim_update now i db =
     (db\<lparr>db_jobs := update_rows (claimable i) (claim_job_row now) (db_jobs db)\<rparr>,
      row_count (claimable i) (db_jobs db))"

definition claim_next_job :: "time \<Rightarrow> db \<Rightarrow> db \<times> background_job option" where
  "claim_next_job now db =
     (case select_candidate now db of
        None \<Rightarrow> (db, None)
      | Some c \<Rightarrow>
          (case claim_update now (job_id c) db of (db', n) \<Rightarrow>
             (db', if n \<noteq> 1 then None else scalar (\<lambda>j. job_id j = job_id c) (db_jobs db'))))"

section \<open>Executing\<close>

text \<open>What a handler gave: its result as a document, or the exception it raised.\<close>

type_synonym job_outcome = "time \<times> (py_error \<Rightarrow> string) \<times> json result"

definition retry_seconds :: "py_error \<Rightarrow> background_job \<Rightarrow> int" where
  "retry_seconds e j =
     (case e of ProviderRateLimitExceeded msg n \<Rightarrow> n | _ \<Rightarrow> backoff (job_attempts j))"

definition final_failure :: "background_job \<Rightarrow> bool" where
  "final_failure j = (job_attempts j \<ge> job_max_attempts j \<or> job_cancel_requested j)"

definition settle_job_row :: "job_outcome \<Rightarrow> background_job \<Rightarrow> background_job" where
  "settle_job_row out j =
     (case out of (now, safe_connector_error, r) \<Rightarrow>
        (case r of
           Inr result \<Rightarrow>
             j\<lparr>job_status := (if job_cancel_requested j then JobCancelled else JobCompleted),
               job_result_json := result, job_error := None, job_finished_at := Some now\<rparr>
         | Inl e \<Rightarrow>
             if final_failure j
             then j\<lparr>job_error := Some (safe_connector_error e),
                    job_status := (if job_cancel_requested j then JobCancelled else JobFailed),
                    job_finished_at := Some now\<rparr>
             else j\<lparr>job_error := Some (safe_connector_error e), job_status := JobPending,
                    job_available_at := now + td_seconds (retry_seconds e j), job_claimed_at := None\<rparr>))"

definition py_int_text :: "string \<Rightarrow> int result" where
  "py_int_text s =
     (let t = py_strip s;
          sgn = (case t of c # r \<Rightarrow> if c = CHR ''-'' then -1 else 1 | [] \<Rightarrow> 1);
          body = (case t of c # r \<Rightarrow> if c \<in> set ''+-'' then r else t | [] \<Rightarrow> t);
          parts = py_split CHR ''_'' body
      in if list_all (\<lambda>p. p \<noteq> [] \<and> list_all is_ascii_digit p) parts
         then Inr (sgn * int (digits_value 0 (concat parts)))
         else Inl (ValueError ''invalid literal for int() with base 10''))"

text \<open>\<open>int(v)\<close> of a document.\<close>

definition py_int :: "json \<Rightarrow> int result" where
  "py_int v =
     (case v of
        JInt n \<Rightarrow> Inr n
      | JBool b \<Rightarrow> Inr (if b then 1 else 0)
      | JFloat r \<Rightarrow> Inr (if 0 \<le> r then \<lfloor>r\<rfloor> else \<lceil>r\<rceil>)
      | JStr s \<Rightarrow> py_int_text s
      | _ \<Rightarrow> Inl (TypeError ''int() argument must be a string, a bytes-like object or a real number''))"

definition py_getitem :: "dict \<Rightarrow> string \<Rightarrow> json result" where
  "py_getitem d k = (case map_of d k of None \<Rightarrow> Inl (KeyError k) | Some v \<Rightarrow> Inr v)"

text \<open>
  The services behind the dispatcher, each with the tenant and what it reads of the payload, and the
  functions that mark the error of a failed job on its subject. A service returns the database as it
  last committed it.
\<close>

record job_handlers =
  jh_build_connector :: "db \<Rightarrow> string \<Rightarrow> dict \<Rightarrow> unit result"
  jh_ingest :: "db \<Rightarrow> string \<Rightarrow> dict \<Rightarrow> json \<Rightarrow> int \<Rightarrow> db \<times> json result"
  jh_reindex :: "db \<Rightarrow> string \<Rightarrow> db \<times> json result"
  jh_purge_evidence :: "db \<Rightarrow> string \<Rightarrow> string \<Rightarrow> int \<Rightarrow> db \<times> json result"
  jh_disposition :: "db \<Rightarrow> string \<Rightarrow> json \<Rightarrow> string \<Rightarrow> db \<times> json result"
  jh_deprovision :: "db \<Rightarrow> string \<Rightarrow> json \<Rightarrow> db \<times> json result"
  jh_deliver :: "db \<Rightarrow> string \<Rightarrow> json \<Rightarrow> db \<times> json result"
  jh_notify :: "db \<Rightarrow> string \<Rightarrow> int \<Rightarrow> db \<times> json result"
  jh_graph_export :: "db \<Rightarrow> string \<Rightarrow> json \<Rightarrow> db \<times> json result"
  jh_campaign :: "db \<Rightarrow> string \<Rightarrow> json \<Rightarrow> json \<Rightarrow> db \<times> json result"
  jh_package :: "db \<Rightarrow> string \<Rightarrow> json \<Rightarrow> db \<times> json result"
  jh_dead_letter :: "db \<Rightarrow> string \<Rightarrow> json \<Rightarrow> string \<Rightarrow> db result"
  jh_deprovision_error :: "db \<Rightarrow> string \<Rightarrow> json \<Rightarrow> string \<Rightarrow> bool \<Rightarrow> db result"
  jh_disposition_error :: "db \<Rightarrow> string \<Rightarrow> json \<Rightarrow> string \<Rightarrow> db result"
  jh_graph_export_error :: "db \<Rightarrow> string \<Rightarrow> json \<Rightarrow> string \<Rightarrow> db result"
  jh_package_error :: "db \<Rightarrow> string \<Rightarrow> json \<Rightarrow> string \<Rightarrow> db result"

definition with_arg :: "db \<Rightarrow> 'a result \<Rightarrow> ('a \<Rightarrow> db \<times> json result) \<Rightarrow> db \<times> json result" where
  "with_arg db a f = (case a of Inl e \<Rightarrow> (db, Inl e) | Inr x \<Rightarrow> f x)"

definition run_handler :: "job_handlers \<Rightarrow> db \<Rightarrow> background_job \<Rightarrow> db \<times> json result" where
  "run_handler h db j =
     (let payload = jobj (job_payload_json j); t = job_tenant_id j; ty = job_job_type j;
          by = ''job:'' @ job_job_id j in
      if ty = ''connector.scan'' then
        with_arg db (jh_build_connector h db t payload) (\<lambda>_.
        with_arg db (py_int (py_get_default payload ''max_items'' (JInt 500))) (\<lambda>n.
        jh_ingest h db t payload (py_get payload ''cursor'') n))
      else if ty = ''catalog.reindex'' then jh_reindex h db t
      else if ty = ''evidence.retention'' then
        with_arg db (py_int (py_get_default payload ''limit'' (JInt 500))) (\<lambda>n. jh_purge_evidence h db t by n)
      else if ty = ''evidence.disposition'' then
        with_arg db (py_getitem payload ''disposition_id'') (\<lambda>v. jh_disposition h db t v by)
      else if ty = ''identity.deprovision'' then
        with_arg db (py_getitem payload ''workflow_id'') (\<lambda>v. jh_deprovision h db t v)
      else if ty = ''integration.deliver'' then
        with_arg db (py_getitem payload ''delivery_id'') (\<lambda>v. jh_deliver h db t v)
      else if ty = ''governance.sla-notify'' then
        with_arg db (py_int (py_get_default payload ''limit'' (JInt 500))) (\<lambda>n. jh_notify h db t n)
      else if ty = ''graph.export'' then
        with_arg db (py_getitem payload ''export_id'') (\<lambda>v. jh_graph_export h db t v)
      else if ty = ''ownership.campaign.launch'' then
        with_arg db (py_getitem payload ''schedule_id'') (\<lambda>v.
        with_arg db (py_getitem payload ''scheduled_for'') (\<lambda>w. jh_campaign h db t v w))
      else if ty = ''governance.evidence-package'' then
        with_arg db (py_getitem payload ''package_id'') (\<lambda>v. jh_package h db t v)
      else (db, Inl (RuntimeError (''Unsupported job type: '' @ ty))))"

text \<open>The marks of a failure, made in the same transaction as the row of the job.\<close>

definition mark_failure :: "job_handlers \<Rightarrow> db \<Rightarrow> background_job \<Rightarrow> string \<Rightarrow> db result" where
  "mark_failure h db j message =
     (let payload = jobj (job_payload_json j); t = job_tenant_id j; ty = job_job_type j in
      rbind (if final_failure j \<and> ty = ''integration.deliver'' \<and> \<not> job_cancel_requested j
             then rbind (py_getitem payload ''delivery_id'') (\<lambda>v. jh_dead_letter h db t v message)
             else Inr db) (\<lambda>db1.
      if ty = ''identity.deprovision'' \<and> py_truthy (py_get payload ''workflow_id'') then
        jh_deprovision_error h db1 t (py_get payload ''workflow_id'') message
          (final_failure j \<and> \<not> job_cancel_requested j)
      else if ty = ''evidence.disposition'' \<and> py_truthy (py_get payload ''disposition_id'') then
        jh_disposition_error h db1 t (py_get payload ''disposition_id'') message
      else if ty = ''graph.export'' \<and> py_truthy (py_get payload ''export_id'') then
        jh_graph_export_error h db1 t (py_get payload ''export_id'') message
      else if ty = ''governance.evidence-package'' \<and> py_truthy (py_get payload ''package_id'') then
        jh_package_error h db1 t (py_get payload ''package_id'') message
      else Inr db1))"

definition update_job :: "nat \<Rightarrow> (background_job \<Rightarrow> background_job) \<Rightarrow> db \<Rightarrow> db" where
  "update_job i f db = db\<lparr>db_jobs := update_rows (\<lambda>j. job_id j = i) f (db_jobs db)\<rparr>"

text \<open>
  \<open>execute_job\<close>: the row is read again after the handler. An exception while a failure is
  being marked leaves the transaction uncommitted and escapes to the worker.
\<close>

definition execute_job ::
  "job_handlers \<Rightarrow> (py_error \<Rightarrow> string) \<Rightarrow> time \<Rightarrow> db \<Rightarrow> background_job \<Rightarrow> db \<times> unit result" where
  "execute_job h safe_connector_error now db job =
     (if job_cancel_requested job
      then (update_job (job_id job) (\<lambda>j. j\<lparr>job_status := JobCancelled, job_finished_at := Some now\<rparr>) db, Inr ())
      else case run_handler h db job of (db1, r) \<Rightarrow>
        let settled = update_job (job_id job) (settle_job_row (now, safe_connector_error, r)) db1 in
        case r of
          Inr result \<Rightarrow> (settled, Inr ())
        | Inl e \<Rightarrow>
            let row = (case scalar (\<lambda>j. job_id j = job_id job) (db_jobs db1) of None \<Rightarrow> job | Some j \<Rightarrow> j) in
            case mark_failure h settled row (safe_connector_error e) of
              Inl e' \<Rightarrow> (db1, Inl e')
            | Inr db2 \<Rightarrow> (db2, Inr ()))"

section \<open>Recovery, cancellation and retry\<close>

definition stale_job :: "time \<Rightarrow> background_job \<Rightarrow> bool" where
  "stale_job cutoff j =
     (job_status j = JobRunning \<and> (case job_claimed_at j of None \<Rightarrow> False | Some c \<Rightarrow> c < cutoff))"

definition recover_job_row :: "time \<Rightarrow> background_job \<Rightarrow> background_job" where
  "recover_job_row now j =
     (if job_attempts j \<ge> job_max_attempts j
      then j\<lparr>job_status := JobFailed, job_finished_at := Some now,
             job_error := Some ''Worker claim expired after the maximum number of attempts''\<rparr>
      else j\<lparr>job_status := JobPending, job_claimed_at := None, job_available_at := now,
             job_error := Some ''Recovered after worker claim timeout''\<rparr>)"

definition recover_stale_jobs :: "env \<Rightarrow> db \<Rightarrow> db \<times> nat" where
  "recover_stale_jobs env db =
     (let stale = stale_job (env_now env - td_seconds (cfg_worker_claim_timeout_seconds (env_settings env))) in
      (db\<lparr>db_jobs := update_rows stale (recover_job_row (env_now env)) (db_jobs db)\<rparr>,
       row_count stale (db_jobs db)))"

definition cancel_job_row :: "time \<Rightarrow> background_job \<Rightarrow> background_job" where
  "cancel_job_row now j =
     (let j' = j\<lparr>job_cancel_requested := True\<rparr> in
      if job_status j = JobPending then j'\<lparr>job_status := JobCancelled, job_finished_at := Some now\<rparr> else j')"

definition cancel_job :: "time \<Rightarrow> db \<Rightarrow> background_job \<Rightarrow> db" where
  "cancel_job now db job = update_job (job_id job) (cancel_job_row now) db"

definition retry_job_row :: "time \<Rightarrow> background_job \<Rightarrow> background_job" where
  "retry_job_row now j =
     j\<lparr>job_status := JobPending, job_cancel_requested := False, job_available_at := now,
       job_claimed_at := None, job_finished_at := None, job_error := None, job_attempts := 0\<rparr>"

definition retry_job :: "time \<Rightarrow> db \<Rightarrow> background_job \<Rightarrow> db result" where
  "retry_job now db job =
     rbind (raise_if (job_status job \<notin> {JobFailed, JobCancelled})
             (ValueError ''Only failed or cancelled jobs can be retried'')) (\<lambda>_.
     Inr (update_job (job_id job) (retry_job_row now) db))"

section \<open>The contract of the queue\<close>




section \<open>Facts about the table\<close>

lemma enqueue_job_Inr:
  assumes "enqueue_job env registry uuid db t ty payload by m = Inr (db', j)"
  shows "j = new_job db (env_now env) uuid t ty payload by m \<and>
         db' = db\<lparr>db_jobs := db_jobs db @ [j]\<rparr> \<and> ty \<in> set SUPPORTED_JOB_TYPES \<and>
         validate_job_payload env registry ty payload = Inr ()"
  using assms by (auto simp: enqueue_job_def Let_def result_simps)

lemma select_candidate_Some:
  assumes "select_candidate now db = Some j"
  shows "j \<in> set (db_jobs db) \<and> ready now j \<and>
         (\<forall>j' \<in> set (db_jobs db). ready now j' \<longrightarrow> job_created_at j \<le> job_created_at j')"
proof -
  let ?rs = "where_rows (ready now) (db_jobs db)"
  from assms obtain rest where s: "order_by job_created_at ?rs = j # rest"
    by (auto simp: select_candidate_def split: list.splits)
  then have "set (j # rest) = set ?rs" by (metis set_order_by)
  moreover have "sorted (map job_created_at (j # rest))"
    by (metis order_by_def s sorted_sort_key)
  ultimately show ?thesis
    by (fastforce simp: set_where_rows)
qed

lemma select_candidate_None:
  "select_candidate now db = None \<longleftrightarrow> (\<forall>j \<in> set (db_jobs db). \<not> ready now j)"
proof (cases "order_by job_created_at (where_rows (ready now) (db_jobs db))")
  case Nil
  then have "where_rows (ready now) (db_jobs db) = []" by simp
  then have "\<forall>j \<in> set (db_jobs db). \<not> ready now j" by (simp add: where_rows_def filter_empty_conv)
  moreover have "select_candidate now db = None" by (simp only: select_candidate_def Nil list.case)
  ultimately show ?thesis by simp
next
  case (Cons j js)
  then have "j \<in> set (where_rows (ready now) (db_jobs db))"
    by (metis list.set_intros(1) set_order_by)
  with Cons show ?thesis by (auto simp: select_candidate_def set_where_rows)
qed

lemma claim_update_row:
  assumes "unique_key job_id (db_jobs db)" and "j \<in> set (db_jobs db)" and "job_status j = JobPending"
  shows "snd (claim_update now (job_id j) db) = 1"
proof -
  have "row_count (claimable (job_id j)) (db_jobs db) = 1"
    by (rule unique_row_count[OF assms(1,2)]) (simp_all add: claimable_def assms(3))
  then show ?thesis by (simp add: claim_update_def)
qed

text \<open>
  When some job is ready, a worker that asks gets one: a ready one none of the other ready jobs is
  older than, now running with one more attempt counted; every other row of the table is as it was.
\<close>

theorem claim_next_job_serves:
  assumes uniq: "unique_key job_id (db_jobs db)" and r: "r \<in> set (db_jobs db)" "ready now r"
  shows "\<exists>j. j \<in> set (db_jobs db) \<and> ready now j \<and>
             list_all (\<lambda>j'. ready now j' \<longrightarrow> job_created_at j \<le> job_created_at j') (db_jobs db) \<and>
             claim_next_job now db =
               (db\<lparr>db_jobs := map (\<lambda>j'. if job_id j' = job_id j then claim_job_row now j' else j') (db_jobs db)\<rparr>,
                Some (claim_job_row now j))"
proof -
  from r select_candidate_None[of now db] obtain j where j: "select_candidate now db = Some j" by auto
  note c = select_candidate_Some[OF j]
  then have pending: "job_status j = JobPending" and mem: "j \<in> set (db_jobs db)" by (auto simp: ready_def)
  have same: "j' = j" if "j' \<in> set (db_jobs db)" "job_id j' = job_id j" for j'
    using uniq mem that by (auto simp: unique_key_def distinct_map inj_on_def)
  have rows: "update_rows (claimable (job_id j)) (claim_job_row now) (db_jobs db) =
        map (\<lambda>j'. if job_id j' = job_id j then claim_job_row now j' else j') (db_jobs db)"
    using same pending by (auto simp: update_rows_def claimable_def)
  have "scalar (\<lambda>j'. job_id j' = job_id j) (db_jobs db) = Some j"
    using scalar_unique[OF uniq mem, of "\<lambda>j'. job_id j' = job_id j"] by simp
  then have "scalar (\<lambda>j'. job_id j' = job_id j)
      (map (\<lambda>j'. if job_id j' = job_id j then claim_job_row now j' else j') (db_jobs db)) = Some (claim_job_row now j)"
    using scalar_update[of "\<lambda>j'. job_id j' = job_id j" "\<lambda>j'. job_id j' = job_id j" "claim_job_row now" "db_jobs db"]
    by (simp add: update_rows_def claim_job_row_def)
  with claim_update_row[OF uniq mem pending, of now] j rows
  have "claim_next_job now db =
      (db\<lparr>db_jobs := map (\<lambda>j'. if job_id j' = job_id j then claim_job_row now j' else j') (db_jobs db)\<rparr>,
       Some (claim_job_row now j))"
    by (simp add: claim_next_job_def claim_update_def)
  with c show ?thesis by (auto simp: list_all_iff)
qed

definition two_jobs :: db where
  "two_jobs = empty_db\<lparr>db_jobs :=
     (let j1 = new_job empty_db 20 ''u1'' ''default'' ''catalog.reindex'' [] ''root'' 3 in
      [j1, (new_job empty_db 10 ''u2'' ''default'' ''catalog.reindex'' [] ''root'' 3)\<lparr>job_id := 2\<rparr>])\<rparr>"

theorem claim_next_job_serves_witness:
  "\<exists>j. snd (claim_next_job 30 two_jobs) = Some j"
proof -
  have "unique_key job_id (db_jobs two_jobs)" "ready 30 (hd (db_jobs two_jobs))"
    by code_simp+
  moreover have "hd (db_jobs two_jobs) \<in> set (db_jobs two_jobs)"
    by (simp add: two_jobs_def Let_def)
  ultimately show ?thesis
    using claim_next_job_serves[of two_jobs "hd (db_jobs two_jobs)" 30] by auto
qed

section \<open>Workers\<close>

text \<open>
  Several workers share the table. Each reads the clock, selects a candidate and then tries to claim
  it as of that time; it runs the job it won and settles it, or stops without a trace. The clock, the
  other tables, queueing, cancelling, retrying and recovery go on meanwhile, each request and each
  update as one transaction. Recovery looks at the rows only: a worker may still be running a job it
  takes back, and may settle it later. The last component of the state records those: the job, the
  worker, the time of its claim and the time of the recovery.
\<close>

datatype worker = Idle | Selected nat time | Running nat time

type_synonym taken_jobs = "(nat \<times> nat \<times> time \<times> time) set"

type_synonym worker_world = "time \<times> db \<times> (nat \<Rightarrow> worker) \<times> taken_jobs"

abbreviation claim_timeout :: "settings \<Rightarrow> int" where
  "claim_timeout cfg \<equiv> td_seconds (cfg_worker_claim_timeout_seconds cfg)"

definition taken_back :: "settings \<Rightarrow> time \<Rightarrow> db \<Rightarrow> (nat \<Rightarrow> worker) \<Rightarrow> taken_jobs" where
  "taken_back cfg now db W =
     {(i, w, c, now) | i w c. W w = Running i c \<and>
        list_ex (\<lambda>j. job_id j = i \<and> stale_job (now - claim_timeout cfg) j) (db_jobs db)}"

inductive worker_step :: "settings \<Rightarrow> worker_world \<Rightarrow> worker_world \<Rightarrow> bool" for cfg where
  clock: "now \<le> now' \<Longrightarrow> worker_step cfg (now, db, W, L) (now', db, W, L)"
| select: "W w = Idle \<Longrightarrow> t \<le> now \<Longrightarrow> select_candidate t db = Some j \<Longrightarrow>
           worker_step cfg (now, db, W, L) (now, db, W(w := Selected (job_id j) t), L)"
| win: "W w = Selected i t \<Longrightarrow> claim_update t i db = (db', 1) \<Longrightarrow>
        worker_step cfg (now, db, W, L) (now, db', W(w := Running i t), L)"
| lose: "W w = Selected i t \<Longrightarrow> claim_update t i db = (db', n) \<Longrightarrow> n \<noteq> 1 \<Longrightarrow>
         worker_step cfg (now, db, W, L) (now, db', W(w := Idle), L)"
| work: "db_jobs db' = db_jobs db \<Longrightarrow> worker_step cfg (now, db, W, L) (now, db', W, L)"
| finish: "W w = Running i c \<Longrightarrow>
           worker_step cfg (now, db, W, L)
             (now, update_job i (settle_job_row (now, safe, out)) db, W(w := Idle), L)"
| discard: "W w = Running i c \<Longrightarrow> list_ex (\<lambda>j. job_id j = i \<and> job_cancel_requested j) (db_jobs db) \<Longrightarrow>
            worker_step cfg (now, db, W, L)
              (now, update_job i (\<lambda>j. j\<lparr>job_status := JobCancelled, job_finished_at := Some now\<rparr>) db,
               W(w := Idle), L)"
| stop: "worker_step cfg (now, db, W, L) (now, db, W(w := Idle), L)"
| enqueue: "enqueue_job env registry uuid db t ty payload by m = Inr (db', j) \<Longrightarrow>
            worker_step cfg (now, db, W, L) (now, db', W, L)"
| cancel: "worker_step cfg (now, db, W, L) (now, cancel_job now db j, W, L)"
| retry: "j \<in> set (db_jobs db) \<Longrightarrow> retry_job now db j = Inr db' \<Longrightarrow>
          worker_step cfg (now, db, W, L) (now, db', W, L)"
| recover: "env_now env = now \<Longrightarrow> env_settings env = cfg \<Longrightarrow>
            worker_step cfg (now, db, W, L)
              (now, fst (recover_stale_jobs env db), W, L \<union> taken_back cfg now db W)"

text \<open>The row of a job that a worker runs: running, since the time of the worker's claim.\<close>

definition held_row :: "db \<Rightarrow> nat \<Rightarrow> time \<Rightarrow> bool" where
  "held_row db i c =
     list_ex (\<lambda>j. job_id j = i \<and> job_status j = JobRunning \<and> job_claimed_at j = Some c) (db_jobs db)"

definition workers_ok :: "settings \<Rightarrow> worker_world \<Rightarrow> bool" where
  "workers_ok cfg s = (case s of (now, db, W, L) \<Rightarrow>
     unique_key job_id (db_jobs db) \<and>
     (\<forall>w i c. W w = Running i c \<longrightarrow> i \<notin> fst ` L \<longrightarrow> held_row db i c) \<and>
     (\<forall>w w' i c c'. W w = Running i c \<longrightarrow> W w' = Running i c' \<longrightarrow> i \<notin> fst ` L \<longrightarrow> w = w') \<and>
     (\<forall>i \<in> fst ` L. \<exists>v c r. (i, v, c, r) \<in> L \<and> c + claim_timeout cfg < r))"

lemma row_ids [simp]:
  "job_id (claim_job_row now j) = job_id j" "job_id (settle_job_row out j) = job_id j"
  "job_id (cancel_job_row now j) = job_id j" "job_id (retry_job_row now j) = job_id j"
  "job_id (recover_job_row now j) = job_id j"
  by (auto simp: claim_job_row_def settle_job_row_def cancel_job_row_def retry_job_row_def
        recover_job_row_def Let_def split: sum.split prod.split)

lemma held_row_iff:
  "held_row db i c \<longleftrightarrow>
     (\<exists>j \<in> set (db_jobs db). job_id j = i \<and> job_status j = JobRunning \<and> job_claimed_at j = Some c)"
  by (auto simp: held_row_def list_ex_iff)

text \<open>An update that does not touch a held row keeps it held.\<close>

lemma held_row_update:
  assumes "held_row db i c" and "\<And>j. j \<in> set (db_jobs db) \<Longrightarrow> job_id j = i \<Longrightarrow> job_status j = JobRunning \<Longrightarrow>
             job_claimed_at j = Some c \<Longrightarrow> P j \<Longrightarrow>
             job_id (f j) = i \<and> job_status (f j) = JobRunning \<and> job_claimed_at (f j) = Some c"
  shows "held_row (db\<lparr>db_jobs := update_rows P f (db_jobs db)\<rparr>) i c"
proof -
  from assms(1) obtain j where j: "j \<in> set (db_jobs db)" "job_id j = i" "job_status j = JobRunning"
    "job_claimed_at j = Some c" by (auto simp: held_row_iff)
  let ?j = "if P j then f j else j"
  have "?j \<in> set (update_rows P f (db_jobs db))" using j(1) by (auto simp: set_update_rows)
  moreover have "job_id ?j = i \<and> job_status ?j = JobRunning \<and> job_claimed_at ?j = Some c" using j assms(2) by auto
  ultimately show ?thesis unfolding held_row_iff by (intro bexI[of _ ?j]) simp_all
qed

lemma workers_ok_update:
  assumes ok: "workers_ok cfg (now, db, W, L)" and ids: "\<And>j. job_id (f j) = job_id j"
    and keep: "\<And>j c w. j \<in> set (db_jobs db) \<Longrightarrow> W w = Running (job_id j) c \<Longrightarrow> job_id j \<notin> fst ` L \<Longrightarrow>
                 job_status j = JobRunning \<Longrightarrow> job_claimed_at j = Some c \<Longrightarrow> P j \<Longrightarrow>
                 job_status (f j) = JobRunning \<and> job_claimed_at (f j) = Some c"
  shows "workers_ok cfg (now, db\<lparr>db_jobs := update_rows P f (db_jobs db)\<rparr>, W, L)"
proof -
  have "held_row (db\<lparr>db_jobs := update_rows P f (db_jobs db)\<rparr>) i c"
    if "W w = Running i c" "i \<notin> fst ` L" for w i c
  proof (rule held_row_update)
    show "held_row db i c" using ok that unfolding workers_ok_def by blast
  qed (use that ids keep in blast)
  then show ?thesis
    using ok ids by (simp add: workers_ok_def unique_key_update)
qed

lemma workers_ok_worker:
  assumes "workers_ok cfg (now, db, W, L)" and "\<forall>i c. s \<noteq> Running i c"
  shows "workers_ok cfg (now', db, W(w := s), L)"
  using assms by (simp add: workers_ok_def)

lemma workers_ok_table:
  assumes "workers_ok cfg (now, db, W, L)" and "db_jobs db' = db_jobs db"
  shows "workers_ok cfg (now', db', W, L)"
  using assms by (simp add: workers_ok_def held_row_def)

lemma claim_update_ok:
  "workers_ok cfg (now, db, W, L) \<Longrightarrow> claim_update t i db = (db', n) \<Longrightarrow> workers_ok cfg (now, db', W, L)"
  unfolding claim_update_def prod.inject
  by (elim conjE, hypsubst, rule workers_ok_update) (auto simp: claimable_def)

lemma claim_update_won:
  assumes "claim_update t i db = (db', 1)"
  shows "held_row db' i t \<and> (\<exists>j \<in> set (db_jobs db). job_id j = i \<and> job_status j = JobPending)"
proof -
  from assms obtain j where j: "j \<in> set (db_jobs db)" "job_id j = i" "job_status j = JobPending"
    using row_count_zero[of "claimable i" "db_jobs db"] by (auto simp: claim_update_def claimable_def)
  have "claim_job_row t j \<in> set (db_jobs db')"
    using assms j by (force simp: claim_update_def set_update_rows claimable_def)
  then have "held_row db' i t"
    unfolding held_row_iff by (rule rev_bexI) (simp add: j(2) claim_job_row_def)
  with j show ?thesis by blast
qed

text \<open>A step that recovers nothing while a worker runs a job keeps the ghost component.\<close>

lemma recover_workers_ok:
  assumes ok: "workers_ok cfg (now, db, W, L)" and env: "env_now env = now" "env_settings env = cfg"
  shows "workers_ok cfg (now, fst (recover_stale_jobs env db), W, L \<union> taken_back cfg now db W)"
proof -
  let ?L = "L \<union> taken_back cfg now db W" and ?stale = "stale_job (now - claim_timeout cfg)"
  have uniq: "unique_key job_id (db_jobs db)" using ok by (simp add: workers_ok_def)
  have overdue: "\<exists>v c r. (i, v, c, r) \<in> ?L \<and> c + claim_timeout cfg < r" if "i \<in> fst ` ?L" for i
  proof (cases "i \<in> fst ` L")
    case True
    then show ?thesis using ok by (fastforce simp: workers_ok_def)
  next
    case False
    with that obtain w c where w: "(i, w, c, now) \<in> taken_back cfg now db W" by (auto simp: taken_back_def)
    then obtain j where j: "W w = Running i c" "j \<in> set (db_jobs db)" "job_id j = i" "?stale j"
      by (auto simp: taken_back_def list_ex_iff)
    from ok False j(1) have "held_row db i c" unfolding workers_ok_def by blast
    then obtain j' where "j' \<in> set (db_jobs db)" "job_id j' = i" "job_claimed_at j' = Some c"
      by (auto simp: held_row_iff)
    with unique_key_eq[OF uniq j(2), of j'] j have "c + claim_timeout cfg < now"
      by (auto simp: stale_job_def)
    with w show ?thesis by blast
  qed
  have "workers_ok cfg (now, db, W, ?L)"
    unfolding workers_ok_def prod.case
  proof (intro conjI allI impI ballI)
    show "held_row db i c" if "W w = Running i c" "i \<notin> fst ` ?L" for w i c
      using ok that unfolding workers_ok_def image_Un by blast
    show "w = w'" if "W w = Running i c" "W w' = Running i c'" "i \<notin> fst ` ?L" for w w' i c c'
      using ok that unfolding workers_ok_def image_Un by blast
  qed (rule uniq, rule overdue)
  moreover have "job_id j \<in> fst ` ?L" if "j \<in> set (db_jobs db)" "W w = Running (job_id j) c" "?stale j" for j w c
  proof -
    have "(job_id j, w, c, now) \<in> taken_back cfg now db W"
      using that by (auto simp: taken_back_def list_ex_iff)
    then show ?thesis by force
  qed
  ultimately show ?thesis
    unfolding recover_stale_jobs_def Let_def fst_conv env by (elim workers_ok_update) auto
qed

lemma workers_ok_step:
  assumes "worker_step cfg s s'" and "workers_ok cfg s"
  shows "workers_ok cfg s'"
  using assms
proof (induction rule: worker_step.induct)
  case (win W w i t db db' now L)
  from claim_update_won[OF win.hyps(2)] obtain j where
    j: "j \<in> set (db_jobs db)" "job_id j = i" "job_status j = JobPending" and held: "held_row db' i t" by blast
  have uniq: "unique_key job_id (db_jobs db)" using win.prems by (simp add: workers_ok_def)
  have free: "W w' \<noteq> Running i c" if "i \<notin> fst ` L" for w' c
  proof
    assume "W w' = Running i c"
    with win.prems that have "held_row db i c" unfolding workers_ok_def by blast
    then obtain j' where "j' \<in> set (db_jobs db)" "job_id j' = i" "job_status j' = JobRunning"
      by (auto simp: held_row_iff)
    with unique_key_eq[OF uniq j(1), of j'] j show False by simp
  qed
  from claim_update_ok[OF win.prems win.hyps(2)] free held show ?case
    unfolding workers_ok_def prod.case by (auto split: if_splits)
next
  case (finish W w i c now db L safe out)
  have "workers_ok cfg (now, db, W(w := Idle), L)" using finish.prems by (rule workers_ok_worker) simp
  moreover have alone: "w' = w" if "W w' = Running i c'" "i \<notin> fst ` L" for w' c'
    using finish that unfolding workers_ok_def by blast
  ultimately show ?case
    unfolding update_job_def by (elim workers_ok_update) (auto split: if_splits)
next
  case (discard W w i c db now L)
  have "workers_ok cfg (now, db, W(w := Idle), L)" using discard.prems by (rule workers_ok_worker) simp
  moreover have alone: "w' = w" if "W w' = Running i c'" "i \<notin> fst ` L" for w' c'
    using discard that unfolding workers_ok_def by blast
  ultimately show ?case
    unfolding update_job_def by (elim workers_ok_update) (auto split: if_splits)
next
  case (enqueue env registry uuid db t ty payload "by" m db' j now W L)
  from enqueue_job_Inr[OF enqueue.hyps] have "db' = db\<lparr>db_jobs := db_jobs db @ [j]\<rparr>"
    "job_id j = next_id job_id (db_jobs db)" by (auto simp: new_job_def)
  with enqueue.prems unique_key_insert[of job_id "db_jobs db" j] show ?case
    by (auto simp: workers_ok_def held_row_def)
next
  case (cancel now db W L j)
  then show ?case
    unfolding cancel_job_def update_job_def
    by (rule workers_ok_update) (auto simp: cancel_job_row_def Let_def)
next
  case (retry j db now db' W L)
  then have "db' = update_job (job_id j) (retry_job_row now) db" "job_status j \<noteq> JobRunning"
    by (auto simp: retry_job_def result_simps)
  moreover have "j' = j" if "j' \<in> set (db_jobs db)" "job_id j' = job_id j" for j'
    using retry.prems retry.hyps(1) that unique_key_eq[of job_id] by (auto simp: workers_ok_def)
  ultimately show ?case
    using retry.prems unfolding update_job_def by (auto intro!: workers_ok_update)
next
  case (recover env now db W L)
  then show ?case by (intro recover_workers_ok)
next
  case (lose W w i t db db' n now L)
  from claim_update_ok[OF lose.prems lose.hyps(2)] show ?case by (rule workers_ok_worker) simp
next
  case (work db' db now W L)
  from work.prems work.hyps show ?case by (rule workers_ok_table)
next
  case (clock now now' db W L)
  from clock.prems show ?case by (simp add: workers_ok_def)
qed (rule workers_ok_worker, assumption, simp)+

text \<open>
  C22: as long as recovery has not taken a job from a worker that was still running it more than the
  claim timeout after its claim, no second worker runs that job, and its row is marked running since
  that claim; however the steps of any number of workers interleave with requests and recovery.
\<close>

theorem claims_exclusive:
  assumes steps: "(worker_step cfg)\<^sup>*\<^sup>* (start, db, \<lambda>_. Idle, {}) (now, db', W, L)"
    and uniq: "unique_key job_id (db_jobs db)"
    and held: "W w = Running i c"
  shows "((\<forall>w' c'. W w' = Running i c' \<longrightarrow> w' = w) \<and> held_row db' i c) \<or>
         (\<exists>v c' r. (i, v, c', r) \<in> L \<and> c' + claim_timeout cfg < r)"
proof -
  have "workers_ok cfg (start, db, \<lambda>_. Idle, {})" using uniq by (simp add: workers_ok_def)
  with steps have ok: "workers_ok cfg (now, db', W, L)"
    by (induction rule: rtranclp_induct) (auto intro: workers_ok_step)
  show ?thesis
  proof (cases "i \<in> fst ` L")
    case True
    then show ?thesis using ok unfolding workers_ok_def by blast
  next
    case False
    with ok held show ?thesis unfolding workers_ok_def by blast
  qed
qed

lemma two_jobs_unique: "unique_key job_id (db_jobs two_jobs)"
  by code_simp

text \<open>
  A slow worker: it claims the second job, recovery takes the job back after the timeout, and another
  worker claims it. Both run it.
\<close>

theorem claims_exclusive_witness:
  "\<exists>db' W L v c r. (worker_step (env_settings base_env))\<^sup>*\<^sup>* (30, two_jobs, \<lambda>_. Idle, {}) (1000000000, db', W, L) \<and>
     W 0 = Running 2 30 \<and> W 1 = Running 2 1000000000 \<and> (2, v, c, r) \<in> L \<and> c + claim_timeout (env_settings base_env) < r"
proof -
  let ?cfg = "env_settings base_env"
  let ?W1 = "(\<lambda>_. Idle)(0 := Selected 2 30)" and ?W2 = "(\<lambda>_. Idle)(0 := Running 2 30)"
  let ?W3 = "?W2(Suc 0 := Selected 2 1000000000)" and ?W4 = "?W2(Suc 0 := Running 2 1000000000)"
  let ?db1 = "fst (claim_update 30 2 two_jobs)"
  let ?db2 = "fst (recover_stale_jobs base_env ?db1)"
  let ?db3 = "fst (claim_update 1000000000 2 ?db2)"
  let ?L = "{} \<union> taken_back ?cfg 1000000000 ?db1 ?W2"
  have "map_option job_id (select_candidate 30 two_jobs) = Some 2"
    "map_option job_id (select_candidate 1000000000 ?db2) = Some 2"
    "snd (claim_update 30 2 two_jobs) = 1" "snd (claim_update 1000000000 2 ?db2) = 1"
    by code_simp+
  then have c: "claim_update 30 2 two_jobs = (?db1, 1)" "claim_update 1000000000 2 ?db2 = (?db3, 1)"
    and s: "map_option job_id (select_candidate 30 two_jobs) = Some 2"
      "map_option job_id (select_candidate 1000000000 ?db2) = Some 2"
    by (simp_all only: prod_eq_iff fst_conv snd_conv simp_thms)
  from s obtain j j' where j: "select_candidate 30 two_jobs = Some j" "job_id j = 2"
      "select_candidate 1000000000 ?db2 = Some j'" "job_id j' = 2"
    unfolding map_option_eq_Some by blast
  have 1: "worker_step ?cfg (30, two_jobs, \<lambda>_. Idle, {}) (30, two_jobs, ?W1, {})"
    using worker_step.select[OF _ _ j(1), of "\<lambda>_. Idle" 0 30 ?cfg "{}"] j(2) by simp
  have 2: "worker_step ?cfg (30, two_jobs, ?W1, {}) (30, ?db1, ?W2, {})"
    using worker_step.win[OF _ c(1), of ?W1 0 ?cfg 30 "{}"] by simp
  have 3: "worker_step ?cfg (30, ?db1, ?W2, {}) (1000000000, ?db1, ?W2, {})"
    by (rule worker_step.clock) simp
  have 4: "worker_step ?cfg (1000000000, ?db1, ?W2, {}) (1000000000, ?db2, ?W2, ?L)"
    by (rule worker_step.recover) (simp_all add: base_env_def)
  have 5: "worker_step ?cfg (1000000000, ?db2, ?W2, ?L) (1000000000, ?db2, ?W3, ?L)"
    using worker_step.select[OF _ _ j(3), of ?W2 "Suc 0" 1000000000 ?cfg ?L] j(4) by simp
  have 6: "worker_step ?cfg (1000000000, ?db2, ?W3, ?L) (1000000000, ?db3, ?W4, ?L)"
    using worker_step.win[OF _ c(2), of ?W3 "Suc 0" ?cfg 1000000000 ?L] by simp
  have run: "(worker_step ?cfg)\<^sup>*\<^sup>* (30, two_jobs, \<lambda>_. Idle, {}) (1000000000, ?db3, ?W4, ?L)"
    using 1 2 3 4 5 6 by (meson converse_rtranclp_into_rtranclp rtranclp.rtrancl_refl)
  have "\<not> (\<forall>w' c'. ?W4 w' = Running 2 c' \<longrightarrow> w' = 0)" by (auto intro!: exI[of _ "Suc 0"])
  with claims_exclusive[OF run two_jobs_unique, of 0 2 30] obtain v c r where
    "(2, v, c, r) \<in> ?L \<and> c + claim_timeout ?cfg < r" by auto
  with run show ?thesis
    by (intro exI[of _ ?db3] exI[of _ ?W4] exI[of _ ?L] exI[of _ v] exI[of _ c] exI[of _ r]) simp
qed

section \<open>Attempts, failures and recovery\<close>











lemma jobs_update_job [simp]: "db_jobs (update_job i f db) = update_rows (\<lambda>j. job_id j = i) f (db_jobs db)"
  by (simp add: update_job_def)

text \<open>
  A failed attempt with attempts left puts the job back with its error and keeps it from being
  claimed until the delay is over: the provider's own delay after a rate limit, otherwise
  \<open>min(300, 2 ** attempts)\<close> seconds; without attempts left it is failed with its finish time.
\<close>

theorem failed_attempt:
  assumes run: "run_handler h db job = (db1, Inl e)"
    and row: "scalar (\<lambda>j. job_id j = job_id job) (db_jobs db1) = Some job"
    and ty: "job_job_type job \<in> {''catalog.reindex'', ''connector.scan'', ''governance.sla-notify''}"
    and live: "\<not> job_cancel_requested job"
  shows "\<exists>db' j. execute_job h safe now db job = (db', Inr ()) \<and>
           scalar (\<lambda>j. job_id j = job_id job) (db_jobs db') = Some j \<and>
           job_error j = Some (safe e) \<and> job_attempts j = job_attempts job \<and>
           (if job_attempts job < job_max_attempts job
            then job_status j = JobPending \<and> job_claimed_at j = None \<and>
                 (\<forall>t. ready t j = (now + td_seconds (retry_seconds e job) \<le> t))
            else job_status j = JobFailed \<and> job_finished_at j = Some now \<and> (\<forall>t. \<not> ready t j))"
proof -
  let ?db = "update_job (job_id job) (settle_job_row (now, safe, Inl e)) db1"
  have "mark_failure h ?db job (safe e) = Inr ?db"
    using ty by (auto simp: mark_failure_def Let_def)
  then have "execute_job h safe now db job = (?db, Inr ())"
    using live run row by (simp add: execute_job_def Let_def)
  moreover have "scalar (\<lambda>j. job_id j = job_id job) (db_jobs ?db) = Some (settle_job_row (now, safe, Inl e) job)"
    using row by (simp add: scalar_update)
  ultimately show ?thesis
    using live by (auto simp: settle_job_row_def final_failure_def ready_def)
qed

definition failing_handlers :: job_handlers where
  "failing_handlers =
     \<lparr>jh_build_connector = (\<lambda>db t p. Inr ()),
      jh_ingest = (\<lambda>db t p c n. (db, Inl (ProviderRateLimitExceeded ''slow'' 30))),
      jh_reindex = (\<lambda>db t. (db, Inl (RuntimeError ''down''))),
      jh_purge_evidence = (\<lambda>db t b n. (db, Inr JNull)), jh_disposition = (\<lambda>db t v b. (db, Inr JNull)),
      jh_deprovision = (\<lambda>db t v. (db, Inr JNull)), jh_deliver = (\<lambda>db t v. (db, Inr JNull)),
      jh_notify = (\<lambda>db t n. (db, Inr JNull)), jh_graph_export = (\<lambda>db t v. (db, Inr JNull)),
      jh_campaign = (\<lambda>db t v w. (db, Inr JNull)), jh_package = (\<lambda>db t v. (db, Inr JNull)),
      jh_dead_letter = (\<lambda>db t v m. Inr db), jh_deprovision_error = (\<lambda>db t v m b. Inr db),
      jh_disposition_error = (\<lambda>db t v m. Inr db), jh_graph_export_error = (\<lambda>db t v m. Inr db),
      jh_package_error = (\<lambda>db t v m. Inr db)\<rparr>"

theorem failed_attempt_witness:
  "\<exists>db' j. execute_job failing_handlers (\<lambda>e. ''failed'') 40 two_jobs (hd (db_jobs two_jobs)) = (db', Inr ()) \<and>
     scalar (\<lambda>j. job_id j = job_id (hd (db_jobs two_jobs))) (db_jobs db') = Some j \<and> job_status j = JobPending"
proof -
  have "run_handler failing_handlers two_jobs (hd (db_jobs two_jobs)) = (two_jobs, Inl (RuntimeError ''down''))"
    by (simp add: run_handler_def failing_handlers_def two_jobs_def new_job_def Let_def)
  from failed_attempt[OF this, of "\<lambda>e. ''failed''" 40] show ?thesis
    by (auto simp: two_jobs_def new_job_def Let_def scalar_Cons)
qed

text \<open>
  Recovery leaves no job running under a stale claim: each is pending again with a free claim when it
  has attempts left and failed with its finish time otherwise; the count it reports is theirs, and no
  other job changes.
\<close>

theorem recovery_complete:
  assumes "recover_stale_jobs env db = (db', n)"
  shows "n = length (filter (stale_job (env_now env - td_seconds (cfg_worker_claim_timeout_seconds (env_settings env)))) (db_jobs db)) \<and>
         list_all2 (\<lambda>j j'.
           if stale_job (env_now env - td_seconds (cfg_worker_claim_timeout_seconds (env_settings env))) j
           then job_attempts j' = job_attempts j \<and>
                (if job_attempts j < job_max_attempts j
                 then job_status j' = JobPending \<and> job_claimed_at j' = None \<and> job_available_at j' = env_now env
                 else job_status j' = JobFailed \<and> job_finished_at j' = Some (env_now env))
           else j' = j) (db_jobs db) (db_jobs db') \<and>
         list_all (\<lambda>j. \<not> stale_job (env_now env - td_seconds (cfg_worker_claim_timeout_seconds (env_settings env))) j)
           (db_jobs db')"
  using assms
  by (auto simp: recover_stale_jobs_def Let_def row_count_def update_rows_def list_all2_map2 list_all_iff
        recover_job_row_def stale_job_def intro!: list.rel_refl_strong)

theorem recovery_complete_witness:
  "list_all (\<lambda>j. \<not> stale_job (1000000000 - td_seconds 900) j)
     (db_jobs (fst (recover_stale_jobs base_env (fst (claim_next_job 30 two_jobs)))))"
  using recovery_complete[of base_env "fst (claim_next_job 30 two_jobs)", OF prod.collapse[symmetric]]
  by (simp add: base_env_def default_settings_def)

text \<open>
  A job whose cancellation was asked for while its worker died is put back as pending, where no
  worker claims it and a retry is refused, whatever the time.
\<close>

lemma cancelled_recovery_stuck:
  assumes "job_cancel_requested j" and "job_attempts j < job_max_attempts j"
  shows "job_status (recover_job_row now j) = JobPending \<and> \<not> ready t (recover_job_row now j) \<and>
         \<not> is_ok (retry_job t db (recover_job_row now j))"
  using assms by (simp add: recover_job_row_def ready_def retry_job_def)

end
