(* ===== verification/Caching.thy ===== *)
theory Caching
  imports Models
begin

text \<open>
  The contract the two in-process caches share (\<open>_POLICY_CACHE\<close> of \<open>policy.py\<close> and
  \<open>_ROLLOUT_CACHE\<close> of \<open>policy_rollouts.py\<close>): a fetch serves an entry that has not expired
  and otherwise loads from the database and stores with a fresh expiry; invalidation drops one
  tenant's entry or all of them. The lock of the code makes each fetch atomic. The lemmas say what a
  caller may rely on: a value served is one that some load within the last \<open>ttl\<close> seconds
  returned, and the first fetch after an invalidation is up to date.
\<close>

type_synonym 'v cache = "string \<rightharpoonup> time \<times> 'v"

definition cache_live :: "time \<Rightarrow> 'v cache \<Rightarrow> string \<Rightarrow> 'v option" where
  "cache_live now c k =
     (case c k of None \<Rightarrow> None | Some (expires, v) \<Rightarrow> if expires > now then Some v else None)"

definition cache_put :: "time \<Rightarrow> int \<Rightarrow> string \<Rightarrow> 'v \<Rightarrow> 'v cache \<Rightarrow> 'v cache" where
  "cache_put now ttl k v c = c(k \<mapsto> (now + td_seconds (max 0 ttl), v))"

definition cache_drop :: "string option \<Rightarrow> 'v cache \<Rightarrow> 'v cache" where
  "cache_drop tenant c = (case tenant of None \<Rightarrow> Map.empty | Some k \<Rightarrow> c(k := None))"

lemma cache_live_put [simp]:
  "cache_live now (cache_put now' ttl k v c) k =
     (if now' + td_seconds (max 0 ttl) > now then Some v else None)"
  "k' \<noteq> k \<Longrightarrow> cache_live now (cache_put now' ttl k v c) k' = cache_live now c k'"
  by (simp_all add: cache_live_def cache_put_def)

lemma cache_live_drop [simp]:
  "cache_live now (cache_drop None c) k = None"
  "cache_live now (cache_drop (Some k) c) k = None"
  "k' \<noteq> k \<Longrightarrow> cache_live now (cache_drop (Some k) c) k' = cache_live now c k'"
  by (simp_all add: cache_live_def cache_drop_def)

locale ttl_cache =
  fixes load :: "'s \<Rightarrow> string \<Rightarrow> 'v result"
    and ttl :: int
    and fetch :: "time \<Rightarrow> 's \<Rightarrow> 'v cache \<Rightarrow> string \<Rightarrow> ('v \<times> 'v cache) result"
    and invalidate :: "string option \<Rightarrow> 'v cache \<Rightarrow> 'v cache"
  assumes hit: "cache_live now c k = Some v \<Longrightarrow> fetch now s c k = Inr (v, c)"
    and miss: "cache_live now c k = None \<Longrightarrow>
                 fetch now s c k = rbind (load s k) (\<lambda>v. Inr (v, cache_put now ttl k v c))"
    and invalidate_live: "cache_live now (invalidate t c) k =
                 (if t = None \<or> t = Some k then None else cache_live now c k)"
begin

text \<open>After an invalidation of the tenant the next fetch loads.\<close>

lemma fetch_after_invalidate:
  assumes "t = None \<or> t = Some k" and "fetch now s (invalidate t c) k = Inr (v, c')"
  shows "load s k = Inr v"
proof -
  from assms(1) have "cache_live now (invalidate t c) k = None"
    by (auto simp: invalidate_live)
  with assms(2) show ?thesis by (auto simp: miss result_simps)
qed

text \<open>A fetch never disturbs another tenant.\<close>

lemma fetch_other:
  assumes "fetch now s c k = Inr (v, c')" and "k' \<noteq> k"
  shows "cache_live t c' k' = cache_live t c k'"
  using assms by (cases "cache_live now c k") (auto simp: hit miss result_simps)

text \<open>
  A history of fetches for one tenant, each at a time and against the database of that time. Every
  value served comes from a load of the history that is younger than the time to live.
\<close>

fun served :: "string \<Rightarrow> (time \<times> 's) list \<Rightarrow> 'v cache \<Rightarrow> ('v list \<times> 'v cache) result" where
  "served k [] c = Inr ([], c)"
| "served k ((now, s) # h) c =
     rbind (fetch now s c k) (\<lambda>(v, c'). rbind (served k h c') (\<lambda>(vs, c''). Inr (v # vs, c'')))"

definition explained :: "(time \<times> 's) list \<Rightarrow> string \<Rightarrow> time \<Rightarrow> 'v \<Rightarrow> bool" where
  "explained h k now v \<longleftrightarrow>
     (\<exists>(t, s) \<in> set h. load s k = Inr v \<and> (t = now \<or> now < t + td_seconds (max 0 ttl)))"

definition entry_explained :: "(time \<times> 's) list \<Rightarrow> string \<Rightarrow> 'v cache \<Rightarrow> bool" where
  "entry_explained h k c \<longleftrightarrow>
     (\<forall>e v. c k = Some (e, v) \<longrightarrow>
        (\<exists>(t, s) \<in> set h. load s k = Inr v \<and> e = t + td_seconds (max 0 ttl)))"

lemma fetch_explained:
  assumes "entry_explained h k c" and "fetch now s c k = Inr (v, c')"
  shows "explained ((now, s) # h) k now v \<and> entry_explained ((now, s) # h) k c'"
proof (cases "cache_live now c k")
  case None
  with assms(2) have "load s k = Inr v" "c' = cache_put now ttl k v c"
    by (auto simp: miss result_simps)
  then show ?thesis by (auto simp: explained_def entry_explained_def cache_put_def)
next
  case (Some w)
  with assms(2) have "w = v" "c' = c" by (auto simp: hit)
  moreover from Some obtain e where "c k = Some (e, w)" "now < e"
    by (auto simp: cache_live_def split: option.splits if_splits)
  ultimately show ?thesis
    using assms(1) by (fastforce simp: explained_def entry_explained_def)
qed

lemma explained_mono: "set h \<subseteq> set h' \<Longrightarrow> explained h k now v \<Longrightarrow> explained h' k now v"
  by (auto simp: explained_def)

lemma served_explained:
  assumes "entry_explained h0 k c" and "served k h c = Inr (vs, c')"
  shows "length vs = length h \<and>
         (\<forall>i < length h. explained (rev (take (Suc i) h) @ h0) k (fst (h ! i)) (vs ! i))"
  using assms
proof (induction h arbitrary: h0 c vs)
  case (Cons x h)
  obtain now s where x: "x = (now, s)" by (cases x)
  from Cons.prems(2) obtain v c1 ws where f: "fetch now s c k = Inr (v, c1)"
    and r: "served k h c1 = Inr (ws, c')" and vs: "vs = v # ws"
    by (auto simp: x result_simps)
  note e = fetch_explained[OF Cons.prems(1) f]
  from Cons.IH[OF conjunct2[OF e] r] e show ?case
    by (auto simp: vs x less_Suc_eq_0_disj)
qed simp

end

end
