(* ===== verification/PolicyEngine.thy ===== *)
theory PolicyEngine
  imports Models "HOL-Library.Multiset"
begin

text \<open>
  \<open>app/services/policy_engine.py\<close>: validation of policy definitions and their evaluation
  against a context. A policy is the JSON object the YAML file or the bundle holds; the values of a
  context may be any document. Every \<open>raise\<close> is an \<open>Inl\<close>, in the order of the code's checks;
  an unhashable value where the code builds a set or looks a key up is a \<open>TypeError\<close>.
  The lemmas show that validation gives well-formed policies with distinct ids and that the matches
  are exactly the policies whose conditions hold, strictest decision first.
\<close>

section \<open>Matches\<close>

text \<open>
  \<open>version\<close> keeps the value that the code passes to \<open>str\<close>; nothing reads it afterwards.
\<close>

record policy_match =
  pm_policy_id :: string
  pm_version :: json
  pm_decision :: decision
  pm_risk_score :: int
  pm_reason :: json
  pm_controls :: "string list"

text \<open>\<open>value not in DECISION_ORDER\<close>: a dictionary lookup hashes the value first.\<close>

definition decision_lookup :: "json \<Rightarrow> decision option result" where
  "decision_lookup v =
     (if py_hashable v then Inr (decision_of v) else Inl (TypeError ''unhashable type''))"

section \<open>Validation\<close>

definition validate_policy :: "string list \<Rightarrow> json \<Rightarrow> string result" where
  "validate_policy identifiers policy =
     (case policy of
        JObj p \<Rightarrow>
          (case py_get p ''id'' of
             JStr pid \<Rightarrow>
               if py_strip pid = [] \<or> length pid > 160
               then Inl (ValueError ''Each policy requires a bounded id'')
               else rbind (raise_if (pid \<in> set identifiers) (ValueError (''Duplicate policy id: '' @ pid))) (\<lambda>_.
                    rbind (decision_lookup (py_get p ''decision'')) (\<lambda>d.
                    rbind (raise_if (d = None) (ValueError (''Policy '' @ pid @ '' has an invalid decision''))) (\<lambda>_.
                    rbind (raise_if (\<not> is_jobj (py_get_default p ''match'' (JObj [])))
                            (ValueError (''Policy '' @ pid @ '' match must be an object''))) (\<lambda>_.
                    let risk_score = py_get_default p ''risk_score'' (JInt 50) in
                    rbind (raise_if (\<not> is_jint risk_score \<or> \<not> (0 \<le> jint risk_score \<and> jint risk_score \<le> 100))
                            (ValueError (''Policy '' @ pid @ '' risk_score must be from 0 to 100''))) (\<lambda>_.
                    let controls = py_get_default p ''controls'' (JList []) in
                    rbind (raise_if (\<not> is_jlist controls \<or> \<not> list_all is_jstr (jlist controls))
                            (ValueError (''Policy '' @ pid @ '' controls must be strings''))) (\<lambda>_.
                    Inr pid))))))
           | _ \<Rightarrow> Inl (ValueError ''Each policy requires a bounded id''))
      | _ \<Rightarrow> Inl (ValueError ''Each policy must be an object''))"

fun validate_policies :: "string list \<Rightarrow> json list \<Rightarrow> unit result" where
  "validate_policies identifiers [] = Inr ()"
| "validate_policies identifiers (p # ps) =
     rbind (validate_policy identifiers p) (\<lambda>pid. validate_policies (pid # identifiers) ps)"

definition validate_policy_definitions :: "json \<Rightarrow> unit result" where
  "validate_policy_definitions policies =
     (case policies of
        JList ps \<Rightarrow>
          if ps = [] then Inl (ValueError ''Policy bundle must contain at least one policy'')
          else validate_policies [] ps
      | _ \<Rightarrow> Inl (ValueError ''Policy bundle must contain at least one policy''))"

text \<open>
  \<open>load_policies\<close>: the directory is the list of its \<open>.yaml\<close> files with their parsed content.
\<close>

definition load_policy :: "string \<times> json \<Rightarrow> json result" where
  "load_policy file =
     (let invalid = ValueError (''Invalid policy file: '' @ fst file) in
      case snd file of
        JObj p \<Rightarrow>
          if \<not> py_truthy (py_get p ''id'') then Inl invalid
          else rbind (decision_lookup (py_get p ''decision''))
                 (\<lambda>d. if d = None then Inl invalid else Inr (JObj p))
      | _ \<Rightarrow> Inl invalid)"

definition load_policies :: "(string \<times> json) list \<Rightarrow> json result" where
  "load_policies files = rbind (rmap load_policy (sort_key fst files)) (\<lambda>ps. Inr (JList ps))"

section \<open>Evaluation\<close>

definition matches_value :: "json \<Rightarrow> json \<Rightarrow> bool result" where
  "matches_value actual expected =
     (let expected_values = (case expected of JList xs \<Rightarrow> xs | _ \<Rightarrow> [expected]) in
      case actual of
        JList xs \<Rightarrow>
          if list_all py_hashable xs \<and> list_all py_hashable expected_values
          then Inr (list_ex (\<lambda>a. py_in a expected_values) xs)
          else Inl (TypeError ''unhashable type'')
      | _ \<Rightarrow> Inr (py_in actual expected_values))"

text \<open>\<open>all(...)\<close> over the conditions: stops at the first that fails or raises.\<close>

fun conditions_hold :: "dict \<Rightarrow> dict \<Rightarrow> bool result" where
  "conditions_hold ctx [] = Inr True"
| "conditions_hold ctx ((field, expected) # cs) =
     rbind (matches_value (py_get ctx field) expected)
       (\<lambda>b. if b then conditions_hold ctx cs else Inr False)"

definition policy_conditions :: "json \<Rightarrow> dict" where
  "policy_conditions policy = jobj (py_get_default (jobj policy) ''match'' (JObj []))"

definition make_match :: "json \<Rightarrow> policy_match" where
  "make_match policy =
     (let p = jobj policy in
      \<lparr>pm_policy_id = jstr (py_get p ''id''),
       pm_version = py_get_default p ''version'' (JStr ''1''),
       pm_decision = (case decision_of (py_get p ''decision'') of None \<Rightarrow> Allow | Some d \<Rightarrow> d),
       pm_risk_score = jint (py_get_default p ''risk_score'' (JInt 50)),
       pm_reason = py_get_default p ''reason'' (py_get_default p ''description'' (py_get p ''id'')),
       pm_controls = map jstr (jlist (py_get_default p ''controls'' (JList [])))\<rparr>)"

fun collect_matches :: "dict \<Rightarrow> json list \<Rightarrow> policy_match list result" where
  "collect_matches ctx [] = Inr []"
| "collect_matches ctx (p # ps) =
     rbind (conditions_hold ctx (policy_conditions p)) (\<lambda>b.
     rbind (collect_matches ctx ps) (\<lambda>ms.
     Inr (if b then make_match p # ms else ms)))"

text \<open>\<open>sorted(matches, key=..., reverse=True)\<close> is stable: equal decisions keep their order.\<close>

definition sort_matches :: "policy_match list \<Rightarrow> policy_match list" where
  "sort_matches ms = sort_key (\<lambda>m. - int (decision_rank (pm_decision m))) ms"

definition evaluate_policy_definitions :: "dict \<Rightarrow> json \<Rightarrow> policy_match list result" where
  "evaluate_policy_definitions ctx policies =
     rbind (validate_policy_definitions policies) (\<lambda>_.
     rbind (collect_matches ctx (jlist policies)) (\<lambda>ms.
     Inr (sort_matches ms)))"

definition evaluate_policies :: "dict \<Rightarrow> (string \<times> json) list \<Rightarrow> policy_match list result" where
  "evaluate_policies ctx files =
     rbind (load_policies files) (\<lambda>ps. evaluate_policy_definitions ctx ps)"

section \<open>Well-formed policies\<close>

text \<open>What the rest of the code may assume of a validated policy.\<close>

definition policy_id_of :: "json \<Rightarrow> string" where
  "policy_id_of policy = jstr (py_get (jobj policy) ''id'')"

definition policy_wf :: "json \<Rightarrow> bool" where
  "policy_wf policy \<longleftrightarrow>
     is_jobj policy \<and>
     is_jstr (py_get (jobj policy) ''id'') \<and>
     py_strip (policy_id_of policy) \<noteq> [] \<and> length (policy_id_of policy) \<le> 160 \<and>
     decision_of (py_get (jobj policy) ''decision'') \<noteq> None \<and>
     is_jobj (py_get_default (jobj policy) ''match'' (JObj [])) \<and>
     is_jint (py_get_default (jobj policy) ''risk_score'' (JInt 50)) \<and>
     0 \<le> jint (py_get_default (jobj policy) ''risk_score'' (JInt 50)) \<and>
     jint (py_get_default (jobj policy) ''risk_score'' (JInt 50)) \<le> 100 \<and>
     is_jlist (py_get_default (jobj policy) ''controls'' (JList [])) \<and>
     list_all is_jstr (jlist (py_get_default (jobj policy) ''controls'' (JList [])))"

lemma decision_lookup_Inr: "decision_lookup v = Inr d \<Longrightarrow> d = decision_of v"
  by (auto simp: decision_lookup_def split: if_splits)

lemma validate_policy_ok:
  assumes "validate_policy ids policy = Inr pid"
  shows "policy_wf policy \<and> pid = policy_id_of policy \<and> pid \<notin> set ids"
  using assms
  by (auto simp: validate_policy_def policy_wf_def policy_id_of_def Let_def result_simps not_less
           dest!: decision_lookup_Inr split: json.splits if_splits)

lemma validate_policies_ok:
  assumes "validate_policies ids ps = Inr ()"
  shows "(\<forall>p \<in> set ps. policy_wf p) \<and> distinct (map policy_id_of ps) \<and>
         set (map policy_id_of ps) \<inter> set ids = {}"
  using assms
proof (induction ids ps rule: validate_policies.induct)
  case (2 ids p ps)
  then obtain pid where pid: "validate_policy ids p = Inr pid"
    and rest: "validate_policies (pid # ids) ps = Inr ()"
    by (auto simp: result_simps)
  from "2.IH"[OF rest] validate_policy_ok[OF pid] show ?case by auto
qed simp

lemma validate_policy_definitions_ok:
  assumes "validate_policy_definitions policies = Inr ()"
  shows "\<exists>ps. policies = JList ps \<and> ps \<noteq> [] \<and> (\<forall>p \<in> set ps. policy_wf p) \<and> distinct (map policy_id_of ps)"
  using assms validate_policies_ok
  by (fastforce simp: validate_policy_definitions_def split: json.splits if_splits)

text \<open>The converse: validation rejects nothing that is well formed.\<close>

lemma validate_policy_complete:
  "policy_wf policy \<Longrightarrow> policy_id_of policy \<notin> set ids \<Longrightarrow>
   validate_policy ids policy = Inr (policy_id_of policy)"
  by (cases policy)
     (auto simp: policy_wf_def validate_policy_def policy_id_of_def decision_lookup_def decision_of_Some
                 Let_def raise_if_def not_less is_jstr_iff)

lemma validate_policies_complete:
  "\<forall>p \<in> set ps. policy_wf p \<Longrightarrow> distinct (map policy_id_of ps) \<Longrightarrow>
   set (map policy_id_of ps) \<inter> set ids = {} \<Longrightarrow> validate_policies ids ps = Inr ()"
  by (induction ps arbitrary: ids) (auto simp: validate_policy_complete)

section \<open>Matches are the policies whose conditions hold\<close>

lemma collect_matches_spec:
  "collect_matches ctx ps = Inr ms \<Longrightarrow>
   ms = map make_match (filter (\<lambda>p. conditions_hold ctx (policy_conditions p) = Inr True) ps)"
  by (induction ps arbitrary: ms) (auto simp: result_simps)

lemma collect_matches_total:
  "collect_matches ctx ps = Inr ms \<Longrightarrow> p \<in> set ps \<Longrightarrow>
   \<exists>b. conditions_hold ctx (policy_conditions p) = Inr b"
  by (induction ps arbitrary: ms) (auto simp: result_simps)

lemma conditions_hold_True:
  "conditions_hold ctx cs = Inr True \<longleftrightarrow>
   (\<forall>(field, expected) \<in> set cs. matches_value (py_get ctx field) expected = Inr True)"
  by (induction ctx cs rule: conditions_hold.induct) (auto simp: result_simps)

lemma sort_matches_set [simp]: "set (sort_matches ms) = set ms"
  by (simp add: sort_matches_def)

lemma sort_matches_Nil [simp]: "sort_matches ms = [] \<longleftrightarrow> ms = []"
  by (metis sort_matches_set set_empty)

lemma sort_matches_distinct: "distinct (map f (sort_matches xs)) = distinct (map f xs)"
  by (simp add: sort_matches_def distinct_map)

lemma sort_matches_head:
  assumes "sort_matches ms = m # rest" and "m' \<in> set ms"
  shows "pm_decision m' \<le> pm_decision m"
proof -
  have "sorted (map (\<lambda>m. - int (decision_rank (pm_decision m))) (sort_matches ms))"
    by (simp add: sort_matches_def)
  moreover have "m' \<in> set (sort_matches ms)"
    using assms(2) by simp
  ultimately show ?thesis
    using assms(1) by (auto simp: less_eq_decision_def)
qed

lemma evaluate_spec:
  assumes "evaluate_policy_definitions ctx policies = Inr ms"
  shows "\<exists>ps. policies = JList ps \<and> (\<forall>p \<in> set ps. policy_wf p) \<and> distinct (map policy_id_of ps) \<and>
           ms = sort_matches (map make_match
                  (filter (\<lambda>p. conditions_hold ctx (policy_conditions p) = Inr True) ps))"
  using assms
  by (auto simp: evaluate_policy_definitions_def result_simps
           dest!: validate_policy_definitions_ok collect_matches_spec)

lemma make_match_wf:
  assumes "policy_wf p"
  shows "0 \<le> pm_risk_score (make_match p) \<and> pm_risk_score (make_match p) \<le> 100 \<and>
         decision_of (py_get (jobj p) ''decision'') = Some (pm_decision (make_match p)) \<and>
         pm_policy_id (make_match p) = policy_id_of p"
  using assms by (auto simp: policy_wf_def make_match_def Let_def policy_id_of_def)

lemma evaluate_risk_bounds:
  assumes "evaluate_policy_definitions ctx policies = Inr ms" and "m \<in> set ms"
  shows "0 \<le> pm_risk_score m \<and> pm_risk_score m \<le> 100"
  using evaluate_spec[OF assms(1)] assms(2) make_match_wf by auto

section \<open>Properties\<close>

text \<open>
  The validator accepts exactly the non-empty lists of well-formed policies with distinct ids; it
  lets no malformed policy through and rejects no well-formed one.
\<close>

theorem validation_iff:
  "validate_policy_definitions (JList ps) = Inr () \<longleftrightarrow>
     ps \<noteq> [] \<and> list_all policy_wf ps \<and> distinct (map policy_id_of ps)"
  using validate_policy_definitions_ok[of "JList ps"] validate_policies_complete[of ps "[]"]
  by (auto simp: validate_policy_definitions_def list_all_iff)

text \<open>
  The matches of an evaluation are exactly the policies whose every condition holds, each once;
  they come strictest decision first, and those of equal strictness keep the order of the bundle.
\<close>

theorem policy_matches_exact:
  assumes "evaluate_policy_definitions ctx (JList ps) = Inr ms"
  shows "mset ms = mset (map make_match (filter (\<lambda>p. conditions_hold ctx (policy_conditions p) = Inr True) ps)) \<and>
         sorted_wrt (\<lambda>a b. pm_decision b \<le> pm_decision a) ms \<and>
         distinct (map pm_policy_id ms) \<and>
         filter (\<lambda>m. pm_decision m = d) ms =
           filter (\<lambda>m. pm_decision m = d)
             (map make_match (filter (\<lambda>p. conditions_hold ctx (policy_conditions p) = Inr True) ps))"
proof -
  let ?hold = "\<lambda>p. conditions_hold ctx (policy_conditions p) = Inr True"
  let ?us = "map make_match (filter ?hold ps)"
  from evaluate_spec[OF assms] have wf: "\<forall>p \<in> set ps. policy_wf p"
    and dist: "distinct (map policy_id_of ps)" and ms: "ms = sort_matches ?us" by auto
  have "sorted (map (\<lambda>m. - int (decision_rank (pm_decision m))) ms)"
    by (simp add: ms sort_matches_def)
  then have "sorted_wrt (\<lambda>a b. pm_decision b \<le> pm_decision a) ms"
    by (simp add: sorted_map less_eq_decision_def)
  moreover have "map pm_policy_id ?us = map policy_id_of (filter ?hold ps)"
    using wf make_match_wf by simp
  then have "distinct (map pm_policy_id ?us)"
    by (simp only: dist distinct_map_filter)
  then have "distinct (map pm_policy_id ms)"
    by (simp only: ms sort_matches_distinct)
  moreover have "filter (\<lambda>m. pm_decision m = d) ms = filter (\<lambda>m. pm_decision m = d) ?us"
    using sort_key_stable[of "\<lambda>m. - int (decision_rank (pm_decision m))" "- int (decision_rank d)" ?us]
    by (simp add: ms sort_matches_def decision_rank_inject)
  ultimately show ?thesis by (simp add: ms sort_matches_def)
qed

definition two_policies :: "json list" where
  "two_policies =
     [JObj [(''id'', JStr ''review''), (''match'', JObj [(''action'', JList [JStr ''train'', JStr ''read''])]),
            (''decision'', JStr ''conditional'')],
      JObj [(''id'', JStr ''block''), (''match'', JObj []), (''decision'', JStr ''deny''), (''risk_score'', JInt 90)]]"

theorem policy_matches_exact_witness:
  "ok_with (\<lambda>ms. sorted_wrt (\<lambda>a b. pm_decision b \<le> pm_decision a) ms)
     (evaluate_policy_definitions [(''action'', JStr ''read'')] (JList two_policies))"
proof -
  have "is_ok (evaluate_policy_definitions [(''action'', JStr ''read'')] (JList two_policies))"
    by code_simp
  then obtain ms where "evaluate_policy_definitions [(''action'', JStr ''read'')] (JList two_policies) = Inr ms"
    by (auto simp: is_ok_iff)
  with policy_matches_exact[OF this, of Deny] show ?thesis by simp
qed

end
