(* ===== verification/Policy.thy ===== *)
theory Policy
  imports Caching PolicyEngine "HOL-Library.Product_Lexorder" "HOL-Library.Option_ord"
begin

text \<open>
  \<open>app/services/policy.py\<close>: the effective policy definitions of a tenant (active bundle or
  policy directory, behind the policy cache), the risk score and decision for an agent using an
  asset, and the approved exceptions that override it.
  The bind of the session is fixed, so the cache is keyed by the tenant alone. The lemmas give the
  score and the decision on every branch, the instance of the cache contract, and what an exception
  must satisfy before it can override a decision.
\<close>

type_synonym definitions = "string \<times> json"
type_synonym policy_cache = "definitions cache"

definition POLICY_VERSION :: string where "POLICY_VERSION = ''1.9.0''"

definition sensitivity_level :: "string \<Rightarrow> nat option" where
  "sensitivity_level s =
     map_of [(''Public'', 0), (''Internal'', 1), (''Confidential'', 2), (''Restricted'', 3),
             (''Unclassified'', 2)] s"

definition sensitivity_get :: "string \<Rightarrow> nat \<Rightarrow> nat" where
  "sensitivity_get s d = (case sensitivity_level s of None \<Rightarrow> d | Some n \<Rightarrow> n)"

section \<open>Effective definitions and their cache\<close>

text \<open>The active bundle: newest activation first, then the highest key; \<open>NULL\<close> sorts last.\<close>

definition active_bundle :: "db \<Rightarrow> string \<Rightarrow> policy_bundle option" where
  "active_bundle db tenant_id =
     (case rev (sort_key (\<lambda>b. (bundle_activated_at b, bundle_id b))
              (where_rows (\<lambda>b. bundle_tenant_id b = tenant_id \<and> bundle_status b = BActive)
                (db_bundles db))) of
        [] \<Rightarrow> None
      | b # _ \<Rightarrow> Some b)"

definition bundle_version_label :: "policy_bundle \<Rightarrow> string" where
  "bundle_version_label b = bundle_name b @ '':v'' @ show_int (bundle_version b)"

definition load_effective_definitions :: "env \<Rightarrow> db \<Rightarrow> string \<Rightarrow> definitions result" where
  "load_effective_definitions env db tenant_id =
     (case active_bundle db tenant_id of
        Some b \<Rightarrow> Inr (bundle_version_label b, bundle_definition_json b)
      | None \<Rightarrow> rbind (load_policies (env_policy_files env)) (\<lambda>ps. Inr (POLICY_VERSION, ps)))"

definition effective_policy_definitions ::
  "env \<Rightarrow> time \<Rightarrow> db \<Rightarrow> policy_cache \<Rightarrow> string \<Rightarrow> (definitions \<times> policy_cache) result" where
  "effective_policy_definitions env now db cache tenant_id =
     (case cache_live now cache tenant_id of
        Some d \<Rightarrow> Inr (d, cache)
      | None \<Rightarrow>
          rbind (load_effective_definitions env db tenant_id) (\<lambda>d.
          Inr (d, cache_put now (cfg_policy_cache_seconds (env_settings env)) tenant_id d cache)))"

definition invalidate_policy_cache :: "string option \<Rightarrow> policy_cache \<Rightarrow> policy_cache" where
  "invalidate_policy_cache tenant cache = cache_drop tenant cache"

interpretation policy_cache: ttl_cache
  "load_effective_definitions env" "cfg_policy_cache_seconds (env_settings env)"
  "effective_policy_definitions env" invalidate_policy_cache
  for env
  by unfold_locales
     (auto simp: effective_policy_definitions_def invalidate_policy_cache_def cache_drop_def
                 cache_live_def split: option.splits)

definition effective_policy_matches ::
  "env \<Rightarrow> db option \<Rightarrow> policy_cache \<Rightarrow> dict \<Rightarrow> string \<Rightarrow>
     ((policy_match list \<times> string) \<times> policy_cache) result" where
  "effective_policy_matches env db cache ctx tenant_id =
     (case db of
        None \<Rightarrow>
          rbind (evaluate_policies ctx (env_policy_files env)) (\<lambda>ms. Inr ((ms, POLICY_VERSION), cache))
      | Some d \<Rightarrow>
          rbind (effective_policy_definitions env (env_monotonic env) d cache tenant_id)
            (\<lambda>((version, policies), cache').
          rbind (evaluate_policy_definitions ctx policies) (\<lambda>ms. Inr ((ms, version), cache'))))"

text \<open>
  \<open>policy_definitions\<close> given: those are evaluated under the given version; otherwise the
  effective ones. Both \<open>evaluate\<close> and \<open>evaluate_policy_only\<close> start this way.
\<close>

definition select_matches ::
  "env \<Rightarrow> db option \<Rightarrow> policy_cache \<Rightarrow> dict \<Rightarrow> string \<Rightarrow> json option \<Rightarrow> string option \<Rightarrow>
     ((policy_match list \<times> string) \<times> policy_cache) result" where
  "select_matches env db cache ctx tenant_id policy_definitions version_override =
     (case policy_definitions of
        None \<Rightarrow> effective_policy_matches env db cache ctx tenant_id
      | Some ps \<Rightarrow>
          rbind (evaluate_policy_definitions ctx ps) (\<lambda>ms.
          Inr ((ms, if truthy_opt version_override then the version_override else ''candidate''), cache)))"

section \<open>Exceptions\<close>

definition scope_ok :: "'a option \<Rightarrow> 'a \<Rightarrow> bool" where
  "scope_ok scope v = (scope = None \<or> scope = Some v)"

definition exception_query ::
  "time \<Rightarrow> string \<Rightarrow> string \<Rightarrow> nat \<Rightarrow> string \<Rightarrow> string \<Rightarrow> string \<Rightarrow> string list \<Rightarrow>
     policy_exception \<Rightarrow> bool" where
  "exception_query now tenant_id akey aid destination action purpose matched e \<longleftrightarrow>
     exn_tenant_id e = tenant_id \<and> exn_active e \<and> exn_expires_at e > now \<and>
     (exn_policy_id e = None \<or> (\<exists>p \<in> set matched. exn_policy_id e = Some p)) \<and>
     scope_ok (exn_agent_key e) akey \<and>
     scope_ok (exn_asset_id e) aid \<and>
     scope_ok (exn_destination e) destination \<and>
     scope_ok (exn_action e) action \<and>
     scope_ok (exn_purpose e) purpose"

text \<open>The loop over the candidates tests every scope again; a falsy scope counts as absent.\<close>

definition scope_skips :: "string option \<Rightarrow> string \<Rightarrow> bool" where
  "scope_skips scope v = (truthy_opt scope \<and> scope \<noteq> Some v)"

definition exception_rechecked ::
  "string \<Rightarrow> nat \<Rightarrow> string \<Rightarrow> string \<Rightarrow> string \<Rightarrow> string list \<Rightarrow> policy_exception \<Rightarrow> bool" where
  "exception_rechecked akey aid destination action purpose matched e \<longleftrightarrow>
     \<not> (truthy_opt (exn_policy_id e) \<and> the (exn_policy_id e) \<notin> set matched) \<and>
     \<not> scope_skips (exn_agent_key e) akey \<and>
     \<not> (exn_asset_id e \<noteq> None \<and> exn_asset_id e \<noteq> Some 0 \<and> exn_asset_id e \<noteq> Some aid) \<and>
     \<not> scope_skips (exn_destination e) destination \<and>
     \<not> scope_skips (exn_action e) action \<and>
     \<not> scope_skips (exn_purpose e) purpose"

definition matching_exception ::
  "time \<Rightarrow> db \<Rightarrow> string \<Rightarrow> string \<Rightarrow> nat \<Rightarrow> string \<Rightarrow> string \<Rightarrow> string \<Rightarrow> string list \<Rightarrow>
     policy_exception option" where
  "matching_exception now db tenant_id akey aid destination action purpose matched =
     find (exception_rechecked akey aid destination action purpose matched)
       (where_rows (exception_query now tenant_id akey aid destination action purpose matched)
         (db_exceptions db))"

section \<open>The decision\<close>

record evaluation =
  ev_decision :: decision
  ev_risk_score :: int
  ev_reasons :: "json list"
  ev_controls :: "string list"
  ev_confidence :: rat
  ev_policy_version :: string
  ev_expires_in_seconds :: int
  ev_matched_policies :: "string list"

definition approved_destinations :: "ai_agent \<Rightarrow> string list" where
  "approved_destinations agent =
     filter (\<lambda>s. s \<noteq> []) (map py_strip (py_split CHR '','' (agent_allowed_destinations agent)))"

definition approved_domains :: "ai_agent \<Rightarrow> string list" where
  "approved_domains agent = map py_strip (py_split CHR '','' (agent_allowed_domains agent))"

definition is_external :: "ai_agent \<Rightarrow> string \<Rightarrow> bool" where
  "is_external agent destination = (destination \<notin> set (approved_destinations agent))"

definition asset_context :: "ai_agent \<Rightarrow> data_asset \<Rightarrow> string \<Rightarrow> string \<Rightarrow> string \<Rightarrow> dict" where
  "asset_context agent asset destination action purpose =
     [(''sensitivity'', JStr (asset_sensitivity asset)),
      (''destination_type'',
         JStr (if is_external agent destination then ''public_ai'' else ''approved_private_ai'')),
      (''agent_status'', JStr (py_lower (agent_approval_status agent))),
      (''action'', JStr action),
      (''purpose'', JStr purpose)]"

text \<open>
  The findings beside the matched policies, each with its reason and its weight, in the order in
  which the code appends them.
\<close>

definition over_ceiling :: "ai_agent \<Rightarrow> data_asset \<Rightarrow> bool" where
  "over_ceiling agent asset =
     (sensitivity_get (asset_sensitivity asset) 2 > sensitivity_get (agent_max_sensitivity agent) 1)"

definition outside_domain :: "ai_agent \<Rightarrow> data_asset \<Rightarrow> bool" where
  "outside_domain agent asset =
     (asset_business_domain asset \<noteq> [] \<and> agent_allowed_domains agent \<noteq> [] \<and>
      asset_business_domain asset \<notin> set (approved_domains agent))"

definition exposed_sensitive :: "data_asset \<Rightarrow> bool" where
  "exposed_sensitive asset =
     (asset_public_access asset \<and> asset_sensitivity asset \<in> {''Confidential'', ''Restricted''})"

definition is_training :: "string \<Rightarrow> bool" where
  "is_training action = (action \<in> {''train'', ''fine-tune''})"

definition asset_findings ::
  "ai_agent \<Rightarrow> data_asset \<Rightarrow> string \<Rightarrow> string \<Rightarrow> (bool \<times> string \<times> int) list" where
  "asset_findings agent asset destination action =
     [(agent_approval_status agent \<noteq> ''Approved'',
         ''AI agent is not approved for production data access'', 45),
      (over_ceiling agent asset,
         ''Asset sensitivity exceeds the agent's approved '' @ agent_max_sensitivity agent @ '' ceiling'', 40),
      (outside_domain agent asset,
         ''Business domain is outside the agent's approved purpose boundary'', 25),
      (is_external agent destination,
         ''Destination is not on the agent's approved destination list'', 25),
      (exposed_sensitive asset, ''Sensitive asset has public exposure'', 25),
      (is_training action, ''Training use requires explicit data-owner approval'', 30)]"

definition present_findings ::
  "ai_agent \<Rightarrow> data_asset \<Rightarrow> string \<Rightarrow> string \<Rightarrow> (bool \<times> string \<times> int) list" where
  "present_findings agent asset destination action = filter fst (asset_findings agent asset destination action)"

definition policy_risk :: "int \<Rightarrow> policy_match list \<Rightarrow> int" where
  "policy_risk base ms = fold (\<lambda>m r. max r (pm_risk_score m)) ms base"

definition raw_risk :: "ai_agent \<Rightarrow> data_asset \<Rightarrow> string \<Rightarrow> string \<Rightarrow> policy_match list \<Rightarrow> int" where
  "raw_risk agent asset destination action ms =
     policy_risk 20 ms + sum_list (map (snd \<circ> snd) (present_findings agent asset destination action))"

definition sensitivity_controls :: "string \<Rightarrow> string list" where
  "sensitivity_controls s =
     (if s = ''Restricted''
      then [''redact-direct-identifiers'', ''private-model-only'', ''no-training'', ''retain-decision-logs-30d'']
      else if s = ''Confidential''
      then [''redaction'', ''no-training'', ''approved-enterprise-endpoint'']
      else [''standard-retention''])"

definition base_controls :: "string list" where
  "base_controls = [''audit-log'', ''identity-context'', ''tenant-context'']"

definition first_decision :: "policy_match list \<Rightarrow> decision" where
  "first_decision ms = (case ms of [] \<Rightarrow> Allow | m # _ \<Rightarrow> pm_decision m)"

definition asset_decision :: "ai_agent \<Rightarrow> int \<Rightarrow> policy_match list \<Rightarrow> decision" where
  "asset_decision agent risk ms =
     (if agent_approval_status agent \<noteq> ''Approved'' \<or> risk \<ge> 80 \<or> first_decision ms = Deny then Deny
      else if risk \<ge> 50 \<or> first_decision ms = Conditional then Conditional
      else Allow)"

definition within_policy_reason :: json where
  "within_policy_reason =
     JStr ''Agent, purpose, data sensitivity, and destination are within policy''"

definition finish_evaluation ::
  "time \<Rightarrow> db option \<Rightarrow> string \<Rightarrow> ai_agent \<Rightarrow> data_asset \<Rightarrow> string \<Rightarrow> string \<Rightarrow> string \<Rightarrow>
     policy_match list \<Rightarrow> string \<Rightarrow> evaluation result" where
  "finish_evaluation now db tenant_id agent asset destination action purpose ms version =
     (let risk = min 100 (raw_risk agent asset destination action ms);
          reasons0 = map pm_reason ms @
            map (JStr \<circ> fst \<circ> snd) (present_findings agent asset destination action);
          reasons = (if reasons0 = [] then [within_policy_reason] else reasons0);
          controls = base_controls @ concat (map pm_controls ms) @
            sensitivity_controls (asset_sensitivity asset) @
            (if is_training action then [''data-owner-approval''] else []);
          matched = map pm_policy_id ms;
          exn = (case db of None \<Rightarrow> None
                 | Some d \<Rightarrow> matching_exception now d tenant_id (agent_key agent) (asset_id asset)
                              destination action purpose matched);
          decision = (case exn of None \<Rightarrow> asset_decision agent risk ms
                      | Some e \<Rightarrow> exn_override_decision e);
          reasons' = reasons @ (case exn of None \<Rightarrow> []
                      | Some e \<Rightarrow> [JStr (''Approved exception: '' @ exn_reason e)]);
          controls' = controls @ (case exn of None \<Rightarrow> []
                      | Some e \<Rightarrow> map jstr (jlist (exn_controls_json e)))
      in rbind (dict_fromkeys reasons') (\<lambda>rs.
         Inr \<lparr>ev_decision = decision, ev_risk_score = risk, ev_reasons = rs,
              ev_controls = sorted_set controls',
              ev_confidence = min (99/100) (max (60/100) (asset_classification_confidence asset)),
              ev_policy_version = version, ev_expires_in_seconds = 300,
              ev_matched_policies = matched\<rparr>))"

definition evaluate ::
  "env \<Rightarrow> db option \<Rightarrow> policy_cache \<Rightarrow> ai_agent \<Rightarrow> data_asset \<Rightarrow> string \<Rightarrow> string \<Rightarrow> string \<Rightarrow>
     string \<Rightarrow> json option \<Rightarrow> string option \<Rightarrow> (evaluation \<times> policy_cache) result" where
  "evaluate env db cache agent asset destination action purpose tenant_id policy_definitions
      version_override =
     rbind (select_matches env db cache (asset_context agent asset destination action purpose)
              tenant_id policy_definitions version_override) (\<lambda>((ms, version), cache').
     rbind (finish_evaluation (env_now env) db tenant_id agent asset destination action purpose ms version)
       (\<lambda>ev. Inr (ev, cache')))"

section \<open>Facts about the score\<close>

lemma policy_risk_ge: "base \<le> policy_risk base ms \<and> (\<forall>m \<in> set ms. pm_risk_score m \<le> policy_risk base ms)"
proof (induction ms arbitrary: base)
  case (Cons m ms)
  from Cons[of "max base (pm_risk_score m)"] show ?case by (auto simp: policy_risk_def)
qed (simp add: policy_risk_def)

lemma policy_risk_le: "\<forall>m \<in> set ms. pm_risk_score m \<le> u \<Longrightarrow> base \<le> u \<Longrightarrow> policy_risk base ms \<le> u"
  by (induction ms arbitrary: base) (auto simp: policy_risk_def)

lemma finding_weights: "f \<in> set (asset_findings agent asset destination action) \<Longrightarrow> 25 \<le> snd (snd f)"
  by (auto simp: asset_findings_def)

lemma present_weights:
  "f \<in> set (present_findings agent asset destination action) \<Longrightarrow>
   snd (snd f) \<le> sum_list (map (snd \<circ> snd) (present_findings agent asset destination action))"
  using finding_weights[of _ agent asset destination action]
  by (intro member_le_sum_list) (fastforce simp: present_findings_def)+

lemma raw_risk_ge:
  assumes "(True, reason, w) \<in> set (asset_findings agent asset destination action)"
  shows "20 + w \<le> raw_risk agent asset destination action ms"
proof -
  have "(True, reason, w) \<in> set (present_findings agent asset destination action)"
    using assms by (simp add: present_findings_def)
  from present_weights[OF this] policy_risk_ge[of 20 ms] show ?thesis
    by (simp add: raw_risk_def)
qed

lemma raw_risk_base: "20 \<le> raw_risk agent asset destination action ms"
proof -
  have "0 \<le> sum_list (map (snd \<circ> snd) (present_findings agent asset destination action))"
    using finding_weights[of _ agent asset destination action]
    by (intro sum_list_nonneg) (force simp: present_findings_def)
  with policy_risk_ge[of 20 ms] show ?thesis by (simp add: raw_risk_def)
qed

lemma raw_risk_match: "m \<in> set ms \<Longrightarrow> pm_risk_score m \<le> raw_risk agent asset destination action ms"
proof -
  assume "m \<in> set ms"
  moreover have "0 \<le> sum_list (map (snd \<circ> snd) (present_findings agent asset destination action))"
    using finding_weights[of _ agent asset destination action]
    by (intro sum_list_nonneg) (force simp: present_findings_def)
  ultimately show ?thesis
    using policy_risk_ge[of 20 ms] by (fastforce simp: raw_risk_def)
qed

lemma asset_decision_Allow:
  "asset_decision agent risk ms = Allow \<longleftrightarrow>
     agent_approval_status agent = ''Approved'' \<and> risk < 50 \<and> first_decision ms = Allow"
  by (cases "first_decision ms") (auto simp: asset_decision_def)

section \<open>Facts about exceptions\<close>

lemma scope_ok_not_skips: "scope_ok s v \<Longrightarrow> \<not> scope_skips s v"
  by (auto simp: scope_ok_def scope_skips_def truthy_opt_def)

lemma exception_query_rechecked:
  "exception_query now t akey aid dst act pur matched e \<Longrightarrow>
   exception_rechecked akey aid dst act pur matched e"
  unfolding exception_query_def exception_rechecked_def
  by (intro conjI) (auto simp: scope_ok_not_skips scope_ok_def truthy_opt_def)

lemma find_filter: "(\<And>x. P x \<Longrightarrow> Q x) \<Longrightarrow> find Q (filter P xs) = find P xs"
  by (induction xs) auto

text \<open>The second round of tests in the loop never drops a candidate.\<close>

lemma matching_exception_eq:
  "matching_exception now db t akey aid dst act pur matched =
   scalar (exception_query now t akey aid dst act pur matched) (db_exceptions db)"
  by (simp add: matching_exception_def where_rows_def scalar_def find_filter exception_query_rechecked)

lemma matching_exception_Some:
  assumes "matching_exception now db t akey aid dst act pur matched = Some e"
  shows "e \<in> set (db_exceptions db) \<and> exception_query now t akey aid dst act pur matched e"
  using assms by (auto simp: matching_exception_eq dest: scalar_Some)

section \<open>Facts about the decision\<close>

lemma finish_evaluation_Inr:
  assumes "finish_evaluation now (Some db) t agent asset dst act pur ms version = Inr ev"
  shows "ev_risk_score ev = min 100 (raw_risk agent asset dst act ms) \<and>
         ev_matched_policies ev = map pm_policy_id ms \<and>
         ev_decision ev =
           (case matching_exception now db t (agent_key agent) (asset_id asset) dst act pur
                   (map pm_policy_id ms) of
              None \<Rightarrow> asset_decision agent (ev_risk_score ev) ms
            | Some e \<Rightarrow> exn_override_decision e) \<and>
         set base_controls \<subseteq> set (ev_controls ev) \<and>
         (is_training act \<longrightarrow> ''data-owner-approval'' \<in> set (ev_controls ev)) \<and>
         (\<forall>m \<in> set ms. set (pm_controls m) \<subseteq> set (ev_controls ev)) \<and>
         ev_reasons ev \<noteq> []"
proof -
  from assms obtain rs reasons where rs: "dict_fromkeys reasons = Inr rs" and "reasons \<noteq> []"
    and ev: "ev_reasons ev = rs"
    by (auto simp: finish_evaluation_def Let_def rbind_Inr_iff split: if_splits)
  then have "ev_reasons ev \<noteq> []" by (auto simp: dict_fromkeys_def split: if_splits)
  moreover have "ev_risk_score ev = min 100 (raw_risk agent asset dst act ms) \<and>
       ev_matched_policies ev = map pm_policy_id ms"
    using assms by (simp add: finish_evaluation_def Let_def rbind_Inr_iff) auto
  moreover have "ev_decision ev =
           (case matching_exception now db t (agent_key agent) (asset_id asset) dst act pur
                   (map pm_policy_id ms) of
              None \<Rightarrow> asset_decision agent (ev_risk_score ev) ms
            | Some e \<Rightarrow> exn_override_decision e)"
    using assms by (simp add: finish_evaluation_def Let_def rbind_Inr_iff) (auto split: option.split)
  moreover have "\<exists>extra. ev_controls ev = sorted_set (base_controls @ concat (map pm_controls ms) @
            sensitivity_controls (asset_sensitivity asset) @
            (if is_training act then [''data-owner-approval''] else []) @ extra)"
    using assms by (simp add: finish_evaluation_def Let_def rbind_Inr_iff) auto
  ultimately show ?thesis by auto
qed

lemma evaluate_parts:
  assumes "evaluate env (Some db) cache agent asset dst act pur t defs vo = Inr (ev, cache')"
  obtains ms version where
    "select_matches env (Some db) cache (asset_context agent asset dst act pur) t defs vo =
       Inr ((ms, version), cache')"
    "finish_evaluation (env_now env) (Some db) t agent asset dst act pur ms version = Inr ev"
    "ev_policy_version ev = version"
  using assms
  by (auto simp: evaluate_def result_simps finish_evaluation_def Let_def)

text \<open>The matches of an evaluation come from validated definitions.\<close>

lemma select_matches_source:
  assumes "select_matches env (Some db) cache ctx t defs vo = Inr ((ms, version), cache')"
  shows "\<exists>policies. evaluate_policy_definitions ctx policies = Inr ms"
  using assms
  by (auto simp: select_matches_def effective_policy_matches_def result_simps split: option.splits)

lemma first_decision_max:
  assumes "evaluate_policy_definitions ctx policies = Inr ms" and "m \<in> set ms"
  shows "pm_decision m \<le> first_decision ms"
proof -
  from evaluate_spec[OF assms(1)] obtain us where us: "ms = sort_matches us" by blast
  show ?thesis
  proof (cases "sort_matches us")
    case Nil
    with us assms(2) show ?thesis by simp
  next
    case (Cons h rest)
    have "m \<in> set us" using assms(2) us by simp
    from sort_matches_head[OF Cons this] show ?thesis
      by (simp add: first_decision_def us Cons)
  qed
qed

section \<open>Shipped data\<close>

text \<open>\<open>DEMO_AGENTS\<close> of \<open>app/agents.py\<close> as the rows the seeding creates for the default tenant.\<close>

definition demo_agents :: "time \<Rightarrow> ai_agent list" where
  "demo_agents now =
     [\<lparr>agent_id = 1, agent_tenant_id = ''default'', agent_key = ''customer-support-copilot'',
       agent_name = ''Customer Support Copilot'', agent_owner = ''Customer Operations'',
       agent_business_purpose = ''Summarize support cases and draft responses'',
       agent_framework = ''MCP + custom RAG'', agent_models = ''Claude Enterprise, internal-rag'',
       agent_allowed_domains = ''Customer Support,Customer Data'', agent_max_sensitivity = ''Confidential'',
       agent_allowed_destinations = ''internal-rag,claude-enterprise,private-model'',
       agent_approval_status = ''Approved'', agent_risk_level = ''Medium'',
       agent_last_activity_at = Some (now - td_minutes 5)\<rparr>,
      \<lparr>agent_id = 2, agent_tenant_id = ''default'', agent_key = ''engineering-coding-agent'',
       agent_name = ''Engineering Coding Agent'', agent_owner = ''Platform Engineering'',
       agent_business_purpose = ''Explain code and generate tests'',
       agent_framework = ''MCP'', agent_models = ''Private Qwen, GitHub Copilot'',
       agent_allowed_domains = ''Engineering,Product'', agent_max_sensitivity = ''Confidential'',
       agent_allowed_destinations = ''private-model,github-copilot-enterprise'',
       agent_approval_status = ''Approved'', agent_risk_level = ''Medium'',
       agent_last_activity_at = Some (now - td_minutes 18)\<rparr>,
      \<lparr>agent_id = 3, agent_tenant_id = ''default'', agent_key = ''finance-forecast-agent'',
       agent_name = ''Finance Forecast Agent'', agent_owner = ''Finance'',
       agent_business_purpose = ''Analyze forecasts and prepare variance summaries'',
       agent_framework = ''LangGraph'', agent_models = ''Private Llama'',
       agent_allowed_domains = ''Finance'', agent_max_sensitivity = ''Restricted'',
       agent_allowed_destinations = ''private-model,bedrock-private'',
       agent_approval_status = ''Approved'', agent_risk_level = ''High'',
       agent_last_activity_at = Some (now - td_hours 2)\<rparr>,
      \<lparr>agent_id = 4, agent_tenant_id = ''default'', agent_key = ''unapproved-lab-agent'',
       agent_name = ''Unapproved Lab Agent'', agent_owner = ''Innovation Lab'',
       agent_business_purpose = ''Prototype general AI workflows'',
       agent_framework = ''Custom'', agent_models = ''External AI'',
       agent_allowed_domains = [], agent_max_sensitivity = ''Public'',
       agent_allowed_destinations = [],
       agent_approval_status = ''Review'', agent_risk_level = ''Critical'',
       agent_last_activity_at = Some (now - td_days 2)\<rparr>]"

text \<open>The three files of \<open>policies/\<close>, as \<open>yaml.safe_load\<close> reads them.\<close>

definition conditional_training_policy :: json where
  "conditional_training_policy = JObj
     [(''id'', JStr ''require-approval-for-training''), (''version'', JInt 1),
      (''description'', JStr ''Require explicit ownership approval for training and fine-tuning.''),
      (''match'', JObj [(''action'', JList [JStr ''train'', JStr ''fine-tune''])]),
      (''decision'', JStr ''conditional''), (''risk_score'', JInt 70),
      (''reason'', JStr ''Training use requires explicit data-owner approval and a documented retention boundary.''),
      (''controls'', JList [JStr ''data-owner-approval'', JStr ''training-data-retention-limit'', JStr ''no-secondary-use''])]"

definition deny_restricted_policy :: json where
  "deny_restricted_policy = JObj
     [(''id'', JStr ''deny-restricted-data-to-public-ai''), (''version'', JInt 1),
      (''description'', JStr ''Prevent restricted data from being sent to public AI services.''),
      (''match'', JObj [(''sensitivity'', JList [JStr ''Restricted'']), (''destination_type'', JList [JStr ''public_ai''])]),
      (''decision'', JStr ''deny''), (''risk_score'', JInt 95),
      (''reason'', JStr ''Restricted data cannot be sent to an unapproved public AI destination.''),
      (''controls'', JList [JStr ''use-approved-private-model'', JStr ''require-security-review'', JStr ''redact-direct-identifiers''])]"

definition deny_unapproved_policy :: json where
  "deny_unapproved_policy = JObj
     [(''id'', JStr ''deny-unapproved-ai-agents''), (''version'', JInt 1),
      (''description'', JStr ''Prevent unapproved agents from accessing enterprise data.''),
      (''match'', JObj [(''agent_status'', JList [JStr ''review'', JStr ''disabled''])]),
      (''decision'', JStr ''deny''), (''risk_score'', JInt 90),
      (''reason'', JStr ''The AI agent is not approved for production data access.''),
      (''controls'', JList [JStr ''complete-agent-security-review'', JStr ''assign-accountable-owner''])]"

definition shipped_policy_files :: "(string \<times> json) list" where
  "shipped_policy_files =
     [(''conditional-training.yaml'', conditional_training_policy),
      (''deny-restricted-public-ai.yaml'', deny_restricted_policy),
      (''deny-unapproved-agents.yaml'', deny_unapproved_policy)]"

definition shipped_policies :: json where
  "shipped_policies =
     JList [conditional_training_policy, deny_restricted_policy, deny_unapproved_policy]"

text \<open>A catalog row and an environment for concrete instances.\<close>

definition sample_asset :: "string \<Rightarrow> string \<Rightarrow> data_asset" where
  "sample_asset sensitivity domain =
     \<lparr>asset_id = 1, asset_tenant_id = ''default'', asset_source = ''s3'', asset_source_account = ''demo'',
      asset_external_id = ''s3://finance/payroll.csv'', asset_name = ''payroll.csv'',
      asset_path = ''finance/payroll.csv'', asset_mime_type = ''text/csv'', asset_size_bytes = 10,
      asset_owner = ''Finance'', asset_business_domain = domain, asset_sensitivity = sensitivity,
      asset_classification_labels = [], asset_classification_reason = [],
      asset_classification_confidence = 9/10, asset_created_at = None, asset_modified_at = None,
      asset_last_accessed_at = None, asset_first_seen_at = 0, asset_last_seen_at = 0,
      asset_age_days = 0, asset_stale_score = 0, asset_lifecycle_state = ''Active'',
      asset_retention_action = ''Retain'', asset_retention_reason = [], asset_public_access = False,
      asset_encryption = ''Unknown'', asset_ai_access = ''Review'', asset_ai_access_reason = [],
      asset_metadata_json = JObj []\<rparr>"

definition sample_env :: env where
  "sample_env = base_env\<lparr>env_policy_files := shipped_policy_files\<rparr>"

definition finance_agent :: ai_agent where
  "finance_agent = demo_agents 0 ! 2"

lemma shipped_policies_wf:
  "policy_wf conditional_training_policy" "policy_wf deny_restricted_policy" "policy_wf deny_unapproved_policy"
  by code_simp+

lemma shipped_validate: "validate_policy_definitions shipped_policies = Inr ()"
  by code_simp

lemma shipped_load: "load_policies shipped_policy_files = Inr shipped_policies"
  by code_simp

section \<open>Properties\<close>


lemma matches_value_total: "\<not> is_jlist v \<Longrightarrow> is_ok (matches_value v expected)"
  by (cases v) (auto simp: matches_value_def Let_def)

lemma conditions_hold_total:
  assumes "\<And>f. \<not> is_jlist (py_get ctx f)"
  shows "is_ok (conditions_hold ctx cs)"
proof (induction cs)
  case (Cons c cs)
  obtain field expected where c: "c = (field, expected)" by (cases c)
  from matches_value_total[OF assms, of field expected] Cons show ?case
    by (cases "matches_value (py_get ctx field) expected") (simp_all add: c)
qed simp

lemma collect_matches_returns:
  assumes "\<And>f. \<not> is_jlist (py_get ctx f)"
  shows "is_ok (collect_matches ctx ps)"
proof (induction ps)
  case (Cons p ps)
  with conditions_hold_total[OF assms, of "policy_conditions p"] show ?case
    by (auto simp: is_ok_iff)
qed simp

lemma asset_context_scalar: "\<not> is_jlist (py_get (asset_context agent asset dst act pur) f)"
  by (simp add: asset_context_def py_get_def)

lemma evaluate_definitions_returns:
  assumes "validate_policy_definitions policies = Inr ()" and "\<And>f. \<not> is_jlist (py_get ctx f)"
  shows "is_ok (evaluate_policy_definitions ctx policies)"
  using assms(1) collect_matches_returns[OF assms(2), of "jlist policies"]
  by (auto simp: evaluate_policy_definitions_def is_ok_iff)

text \<open>
  C1: a plain allow (no exception in force) needs an approved agent, data within its ceiling, no
  training use, at most one of the softer findings (domain, destination, public exposure), and no
  matched policy that is conditional, denies or scores 50 or more.
\<close>

theorem plain_allow_requires:
  assumes eval: "evaluate env (Some db) cache agent asset dst act pur t defs vo = Inr (ev, cache')"
    and allow: "ev_decision ev = Allow"
    and no_exception: "matching_exception (env_now env) db t (agent_key agent) (asset_id asset) dst act pur
                         (ev_matched_policies ev) = None"
  shows "agent_approval_status agent = ''Approved'' \<and> \<not> over_ceiling agent asset \<and> \<not> is_training act \<and>
         \<not> (outside_domain agent asset \<and> is_external agent dst) \<and>
         \<not> (outside_domain agent asset \<and> exposed_sensitive asset) \<and>
         \<not> (is_external agent dst \<and> exposed_sensitive asset) \<and>
         (\<exists>ms version. select_matches env (Some db) cache (asset_context agent asset dst act pur) t defs vo
                         = Inr ((ms, version), cache') \<and>
            list_all (\<lambda>m. pm_decision m = Allow \<and> pm_risk_score m < 50) ms)"
proof -
  from eval obtain ms version where sel: "select_matches env (Some db) cache
      (asset_context agent asset dst act pur) t defs vo = Inr ((ms, version), cache')"
    and fin: "finish_evaluation (env_now env) (Some db) t agent asset dst act pur ms version = Inr ev"
    by (rule evaluate_parts)
  note parts = finish_evaluation_Inr[OF fin]
  with allow no_exception have "asset_decision agent (min 100 (raw_risk agent asset dst act ms)) ms = Allow"
    by simp
  then have app: "agent_approval_status agent = ''Approved''" and risk: "raw_risk agent asset dst act ms < 50"
    and first: "first_decision ms = Allow"
    by (auto simp: asset_decision_Allow)
  have matches: "list_all (\<lambda>m. pm_decision m = Allow \<and> pm_risk_score m < 50) ms"
  proof -
    from select_matches_source[OF sel] obtain ps
      where "evaluate_policy_definitions (asset_context agent asset dst act pur) ps = Inr ms" ..
    from first_decision_max[OF this] first raw_risk_match[of _ ms agent asset dst act] risk
    show ?thesis by (fastforce simp: list_all_iff)
  qed
  have "policy_risk 20 ms + sum_list (map (snd \<circ> snd) (present_findings agent asset dst act)) < 50"
    using risk by (simp add: raw_risk_def)
  then show ?thesis
    using app sel matches policy_risk_ge[of 20 ms]
    by (auto simp: present_findings_def asset_findings_def split: if_splits)
qed

lemma no_exceptions_empty: "matching_exception now empty_db t akey aid dst act pur ps = None"
  by (simp add: matching_exception_def empty_db_def where_rows_def)

theorem plain_allow_requires_witness:
  "\<not> over_ceiling finance_agent (sample_asset ''Internal'' ''Finance'')"
proof -
  have "ok_with (\<lambda>(ev, c). ev_decision ev = Allow)
    (evaluate sample_env (Some empty_db) Map.empty finance_agent (sample_asset ''Internal'' ''Finance'')
     ''private-model'' ''read'' ''forecast'' ''default'' (Some shipped_policies) None)"
    by code_simp
  then show ?thesis
    by (auto elim!: ok_withE dest!: plain_allow_requires simp: no_exceptions_empty)
qed

text \<open>
  When the definitions given to an evaluation hold a policy that denies and whose conditions are
  met, the decision is deny unless an exception in force overrides it, whatever else matches; the
  denying policy is listed first in order of strictness among those that matched and its controls are returned.
\<close>

theorem deny_policy_overrides:
  assumes eval: "evaluate env (Some db) cache agent asset dst act pur t (Some (JList ps)) vo = Inr (ev, cache')"
    and p: "p \<in> set ps" "decision_of (py_get (jobj p) ''decision'') = Some Deny"
    and holds: "conditions_hold (asset_context agent asset dst act pur) (policy_conditions p) = Inr True"
    and no_exception: "matching_exception (env_now env) db t (agent_key agent) (asset_id asset) dst act pur
                         (ev_matched_policies ev) = None"
  shows "ev_decision ev = Deny \<and> policy_id_of p \<in> set (ev_matched_policies ev) \<and>
         set (pm_controls (make_match p)) \<subseteq> set (ev_controls ev)"
proof -
  from eval obtain ms version where sel: "select_matches env (Some db) cache
      (asset_context agent asset dst act pur) t (Some (JList ps)) vo = Inr ((ms, version), cache')"
    and fin: "finish_evaluation (env_now env) (Some db) t agent asset dst act pur ms version = Inr ev"
    by (rule evaluate_parts)
  from sel have ms: "evaluate_policy_definitions (asset_context agent asset dst act pur) (JList ps) = Inr ms"
    by (auto simp: select_matches_def result_simps)
  from evaluate_spec[OF ms] p(1) holds have mem: "make_match p \<in> set ms" and wf: "policy_wf p" by auto
  from make_match_wf[OF wf] p(2) have d: "pm_decision (make_match p) = Deny"
    and pid: "pm_policy_id (make_match p) = policy_id_of p" by auto
  from first_decision_max[OF ms mem] d have "first_decision ms = Deny" by simp
  note parts = finish_evaluation_Inr[OF fin]
  have "ev_decision ev = asset_decision agent (ev_risk_score ev) ms"
    using parts no_exception by simp
  with \<open>first_decision ms = Deny\<close> have "ev_decision ev = Deny"
    by (simp add: asset_decision_def)
  moreover have "ev_matched_policies ev = map pm_policy_id ms" using parts by simp
  then have "policy_id_of p \<in> set (ev_matched_policies ev)"
    using mem pid by (auto intro: rev_image_eqI)
  moreover have "\<forall>m \<in> set ms. set (pm_controls m) \<subseteq> set (ev_controls ev)" using parts by simp
  ultimately show ?thesis using mem by simp
qed

theorem deny_policy_overrides_witness:
  "''deny-restricted-data-to-public-ai'' \<in>
   (case evaluate sample_env (Some empty_db) Map.empty finance_agent (sample_asset ''Restricted'' ''Finance'')
     ''chat'' ''read'' ''forecast'' ''default'' (Some shipped_policies) None of
      Inl e \<Rightarrow> {} | Inr (ev, c) \<Rightarrow> set (ev_matched_policies ev))"
proof -
  have "ok_with (\<lambda>(ev, c). True)
    (evaluate sample_env (Some empty_db) Map.empty finance_agent (sample_asset ''Restricted'' ''Finance'')
     ''chat'' ''read'' ''forecast'' ''default'' (Some shipped_policies) None)"
    by code_simp
  then obtain ev c where e: "evaluate sample_env (Some empty_db) Map.empty finance_agent
     (sample_asset ''Restricted'' ''Finance'') ''chat'' ''read'' ''forecast'' ''default''
     (Some shipped_policies) None = Inr (ev, c)"
    by (auto elim!: ok_withE)
  have "conditions_hold (asset_context finance_agent (sample_asset ''Restricted'' ''Finance'') ''chat'' ''read'' ''forecast'')
          (policy_conditions deny_restricted_policy) = Inr True"
    and "decision_of (py_get (jobj deny_restricted_policy) ''decision'') = Some Deny"
    and pid: "policy_id_of deny_restricted_policy = ''deny-restricted-data-to-public-ai''"
    by code_simp+
  from deny_policy_overrides[OF e[unfolded shipped_policies_def] _ this(2,1)] e pid show ?thesis
    by (simp add: no_exceptions_empty)
qed

text \<open>
  A decision that is not the one the score and the matched policies give comes from an approved
  exception of the same tenant that is active, has not expired and whose every scope fits the
  request; its reason is recorded.
\<close>

theorem exception_override_scoped:
  assumes sel: "select_matches env (Some db) cache (asset_context agent asset dst act pur) t defs vo =
                  Inr ((ms, version), cache')"
    and eval: "evaluate env (Some db) cache agent asset dst act pur t defs vo = Inr (ev, cache')"
    and overridden: "ev_decision ev \<noteq> asset_decision agent (ev_risk_score ev) ms"
  shows "\<exists>e. e \<in> set (db_exceptions db) \<and> exn_tenant_id e = t \<and> exn_active e \<and>
             env_now env < exn_expires_at e \<and> ev_decision ev = exn_override_decision e \<and>
             scope_ok (exn_agent_key e) (agent_key agent) \<and> scope_ok (exn_asset_id e) (asset_id asset) \<and>
             scope_ok (exn_destination e) dst \<and> scope_ok (exn_action e) act \<and> scope_ok (exn_purpose e) pur \<and>
             (exn_policy_id e = None \<or> (\<exists>p. exn_policy_id e = Some p \<and> p \<in> set (ev_matched_policies ev))) \<and>
             py_in (JStr (''Approved exception: '' @ exn_reason e)) (ev_reasons ev)"
proof -
  from sel eval have fin: "finish_evaluation (env_now env) (Some db) t agent asset dst act pur ms version = Inr ev"
    by (simp add: evaluate_def rbind_Inr_iff)
  let ?x = "matching_exception (env_now env) db t (agent_key agent) (asset_id asset) dst act pur (map pm_policy_id ms)"
  have dec: "ev_decision ev = (case ?x of None \<Rightarrow> asset_decision agent (ev_risk_score ev) ms
                              | Some e \<Rightarrow> exn_override_decision e)"
    and mp: "ev_matched_policies ev = map pm_policy_id ms"
    using finish_evaluation_Inr[OF fin] by simp_all
  from dec overridden obtain e where e: "?x = Some e" by (cases ?x) auto
  have "\<exists>rs. dict_fromkeys (rs @ [JStr (''Approved exception: '' @ exn_reason e)]) = Inr (ev_reasons ev)"
    using fin e by (simp add: finish_evaluation_def Let_def rbind_Inr_iff) auto
  then have "py_in (JStr (''Approved exception: '' @ exn_reason e)) (ev_reasons ev)"
    by (rule dict_fromkeys_last)
  with matching_exception_Some[OF e] dec e mp show ?thesis
    by (auto simp: exception_query_def)
qed

definition sample_exception :: policy_exception where
  "sample_exception =
     \<lparr>exn_id = 1, exn_tenant_id = ''default'', exn_exception_id = ''e1'', exn_policy_id = None,
      exn_agent_key = Some ''finance-forecast-agent'', exn_asset_id = Some 1, exn_destination = None,
      exn_action = None, exn_purpose = None, exn_override_decision = Conditional,
      exn_reason = ''quarter close'', exn_controls_json = JList [JStr ''ticket''],
      exn_expires_at = 2000000000, exn_active = True, exn_created_by = ''root'', exn_approved_by = ''root'',
      exn_created_at = 0, exn_revoked_at = None, exn_renewal_status = None,
      exn_renewal_requested_until = None, exn_renewal_requested_by = None,
      exn_renewal_requested_at = None, exn_renewal_reason = None, exn_renewed_by = None,
      exn_renewed_at = None\<rparr>"

theorem exception_override_scoped_witness:
  "\<exists>e \<in> set (db_exceptions (empty_db\<lparr>db_exceptions := [sample_exception]\<rparr>)). exn_active e"
proof -
  let ?db = "empty_db\<lparr>db_exceptions := [sample_exception]\<rparr>"
  let ?a = "sample_asset ''Restricted'' ''Finance''"
  let ?c = "asset_context finance_agent ?a ''chat'' ''read'' ''forecast''"
  let ?s = "select_matches sample_env (Some ?db) Map.empty ?c ''default'' (Some shipped_policies) None"
  let ?e = "evaluate sample_env (Some ?db) Map.empty finance_agent ?a ''chat'' ''read'' ''forecast''
              ''default'' (Some shipped_policies) None"
  have "ok_with (\<lambda>((ms, v), c'). ok_with (\<lambda>(ev, c''). ev_decision ev \<noteq>
          asset_decision finance_agent (ev_risk_score ev) ms) ?e) ?s"
    by code_simp
  then obtain ms v c' ev c'' where s: "?s = Inr ((ms, v), c')" and e: "?e = Inr (ev, c'')"
    and d: "ev_decision ev \<noteq> asset_decision finance_agent (ev_risk_score ev) ms"
    by (auto elim!: ok_withE)
  from s e have "c'' = c'" by (auto simp: evaluate_def rbind_Inr_iff)
  with exception_override_scoped[OF s _ d] e show ?thesis by blast
qed

lemma evaluate_wf:
  assumes "evaluate env (Some db) cache agent asset dst act pur t defs vo = Inr (ev, cache')"
  shows "20 \<le> ev_risk_score ev \<and> ev_risk_score ev \<le> 100 \<and>
         60/100 \<le> ev_confidence ev \<and> ev_confidence ev \<le> 99/100 \<and>
         ev_reasons ev \<noteq> [] \<and> ev_expires_in_seconds ev = 300 \<and>
         sorted (ev_controls ev) \<and> distinct (ev_controls ev) \<and>
         set base_controls \<subseteq> set (ev_controls ev) \<and>
         (is_training act \<longrightarrow> ''data-owner-approval'' \<in> set (ev_controls ev))"
proof -
  from assms obtain ms version where
    fin: "finish_evaluation (env_now env) (Some db) t agent asset dst act pur ms version = Inr ev"
    by (rule evaluate_parts)
  have "60/100 \<le> ev_confidence ev \<and> ev_confidence ev \<le> 99/100 \<and> ev_expires_in_seconds ev = 300 \<and>
        (\<exists>cs. ev_controls ev = sorted_set cs)"
    using fin by (simp add: finish_evaluation_def Let_def rbind_Inr_iff) auto
  then show ?thesis
    using finish_evaluation_Inr[OF fin] raw_risk_base[of agent asset dst act ms] sorted_set_sorted by auto
qed

text \<open>
  Every evaluation that returns carries a risk from 20 to 100, a confidence from 0.60 to 0.99, at
  least one reason, a lifetime of 300 seconds and a duplicate-free sorted list of controls that holds
  the three base controls, and the data-owner approval when the use is training.
\<close>

theorem evaluation_bounds:
  assumes "evaluate env (Some db) cache agent asset dst act pur t defs vo = Inr (ev, cache')"
  shows "20 \<le> ev_risk_score ev \<and> ev_risk_score ev \<le> 100 \<and>
         60/100 \<le> ev_confidence ev \<and> ev_confidence ev \<le> 99/100 \<and>
         ev_reasons ev \<noteq> [] \<and> ev_expires_in_seconds ev = 300 \<and>
         sorted (ev_controls ev) \<and> distinct (ev_controls ev) \<and>
         set base_controls \<subseteq> set (ev_controls ev) \<and>
         (is_training act \<longrightarrow> ''data-owner-approval'' \<in> set (ev_controls ev))"
  using assms by (rule evaluate_wf)

theorem evaluation_bounds_witness:
  "case evaluate sample_env (Some empty_db) Map.empty finance_agent (sample_asset ''Internal'' ''Finance'')
     ''private-model'' ''train'' ''forecast'' ''default'' (Some shipped_policies) None of
     Inl e \<Rightarrow> False | Inr (ev, c) \<Rightarrow> ev_risk_score ev \<le> 100"
proof -
  have "is_ok (evaluate sample_env (Some empty_db) Map.empty finance_agent (sample_asset ''Internal'' ''Finance'')
     ''private-model'' ''train'' ''forecast'' ''default'' (Some shipped_policies) None)"
    by code_simp
  then obtain ev c where e: "evaluate sample_env (Some empty_db) Map.empty finance_agent
     (sample_asset ''Internal'' ''Finance'') ''private-model'' ''train'' ''forecast'' ''default''
     (Some shipped_policies) None = Inr (ev, c)"
    by (auto simp: is_ok_iff)
  from evaluation_bounds[OF this] e show ?thesis by simp
qed

lemma finish_evaluation_returns:
  assumes "list_all py_hashable (map pm_reason ms)"
  shows "\<exists>ev. finish_evaluation now db t agent asset dst act pur ms version = Inr ev \<and>
              ev_policy_version ev = version"
proof -
  define rs where "rs = map pm_reason ms @ map (JStr \<circ> fst \<circ> snd) (present_findings agent asset dst act)"
  have "list_all py_hashable (if rs = [] then [within_policy_reason] else rs)"
    using assms by (auto simp: rs_def within_policy_reason_def list_all_iff)
  then show ?thesis
    by (simp add: finish_evaluation_def Let_def dict_fromkeys_def flip: rs_def split: option.split)
qed

lemma shipped_evaluate_returns:
  assumes "\<And>f. \<not> is_jlist (py_get ctx f)"
  shows "\<exists>ms. evaluate_policy_definitions ctx shipped_policies = Inr ms \<and>
              (\<forall>m \<in> set ms. is_jstr (pm_reason m))"
proof -
  obtain ms where ms: "evaluate_policy_definitions ctx shipped_policies = Inr ms"
    using evaluate_definitions_returns[OF shipped_validate assms] by (auto simp: is_ok_iff)
  then have "evaluate_policy_definitions ctx shipped_policies = Inr ms" .
  moreover have "list_all (\<lambda>p. is_jstr (pm_reason (make_match p))) (jlist shipped_policies)"
    by code_simp
  ultimately show ?thesis
    using evaluate_spec[OF ms] by (auto simp: list_all_iff shipped_policies_def)
qed

text \<open>
  With the policy files the repository ships and no active bundle or exception for the tenant,
  an evaluation always returns, and it denies restricted data to any destination that is not on the
  agent's list and anything asked by an agent that is in review or disabled.
\<close>

theorem shipped_policies_deny:
  assumes files: "env_policy_files env = shipped_policy_files"
    and no_bundle: "active_bundle db t = None"
    and cold: "cache_live (env_monotonic env) cache t = None"
    and no_exception: "\<And>ps. matching_exception (env_now env) db t (agent_key agent) (asset_id asset) dst act pur ps = None"
    and risky: "asset_sensitivity asset = ''Restricted'' \<and> is_external agent dst \<or>
                py_lower (agent_approval_status agent) \<in> {''review'', ''disabled''}"
  shows "\<exists>ev cache'. evaluate env (Some db) cache agent asset dst act pur t None None = Inr (ev, cache') \<and>
                     ev_decision ev = Deny \<and> ev_policy_version ev = POLICY_VERSION"
proof -
  let ?ctx = "asset_context agent asset dst act pur"
  obtain ms where ms: "evaluate_policy_definitions ?ctx shipped_policies = Inr ms"
    and strs: "\<forall>m \<in> set ms. is_jstr (pm_reason m)"
    using shipped_evaluate_returns[OF asset_context_scalar, of agent asset dst act pur] by blast
  let ?c' = "cache_put (env_monotonic env) (cfg_policy_cache_seconds (env_settings env)) t
               (POLICY_VERSION, shipped_policies) cache"
  have sel: "select_matches env (Some db) cache ?ctx t None None = Inr ((ms, POLICY_VERSION), ?c')"
    using ms no_bundle cold
    by (simp add: select_matches_def effective_policy_matches_def effective_policy_definitions_def
          load_effective_definitions_def files shipped_load)
  obtain ev where fin: "finish_evaluation (env_now env) (Some db) t agent asset dst act pur ms POLICY_VERSION = Inr ev"
    and ver: "ev_policy_version ev = POLICY_VERSION"
    using finish_evaluation_returns[of ms "env_now env" "Some db" t agent asset dst act pur POLICY_VERSION] strs
    by (fastforce simp: list_all_iff is_jstr_iff)
  obtain p where p: "p \<in> set (jlist shipped_policies)" "conditions_hold ?ctx (policy_conditions p) = Inr True"
      "decision_of (py_get (jobj p) ''decision'') = Some Deny"
    using risky
  proof (elim disjE)
    assume *: "asset_sensitivity asset = ''Restricted'' \<and> is_external agent dst"
    show ?thesis
      by (rule that[of deny_restricted_policy])
         (use * in \<open>simp_all add: shipped_policies_def deny_restricted_policy_def policy_conditions_def
            asset_context_def py_get_def py_get_default_def matches_value_def py_in_def decision_of_def\<close>)
  next
    assume *: "py_lower (agent_approval_status agent) \<in> {''review'', ''disabled''}"
    show ?thesis
      by (rule that[of deny_unapproved_policy])
         (use * in \<open>auto simp: shipped_policies_def deny_unapproved_policy_def policy_conditions_def
            asset_context_def py_get_def py_get_default_def matches_value_def py_in_def decision_of_def\<close>)
  qed
  from evaluate_spec[OF ms] p(1,2) have mem: "make_match p \<in> set ms" and wf: "policy_wf p"
    by (auto simp: shipped_policies_def)
  from make_match_wf[OF wf] p(3) first_decision_max[OF ms mem] have "first_decision ms = Deny" by simp
  with finish_evaluation_Inr[OF fin] have "ev_decision ev = Deny"
    by (simp add: no_exception asset_decision_def)
  with sel fin ver show ?thesis by (auto simp: evaluate_def)
qed

theorem shipped_policies_deny_witness:
  "case evaluate sample_env (Some empty_db) Map.empty (demo_agents 0 ! 3) (sample_asset ''Public'' [])
      ''chat'' ''read'' ''lab'' ''default'' None None of
     Inl e \<Rightarrow> False | Inr (ev, c) \<Rightarrow> ev_decision ev = Deny"
proof -
  have "py_lower (agent_approval_status (demo_agents 0 ! 3)) \<in> {''review'', ''disabled''}"
    by code_simp
  then have "\<exists>ev cache'. evaluate sample_env (Some empty_db) Map.empty (demo_agents 0 ! 3) (sample_asset ''Public'' [])
      ''chat'' ''read'' ''lab'' ''default'' None None = Inr (ev, cache') \<and> ev_decision ev = Deny \<and>
      ev_policy_version ev = POLICY_VERSION"
    by (intro shipped_policies_deny)
       (simp_all add: sample_env_def base_env_def empty_db_def active_bundle_def where_rows_def cache_live_def matching_exception_def)
  then show ?thesis by auto
qed

end
