(* ===== verification/Integrations.thy ===== *)
theory Integrations
  imports Jobs Policy
begin

text \<open>
  \<open>app/services/integrations.py\<close> and \<open>audit\<close> of \<open>policy.py\<close>: integration endpoints,
  the deliveries queued for the events they subscribe to, the formats of a delivery, sending it, and
  replaying a failed one. What lies outside the process is the record \<open>transport\<close>: the HTTP
  post, the secret store, HMAC-SHA256, and CPython's ISO text of a time. Errors of a queueing loop
  come with the database, since every delivery and job is committed on its own.
\<close>

definition INTEGRATION_EVENT_FORMATS :: "string list" where
  "INTEGRATION_EVENT_FORMATS = [''native'', ''cloudevents'', ''cef'', ''splunk-hec'', ''kafka-rest'']"

section \<open>Endpoints\<close>

definition create_endpoint ::
  "env \<Rightarrow> string \<Rightarrow> db \<Rightarrow> string \<Rightarrow> string \<Rightarrow> string \<Rightarrow> string \<Rightarrow> string option \<Rightarrow>
     string list \<Rightarrow> bool \<Rightarrow> string \<Rightarrow> string \<Rightarrow> (db \<times> integration_endpoint) result" where
  "create_endpoint env uuid db tenant_id name mode url secret_ref events enabled created_by event_format =
     (let hosts = cfg_integration_allowed_hosts (env_settings env) in
      rbind (raise_if (hosts = []) (ValueError ''ODG_INTEGRATION_ALLOWED_HOSTS must be configured'')) (\<lambda>_.
      rbind (raise_if (event_format \<notin> set INTEGRATION_EVENT_FORMATS)
              (ValueError ''Unsupported integration event format'')) (\<lambda>_.
      rbind (validate_https_url env url (Some hosts)) (\<lambda>validated_url.
      let endpoint =
        \<lparr>endpoint_id = next_id endpoint_id (db_endpoints db), endpoint_tenant_id = tenant_id,
         endpoint_endpoint_id = uuid, endpoint_name = name, endpoint_endpoint_type = ''webhook'',
         endpoint_mode = mode, endpoint_event_format = event_format, endpoint_url = validated_url,
         endpoint_secret_ref = secret_ref, endpoint_events_json = jstrs (sorted_set events),
         endpoint_enabled = enabled, endpoint_created_by = created_by,
         endpoint_created_at = env_now env, endpoint_updated_at = env_now env\<rparr>
      in Inr (db\<lparr>db_endpoints := db_endpoints db @ [endpoint]\<rparr>, endpoint)))))"

section \<open>Queueing an event\<close>

text \<open>The documents hold no datetimes here: a payload with some is their ISO text already.\<close>

definition serialize_payload :: "env \<Rightarrow> json \<Rightarrow> json result" where
  "serialize_payload env payload =
     (if int (length (canonical_json (env_frepr env) payload)) > 256 * 1024
      then Inl (ValueError ''Integration event payload exceeds 256 KiB'')
      else Inr (sort_keys payload))"

definition subscribes :: "string list option \<Rightarrow> string \<Rightarrow> integration_endpoint \<Rightarrow> bool" where
  "subscribes endpoint_ids event_type ep =
     (case endpoint_ids of
        Some ids \<Rightarrow> endpoint_endpoint_id ep \<in> set ids
      | None \<Rightarrow> py_in (JStr ''*'') (jlist (endpoint_events_json ep)) \<or>
                py_in (JStr event_type) (jlist (endpoint_events_json ep)))"

definition keyed :: "string \<Rightarrow> string \<Rightarrow> string option \<Rightarrow> integration_delivery \<Rightarrow> bool" where
  "keyed tenant_id eid key d =
     (deliv_tenant_id d = tenant_id \<and> deliv_endpoint_id d = eid \<and> deliv_idempotency_key d = key)"

definition new_delivery ::
  "db \<Rightarrow> time \<Rightarrow> string \<Rightarrow> string \<Rightarrow> string \<Rightarrow> string option \<Rightarrow> string \<Rightarrow> json \<Rightarrow> string option \<Rightarrow>
     integration_delivery" where
  "new_delivery db now uuid tenant_id eid key event_type payload replayed_from =
     \<lparr>deliv_id = next_id deliv_id (db_deliveries db), deliv_tenant_id = tenant_id,
      deliv_delivery_id = uuid, deliv_endpoint_id = eid, deliv_idempotency_key = key,
      deliv_event_type = event_type, deliv_payload_json = payload, deliv_status = DelPending,
      deliv_attempts = 0, deliv_response_code = None, deliv_error = None,
      deliv_replayed_from = replayed_from, deliv_last_attempted_at = None,
      deliv_dead_lettered_at = None, deliv_created_at = now, deliv_delivered_at = None\<rparr>"

text \<open>The identifiers the loop draws: for the \<open>n\<close>-th endpoint a delivery id and a job id.\<close>

type_synonym uuids = "nat \<Rightarrow> string \<times> string"

definition queue_delivery ::
  "env \<Rightarrow> registration list \<Rightarrow> string \<times> string \<Rightarrow> string \<Rightarrow> string \<Rightarrow> json \<Rightarrow> string \<Rightarrow>
     string option \<Rightarrow> integration_endpoint \<Rightarrow> db \<Rightarrow> db \<times> integration_delivery result" where
  "queue_delivery env registry uuid tenant_id event_type payload created_by key ep db =
     (let eid = endpoint_endpoint_id ep;
          existing = (if truthy_opt key then scalar (keyed tenant_id eid key) (db_deliveries db) else None);
          (db1, delivery) = (case existing of
              Some d \<Rightarrow> (db, d)
            | None \<Rightarrow>
                let d = new_delivery db (env_now env) (fst uuid) tenant_id eid key event_type payload None
                in (db\<lparr>db_deliveries := db_deliveries db @ [d]\<rparr>, d))
      in if deliv_status delivery = DelDelivered then (db1, Inr delivery)
         else case enqueue_job env registry (snd uuid) db1 tenant_id ''integration.deliver''
                     [(''delivery_id'', JStr (deliv_delivery_id delivery))] created_by 5 of
                Inl e \<Rightarrow> (db1, Inl e)
              | Inr (db2, j) \<Rightarrow> (db2, Inr delivery))"

fun queue_for_endpoints ::
  "env \<Rightarrow> registration list \<Rightarrow> uuids \<Rightarrow> nat \<Rightarrow> string \<Rightarrow> string \<Rightarrow> json \<Rightarrow> string \<Rightarrow>
     string list option \<Rightarrow> string option \<Rightarrow> integration_endpoint list \<Rightarrow> db \<Rightarrow>
     db \<times> integration_delivery list result" where
  "queue_for_endpoints env registry us n tenant_id event_type payload created_by ids key [] db = (db, Inr [])"
| "queue_for_endpoints env registry us n tenant_id event_type payload created_by ids key (ep # eps) db =
     (if \<not> subscribes ids event_type ep
      then queue_for_endpoints env registry us (Suc n) tenant_id event_type payload created_by ids key eps db
      else case queue_delivery env registry (us n) tenant_id event_type payload created_by key ep db of
             (db1, Inl e) \<Rightarrow> (db1, Inl e)
           | (db1, Inr d) \<Rightarrow>
               (case queue_for_endpoints env registry us (Suc n) tenant_id event_type payload created_by
                       ids key eps db1 of
                  (db2, r) \<Rightarrow> (db2, rbind r (\<lambda>ds. Inr (d # ds)))))"

definition enabled_endpoints :: "db \<Rightarrow> string \<Rightarrow> integration_endpoint list" where
  "enabled_endpoints db tenant_id =
     where_rows (\<lambda>ep. endpoint_tenant_id ep = tenant_id \<and> endpoint_enabled ep) (db_endpoints db)"

definition queue_integration_event ::
  "env \<Rightarrow> registration list \<Rightarrow> uuids \<Rightarrow> db \<Rightarrow> string \<Rightarrow> string \<Rightarrow> json \<Rightarrow> string \<Rightarrow> string list option \<Rightarrow>
     string option \<Rightarrow> db \<times> integration_delivery list result" where
  "queue_integration_event env registry us db tenant_id event_type payload created_by ids key =
     (case serialize_payload env payload of
        Inl e \<Rightarrow> (db, Inl e)
      | Inr doc \<Rightarrow>
          queue_for_endpoints env registry us 0 tenant_id event_type doc created_by ids key
            (enabled_endpoints db tenant_id) db)"

section \<open>Recording a decision\<close>

definition audit_row ::
  "db \<Rightarrow> time \<Rightarrow> string \<Rightarrow> string \<Rightarrow> nat \<Rightarrow> string \<Rightarrow> string \<Rightarrow> string \<Rightarrow> evaluation \<Rightarrow> decision_audit" where
  "audit_row db now tenant_id akey aid action destination purpose result =
     \<lparr>audit_id = next_id audit_id (db_audits db), audit_tenant_id = tenant_id, audit_created_at = now,
      audit_agent_key = akey, audit_asset_id = aid, audit_action = action,
      audit_destination = destination, audit_purpose = purpose, audit_decision = ev_decision result,
      audit_risk_score = ev_risk_score result, audit_policy_version = ev_policy_version result,
      audit_reasons_json = JList (ev_reasons result), audit_controls_json = jstrs (ev_controls result)\<rparr>"

definition audit_payload :: "decision_audit \<Rightarrow> evaluation \<Rightarrow> json" where
  "audit_payload row result = JObj
     [(''audit_id'', JInt (int (audit_id row))),
      (''decision'', JStr (decision_str (ev_decision result))),
      (''risk_score'', JInt (ev_risk_score result)),
      (''policy_version'', JStr (ev_policy_version result)),
      (''matched_policies'', jstrs (ev_matched_policies result)),
      (''agent_key'', JStr (audit_agent_key row)),
      (''asset_id'', JInt (int (audit_asset_id row))),
      (''action'', JStr (audit_action row)),
      (''destination'', JStr (audit_destination row)),
      (''purpose'', JStr (audit_purpose row))]"

text \<open>The row is committed first; a failure to queue its event is logged and the row stays.\<close>

definition audit_decision ::
  "env \<Rightarrow> registration list \<Rightarrow> uuids \<Rightarrow> db \<Rightarrow> string \<Rightarrow> string \<Rightarrow> nat \<Rightarrow> string \<Rightarrow> string \<Rightarrow> string \<Rightarrow>
     evaluation \<Rightarrow> db \<times> decision_audit" where
  "audit_decision env registry us db tenant_id akey aid action destination purpose result =
     (let row = audit_row db (env_now env) tenant_id akey aid action destination purpose result;
          db1 = db\<lparr>db_audits := db_audits db @ [row]\<rparr>
      in (fst (queue_integration_event env registry us db1 tenant_id ''policy.decision''
                 (audit_payload row result) ''policy-engine'' None None), row))"

section \<open>Formats\<close>

record transport =
  tp_post :: "string \<Rightarrow> string \<Rightarrow> (string \<times> string) list \<Rightarrow> (py_error \<times> int option) + int"
  tp_secret :: "string \<Rightarrow> string result"
  tp_hmac_sha256 :: "string \<Rightarrow> string \<Rightarrow> string"
  tp_isoformat_utc :: "time \<Rightarrow> string"
  tp_safe_error :: "py_error \<Rightarrow> string"

definition VERSION :: string where "VERSION = ''1.9.0''"

fun cef_escape_char :: "char \<Rightarrow> string" where
  "cef_escape_char c =
     (if c = CHR 0x5C then [CHR 0x5C, CHR 0x5C]
      else if c = CHR ''|'' then [CHR 0x5C, CHR ''|'']
      else if c = CHR ''='' then [CHR 0x5C, CHR ''='']
      else [c])"

definition cef_escape :: "string \<Rightarrow> string" where
  "cef_escape s = concat (map cef_escape_char s)"

definition cloudevent :: "integration_endpoint \<Rightarrow> integration_delivery \<Rightarrow> json \<Rightarrow> string \<Rightarrow> json" where
  "cloudevent ep d payload timestamp = JObj
     [(''specversion'', JStr ''1.0''), (''id'', JStr (deliv_delivery_id d)),
      (''source'', JStr ''urn:opendatagraph:governance''),
      (''type'', JStr (''com.opendatagraph.'' @ deliv_event_type d)),
      (''subject'', JStr (deliv_tenant_id d @ ''/'' @ endpoint_endpoint_id ep)),
      (''time'', JStr timestamp), (''datacontenttype'', JStr ''application/json''), (''data'', payload)]"

definition cef_message :: "env \<Rightarrow> transport \<Rightarrow> integration_delivery \<Rightarrow> json \<Rightarrow> string" where
  "cef_message env tp d payload =
     (let timestamp = tp_isoformat_utc tp (deliv_created_at d); ty = cef_escape (deliv_event_type d) in
      ''CEF:0|OpenDataGraph|OpenDataGraph|'' @ VERSION @ ''|'' @ ty @ ''|'' @ ty @ ''|5|rt='' @
      cef_escape timestamp @ '' externalId='' @ cef_escape (deliv_delivery_id d) @
      '' cs1Label=tenantId cs1='' @ cef_escape (deliv_tenant_id d) @
      '' cs2Label=payload cs2='' @ cef_escape (canonical_json (env_frepr env) payload))"

definition format_delivery ::
  "env \<Rightarrow> transport \<Rightarrow> integration_endpoint \<Rightarrow> integration_delivery \<Rightarrow> (string \<times> string \<times> string) result" where
  "format_delivery env tp ep d =
     (let fmt = (if endpoint_event_format ep = [] then ''native'' else endpoint_event_format ep);
          payload = deliv_payload_json d;
          timestamp = tp_isoformat_utc tp (deliv_created_at d);
          canon = canonical_json (env_frepr env)
      in if fmt \<notin> set INTEGRATION_EVENT_FORMATS
         then Inl (ValueError ''Unsupported integration event format'')
         else if fmt = ''native'' then Inr (fmt, ''application/json'', canon payload)
         else if fmt = ''cloudevents''
         then Inr (fmt, ''application/cloudevents+json'', canon (cloudevent ep d payload timestamp))
         else if fmt = ''kafka-rest''
         then Inr (fmt, ''application/vnd.kafka.json.v2+json'',
                canon (JObj [(''records'', JList [JObj
                  [(''key'', JStr (deliv_tenant_id d)), (''value'', cloudevent ep d payload timestamp)]])]))
         else if fmt = ''splunk-hec''
         then Inr (fmt, ''application/json'',
                canon (JObj
                  [(''time'', JFloat (of_int (deliv_created_at d) / 1000000)),
                   (''host'', JStr ''opendatagraph''), (''source'', JStr ''opendatagraph''),
                   (''sourcetype'', JStr (''opendatagraph:'' @ deliv_event_type d)),
                   (''event'', payload),
                   (''fields'', JObj [(''tenant_id'', JStr (deliv_tenant_id d)),
                      (''delivery_id'', JStr (deliv_delivery_id d)),
                      (''endpoint_id'', JStr (endpoint_endpoint_id ep))])]))
         else Inr (fmt, ''text/plain; charset=utf-8'', cef_message env tp d payload))"

section \<open>Sending\<close>

definition update_delivery :: "nat \<Rightarrow> (integration_delivery \<Rightarrow> integration_delivery) \<Rightarrow> db \<Rightarrow> db" where
  "update_delivery i f db = db\<lparr>db_deliveries := update_rows (\<lambda>d. deliv_id d = i) f (db_deliveries db)\<rparr>"

definition find_delivery :: "db \<Rightarrow> string \<Rightarrow> string \<Rightarrow> integration_delivery option" where
  "find_delivery db tenant_id did =
     scalar (\<lambda>d. deliv_tenant_id d = tenant_id \<and> deliv_delivery_id d = did) (db_deliveries db)"

definition active_endpoint :: "db \<Rightarrow> string \<Rightarrow> string \<Rightarrow> integration_endpoint option" where
  "active_endpoint db tenant_id eid =
     scalar (\<lambda>ep. endpoint_tenant_id ep = tenant_id \<and> endpoint_endpoint_id ep = eid \<and> endpoint_enabled ep)
       (db_endpoints db)"

definition delivery_headers ::
  "transport \<Rightarrow> integration_endpoint \<Rightarrow> integration_delivery \<Rightarrow> string \<Rightarrow> string \<Rightarrow> string \<Rightarrow>
     (string \<times> string) list result" where
  "delivery_headers tp ep d fmt content_type body =
     (let base = [(''Content-Type'', content_type), (''X-OpenDataGraph-Delivery'', deliv_delivery_id d),
        (''X-OpenDataGraph-Event'', deliv_event_type d), (''X-OpenDataGraph-Mode'', endpoint_mode ep),
        (''X-OpenDataGraph-Format'', fmt)]
      in if truthy_opt (endpoint_secret_ref ep)
         then rbind (tp_secret tp (the (endpoint_secret_ref ep))) (\<lambda>secret.
              Inr (base @ (if fmt = ''splunk-hec'' then [(''Authorization'', ''Splunk '' @ secret)]
                else [(''X-OpenDataGraph-Signature'', ''sha256='' @ tp_hmac_sha256 tp secret body)])))
         else Inr base)"

definition delivery_sent_row :: "time \<Rightarrow> int \<Rightarrow> integration_delivery \<Rightarrow> integration_delivery" where
  "delivery_sent_row now code d =
     d\<lparr>deliv_status := DelDelivered, deliv_response_code := Some code, deliv_error := None,
       deliv_dead_lettered_at := None, deliv_delivered_at := Some now\<rparr>"

definition delivery_failed_row :: "string \<Rightarrow> int option \<Rightarrow> integration_delivery \<Rightarrow> integration_delivery" where
  "delivery_failed_row message code d =
     d\<lparr>deliv_status := DelFailed, deliv_response_code := code, deliv_error := Some message\<rparr>"

definition delivery_attempt_row :: "time \<Rightarrow> integration_delivery \<Rightarrow> integration_delivery" where
  "delivery_attempt_row now d =
     d\<lparr>deliv_attempts := Suc (deliv_attempts d), deliv_last_attempted_at := Some now\<rparr>"

text \<open>Besides the database and the result, the requests made.\<close>

definition deliver_integration ::
  "env \<Rightarrow> transport \<Rightarrow> db \<Rightarrow> string \<Rightarrow> string \<Rightarrow>
     db \<times> (string \<times> string \<times> (string \<times> string) list) list \<times> json result" where
  "deliver_integration env tp db tenant_id did =
     (case find_delivery db tenant_id did of
        None \<Rightarrow> (db, [], Inl (ValueError ''Integration delivery not found''))
      | Some d \<Rightarrow>
          if deliv_status d = DelDelivered
          then (db, [], Inr (JObj
                 [(''delivery_id'', JStr (deliv_delivery_id d)), (''endpoint_id'', JStr (deliv_endpoint_id d)),
                  (''status'', JStr ''delivered''), (''response_code'', jopt JInt (deliv_response_code d)),
                  (''idempotent'', JBool True)]))
          else case active_endpoint db tenant_id (deliv_endpoint_id d) of
            None \<Rightarrow> (db, [], Inl (ValueError ''Integration endpoint is missing or disabled''))
          | Some ep \<Rightarrow>
              (case rbind (validate_https_url env (endpoint_url ep)
                        (Some (cfg_integration_allowed_hosts (env_settings env)))) (\<lambda>url.
                    rbind (format_delivery env tp ep d) (\<lambda>(fmt, content_type, body).
                    rbind (delivery_headers tp ep d fmt content_type body) (\<lambda>headers.
                    Inr (url, fmt, body, headers)))) of
                 Inl e \<Rightarrow> (db, [], Inl e)
               | Inr (url, fmt, body, headers) \<Rightarrow>
                   let db1 = update_delivery (deliv_id d) (delivery_attempt_row (env_now env)) db in
                   (case tp_post tp url body headers of
                      Inl (e, code) \<Rightarrow>
                        (update_delivery (deliv_id d) (delivery_failed_row (tp_safe_error tp e) code) db1,
                         [(url, body, headers)], Inl (RuntimeError (tp_safe_error tp e)))
                    | Inr code \<Rightarrow>
                        (update_delivery (deliv_id d) (delivery_sent_row (env_now env) code) db1,
                         [(url, body, headers)],
                         Inr (JObj
                           [(''delivery_id'', JStr (deliv_delivery_id d)),
                            (''endpoint_id'', JStr (endpoint_endpoint_id ep)),
                            (''status'', JStr ''delivered''), (''response_code'', JInt code),
                            (''mode'', JStr (endpoint_mode ep)), (''event_format'', JStr fmt)])))))"

section \<open>Dead letters and replay\<close>

definition mark_delivery_dead_letter :: "env \<Rightarrow> db \<Rightarrow> string \<Rightarrow> string \<Rightarrow> string \<Rightarrow> db result" where
  "mark_delivery_dead_letter env db tenant_id did message =
     (case find_delivery db tenant_id did of
        None \<Rightarrow> Inl (ValueError ''Integration delivery not found'')
      | Some d \<Rightarrow>
          Inr (update_delivery (deliv_id d)
            (\<lambda>d. d\<lparr>deliv_status := DelDeadLetter, deliv_error := Some message,
                   deliv_dead_lettered_at := Some (env_now env)\<rparr>) db))"

text \<open>\<open>payload.setdefault("_opendatagraph", {})\<close> and its update when it is an object.\<close>

definition replay_payload :: "json \<Rightarrow> string \<Rightarrow> string \<Rightarrow> string \<Rightarrow> json" where
  "replay_payload payload did reason requested_by =
     (let p = jobj payload;
          p1 = (if map_of p ''_opendatagraph'' = None then dict_set ''_opendatagraph'' (JObj []) p else p)
      in case py_get p1 ''_opendatagraph'' of
           JObj m \<Rightarrow> JObj (dict_set ''_opendatagraph''
             (JObj (dict_set ''replayed_by'' (JStr requested_by)
                (dict_set ''replay_reason'' (JStr reason)
                  (dict_set ''replayed_from'' (JStr did) m)))) p1)
         | _ \<Rightarrow> JObj p1)"

definition replay_delivery ::
  "env \<Rightarrow> registration list \<Rightarrow> string \<times> string \<Rightarrow> db \<Rightarrow> string \<Rightarrow> string \<Rightarrow> string \<Rightarrow> string \<Rightarrow>
     db \<times> integration_delivery result" where
  "replay_delivery env registry uuid db tenant_id did requested_by reason =
     (let checked =
        (case find_delivery db tenant_id did of
           None \<Rightarrow> Inl (ValueError ''Integration delivery not found'')
         | Some original \<Rightarrow>
             rbind (raise_if (deliv_status original \<notin> {DelFailed, DelDeadLetter})
                     (ValueError ''Only failed or dead-letter deliveries can be replayed'')) (\<lambda>_.
             rbind (raise_if (scalar (\<lambda>j. job_tenant_id j = tenant_id \<and> job_job_type j = ''integration.deliver'' \<and>
                        job_status j \<in> {JobPending, JobRunning} \<and>
                        job_payload_json j = JObj [(''delivery_id'', JStr did)]) (db_jobs db) \<noteq> None)
                     (ValueError ''Integration delivery is still being attempted'')) (\<lambda>_.
             rbind (raise_if (active_endpoint db tenant_id (deliv_endpoint_id original) = None)
                     (ValueError ''Integration endpoint is missing or disabled'')) (\<lambda>_.
             rbind (serialize_payload env
                      (replay_payload (deliv_payload_json original) (deliv_delivery_id original) reason requested_by))
               (\<lambda>doc.
             Inr (new_delivery db (env_now env) (fst uuid) tenant_id (deliv_endpoint_id original) None
                    (deliv_event_type original) doc (Some (deliv_delivery_id original))))))))
      in case checked of
           Inl e \<Rightarrow> (db, Inl e)
         | Inr d \<Rightarrow>
             let db1 = db\<lparr>db_deliveries := db_deliveries db @ [d]\<rparr> in
             (case enqueue_job env registry (snd uuid) db1 tenant_id ''integration.deliver''
                     [(''delivery_id'', JStr (deliv_delivery_id d))] requested_by 5 of
                Inl e \<Rightarrow> (db1, Inl e)
              | Inr (db2, j) \<Rightarrow> (db2, Inr d)))"


section \<open>Facts about queueing\<close>

lemma json_quote_length: "length (json_quote s) \<le> 6 * length s + 2"
proof -
  have "length (json_escape_char c) \<le> 6" for c
    by (auto simp: json_escape_char_def Let_def)
  then have "length (concat (map json_escape_char s)) \<le> 6 * length s"
    by (induction s) (auto intro: add_mono[of _ 6, simplified])
  then show ?thesis by (simp add: json_quote_def)
qed

lemma enqueue_delivery_job:
  assumes "length did \<le> 36"
  shows "enqueue_job env registry uuid db t ''integration.deliver'' [(''delivery_id'', JStr did)] by m =
           (let j = new_job db (env_now env) uuid t ''integration.deliver'' [(''delivery_id'', JStr did)] by m
            in Inr (db\<lparr>db_jobs := db_jobs db @ [j]\<rparr>, j))"
proof -
  have "length (json_quote ''delivery_id'') \<le> 70" "length (json_quote did) \<le> 218"
    using json_quote_length[of "''delivery_id''"] json_quote_length[of did] assms by simp_all
  then show ?thesis
    by (simp add: enqueue_job_def SUPPORTED_JOB_TYPES_def validate_job_payload_def only_string_key_def
          py_get_def raise_if_def)
qed

lemma enqueue_job_deliveries:
  "enqueue_job env registry uuid db t ty payload by m = Inr (db', j) \<Longrightarrow>
   db_deliveries db' = db_deliveries db \<and> db_endpoints db' = db_endpoints db \<and> db_outbox db' = db_outbox db"
  by (auto dest!: enqueue_job_Inr)

lemma keyed_new_delivery:
  "keyed t eid' k (new_delivery db now u t eid k ty payload None) \<longleftrightarrow> eid' = eid"
  by (auto simp: keyed_def new_delivery_def)

text \<open>One endpoint: the delivery found, or a new one appended; queueing its job cannot fail.\<close>

lemma queue_delivery_cases:
  assumes "queue_delivery env registry uuid t ty payload by key ep db = (db', r)"
  shows "db_endpoints db' = db_endpoints db \<and> db_outbox db' = db_outbox db \<and>
         (if truthy_opt key \<and> (\<exists>d \<in> set (db_deliveries db). keyed t (endpoint_endpoint_id ep) key d)
          then db_deliveries db' = db_deliveries db
          else db_deliveries db' = db_deliveries db @
                 [new_delivery db (env_now env) (fst uuid) t (endpoint_endpoint_id ep) key ty payload None])"
proof -
  define ex where "ex = (if truthy_opt key then scalar (keyed t (endpoint_endpoint_id ep) key) (db_deliveries db) else None)"
  have none: "ex = None \<longleftrightarrow> \<not> (truthy_opt key \<and> (\<exists>d \<in> set (db_deliveries db). keyed t (endpoint_endpoint_id ep) key d))"
    by (auto simp: ex_def scalar_None)
  show ?thesis
  proof (cases ex)
    case None
    with none have c: "\<not> (truthy_opt key \<and> (\<exists>d \<in> set (db_deliveries db). keyed t (endpoint_endpoint_id ep) key d))"
      by simp
    from assms None show ?thesis
      unfolding queue_delivery_def Let_def ex_def[symmetric] if_not_P[OF c]
      by (auto dest: enqueue_job_deliveries split: if_splits sum.splits)
  next
    case (Some d)
    with none have c: "truthy_opt key \<and> (\<exists>d \<in> set (db_deliveries db). keyed t (endpoint_endpoint_id ep) key d)"
      by simp
    from assms Some show ?thesis
      unfolding queue_delivery_def Let_def ex_def[symmetric] if_P[OF c]
      by (auto dest: enqueue_job_deliveries split: if_splits sum.splits)
  qed
qed

definition short_ids :: "db \<Rightarrow> bool" where
  "short_ids db = list_all (\<lambda>d. length (deliv_delivery_id d) \<le> 36) (db_deliveries db)"

lemma queue_delivery_ok:
  assumes "short_ids db" and "length (fst uuid) \<le> 36"
    and q: "queue_delivery env registry uuid t ty payload by key ep db = (db', r)"
  shows "is_ok r \<and> short_ids db'"
proof -
  have "short_ids db'"
    using queue_delivery_cases[OF q] assms(1,2) by (auto simp: short_ids_def new_delivery_def split: if_splits)
  moreover have "length (deliv_delivery_id d) \<le> 36" if "scalar P (db_deliveries db) = Some d" for P d
    using scalar_Some[OF that] assms(1) by (auto simp: short_ids_def list_all_iff)
  then have "is_ok r"
    using q assms(2)
    by (auto simp: queue_delivery_def Let_def enqueue_delivery_job new_delivery_def split: option.splits if_splits)
  ultimately show ?thesis by simp
qed

lemma queue_ok:
  assumes "short_ids db" and "\<And>n. length (fst (us n)) \<le> 36"
    and "queue_for_endpoints env registry us n t ty payload by ids key eps db = (db', r)"
  shows "is_ok r \<and> short_ids db'"
  using assms(1,3)
proof (induction eps arbitrary: n db db' r)
  case (Cons ep eps)
  obtain db1 r1 where one: "queue_delivery env registry (us n) t ty payload by key ep db = (db1, r1)" by fastforce
  obtain db2 r2 where rest: "queue_for_endpoints env registry us (Suc n) t ty payload by ids key eps db1 = (db2, r2)"
    by fastforce
  from queue_delivery_ok[OF Cons.prems(1) assms(2) one] have "is_ok r1" "short_ids db1" by auto
  with Cons.IH[OF _ rest] Cons.IH[OF Cons.prems(1)] Cons.prems(2) one rest show ?case
    by (auto simp: is_ok_iff split: if_splits)
qed simp

text \<open>The table only grows, and a key that an endpoint already has is not used again.\<close>

lemma queue_extends:
  assumes "queue_for_endpoints env registry us n t ty payload by ids key eps db = (db', r)"
  shows "db_endpoints db' = db_endpoints db \<and> db_outbox db' = db_outbox db \<and>
         (\<exists>new. db_deliveries db' = db_deliveries db @ new \<and>
            (\<forall>d \<in> set new. deliv_tenant_id d = t \<and> deliv_idempotency_key d = key))"
  using assms
proof (induction eps arbitrary: n db db' r)
  case (Cons ep eps)
  obtain db1 r1 where one: "queue_delivery env registry (us n) t ty payload by key ep db = (db1, r1)" by fastforce
  obtain db2 r2 where rest: "queue_for_endpoints env registry us (Suc n) t ty payload by ids key eps db1 = (db2, r2)"
    by fastforce
  note q = queue_delivery_cases[OF one]
  show ?case
  proof (cases "subscribes ids ty ep")
    case True
    with Cons.prems one rest have "db' = db1 \<or> db' = db2" by (auto split: sum.splits)
    with q Cons.IH[OF rest] show ?thesis by (auto simp: new_delivery_def split: if_splits)
  qed (use Cons in simp)
qed auto

lemma queue_counts:
  assumes "queue_for_endpoints env registry us n t ty payload by ids key eps db = (db', Inr ds)"
    and "truthy_opt key" and "distinct (map endpoint_endpoint_id eps)"
  shows "row_count (keyed t eid key) (db_deliveries db') =
           (if \<exists>ep \<in> set eps. endpoint_endpoint_id ep = eid \<and> subscribes ids ty ep
            then max 1 (row_count (keyed t eid key) (db_deliveries db))
            else row_count (keyed t eid key) (db_deliveries db))"
  using assms(1,3)
proof (induction eps arbitrary: n db ds)
  case (Cons ep eps)
  show ?case
  proof (cases "subscribes ids ty ep")
    case True
    then obtain db1 d ds' where one: "queue_delivery env registry (us n) t ty payload by key ep db = (db1, Inr d)"
      and rest: "queue_for_endpoints env registry us (Suc n) t ty payload by ids key eps db1 = (db', Inr ds')"
      using Cons.prems(1) by (auto split: sum.splits prod.splits simp: result_simps)
    have "row_count (keyed t eid key) (db_deliveries db1) =
        (if endpoint_endpoint_id ep = eid then max 1 (row_count (keyed t eid key) (db_deliveries db))
         else row_count (keyed t eid key) (db_deliveries db))"
    proof (cases "\<exists>d \<in> set (db_deliveries db). keyed t (endpoint_endpoint_id ep) key d")
      case True
      then have "row_count (keyed t (endpoint_endpoint_id ep) key) (db_deliveries db) \<noteq> 0"
        by (auto simp: row_count_zero)
      with True queue_delivery_cases[OF one] assms(2) show ?thesis by (auto simp: max_def)
    next
      case False
      then have "row_count (keyed t (endpoint_endpoint_id ep) key) (db_deliveries db) = 0"
        by (auto simp: row_count_zero)
      with False queue_delivery_cases[OF one] assms(2) show ?thesis
        by (auto simp: row_count_append row_count_Cons keyed_new_delivery)
    qed
    with Cons.IH[OF rest] Cons.prems(2) True show ?thesis by (auto simp: max_def)
  next
    case False
    with Cons show ?thesis by auto
  qed
qed simp

lemma queue_again:
  assumes "queue_for_endpoints env registry us n t ty payload by ids key eps db = (db', r)" and "truthy_opt key"
    and "\<forall>ep \<in> set eps. subscribes ids ty ep \<longrightarrow>
           (\<exists>d \<in> set (db_deliveries db). keyed t (endpoint_endpoint_id ep) key d)"
  shows "db_deliveries db' = db_deliveries db"
  using assms(1,3)
proof (induction eps arbitrary: n db db' r)
  case (Cons ep eps)
  obtain db1 r1 where one: "queue_delivery env registry (us n) t ty payload by key ep db = (db1, r1)" by fastforce
  obtain db2 r2 where rest: "queue_for_endpoints env registry us (Suc n) t ty payload by ids key eps db1 = (db2, r2)"
    by fastforce
  show ?case
  proof (cases "subscribes ids ty ep")
    case True
    with Cons.prems(2) queue_delivery_cases[OF one] assms(2) have same: "db_deliveries db1 = db_deliveries db" by auto
    from True Cons.prems(1) one rest have "db' = db1 \<or> db' = db2" by (auto split: sum.splits)
    with same Cons.IH[OF rest] Cons.prems(2) show ?thesis by auto
  qed (use Cons in auto)
qed auto

section \<open>Facts about sending\<close>

lemma find_delivery_update:
  assumes "find_delivery db t did = Some d" and "deliv_tenant_id (f d) = deliv_tenant_id d"
    and "\<And>x. deliv_tenant_id (f x) = deliv_tenant_id x \<and> deliv_delivery_id (f x) = deliv_delivery_id x"
  shows "find_delivery (update_delivery (deliv_id d) f db) t did = Some (f d)"
  using assms by (simp add: find_delivery_def update_delivery_def scalar_update)

lemma delivery_rows_keep:
  "deliv_tenant_id (delivery_sent_row now c x) = deliv_tenant_id x"
  "deliv_delivery_id (delivery_sent_row now c x) = deliv_delivery_id x"
  "deliv_id (delivery_sent_row now c x) = deliv_id x"
  "deliv_tenant_id (delivery_failed_row m c' x) = deliv_tenant_id x"
  "deliv_delivery_id (delivery_failed_row m c' x) = deliv_delivery_id x"
  "deliv_tenant_id (delivery_attempt_row now x) = deliv_tenant_id x"
  "deliv_delivery_id (delivery_attempt_row now x) = deliv_delivery_id x"
  "deliv_id (delivery_attempt_row now x) = deliv_id x"
  by (simp_all add: delivery_sent_row_def delivery_failed_row_def delivery_attempt_row_def)

lemma find_after_post:
  assumes "find_delivery db t did = Some d"
  shows "find_delivery (update_delivery (deliv_id d) (delivery_sent_row now c)
           (update_delivery (deliv_id d) (delivery_attempt_row now) db)) t did =
           Some (delivery_sent_row now c (delivery_attempt_row now d))"
    and "find_delivery (update_delivery (deliv_id d) (delivery_failed_row m c')
           (update_delivery (deliv_id d) (delivery_attempt_row now) db)) t did =
           Some (delivery_failed_row m c' (delivery_attempt_row now d))"
proof -
  have 1: "find_delivery (update_delivery (deliv_id d) (delivery_attempt_row now) db) t did =
          Some (delivery_attempt_row now d)"
    by (rule find_delivery_update[OF assms]) (simp_all add: delivery_rows_keep)
  show "find_delivery (update_delivery (deliv_id d) (delivery_sent_row now c)
           (update_delivery (deliv_id d) (delivery_attempt_row now) db)) t did =
           Some (delivery_sent_row now c (delivery_attempt_row now d))"
    using find_delivery_update[OF 1, of "delivery_sent_row now c"] by (simp add: delivery_rows_keep)
  show "find_delivery (update_delivery (deliv_id d) (delivery_failed_row m c')
           (update_delivery (deliv_id d) (delivery_attempt_row now) db)) t did =
           Some (delivery_failed_row m c' (delivery_attempt_row now d))"
    using find_delivery_update[OF 1, of "delivery_failed_row m c'"] by (simp add: delivery_rows_keep)
qed

text \<open>What a request is made of.\<close>

definition request_ok ::
  "env \<Rightarrow> transport \<Rightarrow> integration_endpoint \<Rightarrow> integration_delivery \<Rightarrow> string \<times> string \<times> (string \<times> string) list \<Rightarrow> bool" where
  "request_ok env tp ep d req = (case req of (url, body, headers) \<Rightarrow>
     validate_https_url env url (Some (cfg_integration_allowed_hosts (env_settings env))) = Inr url \<and>
     (\<exists>fmt content_type. format_delivery env tp ep d = Inr (fmt, content_type, body) \<and>
        (''X-OpenDataGraph-Delivery'', deliv_delivery_id d) \<in> set headers \<and>
        (truthy_opt (endpoint_secret_ref ep) \<longrightarrow> fmt \<noteq> ''splunk-hec'' \<longrightarrow>
           (\<exists>secret. tp_secret tp (the (endpoint_secret_ref ep)) = Inr secret \<and>
              (''X-OpenDataGraph-Signature'', ''sha256='' @ tp_hmac_sha256 tp secret body) \<in> set headers))))"

lemma deliver_integration_cases:
  assumes "deliver_integration env tp db t did = (db', reqs, r)" and "find_delivery db t did = Some d"
    and "deliv_status d \<noteq> DelDelivered"
  shows "(reqs = [] \<and> db' = db \<and> \<not> is_ok r) \<or>
         (\<exists>ep req. active_endpoint db t (deliv_endpoint_id d) = Some ep \<and> reqs = [req] \<and> request_ok env tp ep d req \<and>
            (case tp_post tp (fst req) (fst (snd req)) (snd (snd req)) of
               Inr code \<Rightarrow> is_ok r \<and> find_delivery db' t did =
                 Some (delivery_sent_row (env_now env) code (delivery_attempt_row (env_now env) d))
             | Inl (e, code) \<Rightarrow> \<not> is_ok r \<and> find_delivery db' t did =
                 Some (delivery_failed_row (tp_safe_error tp e) code (delivery_attempt_row (env_now env) d))))"
proof (cases "active_endpoint db t (deliv_endpoint_id d)")
  case None
  with assms show ?thesis by (auto simp: deliver_integration_def)
next
  case (Some ep)
  define prep where "prep = rbind (validate_https_url env (endpoint_url ep)
        (Some (cfg_integration_allowed_hosts (env_settings env)))) (\<lambda>url.
      rbind (format_delivery env tp ep d) (\<lambda>(fmt, content_type, body).
      rbind (delivery_headers tp ep d fmt content_type body) (\<lambda>headers.
      Inr (url, fmt, body, headers))))"
  show ?thesis
  proof (cases prep)
    case (Inl e)
    with assms Some show ?thesis by (auto simp: deliver_integration_def simp flip: prep_def)
  next
    case (Inr x)
    obtain url fmt body headers where x: "x = (url, fmt, body, headers)" by (cases x)
    from Inr x obtain ct where v: "validate_https_url env (endpoint_url ep)
          (Some (cfg_integration_allowed_hosts (env_settings env))) = Inr url"
      and f: "format_delivery env tp ep d = Inr (fmt, ct, body)"
      and h: "delivery_headers tp ep d fmt ct body = Inr headers"
      by (auto simp: prep_def result_simps)
    from h have "(''X-OpenDataGraph-Delivery'', deliv_delivery_id d) \<in> set headers"
      and "truthy_opt (endpoint_secret_ref ep) \<Longrightarrow> fmt \<noteq> ''splunk-hec'' \<Longrightarrow>
           \<exists>secret. tp_secret tp (the (endpoint_secret_ref ep)) = Inr secret \<and>
              (''X-OpenDataGraph-Signature'', ''sha256='' @ tp_hmac_sha256 tp secret body) \<in> set headers"
      by (auto simp: delivery_headers_def Let_def result_simps split: if_splits)
    with v f validated_url[OF v] have ok: "request_ok env tp ep d (url, body, headers)"
      by (auto simp: request_ok_def)
    define db1 where "db1 = update_delivery (deliv_id d) (delivery_attempt_row (env_now env)) db"
    note after = find_after_post[OF assms(2), where now = "env_now env", folded db1_def]
    have body: "deliver_integration env tp db t did =
        (case tp_post tp url body headers of
           Inl (e, code) \<Rightarrow> (update_delivery (deliv_id d) (delivery_failed_row (tp_safe_error tp e) code) db1,
              [(url, body, headers)], Inl (RuntimeError (tp_safe_error tp e)))
         | Inr code \<Rightarrow> (update_delivery (deliv_id d) (delivery_sent_row (env_now env) code) db1, [(url, body, headers)],
              Inr (JObj
                           [(''delivery_id'', JStr (deliv_delivery_id d)),
                            (''endpoint_id'', JStr (endpoint_endpoint_id ep)),
                            (''status'', JStr ''delivered''), (''response_code'', JInt code),
                            (''mode'', JStr (endpoint_mode ep)), (''event_format'', JStr fmt)])))"
      using assms(2,3) Some Inr x
      by (simp add: deliver_integration_def Let_def prep_def[symmetric] db1_def[symmetric])
    show ?thesis
    proof (intro disjI2 exI[of _ ep] exI[of _ "(url, body, headers)"] conjI)
      show "case tp_post tp (fst (url, body, headers)) (fst (snd (url, body, headers))) (snd (snd (url, body, headers))) of
          Inl (e, code) \<Rightarrow> \<not> is_ok r \<and> find_delivery db' t did =
                 Some (delivery_failed_row (tp_safe_error tp e) code (delivery_attempt_row (env_now env) d))
        | Inr code \<Rightarrow> is_ok r \<and> find_delivery db' t did =
                 Some (delivery_sent_row (env_now env) code (delivery_attempt_row (env_now env) d))"
        using body assms(1) after by (cases "tp_post tp url body headers") auto
      show "reqs = [(url, body, headers)]"
        using body assms(1) by (cases "tp_post tp url body headers") auto
    qed (use Some ok in auto)
  qed
qed

section \<open>Properties\<close>

text \<open>
  Queueing an event under an idempotency key succeeds and leaves exactly one delivery of it for every
  enabled endpoint that subscribes to it, none for the others, changing no delivery that was there;
  queueing it again under the same key, at any time, with any payload, adds no delivery.
\<close>

theorem event_deliveries_exact:
  assumes q: "queue_integration_event env registry us db t ty payload by None (Some k) = (db', r)" and "k \<noteq> []"
    and uniq: "distinct (map endpoint_endpoint_id (enabled_endpoints db t))"
    and fresh: "\<And>eid. row_count (keyed t eid (Some k)) (db_deliveries db) = 0"
    and short: "short_ids db" "\<And>n. length (fst (us n)) \<le> 36"
    and size: "length (canonical_json (env_frepr env) payload) \<le> 262144"
  shows "is_ok r \<and>
         (\<exists>new. db_deliveries db' = db_deliveries db @ new) \<and>
         row_count (keyed t eid (Some k)) (db_deliveries db') =
           (if \<exists>ep \<in> set (enabled_endpoints db t). endpoint_endpoint_id ep = eid \<and> subscribes None ty ep
            then 1 else 0) \<and>
         (\<forall>env' us' payload' by'. db_deliveries
            (fst (queue_integration_event env' registry us' db' t ty payload' by' None (Some k))) = db_deliveries db')"
proof -
  have key: "truthy_opt (Some k)" using \<open>k \<noteq> []\<close> by (simp add: truthy_opt_def)
  from q size have run: "queue_for_endpoints env registry us 0 t ty (sort_keys payload) by None (Some k)
      (enabled_endpoints db t) db = (db', r)"
    by (simp add: queue_integration_event_def serialize_payload_def)
  from queue_ok[OF short run] obtain ds where ok: "r = Inr ds" by (auto simp: is_ok_iff)
  note ext = queue_extends[OF run]
  have count: "row_count (keyed t eid (Some k)) (db_deliveries db') =
      (if \<exists>ep \<in> set (enabled_endpoints db t). endpoint_endpoint_id ep = eid \<and> subscribes None ty ep then 1 else 0)" for eid
    using queue_counts[OF run[unfolded ok] key uniq, of eid] fresh by simp
  have "\<exists>d \<in> set (db_deliveries db'). keyed t (endpoint_endpoint_id ep) (Some k) d"
    if "ep \<in> set (enabled_endpoints db t)" "subscribes None ty ep" for ep
  proof -
    have "row_count (keyed t (endpoint_endpoint_id ep) (Some k)) (db_deliveries db') \<noteq> 0"
      using that count[of "endpoint_endpoint_id ep"] by auto
    then show ?thesis by (auto simp: row_count_zero)
  qed
  moreover have "enabled_endpoints db' t = enabled_endpoints db t"
    using ext by (simp add: enabled_endpoints_def)
  ultimately have "db_deliveries (fst (queue_integration_event env' registry us' db' t ty payload' by' None (Some k)))
       = db_deliveries db'" for env' us' payload' by'
    using queue_again[OF _ key, of env' registry us' 0 t ty _ by' None "enabled_endpoints db' t" db']
    by (auto simp: queue_integration_event_def split: sum.splits) (metis prod.collapse)
  with ok ext count show ?thesis by auto
qed

definition sample_endpoint :: integration_endpoint where
  "sample_endpoint =
     \<lparr>endpoint_id = 1, endpoint_tenant_id = ''default'', endpoint_endpoint_id = ''ep1'', endpoint_name = ''siem'',
      endpoint_endpoint_type = ''webhook'', endpoint_mode = ''observe'', endpoint_event_format = ''cef'',
      endpoint_url = ''https://siem.example/hook'', endpoint_secret_ref = Some ''env:SIEM'',
      endpoint_events_json = jstrs [''policy.decision''], endpoint_enabled = True,
      endpoint_created_by = ''root'', endpoint_created_at = 0, endpoint_updated_at = 0\<rparr>"

definition endpoint_db :: db where
  "endpoint_db = empty_db\<lparr>db_endpoints := [sample_endpoint]\<rparr>"

definition sample_payload :: json where
  "sample_payload = JObj [(''risk_score'', JInt 20), (''decision'', JStr ''allow'')]"

theorem event_deliveries_exact_witness:
  "row_count (keyed ''default'' ''ep1'' (Some ''e1''))
     (db_deliveries (fst (queue_integration_event base_env [] (\<lambda>n. (''d1'', ''j1'')) endpoint_db ''default''
        ''policy.decision'' sample_payload ''root'' None (Some ''e1'')))) = 1"
proof -
  have "length (canonical_json (env_frepr base_env) sample_payload) = 36"
    by code_simp
  moreover have "enabled_endpoints endpoint_db ''default'' = [sample_endpoint]"
    by (simp add: enabled_endpoints_def endpoint_db_def where_rows_def sample_endpoint_def)
  moreover have "subscribes None ''policy.decision'' sample_endpoint"
    by code_simp
  moreover have "db_deliveries endpoint_db = []" by (simp add: endpoint_db_def empty_db_def)
  ultimately show ?thesis
    using event_deliveries_exact[OF prod.collapse[symmetric], of "''e1''" endpoint_db "''default''" "\<lambda>n. (''d1'', ''j1'')"
        base_env sample_payload "[]" "''policy.decision''" "''root''" "''ep1''"]
    by (simp add: row_count_Cons short_ids_def) (simp add: sample_endpoint_def)
qed

text \<open>Reading a CEF header: up to the next bar that is not escaped, taking escapes away.\<close>

fun cef_read :: "string \<Rightarrow> string \<times> string" where
  "cef_read [] = ([], [])"
| "cef_read (c # cs) =
     (if c = CHR 0x5C
      then (case cs of [] \<Rightarrow> ([c], []) | d # ds \<Rightarrow> (case cef_read ds of (a, r) \<Rightarrow> (d # a, r)))
      else if c = CHR ''|'' then ([], cs)
      else (case cef_read cs of (a, r) \<Rightarrow> (c # a, r)))"

fun cef_header :: "nat \<Rightarrow> string \<Rightarrow> string list" where
  "cef_header 0 s = []"
| "cef_header (Suc n) s = (case cef_read s of (a, r) \<Rightarrow> a # cef_header n r)"

lemma cef_read_escape: "cef_read (cef_escape s @ CHR ''|'' # r) = (s, r)"
  by (induction s) (simp_all add: cef_escape_def)

text \<open>
  The seven header fields of a CEF message read back as the fixed product fields and the event type,
  whatever bars, equal signs or backslashes the event type holds: no value can forge a field.
\<close>

theorem cef_header_roundtrip:
  "cef_header 7 (cef_message env tp d payload) =
     [''CEF:0'', ''OpenDataGraph'', ''OpenDataGraph'', VERSION, deliv_event_type d, deliv_event_type d, ''5'']"
proof -
  have lit: "cef_read (''CEF:0|'' @ r) = (''CEF:0'', r)" "cef_read (''OpenDataGraph|'' @ r) = (''OpenDataGraph'', r)"
    "cef_read (VERSION @ CHR ''|'' # r) = (VERSION, r)" "cef_read (''5|'' @ r) = (''5'', r)" for r
    by (simp_all add: VERSION_def)
  let ?t = "cef_escape (deliv_event_type d)"
  have "\<exists>ext. cef_message env tp d payload = ''CEF:0|'' @ ''OpenDataGraph|'' @ ''OpenDataGraph|'' @
      VERSION @ CHR ''|'' # ?t @ CHR ''|'' # ?t @ CHR ''|'' # ''5|'' @ ext"
    by (simp add: cef_message_def Let_def)
  then show ?thesis
    by (auto simp: lit cef_read_escape eval_nat_numeral simp del: append_Cons append.simps)
qed

text \<open>
  Sending a delivery makes at most one request, and none for one that was delivered; the request goes
  to an allowed https host with the body of the endpoint's format and, where the endpoint has a secret and is
  not a Splunk one, the HMAC of exactly that body; the attempt is counted, and the delivery ends
  delivered when the receiver accepted and failed with the redacted error when it did not.
\<close>

theorem delivery_request:
  assumes run: "deliver_integration env tp db t did = (db', reqs, r)" and d: "find_delivery db t did = Some d"
  shows "(deliv_status d = DelDelivered \<longrightarrow> reqs = [] \<and> db' = db \<and> is_ok r) \<and>
         (deliv_status d \<noteq> DelDelivered \<longrightarrow> reqs = [] \<and> db' = db \<and> \<not> is_ok r \<or>
           (\<exists>ep req d'. active_endpoint db t (deliv_endpoint_id d) = Some ep \<and> reqs = [req] \<and> request_ok env tp ep d req \<and>
              find_delivery db' t did = Some d' \<and> deliv_attempts d' = Suc (deliv_attempts d) \<and>
              (case tp_post tp (fst req) (fst (snd req)) (snd (snd req)) of
                 Inr code \<Rightarrow> is_ok r \<and> deliv_status d' = DelDelivered \<and> deliv_response_code d' = Some code
               | Inl (e, code) \<Rightarrow> \<not> is_ok r \<and> deliv_status d' = DelFailed \<and> deliv_error d' = Some (tp_safe_error tp e))))"
proof (cases "deliv_status d = DelDelivered")
  case True
  with run d show ?thesis by (auto simp: deliver_integration_def)
next
  case False
  from deliver_integration_cases[OF run d False] False show ?thesis
    by (elim disjE exE conjE)
       (auto simp: delivery_sent_row_def delivery_failed_row_def delivery_attempt_row_def split: sum.splits)
qed

definition sample_transport :: transport where
  "sample_transport =
     \<lparr>tp_post = (\<lambda>u b h. Inr 202), tp_secret = (\<lambda>r. Inr ''k''), tp_hmac_sha256 = (\<lambda>k m. ''ff''),
      tp_isoformat_utc = (\<lambda>t. ''1970-01-01T00:00:00+00:00''), tp_safe_error = (\<lambda>e. ''failed'')\<rparr>"

theorem delivery_request_witness:
  "\<exists>db' reqs r. deliver_integration base_env sample_transport
       (endpoint_db\<lparr>db_deliveries := [new_delivery endpoint_db 0 ''d1'' ''default'' ''ep2'' None ''x'' JNull None]\<rparr>)
       ''default'' ''d1'' = (db', reqs, r) \<and> reqs = [] \<and> \<not> is_ok r"
proof -
  let ?d = "new_delivery endpoint_db 0 ''d1'' ''default'' ''ep2'' None ''x'' JNull None"
  let ?db = "endpoint_db\<lparr>db_deliveries := [?d]\<rparr>"
  have d: "find_delivery ?db ''default'' ''d1'' = Some ?d" "deliv_status ?d \<noteq> DelDelivered"
    "active_endpoint ?db ''default'' (deliv_endpoint_id ?d) = None"
    by (simp_all add: find_delivery_def scalar_Cons new_delivery_def active_endpoint_def endpoint_db_def sample_endpoint_def)
  obtain db' reqs r where run: "deliver_integration base_env sample_transport ?db ''default'' ''d1'' = (db', reqs, r)"
    by (metis prod_cases3)
  from delivery_request[OF run d(1)] d run show ?thesis by auto
qed

end
