(* ===== verification/Governance.thy ===== *)
theory Governance
  imports Integrations
begin

text \<open>
  \<open>app/services/governance.py\<close>: review tasks. A task is opened for a subject unless one is open
  already, is assigned, completed, and reported when it is overdue; each change queues an integration
  event, whose failure never undoes the change. The lemmas show that a subject never has two open
  tasks of one type, that completing leaves none open, and that an overdue task is reported once.
\<close>

definition task_open :: "governance_review_task \<Rightarrow> bool" where
  "task_open t = (task_status t \<in> {TaskOpen, TaskInProgress})"

definition task_subject :: "governance_review_task \<Rightarrow> string \<times> string \<times> string" where
  "task_subject t = (task_tenant_id t, task_task_type t, task_subject_id t)"

definition task_status_str :: "task_state \<Rightarrow> string" where
  "task_status_str s = (case s of TaskOpen \<Rightarrow> ''open'' | TaskInProgress \<Rightarrow> ''in-progress'' | TaskCompleted \<Rightarrow> ''completed'')"

definition jtime :: "env \<Rightarrow> time \<Rightarrow> json" where
  "jtime env t = JStr (env_isoformat env t)"

text \<open>The payloads of events are printed by \<open>_json_default\<close>, which adds the zone.\<close>

definition payload_time :: "env \<Rightarrow> time \<Rightarrow> json" where
  "payload_time env t = JStr (env_isoformat env t @ ''+00:00'')"

text \<open>\<open>jt\<close> prints a time.\<close>

definition review_task_response :: "(time \<Rightarrow> json) \<Rightarrow> env \<Rightarrow> governance_review_task \<Rightarrow> json" where
  "review_task_response jt env t = JObj
     [(''task_id'', JStr (task_task_id t)), (''task_type'', JStr (task_task_type t)),
      (''subject_id'', JStr (task_subject_id t)), (''title'', JStr (task_title t)),
      (''priority'', JStr (task_priority t)), (''status'', JStr (task_status_str (task_status t))),
      (''assigned_to'', jopt JStr (task_assigned_to t)), (''details'', task_details_json t),
      (''due_at'', jt (task_due_at t)),
      (''overdue'', JBool (task_open t \<and> task_due_at t < env_now env)),
      (''created_by'', JStr (task_created_by t)), (''created_at'', jt (task_created_at t)),
      (''completed_by'', jopt JStr (task_completed_by t)),
      (''completed_at'', jopt jt (task_completed_at t)),
      (''sla_notified_at'', jopt jt (task_sla_notified_at t))]"

text \<open>Whether some delivery was queued; an exception is logged and counts as none.\<close>

definition queue_governance_event ::
  "env \<Rightarrow> registration list \<Rightarrow> uuids \<Rightarrow> db \<Rightarrow> governance_review_task \<Rightarrow> string \<Rightarrow> db \<times> bool" where
  "queue_governance_event env registry us db t event_type =
     (case queue_integration_event env registry us db (task_tenant_id t) event_type (review_task_response (payload_time env) env t)
             (''governance:'' @ task_task_id t) None None of
        (db', Inl e) \<Rightarrow> (db', False)
      | (db', Inr ds) \<Rightarrow> (db', ds \<noteq> []))"

definition create_review_task ::
  "env \<Rightarrow> registration list \<Rightarrow> uuids \<Rightarrow> string \<Rightarrow> db \<Rightarrow> string \<Rightarrow> string \<Rightarrow> string \<Rightarrow> string \<Rightarrow> string \<Rightarrow>
     dict \<Rightarrow> string \<Rightarrow> time option \<Rightarrow> (db \<times> governance_review_task) result" where
  "create_review_task env registry us uuid db tenant_id task_type subject_id title created_by details
      priority due_at =
     (case scalar (\<lambda>t. task_subject t = (tenant_id, task_type, subject_id) \<and> task_open t) (db_tasks db) of
        Some existing \<Rightarrow> Inr (db, existing)
      | None \<Rightarrow>
          rbind (raise_if (priority \<notin> {''low'', ''normal'', ''high'', ''critical''})
                  (ValueError ''Governance task priority is invalid'')) (\<lambda>_.
          let t = \<lparr>task_id = next_id task_id (db_tasks db), task_tenant_id = tenant_id, task_task_id = uuid,
                task_task_type = task_type, task_subject_id = subject_id, task_title = title,
                task_priority = priority, task_status = TaskOpen, task_assigned_to = None,
                task_details_json = JObj details,
                task_due_at = (case due_at of Some d \<Rightarrow> d
                  | None \<Rightarrow> env_now env + td_hours (cfg_governance_default_sla_hours (env_settings env))),
                task_created_by = created_by, task_created_at = env_now env, task_completed_by = None,
                task_completed_at = None, task_sla_notified_at = None\<rparr>;
              db1 = db\<lparr>db_tasks := db_tasks db @ [t]\<rparr>
          in Inr (fst (queue_governance_event env registry us db1 t ''governance.review.created''), t)))"

definition update_task :: "nat \<Rightarrow> (governance_review_task \<Rightarrow> governance_review_task) \<Rightarrow> db \<Rightarrow> db" where
  "update_task i f db = db\<lparr>db_tasks := update_rows (\<lambda>t. task_id t = i) f (db_tasks db)\<rparr>"

definition assign_review_task :: "db \<Rightarrow> governance_review_task \<Rightarrow> string \<Rightarrow> db result" where
  "assign_review_task db t assigned_to =
     rbind (raise_if (\<not> task_open t) (ValueError ''Only open governance tasks can be assigned'')) (\<lambda>_.
     Inr (update_task (task_id t) (\<lambda>t. t\<lparr>task_assigned_to := Some assigned_to, task_status := TaskInProgress\<rparr>) db))"

definition completed_task :: "time \<Rightarrow> string \<Rightarrow> string \<Rightarrow> governance_review_task \<Rightarrow> governance_review_task" where
  "completed_task now completed_by outcome t =
     t\<lparr>task_details_json := JObj (dict_set ''outcome'' (JStr outcome) (jobj (task_details_json t))),
       task_status := TaskCompleted, task_completed_by := Some completed_by, task_completed_at := Some now\<rparr>"

text \<open>Events for a list of tasks, one after the other.\<close>

fun queue_task_events ::
  "env \<Rightarrow> registration list \<Rightarrow> (nat \<Rightarrow> uuids) \<Rightarrow> nat \<Rightarrow> string \<Rightarrow> governance_review_task list \<Rightarrow> db \<Rightarrow> db" where
  "queue_task_events env registry us n event_type [] db = db"
| "queue_task_events env registry us n event_type (t # ts) db =
     queue_task_events env registry us (Suc n) event_type ts
       (fst (queue_governance_event env registry (us n) db t event_type))"

definition complete_review_task ::
  "env \<Rightarrow> registration list \<Rightarrow> (nat \<Rightarrow> uuids) \<Rightarrow> db \<Rightarrow> string \<Rightarrow> string \<Rightarrow> string \<Rightarrow> string \<Rightarrow> string \<Rightarrow> db \<times> nat" where
  "complete_review_task env registry us db tenant_id task_type subject_id completed_by outcome =
     (let P = (\<lambda>t. task_subject t = (tenant_id, task_type, subject_id) \<and> task_open t);
          done = map (completed_task (env_now env) completed_by outcome) (where_rows P (db_tasks db));
          db1 = db\<lparr>db_tasks := update_rows P (completed_task (env_now env) completed_by outcome) (db_tasks db)\<rparr>
      in (queue_task_events env registry us 0 ''governance.review.completed'' done db1, length done))"

definition overdue :: "time \<Rightarrow> governance_review_task \<Rightarrow> bool" where
  "overdue now t = (task_open t \<and> task_due_at t < now)"

definition to_notify :: "time \<Rightarrow> string \<Rightarrow> governance_review_task \<Rightarrow> bool" where
  "to_notify now tenant_id t = (task_tenant_id t = tenant_id \<and> overdue now t \<and> task_sla_notified_at t = None)"

fun notify_loop ::
  "env \<Rightarrow> registration list \<Rightarrow> (nat \<Rightarrow> uuids) \<Rightarrow> nat \<Rightarrow> governance_review_task list \<Rightarrow> db \<Rightarrow> db \<times> nat" where
  "notify_loop env registry us n [] db = (db, 0)"
| "notify_loop env registry us n (t # ts) db =
     (case queue_governance_event env registry (us n) db t ''governance.review.overdue'' of
        (db1, sent) \<Rightarrow>
          let db2 = (if sent then update_task (task_id t) (\<lambda>t. t\<lparr>task_sla_notified_at := Some (env_now env)\<rparr>) db1 else db1)
          in case notify_loop env registry us (Suc n) ts db2 of
               (db3, k) \<Rightarrow> (db3, (if sent then Suc k else k)))"

text \<open>A limit below zero is rejected by the job that calls this; the query takes that many rows.\<close>

definition notify_overdue_reviews ::
  "env \<Rightarrow> registration list \<Rightarrow> (nat \<Rightarrow> uuids) \<Rightarrow> db \<Rightarrow> string \<Rightarrow> nat \<Rightarrow> db \<times> nat \<times> nat" where
  "notify_overdue_reviews env registry us db tenant_id requested =
     (let ts = take requested (order_by task_due_at (where_rows (to_notify (env_now env) tenant_id) (db_tasks db)))
      in case notify_loop env registry us 0 ts db of (db', n) \<Rightarrow> (db', length ts, n))"

section \<open>Metrics\<close>

record sla_metrics =
  sla_total :: nat
  sla_open :: nat
  sla_overdue :: nat
  sla_due_soon :: nat
  sla_completed :: nat
  sla_average_resolution_hours :: "rat option"
  sla_by_type :: "(string \<times> nat \<times> nat \<times> nat \<times> nat) list"

text \<open>\<open>round2\<close> is the float division and rounding of the average.\<close>

definition governance_sla_metrics :: "(rat \<Rightarrow> rat) \<Rightarrow> env \<Rightarrow> db \<Rightarrow> string \<Rightarrow> sla_metrics" where
  "governance_sla_metrics round2 env db tenant_id =
     (let now = env_now env;
          due_soon = now + td_hours (cfg_governance_due_soon_hours (env_settings env));
          ts = where_rows (\<lambda>t. task_tenant_id t = tenant_id) (db_tasks db);
          open_tasks = filter task_open ts;
          completed = filter (\<lambda>t. task_completed_at t \<noteq> None) ts;
          hours = map (\<lambda>t. of_int (the (task_completed_at t) - task_created_at t) / of_int (td_hours 1)) completed
      in \<lparr>sla_total = length ts, sla_open = length open_tasks,
          sla_overdue = length (filter (\<lambda>t. task_due_at t < now) open_tasks),
          sla_due_soon = length (filter (\<lambda>t. now \<le> task_due_at t \<and> task_due_at t \<le> due_soon) open_tasks),
          sla_completed = length completed,
          sla_average_resolution_hours =
            (if hours = [] then None else Some (round2 (sum_list hours / of_nat (length hours)))),
          sla_by_type = map (\<lambda>ty.
            let u = filter (\<lambda>t. task_task_type t = ty) ts in
            (ty, length u, length (filter task_open u), length (filter (overdue now) u),
             length (filter (\<lambda>t. task_status t = TaskCompleted) u)))
            (rev (remdups (rev (map task_task_type ts))))\<rparr>)"

section \<open>Facts about tasks\<close>

lemma queue_for_endpoints_tasks:
  "db_tasks (fst (queue_for_endpoints env registry us n t ty payload by ids key eps db)) = db_tasks db"
proof (induction eps arbitrary: n db)
  case (Cons ep eps)
  have "db_tasks (fst (queue_delivery env registry (us n) t ty payload by key ep db)) = db_tasks db"
    by (auto simp: queue_delivery_def Let_def dest!: enqueue_job_Inr split: option.split sum.split)
  with Cons show ?case by (auto split: prod.split sum.split) (metis fst_conv)+
qed simp

lemma queue_event_tasks [simp]:
  "db_tasks (fst (queue_integration_event env registry us db t ty payload by ids key)) = db_tasks db"
  by (simp add: queue_integration_event_def queue_for_endpoints_tasks split: sum.split)

lemma queue_governance_event_tasks [simp]:
  "db_tasks (fst (queue_governance_event env registry us db t ty)) = db_tasks db"
  using queue_event_tasks[of env registry us db "task_tenant_id t" ty "review_task_response (payload_time env) env t"
      "''governance:'' @ task_task_id t" None None]
  by (auto simp: queue_governance_event_def split: prod.split sum.split simp del: queue_event_tasks)

lemma queue_task_events_tasks [simp]:
  "db_tasks (queue_task_events env registry us n ty ts db) = db_tasks db"
  by (induction ts arbitrary: n db) auto


section \<open>Tasks through any sequence of operations\<close>

text \<open>One step of the component: any of its operations, with whatever arguments, at whatever time.\<close>

inductive task_step :: "db \<Rightarrow> db \<Rightarrow> bool" where
  TaskCreated: "create_review_task env registry us uuid db tenant ty subj title by details priority due = Inr (db', t)
     \<Longrightarrow> task_step db db'"
| TaskAssigned: "t \<in> set (db_tasks db) \<Longrightarrow> assign_review_task db t who = Inr db' \<Longrightarrow> task_step db db'"
| TasksCompleted: "complete_review_task env registry usn db tenant ty subj by outcome = (db', n) \<Longrightarrow> task_step db db'"
| TasksNotified: "notify_overdue_reviews env registry usn db tenant requested = (db', m, n) \<Longrightarrow> task_step db db'"

inductive_cases task_stepE: "task_step db db'"

definition open_count :: "string \<times> string \<times> string \<Rightarrow> governance_review_task list \<Rightarrow> nat" where
  "open_count k ts = row_count (\<lambda>t. task_open t \<and> task_subject t = k) ts"

definition tasks_ok :: "db \<Rightarrow> bool" where
  "tasks_ok db \<longleftrightarrow> unique_key task_id (db_tasks db) \<and> (\<forall>k. open_count k (db_tasks db) \<le> 1)"

lemma tasks_okI:
  "unique_key task_id (db_tasks db) \<Longrightarrow> (\<And>k. open_count k (db_tasks db) \<le> 1) \<Longrightarrow> tasks_ok db"
  by (simp add: tasks_ok_def)

lemma tasks_okD:
  assumes "tasks_ok db"
  shows "unique_key task_id (db_tasks db)" "open_count k (db_tasks db) \<le> 1"
  using assms unfolding tasks_ok_def by blast+

lemma open_count_update:
  assumes "\<And>t. t \<in> set ts \<Longrightarrow> P t \<Longrightarrow> (task_open (f t) \<longrightarrow> task_open t) \<and> task_subject (f t) = task_subject t"
  shows "open_count k (update_rows P f ts) \<le> open_count k ts"
  using assms by (induction ts) (auto simp: open_count_def row_count_Cons le_SucI split: if_splits)

lemma tasks_ok_update:
  assumes "tasks_ok db"
    and "\<And>t. t \<in> set (db_tasks db) \<Longrightarrow> P t \<Longrightarrow>
           (task_open (f t) \<longrightarrow> task_open t) \<and> task_subject (f t) = task_subject t"
    and "\<And>t. P t \<Longrightarrow> task_id (f t) = task_id t"
    and "db_tasks db' = update_rows P f (db_tasks db)"
  shows "tasks_ok db'"
proof (rule tasks_okI)
  show "unique_key task_id (db_tasks db')"
    using tasks_okD(1)[OF assms(1)] assms(3) by (simp add: assms(4) unique_key_update)
  show "open_count k (db_tasks db') \<le> 1" for k
    unfolding assms(4) by (rule order_trans[OF open_count_update[OF assms(2)] tasks_okD(2)[OF assms(1)]])
qed

lemma tasks_ok_same: "db_tasks db' = db_tasks db \<Longrightarrow> tasks_ok db' = tasks_ok db"
  by (simp add: tasks_ok_def)

text \<open>Creation returns the open task of the subject, or appends the only one.\<close>

lemma create_review_task_tasks:
  assumes "create_review_task env registry us uuid db tenant ty subj title by details priority due = Inr (db', t)"
  shows "t \<in> set (db_tasks db') \<and> task_open t \<and> task_subject t = (tenant, ty, subj) \<and>
         (db_tasks db' = db_tasks db \<or>
          db_tasks db' = db_tasks db @ [t] \<and> task_id t = next_id task_id (db_tasks db) \<and>
          open_count (tenant, ty, subj) (db_tasks db) = 0)"
proof (cases "scalar (\<lambda>t. task_subject t = (tenant, ty, subj) \<and> task_open t) (db_tasks db)")
  case None
  then have "open_count (tenant, ty, subj) (db_tasks db) = 0"
    by (auto simp: store open_count_def row_count_zero)
  with assms None show ?thesis
    by (auto simp: create_review_task_def result_simps Let_def task_open_def task_subject_def)
next
  case (Some existing)
  with assms scalar_Some[OF Some] show ?thesis by (auto simp: create_review_task_def)
qed

lemma create_keeps:
  assumes "tasks_ok db"
    and c: "create_review_task env registry us uuid db tenant ty subj title by details priority due = Inr (db', t)"
  shows "tasks_ok db'"
  using create_review_task_tasks[OF c]
proof (elim conjE disjE)
  assume app: "db_tasks db' = db_tasks db @ [t]" and i: "task_id t = next_id task_id (db_tasks db)"
    and z: "open_count (tenant, ty, subj) (db_tasks db) = 0" and s: "task_subject t = (tenant, ty, subj)"
  have "open_count k (db_tasks db') \<le> 1" for k
    using tasks_okD(2)[OF assms(1), of k] z s
    by (cases "k = (tenant, ty, subj)") (simp_all add: app open_count_def row_count_append row_count_Cons)
  then show ?thesis
    using tasks_okD(1)[OF assms(1)] unique_key_insert[OF _ i] by (auto intro: tasks_okI simp: app)
qed (simp add: tasks_ok_same assms(1))

lemma assign_keeps:
  assumes ok: "tasks_ok db" and t: "t \<in> set (db_tasks db)" and a: "assign_review_task db t who = Inr db'"
  shows "tasks_ok db'"
proof -
  have u: "unique_key task_id (db_tasks db)" using ok by (simp add: tasks_ok_def)
  from a have op: "task_open t"
    and db': "db' = update_task (task_id t) (\<lambda>t. t\<lparr>task_assigned_to := Some who, task_status := TaskInProgress\<rparr>) db"
    by (auto simp: assign_review_task_def result_simps)
  show ?thesis
  proof (rule tasks_ok_update[OF ok])
    show "db_tasks db' = update_rows (\<lambda>r. task_id r = task_id t)
        (\<lambda>t. t\<lparr>task_assigned_to := Some who, task_status := TaskInProgress\<rparr>) (db_tasks db)"
      by (simp add: db' update_task_def)
    fix r assume "r \<in> set (db_tasks db)" "task_id r = task_id t"
    then have "r = t" using unique_key_eq[OF u _ t] by blast
    with op show "(task_open (r\<lparr>task_assigned_to := Some who, task_status := TaskInProgress\<rparr>) \<longrightarrow> task_open r) \<and>
        task_subject (r\<lparr>task_assigned_to := Some who, task_status := TaskInProgress\<rparr>) = task_subject r"
      by (simp add: task_subject_def)
  qed simp
qed

lemma completed_task_facts [simp]:
  "\<not> task_open (completed_task now by outcome t)"
  "task_subject (completed_task now by outcome t) = task_subject t"
  "task_id (completed_task now by outcome t) = task_id t"
  by (simp_all add: completed_task_def task_open_def task_subject_def)

lemma complete_tasks:
  "complete_review_task env registry usn db tenant ty subj by outcome = (db', n) \<Longrightarrow>
   db_tasks db' = update_rows (\<lambda>t. task_subject t = (tenant, ty, subj) \<and> task_open t)
     (completed_task (env_now env) by outcome) (db_tasks db) \<and>
   n = open_count (tenant, ty, subj) (db_tasks db)"
  by (auto simp: complete_review_task_def Let_def open_count_def row_count_def where_rows_def conj_commute)

lemma complete_keeps:
  assumes "tasks_ok db" and "complete_review_task env registry usn db tenant ty subj by outcome = (db', n)"
  shows "tasks_ok db'"
  by (rule tasks_ok_update[OF assms(1)]) (use complete_tasks[OF assms(2)] in auto)

lemma complete_leaves_none:
  assumes "complete_review_task env registry usn db tenant ty subj by outcome = (db', n)"
  shows "open_count (tenant, ty, subj) (db_tasks db') = 0"
  using complete_tasks[OF assms] by (auto simp: open_count_def row_count_zero set_update_rows)

lemma notify_loop_keeps:
  "tasks_ok db \<Longrightarrow> tasks_ok (fst (notify_loop env registry usn n ts db))"
proof (induction ts arbitrary: n db)
  case (Cons t ts)
  obtain db1 sent where q: "queue_governance_event env registry (usn n) db t ''governance.review.overdue'' = (db1, sent)"
    by (cases "queue_governance_event env registry (usn n) db t ''governance.review.overdue''")
  have s: "db_tasks db1 = db_tasks db"
    using queue_governance_event_tasks[of env registry "usn n" db t "''governance.review.overdue''"] q by simp
  have k1: "tasks_ok db1" using Cons.prems tasks_ok_same[OF s] by simp
  have k2: "tasks_ok (update_task (task_id t) (\<lambda>t. t\<lparr>task_sla_notified_at := Some (env_now env)\<rparr>) db1)"
    by (rule tasks_ok_update[OF k1, where P = "\<lambda>r. task_id r = task_id t"
          and f = "\<lambda>t. t\<lparr>task_sla_notified_at := Some (env_now env)\<rparr>"])
       (simp_all add: task_open_def task_subject_def update_task_def)
  show ?case
    using Cons.IH[OF k1, of "Suc n"] Cons.IH[OF k2, of "Suc n"] by (auto simp: q Let_def split: prod.split)
qed simp

lemma notify_keeps:
  assumes "tasks_ok db" and "notify_overdue_reviews env registry usn db tenant requested = (db', m, n)"
  shows "tasks_ok db'"
  using notify_loop_keeps[OF assms(1), of env registry usn 0] assms(2)
  by (auto simp: notify_overdue_reviews_def Let_def split: prod.splits) (metis fst_conv)

lemma task_step_keeps: "task_step db db' \<Longrightarrow> tasks_ok db \<Longrightarrow> tasks_ok db'"
  by (induction rule: task_step.induct)
     (blast intro: create_keeps assign_keeps complete_keeps notify_keeps)+

lemma task_steps_keep: "task_step\<^sup>*\<^sup>* db db' \<Longrightarrow> tasks_ok db \<Longrightarrow> tasks_ok db'"
  by (induction rule: rtranclp_induct) (auto intro: task_step_keeps)

lemma two_open_same:
  assumes "\<And>k. open_count k ts \<le> 1" and "r \<in> set ts" "task_open r" and "t \<in> set ts" "task_open t"
    and "task_subject r = task_subject t"
  shows "r = t"
proof (rule ccontr)
  assume "r \<noteq> t"
  let ?f = "filter (\<lambda>x. task_open x \<and> task_subject x = task_subject t) ts"
  have "{r, t} \<subseteq> set ?f" using assms(2-6) by auto
  then have "card {r, t} \<le> length ?f"
    by (meson List.finite_set card_length card_mono order_trans)
  with \<open>r \<noteq> t\<close> assms(1)[of "task_subject t"] show False
    by (simp add: open_count_def row_count_def)
qed

text \<open>
  Starting without tasks, whatever tasks are created, assigned, completed and reported as overdue in
  whatever order, a subject has at most one open task of a type; a creation returns that task, and a
  completion closes it and reports how many it closed (one or none).
\<close>

theorem one_open_task:
  assumes "db_tasks db0 = []" and "task_step\<^sup>*\<^sup>* db0 db"
  shows "(\<forall>k. open_count k (db_tasks db) \<le> 1) \<and>
    (\<forall>env registry us uuid tenant ty subj title who details priority due db' t r.
       create_review_task env registry us uuid db tenant ty subj title who details priority due = Inr (db', t) \<longrightarrow>
       r \<in> set (db_tasks db') \<longrightarrow> task_open r \<longrightarrow> task_subject r = (tenant, ty, subj) \<longrightarrow> r = t) \<and>
    (\<forall>env registry usn tenant ty subj who outcome db' n.
       complete_review_task env registry usn db tenant ty subj who outcome = (db', n) \<longrightarrow>
       n = open_count (tenant, ty, subj) (db_tasks db) \<and> n \<le> 1 \<and> open_count (tenant, ty, subj) (db_tasks db') = 0)"
proof -
  have "tasks_ok db0"
    by (rule tasks_okI) (simp_all add: assms(1) unique_key_def open_count_def row_count_def)
  from task_steps_keep[OF assms(2) this] have ok: "tasks_ok db" .
  have one: "r = t"
    if c: "create_review_task env registry us uuid db tenant ty subj title who details priority due = Inr (db', t)"
      and r: "r \<in> set (db_tasks db')" "task_open r" "task_subject r = (tenant, ty, subj)"
    for env registry us uuid tenant ty subj title who details priority due db' t r
  proof -
    from create_review_task_tasks[OF c] have t: "t \<in> set (db_tasks db')" "task_open t" "task_subject t = (tenant, ty, subj)"
      by simp_all
    show ?thesis
      by (rule two_open_same[OF tasks_okD(2)[OF create_keeps[OF ok c]] r(1,2) t(1,2)]) (simp add: r(3) t(3))
  qed
  have "n = open_count (tenant, ty, subj) (db_tasks db) \<and> n \<le> 1 \<and> open_count (tenant, ty, subj) (db_tasks db') = 0"
    if c: "complete_review_task env registry usn db tenant ty subj who outcome = (db', n)"
    for env registry usn tenant ty subj who outcome db' n
    using complete_tasks[OF c] complete_leaves_none[OF c] tasks_okD(2)[OF ok, of "(tenant, ty, subj)"] by simp
  with one show ?thesis using tasks_okD(2)[OF ok] by blast
qed

theorem one_open_task_witness:
  "\<exists>db. task_step\<^sup>*\<^sup>* empty_db db \<and> length (db_tasks db) = 1 \<and> (\<forall>k. open_count k (db_tasks db) \<le> 1)"
proof -
  have "ok_with (\<lambda>(db, t). length (db_tasks db) = 1)
    (create_review_task base_env [] (\<lambda>n. (''d'', ''j'')) ''t1'' empty_db ''default'' ''lifecycle'' ''1'' ''Review''
       ''alice'' [] ''normal'' None)"
    by code_simp
  then obtain db t where c: "create_review_task base_env [] (\<lambda>n. (''d'', ''j'')) ''t1'' empty_db ''default''
      ''lifecycle'' ''1'' ''Review'' ''alice'' [] ''normal'' None = Inr (db, t)" and l: "length (db_tasks db) = 1"
    by (auto elim!: ok_withE)
  from c have s: "task_step\<^sup>*\<^sup>* empty_db db" by (blast intro: TaskCreated)
  with one_open_task[OF _ s] l show ?thesis by (auto simp: empty_db_def)
qed


section \<open>Queueing work leaves everything else alone\<close>

definition only_work :: "db \<Rightarrow> db \<Rightarrow> bool" where
  "only_work db db' \<longleftrightarrow> (\<exists>ts ds js. db' = db\<lparr>db_tasks := ts, db_deliveries := ds, db_jobs := js\<rparr>)"

lemma only_workI: "db' = db\<lparr>db_tasks := ts, db_deliveries := ds, db_jobs := js\<rparr> \<Longrightarrow> only_work db db'"
  unfolding only_work_def by blast

lemma only_work_refl [simp]: "only_work db db"
  by (rule only_workI[where ts = "db_tasks db" and ds = "db_deliveries db" and js = "db_jobs db"]) simp

lemma only_work_trans: "only_work a b \<Longrightarrow> only_work b c \<Longrightarrow> only_work a c"
proof -
  assume "only_work a b" "only_work b c"
  then obtain ts ds js where "c = a\<lparr>db_tasks := ts, db_deliveries := ds, db_jobs := js\<rparr>"
    by (auto simp: only_work_def)
  then show ?thesis by (rule only_workI)
qed

lemma only_work_fields:
  assumes "only_work db db'"
  shows "db_bundles db' = db_bundles db" "db_exceptions db' = db_exceptions db"
    "db_delegations db' = db_delegations db" "db_rollouts db' = db_rollouts db" "db_outbox db' = db_outbox db"
    "db_receipts db' = db_receipts db"
  using assms by (auto simp: only_work_def)

lemma only_work_parts:
  "only_work db (db\<lparr>db_tasks := ts\<rparr>)" "only_work db (db\<lparr>db_deliveries := ds\<rparr>)" "only_work db (db\<lparr>db_jobs := js\<rparr>)"
  by (rule only_workI[where ts = ts and ds = "db_deliveries db" and js = "db_jobs db"], simp)
     (rule only_workI[where ts = "db_tasks db" and ds = ds and js = "db_jobs db"], simp,
      rule only_workI[where ts = "db_tasks db" and ds = "db_deliveries db" and js = js], simp)

lemma enqueue_job_only_work: "enqueue_job env registry uuid db t ty payload by m = Inr (db', j) \<Longrightarrow> only_work db db'"
  using only_work_parts(3) by (auto dest!: enqueue_job_Inr)

lemma queue_delivery_only_work:
  "only_work db (fst (queue_delivery env registry us t ty payload by key ep db))"
  by (auto simp: queue_delivery_def Let_def only_work_parts dest!: enqueue_job_only_work
           split: option.split sum.split intro: only_work_trans[OF only_work_parts(2)])

lemma queue_for_endpoints_only_work:
  "only_work db (fst (queue_for_endpoints env registry us n t ty payload by ids key eps db))"
proof (induction eps arbitrary: n db)
  case (Cons ep eps)
  have "only_work db (fst (queue_delivery env registry (us n) t ty payload by key ep db))"
    by (rule queue_delivery_only_work)
  with Cons show ?case
    by (auto split: prod.split sum.split) (metis fst_conv only_work_trans)+
qed simp

lemma queue_governance_event_only_work: "only_work db (fst (queue_governance_event env registry us db t ty))"
  using queue_for_endpoints_only_work[of db env registry us 0]
  by (auto simp: queue_governance_event_def queue_integration_event_def split: prod.split sum.split)
     (metis fst_conv)+

lemma create_review_task_only_work:
  "create_review_task env registry us uuid db tenant ty subj title by details priority due = Inr (db', t)
   \<Longrightarrow> only_work db db'"
  by (auto simp: create_review_task_def result_simps Let_def split: option.splits
           intro: only_work_trans[OF only_work_parts(1) queue_governance_event_only_work])

lemma create_review_task_high:
  "create_review_task env registry us uuid db tenant ty subj title by details ''high'' due \<noteq> Inl e"
  by (simp add: create_review_task_def Let_def split: option.split)

lemma queue_task_events_only_work: "only_work db (queue_task_events env registry usn n ty ts db)"
  by (induction ts arbitrary: n db) (auto intro: only_work_trans[OF queue_governance_event_only_work])

lemma complete_review_task_only_work:
  "only_work db (fst (complete_review_task env registry usn db tenant ty subj by outcome))"
  by (auto simp: complete_review_task_def Let_def intro: only_work_trans[OF only_work_parts(1) queue_task_events_only_work])

end
