(* ===== verification/PolicyBundles.thy ===== *)
theory PolicyBundles
  imports Governance
begin

text \<open>
  The governed life of policy bundles, exceptions and approver delegations: the routes of
  \<open>app/v13.py\<close> (create, submit, approve, activate, roll back a bundle; create and revoke an
  exception) and of \<open>app/v14.py\<close> (diff, delegations, renewals) over
  \<open>app/services/policy_governance.py\<close>, with the role check of \<open>app/auth.py\<close> and the
  request schemas of \<open>app/schemas.py\<close>. Activation changes the policy cache. The lemmas show the
  separation of duties, that a tenant has at most one active bundle, and how the routes implement
  an abstract register of bundles.
\<close>

section \<open>Requests and roles\<close>

definition role_str :: "role \<Rightarrow> string" where
  "role_str r = (case r of ReadOnly \<Rightarrow> ''read-only'' | Auditor \<Rightarrow> ''auditor'' | Analyst \<Rightarrow> ''analyst''
     | ConnectorOperator \<Rightarrow> ''connector-operator'' | DataOwner \<Rightarrow> ''data-owner'' | Administrator \<Rightarrow> ''administrator'')"

definition require_role :: "role \<Rightarrow> principal \<Rightarrow> unit result" where
  "require_role minimum who =
     raise_if (p_role who < minimum) (HTTPException 403 (role_str minimum @ '' role required''))"

text \<open>A request body that its schema rejects is answered with 422 before the route runs.\<close>

definition check_body :: "bool \<Rightarrow> unit result" where
  "check_body valid = raise_if (\<not> valid) (HTTPException 422 ''Unprocessable Entity'')"

definition field_length :: "nat \<Rightarrow> nat \<Rightarrow> string \<Rightarrow> bool" where
  "field_length lo hi s = (lo \<le> length s \<and> length s \<le> hi)"

definition opt_field :: "nat \<Rightarrow> nat \<Rightarrow> string option \<Rightarrow> bool" where
  "opt_field lo hi s = (case s of None \<Rightarrow> True | Some v \<Rightarrow> field_length lo hi v)"

text \<open>
  A date and time as pydantic parses it: the wall-clock time and the UTC offset, if one is given.
  \<open>replace(tzinfo=None)\<close> drops the offset.
\<close>

record datetime =
  dt_wall :: time
  dt_offset :: "time option"

definition drop_tzinfo :: "datetime \<Rightarrow> time" where
  "drop_tzinfo d = dt_wall d"

definition dt_instant :: "datetime \<Rightarrow> time" where
  "dt_instant d = dt_wall d - (case dt_offset d of None \<Rightarrow> 0 | Some x \<Rightarrow> x)"

definition name_char :: "char \<Rightarrow> bool" where
  "name_char c = (let n = (of_char c :: nat) in
     48 \<le> n \<and> n \<le> 57 \<or> 65 \<le> n \<and> n \<le> 90 \<or> 97 \<le> n \<and> n \<le> 122 \<or> n = 95 \<or> n = 46 \<or> n = 45)"

record bundle_create =
  bc_name :: string
  bc_version :: int
  bc_policies :: "dict list"

definition bundle_create_ok :: "bundle_create \<Rightarrow> bool" where
  "bundle_create_ok r = (field_length 1 160 (bc_name r) \<and> list_all name_char (bc_name r) \<and> 1 \<le> bc_version r \<and>
     bc_policies r \<noteq> [] \<and> length (bc_policies r) \<le> 200)"

record exception_create =
  ec_policy_id :: "string option"
  ec_agent_key :: "string option"
  ec_asset_id :: "nat option"
  ec_destination :: "string option"
  ec_action :: "string option"
  ec_purpose :: "string option"
  ec_override_decision :: decision
  ec_reason :: string
  ec_controls :: "string list"
  ec_expires_at :: datetime

definition exception_create_ok :: "exception_create \<Rightarrow> bool" where
  "exception_create_ok r = (opt_field 0 160 (ec_policy_id r) \<and> opt_field 0 120 (ec_agent_key r) \<and>
     ec_asset_id r \<noteq> Some 0 \<and> opt_field 0 240 (ec_destination r) \<and> opt_field 0 80 (ec_action r) \<and>
     opt_field 0 240 (ec_purpose r) \<and> ec_override_decision r \<in> {Allow, Conditional} \<and>
     field_length 3 2000 (ec_reason r) \<and> length (ec_controls r) \<le> 50)"

record delegation_create =
  dc_subject :: string
  dc_bundle_name :: "string option"
  dc_can_approve_bundles :: bool
  dc_can_approve_exceptions :: bool
  dc_expires_at :: datetime

definition delegation_create_ok :: "delegation_create \<Rightarrow> bool" where
  "delegation_create_ok r = (field_length 1 320 (dc_subject r) \<and> opt_field 1 160 (dc_bundle_name r))"

section \<open>Bundles\<close>

definition bundle_status_str :: "bundle_state \<Rightarrow> string" where
  "bundle_status_str s = (case s of BDraft \<Rightarrow> ''draft'' | BPending \<Rightarrow> ''pending'' | BApproved \<Rightarrow> ''approved''
     | BActive \<Rightarrow> ''active'' | BRetired \<Rightarrow> ''retired'')"

definition policy_bundle_response :: "env \<Rightarrow> policy_bundle \<Rightarrow> json" where
  "policy_bundle_response env b = JObj
     [(''bundle_id'', JStr (bundle_bundle_id b)), (''tenant_id'', JStr (bundle_tenant_id b)),
      (''name'', JStr (bundle_name b)), (''version'', JInt (bundle_version b)),
      (''status'', JStr (bundle_status_str (bundle_status b))), (''policies'', bundle_definition_json b),
      (''created_by'', JStr (bundle_created_by b)), (''approved_by'', jopt JStr (bundle_approved_by b)),
      (''created_at'', jtime env (bundle_created_at b)), (''submitted_at'', jopt (jtime env) (bundle_submitted_at b)),
      (''approved_at'', jopt (jtime env) (bundle_approved_at b)),
      (''activated_at'', jopt (jtime env) (bundle_activated_at b)),
      (''retired_at'', jopt (jtime env) (bundle_retired_at b))]"

definition bundle_key :: "policy_bundle \<Rightarrow> string \<times> string" where
  "bundle_key b = (bundle_tenant_id b, bundle_bundle_id b)"

definition find_bundle :: "db \<Rightarrow> string \<Rightarrow> string \<Rightarrow> policy_bundle option" where
  "find_bundle db tenant_id bid = scalar (\<lambda>b. bundle_key b = (tenant_id, bid)) (db_bundles db)"

definition bundle_or_404 :: "db \<Rightarrow> string \<Rightarrow> string \<Rightarrow> policy_bundle result" where
  "bundle_or_404 db tenant_id bid =
     (case find_bundle db tenant_id bid of None \<Rightarrow> Inl (HTTPException 404 ''Policy bundle not found'')
      | Some b \<Rightarrow> Inr b)"

definition update_bundle :: "nat \<Rightarrow> (policy_bundle \<Rightarrow> policy_bundle) \<Rightarrow> db \<Rightarrow> db" where
  "update_bundle i f db = db\<lparr>db_bundles := update_rows (\<lambda>b. bundle_id b = i) f (db_bundles db)\<rparr>"

text \<open>The unique constraints of the table: the bundle id, and the name with the version, per tenant.\<close>

definition bundle_conflict :: "policy_bundle \<Rightarrow> policy_bundle \<Rightarrow> bool" where
  "bundle_conflict b b' = (bundle_tenant_id b = bundle_tenant_id b' \<and>
     (bundle_bundle_id b = bundle_bundle_id b' \<or> bundle_name b = bundle_name b' \<and> bundle_version b = bundle_version b'))"

definition bundle_size :: "env \<Rightarrow> dict list \<Rightarrow> int" where
  "bundle_size env policies = int (length (json_dumps (env_frepr env) '', '' '': '' (JList (map JObj policies))))"

definition new_bundle :: "env \<Rightarrow> string \<Rightarrow> db \<Rightarrow> principal \<Rightarrow> bundle_create \<Rightarrow> policy_bundle" where
  "new_bundle env uuid db who req =
     \<lparr>bundle_id = next_id bundle_id (db_bundles db), bundle_tenant_id = p_tenant_id who, bundle_bundle_id = uuid,
      bundle_name = bc_name req, bundle_version = bc_version req, bundle_status = BDraft,
      bundle_definition_json = JList (map JObj (bc_policies req)), bundle_created_by = p_subject who,
      bundle_approved_by = None, bundle_created_at = env_now env, bundle_submitted_at = None,
      bundle_approved_at = None, bundle_activated_at = None, bundle_retired_at = None\<rparr>"

definition bad_request :: "'a result \<Rightarrow> 'a result" where
  "bad_request r = (case r of Inl (ValueError m) \<Rightarrow> Inl (HTTPException 400 m) | _ \<Rightarrow> r)"

definition conflict_on_value_error :: "'a result \<Rightarrow> 'a result" where
  "conflict_on_value_error r = (case r of Inl (ValueError m) \<Rightarrow> Inl (HTTPException 409 m) | _ \<Rightarrow> r)"

definition create_policy_bundle ::
  "env \<Rightarrow> string \<Rightarrow> principal \<Rightarrow> bundle_create \<Rightarrow> db \<Rightarrow> (db \<times> policy_bundle) result" where
  "create_policy_bundle env uuid who req db =
     rbind (require_role DataOwner who) (\<lambda>_.
     rbind (check_body (bundle_create_ok req)) (\<lambda>_.
     rbind (bad_request (validate_policy_definitions (JList (map JObj (bc_policies req))))) (\<lambda>_.
     rbind (raise_if (bundle_size env (bc_policies req) > 262144)
              (HTTPException 413 ''Policy bundle exceeds 256 KiB'')) (\<lambda>_.
     let b = new_bundle env uuid db who req in
     rbind (raise_if (list_ex (bundle_conflict b) (db_bundles db))
              (HTTPException 409 ''Policy bundle name and version already exist'')) (\<lambda>_.
     Inr (db\<lparr>db_bundles := db_bundles db @ [b]\<rparr>, b))))))"

definition submitted_bundle :: "time \<Rightarrow> policy_bundle \<Rightarrow> policy_bundle" where
  "submitted_bundle now b = b\<lparr>bundle_status := BPending, bundle_submitted_at := Some now\<rparr>"

text \<open>The bundle is committed before its review task is created.\<close>

definition submit_policy_bundle ::
  "env \<Rightarrow> registration list \<Rightarrow> uuids \<Rightarrow> string \<Rightarrow> principal \<Rightarrow> string \<Rightarrow> db \<Rightarrow> db \<times> policy_bundle result" where
  "submit_policy_bundle env registry us uuid who bid db =
     (case rbind (require_role DataOwner who) (\<lambda>_.
           rbind (bundle_or_404 db (p_tenant_id who) bid) (\<lambda>b.
           rbind (raise_if (bundle_status b \<noteq> BDraft) (HTTPException 409 ''Only draft bundles can be submitted'')) (\<lambda>_.
           Inr b))) of
        Inl e \<Rightarrow> (db, Inl e)
      | Inr b \<Rightarrow>
          let db1 = update_bundle (bundle_id b) (submitted_bundle (env_now env)) db
          in case create_review_task env registry us uuid db1 (p_tenant_id who) ''policy-approval''
                    (bundle_bundle_id b)
                    (''Approve policy bundle '' @ bundle_name b @ '' v'' @ show_int (bundle_version b))
                    (p_subject who)
                    [(''bundle_name'', JStr (bundle_name b)), (''bundle_version'', JInt (bundle_version b))] ''high'' None of
               Inl e \<Rightarrow> (db1, Inl e)
             | Inr (db2, t) \<Rightarrow> (db2, Inr (submitted_bundle (env_now env) b)))"

definition bundle_delegation :: "time \<Rightarrow> principal \<Rightarrow> policy_bundle \<Rightarrow> policy_approver_delegation \<Rightarrow> bool" where
  "bundle_delegation now who b d \<longleftrightarrow>
     deleg_tenant_id d = p_tenant_id who \<and> deleg_subject d = p_subject who \<and> deleg_active d \<and>
     deleg_expires_at d > now \<and> deleg_can_approve_bundles d \<and>
     (deleg_bundle_name d = None \<or> deleg_bundle_name d = Some (bundle_name b))"

definition can_approve_bundle :: "time \<Rightarrow> db \<Rightarrow> principal \<Rightarrow> policy_bundle \<Rightarrow> bool" where
  "can_approve_bundle now db who b =
     (p_role who = Administrator \<or> scalar (bundle_delegation now who b) (db_delegations db) \<noteq> None)"

definition same_identity :: "string \<Rightarrow> principal \<Rightarrow> bool" where
  "same_identity author who = (author = p_subject who \<and> p_subject who \<noteq> ''development'')"

definition approvable_bundle :: "time \<Rightarrow> db \<Rightarrow> principal \<Rightarrow> string \<Rightarrow> policy_bundle result" where
  "approvable_bundle now db who bid =
     rbind (require_role DataOwner who) (\<lambda>_.
     rbind (bundle_or_404 db (p_tenant_id who) bid) (\<lambda>b.
     rbind (raise_if (bundle_status b \<noteq> BPending) (HTTPException 409 ''Only pending bundles can be approved'')) (\<lambda>_.
     rbind (raise_if (\<not> can_approve_bundle now db who b)
              (HTTPException 403 ''Policy bundle approval is not delegated to this identity'')) (\<lambda>_.
     rbind (raise_if (same_identity (bundle_created_by b) who)
              (HTTPException 409 ''Policy approval requires a different identity'')) (\<lambda>_.
     Inr b)))))"

definition approved_bundle :: "time \<Rightarrow> string \<Rightarrow> policy_bundle \<Rightarrow> policy_bundle" where
  "approved_bundle now subject b =
     b\<lparr>bundle_status := BApproved, bundle_approved_by := Some subject, bundle_approved_at := Some now\<rparr>"

definition approve_policy_bundle ::
  "env \<Rightarrow> registration list \<Rightarrow> (nat \<Rightarrow> uuids) \<Rightarrow> principal \<Rightarrow> string \<Rightarrow> db \<Rightarrow> (db \<times> policy_bundle) result" where
  "approve_policy_bundle env registry usn who bid db =
     rbind (approvable_bundle (env_now env) db who bid) (\<lambda>b.
     let db1 = update_bundle (bundle_id b) (approved_bundle (env_now env) (p_subject who)) db
     in Inr (fst (complete_review_task env registry usn db1 (p_tenant_id who) ''policy-approval''
                    (bundle_bundle_id b) (p_subject who) ''approved''),
             approved_bundle (env_now env) (p_subject who) b))"

text \<open>
  Activation: the active bundle of the tenant, unless it is this one, is retired, and this one becomes
  active. The code has it twice: \<open>_activate_policy_bundle\<close> and \<open>_activate_bundle\<close>.
\<close>

definition retired_bundle :: "time \<Rightarrow> policy_bundle \<Rightarrow> policy_bundle" where
  "retired_bundle now b = b\<lparr>bundle_status := BRetired, bundle_retired_at := Some now\<rparr>"

definition activated_bundle :: "time \<Rightarrow> policy_bundle \<Rightarrow> policy_bundle" where
  "activated_bundle now b =
     b\<lparr>bundle_status := BActive, bundle_activated_at := Some now, bundle_retired_at := None\<rparr>"

definition current_active :: "db \<Rightarrow> string \<Rightarrow> policy_bundle option" where
  "current_active db tenant_id =
     scalar (\<lambda>b. bundle_tenant_id b = tenant_id \<and> bundle_status b = BActive) (db_bundles db)"

definition activate_bundle :: "time \<Rightarrow> string \<Rightarrow> policy_bundle \<Rightarrow> db \<Rightarrow> db" where
  "activate_bundle now tenant_id b db =
     update_bundle (bundle_id b) (activated_bundle now)
       (case current_active db tenant_id of
          None \<Rightarrow> db
        | Some a \<Rightarrow> if bundle_id a \<noteq> bundle_id b then update_bundle (bundle_id a) (retired_bundle now) db else db)"

definition activate_policy_bundle ::
  "env \<Rightarrow> principal \<Rightarrow> string \<Rightarrow> db \<times> policy_cache \<Rightarrow> (db \<times> policy_cache) result" where
  "activate_policy_bundle env who bid = (\<lambda>(db, cache).
     rbind (require_role Administrator who) (\<lambda>_.
     rbind (bundle_or_404 db (p_tenant_id who) bid) (\<lambda>b.
     rbind (raise_if (bundle_status b \<noteq> BApproved) (HTTPException 409 ''Only approved bundles can be activated'')) (\<lambda>_.
     Inr (activate_bundle (env_now env) (p_tenant_id who) b db,
          invalidate_policy_cache (Some (p_tenant_id who)) cache)))))"

definition rollback_policy_bundle ::
  "env \<Rightarrow> principal \<Rightarrow> string \<Rightarrow> db \<times> policy_cache \<Rightarrow> (db \<times> policy_cache) result" where
  "rollback_policy_bundle env who bid = (\<lambda>(db, cache).
     rbind (require_role Administrator who) (\<lambda>_.
     rbind (bundle_or_404 db (p_tenant_id who) bid) (\<lambda>b.
     rbind (raise_if (bundle_status b \<notin> {BRetired, BApproved})
              (HTTPException 409 ''Rollback target must be retired or approved'')) (\<lambda>_.
     Inr (activate_bundle (env_now env) (p_tenant_id who) b db,
          invalidate_policy_cache (Some (p_tenant_id who)) cache)))))"

section \<open>Comparing bundles\<close>

definition policies_by_id :: "policy_bundle \<Rightarrow> dict" where
  "policies_by_id b =
     fold (\<lambda>p d. dict_set (jstr (py_get (jobj p) ''id'')) p d) (jlist (bundle_definition_json b)) []"

record bundle_diff =
  diff_from :: "(string \<times> string \<times> int) option"
  diff_to :: "string \<times> string \<times> int"
  diff_added :: "json list"
  diff_removed :: "json list"
  diff_changed :: "(string \<times> (string \<times> json \<times> json) list) list"

definition bundle_label :: "policy_bundle \<Rightarrow> string \<times> string \<times> int" where
  "bundle_label b = (bundle_bundle_id b, bundle_name b, bundle_version b)"

definition changed_fields :: "dict \<Rightarrow> dict \<Rightarrow> (string \<times> json \<times> json) list" where
  "changed_fields before after =
     map (\<lambda>f. (f, py_get before f, py_get after f))
       (filter (\<lambda>f. \<not> py_eq (py_get before f) (py_get after f)) (sorted_set (map fst before @ map fst after)))"

definition compare_policy_bundles :: "policy_bundle \<Rightarrow> policy_bundle option \<Rightarrow> bundle_diff" where
  "compare_policy_bundles current previous =
     (let cur = policies_by_id current;
          prev = (case previous of None \<Rightarrow> [] | Some b \<Rightarrow> policies_by_id b)
      in \<lparr>diff_from = map_option bundle_label previous, diff_to = bundle_label current,
          diff_added = map (py_get cur) (sorted_set (filter (\<lambda>k. dict_get prev k = None) (map fst cur))),
          diff_removed = map (py_get prev) (sorted_set (filter (\<lambda>k. dict_get cur k = None) (map fst prev))),
          diff_changed =
            map (\<lambda>k. (k, changed_fields (jobj (py_get prev k)) (jobj (py_get cur k))))
              (filter (\<lambda>k. \<not> py_eq (py_get prev k) (py_get cur k))
                (sorted_set (filter (\<lambda>k. dict_get prev k \<noteq> None) (map fst cur))))\<rparr>)"

definition previous_policy_bundle :: "db \<Rightarrow> string \<Rightarrow> policy_bundle \<Rightarrow> policy_bundle option" where
  "previous_policy_bundle db tenant_id b =
     (case order_by_desc bundle_version
             (where_rows (\<lambda>r. bundle_tenant_id r = tenant_id \<and> bundle_name r = bundle_name b \<and>
                bundle_version r < bundle_version b) (db_bundles db)) of
        [] \<Rightarrow> None | r # _ \<Rightarrow> Some r)"

definition policy_bundle_diff :: "db \<Rightarrow> principal \<Rightarrow> string \<Rightarrow> string option \<Rightarrow> bundle_diff result" where
  "policy_bundle_diff db who bid against =
     rbind (require_role Auditor who) (\<lambda>_.
     rbind (bundle_or_404 db (p_tenant_id who) bid) (\<lambda>b.
     if truthy_opt against
     then (case find_bundle db (p_tenant_id who) (the against) of
             None \<Rightarrow> Inl (HTTPException 404 ''Comparison policy bundle not found'')
           | Some previous \<Rightarrow> Inr (compare_policy_bundles b (Some previous)))
     else Inr (compare_policy_bundles b (previous_policy_bundle db (p_tenant_id who) b))))"

section \<open>Delegations\<close>

definition create_delegation ::
  "env \<Rightarrow> string \<Rightarrow> string \<Rightarrow> delegation_create \<Rightarrow> string \<Rightarrow> db \<Rightarrow> (db \<times> policy_approver_delegation) result" where
  "create_delegation env uuid tenant_id req created_by db =
     rbind (raise_if (\<not> dc_can_approve_bundles req \<and> \<not> dc_can_approve_exceptions req)
              (ValueError ''Delegation must grant at least one approval capability'')) (\<lambda>_.
     let expires = drop_tzinfo (dc_expires_at req) in
     rbind (raise_if (expires \<le> env_now env) (ValueError ''Delegation expiry must be in the future'')) (\<lambda>_.
     let d = \<lparr>deleg_id = next_id deleg_id (db_delegations db), deleg_tenant_id = tenant_id,
              deleg_delegation_id = uuid, deleg_subject = dc_subject req, deleg_bundle_name = dc_bundle_name req,
              deleg_can_approve_bundles = dc_can_approve_bundles req,
              deleg_can_approve_exceptions = dc_can_approve_exceptions req, deleg_expires_at = expires,
              deleg_active = True, deleg_created_by = created_by, deleg_created_at = env_now env,
              deleg_revoked_at = None\<rparr>
     in Inr (db\<lparr>db_delegations := db_delegations db @ [d]\<rparr>, d)))"

definition create_policy_approver_delegation ::
  "env \<Rightarrow> string \<Rightarrow> principal \<Rightarrow> delegation_create \<Rightarrow> db \<Rightarrow> (db \<times> policy_approver_delegation) result" where
  "create_policy_approver_delegation env uuid who req db =
     rbind (require_role Administrator who) (\<lambda>_.
     rbind (check_body (delegation_create_ok req)) (\<lambda>_.
     bad_request (create_delegation env uuid (p_tenant_id who) req (p_subject who) db)))"

definition revoke_policy_approver_delegation :: "env \<Rightarrow> principal \<Rightarrow> string \<Rightarrow> db \<Rightarrow> db result" where
  "revoke_policy_approver_delegation env who did db =
     rbind (require_role Administrator who) (\<lambda>_.
     case scalar (\<lambda>d. deleg_tenant_id d = p_tenant_id who \<and> deleg_delegation_id d = did) (db_delegations db) of
       None \<Rightarrow> Inl (HTTPException 404 ''Policy approver delegation not found'')
     | Some d \<Rightarrow> Inr (db\<lparr>db_delegations := update_rows (\<lambda>r. deleg_id r = deleg_id d)
         (\<lambda>r. r\<lparr>deleg_active := False, deleg_revoked_at := Some (env_now env)\<rparr>) (db_delegations db)\<rparr>))"

definition delegation_response :: "env \<Rightarrow> policy_approver_delegation \<Rightarrow> json" where
  "delegation_response env d = JObj
     [(''delegation_id'', JStr (deleg_delegation_id d)), (''subject'', JStr (deleg_subject d)),
      (''bundle_name'', jopt JStr (deleg_bundle_name d)),
      (''can_approve_bundles'', JBool (deleg_can_approve_bundles d)),
      (''can_approve_exceptions'', JBool (deleg_can_approve_exceptions d)),
      (''expires_at'', jtime env (deleg_expires_at d)), (''active'', JBool (deleg_active d)),
      (''created_by'', JStr (deleg_created_by d)), (''created_at'', jtime env (deleg_created_at d)),
      (''revoked_at'', jopt (jtime env) (deleg_revoked_at d))]"

section \<open>Exceptions\<close>

definition scope_given :: "exception_create \<Rightarrow> bool" where
  "scope_given r = (truthy_opt (ec_policy_id r) \<or> truthy_opt (ec_agent_key r) \<or>
     (ec_asset_id r \<noteq> None \<and> ec_asset_id r \<noteq> Some 0) \<or> truthy_opt (ec_destination r) \<or>
     truthy_opt (ec_action r) \<or> truthy_opt (ec_purpose r))"

definition new_exception :: "env \<Rightarrow> string \<Rightarrow> db \<Rightarrow> principal \<Rightarrow> exception_create \<Rightarrow> policy_exception" where
  "new_exception env uuid db who req =
     \<lparr>exn_id = next_id exn_id (db_exceptions db), exn_tenant_id = p_tenant_id who, exn_exception_id = uuid,
      exn_policy_id = ec_policy_id req, exn_agent_key = ec_agent_key req, exn_asset_id = ec_asset_id req,
      exn_destination = ec_destination req, exn_action = ec_action req, exn_purpose = ec_purpose req,
      exn_override_decision = ec_override_decision req, exn_reason = ec_reason req,
      exn_controls_json = JList (map JStr (ec_controls req)), exn_expires_at = drop_tzinfo (ec_expires_at req),
      exn_active = True, exn_created_by = p_subject who, exn_approved_by = p_subject who,
      exn_created_at = env_now env, exn_revoked_at = None, exn_renewal_status = None,
      exn_renewal_requested_until = None, exn_renewal_requested_by = None, exn_renewal_requested_at = None,
      exn_renewal_reason = None, exn_renewed_by = None, exn_renewed_at = None\<rparr>"

text \<open>A duplicate identifier is a database error, which nothing catches.\<close>

definition create_policy_exception ::
  "env \<Rightarrow> string \<Rightarrow> principal \<Rightarrow> exception_create \<Rightarrow> db \<Rightarrow> (db \<times> policy_exception) result" where
  "create_policy_exception env uuid who req db =
     rbind (require_role Administrator who) (\<lambda>_.
     rbind (check_body (exception_create_ok req)) (\<lambda>_.
     rbind (raise_if (\<not> scope_given req) (HTTPException 400 ''Policy exceptions require at least one scope'')) (\<lambda>_.
     rbind (raise_if (drop_tzinfo (ec_expires_at req) \<le> env_now env)
              (HTTPException 400 ''Policy exception expiry must be in the future'')) (\<lambda>_.
     let e = new_exception env uuid db who req in
     rbind (raise_if (list_ex (\<lambda>r. exn_tenant_id r = exn_tenant_id e \<and> exn_exception_id r = exn_exception_id e)
              (db_exceptions db)) (OtherError ''IntegrityError'')) (\<lambda>_.
     Inr (db\<lparr>db_exceptions := db_exceptions db @ [e]\<rparr>, e))))))"

definition exception_or_404 :: "db \<Rightarrow> string \<Rightarrow> string \<Rightarrow> policy_exception result" where
  "exception_or_404 db tenant_id xid =
     (case scalar (\<lambda>e. exn_tenant_id e = tenant_id \<and> exn_exception_id e = xid) (db_exceptions db) of
        None \<Rightarrow> Inl (HTTPException 404 ''Policy exception not found'')
      | Some e \<Rightarrow> Inr e)"

definition update_exception :: "nat \<Rightarrow> (policy_exception \<Rightarrow> policy_exception) \<Rightarrow> db \<Rightarrow> db" where
  "update_exception i f db = db\<lparr>db_exceptions := update_rows (\<lambda>e. exn_id e = i) f (db_exceptions db)\<rparr>"

definition revoked_exception :: "time \<Rightarrow> policy_exception \<Rightarrow> policy_exception" where
  "revoked_exception now e = e\<lparr>exn_active := False, exn_revoked_at := Some now\<rparr>"

definition revoke_policy_exception :: "env \<Rightarrow> principal \<Rightarrow> string \<Rightarrow> db \<Rightarrow> db result" where
  "revoke_policy_exception env who xid db =
     rbind (require_role Administrator who) (\<lambda>_.
     rbind (exception_or_404 db (p_tenant_id who) xid) (\<lambda>e.
     Inr (update_exception (exn_id e) (revoked_exception (env_now env)) db)))"

definition renewal_checks :: "time \<Rightarrow> policy_exception \<Rightarrow> time \<Rightarrow> unit result" where
  "renewal_checks now e expires =
     rbind (raise_if (\<not> exn_active e \<or> exn_expires_at e \<le> now)
              (ValueError ''Only active policy exceptions can be renewed'')) (\<lambda>_.
     rbind (raise_if (expires \<le> exn_expires_at e \<or> expires \<le> now)
              (ValueError ''Renewal expiry must extend the current exception'')) (\<lambda>_.
     raise_if (exn_renewal_status e = Some RenewalPending) (ValueError ''A renewal request is already pending'')))"

definition renewal_requested :: "time \<Rightarrow> time \<Rightarrow> string \<Rightarrow> string \<Rightarrow> policy_exception \<Rightarrow> policy_exception" where
  "renewal_requested now expires reason requested_by e =
     e\<lparr>exn_renewal_status := Some RenewalPending, exn_renewal_requested_until := Some expires,
       exn_renewal_requested_by := Some requested_by, exn_renewal_requested_at := Some now,
       exn_renewal_reason := Some reason\<rparr>"

definition request_policy_exception_renewal ::
  "env \<Rightarrow> registration list \<Rightarrow> uuids \<Rightarrow> string \<Rightarrow> principal \<Rightarrow> string \<Rightarrow> datetime \<Rightarrow> string \<Rightarrow> db \<Rightarrow> db \<times> unit result" where
  "request_policy_exception_renewal env registry us uuid who xid expires_at reason db =
     (case rbind (require_role DataOwner who) (\<lambda>_.
           rbind (check_body (field_length 3 2000 reason)) (\<lambda>_.
           rbind (exception_or_404 db (p_tenant_id who) xid) (\<lambda>e.
           rbind (conflict_on_value_error (renewal_checks (env_now env) e (drop_tzinfo expires_at))) (\<lambda>_. Inr e)))) of
        Inl err \<Rightarrow> (db, Inl err)
      | Inr e \<Rightarrow>
          let db1 = update_exception (exn_id e)
                      (renewal_requested (env_now env) (drop_tzinfo expires_at) reason (p_subject who)) db
          in case create_review_task env registry us uuid db1 (p_tenant_id who) ''policy-exception-renewal''
                    (exn_exception_id e) (''Review policy exception renewal '' @ exn_exception_id e)
                    (p_subject who) [(''requested_until'', jtime env (drop_tzinfo expires_at))] ''high'' None of
               Inl err \<Rightarrow> (db1, Inl err)
             | Inr (db2, t) \<Rightarrow> (db2, Inr ()))"

definition exception_delegation :: "time \<Rightarrow> principal \<Rightarrow> policy_approver_delegation \<Rightarrow> bool" where
  "exception_delegation now who d \<longleftrightarrow>
     deleg_tenant_id d = p_tenant_id who \<and> deleg_subject d = p_subject who \<and> deleg_active d \<and>
     deleg_expires_at d > now \<and> deleg_can_approve_exceptions d"

definition can_approve_exception :: "time \<Rightarrow> db \<Rightarrow> principal \<Rightarrow> bool" where
  "can_approve_exception now db who =
     (p_role who = Administrator \<or> scalar (exception_delegation now who) (db_delegations db) \<noteq> None)"

definition renewal_approved :: "time \<Rightarrow> string \<Rightarrow> policy_exception \<Rightarrow> policy_exception" where
  "renewal_approved now approved_by e =
     e\<lparr>exn_expires_at := the (exn_renewal_requested_until e), exn_renewal_status := Some RenewalApproved,
       exn_renewed_by := Some approved_by, exn_renewed_at := Some now\<rparr>"

definition renewable_exception :: "time \<Rightarrow> db \<Rightarrow> principal \<Rightarrow> string \<Rightarrow> policy_exception result" where
  "renewable_exception now db who xid =
     rbind (require_role DataOwner who) (\<lambda>_.
     rbind (exception_or_404 db (p_tenant_id who) xid) (\<lambda>e.
     rbind (raise_if (\<not> can_approve_exception now db who)
              (HTTPException 403 ''Exception renewal approval is not delegated to this identity'')) (\<lambda>_.
     rbind (raise_if (exn_renewal_requested_by e = Some (p_subject who) \<and> p_subject who \<noteq> ''development'')
              (HTTPException 409 ''Exception renewal approval requires a different identity'')) (\<lambda>_.
     rbind (conflict_on_value_error
              (raise_if (exn_renewal_status e \<noteq> Some RenewalPending \<or> exn_renewal_requested_until e = None)
                 (ValueError ''Policy exception has no pending renewal''))) (\<lambda>_.
     Inr e)))))"

definition approve_policy_exception_renewal ::
  "env \<Rightarrow> registration list \<Rightarrow> (nat \<Rightarrow> uuids) \<Rightarrow> principal \<Rightarrow> string \<Rightarrow> db \<Rightarrow> db result" where
  "approve_policy_exception_renewal env registry usn who xid db =
     rbind (renewable_exception (env_now env) db who xid) (\<lambda>e.
     Inr (fst (complete_review_task env registry usn
                 (update_exception (exn_id e) (renewal_approved (env_now env) (p_subject who)) db)
                 (p_tenant_id who) ''policy-exception-renewal'' (exn_exception_id e) (p_subject who)
                 ''approved'')))"


section \<open>Facts about the routes\<close>

text \<open>The result of a route that commits before it may fail, for running routes one after the other.\<close>

definition committed :: "db \<times> 'a result \<Rightarrow> (db \<times> 'a) result" where
  "committed p = rbind (snd p) (\<lambda>x. Inr (fst p, x))"

lemma committed_Inr: "committed p = Inr (db, x) \<longleftrightarrow> p = (db, Inr x)"
  by (cases p) (auto simp: committed_def result_simps)

lemma require_role_Inr [simp]: "require_role r who = Inr u \<longleftrightarrow> r \<le> p_role who"
  by (auto simp: require_role_def)

lemma check_body_Inr [simp]: "check_body v = Inr u \<longleftrightarrow> v"
  by (auto simp: check_body_def)

lemma bad_request_Inr [simp]: "bad_request r = Inr x \<longleftrightarrow> r = Inr x"
  by (auto simp: bad_request_def split: sum.splits py_error.splits)

lemma conflict_Inr [simp]: "conflict_on_value_error r = Inr x \<longleftrightarrow> r = Inr x"
  by (auto simp: conflict_on_value_error_def split: sum.splits py_error.splits)

lemma bundle_or_404_Inr [simp]: "bundle_or_404 db t bid = Inr b \<longleftrightarrow> find_bundle db t bid = Some b"
  by (auto simp: bundle_or_404_def split: option.splits)

lemma find_bundle_Some: "find_bundle db t bid = Some b \<Longrightarrow> b \<in> set (db_bundles db) \<and> bundle_key b = (t, bid)"
  by (auto simp: find_bundle_def dest: scalar_Some)

lemma exception_or_404_Inr:
  "exception_or_404 db t xid = Inr e \<Longrightarrow>
   e \<in> set (db_exceptions db) \<and> exn_tenant_id e = t \<and> exn_exception_id e = xid"
  by (auto simp: exception_or_404_def split: option.splits dest: scalar_Some)

lemma approvable_bundle_Inr:
  "approvable_bundle now db who bid = Inr b \<longleftrightarrow>
     DataOwner \<le> p_role who \<and> find_bundle db (p_tenant_id who) bid = Some b \<and> bundle_status b = BPending \<and>
     can_approve_bundle now db who b \<and> \<not> same_identity (bundle_created_by b) who"
  by (auto simp: approvable_bundle_def result_simps)

lemma update_bundle_fields [simp]:
  "db_bundles (update_bundle i f db) = update_rows (\<lambda>b. bundle_id b = i) f (db_bundles db)"
  "db_delegations (update_bundle i f db) = db_delegations db" "db_rollouts (update_bundle i f db) = db_rollouts db"
  "db_exceptions (update_bundle i f db) = db_exceptions db" "db_outbox (update_bundle i f db) = db_outbox db"
  by (simp_all add: update_bundle_def)

lemma approve_bundles:
  assumes "approve_policy_bundle env registry usn who bid db = Inr (db', r)"
  obtains b where "approvable_bundle (env_now env) db who bid = Inr b"
    "db_bundles db' = update_rows (\<lambda>x. bundle_id x = bundle_id b) (approved_bundle (env_now env) (p_subject who)) (db_bundles db)"
    "db_rollouts db' = db_rollouts db" "r = approved_bundle (env_now env) (p_subject who) b"
    "db_exceptions db' = db_exceptions db"
  using assms only_work_fields[OF complete_review_task_only_work]
  by (auto simp: approve_policy_bundle_def result_simps Let_def)

lemma approve_ok:
  "approvable_bundle (env_now env) db who bid = Inr b \<Longrightarrow>
   \<exists>db'. approve_policy_bundle env registry usn who bid db = Inr (db', approved_bundle (env_now env) (p_subject who) b)"
  by (auto simp: approve_policy_bundle_def Let_def)

lemma submit_bundles:
  assumes "submit_policy_bundle env registry us uuid who bid db = (db', Inr r)"
  obtains b where "DataOwner \<le> p_role who" "find_bundle db (p_tenant_id who) bid = Some b" "bundle_status b = BDraft"
    "db_bundles db' = update_rows (\<lambda>x. bundle_id x = bundle_id b) (submitted_bundle (env_now env)) (db_bundles db)"
    "db_rollouts db' = db_rollouts db" "r = submitted_bundle (env_now env) b"
    "db_exceptions db' = db_exceptions db"
  using assms
  by (auto simp: submit_policy_bundle_def Let_def result_simps only_work_fields[OF create_review_task_only_work]
           split: sum.splits)

lemma submit_ok:
  assumes "DataOwner \<le> p_role who" and "find_bundle db (p_tenant_id who) bid = Some b" and "bundle_status b = BDraft"
  shows "\<exists>db'. submit_policy_bundle env registry us uuid who bid db = (db', Inr (submitted_bundle (env_now env) b))"
proof -
  have "rbind (require_role DataOwner who) (\<lambda>_. rbind (bundle_or_404 db (p_tenant_id who) bid) (\<lambda>b.
      rbind (raise_if (bundle_status b \<noteq> BDraft) (HTTPException 409 ''Only draft bundles can be submitted'')) (\<lambda>_. Inr b))) = Inr b"
    using assms by (simp add: result_simps)
  then show ?thesis
    by (simp add: submit_policy_bundle_def Let_def create_review_task_high split: sum.split prod.split)
qed

text \<open>Creating the review task cannot fail, so an error of the submission leaves the database as it was.\<close>

lemma submit_error:
  "submit_policy_bundle env registry us uuid who bid db = (db', Inl e) \<Longrightarrow> db' = db"
  by (auto simp: submit_policy_bundle_def Let_def create_review_task_high split: sum.splits)

lemma create_bundle_Inr:
  "create_policy_bundle env uuid who req db = Inr (db', b) \<longleftrightarrow>
     DataOwner \<le> p_role who \<and> bundle_create_ok req \<and>
     validate_policy_definitions (JList (map JObj (bc_policies req))) = Inr () \<and>
     bundle_size env (bc_policies req) \<le> 262144 \<and>
     b = new_bundle env uuid db who req \<and> \<not> list_ex (bundle_conflict b) (db_bundles db) \<and>
     db' = db\<lparr>db_bundles := db_bundles db @ [b]\<rparr>"
  by (auto simp: create_policy_bundle_def result_simps Let_def not_less)

lemma activate_policy_Inr:
  "activate_policy_bundle env who bid (db, c) = Inr s' \<longleftrightarrow>
     p_role who = Administrator \<and>
     (\<exists>b. find_bundle db (p_tenant_id who) bid = Some b \<and> bundle_status b = BApproved \<and>
        s' = (activate_bundle (env_now env) (p_tenant_id who) b db, invalidate_policy_cache (Some (p_tenant_id who)) c))"
  by (cases "p_role who") (auto simp: activate_policy_bundle_def result_simps less_eq_role_def)

lemma rollback_policy_Inr:
  "rollback_policy_bundle env who bid (db, c) = Inr s' \<longleftrightarrow>
     p_role who = Administrator \<and>
     (\<exists>b. find_bundle db (p_tenant_id who) bid = Some b \<and> bundle_status b \<in> {BRetired, BApproved} \<and>
        s' = (activate_bundle (env_now env) (p_tenant_id who) b db, invalidate_policy_cache (Some (p_tenant_id who)) c))"
  by (cases "p_role who") (auto simp: rollback_policy_bundle_def result_simps less_eq_role_def)


text \<open>The way of a new bundle to its approval, without running it.\<close>

lemma update_last_row:
  "k r = next_id k t \<Longrightarrow> update_rows (\<lambda>x. k x = k r) f (t @ [r]) = t @ [f r]"
proof -
  assume r: "k r = next_id k t"
  have "\<forall>x \<in> set t. k x \<noteq> k r" using r next_id_upper[of _ t k] by fastforce
  then show ?thesis by (simp add: update_rows_def map_idI)
qed

lemma find_last_bundle:
  assumes "\<not> list_ex (bundle_conflict b) (db_bundles db)" and "db_bundles db' = db_bundles db @ [b']"
    and "bundle_key b' = bundle_key b"
  shows "find_bundle db' (bundle_tenant_id b) (bundle_bundle_id b) = Some b'"
proof -
  have "scalar (\<lambda>x. bundle_key x = bundle_key b) (db_bundles db) = None"
    using assms(1) by (auto simp: store list_ex_iff bundle_conflict_def bundle_key_def)
  with assms(2,3) have "scalar (\<lambda>x. bundle_key x = bundle_key b) (db_bundles db') = Some b'"
    by (simp add: scalar_append scalar_Cons)
  then show ?thesis by (simp add: find_bundle_def bundle_key_def[of b])
qed

lemma bundle_path:
  assumes c: "create_policy_bundle env bid who req db = Inr (db1, b)"
    and w: "p_role ap = Administrator" "p_tenant_id ap = p_tenant_id who" "\<not> same_identity (p_subject who) ap"
  obtains db2 db3 where
    "submit_policy_bundle env registry us uuid who bid db1 = (db2, Inr (submitted_bundle (env_now env) b))"
    "approvable_bundle (env_now env) db2 ap bid = Inr (submitted_bundle (env_now env) b)"
    "approve_policy_bundle env registry usn ap bid db2 =
       Inr (db3, approved_bundle (env_now env) (p_subject ap) (submitted_bundle (env_now env) b))"
    "db_bundles db3 = db_bundles db @ [approved_bundle (env_now env) (p_subject ap) (submitted_bundle (env_now env) b)]"
    "db_rollouts db3 = db_rollouts db"
proof -
  let ?s = "submitted_bundle (env_now env) b"
  from c have r: "DataOwner \<le> p_role who" "b = new_bundle env bid db who req" "\<not> list_ex (bundle_conflict b) (db_bundles db)"
    and db1: "db1 = db\<lparr>db_bundles := db_bundles db @ [b]\<rparr>"
    by (auto simp: create_bundle_Inr)
  have b: "bundle_status b = BDraft" "bundle_tenant_id b = p_tenant_id who" "bundle_bundle_id b = bid"
    "bundle_id b = next_id bundle_id (db_bundles db)" "bundle_created_by b = p_subject who"
    by (simp_all add: r(2) new_bundle_def)
  have f1: "find_bundle db1 (p_tenant_id who) bid = Some b"
    using find_last_bundle[OF r(3), of db1 b] by (simp add: db1 b)
  obtain db2 where s: "submit_policy_bundle env registry us uuid who bid db1 = (db2, Inr ?s)"
    using submit_ok[OF r(1) f1 b(1)] by blast
  from s obtain x where x: "find_bundle db1 (p_tenant_id who) bid = Some x"
    "db_bundles db2 = update_rows (\<lambda>y. bundle_id y = bundle_id x) (submitted_bundle (env_now env)) (db_bundles db1)"
    "db_rollouts db2 = db_rollouts db1"
    by (rule submit_bundles)
  have d2: "db_bundles db2 = db_bundles db @ [?s]"
    using x f1 update_last_row[of bundle_id, OF b(4)] by (simp add: db1)
  have f2: "find_bundle db2 (p_tenant_id who) bid = Some ?s"
    using find_last_bundle[OF r(3) d2] by (simp add: submitted_bundle_def bundle_key_def b)
  have a: "approvable_bundle (env_now env) db2 ap bid = Inr ?s"
    using f2 w by (simp add: approvable_bundle_Inr can_approve_bundle_def same_identity_def less_eq_role_def submitted_bundle_def b)
  obtain db3 where p: "approve_policy_bundle env registry usn ap bid db2 = Inr (db3, approved_bundle (env_now env) (p_subject ap) ?s)"
    using approve_ok[OF a] by blast
  from p obtain y where y: "approvable_bundle (env_now env) db2 ap bid = Inr y"
    "db_bundles db3 = update_rows (\<lambda>x. bundle_id x = bundle_id y) (approved_bundle (env_now env) (p_subject ap)) (db_bundles db2)"
    "db_rollouts db3 = db_rollouts db2"
    by (rule approve_bundles)
  have "bundle_id ?s = next_id bundle_id (db_bundles db)" by (simp add: submitted_bundle_def b)
  from update_last_row[of bundle_id, OF this] y a
  have "db_bundles db3 = db_bundles db @ [approved_bundle (env_now env) (p_subject ap) ?s]"
    by (simp add: d2 fun_eq_iff)
  with s a p show thesis using that x(3) y(3) by (simp add: db1)
qed

section \<open>Exceptions through any sequence of operations\<close>

inductive exception_step :: "db \<Rightarrow> db \<Rightarrow> bool" where
  ExceptionCreated: "create_policy_exception env uuid who req db = Inr (db', e) \<Longrightarrow> exception_step db db'"
| ExceptionRevoked: "revoke_policy_exception env who xid db = Inr db' \<Longrightarrow> exception_step db db'"
| RenewalRequested: "request_policy_exception_renewal env registry us uuid who xid until reason db = (db', Inr ())
     \<Longrightarrow> exception_step db db'"
| RenewalApproved: "approve_policy_exception_renewal env registry usn who xid db = Inr db' \<Longrightarrow> exception_step db db'"

definition exn_key :: "policy_exception \<Rightarrow> string \<times> string" where
  "exn_key e = (exn_tenant_id e, exn_exception_id e)"

definition renewal_ok :: "policy_exception \<Rightarrow> bool" where
  "renewal_ok e \<longleftrightarrow> (exn_renewal_status e = Some RenewalPending \<longrightarrow>
     (\<exists>u r. exn_renewal_requested_until e = Some u \<and> exn_expires_at e < u \<and> exn_renewal_requested_by e = Some r))"

definition exceptions_ok :: "db \<Rightarrow> bool" where
  "exceptions_ok db \<longleftrightarrow> unique_key exn_id (db_exceptions db) \<and> unique_key exn_key (db_exceptions db) \<and>
     (\<forall>e \<in> set (db_exceptions db). renewal_ok e)"

text \<open>What an operation may do to one row.\<close>

definition exn_changes :: "policy_exception \<Rightarrow> policy_exception \<Rightarrow> bool" where
  "exn_changes e e' \<longleftrightarrow> exn_key e' = exn_key e \<and> exn_id e' = exn_id e \<and> (exn_active e' \<longrightarrow> exn_active e) \<and>
     (renewal_ok e \<longrightarrow> renewal_ok e') \<and>
     (exn_expires_at e' = exn_expires_at e \<or>
      exn_renewal_status e = Some RenewalPending \<and>
      exn_renewal_requested_until e = Some (exn_expires_at e') \<and>
      (\<exists>a. exn_renewed_by e' = Some a \<and> (exn_renewal_requested_by e = Some a \<longrightarrow> a = ''development'')))"

lemma exn_changes_refl [simp]: "exn_changes e e"
  by (simp add: exn_changes_def)

lemma update_exception_rows [simp]:
  "db_exceptions (update_exception i f db) = update_rows (\<lambda>e. exn_id e = i) f (db_exceptions db)"
  by (simp add: update_exception_def)

text \<open>Every operation appends a fresh row or changes the row of one identifier.\<close>

lemma exception_step_cases:
  assumes "exception_step db db'"
  obtains (Append) e where "db_exceptions db' = db_exceptions db @ [e]" "exn_id e = next_id exn_id (db_exceptions db)"
      "exn_key e \<notin> exn_key ` set (db_exceptions db)" "renewal_ok e"
    | (Update) e f where "e \<in> set (db_exceptions db)" "exn_changes e (f e)"
      "db_exceptions db' = update_rows (\<lambda>r. exn_id r = exn_id e) f (db_exceptions db)"
  using assms
proof cases
  case (ExceptionCreated env uuid who req e)
  then have db': "db_exceptions db' = db_exceptions db @ [e]" and e: "e = new_exception env uuid db who req"
    and fresh: "\<not> list_ex (\<lambda>r. exn_tenant_id r = exn_tenant_id e \<and> exn_exception_id r = exn_exception_id e) (db_exceptions db)"
    by (auto simp: create_policy_exception_def result_simps Let_def)
  from fresh have "exn_key e \<notin> exn_key ` set (db_exceptions db)"
    by (auto simp: exn_key_def list_ex_iff)
  with db' show ?thesis by (intro Append[OF db']) (simp_all add: e new_exception_def renewal_ok_def)
next
  case (ExceptionRevoked env who xid)
  then obtain e where e: "exception_or_404 db (p_tenant_id who) xid = Inr e"
    and db': "db' = update_exception (exn_id e) (revoked_exception (env_now env)) db"
    by (auto simp: revoke_policy_exception_def result_simps)
  from exception_or_404_Inr[OF e] show ?thesis
    by (intro Update[where e = e and f = "revoked_exception (env_now env)"])
       (simp_all add: db' exn_changes_def revoked_exception_def exn_key_def renewal_ok_def)
next
  case (RenewalRequested env registry us uuid who xid until reason)
  define f where "f = renewal_requested (env_now env) (drop_tzinfo until) reason (p_subject who)"
  from RenewalRequested obtain e where e: "exception_or_404 db (p_tenant_id who) xid = Inr e"
    and c: "renewal_checks (env_now env) e (drop_tzinfo until) = Inr ()"
    and db': "db_exceptions db' = update_rows (\<lambda>r. exn_id r = exn_id e) f (db_exceptions db)"
    by (auto simp: request_policy_exception_renewal_def result_simps Let_def f_def
        only_work_fields[OF create_review_task_only_work] split: sum.splits)
  from c have "exn_expires_at e < drop_tzinfo until"
    by (auto simp: renewal_checks_def result_simps)
  with exception_or_404_Inr[OF e] show ?thesis
    by (intro Update[OF _ _ db']) (simp_all add: exn_changes_def f_def renewal_requested_def exn_key_def renewal_ok_def)
next
  case (RenewalApproved env registry usn who xid)
  define f where "f = renewal_approved (env_now env) (p_subject who)"
  from RenewalApproved obtain e where e: "renewable_exception (env_now env) db who xid = Inr e"
    and db': "db_exceptions db' = update_rows (\<lambda>r. exn_id r = exn_id e) f (db_exceptions db)"
    by (auto simp: approve_policy_exception_renewal_def result_simps f_def
        only_work_fields[OF complete_review_task_only_work])
  from e have m: "exception_or_404 db (p_tenant_id who) xid = Inr e"
    and c: "exn_renewal_requested_by e = Some (p_subject who) \<longrightarrow> p_subject who = ''development''"
      "exn_renewal_status e = Some RenewalPending" "\<exists>u. exn_renewal_requested_until e = Some u"
    by (auto simp: renewable_exception_def result_simps)
  from c exception_or_404_Inr[OF m] show ?thesis
    by (intro Update[OF _ _ db']) (auto simp: exn_changes_def f_def renewal_approved_def exn_key_def renewal_ok_def)
qed

lemma update_one_row:
  assumes "unique_key k t" and "e \<in> set t"
  shows "set (update_rows (\<lambda>r. k r = k e) f t) = insert (f e) (set t - {e})"
proof -
  have "r = e" if "r \<in> set t" "k r = k e" for r
    using unique_key_eq[of k, OF assms(1) that(1) assms(2) that(2)] .
  then have "(\<lambda>r. if k r = k e then f r else r) ` set t = (\<lambda>r. if r = e then f e else r) ` set t"
    by (intro image_cong) auto
  also have "\<dots> = insert (f e) (set t - {e})" using assms(2) by auto
  finally show ?thesis by (simp add: set_update_rows)
qed

lemma map_update_one:
  assumes "unique_key k t" and "e \<in> set t" and "g (f e) = g e"
  shows "map g (update_rows (\<lambda>r. k r = k e) f t) = map g t"
proof -
  have "r = e" if "r \<in> set t" "k r = k e" for r
    using unique_key_eq[of k, OF assms(1) that(1) assms(2) that(2)] .
  with assms(3) show ?thesis by (auto simp: update_rows_def)
qed

text \<open>After a step, each row is one that was there, changed as allowed, or is new.\<close>

lemma exception_step_rows:
  assumes "exceptions_ok db" and "exception_step db db'"
  shows "exceptions_ok db' \<and>
    (\<forall>e' \<in> set (db_exceptions db'). exn_key e' \<notin> exn_key ` set (db_exceptions db) \<or>
       (\<exists>e \<in> set (db_exceptions db). exn_changes e e')) \<and>
    exn_key ` set (db_exceptions db) \<subseteq> exn_key ` set (db_exceptions db')"
  using assms(2)
proof (cases rule: exception_step_cases)
  case (Append e)
  from assms(1) Append(1-4) have "exceptions_ok db'"
    using unique_key_insert[of exn_id "db_exceptions db" e] by (auto simp: exceptions_ok_def unique_key_def)
  with Append show ?thesis by (auto intro!: exn_changes_refl)
next
  case (Update e f)
  from assms(1) have u: "unique_key exn_id (db_exceptions db)" "unique_key exn_key (db_exceptions db)"
    by (simp_all add: exceptions_ok_def)
  have same: "exn_id (f e) = exn_id e" "exn_key (f e) = exn_key e" using Update(2) by (simp_all add: exn_changes_def)
  note rows = update_one_row[of exn_id, OF u(1) Update(1), of f, folded Update(3)]
  have "unique_key exn_id (db_exceptions db')" "unique_key exn_key (db_exceptions db')"
    using map_update_one[of exn_id, OF u(1) Update(1), of exn_id f, folded Update(3)]
      map_update_one[of exn_id, OF u(1) Update(1), of exn_key f, folded Update(3)] same u
    by (simp_all add: unique_key_def)
  moreover have "\<forall>e' \<in> set (db_exceptions db'). renewal_ok e'"
    using assms(1) Update(1,2) by (auto simp: rows exceptions_ok_def exn_changes_def)
  moreover have "exn_key ` set (db_exceptions db') = exn_key ` set (db_exceptions db)"
    using same Update(1) by (auto simp: rows image_iff)
  moreover have "\<forall>e' \<in> set (db_exceptions db'). \<exists>e \<in> set (db_exceptions db). exn_changes e e'"
    using Update(1,2) exn_changes_refl unfolding rows by blast
  ultimately show ?thesis by (simp add: exceptions_ok_def)
qed


lemma exception_steps_ok: "exception_step\<^sup>*\<^sup>* start db \<Longrightarrow> exceptions_ok start \<Longrightarrow> exceptions_ok db"
  by (induction rule: rtranclp_induct) (auto dest: exception_step_rows)

lemma exceptions_ok_start: "db_exceptions start = [] \<Longrightarrow> exceptions_ok start"
  by (simp add: exceptions_ok_def unique_key_def)

definition revoked_key :: "string \<times> string \<Rightarrow> db \<Rightarrow> bool" where
  "revoked_key k db \<longleftrightarrow> k \<in> exn_key ` set (db_exceptions db) \<and>
     (\<forall>e \<in> set (db_exceptions db). exn_key e = k \<longrightarrow> \<not> exn_active e)"

lemma revoked_key_step:
  assumes "exceptions_ok db" and "exception_step db db'" and "revoked_key k db"
  shows "revoked_key k db'"
  using exception_step_rows[OF assms(1,2)] assms(3) unfolding revoked_key_def exn_changes_def
  by (metis (no_types, lifting) subset_eq)

lemma revoked_key_steps:
  assumes "exceptions_ok db" and "exception_step\<^sup>*\<^sup>* db db'" and "revoked_key k db"
  shows "revoked_key k db'"
proof -
  from assms(2) have "exceptions_ok db' \<and> revoked_key k db'"
    by (induction rule: rtranclp_induct)
       (use assms(1,3) exception_step_rows revoked_key_step in blast)+
  then show ?thesis ..
qed

lemma revoke_key:
  assumes "exceptions_ok db" and "revoke_policy_exception env who xid db = Inr db'"
  shows "revoked_key (p_tenant_id who, xid) db'"
proof -
  from assms(2) obtain e where e: "exception_or_404 db (p_tenant_id who) xid = Inr e"
    and db': "db' = update_exception (exn_id e) (revoked_exception (env_now env)) db"
    by (auto simp: revoke_policy_exception_def result_simps)
  note m = exception_or_404_Inr[OF e]
  from assms(1) have u: "unique_key exn_id (db_exceptions db)" "unique_key exn_key (db_exceptions db)"
    by (simp_all add: exceptions_ok_def)
  have rows: "set (db_exceptions db') = insert (revoked_exception (env_now env) e) (set (db_exceptions db) - {e})"
    using update_one_row[of exn_id, OF u(1)] m by (simp add: db')
  have "r = e" if "r \<in> set (db_exceptions db)" "exn_key r = (p_tenant_id who, xid)" for r
    by (rule unique_key_eq[of exn_key, OF u(2) that(1)]) (use m that in \<open>simp_all add: exn_key_def\<close>)
  with m show ?thesis
    by (auto simp: revoked_key_def rows revoked_exception_def exn_key_def)
qed

text \<open>
  A revoked exception is revoked for good: whatever exceptions are then created, revoked and renewed,
  no evaluation of the tenant is ever decided by it.
\<close>

theorem revoked_exception_final:
  assumes "db_exceptions start = []" and "exception_step\<^sup>*\<^sup>* start db"
    and "revoke_policy_exception env who xid db = Inr db1" and "exception_step\<^sup>*\<^sup>* db1 db2"
    and "matching_exception now db2 (p_tenant_id who) akey aid dst act pur matched = Some e"
  shows "exn_exception_id e \<noteq> xid"
proof
  assume "exn_exception_id e = xid"
  note ok = exception_steps_ok[OF assms(2) exceptions_ok_start[OF assms(1)]]
  have "exceptions_ok db1"
    using exception_step_rows[OF ok ExceptionRevoked[OF assms(3)]] by simp
  from revoked_key_steps[OF this assms(4) revoke_key[OF ok assms(3)]]
  have "\<not> exn_active e" if "e \<in> set (db_exceptions db2)" "exn_key e = (p_tenant_id who, xid)"
    using that by (simp add: revoked_key_def)
  moreover from matching_exception_Some[OF assms(5)]
  have "e \<in> set (db_exceptions db2)" "exn_active e" "exn_tenant_id e = p_tenant_id who"
    by (simp_all add: exception_query_def)
  ultimately show False using \<open>exn_exception_id e = xid\<close> by (simp add: exn_key_def)
qed

definition sample_admin :: principal where
  "sample_admin = \<lparr>p_subject = ''ada'', p_role = Administrator, p_tenant_id = ''default''\<rparr>"

definition sample_owner :: principal where
  "sample_owner = \<lparr>p_subject = ''bob'', p_role = DataOwner, p_tenant_id = ''default''\<rparr>"

definition sample_exception_request :: exception_create where
  "sample_exception_request =
     \<lparr>ec_policy_id = None, ec_agent_key = Some ''finance-forecast-agent'', ec_asset_id = None, ec_destination = None,
      ec_action = None, ec_purpose = None, ec_override_decision = Allow, ec_reason = ''close'', ec_controls = [],
      ec_expires_at = \<lparr>dt_wall = 2000000000, dt_offset = None\<rparr>\<rparr>"

definition two_exceptions :: "db result" where
  "two_exceptions =
     rbind (create_policy_exception base_env ''x1'' sample_admin sample_exception_request empty_db) (\<lambda>(db1, e1).
     rbind (create_policy_exception base_env ''x2'' sample_admin sample_exception_request db1) (\<lambda>(db2, e2). Inr db2))"

lemma two_exceptions_reached: "two_exceptions = Inr db \<Longrightarrow> exception_step\<^sup>*\<^sup>* empty_db db"
  by (auto simp: two_exceptions_def result_simps
           intro: rtranclp.rtrancl_into_rtrancl[OF r_into_rtranclp] ExceptionCreated)

theorem revoked_exception_final_witness:
  "\<exists>db e. matching_exception 0 db ''default'' ''finance-forecast-agent'' 1 ''chat'' ''read'' ''close'' [] = Some e \<and>
     exn_exception_id e \<noteq> ''x1''"
proof -
  have "ok_with (\<lambda>db. ok_with (\<lambda>db1.
      matching_exception 0 db1 ''default'' ''finance-forecast-agent'' 1 ''chat'' ''read'' ''close'' [] \<noteq> None)
    (revoke_policy_exception base_env sample_admin ''x1'' db)) two_exceptions"
    by code_simp
  then obtain db db1 e where r: "two_exceptions = Inr db"
    and v: "revoke_policy_exception base_env sample_admin ''x1'' db = Inr db1"
    and m: "matching_exception 0 db1 ''default'' ''finance-forecast-agent'' 1 ''chat'' ''read'' ''close'' [] = Some e"
    by (auto elim!: ok_withE)
  have t: "p_tenant_id sample_admin = ''default''" and e: "db_exceptions empty_db = []"
    by (simp_all add: sample_admin_def empty_db_def)
  have "exn_exception_id e \<noteq> ''x1''"
    by (rule revoked_exception_final[OF e two_exceptions_reached[OF r] v rtranclp.rtrancl_refl, unfolded t, OF m])
  with m show ?thesis by blast
qed

text \<open>
  The expiry of an exception changes only when a pending renewal is approved, by an identity other
  than the one that requested it (or in development mode), and then only to the later time requested.
\<close>

theorem exception_expiry_governed:
  assumes "db_exceptions start = []" and "exception_step\<^sup>*\<^sup>* start db" and "exception_step db db'"
    and "e \<in> set (db_exceptions db)" and "e' \<in> set (db_exceptions db')" and "exn_key e' = exn_key e"
    and "exn_expires_at e' \<noteq> exn_expires_at e"
  shows "exn_renewal_status e = Some RenewalPending \<and> exn_expires_at e < exn_expires_at e' \<and>
         exn_renewal_requested_until e = Some (exn_expires_at e') \<and>
         (\<exists>r a. exn_renewal_requested_by e = Some r \<and> exn_renewed_by e' = Some a \<and> (r \<noteq> a \<or> a = ''development''))"
proof -
  note ok = exception_steps_ok[OF assms(2) exceptions_ok_start[OF assms(1)]]
  then have u: "unique_key exn_key (db_exceptions db)" and r: "renewal_ok e"
    using assms(4) by (simp_all add: exceptions_ok_def)
  from exception_step_rows[OF ok assms(3)] assms(4-6)
  obtain e0 where e0: "e0 \<in> set (db_exceptions db)" "exn_changes e0 e'" by (metis image_eqI)
  then have "exn_key e0 = exn_key e" using assms(6) by (simp add: exn_changes_def)
  then have "e0 = e" by (rule unique_key_eq[of exn_key, OF u e0(1) assms(4)])
  with e0 r assms(7) show ?thesis
    by (auto simp: exn_changes_def renewal_ok_def)
qed


definition renewal_db :: "db result" where
  "renewal_db =
     rbind two_exceptions (\<lambda>db1.
     rbind (committed (request_policy_exception_renewal base_env [] (\<lambda>n. (''d'', ''j'')) ''t1'' sample_owner ''x1''
              \<lparr>dt_wall = 3000000000, dt_offset = None\<rparr> ''more time'' db1)) (\<lambda>(db2, u).
     Inr db2))"

lemma renewal_db_reached: "renewal_db = Inr db \<Longrightarrow> exception_step\<^sup>*\<^sup>* empty_db db"
  by (auto simp: renewal_db_def result_simps committed_Inr
           intro: rtranclp.rtrancl_into_rtrancl[OF two_exceptions_reached] RenewalRequested)

theorem exception_expiry_governed_witness:
  "\<exists>db db'. exception_step db db' \<and>
     (\<exists>e \<in> set (db_exceptions db). \<exists>e' \<in> set (db_exceptions db'). exn_expires_at e < exn_expires_at e')"
proof -
  have "ok_with (\<lambda>db. ok_with (\<lambda>e. exn_expires_at e = 2000000000 \<and> exn_renewal_requested_until e = Some 3000000000)
      (renewable_exception (env_now base_env) db sample_admin ''x1'')) renewal_db"
    by code_simp
  then obtain db e where r: "renewal_db = Inr db"
    and e: "renewable_exception (env_now base_env) db sample_admin ''x1'' = Inr e"
    and x: "exn_expires_at e = 2000000000" "exn_renewal_requested_until e = Some 3000000000"
    by (auto elim!: ok_withE)
  obtain db' where a: "approve_policy_exception_renewal base_env [] (\<lambda>k n. (''d'', ''j'')) sample_admin ''x1'' db = Inr db'"
    using e by (auto simp: approve_policy_exception_renewal_def)
  define e' where "e' = renewal_approved (env_now base_env) (p_subject sample_admin) e"
  from e have m: "e \<in> set (db_exceptions db)"
    by (auto simp: renewable_exception_def result_simps dest: exception_or_404_Inr)
  from a e have m': "e' \<in> set (db_exceptions db')"
    by (auto simp: approve_policy_exception_renewal_def e'_def only_work_fields[OF complete_review_task_only_work]
        set_update_rows intro!: image_eqI[where x = e] m)
  have k: "exn_key e' = exn_key e" "exn_expires_at e' \<noteq> exn_expires_at e"
    by (simp_all add: e'_def renewal_approved_def exn_key_def x)
  have "db_exceptions empty_db = []" by (simp add: empty_db_def)
  from exception_expiry_governed[OF this renewal_db_reached[OF r] RenewalApproved[OF a] m m' k] m m' RenewalApproved[OF a]
  show ?thesis by blast
qed

section \<open>Approval\<close>

lemma may_approve:
  "(p_role who = Administrator \<or> p_role who = DataOwner \<and> (\<exists>d \<in> set (db_delegations db). bundle_delegation now who b d))
   \<longleftrightarrow> DataOwner \<le> p_role who \<and> can_approve_bundle now db who b"
  by (cases "p_role who") (auto simp: can_approve_bundle_def store less_eq_role_def)

text \<open>
  C3: approving a bundle succeeds exactly for a pending bundle of the approver's tenant, when the approver
  is an administrator, or a data owner or above holding a live delegation of this tenant that covers the
  bundle, and is not its author - or has the subject \<open>development\<close>, which the code exempts from that rule
  in every mode. It then approves that bundle in the approver's name and closes its review, and changes no
  other bundle.
\<close>

theorem bundle_approval_guard:
  "(is_ok (approve_policy_bundle env registry usn who bid db) \<longleftrightarrow>
    (\<exists>b. find_bundle db (p_tenant_id who) bid = Some b \<and> bundle_status b = BPending \<and>
       (p_role who = Administrator \<or>
        p_role who = DataOwner \<and> (\<exists>d \<in> set (db_delegations db). bundle_delegation (env_now env) who b d)) \<and>
       (bundle_created_by b \<noteq> p_subject who \<or> p_subject who = ''development''))) \<and>
   (\<forall>db' r. approve_policy_bundle env registry usn who bid db = Inr (db', r) \<longrightarrow>
      bundle_status r = BApproved \<and> bundle_approved_by r = Some (p_subject who) \<and> bundle_key r = (p_tenant_id who, bid) \<and>
      r \<in> set (db_bundles db') \<and>
      (\<forall>x \<in> set (db_bundles db). bundle_id x \<noteq> bundle_id r \<longrightarrow> x \<in> set (db_bundles db')) \<and>
      open_count (p_tenant_id who, ''policy-approval'', bid) (db_tasks db') = 0)"
proof (intro conjI allI impI ballI)
  show "is_ok (approve_policy_bundle env registry usn who bid db) \<longleftrightarrow>
    (\<exists>b. find_bundle db (p_tenant_id who) bid = Some b \<and> bundle_status b = BPending \<and>
       (p_role who = Administrator \<or>
        p_role who = DataOwner \<and> (\<exists>d \<in> set (db_delegations db). bundle_delegation (env_now env) who b d)) \<and>
       (bundle_created_by b \<noteq> p_subject who \<or> p_subject who = ''development''))"
    unfolding may_approve
    by (auto simp: approve_policy_bundle_def is_ok_iff result_simps approvable_bundle_Inr same_identity_def Let_def)
next
  fix db' r
  assume a: "approve_policy_bundle env registry usn who bid db = Inr (db', r)"
  then obtain b where b: "approvable_bundle (env_now env) db who bid = Inr b"
    and rows: "db_bundles db' = update_rows (\<lambda>x. bundle_id x = bundle_id b) (approved_bundle (env_now env) (p_subject who)) (db_bundles db)"
    and r: "r = approved_bundle (env_now env) (p_subject who) b"
    by (rule approve_bundles)
  from b have f: "b \<in> set (db_bundles db)" "bundle_key b = (p_tenant_id who, bid)"
    by (auto simp: approvable_bundle_Inr dest: find_bundle_Some)
  from a b f show "open_count (p_tenant_id who, ''policy-approval'', bid) (db_tasks db') = 0"
    by (auto simp: approve_policy_bundle_def result_simps Let_def bundle_key_def
             intro: complete_leaves_none prod.collapse[symmetric])
  fix x assume "x \<in> set (db_bundles db)" "bundle_id x \<noteq> bundle_id r"
  then show "x \<in> set (db_bundles db')" by (auto simp: rows set_update_rows r approved_bundle_def image_iff)
qed (auto simp: approved_bundle_def bundle_key_def set_update_rows image_iff approvable_bundle_Inr
     elim!: approve_bundles dest!: find_bundle_Some)

definition small_bundle :: bundle_create where
  "small_bundle = \<lparr>bc_name = ''core'', bc_version = 1,
     bc_policies = [[(''id'', JStr ''p1''), (''decision'', JStr ''deny'')]]\<rparr>"

theorem bundle_approval_guard_witness:
  "\<exists>db db' r. approve_policy_bundle base_env [] (\<lambda>k n. (''d'', ''j'')) sample_admin ''b1'' db = Inr (db', r) \<and>
     bundle_approved_by r = Some ''ada'' \<and> \<not> is_ok (approve_policy_bundle base_env [] (\<lambda>k n. (''d'', ''j'')) sample_owner ''b1'' db)"
proof -
  have "is_ok (create_policy_bundle base_env ''b1'' sample_owner small_bundle empty_db)"
    by code_simp
  then obtain db1 b where c: "create_policy_bundle base_env ''b1'' sample_owner small_bundle empty_db = Inr (db1, b)"
    by (auto simp: is_ok_iff)
  have s: "p_tenant_id sample_owner = ''default''" "p_subject sample_owner = ''bob''" "p_subject sample_admin = ''ada''"
    "p_role sample_admin = Administrator" "p_tenant_id sample_admin = ''default''"
    by (simp_all add: sample_owner_def sample_admin_def)
  obtain db2 db3 r where a: "approve_policy_bundle base_env [] (\<lambda>k n. (''d'', ''j'')) sample_admin ''b1'' db2 = Inr (db3, r)"
    and x: "approvable_bundle (env_now base_env) db2 sample_admin ''b1'' = Inr (submitted_bundle (env_now base_env) b)"
    using bundle_path[OF c, of sample_admin] s by (auto simp: same_identity_def) metis
  have "bundle_created_by (submitted_bundle (env_now base_env) b) = ''bob''"
    using c by (simp add: create_bundle_Inr new_bundle_def submitted_bundle_def s)
  with bundle_approval_guard[of base_env "[]" "\<lambda>k n. (''d'', ''j'')" sample_admin "''b1''" db2]
    bundle_approval_guard[of base_env "[]" "\<lambda>k n. (''d'', ''j'')" sample_owner "''b1''" db2] a x s
  show ?thesis by (auto simp: approvable_bundle_Inr)
qed

section \<open>Comparison\<close>

lemma dict_keys_get: "k \<in> set (map fst d) \<longleftrightarrow> dict_get d k \<noteq> None"
  by (simp add: dict_get_def map_of_eq_None_iff)

lemma changed_fields_spec:
  "set (changed_fields before after) =
     {(f, x, y). x = py_get before f \<and> y = py_get after f \<and> \<not> py_eq x y}"
proof -
  have "f \<in> set (map fst before @ map fst after)" if "\<not> py_eq (py_get before f) (py_get after f)" for f
  proof (rule ccontr)
    assume "f \<notin> set (map fst before @ map fst after)"
    then have "dict_get before f = None" "dict_get after f = None"
      using dict_keys_get[of f before] dict_keys_get[of f after] by auto
    with that show False by (simp add: py_get_conv)
  qed
  then show ?thesis by (auto simp: changed_fields_def)
qed

lemma option_rel_Some_cases:
  "rel_option R x y \<longleftrightarrow> (x = None \<longleftrightarrow> y = None) \<and> (\<forall>p q. x = Some p \<longrightarrow> y = Some q \<longrightarrow> R p q)"
  by (cases x; cases y) auto

lemma only_in_first:
  defines "l a b \<equiv> map (py_get a) (sorted_set (filter (\<lambda>k. dict_get b k = None) (map fst a)))"
  shows "set (l a b) = {p. \<exists>k. dict_get a k = Some p \<and> dict_get b k = None}"
    and "l a b = [] \<longleftrightarrow> (\<forall>k. dict_get b k = None \<longrightarrow> dict_get a k = None)"
proof -
  have m: "p = py_get a k \<and> k \<in> set (map fst a) \<longleftrightarrow> dict_get a k = Some p" if "dict_get a k \<noteq> None \<or> k \<in> set (map fst a)" for p k
    using that dict_keys_get[of k a] by (auto simp: py_get_conv)
  have "set (l a b) = {p. \<exists>k. (p = py_get a k \<and> k \<in> set (map fst a)) \<and> dict_get b k = None}"
    by (auto simp: l_def)
  also have "\<dots> = {p. \<exists>k. dict_get a k = Some p \<and> dict_get b k = None}"
    using m by blast
  finally show "set (l a b) = {p. \<exists>k. dict_get a k = Some p \<and> dict_get b k = None}" .
  then have "l a b = [] \<longleftrightarrow> {p. \<exists>k. dict_get a k = Some p \<and> dict_get b k = None} = {}"
    by (simp only: set_empty[symmetric])
  also have "\<dots> \<longleftrightarrow> (\<forall>k. \<forall>p. dict_get a k = Some p \<longrightarrow> dict_get b k \<noteq> None)" by auto
  also have "\<dots> \<longleftrightarrow> (\<forall>k. dict_get b k = None \<longrightarrow> dict_get a k = None)"
    by (rule arg_cong[where f = All], rule ext, rename_tac k, case_tac "dict_get a k") auto
  finally show "l a b = [] \<longleftrightarrow> (\<forall>k. dict_get b k = None \<longrightarrow> dict_get a k = None)" .
qed

lemma in_both_changed:
  fixes a b :: dict
  defines "l \<equiv> map (\<lambda>k. (k, changed_fields (jobj (py_get b k)) (jobj (py_get a k))))
      (filter (\<lambda>k. \<not> py_eq (py_get b k) (py_get a k)) (sorted_set (filter (\<lambda>k. dict_get b k \<noteq> None) (map fst a))))"
  shows "set l = {(k, fs). \<exists>p q. dict_get b k = Some p \<and> dict_get a k = Some q \<and> \<not> py_eq p q \<and>
      fs = changed_fields (jobj p) (jobj q)}"
proof -
  have "set l = {(k, fs). k \<in> set (map fst a) \<and> dict_get b k \<noteq> None \<and> \<not> py_eq (py_get b k) (py_get a k) \<and>
      fs = changed_fields (jobj (py_get b k)) (jobj (py_get a k))}"
    by (auto simp: l_def)
  also have "\<dots> = {(k, fs). \<exists>p q. dict_get b k = Some p \<and> dict_get a k = Some q \<and> \<not> py_eq p q \<and>
      fs = changed_fields (jobj p) (jobj q)}"
    unfolding dict_keys_get by (auto simp: py_get_conv)
  finally show ?thesis .
qed

text \<open>
  The difference between two bundles is exact: a policy is listed as added (removed) exactly when its id
  occurs only in the new (old) bundle, and as changed exactly when it occurs in both with different
  content, with precisely the fields whose values differ; so nothing is listed exactly when both bundles
  hold the same policies.
\<close>

theorem bundle_diff_exact:
  fixes cur old :: policy_bundle
  defines "d \<equiv> compare_policy_bundles cur (Some old)"
    and "new \<equiv> dict_get (policies_by_id cur)" and "prev \<equiv> dict_get (policies_by_id old)"
  shows "set (diff_added d) = {p. \<exists>k. new k = Some p \<and> prev k = None} \<and>
    set (diff_removed d) = {p. \<exists>k. prev k = Some p \<and> new k = None} \<and>
    set (map fst (diff_changed d)) = {k. \<exists>p q. prev k = Some p \<and> new k = Some q \<and> \<not> py_eq p q} \<and>
    (\<forall>(k, fields) \<in> set (diff_changed d). \<exists>p q. prev k = Some p \<and> new k = Some q \<and>
       set fields = {(f, x, y). x = py_get (jobj p) f \<and> y = py_get (jobj q) f \<and> \<not> py_eq x y}) \<and>
    ((diff_added d = [] \<and> diff_removed d = [] \<and> diff_changed d = []) =
       (\<forall>k. rel_option py_eq (prev k) (new k)))"
proof -
  let ?a = "policies_by_id cur" and ?b = "policies_by_id old"
  have d: "diff_added d = map (py_get ?a) (sorted_set (filter (\<lambda>k. dict_get ?b k = None) (map fst ?a)))"
    "diff_removed d = map (py_get ?b) (sorted_set (filter (\<lambda>k. dict_get ?a k = None) (map fst ?b)))"
    by (simp_all add: d_def compare_policy_bundles_def Let_def)
  have add: "set (diff_added d) = {p. \<exists>k. new k = Some p \<and> prev k = None}"
    and a0: "diff_added d = [] \<longleftrightarrow> (\<forall>k. prev k = None \<longrightarrow> new k = None)"
    unfolding d new_def prev_def by (rule only_in_first)+
  have rem: "set (diff_removed d) = {p. \<exists>k. prev k = Some p \<and> new k = None}"
    and r0: "diff_removed d = [] \<longleftrightarrow> (\<forall>k. new k = None \<longrightarrow> prev k = None)"
    unfolding d new_def prev_def by (rule only_in_first)+
  have ch: "set (diff_changed d) = {(k, fs). \<exists>p q. prev k = Some p \<and> new k = Some q \<and> \<not> py_eq p q \<and>
      fs = changed_fields (jobj p) (jobj q)}"
    using in_both_changed[of ?b ?a] by (simp add: d_def new_def prev_def compare_policy_bundles_def Let_def)
  have "diff_changed d = [] \<longleftrightarrow> (\<forall>k p q. prev k = Some p \<longrightarrow> new k = Some q \<longrightarrow> py_eq p q)"
    unfolding set_empty[symmetric] ch by auto
  then have e: "(diff_added d = [] \<and> diff_removed d = [] \<and> diff_changed d = []) = (\<forall>k. rel_option py_eq (prev k) (new k))"
    by (simp add: a0 r0 option_rel_Some_cases) blast
  have keys: "set (map fst (diff_changed d)) = {k. \<exists>p q. prev k = Some p \<and> new k = Some q \<and> \<not> py_eq p q}"
    unfolding set_map ch by force
  have fields: "\<forall>(k, fields) \<in> set (diff_changed d). \<exists>p q. prev k = Some p \<and> new k = Some q \<and>
       set fields = {(f, x, y). x = py_get (jobj p) f \<and> y = py_get (jobj q) f \<and> \<not> py_eq x y}"
    unfolding ch using changed_fields_spec by fastforce
  show ?thesis using add rem keys fields e by blast
qed


theorem bundle_diff_exact_witness:
  "diff_added (compare_policy_bundles
     (new_bundle base_env ''b2'' empty_db sample_owner (small_bundle\<lparr>bc_policies := [[(''id'', JStr ''p1'')], [(''id'', JStr ''p2'')]]\<rparr>))
     (Some (new_bundle base_env ''b1'' empty_db sample_owner (small_bundle\<lparr>bc_policies := [[(''id'', JStr ''p1'')]]\<rparr>)))) \<noteq> []"
proof -
  let ?cur = "new_bundle base_env ''b2'' empty_db sample_owner (small_bundle\<lparr>bc_policies := [[(''id'', JStr ''p1'')], [(''id'', JStr ''p2'')]]\<rparr>)"
  let ?old = "new_bundle base_env ''b1'' empty_db sample_owner (small_bundle\<lparr>bc_policies := [[(''id'', JStr ''p1'')]]\<rparr>)"
  have "dict_get (policies_by_id ?cur) ''p2'' = Some (JObj [(''id'', JStr ''p2'')])" "dict_get (policies_by_id ?old) ''p2'' = None"
    by code_simp+
  with bundle_diff_exact[of ?cur ?old] show ?thesis by force
qed

end
