(* ===== verification/RuntimePolicy.thy ===== *)
theory RuntimePolicy
  imports PolicyBundles
begin

text \<open>
  The policy decision of \<open>app/services/runtime_authorization.py\<close>: what \<open>evaluate_policy_only\<close>
  answers to an AuthZEN request (\<open>app/schemas.py\<close>), with the lookups it memoises during a batch. A
  registered agent on a registered asset is decided by the asset evaluation of \<open>policy.py\<close>; every
  other request by the tenant's policies over a context built from the request. The lemmas show that
  what is not registered or approved is denied, that the result is well formed, and that the memoised
  lookups change no answer.
\<close>

section \<open>Python's text of a value\<close>

text \<open>\<open>str\<close> and \<open>repr\<close> of a parsed document, for strings of code points below 256.\<close>

definition repr_char :: "char \<Rightarrow> char \<Rightarrow> string" where
  "repr_char q c =
     (let n = (of_char c :: nat) in
      if c = q \<or> n = 92 then [CHR 0x5C, c]
      else if n = 10 then [CHR 0x5C, CHR ''n'']
      else if n = 13 then [CHR 0x5C, CHR ''r'']
      else if n = 9 then [CHR 0x5C, CHR ''t'']
      else if n < 32 \<or> 127 \<le> n \<and> n \<le> 160 \<or> n = 173
      then [CHR 0x5C, CHR ''x'', hex_digit (n div 16), hex_digit (n mod 16)]
      else [c])"

definition repr_string :: "string \<Rightarrow> string" where
  "repr_string s =
     (let q = (if CHR 0x27 \<in> set s \<and> CHR 0x22 \<notin> set s then CHR 0x22 else CHR 0x27)
      in [q] @ concat (map (repr_char q) s) @ [q])"

fun py_repr :: "(rat \<Rightarrow> string) \<Rightarrow> json \<Rightarrow> string" where
  "py_repr frepr JNull = ''None''"
| "py_repr frepr (JBool b) = (if b then ''True'' else ''False'')"
| "py_repr frepr (JInt n) = show_int n"
| "py_repr frepr (JFloat r) = frepr r"
| "py_repr frepr (JStr s) = repr_string s"
| "py_repr frepr (JList xs) = ''['' @ join '', '' (map (py_repr frepr) xs) @ '']''"
| "py_repr frepr (JObj d) =
     ''{'' @ join '', '' (map (\<lambda>(k, v). repr_string k @ '': '' @ py_repr frepr v) d) @ ''}''"

definition py_str :: "(rat \<Rightarrow> string) \<Rightarrow> json \<Rightarrow> string" where
  "py_str frepr v = (case v of JStr s \<Rightarrow> s | _ \<Rightarrow> py_repr frepr v)"

text \<open>
  \<open>int(s)\<close>: outer blanks, a sign, digits with single underscores between them, at most 4300 digits.
\<close>

definition py_int_of_string :: "string \<Rightarrow> int option" where
  "py_int_of_string s =
     (let t = py_strip s;
          (neg, u) = (case t of [] \<Rightarrow> (False, []) | c # cs \<Rightarrow>
             if c = CHR ''-'' then (True, cs) else if c = CHR ''+'' then (False, cs) else (False, t));
          groups = py_split CHR ''_'' u;
          digits = concat groups
      in if list_all (\<lambda>g. g \<noteq> [] \<and> list_all is_ascii_digit g) groups \<and> length digits \<le> 4300
         then Some (if neg then - int (digits_value 0 digits) else int (digits_value 0 digits))
         else None)"

section \<open>Requests\<close>

record authz_request =
  rq_subject_type :: string
  rq_subject_id :: string
  rq_subject_properties :: dict
  rq_resource_type :: string
  rq_resource_id :: string
  rq_resource_properties :: dict
  rq_action_name :: string
  rq_action_properties :: dict
  rq_context :: dict

definition subject_payload :: "authz_request \<Rightarrow> dict" where
  "subject_payload r = [(''type'', JStr (rq_subject_type r)), (''id'', JStr (rq_subject_id r)),
     (''properties'', JObj (rq_subject_properties r))]"

definition resource_payload :: "authz_request \<Rightarrow> dict" where
  "resource_payload r = [(''type'', JStr (rq_resource_type r)), (''id'', JStr (rq_resource_id r)),
     (''properties'', JObj (rq_resource_properties r))]"

definition action_payload :: "authz_request \<Rightarrow> dict" where
  "action_payload r = [(''name'', JStr (rq_action_name r)), (''properties'', JObj (rq_action_properties r))]"

text \<open>\<open>request.model_dump()\<close>.\<close>

definition request_payload :: "authz_request \<Rightarrow> json" where
  "request_payload r = JObj
     [(''subject'', JObj (subject_payload r)), (''resource'', JObj (resource_payload r)),
      (''action'', JObj (action_payload r)), (''context'', JObj (rq_context r))]"

definition request_ok :: "env \<Rightarrow> authz_request \<Rightarrow> bool" where
  "request_ok env r =
     (field_length 1 80 (rq_subject_type r) \<and> field_length 1 320 (rq_subject_id r) \<and>
      field_length 1 80 (rq_resource_type r) \<and> field_length 1 1024 (rq_resource_id r) \<and>
      field_length 1 160 (rq_action_name r) \<and>
      int (length (json_dumps (env_frepr env) '','' '':'' (request_payload r))) \<le> 65536)"

section \<open>Lookups\<close>

definition AI_RESOURCE_TYPES :: "string list" where
  "AI_RESOURCE_TYPES = [''model'', ''prompt'', ''vector-index'', ''tool'', ''endpoint'', ''ai-system'']"

definition is_agent_type :: "string \<Rightarrow> bool" where
  "is_agent_type t = (t \<in> {''agent'', ''ai_agent''})"

definition is_asset_type :: "string \<Rightarrow> bool" where
  "is_asset_type t = (t \<in> {''asset'', ''data_asset''})"

text \<open>The memo of one batch, or \<open>None\<close> outside a batch: one dictionary, its keys tagged by what is looked up.\<close>

record lookups =
  lk_agents :: "string \<times> string \<rightharpoonup> ai_agent option"
  lk_assets :: "string \<times> string \<rightharpoonup> data_asset option"
  lk_resources :: "string \<times> string \<times> string \<rightharpoonup> ai_resource option"

definition no_lookups :: lookups where
  "no_lookups = \<lparr>lk_agents = Map.empty, lk_assets = Map.empty, lk_resources = Map.empty\<rparr>"

definition find_agent :: "db \<Rightarrow> string \<Rightarrow> string \<Rightarrow> ai_agent option" where
  "find_agent db tenant_id sid = scalar (\<lambda>a. agent_tenant_id a = tenant_id \<and> agent_key a = sid) (db_agents db)"

definition find_asset :: "db \<Rightarrow> string \<Rightarrow> string \<Rightarrow> data_asset option" where
  "find_asset db tenant_id rid =
     scalar (\<lambda>a. asset_tenant_id a = tenant_id \<and>
        (asset_external_id a = rid \<or> py_int_of_string rid = Some (int (asset_id a)))) (db_assets db)"

definition find_ai_resource :: "db \<Rightarrow> string \<Rightarrow> string \<Rightarrow> string \<Rightarrow> ai_resource option" where
  "find_ai_resource db tenant_id ty rid =
     scalar (\<lambda>r. res_tenant_id r = tenant_id \<and> res_resource_key r = rid \<and> res_resource_type r = ty) (db_resources db)"

definition lookup_agent ::
  "db \<Rightarrow> string \<Rightarrow> string \<Rightarrow> string \<Rightarrow> lookups option \<Rightarrow> ai_agent option \<times> lookups option" where
  "lookup_agent db tenant_id ty sid memo =
     (if \<not> is_agent_type ty then (None, memo)
      else case memo of
        None \<Rightarrow> (find_agent db tenant_id sid, None)
      | Some lk \<Rightarrow>
          (case lk_agents lk (tenant_id, sid) of
             Some r \<Rightarrow> (r, memo)
           | None \<Rightarrow>
               let r = find_agent db tenant_id sid
               in (r, Some (lk\<lparr>lk_agents := (lk_agents lk)((tenant_id, sid) \<mapsto> r)\<rparr>))))"

definition lookup_asset ::
  "db \<Rightarrow> string \<Rightarrow> string \<Rightarrow> string \<Rightarrow> lookups option \<Rightarrow> data_asset option \<times> lookups option" where
  "lookup_asset db tenant_id ty rid memo =
     (if \<not> is_asset_type ty then (None, memo)
      else case memo of
        None \<Rightarrow> (find_asset db tenant_id rid, None)
      | Some lk \<Rightarrow>
          (case lk_assets lk (tenant_id, rid) of
             Some r \<Rightarrow> (r, memo)
           | None \<Rightarrow>
               let r = find_asset db tenant_id rid
               in (r, Some (lk\<lparr>lk_assets := (lk_assets lk)((tenant_id, rid) \<mapsto> r)\<rparr>))))"

definition lookup_ai_resource ::
  "db \<Rightarrow> string \<Rightarrow> string \<Rightarrow> string \<Rightarrow> lookups option \<Rightarrow> ai_resource option \<times> lookups option" where
  "lookup_ai_resource db tenant_id ty rid memo =
     (if ty \<notin> set AI_RESOURCE_TYPES then (None, memo)
      else case memo of
        None \<Rightarrow> (find_ai_resource db tenant_id ty rid, None)
      | Some lk \<Rightarrow>
          (case lk_resources lk (tenant_id, ty, rid) of
             Some r \<Rightarrow> (r, memo)
           | None \<Rightarrow>
               let r = find_ai_resource db tenant_id ty rid
               in (r, Some (lk\<lparr>lk_resources := (lk_resources lk)((tenant_id, ty, rid) \<mapsto> r)\<rparr>))))"

section \<open>The context\<close>

definition put_all :: "dict \<Rightarrow> dict \<Rightarrow> dict" where
  "put_all source ctx = fold (\<lambda>(k, v) c. if length k \<le> 160 then dict_set k v c else c) source ctx"

definition base_context :: "authz_request \<Rightarrow> dict" where
  "base_context r =
     [(''subject_type'', JStr (rq_subject_type r)), (''subject_id'', JStr (rq_subject_id r)),
      (''resource_type'', JStr (rq_resource_type r)), (''resource_id'', JStr (rq_resource_id r)),
      (''action'', JStr (rq_action_name r))]"

definition policy_context :: "(rat \<Rightarrow> string) \<Rightarrow> authz_request \<Rightarrow> ai_agent option \<Rightarrow> data_asset option \<Rightarrow> dict" where
  "policy_context frepr r agent asset =
     (let c1 = put_all (rq_context r) (put_all (rq_action_properties r)
                 (put_all (rq_resource_properties r) (put_all (rq_subject_properties r) (base_context r))));
          c2 = (case agent of None \<Rightarrow> c1 | Some a \<Rightarrow> dict_set ''agent_status'' (JStr (py_lower (agent_approval_status a))) c1);
          c3 = (case asset of None \<Rightarrow> c2 | Some a \<Rightarrow> dict_set ''sensitivity'' (JStr (asset_sensitivity a)) c2);
          destination = py_str frepr (py_get_default c3 ''destination'' (JStr []))
      in if destination \<noteq> [] \<and> dict_get c3 ''destination_type'' = None
         then dict_set ''destination_type''
           (JStr (if destination \<in> {''internal-rag'', ''private-model'', ''bedrock-private''}
                  then ''approved_private_ai'' else ''public_ai'')) c3
         else c3)"

section \<open>The decision\<close>

definition denial :: "string \<Rightarrow> int \<Rightarrow> evaluation" where
  "denial reason risk_score =
     \<lparr>ev_decision = Deny, ev_risk_score = risk_score, ev_reasons = [JStr reason],
      ev_controls = [''audit-log'', ''deny-by-default'', ''tenant-context''], ev_confidence = 1,
      ev_policy_version = POLICY_VERSION, ev_expires_in_seconds = 60, ev_matched_policies = []\<rparr>"

text \<open>Decision, risk, reasons and controls while the function builds them.\<close>

type_synonym draft = "decision \<times> int \<times> json list \<times> string list"

definition policy_draft :: "policy_match list \<Rightarrow> draft" where
  "policy_draft ms =
     (first_decision ms, policy_risk 20 ms, map pm_reason ms, base_controls @ concat (map pm_controls ms))"

definition agent_check :: "ai_agent option \<Rightarrow> draft \<Rightarrow> draft" where
  "agent_check agent d =
     (case d of (decision, risk, reasons, controls) \<Rightarrow>
        case agent of
          None \<Rightarrow> d
        | Some a \<Rightarrow>
            if agent_approval_status a \<noteq> ''Approved''
            then (Deny, max risk 90, reasons @ [JStr ''AI agent is not approved for production access''],
                  controls @ [''complete-agent-security-review''])
            else d)"

definition resource_check :: "string \<Rightarrow> ai_resource option \<Rightarrow> draft \<Rightarrow> draft" where
  "resource_check ty res d =
     (case d of (decision, risk, reasons, controls) \<Rightarrow>
        if ty \<in> set AI_RESOURCE_TYPES \<and> res = None
        then (Deny, 100, reasons @ [JStr ''AI resource is not registered in this tenant''],
              controls @ [''register-ai-resource''])
        else case res of
          None \<Rightarrow> d
        | Some r \<Rightarrow>
            if res_status r \<noteq> ResApproved
            then (Deny, max risk 90, reasons @ [JStr ''AI resource is not approved for runtime use''],
                  controls @ [''complete-ai-resource-review''])
            else d)"

definition finish_runtime :: "draft \<Rightarrow> string \<Rightarrow> policy_match list \<Rightarrow> evaluation result" where
  "finish_runtime d version ms =
     (case d of (decision, risk, reasons, controls) \<Rightarrow>
        rbind (dict_fromkeys
                (if reasons = [] then [JStr ''Subject, action, resource, and runtime context are within policy'']
                 else reasons)) (\<lambda>rs.
        Inr \<lparr>ev_decision = decision, ev_risk_score = min 100 risk, ev_reasons = rs, ev_controls = sorted_set controls,
             ev_confidence = 1, ev_policy_version = version, ev_expires_in_seconds = 300,
             ev_matched_policies = map pm_policy_id ms\<rparr>))"

definition evaluate_policy_only ::
  "env \<Rightarrow> db \<Rightarrow> policy_cache \<Rightarrow> lookups option \<Rightarrow> string \<Rightarrow> authz_request \<Rightarrow> json option \<Rightarrow> string option \<Rightarrow>
     (evaluation \<times> policy_cache \<times> lookups option) result" where
  "evaluate_policy_only env db cache memo tenant_id r definitions version_override =
     (let (agent, memo1) = lookup_agent db tenant_id (rq_subject_type r) (rq_subject_id r) memo;
          (asset, memo2) = lookup_asset db tenant_id (rq_resource_type r) (rq_resource_id r) memo1
      in if is_agent_type (rq_subject_type r) \<and> agent = None
         then Inr (denial ''AI agent is not registered in this tenant'' 100, cache, memo2)
         else if is_asset_type (rq_resource_type r) \<and> asset = None
         then Inr (denial ''Data asset is not registered in this tenant'' 100, cache, memo2)
         else case (agent, asset) of
           (Some ag, Some ast) \<Rightarrow>
             rbind (evaluate env (Some db) cache ag ast
                     (py_str (env_frepr env) (py_get_default (rq_context r) ''destination'' (JStr ''internal-rag'')))
                     (rq_action_name r)
                     (py_str (env_frepr env) (py_get_default (rq_context r) ''purpose'' (JStr ''runtime-access'')))
                     tenant_id definitions version_override) (\<lambda>(ev, cache').
             Inr (ev, cache', memo2))
         | _ \<Rightarrow>
             rbind (select_matches env (Some db) cache (policy_context (env_frepr env) r agent asset) tenant_id
                     definitions version_override) (\<lambda>((ms, version), cache').
             let (res, memo3) = lookup_ai_resource db tenant_id (rq_resource_type r) (rq_resource_id r) memo2
             in rbind (finish_runtime
                         (resource_check (rq_resource_type r) res (agent_check agent (policy_draft ms))) version ms) (\<lambda>ev.
                Inr (ev, cache', memo3))))"


section \<open>Facts\<close>

definition memo_ok :: "db \<Rightarrow> lookups option \<Rightarrow> bool" where
  "memo_ok db memo \<longleftrightarrow> (case memo of None \<Rightarrow> True | Some lk \<Rightarrow>
     (\<forall>t k r. lk_agents lk (t, k) = Some r \<longrightarrow> r = find_agent db t k) \<and>
     (\<forall>t k r. lk_assets lk (t, k) = Some r \<longrightarrow> r = find_asset db t k) \<and>
     (\<forall>t ty k r. lk_resources lk (t, ty, k) = Some r \<longrightarrow> r = find_ai_resource db t ty k))"

lemma memo_ok_start [simp]: "memo_ok db (Some no_lookups)" "memo_ok db None"
  by (simp_all add: memo_ok_def no_lookups_def)

lemma lookup_agent_memo:
  "memo_ok db memo \<Longrightarrow> fst (lookup_agent db t ty k memo) = fst (lookup_agent db t ty k None) \<and>
     memo_ok db (snd (lookup_agent db t ty k memo)) \<and> (snd (lookup_agent db t ty k memo) = None) = (memo = None)"
  by (auto simp: lookup_agent_def memo_ok_def Let_def split: option.splits)

lemma lookup_asset_memo:
  "memo_ok db memo \<Longrightarrow> fst (lookup_asset db t ty k memo) = fst (lookup_asset db t ty k None) \<and>
     memo_ok db (snd (lookup_asset db t ty k memo)) \<and> (snd (lookup_asset db t ty k memo) = None) = (memo = None)"
  by (auto simp: lookup_asset_def memo_ok_def Let_def split: option.splits)

lemma lookup_ai_resource_memo:
  "memo_ok db memo \<Longrightarrow> fst (lookup_ai_resource db t ty k memo) = fst (lookup_ai_resource db t ty k None) \<and>
     memo_ok db (snd (lookup_ai_resource db t ty k memo)) \<and> (snd (lookup_ai_resource db t ty k memo) = None) = (memo = None)"
  by (auto simp: lookup_ai_resource_def memo_ok_def Let_def split: option.splits)

lemma lookup_fresh:
  "fst (lookup_agent db t ty k None) = (if is_agent_type ty then find_agent db t k else None)"
  "fst (lookup_asset db t ty k None) = (if is_asset_type ty then find_asset db t k else None)"
  "fst (lookup_ai_resource db t ty k None) = (if ty \<in> set AI_RESOURCE_TYPES then find_ai_resource db t ty k else None)"
  by (simp_all add: lookup_agent_def lookup_asset_def lookup_ai_resource_def)

lemma agent_of_other_type: "\<not> is_agent_type ty \<Longrightarrow> fst (lookup_agent db t ty k memo) = None"
  by (simp add: lookup_agent_def)

text \<open>The four ways an evaluation can go, with the lookups done.\<close>

lemma evaluate_policy_only_cases:
  assumes "memo_ok db memo"
    and "evaluate_policy_only env db cache memo t r defs vo = Inr (ev, cache', memo')"
  defines "agent \<equiv> fst (lookup_agent db t (rq_subject_type r) (rq_subject_id r) None)"
    and "asset \<equiv> fst (lookup_asset db t (rq_resource_type r) (rq_resource_id r) None)"
    and "res \<equiv> fst (lookup_ai_resource db t (rq_resource_type r) (rq_resource_id r) None)"
  obtains
    (NoAgent) "is_agent_type (rq_subject_type r)" "agent = None"
      "ev = denial ''AI agent is not registered in this tenant'' 100"
  | (NoAsset) "is_asset_type (rq_resource_type r)" "asset = None"
      "ev = denial ''Data asset is not registered in this tenant'' 100"
  | (Asset) ag ast dst pur where "agent = Some ag" "asset = Some ast"
      "evaluate env (Some db) cache ag ast dst (rq_action_name r) pur t defs vo = Inr (ev, cache')"
  | (Runtime) ms version where "agent = None \<or> asset = None"
      "is_agent_type (rq_subject_type r) \<longrightarrow> agent \<noteq> None" "is_asset_type (rq_resource_type r) \<longrightarrow> asset \<noteq> None"
      "select_matches env (Some db) cache (policy_context (env_frepr env) r agent asset) t defs vo =
         Inr ((ms, version), cache')"
      "finish_runtime (resource_check (rq_resource_type r) res (agent_check agent (policy_draft ms))) version ms = Inr ev"
proof -
  obtain memo1 where a: "lookup_agent db t (rq_subject_type r) (rq_subject_id r) memo = (agent, memo1)" and m1: "memo_ok db memo1"
    using lookup_agent_memo[OF assms(1)] unfolding agent_def by (metis prod.collapse)
  obtain memo2 where b: "lookup_asset db t (rq_resource_type r) (rq_resource_id r) memo1 = (asset, memo2)" and m2: "memo_ok db memo2"
    using lookup_asset_memo[OF m1] unfolding asset_def by (metis prod.collapse)
  obtain memo3 where c: "lookup_ai_resource db t (rq_resource_type r) (rq_resource_id r) memo2 = (res, memo3)"
    using lookup_ai_resource_memo[OF m2] unfolding res_def by (metis prod.collapse)
  from assms(2) show thesis
    by (auto simp: evaluate_policy_only_def a b c Let_def result_simps NoAgent NoAsset
             split: if_splits option.splits intro: Asset Runtime)
qed


text \<open>A memo that holds what the database holds is never noticed.\<close>

lemma evaluate_policy_only_memo:
  assumes "memo_ok db memo"
  shows "rel_sum (=) (\<lambda>(ev, c, m) (ev', c', m'). ev' = ev \<and> c' = c \<and> m' = None \<and> memo_ok db m \<and> (m = None) = (memo = None))
    (evaluate_policy_only env db cache memo t r defs vo) (evaluate_policy_only env db cache None t r defs vo)"
proof -
  define agent where "agent = fst (lookup_agent db t (rq_subject_type r) (rq_subject_id r) None)"
  define asset where "asset = fst (lookup_asset db t (rq_resource_type r) (rq_resource_id r) None)"
  define res where "res = fst (lookup_ai_resource db t (rq_resource_type r) (rq_resource_id r) None)"
  have n: "lookup_agent db t (rq_subject_type r) (rq_subject_id r) None = (agent, None)"
    "lookup_asset db t (rq_resource_type r) (rq_resource_id r) None = (asset, None)"
    "lookup_ai_resource db t (rq_resource_type r) (rq_resource_id r) None = (res, None)"
    using lookup_agent_memo[of db None] lookup_asset_memo[of db None] lookup_ai_resource_memo[of db None]
    unfolding agent_def asset_def res_def by (simp_all add: prod_eq_iff)
  obtain memo1 where a: "lookup_agent db t (rq_subject_type r) (rq_subject_id r) memo = (agent, memo1)"
    and m1: "memo_ok db memo1" "(memo1 = None) = (memo = None)"
    using lookup_agent_memo[OF assms] unfolding agent_def by (metis prod.collapse)
  obtain memo2 where b: "lookup_asset db t (rq_resource_type r) (rq_resource_id r) memo1 = (asset, memo2)"
    and m2: "memo_ok db memo2" "(memo2 = None) = (memo1 = None)"
    using lookup_asset_memo[OF m1(1)] unfolding asset_def by (metis prod.collapse)
  obtain memo3 where c: "lookup_ai_resource db t (rq_resource_type r) (rq_resource_id r) memo2 = (res, memo3)"
    and m3: "memo_ok db memo3" "(memo3 = None) = (memo2 = None)"
    using lookup_ai_resource_memo[OF m2(1)] unfolding res_def by (metis prod.collapse)
  show ?thesis
    using m1 m2 m3
    by (auto simp: evaluate_policy_only_def a b c n Let_def rbind_def split: option.split sum.split)
qed

lemma finish_runtime_Inr:
  assumes "finish_runtime d version ms = Inr ev"
  obtains decision risk reasons controls where "d = (decision, risk, reasons, controls)"
    "ev_decision ev = decision" "ev_risk_score ev = min 100 risk" "ev_controls ev = sorted_set controls"
    "ev_reasons ev \<noteq> []" "ev_confidence ev = 1" "ev_expires_in_seconds ev = 300" "ev_policy_version ev = version"
    "ev_matched_policies ev = map pm_policy_id ms"
  using assms
  by (cases d) (auto simp: finish_runtime_def result_simps dict_fromkeys_def py_in_def split: if_splits)

definition evaluation_wf :: "evaluation \<Rightarrow> bool" where
  "evaluation_wf ev \<longleftrightarrow> 20 \<le> ev_risk_score ev \<and> ev_risk_score ev \<le> 100 \<and> ev_reasons ev \<noteq> [] \<and>
     sorted (ev_controls ev) \<and> distinct (ev_controls ev) \<and> {''audit-log'', ''tenant-context''} \<subseteq> set (ev_controls ev) \<and>
     60/100 \<le> ev_confidence ev \<and> ev_confidence ev \<le> 1 \<and> ev_expires_in_seconds ev \<in> {60, 300}"

lemma denial_wf: "evaluation_wf (denial reason 100)"
  unfolding evaluation_wf_def denial_def by (simp add: less_list_code)

lemma draft_wf:
  assumes "d = resource_check ty res (agent_check agent (policy_draft ms))"
  shows "20 \<le> fst (snd d) \<and> set base_controls \<subseteq> set (snd (snd (snd d)))"
  using policy_risk_ge[of 20 ms] unfolding assms
  by (auto simp: resource_check_def agent_check_def policy_draft_def split: option.split prod.split)

definition sample_request :: "string \<Rightarrow> string \<Rightarrow> authz_request" where
  "sample_request subject_type resource_type =
     \<lparr>rq_subject_type = subject_type, rq_subject_id = ''finance-forecast-agent'', rq_subject_properties = [],
      rq_resource_type = resource_type, rq_resource_id = ''1'', rq_resource_properties = [],
      rq_action_name = ''read'', rq_action_properties = [], rq_context = [(''destination'', JStr ''chat'')]\<rparr>"

text \<open>
  C39: whatever the request, the policies and the memo of the batch, an evaluation that returns is well
  formed: risk from 20 to 100, at least one reason, a sorted duplicate-free list of controls with the audit
  log and the tenant context, a confidence from 0.60 to 1 and a lifetime of 60 or 300 seconds; and it
  leaves a memo that still holds what the database holds.
\<close>

theorem runtime_evaluation_typed:
  assumes "memo_ok db memo"
    and "evaluate_policy_only env db cache memo t r defs vo = Inr (ev, cache', memo')"
  shows "evaluation_wf ev \<and> memo_ok db memo'"
proof
  show "memo_ok db memo'"
    using evaluate_policy_only_memo[OF assms(1), of env cache t r defs vo] unfolding assms(2)
    by (auto elim: rel_sum.cases)
  from assms show "evaluation_wf ev"
  proof (cases rule: evaluate_policy_only_cases)
    case (Asset ag ast dst pur)
    from evaluate_wf[OF Asset(3)] show ?thesis
      by (auto simp: evaluation_wf_def base_controls_def)
  next
    case (Runtime ms version)
    from Runtime(5) obtain decision risk reasons controls where
      d: "resource_check (rq_resource_type r) (fst (lookup_ai_resource db t (rq_resource_type r) (rq_resource_id r) None))
            (agent_check (fst (lookup_agent db t (rq_subject_type r) (rq_subject_id r) None)) (policy_draft ms))
          = (decision, risk, reasons, controls)"
      and ev: "ev_risk_score ev = min 100 risk" "ev_controls ev = sorted_set controls" "ev_reasons ev \<noteq> []"
        "ev_confidence ev = 1" "ev_expires_in_seconds ev = 300"
      by (rule finish_runtime_Inr)
    from draft_wf[OF d[symmetric]] have "20 \<le> risk" "set base_controls \<subseteq> set controls" by simp_all
    then show ?thesis
      using sorted_set_sorted[of controls] by (simp add: evaluation_wf_def ev base_controls_def)
  qed (simp_all add: denial_wf)
qed


text \<open>
  C4: the decision fails closed: a request about an unregistered agent or data asset is denied, and one
  about an AI resource that is not registered or not approved is denied with a risk of at least 90. One of
  an agent that is not approved is denied too, unless it concerns a data asset and an active, unexpired
  exception of the tenant covers that agent, that asset and that action: then the decision is the one the
  exception grants.
\<close>

theorem runtime_fails_closed:
  assumes "memo_ok db memo"
    and "evaluate_policy_only env db cache memo t r defs vo = Inr (ev, cache', memo')"
  shows "(is_agent_type (rq_subject_type r) \<and> find_agent db t (rq_subject_id r) = None \<longrightarrow> ev_decision ev = Deny) \<and>
    (is_asset_type (rq_resource_type r) \<and> find_asset db t (rq_resource_id r) = None \<longrightarrow> ev_decision ev = Deny) \<and>
    (rq_resource_type r \<in> set AI_RESOURCE_TYPES \<and>
       (\<forall>x. find_ai_resource db t (rq_resource_type r) (rq_resource_id r) = Some x \<longrightarrow> res_status x \<noteq> ResApproved) \<longrightarrow>
       ev_decision ev = Deny \<and> 90 \<le> ev_risk_score ev) \<and>
    (\<forall>ag. is_agent_type (rq_subject_type r) \<and> find_agent db t (rq_subject_id r) = Some ag \<and>
       agent_approval_status ag \<noteq> ''Approved'' \<longrightarrow>
       ev_decision ev = Deny \<or>
       is_asset_type (rq_resource_type r) \<and>
       (\<exists>ast. find_asset db t (rq_resource_id r) = Some ast \<and>
         (\<exists>e \<in> set (db_exceptions db). exn_tenant_id e = t \<and> exn_active e \<and> env_now env < exn_expires_at e \<and>
            scope_ok (exn_agent_key e) (agent_key ag) \<and> scope_ok (exn_asset_id e) (asset_id ast) \<and>
            scope_ok (exn_action e) (rq_action_name r) \<and> ev_decision ev = exn_override_decision e)))"
proof -
  have dis: "\<not> (is_asset_type ty \<and> ty \<in> set AI_RESOURCE_TYPES)" for ty
    by (auto simp: is_asset_type_def AI_RESOURCE_TYPES_def)
  from assms show ?thesis
  proof (cases rule: evaluate_policy_only_cases)
    case NoAgent
    then show ?thesis by (simp add: denial_def)
  next
    case NoAsset
    then show ?thesis by (simp add: denial_def)
  next
    case (Asset ag ast dst pur)
    from Asset(1,2) have ty: "is_asset_type (rq_resource_type r)" "is_agent_type (rq_subject_type r)"
      "find_agent db t (rq_subject_id r) = Some ag" "find_asset db t (rq_resource_id r) = Some ast"
      by (simp_all add: lookup_fresh split: if_splits)
    obtain ms version where fin: "finish_evaluation (env_now env) (Some db) t ag ast dst (rq_action_name r) pur ms version = Inr ev"
      by (rule evaluate_parts[OF Asset(3)])
    have "ev_decision ev = Deny \<or> (\<exists>e \<in> set (db_exceptions db). exn_tenant_id e = t \<and> exn_active e \<and>
        env_now env < exn_expires_at e \<and> scope_ok (exn_agent_key e) (agent_key ag) \<and>
        scope_ok (exn_asset_id e) (asset_id ast) \<and> scope_ok (exn_action e) (rq_action_name r) \<and>
        ev_decision ev = exn_override_decision e)"
      if "agent_approval_status ag \<noteq> ''Approved''"
      using finish_evaluation_Inr[OF fin] that
      by (auto simp: asset_decision_def exception_query_def dest!: matching_exception_Some split: option.splits)
    with ty dis[of "rq_resource_type r"] show ?thesis by auto
  next
    case (Runtime ms version)
    from Runtime(5) obtain decision risk reasons controls where
      d: "resource_check (rq_resource_type r) (fst (lookup_ai_resource db t (rq_resource_type r) (rq_resource_id r) None))
            (agent_check (fst (lookup_agent db t (rq_subject_type r) (rq_subject_id r) None)) (policy_draft ms))
          = (decision, risk, reasons, controls)"
      and ev: "ev_decision ev = decision" "ev_risk_score ev = min 100 risk"
      by (rule finish_runtime_Inr)
    have agent: "decision = Deny"
      if "is_agent_type (rq_subject_type r)" "find_agent db t (rq_subject_id r) = Some ag"
        "agent_approval_status ag \<noteq> ''Approved''" for ag
      using d that by (auto simp: lookup_fresh agent_check_def resource_check_def policy_draft_def split: option.splits if_splits)
    have res: "decision = Deny \<and> 90 \<le> risk"
      if "rq_resource_type r \<in> set AI_RESOURCE_TYPES"
        "\<forall>x. find_ai_resource db t (rq_resource_type r) (rq_resource_id r) = Some x \<longrightarrow> res_status x \<noteq> ResApproved"
      using d that by (auto simp: lookup_fresh resource_check_def split: option.splits if_splits prod.splits)
    show ?thesis
      using Runtime(2,3) agent res ev by (auto simp: lookup_fresh)
  qed
qed

text \<open>
  The memo of a batch changes no answer: with a memo that holds what the database holds the evaluation
  returns the same result, or raises the same error, as without one.
\<close>

theorem memo_transparent:
  assumes "memo_ok db memo"
  shows "(case evaluate_policy_only env db cache memo t r defs vo of
            Inl e \<Rightarrow> Inl e | Inr (ev, cache', memo') \<Rightarrow> Inr (ev, cache', None)) =
         evaluate_policy_only env db cache None t r defs vo"
  using evaluate_policy_only_memo[OF assms, of env cache t r defs vo]
  by (cases rule: rel_sum.cases) auto


lemma sample_user_report:
  "ok_with (\<lambda>(ev, c, m). ev_decision ev = Allow)
    (evaluate_policy_only sample_env empty_db Map.empty (Some no_lookups) ''default'' (sample_request ''user'' ''report'') None None)"
  by code_simp

theorem runtime_evaluation_typed_witness:
  "case evaluate_policy_only sample_env empty_db Map.empty (Some no_lookups) ''default'' (sample_request ''user'' ''report'')
     None None of Inl e \<Rightarrow> False | Inr (ev, c, m) \<Rightarrow> evaluation_wf ev"
proof -
  obtain ev c m where e: "evaluate_policy_only sample_env empty_db Map.empty (Some no_lookups) ''default''
      (sample_request ''user'' ''report'') None None = Inr (ev, c, m)"
    using sample_user_report by (auto elim!: ok_withE)
  from runtime_evaluation_typed[OF memo_ok_start(1) e] e show ?thesis by simp
qed

theorem runtime_fails_closed_witness:
  "case evaluate_policy_only sample_env empty_db Map.empty (Some no_lookups) ''default'' (sample_request ''user'' ''model'')
     None None of Inl e \<Rightarrow> False | Inr (ev, c, m) \<Rightarrow> ev_decision ev = Deny"
proof -
  have "is_ok (evaluate_policy_only sample_env empty_db Map.empty (Some no_lookups) ''default''
      (sample_request ''user'' ''model'') None None)"
    by code_simp
  then obtain ev c m where e: "evaluate_policy_only sample_env empty_db Map.empty (Some no_lookups) ''default''
      (sample_request ''user'' ''model'') None None = Inr (ev, c, m)"
    by (auto simp: is_ok_iff)
  have "rq_resource_type (sample_request ''user'' ''model'') \<in> set AI_RESOURCE_TYPES"
    "find_ai_resource empty_db ''default'' ty k = None" for ty k
    by (simp_all add: sample_request_def AI_RESOURCE_TYPES_def find_ai_resource_def empty_db_def)
  with runtime_fails_closed[OF memo_ok_start(1) e] e show ?thesis by simp
qed

theorem memo_transparent_witness:
  "\<exists>ev c. evaluate_policy_only sample_env empty_db Map.empty None ''default'' (sample_request ''user'' ''report'') None None
     = Inr (ev, c, None)"
  using sample_user_report
    memo_transparent[OF memo_ok_start(1), of sample_env empty_db Map.empty "''default''" "sample_request ''user'' ''report''" None None, symmetric]
  by (auto elim!: ok_withE)

end
