(* ===== verification/IdempotentStore.thy ===== *)
theory IdempotentStore
  imports Prelude
begin

text \<open>
  The contract of the tables that are written under an idempotency key: the outbox and the decision
  receipts. The first valid write under a key decides; a repetition of it
  returns the row it stored and changes nothing, and a different write is refused. The lemmas show
  that this holds through any sequence of writes of any callers.
\<close>

locale idempotent_store =
  fixes lookup :: "'s \<Rightarrow> 'k \<Rightarrow> 'row option"
    and key_ok :: "'k \<Rightarrow> bool"
    and put :: "'s \<Rightarrow> 'k \<Rightarrow> 'd \<Rightarrow> ('s \<times> 'row) result"
    and same :: "'row \<Rightarrow> 'd \<Rightarrow> bool"
    and valid :: "'d \<Rightarrow> bool"
  assumes hit: "key_ok k \<Longrightarrow> lookup s k = Some r \<Longrightarrow> valid d \<Longrightarrow>
      (if same r d then put s k d = Inr (s, r) else \<not> is_ok (put s k d))"
    and miss: "key_ok k \<Longrightarrow> lookup s k = None \<Longrightarrow> put s k d = Inr (s', r) \<Longrightarrow>
      lookup s' k = Some r \<and> same r d \<and> (\<forall>k'. key_ok k' \<longrightarrow> k' \<noteq> k \<longrightarrow> lookup s' k' = lookup s k')"
    and invalid: "\<not> valid d \<Longrightarrow> \<not> is_ok (put s k d)"
begin

definition put_state :: "'s \<Rightarrow> 'k \<times> 'd \<Rightarrow> 's" where
  "put_state s w = (case put s (fst w) (snd w) of Inl e \<Rightarrow> s | Inr (s', r) \<Rightarrow> s')"

definition puts :: "('k \<times> 'd) list \<Rightarrow> 's \<Rightarrow> 's" where
  "puts ws s = foldl put_state s ws"

lemma put_ok_lookup:
  assumes "key_ok k" and "put s k d = Inr (s', r)"
  shows "lookup s' k = Some r \<and> same r d \<and> valid d"
proof -
  have v: "valid d" using invalid[of d s k] assms(2) by auto
  show ?thesis
  proof (cases "lookup s k")
    case None
    from miss[OF assms(1) None assms(2)] v show ?thesis by auto
  next
    case (Some r0)
    from hit[OF assms(1) Some v] assms(2) v Some show ?thesis by (auto split: if_splits)
  qed
qed

text \<open>No write changes what is stored under a key, its own or another.\<close>

lemma put_state_keeps:
  assumes "key_ok k" and "lookup s k = Some r" and "key_ok (fst w)"
  shows "lookup (put_state s w) k = Some r"
proof -
  obtain k' d where w: "w = (k', d)" by (cases w)
  show ?thesis
  proof (cases "put s k' d")
    case (Inr x)
    obtain s' r' where x: "x = (s', r')" by (cases x)
    have v: "valid d" using invalid[of d s k'] Inr by auto
    from assms(3) w have k': "key_ok k'" by simp
    show ?thesis
    proof (cases "lookup s k'")
      case None
      from miss[OF k' None, of d s' r'] Inr x assms w None show ?thesis
        by (cases "k = k'") (auto simp: put_state_def)
    next
      case (Some r0)
      from hit[OF k' Some v] Inr x assms w show ?thesis by (auto simp: put_state_def split: if_splits)
    qed
  qed (use assms w in \<open>simp add: put_state_def\<close>)
qed

lemma puts_keep:
  assumes "key_ok k" and "lookup s k = Some r" and "list_all (key_ok \<circ> fst) ws"
  shows "lookup (puts ws s) k = Some r"
  using assms(2,3)
  by (induction ws arbitrary: s) (auto simp: puts_def put_state_keeps[OF assms(1)])

lemma put_repeated:
  assumes "key_ok k" and "put s k d = Inr (s', r)" and "list_all (key_ok \<circ> fst) ws"
    and "same r d'" and "valid d'"
  shows "put (puts ws s') k d' = Inr (puts ws s', r)"
  using put_ok_lookup[OF assms(1,2)] puts_keep[OF assms(1) _ assms(3), of s' r]
    hit[OF assms(1), of "puts ws s'" r d'] assms(4,5) by auto

lemma put_conflict:
  assumes "key_ok k" and "put s k d = Inr (s', r)" and "list_all (key_ok \<circ> fst) ws" and "\<not> same r d'"
  shows "\<not> is_ok (put (puts ws s') k d')"
  using put_ok_lookup[OF assms(1,2)] puts_keep[OF assms(1) _ assms(3), of s' r]
    hit[OF assms(1), of "puts ws s'" r d'] invalid[of d' "puts ws s'" k] assms(4) by auto

end

text \<open>A store that also accepts every valid write under a key it does not know: the outbox.\<close>

locale accepting_store = idempotent_store +
  assumes accepts: "key_ok k \<Longrightarrow> lookup s k = None \<Longrightarrow> valid d \<Longrightarrow> is_ok (put s k d)"
begin

lemma put_ok_iff:
  "key_ok k \<Longrightarrow> is_ok (put s k d) \<longleftrightarrow> valid d \<and> (\<forall>r. lookup s k = Some r \<longrightarrow> same r d)"
  using hit[of k s _ d] accepts[of k s d] invalid[of d s k]
  by (cases "lookup s k"; cases "valid d") (auto split: if_splits)

end

end
