(* ===== verification/Outbox.thy ===== *)
theory Outbox
  imports Integrations IdempotentStore
begin

text \<open>
  \<open>app/services/outbox.py\<close>: the transactional outbox of governance events. Queueing checks the
  payload (no credential-like field, bounded lists, strings and size) and is idempotent under a key;
  dispatching recovers stale claims, then claims each due event by a conditional update and hands it
  to \<open>queue_integration_event\<close> under its event id. The table satisfies the contract of
  \<open>WorkQueue\<close>. The lemmas show what the payload check guarantees at every depth, that every due
  event reaches every subscriber exactly once, and that a stale claim with no attempt left is never touched again.
\<close>

section \<open>The payload\<close>

definition FORBIDDEN_KEYS :: "string list" where
  "FORBIDDEN_KEYS =
     [''authorization'', ''credential'', ''credentials'', ''password'', ''prompt'', ''response'', ''secret'', ''token'']"

definition forbidden_key :: "string \<Rightarrow> bool" where
  "forbidden_key k =
     (map (\<lambda>c. if c = CHR ''-'' then CHR ''_'' else c) (py_lower k) \<in> set FORBIDDEN_KEYS)"

lemma rforall_cong [fundef_cong]:
  "xs = ys \<Longrightarrow> (\<And>x. x \<in> set ys \<Longrightarrow> f x = g x) \<Longrightarrow> rforall f xs = rforall g ys"
  by (induction xs arbitrary: ys) (auto simp: rbind_def split: sum.split)

fun inspect :: "json \<Rightarrow> unit result" where
  "inspect (JObj d) =
     rforall (\<lambda>(k, v).
       rbind (raise_if (forbidden_key k) (ValueError ''Outbox payload contains a forbidden field'')) (\<lambda>_.
       inspect v)) d"
| "inspect (JList xs) =
     rbind (raise_if (length xs > 1000) (ValueError ''Outbox payload list exceeds 1000 items'')) (\<lambda>_.
     rforall inspect xs)"
| "inspect (JStr s) =
     raise_if (length s > 4000) (ValueError ''Outbox payload string exceeds 4000 characters'')"
| "inspect _ = Inr ()"

definition MAX_OUTBOX_BYTES :: int where "MAX_OUTBOX_BYTES = 65536"

text \<open>The stored text is \<open>json.dumps\<close> with sorted keys; the row holds the document it parses to.\<close>

definition bounded_payload :: "env \<Rightarrow> json \<Rightarrow> json result" where
  "bounded_payload env payload =
     rbind (raise_if (\<not> is_jobj payload) (ValueError ''Outbox payload must be an object'')) (\<lambda>_.
     rbind (inspect payload) (\<lambda>_.
     rbind (raise_if (int (length (canonical_json (env_frepr env) payload)) > MAX_OUTBOX_BYTES)
             (ValueError ''Outbox payload exceeds 64 KiB'')) (\<lambda>_.
     Inr (sort_keys payload))))"

section \<open>Queueing\<close>

definition new_outbox_event ::
  "env \<Rightarrow> db \<Rightarrow> string \<Rightarrow> string \<Rightarrow> string \<Rightarrow> string \<Rightarrow> string \<Rightarrow> json \<Rightarrow> string option \<Rightarrow> governance_outbox_event" where
  "new_outbox_event env db uuid tenant_id aggregate_type aggregate_id event_type doc key =
     \<lparr>out_id = next_id out_id (db_outbox db), out_tenant_id = tenant_id, out_event_id = uuid,
      out_idempotency_key = key, out_aggregate_type = aggregate_type,
      out_aggregate_id = aggregate_id, out_event_type = event_type, out_payload_json = doc,
      out_status = OutPending, out_attempts = 0, out_available_at = env_now env,
      out_claimed_at = None, out_last_error = None, out_created_at = env_now env,
      out_dispatched_at = None\<rparr>"

definition find_outbox_key :: "db \<Rightarrow> string \<Rightarrow> string option \<Rightarrow> governance_outbox_event option" where
  "find_outbox_key db tenant_id key =
     (if truthy_opt key
      then scalar (\<lambda>e. out_tenant_id e = tenant_id \<and> out_idempotency_key e = key) (db_outbox db) else None)"

definition queue_outbox_event ::
  "env \<Rightarrow> string \<Rightarrow> db \<Rightarrow> string \<Rightarrow> string \<Rightarrow> string \<Rightarrow> string \<Rightarrow> json \<Rightarrow> string option \<Rightarrow>
     (db \<times> governance_outbox_event) result" where
  "queue_outbox_event env uuid db tenant_id aggregate_type aggregate_id event_type payload key =
     rbind (bounded_payload env payload) (\<lambda>doc.
     case find_outbox_key db tenant_id key of
       Some existing \<Rightarrow>
         if out_event_type existing \<noteq> event_type \<or> out_aggregate_type existing \<noteq> aggregate_type \<or>
            out_aggregate_id existing \<noteq> aggregate_id \<or>
            json_dumps (env_frepr env) '','' '':'' (out_payload_json existing) \<noteq>
              json_dumps (env_frepr env) '','' '':'' doc
         then Inl (ValueError ''Outbox idempotency key has conflicting event data'')
         else Inr (db, existing)
     | None \<Rightarrow>
         let e = new_outbox_event env db uuid tenant_id aggregate_type aggregate_id event_type doc key
         in Inr (db\<lparr>db_outbox := db_outbox db @ [e]\<rparr>, e))"

section \<open>Dispatching\<close>

definition out_for_tenant :: "string option \<Rightarrow> governance_outbox_event \<Rightarrow> bool" where
  "out_for_tenant tenant e = (truthy_opt tenant \<longrightarrow> Some (out_tenant_id e) = tenant)"

definition stale_event :: "env \<Rightarrow> string option \<Rightarrow> governance_outbox_event \<Rightarrow> bool" where
  "stale_event env tenant e =
     (out_status e = OutDispatching \<and>
      (case out_claimed_at e of None \<Rightarrow> False
       | Some c \<Rightarrow> c < env_now env - td_seconds (cfg_worker_claim_timeout_seconds (env_settings env))) \<and>
      int (out_attempts e) < cfg_governance_outbox_max_attempts (env_settings env) \<and>
      out_for_tenant tenant e)"

definition recover_outbox_row :: "time \<Rightarrow> governance_outbox_event \<Rightarrow> governance_outbox_event" where
  "recover_outbox_row now e =
     e\<lparr>out_status := OutPending, out_claimed_at := None, out_available_at := now,
       out_last_error := Some ''Recovered after outbox claim timeout''\<rparr>"

definition due_event :: "env \<Rightarrow> string option \<Rightarrow> governance_outbox_event \<Rightarrow> bool" where
  "due_event env tenant e =
     (out_status e = OutPending \<and> out_available_at e \<le> env_now env \<and> out_for_tenant tenant e)"

definition claim_outbox_row :: "time \<Rightarrow> governance_outbox_event \<Rightarrow> governance_outbox_event" where
  "claim_outbox_row now e =
     e\<lparr>out_status := OutDispatching, out_claimed_at := Some now, out_attempts := Suc (out_attempts e)\<rparr>"

definition claimable_event :: "string option \<Rightarrow> nat \<Rightarrow> governance_outbox_event \<Rightarrow> bool" where
  "claimable_event tenant i e = (out_id e = i \<and> out_status e = OutPending \<and> out_for_tenant tenant e)"

type_synonym dispatch_outcome = "time \<times> int \<times> (py_error \<Rightarrow> string) \<times> unit result"

definition settle_outbox_row :: "dispatch_outcome \<Rightarrow> governance_outbox_event \<Rightarrow> governance_outbox_event" where
  "settle_outbox_row out e =
     (case out of (now, max_attempts, safe_connector_error, r) \<Rightarrow>
        (case r of
           Inr _ \<Rightarrow> e\<lparr>out_status := OutDispatched, out_dispatched_at := Some now, out_claimed_at := None,
                       out_last_error := None\<rparr>
         | Inl x \<Rightarrow>
             let e' = e\<lparr>out_last_error := Some (safe_connector_error x), out_claimed_at := None\<rparr> in
             if int (out_attempts e) \<ge> max_attempts then e'\<lparr>out_status := OutFailed\<rparr>
             else e'\<lparr>out_status := OutPending, out_available_at := now + td_seconds (backoff (out_attempts e))\<rparr>))"

definition update_outbox ::
  "(governance_outbox_event \<Rightarrow> bool) \<Rightarrow> (governance_outbox_event \<Rightarrow> governance_outbox_event) \<Rightarrow> db \<Rightarrow> db" where
  "update_outbox P f db = db\<lparr>db_outbox := update_rows P f (db_outbox db)\<rparr>"

datatype dispatch_result = NotClaimed | Dispatched | Retried | FailedForGood

text \<open>One turn of the loop. The clock of a turn is its own: \<open>now\<close>.\<close>

definition dispatch_one ::
  "env \<Rightarrow> registration list \<Rightarrow> uuids \<Rightarrow> (py_error \<Rightarrow> string) \<Rightarrow> time \<Rightarrow> string option \<Rightarrow> nat \<Rightarrow> db \<Rightarrow>
     db \<times> dispatch_result" where
  "dispatch_one env registry us safe_connector_error now tenant i db =
     (let db1 = update_outbox (claimable_event tenant i) (claim_outbox_row now) db in
      if row_count (claimable_event tenant i) (db_outbox db) \<noteq> 1 then (db1, NotClaimed)
      else case scalar (\<lambda>e. out_id e = i) (db_outbox db1) of
        None \<Rightarrow> (db1, NotClaimed)
      | Some e \<Rightarrow>
          (case queue_integration_event (env\<lparr>env_now := now\<rparr>) registry us db1 (out_tenant_id e) (out_event_type e)
                  (out_payload_json e) ''governance-outbox'' None (Some (out_event_id e)) of
             (db2, r) \<Rightarrow>
               let max_attempts = cfg_governance_outbox_max_attempts (env_settings env);
                   out = (now, max_attempts, safe_connector_error, rbind r (\<lambda>_. Inr ()))
               in (update_outbox (\<lambda>e. out_id e = i) (settle_outbox_row out) db2,
                   case r of Inr _ \<Rightarrow> Dispatched
                   | Inl x \<Rightarrow> if int (out_attempts e) \<ge> max_attempts then FailedForGood else Retried)))"

text \<open>The \<open>n\<close>-th turn draws its identifiers and reads its clock.\<close>

fun dispatch_loop ::
  "env \<Rightarrow> registration list \<Rightarrow> (nat \<Rightarrow> uuids) \<Rightarrow> (py_error \<Rightarrow> string) \<Rightarrow> (nat \<Rightarrow> time) \<Rightarrow> string option \<Rightarrow> nat \<Rightarrow>
     nat list \<Rightarrow> db \<Rightarrow> db \<times> dispatch_result list" where
  "dispatch_loop env registry us safe clock tenant n [] db = (db, [])"
| "dispatch_loop env registry us safe clock tenant n (i # ids) db =
     (case dispatch_one env registry (us n) safe (clock n) tenant i db of
        (db1, r) \<Rightarrow>
          (case dispatch_loop env registry us safe clock tenant (Suc n) ids db1 of
             (db2, rs) \<Rightarrow> (db2, r # rs)))"

record dispatch_report =
  dr_claimed :: nat
  dr_dispatched :: nat
  dr_retried :: nat
  dr_failed :: nat

definition dispatch_candidates :: "env \<Rightarrow> int option \<Rightarrow> string option \<Rightarrow> db \<Rightarrow> nat list" where
  "dispatch_candidates env requested tenant db =
     map out_id (take (bounded_limit requested (cfg_governance_outbox_batch_size (env_settings env)) 1000)
       (order_by out_created_at (where_rows (due_event env tenant) (db_outbox db))))"

definition dispatch_outbox_events ::
  "env \<Rightarrow> registration list \<Rightarrow> (nat \<Rightarrow> uuids) \<Rightarrow> (py_error \<Rightarrow> string) \<Rightarrow> (nat \<Rightarrow> time) \<Rightarrow> db \<Rightarrow> int option \<Rightarrow>
     string option \<Rightarrow> db \<times> dispatch_report" where
  "dispatch_outbox_events env registry us safe clock db requested tenant =
     (let db1 = update_outbox (stale_event env tenant) (recover_outbox_row (env_now env)) db in
      case dispatch_loop env registry us safe clock tenant 0 (dispatch_candidates env requested tenant db1) db1 of
        (db2, rs) \<Rightarrow>
          let dispatched = length (filter (\<lambda>r. r = Dispatched) rs);
              retried = length (filter (\<lambda>r. r = Retried) rs);
              failed = length (filter (\<lambda>r. r = FailedForGood) rs)
          in (db2, \<lparr>dr_claimed = dispatched + retried + failed, dr_dispatched = dispatched,
                   dr_retried = retried, dr_failed = failed\<rparr>))"

section \<open>The contract of the queue\<close>

fun outbox_phase :: "outbox_state \<Rightarrow> phase" where
  "outbox_phase OutPending = Waiting"
| "outbox_phase OutDispatching = Held"
| "outbox_phase OutDispatched = Closed"
| "outbox_phase OutFailed = Closed"

text \<open>The recovery as the statement applies it to one row.\<close>

definition recover_if_stale :: "env \<Rightarrow> time \<Rightarrow> governance_outbox_event \<Rightarrow> governance_outbox_event" where
  "recover_if_stale env now e =
     (if stale_event (env\<lparr>env_now := now\<rparr>) None e then recover_outbox_row now e else e)"

interpretation outbox_queue: work_queue "\<lambda>e. outbox_phase (out_status e)" out_attempts
  "\<lambda>e. nat (cfg_governance_outbox_max_attempts (env_settings env))"
  claim_outbox_row "\<lambda>(now, safe, r). settle_outbox_row (now, cfg_governance_outbox_max_attempts (env_settings env), safe, r)"
  "recover_if_stale env"
  for env
  by unfold_locales
     (auto simp: claim_outbox_row_def settle_outbox_row_def recover_if_stale_def recover_outbox_row_def
        stale_event_def Let_def split: sum.splits if_splits)

section \<open>Idempotent queueing\<close>

text \<open>What a caller queues under a key: the event id drawn, the aggregate, the type and the payload.\<close>

type_synonym outbox_entry = "string \<times> string \<times> string \<times> string \<times> json"

definition same_outbox_entry :: "env \<Rightarrow> governance_outbox_event \<Rightarrow> outbox_entry \<Rightarrow> bool" where
  "same_outbox_entry env r d = (case d of (uuid, aggregate_type, aggregate_id, event_type, payload) \<Rightarrow>
     out_event_type r = event_type \<and> out_aggregate_type r = aggregate_type \<and> out_aggregate_id r = aggregate_id \<and>
     json_dumps (env_frepr env) '','' '':'' (out_payload_json r) =
       json_dumps (env_frepr env) '','' '':'' (sort_keys payload))"

lemma bounded_payload_Inr: "bounded_payload env p = Inr doc \<Longrightarrow> doc = sort_keys p"
  by (auto simp: bounded_payload_def result_simps)

lemma bounded_payload_ok: "is_ok (bounded_payload env p) \<longleftrightarrow> bounded_payload env p = Inr (sort_keys p)"
  by (auto simp: is_ok_iff dest: bounded_payload_Inr)

interpretation outbox_store: accepting_store
  "\<lambda>db (t, k). find_outbox_key db t (Some k)" "\<lambda>(t, k). k \<noteq> []"
  "\<lambda>db (t, k) (uuid, aggregate_type, aggregate_id, event_type, payload).
     queue_outbox_event env uuid db t aggregate_type aggregate_id event_type payload (Some k)"
  "same_outbox_entry env" "\<lambda>(uuid, aggregate_type, aggregate_id, event_type, payload). is_ok (bounded_payload env payload)"
  for env
proof (unfold_locales, goal_cases)
  case (1 k s r d)
  then show ?case
    by (cases d; cases k) (auto simp: queue_outbox_event_def same_outbox_entry_def bounded_payload_ok)
next
  case (2 k s d s' r)
  then show ?case
    by (cases d; cases k)
       (auto simp: queue_outbox_event_def same_outbox_entry_def result_simps dest!: bounded_payload_Inr
          simp: Let_def find_outbox_key_def truthy_opt_def new_outbox_event_def scalar_append scalar_Cons split: option.splits)
next
  case (3 d s k)
  then show ?case
    by (cases d; cases k) (auto simp: queue_outbox_event_def is_ok_iff rbind_Inr_iff)
next
  case (4 k s d)
  then show ?case
    by (cases d; cases k) (auto simp: queue_outbox_event_def bounded_payload_ok Let_def)
qed

section \<open>The payload check at every depth\<close>

text \<open>The documents inside a document.\<close>

inductive subdoc :: "json \<Rightarrow> json \<Rightarrow> bool" where
  whole: "subdoc v v"
| item: "x \<in> set xs \<Longrightarrow> subdoc x w \<Longrightarrow> subdoc (JList xs) w"
| field: "(k, x) \<in> set d \<Longrightarrow> subdoc x w \<Longrightarrow> subdoc (JObj d) w"

inductive_simps subdoc_JList: "subdoc (JList xs) w"
inductive_simps subdoc_JObj: "subdoc (JObj d) w"
inductive_simps subdoc_leaf: "subdoc JNull w" "subdoc (JBool b) w" "subdoc (JInt n) w" "subdoc (JFloat r) w" "subdoc (JStr s) w"

fun node_ok :: "json \<Rightarrow> bool" where
  "node_ok (JObj d) = list_all (\<lambda>(k, v). \<not> forbidden_key k) d"
| "node_ok (JList xs) = (length xs \<le> 1000)"
| "node_ok (JStr s) = (length s \<le> 4000)"
| "node_ok _ = True"

lemma inspect_iff: "inspect v = Inr () \<longleftrightarrow> (\<forall>w. subdoc v w \<longrightarrow> node_ok w)"
proof (induction v rule: inspect.induct)
  case (1 d)
  have IH: "inspect v = Inr () \<longleftrightarrow> (\<forall>w. subdoc v w \<longrightarrow> node_ok w)" if "(k, v) \<in> set d" for k v
    using that by (rule 1) simp
  have "inspect (JObj d) = Inr () \<longleftrightarrow> (\<forall>(k, v) \<in> set d. \<not> forbidden_key k \<and> inspect v = Inr ())"
    by (auto simp: rforall_Inr result_simps)
  also have "\<dots> \<longleftrightarrow> (\<forall>(k, v) \<in> set d. \<not> forbidden_key k \<and> (\<forall>w. subdoc v w \<longrightarrow> node_ok w))"
    by (rule ball_cong) (auto simp: IH)
  also have "\<dots> \<longleftrightarrow> node_ok (JObj d) \<and> (\<forall>k v w. (k, v) \<in> set d \<longrightarrow> subdoc v w \<longrightarrow> node_ok w)"
    by (auto simp: list_all_iff)
  also have "\<dots> \<longleftrightarrow> (\<forall>w. subdoc (JObj d) w \<longrightarrow> node_ok w)"
    unfolding subdoc_JObj by blast
  finally show ?case .
next
  case (2 xs)
  then show ?case by (auto simp: subdoc_JList rforall_Inr result_simps not_less)
qed (auto simp: subdoc_leaf)

text \<open>
  An event is accepted exactly when its payload is an object in which, at every depth, no field has a
  credential-like name, no list has more than 1000 items and no string more than 4000 characters, and
  whose canonical text has at most 64 KiB.
\<close>

theorem outbox_payload_checked:
  "is_ok (queue_outbox_event env uuid db t aggregate_type aggregate_id event_type payload None) \<longleftrightarrow>
     is_jobj payload \<and> (\<forall>w. subdoc payload w \<longrightarrow> node_ok w) \<and>
     length (canonical_json (env_frepr env) payload) \<le> 65536"
  by (auto simp: queue_outbox_event_def bounded_payload_def find_outbox_key_def truthy_opt_def is_ok_iff result_simps
        inspect_iff[symmetric] MAX_OUTBOX_BYTES_def Let_def not_less)

theorem outbox_payload_checked_witness:
  "\<not> is_ok (queue_outbox_event base_env ''u'' empty_db ''t'' ''a'' ''1'' ''x''
      (JObj [(''items'', JList [JObj [(''Pass-Word'', JInt 1), (''API'', JNull), (''toKEN'', JStr ''x'')]])]) None)"
proof -
  let ?w = "JObj [(''Pass-Word'', JInt 1), (''API'', JNull), (''toKEN'', JStr ''x'')]"
  have "subdoc (JObj [(''items'', JList [?w])]) ?w"
    by (simp add: subdoc_JObj subdoc_JList subdoc.whole)
  moreover have "\<not> node_ok ?w" by code_simp
  ultimately show ?thesis by (auto simp only: outbox_payload_checked)
qed

text \<open>
  An event queued under a key stays the one event of that key: after any other events were queued under any
  keys, queueing it again returns the same row and changes nothing, and queueing another type of event under
  its key is refused.
\<close>

theorem outbox_key_idempotent:
  assumes "key \<noteq> []" and "queue_outbox_event env uuid db t at0 ai ty payload (Some key) = Inr (db1, e)"
    and "list_all (\<lambda>w. snd (fst w) \<noteq> []) ws"
  shows "queue_outbox_event env uuid' (outbox_store.puts env ws db1) t at0 ai ty payload (Some key) =
           Inr (outbox_store.puts env ws db1, e) \<and>
         (ty' \<noteq> ty \<longrightarrow> \<not> is_ok (queue_outbox_event env uuid' (outbox_store.puts env ws db1) t at0 ai ty' payload' (Some key)))"
proof -
  have ws: "list_all ((\<lambda>(t, k). k \<noteq> []) \<circ> fst) ws"
    using assms(3) by (auto simp: list_all_iff split_beta)
  have key: "case (t, key) of (t, k) \<Rightarrow> k \<noteq> []" using assms(1) by simp
  have put: "(case (t, key) of (t, k) \<Rightarrow> \<lambda>(uuid, aggregate_type, aggregate_id, event_type, payload).
        queue_outbox_event env uuid db t aggregate_type aggregate_id event_type payload (Some k))
      (uuid, at0, ai, ty, payload) = Inr (db1, e)"
    using assms(2) by simp
  note l = outbox_store.put_ok_lookup[OF key put]
  from outbox_store.put_repeated[OF key put ws, of "(uuid', at0, ai, ty, payload)"] l
  have "queue_outbox_event env uuid' (outbox_store.puts env ws db1) t at0 ai ty payload (Some key) =
           Inr (outbox_store.puts env ws db1, e)"
    by (simp add: same_outbox_entry_def)
  moreover have "\<not> is_ok (queue_outbox_event env uuid' (outbox_store.puts env ws db1) t at0 ai ty' payload' (Some key))"
    if "ty' \<noteq> ty"
    using outbox_store.put_conflict[OF key put ws, of "(uuid', at0, ai, ty', payload')"] l that
    by (auto simp: same_outbox_entry_def)
  ultimately show ?thesis by blast
qed

theorem outbox_key_idempotent_witness:
  "ok_with (\<lambda>(db1, e). queue_outbox_event base_env ''u2'' db1 ''t'' ''a'' ''1'' ''x'' sample_payload (Some ''k'') = Inr (db1, e))
     (queue_outbox_event base_env ''u'' empty_db ''t'' ''a'' ''1'' ''x'' sample_payload (Some ''k''))"
proof -
  have "is_ok (queue_outbox_event base_env ''u'' empty_db ''t'' ''a'' ''1'' ''x'' sample_payload (Some ''k''))"
    by code_simp
  then obtain db1 e where
    q: "queue_outbox_event base_env ''u'' empty_db ''t'' ''a'' ''1'' ''x'' sample_payload (Some ''k'') = Inr (db1, e)"
    by (auto simp: is_ok_iff)
  from outbox_key_idempotent[OF _ q, of "[]"] q show ?thesis
    by (simp add: outbox_store.puts_def)
qed

section \<open>Dispatching reaches every subscriber\<close>

text \<open>What the tables satisfy: keys are unique, ids are short, and payloads passed the check.\<close>

definition event_key :: "governance_outbox_event \<Rightarrow> string \<times> string" where
  "event_key e = (out_tenant_id e, out_event_id e)"

definition outbox_wf :: "env \<Rightarrow> db \<Rightarrow> bool" where
  "outbox_wf env db \<longleftrightarrow>
     unique_key out_id (db_outbox db) \<and> unique_key event_key (db_outbox db) \<and>
     list_all (\<lambda>e. out_event_id e \<noteq> [] \<and>
        length (canonical_json (env_frepr env) (out_payload_json e)) \<le> 65536) (db_outbox db) \<and>
     short_ids db \<and>
     (\<forall>t. distinct (map endpoint_endpoint_id (enabled_endpoints db t)))"

definition subscribed :: "db \<Rightarrow> governance_outbox_event \<Rightarrow> string \<Rightarrow> bool" where
  "subscribed db e eid =
     (\<exists>ep \<in> set (enabled_endpoints db (out_tenant_id e)).
        endpoint_endpoint_id ep = eid \<and> subscribes None (out_event_type e) ep)"

definition dispatched_row :: "env \<Rightarrow> (py_error \<Rightarrow> string) \<Rightarrow> time \<Rightarrow> governance_outbox_event \<Rightarrow> governance_outbox_event" where
  "dispatched_row env safe now e =
     settle_outbox_row (now, cfg_governance_outbox_max_attempts (env_settings env), safe, Inr ()) (claim_outbox_row now e)"

lemma dispatched_row_simps [simp]:
  "out_id (dispatched_row env safe now e) = out_id e"
  "event_key (dispatched_row env safe now e) = event_key e"
  "out_tenant_id (dispatched_row env safe now e) = out_tenant_id e"
  "out_event_id (dispatched_row env safe now e) = out_event_id e"
  "out_event_type (dispatched_row env safe now e) = out_event_type e"
  "out_payload_json (dispatched_row env safe now e) = out_payload_json e"
  "out_status (dispatched_row env safe now e) = OutDispatched"
  "out_attempts (dispatched_row env safe now e) = Suc (out_attempts e)"
  by (simp_all add: dispatched_row_def settle_outbox_row_def claim_outbox_row_def event_key_def)

text \<open>One turn, for an event that can be claimed.\<close>

lemma dispatch_one_works:
  assumes wf: "outbox_wf env db" and e: "e \<in> set (db_outbox db)" "claimable_event tenant (out_id e) e"
    and us: "\<And>n. length (fst (us n)) \<le> 36"
    and run: "dispatch_one env registry us safe now tenant (out_id e) db = (db', res)"
  shows "res = Dispatched \<and>
         db_outbox db' = update_rows (\<lambda>x. out_id x = out_id e) (dispatched_row env safe now) (db_outbox db) \<and>
         db_endpoints db' = db_endpoints db \<and> short_ids db' \<and>
         row_count (keyed t eid (Some k)) (db_deliveries db') =
           (if (t, k) = event_key e \<and> subscribed db e eid
            then max 1 (row_count (keyed t eid (Some k)) (db_deliveries db))
            else row_count (keyed t eid (Some k)) (db_deliveries db))"
proof -
  let ?i = "out_id e" and ?P = "claimable_event tenant (out_id e)"
  let ?db1 = "update_outbox ?P (claim_outbox_row now) db"
  let ?c = "claim_outbox_row now e"
  from wf have uniq: "unique_key out_id (db_outbox db)" by (simp add: outbox_wf_def)
  have one: "row_count ?P (db_outbox db) = 1"
    by (rule unique_row_count[OF uniq e(1)]) (use e(2) in \<open>simp_all add: claimable_event_def\<close>)
  have same: "x = e" if "x \<in> set (db_outbox db)" "out_id x = ?i" for x
    using unique_key_eq[OF uniq that(1) e(1)] that(2) by simp
  have "update_rows ?P (claim_outbox_row now) (db_outbox db) =
        update_rows (\<lambda>x. out_id x = ?i) (claim_outbox_row now) (db_outbox db)"
    by (rule update_rows_cong) (use same e in \<open>auto simp: claimable_event_def\<close>)
  then have rows1: "db_outbox ?db1 = update_rows (\<lambda>x. out_id x = ?i) (claim_outbox_row now) (db_outbox db)"
    by (simp add: update_outbox_def)
  have "scalar (\<lambda>x. out_id x = ?i) (db_outbox db) = Some e"
    by (rule scalar_unique[OF uniq e(1)]) simp_all
  then have get: "scalar (\<lambda>x. out_id x = ?i) (db_outbox ?db1) = Some ?c"
    unfolding rows1 by (subst scalar_update) (simp_all add: claim_outbox_row_def)
  have c: "out_tenant_id ?c = out_tenant_id e" "out_event_type ?c = out_event_type e"
    "out_payload_json ?c = out_payload_json e" "out_event_id ?c = out_event_id e"
    by (simp_all add: claim_outbox_row_def)
  from wf e(1) have size: "length (canonical_json (env_frepr env) (out_payload_json e)) \<le> 65536" "out_event_id e \<noteq> []"
    by (auto simp: outbox_wf_def list_all_iff)
  let ?env = "env\<lparr>env_now := now\<rparr>" and ?key = "Some (out_event_id e)"
  obtain db2 r where q: "queue_for_endpoints ?env registry us 0 (out_tenant_id e) (out_event_type e)
      (sort_keys (out_payload_json e)) ''governance-outbox'' None ?key (enabled_endpoints ?db1 (out_tenant_id e)) ?db1 = (db2, r)"
    by fastforce
  have same_tables: "db_deliveries ?db1 = db_deliveries db" "db_endpoints ?db1 = db_endpoints db"
    by (simp_all add: update_outbox_def)
  have short1: "short_ids ?db1" using wf same_tables by (simp add: short_ids_def outbox_wf_def)
  from queue_ok[OF short1 us q] obtain ds where r: "r = Inr ds" and short2: "short_ids db2"
    by (auto simp: is_ok_iff)
  have qi: "queue_integration_event ?env registry us ?db1 (out_tenant_id ?c) (out_event_type ?c)
      (out_payload_json ?c) ''governance-outbox'' None (Some (out_event_id ?c)) = (db2, Inr ds)"
    using q r size(1) by (simp add: queue_integration_event_def serialize_payload_def c)
  from run have res: "res = Dispatched" and db': "db' = update_outbox (\<lambda>x. out_id x = ?i)
      (settle_outbox_row (now, cfg_governance_outbox_max_attempts (env_settings env), safe, Inr ())) db2"
    by (simp_all add: dispatch_one_def Let_def one get qi)
  note ext = queue_extends[OF q]
  have rows2: "db_outbox db' = update_rows (\<lambda>x. out_id x = ?i) (dispatched_row env safe now) (db_outbox db)"
  proof -
    have "db_outbox db' = update_rows (\<lambda>x. out_id x = ?i)
        (settle_outbox_row (now, cfg_governance_outbox_max_attempts (env_settings env), safe, Inr ()))
        (update_rows (\<lambda>x. out_id x = ?i) (claim_outbox_row now) (db_outbox db))"
      using ext rows1 by (simp add: db' update_outbox_def)
    also have "\<dots> = update_rows (\<lambda>x. out_id x = ?i) (dispatched_row env safe now) (db_outbox db)"
      by (subst update_rows_twice) (simp add: claim_outbox_row_def, simp add: dispatched_row_def[abs_def] comp_def)
    finally show ?thesis .
  qed
  have key: "truthy_opt ?key" using size(2) by (simp add: truthy_opt_def)
  have eps: "enabled_endpoints ?db1 t = enabled_endpoints db t" for t
    by (simp add: enabled_endpoints_def same_tables)
  from wf have dist: "distinct (map endpoint_endpoint_id (enabled_endpoints ?db1 (out_tenant_id e)))"
    by (simp add: eps outbox_wf_def)
  have del: "db_deliveries db' = db_deliveries db2" by (simp add: db' update_outbox_def)
  have count: "row_count (keyed t eid (Some k)) (db_deliveries db2) =
           (if (t, k) = event_key e \<and> subscribed db e eid
            then max 1 (row_count (keyed t eid (Some k)) (db_deliveries db))
            else row_count (keyed t eid (Some k)) (db_deliveries db))"
  proof (cases "(t, k) = event_key e")
    case True
    then have tk: "t = out_tenant_id e" "k = out_event_id e" by (simp_all add: event_key_def)
    show ?thesis
      using queue_counts[OF q[unfolded r] key dist, of eid] unfolding same_tables eps tk
      by (simp add: event_key_def subscribed_def)
  next
    case False
    from ext obtain new where new: "db_deliveries db2 = db_deliveries db @ new"
      "\<forall>d \<in> set new. deliv_tenant_id d = out_tenant_id e \<and> deliv_idempotency_key d = ?key"
      by (auto simp: same_tables)
    then have "row_count (keyed t eid (Some k)) new = 0"
      using False by (auto simp: row_count_zero keyed_def event_key_def)
    with new(1) False show ?thesis by (simp add: row_count_append)
  qed
  have "db_endpoints db' = db_endpoints db" using ext by (simp add: db' update_outbox_def same_tables)
  moreover have "short_ids db'" using short2 by (simp add: short_ids_def del)
  ultimately show ?thesis using res rows2 count by (simp add: del)
qed

lemma dispatch_one_wf:
  assumes "outbox_wf env db" and "e \<in> set (db_outbox db)" "claimable_event tenant (out_id e) e"
    and "\<And>n. length (fst (us n)) \<le> 36"
    and "dispatch_one env registry us safe now tenant (out_id e) db = (db', res)"
  shows "outbox_wf env db'"
proof -
  note w = dispatch_one_works[OF assms]
  have "unique_key event_key (db_outbox db')" "unique_key out_id (db_outbox db')"
    using w assms(1) by (simp_all add: outbox_wf_def unique_key_update)
  moreover have "list_all (\<lambda>e. out_event_id e \<noteq> [] \<and>
        length (canonical_json (env_frepr env) (out_payload_json e)) \<le> 65536) (db_outbox db')"
    using w assms(1) by (auto simp: outbox_wf_def list_all_iff set_update_rows)
  ultimately show ?thesis
    using w assms(1) by (auto simp: outbox_wf_def enabled_endpoints_def)
qed

text \<open>The loop, seen by one of the events it was given.\<close>

lemma dispatch_loop_works:
  assumes "outbox_wf env db" and "distinct ids"
    and "\<forall>i \<in> set ids. \<exists>x \<in> set (db_outbox db). out_id x = i \<and> claimable_event tenant i x"
    and us: "\<And>m n. length (fst (us m n)) \<le> 36"
    and "dispatch_loop env registry us safe clock tenant n ids db = (db', rs)"
    and "e \<in> set (db_outbox db)" "(t, k) = event_key e"
  shows "rs = replicate (length ids) Dispatched \<and>
         (\<exists>e' \<in> set (db_outbox db'). event_key e' = event_key e \<and>
            (if out_id e \<in> set ids then out_status e' = OutDispatched else e' = e)) \<and>
         row_count (keyed t eid (Some k)) (db_deliveries db') =
           (if out_id e \<in> set ids \<and> subscribed db e eid
            then max 1 (row_count (keyed t eid (Some k)) (db_deliveries db))
            else row_count (keyed t eid (Some k)) (db_deliveries db))"
  using assms(1-3,5-7)
proof (induction ids arbitrary: db n db' rs e)
  case (Cons i ids)
  from Cons.prems(3) obtain x where x: "x \<in> set (db_outbox db)" "out_id x = i" "claimable_event tenant i x" by auto
  then have cl: "claimable_event tenant (out_id x) x" by simp
  obtain db1 r1 where one: "dispatch_one env registry (us n) safe (clock n) tenant (out_id x) db = (db1, r1)" by fastforce
  obtain db2 rs2 where rest: "dispatch_loop env registry us safe clock tenant (Suc n) ids db1 = (db2, rs2)" by fastforce
  have out: "db' = db2" "rs = r1 # rs2" using Cons.prems(4) one rest x(2) by simp_all
  note w = dispatch_one_works[OF Cons.prems(1) x(1) cl us one]
  note wf1 = dispatch_one_wf[OF Cons.prems(1) x(1) cl us one]
  have uniq: "unique_key out_id (db_outbox db)" "unique_key event_key (db_outbox db)"
    using Cons.prems(1) by (auto simp: outbox_wf_def)
  have sub: "subscribed db1 e' eid = subscribed db e' eid" for e'
    using w by (simp add: subscribed_def enabled_endpoints_def)
  have ready: "\<forall>j \<in> set ids. \<exists>y \<in> set (db_outbox db1). out_id y = j \<and> claimable_event tenant j y"
  proof
    fix j assume j: "j \<in> set ids"
    with Cons.prems(3) obtain y where y: "y \<in> set (db_outbox db)" "out_id y = j" "claimable_event tenant j y" by auto
    moreover have "j \<noteq> i" using Cons.prems(2) j by auto
    ultimately have "y \<in> set (db_outbox db1)" using w x(2) by (auto simp: set_update_rows image_iff)
    with y show "\<exists>y \<in> set (db_outbox db1). out_id y = j \<and> claimable_event tenant j y" by blast
  qed
  define e1 where "e1 = (if out_id e = i then dispatched_row env safe (clock n) e else e)"
  have mem: "e1 \<in> set (db_outbox db1)"
    using w Cons.prems(5) x(2) by (auto simp: e1_def set_update_rows)
  have key: "(t, k) = event_key e1" "out_id e1 = out_id e" "event_key e1 = event_key e"
    using Cons.prems(6) by (auto simp: e1_def)
  from Cons.prems(2) have "distinct ids" "i \<notin> set ids" by auto
  note IH = Cons.IH[OF wf1 \<open>distinct ids\<close> ready rest mem key(1)]
  show ?case
  proof (cases "out_id e = i")
    case True
    then have "e = x" using unique_key_eq[OF uniq(1) Cons.prems(5) x(1)] x(2) by simp
    with w Cons.prems(6) have "row_count (keyed t eid (Some k)) (db_deliveries db1) =
        (if subscribed db e eid then max 1 (row_count (keyed t eid (Some k)) (db_deliveries db))
         else row_count (keyed t eid (Some k)) (db_deliveries db))" by simp
    with IH True key \<open>i \<notin> set ids\<close> w sub show ?thesis
      by (auto simp: out e1_def intro!: bexI[of _ "dispatched_row env safe (clock n) e"])
  next
    case False
    then have "event_key e \<noteq> event_key x"
      using unique_key_eq[OF uniq(2) Cons.prems(5) x(1)] x(2) by auto
    with w Cons.prems(6) have "row_count (keyed t eid (Some k)) (db_deliveries db1) =
        row_count (keyed t eid (Some k)) (db_deliveries db)" by simp
    with IH False key w sub show ?thesis
      by (auto simp: out e1_def)
  qed
qed auto


lemma dispatch_candidates_due:
  assumes "i \<in> set (dispatch_candidates env requested tenant db)"
  shows "\<exists>x \<in> set (db_outbox db). out_id x = i \<and> due_event env tenant x \<and> claimable_event tenant i x"
proof -
  from assms obtain x where "x \<in> set (order_by out_created_at (where_rows (due_event env tenant) (db_outbox db)))"
    and i: "out_id x = i"
    by (auto simp: dispatch_candidates_def dest: in_set_takeD)
  then have "x \<in> set (db_outbox db)" "due_event env tenant x" by (auto simp: set_where_rows)
  with i show ?thesis by (auto simp: claimable_event_def due_event_def)
qed

lemma dispatch_candidates_distinct:
  assumes "unique_key out_id (db_outbox db)"
  shows "distinct (dispatch_candidates env requested tenant db)"
proof -
  have "distinct (map out_id (order_by out_created_at (where_rows (due_event env tenant) (db_outbox db))))"
    using assms by (simp add: order_by_def distinct_map where_rows_def unique_key_def inj_on_def)
  then show ?thesis
    unfolding dispatch_candidates_def by (metis distinct_take take_map)
qed

lemma recover_wf:
  assumes "outbox_wf env db"
  shows "outbox_wf env (update_outbox P (recover_outbox_row now) db)"
proof -
  have "event_key (recover_outbox_row now e) = event_key e" "out_id (recover_outbox_row now e) = out_id e"
    "out_payload_json (recover_outbox_row now e) = out_payload_json e"
    "out_event_id (recover_outbox_row now e) = out_event_id e" for e
    by (simp_all add: recover_outbox_row_def event_key_def)
  with assms show ?thesis
    by (auto simp: outbox_wf_def update_outbox_def unique_key_update list_all_iff set_update_rows short_ids_def
          enabled_endpoints_def)
qed

text \<open>
  C24: a dispatch run hands over every event it selects: all are counted as dispatched, none is retried or
  failed, each is marked dispatched, and each has exactly one delivery for every enabled endpoint of its tenant
  that subscribes to its type (at least one that was there, or one new one) and no new one elsewhere.
\<close>

theorem dispatch_delivers:
  assumes wf: "outbox_wf env db"
    and us: "\<And>m n. length (fst (us m n)) \<le> 36"
    and recovered: "db1 = update_outbox (stale_event env tenant) (recover_outbox_row (env_now env)) db"
    and run: "dispatch_outbox_events env registry us safe clock db requested tenant = (db', report)"
    and e: "e \<in> set (db_outbox db1)" "out_id e \<in> set (dispatch_candidates env requested tenant db1)"
  shows "dr_dispatched report = length (dispatch_candidates env requested tenant db1) \<and>
         dr_retried report = 0 \<and> dr_failed report = 0 \<and>
         (\<exists>e' \<in> set (db_outbox db'). event_key e' = event_key e \<and> out_status e' = OutDispatched) \<and>
         row_count (keyed (out_tenant_id e) eid (Some (out_event_id e))) (db_deliveries db') =
           (if subscribed db e eid
            then max 1 (row_count (keyed (out_tenant_id e) eid (Some (out_event_id e))) (db_deliveries db))
            else row_count (keyed (out_tenant_id e) eid (Some (out_event_id e))) (db_deliveries db))"
proof -
  let ?ids = "dispatch_candidates env requested tenant db1"
  have wf1: "outbox_wf env db1" unfolding recovered by (rule recover_wf[OF wf])
  obtain rs where loop: "dispatch_loop env registry us safe clock tenant 0 ?ids db1 = (db', rs)"
    and rep: "report = (let dispatched = length (filter (\<lambda>r. r = Dispatched) rs);
              retried = length (filter (\<lambda>r. r = Retried) rs);
              failed = length (filter (\<lambda>r. r = FailedForGood) rs)
          in \<lparr>dr_claimed = dispatched + retried + failed, dr_dispatched = dispatched,
                   dr_retried = retried, dr_failed = failed\<rparr>)"
    using run by (auto simp: dispatch_outbox_events_def Let_def recovered split: prod.splits)
  have dist: "distinct ?ids"
    using wf1 by (intro dispatch_candidates_distinct) (simp add: outbox_wf_def)
  have ready: "\<forall>i \<in> set ?ids. \<exists>x \<in> set (db_outbox db1). out_id x = i \<and> claimable_event tenant i x"
    using dispatch_candidates_due by blast
  have key: "(out_tenant_id e, out_event_id e) = event_key e" by (simp add: event_key_def)
  have same: "db_deliveries db1 = db_deliveries db" "subscribed db1 e eid = subscribed db e eid"
    by (simp_all add: recovered update_outbox_def subscribed_def enabled_endpoints_def)
  from dispatch_loop_works[OF wf1 dist ready us loop e(1) key, of eid] e(2) show ?thesis
    by (auto simp: rep Let_def same filter_replicate)
qed

definition outbox_sample :: db where
  "outbox_sample = endpoint_db\<lparr>db_outbox :=
     [new_outbox_event (base_env\<lparr>env_now := 5\<rparr>) empty_db ''e1'' ''default'' ''runtime-decision'' ''r1'' ''policy.decision''
        sample_payload None]\<rparr>"

theorem dispatch_delivers_witness:
  "row_count (keyed ''default'' ''ep1'' (Some ''e1''))
     (db_deliveries (fst (dispatch_outbox_events base_env [] (\<lambda>m n. (''d1'', ''j1'')) (\<lambda>e. ''failed'') (\<lambda>n. 2000000000)
        outbox_sample None None))) = 1"
proof -
  let ?db1 = "update_outbox (stale_event base_env None) (recover_outbox_row (env_now base_env)) outbox_sample"
  let ?e = "hd (db_outbox outbox_sample)"
  have "length (canonical_json (env_frepr base_env) sample_payload) = 36"
    by code_simp
  then have wf: "outbox_wf base_env outbox_sample"
    by (simp add: outbox_wf_def outbox_sample_def unique_key_def new_outbox_event_def short_ids_def endpoint_db_def
          empty_db_def enabled_endpoints_def where_rows_def)
  have db1: "db_outbox ?db1 = [?e]"
    by (simp add: update_outbox_def outbox_sample_def stale_event_def new_outbox_event_def)
  have cand: "dispatch_candidates base_env None None ?db1 = [1]"
    by code_simp
  have "subscribed outbox_sample ?e ''ep1''"
    by (simp add: subscribed_def outbox_sample_def new_outbox_event_def endpoint_db_def enabled_endpoints_def where_rows_def
          sample_endpoint_def subscribes_def jstrs_def py_in_def)
  moreover have "db_deliveries outbox_sample = []" "out_tenant_id ?e = ''default''" "out_event_id ?e = ''e1''" "out_id ?e = 1"
    by (simp_all add: outbox_sample_def endpoint_db_def empty_db_def new_outbox_event_def next_id_def)
  ultimately show ?thesis
    using dispatch_delivers[OF wf _ refl prod.collapse[symmetric], of "\<lambda>m n. (''d1'', ''j1'')" ?e None None "[]"
        "\<lambda>e. ''failed''" "\<lambda>n. 2000000000" "''ep1''"] db1 cand
    by (simp add: row_count_Cons)
qed

text \<open>A claim that went stale with no attempt left is neither recovered nor failed by any later run.\<close>

lemma exhausted_claim_stuck:
  assumes "out_status e = OutDispatching" and "cfg_governance_outbox_max_attempts (env_settings env) \<le> int (out_attempts e)"
  shows "\<not> stale_event env tenant e \<and> \<not> due_event env tenant e \<and> recover_if_stale env now e = e"
  using assms by (simp add: stale_event_def due_event_def recover_if_stale_def)

end
