(* ===== verification/PolicyRollouts.thy ===== *)
theory PolicyRollouts
  imports RuntimePolicy Outbox
begin

text \<open>
  \<open>app/services/policy_rollouts.py\<close> with its routes in \<open>app/v19.py\<close>: the staged rollout of an
  approved policy bundle. A rollout starts in shadow or canary, moves along the allowed stage
  transitions, and activates its bundle when it is enforced; the runtime reads the rollout of a tenant
  through a second cache and sends a share of the requests to the candidate; a replay evaluates recorded
  decisions against it. The lemmas give the instance of the cache contract, the choice of requests, and
  what a replay counts.
\<close>

section \<open>The rollout a request sees\<close>

record rollout_config =
  rc_rollout_id :: string
  rc_stage :: rollout_stage
  rc_traffic_percentage :: int
  rc_bundle_id :: string
  rc_policy_version :: string
  rc_definitions :: json

type_synonym rollout_cache = "rollout_config option cache"

definition stage_str :: "rollout_stage \<Rightarrow> string" where
  "stage_str s = (case s of Shadow \<Rightarrow> ''shadow'' | Canary \<Rightarrow> ''canary'' | Paused \<Rightarrow> ''paused''
     | Enforce \<Rightarrow> ''enforce'' | StageCompleted \<Rightarrow> ''completed'')"

definition rollout_status_str :: "rollout_state \<Rightarrow> string" where
  "rollout_status_str s = (case s of RolloutActive \<Rightarrow> ''active'' | RolloutCompleted \<Rightarrow> ''completed'')"

definition load_runtime_rollout :: "db \<Rightarrow> string \<Rightarrow> rollout_config option" where
  "load_runtime_rollout db tenant_id =
     (case order_by_desc roll_updated_at
             (where_rows (\<lambda>r. roll_tenant_id r = tenant_id \<and> roll_status r = RolloutActive \<and> roll_stage r \<in> {Shadow, Canary})
               (db_rollouts db)) of
        [] \<Rightarrow> None
      | r # _ \<Rightarrow>
          (case find_bundle db tenant_id (roll_bundle_id r) of
             None \<Rightarrow> None
           | Some b \<Rightarrow>
               if bundle_status b \<noteq> BApproved then None
               else Some \<lparr>rc_rollout_id = roll_rollout_id r, rc_stage = roll_stage r,
                      rc_traffic_percentage = roll_traffic_percentage r, rc_bundle_id = bundle_bundle_id b,
                      rc_policy_version = bundle_version_label b, rc_definitions = bundle_definition_json b\<rparr>))"

definition fetch_rollout ::
  "int \<Rightarrow> time \<Rightarrow> db \<Rightarrow> rollout_cache \<Rightarrow> string \<Rightarrow> (rollout_config option \<times> rollout_cache) result" where
  "fetch_rollout ttl now db cache tenant_id =
     (case cache_live now cache tenant_id of
        Some config \<Rightarrow> Inr (config, cache)
      | None \<Rightarrow>
          let config = load_runtime_rollout db tenant_id
          in Inr (config, cache_put now ttl tenant_id config cache))"

definition invalidate_rollout_cache :: "string option \<Rightarrow> rollout_cache \<Rightarrow> rollout_cache" where
  "invalidate_rollout_cache tenant cache = cache_drop tenant cache"

interpretation rollout_cache: ttl_cache
  "\<lambda>db tenant_id. Inr (load_runtime_rollout db tenant_id)" ttl "fetch_rollout ttl" invalidate_rollout_cache
  for ttl
  by unfold_locales
     (auto simp: fetch_rollout_def invalidate_rollout_cache_def cache_drop_def cache_live_def Let_def
           split: option.splits)

text \<open>\<open>int(digest[:8], 16) % 100\<close>.\<close>

definition hex_value :: "char \<Rightarrow> nat" where
  "hex_value c = (let n = (of_char c :: nat) in
     if 48 \<le> n \<and> n \<le> 57 then n - 48 else if 97 \<le> n \<and> n \<le> 102 then n - 87 else 0)"

definition selector_bucket :: "env \<Rightarrow> string \<Rightarrow> int" where
  "selector_bucket env selector = fold (\<lambda>c a. a * 16 + int (hex_value c)) (take 8 (env_sha256 env selector)) 0 mod 100"

definition canary_selected :: "rollout_config \<Rightarrow> int \<Rightarrow> bool" where
  "canary_selected config bucket = (rc_stage config = Canary \<and> bucket < rc_traffic_percentage config)"

text \<open>The configuration with the request's bucket and whether the candidate answers it.\<close>

definition runtime_rollout ::
  "env \<Rightarrow> db \<Rightarrow> rollout_cache \<Rightarrow> string \<Rightarrow> string \<Rightarrow> ((rollout_config \<times> int \<times> bool) option \<times> rollout_cache) result" where
  "runtime_rollout env db cache tenant_id selector =
     rbind (fetch_rollout (cfg_policy_rollout_cache_seconds (env_settings env)) (env_monotonic env) db cache tenant_id)
       (\<lambda>(config, cache').
     Inr (case config of
            None \<Rightarrow> None
          | Some c \<Rightarrow> let bucket = selector_bucket env selector in Some (c, bucket, canary_selected c bucket), cache'))"

section \<open>Creating and advancing\<close>

record rollout_create =
  rq_bundle_id :: string
  rq_stage :: rollout_stage
  rq_traffic_percentage :: int
  rq_replay_limit :: int

definition rollout_create_ok :: "rollout_create \<Rightarrow> bool" where
  "rollout_create_ok r = (field_length 1 36 (rq_bundle_id r) \<and> rq_stage r \<in> {Shadow, Canary} \<and>
     0 \<le> rq_traffic_percentage r \<and> rq_traffic_percentage r \<le> 99 \<and>
     1 \<le> rq_replay_limit r \<and> rq_replay_limit r \<le> 5000)"

definition active_rollout :: "db \<Rightarrow> string \<Rightarrow> policy_rollout option" where
  "active_rollout db tenant_id = scalar (\<lambda>r. roll_tenant_id r = tenant_id \<and> roll_status r = RolloutActive) (db_rollouts db)"

definition find_rollout :: "db \<Rightarrow> string \<Rightarrow> string \<Rightarrow> policy_rollout option" where
  "find_rollout db tenant_id rid = scalar (\<lambda>r. roll_tenant_id r = tenant_id \<and> roll_rollout_id r = rid) (db_rollouts db)"

definition new_rollout :: "env \<Rightarrow> string \<Rightarrow> db \<Rightarrow> string \<Rightarrow> rollout_create \<Rightarrow> policy_bundle \<Rightarrow> string \<Rightarrow> policy_rollout" where
  "new_rollout env uuid db tenant_id req b created_by =
     \<lparr>roll_id = next_id roll_id (db_rollouts db), roll_tenant_id = tenant_id, roll_rollout_id = uuid,
      roll_bundle_id = bundle_bundle_id b, roll_baseline_bundle_id = map_option bundle_bundle_id (current_active db tenant_id),
      roll_stage = rq_stage req, roll_status = RolloutActive, roll_traffic_percentage = rq_traffic_percentage req,
      roll_replay_limit = rq_replay_limit req, roll_replay_evaluated = 0, roll_replay_changed = 0,
      roll_replay_newly_denied = 0, roll_replay_newly_permitted = 0, roll_replay_incomplete = 0,
      roll_last_replay_id = None, roll_created_by = created_by, roll_promoted_by = None,
      roll_created_at = env_now env, roll_updated_at = env_now env, roll_completed_at = None\<rparr>"

definition rollout_candidate :: "db \<Rightarrow> string \<Rightarrow> rollout_create \<Rightarrow> policy_bundle result" where
  "rollout_candidate db tenant_id req =
     rbind (raise_if (active_rollout db tenant_id \<noteq> None)
              (ValueError ''Only one active policy rollout is allowed per tenant'')) (\<lambda>_.
     case find_bundle db tenant_id (rq_bundle_id req) of
       None \<Rightarrow> Inl (ValueError ''Policy rollout requires an approved candidate bundle'')
     | Some b \<Rightarrow>
         rbind (raise_if (bundle_status b \<noteq> BApproved)
                  (ValueError ''Policy rollout requires an approved candidate bundle'')) (\<lambda>_.
         rbind (raise_if (rq_stage req = Shadow \<and> rq_traffic_percentage req \<noteq> 0)
                  (ValueError ''Shadow rollouts must use zero traffic percentage'')) (\<lambda>_.
         rbind (raise_if (rq_stage req = Canary \<and> \<not> (1 \<le> rq_traffic_percentage req \<and> rq_traffic_percentage req \<le> 99))
                  (ValueError ''Canary rollouts require traffic percentage from 1 to 99'')) (\<lambda>_.
         Inr b))))"

definition rollout_created_payload :: "policy_rollout \<Rightarrow> json" where
  "rollout_created_payload r = JObj
     [(''rollout_id'', JStr (roll_rollout_id r)), (''bundle_id'', JStr (roll_bundle_id r)),
      (''stage'', JStr (stage_str (roll_stage r))), (''traffic_percentage'', JInt (roll_traffic_percentage r))]"

definition create_rollout ::
  "env \<Rightarrow> string \<times> string \<Rightarrow> string \<Rightarrow> rollout_create \<Rightarrow> string \<Rightarrow> db \<times> rollout_cache \<Rightarrow>
     ((db \<times> rollout_cache) \<times> policy_rollout) result" where
  "create_rollout env uuid tenant_id req created_by = (\<lambda>(db, cache).
     rbind (rollout_candidate db tenant_id req) (\<lambda>b.
     let r = new_rollout env (fst uuid) db tenant_id req b created_by in
     rbind (queue_outbox_event env (snd uuid) (db\<lparr>db_rollouts := db_rollouts db @ [r]\<rparr>) tenant_id ''policy-rollout''
              (roll_rollout_id r) ''policy.rollout.created'' (rollout_created_payload r)
              (Some (''policy-rollout-created:'' @ roll_rollout_id r))) (\<lambda>(db', e).
     Inr ((db', invalidate_rollout_cache (Some tenant_id) cache), r))))"

text \<open>The unique constraint of the table is met by a route that answers a violation with 409.\<close>

definition create_policy_rollout ::
  "env \<Rightarrow> string \<times> string \<Rightarrow> principal \<Rightarrow> rollout_create \<Rightarrow> db \<times> rollout_cache \<Rightarrow>
     ((db \<times> rollout_cache) \<times> policy_rollout) result" where
  "create_policy_rollout env uuid who req s =
     rbind (require_role Administrator who) (\<lambda>_.
     rbind (check_body (rollout_create_ok req)) (\<lambda>_.
     rbind (bad_request (create_rollout env uuid (p_tenant_id who) req (p_subject who) s)) (\<lambda>x.
     rbind (raise_if (find_rollout (fst s) (p_tenant_id who) (fst uuid) \<noteq> None)
              (HTTPException 409 ''Policy rollout already exists'')) (\<lambda>_.
     Inr x))))"

definition stage_transitions :: "rollout_stage \<Rightarrow> rollout_stage set" where
  "stage_transitions s = (case s of
       Shadow \<Rightarrow> {Canary, Paused, StageCompleted}
     | Canary \<Rightarrow> {Shadow, Enforce, Paused, StageCompleted}
     | Paused \<Rightarrow> {Shadow, Canary, StageCompleted}
     | _ \<Rightarrow> {})"

definition stage_traffic :: "rollout_stage \<Rightarrow> int option \<Rightarrow> int" where
  "stage_traffic s traffic = (case s of Canary \<Rightarrow> (case traffic of None \<Rightarrow> 0 | Some t \<Rightarrow> t) | Enforce \<Rightarrow> 100 | _ \<Rightarrow> 0)"

definition advanced_rollout :: "time \<Rightarrow> rollout_stage \<Rightarrow> int option \<Rightarrow> string \<Rightarrow> policy_rollout \<Rightarrow> policy_rollout" where
  "advanced_rollout now s traffic promoted_by r =
     (let r1 = r\<lparr>roll_traffic_percentage := stage_traffic s traffic\<rparr>;
          r2 = (if s \<in> {Enforce, StageCompleted} then r1\<lparr>roll_status := RolloutCompleted, roll_completed_at := Some now\<rparr> else r1)
      in r2\<lparr>roll_stage := s, roll_promoted_by := Some promoted_by, roll_updated_at := now\<rparr>)"

definition update_rollout :: "nat \<Rightarrow> (policy_rollout \<Rightarrow> policy_rollout) \<Rightarrow> db \<Rightarrow> db" where
  "update_rollout i f db = db\<lparr>db_rollouts := update_rows (\<lambda>r. roll_id r = i) f (db_rollouts db)\<rparr>"

definition advance_checks :: "policy_rollout \<Rightarrow> rollout_stage \<Rightarrow> int option \<Rightarrow> unit result" where
  "advance_checks r s traffic =
     rbind (raise_if (roll_status r \<noteq> RolloutActive \<or> s \<notin> stage_transitions (roll_stage r))
              (ValueError ''Policy rollout stage transition is not allowed'')) (\<lambda>_.
     raise_if (s = Canary \<and> (case traffic of None \<Rightarrow> True | Some t \<Rightarrow> \<not> (1 \<le> t \<and> t \<le> 99)))
       (ValueError ''Canary stage requires traffic percentage from 1 to 99''))"

definition enforce_candidate :: "env \<Rightarrow> policy_rollout \<Rightarrow> rollout_stage \<Rightarrow> db \<Rightarrow> db result" where
  "enforce_candidate env r s db =
     (if s = Enforce
      then (case find_bundle db (roll_tenant_id r) (roll_bundle_id r) of
              None \<Rightarrow> Inl (ValueError ''Candidate bundle is no longer approved'')
            | Some b \<Rightarrow>
                if bundle_status b \<noteq> BApproved then Inl (ValueError ''Candidate bundle is no longer approved'')
                else Inr (activate_bundle (env_now env) (bundle_tenant_id b) b db))
      else Inr db)"

definition rollout_advanced_payload :: "policy_rollout \<Rightarrow> json" where
  "rollout_advanced_payload r = JObj
     [(''rollout_id'', JStr (roll_rollout_id r)), (''bundle_id'', JStr (roll_bundle_id r)),
      (''stage'', JStr (stage_str (roll_stage r))), (''traffic_percentage'', JInt (roll_traffic_percentage r)),
      (''status'', JStr (rollout_status_str (roll_status r)))]"

definition advance_key :: "policy_rollout \<Rightarrow> string" where
  "advance_key r = ''policy-rollout-stage:'' @ roll_rollout_id r @ '':'' @ stage_str (roll_stage r) @ '':'' @
     show_int (roll_traffic_percentage r)"

text \<open>The state a rollout changes: the database and the two caches of the process.\<close>

type_synonym rollout_world = "db \<times> policy_cache \<times> rollout_cache"

definition advance_rollout ::
  "env \<Rightarrow> string \<Rightarrow> policy_rollout \<Rightarrow> rollout_stage \<Rightarrow> int option \<Rightarrow> string \<Rightarrow> rollout_world \<Rightarrow> rollout_world result" where
  "advance_rollout env uuid r s traffic promoted_by = (\<lambda>(db, pc, rc).
     rbind (advance_checks r s traffic) (\<lambda>_.
     rbind (enforce_candidate env r s db) (\<lambda>db1.
     let r' = advanced_rollout (env_now env) s traffic promoted_by r;
         db2 = update_rollout (roll_id r) (advanced_rollout (env_now env) s traffic promoted_by) db1
     in rbind (queue_outbox_event env uuid db2 (roll_tenant_id r) ''policy-rollout'' (roll_rollout_id r)
                 ''policy.rollout.advanced'' (rollout_advanced_payload r') (Some (advance_key r'))) (\<lambda>(db3, e).
        Inr (db3, invalidate_policy_cache (Some (roll_tenant_id r)) pc, invalidate_rollout_cache (Some (roll_tenant_id r)) rc)))))"

definition rollout_or_404 :: "db \<Rightarrow> string \<Rightarrow> string \<Rightarrow> policy_rollout result" where
  "rollout_or_404 db tenant_id rid =
     (case find_rollout db tenant_id rid of None \<Rightarrow> Inl (HTTPException 404 ''Policy rollout not found'') | Some r \<Rightarrow> Inr r)"

definition advance_policy_rollout ::
  "env \<Rightarrow> string \<Rightarrow> principal \<Rightarrow> string \<Rightarrow> rollout_stage \<Rightarrow> int option \<Rightarrow> rollout_world \<Rightarrow> rollout_world result" where
  "advance_policy_rollout env uuid who rid s traffic w =
     rbind (require_role Administrator who) (\<lambda>_.
     rbind (check_body (case traffic of None \<Rightarrow> True | Some t \<Rightarrow> 1 \<le> t \<and> t \<le> 99)) (\<lambda>_.
     rbind (rollout_or_404 (fst w) (p_tenant_id who) rid) (\<lambda>r.
     bad_request (advance_rollout env uuid r s traffic (p_subject who) w))))"

section \<open>Replays\<close>

record replay_tally =
  rt_evaluated :: nat
  rt_changed :: nat
  rt_newly_denied :: nat
  rt_newly_permitted :: nat
  rt_incomplete :: nat
  rt_examples :: "json list"

definition no_tally :: replay_tally where
  "no_tally = \<lparr>rt_evaluated = 0, rt_changed = 0, rt_newly_denied = 0, rt_newly_permitted = 0, rt_incomplete = 0, rt_examples = []\<rparr>"

definition replay_request :: "runtime_decision_receipt \<Rightarrow> authz_request" where
  "replay_request p =
     \<lparr>rq_subject_type = rcpt_subject_type p, rq_subject_id = rcpt_subject_id p, rq_subject_properties = [],
      rq_resource_type = rcpt_resource_type p, rq_resource_id = rcpt_resource_id p, rq_resource_properties = [],
      rq_action_name = rcpt_action_name p, rq_action_properties = [], rq_context = jobj (rcpt_replay_context_json p)\<rparr>"

definition replay_example :: "runtime_decision_receipt \<Rightarrow> decision \<Rightarrow> json" where
  "replay_example p candidate = JObj
     [(''receipt_id'', JStr (rcpt_receipt_id p)), (''baseline'', JStr (decision_str (rcpt_policy_decision p))),
      (''candidate'', JStr (decision_str candidate)),
      (''subject'', JObj [(''type'', JStr (rcpt_subject_type p)), (''id'', JStr (rcpt_subject_id p))]),
      (''resource'', JObj [(''type'', JStr (rcpt_resource_type p)), (''id'', JStr (rcpt_resource_id p))]),
      (''action'', JStr (rcpt_action_name p))]"

definition count_replay :: "runtime_decision_receipt \<Rightarrow> decision \<Rightarrow> replay_tally \<Rightarrow> replay_tally" where
  "count_replay p candidate t =
     (let t1 = t\<lparr>rt_evaluated := Suc (rt_evaluated t)\<rparr>;
          base = rcpt_policy_decision p
      in if candidate = base then t1
         else t1\<lparr>rt_changed := Suc (rt_changed t),
                 rt_newly_denied := rt_newly_denied t + (if base \<noteq> Deny \<and> candidate = Deny then 1 else 0),
                 rt_newly_permitted := rt_newly_permitted t + (if base = Deny \<and> candidate \<noteq> Deny then 1 else 0),
                 rt_examples := (if length (rt_examples t) < 100 then rt_examples t @ [replay_example p candidate]
                                 else rt_examples t)\<rparr>)"

fun replay_loop ::
  "env \<Rightarrow> db \<Rightarrow> string \<Rightarrow> policy_bundle \<Rightarrow> runtime_decision_receipt list \<Rightarrow> policy_cache \<times> lookups option \<Rightarrow> replay_tally \<Rightarrow>
     replay_tally result" where
  "replay_loop env db tenant_id b [] m t = Inr t"
| "replay_loop env db tenant_id b (p # ps) m t =
     (if \<not> rcpt_replayable p
      then replay_loop env db tenant_id b ps m (t\<lparr>rt_incomplete := Suc (rt_incomplete t)\<rparr>)
      else rbind (raise_if (\<not> request_ok env (replay_request p)) (ValueError ''validation error'')) (\<lambda>_.
           rbind (evaluate_policy_only env db (fst m) (snd m) tenant_id (replay_request p)
                    (Some (bundle_definition_json b)) (Some (bundle_version_label b))) (\<lambda>(ev, m').
           replay_loop env db tenant_id b ps m' (count_replay p (ev_decision ev) t))))"

definition replay_receipts :: "db \<Rightarrow> string \<Rightarrow> nat \<Rightarrow> runtime_decision_receipt list" where
  "replay_receipts db tenant_id n =
     take n (order_by_desc rcpt_created_at (where_rows (\<lambda>p. rcpt_tenant_id p = tenant_id) (db_receipts db)))"

definition new_replay ::
  "env \<Rightarrow> string \<Rightarrow> db \<Rightarrow> policy_rollout \<Rightarrow> runtime_decision_receipt list \<Rightarrow> replay_tally \<Rightarrow> string \<Rightarrow> policy_replay" where
  "new_replay env uuid db r ps t created_by =
     \<lparr>replay_id = next_id replay_id (db_replays db), replay_tenant_id = roll_tenant_id r, replay_replay_id = uuid,
      replay_rollout_id = roll_rollout_id r, replay_bundle_id = roll_bundle_id r,
      replay_baseline_policy_version = (case ps of [] \<Rightarrow> ''none'' | p # _ \<Rightarrow> rcpt_policy_version p),
      replay_evaluated = rt_evaluated t, replay_changed = rt_changed t, replay_newly_denied = rt_newly_denied t,
      replay_newly_permitted = rt_newly_permitted t, replay_incomplete = rt_incomplete t,
      replay_examples_json = JList (rt_examples t), replay_created_by = created_by, replay_created_at = env_now env\<rparr>"

definition replayed_rollout :: "time \<Rightarrow> policy_replay \<Rightarrow> policy_rollout \<Rightarrow> policy_rollout" where
  "replayed_rollout now p r =
     r\<lparr>roll_replay_evaluated := replay_evaluated p, roll_replay_changed := replay_changed p,
       roll_replay_newly_denied := replay_newly_denied p, roll_replay_newly_permitted := replay_newly_permitted p,
       roll_replay_incomplete := replay_incomplete p, roll_last_replay_id := Some (replay_replay_id p),
       roll_updated_at := now\<rparr>"

definition replay_payload_json :: "policy_replay \<Rightarrow> json" where
  "replay_payload_json p = JObj
     [(''rollout_id'', JStr (replay_rollout_id p)), (''replay_id'', JStr (replay_replay_id p)),
      (''evaluated'', JInt (int (replay_evaluated p))), (''changed'', JInt (int (replay_changed p))),
      (''newly_denied'', JInt (int (replay_newly_denied p))), (''newly_permitted'', JInt (int (replay_newly_permitted p))),
      (''incomplete'', JInt (int (replay_incomplete p)))]"

definition replay_rollout ::
  "env \<Rightarrow> string \<times> string \<Rightarrow> policy_rollout \<Rightarrow> int option \<Rightarrow> string \<Rightarrow> policy_cache \<Rightarrow> db \<Rightarrow> (db \<times> policy_replay) result" where
  "replay_rollout env uuid r requested created_by cache db =
     (case find_bundle db (roll_tenant_id r) (roll_bundle_id r) of
        None \<Rightarrow> Inl (ValueError ''Candidate policy bundle not found'')
      | Some b \<Rightarrow>
          let ps = replay_receipts db (roll_tenant_id r) (bounded_limit requested (roll_replay_limit r) 5000)
          in rbind (replay_loop env db (roll_tenant_id r) b ps (cache, Some no_lookups) no_tally) (\<lambda>t.
             let p = new_replay env (fst uuid) db r ps t created_by;
                 db1 = update_rollout (roll_id r) (replayed_rollout (env_now env) p) (db\<lparr>db_replays := db_replays db @ [p]\<rparr>)
             in rbind (queue_outbox_event env (snd uuid) db1 (roll_tenant_id r) ''policy-rollout'' (roll_rollout_id r)
                         ''policy.rollout.replayed'' (replay_payload_json p) (Some (''policy-replay:'' @ replay_replay_id p)))
                  (\<lambda>(db2, e). Inr (db2, p))))"

definition create_policy_replay ::
  "env \<Rightarrow> string \<times> string \<Rightarrow> principal \<Rightarrow> string \<Rightarrow> int option \<Rightarrow> policy_cache \<Rightarrow> db \<Rightarrow> (db \<times> policy_replay) result" where
  "create_policy_replay env uuid who rid requested cache db =
     rbind (require_role Administrator who) (\<lambda>_.
     rbind (check_body (case requested of None \<Rightarrow> True | Some n \<Rightarrow> 1 \<le> n \<and> n \<le> 5000)) (\<lambda>_.
     rbind (rollout_or_404 db (p_tenant_id who) rid) (\<lambda>r.
     bad_request (replay_rollout env uuid r requested (p_subject who) cache db))))"


section \<open>Facts and properties\<close>

lemma selector_bucket_bounds: "0 \<le> selector_bucket env s \<and> selector_bucket env s < 100"
  by (simp add: selector_bucket_def)

lemma runtime_rollout_Some:
  "runtime_rollout env db cache t selector = Inr (Some (c, bucket, selected), cache') \<Longrightarrow>
   bucket = selector_bucket env selector \<and> selected = canary_selected c bucket"
  by (auto simp: runtime_rollout_def result_simps Let_def split: option.splits)

lemma canary_buckets:
  assumes "0 \<le> rc_traffic_percentage c" and "rc_traffic_percentage c \<le> 100"
  shows "int (card {b \<in> {0..<100}. canary_selected c b}) = (if rc_stage c = Canary then rc_traffic_percentage c else 0)"
proof -
  have "{b \<in> {0..<100}. canary_selected c b} = (if rc_stage c = Canary then {0..<rc_traffic_percentage c} else {})"
    using assms by (auto simp: canary_selected_def)
  with assms show ?thesis by simp
qed

text \<open>
  The candidate answers a request exactly when the rollout is in canary and the request's bucket, a
  number below 100 fixed by its text, lies below the traffic share. So a share of n out of 100 selects n
  of the 100 buckets, a shadow rollout selects none, and a request that is selected stays selected when
  the share of the canary grows.
\<close>

theorem canary_share:
  assumes "runtime_rollout env db cache t selector = Inr (Some (c, bucket, selected), cache')"
  shows "0 \<le> bucket \<and> bucket < 100 \<and> (selected \<longleftrightarrow> rc_stage c = Canary \<and> bucket < rc_traffic_percentage c) \<and>
    (0 \<le> rc_traffic_percentage c \<and> rc_traffic_percentage c \<le> 100 \<longrightarrow>
       int (card {b \<in> {0..<100}. canary_selected c b}) = (if rc_stage c = Canary then rc_traffic_percentage c else 0)) \<and>
    (\<forall>db2 cache2 cache3 t2 c2 bucket2 selected2.
       runtime_rollout env db2 cache2 t2 selector = Inr (Some (c2, bucket2, selected2), cache3) \<longrightarrow>
       selected \<longrightarrow> rc_stage c2 = Canary \<longrightarrow> rc_traffic_percentage c \<le> rc_traffic_percentage c2 \<longrightarrow> selected2)"
proof (intro conjI allI impI)
  show "selected \<longleftrightarrow> rc_stage c = Canary \<and> bucket < rc_traffic_percentage c"
    using runtime_rollout_Some[OF assms] by (simp add: canary_selected_def)
  show "int (card {b \<in> {0..<100}. canary_selected c b}) = (if rc_stage c = Canary then rc_traffic_percentage c else 0)"
    if "0 \<le> rc_traffic_percentage c \<and> rc_traffic_percentage c \<le> 100"
    using that by (intro canary_buckets) simp_all
qed (use runtime_rollout_Some[OF assms] selector_bucket_bounds[of env selector] in
     \<open>auto simp: canary_selected_def dest!: runtime_rollout_Some\<close>)

definition sample_rollout :: policy_rollout where
  "sample_rollout =
     \<lparr>roll_id = 1, roll_tenant_id = ''default'', roll_rollout_id = ''r1'', roll_bundle_id = ''b1'',
      roll_baseline_bundle_id = None, roll_stage = Canary, roll_status = RolloutActive, roll_traffic_percentage = 40,
      roll_replay_limit = 500, roll_replay_evaluated = 0, roll_replay_changed = 0, roll_replay_newly_denied = 0,
      roll_replay_newly_permitted = 0, roll_replay_incomplete = 0, roll_last_replay_id = None,
      roll_created_by = ''ada'', roll_promoted_by = None, roll_created_at = 0, roll_updated_at = 0,
      roll_completed_at = None\<rparr>"

definition rollout_db :: db where
  "rollout_db = empty_db\<lparr>
     db_bundles := [approved_bundle 0 ''ada'' (new_bundle base_env ''b1'' empty_db sample_owner small_bundle)],
     db_rollouts := [sample_rollout]\<rparr>"

theorem canary_share_witness:
  "\<exists>c bucket selected cache'. runtime_rollout base_env rollout_db Map.empty ''default'' ''x'' =
     Inr (Some (c, bucket, selected), cache') \<and> bucket < 100 \<and> (selected \<longleftrightarrow> bucket < 40)"
proof -
  have "ok_with (\<lambda>(x, c). (case x of None \<Rightarrow> False | Some (c, b, s) \<Rightarrow> rc_stage c = Canary \<and> rc_traffic_percentage c = 40))
    (runtime_rollout base_env rollout_db Map.empty ''default'' ''x'')"
    by code_simp
  then obtain c bucket selected cache' where r: "runtime_rollout base_env rollout_db Map.empty ''default'' ''x'' =
     Inr (Some (c, bucket, selected), cache')" and c: "rc_stage c = Canary" "rc_traffic_percentage c = 40"
    by (auto elim!: ok_withE split: option.splits)
  from canary_share[OF r] r c show ?thesis by auto
qed

section \<open>What a replay counts\<close>

text \<open>The candidate's decision on a recorded request, evaluated on its own.\<close>

definition candidate_decision ::
  "env \<Rightarrow> db \<Rightarrow> policy_cache \<Rightarrow> string \<Rightarrow> policy_bundle \<Rightarrow> runtime_decision_receipt \<Rightarrow> decision option" where
  "candidate_decision env db cache t b p =
     (case evaluate_policy_only env db cache None t (replay_request p) (Some (bundle_definition_json b))
             (Some (bundle_version_label b)) of
        Inl e \<Rightarrow> None | Inr (ev, c, m) \<Rightarrow> Some (ev_decision ev))"

lemma select_matches_given_cache: "select_matches env db cache ctx t (Some ps) vo = Inr (x, cache') \<Longrightarrow> cache' = cache"
  by (auto simp: select_matches_def result_simps)

lemma evaluate_given_cache:
  assumes "evaluate_policy_only env db cache memo t r (Some ps) vo = Inr (ev, cache', memo')"
  shows "cache' = cache"
proof -
  obtain agent memo1 where a: "lookup_agent db t (rq_subject_type r) (rq_subject_id r) memo = (agent, memo1)"
    by (rule prod.exhaust)
  obtain asset memo2 where b: "lookup_asset db t (rq_resource_type r) (rq_resource_id r) memo1 = (asset, memo2)"
    by (rule prod.exhaust)
  obtain res memo3 where c: "lookup_ai_resource db t (rq_resource_type r) (rq_resource_id r) memo2 = (res, memo3)"
    by (rule prod.exhaust)
  show ?thesis
    using assms
    by (auto simp: evaluate_policy_only_def a b c evaluate_def result_simps dest: select_matches_given_cache
             split: if_splits option.splits)
qed

lemma evaluate_candidate:
  assumes "memo_ok db memo"
    and "evaluate_policy_only env db cache memo t (replay_request p) (Some (bundle_definition_json b))
           (Some (bundle_version_label b)) = Inr (ev, cache', memo')"
  shows "candidate_decision env db cache t b p = Some (ev_decision ev) \<and> cache' = cache \<and> memo_ok db memo'"
  using evaluate_policy_only_memo[OF assms(1), of env cache t "replay_request p" "Some (bundle_definition_json b)"
      "Some (bundle_version_label b)"] evaluate_given_cache[OF assms(2)]
  unfolding assms(2) candidate_decision_def
  by (auto elim!: rel_sum.cases split: sum.splits prod.splits)

definition tally_of :: "(runtime_decision_receipt \<Rightarrow> decision option) \<Rightarrow> runtime_decision_receipt list \<Rightarrow> replay_tally \<Rightarrow> replay_tally \<Rightarrow> bool" where
  "tally_of dec ps t t' \<longleftrightarrow>
     (let rs = filter rcpt_replayable ps; ch = filter (\<lambda>p. dec p \<noteq> Some (rcpt_policy_decision p)) rs in
      (\<forall>p \<in> set rs. dec p \<noteq> None) \<and>
      rt_evaluated t' = rt_evaluated t + length rs \<and> rt_incomplete t' = rt_incomplete t + (length ps - length rs) \<and>
      rt_changed t' = rt_changed t + length ch \<and>
      rt_newly_denied t' = rt_newly_denied t + length (filter (\<lambda>p. dec p = Some Deny) ch) \<and>
      rt_newly_permitted t' = rt_newly_permitted t + length (filter (\<lambda>p. rcpt_policy_decision p = Deny) ch) \<and>
      length (rt_examples t') = min 100 (length (rt_examples t) + length ch) + (length (rt_examples t) - 100))"

lemma replay_loop_tally:
  assumes "replay_loop env db t b ps (cache, memo) t0 = Inr t1" and "memo_ok db memo"
  shows "tally_of (candidate_decision env db cache t b) ps t0 t1"
  using assms
proof (induction ps arbitrary: memo t0)
  case Nil
  then show ?case by (auto simp: tally_of_def)
next
  case (Cons p ps)
  show ?case
  proof (cases "rcpt_replayable p")
    case False
    with Cons.prems have "replay_loop env db t b ps (cache, memo) (t0\<lparr>rt_incomplete := Suc (rt_incomplete t0)\<rparr>) = Inr t1"
      by simp
    from Cons.IH[OF this Cons.prems(2)] False show ?thesis
      by (simp add: tally_of_def Let_def Suc_diff_le)
  next
    case True
    with Cons.prems obtain ev cache' memo' where
      e: "evaluate_policy_only env db cache memo t (replay_request p) (Some (bundle_definition_json b))
           (Some (bundle_version_label b)) = Inr (ev, cache', memo')"
      and l: "replay_loop env db t b ps (cache', memo') (count_replay p (ev_decision ev) t0) = Inr t1"
      by (auto simp: result_simps)
    from evaluate_candidate[OF Cons.prems(2) e] have d: "candidate_decision env db cache t b p = Some (ev_decision ev)"
      and c: "cache' = cache" "memo_ok db memo'" by simp_all
    from Cons.IH[OF l[unfolded c(1)] c(2)] True d show ?thesis
      by (auto simp: tally_of_def Let_def count_replay_def split: if_splits)
  qed
qed


lemma queue_outbox_Inr:
  assumes "queue_outbox_event env uuid db t aty aid ety payload key = Inr (db', e)"
  shows "\<exists>es. db' = db\<lparr>db_outbox := es\<rparr>"
proof (cases "find_outbox_key db t key")
  case (Some existing)
  with assms have "db' = db" by (auto simp: queue_outbox_event_def result_simps split: if_splits)
  then show ?thesis by (intro exI[of _ "db_outbox db"]) simp
qed (use assms in \<open>auto simp: queue_outbox_event_def result_simps Let_def\<close>)

text \<open>
  A replay evaluates the most recent receipts of the tenant, at most the requested number and 5000. It
  counts as evaluated those that can be replayed and as incomplete the others; as changed those on which the
  candidate, evaluated on the request alone, decides differently than recorded, among them as newly denied
  those it denies and as newly permitted those that were denied; it keeps at most 100 examples of them. It
  stores these figures and changes no receipt and no bundle.
\<close>

theorem replay_counts_exact:
  assumes "replay_rollout env uuid r requested who cache db = Inr (db', p)"
    and "find_bundle db (roll_tenant_id r) (roll_bundle_id r) = Some b"
  shows "(let n = bounded_limit requested (roll_replay_limit r) 5000;
              ps = replay_receipts db (roll_tenant_id r) n;
              rs = filter rcpt_replayable ps;
              dec = candidate_decision env db cache (roll_tenant_id r) b;
              ch = filter (\<lambda>q. dec q \<noteq> Some (rcpt_policy_decision q)) rs
          in length ps \<le> n \<and> n \<le> 5000 \<and> (\<forall>q \<in> set rs. dec q \<noteq> None) \<and>
             replay_evaluated p = length rs \<and> replay_incomplete p = length ps - length rs \<and>
             replay_changed p = length ch \<and>
             replay_newly_denied p = length (filter (\<lambda>q. dec q = Some Deny) ch) \<and>
             replay_newly_permitted p = length (filter (\<lambda>q. rcpt_policy_decision q = Deny) ch) \<and>
             length (jlist (replay_examples_json p)) = min 100 (length ch)) \<and>
         p \<in> set (db_replays db') \<and> db_receipts db' = db_receipts db \<and> db_bundles db' = db_bundles db"
proof -
  define ps where "ps = replay_receipts db (roll_tenant_id r) (bounded_limit requested (roll_replay_limit r) 5000)"
  from assms obtain t db1 e where l: "replay_loop env db (roll_tenant_id r) b ps (cache, Some no_lookups) no_tally = Inr t"
    and p: "p = new_replay env (fst uuid) db r ps t who"
    and q: "queue_outbox_event env (snd uuid)
        (update_rollout (roll_id r) (replayed_rollout (env_now env) p) (db\<lparr>db_replays := db_replays db @ [p]\<rparr>))
        (roll_tenant_id r) ''policy-rollout'' (roll_rollout_id r) ''policy.rollout.replayed'' (replay_payload_json p)
        (Some (''policy-replay:'' @ replay_replay_id p)) = Inr (db', e)"
    by (auto simp: replay_rollout_def result_simps Let_def ps_def)
  from replay_loop_tally[OF l] have tally: "tally_of (candidate_decision env db cache (roll_tenant_id r) b) ps no_tally t"
    by simp
  from queue_outbox_Inr[OF q] have db: "p \<in> set (db_replays db')" "db_receipts db' = db_receipts db" "db_bundles db' = db_bundles db"
    by (auto simp: update_rollout_def)
  have n: "length ps \<le> bounded_limit requested (roll_replay_limit r) 5000" "bounded_limit requested (roll_replay_limit r) 5000 \<le> 5000"
    using bounded_limit_bounds[of 5000 requested "roll_replay_limit r"] by (auto simp: ps_def replay_receipts_def)
  show ?thesis
    unfolding Let_def ps_def[symmetric]
    using tally db n by (auto simp: tally_of_def Let_def no_tally_def p new_replay_def)
qed

definition sample_receipt :: runtime_decision_receipt where
  "sample_receipt =
     \<lparr>rcpt_id = 1, rcpt_tenant_id = ''default'', rcpt_receipt_id = ''p1'', rcpt_request_id = None,
      rcpt_idempotency_key = None, rcpt_subject_type = ''agent'', rcpt_subject_id = ''ghost'', rcpt_action_name = ''read'',
      rcpt_resource_type = ''model'', rcpt_resource_id = ''m'', rcpt_request_sha256 = [], rcpt_decision = True,
      rcpt_policy_decision = Allow, rcpt_enforcement_mode = ''enforce'', rcpt_risk_score = 20,
      rcpt_policy_version = ''1.9.0'', rcpt_matched_policies_json = JList [], rcpt_reasons_json = JList [],
      rcpt_obligations_json = JList [], rcpt_replay_context_json = JObj [], rcpt_replayable = True,
      rcpt_rollout_id = None, rcpt_rollout_stage = None, rcpt_baseline_policy_decision = None,
      rcpt_candidate_policy_decision = None, rcpt_manifest_json = JObj [], rcpt_manifest_sha256 = [],
      rcpt_signing_status = SigUnsigned, rcpt_signing_profile = None, rcpt_assurance_json = JObj [],
      rcpt_signing_attempts = 0, rcpt_signing_available_at = 0, rcpt_signing_claimed_at = None,
      rcpt_signing_error = None, rcpt_retention_until = 0, rcpt_created_at = 0\<rparr>"

theorem replay_counts_exact_witness:
  "\<exists>db' p. replay_rollout base_env (''q1'', ''o1'') sample_rollout None ''ada'' Map.empty
      (rollout_db\<lparr>db_receipts := [sample_receipt]\<rparr>) = Inr (db', p) \<and> replay_evaluated p = 1 \<and> db_receipts db' = [sample_receipt]"
proof -
  let ?db = "rollout_db\<lparr>db_receipts := [sample_receipt]\<rparr>"
  have "is_ok (replay_rollout base_env (''q1'', ''o1'') sample_rollout None ''ada'' Map.empty ?db)"
    by code_simp
  then obtain db' p where r: "replay_rollout base_env (''q1'', ''o1'') sample_rollout None ''ada'' Map.empty ?db = Inr (db', p)"
    by (auto simp: is_ok_iff)
  obtain b where b: "find_bundle ?db (roll_tenant_id sample_rollout) (roll_bundle_id sample_rollout) = Some b"
    by (simp add: find_bundle_def rollout_db_def sample_rollout_def bundle_key_def new_bundle_def approved_bundle_def
        sample_owner_def scalar_Cons)
  have "filter rcpt_replayable (replay_receipts ?db (roll_tenant_id sample_rollout) (bounded_limit None (roll_replay_limit sample_rollout) 5000))
      = [sample_receipt]"
    by code_simp
  with replay_counts_exact[OF r b] r show ?thesis by (auto simp: Let_def)
qed

end
