(* ===== verification/PolicyRegister.thy ===== *)
theory PolicyRegister
  imports PolicyRollouts
begin

text \<open>
  Bundles and rollouts together: one transition relation for every operation of the routes in
  \<open>PolicyBundles\<close> and \<open>PolicyRollouts\<close>, on the database and the two caches. The lemmas prove
  the invariants of the two tables through any sequence of operations, and that the operations refine an
  abstract register of bundles: per tenant, a map from a bundle to its state, author and approver, with
  four moves (draft, submit, approve by another identity or as \<open>development\<close>, activate while retiring
  the active one).
\<close>

section \<open>The operations as steps\<close>

inductive gov_step :: "rollout_world \<Rightarrow> rollout_world \<Rightarrow> bool" where
  BundleCreated: "create_policy_bundle env uuid who req db = Inr (db', b) \<Longrightarrow> gov_step (db, pc, rc) (db', pc, rc)"
| BundleSubmitted: "submit_policy_bundle env registry us uuid who bid db = (db', Inr b) \<Longrightarrow> gov_step (db, pc, rc) (db', pc, rc)"
| BundleApproved: "approve_policy_bundle env registry usn who bid db = Inr (db', b) \<Longrightarrow> gov_step (db, pc, rc) (db', pc, rc)"
| BundleActivated: "activate_policy_bundle env who bid (db, pc) = Inr (db', pc') \<Longrightarrow> gov_step (db, pc, rc) (db', pc', rc)"
| BundleRolledBack: "rollback_policy_bundle env who bid (db, pc) = Inr (db', pc') \<Longrightarrow> gov_step (db, pc, rc) (db', pc', rc)"
| RolloutCreated: "create_policy_rollout env uu who rr (db, rc) = Inr ((db', rc'), r) \<Longrightarrow> gov_step (db, pc, rc) (db', pc, rc')"
| RolloutAdvanced: "advance_policy_rollout env uuid who rid s traffic (db, pc, rc) = Inr (db', pc', rc')
     \<Longrightarrow> gov_step (db, pc, rc) (db', pc', rc')"
| RolloutReplayed: "create_policy_replay env uu who rid requested pc db = Inr (db', p) \<Longrightarrow> gov_step (db, pc, rc) (db', pc, rc)"
| PoliciesFetched: "effective_policy_definitions env now db pc t = Inr (d, pc') \<Longrightarrow> gov_step (db, pc, rc) (db, pc', rc)"
| RolloutFetched: "fetch_rollout ttl now db rc t = Inr (c, rc') \<Longrightarrow> gov_step (db, pc, rc) (db, pc, rc')"

section \<open>Invariants\<close>

definition approval_ok :: "policy_bundle \<Rightarrow> bool" where
  "approval_ok b \<longleftrightarrow> (case bundle_approved_by b of
      None \<Rightarrow> bundle_status b \<in> {BDraft, BPending}
    | Some a \<Rightarrow> bundle_status b \<in> {BApproved, BActive, BRetired} \<and> (bundle_created_by b = a \<longrightarrow> a = ''development''))"

definition bundle_wf :: "policy_bundle \<Rightarrow> bool" where
  "bundle_wf b \<longleftrightarrow> validate_policy_definitions (bundle_definition_json b) = Inr () \<and> approval_ok b"

definition bundle_active :: "string \<Rightarrow> policy_bundle \<Rightarrow> bool" where
  "bundle_active t b \<longleftrightarrow> bundle_tenant_id b = t \<and> bundle_status b = BActive"

definition bundles_ok :: "policy_bundle list \<Rightarrow> bool" where
  "bundles_ok bs \<longleftrightarrow> unique_key bundle_id bs \<and> unique_key bundle_key bs \<and> (\<forall>b \<in> set bs. bundle_wf b) \<and>
     (\<forall>t. \<forall>b \<in> set bs. \<forall>b' \<in> set bs. bundle_active t b \<longrightarrow> bundle_active t b' \<longrightarrow> b = b')"

definition rollout_wf :: "policy_rollout \<Rightarrow> bool" where
  "rollout_wf r \<longleftrightarrow> (case roll_stage r of
      Shadow \<Rightarrow> roll_status r = RolloutActive \<and> roll_traffic_percentage r = 0
    | Canary \<Rightarrow> roll_status r = RolloutActive \<and> 1 \<le> roll_traffic_percentage r \<and> roll_traffic_percentage r \<le> 99
    | Paused \<Rightarrow> roll_status r = RolloutActive \<and> roll_traffic_percentage r = 0
    | Enforce \<Rightarrow> roll_status r = RolloutCompleted \<and> roll_traffic_percentage r = 100
    | StageCompleted \<Rightarrow> roll_status r = RolloutCompleted \<and> roll_traffic_percentage r = 0)"

definition rollouts_ok :: "policy_rollout list \<Rightarrow> bool" where
  "rollouts_ok rs \<longleftrightarrow> unique_key roll_id rs \<and> (\<forall>r \<in> set rs. rollout_wf r) \<and>
     (\<forall>r \<in> set rs. \<forall>r' \<in> set rs. roll_status r = RolloutActive \<longrightarrow> roll_status r' = RolloutActive \<longrightarrow>
        roll_tenant_id r = roll_tenant_id r' \<longrightarrow> r = r')"

lemmas bundles_okD = bundles_ok_def[THEN iffD1, THEN conjunct1]
  bundles_ok_def[THEN iffD1, THEN conjunct2, THEN conjunct1]
  bundles_ok_def[THEN iffD1, THEN conjunct2, THEN conjunct2, THEN conjunct1, THEN bspec]

section \<open>What a step does to the bundles\<close>

text \<open>Activation on rows that satisfy the invariant, without the intermediate state.\<close>

definition activated_rows :: "time \<Rightarrow> policy_bundle \<Rightarrow> policy_bundle list \<Rightarrow> policy_bundle list" where
  "activated_rows now b bs =
     map (\<lambda>x. if x = b then activated_bundle now x
              else if bundle_active (bundle_tenant_id b) x then retired_bundle now x else x) bs"

lemma activate_bundle_rows:
  assumes "bundles_ok (db_bundles db)" and "b \<in> set (db_bundles db)" and "bundle_status b \<noteq> BActive"
  shows "db_bundles (activate_bundle now (bundle_tenant_id b) b db) = activated_rows now b (db_bundles db)"
proof -
  let ?bs = "db_bundles db" and ?t = "bundle_tenant_id b"
  have u: "unique_key bundle_id ?bs" using assms(1) by (rule bundles_okD)
  have idb: "bundle_id x = bundle_id b \<longleftrightarrow> x = b" if "x \<in> set ?bs" for x
    using unique_key_eq[of bundle_id, OF u that assms(2)] by blast
  show ?thesis
  proof (cases "current_active db ?t")
    case None
    then have "\<not> bundle_active ?t x" if "x \<in> set ?bs" for x
      using that by (auto simp: current_active_def store bundle_active_def)
    with None idb show ?thesis by (simp add: activate_bundle_def update_rows_def activated_rows_def)
  next
    case (Some a)
    then have a: "a \<in> set ?bs" "bundle_active ?t a"
      by (auto simp: current_active_def bundle_active_def dest: scalar_Some)
    with assms(3) have ab: "a \<noteq> b" by (auto simp: bundle_active_def)
    have ida: "bundle_id x = bundle_id a \<longleftrightarrow> x = a" if "x \<in> set ?bs" for x
      using unique_key_eq[of bundle_id, OF u that a(1)] by blast
    have act: "bundle_active ?t x \<longleftrightarrow> x = a" if "x \<in> set ?bs" for x
      using assms(1) a that unfolding bundles_ok_def by blast
    have "bundle_id a \<noteq> bundle_id b" using idb[OF a(1)] ab by simp
    moreover have "(if bundle_id (if bundle_id x = bundle_id a then retired_bundle now x else x) = bundle_id b
          then activated_bundle now (if bundle_id x = bundle_id a then retired_bundle now x else x)
          else if bundle_id x = bundle_id a then retired_bundle now x else x) =
        (if x = b then activated_bundle now x else if bundle_active ?t x then retired_bundle now x else x)"
      if "x \<in> set ?bs" for x
      using ida[OF that] idb[OF that] act[OF that] ab by (auto simp: retired_bundle_def)
    ultimately show ?thesis
      by (simp add: activate_bundle_def Some update_rows_def activated_rows_def)
  qed
qed

lemma gov_step_bundles:
  assumes "gov_step w w'"
  obtains (Same) "db_bundles (fst w') = db_bundles (fst w)"
  | (Draft) env uuid who req where
      "db_bundles (fst w') = db_bundles (fst w) @ [new_bundle env uuid (fst w) who req]"
      "\<not> list_ex (bundle_conflict (new_bundle env uuid (fst w) who req)) (db_bundles (fst w))"
      "validate_policy_definitions (JList (map JObj (bc_policies req))) = Inr ()"
  | (Submit) b now where "b \<in> set (db_bundles (fst w))" "bundle_status b = BDraft"
      "db_bundles (fst w') = update_rows (\<lambda>x. bundle_id x = bundle_id b) (submitted_bundle now) (db_bundles (fst w))"
  | (Approve) b now a where "b \<in> set (db_bundles (fst w))" "bundle_status b = BPending"
      "bundle_created_by b = a \<longrightarrow> a = ''development''"
      "db_bundles (fst w') = update_rows (\<lambda>x. bundle_id x = bundle_id b) (approved_bundle now a) (db_bundles (fst w))"
  | (Activate) b now where "b \<in> set (db_bundles (fst w))" "bundle_status b \<in> {BApproved, BRetired}"
      "db_bundles (fst w') = db_bundles (activate_bundle now (bundle_tenant_id b) b (fst w))"
  using assms
proof cases
  case (BundleCreated env uuid who req db db' b pc rc)
  with Draft show thesis by (auto simp: create_bundle_Inr)
next
  case (BundleSubmitted env registry us uuid who bid db db' b pc rc)
  from BundleSubmitted(3) obtain x where "find_bundle db (p_tenant_id who) bid = Some x" "bundle_status x = BDraft"
    "db_bundles db' = update_rows (\<lambda>y. bundle_id y = bundle_id x) (submitted_bundle (env_now env)) (db_bundles db)"
    by (rule submit_bundles)
  with BundleSubmitted Submit[of x "env_now env"] show thesis by (auto dest: find_bundle_Some)
next
  case (BundleApproved env registry usn who bid db db' b pc rc)
  from BundleApproved(3) obtain x where "approvable_bundle (env_now env) db who bid = Inr x"
    "db_bundles db' = update_rows (\<lambda>y. bundle_id y = bundle_id x) (approved_bundle (env_now env) (p_subject who)) (db_bundles db)"
    by (rule approve_bundles)
  with BundleApproved Approve[of x "p_subject who" "env_now env"] show thesis
    by (auto simp: approvable_bundle_Inr same_identity_def dest: find_bundle_Some)
next
  case (BundleActivated env who bid db pc db' pc' rc)
  then obtain b where b: "find_bundle db (p_tenant_id who) bid = Some b" "bundle_status b = BApproved"
      "db' = activate_bundle (env_now env) (p_tenant_id who) b db"
    by (auto simp: activate_policy_Inr)
  with find_bundle_Some[OF b(1)] BundleActivated Activate[of b "env_now env"] show thesis by (auto simp: bundle_key_def)
next
  case (BundleRolledBack env who bid db pc db' pc' rc)
  then obtain b where b: "find_bundle db (p_tenant_id who) bid = Some b" "bundle_status b \<in> {BRetired, BApproved}"
      "db' = activate_bundle (env_now env) (p_tenant_id who) b db"
    by (auto simp: rollback_policy_Inr)
  with find_bundle_Some[OF b(1)] BundleRolledBack Activate[of b "env_now env"] show thesis by (auto simp: bundle_key_def)
next
  case (RolloutCreated env uu who rr db rc db' rc' r pc)
  then have "db_bundles db' = db_bundles db"
    by (auto simp: create_policy_rollout_def create_rollout_def result_simps Let_def dest!: queue_outbox_Inr)
  with RolloutCreated Same show thesis by simp
next
  case (RolloutAdvanced env uuid who rid s traffic db pc rc db' pc' rc')
  then obtain r db1 where c: "enforce_candidate env r s db = Inr db1" and d: "db_bundles db' = db_bundles db1"
    by (auto simp: advance_policy_rollout_def advance_rollout_def result_simps Let_def update_rollout_def
             dest!: queue_outbox_Inr)
  show thesis
  proof (cases "s = Enforce")
    case True
    with c obtain b where b: "find_bundle db (roll_tenant_id r) (roll_bundle_id r) = Some b" "bundle_status b = BApproved"
      "db1 = activate_bundle (env_now env) (bundle_tenant_id b) b db"
      by (auto simp: enforce_candidate_def split: option.splits if_splits)
    with find_bundle_Some[OF b(1)] RolloutAdvanced d Activate[of b "env_now env"] show thesis by auto
  next
    case False
    with c d RolloutAdvanced Same show thesis by (simp add: enforce_candidate_def)
  qed
next
  case (RolloutReplayed env uu who rid requested pc db db' p rc)
  then have "db_bundles db' = db_bundles db"
    by (auto simp: create_policy_replay_def replay_rollout_def result_simps Let_def update_rollout_def
             split: option.splits dest!: queue_outbox_Inr)
  with RolloutReplayed Same show thesis by simp
qed (use Same in auto)


section \<open>The invariant of the bundles\<close>

lemma bundles_ok_update:
  assumes ok: "bundles_ok bs" and b: "b \<in> set bs"
    and f: "bundle_id (f b) = bundle_id b" "bundle_key (f b) = bundle_key b" "bundle_wf (f b)" "bundle_status (f b) \<noteq> BActive"
  shows "bundles_ok (update_rows (\<lambda>x. bundle_id x = bundle_id b) f bs)"
proof -
  have u: "unique_key bundle_id bs" using ok by (rule bundles_okD)
  note rows = update_one_row[of bundle_id, OF u b, of f]
  have "unique_key bundle_id (update_rows (\<lambda>x. bundle_id x = bundle_id b) f bs)"
    "unique_key bundle_key (update_rows (\<lambda>x. bundle_id x = bundle_id b) f bs)"
    using map_update_one[of bundle_id, OF u b, of bundle_id f] map_update_one[of bundle_id, OF u b, of bundle_key f]
      f bundles_okD(1,2)[OF ok] by (simp_all add: unique_key_def)
  moreover have "\<not> bundle_active t (f b)" for t using f(4) by (simp add: bundle_active_def)
  ultimately show ?thesis
    using ok f(3) unfolding bundles_ok_def rows by (metis (no_types, lifting) DiffD1 insert_iff)
qed

lemma activated_rows_keys:
  "map bundle_id (activated_rows now b bs) = map bundle_id bs" "map bundle_key (activated_rows now b bs) = map bundle_key bs"
  by (auto simp: activated_rows_def activated_bundle_def retired_bundle_def bundle_key_def)

lemma activated_rows_active:
  assumes "b \<in> set bs" and "x \<in> set (activated_rows now b bs)" and "bundle_active t x"
  shows "if t = bundle_tenant_id b then x = activated_bundle now b else x \<in> set bs"
  using assms
  by (auto simp: activated_rows_def bundle_active_def activated_bundle_def retired_bundle_def split: if_splits)

lemma activation_wf:
  "bundle_wf b \<Longrightarrow> bundle_status b \<in> {BApproved, BRetired} \<Longrightarrow> bundle_wf (activated_bundle now b)"
  "bundle_wf b \<Longrightarrow> bundle_active t b \<Longrightarrow> bundle_wf (retired_bundle now b)"
  by (auto simp: bundle_wf_def approval_ok_def activated_bundle_def retired_bundle_def bundle_active_def split: option.splits)

lemma bundles_ok_activate:
  assumes ok: "bundles_ok bs" and b: "b \<in> set bs" "bundle_status b \<in> {BApproved, BRetired}"
  shows "bundles_ok (activated_rows now b bs)"
proof -
  have "bundle_wf x" if "x \<in> set (activated_rows now b bs)" for x
  proof -
    from that obtain y where y: "y \<in> set bs" "x = (if y = b then activated_bundle now y
        else if bundle_active (bundle_tenant_id b) y then retired_bundle now y else y)"
      by (auto simp: activated_rows_def)
    from bundles_okD(3)[OF ok y(1)] y(2) b(2) show ?thesis
      using activation_wf[of y] by (auto split: if_splits)
  qed
  moreover have "x = y" if "x \<in> set (activated_rows now b bs)" "y \<in> set (activated_rows now b bs)"
    "bundle_active t x" "bundle_active t y" for t x y
    using activated_rows_active[OF b(1) that(1,3)] activated_rows_active[OF b(1) that(2,4)] ok that(3,4)
    unfolding bundles_ok_def by (auto split: if_splits)
  ultimately show ?thesis
    using bundles_okD(1,2)[OF ok] unfolding bundles_ok_def unique_key_def activated_rows_keys by blast
qed

lemma gov_step_bundles_ok:
  assumes "gov_step w w'" and ok: "bundles_ok (db_bundles (fst w))"
  shows "bundles_ok (db_bundles (fst w'))"
  using assms(1)
proof (cases rule: gov_step_bundles)
  case (Draft env uuid who req)
  let ?b = "new_bundle env uuid (fst w) who req"
  have "bundle_id ?b = next_id bundle_id (db_bundles (fst w))" "bundle_status ?b = BDraft"
    by (simp_all add: new_bundle_def)
  moreover have "bundle_wf ?b" using Draft(3) by (simp add: bundle_wf_def approval_ok_def new_bundle_def)
  moreover have "bundle_key ?b \<notin> bundle_key ` set (db_bundles (fst w))"
    using Draft(2) by (auto simp: list_ex_iff bundle_conflict_def bundle_key_def)
  ultimately show ?thesis
    using ok unique_key_insert[of bundle_id "db_bundles (fst w)" ?b] unfolding Draft(1) bundles_ok_def
    by (auto simp: unique_key_def bundle_active_def)
next
  case (Submit b now)
  with bundles_okD(3)[OF ok Submit(1)] show ?thesis
    unfolding Submit(3)
    by (intro bundles_ok_update[OF ok]) (auto simp: submitted_bundle_def bundle_key_def bundle_wf_def approval_ok_def split: option.splits)
next
  case (Approve b now a)
  with bundles_okD(3)[OF ok Approve(1)] show ?thesis
    unfolding Approve(4)
    by (intro bundles_ok_update[OF ok]) (auto simp: approved_bundle_def bundle_key_def bundle_wf_def approval_ok_def)
next
  case (Activate b now)
  then have "bundle_status b \<noteq> BActive" by auto
  from activate_bundle_rows[OF ok Activate(1) this] bundles_ok_activate[OF ok Activate(1,2)] show ?thesis
    by (simp add: Activate(3))
qed (simp add: ok)


section \<open>The invariant of the rollouts\<close>

lemma enforce_candidate_rollouts: "enforce_candidate env r s db = Inr db1 \<Longrightarrow> db_rollouts db1 = db_rollouts db"
  by (auto simp: enforce_candidate_def activate_bundle_def split: if_splits option.splits)

lemma find_rollout_Some: "find_rollout db t rid = Some r \<Longrightarrow> r \<in> set (db_rollouts db) \<and> roll_tenant_id r = t"
  by (auto simp: find_rollout_def dest: scalar_Some)

lemma rollout_or_404_Inr [simp]: "rollout_or_404 db t rid = Inr r \<longleftrightarrow> find_rollout db t rid = Some r"
  by (auto simp: rollout_or_404_def split: option.splits)

text \<open>A change keeps the identity of a rollout and its tenant, and never makes one active again.\<close>

definition rollout_changes :: "policy_rollout \<Rightarrow> policy_rollout \<Rightarrow> bool" where
  "rollout_changes r r' \<longleftrightarrow> roll_id r' = roll_id r \<and> roll_tenant_id r' = roll_tenant_id r \<and>
     (roll_status r' = RolloutActive \<longrightarrow> roll_status r = RolloutActive) \<and> (rollout_wf r \<longrightarrow> rollout_wf r')"

lemma advanced_changes:
  assumes "advance_checks r s traffic = Inr ()"
  shows "rollout_changes r (advanced_rollout now s traffic who r)"
  using assms
  by (cases s)
     (auto simp: advance_checks_def result_simps advanced_rollout_def Let_def rollout_changes_def rollout_wf_def
                 stage_traffic_def split: option.splits)

lemma replayed_changes: "rollout_changes r (replayed_rollout now p r)"
  by (simp add: rollout_changes_def replayed_rollout_def rollout_wf_def split: rollout_stage.split)

lemma gov_step_rollouts:
  assumes "gov_step w w'"
  obtains (Same) "db_rollouts (fst w') = db_rollouts (fst w)"
  | (Append) r where "db_rollouts (fst w') = db_rollouts (fst w) @ [r]" "roll_id r = next_id roll_id (db_rollouts (fst w))"
      "rollout_wf r" "active_rollout (fst w) (roll_tenant_id r) = None"
  | (Update) r f where "r \<in> set (db_rollouts (fst w))" "rollout_changes r (f r)"
      "db_rollouts (fst w') = update_rows (\<lambda>x. roll_id x = roll_id r) f (db_rollouts (fst w))"
  using assms
proof cases
  case (BundleSubmitted env registry us uuid who bid db db' b pc rc)
  from BundleSubmitted(3) have "db_rollouts db' = db_rollouts db" by (rule submit_bundles)
  with BundleSubmitted Same show thesis by simp
next
  case (BundleApproved env registry usn who bid db db' b pc rc)
  from BundleApproved(3) have "db_rollouts db' = db_rollouts db" by (rule approve_bundles)
  with BundleApproved Same show thesis by simp
next
  case (RolloutCreated env uu who rr db rc db' rc' r pc)
  then obtain b where c: "rollout_candidate db (p_tenant_id who) rr = Inr b" and ok: "rollout_create_ok rr"
    and r: "r = new_rollout env (fst uu) db (p_tenant_id who) rr b (p_subject who)" and d: "db_rollouts db' = db_rollouts db @ [r]"
    by (auto simp: create_policy_rollout_def create_rollout_def result_simps Let_def dest!: queue_outbox_Inr)
  from c have "active_rollout db (p_tenant_id who) = None" "rq_stage rr = Shadow \<longrightarrow> rq_traffic_percentage rr = 0"
    "rq_stage rr = Canary \<longrightarrow> 1 \<le> rq_traffic_percentage rr"
    by (auto simp: rollout_candidate_def result_simps split: option.splits)
  with ok r d RolloutCreated Append show thesis
    by (auto simp: new_rollout_def rollout_wf_def rollout_create_ok_def)
next
  case (RolloutAdvanced env uuid who rid s traffic db pc rc db' pc' rc')
  then obtain r db1 where f: "find_rollout db (p_tenant_id who) rid = Some r"
    and k: "advance_checks r s traffic = Inr ()" and c: "enforce_candidate env r s db = Inr db1"
    and d: "db_rollouts db' = update_rows (\<lambda>x. roll_id x = roll_id r) (advanced_rollout (env_now env) s traffic (p_subject who)) (db_rollouts db1)"
    by (auto simp: advance_policy_rollout_def advance_rollout_def result_simps Let_def update_rollout_def
             dest!: queue_outbox_Inr)
  with RolloutAdvanced Update[of r "advanced_rollout (env_now env) s traffic (p_subject who)"]
    advanced_changes[OF k] enforce_candidate_rollouts[OF c] find_rollout_Some[OF f]
  show thesis by simp
next
  case (RolloutReplayed env uu who rid requested pc db db' p rc)
  then obtain r where f: "find_rollout db (p_tenant_id who) rid = Some r"
    and d: "db_rollouts db' = update_rows (\<lambda>x. roll_id x = roll_id r) (replayed_rollout (env_now env) p) (db_rollouts db)"
    by (auto simp: create_policy_replay_def replay_rollout_def result_simps Let_def update_rollout_def
             split: option.splits dest!: queue_outbox_Inr)
  with RolloutReplayed Update[of r "replayed_rollout (env_now env) p"] replayed_changes find_rollout_Some[OF f]
  show thesis by simp
qed (use Same in \<open>auto simp: create_bundle_Inr activate_policy_Inr rollback_policy_Inr activate_bundle_def split: option.splits\<close>)

lemma gov_step_rollouts_ok:
  assumes "gov_step w w'" and ok: "rollouts_ok (db_rollouts (fst w))"
  shows "rollouts_ok (db_rollouts (fst w'))"
  using assms(1)
proof (cases rule: gov_step_rollouts)
  case (Append r)
  have none: "\<forall>x \<in> set (db_rollouts (fst w)). roll_status x = RolloutActive \<longrightarrow> roll_tenant_id x \<noteq> roll_tenant_id r"
    using Append(4) by (auto simp: active_rollout_def store)
  have "unique_key roll_id (db_rollouts (fst w'))"
    using ok unique_key_insert[of roll_id "db_rollouts (fst w)" r] Append(1,2) by (simp add: rollouts_ok_def)
  moreover have "x = y" if "x \<in> insert r (set (db_rollouts (fst w)))" "y \<in> insert r (set (db_rollouts (fst w)))"
    "roll_status x = RolloutActive" "roll_status y = RolloutActive" "roll_tenant_id x = roll_tenant_id y" for x y
    using that none ok unfolding rollouts_ok_def by (metis insert_iff)
  ultimately show ?thesis
    using ok Append(1,3) by (simp add: rollouts_ok_def)
next
  case (Update r f)
  have u: "unique_key roll_id (db_rollouts (fst w))" using ok by (simp add: rollouts_ok_def)
  have c: "roll_id (f r) = roll_id r" "roll_tenant_id (f r) = roll_tenant_id r"
    "roll_status (f r) = RolloutActive \<longrightarrow> roll_status r = RolloutActive" "rollout_wf r \<longrightarrow> rollout_wf (f r)"
    using Update(2) by (simp_all add: rollout_changes_def)
  note rows = update_one_row[of roll_id, OF u Update(1), of f]
  have "unique_key roll_id (db_rollouts (fst w'))"
    using map_update_one[of roll_id, OF u Update(1), of roll_id f] c(1) u by (simp add: Update(3) unique_key_def)
  moreover have "\<forall>x \<in> set (db_rollouts (fst w')). rollout_wf x"
    using ok Update(1) c(4) by (simp add: Update(3) rows rollouts_ok_def)
  moreover have "x = y" if "x \<in> set (db_rollouts (fst w'))" "y \<in> set (db_rollouts (fst w'))"
    "roll_status x = RolloutActive" "roll_status y = RolloutActive" "roll_tenant_id x = roll_tenant_id y" for x y
    using that ok Update(1) c(2,3) unfolding Update(3) rows rollouts_ok_def by (metis Diff_iff insert_iff singletonI)
  ultimately show ?thesis by (simp add: rollouts_ok_def)
qed (simp add: ok)


section \<open>The abstract register\<close>

type_synonym register = "string \<rightharpoonup> bundle_state \<times> string \<times> string option"

definition retire_active :: "bundle_state \<times> string \<times> string option \<Rightarrow> bundle_state \<times> string \<times> string option" where
  "retire_active x = (case x of (s, rest) \<Rightarrow> (if s = BActive then BRetired else s, rest))"

inductive register_step :: "register \<Rightarrow> register \<Rightarrow> bool" where
  Drafted: "reg k = None \<Longrightarrow> register_step reg (reg(k \<mapsto> (BDraft, author, None)))"
| Submitted: "reg k = Some (BDraft, author, a) \<Longrightarrow> register_step reg (reg(k \<mapsto> (BPending, author, a)))"
| Approved: "reg k = Some (BPending, author, x) \<Longrightarrow> author \<noteq> a \<or> a = ''development'' \<Longrightarrow>
     register_step reg (reg(k \<mapsto> (BApproved, author, Some a)))"
| Activated: "reg k = Some (s, author, a) \<Longrightarrow> s \<in> {BApproved, BRetired} \<Longrightarrow>
     register_step reg ((map_option retire_active \<circ> reg)(k \<mapsto> (BActive, author, a)))"

definition bundle_entry :: "policy_bundle \<Rightarrow> bundle_state \<times> string \<times> string option" where
  "bundle_entry b = (bundle_status b, bundle_created_by b, bundle_approved_by b)"

definition bundle_register :: "policy_bundle list \<Rightarrow> string \<Rightarrow> register" where
  "bundle_register bs t = (\<lambda>k. map_option bundle_entry (scalar (\<lambda>b. bundle_key b = (t, k)) bs))"

lemma register_of_row:
  assumes "unique_key bundle_key bs" and "b \<in> set bs"
  shows "scalar (\<lambda>x. bundle_key x = bundle_key b) bs = Some b"
  by (rule scalar_unique[of bundle_key, OF assms]) simp_all

lemma register_map_rows:
  assumes "unique_key bundle_key bs" and "b \<in> set bs" and "\<And>x. x \<in> set bs \<Longrightarrow> bundle_key (g x) = bundle_key x"
  shows "scalar (\<lambda>x. bundle_key x = (t, k)) (map g bs) = map_option g (scalar (\<lambda>x. bundle_key x = (t, k)) bs)"
  using assms(3) by (induction bs) (auto simp: scalar_Cons)

lemma register_update:
  assumes u: "unique_key bundle_id bs" "unique_key bundle_key bs" and b: "b \<in> set bs"
    and f: "\<And>x. bundle_key (f x) = bundle_key x"
  shows "bundle_register (update_rows (\<lambda>x. bundle_id x = bundle_id b) f bs) t =
    (if t = bundle_tenant_id b then (bundle_register bs t)(bundle_bundle_id b \<mapsto> bundle_entry (f b)) else bundle_register bs t)"
proof
  fix k
  have e: "x = b" if "x \<in> set bs" "bundle_id x = bundle_id b" for x
    using unique_key_eq[of bundle_id, OF u(1) that(1) b that(2)] .
  have s: "scalar (\<lambda>x. bundle_key x = (t, k)) (update_rows (\<lambda>x. bundle_id x = bundle_id b) f bs) =
      map_option (\<lambda>x. if bundle_id x = bundle_id b then f x else x) (scalar (\<lambda>x. bundle_key x = (t, k)) bs)"
    by (rule scalar_update) (simp add: f)
  show "bundle_register (update_rows (\<lambda>x. bundle_id x = bundle_id b) f bs) t k =
    (if t = bundle_tenant_id b then (bundle_register bs t)(bundle_bundle_id b \<mapsto> bundle_entry (f b)) else bundle_register bs t) k"
  proof (cases "(t, k) = bundle_key b")
    case True
    then have "scalar (\<lambda>x. bundle_key x = (t, k)) bs = Some b"
      using register_of_row[OF u(2) b] by simp
    with True s show ?thesis by (simp add: bundle_register_def bundle_key_def)
  next
    case False
    have "\<forall>x. scalar (\<lambda>x. bundle_key x = (t, k)) bs = Some x \<longrightarrow> bundle_id x \<noteq> bundle_id b"
      using False by (auto dest!: scalar_Some dest: e)
    with s False show ?thesis
      by (cases "scalar (\<lambda>x. bundle_key x = (t, k)) bs") (auto simp: bundle_register_def bundle_key_def)
  qed
qed

lemma register_activate:
  assumes u: "unique_key bundle_key bs" and b: "b \<in> set bs"
  shows "bundle_register (activated_rows now b bs) t =
    (if t = bundle_tenant_id b
     then (map_option retire_active \<circ> bundle_register bs t)(bundle_bundle_id b \<mapsto> (BActive, bundle_created_by b, bundle_approved_by b))
     else bundle_register bs t)"
proof
  fix k
  define g where "g x = (if x = b then activated_bundle now x
      else if bundle_active (bundle_tenant_id b) x then retired_bundle now x else x)" for x
  have s: "scalar (\<lambda>x. bundle_key x = (t, k)) (activated_rows now b bs) = map_option g (scalar (\<lambda>x. bundle_key x = (t, k)) bs)"
    unfolding activated_rows_def g_def[symmetric]
    by (rule register_map_rows[OF u b])
       (auto simp: g_def activated_bundle_def retired_bundle_def bundle_key_def)
  show "bundle_register (activated_rows now b bs) t k =
    (if t = bundle_tenant_id b
     then (map_option retire_active \<circ> bundle_register bs t)(bundle_bundle_id b \<mapsto> (BActive, bundle_created_by b, bundle_approved_by b))
     else bundle_register bs t) k"
  proof (cases "scalar (\<lambda>x. bundle_key x = (t, k)) bs")
    case None
    then have "(t, k) \<noteq> bundle_key b" using b by (auto simp: store)
    with None s show ?thesis by (auto simp: bundle_register_def bundle_key_def)
  next
    case (Some x)
    then have x: "x \<in> set bs" "bundle_key x = (t, k)" by (auto dest: scalar_Some)
    have "x = b \<longleftrightarrow> (t, k) = bundle_key b"
      using x unique_key_eq[of bundle_key, OF u x(1) b] by auto
    with Some s x show ?thesis
      by (auto simp: bundle_register_def bundle_key_def g_def bundle_entry_def activated_bundle_def retired_bundle_def
          bundle_active_def retire_active_def)
  qed
qed

lemma gov_step_refines:
  assumes step: "gov_step w w'" and ok: "bundles_ok (db_bundles (fst w))"
  shows "bundle_register (db_bundles (fst w')) t = bundle_register (db_bundles (fst w)) t \<or>
         register_step (bundle_register (db_bundles (fst w)) t) (bundle_register (db_bundles (fst w')) t)"
proof -
  let ?bs = "db_bundles (fst w)"
  note u = bundles_okD(1,2)[OF ok]
  have entry: "bundle_register ?bs (bundle_tenant_id b) (bundle_bundle_id b) = Some (bundle_entry b)" if "b \<in> set ?bs" for b
    using register_of_row[OF u(2) that] by (simp add: bundle_register_def bundle_key_def)
  from step show ?thesis
  proof (cases rule: gov_step_bundles)
    case (Draft env uuid who req)
    let ?b = "new_bundle env uuid (fst w) who req"
    have k: "\<forall>x \<in> set ?bs. bundle_tenant_id x = bundle_tenant_id ?b \<longrightarrow> bundle_bundle_id x \<noteq> bundle_bundle_id ?b"
      using Draft(2) by (auto simp: list_ex_iff bundle_conflict_def)
    have "bundle_register (?bs @ [?b]) t = (if t = bundle_tenant_id ?b
        then (bundle_register ?bs t)(bundle_bundle_id ?b \<mapsto> bundle_entry ?b) else bundle_register ?bs t)"
      using k by (auto simp: bundle_register_def fun_eq_iff store bundle_key_def split: option.split dest!: scalar_Some)
    moreover have "bundle_register ?bs (bundle_tenant_id ?b) (bundle_bundle_id ?b) = None"
      using k by (auto simp: bundle_register_def store bundle_key_def)
    ultimately show ?thesis
      unfolding Draft(1) by (auto simp: bundle_entry_def new_bundle_def intro: register_step.Drafted)
  next
    case (Submit b now)
    from register_update[OF u Submit(1), of "submitted_bundle now" t] entry[OF Submit(1)] Submit(2)
    show ?thesis
      unfolding Submit(3)
      by (auto simp: submitted_bundle_def bundle_key_def bundle_entry_def intro: register_step.Submitted)
  next
    case (Approve b now a)
    from register_update[OF u Approve(1), of "approved_bundle now a" t] entry[OF Approve(1)] Approve(2,3)
    show ?thesis
      unfolding Approve(4)
      by (auto simp: approved_bundle_def bundle_key_def bundle_entry_def intro: register_step.Approved)
  next
    case (Activate b now)
    then have "bundle_status b \<noteq> BActive" by auto
    from register_activate[OF u(2) Activate(1), of now t] activate_bundle_rows[OF ok Activate(1) this, of now]
      entry[OF Activate(1)] Activate(2)
    show ?thesis
      unfolding Activate(3) by (auto simp: bundle_entry_def intro: register_step.Activated)
  qed simp
qed


section \<open>Properties\<close>

lemma gov_steps_ok:
  assumes "gov_step\<^sup>*\<^sup>* w0 w" and "db_bundles (fst w0) = []" and "db_rollouts (fst w0) = []"
  shows "bundles_ok (db_bundles (fst w)) \<and> rollouts_ok (db_rollouts (fst w))"
  using assms(1)
proof (induction rule: rtranclp_induct)
  case base
  show ?case by (simp add: assms bundles_ok_def rollouts_ok_def unique_key_def)
next
  case (step v w)
  then show ?case using gov_step_bundles_ok gov_step_rollouts_ok by blast
qed

text \<open>
  C23: the routes on bundles and rollouts refine the abstract register: starting without bundles, each
  operation leaves the register of every tenant as it is or makes one of its four moves, so the register of
  any tenant is always one the abstract machine reaches from the empty register.
\<close>

theorem bundles_refine_register:
  assumes "db_bundles (fst w0) = []" and "db_rollouts (fst w0) = []" and "gov_step\<^sup>*\<^sup>* w0 w"
  shows "register_step\<^sup>*\<^sup>* Map.empty (bundle_register (db_bundles (fst w)) t) \<and>
    (\<forall>w'. gov_step w w' \<longrightarrow>
       bundle_register (db_bundles (fst w')) t = bundle_register (db_bundles (fst w)) t \<or>
       register_step (bundle_register (db_bundles (fst w)) t) (bundle_register (db_bundles (fst w')) t))"
proof -
  from assms(3) have "register_step\<^sup>*\<^sup>* Map.empty (bundle_register (db_bundles (fst w)) t)"
  proof (induction rule: rtranclp_induct)
    case base
    have "bundle_register [] t = Map.empty" by (auto simp: bundle_register_def)
    with assms(1) show ?case by simp
  next
    case (step v w)
    have "bundles_ok (db_bundles (fst v))" using gov_steps_ok[OF step(1) assms(1,2)] ..
    from gov_step_refines[OF step(2) this, of t] step(3) show ?case
      by (auto intro: rtranclp.rtrancl_into_rtrancl)
  qed
  moreover have "bundles_ok (db_bundles (fst w))" using gov_steps_ok[OF assms(3,1,2)] ..
  ultimately show ?thesis using gov_step_refines[of w] by blast
qed

lemma active_bundle_Some:
  assumes "active_bundle db t = Some b"
  shows "b \<in> set (db_bundles db) \<and> bundle_active t b"
proof -
  let ?rows = "where_rows (\<lambda>b. bundle_tenant_id b = t \<and> bundle_status b = BActive) (db_bundles db)"
  from assms obtain rest where "rev (sort_key (\<lambda>b. (bundle_activated_at b, bundle_id b)) ?rows) = b # rest"
    by (auto simp: active_bundle_def split: list.splits)
  then have "b \<in> set (rev (sort_key (\<lambda>b. (bundle_activated_at b, bundle_id b)) ?rows))" by simp
  then show ?thesis by (simp add: store bundle_active_def)
qed

lemma load_runtime_rollout_Some:
  assumes "load_runtime_rollout db t = Some c"
  obtains r b where "r \<in> set (db_rollouts db)" "roll_tenant_id r = t" "roll_status r = RolloutActive"
    "roll_stage r \<in> {Shadow, Canary}" "b \<in> set (db_bundles db)" "bundle_key b = (t, roll_bundle_id r)"
    "bundle_status b = BApproved" "rc_stage c = roll_stage r" "rc_traffic_percentage c = roll_traffic_percentage r"
    "rc_definitions c = bundle_definition_json b"
proof -
  let ?rows = "where_rows (\<lambda>r. roll_tenant_id r = t \<and> roll_status r = RolloutActive \<and> roll_stage r \<in> {Shadow, Canary}) (db_rollouts db)"
  from assms obtain r rest b where o: "order_by_desc roll_updated_at ?rows = r # rest"
    and b: "find_bundle db t (roll_bundle_id r) = Some b" "bundle_status b = BApproved"
    and c: "rc_stage c = roll_stage r" "rc_traffic_percentage c = roll_traffic_percentage r"
      "rc_definitions c = bundle_definition_json b"
    by (auto simp: load_runtime_rollout_def split: list.splits option.splits if_splits)
  from o have "r \<in> set (order_by_desc roll_updated_at ?rows)" by simp
  then have r: "r \<in> set (db_rollouts db)" "roll_tenant_id r = t" "roll_status r = RolloutActive" "roll_stage r \<in> {Shadow, Canary}"
    by (simp_all add: store)
  from find_bundle_Some[OF b(1)] show thesis using that[OF r _ _ b(2) c] by simp
qed

text \<open>
  C2: through any sequence of bundle and rollout operations, a tenant has at most one active bundle and at
  most one active rollout. The bundle whose policies are in force holds valid policies and was approved, by
  an identity other than its author or by the subject \<open>development\<close>, which the code exempts. The candidate
  that the runtime reads is that of an active rollout whose bundle has status approved and was approved the
  same way, holds its policies, which are valid, and has a share of 0 in shadow and of 1 to 99 in canary.
\<close>

theorem governed_policies:
  assumes "db_bundles (fst w0) = []" and "db_rollouts (fst w0) = []" and "gov_step\<^sup>*\<^sup>* w0 w"
  defines "db \<equiv> fst w"
  shows "row_count (bundle_active t) (db_bundles db) \<le> 1 \<and>
    row_count (\<lambda>r. roll_tenant_id r = t \<and> roll_status r = RolloutActive) (db_rollouts db) \<le> 1 \<and>
    (\<forall>b. active_bundle db t = Some b \<longrightarrow> validate_policy_definitions (bundle_definition_json b) = Inr () \<and>
       (\<exists>a. bundle_approved_by b = Some a \<and> (a \<noteq> bundle_created_by b \<or> a = ''development''))) \<and>
    (\<forall>c. load_runtime_rollout db t = Some c \<longrightarrow> validate_policy_definitions (rc_definitions c) = Inr () \<and>
       (\<exists>r b a. r \<in> set (db_rollouts db) \<and> roll_tenant_id r = t \<and> roll_status r = RolloutActive \<and>
          b \<in> set (db_bundles db) \<and> bundle_key b = (t, roll_bundle_id r) \<and> bundle_status b = BApproved \<and>
          rc_definitions c = bundle_definition_json b \<and> bundle_approved_by b = Some a \<and>
          (a \<noteq> bundle_created_by b \<or> a = ''development'')) \<and>
       (if rc_stage c = Canary then 1 \<le> rc_traffic_percentage c \<and> rc_traffic_percentage c \<le> 99
        else rc_stage c = Shadow \<and> rc_traffic_percentage c = 0))"
proof (intro conjI allI impI)
  have ok: "bundles_ok (db_bundles db)" "rollouts_ok (db_rollouts db)"
    using gov_steps_ok[OF assms(3,1,2)] by (simp_all add: db_def)
  have one: "row_count P rs \<le> 1" if "distinct rs" "\<forall>x \<in> set rs. \<forall>y \<in> set rs. P x \<longrightarrow> P y \<longrightarrow> x = y" for P :: "'r \<Rightarrow> bool" and rs
  proof -
    have "card (set (filter P rs)) \<le> 1"
      using that(2) by (simp add: card_le_Suc0_iff_eq)
    moreover have "length (filter P rs) = card (set (filter P rs))"
      using that(1) by (simp only: distinct_card distinct_filter)
    ultimately show ?thesis by (simp only: row_count_def)
  qed
  have d: "distinct (db_bundles db)" "distinct (db_rollouts db)"
    using ok by (auto simp: bundles_ok_def rollouts_ok_def unique_key_def distinct_map)
  show "row_count (bundle_active t) (db_bundles db) \<le> 1"
    using ok(1) by (intro one[OF d(1)]) (simp add: bundles_ok_def)
  show "row_count (\<lambda>r. roll_tenant_id r = t \<and> roll_status r = RolloutActive) (db_rollouts db) \<le> 1"
    using ok(2) by (intro one[OF d(2)]) (auto simp: rollouts_ok_def)
  {
    fix b assume "active_bundle db t = Some b"
    then have b: "b \<in> set (db_bundles db)" "bundle_status b = BActive"
      using active_bundle_Some by (auto simp: bundle_active_def)
    with bundles_okD(3)[OF ok(1) b(1)]
    show "validate_policy_definitions (bundle_definition_json b) = Inr ()"
      and "\<exists>a. bundle_approved_by b = Some a \<and> (a \<noteq> bundle_created_by b \<or> a = ''development'')"
      by (auto simp: bundle_wf_def approval_ok_def split: option.splits)
  }
  fix c assume "load_runtime_rollout db t = Some c"
  then obtain r b where rb: "r \<in> set (db_rollouts db)" "roll_stage r \<in> {Shadow, Canary}" "b \<in> set (db_bundles db)"
    and r: "roll_tenant_id r = t" "roll_status r = RolloutActive" and b: "bundle_key b = (t, roll_bundle_id r)" "bundle_status b = BApproved"
    and c: "rc_stage c = roll_stage r" "rc_traffic_percentage c = roll_traffic_percentage r"
      "rc_definitions c = bundle_definition_json b"
    by (rule load_runtime_rollout_Some)
  from bundles_okD(3)[OF ok(1) rb(3)] c show "validate_policy_definitions (rc_definitions c) = Inr ()"
    by (simp add: bundle_wf_def)
  from bundles_okD(3)[OF ok(1) rb(3)] b(2) obtain a where
    "bundle_approved_by b = Some a" "a \<noteq> bundle_created_by b \<or> a = ''development''"
    by (auto simp: bundle_wf_def approval_ok_def split: option.splits)
  with rb r b c show "\<exists>r b a. r \<in> set (db_rollouts db) \<and> roll_tenant_id r = t \<and> roll_status r = RolloutActive \<and>
      b \<in> set (db_bundles db) \<and> bundle_key b = (t, roll_bundle_id r) \<and> bundle_status b = BApproved \<and>
      rc_definitions c = bundle_definition_json b \<and> bundle_approved_by b = Some a \<and>
      (a \<noteq> bundle_created_by b \<or> a = ''development'')"
    by blast
  from ok(2) rb(1) have "rollout_wf r" by (simp add: rollouts_ok_def)
  with rb(2) c show "if rc_stage c = Canary then 1 \<le> rc_traffic_percentage c \<and> rc_traffic_percentage c \<le> 99
        else rc_stage c = Shadow \<and> rc_traffic_percentage c = 0"
    by (auto simp: rollout_wf_def)
qed


definition start_world :: rollout_world where
  "start_world = (empty_db, Map.empty, Map.empty)"

text \<open>A bundle created, submitted, approved by another identity and activated.\<close>

lemma sample_world_reached:
  "\<exists>w b. gov_step\<^sup>*\<^sup>* start_world w \<and> db_bundles (fst w) = [b] \<and>
     bundle_key b = (''default'', ''b1'') \<and> bundle_entry b = (BActive, ''bob'', Some ''ada'')"
proof -
  have s: "p_tenant_id sample_owner = ''default''" "p_subject sample_owner = ''bob''" "p_subject sample_admin = ''ada''"
    "p_role sample_admin = Administrator" "p_tenant_id sample_admin = ''default''"
    by (simp_all add: sample_owner_def sample_admin_def)
  have "is_ok (create_policy_bundle base_env ''b1'' sample_owner small_bundle empty_db)"
    by code_simp
  then obtain db1 b where c: "create_policy_bundle base_env ''b1'' sample_owner small_bundle empty_db = Inr (db1, b)"
    by (auto simp: is_ok_iff)
  let ?b = "approved_bundle (env_now base_env) (p_subject sample_admin) (submitted_bundle (env_now base_env) b)"
  have w: "p_role sample_admin = Administrator" "p_tenant_id sample_admin = p_tenant_id sample_owner"
    "\<not> same_identity (p_subject sample_owner) sample_admin" by (simp_all add: s same_identity_def)
  obtain db2 db3 where st: "submit_policy_bundle base_env [] (\<lambda>n. (''d'', ''j'')) ''t1'' sample_owner ''b1'' db1 =
      (db2, Inr (submitted_bundle (env_now base_env) b))"
    and "approvable_bundle (env_now base_env) db2 sample_admin ''b1'' = Inr (submitted_bundle (env_now base_env) b)"
    and ap: "approve_policy_bundle base_env [] (\<lambda>k n. (''d'', ''j'')) sample_admin ''b1'' db2 = Inr (db3, ?b)"
    and rows0: "db_bundles db3 = db_bundles empty_db @ [?b]" and "db_rollouts db3 = db_rollouts empty_db"
    by (rule bundle_path[OF c w])
  have rows: "db_bundles db3 = [?b]" using rows0 by (simp add: empty_db_def)
  have b: "bundle_key ?b = (''default'', ''b1'')" "bundle_status ?b = BApproved" "bundle_created_by ?b = ''bob''"
      "bundle_approved_by ?b = Some ''ada''"
    using c by (simp_all add: create_bundle_Inr new_bundle_def submitted_bundle_def approved_bundle_def bundle_key_def s)
  define db4 where "db4 = activate_bundle (env_now base_env) ''default'' ?b db3"
  have act: "activate_policy_bundle base_env sample_admin ''b1'' (db3, Map.empty) =
      Inr (db4, invalidate_policy_cache (Some ''default'') Map.empty)"
    by (simp add: activate_policy_Inr s(4,5) find_bundle_def rows scalar_Cons b(1,2) db4_def)
  have "db_bundles db4 = [activated_bundle (env_now base_env) ?b]"
    by (simp add: db4_def activate_bundle_def current_active_def rows scalar_Cons b(2))
  moreover have "gov_step\<^sup>*\<^sup>* start_world (db4, invalidate_policy_cache (Some ''default'') Map.empty, Map.empty)"
    unfolding start_world_def
    using BundleCreated[OF c] BundleSubmitted[OF st] BundleApproved[OF ap] BundleActivated[OF act]
    by (meson rtranclp.rtrancl_into_rtrancl rtranclp.rtrancl_refl)
  moreover have "bundle_key (activated_bundle (env_now base_env) ?b) = (''default'', ''b1'')"
    "bundle_entry (activated_bundle (env_now base_env) ?b) = (BActive, ''bob'', Some ''ada'')"
    using b by (simp_all add: activated_bundle_def bundle_key_def bundle_entry_def)
  ultimately show ?thesis by (metis fst_conv)
qed

lemma start_world_empty: "db_bundles (fst start_world) = []" "db_rollouts (fst start_world) = []"
  by (simp_all add: start_world_def empty_db_def)

theorem bundles_refine_register_witness:
  "\<exists>reg. register_step\<^sup>*\<^sup>* Map.empty reg \<and> reg ''b1'' = Some (BActive, ''bob'', Some ''ada'')"
proof -
  obtain w b where w: "gov_step\<^sup>*\<^sup>* start_world w" and b: "db_bundles (fst w) = [b]" "bundle_key b = (''default'', ''b1'')"
      "bundle_entry b = (BActive, ''bob'', Some ''ada'')"
    using sample_world_reached by blast
  have "bundle_register (db_bundles (fst w)) ''default'' ''b1'' = Some (BActive, ''bob'', Some ''ada'')"
    by (simp add: b bundle_register_def scalar_Cons)
  with bundles_refine_register[OF start_world_empty w, of "''default''"] show ?thesis by blast
qed

theorem governed_policies_witness:
  "\<exists>(w :: rollout_world) b. active_bundle (fst w) ''default'' = Some b \<and> validate_policy_definitions (bundle_definition_json b) = Inr ()"
proof -
  obtain w b where w: "gov_step\<^sup>*\<^sup>* start_world w" and b: "db_bundles (fst w) = [b]" "bundle_key b = (''default'', ''b1'')"
      "bundle_entry b = (BActive, ''bob'', Some ''ada'')"
    using sample_world_reached by blast
  have "active_bundle (fst w) ''default'' = Some b"
    using b by (simp add: active_bundle_def where_rows_def bundle_key_def bundle_entry_def)
  with governed_policies[OF start_world_empty w, of "''default''"] show ?thesis by blast
qed

end
