(* ===== verification/EvidenceSigning.thy ===== *)
theory EvidenceSigning
  imports PolicyRollouts
begin

text \<open>
  \<open>app/services/evidence_signing.py\<close>: signing a manifest under a configured profile (an Ed25519 key,
  AWS KMS, or Sigstore) and verifying the assurance recorded with it, with the secret references of
  \<open>app/secrets.py\<close>. The \<open>cryptography\<close> package, the KMS client, the \<open>cosign\<close> program and the
  operating system are the parameter \<open>crypto\<close>. The lemmas show the round trip of the base64 text, that
  what was signed verifies and is trusted under a profile that pins its key, that no other manifest
  verifies under the same assurance, and what a forged signature does.
\<close>

section \<open>Bytes and their texts\<close>

text \<open>Bytes are characters. \<open>digest()\<close> is the byte string whose \<open>hexdigest()\<close> is given.\<close>

fun unhex :: "string \<Rightarrow> string" where
  "unhex (a # b # r) = char_of (16 * hex_value a + hex_value b) # unhex r"
| "unhex _ = []"

definition b64_char :: "nat \<Rightarrow> char" where
  "b64_char n =
     char_of (if n < 26 then n + 65 else if n < 52 then n + 71 else if n < 62 then n - 4 else if n = 62 then 43 else 47 :: nat)"

definition b64_value :: "char \<Rightarrow> nat option" where
  "b64_value c =
     (let n = (of_char c :: nat) in
      if 65 \<le> n \<and> n \<le> 90 then Some (n - 65)
      else if 97 \<le> n \<and> n \<le> 122 then Some (n - 71)
      else if 48 \<le> n \<and> n \<le> 57 then Some (n + 4)
      else if n = 43 then Some 62 else if n = 47 then Some 63 else None)"

fun b64_encode :: "string \<Rightarrow> string" where
  "b64_encode (a # b # c # r) =
     (let n = (of_char a * 256 + of_char b) * 256 + of_char c :: nat
      in b64_char (n div 262144) # b64_char (n div 4096 mod 64) # b64_char (n div 64 mod 64) # b64_char (n mod 64) #
         b64_encode r)"
| "b64_encode [a, b] =
     (let n = (of_char a * 256 + of_char b) * 4 :: nat
      in [b64_char (n div 4096), b64_char (n div 64 mod 64), b64_char (n mod 64), CHR ''=''])"
| "b64_encode [a] =
     (let n = of_char a * 16 :: nat in [b64_char (n div 64), b64_char (n mod 64), CHR ''='', CHR ''=''])"
| "b64_encode [] = []"

text \<open>\<open>b64decode(value, validate=True)\<close>: groups of four, padding only at the end; spare bits are dropped.\<close>

fun b64_decode :: "string \<Rightarrow> string option" where
  "b64_decode [] = Some []"
| "b64_decode (a # b # c # d # r) =
     (case (b64_value a, b64_value b) of
        (Some x, Some y) \<Rightarrow>
          if r = [] \<and> c = CHR ''='' \<and> d = CHR ''='' then Some [char_of ((x * 64 + y) div 16)]
          else (case b64_value c of
            None \<Rightarrow> None
          | Some z \<Rightarrow>
              if r = [] \<and> d = CHR ''=''
              then (let n = ((x * 64 + y) * 64 + z) div 4 in Some [char_of (n div 256), char_of (n mod 256)])
              else (case (b64_value d, b64_decode r) of
                (Some w, Some rest) \<Rightarrow>
                  let n = ((x * 64 + y) * 64 + z) * 64 + w
                  in Some (char_of (n div 65536) # char_of (n div 256 mod 256) # char_of (n mod 256) # rest)
              | _ \<Rightarrow> None))
      | _ \<Rightarrow> None)"
| "b64_decode _ = None"

text \<open>\<open>_json_default\<close>: a naive time is UTC and its offset is written \<open>Z\<close>.\<close>

definition zulu :: "env \<Rightarrow> time \<Rightarrow> json" where
  "zulu env t = JStr (env_isoformat env t @ ''Z'')"

section \<open>Outside the repository\<close>

datatype key_kind = Ed25519Key | EllipticCurveKey | RSAKey | OtherKey

text \<open>What \<open>verify\<close> is given beside the signature and the message.\<close>

datatype sig_scheme = EdDSA | ECDSA_SHA256 | PKCS1v15_SHA256 | PSS_SHA256

record private_key =
  pk_kind :: key_kind
  pk_public_der :: string
  pk_sign :: "string \<Rightarrow> string"

record public_key =
  pub_kind :: key_kind
  pub_der :: string
  pub_verify :: "sig_scheme \<Rightarrow> string \<Rightarrow> string \<Rightarrow> unit result"

record kms_client =
  kms_public_key :: "string \<Rightarrow> string result"
  kms_sign :: "string \<Rightarrow> string \<Rightarrow> string \<Rightarrow> string result"

text \<open>
  \<open>cr_cosign_sign exe token manifest\<close> is the return code of \<open>cosign sign-blob\<close> and the document it
  leaves in the bundle file, if it is one; \<open>cr_cosign_verify exe identity issuer bundle manifest\<close> the
  return code of \<open>cosign verify-blob\<close>; an error stands for a program that is missing or does not end in
  time. A path is the list of its components after \<open>expanduser().resolve()\<close>. The token exchange of
  \<open>workload_exchange.py\<close> is \<open>cr_boto_credentials\<close>.
\<close>

record crypto =
  cr_getenv :: "string \<Rightarrow> string option"
  cr_resolve_path :: "string \<Rightarrow> string list"
  cr_file_size :: "string list \<Rightarrow> int result"
  cr_read_text :: "string list \<Rightarrow> string result"
  cr_load_private :: "string \<Rightarrow> private_key result"
  cr_load_der :: "string \<Rightarrow> public_key result"
  cr_load_pem :: "string \<Rightarrow> public_key result"
  cr_boto_credentials :: "json \<Rightarrow> dict result"
  cr_kms_client :: "dict \<Rightarrow> kms_client"
  cr_cosign_sign :: "string \<Rightarrow> string \<Rightarrow> string \<Rightarrow> (int \<times> json option) result"
  cr_cosign_verify :: "string \<Rightarrow> string \<Rightarrow> string \<Rightarrow> json \<Rightarrow> string \<Rightarrow> int result"

section \<open>Secrets\<close>

text \<open>\<open>re.fullmatch("[A-Z][A-Z0-9_]*", name)\<close>.\<close>

definition env_name_ok :: "string \<Rightarrow> bool" where
  "env_name_ok name =
     (case name of [] \<Rightarrow> False
      | c # cs \<Rightarrow> (CHR ''A'' \<le> c \<and> c \<le> CHR ''Z'') \<and>
          list_all (\<lambda>d. (CHR ''A'' \<le> d \<and> d \<le> CHR ''Z'') \<or> is_ascii_digit d \<or> d = CHR ''_'') cs)"

definition under :: "string list \<Rightarrow> string list \<Rightarrow> bool" where
  "under path dir = (take (length dir) path = dir)"

definition resolve_secret :: "env \<Rightarrow> crypto \<Rightarrow> string \<Rightarrow> string result" where
  "resolve_secret env cr reference =
     (if take 4 reference = ''env:''
      then (let name = drop 4 reference in
            rbind (raise_if (\<not> env_name_ok name)
                     (ValueError ''Environment secret references must use uppercase variable names'')) (\<lambda>_.
            case cr_getenv cr name of
              None \<Rightarrow> Inl (ValueError (''Secret environment variable is not set: '' @ name))
            | Some value \<Rightarrow> Inr value))
      else if take 5 reference = ''file:''
      then (let path = cr_resolve_path cr (drop 5 reference) in
            rbind (raise_if (\<not> list_ex (under path) (cfg_secret_file_roots (env_settings env)))
                     (ValueError ''Secret file is outside ODG_SECRET_FILE_ROOTS'')) (\<lambda>_.
            rbind (cr_file_size cr path) (\<lambda>size.
            rbind (raise_if (size > 1048576) (ValueError ''Secret files must not exceed 1 MiB'')) (\<lambda>_.
            rbind (cr_read_text cr path) (\<lambda>content.
            Inr (py_strip content))))))
      else Inl (ValueError ''Secret references must use env:NAME or file:/path''))"

section \<open>Profiles\<close>

definition SIGNATURE_TYPES :: "string list" where
  "SIGNATURE_TYPES = [''ed25519'', ''aws-kms'', ''sigstore'']"

definition KMS_ALGORITHMS :: "string list" where
  "KMS_ALGORITHMS = [''ECDSA_SHA_256'', ''RSASSA_PKCS1_V1_5_SHA_256'', ''RSASSA_PSS_SHA_256'']"

text \<open>\<open>value in\<close> a set of texts: an unhashable value raises.\<close>

definition in_texts :: "json \<Rightarrow> string list \<Rightarrow> bool result" where
  "in_texts v texts =
     (if py_hashable v then Inr (is_jstr v \<and> jstr v \<in> set texts) else Inl (TypeError ''unhashable type''))"

text \<open>\<open>_profile_configuration\<close>.\<close>

definition profile_configuration :: "json option \<Rightarrow> string \<Rightarrow> dict result" where
  "profile_configuration setting name =
     (case setting of
        None \<Rightarrow> Inl (ValueError (name @ '' must be valid JSON''))
      | Some v \<Rightarrow>
          if \<not> is_jobj v \<or> \<not> list_all (is_jobj \<circ> snd) (jobj v)
          then Inl (ValueError (name @ '' must contain named profile objects''))
          else Inr (jobj v))"

definition signing_profiles :: "env \<Rightarrow> dict result" where
  "signing_profiles env =
     profile_configuration (cfg_governance_package_signing_profiles_json (env_settings env))
       ''ODG_GOVERNANCE_PACKAGE_SIGNING_PROFILES_JSON''"

definition verification_profiles :: "env \<Rightarrow> dict result" where
  "verification_profiles env =
     profile_configuration (cfg_governance_package_verification_profiles_json (env_settings env))
       ''ODG_GOVERNANCE_PACKAGE_VERIFICATION_PROFILES_JSON''"

definition selected_profile :: "env \<Rightarrow> string option \<Rightarrow> string option" where
  "selected_profile env name =
     (if truthy_opt name then name
      else or_none (cfg_governance_package_default_signing_profile (env_settings env)))"

definition validate_signing_profile :: "env \<Rightarrow> string option \<Rightarrow> string option result" where
  "validate_signing_profile env name =
     (case selected_profile env name of
        None \<Rightarrow>
          rbind (raise_if (cfg_governance_package_signing_required (env_settings env))
                   (ValueError ''A governance evidence signing profile is required'')) (\<lambda>_. Inr None)
      | Some selected \<Rightarrow>
          rbind (signing_profiles env) (\<lambda>profiles.
          let profile = py_get profiles selected in
          rbind (raise_if (\<not> py_truthy profile) (ValueError ''Governance evidence signing profile is not configured'')) (\<lambda>_.
          rbind (in_texts (py_get (jobj profile) ''type'') SIGNATURE_TYPES) (\<lambda>known.
          rbind (raise_if (\<not> known) (ValueError ''Governance evidence signing profile type is unsupported'')) (\<lambda>_.
          let key_id = py_get (jobj profile) ''key_id'' in
          rbind (raise_if (\<not> is_jstr key_id \<or> py_strip (jstr key_id) = [])
                   (ValueError ''Governance evidence signing profile key_id is required'')) (\<lambda>_.
          Inr (Some selected)))))))"

section \<open>Signing\<close>

text \<open>The part of the assurance all signatures by a key share.\<close>

definition key_assurance :: "env \<Rightarrow> string \<Rightarrow> string \<Rightarrow> json \<Rightarrow> string \<Rightarrow> string \<Rightarrow> dict" where
  "key_assurance env ty algorithm key_id signature der =
     [(''type'', JStr ty), (''algorithm'', JStr algorithm), (''key_id'', key_id),
      (''signature'', JStr (b64_encode signature)), (''public_key'', JStr (b64_encode der)),
      (''public_key_sha256'', JStr (env_sha256 env der))]"

definition sign_ed25519 :: "env \<Rightarrow> crypto \<Rightarrow> string \<Rightarrow> dict \<Rightarrow> dict result" where
  "sign_ed25519 env cr manifest_bytes profile =
     (let reference = py_get profile ''private_key_ref'' in
      rbind (raise_if (\<not> is_jstr reference \<or> jstr reference = [])
               (ValueError ''Ed25519 signing profiles require private_key_ref'')) (\<lambda>_.
      rbind (resolve_secret env cr (jstr reference)) (\<lambda>pem.
      rbind (cr_load_private cr pem) (\<lambda>key.
      rbind (raise_if (pk_kind key \<noteq> Ed25519Key) (ValueError ''Governance evidence signing key must be Ed25519'')) (\<lambda>_.
      Inr (key_assurance env ''ed25519'' ''Ed25519'' (py_get profile ''key_id'') (pk_sign key manifest_bytes)
             (pk_public_der key)))))))"

definition sign_aws_kms :: "env \<Rightarrow> crypto \<Rightarrow> string \<Rightarrow> dict \<Rightarrow> dict result" where
  "sign_aws_kms env cr manifest_bytes profile =
     (let algorithm = py_get_default profile ''signing_algorithm'' (JStr ''ECDSA_SHA_256'') in
      rbind (in_texts algorithm KMS_ALGORITHMS) (\<lambda>known.
      rbind (raise_if (\<not> known) (ValueError ''AWS KMS governance signing algorithm is unsupported'')) (\<lambda>_.
      let region = py_get profile ''region'';
          exchange = py_get profile ''workload_exchange_profile'';
          kwargs = (if py_truthy region then [(''region_name'', region)] else []);
          key_id = jstr (py_get profile ''key_id'')
      in
      rbind (if py_truthy exchange then cr_boto_credentials cr exchange else Inr []) (\<lambda>credentials.
      let client = cr_kms_client cr (fold (\<lambda>(k, v). dict_set k v) credentials kwargs) in
      rbind (kms_public_key client key_id) (\<lambda>der.
      rbind (kms_sign client key_id (unhex (env_sha256 env manifest_bytes)) (jstr algorithm)) (\<lambda>signature.
      Inr (key_assurance env ''aws-kms'' (jstr algorithm) (py_get profile ''key_id'') signature der)))))))"

definition cosign_executable :: "env \<Rightarrow> string result" where
  "cosign_executable env =
     (let exe = cfg_cosign_executable (env_settings env) in
      rbind (raise_if (exe = [] \<or> CHR 0x00 \<in> set exe \<or> length exe > 1024)
               (ValueError ''ODG_COSIGN_EXECUTABLE is invalid'')) (\<lambda>_. Inr exe))"

text \<open>\<open>_run_cosign\<close>, given what the run returned.\<close>

definition run_cosign :: "('a \<Rightarrow> int) \<Rightarrow> 'a result \<Rightarrow> 'a result" where
  "run_cosign code completed =
     (case completed of
        Inl _ \<Rightarrow> Inl (RuntimeError ''Sigstore signing or verification is unavailable'')
      | Inr c \<Rightarrow>
          rbind (raise_if (code c \<noteq> 0) (RuntimeError ''Sigstore signing or verification failed'')) (\<lambda>_. Inr c))"

definition nonempty_text :: "json \<Rightarrow> bool" where
  "nonempty_text v = (is_jstr v \<and> jstr v \<noteq> [])"

definition sign_sigstore :: "env \<Rightarrow> crypto \<Rightarrow> string \<Rightarrow> dict \<Rightarrow> dict result" where
  "sign_sigstore env cr manifest_bytes profile =
     (let identity = py_get profile ''certificate_identity'';
          issuer = py_get profile ''certificate_oidc_issuer'';
          token_ref = py_get profile ''identity_token_ref''
      in
      rbind (raise_if (\<not> (nonempty_text identity \<and> nonempty_text issuer \<and> nonempty_text token_ref))
               (ValueError ''Sigstore signing profiles require certificate identity, issuer, and identity_token_ref'')) (\<lambda>_.
      rbind (resolve_secret env cr (jstr token_ref)) (\<lambda>token.
      rbind (cosign_executable env) (\<lambda>exe.
      rbind (run_cosign fst (cr_cosign_sign cr exe token manifest_bytes)) (\<lambda>(code, bundle).
      case bundle of
        None \<Rightarrow> Inl (RuntimeError ''Sigstore did not produce a valid verification bundle'')
      | Some b \<Rightarrow>
          Inr [(''type'', JStr ''sigstore''), (''algorithm'', JStr ''sigstore-bundle''), (''key_id'', py_get profile ''key_id''),
               (''certificate_identity'', identity), (''certificate_oidc_issuer'', issuer), (''bundle'', b)])))))"

definition unsigned_assurance :: dict where
  "unsigned_assurance =
     [(''status'', JStr ''unsigned''), (''profile'', JNull), (''type'', JStr ''none''), (''key_id'', JNull), (''signed_at'', JNull)]"

text \<open>
  The assurance as it is stored: \<open>json.dumps(assurance, default=str)\<close> writes the aware \<open>signed_at\<close> with
  \<open>str\<close>.
\<close>

definition sign_manifest :: "env \<Rightarrow> crypto \<Rightarrow> json \<Rightarrow> string option \<Rightarrow> dict result" where
  "sign_manifest env cr manifest name =
     rbind (validate_signing_profile env name) (\<lambda>sel.
     case sel of
       None \<Rightarrow> Inr unsigned_assurance
     | Some selected \<Rightarrow>
         rbind (signing_profiles env) (\<lambda>profiles.
         let profile = jobj (py_get profiles selected);
             profile_type = py_get profile ''type'';
             manifest_bytes = canonical_json (env_frepr env) manifest
         in
         rbind (if profile_type = JStr ''ed25519'' then sign_ed25519 env cr manifest_bytes profile
                else if profile_type = JStr ''aws-kms'' then sign_aws_kms env cr manifest_bytes profile
                else sign_sigstore env cr manifest_bytes profile) (\<lambda>assurance.
         Inr ([(''status'', JStr ''signed''), (''profile'', JStr selected),
               (''signed_at'', JStr (env_str_time env (env_now env) @ ''+00:00'')),
               (''manifest_sha256'', JStr (env_sha256 env manifest_bytes))] @ assurance))))"

section \<open>Verifying\<close>

definition kms_scheme :: "string \<Rightarrow> (sig_scheme \<times> key_kind) option" where
  "kms_scheme algorithm =
     (if algorithm = ''Ed25519'' then Some (EdDSA, Ed25519Key)
      else if algorithm = ''ECDSA_SHA_256'' then Some (ECDSA_SHA256, EllipticCurveKey)
      else if algorithm = ''RSASSA_PKCS1_V1_5_SHA_256'' then Some (PKCS1v15_SHA256, RSAKey)
      else if algorithm = ''RSASSA_PSS_SHA_256'' then Some (PSS_SHA256, RSAKey) else None)"

text \<open>\<open>_decode(assurance[key])\<close>.\<close>

definition decode_field :: "dict \<Rightarrow> string \<Rightarrow> string result" where
  "decode_field assurance k =
     (case dict_get assurance k of
        None \<Rightarrow> Inl (KeyError k)
      | Some v \<Rightarrow>
          if \<not> is_jstr v then Inl (TypeError ''argument should be a bytes-like object or ASCII string'')
          else (case b64_decode (jstr v) of
                  None \<Rightarrow> Inl (ValueError ''Invalid base64-encoded string'') | Some b \<Rightarrow> Inr b))"

definition verify_public_key_signature :: "env \<Rightarrow> crypto \<Rightarrow> string \<Rightarrow> dict \<Rightarrow> bool result" where
  "verify_public_key_signature env cr manifest_bytes assurance =
     rbind (decode_field assurance ''public_key'') (\<lambda>der.
     rbind (decode_field assurance ''signature'') (\<lambda>signature.
     if JStr (env_sha256 env der) \<noteq> py_get assurance ''public_key_sha256'' then Inr False
     else rbind (cr_load_der cr der) (\<lambda>key.
       case py_get assurance ''algorithm'' of
         JStr algorithm \<Rightarrow>
           (case kms_scheme algorithm of
              None \<Rightarrow> Inr False
            | Some (scheme, kind) \<Rightarrow>
                if pub_kind key \<noteq> kind then Inr False
                else rbind (pub_verify key scheme signature manifest_bytes) (\<lambda>_. Inr True))
       | _ \<Rightarrow> Inr False)))"

definition verify_sigstore :: "env \<Rightarrow> crypto \<Rightarrow> string \<Rightarrow> dict \<Rightarrow> bool result" where
  "verify_sigstore env cr manifest_bytes assurance =
     (let identity = py_get assurance ''certificate_identity'';
          issuer = py_get assurance ''certificate_oidc_issuer'';
          bundle = py_get assurance ''bundle''
      in if \<not> is_jstr identity \<or> \<not> is_jstr issuer \<or> \<not> is_jobj bundle then Inr False
         else rbind (cosign_executable env) (\<lambda>exe.
              rbind (run_cosign id (cr_cosign_verify cr exe (jstr identity) (jstr issuer) bundle manifest_bytes)) (\<lambda>_.
              Inr True)))"

definition caught :: "py_error \<Rightarrow> bool" where
  "caught e = (case e of OSError _ \<Rightarrow> True | RuntimeError _ \<Rightarrow> True | TypeError _ \<Rightarrow> True | ValueError _ \<Rightarrow> True | _ \<Rightarrow> False)"

definition catch_invalid :: "bool result \<Rightarrow> bool result" where
  "catch_invalid r = (case r of Inl e \<Rightarrow> if caught e then Inr False else Inl e | Inr b \<Rightarrow> Inr b)"

definition verify_signature :: "env \<Rightarrow> crypto \<Rightarrow> string \<Rightarrow> dict \<Rightarrow> bool result" where
  "verify_signature env cr manifest_bytes assurance =
     (let ty = py_get assurance ''type'' in
      catch_invalid
        (rbind (in_texts ty [''ed25519'', ''aws-kms'']) (\<lambda>by_key.
         if by_key then verify_public_key_signature env cr manifest_bytes assurance
         else if ty = JStr ''sigstore'' then verify_sigstore env cr manifest_bytes assurance
         else Inr False)))"

definition same_entry :: "dict \<Rightarrow> dict \<Rightarrow> string \<Rightarrow> bool" where
  "same_entry profile assurance k = py_eq (py_get profile k) (py_get assurance k)"

definition profile_trusts_assurance :: "env \<Rightarrow> crypto \<Rightarrow> dict option \<Rightarrow> dict \<Rightarrow> bool result" where
  "profile_trusts_assurance env cr trust assurance =
     (case trust of
        None \<Rightarrow> Inr False
      | Some profile \<Rightarrow>
          if profile = [] \<or> \<not> same_entry profile assurance ''type'' then Inr False
          else if py_truthy (py_get profile ''key_id'') \<and> \<not> same_entry profile assurance ''key_id'' then Inr False
          else if py_get assurance ''type'' = JStr ''sigstore''
          then Inr (same_entry profile assurance ''certificate_identity'' \<and>
                    same_entry profile assurance ''certificate_oidc_issuer'')
          else if nonempty_text (py_get profile ''public_key_sha256'')
          then Inr (same_entry profile assurance ''public_key_sha256'')
          else if nonempty_text (py_get profile ''public_key_ref'')
          then rbind (resolve_secret env cr (jstr (py_get profile ''public_key_ref''))) (\<lambda>pem.
               rbind (cr_load_pem cr pem) (\<lambda>key.
               Inr (JStr (env_sha256 env (pub_der key)) = py_get assurance ''public_key_sha256'')))
          else Inr False)"

text \<open>\<open>verification_profile or assurance.get("profile")\<close>, and \<open>_trust_profile\<close>.\<close>

definition trust_profile_name :: "string option \<Rightarrow> dict \<Rightarrow> json" where
  "trust_profile_name verification_profile assurance =
     (if truthy_opt verification_profile then jopt JStr verification_profile else py_get assurance ''profile'')"

definition trust_profile :: "env \<Rightarrow> json \<Rightarrow> bool \<Rightarrow> dict option result" where
  "trust_profile env name required =
     (if \<not> py_truthy name then Inr None
      else rbind (verification_profiles env) (\<lambda>profiles.
           if \<not> py_hashable name then Inl (TypeError ''unhashable type'')
           else let profile = (if is_jstr name then dict_get profiles (jstr name) else None) in
                rbind (raise_if ((case profile of None \<Rightarrow> True | Some p \<Rightarrow> \<not> py_truthy p) \<and> required)
                         (ValueError ''Governance evidence verification profile is not configured'')) (\<lambda>_.
                Inr (map_option jobj profile))))"

record verification =
  vf_valid :: bool
  vf_signed :: bool
  vf_signature_valid :: bool
  vf_trusted :: bool
  vf_signing_profile :: json
  vf_verification_profile :: json
  vf_signature_type :: json
  vf_key_id :: json
  vf_manifest_sha256 :: string
  vf_errors :: "string list"

text \<open>The check of the signature, made only of a signed assurance with no error so far.\<close>

definition check_signature ::
  "env \<Rightarrow> crypto \<Rightarrow> string \<Rightarrow> dict \<Rightarrow> dict option \<Rightarrow> string list \<Rightarrow> (bool \<times> bool \<times> string list) result" where
  "check_signature env cr manifest_bytes assurance trust errors =
     rbind (verify_signature env cr manifest_bytes assurance) (\<lambda>signature_valid.
     rbind (if signature_valid then profile_trusts_assurance env cr trust assurance else Inr False) (\<lambda>trusted.
     Inr (signature_valid, trusted, errors @ (if signature_valid then [] else [''signature-invalid'']))))"

definition verify_manifest_signature ::
  "env \<Rightarrow> crypto \<Rightarrow> json \<Rightarrow> dict \<Rightarrow> string option \<Rightarrow> bool \<Rightarrow> verification result" where
  "verify_manifest_signature env cr manifest assurance verification_profile require_signature =
     (let manifest_bytes = canonical_json (env_frepr env) manifest;
          digest = env_sha256 env manifest_bytes;
          signed = (py_get assurance ''status'' = JStr ''signed'');
          errors = (if signed \<and> py_get assurance ''manifest_sha256'' \<noteq> JStr digest then [''manifest-digest-mismatch''] else []);
          name = trust_profile_name verification_profile assurance
      in
      rbind (trust_profile env name (verification_profile \<noteq> None)) (\<lambda>trust.
      rbind (if signed \<and> errors = [] then check_signature env cr manifest_bytes assurance trust errors
             else Inr (False, False, errors @ (if require_signature then [''signature-required''] else [])))
        (\<lambda>(signature_valid, trusted, errors').
      Inr \<lparr>vf_valid = (errors' = []), vf_signed = signed, vf_signature_valid = signature_valid, vf_trusted = trusted,
           vf_signing_profile = py_get assurance ''profile'',
           vf_verification_profile = (if trust \<noteq> None \<and> trust \<noteq> Some [] then name else JNull),
           vf_signature_type = py_get assurance ''type'', vf_key_id = py_get assurance ''key_id'',
           vf_manifest_sha256 = digest, vf_errors = errors'\<rparr>)))"

section \<open>Evidence packages\<close>

definition section_digests :: "env \<Rightarrow> json \<Rightarrow> dict \<Rightarrow> dict" where
  "section_digests env analytics records =
     (''analytics'', JStr (env_sha256 env (canonical_json (env_frepr env) analytics))) #
     map (\<lambda>(category, rows). (''records/'' @ category, JStr (env_sha256 env (canonical_json (env_frepr env) rows))))
       (sort_key fst records)"

record package_verification = verification +
  pv_integrity_valid :: bool
  pv_payload_sha256 :: string

text \<open>The document is what the content parses to, or \<open>None\<close>.\<close>

definition verify_evidence_package ::
  "env \<Rightarrow> crypto \<Rightarrow> json option \<Rightarrow> string option \<Rightarrow> package_verification result" where
  "verify_evidence_package env cr content verification_profile =
     (case content of
        None \<Rightarrow> Inl (ValueError ''Governance evidence package is not valid JSON'')
      | Some document \<Rightarrow>
     rbind (raise_if (\<not> is_jobj document) (ValueError ''Governance evidence package must be a JSON object'')) (\<lambda>_.
     let doc = jobj document;
         manifest = py_get doc ''manifest'';
         analytics = py_get doc ''analytics'';
         records = py_get doc ''records''
     in
     rbind (raise_if (\<not> is_jobj manifest \<or> \<not> is_jobj records)
              (ValueError ''Governance evidence package manifest or records are invalid'')) (\<lambda>_.
     let assurance = (if is_jobj (py_get doc ''assurance'') then jobj (py_get doc ''assurance'')
                      else [(''status'', JStr ''unsigned''), (''profile'', JNull), (''type'', JStr ''none'')]);
         payload_digest = env_sha256 env (canonical_json (env_frepr env) (JObj [(''analytics'', analytics), (''records'', records)]));
         manifest_bytes = canonical_json (env_frepr env) manifest;
         digest = env_sha256 env manifest_bytes;
         signed = (py_get assurance ''status'' = JStr ''signed'');
         errors =
           (if py_get (jobj manifest) ''payload_sha256'' \<noteq> JStr payload_digest then [''payload-digest-mismatch''] else []) @
           (if \<not> py_eq (py_get (jobj manifest) ''section_sha256'') (JObj (section_digests env analytics (jobj records)))
            then [''section-digest-mismatch''] else []) @
           (if signed \<and> py_get assurance ''manifest_sha256'' \<noteq> JStr digest then [''manifest-digest-mismatch''] else []);
         name = trust_profile_name verification_profile assurance
     in
     rbind (trust_profile env name (verification_profile \<noteq> None)) (\<lambda>trust.
     rbind (if signed \<and> errors = [] then check_signature env cr manifest_bytes assurance trust errors
            else Inr (False, False, errors @
                   (if \<not> signed \<and> cfg_governance_package_signing_required (env_settings env)
                    then [''signature-required''] else [])))
       (\<lambda>(signature_valid, trusted, errors').
     Inr \<lparr>vf_valid = (errors' = []), vf_signed = signed, vf_signature_valid = signature_valid, vf_trusted = trusted,
          vf_signing_profile = py_get assurance ''profile'',
          vf_verification_profile = (if trust \<noteq> None \<and> trust \<noteq> Some [] then name else JNull),
          vf_signature_type = py_get assurance ''type'', vf_key_id = py_get assurance ''key_id'',
          vf_manifest_sha256 = digest, vf_errors = errors',
          pv_integrity_valid = (\<forall>e \<in> set errors'. e \<notin> {''payload-digest-mismatch'', ''section-digest-mismatch'', ''manifest-digest-mismatch''}),
          pv_payload_sha256 = payload_digest\<rparr>)))))"

definition profile_summary :: "string \<times> json \<Rightarrow> json" where
  "profile_summary p = JObj [(''name'', JStr (fst p)), (''type'', py_get (jobj (snd p)) ''type''),
     (''key_id'', py_get (jobj (snd p)) ''key_id'')]"

definition signing_configuration :: "env \<Rightarrow> json result" where
  "signing_configuration env =
     rbind (signing_profiles env) (\<lambda>profiles.
     rbind (verification_profiles env) (\<lambda>verification.
     Inr (JObj
       [(''required'', JBool (cfg_governance_package_signing_required (env_settings env))),
        (''default_profile'', jopt JStr (or_none (cfg_governance_package_default_signing_profile (env_settings env)))),
        (''signing_profiles'', JList (map profile_summary (sort_key fst profiles))),
        (''verification_profiles'', JList (map profile_summary (sort_key fst verification)))])))"


section \<open>The base64 text\<close>

lemma of_char_less: "(of_char c :: nat) < 256"
  by simp

lemma b64_value_char: "n < 64 \<Longrightarrow> b64_value (b64_char n) = Some n"
  by (auto simp: b64_char_def b64_value_def Let_def)

lemma b64_char_pad: "n < 64 \<Longrightarrow> b64_char n \<noteq> CHR ''=''"
  using b64_value_char[of n] by (auto simp: b64_value_def)

lemma sextets:
  "(n div 64) * 64 + n mod 64 = (n :: nat)"
  "(n div 4096 * 64 + n div 64 mod 64) * 64 + n mod 64 = n"
  "((n div 262144 * 64 + n div 4096 mod 64) * 64 + n div 64 mod 64) * 64 + n mod 64 = n"
proof -
  have d: "n div 4096 = n div 64 div 64" "n div 262144 = n div 64 div 64 div 64"
    by (simp_all flip: div_mult2_eq)
  show "(n div 64) * 64 + n mod 64 = n"
    "(n div 4096 * 64 + n div 64 mod 64) * 64 + n mod 64 = n"
    "((n div 262144 * 64 + n div 4096 mod 64) * 64 + n div 64 mod 64) * 64 + n mod 64 = n"
    unfolding d by (simp_all only: div_mult_mod_eq)
qed

lemma one_octet: "a < 256 \<Longrightarrow> a * 16 div 64 < (64 :: nat)"
  by simp

lemma two_octets: "a < 256 \<Longrightarrow> b < 256 \<Longrightarrow> (a * 256 + b) * 4 < 64 * (4096 :: nat)"
  by simp

lemma octets:
  assumes "a < 256" "b < 256" "c < (256 :: nat)"
  shows "((a * 256 + b) * 256 + c) div 65536 = a" "((a * 256 + b) * 256 + c) div 256 mod 256 = b"
    "((a * 256 + b) * 256 + c) mod 256 = c" "((a * 256 + b) * 256 + c) div 262144 < 64"
proof -
  let ?n = "(a * 256 + b) * 256 + c"
  have m: "?n mod 256 = c" "?n div 256 = a * 256 + b"
    using assms(3) by (simp_all only: mod_mult_self3 div_mult_self3) simp_all
  have "?n div 65536 = ?n div 256 div 256" by (simp flip: div_mult2_eq)
  with m assms(2) show "?n div 65536 = a" "?n div 256 mod 256 = b" "?n mod 256 = c" by simp_all
  show "?n div 262144 < 64" using assms by simp
qed

theorem b64_roundtrip: "b64_decode (b64_encode s) = Some s"
proof (induction s rule: b64_encode.induct)
  case (1 a b c r)
  let ?n = "(of_char a * 256 + of_char b) * 256 + of_char c :: nat"
  have v: "b64_value (b64_char (?n div 262144)) = Some (?n div 262144)"
    "b64_value (b64_char (?n div 4096 mod 64)) = Some (?n div 4096 mod 64)"
    "b64_value (b64_char (?n div 64 mod 64)) = Some (?n div 64 mod 64)"
    "b64_value (b64_char (?n mod 64)) = Some (?n mod 64)"
    "b64_char (?n div 64 mod 64) \<noteq> CHR ''=''" "b64_char (?n mod 64) \<noteq> CHR ''=''"
    by (intro b64_value_char b64_char_pad octets of_char_less pos_mod_bound; simp)+
  show ?case
    unfolding b64_encode.simps b64_decode.simps Let_def v option.case prod.case 1[OF refl] sextets
    using v(5,6) by (simp only: if_False simp_thms octets of_char_less) simp
next
  case (2 a b)
  let ?n = "(of_char a * 256 + of_char b) * 4 :: nat"
  have "?n < 64 * 4096"
    by (rule two_octets; rule of_char_less)
  then have "?n div 4096 < 64" by (rule less_mult_imp_div_less)
  then have v: "b64_value (b64_char (?n div 4096)) = Some (?n div 4096)"
    "b64_value (b64_char (?n div 64 mod 64)) = Some (?n div 64 mod 64)"
    "b64_value (b64_char (?n mod 64)) = Some (?n mod 64)"
    "b64_char (?n mod 64) \<noteq> CHR ''=''"
    by (intro b64_value_char b64_char_pad; simp)+
  have "?n div 4 = of_char a * 256 + of_char b" by simp
  moreover have "(of_char a * 256 + of_char b) div 256 = (of_char a :: nat)" "(of_char a * 256 + of_char b) mod 256 = (of_char b :: nat)"
    using of_char_less[of b] by simp_all
  ultimately show ?case
    unfolding b64_encode.simps b64_decode.simps Let_def v option.case prod.case sextets
    using v(4) by simp
next
  case (3 a)
  let ?n = "of_char a * 16 :: nat"
  have "?n div 64 < 64"
    by (rule one_octet[OF of_char_less])
  then have v: "b64_value (b64_char (?n div 64)) = Some (?n div 64)"
    "b64_value (b64_char (?n mod 64)) = Some (?n mod 64)"
    by (intro b64_value_char; simp)+
  show ?case
    unfolding b64_encode.simps b64_decode.simps Let_def v option.case prod.case sextets by simp
qed simp

section \<open>Signing and verifying\<close>

text \<open>The documented behaviour of the signing libraries: each verifies what it signs.\<close>

definition verifies_own :: "env \<Rightarrow> crypto \<Rightarrow> bool" where
  "verifies_own env cr \<longleftrightarrow>
     (\<forall>pem k. cr_load_private cr pem = Inr k \<and> pk_kind k = Ed25519Key \<longrightarrow>
        (\<exists>pub. cr_load_der cr (pk_public_der k) = Inr pub \<and> pub_kind pub = Ed25519Key \<and>
           (\<forall>m. pub_verify pub EdDSA (pk_sign k m) m = Inr ()))) \<and>
     (\<forall>kw key_id algorithm m der sg. algorithm \<in> set KMS_ALGORITHMS \<and> kms_public_key (cr_kms_client cr kw) key_id = Inr der \<and>
        kms_sign (cr_kms_client cr kw) key_id (unhex (env_sha256 env m)) algorithm = Inr sg \<longrightarrow>
        (\<exists>pub scheme kind. cr_load_der cr der = Inr pub \<and> kms_scheme algorithm = Some (scheme, kind) \<and>
           pub_kind pub = kind \<and> pub_verify pub scheme sg m = Inr ()))"

text \<open>The assurance of a manifest signed with a key the libraries accept.\<close>

definition key_signed :: "env \<Rightarrow> crypto \<Rightarrow> json \<Rightarrow> dict \<Rightarrow> bool" where
  "key_signed env cr manifest a \<longleftrightarrow>
     (\<exists>selected t ty algorithm key_id sg der scheme pub. ty \<in> {''ed25519'', ''aws-kms''} \<and>
        a = [(''status'', JStr ''signed''), (''profile'', JStr selected), (''signed_at'', t),
             (''manifest_sha256'', JStr (env_sha256 env (canonical_json (env_frepr env) manifest)))] @
            key_assurance env ty algorithm key_id sg der \<and>
        cr_load_der cr der = Inr pub \<and> kms_scheme algorithm = Some (scheme, pub_kind pub) \<and>
        pub_verify pub scheme sg (canonical_json (env_frepr env) manifest) = Inr ())"

lemma key_signedI:
  assumes "a = [(''status'', JStr ''signed''), (''profile'', JStr selected), (''signed_at'', t),
             (''manifest_sha256'', JStr (env_sha256 env (canonical_json (env_frepr env) manifest)))] @
            key_assurance env ty algorithm key_id sg der"
    and "ty \<in> {''ed25519'', ''aws-kms''}" and "cr_load_der cr der = Inr pub"
    and "kms_scheme algorithm = Some (scheme, pub_kind pub)"
    and "pub_verify pub scheme sg (canonical_json (env_frepr env) manifest) = Inr ()"
  shows "key_signed env cr manifest a"
  using assms unfolding key_signed_def by blast

lemma validate_Some:
  assumes "validate_signing_profile env name = Inr (Some selected)"
  shows "\<exists>profiles. signing_profiles env = Inr profiles \<and> selected_profile env name = Some selected \<and>
    py_get (jobj (py_get profiles selected)) ''type'' \<in> JStr ` set SIGNATURE_TYPES"
  using assms
  by (auto simp: validate_signing_profile_def Let_def result_simps in_texts_def is_jstr_iff split: option.splits if_splits)

lemma sign_ed25519_verifies:
  assumes "verifies_own env cr" and "sign_ed25519 env cr m profile = Inr a"
  shows "\<exists>key_id sg der pub. a = key_assurance env ''ed25519'' ''Ed25519'' key_id sg der \<and>
    cr_load_der cr der = Inr pub \<and> pub_kind pub = Ed25519Key \<and> pub_verify pub EdDSA sg m = Inr ()"
  using assms by (fastforce simp: sign_ed25519_def verifies_own_def Let_def result_simps)

lemma sign_aws_kms_verifies:
  assumes "verifies_own env cr" and "sign_aws_kms env cr m profile = Inr a"
  shows "\<exists>algorithm key_id sg der scheme pub. a = key_assurance env ''aws-kms'' algorithm key_id sg der \<and>
    cr_load_der cr der = Inr pub \<and> kms_scheme algorithm = Some (scheme, pub_kind pub) \<and>
    pub_verify pub scheme sg m = Inr ()"
proof -
  define algorithm where "algorithm = jstr (py_get_default profile ''signing_algorithm'' (JStr ''ECDSA_SHA_256''))"
  define key_id where "key_id = jstr (py_get profile ''key_id'')"
  from assms(2) obtain kw der sg where "algorithm \<in> set KMS_ALGORITHMS"
    "kms_public_key (cr_kms_client cr kw) key_id = Inr der"
    "kms_sign (cr_kms_client cr kw) key_id (unhex (env_sha256 env m)) algorithm = Inr sg"
    and a: "a = key_assurance env ''aws-kms'' algorithm (py_get profile ''key_id'') sg der"
    unfolding sign_aws_kms_def algorithm_def key_id_def Let_def
    by (auto simp: result_simps in_texts_def split: if_splits)
  with assms(1) obtain pub scheme where "cr_load_der cr der = Inr pub" "kms_scheme algorithm = Some (scheme, pub_kind pub)"
    "pub_verify pub scheme sg m = Inr ()"
    unfolding verifies_own_def by blast
  with a show ?thesis by blast
qed

lemma sign_sigstore_type: "sign_sigstore env cr m profile = Inr b \<Longrightarrow> map_of b ''type'' = Some (JStr ''sigstore'')"
  unfolding sign_sigstore_def Let_def by (elim rbindE) (auto split: prod.splits option.splits)

lemma unsigned_status: "py_get unsigned_assurance ''status'' = JStr ''unsigned''"
  by (simp add: unsigned_assurance_def py_get_def dict_get_def)

lemma sign_manifest_key_signed:
  assumes "verifies_own env cr" and "sign_manifest env cr m name = Inr a"
    and "py_get a ''status'' = JStr ''signed''" and "py_get a ''type'' \<noteq> JStr ''sigstore''"
  shows "key_signed env cr m a"
proof -
  let ?m = "canonical_json (env_frepr env) m"
  from assms(2,3) obtain selected profile t b where val: "validate_signing_profile env name = Inr (Some selected)"
    and b: "(if py_get profile ''type'' = JStr ''ed25519'' then sign_ed25519 env cr ?m profile
       else if py_get profile ''type'' = JStr ''aws-kms'' then sign_aws_kms env cr ?m profile
       else sign_sigstore env cr ?m profile) = Inr b"
    and a: "a = [(''status'', JStr ''signed''), (''profile'', JStr selected), (''signed_at'', t),
             (''manifest_sha256'', JStr (env_sha256 env ?m))] @ b"
    by (auto simp: sign_manifest_def unsigned_status Let_def result_simps split: option.splits)
  have "py_get profile ''type'' = JStr ''ed25519'' \<or> py_get profile ''type'' = JStr ''aws-kms''"
  proof (rule ccontr)
    assume "\<not> ?thesis"
    with b have "sign_sigstore env cr ?m profile = Inr b" by simp
    from sign_sigstore_type[OF this] assms(4) show False by (simp add: a py_get_def dict_get_def)
  qed
  with b consider "sign_ed25519 env cr ?m profile = Inr b" | "sign_aws_kms env cr ?m profile = Inr b"
    by (auto split: if_splits)
  then show ?thesis
  proof cases
    case 1
    from sign_ed25519_verifies[OF assms(1) this] obtain key_id sg der pub where
      "b = key_assurance env ''ed25519'' ''Ed25519'' key_id sg der" and pub: "cr_load_der cr der = Inr pub"
      "pub_kind pub = Ed25519Key" "pub_verify pub EdDSA sg ?m = Inr ()" by blast
    with a have "a = [(''status'', JStr ''signed''), (''profile'', JStr selected), (''signed_at'', t),
        (''manifest_sha256'', JStr (env_sha256 env ?m))] @ key_assurance env ''ed25519'' ''Ed25519'' key_id sg der" by blast
    then show ?thesis
      by (rule key_signedI[OF _ _ pub(1) _ pub(3)]) (simp_all add: pub(2) kms_scheme_def)
  next
    case 2
    from sign_aws_kms_verifies[OF assms(1) this] obtain algorithm key_id sg der scheme pub where
      "b = key_assurance env ''aws-kms'' algorithm key_id sg der" and pub: "cr_load_der cr der = Inr pub"
      "kms_scheme algorithm = Some (scheme, pub_kind pub)" "pub_verify pub scheme sg ?m = Inr ()" by blast
    with a have "a = [(''status'', JStr ''signed''), (''profile'', JStr selected), (''signed_at'', t),
        (''manifest_sha256'', JStr (env_sha256 env ?m))] @ key_assurance env ''aws-kms'' algorithm key_id sg der" by blast
    then show ?thesis
      by (rule key_signedI[OF _ _ pub]) simp
  qed
qed

lemma key_signed_fields:
  assumes "key_signed env cr m a"
  shows "py_get a ''status'' = JStr ''signed''"
    "py_get a ''manifest_sha256'' = JStr (env_sha256 env (canonical_json (env_frepr env) m))"
    "py_get a ''type'' \<noteq> JStr ''sigstore''"
  using assms by (auto simp: key_signed_def key_assurance_def py_get_def dict_get_def)

lemma decode_key_assurance:
  "decode_field (d @ key_assurance env ty algorithm key_id sg der) k =
     (if map_of d k \<noteq> None then decode_field d k
      else if k = ''signature'' then Inr sg else if k = ''public_key'' then Inr der
      else decode_field (key_assurance env ty algorithm key_id sg der) k)"
  by (auto simp: decode_field_def key_assurance_def dict_get_def b64_roundtrip map_add_def split: option.split)

lemma key_signed_verifies:
  assumes "key_signed env cr m a"
  shows "verify_signature env cr (canonical_json (env_frepr env) m) a = Inr True"
proof -
  from assms obtain selected t ty algorithm key_id sg der scheme pub where ty: "ty \<in> {''ed25519'', ''aws-kms''}"
    and a: "a = [(''status'', JStr ''signed''), (''profile'', JStr selected), (''signed_at'', t),
             (''manifest_sha256'', JStr (env_sha256 env (canonical_json (env_frepr env) m)))] @
            key_assurance env ty algorithm key_id sg der"
    and pub: "cr_load_der cr der = Inr pub" "kms_scheme algorithm = Some (scheme, pub_kind pub)"
      "pub_verify pub scheme sg (canonical_json (env_frepr env) m) = Inr ()"
    unfolding key_signed_def by blast
  have "decode_field a ''public_key'' = Inr der" "decode_field a ''signature'' = Inr sg"
    unfolding a decode_key_assurance by simp_all
  moreover have "py_get a ''public_key_sha256'' = JStr (env_sha256 env der)" "py_get a ''algorithm'' = JStr algorithm"
    "py_get a ''type'' = JStr ty"
    by (simp_all add: a key_assurance_def py_get_def dict_get_def)
  ultimately show ?thesis
    using ty pub by (auto simp: verify_signature_def verify_public_key_signature_def catch_invalid_def in_texts_def)
qed

text \<open>A profile that pins the key of an assurance by its fingerprint.\<close>

definition pins_key :: "dict \<Rightarrow> dict \<Rightarrow> bool" where
  "pins_key profile a \<longleftrightarrow> py_get profile ''type'' = py_get a ''type'' \<and>
     py_get profile ''key_id'' \<in> {JNull, py_get a ''key_id''} \<and>
     nonempty_text (py_get profile ''public_key_sha256'') \<and>
     py_get profile ''public_key_sha256'' = py_get a ''public_key_sha256''"

lemma pinned_trusts:
  "pins_key profile a \<Longrightarrow> py_get a ''type'' \<noteq> JStr ''sigstore'' \<Longrightarrow>
     profile_trusts_assurance env cr (Some profile) a = Inr True"
  by (auto simp: profile_trusts_assurance_def pins_key_def same_entry_def nonempty_text_def py_get_def dict_get_def)

lemma trust_profile_found:
  assumes "verification_profiles env = Inr profiles" and "trust_profile_name vp a = JStr name" and "name \<noteq> []"
    and "dict_get profiles name = Some (JObj profile)" and "profile \<noteq> []"
  shows "trust_profile env (trust_profile_name vp a) required = Inr (Some profile)"
  using assms by (simp add: trust_profile_def)

text \<open>
  C25: a manifest signed under an Ed25519 or KMS profile verifies with the assurance that is stored, and is
  trusted under a verification profile that pins the key; any manifest of another digest is reported
  invalid and untrusted with the same assurance.
\<close>

theorem signed_manifest_verifies:
  assumes "verifies_own env cr" and "sign_manifest env cr m name = Inr a"
    and "py_get a ''status'' = JStr ''signed''" and "py_get a ''type'' \<noteq> JStr ''sigstore''"
    and "verification_profiles env = Inr profiles" and "trust_profile_name vp a = JStr trust" and "trust \<noteq> []"
    and "dict_get profiles trust = Some (JObj profile)" and "pins_key profile a"
  shows "(\<exists>v. verify_manifest_signature env cr m a vp required = Inr v \<and> vf_valid v \<and> vf_signed v \<and>
            vf_signature_valid v \<and> vf_trusted v \<and> vf_verification_profile v = JStr trust) \<and>
    (\<forall>m'. env_sha256 env (canonical_json (env_frepr env) m') \<noteq> env_sha256 env (canonical_json (env_frepr env) m) \<longrightarrow>
       (\<exists>v. verify_manifest_signature env cr m' a vp required = Inr v \<and> \<not> vf_valid v \<and> \<not> vf_signature_valid v \<and>
          \<not> vf_trusted v \<and> ''manifest-digest-mismatch'' \<in> set (vf_errors v)))"
proof -
  have ks: "key_signed env cr m a"
    by (rule sign_manifest_key_signed[OF assms(1-4)])
  have "profile \<noteq> []"
    using assms(9) by (auto simp: pins_key_def nonempty_text_def py_get_def dict_get_def)
  then have "trust_profile env (JStr trust) (vp \<noteq> None) = Inr (Some profile)"
    using trust_profile_found[OF assms(5-8)] assms(6) by simp
  with \<open>profile \<noteq> []\<close> show ?thesis
    using key_signed_fields[OF ks] key_signed_verifies[OF ks] pinned_trusts[OF assms(9,4)] assms(6)
    by (simp add: verify_manifest_signature_def check_signature_def Let_def)
qed

text \<open>What the library accepted when a signature is reported valid.\<close>

definition accepted_by_key :: "env \<Rightarrow> crypto \<Rightarrow> string \<Rightarrow> dict \<Rightarrow> bool" where
  "accepted_by_key env cr manifest_bytes a \<longleftrightarrow>
     (\<exists>der sg pub algorithm scheme. decode_field a ''public_key'' = Inr der \<and> decode_field a ''signature'' = Inr sg \<and>
        py_get a ''public_key_sha256'' = JStr (env_sha256 env der) \<and> cr_load_der cr der = Inr pub \<and>
        py_get a ''algorithm'' = JStr algorithm \<and> kms_scheme algorithm = Some (scheme, pub_kind pub) \<and>
        pub_verify pub scheme sg manifest_bytes = Inr ())"

definition accepted_by_cosign :: "env \<Rightarrow> crypto \<Rightarrow> string \<Rightarrow> dict \<Rightarrow> bool" where
  "accepted_by_cosign env cr manifest_bytes a \<longleftrightarrow>
     (\<exists>exe. cosign_executable env = Inr exe \<and>
        cr_cosign_verify cr exe (jstr (py_get a ''certificate_identity'')) (jstr (py_get a ''certificate_oidc_issuer''))
          (py_get a ''bundle'') manifest_bytes = Inr 0)"

text \<open>The key and the fields are as a verification needs them, and the library rejects the signature by raising.\<close>

definition rejected_by_key :: "env \<Rightarrow> crypto \<Rightarrow> string \<Rightarrow> dict \<Rightarrow> py_error \<Rightarrow> bool" where
  "rejected_by_key env cr manifest_bytes a e \<longleftrightarrow>
     (\<exists>der sg pub algorithm scheme. decode_field a ''public_key'' = Inr der \<and> decode_field a ''signature'' = Inr sg \<and>
        py_get a ''public_key_sha256'' = JStr (env_sha256 env der) \<and> cr_load_der cr der = Inr pub \<and>
        py_get a ''algorithm'' = JStr algorithm \<and> kms_scheme algorithm = Some (scheme, pub_kind pub) \<and>
        pub_verify pub scheme sg manifest_bytes = Inl e)"

lemma catch_invalid_True: "catch_invalid r = Inr True \<longleftrightarrow> r = Inr True"
  by (auto simp: catch_invalid_def split: sum.splits if_splits)

lemma verify_public_key_True:
  assumes "verify_public_key_signature env cr m a = Inr True"
  shows "accepted_by_key env cr m a"
  using assms unfolding verify_public_key_signature_def accepted_by_key_def
  by (elim rbindE) (auto split: if_splits json.splits option.splits prod.splits elim!: rbindE)

lemma verify_sigstore_True:
  assumes "verify_sigstore env cr m a = Inr True"
  shows "accepted_by_cosign env cr m a"
  using assms unfolding verify_sigstore_def accepted_by_cosign_def Let_def run_cosign_def
  by (auto split: if_splits sum.splits elim!: rbindE)

lemma verify_signature_True:
  assumes "verify_signature env cr m a = Inr True"
  shows "py_get a ''type'' \<in> {JStr ''ed25519'', JStr ''aws-kms''} \<and> accepted_by_key env cr m a \<or>
    py_get a ''type'' = JStr ''sigstore'' \<and> accepted_by_cosign env cr m a"
  using assms unfolding verify_signature_def Let_def catch_invalid_True
  by (auto simp: in_texts_def is_jstr_iff split: if_splits dest: verify_public_key_True verify_sigstore_True elim!: rbindE)

lemma check_signature_Inr:
  assumes "check_signature env cr b a trust errs = Inr (sv, tr, errs')"
  shows "verify_signature env cr b a = Inr sv" "tr \<longrightarrow> sv \<and> profile_trusts_assurance env cr trust a = Inr True"
    "errs' = errs @ (if sv then [] else [''signature-invalid''])"
  using assms unfolding check_signature_def by (auto elim!: rbindE split: if_splits)

lemma check_signature_Inl:
  assumes "check_signature env cr b a trust errs = Inl e"
  shows "verify_signature env cr b a = Inl e \<or> profile_trusts_assurance env cr trust a = Inl e"
  using assms unfolding check_signature_def by (auto simp: rbind_Inl_iff split: if_splits)

lemma verify_signature_Inl: "verify_signature env cr b a = Inl e \<Longrightarrow> \<not> caught e"
  unfolding verify_signature_def Let_def by (auto simp: catch_invalid_def split: sum.splits if_splits)

lemma trusted_profile: "profile_trusts_assurance env cr trust a = Inr True \<Longrightarrow> \<exists>profile. trust = Some profile"
  by (cases trust) (auto simp: profile_trusts_assurance_def)

lemma signature_reported:
  "(case verify_manifest_signature env cr m a vp required of
       Inr v \<Rightarrow>
         (vf_signature_valid v \<longrightarrow> vf_signed v \<and>
            py_get a ''manifest_sha256'' = JStr (env_sha256 env (canonical_json (env_frepr env) m)) \<and>
            (py_get a ''type'' \<in> {JStr ''ed25519'', JStr ''aws-kms''} \<and>
               accepted_by_key env cr (canonical_json (env_frepr env) m) a \<or>
             py_get a ''type'' = JStr ''sigstore'' \<and> accepted_by_cosign env cr (canonical_json (env_frepr env) m) a)) \<and>
         (vf_trusted v \<longrightarrow> vf_signature_valid v \<and>
            (\<exists>profile. trust_profile env (trust_profile_name vp a) (vp \<noteq> None) = Inr (Some profile) \<and>
               profile_trusts_assurance env cr (Some profile) a = Inr True)) \<and>
         (vf_valid v = (vf_errors v = [])) \<and> (required \<and> vf_valid v \<longrightarrow> vf_signature_valid v)
     | Inl e \<Rightarrow>
         (\<exists>trust. trust_profile env (trust_profile_name vp a) (vp \<noteq> None) = Inl e \<or>
            verify_signature env cr (canonical_json (env_frepr env) m) a = Inl e \<and> \<not> caught e \<or>
            profile_trusts_assurance env cr trust a = Inl e))"
proof (cases "verify_manifest_signature env cr m a vp required")
  case (Inl e)
  from Inl consider "trust_profile env (trust_profile_name vp a) (vp \<noteq> None) = Inl e"
    | trust errs where "check_signature env cr (canonical_json (env_frepr env) m) a trust errs = Inl e"
    unfolding verify_manifest_signature_def Let_def rbind_Inl_iff by (auto split: if_splits prod.splits)
  then show ?thesis
    unfolding Inl sum.case using check_signature_Inl verify_signature_Inl by cases blast+
next
  case (Inr v)
  let ?b = "canonical_json (env_frepr env) m"
  define signed where "signed = (py_get a ''status'' = JStr ''signed'')"
  define errs where "errs = (if signed \<and> py_get a ''manifest_sha256'' \<noteq> JStr (env_sha256 env ?b) then [''manifest-digest-mismatch''] else [])"
  from Inr obtain trust sv tr errs' where t: "trust_profile env (trust_profile_name vp a) (vp \<noteq> None) = Inr trust"
    and c: "(if signed \<and> errs = [] then check_signature env cr ?b a trust errs
             else Inr (False, False, errs @ (if required then [''signature-required''] else []))) = Inr (sv, tr, errs')"
    and v: "vf_valid v = (errs' = [])" "vf_signed v = signed" "vf_signature_valid v = sv" "vf_trusted v = tr" "vf_errors v = errs'"
    unfolding verify_manifest_signature_def Let_def signed_def[symmetric] errs_def[symmetric]
    by (elim rbindE) (auto split: prod.splits)
  show ?thesis
  proof (cases "signed \<and> errs = []")
    case True
    with c have "check_signature env cr ?b a trust errs = Inr (sv, tr, errs')" by simp
    note k = check_signature_Inr[OF this]
    have "py_get a ''manifest_sha256'' = JStr (env_sha256 env ?b)"
      using True by (auto simp: errs_def split: if_splits)
    with True k t show ?thesis
      unfolding Inr sum.case v by (auto dest: verify_signature_True trusted_profile)
  next
    case False
    with c have "sv = False" "tr = False" "errs' = errs @ (if required then [''signature-required''] else [])" by auto
    then show ?thesis unfolding Inr sum.case v by auto
  qed
qed

lemma rejected_raises:
  "rejected_by_key env cr b a e \<Longrightarrow> verify_public_key_signature env cr b a = Inl e"
  unfolding rejected_by_key_def verify_public_key_signature_def by auto

text \<open>
  \<open>cryptography\<close> reports a bad signature with \<open>InvalidSignature\<close>, which is none of the exceptions
  \<open>_verify_signature\<close> catches: the verification of a forged assurance ends in an error.
\<close>

lemma forged_signature_raises:
  assumes "rejected_by_key env cr (canonical_json (env_frepr env) m) a (OtherError x)"
    and "py_get a ''status'' = JStr ''signed''" and "py_get a ''type'' \<in> {JStr ''ed25519'', JStr ''aws-kms''}"
    and "py_get a ''manifest_sha256'' = JStr (env_sha256 env (canonical_json (env_frepr env) m))"
    and "trust_profile env (trust_profile_name vp a) (vp \<noteq> None) = Inr trust"
  shows "verify_manifest_signature env cr m a vp required = Inl (OtherError x)"
  using assms(2-5) rejected_raises[OF assms(1)]
  by (auto simp: verify_manifest_signature_def check_signature_def verify_signature_def in_texts_def catch_invalid_def caught_def)

text \<open>
  C21: a verification that reports a valid signature does so because the library accepted it over exactly
  the canonical text of the manifest, with a key whose fingerprint and kind the assurance names, or cosign
  with the recorded identity; it reports trust only under a profile of the same type that names the key,
  the fingerprint or the identity, and validity only if no error was found. A signature the library rejects
  by raising an exception of its own, under a profile that can be resolved and over a manifest of the recorded digest, is not
  reported as invalid: that exception leaves the verification.
\<close>

theorem signature_sound:
  "(case verify_manifest_signature env cr m a vp required of
       Inr v \<Rightarrow>
         (vf_signature_valid v \<longrightarrow> vf_signed v \<and>
            py_get a ''manifest_sha256'' = JStr (env_sha256 env (canonical_json (env_frepr env) m)) \<and>
            (py_get a ''type'' \<in> {JStr ''ed25519'', JStr ''aws-kms''} \<and>
               accepted_by_key env cr (canonical_json (env_frepr env) m) a \<or>
             py_get a ''type'' = JStr ''sigstore'' \<and> accepted_by_cosign env cr (canonical_json (env_frepr env) m) a)) \<and>
         (vf_trusted v \<longrightarrow> vf_signature_valid v \<and>
            (\<exists>profile. trust_profile env (trust_profile_name vp a) (vp \<noteq> None) = Inr (Some profile) \<and>
               profile_trusts_assurance env cr (Some profile) a = Inr True)) \<and>
         (vf_valid v = (vf_errors v = [])) \<and> (required \<and> vf_valid v \<longrightarrow> vf_signature_valid v)
     | Inl e \<Rightarrow>
         (\<exists>trust. trust_profile env (trust_profile_name vp a) (vp \<noteq> None) = Inl e \<or>
            verify_signature env cr (canonical_json (env_frepr env) m) a = Inl e \<and> \<not> caught e \<or>
            profile_trusts_assurance env cr trust a = Inl e)) \<and>
   (\<forall>x trust. py_get a ''status'' = JStr ''signed'' \<and> py_get a ''type'' \<in> {JStr ''ed25519'', JStr ''aws-kms''} \<and>
      py_get a ''manifest_sha256'' = JStr (env_sha256 env (canonical_json (env_frepr env) m)) \<and>
      trust_profile env (trust_profile_name vp a) (vp \<noteq> None) = Inr trust \<and>
      rejected_by_key env cr (canonical_json (env_frepr env) m) a (OtherError x) \<longrightarrow>
      verify_manifest_signature env cr m a vp required = Inl (OtherError x))"
  by (rule conjI[OF signature_reported]) (use forged_signature_raises in blast)

text \<open>An instance: an Ed25519 profile, its key in the environment, and a library that accepts its own signatures.\<close>

definition sample_crypto :: crypto where
  "sample_crypto =
     \<lparr>cr_getenv = (\<lambda>n. Some ''pem''), cr_resolve_path = (\<lambda>p. []), cr_file_size = (\<lambda>p. Inr 0), cr_read_text = (\<lambda>p. Inr []),
      cr_load_private = (\<lambda>pem. Inr \<lparr>pk_kind = Ed25519Key, pk_public_der = ''der'', pk_sign = (\<lambda>m. ''sig'')\<rparr>),
      cr_load_der = (\<lambda>d. Inr \<lparr>pub_kind = Ed25519Key, pub_der = d, pub_verify = (\<lambda>scheme sg m.
         if sg = ''sig'' then Inr () else Inl (OtherError ''InvalidSignature''))\<rparr>),
      cr_load_pem = (\<lambda>d. Inl (ValueError [])), cr_boto_credentials = (\<lambda>p. Inr []),
      cr_kms_client = (\<lambda>kw. \<lparr>kms_public_key = (\<lambda>k. Inl (OtherError ''offline'')), kms_sign = (\<lambda>k d a. Inl (OtherError ''offline''))\<rparr>),
      cr_cosign_sign = (\<lambda>exe token m. Inl (OSError ''offline'')), cr_cosign_verify = (\<lambda>exe i o' b m. Inl (OSError ''offline''))\<rparr>"

definition signing_env :: env where
  "signing_env = base_env\<lparr>env_settings := default_settings
     \<lparr>cfg_governance_package_signing_profiles_json :=
        Some (JObj [(''p'', JObj [(''type'', JStr ''ed25519''), (''key_id'', JStr ''k''), (''private_key_ref'', JStr ''env:KEY'')])]),
      cfg_governance_package_verification_profiles_json :=
        Some (JObj [(''p'', JObj [(''type'', JStr ''ed25519''), (''public_key_sha256'', JStr ''ab'')])])\<rparr>\<rparr>"

definition sample_assurance :: dict where
  "sample_assurance = [(''status'', JStr ''signed''), (''profile'', JStr ''p''), (''signed_at'', JStr ''1970-01-01 00:00:00+00:00''),
     (''manifest_sha256'', JStr ''ab'')] @ key_assurance signing_env ''ed25519'' ''Ed25519'' (JStr ''k'') ''sig'' ''der''"

lemma sample_signed: "sign_manifest signing_env sample_crypto JNull (Some ''p'') = Inr sample_assurance"
  by (simp add: sign_manifest_def validate_signing_profile_def selected_profile_def signing_profiles_def profile_configuration_def
      in_texts_def SIGNATURE_TYPES_def truthy_opt_def sign_ed25519_def resolve_secret_def env_name_ok_def is_ascii_digit_def
      sample_crypto_def signing_env_def sample_assurance_def base_env_def default_settings_def py_get_def dict_get_def Let_def
      py_strip_def py_space_def key_assurance_def)

lemma sample_verifies_own: "verifies_own env sample_crypto"
  by (simp add: verifies_own_def sample_crypto_def)

lemma sample_assurance_fields:
  "py_get sample_assurance ''status'' = JStr ''signed''" "py_get sample_assurance ''type'' = JStr ''ed25519''"
  "py_get sample_assurance ''profile'' = JStr ''p''" "py_get sample_assurance ''key_id'' = JStr ''k''"
  "py_get sample_assurance ''public_key_sha256'' = JStr ''ab''"
  by (simp_all add: sample_assurance_def key_assurance_def py_get_def dict_get_def signing_env_def base_env_def)

theorem signed_manifest_verifies_witness:
  "\<exists>v. verify_manifest_signature signing_env sample_crypto JNull sample_assurance None True = Inr v \<and> vf_valid v \<and> vf_trusted v"
proof -
  let ?profile = "[(''type'', JStr ''ed25519''), (''public_key_sha256'', JStr ''ab'')]"
  have "verification_profiles signing_env = Inr [(''p'', JObj ?profile)]"
    by (simp add: verification_profiles_def profile_configuration_def signing_env_def base_env_def default_settings_def)
  moreover have "trust_profile_name None sample_assurance = JStr ''p''"
    by (simp add: trust_profile_name_def truthy_opt_def sample_assurance_fields)
  moreover have "dict_get [(''p'', JObj ?profile)] ''p'' = Some (JObj ?profile)"
    by (simp add: dict_get_def)
  moreover have "pins_key ?profile sample_assurance"
    by (simp add: pins_key_def nonempty_text_def sample_assurance_fields) (simp add: py_get_def dict_get_def)
  ultimately show ?thesis
    using signed_manifest_verifies[OF sample_verifies_own sample_signed, of "[(''p'', JObj ?profile)]" None "''p''" ?profile True]
    by (auto simp: sample_assurance_fields)
qed

text \<open>The instance's assurance, and the same with another signature.\<close>

definition forged_assurance :: dict where
  "forged_assurance = [(''status'', JStr ''signed''), (''profile'', JStr ''p''), (''signed_at'', JNull),
     (''manifest_sha256'', JStr ''ab'')] @ key_assurance signing_env ''ed25519'' ''Ed25519'' (JStr ''k'') ''forged'' ''der''"

lemma sample_trust_profile:
  "py_get a ''profile'' = JStr ''p'' \<Longrightarrow> trust_profile signing_env (trust_profile_name None a) (None \<noteq> None) =
     Inr (Some [(''type'', JStr ''ed25519''), (''public_key_sha256'', JStr ''ab'')])"
  by (simp add: trust_profile_def trust_profile_name_def truthy_opt_def verification_profiles_def
      profile_configuration_def signing_env_def base_env_def default_settings_def dict_get_def)

lemma forged_rejected:
  "py_get forged_assurance ''status'' = JStr ''signed''" "py_get forged_assurance ''type'' = JStr ''ed25519''"
  "py_get forged_assurance ''profile'' = JStr ''p''" "py_get forged_assurance ''manifest_sha256'' = JStr (env_sha256 signing_env b)"
  "rejected_by_key signing_env sample_crypto b forged_assurance (OtherError ''InvalidSignature'')"
proof -
  show f: "py_get forged_assurance ''status'' = JStr ''signed''" "py_get forged_assurance ''type'' = JStr ''ed25519''"
    "py_get forged_assurance ''profile'' = JStr ''p''" "py_get forged_assurance ''manifest_sha256'' = JStr (env_sha256 signing_env b)"
    by (simp_all add: forged_assurance_def key_assurance_def py_get_def dict_get_def signing_env_def base_env_def)
  have "decode_field forged_assurance ''public_key'' = Inr ''der''" "decode_field forged_assurance ''signature'' = Inr ''forged''"
    "py_get forged_assurance ''public_key_sha256'' = JStr (env_sha256 signing_env ''der'')"
    "py_get forged_assurance ''algorithm'' = JStr ''Ed25519''"
    unfolding forged_assurance_def decode_key_assurance
    by (simp_all add: key_assurance_def py_get_def dict_get_def signing_env_def base_env_def)
  then show "rejected_by_key signing_env sample_crypto b forged_assurance (OtherError ''InvalidSignature'')"
    by (auto simp: rejected_by_key_def sample_crypto_def kms_scheme_def)
qed

theorem signature_sound_witness:
  "accepted_by_key signing_env sample_crypto (canonical_json (env_frepr signing_env) JNull) sample_assurance \<and>
   verify_manifest_signature signing_env sample_crypto JNull forged_assurance None False = Inl (OtherError ''InvalidSignature'')"
proof -
  have ks: "key_signed signing_env sample_crypto JNull sample_assurance"
    by (rule sign_manifest_key_signed[OF sample_verifies_own sample_signed]) (simp_all add: sample_assurance_fields)
  have "profile_trusts_assurance signing_env sample_crypto
      (Some [(''type'', JStr ''ed25519''), (''public_key_sha256'', JStr ''ab'')]) sample_assurance = Inr True"
    by (rule pinned_trusts) (simp_all add: pins_key_def nonempty_text_def sample_assurance_fields py_get_def dict_get_def,
        simp_all add: sample_assurance_fields[unfolded py_get_def dict_get_def])
  then obtain v where "verify_manifest_signature signing_env sample_crypto JNull sample_assurance None True = Inr v"
    "vf_signature_valid v"
    using key_signed_verifies[OF ks] key_signed_fields[OF ks] sample_trust_profile[OF sample_assurance_fields(3)]
    by (simp add: verify_manifest_signature_def check_signature_def Let_def)
  with signature_sound[where env = signing_env and cr = sample_crypto and m = JNull and a = sample_assurance and vp = None and required = True]
  have "accepted_by_key signing_env sample_crypto (canonical_json (env_frepr signing_env) JNull) sample_assurance"
    by (simp add: sample_assurance_fields)
  moreover have "verify_manifest_signature signing_env sample_crypto JNull forged_assurance None False =
      Inl (OtherError ''InvalidSignature'')"
    using signature_sound[where env = signing_env and cr = sample_crypto and m = JNull and a = forged_assurance and vp = None and required = False] forged_rejected
      sample_trust_profile[OF forged_rejected(3)] by blast
  ultimately show ?thesis by blast
qed

end
