(* ===== verification/RuntimeReceipts.thy ===== *)
theory RuntimeReceipts
  imports EvidenceSigning WorkQueue
begin

text \<open>
  The receipts of \<open>app/services/runtime_authorization.py\<close> with their routes in \<open>app/v18.py\<close>: an
  evaluation of access is decided (with the running rollout), recorded once under its idempotency key as a
  decision receipt with a manifest and an outbox event, and answered; batches stop where their semantic says; the worker
  signs pending receipts by claiming them, and purges expired ones. The table satisfies the contracts of
  \<open>IdempotentStore\<close> and \<open>WorkQueue\<close>. Prometheus counters are left out.
\<close>

section \<open>The decision with the running rollout\<close>

record applied_rollout =
  ar_rollout_id :: string
  ar_stage :: rollout_stage
  ar_traffic_percentage :: int
  ar_bucket :: int
  ar_selected :: bool
  ar_baseline :: decision
  ar_candidate :: decision

type_synonym memo = "lookups option"

text \<open>\<open>_evaluate_policy_with_rollout\<close>.\<close>

definition evaluate_with_rollout ::
  "env \<Rightarrow> string \<Rightarrow> authz_request \<Rightarrow> string \<Rightarrow> rollout_world \<times> memo \<Rightarrow>
     ((evaluation \<times> applied_rollout option) \<times> rollout_world \<times> memo) result" where
  "evaluate_with_rollout env tenant_id r selector = (\<lambda>((db, pc, rc), memo).
     rbind (evaluate_policy_only env db pc memo tenant_id r None None) (\<lambda>(baseline, pc1, memo1).
     rbind (runtime_rollout env db rc tenant_id selector) (\<lambda>(running, rc1).
     case running of
       None \<Rightarrow> Inr ((baseline, None), (db, pc1, rc1), memo1)
     | Some (config, bucket, selected) \<Rightarrow>
         rbind (evaluate_policy_only env db pc1 memo1 tenant_id r (Some (rc_definitions config)) (Some (rc_policy_version config)))
           (\<lambda>(candidate, pc2, memo2).
         Inr ((if selected then candidate else baseline,
               Some \<lparr>ar_rollout_id = rc_rollout_id config, ar_stage = rc_stage config,
                 ar_traffic_percentage = rc_traffic_percentage config, ar_bucket = bucket, ar_selected = selected,
                 ar_baseline = ev_decision baseline, ar_candidate = ev_decision candidate\<rparr>),
              (db, pc2, rc1), memo2)))))"

section \<open>The receipt\<close>

definition sha256_json :: "env \<Rightarrow> json \<Rightarrow> string" where
  "sha256_json env v = env_sha256 env (canonical_json (env_frepr env) v)"

definition request_digest :: "env \<Rightarrow> authz_request \<Rightarrow> string" where
  "request_digest env r = sha256_json env (request_payload r)"

text \<open>\<open>_entity_claim\<close>.\<close>

definition entity_claim :: "env \<Rightarrow> dict \<Rightarrow> json" where
  "entity_claim env entity =
     JObj (concat (map (\<lambda>k. case dict_get entity k of None \<Rightarrow> [] | Some v \<Rightarrow> [(k, v)]) [''type'', ''id'', ''name'']) @
           [(''properties_sha256'', JStr (sha256_json env (py_get_default entity ''properties'' (JObj []))))])"

text \<open>\<open>_replay_context\<close>: the sorted allowed fields, and whether the request can be replayed.\<close>

definition REPLAY_FIELDS :: "string list" where
  "REPLAY_FIELDS = [''destination'', ''destination_type'', ''environment'', ''model'', ''purpose'', ''region'', ''tool'']"

definition replay_value :: "env \<Rightarrow> json \<Rightarrow> bool" where
  "replay_value env v =
     ((case v of JStr _ \<Rightarrow> True | JInt _ \<Rightarrow> True | JFloat _ \<Rightarrow> True | JBool _ \<Rightarrow> True | _ \<Rightarrow> False) \<and>
      length (py_str (env_frepr env) v) \<le> 320)"

definition replay_context :: "env \<Rightarrow> authz_request \<Rightarrow> dict" where
  "replay_context env r =
     concat (map (\<lambda>k. let v = py_get (rq_context r) k in if replay_value env v then [(k, v)] else []) REPLAY_FIELDS)"

definition replayable_request :: "authz_request \<Rightarrow> bool" where
  "replayable_request r =
     (is_agent_type (rq_subject_type r) \<and>
      (is_asset_type (rq_resource_type r) \<or> rq_resource_type r \<in> set AI_RESOURCE_TYPES))"

definition ENFORCEMENT_MODES :: "string list" where
  "ENFORCEMENT_MODES = [''observe'', ''warn'', ''enforce'']"

definition permitted_by :: "string \<Rightarrow> decision \<Rightarrow> bool" where
  "permitted_by mode d = (if mode = ''enforce'' then d \<noteq> Deny else True)"

definition obligations_json :: "evaluation \<Rightarrow> json" where
  "obligations_json ev = JList (map (\<lambda>control. JObj [(''id'', JStr control), (''required'', JBool True),
     (''enforced_by'', JStr ''policy-enforcement-point'')]) (ev_controls ev))"

definition applied_rollout_json :: "applied_rollout \<Rightarrow> json" where
  "applied_rollout_json a = JObj
     [(''rollout_id'', JStr (ar_rollout_id a)), (''stage'', JStr (stage_str (ar_stage a))),
      (''traffic_percentage'', JInt (ar_traffic_percentage a)), (''bucket'', JInt (ar_bucket a)),
      (''selected'', JBool (ar_selected a)), (''baseline_policy_decision'', JStr (decision_str (ar_baseline a))),
      (''candidate_policy_decision'', JStr (decision_str (ar_candidate a))),
      (''changed'', JBool (ar_baseline a \<noteq> ar_candidate a))]"

definition strings_json :: "string list \<Rightarrow> json" where
  "strings_json ss = JList (map JStr ss)"

definition receipt_manifest ::
  "env \<Rightarrow> string \<Rightarrow> string \<Rightarrow> string option \<Rightarrow> authz_request \<Rightarrow> evaluation \<Rightarrow> applied_rollout option \<Rightarrow> time \<Rightarrow> json" where
  "receipt_manifest env rid tenant_id request_id r ev rollout retention_until = JObj
     [(''format'', JStr ''opendatagraph-runtime-decision-receipt''), (''version'', JInt 2), (''receipt_id'', JStr rid),
      (''request_id'', jopt JStr request_id), (''tenant_id'', JStr tenant_id),
      (''subject'', entity_claim env (subject_payload r)), (''resource'', entity_claim env (resource_payload r)),
      (''action'', entity_claim env (action_payload r)), (''context_sha256'', JStr (sha256_json env (JObj (rq_context r)))),
      (''request_sha256'', JStr (request_digest env r)),
      (''replay_context_sha256'', JStr (sha256_json env (JObj (replay_context env r)))),
      (''authorization'', JObj
        [(''decision'', JBool (permitted_by (cfg_runtime_authorization_mode (env_settings env)) (ev_decision ev))),
         (''policy_decision'', JStr (decision_str (ev_decision ev))),
         (''enforcement_mode'', JStr (cfg_runtime_authorization_mode (env_settings env))),
         (''risk_score'', JInt (ev_risk_score ev)), (''policy_version'', JStr (ev_policy_version ev)),
         (''matched_policies'', strings_json (ev_matched_policies ev)), (''reasons'', JList (ev_reasons ev)),
         (''obligations'', obligations_json ev), (''rollout'', jopt applied_rollout_json rollout)]),
      (''issued_at'', zulu env (env_now env)), (''retention_until'', zulu env retention_until)]"

definition signing_status_str :: "signing_state \<Rightarrow> string" where
  "signing_status_str s = (case s of SigUnsigned \<Rightarrow> ''unsigned'' | SigPending \<Rightarrow> ''pending'' | SigSigning \<Rightarrow> ''signing''
     | SigSigned \<Rightarrow> ''signed'' | SigFailed \<Rightarrow> ''failed'')"

definition new_receipt ::
  "env \<Rightarrow> db \<Rightarrow> string \<Rightarrow> string \<Rightarrow> string option \<Rightarrow> string option \<Rightarrow> authz_request \<Rightarrow> evaluation \<Rightarrow>
     applied_rollout option \<Rightarrow> runtime_decision_receipt" where
  "new_receipt env db rid tenant_id request_id key r ev rollout =
     (let retention_until = env_now env + td_days (max 1 (cfg_runtime_receipt_retention_days (env_settings env)));
          profile = or_none (cfg_runtime_receipt_signing_profile (env_settings env));
          status = (if profile = None then SigUnsigned else SigPending);
          manifest = receipt_manifest env rid tenant_id request_id r ev rollout retention_until
      in \<lparr>rcpt_id = next_id rcpt_id (db_receipts db), rcpt_tenant_id = tenant_id, rcpt_receipt_id = rid,
          rcpt_request_id = request_id, rcpt_idempotency_key = key, rcpt_subject_type = rq_subject_type r,
          rcpt_subject_id = rq_subject_id r, rcpt_action_name = rq_action_name r, rcpt_resource_type = rq_resource_type r,
          rcpt_resource_id = rq_resource_id r, rcpt_request_sha256 = request_digest env r,
          rcpt_decision = permitted_by (cfg_runtime_authorization_mode (env_settings env)) (ev_decision ev),
          rcpt_policy_decision = ev_decision ev,
          rcpt_enforcement_mode = cfg_runtime_authorization_mode (env_settings env),
          rcpt_risk_score = ev_risk_score ev, rcpt_policy_version = ev_policy_version ev,
          rcpt_matched_policies_json = strings_json (ev_matched_policies ev), rcpt_reasons_json = JList (ev_reasons ev),
          rcpt_obligations_json = obligations_json ev, rcpt_replay_context_json = JObj (replay_context env r),
          rcpt_replayable = replayable_request r, rcpt_rollout_id = map_option ar_rollout_id rollout,
          rcpt_rollout_stage = map_option ar_stage rollout,
          rcpt_baseline_policy_decision = map_option ar_baseline rollout,
          rcpt_candidate_policy_decision = map_option ar_candidate rollout,
          rcpt_manifest_json = sort_keys manifest, rcpt_manifest_sha256 = sha256_json env manifest,
          rcpt_signing_status = status, rcpt_signing_profile = profile,
          rcpt_assurance_json = JObj [(''status'', JStr (signing_status_str status)), (''profile'', jopt JStr profile),
            (''type'', JStr ''none''), (''key_id'', JNull), (''signed_at'', JNull)],
          rcpt_signing_attempts = 0, rcpt_signing_available_at = env_now env, rcpt_signing_claimed_at = None,
          rcpt_signing_error = None, rcpt_retention_until = retention_until, rcpt_created_at = env_now env\<rparr>)"

definition receipt_event_payload :: "env \<Rightarrow> runtime_decision_receipt \<Rightarrow> json" where
  "receipt_event_payload env p = JObj
     [(''receipt_id'', JStr (rcpt_receipt_id p)), (''request_id'', jopt JStr (rcpt_request_id p)),
      (''subject_type'', JStr (rcpt_subject_type p)), (''subject_id'', JStr (rcpt_subject_id p)),
      (''resource_type'', JStr (rcpt_resource_type p)), (''resource_id'', JStr (rcpt_resource_id p)),
      (''action'', JStr (rcpt_action_name p)), (''decision'', JBool (rcpt_decision p)),
      (''policy_decision'', JStr (decision_str (rcpt_policy_decision p))),
      (''policy_version'', JStr (rcpt_policy_version p)), (''risk_score'', JInt (rcpt_risk_score p)),
      (''rollout_id'', jopt JStr (rcpt_rollout_id p)), (''rollout_stage'', jopt (JStr \<circ> stage_str) (rcpt_rollout_stage p)),
      (''created_at'', jtime env (rcpt_created_at p))]"

section \<open>Responses\<close>

text \<open>\<open>_receipt_rollout\<close>, \<open>decision_response\<close> and \<open>receipt_response\<close>.\<close>

definition receipt_rollout :: "runtime_decision_receipt \<Rightarrow> json" where
  "receipt_rollout p =
     (if \<not> truthy_opt (rcpt_rollout_id p) then JNull
      else JObj [(''rollout_id'', jopt JStr (rcpt_rollout_id p)), (''stage'', jopt (JStr \<circ> stage_str) (rcpt_rollout_stage p)),
        (''baseline_policy_decision'', jopt (JStr \<circ> decision_str) (rcpt_baseline_policy_decision p)),
        (''candidate_policy_decision'', jopt (JStr \<circ> decision_str) (rcpt_candidate_policy_decision p)),
        (''changed'', JBool (rcpt_baseline_policy_decision p \<noteq> rcpt_candidate_policy_decision p))])"

definition decision_response :: "env \<Rightarrow> runtime_decision_receipt \<Rightarrow> dict" where
  "decision_response env p =
     [(''decision'', JBool (rcpt_decision p)),
      (''context'', JObj
        [(''reason'', (case jlist (rcpt_reasons_json p) of [] \<Rightarrow> JStr ''No policy reason was recorded'' | r # _ \<Rightarrow> r)),
         (''policy_decision'', JStr (decision_str (rcpt_policy_decision p))),
         (''enforcement_mode'', JStr (rcpt_enforcement_mode p)), (''risk_score'', JInt (rcpt_risk_score p)),
         (''policy_version'', JStr (rcpt_policy_version p)), (''matched_policies'', rcpt_matched_policies_json p),
         (''reasons'', rcpt_reasons_json p), (''obligations'', rcpt_obligations_json p),
         (''rollout'', receipt_rollout p),
         (''receipt'', JObj
           [(''id'', JStr (rcpt_receipt_id p)), (''sha256'', JStr (rcpt_manifest_sha256 p)),
            (''signing_status'', JStr (signing_status_str (rcpt_signing_status p))),
            (''signing_profile'', jopt JStr (rcpt_signing_profile p)),
            (''retention_until'', jtime env (rcpt_retention_until p))])])]"

definition receipt_response :: "env \<Rightarrow> runtime_decision_receipt \<Rightarrow> bool \<Rightarrow> dict" where
  "receipt_response env p include_manifest =
     [(''receipt_id'', JStr (rcpt_receipt_id p)), (''request_id'', jopt JStr (rcpt_request_id p)),
      (''subject'', JObj [(''type'', JStr (rcpt_subject_type p)), (''id'', JStr (rcpt_subject_id p))]),
      (''action'', JObj [(''name'', JStr (rcpt_action_name p))]),
      (''resource'', JObj [(''type'', JStr (rcpt_resource_type p)), (''id'', JStr (rcpt_resource_id p))]),
      (''request_sha256'', JStr (rcpt_request_sha256 p)), (''decision'', JBool (rcpt_decision p)),
      (''policy_decision'', JStr (decision_str (rcpt_policy_decision p))),
      (''enforcement_mode'', JStr (rcpt_enforcement_mode p)), (''risk_score'', JInt (rcpt_risk_score p)),
      (''policy_version'', JStr (rcpt_policy_version p)), (''matched_policies'', rcpt_matched_policies_json p),
      (''reasons'', rcpt_reasons_json p), (''obligations'', rcpt_obligations_json p),
      (''replayable'', JBool (rcpt_replayable p)), (''rollout'', receipt_rollout p),
      (''manifest_sha256'', JStr (rcpt_manifest_sha256 p)),
      (''signing_status'', JStr (signing_status_str (rcpt_signing_status p))),
      (''signing_profile'', jopt JStr (rcpt_signing_profile p)), (''assurance'', rcpt_assurance_json p),
      (''signing_attempts'', JInt (int (rcpt_signing_attempts p))), (''signing_error'', jopt JStr (rcpt_signing_error p)),
      (''retention_until'', jtime env (rcpt_retention_until p)), (''created_at'', jtime env (rcpt_created_at p))] @
     (if include_manifest then [(''manifest'', rcpt_manifest_json p)] else [])"

section \<open>Evaluating access\<close>

definition find_receipt_key :: "db \<Rightarrow> string \<Rightarrow> string option \<Rightarrow> runtime_decision_receipt option" where
  "find_receipt_key db tenant_id key =
     (if truthy_opt key
      then scalar (\<lambda>p. rcpt_tenant_id p = tenant_id \<and> rcpt_idempotency_key p = key) (db_receipts db) else None)"

text \<open>The unique constraints of the table, met when the session flushes.\<close>

definition receipt_conflict :: "db \<Rightarrow> runtime_decision_receipt \<Rightarrow> bool" where
  "receipt_conflict db p =
     list_ex (\<lambda>q. rcpt_tenant_id q = rcpt_tenant_id p \<and>
        (rcpt_receipt_id q = rcpt_receipt_id p \<or>
         rcpt_idempotency_key p \<noteq> None \<and> rcpt_idempotency_key q = rcpt_idempotency_key p)) (db_receipts db)"

text \<open>The new identifiers are the receipt's and the event's. The result: the receipt, and whether it was there before.\<close>

definition evaluate_access ::
  "env \<Rightarrow> string \<times> string \<Rightarrow> string \<Rightarrow> authz_request \<Rightarrow> string option \<Rightarrow> string option \<Rightarrow> rollout_world \<times> memo \<Rightarrow>
     ((rollout_world \<times> memo) \<times> runtime_decision_receipt \<times> bool) result" where
  "evaluate_access env uuid tenant_id r request_id key s =
     (case find_receipt_key (fst (fst s)) tenant_id key of
        Some existing \<Rightarrow>
          if rcpt_request_sha256 existing \<noteq> request_digest env r
          then Inl (IdempotencyConflict ''Idempotency key was already used for a different evaluation'')
          else Inr (s, existing, True)
      | None \<Rightarrow>
          rbind (raise_if (cfg_runtime_authorization_mode (env_settings env) \<notin> set ENFORCEMENT_MODES)
                   (ValueError ''ODG_RUNTIME_AUTHORIZATION_MODE must be observe, warn, or enforce'')) (\<lambda>_.
          rbind (evaluate_with_rollout env tenant_id r (request_digest env r) s) (\<lambda>((ev, rollout), (db, pc, rc), memo).
          let profile = or_none (cfg_runtime_receipt_signing_profile (env_settings env)) in
          rbind (if profile = None then Inr None else validate_signing_profile env profile) (\<lambda>_.
          let p = new_receipt env db (fst uuid) tenant_id request_id key r ev rollout in
          rbind (raise_if (receipt_conflict db p) (OtherError ''IntegrityError'')) (\<lambda>_.
          rbind (queue_outbox_event env (snd uuid) (db\<lparr>db_receipts := db_receipts db @ [p]\<rparr>) tenant_id ''runtime-receipt''
                   (rcpt_receipt_id p) ''runtime.authorization'' (receipt_event_payload env p)
                   (Some (''runtime-authorization:'' @ rcpt_receipt_id p))) (\<lambda>(db', e).
          Inr (((db', pc, rc), memo), p, False)))))))"

text \<open>The answer to a verification with the receipt's own digest checked as well.\<close>

record receipt_verification =
  rv_verification :: verification
  rv_stored_digest_valid :: bool
  rv_receipt_id :: string
  rv_signing_status :: signing_state

definition verify_receipt ::
  "env \<Rightarrow> crypto \<Rightarrow> runtime_decision_receipt \<Rightarrow> string option \<Rightarrow> receipt_verification result" where
  "verify_receipt env cr p verification_profile =
     rbind (verify_manifest_signature env cr (rcpt_manifest_json p) (jobj (rcpt_assurance_json p)) verification_profile False)
       (\<lambda>v.
     let stored = (sha256_json env (rcpt_manifest_json p) = rcpt_manifest_sha256 p) in
     Inr \<lparr>rv_verification = v\<lparr>vf_valid := vf_valid v \<and> stored,
              vf_errors := vf_errors v @ (if stored then [] else [''stored-manifest-digest-mismatch''])\<rparr>,
          rv_stored_digest_valid = stored, rv_receipt_id = rcpt_receipt_id p, rv_signing_status = rcpt_signing_status p\<rparr>)"

section \<open>The signing queue\<close>

definition stale_receipt :: "env \<Rightarrow> runtime_decision_receipt \<Rightarrow> bool" where
  "stale_receipt env p =
     (rcpt_signing_status p = SigSigning \<and>
      (case rcpt_signing_claimed_at p of None \<Rightarrow> False
       | Some c \<Rightarrow> c < env_now env - td_seconds (cfg_worker_claim_timeout_seconds (env_settings env))) \<and>
      int (rcpt_signing_attempts p) < cfg_runtime_receipt_signing_max_attempts (env_settings env))"

definition recover_receipt_row :: "time \<Rightarrow> runtime_decision_receipt \<Rightarrow> runtime_decision_receipt" where
  "recover_receipt_row now p =
     p\<lparr>rcpt_signing_status := SigPending, rcpt_signing_claimed_at := None, rcpt_signing_available_at := now,
       rcpt_signing_error := Some ''Recovered after signing claim timeout''\<rparr>"

definition due_receipt :: "env \<Rightarrow> runtime_decision_receipt \<Rightarrow> bool" where
  "due_receipt env p = (rcpt_signing_status p = SigPending \<and> rcpt_signing_available_at p \<le> env_now env)"

definition claimable_receipt :: "nat \<Rightarrow> runtime_decision_receipt \<Rightarrow> bool" where
  "claimable_receipt i p = (rcpt_id p = i \<and> rcpt_signing_status p = SigPending)"

definition claim_receipt_row :: "time \<Rightarrow> runtime_decision_receipt \<Rightarrow> runtime_decision_receipt" where
  "claim_receipt_row now p =
     p\<lparr>rcpt_signing_status := SigSigning, rcpt_signing_claimed_at := Some now,
       rcpt_signing_attempts := Suc (rcpt_signing_attempts p)\<rparr>"

text \<open>What signing gave, the clock after it, the attempts allowed, and \<open>str(exc)\<close>.\<close>

type_synonym signing_outcome = "time \<times> int \<times> (py_error \<Rightarrow> string) \<times> dict result"

definition settle_receipt_row :: "signing_outcome \<Rightarrow> runtime_decision_receipt \<Rightarrow> runtime_decision_receipt" where
  "settle_receipt_row out p =
     (case out of (now, max_attempts, str_exc, r) \<Rightarrow>
        (case r of
           Inr assurance \<Rightarrow>
             p\<lparr>rcpt_assurance_json := JObj assurance,
               rcpt_signing_status := (if py_get assurance ''status'' = JStr ''signed'' then SigSigned else SigUnsigned),
               rcpt_signing_error := None, rcpt_signing_claimed_at := None\<rparr>
         | Inl x \<Rightarrow>
             let p' = p\<lparr>rcpt_signing_error := Some (take 2000 (str_exc x)), rcpt_signing_claimed_at := None\<rparr> in
             if int (rcpt_signing_attempts p) \<ge> max_attempts then p'\<lparr>rcpt_signing_status := SigFailed\<rparr>
             else p'\<lparr>rcpt_signing_status := SigPending,
                     rcpt_signing_available_at := now + td_seconds (backoff (rcpt_signing_attempts p))\<rparr>))"

definition update_receipts ::
  "(runtime_decision_receipt \<Rightarrow> bool) \<Rightarrow> (runtime_decision_receipt \<Rightarrow> runtime_decision_receipt) \<Rightarrow> db \<Rightarrow> db" where
  "update_receipts P f db = db\<lparr>db_receipts := update_rows P f (db_receipts db)\<rparr>"

datatype signing_result = NotTaken | SignedNow | SignRetried | SignFailed

text \<open>One turn of the loop, at its own time.\<close>

definition sign_one ::
  "env \<Rightarrow> crypto \<Rightarrow> (py_error \<Rightarrow> string) \<Rightarrow> time \<Rightarrow> nat \<Rightarrow> db \<Rightarrow> db \<times> signing_result" where
  "sign_one env cr str_exc now i db =
     (let db1 = update_receipts (claimable_receipt i) (claim_receipt_row now) db in
      if row_count (claimable_receipt i) (db_receipts db) \<noteq> 1 then (db1, NotTaken)
      else case scalar (\<lambda>p. rcpt_id p = i) (db_receipts db1) of
        None \<Rightarrow> (db1, NotTaken)
      | Some p \<Rightarrow>
          let max_attempts = cfg_runtime_receipt_signing_max_attempts (env_settings env);
              r = sign_manifest (env\<lparr>env_now := now\<rparr>) cr (rcpt_manifest_json p) (rcpt_signing_profile p)
          in (update_receipts (\<lambda>q. rcpt_id q = i) (settle_receipt_row (now, max_attempts, str_exc, r)) db1,
              case r of Inr _ \<Rightarrow> SignedNow
              | Inl _ \<Rightarrow> if int (rcpt_signing_attempts p) \<ge> max_attempts then SignFailed else SignRetried))"

fun sign_loop ::
  "env \<Rightarrow> crypto \<Rightarrow> (py_error \<Rightarrow> string) \<Rightarrow> (nat \<Rightarrow> time) \<Rightarrow> nat \<Rightarrow> nat list \<Rightarrow> db \<Rightarrow> db \<times> signing_result list" where
  "sign_loop env cr str_exc clock n [] db = (db, [])"
| "sign_loop env cr str_exc clock n (i # ids) db =
     (case sign_one env cr str_exc (clock n) i db of
        (db1, r) \<Rightarrow> (case sign_loop env cr str_exc clock (Suc n) ids db1 of (db2, rs) \<Rightarrow> (db2, r # rs)))"

record signing_report =
  sr_claimed :: nat
  sr_signed :: nat
  sr_retried :: nat
  sr_failed :: nat

definition signing_candidates :: "env \<Rightarrow> int option \<Rightarrow> db \<Rightarrow> nat list" where
  "signing_candidates env requested db =
     map rcpt_id (take (bounded_limit requested (cfg_runtime_receipt_signing_batch_size (env_settings env)) 1000)
       (order_by rcpt_created_at (where_rows (due_receipt env) (db_receipts db))))"

definition process_pending_receipts ::
  "env \<Rightarrow> crypto \<Rightarrow> (py_error \<Rightarrow> string) \<Rightarrow> (nat \<Rightarrow> time) \<Rightarrow> int option \<Rightarrow> db \<Rightarrow> db \<times> signing_report" where
  "process_pending_receipts env cr str_exc clock requested db =
     (let db1 = update_receipts (stale_receipt env) (recover_receipt_row (env_now env)) db in
      case sign_loop env cr str_exc clock 0 (signing_candidates env requested db1) db1 of
        (db2, rs) \<Rightarrow>
          let signed = length (filter (\<lambda>r. r = SignedNow) rs);
              retried = length (filter (\<lambda>r. r = SignRetried) rs);
              failed = length (filter (\<lambda>r. r = SignFailed) rs)
          in (db2, \<lparr>sr_claimed = signed + retried + failed, sr_signed = signed, sr_retried = retried, sr_failed = failed\<rparr>))"

section \<open>Purging\<close>

definition purgeable :: "env \<Rightarrow> runtime_decision_receipt \<Rightarrow> bool" where
  "purgeable env p = (rcpt_retention_until p < env_now env \<and> rcpt_signing_status p \<notin> {SigPending, SigSigning})"

definition purge_ids :: "env \<Rightarrow> int \<Rightarrow> db \<Rightarrow> nat list" where
  "purge_ids env requested db =
     map rcpt_id (take (nat (min (max 1 requested) 100000))
       (order_by rcpt_retention_until (where_rows (purgeable env) (db_receipts db))))"

definition purge_expired_receipts :: "env \<Rightarrow> int \<Rightarrow> db \<Rightarrow> db \<times> nat" where
  "purge_expired_receipts env requested db =
     (let ids = purge_ids env requested db in
      if ids = [] then (db, 0)
      else (db\<lparr>db_receipts := filter (\<lambda>p. rcpt_id p \<notin> set ids) (db_receipts db)\<rparr>,
            row_count (\<lambda>p. rcpt_id p \<in> set ids) (db_receipts db)))"

section \<open>Routes\<close>

text \<open>The route rolls back and answers; every other exception is a server error.\<close>

definition access_errors :: "'a result \<Rightarrow> 'a result" where
  "access_errors r = (case r of
       Inl (IdempotencyConflict m) \<Rightarrow> Inl (HTTPException 409 m)
     | Inl (OtherError m) \<Rightarrow>
         if m = ''IntegrityError'' then Inl (HTTPException 409 ''Runtime decision receipt already exists'') else r
     | Inl (ValueError m) \<Rightarrow> Inl (HTTPException 503 m)
     | _ \<Rightarrow> r)"

definition bounded_header :: "string option \<Rightarrow> string \<Rightarrow> string option result" where
  "bounded_header value name =
     (case value of
        None \<Rightarrow> Inr None
      | Some v \<Rightarrow>
          rbind (raise_if (v = [] \<or> length v > 160 \<or> list_ex (\<lambda>c. (of_char c :: nat) < 32) v)
                   (HTTPException 400 (name @ '' is invalid''))) (\<lambda>_. Inr value))"

definition indexed_header :: "string option \<Rightarrow> nat \<Rightarrow> string option" where
  "indexed_header value i =
     map_option (\<lambda>v. let suffix = '':'' @ show_nat i in take (160 - length suffix) v @ suffix) value"

text \<open>\<open>AuthZENEvaluationsRequest\<close>: the defaults of the batch and its items, each part optional.\<close>

record partial_evaluation =
  pe_subject :: "(string \<times> string \<times> dict) option"
  pe_resource :: "(string \<times> string \<times> dict) option"
  pe_action :: "(string \<times> dict) option"
  pe_context :: "dict option"

datatype semantic = ExecuteAll | DenyOnFirstDeny | PermitOnFirstPermit

record batch_request =
  bt_defaults :: partial_evaluation
  bt_evaluations :: "partial_evaluation list"
  bt_semantic :: semantic

definition or_else :: "'a option \<Rightarrow> 'a option \<Rightarrow> 'a option" where
  "or_else x y = (case x of None \<Rightarrow> y | Some _ \<Rightarrow> x)"

definition no_parts :: partial_evaluation where
  "no_parts = \<lparr>pe_subject = None, pe_resource = None, pe_action = None, pe_context = None\<rparr>"

text \<open>\<open>_resolved_evaluation\<close>; without an item the parts are those of the batch.\<close>

definition resolved_evaluation :: "env \<Rightarrow> partial_evaluation \<Rightarrow> partial_evaluation \<Rightarrow> authz_request result" where
  "resolved_evaluation env defaults item =
     (case (or_else (pe_subject item) (pe_subject defaults), or_else (pe_resource item) (pe_resource defaults),
            or_else (pe_action item) (pe_action defaults)) of
        (Some (st, si, sp), Some (rt, ri, rp), Some (an, ap)) \<Rightarrow>
          let r = \<lparr>rq_subject_type = st, rq_subject_id = si, rq_subject_properties = sp, rq_resource_type = rt,
                   rq_resource_id = ri, rq_resource_properties = rp, rq_action_name = an, rq_action_properties = ap,
                   rq_context = (case or_else (pe_context item) (pe_context defaults) of None \<Rightarrow> [] | Some c \<Rightarrow> c)\<rparr>
          in rbind (raise_if (\<not> request_ok env r) (HTTPException 400 ''Invalid nested Access Evaluation request'')) (\<lambda>_. Inr r)
      | _ \<Rightarrow> Inl (HTTPException 400 ''Each access evaluation requires subject, resource, and action''))"

definition access_evaluation ::
  "env \<Rightarrow> string \<times> string \<Rightarrow> principal \<Rightarrow> authz_request \<Rightarrow> string option \<Rightarrow> string option \<Rightarrow> rollout_world \<Rightarrow>
     (rollout_world \<times> dict) result" where
  "access_evaluation env uuid who r request_id key w =
     rbind (require_role Analyst who) (\<lambda>_.
     rbind (raise_if (\<not> request_ok env r) (HTTPException 400 ''Invalid Access Evaluation request'')) (\<lambda>_.
     rbind (bounded_header request_id ''X-Request-ID'') (\<lambda>request_id.
     rbind (bounded_header key ''Idempotency-Key'') (\<lambda>key.
     rbind (access_errors (evaluate_access env uuid (p_tenant_id who) r request_id key (w, None))) (\<lambda>((w', memo), p, again).
     Inr (w', decision_response env p))))))"

section \<open>Batches\<close>

definition stops :: "semantic \<Rightarrow> bool \<Rightarrow> bool" where
  "stops semantic permitted = (case semantic of ExecuteAll \<Rightarrow> False | DenyOnFirstDeny \<Rightarrow> \<not> permitted | PermitOnFirstPermit \<Rightarrow> permitted)"

definition item_error :: "py_error \<Rightarrow> dict" where
  "item_error e =
     [(''decision'', JBool False),
      (''context'', JObj [(''error'', JObj [(''status'', JInt 400),
        (''message'', (case e of HTTPException _ m \<Rightarrow> JStr m | _ \<Rightarrow> JStr []))])])]"

text \<open>Item \<open>i\<close> of the batch: a malformed item is an answer, not an error.\<close>

definition answer_item ::
  "env \<Rightarrow> string \<times> string \<Rightarrow> string \<Rightarrow> partial_evaluation \<Rightarrow> partial_evaluation \<Rightarrow> string option \<Rightarrow> string option \<Rightarrow>
     rollout_world \<times> memo \<Rightarrow> ((rollout_world \<times> memo) \<times> dict) result" where
  "answer_item env uuid tenant_id defaults item request_id key s =
     (case resolved_evaluation env defaults item of
        Inl e \<Rightarrow> Inr (s, item_error e)
      | Inr r \<Rightarrow>
          rbind (evaluate_access env uuid tenant_id r request_id key s) (\<lambda>(s', p, again).
          Inr (s', decision_response env p)))"

fun batch_loop ::
  "env \<Rightarrow> (nat \<Rightarrow> string \<times> string) \<Rightarrow> string \<Rightarrow> partial_evaluation \<Rightarrow> semantic \<Rightarrow> string option \<Rightarrow> string option \<Rightarrow> nat \<Rightarrow>
     partial_evaluation list \<Rightarrow> rollout_world \<times> memo \<Rightarrow> ((rollout_world \<times> memo) \<times> dict list) result" where
  "batch_loop env us tenant_id defaults semantic request_id key i [] s = Inr (s, [])"
| "batch_loop env us tenant_id defaults semantic request_id key i (item # items) s =
     rbind (answer_item env (us i) tenant_id defaults item (indexed_header request_id i) (indexed_header key i) s) (\<lambda>(s1, a).
     if stops semantic (py_get a ''decision'' = JBool True) then Inr (s1, [a])
     else rbind (batch_loop env us tenant_id defaults semantic request_id key (Suc i) items s1) (\<lambda>(s2, as).
       Inr (s2, a # as)))"

text \<open>\<open>access_evaluations\<close>; \<open>body\<close> is the length of the request as text. A batch without items is
  one request and has one answer.\<close>

definition access_evaluations ::
  "env \<Rightarrow> (nat \<Rightarrow> string \<times> string) \<Rightarrow> principal \<Rightarrow> int \<Rightarrow> batch_request \<Rightarrow> string option \<Rightarrow> string option \<Rightarrow> rollout_world \<Rightarrow>
     (rollout_world \<times> dict list) result" where
  "access_evaluations env us who body b request_id key w =
     rbind (require_role Analyst who) (\<lambda>_.
     rbind (raise_if (body > 2 * 1024 * 1024) (HTTPException 400 ''Access Evaluations request exceeds 2 MiB'')) (\<lambda>_.
     rbind (bounded_header request_id ''X-Request-ID'') (\<lambda>request_id.
     rbind (bounded_header key ''Idempotency-Key'') (\<lambda>key.
     rbind (raise_if (length (bt_evaluations b) > bounded_limit (Some (cfg_runtime_authorization_batch_max (env_settings env))) 1 1000)
              (HTTPException 400 ''Access Evaluations request exceeds the configured limit'')) (\<lambda>_.
     if bt_evaluations b = []
     then rbind (resolved_evaluation env (bt_defaults b) no_parts) (\<lambda>r.
          rbind (access_errors (evaluate_access env (us 0) (p_tenant_id who) r request_id key (w, None))) (\<lambda>((w', memo), p, again).
          Inr (w', [decision_response env p])))
     else rbind (access_errors (batch_loop env us (p_tenant_id who) (bt_defaults b) (bt_semantic b) request_id key 0
                   (bt_evaluations b) (w, Some no_lookups))) (\<lambda>((w', memo), answers).
          Inr (w', answers)))))))"

text \<open>The receipts of a tenant: one, and its verification.\<close>

definition find_receipt :: "db \<Rightarrow> string \<Rightarrow> string \<Rightarrow> runtime_decision_receipt option" where
  "find_receipt db tenant_id rid = scalar (\<lambda>p. rcpt_tenant_id p = tenant_id \<and> rcpt_receipt_id p = rid) (db_receipts db)"

definition receipt_or_404 :: "db \<Rightarrow> string \<Rightarrow> string \<Rightarrow> runtime_decision_receipt result" where
  "receipt_or_404 db tenant_id rid =
     (case find_receipt db tenant_id rid of None \<Rightarrow> Inl (HTTPException 404 ''Runtime decision receipt not found'')
      | Some p \<Rightarrow> Inr p)"

definition get_runtime_decision_receipt :: "env \<Rightarrow> principal \<Rightarrow> string \<Rightarrow> db \<Rightarrow> dict result" where
  "get_runtime_decision_receipt env who rid db =
     rbind (require_role Auditor who) (\<lambda>_.
     rbind (receipt_or_404 db (p_tenant_id who) rid) (\<lambda>p. Inr (receipt_response env p True)))"

definition verify_runtime_decision_receipt ::
  "env \<Rightarrow> crypto \<Rightarrow> principal \<Rightarrow> string \<Rightarrow> string option \<Rightarrow> db \<Rightarrow> receipt_verification result" where
  "verify_runtime_decision_receipt env cr who rid verification_profile db =
     rbind (require_role Auditor who) (\<lambda>_.
     rbind (receipt_or_404 db (p_tenant_id who) rid) (\<lambda>p.
     bad_request (verify_receipt env cr p verification_profile)))"

record receipt_filter =
  rf_decision :: "bool option"
  rf_subject_type :: "string option"
  rf_subject_id :: "string option"
  rf_resource_type :: "string option"
  rf_resource_id :: "string option"
  rf_signing_status :: "signing_state option"

definition matches_option :: "'a option \<Rightarrow> 'a \<Rightarrow> bool" where
  "matches_option wanted x = (case wanted of None \<Rightarrow> True | Some v \<Rightarrow> x = v)"

definition list_runtime_decision_receipts ::
  "env \<Rightarrow> principal \<Rightarrow> receipt_filter \<Rightarrow> nat \<Rightarrow> db \<Rightarrow> dict list result" where
  "list_runtime_decision_receipts env who f n db =
     rbind (require_role Auditor who) (\<lambda>_.
     rbind (check_body (1 \<le> n \<and> n \<le> 1000)) (\<lambda>_.
     Inr (map (\<lambda>p. receipt_response env p False) (take n (order_by_desc rcpt_created_at (where_rows (\<lambda>p.
       rcpt_tenant_id p = p_tenant_id who \<and> matches_option (rf_decision f) (rcpt_decision p) \<and>
       matches_option (rf_subject_type f) (rcpt_subject_type p) \<and> matches_option (rf_subject_id f) (rcpt_subject_id p) \<and>
       matches_option (rf_resource_type f) (rcpt_resource_type p) \<and> matches_option (rf_resource_id f) (rcpt_resource_id p) \<and>
       matches_option (rf_signing_status f) (rcpt_signing_status p)) (db_receipts db)))))))"


section \<open>One receipt per key\<close>

lemma evaluate_with_rollout_db:
  "evaluate_with_rollout env t r sel ((db, pc, rc), memo) = Inr (x, (db', pc', rc'), memo') \<Longrightarrow> db' = db"
  by (auto simp: evaluate_with_rollout_def elim!: rbindE split: option.splits)

text \<open>An evaluation that returns found the receipt of its key, or appended the one it returns.\<close>

lemma evaluate_access_Inr:
  assumes "evaluate_access env uuid t r rid key ((db, pc, rc), memo) = Inr (((db', pc', rc'), memo'), p, again)"
  obtains (Found) "find_receipt_key db t key = Some p" "rcpt_request_sha256 p = request_digest env r"
      "((db', pc', rc'), memo') = ((db, pc, rc), memo)" "again"
    | (Recorded) ev rollout where "find_receipt_key db t key = None" "p = new_receipt env db (fst uuid) t rid key r ev rollout"
      "\<not> receipt_conflict db p" "db_receipts db' = db_receipts db @ [p]" "\<not> again"
      "cfg_runtime_authorization_mode (env_settings env) \<in> set ENFORCEMENT_MODES"
      "evaluate_with_rollout env t r (request_digest env r) ((db, pc, rc), memo) = Inr ((ev, rollout), (db, pc', rc'), memo')"
proof (cases "find_receipt_key db t key")
  case (Some q)
  with assms show thesis
    by (intro Found) (auto simp: evaluate_access_def split: if_splits)
next
  case None
  with assms obtain ev rollout db1 pc1 rc1 memo1 q db2 e where
      "cfg_runtime_authorization_mode (env_settings env) \<in> set ENFORCEMENT_MODES"
    and ev: "evaluate_with_rollout env t r (request_digest env r) ((db, pc, rc), memo) = Inr ((ev, rollout), (db1, pc1, rc1), memo1)"
    and q: "q = new_receipt env db1 (fst uuid) t rid key r ev rollout" "\<not> receipt_conflict db1 q"
    and e: "queue_outbox_event env (snd uuid) (db1\<lparr>db_receipts := db_receipts db1 @ [q]\<rparr>) t ''runtime-receipt''
        (rcpt_receipt_id q) ''runtime.authorization'' (receipt_event_payload env q)
        (Some (''runtime-authorization:'' @ rcpt_receipt_id q)) = Inr (db2, e)"
    and eq: "db' = db2" "pc' = pc1" "rc' = rc1" "memo' = memo1" "p = q" "\<not> again"
    by (auto simp: evaluate_access_def Let_def elim!: rbindE)
  moreover have "db1 = db" by (rule evaluate_with_rollout_db[OF ev])
  moreover obtain es where "db2 = db1\<lparr>db_receipts := db_receipts db1 @ [q], db_outbox := es\<rparr>"
    using queue_outbox_Inr[OF e] by auto
  ultimately show thesis
    using None by (intro Recorded) simp_all
qed

lemma new_receipt_simps [simp]:
  "rcpt_id (new_receipt env db i t rid key r ev ro) = next_id rcpt_id (db_receipts db)"
  "rcpt_tenant_id (new_receipt env db i t rid key r ev ro) = t"
  "rcpt_receipt_id (new_receipt env db i t rid key r ev ro) = i"
  "rcpt_idempotency_key (new_receipt env db i t rid key r ev ro) = key"
  "rcpt_request_sha256 (new_receipt env db i t rid key r ev ro) = request_digest env r"
  "rcpt_policy_decision (new_receipt env db i t rid key r ev ro) = ev_decision ev"
  "rcpt_decision (new_receipt env db i t rid key r ev ro) =
     permitted_by (cfg_runtime_authorization_mode (env_settings env)) (ev_decision ev)"
  "rcpt_enforcement_mode (new_receipt env db i t rid key r ev ro) = cfg_runtime_authorization_mode (env_settings env)"
  "rcpt_signing_attempts (new_receipt env db i t rid key r ev ro) = 0"
  by (simp_all add: new_receipt_def Let_def)

lemma find_receipt_key_append:
  "key' \<noteq> [] \<Longrightarrow> db_receipts db' = db_receipts db @ [p] \<Longrightarrow>
     find_receipt_key db' t' (Some key') =
       (case find_receipt_key db t' (Some key') of
          Some q \<Rightarrow> Some q
        | None \<Rightarrow> if rcpt_tenant_id p = t' \<and> rcpt_idempotency_key p = Some key' then Some p else None)"
  by (simp add: find_receipt_key_def truthy_opt_def scalar_append scalar_Cons split: option.split)

text \<open>What a caller evaluates under a key: its environment, the identifiers drawn, the request and the request id.\<close>

type_synonym access_call = "env \<times> (string \<times> string) \<times> authz_request \<times> string option"

definition access_put ::
  "rollout_world \<times> memo \<Rightarrow> string \<times> string \<Rightarrow> access_call \<Rightarrow> ((rollout_world \<times> memo) \<times> runtime_decision_receipt) result" where
  "access_put s k d = (case (k, d) of ((t, key), (env, uuid, r, rid)) \<Rightarrow>
     rbind (evaluate_access env uuid t r rid (Some key) s) (\<lambda>(s', p, again). Inr (s', p)))"

interpretation receipt_store: idempotent_store
  "\<lambda>s (t, key). find_receipt_key (fst (fst s)) t (Some key)" "\<lambda>(t, key). key \<noteq> []" access_put
  "\<lambda>p (env, uuid, r, rid). rcpt_request_sha256 p = request_digest env r" "\<lambda>d. True"
proof (unfold_locales, goal_cases)
  case (1 k s p d)
  then show ?case
    by (cases s; cases k; cases d) (auto simp: access_put_def evaluate_access_def)
next
  case (2 k s d s' p)
  obtain t key env uuid r rid db pc rc memo db' pc' rc' memo' where s: "k = (t, key)" "d = (env, uuid, r, rid)"
    "s = ((db, pc, rc), memo)" "s' = ((db', pc', rc'), memo')"
    by (cases s; cases s'; cases k; cases d) auto
  from 2(3) obtain again where "evaluate_access env uuid t r rid (Some key) ((db, pc, rc), memo) = Inr (((db', pc', rc'), memo'), p, again)"
    by (auto simp: s access_put_def elim!: rbindE)
  then show ?case
    using 2(1,2) by (cases rule: evaluate_access_Inr) (auto simp: s find_receipt_key_append split: option.split)
qed simp

section \<open>The contract of the signing queue\<close>

fun signing_phase :: "signing_state \<Rightarrow> phase" where
  "signing_phase SigPending = Waiting"
| "signing_phase SigSigning = Held"
| "signing_phase _ = Closed"

definition recover_if_stale_receipt :: "env \<Rightarrow> time \<Rightarrow> runtime_decision_receipt \<Rightarrow> runtime_decision_receipt" where
  "recover_if_stale_receipt env now p =
     (if stale_receipt (env\<lparr>env_now := now\<rparr>) p then recover_receipt_row now p else p)"

interpretation signing_queue: work_queue "\<lambda>p. signing_phase (rcpt_signing_status p)" rcpt_signing_attempts
  "\<lambda>p. nat (cfg_runtime_receipt_signing_max_attempts (env_settings env))" claim_receipt_row
  "\<lambda>(now, str_exc, r). settle_receipt_row (now, cfg_runtime_receipt_signing_max_attempts (env_settings env), str_exc, r)"
  "recover_if_stale_receipt env"
  for env
  by unfold_locales
     (auto simp: claim_receipt_row_def settle_receipt_row_def recover_if_stale_receipt_def recover_receipt_row_def
        stale_receipt_def Let_def split: sum.splits if_splits)

section \<open>What one turn of the signing loop does\<close>

text \<open>A claimed row as its turn leaves it.\<close>

definition signed_row :: "env \<Rightarrow> crypto \<Rightarrow> (py_error \<Rightarrow> string) \<Rightarrow> time \<Rightarrow> runtime_decision_receipt \<Rightarrow> runtime_decision_receipt" where
  "signed_row env cr str_exc now p =
     settle_receipt_row (now, cfg_runtime_receipt_signing_max_attempts (env_settings env), str_exc,
       sign_manifest (env\<lparr>env_now := now\<rparr>) cr (rcpt_manifest_json p) (rcpt_signing_profile p)) (claim_receipt_row now p)"

lemma claim_receipt_simps [simp]:
  "rcpt_id (claim_receipt_row now p) = rcpt_id p"
  "rcpt_manifest_json (claim_receipt_row now p) = rcpt_manifest_json p"
  "rcpt_signing_profile (claim_receipt_row now p) = rcpt_signing_profile p"
  by (simp_all add: claim_receipt_row_def)

lemma update_receipts_simp [simp]: "db_receipts (update_receipts P f db) = update_rows P f (db_receipts db)"
  by (simp add: update_receipts_def)

lemma sign_one_conv:
  assumes "unique_key rcpt_id (db_receipts db)"
  shows "fst (sign_one env cr str_exc now i db) = update_receipts (claimable_receipt i) (signed_row env cr str_exc now) db"
proof (cases "\<exists>p \<in> set (db_receipts db). claimable_receipt i p")
  case False
  then have "update_rows (claimable_receipt i) f (db_receipts db) = db_receipts db" "row_count (claimable_receipt i) (db_receipts db) = 0" for f
    by (auto simp: store row_count_zero)
  then show ?thesis by (simp add: sign_one_def Let_def update_receipts_def)
next
  case True
  then obtain p where p: "p \<in> set (db_receipts db)" "claimable_receipt i p" by blast
  then have i: "rcpt_id p = i" by (simp add: claimable_receipt_def)
  have only: "claimable_receipt i q \<longleftrightarrow> q = p" "rcpt_id q = i \<longleftrightarrow> q = p" if "q \<in> set (db_receipts db)" for q
    using unique_key_eq[OF assms that p(1)] p i by (auto simp: claimable_receipt_def)
  have one: "row_count (claimable_receipt i) (db_receipts db) = 1"
    by (rule unique_row_count[OF assms, where r = p]) (use p in \<open>auto simp: claimable_receipt_def i\<close>)
  have "scalar (\<lambda>q. rcpt_id q = i) (db_receipts db) = Some p"
    by (rule scalar_unique[OF assms, where r = p]) (use p i in auto)
  then have found: "scalar (\<lambda>q. rcpt_id q = i) (update_rows (claimable_receipt i) (claim_receipt_row now) (db_receipts db)) =
      Some (claim_receipt_row now p)"
    using p(2) by (simp add: scalar_update)
  have "update_rows (\<lambda>q. rcpt_id q = i) g (update_rows (claimable_receipt i) (claim_receipt_row now) (db_receipts db)) =
      update_rows (claimable_receipt i) (g \<circ> claim_receipt_row now) (db_receipts db)" for g
    unfolding update_rows_def by (auto simp: only i)
  then show ?thesis
    unfolding update_receipts_def sign_one_def Let_def using one found only
    by (simp add: update_receipts_def) (rule arg_cong[where f = "\<lambda>x. db\<lparr>db_receipts := x\<rparr>"], auto simp: update_rows_def signed_row_def)
qed

section \<open>The receipts as a state machine\<close>

inductive receipt_step :: "env \<Rightarrow> crypto \<Rightarrow> rollout_world \<Rightarrow> rollout_world \<Rightarrow> bool" for env cr where
  AccessEvaluated: "evaluate_access (env\<lparr>env_now := now\<rparr>) uuid t r rid key (w, memo) = Inr ((w', memo'), p, again) \<Longrightarrow>
    receipt_step env cr w w'"
| ReceiptsSigned: "process_pending_receipts (env\<lparr>env_now := now\<rparr>) cr str_exc clock requested db = (db', report) \<Longrightarrow>
    receipt_step env cr (db, pc, rc) (db', pc, rc)"
| ReceiptsPurged: "purge_expired_receipts (env\<lparr>env_now := now\<rparr>) requested db = (db', n) \<Longrightarrow>
    receipt_step env cr (db, pc, rc) (db', pc, rc)"

definition attempts_allowed :: "env \<Rightarrow> nat" where
  "attempts_allowed env = nat (max 1 (cfg_runtime_receipt_signing_max_attempts (env_settings env)))"

definition signed_by :: "env \<Rightarrow> crypto \<Rightarrow> runtime_decision_receipt \<Rightarrow> bool" where
  "signed_by env cr p \<longleftrightarrow> (\<exists>now a. rcpt_assurance_json p = JObj a \<and> py_get a ''status'' = JStr ''signed'' \<and>
     sign_manifest (env\<lparr>env_now := now\<rparr>) cr (rcpt_manifest_json p) (rcpt_signing_profile p) = Inr a)"

definition receipt_ok :: "env \<Rightarrow> crypto \<Rightarrow> runtime_decision_receipt \<Rightarrow> bool" where
  "receipt_ok env cr p \<longleftrightarrow>
     rcpt_manifest_sha256 p = sha256_json env (rcpt_manifest_json p) \<and>
     rcpt_decision p = permitted_by (rcpt_enforcement_mode p) (rcpt_policy_decision p) \<and>
     rcpt_signing_attempts p \<le> attempts_allowed env \<and>
     (rcpt_signing_status p = SigPending \<longrightarrow> rcpt_signing_attempts p < attempts_allowed env) \<and>
     (rcpt_signing_status p = SigSigned \<longrightarrow> signed_by env cr p)"

definition receipts_ok :: "env \<Rightarrow> crypto \<Rightarrow> db \<Rightarrow> bool" where
  "receipts_ok env cr db \<longleftrightarrow> unique_key rcpt_id (db_receipts db) \<and>
     unique_key (\<lambda>p. (rcpt_tenant_id p, rcpt_receipt_id p)) (db_receipts db) \<and>
     (\<forall>p \<in> set (db_receipts db). receipt_ok env cr p)"

lemma insort_key_map:
  "(\<And>y. k (g y) = k y) \<Longrightarrow> insort_key k (g x) (map g xs) = map g (insort_key k x xs)"
  by (induction xs) simp_all

lemma sort_key_map: "(\<And>y. k (g y) = k y) \<Longrightarrow> sort_key k (map g xs) = map g (sort_key k xs)"
  by (induction xs) (simp_all add: insort_key_map)

lemma sort_keys_idem [simp]: "sort_keys (sort_keys v) = sort_keys v"
proof (induction v rule: sort_keys.induct)
  case (2 d)
  let ?g = "\<lambda>(k, v). (k, sort_keys v)"
  have g: "fst (?g y) = fst y" for y by (simp add: split_beta)
  have "sort_key fst (map ?g (sort_key fst (map ?g d))) = map ?g (map ?g (sort_key fst d))"
    unfolding sort_key_map[of fst ?g, OF g] by (simp add: sort_key_id_if_sorted)
  also have "\<dots> = map ?g (sort_key fst d)"
    using 2 by auto
  also have "\<dots> = sort_key fst (map ?g d)"
    by (rule sort_key_map[of fst ?g, OF g, symmetric])
  finally show ?case by simp
qed simp_all

lemma sha256_json_sort_keys [simp]: "sha256_json env (sort_keys v) = sha256_json env v"
  by (simp add: sha256_json_def canonical_json_def)

lemma new_receipt_ok:
  "receipt_ok env cr (new_receipt (env\<lparr>env_now := now\<rparr>) db i t rid key r ev ro)"
  by (simp add: receipt_ok_def attempts_allowed_def less_max_iff_disj) (simp add: new_receipt_def Let_def sha256_json_def canonical_json_def)

lemma sign_manifest_status:
  assumes "sign_manifest env cr m name = Inr a"
  shows "py_get a ''status'' \<in> {JStr ''signed'', JStr ''unsigned''}"
  using assms by (auto simp: sign_manifest_def Let_def unsigned_status elim!: rbindE split: option.splits)
     (simp_all add: py_get_def dict_get_def)

lemma signed_row_ok:
  assumes "receipt_ok env cr p" and "rcpt_signing_status p = SigPending"
  shows "receipt_ok env cr (signed_row (env\<lparr>env_now := n\<rparr>) cr str_exc now p)"
proof (cases "sign_manifest (env\<lparr>env_now := now\<rparr>) cr (rcpt_manifest_json p) (rcpt_signing_profile p)")
  case (Inl e)
  with assms show ?thesis
    by (auto simp: signed_row_def settle_receipt_row_def claim_receipt_row_def receipt_ok_def attempts_allowed_def Let_def)
next
  case (Inr a)
  with assms show ?thesis
    by (auto simp: signed_row_def settle_receipt_row_def claim_receipt_row_def receipt_ok_def signed_by_def)
qed

lemma recovered_row_ok: "receipt_ok env cr p \<Longrightarrow> stale_receipt (env\<lparr>env_now := n\<rparr>) p \<Longrightarrow> receipt_ok env cr (recover_receipt_row m p)"
  by (auto simp: recover_receipt_row_def receipt_ok_def stale_receipt_def attempts_allowed_def)

lemma settle_receipt_simps [simp]:
  "rcpt_id (settle_receipt_row out p) = rcpt_id p"
  "rcpt_tenant_id (settle_receipt_row out p) = rcpt_tenant_id p"
  "rcpt_receipt_id (settle_receipt_row out p) = rcpt_receipt_id p"
  by (auto simp: settle_receipt_row_def Let_def split: prod.split sum.split)

lemma signed_row_simps [simp]:
  "rcpt_id (signed_row env cr str_exc now p) = rcpt_id p"
  "rcpt_tenant_id (signed_row env cr str_exc now p) = rcpt_tenant_id p"
  "rcpt_receipt_id (signed_row env cr str_exc now p) = rcpt_receipt_id p"
  by (simp_all add: signed_row_def claim_receipt_row_def)

lemma recover_receipt_simps [simp]:
  "rcpt_id (recover_receipt_row n p) = rcpt_id p"
  "rcpt_tenant_id (recover_receipt_row n p) = rcpt_tenant_id p"
  "rcpt_receipt_id (recover_receipt_row n p) = rcpt_receipt_id p"
  by (simp_all add: recover_receipt_row_def)

lemma receipts_ok_update:
  assumes "receipts_ok env cr db" and "\<And>p. P p \<Longrightarrow> rcpt_id (f p) = rcpt_id p"
    and "\<And>p. P p \<Longrightarrow> (rcpt_tenant_id (f p), rcpt_receipt_id (f p)) = (rcpt_tenant_id p, rcpt_receipt_id p)"
    and "\<And>p. P p \<Longrightarrow> receipt_ok env cr p \<Longrightarrow> receipt_ok env cr (f p)"
  shows "receipts_ok env cr (update_receipts P f db)"
proof -
  have "unique_key rcpt_id (update_rows P f (db_receipts db)) = unique_key rcpt_id (db_receipts db)"
    using assms(2) by (rule unique_key_update)
  moreover have "unique_key (\<lambda>p. (rcpt_tenant_id p, rcpt_receipt_id p)) (update_rows P f (db_receipts db)) =
      unique_key (\<lambda>p. (rcpt_tenant_id p, rcpt_receipt_id p)) (db_receipts db)"
    using assms(3) by (rule unique_key_update)
  ultimately show ?thesis
    using assms(1,4) by (auto simp: receipts_ok_def set_update_rows)
qed

lemma sign_one_ok:
  assumes "receipts_ok env cr db"
  shows "receipts_ok env cr (fst (sign_one (env\<lparr>env_now := n\<rparr>) cr str_exc now i db))"
proof -
  have "unique_key rcpt_id (db_receipts db)" using assms by (simp add: receipts_ok_def)
  from sign_one_conv[OF this] show ?thesis
    by (simp only:) (rule receipts_ok_update[OF assms], auto simp: claimable_receipt_def signed_row_ok)
qed

lemma sign_loop_ok:
  "receipts_ok env cr db \<Longrightarrow> receipts_ok env cr (fst (sign_loop (env\<lparr>env_now := n\<rparr>) cr str_exc clock k ids db))"
proof (induction ids arbitrary: k db)
  case (Cons i ids)
  from Cons.IH[OF sign_one_ok[OF Cons.prems, of n str_exc "clock k" i], of "Suc k"] show ?case
    by (simp add: split_beta)
qed simp

lemma process_ok:
  assumes "receipts_ok env cr db" and "process_pending_receipts (env\<lparr>env_now := n\<rparr>) cr str_exc clock requested db = (db', rep)"
  shows "receipts_ok env cr db'"
proof -
  have "receipts_ok env cr (update_receipts (stale_receipt (env\<lparr>env_now := n\<rparr>)) (recover_receipt_row n) db)"
    by (rule receipts_ok_update[OF assms(1)]) (auto simp: recovered_row_ok)
  from sign_loop_ok[OF this, of n str_exc clock 0] assms(2) show ?thesis
    by (auto simp: process_pending_receipts_def Let_def split_beta)
qed

lemma receipts_ok_step:
  assumes "receipt_step env cr w w'" and "receipts_ok env cr (fst w)"
  shows "receipts_ok env cr (fst w')"
  using assms
proof cases
  case (AccessEvaluated now uuid t r rid key memo memo' p again)
  obtain db pc rc db' pc' rc' where w: "w = (db, pc, rc)" "w' = (db', pc', rc')" by (cases w; cases w') auto
  from AccessEvaluated[unfolded w] show ?thesis
  proof (cases rule: evaluate_access_Inr)
    case (Recorded ev rollout)
    with assms(2) show ?thesis
      unfolding receipts_ok_def w
      by (auto simp: new_receipt_ok unique_key_insert) (auto simp: unique_key_def receipt_conflict_def list_ex_iff)
  qed (use assms(2) w in auto)
next
  case (ReceiptsSigned now str_exc clock requested db db' report pc rc)
  with process_ok assms(2) show ?thesis by auto
next
  case (ReceiptsPurged now requested db db' n pc rc)
  then show ?thesis
    using assms(2) by (auto simp: purge_expired_receipts_def receipts_ok_def unique_key_def distinct_map_filter Let_def split: if_splits)
qed

text \<open>A claim that was never settled and has no attempt left is neither recovered, signed, failed nor purged.\<close>

definition stuck_receipt :: "env \<Rightarrow> runtime_decision_receipt \<Rightarrow> bool" where
  "stuck_receipt env p \<longleftrightarrow> rcpt_signing_status p = SigSigning \<and>
     cfg_runtime_receipt_signing_max_attempts (env_settings env) \<le> int (rcpt_signing_attempts p)"

lemma sign_loop_stuck:
  "unique_key rcpt_id (db_receipts db) \<Longrightarrow> p \<in> set (db_receipts db) \<Longrightarrow> stuck_receipt env p \<Longrightarrow>
     p \<in> set (db_receipts (fst (sign_loop env' cr str_exc clock k ids db)))"
proof (induction ids arbitrary: k db)
  case (Cons i ids)
  let ?db = "fst (sign_one env' cr str_exc (clock k) i db)"
  note conv = sign_one_conv[OF Cons.prems(1), of env' cr str_exc "clock k" i]
  have "unique_key rcpt_id (db_receipts ?db)"
    unfolding conv update_receipts_simp by (subst unique_key_update) (use Cons.prems in auto)
  moreover have "p \<in> set (db_receipts ?db)"
    using Cons.prems(2,3) unfolding conv by (force simp: set_update_rows claimable_receipt_def stuck_receipt_def)
  ultimately show ?case
    using Cons.IH[of ?db "Suc k"] Cons.prems(3) by (simp add: split_beta)
qed simp

lemma signing_claim_stuck:
  assumes "receipts_ok env cr (fst w)" and "p \<in> set (db_receipts (fst w))" and "stuck_receipt env p"
    and "receipt_step env cr w w'"
  shows "p \<in> set (db_receipts (fst w'))"
  using assms(4)
proof cases
  case (AccessEvaluated now uuid t r rid key memo memo' q again)
  obtain db pc rc db' pc' rc' where w: "w = (db, pc, rc)" "w' = (db', pc', rc')" by (cases w; cases w') auto
  from AccessEvaluated[unfolded w] show ?thesis
    by (cases rule: evaluate_access_Inr) (use assms w in auto)
next
  case (ReceiptsSigned now str_exc clock requested db db' report pc rc)
  let ?db = "update_receipts (stale_receipt (env\<lparr>env_now := now\<rparr>)) (recover_receipt_row now) db"
  have "unique_key rcpt_id (db_receipts ?db)"
    unfolding update_receipts_simp by (subst unique_key_update) (use assms(1) ReceiptsSigned in \<open>auto simp: receipts_ok_def\<close>)
  moreover have "p \<in> set (db_receipts ?db)"
    using assms(2,3) ReceiptsSigned by (force simp: set_update_rows stuck_receipt_def stale_receipt_def)
  ultimately show ?thesis
    using sign_loop_stuck[of ?db p env] assms(3) ReceiptsSigned
    by (auto simp: process_pending_receipts_def Let_def split_beta)
next
  case (ReceiptsPurged now requested db db' n pc rc)
  have "unique_key rcpt_id (db_receipts db)"
    using assms(1) ReceiptsPurged by (simp add: receipts_ok_def)
  then have "rcpt_id p \<notin> set (purge_ids (env\<lparr>env_now := now\<rparr>) requested db)"
    using assms(2,3) ReceiptsPurged
    by (auto simp: purge_ids_def purgeable_def stuck_receipt_def store dest!: in_set_takeD dest: unique_key_eq)
  with assms(2) ReceiptsPurged show ?thesis
    by (auto simp: purge_expired_receipts_def Let_def split: if_splits)
qed

section \<open>Properties\<close>

text \<open>What an evaluation decides: everything of a receipt but the columns the signing queue writes.\<close>

definition decided :: "runtime_decision_receipt \<Rightarrow> runtime_decision_receipt" where
  "decided p = p\<lparr>rcpt_assurance_json := JNull, rcpt_signing_status := SigPending, rcpt_signing_attempts := 0,
     rcpt_signing_available_at := 0, rcpt_signing_claimed_at := None, rcpt_signing_error := None\<rparr>"

text \<open>
  What may happen to the table of receipts at a time, in any environment: evaluations, signing runs, the claim or the settlement of a
  single signing worker (which may stop between the two, or settle after another has recovered the row),
  purges, and any operation of another component, which leaves the table as it is (but for the benchmark tool, which clears
  the table of its own tenant).
\<close>

inductive receipts_operation :: "crypto \<Rightarrow> time \<Rightarrow> rollout_world \<Rightarrow> rollout_world \<Rightarrow> bool" for cr where
  OpEvaluated: "evaluate_access env uuid t r rid key (w, memo) = Inr ((w', memo'), p, again) \<Longrightarrow>
    receipts_operation cr (env_now env) w w'"
| OpSigned: "process_pending_receipts env cr str_exc clock requested db = (db', report) \<Longrightarrow>
    receipts_operation cr (env_now env) (db, c) (db', c)"
| OpClaimed: "receipts_operation cr now (db, c) (update_receipts (claimable_receipt i) (claim_receipt_row now) db, c)"
| OpSettled: "receipts_operation cr now (db, c) (update_receipts (\<lambda>q. rcpt_id q = i) (settle_receipt_row out) db, c)"
| OpPurged: "purge_expired_receipts env requested db = (db', n) \<Longrightarrow> receipts_operation cr (env_now env) (db, c) (db', c)"
| OpElsewhere: "db_receipts (fst w') = db_receipts (fst w) \<Longrightarrow> receipts_operation cr now w w'"

lemma decided_rows [simp]:
  "decided (claim_receipt_row now q) = decided q" "decided (recover_receipt_row now q) = decided q"
  "decided (settle_receipt_row out q) = decided q" "decided (signed_row env cr str_exc now q) = decided q"
  by (auto simp: decided_def claim_receipt_row_def recover_receipt_row_def settle_receipt_row_def signed_row_def Let_def
      split: prod.split sum.split)

lemma decided_same:
  assumes "decided q = decided p"
  shows "rcpt_id q = rcpt_id p" "rcpt_tenant_id q = rcpt_tenant_id p" "rcpt_idempotency_key q = rcpt_idempotency_key p"
    "rcpt_request_sha256 q = rcpt_request_sha256 p" "rcpt_retention_until q = rcpt_retention_until p"
  using arg_cong[OF assms, of rcpt_id] arg_cong[OF assms, of rcpt_tenant_id] arg_cong[OF assms, of rcpt_idempotency_key]
    arg_cong[OF assms, of rcpt_request_sha256] arg_cong[OF assms, of rcpt_retention_until]
  by (simp_all add: decided_def)

text \<open>The receipt of a key, as it was decided.\<close>

definition key_recorded :: "string \<Rightarrow> string \<Rightarrow> runtime_decision_receipt \<Rightarrow> db \<Rightarrow> bool" where
  "key_recorded t key p db \<longleftrightarrow> (\<exists>q. find_receipt_key db t (Some key) = Some q \<and> decided q = decided p)"

lemma unique_receipts_update:
  assumes "unique_key rcpt_id (db_receipts db)" and "\<And>q. P q \<Longrightarrow> decided (f q) = decided q"
  shows "unique_key rcpt_id (db_receipts (update_receipts P f db))"
  unfolding update_receipts_simp by (subst unique_key_update) (use assms decided_same(1) in blast)+

lemma key_recorded_update:
  assumes "key_recorded t key p db" and "\<And>q. P q \<Longrightarrow> decided (f q) = decided q"
  shows "key_recorded t key p (update_receipts P f db)"
proof -
  have "find_receipt_key (update_receipts P f db) t (Some key) =
      map_option (\<lambda>q. if P q then f q else q) (find_receipt_key db t (Some key))"
    unfolding find_receipt_key_def
    by (simp add: scalar_update decided_same(2,3)[OF assms(2)])
  moreover from assms(1) obtain q where "find_receipt_key db t (Some key) = Some q" "decided q = decided p"
    by (auto simp: key_recorded_def)
  ultimately show ?thesis
    using assms(2) unfolding key_recorded_def by (intro exI[of _ "if P q then f q else q"]) simp
qed

lemma key_recorded_sign_loop:
  assumes "unique_key rcpt_id (db_receipts db)"
  shows "unique_key rcpt_id (db_receipts (fst (sign_loop env cr str_exc clock k ids db))) \<and>
    (key_recorded t key p db \<longrightarrow> key_recorded t key p (fst (sign_loop env cr str_exc clock k ids db)))"
  using assms
proof (induction ids arbitrary: k db)
  case (Cons i ids)
  let ?db = "fst (sign_one env cr str_exc (clock k) i db)"
  note conv = sign_one_conv[OF Cons.prems, of env cr str_exc "clock k" i]
  have "unique_key rcpt_id (db_receipts ?db)" "key_recorded t key p db \<longrightarrow> key_recorded t key p ?db"
    unfolding conv using unique_receipts_update[OF Cons.prems] key_recorded_update by simp_all
  with Cons.IH[of ?db "Suc k"] show ?case by (simp add: split_beta)
qed simp

lemma scalar_filter: "scalar P xs = Some x \<Longrightarrow> Q x \<Longrightarrow> scalar P (filter Q xs) = Some x"
  by (induction xs) (auto simp: scalar_Cons split: if_splits)

lemma key_recorded_operation:
  assumes "receipts_operation cr now w w'" and "unique_key rcpt_id (db_receipts (fst w))"
  shows "unique_key rcpt_id (db_receipts (fst w')) \<and>
    (key \<noteq> [] \<and> key_recorded t key p (fst w) \<and> now \<le> rcpt_retention_until p \<longrightarrow> key_recorded t key p (fst w'))"
  using assms
proof cases
  case (OpEvaluated env uuid t r rid key memo memo' p again)
  obtain db pc rc db' pc' rc' where w: "w = (db, pc, rc)" "w' = (db', pc', rc')" by (cases w; cases w') auto
  from OpEvaluated(2)[unfolded w] show ?thesis
    by (cases rule: evaluate_access_Inr)
       (use assms(2) w in \<open>auto simp: unique_key_insert key_recorded_def find_receipt_key_append\<close>)
next
  case (OpSigned env str_exc clock requested db db' report c)
  let ?db = "update_receipts (stale_receipt env) (recover_receipt_row (env_now env)) db"
  have "unique_key rcpt_id (db_receipts ?db)" "key_recorded t key p db \<longrightarrow> key_recorded t key p ?db"
    using assms(2) OpSigned by (simp_all add: unique_receipts_update key_recorded_update del: update_receipts_simp)
  with key_recorded_sign_loop[of ?db env cr str_exc clock 0 _ t key p] OpSigned show ?thesis
    by (auto simp: process_pending_receipts_def Let_def split_beta)
next
  case (OpPurged env requested db db' n c)
  have "unique_key rcpt_id (db_receipts db')"
    using assms(2) OpPurged
    by (auto simp: purge_expired_receipts_def unique_key_def distinct_map_filter Let_def split: if_splits)
  moreover have "key_recorded t key p db'" if rec: "key_recorded t key p db" "now \<le> rcpt_retention_until p" "key \<noteq> []"
  proof -
    from rec obtain q where q: "find_receipt_key db t (Some key) = Some q" "decided q = decided p"
      by (auto simp: key_recorded_def)
    then have "q \<in> set (db_receipts db)" "\<not> purgeable env q"
      using rec decided_same(5)[OF q(2)] OpPurged(1)
      by (auto simp: find_receipt_key_def truthy_opt_def purgeable_def dest!: scalar_Some)
    then have "rcpt_id q \<notin> set (purge_ids env requested db)"
      using assms(2) OpPurged by (auto simp: purge_ids_def store dest!: in_set_takeD dest: unique_key_eq)
    with q OpPurged(4) show ?thesis
      by (auto simp: key_recorded_def find_receipt_key_def purge_expired_receipts_def Let_def scalar_filter split: if_splits)
  qed
  ultimately show ?thesis using OpPurged by simp
next
  case (OpElsewhere)
  then show ?thesis using assms(2) by (simp add: key_recorded_def find_receipt_key_def)
qed (use unique_receipts_update key_recorded_update in \<open>auto simp del: update_receipts_simp\<close>)

lemma unique_receipts_reached:
  assumes "(\<lambda>a b. \<exists>now. receipts_operation cr now a b)\<^sup>*\<^sup>* w0 w" and "db_receipts (fst w0) = []"
  shows "unique_key rcpt_id (db_receipts (fst w))"
  using assms by (induction rule: rtranclp_induct) (auto simp: unique_key_def[of _ "[]"] dest: key_recorded_operation)

lemma key_recorded_until:
  assumes "(\<lambda>a b. \<exists>now \<le> rcpt_retention_until p. receipts_operation cr now a b)\<^sup>*\<^sup>* w1 w2"
    and "unique_key rcpt_id (db_receipts (fst w1))" and "key_recorded t key p (fst w1)" and "key \<noteq> []"
  shows "key_recorded t key p (fst w2)"
proof -
  have "unique_key rcpt_id (db_receipts (fst w2)) \<and> key_recorded t key p (fst w2)"
    using assms by (induction rule: rtranclp_induct) (auto dest: key_recorded_operation[where t = t and key = key and p = p])
  then show ?thesis by blast
qed

text \<open>
  C20: an access evaluation under an idempotency key is decided once until its receipt's retention has passed:
  after any operations up to that time, signing runs and purges among them, and whatever the policies and the configuration
  have become, the same request under the key is answered with the receipt as it was decided and
  changes nothing, and another request under it is refused. Once the receipt has been purged the key is
  decided anew, with a receipt of its own.
\<close>

theorem receipt_key_idempotent:
  assumes "key \<noteq> []" and "db_receipts (fst w0) = []" and "(\<lambda>a b. \<exists>now. receipts_operation cr now a b)\<^sup>*\<^sup>* w0 w"
    and "evaluate_access env uuid t r rid (Some key) (w, memo) = Inr ((w1, memo1), p, again)"
    and "(\<lambda>a b. \<exists>now \<le> rcpt_retention_until p. receipts_operation cr now a b)\<^sup>*\<^sup>* w1 w2"
  shows "(\<exists>q \<in> set (db_receipts (fst w2)). decided q = decided p \<and>
           (request_digest env' r' = request_digest env r \<longrightarrow>
              evaluate_access env' uuid' t r' rid' (Some key) (w2, memo') = Inr ((w2, memo'), q, True)) \<and>
           (request_digest env' r' \<noteq> request_digest env r \<longrightarrow>
              evaluate_access env' uuid' t r' rid' (Some key) (w2, memo') =
                Inl (IdempotencyConflict ''Idempotency key was already used for a different evaluation''))) \<and>
         (\<forall>w3 s3 p3 again3. find_receipt_key (fst w3) t (Some key) = None \<and>
            evaluate_access env' uuid' t r' rid' (Some key) (w3, memo') = Inr (s3, p3, again3) \<longrightarrow>
            \<not> again3 \<and> rcpt_request_sha256 p3 = request_digest env' r' \<and>
            db_receipts (fst (fst s3)) = db_receipts (fst w3) @ [p3])"
proof (intro conjI allI impI)
  have k: "case (t, key) of (t, key) \<Rightarrow> key \<noteq> []" using assms(1) by simp
  have put: "access_put (w, memo) (t, key) (env, uuid, r, rid) = Inr ((w1, memo1), p)"
    using assms(4) by (simp add: access_put_def)
  from receipt_store.put_ok_lookup[OF k put]
  have l: "find_receipt_key (fst w1) t (Some key) = Some p" "rcpt_request_sha256 p = request_digest env r" by simp_all
  have "unique_key rcpt_id (db_receipts (fst w1))"
    using key_recorded_operation[OF OpEvaluated[OF assms(4)] unique_receipts_reached[OF assms(3,2)]] by blast
  then have "key_recorded t key p (fst w2)"
    using key_recorded_until[OF assms(5)] l(1) assms(1) by (auto simp: key_recorded_def)
  then obtain q where q: "find_receipt_key (fst w2) t (Some key) = Some q" "decided q = decided p"
    by (auto simp: key_recorded_def)
  then have "q \<in> set (db_receipts (fst w2))" "rcpt_request_sha256 q = request_digest env r"
    using l(2) decided_same(4)[OF q(2)] by (auto simp: find_receipt_key_def dest: scalar_Some split: if_splits)
  with q show "\<exists>q \<in> set (db_receipts (fst w2)). decided q = decided p \<and>
           (request_digest env' r' = request_digest env r \<longrightarrow>
              evaluate_access env' uuid' t r' rid' (Some key) (w2, memo') = Inr ((w2, memo'), q, True)) \<and>
           (request_digest env' r' \<noteq> request_digest env r \<longrightarrow>
              evaluate_access env' uuid' t r' rid' (Some key) (w2, memo') =
                Inl (IdempotencyConflict ''Idempotency key was already used for a different evaluation''))"
    by (intro bexI[of _ q]) (simp_all add: evaluate_access_def)
next
  fix w3 s3 p3 again3
  assume e: "find_receipt_key (fst w3) t (Some key) = None \<and>
            evaluate_access env' uuid' t r' rid' (Some key) (w3, memo') = Inr (s3, p3, again3)"
  obtain db pc rc db' pc' rc' memo3 where w: "w3 = (db, pc, rc)" "s3 = ((db', pc', rc'), memo3)" by (cases w3; cases s3) auto
  from e have "evaluate_access env' uuid' t r' rid' (Some key) ((db, pc, rc), memo') = Inr (((db', pc', rc'), memo3), p3, again3)"
    by (simp add: w)
  then show "\<not> again3" "rcpt_request_sha256 p3 = request_digest env' r'"
      "db_receipts (fst (fst s3)) = db_receipts (fst w3) @ [p3]"
    by (cases rule: evaluate_access_Inr; use e w in simp)+
qed

text \<open>
  C19: however evaluations, signing runs and purges interleave, every stored receipt is consistent: its digest is that of its
  manifest, its decision is the one its enforcement mode makes of its policy decision, and the attempts to
  sign it stay within the limit. And a receipt marked as signed, whose assurance is that of a local or a KMS key (not of sigstore), verifies
  whenever the trust profile it is verified under can be resolved and its comparison with the assurance raises nothing:
  as valid, and as trusted exactly when that comparison succeeds.
\<close>

theorem signed_receipts_verify:
  assumes "verifies_own env cr" and "db_receipts (fst w0) = []" and "(receipt_step env cr)\<^sup>*\<^sup>* w0 w"
    and "p \<in> set (db_receipts (fst w))"
  shows "rcpt_manifest_sha256 p = sha256_json env (rcpt_manifest_json p) \<and>
    rcpt_decision p = permitted_by (rcpt_enforcement_mode p) (rcpt_policy_decision p) \<and>
    rcpt_signing_attempts p \<le> attempts_allowed env \<and>
    (\<forall>vp trust b. rcpt_signing_status p = SigSigned \<and> py_get (jobj (rcpt_assurance_json p)) ''type'' \<noteq> JStr ''sigstore'' \<and>
       trust_profile env (trust_profile_name vp (jobj (rcpt_assurance_json p))) (vp \<noteq> None) = Inr trust \<and>
       profile_trusts_assurance env cr trust (jobj (rcpt_assurance_json p)) = Inr b \<longrightarrow>
       (\<exists>v. verify_receipt env cr p vp = Inr v \<and> rv_stored_digest_valid v \<and> vf_valid (rv_verification v) \<and>
          vf_signature_valid (rv_verification v) \<and> vf_trusted (rv_verification v) = b))"
proof -
  have "receipts_ok env cr (fst w0)"
    using assms(2) by (simp add: receipts_ok_def unique_key_def)
  from assms(3) this have "receipts_ok env cr (fst w)"
    by (induction rule: rtranclp_induct) (auto intro: receipts_ok_step)
  with assms(4) have ok: "receipt_ok env cr p" by (simp add: receipts_ok_def)
  have "\<exists>v. verify_receipt env cr p vp = Inr v \<and> rv_stored_digest_valid v \<and> vf_valid (rv_verification v) \<and>
          vf_signature_valid (rv_verification v) \<and> vf_trusted (rv_verification v) = b"
    if st: "rcpt_signing_status p = SigSigned" and ty: "py_get (jobj (rcpt_assurance_json p)) ''type'' \<noteq> JStr ''sigstore''"
      and tr: "trust_profile env (trust_profile_name vp (jobj (rcpt_assurance_json p))) (vp \<noteq> None) = Inr trust"
      and b: "profile_trusts_assurance env cr trust (jobj (rcpt_assurance_json p)) = Inr b" for vp trust b
  proof -
    from ok st obtain now a where a: "rcpt_assurance_json p = JObj a" "py_get a ''status'' = JStr ''signed''"
      "sign_manifest (env\<lparr>env_now := now\<rparr>) cr (rcpt_manifest_json p) (rcpt_signing_profile p) = Inr a"
      by (auto simp: receipt_ok_def signed_by_def)
    have "verifies_own (env\<lparr>env_now := now\<rparr>) cr" using assms(1) by (simp add: verifies_own_def)
    from sign_manifest_key_signed[OF this a(3,2)] ty a(1) have "key_signed (env\<lparr>env_now := now\<rparr>) cr (rcpt_manifest_json p) a" by simp
    then have ks: "key_signed env cr (rcpt_manifest_json p) a" by (simp add: key_signed_def key_assurance_def)
    show ?thesis
      using key_signed_fields[OF ks] key_signed_verifies[OF ks] tr b ok
      by (simp add: verify_receipt_def a(1) verify_manifest_signature_def check_signature_def Let_def receipt_ok_def)
  qed
  with ok show ?thesis by (simp add: receipt_ok_def)
qed


section \<open>Batches\<close>

lemma batch_loop_chain:
  assumes "batch_loop env us t defaults semantic rid key i items s = Inr (s', answers)"
  shows "length answers \<le> length items \<and> (items \<noteq> [] \<longrightarrow> answers \<noteq> []) \<and>
    (\<forall>j < length answers - 1. \<not> stops semantic (py_get (answers ! j) ''decision'' = JBool True)) \<and>
    (length answers < length items \<longrightarrow> stops semantic (py_get (last answers) ''decision'' = JBool True)) \<and>
    (\<exists>states. length states = Suc (length answers) \<and> hd states = s \<and> last states = s' \<and>
       (\<forall>j < length answers. answer_item env (us (i + j)) t defaults (items ! j) (indexed_header rid (i + j))
          (indexed_header key (i + j)) (states ! j) = Inr (states ! Suc j, answers ! j)))"
  using assms
proof (induction items arbitrary: i s answers)
  case Nil
  then show ?case by (auto intro: exI[of _ "[s]"])
next
  case (Cons item items)
  from Cons.prems obtain s1 a where a: "answer_item env (us i) t defaults item (indexed_header rid i) (indexed_header key i) s = Inr (s1, a)"
    and rest: "(if stops semantic (py_get a ''decision'' = JBool True) then Inr (s1, [a])
      else rbind (batch_loop env us t defaults semantic rid key (Suc i) items s1) (\<lambda>(s2, as). Inr (s2, a # as))) = Inr (s', answers)"
    by (auto elim!: rbindE)
  show ?case
  proof (cases "stops semantic (py_get a ''decision'' = JBool True)")
    case True
    with rest a show ?thesis by (auto intro!: exI[of _ "[s, s1]"])
  next
    case False
    with rest obtain as where as: "batch_loop env us t defaults semantic rid key (Suc i) items s1 = Inr (s', as)" "answers = a # as"
      by (auto elim!: rbindE)
    from Cons.IH[OF as(1)] obtain states where st: "length states = Suc (length as)" "hd states = s1" "last states = s'"
      and step: "\<And>j. j < length as \<Longrightarrow> answer_item env (us (Suc i + j)) t defaults (items ! j) (indexed_header rid (Suc i + j))
          (indexed_header key (Suc i + j)) (states ! j) = Inr (states ! Suc j, as ! j)"
      by blast
    note ih = Cons.IH[OF as(1)]
    have ne: "states \<noteq> []" "states ! 0 = s1" using st(1,2) by (cases states; auto)+
    have "answer_item env (us (i + j)) t defaults ((item # items) ! j) (indexed_header rid (i + j))
          (indexed_header key (i + j)) ((s # states) ! j) = Inr ((s # states) ! Suc j, (a # as) ! j)" if "j < Suc (length as)" for j
      using that a ne step[of "j - 1"] by (cases j) auto
    moreover have "\<not> stops semantic (py_get ((a # as) ! j) ''decision'' = JBool True)" if "j < length as" for j
      using that False ih by (cases j) (auto simp: less_diff_conv)
    ultimately show ?thesis
      using ih st ne False unfolding as(2)
      by (intro conjI exI[of _ "s # states"]) auto
  qed
qed

text \<open>
  C26: a batch answers its items in order, each in the state the one before left and under its own indexed
  keys; all of them under \<open>execute_all\<close>, and otherwise up to and including the first denial, or the
  first permit: no item after it is evaluated or recorded.
\<close>

theorem batch_semantics:
  assumes "access_evaluations env us who body b rid key w = Inr (w', answers)" and "bt_evaluations b \<noteq> []"
  shows "answers \<noteq> [] \<and> length answers \<le> length (bt_evaluations b) \<and>
    (case bt_semantic b of
       ExecuteAll \<Rightarrow> length answers = length (bt_evaluations b)
     | DenyOnFirstDeny \<Rightarrow>
         (\<forall>j < length answers - 1. py_get (answers ! j) ''decision'' = JBool True) \<and>
         (length answers < length (bt_evaluations b) \<longrightarrow> py_get (last answers) ''decision'' \<noteq> JBool True)
     | PermitOnFirstPermit \<Rightarrow>
         (\<forall>j < length answers - 1. py_get (answers ! j) ''decision'' \<noteq> JBool True) \<and>
         (length answers < length (bt_evaluations b) \<longrightarrow> py_get (last answers) ''decision'' = JBool True)) \<and>
    (\<exists>states. length states = Suc (length answers) \<and> hd states = (w, Some no_lookups) \<and> fst (last states) = w' \<and>
       (\<forall>j < length answers. answer_item env (us j) (p_tenant_id who) (bt_defaults b) (bt_evaluations b ! j)
          (indexed_header rid j) (indexed_header key j) (states ! j) = Inr (states ! Suc j, answers ! j)))"
proof -
  have h: "bounded_header x n = Inr y \<Longrightarrow> y = x" for x n y
    by (auto simp: bounded_header_def elim!: rbindE split: option.splits)
  have e: "access_errors x = Inr y \<longleftrightarrow> x = Inr y" for x :: "'a result" and y
    by (auto simp: access_errors_def split: sum.splits py_error.splits)
  from assms obtain memo where "batch_loop env us (p_tenant_id who) (bt_defaults b) (bt_semantic b) rid key 0
      (bt_evaluations b) (w, Some no_lookups) = Inr ((w', memo), answers)"
    by (auto simp: access_evaluations_def e dest!: h elim!: rbindE)
  note chain = batch_loop_chain[OF this]
  show ?thesis
  proof (intro conjI)
    show "case bt_semantic b of
       ExecuteAll \<Rightarrow> length answers = length (bt_evaluations b)
     | DenyOnFirstDeny \<Rightarrow>
         (\<forall>j < length answers - 1. py_get (answers ! j) ''decision'' = JBool True) \<and>
         (length answers < length (bt_evaluations b) \<longrightarrow> py_get (last answers) ''decision'' \<noteq> JBool True)
     | PermitOnFirstPermit \<Rightarrow>
         (\<forall>j < length answers - 1. py_get (answers ! j) ''decision'' \<noteq> JBool True) \<and>
         (length answers < length (bt_evaluations b) \<longrightarrow> py_get (last answers) ''decision'' = JBool True)"
      using chain by (cases "bt_semantic b") (auto simp: stops_def)
  qed (use chain assms(2) in fastforce)+
qed

lemma item_error_denies: "py_get (item_error x) ''decision'' = JBool False"
  by (simp add: item_error_def py_get_def dict_get_def)

theorem batch_semantics_witness:
  "\<exists>w' answers. access_evaluations base_env (\<lambda>i. (''r'', ''e'')) sample_admin 10
      \<lparr>bt_defaults = no_parts, bt_evaluations = [no_parts, no_parts], bt_semantic = DenyOnFirstDeny\<rparr> None None
      (empty_db, Map.empty, Map.empty) = Inr (w', answers) \<and> length answers = 1"
proof -
  let ?b = "\<lparr>bt_defaults = no_parts, bt_evaluations = [no_parts, no_parts], bt_semantic = DenyOnFirstDeny\<rparr>"
  let ?r = "access_evaluations base_env (\<lambda>i. (''r'', ''e'')) sample_admin 10 ?b None None (empty_db, Map.empty, Map.empty)"
  have "is_ok ?r" by code_simp
  then obtain w' answers where r: "?r = Inr (w', answers)" by (auto simp: is_ok_iff)
  note sem = batch_semantics[OF r]
  from sem have n: "answers \<noteq> []" "length answers \<le> 2"
    and go: "\<forall>j < length answers - 1. py_get (answers ! j) ''decision'' = JBool True"
    by simp_all
  from sem obtain states where "\<forall>j < length answers. answer_item base_env (''r'', ''e'') (p_tenant_id sample_admin) no_parts
      ([no_parts, no_parts] ! j) (indexed_header None j) (indexed_header None j) (states ! j) = Inr (states ! Suc j, answers ! j)"
    by auto
  with n(1) have "answer_item base_env (''r'', ''e'') (p_tenant_id sample_admin) no_parts no_parts
      (indexed_header None 0) (indexed_header None 0) (states ! 0) = Inr (states ! Suc 0, answers ! 0)"
    by (metis length_greater_0_conv nth_Cons_0)
  then have "py_get (answers ! 0) ''decision'' = JBool False"
    by (simp add: answer_item_def resolved_evaluation_def no_parts_def or_else_def) (metis item_error_denies)
  with go n have "length answers = 1" by (cases answers) (auto simp: le_Suc_eq)
  with r show ?thesis by blast
qed

section \<open>Instances\<close>

text \<open>A user's request about a report, recorded in an empty database.\<close>

definition sample_world :: rollout_world where
  "sample_world = (empty_db, Map.empty, Map.empty)"

definition sample_payload :: json where
  "sample_payload = JObj
     [(''receipt_id'', JStr ''r''), (''request_id'', JNull), (''subject_type'', JStr ''user''),
      (''subject_id'', JStr ''finance-forecast-agent''), (''resource_type'', JStr ''report''), (''resource_id'', JStr ''1''),
      (''action'', JStr ''read''), (''decision'', JBool True), (''policy_decision'', JStr ''allow''),
      (''policy_version'', JStr POLICY_VERSION), (''risk_score'', JInt 20), (''rollout_id'', JNull), (''rollout_stage'', JNull),
      (''created_at'', JStr ''1970-01-01T00:00:00'')]"

lemma sample_recorded:
  assumes "ok_with (\<lambda>(ev, c, m). ev_decision ev = Allow \<and> ev_policy_version ev = POLICY_VERSION \<and> ev_risk_score ev = 20)
      (evaluate_policy_only env empty_db Map.empty None ''default'' (sample_request ''user'' ''report'') None None)"
    and "is_ok (bounded_payload env sample_payload)" and "env_isoformat env = (\<lambda>t. ''1970-01-01T00:00:00'')"
    and "cfg_runtime_authorization_mode (env_settings env) = ''enforce''"
    and "profile = or_none (cfg_runtime_receipt_signing_profile (env_settings env))"
    and "profile \<noteq> None \<Longrightarrow> is_ok (validate_signing_profile env profile)"
  shows "\<exists>w' ev. let p = new_receipt env empty_db ''r'' ''default'' None (Some ''k'') (sample_request ''user'' ''report'') ev None
     in evaluate_access env (''r'', ''e'') ''default'' (sample_request ''user'' ''report'') None (Some ''k'')
          (sample_world, None) = Inr ((w', None), p, False) \<and> db_receipts (fst w') = [p]"
proof -
  obtain ev pc m where ev: "evaluate_policy_only env empty_db Map.empty None ''default'' (sample_request ''user'' ''report'') None None
      = Inr (ev, pc, m)" "ev_decision ev = Allow" "ev_policy_version ev = POLICY_VERSION" "ev_risk_score ev = 20"
    using assms(1) by (auto elim!: ok_withE)
  have m: "m = None" using evaluate_policy_only_memo[of empty_db None env Map.empty "''default''"
      "sample_request ''user'' ''report''" None None] ev(1) by simp
  let ?r = "sample_request ''user'' ''report''"
  obtain rc where ro: "runtime_rollout env empty_db Map.empty ''default'' (request_digest env ?r) = Inr (None, rc)"
    by (simp add: runtime_rollout_def fetch_rollout_def cache_live_def load_runtime_rollout_def empty_db_def where_rows_def
        order_by_desc_def Let_def)
  have ewr: "evaluate_with_rollout env ''default'' ?r (request_digest env ?r) (sample_world, None) =
      Inr ((ev, None), (empty_db, pc, rc), None)"
    using ev(1) m ro by (simp add: evaluate_with_rollout_def sample_world_def)
  define p where "p = new_receipt env empty_db ''r'' ''default'' None (Some ''k'') ?r ev None"
  have "receipt_event_payload env p = sample_payload"
    by (simp add: receipt_event_payload_def p_def new_receipt_def Let_def sample_request_def ev jopt_def permitted_by_def
        decision_str_def jtime_def sample_payload_def assms(3))
  with assms(2) obtain doc where doc: "bounded_payload env (receipt_event_payload env p) = Inr doc"
    by (auto simp: is_ok_iff)
  have "db_receipts empty_db = []" "db_outbox empty_db = []" by (simp_all add: empty_db_def)
  moreover have "cfg_runtime_authorization_mode (env_settings env) \<in> set ENFORCEMENT_MODES"
    by (simp add: assms(4) ENFORCEMENT_MODES_def)
  moreover obtain x where "(if profile = None then Inr None else validate_signing_profile env profile) = Inr x"
    using assms(6) by (cases "profile = None") (auto simp: is_ok_iff)
  ultimately have "\<exists>db'. evaluate_access env (''r'', ''e'') ''default'' ?r None (Some ''k'') (sample_world, None) =
      Inr (((db', pc, rc), None), p, False) \<and> db_receipts db' = [p]"
    using ewr doc unfolding p_def[symmetric] assms(5)
    by (simp add: evaluate_access_def sample_world_def find_receipt_key_def truthy_opt_def receipt_conflict_def Let_def
        queue_outbox_event_def find_outbox_key_def flip: p_def)
  then show ?thesis unfolding p_def Let_def by fastforce
qed

text \<open>The same with a profile for the receipts, whose key the verification profile pins.\<close>

definition receipt_env :: env where
  "receipt_env = sample_env\<lparr>env_settings := (env_settings signing_env)\<lparr>cfg_runtime_receipt_signing_profile := ''p''\<rparr>\<rparr>"

lemma receipt_env_settings:
  "cfg_runtime_authorization_mode (env_settings receipt_env) = ''enforce''"
  "cfg_runtime_receipt_signing_profile (env_settings receipt_env) = ''p''"
  "env_isoformat receipt_env = (\<lambda>t. ''1970-01-01T00:00:00'')" "env_sha256 receipt_env = (\<lambda>s. ''ab'')"
  by (simp_all add: receipt_env_def signing_env_def sample_env_def base_env_def default_settings_def)

lemma receipt_env_signs: "sign_manifest receipt_env sample_crypto m (Some ''p'') = Inr sample_assurance"
  by (simp add: sign_manifest_def validate_signing_profile_def selected_profile_def signing_profiles_def profile_configuration_def
      in_texts_def SIGNATURE_TYPES_def truthy_opt_def sign_ed25519_def resolve_secret_def env_name_ok_def is_ascii_digit_def
      receipt_env_def sample_env_def
      sample_crypto_def signing_env_def sample_assurance_def base_env_def default_settings_def py_get_def dict_get_def Let_def
      py_strip_def py_space_def key_assurance_def)

lemma receipt_env_decision:
  "ok_with (\<lambda>(ev, c, m). ev_decision ev = Allow \<and> ev_policy_version ev = POLICY_VERSION \<and> ev_risk_score ev = 20)
    (evaluate_policy_only receipt_env empty_db Map.empty None ''default'' (sample_request ''user'' ''report'') None None)"
  by code_simp

lemma receipt_env_payload: "is_ok (bounded_payload receipt_env sample_payload)"
  by code_simp

lemma receipt_env_profile: "is_ok (validate_signing_profile receipt_env (Some ''p''))"
  by code_simp

lemma receipt_env_trust:
  "trust_profile receipt_env (trust_profile_name None sample_assurance) (None \<noteq> None) =
     Inr (Some [(''type'', JStr ''ed25519''), (''public_key_sha256'', JStr ''ab'')])"
  "profile_trusts_assurance receipt_env sample_crypto
     (Some [(''type'', JStr ''ed25519''), (''public_key_sha256'', JStr ''ab'')]) sample_assurance = Inr True"
proof -
  show "trust_profile receipt_env (trust_profile_name None sample_assurance) (None \<noteq> None) =
     Inr (Some [(''type'', JStr ''ed25519''), (''public_key_sha256'', JStr ''ab'')])"
    by (simp add: trust_profile_def trust_profile_name_def truthy_opt_def verification_profiles_def sample_assurance_fields
        profile_configuration_def receipt_env_def sample_env_def signing_env_def base_env_def default_settings_def dict_get_def)
  show "profile_trusts_assurance receipt_env sample_crypto
     (Some [(''type'', JStr ''ed25519''), (''public_key_sha256'', JStr ''ab'')]) sample_assurance = Inr True"
    by (rule pinned_trusts) (simp_all add: pins_key_def nonempty_text_def sample_assurance_fields py_get_def dict_get_def,
        simp_all add: sample_assurance_fields[unfolded py_get_def dict_get_def])
qed

text \<open>The receipt is recorded, and then the signing run signs it.\<close>

lemma sample_receipt_signed:
  "\<exists>w1 p db2 c report q. evaluate_access receipt_env (''r'', ''e'') ''default'' (sample_request ''user'' ''report'') None (Some ''k'')
       (sample_world, None) = Inr ((w1, None), p, False) \<and> w1 = (fst w1, c) \<and>
     process_pending_receipts receipt_env sample_crypto (\<lambda>e. []) (\<lambda>k. env_now receipt_env) None (fst w1) = (db2, report) \<and>
     env_now receipt_env \<le> rcpt_retention_until p \<and> db_receipts db2 = [q] \<and>
     rcpt_signing_status q = SigSigned \<and> rcpt_assurance_json q = JObj sample_assurance"
proof -
  let ?r = "sample_request ''user'' ''report''"
  from sample_recorded[OF receipt_env_decision receipt_env_payload receipt_env_settings(3,1), of "Some ''p''"] receipt_env_profile
  obtain w1 ev where w1: "evaluate_access receipt_env (''r'', ''e'') ''default'' ?r None (Some ''k'') (sample_world, None) =
      Inr ((w1, None), new_receipt receipt_env empty_db ''r'' ''default'' None (Some ''k'') ?r ev None, False)"
    "db_receipts (fst w1) = [new_receipt receipt_env empty_db ''r'' ''default'' None (Some ''k'') ?r ev None]"
    unfolding Let_def by (auto simp: receipt_env_settings or_none_def)
  define p where "p = new_receipt receipt_env empty_db ''r'' ''default'' None (Some ''k'') ?r ev None"
  have p: "rcpt_signing_status p = SigPending" "rcpt_signing_profile p = Some ''p''"
    "rcpt_signing_available_at p = env_now receipt_env" "env_now receipt_env \<le> rcpt_retention_until p"
    by (simp_all add: p_def new_receipt_def Let_def receipt_env_settings or_none_def td_days_def td_seconds_def)
  let ?db = "fst w1"
  have rec: "update_receipts (stale_receipt receipt_env) (recover_receipt_row (env_now receipt_env)) ?db = ?db"
    by (simp add: update_receipts_def update_rows_def w1(2) stale_receipt_def p[unfolded p_def])
  have "1 \<le> bounded_limit None (cfg_runtime_receipt_signing_batch_size (env_settings receipt_env)) 1000"
    by code_simp
  then have cand: "signing_candidates receipt_env None ?db = [rcpt_id p]"
    by (simp add: signing_candidates_def w1(2)[folded p_def] where_rows_def order_by_def due_receipt_def p)
  obtain db2 where one: "fst (sign_one receipt_env sample_crypto (\<lambda>e. []) (env_now receipt_env) (rcpt_id p) ?db) = db2"
      "db_receipts db2 = [signed_row receipt_env sample_crypto (\<lambda>e. []) (env_now receipt_env) p]"
    using sign_one_conv[of ?db receipt_env sample_crypto "\<lambda>e. []" "env_now receipt_env" "rcpt_id p"] p(1)
    by (auto simp: unique_key_def update_rows_def claimable_receipt_def w1(2)[folded p_def])
  have st: "rcpt_signing_status (signed_row receipt_env sample_crypto (\<lambda>e. []) (env_now receipt_env) p) = SigSigned"
    "rcpt_assurance_json (signed_row receipt_env sample_crypto (\<lambda>e. []) (env_now receipt_env) p) = JObj sample_assurance"
    by (simp_all add: signed_row_def settle_receipt_row_def p receipt_env_signs sample_assurance_fields)
  obtain report where "process_pending_receipts receipt_env sample_crypto (\<lambda>e. []) (\<lambda>k. env_now receipt_env) None ?db = (db2, report)"
    using one(1) unfolding process_pending_receipts_def Let_def rec cand by (auto simp: split_beta)
  then show ?thesis
    using w1(1)[folded p_def] p(4) one(2) st by (metis prod.collapse)
qed

lemma sample_receipt_run:
  "\<exists>w p w' q. evaluate_access receipt_env (''r'', ''e'') ''default'' (sample_request ''user'' ''report'') None (Some ''k'')
       (sample_world, None) = Inr ((w, None), p, False) \<and>
     receipt_step receipt_env sample_crypto sample_world w \<and> receipt_step receipt_env sample_crypto w w' \<and>
     (\<exists>now \<le> rcpt_retention_until p. receipts_operation sample_crypto now w w') \<and>
     db_receipts (fst w') = [q] \<and> rcpt_signing_status q = SigSigned \<and> rcpt_assurance_json q = JObj sample_assurance"
proof -
  obtain db c p db2 report q where
    e: "evaluate_access receipt_env (''r'', ''e'') ''default'' (sample_request ''user'' ''report'') None (Some ''k'')
       (sample_world, None) = Inr (((db, c), None), p, False)"
    and sg: "process_pending_receipts receipt_env sample_crypto (\<lambda>e. []) (\<lambda>k. env_now receipt_env) None db = (db2, report)"
    and q: "env_now receipt_env \<le> rcpt_retention_until p" "db_receipts db2 = [q]" "rcpt_signing_status q = SigSigned"
      "rcpt_assurance_json q = JObj sample_assurance"
    using sample_receipt_signed by (metis fst_conv)
  obtain pc rc where c: "c = (pc, rc)" by (cases c)
  have "receipt_step receipt_env sample_crypto sample_world (db, c)"
    by (rule AccessEvaluated[where now = "env_now receipt_env"]) (use e in simp)
  moreover have "receipt_step receipt_env sample_crypto (db, c) (db2, c)"
    unfolding c by (rule ReceiptsSigned[where now = "env_now receipt_env"]) (use sg in simp)
  moreover have "receipts_operation sample_crypto (env_now receipt_env) (db, c) (db2, c)"
    by (rule OpSigned[OF sg])
  ultimately show ?thesis
    using e q by (intro exI[of _ "(db, c)"] exI[of _ p] exI[of _ "(db2, c)"] exI[of _ q]) auto
qed

theorem receipt_key_idempotent_witness:
  "\<exists>w p w' q. evaluate_access receipt_env (''r'', ''e'') ''default'' (sample_request ''user'' ''report'') None (Some ''k'')
       (sample_world, None) = Inr ((w, None), p, False) \<and> rcpt_signing_status q = SigSigned \<and> decided q = decided p \<and>
     evaluate_access receipt_env (''r2'', ''e2'') ''default'' (sample_request ''user'' ''report'') None (Some ''k'') (w', None) =
       Inr ((w', None), q, True)"
proof -
  obtain w p w' q where
    e: "evaluate_access receipt_env (''r'', ''e'') ''default'' (sample_request ''user'' ''report'') None (Some ''k'')
       (sample_world, None) = Inr ((w, None), p, False)"
    and op: "\<exists>now \<le> rcpt_retention_until p. receipts_operation sample_crypto now w w'"
    and q: "db_receipts (fst w') = [q]" "rcpt_signing_status q = SigSigned"
    using sample_receipt_run by metis
  have start: "db_receipts (fst sample_world) = []" by (simp add: sample_world_def empty_db_def)
  from receipt_key_idempotent[where env' = receipt_env and r' = "sample_request ''user'' ''report''" and uuid' = "(''r2'', ''e2'')"
      and rid' = None and memo' = None, OF _ start rtranclp.rtrancl_refl e
      r_into_rtranclp[where r = "\<lambda>a b. \<exists>now \<le> rcpt_retention_until p. receipts_operation sample_crypto now a b", OF op]] q(1)
  have "decided q = decided p" "evaluate_access receipt_env (''r2'', ''e2'') ''default'' (sample_request ''user'' ''report'') None
      (Some ''k'') (w', None) = Inr ((w', None), q, True)"
    by simp_all
  with e q(2) show ?thesis by blast
qed

theorem signed_receipts_verify_witness:
  "\<exists>w p v. (receipt_step receipt_env sample_crypto)\<^sup>*\<^sup>* sample_world w \<and> p \<in> set (db_receipts (fst w)) \<and>
     rcpt_signing_status p = SigSigned \<and> verify_receipt receipt_env sample_crypto p None = Inr v \<and>
     rv_stored_digest_valid v \<and> vf_valid (rv_verification v) \<and> vf_trusted (rv_verification v)"
proof -
  obtain w1 w q where st: "receipt_step receipt_env sample_crypto sample_world w1" "receipt_step receipt_env sample_crypto w1 w"
    and q: "db_receipts (fst w) = [q]" "rcpt_signing_status q = SigSigned" "rcpt_assurance_json q = JObj sample_assurance"
    using sample_receipt_run by metis
  from st have run: "(receipt_step receipt_env sample_crypto)\<^sup>*\<^sup>* sample_world w" by (meson r_into_rtranclp rtranclp_trans)
  have "db_receipts (fst sample_world) = []" by (simp add: sample_world_def empty_db_def)
  moreover have "q \<in> set (db_receipts (fst w))" using q by simp
  ultimately have "\<forall>vp trust b. trust_profile receipt_env (trust_profile_name vp sample_assurance) (vp \<noteq> None) = Inr trust \<and>
       profile_trusts_assurance receipt_env sample_crypto trust sample_assurance = Inr b \<longrightarrow>
       (\<exists>v. verify_receipt receipt_env sample_crypto q vp = Inr v \<and> rv_stored_digest_valid v \<and> vf_valid (rv_verification v) \<and>
          vf_signature_valid (rv_verification v) \<and> vf_trusted (rv_verification v) = b)"
    using signed_receipts_verify[OF sample_verifies_own _ run, THEN conjunct2, THEN conjunct2, THEN conjunct2] q(2,3)
    by (fastforce simp: sample_assurance_fields)
  with receipt_env_trust obtain v where "verify_receipt receipt_env sample_crypto q None = Inr v" "rv_stored_digest_valid v" "vf_valid (rv_verification v)"
      "vf_trusted (rv_verification v)"
    by blast
  with run q show ?thesis by (intro exI[of _ w] exI[of _ q] exI[of _ v]) simp
qed

end
