(* ===== verification/AuthzSearch.thy ===== *)
theory AuthzSearch
  imports RuntimeReceipts
begin

text \<open>
  \<open>app/services/authzen_search.py\<close> with its routes in \<open>app/v19.py\<close>: which subjects, resources or
  actions a request permits, page by page. A page scans at most 5000 candidates in the order of their
  keys, evaluates each with the policy decision of \<open>RuntimePolicy\<close>, and ends at its limit; the token
  of the next page carries the offset under an HMAC. The lemmas give the base64 round trip the tokens use,
  what a page contains, and exactly when the token of a page is accepted again. HMAC-SHA256 and the JSON
  parser of the standard library are parameters.
\<close>

section \<open>Tokens as text\<close>

text \<open>\<open>urlsafe_b64encode(...).rstrip("=")\<close>.\<close>

definition url_char :: "char \<Rightarrow> char" where
  "url_char c = (if c = CHR ''+'' then CHR ''-'' else if c = CHR ''/'' then CHR ''_'' else c)"

definition unurl_char :: "char \<Rightarrow> char" where
  "unurl_char c = (if c = CHR ''-'' then CHR ''+'' else if c = CHR ''_'' then CHR ''/'' else c)"

definition rstrip_pad :: "string \<Rightarrow> string" where
  "rstrip_pad s = rev (dropWhile (\<lambda>c. c = CHR ''='') (rev s))"

text \<open>The bytes a started group of two or three sextets ends with.\<close>

definition group_bytes :: "nat list \<Rightarrow> string" where
  "group_bytes q = (case q of
       [x, y] \<Rightarrow> [char_of ((x * 64 + y) div 16)]
     | [x, y, z] \<Rightarrow> (let n = ((x * 64 + y) * 64 + z) div 4 in [char_of (n div 256), char_of (n mod 256)])
     | _ \<Rightarrow> [])"

definition full_group :: "nat list \<Rightarrow> nat \<Rightarrow> string" where
  "full_group q w = (case q of
       [x, y, z] \<Rightarrow> (let n = ((x * 64 + y) * 64 + z) * 64 + w
                    in [char_of (n div 65536), char_of (n div 256 mod 256), char_of (n mod 256)])
     | _ \<Rightarrow> [])"

text \<open>
  \<open>b64decode\<close> without validation, after \<open>binascii.a2b_base64\<close>: \<open>q\<close> holds the sextets of the
  group so far, \<open>pads\<close> the padding seen in it; other characters are skipped.
\<close>

fun b64_lenient :: "nat list \<Rightarrow> nat \<Rightarrow> string \<Rightarrow> string option" where
  "b64_lenient q pads [] = (if q = [] then Some [] else None)"
| "b64_lenient q pads (c # cs) =
     (if c = CHR ''=''
      then if length q \<ge> 2 \<and> length q + Suc pads \<ge> 4 then Some (group_bytes q)
           else b64_lenient q (if length q \<ge> 2 then Suc pads else pads) cs
      else case b64_value c of
        None \<Rightarrow> b64_lenient q pads cs
      | Some x \<Rightarrow>
          if length q = 3 then map_option (\<lambda>r. full_group q x @ r) (b64_lenient [] 0 cs)
          else b64_lenient (q @ [x]) 0 cs)"

definition pad_token :: "string \<Rightarrow> string" where
  "pad_token token = token @ replicate ((4 - length token mod 4) mod 4) (CHR ''='')"

definition url_encode :: "string \<Rightarrow> string" where
  "url_encode s = rstrip_pad (map url_char (b64_encode s))"

definition url_decode :: "string \<Rightarrow> string option" where
  "url_decode token = b64_lenient [] 0 (map unurl_char (pad_token token))"

text \<open>\<open>decoded.rsplit(b".", 1)\<close>, when it has two parts.\<close>

fun rsplit_dot :: "string \<Rightarrow> (string \<times> string) option" where
  "rsplit_dot [] = None"
| "rsplit_dot (c # s) =
     (case rsplit_dot s of
        Some (a, b) \<Rightarrow> Some (c # a, b)
      | None \<Rightarrow> if c = CHR ''.'' then Some ([], s) else None)"

record token_codec =
  tc_hmac_sha256 :: "string \<Rightarrow> string \<Rightarrow> string"
  tc_parse :: "string \<Rightarrow> json option"

definition pagination_secret :: "env \<Rightarrow> string result" where
  "pagination_secret env =
     (let secret = cfg_authzen_pagination_secret (env_settings env) in
      if secret \<noteq> [] then Inr secret
      else if cfg_auth_disabled (env_settings env) then Inr ''opendatagraph-development-pagination-only''
      else Inl (ValueError ''ODG_AUTHZEN_PAGINATION_SECRET is required when authentication is enabled''))"

definition token_payload :: "string \<Rightarrow> string \<Rightarrow> string \<Rightarrow> int \<Rightarrow> json" where
  "token_payload kind tenant_id digest offset = JObj
     [(''kind'', JStr kind), (''tenant_id'', JStr tenant_id), (''request_sha256'', JStr digest), (''offset'', JInt offset)]"

definition make_token :: "env \<Rightarrow> token_codec \<Rightarrow> string \<Rightarrow> string \<Rightarrow> string \<Rightarrow> int \<Rightarrow> string result" where
  "make_token env tc kind tenant_id digest offset =
     (let payload = canonical_json (env_frepr env) (token_payload kind tenant_id digest offset) in
      rbind (pagination_secret env) (\<lambda>secret.
      Inr (url_encode (payload @ ''.'' @ tc_hmac_sha256 tc secret payload))))"

text \<open>Every \<open>ValueError\<close> inside becomes the one message.\<close>

definition decode_token :: "env \<Rightarrow> token_codec \<Rightarrow> string \<Rightarrow> json result" where
  "decode_token env tc token =
     (let invalid = Inl (ValueError ''AuthZEN pagination token is invalid'') in
      case url_decode token of
        None \<Rightarrow> invalid
      | Some decoded \<Rightarrow>
          (case rsplit_dot decoded of
             None \<Rightarrow> invalid
           | Some (payload, signature) \<Rightarrow>
               (case pagination_secret env of
                  Inl e \<Rightarrow> invalid
                | Inr secret \<Rightarrow>
                    if signature \<noteq> tc_hmac_sha256 tc secret payload then invalid
                    else (case tc_parse tc payload of None \<Rightarrow> invalid | Some v \<Rightarrow> Inr v))))"

section \<open>Requests\<close>

datatype search_kind = SubjectSearch | ResourceSearch | ActionSearch

definition kind_str :: "search_kind \<Rightarrow> string" where
  "kind_str k = (case k of SubjectSearch \<Rightarrow> ''subject'' | ResourceSearch \<Rightarrow> ''resource'' | ActionSearch \<Rightarrow> ''action'')"

record search_entity =
  se_type :: string
  se_id :: "string option"
  se_properties :: dict

text \<open>
  The three request classes in one record: the searched entity may lack its id, an action search has no action.
\<close>

record search_request =
  sq_kind :: search_kind
  sq_subject :: search_entity
  sq_resource :: search_entity
  sq_action :: "string \<times> dict"
  sq_context :: dict
  sq_token :: "string option"
  sq_limit :: int

definition search_ok :: "search_request \<Rightarrow> bool" where
  "search_ok q =
     (field_length 1 80 (se_type (sq_subject q)) \<and> field_length 1 80 (se_type (sq_resource q)) \<and>
      opt_field 1 (if sq_kind q = SubjectSearch then 1024 else 320) (se_id (sq_subject q)) \<and>
      opt_field 1 1024 (se_id (sq_resource q)) \<and>
      (sq_kind q \<noteq> SubjectSearch \<longrightarrow> se_id (sq_subject q) \<noteq> None) \<and>
      (sq_kind q \<noteq> ResourceSearch \<longrightarrow> se_id (sq_resource q) \<noteq> None) \<and>
      (sq_kind q \<noteq> ActionSearch \<longrightarrow> field_length 1 160 (fst (sq_action q))) \<and>
      opt_field 1 4096 (sq_token q) \<and> 1 \<le> sq_limit q \<and> sq_limit q \<le> 500)"

definition entity_dump :: "search_entity \<Rightarrow> json" where
  "entity_dump e = JObj [(''type'', JStr (se_type e)), (''id'', jopt JStr (se_id e)), (''properties'', JObj (se_properties e))]"

definition page_limit :: "env \<Rightarrow> int \<Rightarrow> int" where
  "page_limit env requested = min (min requested (max 1 (cfg_authzen_search_max (env_settings env)))) 500"

text \<open>The dumped request without the token, its limit clipped: what a page and the next must share.\<close>

definition search_digest :: "env \<Rightarrow> search_request \<Rightarrow> string" where
  "search_digest env q = sha256_json env (JObj
     ([(''subject'', entity_dump (sq_subject q))] @
      (if sq_kind q = ActionSearch then []
       else [(''action'', JObj [(''name'', JStr (fst (sq_action q))), (''properties'', JObj (snd (sq_action q)))])]) @
      [(''resource'', entity_dump (sq_resource q)), (''context'', JObj (sq_context q)),
       (''page'', JObj [(''limit'', JInt (page_limit env (sq_limit q)))])]))"

definition request_state :: "env \<Rightarrow> token_codec \<Rightarrow> string \<Rightarrow> search_request \<Rightarrow> (int \<times> string) result" where
  "request_state env tc tenant_id q =
     (let digest = search_digest env q in
      if \<not> truthy_opt (sq_token q) then Inr (0, digest)
      else rbind (decode_token env tc (case sq_token q of None \<Rightarrow> [] | Some t \<Rightarrow> t)) (\<lambda>payload.
           rbind (raise_if (\<not> is_jobj payload) (OtherError ''AttributeError'')) (\<lambda>_.
           let p = jobj payload; offset = py_get p ''offset'' in
           rbind (raise_if (py_get p ''kind'' \<noteq> JStr (kind_str (sq_kind q)) \<or> py_get p ''tenant_id'' \<noteq> JStr tenant_id \<or>
                    py_get p ''request_sha256'' \<noteq> JStr digest \<or> \<not> is_jint offset \<or> jint offset < 0)
                    (ValueError ''AuthZEN pagination token does not match the request'')) (\<lambda>_.
           Inr (jint offset, digest)))))"

section \<open>Candidates\<close>

datatype candidate = Entity string string | ActionNamed string

definition candidate_json :: "candidate \<Rightarrow> json" where
  "candidate_json c = (case c of
       Entity ty i \<Rightarrow> JObj [(''type'', JStr ty), (''id'', JStr i)]
     | ActionNamed n \<Rightarrow> JObj [(''name'', JStr n)])"

definition ACTION_CATALOG :: "string list" where
  "ACTION_CATALOG = [''fine-tune'', ''invoke'', ''list'', ''read'', ''retrieve'', ''send'', ''train'']"

definition MAX_SCAN_PER_PAGE :: nat where "MAX_SCAN_PER_PAGE = 5000"

definition window :: "int \<Rightarrow> 'a list \<Rightarrow> 'a list" where
  "window offset xs = take (Suc MAX_SCAN_PER_PAGE) (drop (nat offset) xs)"

definition subject_candidates :: "db \<Rightarrow> string \<Rightarrow> string \<Rightarrow> int \<Rightarrow> candidate list" where
  "subject_candidates db tenant_id ty offset =
     (if is_agent_type ty
      then map (\<lambda>a. Entity ty (agent_key a))
             (window offset (order_by agent_id (where_rows (\<lambda>a. agent_tenant_id a = tenant_id) (db_agents db))))
      else if ty = ''user''
      then map (\<lambda>u. Entity ''user'' (if truthy_opt (scim_user_name u) then the (scim_user_name u) else scim_resource_id u))
             (window offset (order_by scim_id (where_rows (\<lambda>u. scim_tenant_id u = tenant_id \<and>
                scim_resource_type u = ''User'' \<and> scim_active u) (db_scim db))))
      else [])"

definition resource_candidates :: "db \<Rightarrow> string \<Rightarrow> string \<Rightarrow> int \<Rightarrow> candidate list" where
  "resource_candidates db tenant_id ty offset =
     (if is_asset_type ty
      then map (\<lambda>a. Entity ty (if asset_external_id a \<noteq> [] then asset_external_id a else show_nat (asset_id a)))
             (window offset (order_by asset_id (where_rows (\<lambda>a. asset_tenant_id a = tenant_id) (db_assets db))))
      else if ty \<in> set AI_RESOURCE_TYPES
      then map (\<lambda>r. Entity ty (res_resource_key r))
             (window offset (order_by res_id (where_rows (\<lambda>r. res_tenant_id r = tenant_id \<and> res_resource_type r = ty)
                (db_resources db))))
      else [])"

definition candidates :: "db \<Rightarrow> string \<Rightarrow> search_request \<Rightarrow> int \<Rightarrow> candidate list" where
  "candidates db tenant_id q offset = (case sq_kind q of
       SubjectSearch \<Rightarrow> subject_candidates db tenant_id (se_type (sq_subject q)) offset
     | ResourceSearch \<Rightarrow> resource_candidates db tenant_id (se_type (sq_resource q)) offset
     | ActionSearch \<Rightarrow> map ActionNamed (window offset ACTION_CATALOG))"

section \<open>A page\<close>

definition entity_id :: "search_entity \<Rightarrow> string" where
  "entity_id e = (case se_id e of None \<Rightarrow> [] | Some i \<Rightarrow> i)"

text \<open>The evaluation of a candidate: the candidate in the place of what is searched, without properties.\<close>

definition candidate_request :: "search_request \<Rightarrow> candidate \<Rightarrow> authz_request" where
  "candidate_request q c =
     (let r = \<lparr>rq_subject_type = se_type (sq_subject q), rq_subject_id = entity_id (sq_subject q),
               rq_subject_properties = se_properties (sq_subject q), rq_resource_type = se_type (sq_resource q),
               rq_resource_id = entity_id (sq_resource q), rq_resource_properties = se_properties (sq_resource q),
               rq_action_name = fst (sq_action q), rq_action_properties = snd (sq_action q), rq_context = sq_context q\<rparr>
      in case c of
        ActionNamed n \<Rightarrow> r\<lparr>rq_action_name := n, rq_action_properties := []\<rparr>
      | Entity ty i \<Rightarrow>
          if sq_kind q = SubjectSearch
          then r\<lparr>rq_subject_type := ty, rq_subject_id := i, rq_subject_properties := []\<rparr>
          else r\<lparr>rq_resource_type := ty, rq_resource_id := i, rq_resource_properties := []\<rparr>)"

type_synonym search_state = "policy_cache \<times> memo"

definition candidate_permitted ::
  "env \<Rightarrow> db \<Rightarrow> string \<Rightarrow> search_request \<Rightarrow> candidate \<Rightarrow> search_state \<Rightarrow> (bool \<times> search_state) result" where
  "candidate_permitted env db tenant_id q c s =
     (let r = candidate_request q c in
      rbind (raise_if (\<not> request_ok env r) (ValueError ''validation error'')) (\<lambda>_.
      rbind (evaluate_policy_only env db (fst s) (snd s) tenant_id r None None) (\<lambda>(ev, s').
      Inr (ev_decision ev \<noteq> Deny, s'))))"

text \<open>
  The loop of \<open>_page_results\<close>: the candidates kept, how many were consumed, and whether the limit ended it.
\<close>

fun scan :: "(candidate \<Rightarrow> 's \<Rightarrow> (bool \<times> 's) result) \<Rightarrow> int \<Rightarrow> int \<Rightarrow> candidate list \<Rightarrow> 's \<Rightarrow>
    ((candidate list \<times> nat \<times> bool) \<times> 's) result" where
  "scan permitted n found [] s = Inr (([], 0, False), s)"
| "scan permitted n found (c # cs) s =
     rbind (permitted c s) (\<lambda>(ok, s1).
     if ok \<and> found + 1 \<ge> n then Inr (([c], 1, True), s1)
     else rbind (scan permitted n (if ok then found + 1 else found) cs s1) (\<lambda>((kept, consumed, full), s2).
       Inr ((if ok then c # kept else kept, Suc consumed, full), s2)))"

record search_page =
  pg_next_token :: string
  pg_count :: nat
  pg_results :: "candidate list"

definition search ::
  "env \<Rightarrow> token_codec \<Rightarrow> db \<Rightarrow> string \<Rightarrow> search_request \<Rightarrow> policy_cache \<Rightarrow> (policy_cache \<times> search_page) result" where
  "search env tc db tenant_id q cache =
     rbind (request_state env tc tenant_id q) (\<lambda>(offset, digest).
     let cs = candidates db tenant_id q offset in
     rbind (scan (candidate_permitted env db tenant_id q) (page_limit env (sq_limit q)) 0 (take MAX_SCAN_PER_PAGE cs)
              (cache, Some no_lookups)) (\<lambda>((kept, consumed, full), (cache', memo)).
     let exhausted = (length cs \<le> MAX_SCAN_PER_PAGE \<and> \<not> full) in
     rbind (if exhausted then Inr []
            else make_token env tc (kind_str (sq_kind q)) tenant_id digest (offset + int consumed)) (\<lambda>token.
     Inr (cache', \<lparr>pg_next_token = token, pg_count = length kept, pg_results = kept\<rparr>))))"

definition authzen_search ::
  "env \<Rightarrow> token_codec \<Rightarrow> principal \<Rightarrow> search_request \<Rightarrow> db \<Rightarrow> policy_cache \<Rightarrow> (policy_cache \<times> search_page) result" where
  "authzen_search env tc who q db cache =
     rbind (require_role Analyst who) (\<lambda>_.
     rbind (check_body (search_ok q)) (\<lambda>_.
     bad_request (search env tc db (p_tenant_id who) q cache)))"


section \<open>The text of a token\<close>

definition is_b64 :: "char \<Rightarrow> bool" where
  "is_b64 c \<longleftrightarrow> b64_value c \<noteq> None"

lemma is_b64_char: "n < 64 \<Longrightarrow> is_b64 (b64_char n)"
  by (simp add: is_b64_def b64_value_char)

lemma is_b64_url:
  assumes "is_b64 c"
  shows "unurl_char (url_char c) = c" "url_char c \<noteq> CHR ''=''" "CHR ''='' \<noteq> url_char c"
  using assms by (auto simp: is_b64_def url_char_def unurl_char_def b64_value_def)

text \<open>The groups of an encoding: characters of the alphabet, then at most two pads.\<close>

lemma b64_encode_shape:
  "\<exists>body k. b64_encode s = body @ replicate k (CHR ''='') \<and> k < 3 \<and> (length body + k) mod 4 = 0 \<and>
     (\<forall>c \<in> set body. is_b64 c)"
proof (induction s rule: b64_encode.induct)
  case (1 a b c r)
  let ?n = "(of_char a * 256 + of_char b) * 256 + of_char c :: nat"
  from 1[OF refl] obtain body k where ih: "b64_encode r = body @ replicate k (CHR ''='')" "k < 3" "(length body + k) mod 4 = 0"
    "\<forall>c \<in> set body. is_b64 c" by (elim exE conjE)
  have "?n div 262144 < 64" by (rule octets(4)[OF of_char_less of_char_less of_char_less])
  with ih show ?case
    by (intro exI[of _ "b64_char (?n div 262144) # b64_char (?n div 4096 mod 64) # b64_char (?n div 64 mod 64) #
          b64_char (?n mod 64) # body"] exI[of _ k]) (auto simp: Let_def mod_Suc is_b64_char)
next
  case (2 a b)
  let ?n = "(of_char a * 256 + of_char b) * 4 :: nat"
  have "?n < 64 * 4096" by (rule two_octets; rule of_char_less)
  then have "?n div 4096 < 64" by (rule less_mult_imp_div_less)
  then show ?case
    by (intro exI[of _ "[b64_char (?n div 4096), b64_char (?n div 64 mod 64), b64_char (?n mod 64)]"] exI[of _ 1])
       (auto simp: Let_def is_b64_char)
next
  case (3 a)
  let ?n = "of_char a * 16 :: nat"
  have "?n div 64 < 64" by (rule one_octet[OF of_char_less])
  then show ?case
    by (intro exI[of _ "[b64_char (?n div 64), b64_char (?n mod 64)]"] exI[of _ 2])
       (auto simp: Let_def numeral_2_eq_2 is_b64_char)
qed (auto intro: exI[of _ "[]"] exI[of _ 0])

lemma rstrip_pad_replicate: "(\<forall>c \<in> set xs. c \<noteq> CHR ''='') \<Longrightarrow> rstrip_pad (xs @ replicate k (CHR ''='')) = xs"
  by (cases xs rule: rev_cases) (auto simp: rstrip_pad_def dropWhile_append)

lemma pad_restores: "k < 3 \<Longrightarrow> (length xs + k) mod 4 = 0 \<Longrightarrow> (4 - length xs mod 4) mod 4 = k"
proof -
  assume k: "k < 3" and l: "(length xs + k) mod 4 = 0"
  define m where "m = length xs mod 4"
  have "m < 4" "(m + k) mod 4 = 0" using l by (simp_all add: m_def mod_simps)
  then have "m = 0 \<or> m = 1 \<or> m = 2 \<or> m = 3" "k = 0 \<or> k = 1 \<or> k = 2" using k by arith+
  then show "(4 - length xs mod 4) mod 4 = k"
    using \<open>(m + k) mod 4 = 0\<close> unfolding m_def[symmetric] by (elim disjE; hypsubst; simp)
qed

lemma url_token_text: "map unurl_char (pad_token (url_encode s)) = b64_encode s"
proof -
  obtain body k where b: "b64_encode s = body @ replicate k (CHR ''='')" "k < 3" "(length body + k) mod 4 = 0"
    "\<forall>c \<in> set body. is_b64 c"
    using b64_encode_shape[of s] by (elim exE conjE)
  have "url_encode s = map url_char body"
    unfolding url_encode_def b(1) using b(4)
    by (subst map_append, subst map_replicate) (auto simp: url_char_def[of "CHR ''=''"] is_b64_url intro!: rstrip_pad_replicate)
  then have "pad_token (url_encode s) = map url_char body @ replicate k (CHR ''='')"
    using pad_restores[OF b(2,3)] by (simp add: pad_token_def)
  then show ?thesis
    using b(4) unfolding b(1) by (auto simp: unurl_char_def[of "CHR ''=''"] is_b64_url intro: map_idI)
qed

lemma b64_lenient_encode: "b64_lenient [] 0 (b64_encode s) = Some s"
proof (induction s rule: b64_encode.induct)
  case (1 a b c r)
  let ?n = "(of_char a * 256 + of_char b) * 256 + of_char c :: nat"
  have v: "b64_value (b64_char (?n div 262144)) = Some (?n div 262144)"
    "b64_value (b64_char (?n div 4096 mod 64)) = Some (?n div 4096 mod 64)"
    "b64_value (b64_char (?n div 64 mod 64)) = Some (?n div 64 mod 64)"
    "b64_value (b64_char (?n mod 64)) = Some (?n mod 64)"
    and p: "b64_char (?n div 262144) \<noteq> CHR ''=''" "b64_char (?n div 4096 mod 64) \<noteq> CHR ''=''"
      "b64_char (?n div 64 mod 64) \<noteq> CHR ''=''" "b64_char (?n mod 64) \<noteq> CHR ''=''"
    by (intro b64_value_char b64_char_pad octets of_char_less pos_mod_bound; simp)+
  have "full_group [?n div 262144, ?n div 4096 mod 64, ?n div 64 mod 64] (?n mod 64) = [a, b, c]"
    unfolding full_group_def list.case Let_def sextets by (simp only: octets of_char_less) simp
  then show ?case
    unfolding b64_encode.simps Let_def by (simp only: b64_lenient.simps p v if_False option.case append.simps list.size)
      (simp add: 1[OF refl])
next
  case (2 a b)
  let ?n = "(of_char a * 256 + of_char b) * 4 :: nat"
  have "?n < 64 * 4096" by (rule two_octets; rule of_char_less)
  then have "?n div 4096 < 64" by (rule less_mult_imp_div_less)
  then have v: "b64_value (b64_char (?n div 4096)) = Some (?n div 4096)"
    "b64_value (b64_char (?n div 64 mod 64)) = Some (?n div 64 mod 64)"
    "b64_value (b64_char (?n mod 64)) = Some (?n mod 64)"
    and p: "b64_char (?n div 4096) \<noteq> CHR ''=''" "b64_char (?n div 64 mod 64) \<noteq> CHR ''=''" "b64_char (?n mod 64) \<noteq> CHR ''=''"
    by (intro b64_value_char b64_char_pad; simp)+
  have "?n div 4 = of_char a * 256 + of_char b" by simp
  moreover have "(of_char a * 256 + of_char b) div 256 = (of_char a :: nat)" "(of_char a * 256 + of_char b) mod 256 = (of_char b :: nat)"
    by (simp_all add: of_char_less)
  ultimately have "group_bytes [?n div 4096, ?n div 64 mod 64, ?n mod 64] = [a, b]"
    unfolding group_bytes_def list.case Let_def sextets by simp
  then show ?case
    unfolding b64_encode.simps Let_def by (simp only: b64_lenient.simps p v if_False option.case append.simps list.size) simp
next
  case (3 a)
  let ?n = "of_char a * 16 :: nat"
  have "?n div 64 < 64" by (rule one_octet[OF of_char_less])
  then have v: "b64_value (b64_char (?n div 64)) = Some (?n div 64)" "b64_value (b64_char (?n mod 64)) = Some (?n mod 64)"
    and p: "b64_char (?n div 64) \<noteq> CHR ''=''" "b64_char (?n mod 64) \<noteq> CHR ''=''"
    by (intro b64_value_char b64_char_pad; simp)+
  have "group_bytes [?n div 64, ?n mod 64] = [a]"
    unfolding group_bytes_def list.case Let_def sextets by simp
  then show ?case
    unfolding b64_encode.simps Let_def by (simp only: b64_lenient.simps p v if_False option.case append.simps list.size) simp
qed simp

lemma url_roundtrip: "url_decode (url_encode s) = Some s"
  by (simp add: url_decode_def url_token_text b64_lenient_encode)

lemma rsplit_dot_None: "rsplit_dot s = None \<longleftrightarrow> CHR ''.'' \<notin> set s"
  by (induction s) (auto split: option.split)

lemma rsplit_dot_Some: "rsplit_dot s = Some (a, b) \<Longrightarrow> s = a @ CHR ''.'' # b \<and> CHR ''.'' \<notin> set b"
  by (induction s arbitrary: a) (auto split: option.splits if_splits simp: rsplit_dot_None)

lemma rsplit_dot_clean: "CHR ''.'' \<notin> set b \<Longrightarrow> rsplit_dot (a @ CHR ''.'' # b) = Some (a, b)"
proof -
  assume "CHR ''.'' \<notin> set b"
  then have "rsplit_dot b = None" by (simp add: rsplit_dot_None)
  then show "rsplit_dot (a @ CHR ''.'' # b) = Some (a, b)" by (induction a) simp_all
qed

lemma rsplit_dot_shorter:
  assumes "CHR ''.'' \<in> set b" and "rsplit_dot (a @ CHR ''.'' # b) = Some (x, y)"
  shows "length y < length b"
proof -
  from rsplit_dot_Some[OF assms(2)] have eq: "a @ CHR ''.'' # b = x @ CHR ''.'' # y" and n: "CHR ''.'' \<notin> set y" by simp_all
  show ?thesis
  proof (rule ccontr)
    assume "\<not> ?thesis"
    then have "length x \<le> length a" using arg_cong[OF eq, of length] by simp
    from eq have "\<exists>us. a @ us = x \<and> us @ CHR ''.'' # y = CHR ''.'' # b \<or> a = x @ us \<and> CHR ''.'' # y = us @ CHR ''.'' # b"
      unfolding append_eq_append_conv2 by metis
    with \<open>length x \<le> length a\<close> n assms(1) show False by (auto simp: Cons_eq_append_conv)
  qed
qed


section \<open>When a token is accepted\<close>

lemma url_encode_nonempty: "s \<noteq> [] \<Longrightarrow> url_encode s \<noteq> []"
proof
  assume "s \<noteq> []" "url_encode s = []"
  moreover have "url_decode [] = Some []" by (simp add: url_decode_def pad_token_def)
  ultimately show False using url_roundtrip[of s] by simp
qed

text \<open>
  The token of a page is accepted for the next page of the same request and tenant exactly when the HMAC under
  its payload has no byte 0x2E: the decoder splits payload and signature at the last dot of the bytes, and a
  dot inside the signature makes the token invalid.
\<close>

theorem page_token_accepted:
  assumes "make_token env tc (kind_str (sq_kind q)) tenant_id (search_digest env q) offset = Inr token"
    and "0 \<le> offset" and "\<And>k m. length (tc_hmac_sha256 tc k m) = 32"
    and "pagination_secret env = Inr secret"
    and "payload = canonical_json (env_frepr env) (token_payload (kind_str (sq_kind q)) tenant_id (search_digest env q) offset)"
    and "tc_parse tc payload = Some (sort_keys (token_payload (kind_str (sq_kind q)) tenant_id (search_digest env q) offset))"
  shows "request_state env tc tenant_id (q\<lparr>sq_token := Some token\<rparr>) =
    (if CHR ''.'' \<in> set (tc_hmac_sha256 tc secret payload)
     then Inl (ValueError ''AuthZEN pagination token is invalid'')
     else Inr (offset, search_digest env q))"
proof -
  let ?h = "tc_hmac_sha256 tc secret payload"
  have token: "token = url_encode (payload @ CHR ''.'' # ?h)"
    using assms(1,4) by (simp add: make_token_def Let_def assms(5))
  then have ne: "token \<noteq> []" by (simp add: url_encode_nonempty)
  have dec: "url_decode token = Some (payload @ CHR ''.'' # ?h)" by (simp only: token url_roundtrip)
  have dig: "search_digest env (q\<lparr>sq_token := Some token\<rparr>) = search_digest env q" by (simp add: search_digest_def)
  show ?thesis
  proof (cases "CHR ''.'' \<in> set ?h")
    case False
    then have "decode_token env tc token = Inr (sort_keys (token_payload (kind_str (sq_kind q)) tenant_id (search_digest env q) offset))"
      by (simp add: decode_token_def dec rsplit_dot_clean assms(4,6))
    then show ?thesis
      using False assms(2) ne
      by (simp add: request_state_def dig truthy_opt_def token_payload_def py_get_def dict_get_def)
  next
    case True
    have "rsplit_dot (payload @ CHR ''.'' # ?h) \<noteq> None" by (simp add: rsplit_dot_None)
    then obtain a b where ab: "rsplit_dot (payload @ CHR ''.'' # ?h) = Some (a, b)" by auto
    have "length b \<noteq> 32" using rsplit_dot_shorter[OF True ab] assms(3)[of secret payload] by simp
    then have "b \<noteq> tc_hmac_sha256 tc secret a" using assms(3)[of secret a] by auto
    then have "decode_token env tc token = Inl (ValueError ''AuthZEN pagination token is invalid'')"
      by (simp add: decode_token_def dec ab assms(4))
    then show ?thesis using True ne by (simp add: request_state_def dig truthy_opt_def)
  qed
qed

section \<open>What a page contains\<close>

lemma scan_chain:
  assumes "scan f n found cs s = Inr ((kept, consumed, full), s')"
  shows "consumed \<le> length cs \<and> (cs \<noteq> [] \<longrightarrow> consumed \<noteq> 0) \<and> (\<not> full \<longrightarrow> consumed = length cs) \<and>
    (found < n \<longrightarrow> found + int (length kept) \<le> n \<and> (full \<longrightarrow> found + int (length kept) = n)) \<and>
    (\<exists>oks states. length oks = consumed \<and> length states = Suc consumed \<and> hd states = s \<and> last states = s' \<and>
       kept = map fst (filter snd (zip (take consumed cs) oks)) \<and>
       (\<forall>j < consumed. f (cs ! j) (states ! j) = Inr (oks ! j, states ! Suc j)))"
  using assms
proof (induction cs arbitrary: s found kept consumed full)
  case Nil
  then show ?case by (auto intro: exI[of _ "[s]"])
next
  case (Cons c cs)
  from Cons.prems obtain ok s1 where c: "f c s = Inr (ok, s1)"
    and rest: "(if ok \<and> found + 1 \<ge> n then Inr (([c], 1, True), s1)
     else rbind (scan f n (if ok then found + 1 else found) cs s1) (\<lambda>((kept, consumed, full), s2).
       Inr ((if ok then c # kept else kept, Suc consumed, full), s2))) = Inr ((kept, consumed, full), s')"
    by (auto elim!: rbindE)
  show ?case
  proof (cases "ok \<and> found + 1 \<ge> n")
    case True
    with rest c show ?thesis by (auto intro!: exI[of _ "[True]"] exI[of _ "[s, s1]"])
  next
    case False
    with rest obtain kept1 consumed1 where r: "scan f n (if ok then found + 1 else found) cs s1 = Inr ((kept1, consumed1, full), s')"
      and eq: "kept = (if ok then c # kept1 else kept1)" "consumed = Suc consumed1"
      by (auto elim!: rbindE)
    note ih = Cons.IH[OF r]
    from ih obtain oks states where st: "length oks = consumed1" "length states = Suc consumed1" "hd states = s1"
      "last states = s'" "kept1 = map fst (filter snd (zip (take consumed1 cs) oks))"
      and step: "\<And>j. j < consumed1 \<Longrightarrow> f (cs ! j) (states ! j) = Inr (oks ! j, states ! Suc j)"
      by blast
    have ne: "states \<noteq> []" "states ! 0 = s1" using st(2,3) by (cases states; auto)+
    have "f ((c # cs) ! j) ((s # states) ! j) = Inr ((ok # oks) ! j, (s # states) ! Suc j)" if "j < consumed" for j
      using that c ne step[of "j - 1"] eq by (cases j) auto
    moreover have "kept = map fst (filter snd (zip (take consumed (c # cs)) (ok # oks)))"
      by (simp add: eq st(5))
    ultimately have "\<exists>oks states. length oks = consumed \<and> length states = Suc consumed \<and> hd states = s \<and> last states = s' \<and>
       kept = map fst (filter snd (zip (take consumed (c # cs)) oks)) \<and>
       (\<forall>j < consumed. f ((c # cs) ! j) (states ! j) = Inr (oks ! j, states ! Suc j))"
      using st ne eq by (intro exI[of _ "ok # oks"] exI[of _ "s # states"]) auto
    with ih False eq show ?thesis by (cases ok) auto
  qed
qed

text \<open>
  C38: a page answers its candidates in key order from its offset: it holds exactly those whose own evaluation is not a
  denial, at most as many as the clipped limit; the token it gives names the first candidate it has not
  examined, and it gives none only when no candidate is left: no permitted entity is skipped between pages.
\<close>

theorem search_page_exact:
  assumes "search env tc db tenant_id q cache = Inr (cache', page)"
  shows "\<exists>offset digest cs consumed oks states.
    request_state env tc tenant_id q = Inr (offset, digest) \<and> cs = candidates db tenant_id q offset \<and>
    consumed \<le> length cs \<and> consumed \<le> 5000 \<and> length oks = consumed \<and>
    pg_results page = map fst (filter snd (zip (take consumed cs) oks)) \<and>
    (\<forall>j < consumed. candidate_permitted env db tenant_id q (cs ! j) (states ! j) = Inr (oks ! j, states ! Suc j)) \<and>
    states ! 0 = (cache, Some no_lookups) \<and>
    pg_count page = length (pg_results page) \<and> (1 \<le> sq_limit q \<longrightarrow> int (pg_count page) \<le> page_limit env (sq_limit q)) \<and>
    (if pg_next_token page = [] then consumed = length cs
     else 0 < consumed \<and> make_token env tc (kind_str (sq_kind q)) tenant_id digest (offset + int consumed) = Inr (pg_next_token page))"
proof -
  from assms obtain offset digest where rs: "request_state env tc tenant_id q = Inr (offset, digest)"
    using assms unfolding search_def by (elim rbindE) (metis surj_pair)
  define cs0 where "cs0 = candidates db tenant_id q offset"
  note search' = assms[unfolded search_def rs rbind_simps prod.case Let_def cs0_def[symmetric]]
  obtain x where "scan (candidate_permitted env db tenant_id q) (page_limit env (sq_limit q)) 0 (take MAX_SCAN_PER_PAGE cs0)
        (cache, Some no_lookups) = Inr x"
    using search' by (rule rbindE)
  moreover obtain kept consumed full pc memo where "x = ((kept, consumed, full), (pc, memo))" by (cases x) auto
  ultimately have sc0: "scan (candidate_permitted env db tenant_id q) (page_limit env (sq_limit q)) 0 (take MAX_SCAN_PER_PAGE cs0)
        (cache, Some no_lookups) = Inr ((kept, consumed, full), (pc, memo))" by simp
  from search'[unfolded sc0 rbind_simps prod.case] obtain token where
    tok: "(if length cs0 \<le> MAX_SCAN_PER_PAGE \<and> \<not> full then Inr []
            else make_token env tc (kind_str (sq_kind q)) tenant_id digest (offset + int consumed)) = Inr token"
    and page: "page = \<lparr>pg_next_token = token, pg_count = length kept, pg_results = kept\<rparr>"
    by (rule rbindE) (simp add: eq_commute[of _ page])
  note sc = sc0[unfolded cs0_def] and tok = tok[unfolded cs0_def]
  let ?cs = "candidates db tenant_id q offset"
  note chain = scan_chain[OF sc]
  then obtain oks states where st: "length oks = consumed" "length states = Suc consumed" "hd states = (cache, Some no_lookups)"
    "kept = map fst (filter snd (zip (take consumed (take MAX_SCAN_PER_PAGE ?cs)) oks))"
    and step: "\<And>j. j < consumed \<Longrightarrow> candidate_permitted env db tenant_id q (take MAX_SCAN_PER_PAGE ?cs ! j) (states ! j) = Inr (oks ! j, states ! Suc j)"
    by (elim conjE exE) (rule that; assumption?; simp)
  have b: "consumed \<le> length ?cs" "consumed \<le> 5000" using chain by (auto simp: MAX_SCAN_PER_PAGE_def)
  then have tk: "take consumed (take MAX_SCAN_PER_PAGE ?cs) = take consumed ?cs" by (simp add: MAX_SCAN_PER_PAGE_def min_def)
  have step': "candidate_permitted env db tenant_id q (?cs ! j) (states ! j) = Inr (oks ! j, states ! Suc j)" if "j < consumed" for j
    using step that b(2) by (simp add: MAX_SCAN_PER_PAGE_def)
  have s0: "states ! 0 = (cache, Some no_lookups)" using st(2,3) by (cases states) auto
  have lim: "int (length kept) \<le> page_limit env (sq_limit q)" if "1 \<le> sq_limit q"
    using chain that by (auto simp: page_limit_def)
  have mt: "make_token env tc k t d off = Inr x \<Longrightarrow> x \<noteq> []" for k t d off x
    by (auto simp: make_token_def Let_def url_encode_nonempty elim!: rbindE)
  have fin: "if token = [] then consumed = length ?cs
     else 0 < consumed \<and> make_token env tc (kind_str (sq_kind q)) tenant_id digest (offset + int consumed) = Inr token"
  proof (cases "length ?cs \<le> MAX_SCAN_PER_PAGE \<and> \<not> full")
    case True
    with tok chain show ?thesis by auto
  next
    case False
    with tok have m: "make_token env tc (kind_str (sq_kind q)) tenant_id digest (offset + int consumed) = Inr token" by simp
    have "full \<Longrightarrow> ?cs \<noteq> []" using sc by (cases "?cs") (auto simp: MAX_SCAN_PER_PAGE_def)
    with False have "take MAX_SCAN_PER_PAGE ?cs \<noteq> []" by (auto simp: MAX_SCAN_PER_PAGE_def)
    with chain have "consumed \<noteq> 0" by blast
    with m mt[OF m] show ?thesis by simp
  qed
  show ?thesis
    by (rule exI[of _ offset], rule exI[of _ digest], rule exI[of _ "?cs"], rule exI[of _ consumed], rule exI[of _ oks],
        rule exI[of _ states])
       (use rs b st(1,4)[unfolded tk] step' s0 lim fin in \<open>simp add: page\<close>)
qed

text \<open>A search for the agents that may read a report, and a token under two HMACs.\<close>

definition sample_search :: search_request where
  "sample_search =
     \<lparr>sq_kind = SubjectSearch, sq_subject = \<lparr>se_type = ''agent'', se_id = None, se_properties = []\<rparr>,
      sq_resource = \<lparr>se_type = ''report'', se_id = Some ''1'', se_properties = []\<rparr>, sq_action = (''read'', []),
      sq_context = [], sq_token = None, sq_limit = 10\<rparr>"

definition sample_codec :: "char \<Rightarrow> token_codec" where
  "sample_codec c = \<lparr>tc_hmac_sha256 = (\<lambda>k m. replicate 32 c),
     tc_parse = (\<lambda>s. Some (sort_keys (token_payload ''subject'' ''t'' (search_digest base_env sample_search) 5)))\<rparr>"

theorem page_token_accepted_witness:
  "\<exists>good bad. request_state base_env (sample_codec (CHR ''h'')) ''t'' (sample_search\<lparr>sq_token := Some good\<rparr>) =
       Inr (5, search_digest base_env sample_search) \<and>
     request_state base_env (sample_codec (CHR ''.'')) ''t'' (sample_search\<lparr>sq_token := Some bad\<rparr>) =
       Inl (ValueError ''AuthZEN pagination token is invalid'')"
proof -
  have kind: "kind_str (sq_kind sample_search) = ''subject''" by (simp add: sample_search_def kind_str_def)
  have secret: "pagination_secret base_env = Inr ''opendatagraph-development-pagination-only''"
    by (simp add: pagination_secret_def base_env_def default_settings_def)
  have token: "\<exists>token. make_token base_env (sample_codec c) (kind_str (sq_kind sample_search)) ''t''
      (search_digest base_env sample_search) 5 = Inr token" for c
    by (simp add: make_token_def secret Let_def)
  have accepted: "\<exists>token. request_state base_env (sample_codec c) ''t'' (sample_search\<lparr>sq_token := Some token\<rparr>) =
      (if CHR ''.'' = c then Inl (ValueError ''AuthZEN pagination token is invalid'')
       else Inr (5, search_digest base_env sample_search))" for c
  proof -
    from token[of c] obtain t where m: "make_token base_env (sample_codec c) (kind_str (sq_kind sample_search)) ''t''
      (search_digest base_env sample_search) 5 = Inr t" ..
    have hm: "tc_hmac_sha256 (sample_codec c) k x = replicate 32 c" for k x by (simp only: sample_codec_def token_codec.simps)
    have parse: "tc_parse (sample_codec c) x = Some (sort_keys (token_payload (kind_str (sq_kind sample_search)) ''t''
        (search_digest base_env sample_search) 5))" for x by (simp only: sample_codec_def token_codec.simps kind)
    have "request_state base_env (sample_codec c) ''t'' (sample_search\<lparr>sq_token := Some t\<rparr>) =
      (if CHR ''.'' \<in> set (replicate 32 c) then Inl (ValueError ''AuthZEN pagination token is invalid'')
       else Inr (5, search_digest base_env sample_search))"
      by (rule page_token_accepted[OF m _ _ secret refl parse, unfolded hm]) simp_all
    then show ?thesis by (intro exI[of _ t]) (simp only: set_replicate set_replicate_conv_if, simp)
  qed
  show ?thesis using accepted[of "CHR ''h''"] accepted[of "CHR ''.''"] by auto
qed

lemma sample_search_page:
  "ok_with (\<lambda>(c, page). pg_results page = [Entity ''agent'' ''finance-forecast-agent''] \<and> pg_next_token page = [])
    (search sample_env (sample_codec (CHR ''h'')) (empty_db\<lparr>db_agents := [finance_agent]\<rparr>) ''default'' sample_search Map.empty)"
  by code_simp

theorem search_page_exact_witness:
  "\<exists>s oks s'. candidate_permitted sample_env (empty_db\<lparr>db_agents := [finance_agent]\<rparr>) ''default'' sample_search
     (Entity ''agent'' ''finance-forecast-agent'') s = Inr (oks, s')"
proof -
  let ?db = "empty_db\<lparr>db_agents := [finance_agent]\<rparr>"
  obtain c page where p: "search sample_env (sample_codec (CHR ''h'')) ?db ''default'' sample_search Map.empty = Inr (c, page)"
    "pg_results page = [Entity ''agent'' ''finance-forecast-agent'']" "pg_next_token page = []"
    using sample_search_page by (auto elim!: ok_withE)
  from search_page_exact[OF p(1)] obtain offset cs consumed oks states where
    e: "cs = candidates ?db ''default'' sample_search offset" "pg_results page = map fst (filter snd (zip (take consumed cs) oks))"
      "\<forall>j < consumed. candidate_permitted sample_env ?db ''default'' sample_search (cs ! j) (states ! j) = Inr (oks ! j, states ! Suc j)"
      "consumed \<le> length cs"
    by auto
  have "set (map fst (filter snd (zip xs ys))) \<subseteq> set xs" for xs :: "candidate list" and ys
    by (auto dest: set_zip_leftD)
  then have "set (pg_results page) \<subseteq> set (take consumed cs)" unfolding e(2) .
  then have "Entity ''agent'' ''finance-forecast-agent'' \<in> set (take consumed cs)" unfolding p(2) by simp
  then obtain j where "j < consumed" "cs ! j = Entity ''agent'' ''finance-forecast-agent''"
    by (auto simp: in_set_conv_nth)
  with e(3) show ?thesis by metis
qed

end
