(* ===== verification/Enforcement.thy ===== *)
theory Enforcement
  imports RuntimeReceipts
begin

text \<open>
  The evidence of enforcement: \<open>app/services/enforcement.py\<close> with its routes in \<open>app/v19.py\<close>, and the Python
  enforcement point of \<open>src/sdks/python/opendatagraph_enforcement/client.py\<close> that reports to it. The
  client's handlers, operation and HTTP transport are functions on a world of any type; the theorems instantiate it
  with a log, and with the service's own database. An obligation's identifier is a string, as the receipts
  write it. Prometheus counters and the client's timeout are left out.
\<close>

section \<open>The request\<close>

record enforcement_create =
  ee_event_id :: "string option"
  ee_receipt_id :: string
  ee_pep_id :: string
  ee_outcome :: enforcement_outcome
  ee_satisfied :: "string list"
  ee_failure_reason :: "string option"
  ee_metadata :: json
  ee_occurred_at :: datetime

definition enforcement_create_ok :: "enforcement_create \<Rightarrow> bool" where
  "enforcement_create_ok v =
     ((case ee_event_id v of None \<Rightarrow> True | Some i \<Rightarrow> field_length 3 36 i \<and> list_all name_char i) \<and>
      field_length 1 36 (ee_receipt_id v) \<and> field_length 1 320 (ee_pep_id v) \<and> length (ee_satisfied v) \<le> 100 \<and>
      opt_field 0 2000 (ee_failure_reason v) \<and> is_jobj (ee_metadata v))"

definition outcome_str :: "enforcement_outcome \<Rightarrow> string" where
  "outcome_str x = (case x of Applied \<Rightarrow> ''applied'' | Rejected \<Rightarrow> ''rejected'' | Failed \<Rightarrow> ''failed'')"

text \<open>\<open>isoformat()\<close> of a time that may carry an offset.\<close>

definition two_digits :: "int \<Rightarrow> string" where
  "two_digits n = (if n < 10 then CHR ''0'' # show_int n else show_int n)"

definition offset_text :: "time option \<Rightarrow> string" where
  "offset_text offset =
     (case offset of None \<Rightarrow> []
      | Some x \<Rightarrow>
          let s = \<bar>x\<bar> div 1000000 in
          (if x < 0 then ''-'' else ''+'') @ two_digits (s div 3600) @ '':'' @ two_digits (s div 60 mod 60) @
          (if s mod 60 = 0 then [] else '':'' @ two_digits (s mod 60)))"

definition datetime_isoformat :: "env \<Rightarrow> datetime \<Rightarrow> string" where
  "datetime_isoformat env d = env_isoformat env (dt_wall d) @ offset_text (dt_offset d)"

section \<open>The metadata\<close>

text \<open>\<open>inspect\<close> inside \<open>_metadata_digest\<close>; a document has no value of another type.\<close>

fun inspect_metadata :: "json \<Rightarrow> unit result" where
  "inspect_metadata (JObj d) =
     rforall (\<lambda>(k, v).
       rbind (raise_if (forbidden_key k) (ValueError ''Enforcement metadata contains a forbidden field'')) (\<lambda>_.
       inspect_metadata v)) d"
| "inspect_metadata (JList xs) =
     rbind (raise_if (length xs > 1000) (ValueError ''Enforcement metadata list exceeds 1000 items'')) (\<lambda>_.
     rforall inspect_metadata xs)"
| "inspect_metadata (JStr s) =
     raise_if (length s > 4000) (ValueError ''Enforcement metadata string exceeds 4000 characters'')"
| "inspect_metadata _ = Inr ()"

definition metadata_digest :: "env \<Rightarrow> json \<Rightarrow> string result" where
  "metadata_digest env metadata =
     rbind (raise_if (\<not> is_jobj metadata) (ValueError ''Enforcement metadata must be an object'')) (\<lambda>_.
     rbind (inspect_metadata metadata) (\<lambda>_.
     rbind (raise_if (length (canonical_json (env_frepr env) metadata) > 64 * 1024)
              (ValueError ''Enforcement metadata exceeds 64 KiB'')) (\<lambda>_.
     Inr (sha256_json env metadata))))"

section \<open>Recording\<close>

definition required_obligations :: "runtime_decision_receipt \<Rightarrow> string list" where
  "required_obligations p =
     sorted_set (map (\<lambda>ob. jstr (py_get (jobj ob) ''id''))
       (filter (\<lambda>ob. py_truthy (py_get (jobj ob) ''required'') \<and> py_truthy (py_get (jobj ob) ''id''))
          (jlist (rcpt_obligations_json p))))"

definition find_enforcement :: "db \<Rightarrow> string \<Rightarrow> string \<Rightarrow> enforcement_event option" where
  "find_enforcement db tenant_id event_id =
     scalar (\<lambda>e. enf_tenant_id e = tenant_id \<and> enf_event_id e = event_id) (db_enforcement db)"

text \<open>The checks made against the receipt, before anything is written.\<close>

definition enforcement_checks :: "runtime_decision_receipt \<Rightarrow> enforcement_create \<Rightarrow> unit result" where
  "enforcement_checks p v =
     (let required = required_obligations p; satisfied = sorted_set (ee_satisfied v);
          missing = sorted_set (filter (\<lambda>i. i \<notin> set satisfied) required) in
      rbind (raise_if (\<not> set satisfied \<subseteq> set required) (ValueError ''Satisfied obligations must be present in the receipt'')) (\<lambda>_.
      rbind (raise_if (ee_outcome v = Applied \<and> (\<not> rcpt_decision p \<or> missing \<noteq> []))
               (ValueError ''Applied enforcement requires a permitted receipt and every obligation'')) (\<lambda>_.
      raise_if (ee_outcome v \<in> {Rejected, Failed} \<and> \<not> truthy_opt (ee_failure_reason v))
        (ValueError ''Rejected or failed enforcement requires a reason''))))"

definition same_evidence :: "enforcement_event \<Rightarrow> runtime_decision_receipt \<Rightarrow> enforcement_create \<Rightarrow> string \<Rightarrow> bool" where
  "same_evidence e p v digest =
     (enf_receipt_id e = rcpt_receipt_id p \<and> enf_pep_id e = ee_pep_id v \<and> enf_outcome e = ee_outcome v \<and>
      enf_satisfied_obligations_json e = strings_json (sorted_set (ee_satisfied v)) \<and> enf_metadata_sha256 e = digest)"

definition new_enforcement ::
  "env \<Rightarrow> db \<Rightarrow> string \<Rightarrow> string \<Rightarrow> runtime_decision_receipt \<Rightarrow> enforcement_create \<Rightarrow> string \<Rightarrow> string \<Rightarrow> enforcement_event" where
  "new_enforcement env db tenant_id event_id p v digest recorded_by =
     \<lparr>enf_id = next_id enf_id (db_enforcement db), enf_tenant_id = tenant_id, enf_event_id = event_id,
      enf_receipt_id = rcpt_receipt_id p, enf_pep_id = ee_pep_id v, enf_outcome = ee_outcome v,
      enf_required_obligations_json = strings_json (required_obligations p),
      enf_satisfied_obligations_json = strings_json (sorted_set (ee_satisfied v)),
      enf_failure_reason = ee_failure_reason v, enf_metadata_sha256 = digest,
      enf_occurred_at = drop_tzinfo (ee_occurred_at v), enf_recorded_by = recorded_by, enf_created_at = env_now env\<rparr>"

definition enforcement_payload :: "env \<Rightarrow> string \<Rightarrow> runtime_decision_receipt \<Rightarrow> enforcement_create \<Rightarrow> json" where
  "enforcement_payload env event_id p v = JObj
     [(''event_id'', JStr event_id), (''receipt_id'', JStr (rcpt_receipt_id p)), (''pep_id'', JStr (ee_pep_id v)),
      (''outcome'', JStr (outcome_str (ee_outcome v))),
      (''required_obligations'', strings_json (required_obligations p)),
      (''satisfied_obligations'', strings_json (sorted_set (ee_satisfied v))),
      (''occurred_at'', JStr (datetime_isoformat env (ee_occurred_at v)))]"

text \<open>The identifiers drawn are the event's, if the request names none, and the outbox event's.\<close>

definition record_enforcement_event ::
  "env \<Rightarrow> string \<times> string \<Rightarrow> string \<Rightarrow> enforcement_create \<Rightarrow> string \<Rightarrow> db \<Rightarrow> (db \<times> enforcement_event \<times> bool) result" where
  "record_enforcement_event env uuid tenant_id v recorded_by db =
     (let event_id = (case ee_event_id v of Some i \<Rightarrow> if i = [] then fst uuid else i | None \<Rightarrow> fst uuid);
          existing = find_enforcement db tenant_id event_id in
      case find_receipt db tenant_id (ee_receipt_id v) of
        None \<Rightarrow> Inl (ValueError ''Runtime decision receipt not found'')
      | Some p \<Rightarrow>
          rbind (enforcement_checks p v) (\<lambda>_.
          rbind (metadata_digest env (ee_metadata v)) (\<lambda>digest.
          case existing of
            Some e \<Rightarrow>
              if \<not> same_evidence e p v digest
              then Inl (EnforcementConflict ''Enforcement event id was already used for different evidence'')
              else Inr (db, e, True)
          | None \<Rightarrow>
              let e = new_enforcement env db tenant_id event_id p v digest recorded_by in
              rbind (queue_outbox_event env (snd uuid) (db\<lparr>db_enforcement := db_enforcement db @ [e]\<rparr>) tenant_id
                       ''runtime-receipt'' (rcpt_receipt_id p) ''runtime.enforcement'' (enforcement_payload env event_id p v)
                       (Some (''enforcement:'' @ event_id))) (\<lambda>(db', out).
              Inr (db', e, False)))))"

definition enforcement_response :: "env \<Rightarrow> enforcement_event \<Rightarrow> dict" where
  "enforcement_response env e =
     [(''event_id'', JStr (enf_event_id e)), (''receipt_id'', JStr (enf_receipt_id e)), (''pep_id'', JStr (enf_pep_id e)),
      (''outcome'', JStr (outcome_str (enf_outcome e))), (''required_obligations'', enf_required_obligations_json e),
      (''satisfied_obligations'', enf_satisfied_obligations_json e), (''failure_reason'', jopt JStr (enf_failure_reason e)),
      (''metadata_sha256'', JStr (enf_metadata_sha256 e)), (''occurred_at'', jtime env (enf_occurred_at e)),
      (''recorded_by'', JStr (enf_recorded_by e)), (''created_at'', jtime env (enf_created_at e))]"

section \<open>Routes\<close>

definition enforcement_errors :: "'a result \<Rightarrow> 'a result" where
  "enforcement_errors r = (case r of
       Inl (EnforcementConflict m) \<Rightarrow> Inl (HTTPException 409 m)
     | Inl (ValueError m) \<Rightarrow> Inl (HTTPException 400 m) | _ \<Rightarrow> r)"

definition create_enforcement_event ::
  "env \<Rightarrow> string \<times> string \<Rightarrow> principal \<Rightarrow> enforcement_create \<Rightarrow> db \<Rightarrow> (db \<times> dict) result" where
  "create_enforcement_event env uuid who v db =
     rbind (require_role Analyst who) (\<lambda>_.
     rbind (check_body (enforcement_create_ok v)) (\<lambda>_.
     rbind (enforcement_errors (record_enforcement_event env uuid (p_tenant_id who) v (p_subject who) db)) (\<lambda>(db', e, idempotent).
     Inr (db', (''idempotent'', JBool idempotent) # enforcement_response env e))))"

definition list_enforcement_events ::
  "env \<Rightarrow> principal \<Rightarrow> string option \<Rightarrow> enforcement_outcome option \<Rightarrow> nat \<Rightarrow> db \<Rightarrow> dict list result" where
  "list_enforcement_events env who receipt_id outcome n db =
     rbind (require_role Auditor who) (\<lambda>_.
     rbind (check_body (opt_field 0 36 receipt_id \<and> 1 \<le> n \<and> n \<le> 1000)) (\<lambda>_.
     Inr (map (enforcement_response env) (take n (order_by_desc enf_occurred_at (where_rows (\<lambda>e.
       enf_tenant_id e = p_tenant_id who \<and> (truthy_opt receipt_id \<longrightarrow> Some (enf_receipt_id e) = receipt_id) \<and>
       matches_option outcome (enf_outcome e)) (db_enforcement db)))))))"


section \<open>What recording does\<close>

lemma strings_json_inject [simp]: "strings_json a = strings_json b \<longleftrightarrow> a = b"
  by (auto simp: strings_json_def inj_map_eq_map inj_def)

lemma record_enforcement_Inr:
  assumes "record_enforcement_event env uuid t v who db = Inr (db', e, again)"
  obtains (Again) p digest where "again" "db' = db" "find_enforcement db t (enf_event_id e) = Some e"
      "find_receipt db t (ee_receipt_id v) = Some p" "enforcement_checks p v = Inr ()" "same_evidence e p v digest"
    | (New) event_id p digest where "\<not> again" "find_enforcement db t event_id = None"
      "find_receipt db t (ee_receipt_id v) = Some p" "enforcement_checks p v = Inr ()"
      "e = new_enforcement env db t event_id p v digest who"
      "db_enforcement db' = db_enforcement db @ [e]" "db_receipts db' = db_receipts db"
proof -
  obtain event_id where i: "event_id = (case ee_event_id v of Some i \<Rightarrow> if i = [] then fst uuid else i | None \<Rightarrow> fst uuid)" by simp
  from assms obtain p where p: "find_receipt db t (ee_receipt_id v) = Some p"
    by (auto simp: record_enforcement_event_def Let_def split: option.splits)
  with assms obtain digest where c: "enforcement_checks p v = Inr ()" and d: "metadata_digest env (ee_metadata v) = Inr digest"
    by (auto simp: record_enforcement_event_def Let_def elim!: rbindE)
  show thesis
  proof (cases "find_enforcement db t event_id")
    case (Some f)
    then have f: "find_enforcement db t (enf_event_id f) = Some f"
      using scalar_Some[OF Some[unfolded find_enforcement_def]] by simp
    from assms p c d Some f show thesis
      by (intro Again) (auto simp: record_enforcement_event_def Let_def i[symmetric] split: if_splits)
  next
    case None
    from assms p c d None obtain out where
      e: "e = new_enforcement env db t event_id p v digest who" "\<not> again" and
      q: "queue_outbox_event env (snd uuid) (db\<lparr>db_enforcement := db_enforcement db @ [e]\<rparr>) t ''runtime-receipt''
        (rcpt_receipt_id p) ''runtime.enforcement'' (enforcement_payload env event_id p v) (Some (''enforcement:'' @ event_id)) = Inr (db', out)"
      by (auto simp: record_enforcement_event_def Let_def i[symmetric] elim!: rbindE)
    from queue_outbox_Inr[OF q] e p c None show thesis
      by (intro New) auto
  qed
qed

text \<open>A repetition of a report, while its receipt is kept, changes nothing and returns the recorded event.\<close>

lemma record_enforcement_again:
  assumes "find_enforcement db t i = Some e" and "ee_event_id v = Some i" and "i \<noteq> []"
    and "find_receipt db t (ee_receipt_id v) = Some p" and "enforcement_checks p v = Inr ()"
    and "metadata_digest env (ee_metadata v) = Inr digest"
  shows "record_enforcement_event env uuid t v who db =
    (if same_evidence e p v digest then Inr (db, e, True)
     else Inl (EnforcementConflict ''Enforcement event id was already used for different evidence''))"
  using assms by (simp add: record_enforcement_event_def)

lemma sorted_set_Nil [simp]: "sorted_set xs = [] \<longleftrightarrow> xs = []"
  by (metis set_empty set_sorted_set)

lemma enforcement_checks_Inr:
  "enforcement_checks p v = Inr () \<longleftrightarrow>
     set (ee_satisfied v) \<subseteq> set (required_obligations p) \<and>
     (ee_outcome v = Applied \<longrightarrow> rcpt_decision p \<and> set (required_obligations p) \<subseteq> set (ee_satisfied v)) \<and>
     (ee_outcome v \<noteq> Applied \<longrightarrow> truthy_opt (ee_failure_reason v))"
  by (cases "ee_outcome v") (auto simp: enforcement_checks_def Let_def result_simps sorted_set_Nil filter_empty_conv)

lemma required_obligations_sorted: "sorted_set (required_obligations p) = required_obligations p"
  by (simp add: required_obligations_def sorted_set_eq)

section \<open>The events as a state machine\<close>

inductive enforcement_step :: "env \<Rightarrow> crypto \<Rightarrow> rollout_world \<Rightarrow> rollout_world \<Rightarrow> bool" for env cr where
  EventRecorded: "record_enforcement_event (env\<lparr>env_now := now\<rparr>) uuid t v who db = Inr (db', e, again) \<Longrightarrow>
    enforcement_step env cr (db, pc, rc) (db', pc, rc)"
| ReceiptsChanged: "receipt_step env cr w w' \<Longrightarrow> enforcement_step env cr w w'"

lemma update_receipts_enforcement [simp]: "db_enforcement (update_receipts P f db) = db_enforcement db"
  by (simp add: update_receipts_def)

lemma sign_loop_enforcement: "db_enforcement (fst (sign_loop env cr str_exc clock k ids db)) = db_enforcement db"
proof (induction ids arbitrary: k db)
  case (Cons i ids)
  have "db_enforcement (fst (sign_one env cr str_exc (clock k) i db)) = db_enforcement db"
    by (auto simp: sign_one_def Let_def split: option.split)
  with Cons[of "Suc k" "fst (sign_one env cr str_exc (clock k) i db)"] show ?case by (simp add: split_beta)
qed simp

lemma receipt_step_enforcement:
  assumes "receipt_step env cr w w'"
  shows "db_enforcement (fst w') = db_enforcement (fst w)"
  using assms
proof cases
  case (AccessEvaluated now uuid t r rid key memo memo' p again)
  show ?thesis
  proof (cases "find_receipt_key (fst w) t key")
    case (Some q)
    with AccessEvaluated show ?thesis by (auto simp: evaluate_access_def split: if_splits)
  next
    case None
    let ?env = "env\<lparr>env_now := now\<rparr>"
    from None AccessEvaluated obtain ev rollout db1 pc1 rc1 memo1 q db2 e where
        ev: "evaluate_with_rollout ?env t r (request_digest ?env r) (w, memo) = Inr ((ev, rollout), (db1, pc1, rc1), memo1)"
      and q: "q = new_receipt ?env db1 (fst uuid) t rid key r ev rollout"
      and e: "queue_outbox_event ?env (snd uuid) (db1\<lparr>db_receipts := db_receipts db1 @ [q]\<rparr>) t ''runtime-receipt''
          (rcpt_receipt_id q) ''runtime.authorization'' (receipt_event_payload ?env q)
          (Some (''runtime-authorization:'' @ rcpt_receipt_id q)) = Inr (db2, e)"
      and eq: "fst w' = db2"
      by (auto simp: evaluate_access_def Let_def elim!: rbindE)
    have "db1 = fst w"
      using evaluate_with_rollout_db[of ?env t r _ "fst w" "fst (snd w)" "snd (snd w)"] ev by simp
    with queue_outbox_Inr[OF e] eq show ?thesis by auto
  qed
next
  case (ReceiptsSigned now str_exc clock requested db db' report pc rc)
  then show ?thesis
    using sign_loop_enforcement by (auto simp: process_pending_receipts_def Let_def split_beta)
next
  case (ReceiptsPurged now requested db db' n pc rc)
  then show ?thesis by (auto simp: purge_expired_receipts_def Let_def split: if_splits)
qed

text \<open>The receipt that an event was recorded against, as it was then.\<close>

definition justifies :: "runtime_decision_receipt \<Rightarrow> enforcement_event \<Rightarrow> bool" where
  "justifies p e \<longleftrightarrow> rcpt_tenant_id p = enf_tenant_id e \<and> rcpt_receipt_id p = enf_receipt_id e \<and>
     enf_required_obligations_json e = strings_json (required_obligations p) \<and>
     (\<exists>ss. enf_satisfied_obligations_json e = strings_json ss \<and> set ss \<subseteq> set (required_obligations p) \<and>
        (enf_outcome e = Applied \<longrightarrow> rcpt_decision p \<and> ss = required_obligations p)) \<and>
     (enf_outcome e \<noteq> Applied \<longrightarrow> truthy_opt (enf_failure_reason e))"

lemma new_enforcement_simps [simp]:
  "enf_tenant_id (new_enforcement env db t i p v digest who) = t"
  "enf_event_id (new_enforcement env db t i p v digest who) = i"
  by (simp_all add: new_enforcement_def)

lemma recorded_justified:
  assumes "find_receipt db t rid = Some p" and "enforcement_checks p v = Inr ()"
  shows "justifies p (new_enforcement env db t i p v digest who)"
proof -
  have "rcpt_tenant_id p = t" using scalar_Some[OF assms(1)[unfolded find_receipt_def]] by simp
  moreover have "sorted_set (ee_satisfied v) = required_obligations p" if "ee_outcome v = Applied"
    using assms(2) that sorted_set_eq[of "ee_satisfied v" "required_obligations p"]
    by (simp add: enforcement_checks_Inr required_obligations_sorted set_eq_subset)
  ultimately show ?thesis
    using assms(2)
    by (auto simp: justifies_def new_enforcement_def enforcement_checks_Inr intro!: exI[of _ "sorted_set (ee_satisfied v)"])
qed

section \<open>Properties\<close>

text \<open>
  C7: however reports, evaluations, signing runs and purges interleave, every recorded enforcement event was
  recorded at a moment at which its receipt was in the table, lists exactly the obligations of that receipt as
  required, claims none beyond them, and, if it says that the decision was applied, the receipt permitted the
  access and every obligation was satisfied; a rejected or failed event gives a reason. An event id is used once.
\<close>

theorem applied_event_justified:
  assumes "db_enforcement (fst w0) = []" and "(enforcement_step env cr)\<^sup>*\<^sup>* w0 w" and "e \<in> set (db_enforcement (fst w))"
  shows "(\<exists>w1 p. (enforcement_step env cr)\<^sup>*\<^sup>* w0 w1 \<and> (enforcement_step env cr)\<^sup>*\<^sup>* w1 w \<and>
            p \<in> set (db_receipts (fst w1)) \<and> justifies p e) \<and>
         unique_key (\<lambda>e. (enf_tenant_id e, enf_event_id e)) (db_enforcement (fst w))"
  using assms(2,1,3)
proof (induction arbitrary: e rule: rtranclp_induct)
  case (step w w')
  have reach: "(enforcement_step env cr)\<^sup>*\<^sup>* w0 w" "(enforcement_step env cr)\<^sup>*\<^sup>* w w'" using step.hyps by auto
  have old: "\<exists>w1 p. (enforcement_step env cr)\<^sup>*\<^sup>* w0 w1 \<and> (enforcement_step env cr)\<^sup>*\<^sup>* w1 w' \<and>
            p \<in> set (db_receipts (fst w1)) \<and> justifies p e'" if "e' \<in> set (db_enforcement (fst w))" for e'
    using step.IH[OF step.prems(1) that] step.hyps(2) by (meson rtranclp.rtrancl_into_rtrancl)
  have uniq: "unique_key (\<lambda>e. (enf_tenant_id e, enf_event_id e)) (db_enforcement (fst w))"
    using step.IH[OF step.prems(1)] by (cases "db_enforcement (fst w)") (auto simp: unique_key_def)
  from step.hyps(2) show ?case
  proof cases
    case (ReceiptsChanged)
    from receipt_step_enforcement[OF this] old[of e] uniq step.prems(2) show ?thesis by simp
  next
    case (EventRecorded now uuid t v who db db' f again pc rc)
    from EventRecorded(3) show ?thesis
    proof (cases rule: record_enforcement_Inr)
      case Again
      with old[of e] uniq step.prems(2) EventRecorded show ?thesis by simp
    next
      case (New event_id p digest)
      have fresh: "(enf_tenant_id x, enf_event_id x) \<noteq> (t, event_id)" if "x \<in> set (db_enforcement db)" for x
        using New(2) that by (auto simp: find_enforcement_def store)
      have "unique_key (\<lambda>e. (enf_tenant_id e, enf_event_id e)) (db_enforcement db')"
        using uniq fresh unfolding New(6) by (auto simp: unique_key_def EventRecorded New(5))
      moreover have "p \<in> set (db_receipts (fst w))" "justifies p f"
        using scalar_Some[OF New(3)[unfolded find_receipt_def]] recorded_justified[OF New(3,4)] New(5) EventRecorded by simp_all
      ultimately show ?thesis
        using old[of e] reach step.prems(2) EventRecorded New(6) by auto
    qed
  qed
qed simp

end
