(* ===== verification/EnforcementPoint.thy ===== *)
theory EnforcementPoint
  imports Enforcement
begin

text \<open>
  \<open>OpenDataGraphPEP\<close> of the Python enforcement SDK, which asks the service for a decision, runs the operation
  only under its conditions and reports the outcome; and the composition with the service that receives the
  report. The world the client acts on is a type parameter: its handlers, its operation and its HTTP transport
  are functions on it.
\<close>

section \<open>Requests\<close>

record http_request =
  hr_url :: string
  hr_headers :: "(string \<times> string) list"
  hr_body :: json

datatype http_answer = Answer json | HttpError int string | NoAnswer py_error

type_synonym 'w transport = "http_request \<Rightarrow> 'w \<Rightarrow> 'w \<times> http_answer"
type_synonym 'w handler = "json \<Rightarrow> dict \<Rightarrow> 'w \<Rightarrow> 'w \<times> unit result"

record 'w pep =
  pep_base_url :: string
  pep_pep_id :: string
  pep_api_key :: string
  pep_bearer_token :: string
  pep_handlers :: "string \<Rightarrow> 'w handler option"

definition new_pep :: "string \<Rightarrow> string \<Rightarrow> string \<Rightarrow> string \<Rightarrow> 'w pep" where
  "new_pep base_url pep_id api_key bearer_token =
     \<lparr>pep_base_url = py_rstrip_char CHR ''/'' base_url, pep_pep_id = pep_id, pep_api_key = api_key,
      pep_bearer_token = bearer_token, pep_handlers = Map.empty\<rparr>"

definition register_obligation :: "'w pep \<Rightarrow> string \<Rightarrow> 'w handler \<Rightarrow> 'w pep" where
  "register_obligation pep obligation_id h = pep\<lparr>pep_handlers := (pep_handlers pep)(obligation_id \<mapsto> h)\<rparr>"

definition credential_headers :: "'w pep \<Rightarrow> (string \<times> string) list" where
  "credential_headers pep =
     (if pep_bearer_token pep \<noteq> [] then [(''Authorization'', ''Bearer '' @ pep_bearer_token pep)]
      else if pep_api_key pep \<noteq> [] then [(''X-API-Key'', pep_api_key pep)] else [])"

text \<open>The body is the document that the JSON text denotes; a failing status is answered with its code and text.\<close>

definition pep_request ::
  "'w pep \<Rightarrow> 'w transport \<Rightarrow> string \<Rightarrow> dict \<Rightarrow> (string \<times> string) list \<Rightarrow> 'w \<Rightarrow> 'w \<times> json result" where
  "pep_request pep send path payload headers w =
     (case send \<lparr>hr_url = pep_base_url pep @ path,
                 hr_headers = AList.updates (map fst headers) (map snd headers) [(''Content-Type'', ''application/json'')] @
                   credential_headers pep,
                 hr_body = JObj payload\<rparr> w of
        (w', Answer v) \<Rightarrow> (w', Inr v)
      | (w', HttpError code body) \<Rightarrow>
          (w', Inl (RuntimeError (''OpenDataGraph returned HTTP '' @ show_int code @ '': '' @ take 2000 body)))
      | (w', NoAnswer e) \<Rightarrow> (w', Inl e))"

definition pep_evaluate ::
  "'w pep \<Rightarrow> 'w transport \<Rightarrow> string \<Rightarrow> dict \<Rightarrow> dict \<Rightarrow> dict \<Rightarrow> dict \<Rightarrow> string option \<Rightarrow> 'w \<Rightarrow> 'w \<times> json result" where
  "pep_evaluate pep send uuid subject resource action ctx key w =
     pep_request pep send ''/access/v1/evaluation''
       [(''subject'', JObj subject), (''resource'', JObj resource), (''action'', JObj action), (''context'', JObj ctx)]
       ((''X-Request-ID'', uuid) # (if truthy_opt key then [(''Idempotency-Key'', the key)] else [])) w"

section \<open>Enforcing a decision\<close>

text \<open>\<open>_report\<close>: \<open>stamp\<close> is the event id drawn and the text of the current time.\<close>

definition report_payload ::
  "'w pep \<Rightarrow> string \<times> string \<Rightarrow> json \<Rightarrow> string \<Rightarrow> json list \<Rightarrow> json \<Rightarrow> dict \<Rightarrow> dict" where
  "report_payload pep stamp receipt_id outcome satisfied reason metadata =
     [(''event_id'', JStr (fst stamp)), (''receipt_id'', receipt_id), (''pep_id'', JStr (pep_pep_id pep)),
      (''outcome'', JStr outcome), (''satisfied_obligations'', JList satisfied), (''failure_reason'', reason),
      (''metadata'', JObj metadata), (''occurred_at'', JStr (snd stamp))]"

definition report ::
  "'w pep \<Rightarrow> 'w transport \<Rightarrow> string \<times> string \<Rightarrow> json \<Rightarrow> string \<Rightarrow> json list \<Rightarrow> json \<Rightarrow> dict \<Rightarrow> 'w \<Rightarrow> 'w \<times> json result" where
  "report pep send stamp receipt_id outcome satisfied reason metadata w =
     pep_request pep send ''/api/v1/runtime/enforcement-events''
       (report_payload pep stamp receipt_id outcome satisfied reason metadata) [] w"

text \<open>\<open>d.get(k, {})\<close> where the code calls \<open>get\<close> on what it returns.\<close>

definition get_object :: "dict \<Rightarrow> string \<Rightarrow> dict result" where
  "get_object d k =
     (case py_get_default d k (JObj []) of JObj x \<Rightarrow> Inr x | _ \<Rightarrow> Inl (OtherError ''AttributeError''))"

definition as_object :: "json \<Rightarrow> dict result" where
  "as_object v = (case v of JObj x \<Rightarrow> Inr x | _ \<Rightarrow> Inl (OtherError ''AttributeError''))"

text \<open>The items of the obligations, each of which is asked for fields.\<close>

definition items_of :: "json \<Rightarrow> dict list result" where
  "items_of v = (case v of
       JList xs \<Rightarrow> rmap as_object xs
     | JStr [] \<Rightarrow> Inr [] | JObj [] \<Rightarrow> Inr []
     | JStr s \<Rightarrow> Inl (OtherError ''AttributeError'') | JObj d \<Rightarrow> Inl (OtherError ''AttributeError'')
     | _ \<Rightarrow> Inl (TypeError ''object is not iterable''))"

definition needed :: "dict list \<Rightarrow> dict list" where
  "needed obs = filter (\<lambda>ob. py_truthy (py_get_default ob ''required'' (JBool True)) \<and> py_truthy (py_get ob ''id'')) obs"

definition handler_for :: "(string \<Rightarrow> 'w handler option) \<Rightarrow> json \<Rightarrow> 'w handler option" where
  "handler_for hs i = (case i of JStr s \<Rightarrow> hs s | _ \<Rightarrow> None)"

text \<open>The loop over the obligations: the identifiers satisfied so far are its third argument and its result.\<close>

fun run_obligations ::
  "(rat \<Rightarrow> string) \<Rightarrow> (string \<Rightarrow> 'w handler option) \<Rightarrow> dict \<Rightarrow> json list \<Rightarrow> dict list \<Rightarrow> 'w \<Rightarrow> 'w \<times> json list \<times> unit result" where
  "run_obligations frepr hs decision satisfied [] w = (w, satisfied, Inr ())"
| "run_obligations frepr hs decision satisfied (ob # obs) w =
     (let i = py_get ob ''id'' in
      if \<not> py_hashable i then (w, satisfied, Inl (TypeError ''unhashable type''))
      else case handler_for hs i of
        None \<Rightarrow> (w, satisfied, Inl (EnforcementDenied
          (''No enforcement handler is registered for required obligation '' @ py_str frepr i)))
      | Some h \<Rightarrow> (case h (py_get_default ob ''parameters'' (JObj [])) decision w of
            (w', Inl e) \<Rightarrow> (w', satisfied, Inl e)
          | (w', Inr _) \<Rightarrow> run_obligations frepr hs decision (satisfied @ [i]) obs w'))"

text \<open>The body of the \<open>try\<close>: the obligations, then the operation.\<close>

definition attempt ::
  "(rat \<Rightarrow> string) \<Rightarrow> (string \<Rightarrow> 'w handler option) \<Rightarrow> dict \<Rightarrow> dict list \<Rightarrow> ('w \<Rightarrow> 'w \<times> 'a result) \<Rightarrow> 'w \<Rightarrow>
     'w \<times> json list \<times> 'a result" where
  "attempt frepr hs decision obs operation w =
     (case run_obligations frepr hs decision [] obs w of
        (w1, satisfied, Inl e) \<Rightarrow> (w1, satisfied, Inl e)
      | (w1, satisfied, Inr _) \<Rightarrow> (case operation w1 of (w2, r) \<Rightarrow> (w2, satisfied, r)))"

text \<open>A report that raises replaces what the caller would have seen.\<close>

definition after_report :: "'w \<times> json result \<Rightarrow> 'a result \<Rightarrow> 'w \<times> 'a result" where
  "after_report x r = (case x of (w, Inl e) \<Rightarrow> (w, Inl e) | (w, Inr _) \<Rightarrow> (w, r))"

definition enforce ::
  "(rat \<Rightarrow> string) \<Rightarrow> (py_error \<Rightarrow> string) \<Rightarrow> 'w pep \<Rightarrow> 'w transport \<Rightarrow> string \<times> string \<Rightarrow> dict \<Rightarrow> ('w \<Rightarrow> 'w \<times> 'a result) \<Rightarrow>
     dict \<Rightarrow> 'w \<Rightarrow> 'w \<times> 'a result" where
  "enforce frepr str_exc pep send stamp decision operation metadata w =
     (case rbind (get_object decision ''context'') (\<lambda>ctx. rbind (get_object ctx ''receipt'') (\<lambda>r. Inr (ctx, py_get r ''id''))) of
        Inl e \<Rightarrow> (w, Inl e)
      | Inr (ctx, receipt_id) \<Rightarrow>
          if \<not> py_truthy receipt_id
          then (w, Inl (ValueError ''Authorization decision does not contain a receipt id''))
          else if \<not> py_truthy (py_get decision ''decision'') then
            let reason = py_get_default ctx ''reason'' (JStr ''OpenDataGraph policy denied the operation'') in
            after_report (report pep send stamp receipt_id ''rejected'' [] reason metadata w)
              (Inl (EnforcementDenied (py_str frepr reason)))
          else case items_of (py_get_default ctx ''obligations'' (JList [])) of
            Inl e \<Rightarrow> (w, Inl e)
          | Inr obs \<Rightarrow>
              (case attempt frepr (pep_handlers pep) decision (needed obs) operation w of
                 (w1, satisfied, Inl e) \<Rightarrow>
                   after_report (report pep send stamp receipt_id ''failed'' satisfied (JStr (str_exc e)) metadata w1) (Inl e)
               | (w1, satisfied, Inr x) \<Rightarrow>
                   after_report (report pep send stamp receipt_id ''applied'' satisfied JNull metadata w1) (Inr x)))"

section \<open>The service behind the transport\<close>

text \<open>The body as pydantic reads it; \<open>parse_dt\<close> is pydantic's parser of dates and times.\<close>

definition field_of :: "dict \<Rightarrow> string \<Rightarrow> (json \<Rightarrow> 'a option) \<Rightarrow> 'a option" where
  "field_of d k read = (case dict_get d k of None \<Rightarrow> None | Some v \<Rightarrow> read v)"

definition field_or :: "dict \<Rightarrow> string \<Rightarrow> 'a \<Rightarrow> (json \<Rightarrow> 'a option) \<Rightarrow> 'a option" where
  "field_or d k x read = (case dict_get d k of None \<Rightarrow> Some x | Some v \<Rightarrow> read v)"

definition read_str :: "json \<Rightarrow> string option" where
  "read_str v = (case v of JStr s \<Rightarrow> Some s | _ \<Rightarrow> None)"

definition read_opt_str :: "json \<Rightarrow> string option option" where
  "read_opt_str v = (case v of JNull \<Rightarrow> Some None | JStr s \<Rightarrow> Some (Some s) | _ \<Rightarrow> None)"

definition read_strs :: "json \<Rightarrow> string list option" where
  "read_strs v = (case v of JList xs \<Rightarrow> if list_all is_jstr xs then Some (map jstr xs) else None | _ \<Rightarrow> None)"

definition read_dict :: "json \<Rightarrow> json option" where
  "read_dict v = (if is_jobj v then Some v else None)"

definition read_outcome :: "json \<Rightarrow> enforcement_outcome option" where
  "read_outcome v = (if v = JStr ''applied'' then Some Applied else if v = JStr ''rejected'' then Some Rejected
     else if v = JStr ''failed'' then Some Failed else None)"

definition enforcement_of_json :: "(string \<Rightarrow> datetime option) \<Rightarrow> json \<Rightarrow> enforcement_create option" where
  "enforcement_of_json parse_dt body =
     (case body of
        JObj d \<Rightarrow>
          (case (field_or d ''event_id'' None read_opt_str, field_of d ''receipt_id'' read_str, field_of d ''pep_id'' read_str,
                 field_of d ''outcome'' read_outcome, field_or d ''satisfied_obligations'' [] read_strs,
                 field_or d ''failure_reason'' None read_opt_str, field_or d ''metadata'' (JObj []) read_dict,
                 field_of d ''occurred_at'' (\<lambda>v. Option.bind (read_str v) parse_dt)) of
             (Some a, Some b, Some c, Some x, Some s, Some f, Some m, Some t) \<Rightarrow>
               Some \<lparr>ee_event_id = a, ee_receipt_id = b, ee_pep_id = c, ee_outcome = x, ee_satisfied = s,
                 ee_failure_reason = f, ee_metadata = m, ee_occurred_at = t\<rparr>
           | _ \<Rightarrow> None)
      | _ \<Rightarrow> None)"

definition http_of :: "env \<Rightarrow> py_error \<Rightarrow> http_answer" where
  "http_of env e = (case e of
       HTTPException c m \<Rightarrow> HttpError c (json_dumps (env_frepr env) '','' '':'' (JObj [(''detail'', JStr m)]))
     | _ \<Rightarrow> HttpError 500 ''Internal Server Error'')"

text \<open>The route that receives reports, for a caller that is \<open>who\<close>; the client's own part of the world is untouched.\<close>

definition served ::
  "env \<Rightarrow> string \<times> string \<Rightarrow> (string \<Rightarrow> datetime option) \<Rightarrow> principal \<Rightarrow> (db \<times> 'v) transport" where
  "served env uuid parse_dt who req s =
     (case rbind (require_role Analyst who) (\<lambda>_.
           case enforcement_of_json parse_dt (hr_body req) of
             None \<Rightarrow> Inl (HTTPException 422 ''Unprocessable Entity'')
           | Some v \<Rightarrow> create_enforcement_event env uuid who v (fst s)) of
        Inl e \<Rightarrow> (s, http_of env e)
      | Inr (db', answer) \<Rightarrow> ((db', snd s), Answer (JObj answer)))"


section \<open>A log of what the client did\<close>

text \<open>Handlers, operation and transport that also write what happened, in order.\<close>

datatype pep_event = Handled string bool | Ran bool | Sent http_request

definition logged_handlers :: "(string \<Rightarrow> 'v handler option) \<Rightarrow> string \<Rightarrow> ('v \<times> pep_event list) handler option" where
  "logged_handlers hs i = map_option (\<lambda>h ps d (v, evs). case h ps d v of (v', r) \<Rightarrow> ((v', evs @ [Handled i (is_ok r)]), r)) (hs i)"

definition logged_operation :: "('v \<Rightarrow> 'v \<times> 'a result) \<Rightarrow> 'v \<times> pep_event list \<Rightarrow> ('v \<times> pep_event list) \<times> 'a result" where
  "logged_operation operation = (\<lambda>(v, evs). case operation v of (v', r) \<Rightarrow> ((v', evs @ [Ran (is_ok r)]), r))"

definition logged_transport :: "'v transport \<Rightarrow> ('v \<times> pep_event list) transport" where
  "logged_transport send req = (\<lambda>(v, evs). case send req v of (v', a) \<Rightarrow> ((v', evs @ [Sent req]), a))"

definition with_handlers :: "(string \<Rightarrow> 'u handler option) \<Rightarrow> 'v pep \<Rightarrow> 'u pep" where
  "with_handlers hs pep = \<lparr>pep_base_url = pep_base_url pep, pep_pep_id = pep_pep_id pep, pep_api_key = pep_api_key pep,
     pep_bearer_token = pep_bearer_token pep, pep_handlers = hs\<rparr>"

definition ids_of :: "dict list \<Rightarrow> json list" where
  "ids_of obs = map (\<lambda>ob. py_get ob ''id'') obs"

definition all_handled :: "dict list \<Rightarrow> pep_event list" where
  "all_handled obs = map (\<lambda>ob. Handled (jstr (py_get ob ''id'')) True) obs"

lemma ids_of_simps [simp]: "ids_of [] = []" "ids_of (ob # obs) = py_get ob ''id'' # ids_of obs"
  by (simp_all add: ids_of_def)

lemma all_handled_simps [simp]: "all_handled [] = []"
  "all_handled (ob # obs) = Handled (jstr (py_get ob ''id'')) True # all_handled obs"
  by (simp_all add: all_handled_def)

lemma Ran_not_handled [simp]: "Ran b \<notin> set (all_handled obs)"
  by (auto simp: all_handled_def)

lemma handler_for_Some: "handler_for hs i = Some h \<longleftrightarrow> (\<exists>s. i = JStr s \<and> hs s = Some h)"
  by (cases i) (auto simp: handler_for_def)

lemma run_obligations_satisfied:
  assumes "run_obligations frepr hs d sat obs w = (w', sat', r)"
  shows "(\<exists>n. sat' = sat @ take n (ids_of obs)) \<and> (is_ok r \<longrightarrow> sat' = sat @ ids_of obs)"
  using assms
proof (induction obs arbitrary: sat w)
  case (Cons ob obs)
  have none: "\<exists>n. sat' = sat @ take n (ids_of (ob # obs))" if "sat' = sat"
    using that by (intro exI[of _ 0]) simp
  have more: "\<exists>n. sat' = sat @ take n (ids_of (ob # obs))" if "sat' = (sat @ [py_get ob ''id'']) @ take n (ids_of obs)" for n
    using that by (intro exI[of _ "Suc n"]) simp
  show ?case
  proof (cases "\<exists>h. py_hashable (py_get ob ''id'') \<and> handler_for hs (py_get ob ''id'') = Some h \<and>
      is_ok (snd (h (py_get_default ob ''parameters'' (JObj [])) d w))")
    case True
    then obtain h w1 where h: "py_hashable (py_get ob ''id'')" "handler_for hs (py_get ob ''id'') = Some h"
      "h (py_get_default ob ''parameters'' (JObj [])) d w = (w1, Inr ())"
      by (auto simp: is_ok_iff) (metis prod.collapse)
    with Cons.prems have "run_obligations frepr hs d (sat @ [py_get ob ''id'']) obs w1 = (w', sat', r)" by (simp add: Let_def)
    from Cons.IH[OF this] more show ?thesis by auto
  next
    case False
    with Cons.prems have "sat' = sat \<and> \<not> is_ok r"
      by (auto simp: Let_def split: if_splits option.splits prod.splits sum.splits)
    with none show ?thesis by blast
  qed
qed (auto intro: exI[of _ 0])

lemma run_obligations_log:
  assumes "run_obligations frepr (logged_handlers hs) d sat obs (v, evs) = ((v', evs'), sat', r)"
  shows "\<exists>ext. evs' = evs @ ext \<and> (\<forall>b. Ran b \<notin> set ext) \<and> (is_ok r \<longrightarrow> ext = all_handled obs)"
  using assms
proof (induction obs arbitrary: sat v evs)
  case (Cons ob obs)
  show ?case
  proof (cases "py_hashable (py_get ob ''id'') \<and> handler_for (logged_handlers hs) (py_get ob ''id'') \<noteq> None")
    case False
    with Cons.prems show ?thesis by (auto simp: Let_def split: if_splits)
  next
    case True
    then obtain s h where s: "py_get ob ''id'' = JStr s" "hs s = Some h"
      by (auto simp: handler_for_Some logged_handlers_def)
    obtain v1 r1 where h: "h (py_get_default ob ''parameters'' (JObj [])) d v = (v1, r1)" by fastforce
    have step: "run_obligations frepr (logged_handlers hs) d sat (ob # obs) (v, evs) =
      (case r1 of Inl e \<Rightarrow> ((v1, evs @ [Handled s False]), sat, Inl e)
       | Inr _ \<Rightarrow> run_obligations frepr (logged_handlers hs) d (sat @ [JStr s]) obs (v1, evs @ [Handled s True]))"
      using s h by (cases r1) (simp_all add: Let_def handler_for_def logged_handlers_def)
    show ?thesis
    proof (cases r1)
      case (Inl e)
      with Cons.prems step show ?thesis by auto
    next
      case (Inr u)
      with Cons.prems step have "run_obligations frepr (logged_handlers hs) d (sat @ [JStr s]) obs (v1, evs @ [Handled s True]) =
        ((v', evs'), sat', r)" by simp
      from Cons.IH[OF this] obtain ext where "evs' = (evs @ [Handled s True]) @ ext" "\<forall>b. Ran b \<notin> set ext"
        "is_ok r \<longrightarrow> ext = all_handled obs" by blast
      with s show ?thesis by (intro exI[of _ "Handled s True # ext"]) auto
    qed
  qed
qed simp

lemma attempt_log:
  assumes "attempt frepr (logged_handlers hs) d obs (logged_operation operation) (v, []) = ((v', evs), sat, r)"
  shows "(\<forall>b. Ran b \<notin> set evs) \<and> \<not> is_ok r \<or> evs = all_handled obs @ [Ran (is_ok r)] \<and> sat = ids_of obs"
proof -
  obtain v1 evs1 sat1 r1 where run: "run_obligations frepr (logged_handlers hs) d [] obs (v, []) = ((v1, evs1), sat1, r1)"
    by (metis surj_pair)
  from run_obligations_log[OF run] have evs1: "\<forall>b. Ran b \<notin> set evs1" "is_ok r1 \<longrightarrow> evs1 = all_handled obs" by auto
  from run_obligations_satisfied[OF run] have sat1: "is_ok r1 \<longrightarrow> sat1 = ids_of obs" by simp
  show ?thesis
  proof (cases r1)
    case (Inl e)
    with assms run evs1 show ?thesis by (auto simp: attempt_def)
  next
    case (Inr u)
    obtain v2 r2 where "operation v1 = (v2, r2)" by fastforce
    with assms run evs1 sat1 Inr show ?thesis by (auto simp: attempt_def logged_operation_def)
  qed
qed

text \<open>A report is one request, and whatever its answer the log grows by it.\<close>

lemma report_log:
  "\<exists>v' req. after_report (report (with_handlers hs pep) (logged_transport send) stamp rid outcome sat reason metadata (v, evs)) r =
      ((v', evs @ [Sent req]), snd (after_report (report (with_handlers hs pep) (logged_transport send) stamp rid outcome sat reason metadata (v, evs)) r)) \<and>
    hr_body req = JObj (report_payload pep stamp rid outcome sat reason metadata)"
proof -
  define req where "req = \<lparr>hr_url = pep_base_url pep @ ''/api/v1/runtime/enforcement-events'',
     hr_headers = [(''Content-Type'', ''application/json'')] @ credential_headers (with_handlers hs pep),
     hr_body = JObj (report_payload pep stamp rid outcome sat reason metadata)\<rparr>"
  have payload: "report_payload (with_handlers hs pep) stamp rid outcome sat reason metadata = report_payload pep stamp rid outcome sat reason metadata"
    by (simp add: report_payload_def with_handlers_def)
  obtain v' a where a: "send req v = (v', a)" by fastforce
  then have "report (with_handlers hs pep) (logged_transport send) stamp rid outcome sat reason metadata (v, evs) =
      ((v', evs @ [Sent req]), snd (report (with_handlers hs pep) (logged_transport send) stamp rid outcome sat reason metadata (v, evs)))"
    unfolding report_def pep_request_def payload
    by (cases a) (simp_all add: req_def with_handlers_def logged_transport_def)
  then show ?thesis
    by (intro exI[of _ v'] exI[of _ req])
       (auto simp: after_report_def req_def split: prod.splits sum.splits)
qed

text \<open>
  C5: the client runs the operation only if the decision it was given permits, and only after a registered handler
  has succeeded for every required obligation of the decision, in their order; the operation runs at most
  once, after it comes exactly one report, which says applied if it succeeded and failed if it raised and
  names every required obligation as satisfied; and the caller gets a result only if the operation ran.
\<close>

theorem operation_guarded:
  assumes "enforce frepr str_exc (with_handlers (logged_handlers hs) pep) (logged_transport send) stamp decision
      (logged_operation operation) metadata (v, []) = ((v', evs), r)"
  shows "(\<forall>b. Ran b \<in> set evs \<longrightarrow>
            py_truthy (py_get decision ''decision'') \<and>
            (\<exists>ctx obs req rid reason. get_object decision ''context'' = Inr ctx \<and>
               items_of (py_get_default ctx ''obligations'' (JList [])) = Inr obs \<and>
               evs = all_handled (needed obs) @ [Ran b, Sent req] \<and>
               hr_body req = JObj (report_payload pep stamp rid (if b then ''applied'' else ''failed'') (ids_of (needed obs)) reason metadata))) \<and>
         (is_ok r \<longrightarrow> Ran True \<in> set evs)"
proof (cases "rbind (get_object decision ''context'') (\<lambda>ctx. rbind (get_object ctx ''receipt'') (\<lambda>r. Inr (ctx, py_get r ''id'')))")
  case (Inl e)
  with assms show ?thesis by (auto simp: enforce_def)
next
  case (Inr x)
  obtain ctx rid where x: "x = (ctx, rid)" by (cases x)
  with Inr have ctx: "get_object decision ''context'' = Inr ctx" by (auto elim!: rbindE)
  let ?pep = "with_handlers (logged_handlers hs) pep"
  show ?thesis
  proof (cases "py_truthy rid \<and> py_truthy (py_get decision ''decision'')")
    case False
    then consider "\<not> py_truthy rid" | "py_truthy rid" "\<not> py_truthy (py_get decision ''decision'')" by blast
    then show ?thesis
    proof cases
      case 2
      define reason where "reason = py_get_default ctx ''reason'' (JStr ''OpenDataGraph policy denied the operation'')"
      from assms Inr x 2 have "after_report (report ?pep (logged_transport send) stamp rid ''rejected'' [] reason metadata (v, []))
          (Inl (EnforcementDenied (py_str frepr reason))) = ((v', evs), r)"
        by (simp add: enforce_def reason_def Let_def)
      with report_log[of "logged_handlers hs" pep send stamp rid "''rejected''" "[]" reason metadata v "[]"
          "Inl (EnforcementDenied (py_str frepr reason)) :: 'b result"]
      show ?thesis by (auto simp: after_report_def split: prod.splits sum.splits)
    qed (use assms Inr x in \<open>auto simp: enforce_def\<close>)
  next
    case True
    show ?thesis
    proof (cases "items_of (py_get_default ctx ''obligations'' (JList []))")
      case (Inl e)
      with assms Inr x True show ?thesis by (auto simp: enforce_def)
    next
      case obs: (Inr obs)
      obtain v1 evs1 sat r1 where a: "attempt frepr (logged_handlers hs) decision (needed obs) (logged_operation operation) (v, []) = ((v1, evs1), sat, r1)"
        by (metis surj_pair)
      define outcome reason where "outcome = (if is_ok r1 then ''applied'' else ''failed'')"
        and "reason = (case r1 of Inl e \<Rightarrow> JStr (str_exc e) | Inr _ \<Rightarrow> JNull)"
      have e: "after_report (report ?pep (logged_transport send) stamp rid outcome sat reason metadata (v1, evs1)) r1 = ((v', evs), r)"
        using assms Inr x True obs a
        by (cases r1) (simp_all add: enforce_def outcome_def reason_def with_handlers_def)
      from report_log[of "logged_handlers hs" pep send stamp rid outcome sat reason metadata v1 evs1 r1] e
      obtain req where req: "evs = evs1 @ [Sent req]" "hr_body req = JObj (report_payload pep stamp rid outcome sat reason metadata)"
        by auto
      have "is_ok r \<longrightarrow> is_ok r1"
        using e by (auto simp: after_report_def split: prod.splits sum.splits)
      with attempt_log[OF a] req ctx obs True show ?thesis by (auto simp: outcome_def split: if_splits)
    qed
  qed
qed


section \<open>The client against the service\<close>

text \<open>Handlers and operation that act on the client's part of a world that also holds the service's database.\<close>

definition lifted_handlers :: "(string \<Rightarrow> 'v handler option) \<Rightarrow> string \<Rightarrow> (db \<times> 'v) handler option" where
  "lifted_handlers hs i = map_option (\<lambda>h ps d (db, v). case h ps d v of (v', r) \<Rightarrow> ((db, v'), r)) (hs i)"

definition lifted_operation :: "('v \<Rightarrow> 'v \<times> 'a result) \<Rightarrow> db \<times> 'v \<Rightarrow> (db \<times> 'v) \<times> 'a result" where
  "lifted_operation operation = (\<lambda>(db, v). case operation v of (v', r) \<Rightarrow> ((db, v'), r))"

lemma run_obligations_lift:
  "run_obligations frepr (lifted_handlers hs) d sat obs (db, v) =
     (case run_obligations frepr hs d sat obs v of (v', sat', r) \<Rightarrow> ((db, v'), sat', r))"
proof (induction obs arbitrary: sat v)
  case (Cons ob obs)
  show ?case
  proof (cases "handler_for hs (py_get ob ''id'')")
    case None
    then have "handler_for (lifted_handlers hs) (py_get ob ''id'') = None"
      by (cases "py_get ob ''id''") (auto simp: handler_for_def lifted_handlers_def)
    with None show ?thesis by (simp add: Let_def)
  next
    case (Some h)
    then obtain s where s: "py_get ob ''id'' = JStr s" "hs s = Some h" by (auto simp: handler_for_Some)
    obtain v1 r1 where "h (py_get_default ob ''parameters'' (JObj [])) d v = (v1, r1)" by fastforce
    with s Cons.IH show ?thesis
      by (cases r1) (simp_all add: Let_def handler_for_def lifted_handlers_def)
  qed
qed simp

lemma attempt_lift:
  "attempt frepr (lifted_handlers hs) d obs (lifted_operation operation) (db, v) =
     (case attempt frepr hs d obs operation v of (v', sat, r) \<Rightarrow> ((db, v'), sat, r))"
  by (auto simp: attempt_def run_obligations_lift lifted_operation_def split: prod.splits sum.splits)

text \<open>The obligations of an answer are those of the receipt.\<close>

definition obligation_of :: "string \<Rightarrow> dict" where
  "obligation_of c = [(''id'', JStr c), (''required'', JBool True), (''enforced_by'', JStr ''policy-enforcement-point'')]"

definition enforced_ids :: "evaluation \<Rightarrow> string list" where
  "enforced_ids ev = filter (\<lambda>c. c \<noteq> []) (ev_controls ev)"

lemma items_of_obligations: "items_of (obligations_json ev) = Inr (map obligation_of (ev_controls ev))"
proof -
  have "rmap as_object (map (\<lambda>c. JObj (obligation_of c)) cs) = Inr (map obligation_of cs)" for cs
    by (induction cs) (simp_all add: as_object_def)
  then show ?thesis by (simp add: items_of_def obligations_json_def obligation_of_def)
qed

lemma obligation_of_get [simp]:
  "py_get (obligation_of c) ''id'' = JStr c" "py_get_default (obligation_of c) ''required'' v = JBool True"
  "py_get (obligation_of c) ''required'' = JBool True"
  by (simp_all add: obligation_of_def py_get_def py_get_default_def)

lemma needed_obligations: "ids_of (needed (map obligation_of (ev_controls ev))) = map JStr (enforced_ids ev)"
  by (simp add: ids_of_def needed_def enforced_ids_def filter_map comp_def)

lemma required_enforced:
  "rcpt_obligations_json p = obligations_json ev \<Longrightarrow> set (required_obligations p) = set (enforced_ids ev)"
  by (auto simp: required_obligations_def obligations_json_def enforced_ids_def filter_map comp_def py_get_def)

text \<open>What the service needs to take a report: the caller's role, the lengths of the schema, an unused event id,
  acceptable metadata, and an outbox event that is not too large.\<close>

definition reportable ::
  "env \<Rightarrow> principal \<Rightarrow> (string \<Rightarrow> datetime option) \<Rightarrow> db \<Rightarrow> runtime_decision_receipt \<Rightarrow> evaluation \<Rightarrow> string \<Rightarrow> string \<times> string \<Rightarrow>
     dict \<Rightarrow> bool" where
  "reportable env who parse_dt db p ev pep_id stamp metadata \<longleftrightarrow>
     Analyst \<le> p_role who \<and> find_receipt db (p_tenant_id who) (rcpt_receipt_id p) = Some p \<and>
     rcpt_obligations_json p = obligations_json ev \<and> length (ev_controls ev) \<le> 100 \<and>
     field_length 1 36 (rcpt_receipt_id p) \<and> field_length 1 320 pep_id \<and>
     field_length 3 36 (fst stamp) \<and> list_all name_char (fst stamp) \<and>
     find_enforcement db (p_tenant_id who) (fst stamp) = None \<and>
     find_outbox_key db (p_tenant_id who) (Some (''enforcement:'' @ fst stamp)) = None \<and>
     is_ok (metadata_digest env (JObj metadata)) \<and>
     (\<exists>now. parse_dt (snd stamp) = Some now \<and>
        (\<forall>v. ee_pep_id v = pep_id \<and> ee_occurred_at v = now \<and> set (ee_satisfied v) \<subseteq> set (enforced_ids ev) \<longrightarrow>
           is_ok (bounded_payload env (enforcement_payload env (fst stamp) p v))))"

text \<open>The event that a report leaves in the database.\<close>

definition recorded :: "db \<Rightarrow> db \<Rightarrow> runtime_decision_receipt \<Rightarrow> enforcement_outcome \<Rightarrow> string list \<Rightarrow> string option \<Rightarrow> bool" where
  "recorded db db' p outcome ss reason \<longleftrightarrow>
     (\<exists>e. db_enforcement db' = db_enforcement db @ [e] \<and> justifies p e \<and> enf_outcome e = outcome \<and>
        enf_satisfied_obligations_json e = strings_json (sorted_set ss) \<and> enf_failure_reason e = reason)"

lemma enforcement_of_report:
  assumes "parse_dt (snd stamp) = Some now" and "read_outcome (JStr outcome) = Some oc"
  shows "enforcement_of_json parse_dt (JObj (report_payload pep stamp (JStr rid) outcome (map JStr ss) (jopt JStr reason) metadata)) =
    Some \<lparr>ee_event_id = Some (fst stamp), ee_receipt_id = rid, ee_pep_id = pep_pep_id pep, ee_outcome = oc, ee_satisfied = ss,
      ee_failure_reason = reason, ee_metadata = JObj metadata, ee_occurred_at = now\<rparr>"
proof -
  have "read_strs (JList (map JStr ss)) = Some ss" by (simp add: read_strs_def list_all_iff comp_def)
  moreover have "read_opt_str (jopt JStr reason) = Some reason" by (cases reason) (simp_all add: read_opt_str_def jopt_def)
  ultimately show ?thesis
    using assms by (simp add: enforcement_of_json_def report_payload_def field_of_def field_or_def dict_get_def read_str_def
        read_opt_str_def read_dict_def)
qed

lemma queue_outbox_new:
  assumes "find_outbox_key db t key = None" and "bounded_payload env payload = Inr doc"
  shows "\<exists>out es. queue_outbox_event env uuid (db\<lparr>db_enforcement := xs\<rparr>) t aty aid ety payload key =
    Inr (db\<lparr>db_enforcement := xs, db_outbox := es\<rparr>, out)"
proof -
  have "find_outbox_key (db\<lparr>db_enforcement := xs\<rparr>) t key = find_outbox_key db t key" by (simp add: find_outbox_key_def)
  with assms show ?thesis by (auto simp: queue_outbox_event_def Let_def)
qed

lemma record_enforcement_new:
  assumes "ee_event_id v = Some i" and "i \<noteq> []" and "find_enforcement db t i = None"
    and "find_receipt db t (ee_receipt_id v) = Some p" and "enforcement_checks p v = Inr ()"
    and "metadata_digest env (ee_metadata v) = Inr digest" and "find_outbox_key db t (Some (''enforcement:'' @ i)) = None"
    and "bounded_payload env (enforcement_payload env i p v) = Inr doc"
  shows "\<exists>db'. record_enforcement_event env uuid t v who db = Inr (db', new_enforcement env db t i p v digest who, False) \<and>
    db_enforcement db' = db_enforcement db @ [new_enforcement env db t i p v digest who]"
proof -
  from queue_outbox_new[of db t "Some (''enforcement:'' @ i)" env _ doc "snd uuid" "db_enforcement db @ [new_enforcement env db t i p v digest who]"
      "''runtime-receipt''" "rcpt_receipt_id p" "''runtime.enforcement''"] assms(7,8)
  obtain out es where "queue_outbox_event env (snd uuid) (db\<lparr>db_enforcement := db_enforcement db @ [new_enforcement env db t i p v digest who]\<rparr>) t
      ''runtime-receipt'' (rcpt_receipt_id p) ''runtime.enforcement'' (enforcement_payload env i p v) (Some (''enforcement:'' @ i)) =
    Inr (db\<lparr>db_enforcement := db_enforcement db @ [new_enforcement env db t i p v digest who], db_outbox := es\<rparr>, out)"
    by blast
  with assms(1-6) show ?thesis by (simp add: record_enforcement_event_def Let_def)
qed

lemma report_accepted:
  assumes "reportable env who parse_dt db p ev (pep_pep_id pep) stamp metadata"
    and "read_outcome (JStr outcome) = Some oc" and "set ss \<subseteq> set (enforced_ids ev)" and "length ss \<le> 100"
    and "oc = Applied \<Longrightarrow> rcpt_decision p \<and> set (enforced_ids ev) \<subseteq> set ss"
    and "oc \<noteq> Applied \<Longrightarrow> truthy_opt reason" and "opt_field 0 2000 reason"
  shows "\<exists>db' answer. report pep (served env uuid parse_dt who) stamp (JStr (rcpt_receipt_id p)) outcome (map JStr ss)
      (jopt JStr reason) metadata (db, v) = ((db', v), Inr answer) \<and> recorded db db' p oc ss reason"
proof -
  from assms(1) obtain now digest where now: "parse_dt (snd stamp) = Some now"
      "\<And>v. ee_pep_id v = pep_pep_id pep \<and> ee_occurred_at v = now \<and> set (ee_satisfied v) \<subseteq> set (enforced_ids ev) \<Longrightarrow>
           is_ok (bounded_payload env (enforcement_payload env (fst stamp) p v))"
    and digest: "metadata_digest env (JObj metadata) = Inr digest"
    by (auto simp: reportable_def is_ok_iff)
  define b where "b = \<lparr>ee_event_id = Some (fst stamp), ee_receipt_id = rcpt_receipt_id p, ee_pep_id = pep_pep_id pep, ee_outcome = oc,
      ee_satisfied = ss, ee_failure_reason = reason, ee_metadata = JObj metadata, ee_occurred_at = now\<rparr>"
  have ok: "enforcement_create_ok b"
    using assms(1,4,7) by (simp add: enforcement_create_ok_def b_def reportable_def)
  have req: "set (required_obligations p) = set (enforced_ids ev)"
    by (rule required_enforced) (use assms(1) in \<open>simp add: reportable_def\<close>)
  have checks: "enforcement_checks p b = Inr ()"
    using assms(3,5,6) by (auto simp: enforcement_checks_Inr b_def req)
  define e where "e = new_enforcement env db (p_tenant_id who) (fst stamp) p b digest (p_subject who)"
  have find: "find_receipt db (p_tenant_id who) (rcpt_receipt_id p) = Some p" using assms(1) by (simp add: reportable_def)
  from now(2)[of b] assms(3) obtain doc where doc: "bounded_payload env (enforcement_payload env (fst stamp) p b) = Inr doc"
    by (auto simp: b_def is_ok_iff)
  have "fst stamp \<noteq> []" using assms(1) by (auto simp: reportable_def field_length_def)
  with record_enforcement_new[of b "fst stamp" db "p_tenant_id who" p env digest doc uuid "p_subject who"] assms(1) checks digest doc find
  have "\<exists>db'. record_enforcement_event env uuid (p_tenant_id who) b (p_subject who) db = Inr (db', e, False) \<and>
      db_enforcement db' = db_enforcement db @ [e]"
    unfolding e_def reportable_def by (simp add: b_def)
  then obtain db' where db': "record_enforcement_event env uuid (p_tenant_id who) b (p_subject who) db = Inr (db', e, False)"
      "db_enforcement db' = db_enforcement db @ [e]" by blast
  have "recorded db db' p oc ss reason"
    using db'(2) recorded_justified[OF find checks, of env "fst stamp" digest "p_subject who"]
    by (simp add: recorded_def e_def) (simp add: new_enforcement_def b_def)
  moreover have "\<not> p_role who < Analyst" using assms(1) by (simp add: reportable_def not_less)
  ultimately show ?thesis
    using db'(1) ok enforcement_of_report[of parse_dt stamp now outcome oc pep "rcpt_receipt_id p" ss reason metadata] now(1) assms(2)
    by (simp add: report_def pep_request_def served_def require_role_def create_enforcement_event_def check_body_def
        enforcement_errors_def b_def)
qed


text \<open>A report of a failure without a text, or with one that is too long, is refused.\<close>

lemma report_refused:
  assumes "reportable env who parse_dt db p ev (pep_pep_id pep) stamp metadata"
    and "msg = [] \<or> length msg > 2000"
  shows "\<exists>m. report pep (served env uuid parse_dt who) stamp (JStr (rcpt_receipt_id p)) ''failed'' (map JStr ss)
      (JStr msg) metadata (db, v) = ((db, v), Inl (RuntimeError m))"
proof -
  from assms(1) obtain now where now: "parse_dt (snd stamp) = Some now" by (auto simp: reportable_def)
  define b where "b = \<lparr>ee_event_id = Some (fst stamp), ee_receipt_id = rcpt_receipt_id p, ee_pep_id = pep_pep_id pep, ee_outcome = Failed,
      ee_satisfied = ss, ee_failure_reason = Some msg, ee_metadata = JObj metadata, ee_occurred_at = now\<rparr>"
  have "\<exists>c m. create_enforcement_event env uuid who b db = Inl (HTTPException c m)"
  proof (cases "enforcement_create_ok b")
    case True
    then have msg: "msg = []" using assms(2) by (auto simp: enforcement_create_ok_def b_def opt_field_def field_length_def)
    have find: "find_receipt db (p_tenant_id who) (rcpt_receipt_id p) = Some p" using assms(1) by (simp add: reportable_def)
    have "\<exists>m. enforcement_checks p b = Inl (ValueError m)"
      by (auto simp: enforcement_checks_def Let_def b_def msg truthy_opt_def raise_if_def rbind_def)
    then show ?thesis
      using find assms(1) True
      by (auto simp: create_enforcement_event_def record_enforcement_event_def b_def Let_def enforcement_errors_def require_role_def
          raise_if_def check_body_def)
  next
    case False
    then show ?thesis by (auto simp: create_enforcement_event_def require_role_def raise_if_def check_body_def rbind_def)
  qed
  moreover have "\<not> p_role who < Analyst" using assms(1) by (simp add: reportable_def not_less)
  ultimately show ?thesis
    using enforcement_of_report[of parse_dt stamp now "''failed''" Failed pep "rcpt_receipt_id p" ss "Some msg" metadata] now
    by (auto simp: report_def pep_request_def served_def require_role_def read_outcome_def jopt_def b_def http_of_def)
qed

lemma answer_fields:
  "get_object (decision_response env p) ''context'' = Inr (jobj (py_get (decision_response env p) ''context''))"
  "get_object (jobj (py_get (decision_response env p) ''context'')) ''receipt'' =
     Inr (jobj (py_get (jobj (py_get (decision_response env p) ''context'')) ''receipt''))"
  "py_get (jobj (py_get (jobj (py_get (decision_response env p) ''context'')) ''receipt'')) ''id'' = JStr (rcpt_receipt_id p)"
  "py_get (decision_response env p) ''decision'' = JBool (rcpt_decision p)"
  "py_get_default (jobj (py_get (decision_response env p) ''context'')) ''obligations'' v = rcpt_obligations_json p"
  "py_get_default (jobj (py_get (decision_response env p) ''context'')) ''reason'' v =
     (case jlist (rcpt_reasons_json p) of [] \<Rightarrow> JStr ''No policy reason was recorded'' | r # _ \<Rightarrow> r)"
  by (simp_all add: decision_response_def get_object_def py_get_default_def py_get_def)

text \<open>What the client's \<open>try\<close> does with the answer, apart from the service.\<close>

definition local_run ::
  "(rat \<Rightarrow> string) \<Rightarrow> (string \<Rightarrow> 'v handler option) \<Rightarrow> env \<Rightarrow> runtime_decision_receipt \<Rightarrow> evaluation \<Rightarrow> ('v \<Rightarrow> 'v \<times> 'a result) \<Rightarrow> 'v \<Rightarrow>
     'v \<times> json list \<times> 'a result" where
  "local_run frepr hs env p ev operation v =
     attempt frepr hs (decision_response env p) (needed (map obligation_of (ev_controls ev))) operation v"

lemma local_run_ids:
  assumes "local_run frepr hs env p ev operation v = (v', sat, r)"
  obtains ss where "sat = map JStr ss" "set ss \<subseteq> set (enforced_ids ev)" "length ss \<le> length (ev_controls ev)"
    "is_ok r \<Longrightarrow> ss = enforced_ids ev"
proof -
  let ?obs = "needed (map obligation_of (ev_controls ev))"
  obtain v1 sat1 r1 where run: "run_obligations frepr hs (decision_response env p) [] ?obs v = (v1, sat1, r1)" by (metis prod_cases3)
  from run_obligations_satisfied[OF run, unfolded needed_obligations append_Nil]
  obtain n where n: "sat1 = take n (map JStr (enforced_ids ev))" "is_ok r1 \<longrightarrow> sat1 = map JStr (enforced_ids ev)" by blast
  have sat: "sat = sat1" "is_ok r \<longrightarrow> is_ok r1"
    using assms run by (auto simp: local_run_def attempt_def split: sum.splits prod.splits)
  have "length (take n (enforced_ids ev)) \<le> length (ev_controls ev)"
    using length_filter_le[of "\<lambda>c. c \<noteq> []" "ev_controls ev"] by (simp add: enforced_ids_def min.coboundedI1)
  moreover have "take n (enforced_ids ev) = enforced_ids ev" if "is_ok r"
    using n sat that by (auto simp: take_map inj_map_eq_map inj_def)
  ultimately show thesis
    using n sat by (intro that[of "take n (enforced_ids ev)"]) (auto simp: take_map dest: in_set_takeD)
qed

text \<open>
  C6: a client that enforces the service's own answer reports what happened, and the service accepts the report. If the
  receipt denies, the denial is recorded as rejected with the receipt's reason and raised; if every handler and the
  operation succeed, the service records the decision as applied with every obligation satisfied and the caller
  gets the operation's result; if one of them raises with a text of 1 to 2000 characters, the failure is recorded with that
  text and the obligations satisfied so far, and re-raised. A failure with no text, or a longer one, is refused by
  the service: nothing is recorded and the caller sees the client's RuntimeError in place of the exception.
\<close>

theorem enforcement_recorded:
  assumes "reportable env who parse_dt db p ev (pep_pep_id pep) stamp metadata"
    and "(case jlist (rcpt_reasons_json p) of [] \<Rightarrow> JStr ''No policy reason was recorded'' | r # _ \<Rightarrow> r) = JStr reason"
    and "local_run frepr hs env p ev operation v = (v', sat, r)"
  shows "(\<not> rcpt_decision p \<and> field_length 1 2000 reason \<longrightarrow>
            (\<exists>db'. enforce frepr str_exc (with_handlers (lifted_handlers hs) pep) (served env uuid parse_dt who) stamp (decision_response env p)
                (lifted_operation operation) metadata (db, v) = ((db', v), Inl (EnforcementDenied reason)) \<and>
              recorded db db' p Rejected [] (Some reason))) \<and>
         (rcpt_decision p \<longrightarrow> (\<forall>x. r = Inr x \<longrightarrow>
            (\<exists>db'. enforce frepr str_exc (with_handlers (lifted_handlers hs) pep) (served env uuid parse_dt who) stamp (decision_response env p)
                (lifted_operation operation) metadata (db, v) = ((db', v'), Inr x) \<and>
              recorded db db' p Applied (enforced_ids ev) None)) \<and>
          (\<forall>exc. r = Inl exc \<longrightarrow>
            (if field_length 1 2000 (str_exc exc)
             then \<exists>db' ss. enforce frepr str_exc (with_handlers (lifted_handlers hs) pep) (served env uuid parse_dt who) stamp
                  (decision_response env p) (lifted_operation operation) metadata (db, v) = ((db', v'), Inl exc) \<and>
                sat = map JStr ss \<and> recorded db db' p Failed ss (Some (str_exc exc))
             else \<exists>m. enforce frepr str_exc (with_handlers (lifted_handlers hs) pep) (served env uuid parse_dt who) stamp
                  (decision_response env p) (lifted_operation operation) metadata (db, v) = ((db, v'), Inl (RuntimeError m)))))"
proof -
  let ?pep = "with_handlers (lifted_handlers hs) pep"
  let ?enforce = "enforce frepr str_exc ?pep (served env uuid parse_dt who) stamp (decision_response env p) (lifted_operation operation) metadata (db, v)"
  have rep: "reportable env who parse_dt db p ev (pep_pep_id ?pep) stamp metadata"
    using assms(1) by (simp add: with_handlers_def)
  have rid: "rcpt_receipt_id p \<noteq> []" "rcpt_obligations_json p = obligations_json ev" "length (ev_controls ev) \<le> 100"
    using assms(1) by (auto simp: reportable_def field_length_def)
  obtain ss where ss: "sat = map JStr ss" "set ss \<subseteq> set (enforced_ids ev)" "length ss \<le> 100" "is_ok r \<Longrightarrow> ss = enforced_ids ev"
    using local_run_ids[OF assms(3)] rid(3) by (metis le_trans)
  have permitted: "?enforce = (case r of
      Inl e \<Rightarrow> after_report (report ?pep (served env uuid parse_dt who) stamp (JStr (rcpt_receipt_id p)) ''failed'' sat
                 (JStr (str_exc e)) metadata (db, v')) (Inl e)
    | Inr x \<Rightarrow> after_report (report ?pep (served env uuid parse_dt who) stamp (JStr (rcpt_receipt_id p)) ''applied'' sat JNull metadata (db, v')) (Inr x))"
    if "rcpt_decision p"
    using that rid assms(3)
    by (cases r) (simp_all add: enforce_def answer_fields items_of_obligations attempt_lift local_run_def with_handlers_def)
  show ?thesis
  proof (intro conjI impI allI)
    assume a: "\<not> rcpt_decision p \<and> field_length 1 2000 reason"
    then have "truthy_opt (Some reason)" "opt_field 0 2000 (Some reason)" by (auto simp: truthy_opt_def opt_field_def field_length_def)
    from report_accepted[OF rep, of "''rejected''" Rejected "[]" "Some reason" uuid v] a this
    obtain db' answer where "report ?pep (served env uuid parse_dt who) stamp (JStr (rcpt_receipt_id p)) ''rejected'' []
      (JStr reason) metadata (db, v) = ((db', v), Inr answer)" "recorded db db' p Rejected [] (Some reason)"
      by (auto simp: read_outcome_def jopt_def)
    then show "\<exists>db'. ?enforce = ((db', v), Inl (EnforcementDenied reason)) \<and> recorded db db' p Rejected [] (Some reason)"
      using a rid assms(2) by (auto simp: enforce_def answer_fields Let_def after_report_def py_str_def)
  next
    fix x assume a: "rcpt_decision p" "r = Inr x"
    from report_accepted[OF rep, of "''applied''" Applied "enforced_ids ev" None uuid v'] a ss
    obtain db' answer where "report ?pep (served env uuid parse_dt who) stamp (JStr (rcpt_receipt_id p)) ''applied'' sat
      JNull metadata (db, v') = ((db', v'), Inr answer)" "recorded db db' p Applied (enforced_ids ev) None"
      by (auto simp: read_outcome_def opt_field_def jopt_def)
    then show "\<exists>db'. ?enforce = ((db', v'), Inr x) \<and> recorded db db' p Applied (enforced_ids ev) None"
      using a permitted by (auto simp: after_report_def)
  next
    fix exc assume a: "rcpt_decision p" "r = Inl exc"
    show "if field_length 1 2000 (str_exc exc)
      then \<exists>db' ss. ?enforce = ((db', v'), Inl exc) \<and> sat = map JStr ss \<and> recorded db db' p Failed ss (Some (str_exc exc))
      else \<exists>m. ?enforce = ((db, v'), Inl (RuntimeError m))"
    proof (cases "field_length 1 2000 (str_exc exc)")
      case True
      then have "truthy_opt (Some (str_exc exc))" "opt_field 0 2000 (Some (str_exc exc))"
        by (auto simp: truthy_opt_def opt_field_def field_length_def)
      with report_accepted[OF rep, of "''failed''" Failed ss "Some (str_exc exc)" uuid v'] ss
      obtain db' answer where "report ?pep (served env uuid parse_dt who) stamp (JStr (rcpt_receipt_id p)) ''failed'' sat
        (JStr (str_exc exc)) metadata (db, v') = ((db', v'), Inr answer)" "recorded db db' p Failed ss (Some (str_exc exc))"
        by (auto simp: read_outcome_def jopt_def)
      then show ?thesis using a permitted True ss by (auto simp: after_report_def)
    next
      case False
      then have "str_exc exc = [] \<or> length (str_exc exc) > 2000" by (cases "str_exc exc") (auto simp: field_length_def)
      from report_refused[OF rep this, of uuid ss v'] a permitted False ss show ?thesis
        by (auto simp: after_report_def)
    qed
  qed
qed


section \<open>Instances\<close>

text \<open>A permitted receipt that requires an entry in the audit log.\<close>

definition audit_evaluation :: evaluation where
  "audit_evaluation = \<lparr>ev_decision = Allow, ev_risk_score = 20, ev_reasons = [JStr ''allowed''], ev_controls = [''audit-log''],
     ev_confidence = 1, ev_policy_version = ''v1'', ev_expires_in_seconds = 300, ev_matched_policies = []\<rparr>"

definition audit_receipt :: runtime_decision_receipt where
  "audit_receipt = new_receipt sample_env empty_db ''r1'' ''default'' None None (sample_request ''user'' ''report'') audit_evaluation None"

definition audit_receipt_db :: db where
  "audit_receipt_db = empty_db\<lparr>db_receipts := [audit_receipt]\<rparr>"

definition audit_report :: enforcement_create where
  "audit_report = \<lparr>ee_event_id = Some ''ev1'', ee_receipt_id = ''r1'', ee_pep_id = ''pep'', ee_outcome = Applied,
     ee_satisfied = [''audit-log''], ee_failure_reason = None, ee_metadata = JObj [], ee_occurred_at = \<lparr>dt_wall = 0, dt_offset = Some 0\<rparr>\<rparr>"

lemma audit_receipt_fields [simp]:
  "rcpt_receipt_id audit_receipt = ''r1''" "rcpt_tenant_id audit_receipt = ''default''"
  "rcpt_obligations_json audit_receipt = obligations_json audit_evaluation" "rcpt_decision audit_receipt"
  "rcpt_reasons_json audit_receipt = JList [JStr ''allowed'']"
  by (simp_all add: audit_receipt_def new_receipt_def Let_def audit_evaluation_def permitted_by_def)

lemma audit_required: "required_obligations audit_receipt = [''audit-log'']"
  by (simp add: required_obligations_def obligations_json_def audit_evaluation_def py_get_def sorted_set_def)

lemma audit_find: "find_receipt audit_receipt_db ''default'' ''r1'' = Some audit_receipt"
  by (simp add: audit_receipt_db_def find_receipt_def scalar_Cons)

lemma audit_metadata: "metadata_digest sample_env (JObj []) = Inr ''ab''"
  by (simp add: metadata_digest_def sha256_json_def canonical_json_def sample_env_def base_env_def)

text \<open>A bound on the length of a document's compact text that does not depend on the order of its keys.\<close>

fun text_bound :: "(rat \<Rightarrow> string) \<Rightarrow> json \<Rightarrow> nat" where
  "text_bound frepr (JStr s) = 6 * length s + 2"
| "text_bound frepr (JList xs) = 2 + sum_list (map (\<lambda>x. text_bound frepr x + 1) xs)"
| "text_bound frepr (JObj d) = 2 + sum_list (map (\<lambda>(k, v). 6 * length k + 4 + text_bound frepr v) d)"
| "text_bound frepr v = length (json_dumps frepr '','' '':'' v)"

lemma length_quote: "length (json_quote s) \<le> 6 * length s + 2"
proof -
  have "length (json_escape_char c) \<le> 6" for c by (simp add: json_escape_char_def Let_def)
  then have "length (concat (map json_escape_char s)) \<le> 6 * length s"
    by (induction s) (simp_all, metis add_le_mono)
  then show ?thesis by (simp add: json_quote_def)
qed

lemma length_join: "length (join [c] xs) \<le> sum_list (map (\<lambda>x. length x + 1) xs)"
  by (induction "[c]" xs rule: join.induct) auto

lemma sum_list_sort_key: "sum_list (map (f :: 'x \<Rightarrow> nat) (sort_key k xs)) = sum_list (map f xs)"
  by (metis mset_map mset_sort sum_mset_sum_list)

lemma text_bound_sort_keys: "text_bound frepr (sort_keys v) = text_bound frepr v"
proof (induction v)
  case (JList xs)
  then show ?case by (simp add: comp_def cong: map_cong)
next
  case (JObj d)
  then show ?case
    by (auto simp: sum_list_sort_key comp_def split_beta intro!: arg_cong[where f = sum_list])
qed simp_all

lemma length_json_dumps: "length (json_dumps frepr '','' '':'' v) \<le> text_bound frepr v"
proof (induction v)
  case (JStr s)
  show ?case using length_quote[of s] by simp
next
  case (JList xs)
  have "length (join '','' (map (json_dumps frepr '','' '':'') xs)) \<le> sum_list (map (\<lambda>x. length (json_dumps frepr '','' '':'' x) + 1) xs)"
    using length_join[of "CHR '',''" "map (json_dumps frepr '','' '':'') xs"] by (simp add: comp_def)
  also have "\<dots> \<le> sum_list (map (\<lambda>x. text_bound frepr x + 1) xs)"
    by (rule sum_list_mono) (use JList in simp)
  finally show ?case by simp
next
  case (JObj d)
  let ?f = "\<lambda>(k, v). json_quote k @ '':'' @ json_dumps frepr '','' '':'' v"
  have "length (join '','' (map ?f d)) \<le> sum_list (map (\<lambda>x. length (?f x) + 1) d)"
    using length_join[of "CHR '',''" "map ?f d"] by (simp add: comp_def)
  also have "\<dots> \<le> sum_list (map (\<lambda>(k, v). 6 * length k + 4 + text_bound frepr v) d)"
  proof (rule sum_list_mono)
    fix x assume "x \<in> set d"
    with JObj[of x "snd x"] length_quote[of "fst x"] show "length (?f x) + 1 \<le> (case x of (k, v) \<Rightarrow> 6 * length k + 4 + text_bound frepr v)"
      by (cases x) auto
  qed
  finally show ?case by simp
qed simp_all

lemma bounded_payload_small:
  assumes "is_jobj v" and "inspect v = Inr ()" and "text_bound (env_frepr env) v \<le> 65536"
  shows "is_ok (bounded_payload env v)"
proof -
  have "length (canonical_json (env_frepr env) v) \<le> text_bound (env_frepr env) v"
    using length_json_dumps[of "env_frepr env" "sort_keys v"] by (simp add: canonical_json_def text_bound_sort_keys)
  then have "\<not> int (length (canonical_json (env_frepr env) v)) > MAX_OUTBOX_BYTES"
    using assms(3) unfolding MAX_OUTBOX_BYTES_def by linarith
  with assms(1,2) show ?thesis by (simp add: bounded_payload_def)
qed

lemma audit_payloads:
  assumes "ss = [] \<or> ss = [''audit-log'']"
  shows "is_ok (bounded_payload sample_env (JObj
     [(''event_id'', JStr ''ev1''), (''receipt_id'', JStr ''r1''), (''pep_id'', JStr ''pep''),
      (''outcome'', JStr (outcome_str oc)), (''required_obligations'', strings_json [''audit-log'']),
      (''satisfied_obligations'', strings_json ss), (''occurred_at'', JStr ''1970-01-01T00:00:00+00:00'')]))"
proof (rule bounded_payload_small)
  have keys: "\<not> forbidden_key ''event_id''" "\<not> forbidden_key ''receipt_id''" "\<not> forbidden_key ''pep_id''" "\<not> forbidden_key ''outcome''"
    "\<not> forbidden_key ''required_obligations''" "\<not> forbidden_key ''satisfied_obligations''" "\<not> forbidden_key ''occurred_at''"
    by code_simp+
  show "inspect (JObj
     [(''event_id'', JStr ''ev1''), (''receipt_id'', JStr ''r1''), (''pep_id'', JStr ''pep''),
      (''outcome'', JStr (outcome_str oc)), (''required_obligations'', strings_json [''audit-log'']),
      (''satisfied_obligations'', strings_json ss), (''occurred_at'', JStr ''1970-01-01T00:00:00+00:00'')]) = Inr ()"
    using assms by (cases oc) (auto simp: keys outcome_str_def strings_json_def)
  show "text_bound (env_frepr sample_env) (JObj
     [(''event_id'', JStr ''ev1''), (''receipt_id'', JStr ''r1''), (''pep_id'', JStr ''pep''),
      (''outcome'', JStr (outcome_str oc)), (''required_obligations'', strings_json [''audit-log'']),
      (''satisfied_obligations'', strings_json ss), (''occurred_at'', JStr ''1970-01-01T00:00:00+00:00'')]) \<le> 65536"
    using assms by (cases oc) (auto simp: outcome_str_def strings_json_def)
qed simp

lemma audit_payload_at:
  "ee_pep_id v = ''pep'' \<Longrightarrow> ee_occurred_at v = \<lparr>dt_wall = 0, dt_offset = Some 0\<rparr> \<Longrightarrow> set (ee_satisfied v) \<subseteq> {''audit-log''} \<Longrightarrow>
    is_ok (bounded_payload sample_env (enforcement_payload sample_env ''ev1'' audit_receipt v))"
proof -
  assume a: "ee_pep_id v = ''pep''" "ee_occurred_at v = \<lparr>dt_wall = 0, dt_offset = Some 0\<rparr>" "set (ee_satisfied v) \<subseteq> {''audit-log''}"
  have "set (ee_satisfied v) = set [] \<or> set (ee_satisfied v) = set [''audit-log'']" using a(3) by (cases "ee_satisfied v") auto
  then have "sorted_set (ee_satisfied v) = [] \<or> sorted_set (ee_satisfied v) = [''audit-log'']"
    unfolding sorted_set_eq[symmetric] by (simp add: sorted_set_def)
  moreover have "datetime_isoformat sample_env \<lparr>dt_wall = 0, dt_offset = Some 0\<rparr> = ''1970-01-01T00:00:00+00:00''" by code_simp
  ultimately show ?thesis
    using audit_payloads[of "sorted_set (ee_satisfied v)" "ee_outcome v"] a by (simp add: enforcement_payload_def audit_required)
qed

lemma audit_unused:
  "find_enforcement audit_receipt_db t i = None" "find_outbox_key audit_receipt_db t key = None"
  by (simp_all add: audit_receipt_db_def empty_db_def find_enforcement_def find_outbox_key_def)

theorem applied_event_justified_witness:
  "\<exists>w1 p e. (enforcement_step sample_env sample_crypto)\<^sup>*\<^sup>* (audit_receipt_db, Map.empty, Map.empty) w1 \<and>
     p \<in> set (db_receipts (fst w1)) \<and> justifies p e \<and> enf_outcome e = Applied"
proof -
  from audit_payload_at[of audit_report] obtain doc where
    "bounded_payload sample_env (enforcement_payload sample_env ''ev1'' audit_receipt audit_report) = Inr doc"
    by (auto simp: audit_report_def is_ok_iff)
  with record_enforcement_new[of audit_report "''ev1''" audit_receipt_db "''default''" audit_receipt sample_env "''ab''" doc "(''x'', ''y'')" "''pep''"]
  obtain db' e where db': "record_enforcement_event sample_env (''x'', ''y'') ''default'' audit_report ''pep'' audit_receipt_db = Inr (db', e, False)"
      "db_enforcement db' = db_enforcement audit_receipt_db @ [e]" "enf_outcome e = Applied"
    using audit_find audit_metadata
    by (auto simp: audit_unused enforcement_checks_Inr audit_required) (auto simp: audit_report_def new_enforcement_def)
  have "enforcement_step sample_env sample_crypto (audit_receipt_db, Map.empty, Map.empty) (db', Map.empty, Map.empty)"
    by (rule EventRecorded[where now = "env_now sample_env"]) (use db'(1) in simp)
  then have "(enforcement_step sample_env sample_crypto)\<^sup>*\<^sup>* (audit_receipt_db, Map.empty, Map.empty) (db', Map.empty, Map.empty)" by blast
  from applied_event_justified[OF _ this, of e] db' show ?thesis
    by (auto simp: audit_receipt_db_def empty_db_def)
qed

text \<open>A client with one handler, whose world is a number.\<close>

definition audit_handlers :: "string \<Rightarrow> nat handler option" where
  "audit_handlers = [''audit-log'' \<mapsto> (\<lambda>ps d v. (v + 1, Inr ()))]"

definition audit_pep :: "nat pep" where
  "audit_pep = new_pep ''https://odg/'' ''pep'' [] []"

definition audit_answer :: dict where
  "audit_answer = [(''decision'', JBool True), (''context'', JObj [(''obligations'', obligations_json audit_evaluation),
     (''receipt'', JObj [(''id'', JStr ''r1'')])])]"

theorem operation_guarded_witness:
  "\<exists>req. enforce (\<lambda>r. ''0.5'') (\<lambda>e. ''error'') (with_handlers (logged_handlers audit_handlers) audit_pep)
     (logged_transport (\<lambda>req v. (v, Answer JNull))) (''ev1'', ''now'') audit_answer (logged_operation (\<lambda>v. (2 * v, Inr v))) [] (3, [])
     = ((8, [Handled ''audit-log'' True, Ran True, Sent req]), Inr 4) \<and> py_get (jobj (hr_body req)) ''outcome'' = JStr ''applied''"
proof -
  let ?run = "enforce (\<lambda>r. ''0.5'') (\<lambda>e. ''error'') (with_handlers (logged_handlers audit_handlers) audit_pep)
     (logged_transport (\<lambda>req v. (v, Answer JNull))) (''ev1'', ''now'') audit_answer (logged_operation (\<lambda>v. (2 * v, Inr v))) [] (3, [])"
  let ?ctx = "[(''obligations'', obligations_json audit_evaluation), (''receipt'', JObj [(''id'', JStr ''r1'')])]"
  have fields: "get_object audit_answer ''context'' = Inr ?ctx" "get_object ?ctx ''receipt'' = Inr [(''id'', JStr ''r1'')]"
    "py_get [(''id'', JStr ''r1'')] ''id'' = JStr ''r1''" "py_get audit_answer ''decision'' = JBool True"
    "py_get_default ?ctx ''obligations'' (JList []) = obligations_json audit_evaluation"
    by (simp_all add: audit_answer_def get_object_def py_get_default_def py_get_def)
  have items: "items_of (obligations_json audit_evaluation) = Inr [obligation_of ''audit-log'']" "needed [obligation_of ''audit-log''] = [obligation_of ''audit-log'']"
    by (simp_all add: items_of_obligations needed_def) (simp add: audit_evaluation_def)
  have run: "fst (fst ?run) = 8 \<and> snd ?run = Inr 4"
    by (simp add: enforce_def fields items attempt_def with_handlers_def logged_handlers_def audit_handlers_def handler_for_def
        logged_operation_def after_report_def report_def pep_request_def logged_transport_def Let_def)
  define evs where "evs = snd (fst ?run)"
  have evs: "?run = ((8, evs), Inr 4)" using run unfolding evs_def by (intro prod_eqI) simp_all
  have payload: "py_get (report_payload pep stamp rid outcome sat reason metadata) ''outcome'' = JStr outcome"
    for pep :: "'w pep" and stamp rid outcome sat reason metadata
    by (simp add: report_payload_def py_get_def)
  have guarded: "(\<forall>b. Ran b \<in> set evs \<longrightarrow> (\<exists>ctx obs req rid reason. get_object audit_answer ''context'' = Inr ctx \<and>
       items_of (py_get_default ctx ''obligations'' (JList [])) = Inr obs \<and> evs = all_handled (needed obs) @ [Ran b, Sent req] \<and>
       hr_body req = JObj (report_payload audit_pep (''ev1'', ''now'') rid (if b then ''applied'' else ''failed'') (ids_of (needed obs)) reason []))) \<and>
     Ran True \<in> set evs"
    using operation_guarded[OF evs] by simp
  then obtain ctx obs req rid reason where o: "get_object audit_answer ''context'' = Inr ctx"
      "items_of (py_get_default ctx ''obligations'' (JList [])) = Inr obs" "evs = all_handled (needed obs) @ [Ran True, Sent req]"
      "hr_body req = JObj (report_payload audit_pep (''ev1'', ''now'') rid (if True then ''applied'' else ''failed'') (ids_of (needed obs)) reason [])"
    by blast
  then have "obs = [obligation_of ''audit-log'']" by (auto simp: fields items)
  with o(3,4) evs show ?thesis
    by (intro exI[of _ req]) (simp add: items payload)
qed

theorem enforcement_recorded_witness:
  "\<exists>db'. enforce (env_frepr sample_env) (\<lambda>e. ''error'') (with_handlers (lifted_handlers audit_handlers) audit_pep)
     (served sample_env (''x'', ''y'') (\<lambda>s. Some \<lparr>dt_wall = 0, dt_offset = Some 0\<rparr>) \<lparr>p_subject = ''pep'', p_role = Analyst, p_tenant_id = ''default''\<rparr>)
     (''ev1'', ''now'') (decision_response sample_env audit_receipt) (lifted_operation (\<lambda>v. (2 * v, Inr v))) [] (audit_receipt_db, 3)
     = ((db', 8), Inr 4) \<and> recorded audit_receipt_db db' audit_receipt Applied [''audit-log''] None"
proof -
  let ?who = "\<lparr>p_subject = ''pep'', p_role = Analyst, p_tenant_id = ''default''\<rparr>"
  have ids: "enforced_ids audit_evaluation = [''audit-log'']" "ev_controls audit_evaluation = [''audit-log'']"
    by (simp_all add: enforced_ids_def audit_evaluation_def)
  have "reportable sample_env ?who (\<lambda>s. Some \<lparr>dt_wall = 0, dt_offset = Some 0\<rparr>) audit_receipt_db audit_receipt audit_evaluation
      (pep_pep_id audit_pep) (''ev1'', ''now'') []"
    using audit_find audit_metadata audit_payload_at
    by (auto simp: reportable_def ids audit_unused audit_pep_def new_pep_def field_length_def name_char_def)
  moreover have "local_run (env_frepr sample_env) audit_handlers sample_env audit_receipt audit_evaluation (\<lambda>v. (2 * v, Inr v)) 3
      = (8, [JStr ''audit-log''], Inr 4)"
    by (simp add: local_run_def attempt_def ids needed_def Let_def handler_for_def audit_handlers_def)
  ultimately show ?thesis
    using enforcement_recorded[of sample_env ?who "\<lambda>s. Some \<lparr>dt_wall = 0, dt_offset = Some 0\<rparr>" audit_receipt_db audit_receipt
        audit_evaluation audit_pep "(''ev1'', ''now'')" "[]" "''allowed''" "env_frepr sample_env" audit_handlers "\<lambda>v. (2 * v, Inr v)" 3 8 "[JStr ''audit-log'']" "Inr 4" "\<lambda>e. ''error''" "(''x'', ''y'')"] ids
    by simp
qed

end
