(* ===== verification/ServiceAccounts.thy ===== *)
theory ServiceAccounts
  imports PolicyBundles
begin

text \<open>
  \<open>app/services/service_accounts.py\<close> with its routes in \<open>app/v15.py\<close>: accounts for automation, their credentials, the
  authentication of a key, the rotation of a credential with a grace period, and the disabling of an account.
  PBKDF2 and the identifiers and secrets drawn are parameters; an operation reads the clock once.
\<close>

section \<open>Keys\<close>

definition ROLES :: "role list" where
  "ROLES = [ReadOnly, Auditor, Analyst, ConnectorOperator, DataOwner, Administrator]"

definition role_of_str :: "string \<Rightarrow> role option" where
  "role_of_str s = find (\<lambda>r. role_str r = s) ROLES"

definition PBKDF2_ITERATIONS :: nat where "PBKDF2_ITERATIONS = 310000"

text \<open>What issuing a credential draws, and the derivation of a hash from a secret, a salt and a count.\<close>

record drawn_credential =
  dr_credential_id :: string
  dr_secret :: string
  dr_salt :: string

type_synonym pbkdf2 = "string \<Rightarrow> string \<Rightarrow> nat \<Rightarrow> string"

definition hash_secret :: "pbkdf2 \<Rightarrow> string \<Rightarrow> string \<Rightarrow> string" where
  "hash_secret kdf secret salt = kdf secret salt PBKDF2_ITERATIONS"

definition key_text :: "string \<Rightarrow> string \<Rightarrow> string" where
  "key_text credential_id secret = ''odg_sa_'' @ credential_id @ ''_'' @ secret"

text \<open>\<open>s.split(c, n)\<close>.\<close>

fun py_split_max :: "char \<Rightarrow> nat \<Rightarrow> string \<Rightarrow> string list" where
  "py_split_max c 0 s = [s]"
| "py_split_max c (Suc n) s = (case py_partition c s of (a, found, r) \<Rightarrow> if found then a # py_split_max c n r else [a])"

definition parse_key :: "string \<Rightarrow> (string \<times> string) option" where
  "parse_key key = (case py_split_max CHR ''_'' 3 key of
       [p0, p1, credential_id, secret] \<Rightarrow>
         if p0 \<noteq> ''odg'' \<or> p1 \<noteq> ''sa'' then None
         else if length credential_id \<noteq> 36 \<or> length secret < 32 then None else Some (credential_id, secret)
     | _ \<Rightarrow> None)"

section \<open>Issuing\<close>

definition new_account ::
  "env \<Rightarrow> db \<Rightarrow> string \<Rightarrow> string \<Rightarrow> string \<Rightarrow> string \<Rightarrow> string \<Rightarrow> role \<Rightarrow> string \<Rightarrow> service_account" where
  "new_account env db uuid tenant_id name description owner role created_by =
     \<lparr>acct_id = next_id acct_id (db_accounts db), acct_tenant_id = tenant_id, acct_account_id = uuid, acct_name = name,
      acct_description = description, acct_owner = owner, acct_role = role, acct_status = AcctActive,
      acct_last_authenticated_at = None, acct_created_by = created_by, acct_created_at = env_now env, acct_disabled_at = None\<rparr>"

definition new_credential ::
  "env \<Rightarrow> pbkdf2 \<Rightarrow> db \<Rightarrow> drawn_credential \<Rightarrow> service_account \<Rightarrow> int \<Rightarrow> service_account_credential" where
  "new_credential env kdf db d a days =
     \<lparr>cred_id = next_id cred_id (db_credentials db), cred_tenant_id = acct_tenant_id a,
      cred_credential_id = dr_credential_id d, cred_account_id = acct_account_id a, cred_secret_salt = dr_salt d,
      cred_secret_hash = hash_secret kdf (dr_secret d) (dr_salt d), cred_status = CredActive, cred_issued_at = env_now env,
      cred_expires_at = env_now env + td_days days, cred_retire_after = None, cred_revoked_at = None, cred_last_used_at = None\<rparr>"

text \<open>The credential's identifier is unique in the whole table.\<close>

definition issue_credential ::
  "env \<Rightarrow> pbkdf2 \<Rightarrow> drawn_credential \<Rightarrow> service_account \<Rightarrow> int \<Rightarrow> db \<Rightarrow> (db \<times> service_account_credential \<times> string) result" where
  "issue_credential env kdf d a days db =
     (let c = new_credential env kdf db d a days in
      rbind (raise_if (list_ex (\<lambda>x. cred_credential_id x = dr_credential_id d) (db_credentials db))
               (OtherError ''IntegrityError'')) (\<lambda>_.
      Inr (db\<lparr>db_credentials := db_credentials db @ [c]\<rparr>, c, key_text (dr_credential_id d) (dr_secret d))))"

definition credential_lifetime :: "env \<Rightarrow> int option \<Rightarrow> int result" where
  "credential_lifetime env credential_days =
     (let days = or_int credential_days (cfg_service_account_credential_days (env_settings env)) in
      if 1 \<le> days \<and> days \<le> 365 then Inr days
      else Inl (ValueError ''Service account credential lifetime must be 1 to 365 days''))"

definition create_service_account ::
  "env \<Rightarrow> pbkdf2 \<Rightarrow> string \<Rightarrow> drawn_credential \<Rightarrow> string \<Rightarrow> string \<Rightarrow> string \<Rightarrow> string \<Rightarrow> string \<Rightarrow> string \<Rightarrow> int option \<Rightarrow> db \<Rightarrow>
     (db \<times> service_account \<times> service_account_credential \<times> string) result" where
  "create_service_account env kdf uuid d tenant_id name description owner role created_by credential_days db =
     (case role_of_str role of
        None \<Rightarrow> Inl (ValueError ''Service account role is invalid'')
      | Some r \<Rightarrow>
          rbind (credential_lifetime env credential_days) (\<lambda>days.
          let a = new_account env db uuid tenant_id name description owner r created_by in
          rbind (raise_if (list_ex (\<lambda>x. acct_tenant_id x = tenant_id \<and> (acct_account_id x = uuid \<or> acct_name x = name)) (db_accounts db))
                   (OtherError ''IntegrityError'')) (\<lambda>_.
          rbind (issue_credential env kdf d a days (db\<lparr>db_accounts := db_accounts db @ [a]\<rparr>)) (\<lambda>(db', c, key).
          Inr (db', a, c, key)))))"

section \<open>Authentication\<close>

definition update_credentials ::
  "(service_account_credential \<Rightarrow> bool) \<Rightarrow> (service_account_credential \<Rightarrow> service_account_credential) \<Rightarrow> db \<Rightarrow> db" where
  "update_credentials P f db = db\<lparr>db_credentials := update_rows P f (db_credentials db)\<rparr>"

definition update_accounts :: "(service_account \<Rightarrow> bool) \<Rightarrow> (service_account \<Rightarrow> service_account) \<Rightarrow> db \<Rightarrow> db" where
  "update_accounts P f db = db\<lparr>db_accounts := update_rows P f (db_accounts db)\<rparr>"

definition find_account :: "db \<Rightarrow> string \<Rightarrow> string \<Rightarrow> service_account option" where
  "find_account db tenant_id account_id =
     scalar (\<lambda>a. acct_tenant_id a = tenant_id \<and> acct_account_id a = account_id) (db_accounts db)"

record identity =
  id_subject :: string
  id_role :: role
  id_tenant_id :: string
  id_account_id :: string
  id_credential_id :: string

definition not_retired :: "time \<Rightarrow> service_account_credential \<Rightarrow> bool" where
  "not_retired now c = (case cred_retire_after c of None \<Rightarrow> True | Some r \<Rightarrow> now < r)"

definition authenticate_service_account :: "env \<Rightarrow> pbkdf2 \<Rightarrow> string \<Rightarrow> db \<Rightarrow> db \<times> identity option" where
  "authenticate_service_account env kdf key db =
     (case parse_key key of
        None \<Rightarrow> (db, None)
      | Some (credential_id, secret) \<Rightarrow>
          (case scalar (\<lambda>c. cred_credential_id c = credential_id \<and> cred_status c = CredActive) (db_credentials db) of
             None \<Rightarrow> (db, None)
           | Some c \<Rightarrow>
               if cred_expires_at c \<le> env_now env \<or> \<not> not_retired (env_now env) c then (db, None)
               else if hash_secret kdf secret (cred_secret_salt c) \<noteq> cred_secret_hash c then (db, None)
               else case scalar (\<lambda>a. acct_tenant_id a = cred_tenant_id c \<and> acct_account_id a = cred_account_id c \<and>
                                   acct_status a = AcctActive) (db_accounts db) of
                      None \<Rightarrow> (db, None)
                    | Some a \<Rightarrow>
                        (update_accounts (\<lambda>x. acct_id x = acct_id a) (\<lambda>x. x\<lparr>acct_last_authenticated_at := Some (env_now env)\<rparr>)
                           (update_credentials (\<lambda>x. cred_id x = cred_id c) (\<lambda>x. x\<lparr>cred_last_used_at := Some (env_now env)\<rparr>) db),
                         Some \<lparr>id_subject = ''service-account:'' @ acct_account_id a, id_role = acct_role a,
                           id_tenant_id = acct_tenant_id a, id_account_id = acct_account_id a,
                           id_credential_id = cred_credential_id c\<rparr>)))"

section \<open>Rotation\<close>

definition active_rotation :: "env \<Rightarrow> service_account \<Rightarrow> credential_rotation \<Rightarrow> bool" where
  "active_rotation env a r =
     (rot_tenant_id r = acct_tenant_id a \<and> rot_account_id r = acct_account_id a \<and> rot_status r = RotGrace \<and>
      rot_grace_ends_at r > env_now env)"

definition current_credential :: "env \<Rightarrow> service_account \<Rightarrow> db \<Rightarrow> service_account_credential option" where
  "current_credential env a db =
     scalar (\<lambda>c. True) (order_by_desc cred_issued_at (where_rows (\<lambda>c. cred_tenant_id c = acct_tenant_id a \<and>
       cred_account_id c = acct_account_id a \<and> cred_status c = CredActive \<and> cred_expires_at c > env_now env) (db_credentials db)))"

definition retire_credential :: "env \<Rightarrow> int \<Rightarrow> service_account_credential \<Rightarrow> service_account_credential" where
  "retire_credential env grace c =
     (let c' = c\<lparr>cred_retire_after := Some (env_now env + td_hours grace)\<rparr> in
      if grace = 0 then c'\<lparr>cred_status := CredRevoked, cred_revoked_at := Some (env_now env)\<rparr> else c')"

definition new_rotation ::
  "env \<Rightarrow> string \<Rightarrow> db \<Rightarrow> service_account \<Rightarrow> string \<Rightarrow> string \<Rightarrow> int \<Rightarrow> string \<Rightarrow> credential_rotation" where
  "new_rotation env uuid db a old_id new_id grace requested_by =
     \<lparr>rot_id = next_id rot_id (db_rotations db), rot_tenant_id = acct_tenant_id a, rot_rotation_id = uuid,
      rot_account_id = acct_account_id a, rot_old_credential_id = old_id, rot_new_credential_id = new_id,
      rot_status = (if grace = 0 then RotCompleted else RotGrace), rot_grace_ends_at = env_now env + td_hours grace,
      rot_requested_by = requested_by, rot_created_at = env_now env,
      rot_completed_at = (if grace = 0 then Some (env_now env) else None)\<rparr>"

definition rotate_service_account ::
  "env \<Rightarrow> pbkdf2 \<Rightarrow> string \<Rightarrow> drawn_credential \<Rightarrow> service_account \<Rightarrow> string \<Rightarrow> int option \<Rightarrow> int option \<Rightarrow> db \<Rightarrow>
     (db \<times> credential_rotation \<times> service_account_credential \<times> string) result" where
  "rotate_service_account env kdf uuid d a requested_by grace_hours credential_days db =
     rbind (raise_if (acct_status a \<noteq> AcctActive) (ValueError ''Only active service accounts can rotate credentials'')) (\<lambda>_.
     rbind (raise_if (list_ex (active_rotation env a) (db_rotations db))
              (ValueError ''Service account already has an active credential rotation'')) (\<lambda>_.
     case current_credential env a db of
       None \<Rightarrow> Inl (ValueError ''Service account has no active credential'')
     | Some old \<Rightarrow>
         let grace = (case grace_hours of None \<Rightarrow> cfg_service_account_rotation_grace_hours (env_settings env) | Some g \<Rightarrow> g) in
         rbind (raise_if (\<not> (0 \<le> grace \<and> grace \<le> 168))
                  (ValueError ''Credential rotation grace period must be 0 to 168 hours'')) (\<lambda>_.
         rbind (credential_lifetime env credential_days) (\<lambda>days.
         rbind (issue_credential env kdf d a days db) (\<lambda>(db1, c, key).
         let db2 = update_credentials (\<lambda>x. cred_id x = cred_id old) (retire_credential env grace) db1;
             r = new_rotation env uuid db a (cred_credential_id old) (cred_credential_id c) grace requested_by in
         rbind (raise_if (list_ex (\<lambda>x. rot_tenant_id x = acct_tenant_id a \<and> rot_rotation_id x = uuid) (db_rotations db))
                  (OtherError ''IntegrityError'')) (\<lambda>_.
         Inr (db2\<lparr>db_rotations := db_rotations db2 @ [r]\<rparr>, r, c, key)))))))"

definition revoke_credential :: "env \<Rightarrow> service_account_credential \<Rightarrow> service_account_credential" where
  "revoke_credential env c =
     c\<lparr>cred_status := CredRevoked, cred_revoked_at := Some (env_now env), cred_retire_after := Some (env_now env)\<rparr>"

text \<open>A rotation has no third status, so the code's last check never fails.\<close>

definition complete_rotation :: "env \<Rightarrow> credential_rotation \<Rightarrow> db \<Rightarrow> db \<times> credential_rotation" where
  "complete_rotation env r db =
     (if rot_status r = RotCompleted then (db, r)
      else
        let db1 = (case scalar (\<lambda>c. cred_tenant_id c = rot_tenant_id r \<and> cred_credential_id c = rot_old_credential_id r)
                          (db_credentials db) of
                     None \<Rightarrow> db
                   | Some c \<Rightarrow> update_credentials (\<lambda>x. cred_id x = cred_id c) (revoke_credential env) db);
            r' = r\<lparr>rot_status := RotCompleted, rot_completed_at := Some (env_now env)\<rparr>
        in (db1\<lparr>db_rotations := update_rows (\<lambda>x. rot_id x = rot_id r) (\<lambda>x. r') (db_rotations db1)\<rparr>, r'))"

definition disable_service_account :: "env \<Rightarrow> service_account \<Rightarrow> db \<Rightarrow> db \<times> service_account" where
  "disable_service_account env a db =
     (if acct_status a = AcctDisabled then (db, a)
      else
        let a' = a\<lparr>acct_status := AcctDisabled, acct_disabled_at := Some (env_now env)\<rparr> in
        (update_credentials (\<lambda>c. cred_tenant_id c = acct_tenant_id a \<and> cred_account_id c = acct_account_id a \<and>
             cred_status c = CredActive) (revoke_credential env)
           (update_accounts (\<lambda>x. acct_id x = acct_id a) (\<lambda>x. a') db), a'))"

section \<open>Reports and responses\<close>

definition usable :: "time \<Rightarrow> service_account_credential \<Rightarrow> bool" where
  "usable now c = (cred_status c = CredActive \<and> cred_expires_at c > now \<and> not_retired now c)"

definition acct_status_str :: "account_state \<Rightarrow> string" where
  "acct_status_str s = (case s of AcctActive \<Rightarrow> ''active'' | AcctDisabled \<Rightarrow> ''disabled'')"

definition cred_status_str :: "credential_state \<Rightarrow> string" where
  "cred_status_str s = (case s of CredActive \<Rightarrow> ''active'' | CredRevoked \<Rightarrow> ''revoked'')"

definition rot_status_str :: "rotation_state \<Rightarrow> string" where
  "rot_status_str s = (case s of RotGrace \<Rightarrow> ''grace-period'' | RotCompleted \<Rightarrow> ''completed'')"

definition account_row :: "env \<Rightarrow> db \<Rightarrow> service_account \<Rightarrow> dict" where
  "account_row env db a =
     (let creds = filter (usable (env_now env)) (where_rows (\<lambda>c. cred_tenant_id c = acct_tenant_id a \<and>
            cred_account_id c = acct_account_id a) (db_credentials db));
          stale_before = env_now env - td_days (cfg_service_account_stale_days (env_settings env))
      in [(''account_id'', JStr (acct_account_id a)), (''name'', JStr (acct_name a)), (''owner'', JStr (acct_owner a)),
          (''role'', JStr (role_str (acct_role a))), (''status'', JStr (acct_status_str (acct_status a))),
          (''last_authenticated_at'', jopt (jtime env) (acct_last_authenticated_at a)),
          (''active_credentials'', JInt (int (length creds))),
          (''next_credential_expiry'', if creds = [] then JNull else jtime env (Min (set (map cred_expires_at creds)))),
          (''never_used'', JBool (acct_last_authenticated_at a = None)),
          (''stale'', JBool (case acct_last_authenticated_at a of None \<Rightarrow> False | Some t \<Rightarrow> t < stale_before))])"

definition lifecycle_report :: "env \<Rightarrow> db \<Rightarrow> string \<Rightarrow> dict" where
  "lifecycle_report env db tenant_id =
     (let now = env_now env; stale_before = now - td_days (cfg_service_account_stale_days (env_settings env));
          expiring_before = now + td_days 14;
          accounts = order_by acct_name (where_rows (\<lambda>a. acct_tenant_id a = tenant_id) (db_accounts db));
          credentials = where_rows (\<lambda>c. cred_tenant_id c = tenant_id) (db_credentials db);
          rotations = where_rows (\<lambda>r. rot_tenant_id r = tenant_id \<and> rot_status r = RotGrace \<and> rot_grace_ends_at r > now)
            (db_rotations db);
          count = (\<lambda>n. JInt (int n))
      in [(''total_accounts'', count (length accounts)),
          (''active_accounts'', count (row_count (\<lambda>a. acct_status a = AcctActive) accounts)),
          (''disabled_accounts'', count (row_count (\<lambda>a. acct_status a = AcctDisabled) accounts)),
          (''never_used_accounts'', count (row_count (\<lambda>a. acct_last_authenticated_at a = None) accounts)),
          (''stale_accounts'', count (row_count (\<lambda>a. case acct_last_authenticated_at a of None \<Rightarrow> False | Some t \<Rightarrow> t < stale_before) accounts)),
          (''active_credentials'', count (row_count (usable now) credentials)),
          (''expiring_credentials'', count (row_count (\<lambda>c. usable now c \<and> cred_expires_at c \<le> expiring_before) credentials)),
          (''active_rotations'', count (length rotations)),
          (''accounts'', JList (map (\<lambda>a. JObj (account_row env db a)) accounts))])"

definition credential_response :: "env \<Rightarrow> service_account_credential \<Rightarrow> dict" where
  "credential_response env c =
     [(''credential_id'', JStr (cred_credential_id c)), (''status'', JStr (cred_status_str (cred_status c))),
      (''issued_at'', jtime env (cred_issued_at c)), (''expires_at'', jtime env (cred_expires_at c)),
      (''retire_after'', jopt (jtime env) (cred_retire_after c)), (''revoked_at'', jopt (jtime env) (cred_revoked_at c)),
      (''last_used_at'', jopt (jtime env) (cred_last_used_at c))]"

definition service_account_response :: "env \<Rightarrow> service_account \<Rightarrow> service_account_credential list \<Rightarrow> dict" where
  "service_account_response env a creds =
     [(''account_id'', JStr (acct_account_id a)), (''name'', JStr (acct_name a)), (''description'', JStr (acct_description a)),
      (''owner'', JStr (acct_owner a)), (''role'', JStr (role_str (acct_role a))),
      (''status'', JStr (acct_status_str (acct_status a))),
      (''last_authenticated_at'', jopt (jtime env) (acct_last_authenticated_at a)), (''created_by'', JStr (acct_created_by a)),
      (''created_at'', jtime env (acct_created_at a)), (''disabled_at'', jopt (jtime env) (acct_disabled_at a)),
      (''credentials'', JList (map (\<lambda>c. JObj (credential_response env c)) creds))]"

definition rotation_response :: "env \<Rightarrow> credential_rotation \<Rightarrow> dict" where
  "rotation_response env r =
     [(''rotation_id'', JStr (rot_rotation_id r)), (''account_id'', JStr (rot_account_id r)),
      (''old_credential_id'', JStr (rot_old_credential_id r)), (''new_credential_id'', JStr (rot_new_credential_id r)),
      (''status'', JStr (rot_status_str (rot_status r))), (''grace_ends_at'', jtime env (rot_grace_ends_at r)),
      (''requested_by'', JStr (rot_requested_by r)), (''created_at'', jtime env (rot_created_at r)),
      (''completed_at'', jopt (jtime env) (rot_completed_at r))]"

section \<open>Routes\<close>

record account_create =
  ac_name :: string
  ac_description :: string
  ac_owner :: string
  ac_role :: string
  ac_credential_days :: int

definition account_create_ok :: "account_create \<Rightarrow> bool" where
  "account_create_ok r =
     (field_length 1 160 (ac_name r) \<and> length (ac_description r) \<le> 2000 \<and> field_length 1 320 (ac_owner r) \<and>
      field_length 1 80 (ac_role r) \<and> 1 \<le> ac_credential_days r \<and> ac_credential_days r \<le> 365)"

definition key_notice :: string where
  "key_notice = ''Store this key securely; it cannot be retrieved again.''"

definition conflict_on_integrity :: "string \<Rightarrow> 'a result \<Rightarrow> 'a result" where
  "conflict_on_integrity m r = (case r of Inl (OtherError x) \<Rightarrow> if x = ''IntegrityError'' then Inl (HTTPException 409 m) else r | _ \<Rightarrow> r)"

definition create_automation_identity ::
  "env \<Rightarrow> pbkdf2 \<Rightarrow> string \<Rightarrow> drawn_credential \<Rightarrow> principal \<Rightarrow> account_create \<Rightarrow> db \<Rightarrow> (db \<times> dict) result" where
  "create_automation_identity env kdf uuid d who req db =
     rbind (require_role Administrator who) (\<lambda>_.
     rbind (check_body (account_create_ok req)) (\<lambda>_.
     rbind (bad_request (conflict_on_integrity ''Service account name already exists''
              (create_service_account env kdf uuid d (p_tenant_id who) (ac_name req) (ac_description req) (ac_owner req)
                 (ac_role req) (p_subject who) (Some (ac_credential_days req)) db))) (\<lambda>(db', a, c, key).
     Inr (db', [(''service_account'', JObj (service_account_response env a [c])), (''key'', JStr key),
                (''key_notice'', JStr key_notice)]))))"

definition credentials_for_account :: "db \<Rightarrow> string \<Rightarrow> string \<Rightarrow> service_account_credential list" where
  "credentials_for_account db tenant_id account_id =
     order_by_desc cred_issued_at (where_rows (\<lambda>c. cred_tenant_id c = tenant_id \<and> cred_account_id c = account_id) (db_credentials db))"

definition account_or_404 :: "db \<Rightarrow> string \<Rightarrow> string \<Rightarrow> service_account result" where
  "account_or_404 db tenant_id account_id =
     (case find_account db tenant_id account_id of None \<Rightarrow> Inl (HTTPException 404 ''Service account not found'') | Some a \<Rightarrow> Inr a)"

definition list_automation_identities :: "env \<Rightarrow> principal \<Rightarrow> account_state option \<Rightarrow> db \<Rightarrow> dict list result" where
  "list_automation_identities env who status db =
     rbind (require_role Auditor who) (\<lambda>_.
     Inr (map (\<lambda>a. service_account_response env a (credentials_for_account db (p_tenant_id who) (acct_account_id a)))
       (order_by acct_name (where_rows (\<lambda>a. acct_tenant_id a = p_tenant_id who \<and>
          (case status of None \<Rightarrow> True | Some s \<Rightarrow> acct_status a = s)) (db_accounts db)))))"

definition service_account_lifecycle :: "env \<Rightarrow> principal \<Rightarrow> db \<Rightarrow> dict result" where
  "service_account_lifecycle env who db =
     rbind (require_role Auditor who) (\<lambda>_. Inr (lifecycle_report env db (p_tenant_id who)))"

definition get_automation_identity :: "env \<Rightarrow> principal \<Rightarrow> string \<Rightarrow> db \<Rightarrow> dict result" where
  "get_automation_identity env who account_id db =
     rbind (require_role Auditor who) (\<lambda>_.
     rbind (account_or_404 db (p_tenant_id who) account_id) (\<lambda>a.
     Inr (service_account_response env a (credentials_for_account db (p_tenant_id who) (acct_account_id a)))))"

definition rotate_automation_identity ::
  "env \<Rightarrow> pbkdf2 \<Rightarrow> string \<Rightarrow> drawn_credential \<Rightarrow> principal \<Rightarrow> string \<Rightarrow> int \<Rightarrow> int \<Rightarrow> db \<Rightarrow> (db \<times> dict) result" where
  "rotate_automation_identity env kdf uuid d who account_id grace_hours credential_days db =
     rbind (require_role Administrator who) (\<lambda>_.
     rbind (check_body (1 \<le> credential_days \<and> credential_days \<le> 365 \<and> 0 \<le> grace_hours \<and> grace_hours \<le> 168)) (\<lambda>_.
     rbind (account_or_404 db (p_tenant_id who) account_id) (\<lambda>a.
     rbind (conflict_on_value_error (rotate_service_account env kdf uuid d a (p_subject who) (Some grace_hours) (Some credential_days) db))
       (\<lambda>(db', r, c, key).
     Inr (db', [(''rotation'', JObj (rotation_response env r)), (''credential'', JObj (credential_response env c)),
                (''key'', JStr key), (''key_notice'', JStr key_notice)])))))"

definition complete_credential_rotation :: "env \<Rightarrow> principal \<Rightarrow> string \<Rightarrow> db \<Rightarrow> (db \<times> dict) result" where
  "complete_credential_rotation env who rotation_id db =
     rbind (require_role Administrator who) (\<lambda>_.
     case scalar (\<lambda>r. rot_tenant_id r = p_tenant_id who \<and> rot_rotation_id r = rotation_id) (db_rotations db) of
       None \<Rightarrow> Inl (HTTPException 404 ''Credential rotation not found'')
     | Some r \<Rightarrow> (case complete_rotation env r db of (db', r') \<Rightarrow> Inr (db', rotation_response env r')))"

definition disable_automation_identity :: "env \<Rightarrow> principal \<Rightarrow> string \<Rightarrow> db \<Rightarrow> db result" where
  "disable_automation_identity env who account_id db =
     rbind (require_role Administrator who) (\<lambda>_.
     rbind (account_or_404 db (p_tenant_id who) account_id) (\<lambda>a. Inr (fst (disable_service_account env a db))))"


section \<open>The accounts as a state machine\<close>

text \<open>The state is the time of the last operation and the database; two credentials are never issued at the same instant.\<close>

inductive account_step :: "env \<Rightarrow> pbkdf2 \<Rightarrow> time \<times> db \<Rightarrow> time \<times> db \<Rightarrow> bool" for env kdf where
  AccountCreated: "t < t' \<Longrightarrow>
    create_service_account (env\<lparr>env_now := t'\<rparr>) kdf uuid d tn name description owner role created_by days db = Inr (db', a, c, key) \<Longrightarrow>
    account_step env kdf (t, db) (t', db')"
| KeyAuthenticated: "t \<le> t' \<Longrightarrow> authenticate_service_account (env\<lparr>env_now := t'\<rparr>) kdf key db = (db', i) \<Longrightarrow>
    account_step env kdf (t, db) (t', db')"
| CredentialRotated: "t < t' \<Longrightarrow> a \<in> set (db_accounts db) \<Longrightarrow>
    rotate_service_account (env\<lparr>env_now := t'\<rparr>) kdf uuid d a requested_by grace days db = Inr (db', r, c, key) \<Longrightarrow>
    account_step env kdf (t, db) (t', db')"
| RotationCompleted: "t \<le> t' \<Longrightarrow> r \<in> set (db_rotations db) \<Longrightarrow> complete_rotation (env\<lparr>env_now := t'\<rparr>) r db = (db', r') \<Longrightarrow>
    account_step env kdf (t, db) (t', db')"
| AccountDisabled: "t \<le> t' \<Longrightarrow> a \<in> set (db_accounts db) \<Longrightarrow> disable_service_account (env\<lparr>env_now := t'\<rparr>) a db = (db', a') \<Longrightarrow>
    account_step env kdf (t, db) (t', db')"

definition acct_of :: "service_account_credential \<Rightarrow> string \<times> string" where
  "acct_of c = (cred_tenant_id c, cred_account_id c)"

definition rot_acct :: "credential_rotation \<Rightarrow> string \<times> string" where
  "rot_acct r = (rot_tenant_id r, rot_account_id r)"

definition acct_key :: "service_account \<Rightarrow> string \<times> string" where
  "acct_key a = (acct_tenant_id a, acct_account_id a)"

definition in_grace :: "time \<Rightarrow> credential_rotation \<Rightarrow> bool" where
  "in_grace t r \<longleftrightarrow> rot_status r = RotGrace \<and> rot_grace_ends_at r > t"

definition superseded :: "service_account_credential \<Rightarrow> service_account_credential \<Rightarrow> bool" where
  "superseded c1 c2 \<longleftrightarrow> cred_issued_at c1 < cred_issued_at c2 \<and>
     (cred_status c1 = CredActive \<longrightarrow> cred_retire_after c1 \<noteq> None \<or> cred_expires_at c1 \<le> cred_issued_at c2)"

text \<open>
  Of two credentials of an account the earlier is retired, revoked or had expired when the later was issued; a
  credential that retires in the future does so under a running rotation; an account has at most one of those.
\<close>

definition credentials_ok :: "time \<Rightarrow> credential_rotation list \<Rightarrow> service_account_credential list \<Rightarrow> bool" where
  "credentials_ok t rs cs \<longleftrightarrow>
     (\<forall>c \<in> set cs. cred_issued_at c \<le> t) \<and>
     (\<forall>c1 \<in> set cs. \<forall>c2 \<in> set cs. acct_of c1 = acct_of c2 \<longrightarrow> cred_id c1 < cred_id c2 \<longrightarrow> superseded c1 c2) \<and>
     (\<forall>c \<in> set cs. \<forall>x. cred_status c = CredActive \<longrightarrow> cred_retire_after c = Some x \<longrightarrow> t < x \<longrightarrow>
        (\<exists>r \<in> set rs. rot_acct r = acct_of c \<and> rot_old_credential_id r = cred_credential_id c \<and> rot_status r = RotGrace \<and> rot_grace_ends_at r = x)) \<and>
     (\<forall>r1 \<in> set rs. \<forall>r2 \<in> set rs. rot_acct r1 = rot_acct r2 \<longrightarrow> in_grace t r1 \<longrightarrow> in_grace t r2 \<longrightarrow> r1 = r2)"

definition accounts_ok :: "time \<Rightarrow> db \<Rightarrow> bool" where
  "accounts_ok t db \<longleftrightarrow>
     unique_key acct_id (db_accounts db) \<and> unique_key acct_key (db_accounts db) \<and>
     unique_key cred_id (db_credentials db) \<and> unique_key cred_credential_id (db_credentials db) \<and>
     unique_key rot_id (db_rotations db) \<and>
     (\<forall>c \<in> set (db_credentials db). acct_of c \<in> acct_key ` set (db_accounts db)) \<and>
     credentials_ok t (db_rotations db) (db_credentials db)"

lemma in_grace_later: "in_grace t' r \<Longrightarrow> t \<le> t' \<Longrightarrow> in_grace t r"
  by (auto simp: in_grace_def)

text \<open>Operations that change a credential keep its identity and dates, and revoke it or leave its status and retirement.\<close>

definition only_revokes :: "(service_account_credential \<Rightarrow> service_account_credential) \<Rightarrow> bool" where
  "only_revokes f \<longleftrightarrow> (\<forall>c. cred_id (f c) = cred_id c \<and> cred_credential_id (f c) = cred_credential_id c \<and> acct_of (f c) = acct_of c \<and>
     cred_issued_at (f c) = cred_issued_at c \<and> cred_expires_at (f c) = cred_expires_at c \<and>
     (cred_status (f c) = CredActive \<longrightarrow> cred_status c = CredActive \<and> cred_retire_after (f c) = cred_retire_after c))"

lemma only_revokes_simps:
  "only_revokes (revoke_credential env)" "only_revokes (\<lambda>c. c\<lparr>cred_last_used_at := x\<rparr>)"
  by (simp_all add: only_revokes_def revoke_credential_def acct_of_def)

lemma credentials_ok_revoke:
  assumes "credentials_ok t rs cs" and "t \<le> t'" and f: "only_revokes f"
  shows "credentials_ok t' rs (update_rows P f cs)"
proof -
  let ?g = "\<lambda>c. if P c then f c else c"
  have g: "cred_id (?g c) = cred_id c" "cred_credential_id (?g c) = cred_credential_id c" "acct_of (?g c) = acct_of c"
    "cred_issued_at (?g c) = cred_issued_at c" "cred_expires_at (?g c) = cred_expires_at c"
    "cred_status (?g c) = CredActive \<Longrightarrow> cred_status c = CredActive \<and> cred_retire_after (?g c) = cred_retire_after c" for c
    using f by (auto simp: only_revokes_def)
  have s: "superseded c1 c2 \<Longrightarrow> superseded (?g c1) (?g c2)" for c1 c2
    using g(6)[of c1] unfolding superseded_def g(4,5) by metis
  show ?thesis
    unfolding credentials_ok_def set_update_rows ball_simps g(1,2,3,4)
  proof (intro conjI ballI impI allI)
    show "cred_issued_at c \<le> t'" if "c \<in> set cs" for c
      using assms(1,2) that by (force simp: credentials_ok_def)
    show "superseded (?g c1) (?g c2)" if "c1 \<in> set cs" "c2 \<in> set cs" "acct_of c1 = acct_of c2" "cred_id c1 < cred_id c2" for c1 c2
      using assms(1) that by (intro s) (simp add: credentials_ok_def)
    show "\<exists>r \<in> set rs. rot_acct r = acct_of c \<and> rot_old_credential_id r = cred_credential_id c \<and> rot_status r = RotGrace \<and> rot_grace_ends_at r = x"
      if "c \<in> set cs" "cred_status (?g c) = CredActive" "cred_retire_after (?g c) = Some x" "t' < x" for c x
    proof -
      from g(6)[OF that(2)] that(3) have "cred_status c = CredActive" "cred_retire_after c = Some x" by simp_all
      moreover have "t < x" using that(4) assms(2) by simp
      ultimately show ?thesis using assms(1) that(1) unfolding credentials_ok_def by blast
    qed
    show "r1 = r2" if "r1 \<in> set rs" "r2 \<in> set rs" "rot_acct r1 = rot_acct r2" "in_grace t' r1" "in_grace t' r2" for r1 r2
      using assms(1) that in_grace_later[OF _ assms(2)] by (simp add: credentials_ok_def)
  qed
qed


lemma unique_key_only_revokes:
  "only_revokes f \<Longrightarrow> unique_key cred_id cs \<Longrightarrow> unique_key cred_id (update_rows P f cs)"
  "only_revokes f \<Longrightarrow> unique_key cred_credential_id cs \<Longrightarrow> unique_key cred_credential_id (update_rows P f cs)"
  by (simp_all add: unique_key_update only_revokes_def)

lemma accounts_ok_revoke:
  assumes "accounts_ok t db" and "t \<le> t'" and "only_revokes f"
  shows "accounts_ok t' (update_credentials P f db)"
proof -
  have "acct_of (f c) = acct_of c" for c using assms(3) by (simp add: only_revokes_def)
  with assms show ?thesis
    using credentials_ok_revoke[of t "db_rotations db" "db_credentials db" t' f P]
    by (auto simp: accounts_ok_def update_credentials_def unique_key_only_revokes set_update_rows)
qed

lemma accounts_ok_accounts:
  assumes "accounts_ok t db" and "\<And>a. P a \<Longrightarrow> acct_id (f a) = acct_id a \<and> acct_key (f a) = acct_key a"
  shows "accounts_ok t (update_accounts P f db)"
proof -
  have "acct_key ` set (update_rows P f (db_accounts db)) = acct_key ` set (db_accounts db)"
    using map_update_rows[of P acct_key f "db_accounts db"] assms(2) by (metis set_map)
  with assms show ?thesis
    by (simp add: accounts_ok_def update_accounts_def unique_key_update)
qed

lemma accounts_ok_later: "accounts_ok t db \<Longrightarrow> t \<le> t' \<Longrightarrow> accounts_ok t' db"
  using accounts_ok_revoke[of t db t' "\<lambda>c. c" "\<lambda>c. False"]
  by (simp add: only_revokes_def update_credentials_def update_rows_def)

text \<open>A new credential of an account whose older ones are superseded by it.\<close>

lemma credentials_ok_issue:
  assumes ok: "credentials_ok t rs cs" and t: "t \<le> cred_issued_at c"
    and new: "\<And>x. x \<in> set cs \<Longrightarrow> cred_id x < cred_id c" "cred_retire_after c = None"
    and old: "\<And>x. x \<in> set cs \<Longrightarrow> acct_of x = acct_of c \<Longrightarrow> superseded x c"
  shows "credentials_ok (cred_issued_at c) rs (cs @ [c])"
proof -
  have later: "\<And>r. in_grace (cred_issued_at c) r \<Longrightarrow> in_grace t r" using t in_grace_later by fastforce
  show ?thesis
    unfolding credentials_ok_def
  proof (intro conjI ballI impI allI)
    show "cred_issued_at x \<le> cred_issued_at c" if "x \<in> set (cs @ [c])" for x
      using ok t that by (fastforce simp: credentials_ok_def)
    show "superseded c1 c2" if "c1 \<in> set (cs @ [c])" "c2 \<in> set (cs @ [c])" "acct_of c1 = acct_of c2" "cred_id c1 < cred_id c2" for c1 c2
      using ok that new(1) old by (auto simp: credentials_ok_def dest: order.asym)
    show "\<exists>r \<in> set rs. rot_acct r = acct_of x \<and> rot_old_credential_id r = cred_credential_id x \<and> rot_status r = RotGrace \<and> rot_grace_ends_at r = y"
      if "x \<in> set (cs @ [c])" "cred_status x = CredActive" "cred_retire_after x = Some y" "cred_issued_at c < y" for x y
    proof -
      have "x \<in> set cs" "t < y" using that new(2) t by auto
      with ok that show ?thesis unfolding credentials_ok_def by blast
    qed
    show "r1 = r2" if "r1 \<in> set rs" "r2 \<in> set rs" "rot_acct r1 = rot_acct r2" "in_grace (cred_issued_at c) r1" "in_grace (cred_issued_at c) r2" for r1 r2
      using ok that later by (simp add: credentials_ok_def)
  qed
qed

text \<open>Retiring a credential under a new rotation, when no other is in its grace period.\<close>

lemma credentials_ok_rotation:
  assumes ok: "credentials_ok t rs cs" and u: "unique_key cred_id cs" and o: "old \<in> set cs"
    and none: "\<And>r'. r' \<in> set rs \<Longrightarrow> rot_acct r' = rot_acct r \<Longrightarrow> \<not> in_grace t r'"
    and r: "rot_acct r = acct_of old" "rot_old_credential_id r = cred_credential_id old"
      "grace \<noteq> 0 \<Longrightarrow> rot_status r = RotGrace \<and> rot_grace_ends_at r = env_now env + td_hours grace"
  shows "credentials_ok t (rs @ [r]) (update_rows (\<lambda>x. cred_id x = cred_id old) (retire_credential env grace) cs)"
proof -
  let ?g = "\<lambda>c. if cred_id c = cred_id old then retire_credential env grace c else c"
  have g: "cred_id (?g c) = cred_id c" "cred_credential_id (?g c) = cred_credential_id c" "acct_of (?g c) = acct_of c"
    "cred_issued_at (?g c) = cred_issued_at c" "cred_expires_at (?g c) = cred_expires_at c" for c
    by (simp_all add: retire_credential_def Let_def acct_of_def)
  have s: "superseded c1 c2 \<Longrightarrow> superseded (?g c1) (?g c2)" for c1 c2
    unfolding superseded_def g(4,5) by (auto simp: retire_credential_def Let_def split: if_splits)
  have eq: "c = old" if "c \<in> set cs" "cred_id c = cred_id old" for c
    using unique_key_eq[OF u that(1) o that(2)] .
  show ?thesis
    unfolding credentials_ok_def set_update_rows ball_simps g(1,2,3,4)
  proof (intro conjI ballI impI allI)
    show "cred_issued_at c \<le> t" if "c \<in> set cs" for c
      using ok that by (simp add: credentials_ok_def)
    show "superseded (?g c1) (?g c2)" if "c1 \<in> set cs" "c2 \<in> set cs" "acct_of c1 = acct_of c2" "cred_id c1 < cred_id c2" for c1 c2
      using ok that by (intro s) (simp add: credentials_ok_def)
    show "\<exists>r' \<in> set (rs @ [r]). rot_acct r' = acct_of c \<and> rot_old_credential_id r' = cred_credential_id c \<and> rot_status r' = RotGrace \<and> rot_grace_ends_at r' = x"
      if "c \<in> set cs" "cred_status (?g c) = CredActive" "cred_retire_after (?g c) = Some x" "t < x" for c x
    proof (cases "cred_id c = cred_id old")
      case True
      with that eq[OF that(1)] r show ?thesis by (auto simp: retire_credential_def Let_def split: if_splits)
    next
      case False
      with that ok show ?thesis by (auto simp: credentials_ok_def)
    qed
    show "r1 = r2" if "r1 \<in> set (rs @ [r])" "r2 \<in> set (rs @ [r])" "rot_acct r1 = rot_acct r2" "in_grace t r1" "in_grace t r2" for r1 r2
      using ok that none by (auto simp: credentials_ok_def)
  qed
qed

text \<open>Completing a rotation whose old credential is revoked first.\<close>

lemma credentials_ok_complete:
  assumes ok: "credentials_ok t rs cs" and u: "unique_key rot_id rs" and r: "r \<in> set rs"
    and gone: "\<And>c. c \<in> set cs \<Longrightarrow> cred_credential_id c = rot_old_credential_id r \<Longrightarrow> acct_of c = rot_acct r \<Longrightarrow> cred_status c \<noteq> CredActive"
    and r': "rot_id r' = rot_id r" "rot_status r' = RotCompleted"
  shows "credentials_ok t (update_rows (\<lambda>x. rot_id x = rot_id r) (\<lambda>x. r') rs) cs"
proof -
  let ?g = "\<lambda>x. if rot_id x = rot_id r then r' else x"
  have eq: "x = r" if "x \<in> set rs" "rot_id x = rot_id r" for x
    using unique_key_eq[OF u that(1) r that(2)] .
  have grace: "in_grace t (?g x) \<longleftrightarrow> in_grace t x \<and> rot_id x \<noteq> rot_id r" for x
    using r' by (simp add: in_grace_def)
  show ?thesis
    unfolding credentials_ok_def set_update_rows ball_simps bex_simps
  proof (intro conjI ballI impI allI)
    show "cred_issued_at c \<le> t" if "c \<in> set cs" for c
      using ok that by (simp add: credentials_ok_def)
    show "superseded c1 c2" if "c1 \<in> set cs" "c2 \<in> set cs" "acct_of c1 = acct_of c2" "cred_id c1 < cred_id c2" for c1 c2
      using ok that by (simp add: credentials_ok_def)
    show "\<exists>y \<in> set rs. rot_acct (?g y) = acct_of c \<and> rot_old_credential_id (?g y) = cred_credential_id c \<and> rot_status (?g y) = RotGrace \<and> rot_grace_ends_at (?g y) = x"
      if c: "c \<in> set cs" "cred_status c = CredActive" "cred_retire_after c = Some x" "t < x" for c x
    proof -
      from ok c obtain y where y: "y \<in> set rs" "rot_acct y = acct_of c" "rot_old_credential_id y = cred_credential_id c"
        "rot_status y = RotGrace" "rot_grace_ends_at y = x" unfolding credentials_ok_def by blast
      have "rot_id y \<noteq> rot_id r" using gone[OF c(1)] c(2) y eq[OF y(1)] by auto
      with y show ?thesis by (intro bexI[of _ y]) auto
    qed
    show "?g r1 = ?g r2" if "r1 \<in> set rs" "r2 \<in> set rs" "rot_acct (?g r1) = rot_acct (?g r2)" "in_grace t (?g r1)" "in_grace t (?g r2)" for r1 r2
      using ok that unfolding grace by (simp add: credentials_ok_def)
  qed
qed


lemma current_credential_Some:
  assumes "current_credential env a db = Some old"
  shows "old \<in> set (db_credentials db)" "acct_of old = acct_key a" "cred_status old = CredActive" "cred_expires_at old > env_now env"
    "\<And>c. c \<in> set (db_credentials db) \<Longrightarrow> acct_of c = acct_key a \<Longrightarrow> cred_status c = CredActive \<Longrightarrow> cred_expires_at c > env_now env \<Longrightarrow>
       cred_issued_at c \<le> cred_issued_at old"
proof -
  let ?P = "\<lambda>c. cred_tenant_id c = acct_tenant_id a \<and> cred_account_id c = acct_account_id a \<and> cred_status c = CredActive \<and> cred_expires_at c > env_now env"
  let ?cs = "order_by_desc cred_issued_at (where_rows ?P (db_credentials db))"
  obtain rest where rest: "?cs = old # rest"
    using assms by (cases ?cs) (auto simp: current_credential_def scalar_Cons)
  then have "old \<in> set ?cs" by simp
  then show "old \<in> set (db_credentials db)" "acct_of old = acct_key a" "cred_status old = CredActive" "cred_expires_at old > env_now env"
    by (auto simp: store acct_of_def acct_key_def)
  have sorted: "sorted (map (\<lambda>c. - cred_issued_at c) (old # rest))"
    unfolding rest[symmetric] order_by_desc_def by (rule sorted_sort_key)
  fix c assume "c \<in> set (db_credentials db)" "acct_of c = acct_key a" "cred_status c = CredActive" "cred_expires_at c > env_now env"
  then have "c \<in> set ?cs" by (auto simp: store acct_of_def acct_key_def)
  with rest have "c = old \<or> c \<in> set rest" by simp
  then show "cred_issued_at c \<le> cred_issued_at old" using sorted by auto
qed

lemma issue_credential_Inr:
  assumes "issue_credential env kdf d a days db = Inr (db', c, key)"
  shows "c = new_credential env kdf db d a days" "db' = db\<lparr>db_credentials := db_credentials db @ [c]\<rparr>"
    "key = key_text (dr_credential_id d) (dr_secret d)"
    "\<And>x. x \<in> set (db_credentials db) \<Longrightarrow> cred_credential_id x \<noteq> cred_credential_id c"
  using assms by (auto simp: issue_credential_def Let_def list_ex_iff new_credential_def elim!: rbindE)

lemma new_credential_simps [simp]:
  "cred_id (new_credential env kdf db d a days) = next_id cred_id (db_credentials db)"
  "acct_of (new_credential env kdf db d a days) = acct_key a" "cred_issued_at (new_credential env kdf db d a days) = env_now env"
  "cred_retire_after (new_credential env kdf db d a days) = None" "cred_status (new_credential env kdf db d a days) = CredActive"
  "cred_credential_id (new_credential env kdf db d a days) = dr_credential_id d"
  "cred_expires_at (new_credential env kdf db d a days) = env_now env + td_days days"
  by (simp_all add: new_credential_def acct_of_def acct_key_def)

lemma accounts_ok_issue:
  assumes ok: "accounts_ok t db" and i: "issue_credential env kdf d a days db = Inr (db', c, key)" and t: "t \<le> env_now env"
    and a: "acct_key a \<in> acct_key ` set (db_accounts db)"
    and old: "\<And>x. x \<in> set (db_credentials db) \<Longrightarrow> acct_of x = acct_key a \<Longrightarrow> superseded x c"
  shows "accounts_ok (env_now env) db'"
proof -
  note c = issue_credential_Inr[OF i]
  have "credentials_ok (env_now env) (db_rotations db) (db_credentials db @ [c])"
    using credentials_ok_issue[of t "db_rotations db" "db_credentials db" c] ok t old next_id_upper[of _ "db_credentials db" cred_id]
    by (simp add: accounts_ok_def c(1))
  moreover have "unique_key cred_id (db_credentials db @ [c])"
    using ok by (intro unique_key_insert) (simp_all add: accounts_ok_def c(1))
  moreover have "unique_key cred_credential_id (db_credentials db @ [c])"
    using ok c(4) by (auto simp: accounts_ok_def unique_key_def image_iff) metis
  ultimately show ?thesis using ok a by (auto simp: accounts_ok_def c(2)) (simp add: c(1))
qed

lemma create_ok:
  assumes ok: "accounts_ok t db" and t: "t < env_now env"
    and c: "create_service_account env kdf uuid d tn name description owner role created_by days db = Inr (db', a, c, key)"
  shows "accounts_ok (env_now env) db'"
proof -
  from c obtain r n where a: "a = new_account env db uuid tn name description owner r created_by"
    and fresh: "\<not> list_ex (\<lambda>x. acct_tenant_id x = tn \<and> (acct_account_id x = uuid \<or> acct_name x = name)) (db_accounts db)"
    and i: "issue_credential env kdf d a n (db\<lparr>db_accounts := db_accounts db @ [a]\<rparr>) = Inr (db', c, key)"
    by (auto simp: create_service_account_def Let_def split: option.splits elim!: rbindE)
  have key: "acct_key a = (tn, uuid)" "acct_id a = next_id acct_id (db_accounts db)" by (simp_all add: a new_account_def acct_key_def)
  have "acct_key a \<notin> acct_key ` set (db_accounts db)"
    using fresh by (auto simp: key list_ex_iff) (auto simp: acct_key_def)
  then have "unique_key acct_key (db_accounts db @ [a])" and none: "\<And>x. x \<in> set (db_credentials db) \<Longrightarrow> acct_of x \<noteq> acct_key a"
    using ok unfolding accounts_ok_def by (auto simp: unique_key_def) metis
  moreover have "unique_key acct_id (db_accounts db @ [a])"
    using ok key(2) by (intro unique_key_insert) (simp_all add: accounts_ok_def)
  ultimately have "accounts_ok t (db\<lparr>db_accounts := db_accounts db @ [a]\<rparr>)"
    using ok by (auto simp: accounts_ok_def)
  from accounts_ok_issue[OF this i less_imp_le[OF t]] none show ?thesis by auto
qed

lemma authenticate_ok:
  assumes "accounts_ok t db" and "t \<le> t'"
  shows "accounts_ok t' (fst (authenticate_service_account env kdf key db))"
  using assms accounts_ok_later[OF assms]
  by (auto simp: authenticate_service_account_def acct_key_def only_revokes_simps split: option.splits prod.splits
      intro!: accounts_ok_accounts accounts_ok_revoke[OF assms(1)])

lemma rotate_service_account_Inr:
  assumes "rotate_service_account env kdf uuid d a requested_by grace_hours days db = Inr (db', r, c, key)"
  obtains old grace n db1 where "acct_status a = AcctActive" "\<And>x. x \<in> set (db_rotations db) \<Longrightarrow> \<not> active_rotation env a x"
    "current_credential env a db = Some old" "0 \<le> grace"
    "grace = (case grace_hours of None \<Rightarrow> cfg_service_account_rotation_grace_hours (env_settings env) | Some g \<Rightarrow> g)"
    "issue_credential env kdf d a n db = Inr (db1, c, key)"
    "r = new_rotation env uuid db a (cred_credential_id old) (cred_credential_id c) grace requested_by"
    "db' = (update_credentials (\<lambda>x. cred_id x = cred_id old) (retire_credential env grace) db1)\<lparr>db_rotations := db_rotations db @ [r]\<rparr>"
proof -
  define grace where "grace = (case grace_hours of None \<Rightarrow> cfg_service_account_rotation_grace_hours (env_settings env) | Some g \<Rightarrow> g)"
  from assms obtain old where st: "acct_status a = AcctActive" "\<not> list_ex (active_rotation env a) (db_rotations db)"
    and old: "current_credential env a db = Some old"
    by (auto simp: rotate_service_account_def split: option.splits elim!: rbindE)
  from assms st old obtain n db1 where "0 \<le> grace" and i: "issue_credential env kdf d a n db = Inr (db1, c, key)"
    and r: "r = new_rotation env uuid db a (cred_credential_id old) (cred_credential_id c) grace requested_by"
    and db': "db' = (update_credentials (\<lambda>x. cred_id x = cred_id old) (retire_credential env grace) db1)\<lparr>db_rotations := db_rotations db1 @ [r]\<rparr>"
    by (auto simp: rotate_service_account_def grace_def[symmetric] Let_def update_credentials_def elim!: rbindE)
  moreover have "db_rotations db1 = db_rotations db" using issue_credential_Inr(2)[OF i] by simp
  ultimately show thesis
    using st old by (intro that[of old grace n db1]) (auto simp: grace_def list_ex_iff)
qed

lemma rotate_ok:
  assumes ok: "accounts_ok t db" and t: "t < env_now env" and a: "a \<in> set (db_accounts db)"
    and c: "rotate_service_account env kdf uuid d a requested_by grace_hours days db = Inr (db', r, c, key)"
  shows "accounts_ok (env_now env) db'"
  using c
proof (cases rule: rotate_service_account_Inr)
  case (1 old grace n db1)
  note cur = current_credential_Some[OF 1(3)]
  note iss = issue_credential_Inr[OF 1(6)]
  have cred: "\<forall>c \<in> set (db_credentials db). cred_issued_at c \<le> t"
      "\<forall>c1 \<in> set (db_credentials db). \<forall>c2 \<in> set (db_credentials db). acct_of c1 = acct_of c2 \<longrightarrow> cred_id c1 < cred_id c2 \<longrightarrow> superseded c1 c2"
    using ok by (auto simp: accounts_ok_def credentials_ok_def)
  have lapsed: "cred_retire_after x \<noteq> None \<or> cred_expires_at x \<le> env_now env"
    if x: "x \<in> set (db_credentials db)" "acct_of x = acct_key a" "cred_status x = CredActive" "cred_id x \<noteq> cred_id old" for x
  proof (rule ccontr)
    assume n: "\<not> (cred_retire_after x \<noteq> None \<or> cred_expires_at x \<le> env_now env)"
    with cur(5)[OF x(1-3)] have le: "cred_issued_at x \<le> cred_issued_at old" by simp
    consider "superseded x old" | "superseded old x"
      using cred(2) x cur(1,2) by (metis nat_neq_iff)
    then show False
      using n le x(3) cred(1) cur(1) t by cases (force simp: superseded_def)+
  qed
  let ?upd = "update_rows (\<lambda>x. cred_id x = cred_id old) (retire_credential env grace)"
  have now: "accounts_ok (env_now env) db" using accounts_ok_later[OF ok] t by simp
  have r: "rot_acct r = acct_key a" "rot_old_credential_id r = cred_credential_id old" "rot_id r = next_id rot_id (db_rotations db)"
      "grace \<noteq> 0 \<Longrightarrow> rot_status r = RotGrace \<and> rot_grace_ends_at r = env_now env + td_hours grace"
    by (simp_all add: 1(7) new_rotation_def rot_acct_def acct_key_def)
  have none: "\<not> in_grace (env_now env) x" if "x \<in> set (db_rotations db)" "rot_acct x = rot_acct r" for x
  proof -
    have "rot_acct x = acct_key a" using that(2) r(1) by simp
    with 1(2)[OF that(1)] show ?thesis by (auto simp: active_rotation_def in_grace_def rot_acct_def acct_key_def)
  qed
  have id: "cred_id c \<noteq> cred_id old" "cred_id x < cred_id c" if "x \<in> set (db_credentials db)" for x
    using next_id_upper[OF cur(1), of cred_id] next_id_upper[OF that, of cred_id] by (simp_all add: iss(1))
  have upd: "cred_id (f x) = cred_id x \<and> cred_credential_id (f x) = cred_credential_id x \<and> acct_of (f x) = acct_of x \<and>
      cred_issued_at (f x) = cred_issued_at x \<and> cred_expires_at (f x) = cred_expires_at x" if "f = retire_credential env grace" for f x
    by (simp add: that retire_credential_def Let_def acct_of_def)
  have "credentials_ok (env_now env) (db_rotations db @ [r]) (?upd (db_credentials db))"
    using now none cur(1,2) r by (intro credentials_ok_rotation) (auto simp: accounts_ok_def)
  moreover have "superseded y c" if y: "y \<in> set (?upd (db_credentials db))" "acct_of y = acct_of c" for y
  proof -
    from y(1) obtain x where x: "x \<in> set (db_credentials db)" "y = (if cred_id x = cred_id old then retire_credential env grace x else x)"
      by (auto simp: set_update_rows)
    then have xa: "acct_of x = acct_key a" using y(2) upd[of "retire_credential env grace"] by (simp add: iss(1) split: if_splits)
    have "cred_issued_at y < cred_issued_at c"
      using cred(1) x t upd[of "retire_credential env grace"] by (force simp: iss(1))
    moreover have "cred_status y = CredActive \<Longrightarrow> cred_retire_after y \<noteq> None \<or> cred_expires_at y \<le> cred_issued_at c"
      using lapsed[OF x(1) xa] x(2) by (auto simp: iss(1) retire_credential_def Let_def split: if_splits)
    ultimately show ?thesis by (simp add: superseded_def)
  qed
  moreover have "cred_id y < cred_id c" if "y \<in> set (?upd (db_credentials db))" for y
    using that id(2) id(2)[OF cur(1)] upd[of "retire_credential env grace"] by (auto simp: set_update_rows)
  ultimately have "credentials_ok (env_now env) (db_rotations db @ [r]) (?upd (db_credentials db) @ [c])"
    using credentials_ok_issue[of "env_now env" "db_rotations db @ [r]" "?upd (db_credentials db)" c] by (simp add: iss(1))
  moreover have db': "db_credentials db' = ?upd (db_credentials db) @ [c]" "db_rotations db' = db_rotations db @ [r]" "db_accounts db' = db_accounts db"
    using id cur(1) by (simp_all add: 1(8) iss(2) update_credentials_def) (simp add: update_rows_def)
  moreover have "unique_key rot_id (db_rotations db @ [r])"
    using ok r(3) by (intro unique_key_insert) (simp_all add: accounts_ok_def)
  moreover have "unique_key cred_id (?upd (db_credentials db) @ [c])"
  proof -
    have "unique_key cred_id (?upd (db_credentials db))"
      using ok upd by (simp add: accounts_ok_def unique_key_update)
    moreover have "cred_id c \<notin> cred_id ` set (?upd (db_credentials db))"
      using id(2) upd[of "retire_credential env grace"] by (force simp: set_update_rows)
    ultimately show ?thesis by (simp add: unique_key_def)
  qed
  moreover have "unique_key cred_credential_id (?upd (db_credentials db) @ [c])"
  proof -
    have "unique_key cred_credential_id (?upd (db_credentials db))"
      using ok upd by (simp add: accounts_ok_def unique_key_update)
    moreover have "cred_credential_id c \<notin> cred_credential_id ` set (?upd (db_credentials db))"
      using iss(4) upd[of "retire_credential env grace"] by (force simp: set_update_rows)
    ultimately show ?thesis by (simp add: unique_key_def)
  qed
  moreover have "acct_of y \<in> acct_key ` set (db_accounts db)" if "y \<in> set (?upd (db_credentials db) @ [c])" for y
  proof (cases "y = c")
    case True
    with a show ?thesis by (simp add: iss(1))
  next
    case False
    with that obtain x where "x \<in> set (db_credentials db)" "acct_of y = acct_of x"
      using upd[of "retire_credential env grace"] by (auto simp: set_update_rows)
    with ok show ?thesis by (simp add: accounts_ok_def)
  qed
  ultimately show ?thesis
    using ok unfolding accounts_ok_def db' by blast
qed

lemma complete_ok:
  assumes ok: "accounts_ok t db" and t: "t \<le> env_now env" and r: "r \<in> set (db_rotations db)"
  shows "accounts_ok (env_now env) (fst (complete_rotation env r db))"
proof (cases "rot_status r = RotCompleted")
  case True
  with accounts_ok_later[OF ok t] show ?thesis by (simp add: complete_rotation_def)
next
  case False
  let ?find = "scalar (\<lambda>c. cred_tenant_id c = rot_tenant_id r \<and> cred_credential_id c = rot_old_credential_id r) (db_credentials db)"
  define r' where "r' = r\<lparr>rot_status := RotCompleted, rot_completed_at := Some (env_now env)\<rparr>"
  define db1 where "db1 = (case ?find of None \<Rightarrow> db | Some c \<Rightarrow> update_credentials (\<lambda>x. cred_id x = cred_id c) (revoke_credential env) db)"
  have eq: "fst (complete_rotation env r db) = db1\<lparr>db_rotations := update_rows (\<lambda>x. rot_id x = rot_id r) (\<lambda>x. r') (db_rotations db1)\<rparr>"
    using False by (simp add: complete_rotation_def db1_def r'_def Let_def)
  have ok1: "accounts_ok (env_now env) db1"
    using accounts_ok_revoke[OF ok t only_revokes_simps(1)] accounts_ok_later[OF ok t] by (simp add: db1_def split: option.split)
  have rots: "db_rotations db1 = db_rotations db" by (simp add: db1_def update_credentials_def split: option.split)
  have gone: "cred_status c \<noteq> CredActive"
    if c: "c \<in> set (db_credentials db1)" "cred_credential_id c = rot_old_credential_id r" "acct_of c = rot_acct r" for c
  proof (cases ?find)
    case None
    with c show ?thesis by (auto simp: db1_def store acct_of_def rot_acct_def)
  next
    case (Some d)
    from scalar_Some[OF Some] have d: "d \<in> set (db_credentials db)" "cred_credential_id d = rot_old_credential_id r" by simp_all
    from c(1) Some obtain x where x: "x \<in> set (db_credentials db)" "c = (if cred_id x = cred_id d then revoke_credential env x else x)"
      by (auto simp: db1_def update_credentials_def set_update_rows)
    have "cred_credential_id x = cred_credential_id d" using x(2) c(2) d(2) by (simp add: revoke_credential_def split: if_splits)
    then have "x = d" using ok x(1) d(1) unique_key_eq[of cred_credential_id "db_credentials db" x d] by (simp add: accounts_ok_def)
    with x(2) show ?thesis by (simp add: revoke_credential_def)
  qed
  have "credentials_ok (env_now env) (update_rows (\<lambda>x. rot_id x = rot_id r) (\<lambda>x. r') (db_rotations db1)) (db_credentials db1)"
    using ok1 r gone by (intro credentials_ok_complete) (auto simp: accounts_ok_def rots r'_def)
  moreover have "unique_key rot_id (update_rows (\<lambda>x. rot_id x = rot_id r) (\<lambda>x. r') (db_rotations db1))"
    using ok1 by (subst unique_key_update) (auto simp: accounts_ok_def r'_def)
  ultimately show ?thesis using ok1 by (simp add: accounts_ok_def eq)
qed

lemma disable_ok:
  assumes ok: "accounts_ok t db" and t: "t \<le> env_now env" and a: "a \<in> set (db_accounts db)"
  shows "accounts_ok (env_now env) (fst (disable_service_account env a db))"
proof (cases "acct_status a = AcctDisabled")
  case True
  with accounts_ok_later[OF ok t] show ?thesis by (simp add: disable_service_account_def)
next
  case False
  let ?a = "a\<lparr>acct_status := AcctDisabled, acct_disabled_at := Some (env_now env)\<rparr>"
  have "update_rows (\<lambda>x. acct_id x = acct_id a) (\<lambda>x. ?a) (db_accounts db) =
      update_rows (\<lambda>x. acct_id x = acct_id a) (\<lambda>x. x\<lparr>acct_status := AcctDisabled, acct_disabled_at := Some (env_now env)\<rparr>) (db_accounts db)"
    using ok a unique_key_eq[of acct_id "db_accounts db" _ a] by (auto simp: update_rows_def accounts_ok_def)
  then have "update_accounts (\<lambda>x. acct_id x = acct_id a) (\<lambda>x. ?a) db =
      update_accounts (\<lambda>x. acct_id x = acct_id a) (\<lambda>x. x\<lparr>acct_status := AcctDisabled, acct_disabled_at := Some (env_now env)\<rparr>) db"
    by (simp add: update_accounts_def)
  with accounts_ok_accounts[OF ok, of "\<lambda>x. acct_id x = acct_id a" "\<lambda>x. x\<lparr>acct_status := AcctDisabled, acct_disabled_at := Some (env_now env)\<rparr>"]
  have "accounts_ok t (update_accounts (\<lambda>x. acct_id x = acct_id a) (\<lambda>x. ?a) db)" by (simp add: acct_key_def)
  from accounts_ok_revoke[OF this t only_revokes_simps(1)] False show ?thesis
    by (simp add: disable_service_account_def Let_def)
qed

lemma accounts_ok_step:
  assumes "account_step env kdf w w'" and "accounts_ok (fst w) (snd w)"
  shows "accounts_ok (fst w') (snd w')"
  using assms
proof cases
  case (AccountCreated t t' uuid d tn name description owner role created_by days db db' a c key)
  with create_ok[of t db "env\<lparr>env_now := t'\<rparr>"] assms(2) show ?thesis by simp
next
  case (KeyAuthenticated t t' key db db' i)
  with authenticate_ok[of t db t' "env\<lparr>env_now := t'\<rparr>" kdf key] assms(2) show ?thesis by simp
next
  case (CredentialRotated t t' a db uuid d requested_by grace days db' r c key)
  with rotate_ok[of t db "env\<lparr>env_now := t'\<rparr>" a] assms(2) show ?thesis by simp
next
  case (RotationCompleted t t' r db db' r')
  with complete_ok[of t db "env\<lparr>env_now := t'\<rparr>" r] assms(2) show ?thesis by simp
next
  case (AccountDisabled t t' a db db' a')
  with disable_ok[of t db "env\<lparr>env_now := t'\<rparr>" a] assms(2) show ?thesis by simp
qed

lemma accounts_reachable:
  assumes "(account_step env kdf)\<^sup>*\<^sup>* (t0, db0) (t, db)"
    and "db_accounts db0 = []" and "db_credentials db0 = []" and "db_rotations db0 = []"
  shows "accounts_ok t db"
proof -
  have "accounts_ok t0 db0" using assms(2-4) by (simp add: accounts_ok_def unique_key_def credentials_ok_def)
  then have "accounts_ok (fst (t0, db0)) (snd (t0, db0))" by simp
  with assms(1) have "accounts_ok (fst (t, db)) (snd (t, db))"
    by (induction rule: rtranclp_induct) (auto intro: accounts_ok_step simp del: split_paired_All)
  then show ?thesis by simp
qed


section \<open>Keys read back\<close>

lemma py_partition_found:
  "c \<notin> set a \<Longrightarrow> py_partition c (a @ c # r) = (a, True, r)"
  by (induction a) auto

lemma parse_key_text:
  assumes "length i = 36" and "CHR ''_'' \<notin> set i" and "32 \<le> length secret"
  shows "parse_key (key_text i secret) = Some (i, secret)"
proof -
  have "py_partition CHR ''_'' (i @ CHR ''_'' # secret) = (i, True, secret)" by (rule py_partition_found[OF assms(2)])
  then have "py_split_max CHR ''_'' 3 (key_text i secret) = [''odg'', ''sa'', i, secret]"
    by (simp add: key_text_def numeral_3_eq_3)
  with assms show ?thesis by (simp add: parse_key_def)
qed

lemma authenticate_Some:
  assumes "authenticate_service_account env kdf key db = (db', Some i)"
  obtains c a secret where "c \<in> set (db_credentials db)" "parse_key key = Some (cred_credential_id c, secret)"
    "hash_secret kdf secret (cred_secret_salt c) = cred_secret_hash c" "usable (env_now env) c"
    "a \<in> set (db_accounts db)" "acct_status a = AcctActive" "acct_key a = acct_of c"
    "i = \<lparr>id_subject = ''service-account:'' @ acct_account_id a, id_role = acct_role a, id_tenant_id = acct_tenant_id a,
       id_account_id = acct_account_id a, id_credential_id = cred_credential_id c\<rparr>"
proof -
  from assms obtain cid secret c a where k: "parse_key key = Some (cid, secret)"
    and c: "scalar (\<lambda>c. cred_credential_id c = cid \<and> cred_status c = CredActive) (db_credentials db) = Some c"
    and ok: "\<not> (cred_expires_at c \<le> env_now env \<or> \<not> not_retired (env_now env) c)" "hash_secret kdf secret (cred_secret_salt c) = cred_secret_hash c"
    and a: "scalar (\<lambda>a. acct_tenant_id a = cred_tenant_id c \<and> acct_account_id a = cred_account_id c \<and> acct_status a = AcctActive) (db_accounts db) = Some a"
    and i: "i = \<lparr>id_subject = ''service-account:'' @ acct_account_id a, id_role = acct_role a, id_tenant_id = acct_tenant_id a,
       id_account_id = acct_account_id a, id_credential_id = cred_credential_id c\<rparr>"
    by (auto simp: authenticate_service_account_def split: option.splits prod.splits if_splits)
  from k ok i scalar_Some[OF c] scalar_Some[OF a] show thesis
    by (intro that[of c secret a]) (auto simp: usable_def acct_key_def acct_of_def)
qed

text \<open>A usable credential of an active account authenticates with its secret.\<close>

lemma authenticate_usable:
  assumes ok: "accounts_ok t db" and c: "c \<in> set (db_credentials db)" "usable (env_now env) c"
    and k: "parse_key key = Some (cred_credential_id c, secret)" "cred_secret_hash c = hash_secret kdf secret (cred_secret_salt c)"
    and a: "a \<in> set (db_accounts db)" "acct_status a = AcctActive" "acct_key a = acct_of c"
  shows "snd (authenticate_service_account env kdf key db) = Some \<lparr>id_subject = ''service-account:'' @ acct_account_id a,
      id_role = acct_role a, id_tenant_id = acct_tenant_id a, id_account_id = acct_account_id a, id_credential_id = cred_credential_id c\<rparr>"
proof -
  have "scalar (\<lambda>x. cred_credential_id x = cred_credential_id c \<and> cred_status x = CredActive) (db_credentials db) = Some c"
    using ok c by (intro scalar_unique[where k = cred_credential_id]) (auto simp: accounts_ok_def usable_def)
  moreover have "scalar (\<lambda>x. acct_tenant_id x = cred_tenant_id c \<and> acct_account_id x = cred_account_id c \<and> acct_status x = AcctActive) (db_accounts db) = Some a"
    using ok a by (intro scalar_unique[where k = acct_key]) (auto simp: accounts_ok_def acct_key_def acct_of_def)
  ultimately show ?thesis
    using c(2) k by (simp add: authenticate_service_account_def usable_def)
qed

lemma create_accounts:
  "create_service_account env kdf uuid d tn name description owner role created_by days db = Inr (db', a, c, key) \<Longrightarrow>
    db_accounts db' = db_accounts db @ [a]"
  by (auto simp: create_service_account_def Let_def dest!: issue_credential_Inr(2) split: option.splits elim!: rbindE)

text \<open>A disabled account stays disabled.\<close>

lemma disabled_stays:
  assumes "account_step env kdf w w'" and "accounts_ok (fst w) (snd w)"
    and b: "b \<in> set (db_accounts (snd w))" "acct_status b = AcctDisabled"
  shows "\<exists>b' \<in> set (db_accounts (snd w')). acct_key b' = acct_key b \<and> acct_status b' = AcctDisabled"
  using assms(1)
proof cases
  case (AccountCreated t t' uuid d tn name description owner role created_by days db db' a c key)
  with create_accounts[OF AccountCreated(4)] b show ?thesis by auto
next
  case (KeyAuthenticated t t' key db db' i)
  let ?f = "\<lambda>i n x. if acct_id x = i then x\<lparr>acct_last_authenticated_at := n\<rparr> else x"
  have "db_accounts (fst (authenticate_service_account e kdf key db)) = db_accounts db \<or>
      (\<exists>i n. db_accounts (fst (authenticate_service_account e kdf key db)) =
         update_rows (\<lambda>x. acct_id x = i) (\<lambda>x. x\<lparr>acct_last_authenticated_at := n\<rparr>) (db_accounts db))" for e
    unfolding authenticate_service_account_def
    by (simp add: update_accounts_def update_credentials_def split: option.split prod.split) blast
  from this[of "env\<lparr>env_now := t'\<rparr>"] KeyAuthenticated have "db_accounts db' = db_accounts db \<or>
      (\<exists>i n. db_accounts db' = update_rows (\<lambda>x. acct_id x = i) (\<lambda>x. x\<lparr>acct_last_authenticated_at := n\<rparr>) (db_accounts db))"
    by simp
  then have "db_accounts db' = db_accounts db \<or> (\<exists>i n. db_accounts db' = map (?f i n) (db_accounts db))"
    by (simp add: update_rows_def)
  then show ?thesis
  proof (elim disjE exE)
    assume "db_accounts db' = db_accounts db"
    with b KeyAuthenticated show ?thesis by auto
  next
    fix i n assume m: "db_accounts db' = map (?f i n) (db_accounts db)"
    have "?f i n b \<in> set (db_accounts db')"
      unfolding m set_map by (rule imageI) (use b(1) KeyAuthenticated(1) in simp)
    moreover have "acct_key (?f i n b) = acct_key b" "acct_status (?f i n b) = AcctDisabled"
      using b(2) by (simp_all add: acct_key_def)
    ultimately show ?thesis using KeyAuthenticated(2) by (intro bexI[of _ "?f i n b"]) simp_all
  qed
next
  case (CredentialRotated t t' a db uuid d requested_by grace days db' r c key)
  from CredentialRotated(5) have "db_accounts db' = db_accounts db"
    by (cases rule: rotate_service_account_Inr) (auto simp: update_credentials_def dest: issue_credential_Inr(2))
  with b CredentialRotated show ?thesis by auto
next
  case (RotationCompleted t t' r db db' r')
  then have "db_accounts db' = db_accounts db"
    by (auto simp: complete_rotation_def Let_def update_credentials_def split: if_splits option.splits)
  with b RotationCompleted show ?thesis by auto
next
  case (AccountDisabled t t' a db db' a')
  show ?thesis
  proof (cases "acct_id b = acct_id a \<and> acct_status a \<noteq> AcctDisabled")
    case True
    with AccountDisabled assms(2) b have "b = a" using unique_key_eq[of acct_id "db_accounts db" b a] by (auto simp: accounts_ok_def)
    with True b show ?thesis by simp
  next
    case False
    with AccountDisabled b have "b \<in> set (db_accounts db')"
      by (auto simp: disable_service_account_def Let_def update_accounts_def update_credentials_def set_update_rows image_iff split: if_splits)
    with b AccountDisabled show ?thesis by auto
  qed
qed

section \<open>Properties\<close>

text \<open>
  C12: through any sequence of creations, authentications, rotations, completions and disablings, in which no two
  credentials are issued at the same instant, an account has at most two usable credentials at any moment, and
  at most one when none of its rotations is in its grace period.
\<close>

theorem usable_credentials_bounded:
  assumes "(account_step env kdf)\<^sup>*\<^sup>* (t0, db0) (t, db)"
    and "db_accounts db0 = []" and "db_credentials db0 = []" and "db_rotations db0 = []" and "t \<le> now"
  shows "card {c \<in> set (db_credentials db). acct_of c = k \<and> usable now c} \<le> 2 \<and>
         ((\<forall>r \<in> set (db_rotations db). rot_acct r = k \<longrightarrow> \<not> in_grace now r) \<longrightarrow>
            card {c \<in> set (db_credentials db). acct_of c = k \<and> usable now c} \<le> 1)"
proof -
  let ?U = "{c \<in> set (db_credentials db). acct_of c = k \<and> usable now c}"
  let ?N = "{c \<in> ?U. cred_retire_after c = None}" and ?R = "{c \<in> ?U. cred_retire_after c \<noteq> None}"
  have ok: "accounts_ok now db" using accounts_ok_later[OF accounts_reachable[OF assms(1-4)] assms(5)] .
  then have uid: "unique_key cred_id (db_credentials db)" and uc: "unique_key cred_credential_id (db_credentials db)"
    and cr: "credentials_ok now (db_rotations db) (db_credentials db)" by (auto simp: accounts_ok_def)
  have one: "card S \<le> 1" if "\<And>x y. x \<in> S \<Longrightarrow> y \<in> S \<Longrightarrow> x = y" for S :: "service_account_credential set"
  proof (cases "S = {}")
    case False
    then obtain x where "x \<in> S" by blast
    with that have "S \<subseteq> {x}" by blast
    then show ?thesis by (metis card_mono card.empty card_insert_disjoint empty_iff finite.intros One_nat_def)
  qed simp
  have sup: "superseded x y \<or> superseded y x" if "x \<in> ?U" "y \<in> ?U" "x \<noteq> y" for x y
  proof -
    have "cred_id x \<noteq> cred_id y" using unique_key_eq[OF uid, of x y] that by auto
    moreover have "superseded u v" if "u \<in> ?U" "v \<in> ?U" "cred_id u < cred_id v" for u v
      using cr that by (simp add: credentials_ok_def)
    ultimately show ?thesis using that by (meson nat_neq_iff)
  qed
  have issued: "cred_issued_at x \<le> now" if "x \<in> ?U" for x using cr that by (simp add: credentials_ok_def)
  have N: "card ?N \<le> 1"
  proof (rule one)
    fix x y assume xy: "x \<in> ?N" "y \<in> ?N"
    have False if "superseded u v" "u \<in> ?N" "v \<in> ?N" for u v
      using that issued[of v] by (auto simp: superseded_def usable_def)
    with sup[of x y] xy show "x = y" by blast
  qed
  have grace: "\<exists>r \<in> set (db_rotations db). rot_acct r = k \<and> rot_old_credential_id r = cred_credential_id x \<and> in_grace now r" if "x \<in> ?R" for x
  proof -
    from that obtain z where "cred_retire_after x = Some z" "now < z" "cred_status x = CredActive" "x \<in> set (db_credentials db)" "acct_of x = k"
      by (auto simp: usable_def not_retired_def)
    with cr show ?thesis unfolding credentials_ok_def in_grace_def by fast
  qed
  have R: "card ?R \<le> 1"
  proof (rule one)
    fix x y assume xy: "x \<in> ?R" "y \<in> ?R"
    from grace[OF xy(1)] obtain r1 where r1: "r1 \<in> set (db_rotations db)" "rot_acct r1 = k" "rot_old_credential_id r1 = cred_credential_id x"
      "in_grace now r1" by blast
    from grace[OF xy(2)] obtain r2 where r2: "r2 \<in> set (db_rotations db)" "rot_acct r2 = k" "rot_old_credential_id r2 = cred_credential_id y"
      "in_grace now r2" by blast
    have "r1 = r2" using cr r1 r2 by (simp add: credentials_ok_def)
    with r1 r2 have "cred_credential_id x = cred_credential_id y" by simp
    with unique_key_eq[OF uc, of x y] xy show "x = y" by simp
  qed
  have "card ?U \<le> card (?N \<union> ?R)" by (rule card_mono) auto
  also have "\<dots> \<le> card ?N + card ?R" by (rule card_Un_le)
  finally have le: "card ?U \<le> card ?N + card ?R" .
  have "card ?R = 0" if "\<forall>r \<in> set (db_rotations db). rot_acct r = k \<longrightarrow> \<not> in_grace now r"
  proof -
    have "?R = {}" using grace that by fast
    then show ?thesis by (simp only: card.empty)
  qed
  with N R le show ?thesis by linarith
qed

text \<open>
  C11: a key is accepted only if it carries the secret of a credential that is active, unexpired and not retired, of an active
  account, whose tenant and role it gives; and once an account has been disabled, no sequence of operations
  makes a key of it accepted again.
\<close>

theorem service_account_authentication:
  assumes "(account_step env kdf)\<^sup>*\<^sup>* (t0, db0) (t, db)" and "db_accounts db0 = []" and "db_credentials db0 = []" and "db_rotations db0 = []"
    and "(account_step env kdf)\<^sup>*\<^sup>* (t, db) (t', db')" and "authenticate_service_account (env\<lparr>env_now := now\<rparr>) kdf key db' = (db'', Some i)"
  shows "(\<exists>c a secret. c \<in> set (db_credentials db') \<and> parse_key key = Some (cred_credential_id c, secret) \<and>
            cred_secret_hash c = hash_secret kdf secret (cred_secret_salt c) \<and> usable now c \<and>
            a \<in> set (db_accounts db') \<and> acct_status a = AcctActive \<and> acct_key a = acct_of c \<and>
            id_tenant_id i = acct_tenant_id a \<and> id_account_id i = acct_account_id a \<and> id_role i = acct_role a) \<and>
         (\<forall>a \<in> set (db_accounts db). acct_status a = AcctDisabled \<longrightarrow> (id_tenant_id i, id_account_id i) \<noteq> acct_key a)"
proof -
  have ok: "accounts_ok t db" using accounts_reachable[OF assms(1-4)] .
  have "accounts_ok t' db' \<and> (\<forall>k. (\<exists>b \<in> set (db_accounts db). acct_key b = k \<and> acct_status b = AcctDisabled) \<longrightarrow>
      (\<exists>b \<in> set (db_accounts db'). acct_key b = k \<and> acct_status b = AcctDisabled))"
    using assms(5) ok
  proof (induction "(t', db')" arbitrary: t' db' rule: rtranclp_induct)
    case (step w)
    obtain t1 db1 where w: "w = (t1, db1)" by (cases w)
    from step(3)[OF w step(4)] accounts_ok_step[OF step(2)] disabled_stays[OF step(2)] show ?case
      unfolding w fst_conv snd_conv by metis
  qed simp
  then have ok': "accounts_ok t' db'" and dis: "\<And>k. \<exists>b \<in> set (db_accounts db). acct_key b = k \<and> acct_status b = AcctDisabled \<Longrightarrow>
      \<exists>b \<in> set (db_accounts db'). acct_key b = k \<and> acct_status b = AcctDisabled" by blast+
  from assms(6) obtain c a secret where c: "c \<in> set (db_credentials db')" "parse_key key = Some (cred_credential_id c, secret)"
    "hash_secret kdf secret (cred_secret_salt c) = cred_secret_hash c" "usable now c"
    "a \<in> set (db_accounts db')" "acct_status a = AcctActive" "acct_key a = acct_of c" and
    i: "i = \<lparr>id_subject = ''service-account:'' @ acct_account_id a, id_role = acct_role a, id_tenant_id = acct_tenant_id a,
       id_account_id = acct_account_id a, id_credential_id = cred_credential_id c\<rparr>"
    by (rule authenticate_Some) simp
  have "(id_tenant_id i, id_account_id i) \<noteq> acct_key b" if b: "b \<in> set (db_accounts db)" "acct_status b = AcctDisabled" for b
  proof
    assume "(id_tenant_id i, id_account_id i) = acct_key b"
    then have "acct_key a = acct_key b" by (simp add: i acct_key_def)
    moreover from dis[of "acct_key b"] b obtain b' where "b' \<in> set (db_accounts db')" "acct_key b' = acct_key b" "acct_status b' = AcctDisabled" by blast
    ultimately show False using ok' c(5,6) unique_key_eq[of acct_key "db_accounts db'" a b'] by (auto simp: accounts_ok_def)
  qed
  moreover have "cred_secret_hash c = hash_secret kdf secret (cred_secret_salt c)" using c(3) by simp
  ultimately show ?thesis using c i by (intro conjI exI[of _ c] exI[of _ a] exI[of _ secret]) simp_all
qed


text \<open>
  A key that creating an account or rotating its credential hands out is accepted from that moment until its credential
  expires, with the account's tenant and role, as long as nothing else happens to the account.
\<close>

theorem issued_key_accepted:
  assumes "(account_step env kdf)\<^sup>*\<^sup>* (t0, db0) (t, db)" and "db_accounts db0 = []" and "db_credentials db0 = []" and "db_rotations db0 = []"
    and "t < now" and "length (dr_credential_id d) = 36" and "CHR ''_'' \<notin> set (dr_credential_id d)" and "32 \<le> length (dr_secret d)"
    and "create_service_account (env\<lparr>env_now := now\<rparr>) kdf uuid d tn name description owner role created_by days db = Inr (db', a, c, key) \<or>
         a \<in> set (db_accounts db) \<and>
         rotate_service_account (env\<lparr>env_now := now\<rparr>) kdf uuid d a requested_by grace days db = Inr (db', r, c, key)"
    and "now \<le> now'" and "now' < cred_expires_at c"
  shows "snd (authenticate_service_account (env\<lparr>env_now := now'\<rparr>) kdf key db') =
    Some \<lparr>id_subject = ''service-account:'' @ acct_account_id a, id_role = acct_role a, id_tenant_id = acct_tenant_id a,
      id_account_id = acct_account_id a, id_credential_id = dr_credential_id d\<rparr>"
proof -
  let ?env = "env\<lparr>env_now := now\<rparr>"
  have ok: "accounts_ok t db" using accounts_reachable[OF assms(1-4)] .
  have goal: "accounts_ok now db' \<and> c \<in> set (db_credentials db') \<and> a \<in> set (db_accounts db') \<and> acct_status a = AcctActive \<and>
      key = key_text (dr_credential_id d) (dr_secret d) \<and> (\<exists>n dbc. c = new_credential ?env kdf dbc d a n)"
    using assms(9)
  proof
    assume cr: "create_service_account ?env kdf uuid d tn name description owner role created_by days db = Inr (db', a, c, key)"
    then obtain rr n where a: "a = new_account ?env db uuid tn name description owner rr created_by"
      and i: "issue_credential ?env kdf d a n (db\<lparr>db_accounts := db_accounts db @ [a]\<rparr>) = Inr (db', c, key)"
      by (auto simp: create_service_account_def Let_def split: option.splits elim!: rbindE)
    have "acct_status a = AcctActive" by (simp add: a new_account_def)
    with create_ok[OF ok _ cr] assms(5) issue_credential_Inr[OF i] show ?thesis by auto
  next
    assume ro: "a \<in> set (db_accounts db) \<and> rotate_service_account ?env kdf uuid d a requested_by grace days db = Inr (db', r, c, key)"
    from ro[THEN conjunct2] show ?thesis
    proof (cases rule: rotate_service_account_Inr)
      case (1 old g n db1)
      note i = issue_credential_Inr[OF 1(6)]
      have "cred_id c \<noteq> cred_id old"
        using next_id_upper[OF current_credential_Some(1)[OF 1(3)], of cred_id] by (simp add: i(1))
      then have "c \<in> set (db_credentials db')" by (simp add: 1(8) i(2) update_credentials_def set_update_rows)
      moreover have "db_accounts db' = db_accounts db" by (simp add: 1(8) i(2) update_credentials_def)
      ultimately show ?thesis using rotate_ok[OF ok _ conjunct1[OF ro] conjunct2[OF ro]] assms(5) ro i 1(1) by auto
    qed
  qed
  then obtain n dbc where c: "c = new_credential ?env kdf dbc d a n" by blast
  have "parse_key key = Some (cred_credential_id c, dr_secret d)"
    using goal parse_key_text[OF assms(6,7,8)] by (simp add: c)
  moreover have "usable now' c" using assms(11) by (simp add: usable_def c not_retired_def)
  moreover have "cred_secret_hash c = hash_secret kdf (dr_secret d) (cred_secret_salt c)" by (simp add: c new_credential_def)
  ultimately show ?thesis
    using authenticate_usable[of now db' c "env\<lparr>env_now := now'\<rparr>" key "dr_secret d" kdf a] goal by (simp add: c)
qed

text \<open>
  C13: a rotation can bring a retired key back: when the newest unexpired credential of an account is one that has already
  been retired, because its successor has expired, the rotation picks it as the current one and sets its
  retirement anew, so that its old key is accepted again until the grace period ends.
\<close>

theorem retired_credential_revived:
  assumes "accounts_ok t db" and "t < env_now env" and "a \<in> set (db_accounts db)"
    and "current_credential env a db = Some old" and "cred_retire_after old = Some x" and "x \<le> env_now env"
    and "rotate_service_account env kdf uuid d a requested_by (Some grace) days db = Inr (db', r, c, key)" and "grace \<noteq> 0"
    and "parse_key old_key = Some (cred_credential_id old, secret)" and "cred_secret_hash old = hash_secret kdf secret (cred_secret_salt old)"
  shows "snd (authenticate_service_account env kdf old_key db) = None \<and>
    (\<exists>i. snd (authenticate_service_account env kdf old_key db') = Some i \<and> id_account_id i = acct_account_id a \<and> id_role i = acct_role a)"
proof
  note cur = current_credential_Some[OF assms(4)]
  have "scalar (\<lambda>y. cred_credential_id y = cred_credential_id old \<and> cred_status y = CredActive) (db_credentials db) = Some old"
    using assms(1) cur by (intro scalar_unique[where k = cred_credential_id]) (auto simp: accounts_ok_def)
  with assms(5,6,9) show "snd (authenticate_service_account env kdf old_key db) = None"
    by (simp add: authenticate_service_account_def not_retired_def)
  from assms(7) show "\<exists>i. snd (authenticate_service_account env kdf old_key db') = Some i \<and> id_account_id i = acct_account_id a \<and> id_role i = acct_role a"
  proof (cases rule: rotate_service_account_Inr)
    case (1 old' g n db1)
    then have g: "old' = old" "g = grace" using assms(4) by simp_all
    note i = issue_credential_Inr[OF 1(6)]
    let ?old = "retire_credential env grace old"
    have f: "cred_credential_id ?old = cred_credential_id old" "acct_of ?old = acct_of old" "cred_secret_hash ?old = cred_secret_hash old"
      "cred_secret_salt ?old = cred_secret_salt old"
      by (simp_all add: retire_credential_def Let_def acct_of_def)
    have "?old \<in> set (db_credentials db')"
      using cur(1) by (simp add: 1(8) g i(2) update_credentials_def set_update_rows)
    moreover have "usable (env_now env) ?old"
      using cur assms(8) 1(4) g by (auto simp: usable_def retire_credential_def not_retired_def Let_def td_defs)
    moreover have "a \<in> set (db_accounts db')" using assms(3) by (simp add: 1(8) i(2) update_credentials_def)
    ultimately show ?thesis
      using authenticate_usable[OF rotate_ok[OF assms(1,2,3,7)], of ?old env old_key secret kdf a] assms(9,10) cur(2) 1(1) by (simp add: f)
  qed
qed


section \<open>Instances\<close>

text \<open>An account whose key lives a year, rotated to a key that lives a day, and rotated again two days later.\<close>

definition drawn :: "char \<Rightarrow> drawn_credential" where
  "drawn c = \<lparr>dr_credential_id = replicate 36 c, dr_secret = replicate 32 CHR ''s'', dr_salt = ''00''\<rparr>"

lemma drawn_simps [simp]: "dr_credential_id (drawn c) = replicate 36 c" "dr_secret (drawn c) = replicate 32 CHR ''s''"
  by (simp_all add: drawn_def)

definition plain_kdf :: pbkdf2 where
  "plain_kdf secret salt n = secret @ salt"

abbreviation at_time :: "time \<Rightarrow> env" where
  "at_time t \<equiv> base_env\<lparr>env_now := t\<rparr>"

lemma base_env_now [simp]: "env_settings base_env = default_settings"
  by (simp add: base_env_def)

lemma sample_role: "role_of_str ''auditor'' = Some Auditor"
  by code_simp

lemma bot_created:
  obtains db1 a c1 where
    "create_service_account (at_time 1) plain_kdf ''acct'' (drawn CHR ''1'') ''default'' ''bot'' [] ''owner'' ''auditor'' ''admin'' (Some 365) empty_db =
      Inr (db1, a, c1, key_text (dr_credential_id (drawn CHR ''1'')) (dr_secret (drawn CHR ''1'')))"
    "db_accounts db1 = [a]" "db_credentials db1 = [c1]" "db_rotations db1 = []" "acct_status a = AcctActive" "acct_role a = Auditor"
    "acct_key a = (''default'', ''acct'')" "c1 = new_credential (at_time 1) plain_kdf empty_db (drawn CHR ''1'') a 365"
proof -
  define a where "a = new_account (at_time 1) empty_db ''acct'' ''default'' ''bot'' [] ''owner'' Auditor ''admin''"
  define db0 where "db0 = empty_db\<lparr>db_accounts := [a]\<rparr>"
  define c1 where "c1 = new_credential (at_time 1) plain_kdf empty_db (drawn CHR ''1'') a 365"
  have emp: "db_accounts empty_db = []" "db_credentials empty_db = []" "db_rotations empty_db = []" by (simp_all add: empty_db_def)
  then have c1: "new_credential (at_time 1) plain_kdf db0 (drawn CHR ''1'') a 365 = c1"
    by (simp add: c1_def db0_def new_credential_def)
  have "create_service_account (at_time 1) plain_kdf ''acct'' (drawn CHR ''1'') ''default'' ''bot'' [] ''owner'' ''auditor'' ''admin'' (Some 365) empty_db =
      Inr (db0\<lparr>db_credentials := [c1]\<rparr>, a, c1, key_text (dr_credential_id (drawn CHR ''1'')) (dr_secret (drawn CHR ''1'')))"
    by (simp add: create_service_account_def sample_role credential_lifetime_def or_int_def a_def[symmetric] issue_credential_def Let_def emp
        db0_def[symmetric] c1)
  then show thesis
    by (rule that) (simp_all add: db0_def emp a_def new_account_def acct_key_def c1_def)
qed

lemma bot_rotated:
  assumes "db_accounts db1 = [a]" and "db_credentials db1 = [c1]" and "db_rotations db1 = []" and "acct_status a = AcctActive"
    and "c1 = new_credential (at_time 1) plain_kdf empty_db (drawn CHR ''1'') a 365"
  obtains db2 r2 c2 key2 where
    "rotate_service_account (at_time 2) plain_kdf ''r2'' (drawn CHR ''2'') a ''admin'' (Some 1) (Some 1) db1 = Inr (db2, r2, c2, key2)"
    "db_accounts db2 = [a]" "db_credentials db2 = [retire_credential (at_time 2) 1 c1, c2]" "db_rotations db2 = [r2]"
    "rot_acct r2 = acct_key a" "in_grace 2 r2" "rot_grace_ends_at r2 = 2 + td_hours 1" "rot_rotation_id r2 = ''r2''"
    "c2 = new_credential (at_time 2) plain_kdf db1 (drawn CHR ''2'') a 1" "key2 = key_text (dr_credential_id (drawn CHR ''2'')) (dr_secret (drawn CHR ''2''))"
proof -
  have c1: "cred_tenant_id c1 = acct_tenant_id a" "cred_account_id c1 = acct_account_id a" "cred_status c1 = CredActive"
    "cred_expires_at c1 = 1 + td_days 365" "cred_id c1 = 1" "cred_credential_id c1 = replicate 36 CHR ''1''"
    by (simp_all add: assms(5)) (simp_all add: new_credential_def next_id_def empty_db_def)
  have cur: "current_credential (at_time 2) a db1 = Some c1"
    by (simp add: current_credential_def assms(2) where_rows_def c1 order_by_desc_def scalar_Cons td_defs)
  define c2 where "c2 = new_credential (at_time 2) plain_kdf db1 (drawn CHR ''2'') a 1"
  define r2 where "r2 = new_rotation (at_time 2) ''r2'' db1 a (replicate 36 CHR ''1'') (replicate 36 CHR ''2'') 1 ''admin''"
  have c2: "cred_id c2 = 2" "cred_credential_id c2 = replicate 36 CHR ''2''"
    by (simp_all add: c2_def assms(2) next_id_def c1)
  have "rotate_service_account (at_time 2) plain_kdf ''r2'' (drawn CHR ''2'') a ''admin'' (Some 1) (Some 1) db1 =
      Inr (db1\<lparr>db_credentials := [retire_credential (at_time 2) 1 c1, c2], db_rotations := [r2]\<rparr>, r2, c2,
        key_text (dr_credential_id (drawn CHR ''2'')) (dr_secret (drawn CHR ''2'')))"
    by (simp add: rotate_service_account_def assms(2,3,4) cur credential_lifetime_def or_int_def issue_credential_def Let_def
        c2_def[symmetric] r2_def[symmetric] update_credentials_def next_id_def c1 c2)
  then show thesis
    by (rule that) (simp_all add: assms(1) r2_def new_rotation_def rot_acct_def acct_key_def in_grace_def td_defs c2_def)
qed


definition bot_run :: "db \<Rightarrow> service_account \<Rightarrow> service_account_credential \<Rightarrow> db \<Rightarrow> credential_rotation \<Rightarrow> service_account_credential \<Rightarrow> bool" where
  "bot_run db1 a c1 db2 r2 c2 \<longleftrightarrow>
     account_step base_env plain_kdf (0, empty_db) (1, db1) \<and> account_step base_env plain_kdf (1, db1) (2, db2) \<and>
     create_service_account (at_time 1) plain_kdf ''acct'' (drawn CHR ''1'') ''default'' ''bot'' [] ''owner'' ''auditor'' ''admin'' (Some 365) empty_db =
       Inr (db1, a, c1, key_text (replicate 36 CHR ''1'') (replicate 32 CHR ''s'')) \<and>
     c1 = new_credential (at_time 1) plain_kdf empty_db (drawn CHR ''1'') a 365 \<and> acct_status a = AcctActive \<and>
     acct_key a = (''default'', ''acct'') \<and> db_accounts db1 = [a] \<and> db_credentials db1 = [c1] \<and>
     db_accounts db2 = [a] \<and> db_credentials db2 = [retire_credential (at_time 2) 1 c1, c2] \<and> db_rotations db2 = [r2] \<and>
     c2 = new_credential (at_time 2) plain_kdf db1 (drawn CHR ''2'') a 1 \<and> rot_grace_ends_at r2 = 2 + td_hours 1 \<and>
     rot_rotation_id r2 = ''r2''"

lemma bot_reached: "\<exists>db1 a c1 db2 r2 c2. bot_run db1 a c1 db2 r2 c2"
proof -
  from bot_created obtain db1 a c1 where 1:
    "create_service_account (at_time 1) plain_kdf ''acct'' (drawn CHR ''1'') ''default'' ''bot'' [] ''owner'' ''auditor'' ''admin'' (Some 365) empty_db =
      Inr (db1, a, c1, key_text (dr_credential_id (drawn CHR ''1'')) (dr_secret (drawn CHR ''1'')))"
    "db_accounts db1 = [a]" "db_credentials db1 = [c1]" "db_rotations db1 = []" "acct_status a = AcctActive" "acct_role a = Auditor"
    "acct_key a = (''default'', ''acct'')" "c1 = new_credential (at_time 1) plain_kdf empty_db (drawn CHR ''1'') a 365" .
  from bot_rotated[OF 1(2-5,8)] obtain db2 r2 c2 key2 where 2:
    "rotate_service_account (at_time 2) plain_kdf ''r2'' (drawn CHR ''2'') a ''admin'' (Some 1) (Some 1) db1 = Inr (db2, r2, c2, key2)"
    "db_accounts db2 = [a]" "db_credentials db2 = [retire_credential (at_time 2) 1 c1, c2]" "db_rotations db2 = [r2]"
    "rot_acct r2 = acct_key a" "in_grace 2 r2" "rot_grace_ends_at r2 = 2 + td_hours 1" "rot_rotation_id r2 = ''r2''"
    "c2 = new_credential (at_time 2) plain_kdf db1 (drawn CHR ''2'') a 1" .
  have "account_step base_env plain_kdf (0, empty_db) (1, db1)" by (rule AccountCreated[OF _ 1(1)]) simp
  moreover have "account_step base_env plain_kdf (1, db1) (2, db2)" by (rule CredentialRotated[OF _ _ 2(1)]) (simp_all add: 1(2))
  ultimately have "bot_run db1 a c1 db2 r2 c2" using 1 2 by (simp add: bot_run_def)
  then show ?thesis by blast
qed

lemma empty_accounts: "db_accounts empty_db = []" "db_credentials empty_db = []" "db_rotations empty_db = []"
  by (simp_all add: empty_db_def)

theorem usable_credentials_bounded_witness:
  "\<exists>db. (account_step base_env plain_kdf)\<^sup>*\<^sup>* (0, empty_db) (2, db) \<and> length (db_credentials db) = 2 \<and>
     card {c \<in> set (db_credentials db). acct_of c = (''default'', ''acct'') \<and> usable 2 c} \<le> 2"
proof -
  obtain db1 a c1 db2 r2 c2 where run: "bot_run db1 a c1 db2 r2 c2" using bot_reached by blast
  have s: "account_step base_env plain_kdf (0, empty_db) (1, db1)"
    "account_step base_env plain_kdf (1, db1) (2, db2)" "length (db_credentials db2) = 2" using run by (simp_all add: bot_run_def)
  then have r: "(account_step base_env plain_kdf)\<^sup>*\<^sup>* (0, empty_db) (2, db2)" by (metis r_into_rtranclp rtranclp.rtrancl_into_rtrancl)
  from usable_credentials_bounded[OF r empty_accounts, of 2 "(''default'', ''acct'')"] r s(3) show ?thesis by auto
qed

theorem issued_key_accepted_witness:
  "\<exists>db key i. account_step base_env plain_kdf (0, empty_db) (1, db) \<and>
     snd (authenticate_service_account (at_time 5) plain_kdf key db) = Some i \<and> id_account_id i = ''acct''"
proof -
  obtain db1 a c1 db2 r2 c2 where run: "bot_run db1 a c1 db2 r2 c2" using bot_reached by blast
  have s: "account_step base_env plain_kdf (0, empty_db) (1, db1)"
    "create_service_account (at_time 1) plain_kdf ''acct'' (drawn CHR ''1'') ''default'' ''bot'' [] ''owner'' ''auditor'' ''admin'' (Some 365) empty_db =
      Inr (db1, a, c1, key_text (replicate 36 CHR ''1'') (replicate 32 CHR ''s''))"
    "c1 = new_credential (at_time 1) plain_kdf empty_db (drawn CHR ''1'') a 365" "acct_key a = (''default'', ''acct'')" using run by (simp_all add: bot_run_def)
  from issued_key_accepted[of base_env plain_kdf 0 empty_db 0 empty_db 1 "drawn CHR ''1''" "''acct''" "''default''" "''bot''" "[]" "''owner''"
      "''auditor''" "''admin''" "Some 365" db1 a c1 _ _ _ _ 5] s
  have "snd (authenticate_service_account (at_time 5) plain_kdf (key_text (replicate 36 CHR ''1'') (replicate 32 CHR ''s'')) db1) =
    Some \<lparr>id_subject = ''service-account:'' @ acct_account_id a, id_role = acct_role a, id_tenant_id = acct_tenant_id a,
      id_account_id = acct_account_id a, id_credential_id = replicate 36 CHR ''1''\<rparr>"
    by (simp add: empty_accounts td_defs)
  with s(1,4) show ?thesis
    by (intro exI[of _ db1] exI[of _ "key_text (replicate 36 CHR ''1'') (replicate 32 CHR ''s'')"]) (simp add: acct_key_def)
qed

theorem service_account_authentication_witness:
  "\<exists>db db' i. account_step base_env plain_kdf (0, empty_db) (1, db) \<and>
     authenticate_service_account (at_time 5) plain_kdf (key_text (replicate 36 CHR ''1'') (replicate 32 CHR ''s'')) db = (db', Some i) \<and>
     (\<exists>c \<in> set (db_credentials db). usable 5 c)"
proof -
  obtain db1 a c1 db2 r2 c2 where run: "bot_run db1 a c1 db2 r2 c2" using bot_reached by blast
  have s: "account_step base_env plain_kdf (0, empty_db) (1, db1)"
    "create_service_account (at_time 1) plain_kdf ''acct'' (drawn CHR ''1'') ''default'' ''bot'' [] ''owner'' ''auditor'' ''admin'' (Some 365) empty_db =
      Inr (db1, a, c1, key_text (replicate 36 CHR ''1'') (replicate 32 CHR ''s''))"
    "c1 = new_credential (at_time 1) plain_kdf empty_db (drawn CHR ''1'') a 365" "acct_status a = AcctActive" using run by (simp_all add: bot_run_def)
  have r: "(account_step base_env plain_kdf)\<^sup>*\<^sup>* (0, empty_db) (1, db1)" using s(1) by blast
  have ok: "accounts_ok 1 db1" by (rule accounts_reachable[OF r empty_accounts])
  have c: "c1 \<in> set (db_credentials db1)" "a \<in> set (db_accounts db1)" using run by (simp_all add: bot_run_def)
  have "parse_key (key_text (replicate 36 CHR ''1'') (replicate 32 CHR ''s'')) = Some (cred_credential_id c1, replicate 32 CHR ''s'')"
    by (subst parse_key_text) (simp_all add: s(3))
  moreover have "usable 5 c1" "cred_secret_hash c1 = hash_secret plain_kdf (replicate 32 CHR ''s'') (cred_secret_salt c1)" "acct_key a = acct_of c1"
    by (simp_all add: s(3) usable_def not_retired_def td_defs) (simp_all add: new_credential_def)
  ultimately obtain i where i: "snd (authenticate_service_account (at_time 5) plain_kdf (key_text (replicate 36 CHR ''1'') (replicate 32 CHR ''s'')) db1) = Some i"
    using authenticate_usable[OF ok c(1) _ _ _ c(2) s(4), of "at_time 5"] by simp
  obtain db' where "authenticate_service_account (at_time 5) plain_kdf (key_text (replicate 36 CHR ''1'') (replicate 32 CHR ''s'')) db1 = (db', Some i)"
    using i by (metis prod.collapse)
  with service_account_authentication[OF r empty_accounts rtranclp.rtrancl_refl this] s(1) show ?thesis by blast
qed

theorem retired_credential_revived_witness:
  "\<exists>db db'. account_step base_env plain_kdf (2, db) (2 + td_days 2, db') \<and>
     snd (authenticate_service_account (at_time (2 + td_days 2)) plain_kdf (key_text (replicate 36 CHR ''1'') (replicate 32 CHR ''s'')) db) = None \<and>
     snd (authenticate_service_account (at_time (2 + td_days 2)) plain_kdf (key_text (replicate 36 CHR ''1'') (replicate 32 CHR ''s'')) db') \<noteq> None"
proof -
  let ?now = "2 + td_days 2" and ?key = "key_text (replicate 36 CHR ''1'') (replicate 32 CHR ''s'')"
  obtain db1 a c1 db2 r2 c2 where run: "bot_run db1 a c1 db2 r2 c2" using bot_reached by blast
  have s: "account_step base_env plain_kdf (0, empty_db) (1, db1)"
    "account_step base_env plain_kdf (1, db1) (2, db2)"
    "c1 = new_credential (at_time 1) plain_kdf empty_db (drawn CHR ''1'') a 365" "acct_status a = AcctActive"
    "db_accounts db2 = [a]" "db_credentials db2 = [retire_credential (at_time 2) 1 c1, c2]" "db_rotations db2 = [r2]"
    "c2 = new_credential (at_time 2) plain_kdf db1 (drawn CHR ''2'') a 1" "rot_grace_ends_at r2 = 2 + td_hours 1" "rot_rotation_id r2 = ''r2''" using run by (simp_all add: bot_run_def)
  define old where "old = retire_credential (at_time 2) 1 c1"
  have "(account_step base_env plain_kdf)\<^sup>*\<^sup>* (0, empty_db) (2, db2)" using s(1,2) by (metis r_into_rtranclp rtranclp.rtrancl_into_rtrancl)
  then have ok: "accounts_ok 2 db2" by (rule accounts_reachable[OF _ empty_accounts])
  have old: "cred_tenant_id old = acct_tenant_id a" "cred_account_id old = acct_account_id a" "cred_status old = CredActive"
    "cred_expires_at old = 1 + td_days 365" "cred_credential_id old = replicate 36 CHR ''1''" "cred_retire_after old = Some (2 + td_hours 1)"
    "cred_secret_hash old = hash_secret plain_kdf (replicate 32 CHR ''s'') (cred_secret_salt old)"
    by (simp_all add: old_def retire_credential_def s(3)) (simp_all add: new_credential_def)
  have cur: "current_credential (at_time ?now) a db2 = Some old"
    by (simp add: current_credential_def s(6) old_def[symmetric] where_rows_def old order_by_desc_def scalar_Cons s(8) td_defs)
  have none: "\<not> active_rotation (at_time ?now) a r2" by (simp add: active_rotation_def s(9) td_defs)
  have "\<exists>db' r c key. rotate_service_account (at_time ?now) plain_kdf ''r3'' (drawn CHR ''3'') a ''admin'' (Some 1) (Some 1) db2 = Inr (db', r, c, key)"
    by (simp add: rotate_service_account_def s(4,6,7,10) none cur credential_lifetime_def or_int_def issue_credential_def Let_def
        old_def[symmetric] old) (simp add: s(8))
  then obtain db' r c key where ro: "rotate_service_account (at_time ?now) plain_kdf ''r3'' (drawn CHR ''3'') a ''admin'' (Some 1) (Some 1) db2 = Inr (db', r, c, key)" by blast
  have "account_step base_env plain_kdf (2, db2) (?now, db')" by (rule CredentialRotated[OF _ _ ro]) (simp_all add: s(5) td_defs)
  moreover have "parse_key ?key = Some (cred_credential_id old, replicate 32 CHR ''s'')" by (subst parse_key_text) (simp_all add: old)
  ultimately show ?thesis
    using retired_credential_revived[OF ok _ _ cur old(6) _ ro _ _ old(7), of ?key] s(5) by (auto simp: td_defs)
qed

end
