(* ===== verification/Auth.thy ===== *)
theory Auth
  imports ServiceAccounts
begin

text \<open>
  \<open>app/auth.py\<close>: who a request comes from. A request is authenticated by the first of a bearer token, a workload identity
  token, a service account key and an API key that it carries; tokens are checked with the key set of the configured
  issuer, which may be discovered over HTTPS and is cached. The JWT library and the HTTP client are parameters; the
  configured texts are the documents they parse to, \<open>None\<close> when they do not parse.
\<close>

section \<open>Configuration and libraries\<close>

record auth_config =
  au_api_keys :: "json option"
  au_oidc_providers :: "json option"
  au_oidc_issuer :: string
  au_oidc_audience :: string
  au_oidc_jwks_url :: string
  au_workload_providers :: "json option"
  au_workload_max_token_seconds :: int
  au_discovery_cache_seconds :: int
  au_default_tenant :: string

text \<open>
  The JWT library: the claims read without verification, the signing key that a key set holds for a token, and the
  claims verified for a key, algorithms, an audience and an issuer; \<open>None\<close> is any exception it raises.
\<close>

record jwt_library =
  jwt_unverified :: "string \<Rightarrow> dict option"
  jwt_signing_key :: "json \<Rightarrow> string \<Rightarrow> string option"
  jwt_verified :: "string \<Rightarrow> string \<Rightarrow> json list \<Rightarrow> string \<Rightarrow> json \<Rightarrow> dict option"

text \<open>What a GET returns: the status is not an error, the length of the content, the document it parses to.\<close>

record http_response =
  hr_ok :: bool
  hr_length :: int
  hr_json :: "json option"

type_synonym http_get = "string \<Rightarrow> http_response option"

text \<open>
  The network: the response of a GET of \<open>httpx\<close>, and the key-set document that \<open>PyJWKClient\<close> reads from its URL;
  \<open>None\<close> when no response or no document is obtained.
\<close>

record http_client =
  hc_get :: http_get
  hc_key_set :: "string \<Rightarrow> json option"

type_synonym discovery_cache = "string \<rightharpoonup> time \<times> dict"

section \<open>Helpers\<close>

definition tenant_char :: "char \<Rightarrow> bool" where
  "tenant_char c = (is_ascii_alpha c \<or> is_ascii_digit c \<or> c \<in> set ''_.-'')"

definition tenant_pattern :: "string \<Rightarrow> bool" where
  "tenant_pattern s = (1 \<le> length s \<and> length s \<le> 120 \<and> list_all tenant_char s)"

definition subject_ok :: "string \<Rightarrow> bool" where
  "subject_ok s = (py_strip s \<noteq> [] \<and> length s \<le> 320)"

fun role_of_json :: "json \<Rightarrow> role option" where
  "role_of_json (JStr s) = role_of_str s"
| "role_of_json _ = None"

definition tenant_of_json :: "py_error \<Rightarrow> json \<Rightarrow> string result" where
  "tenant_of_json e v = (case v of JStr s \<Rightarrow> if tenant_pattern s then Inr s else Inl e | _ \<Rightarrow> Inl e)"

definition subject_of_json :: "py_error \<Rightarrow> json \<Rightarrow> string result" where
  "subject_of_json e v = (case v of JStr s \<Rightarrow> if subject_ok s then Inr s else Inl e | _ \<Rightarrow> Inl e)"

fun claim_path :: "json \<Rightarrow> string list \<Rightarrow> json" where
  "claim_path v [] = v"
| "claim_path v (segment # rest) = (case v of JObj d \<Rightarrow> claim_path (py_get d segment) rest | _ \<Rightarrow> JNull)"

definition claim_value :: "dict \<Rightarrow> json \<Rightarrow> json" where
  "claim_value claims name =
     (case name of JStr s \<Rightarrow> if s = [] then JNull else claim_path (JObj claims) (py_split CHR ''.'' s) | _ \<Rightarrow> JNull)"

text \<open>\<open>s.startswith(''https://'')\<close>, for a value that may not be a string.\<close>

definition https_text :: "json \<Rightarrow> bool" where
  "https_text v = (case v of JStr s \<Rightarrow> take 8 s = ''https://'' | _ \<Rightarrow> False)"

definition lift_option :: "py_error \<Rightarrow> 'a option \<Rightarrow> 'a result" where
  "lift_option e x = (case x of None \<Rightarrow> Inl e | Some v \<Rightarrow> Inr v)"

text \<open>\<open>except HTTPException: raise\<close>, \<open>except Exception\<close> a 401.\<close>

definition unauthorized_on_error :: "string \<Rightarrow> 'a result \<Rightarrow> 'a result" where
  "unauthorized_on_error m r =
     (case r of Inl (HTTPException s d) \<Rightarrow> Inl (HTTPException s d) | Inl _ \<Rightarrow> Inl (HTTPException 401 m) | Inr x \<Rightarrow> Inr x)"

section \<open>API keys\<close>

definition api_key_principal :: "auth_config \<Rightarrow> string option \<Rightarrow> principal result" where
  "api_key_principal cfg key =
     (case au_api_keys cfg of
        None \<Rightarrow> Inl (HTTPException 500 ''ODG_API_KEYS_JSON is invalid'')
      | Some keys \<Rightarrow>
          if \<not> is_jobj keys then Inl (HTTPException 500 ''ODG_API_KEYS_JSON must contain a JSON object'')
          else
            let entry = py_get (jobj keys) (case key of None \<Rightarrow> [] | Some k \<Rightarrow> k) in
            if \<not> py_truthy entry then Inl (HTTPException 401 ''A valid API key is required'')
            else if \<not> is_jobj entry then Inl (HTTPException 500 ''ODG_API_KEYS_JSON entries must contain JSON objects'')
            else
              let e = jobj entry in
              rbind (lift_option (HTTPException 403 ''API key has an unsupported role'')
                       (role_of_json (py_get_default e ''role'' (JStr ''read-only'')))) (\<lambda>role.
              rbind (tenant_of_json (HTTPException 403 ''API key has an invalid tenant'')
                       (if py_truthy (py_get e ''tenant_id'') then py_get e ''tenant_id''
                        else if py_truthy (py_get e ''tenant'') then py_get e ''tenant'' else JStr (au_default_tenant cfg))) (\<lambda>tenant.
              rbind (subject_of_json (HTTPException 403 ''API key has an invalid subject'')
                       (py_get_default e ''subject'' (JStr ''api-key''))) (\<lambda>subject.
              Inr \<lparr>p_subject = subject, p_role = role, p_tenant_id = tenant\<rparr>))))"

section \<open>Providers\<close>

definition provider_objects :: "string \<Rightarrow> json option \<Rightarrow> (string \<times> dict) list result" where
  "provider_objects name configured =
     (case configured of
        None \<Rightarrow> Inl (HTTPException 500 (name @ '' is invalid''))
      | Some v \<Rightarrow>
          if is_jobj v \<and> list_all (\<lambda>(k, p). is_jobj p) (jobj v) then Inr (map (\<lambda>(k, p). (k, jobj p)) (jobj v))
          else Inl (HTTPException 500 (name @ '' must contain provider objects'')))"

definition oidc_providers :: "auth_config \<Rightarrow> (string \<times> dict) list result" where
  "oidc_providers cfg =
     rbind (provider_objects ''ODG_OIDC_PROVIDERS_JSON'' (au_oidc_providers cfg)) (\<lambda>providers.
     Inr (if providers = [] \<and> au_oidc_issuer cfg \<noteq> [] \<and> au_oidc_audience cfg \<noteq> [] \<and> au_oidc_jwks_url cfg \<noteq> []
          then [(''legacy'', [(''issuer'', JStr (au_oidc_issuer cfg)), (''audience'', JStr (au_oidc_audience cfg)),
                             (''jwks_url'', JStr (au_oidc_jwks_url cfg))])]
          else providers))"

definition workload_identity_providers :: "auth_config \<Rightarrow> (string \<times> dict) list result" where
  "workload_identity_providers cfg = provider_objects ''ODG_WORKLOAD_IDENTITY_PROVIDERS_JSON'' (au_workload_providers cfg)"

section \<open>Discovery\<close>

definition load_oidc_discovery ::
  "env \<Rightarrow> auth_config \<Rightarrow> http_client \<Rightarrow> string \<Rightarrow> discovery_cache \<Rightarrow> discovery_cache \<times> dict result" where
  "load_oidc_discovery env cfg http url cache =
     (let now = env_monotonic env;
          load = (case hc_get http url of
                    None \<Rightarrow> (cache, Inl (HTTPException 503 ''OIDC discovery could not be loaded''))
                  | Some r \<Rightarrow>
                      if \<not> hr_ok r \<or> 65536 < hr_length r then (cache, Inl (HTTPException 503 ''OIDC discovery could not be loaded''))
                      else case hr_json r of
                             None \<Rightarrow> (cache, Inl (HTTPException 503 ''OIDC discovery could not be loaded''))
                           | Some (JObj metadata) \<Rightarrow>
                               (cache(url \<mapsto> (now + td_seconds (max 60 (au_discovery_cache_seconds cfg)), metadata)), Inr metadata)
                           | Some _ \<Rightarrow> (cache, Inl (HTTPException 500 ''OIDC discovery document must be an object'')))
      in case cache url of
           Some (expires, metadata) \<Rightarrow> if now < expires then (cache, Inr metadata) else load
         | None \<Rightarrow> load)"

text \<open>\<open>urlparse(u).hostname\<close>; a malformed network location raises.\<close>

definition url_hostname :: "env \<Rightarrow> string \<Rightarrow> string option result" where
  "url_hostname env u =
     rbind (raise_if (netloc_malformed env (url_netloc u)) (ValueError ''Invalid IPv6 URL'')) (\<lambda>_.
     Inr (netloc_hostname (url_netloc u)))"

text \<open>Where the metadata of a provider is read from.\<close>

definition discovery_url :: "env \<Rightarrow> dict \<Rightarrow> string result" where
  "discovery_url env provider =
     rbind (raise_if (\<not> https_text (py_get provider ''issuer''))
              (HTTPException 500 ''OIDC provider issuer must use HTTPS'')) (\<lambda>_.
     let issuer = jstr (py_get provider ''issuer'');
         url = (if py_truthy (py_get provider ''discovery_url'') then py_get provider ''discovery_url''
                else JStr (py_rstrip_char CHR ''/'' issuer @ ''/.well-known/openid-configuration''))
     in rbind (raise_if (\<not> https_text url) (HTTPException 500 ''OIDC provider discovery_url must use HTTPS'')) (\<lambda>_.
        rbind (url_hostname env (jstr url)) (\<lambda>host.
        rbind (url_hostname env issuer) (\<lambda>issuer_host.
        rbind (raise_if (host \<noteq> issuer_host)
                 (HTTPException 500 ''OIDC discovery host must match the configured issuer'')) (\<lambda>_.
        Inr (jstr url))))))"

definition configured_hosts :: "dict \<Rightarrow> string list result" where
  "configured_hosts provider =
     (let hosts = py_get_default provider ''jwks_allowed_hosts'' (JList []) in
      if \<not> py_truthy hosts then Inr []
      else if is_jlist hosts \<and> list_all (\<lambda>h. is_jstr h \<and> jstr h \<noteq> []) (jlist hosts)
           then Inr (map (\<lambda>h. py_lower (jstr h)) (jlist hosts))
      else Inl (HTTPException 500 ''OIDC provider jwks_allowed_hosts is invalid''))"

text \<open>The key-set URL that the metadata of a provider gives.\<close>

definition discovered_jwks :: "env \<Rightarrow> dict \<Rightarrow> dict \<Rightarrow> string result" where
  "discovered_jwks env provider metadata =
     (let issuer = py_get provider ''issuer''; jwks = py_get metadata ''jwks_uri'' in
      rbind (raise_if (\<not> py_eq (py_get metadata ''issuer'') issuer)
               (HTTPException 500 ''OIDC discovery issuer does not match configuration'')) (\<lambda>_.
      rbind (raise_if (\<not> https_text jwks) (HTTPException 500 ''OIDC discovery jwks_uri must use HTTPS'')) (\<lambda>_.
      rbind (url_hostname env (jstr issuer)) (\<lambda>issuer_host.
      rbind (configured_hosts provider) (\<lambda>hosts.
      rbind (url_hostname env (jstr jwks)) (\<lambda>host.
      rbind (raise_if (Some (py_lower (case host of None \<Rightarrow> [] | Some h \<Rightarrow> h)) \<notin> set (issuer_host # map Some hosts))
               (HTTPException 500 ''OIDC discovery jwks_uri host is not allowed'')) (\<lambda>_.
      Inr (jstr jwks))))))))"

definition resolved_oidc_provider ::
  "env \<Rightarrow> auth_config \<Rightarrow> http_client \<Rightarrow> dict \<Rightarrow> discovery_cache \<Rightarrow> discovery_cache \<times> dict result" where
  "resolved_oidc_provider env cfg http provider cache =
     (if py_truthy (py_get provider ''jwks_url'') then (cache, Inr provider)
      else case discovery_url env provider of
             Inl e \<Rightarrow> (cache, Inl e)
           | Inr url \<Rightarrow>
               (case load_oidc_discovery env cfg http url cache of
                  (cache', Inl e) \<Rightarrow> (cache', Inl e)
                | (cache', Inr metadata) \<Rightarrow>
                    (cache', rbind (discovered_jwks env provider metadata) (\<lambda>jwks.
                               Inr (dict_set ''jwks_url'' (JStr jwks) provider)))))"

section \<open>Tokens\<close>

definition token_algorithms :: "string list" where
  "token_algorithms = [''RS256'', ''RS384'', ''RS512'', ''ES256'', ''ES384'', ''ES512'']"

text \<open>The scan for an algorithm outside the set stops at the first; an unhashable value raises.\<close>

fun unsupported_algorithm :: "json list \<Rightarrow> bool result" where
  "unsupported_algorithm [] = Inr False"
| "unsupported_algorithm (a # rest) =
     (if \<not> py_hashable a then Inl (TypeError ''unhashable type'')
      else if \<not> py_in a (map JStr token_algorithms) then Inr True
      else unsupported_algorithm rest)"

definition provider_algorithms :: "string \<Rightarrow> dict \<Rightarrow> json list result" where
  "provider_algorithms kind provider =
     (let algorithms = py_get_default provider ''algorithms'' (JList [JStr ''RS256'']);
          bad = HTTPException 500 (kind @ '' provider algorithms are invalid'')
      in if \<not> is_jlist algorithms \<or> jlist algorithms = [] then Inl bad
         else rbind (unsupported_algorithm (jlist algorithms)) (\<lambda>b. if b then Inl bad else Inr (jlist algorithms)))"

definition verified_claims ::
  "jwt_library \<Rightarrow> http_client \<Rightarrow> string \<Rightarrow> json \<Rightarrow> string \<Rightarrow> dict \<Rightarrow> dict result" where
  "verified_claims jwt http kind issuer token provider =
     rbind (provider_algorithms kind provider) (\<lambda>algorithms.
     let jwks = py_get provider ''jwks_url''; audience = py_get provider ''audience'' in
     rbind (raise_if (\<not> https_text jwks) (HTTPException 500 (kind @ '' provider jwks_url must use HTTPS''))) (\<lambda>_.
     rbind (raise_if (\<not> is_jstr audience \<or> jstr audience = []) (HTTPException 500 (kind @ '' provider audience is required''))) (\<lambda>_.
     rbind (lift_option (OtherError ''PyJWKClientConnectionError'') (hc_key_set http (jstr jwks))) (\<lambda>keys.
     rbind (lift_option (OtherError ''PyJWKClientError'') (jwt_signing_key jwt keys token)) (\<lambda>key.
     lift_option (OtherError ''InvalidTokenError'') (jwt_verified jwt token key algorithms (jstr audience) issuer))))))"

definition provider_for :: "(string \<times> dict) list \<Rightarrow> json \<Rightarrow> dict option" where
  "provider_for providers issuer = find (\<lambda>p. py_eq (py_get p ''issuer'') issuer) (map snd providers)"

text \<open>The first part of \<open>_oidc_principal\<close> and of \<open>_workload_identity_principal\<close>: the provider as resolved, and the claims.\<close>

definition token_claims ::
  "env \<Rightarrow> auth_config \<Rightarrow> jwt_library \<Rightarrow> http_client \<Rightarrow> string \<Rightarrow> (string \<times> dict) list result \<Rightarrow> string \<Rightarrow> discovery_cache \<Rightarrow>
     discovery_cache \<times> (dict \<times> dict) result" where
  "token_claims env cfg jwt http kind configured token cache =
     (case jwt_unverified jwt token of
        None \<Rightarrow> (cache, Inl (OtherError ''DecodeError''))
      | Some unverified \<Rightarrow>
          (case configured of
             Inl e \<Rightarrow> (cache, Inl e)
           | Inr providers \<Rightarrow>
               (let issuer = py_get unverified ''iss'' in
                case provider_for providers issuer of
                  None \<Rightarrow> (cache, Inl (HTTPException 401 (kind @ '' issuer is not configured'')))
                | Some [] \<Rightarrow> (cache, Inl (HTTPException 401 (kind @ '' issuer is not configured'')))
                | Some p \<Rightarrow>
                    (case resolved_oidc_provider env cfg http p cache of
                       (cache', Inl e) \<Rightarrow> (cache', Inl e)
                     | (cache', Inr provider) \<Rightarrow>
                         (cache', rbind (verified_claims jwt http kind issuer token provider) (\<lambda>claims. Inr (provider, claims)))))))"

text \<open>The role of an OIDC principal: a mapped string, or the greatest supported role of a list.\<close>

definition mapped_role :: "dict \<Rightarrow> json \<Rightarrow> json" where
  "mapped_role mapping item = (case item of JStr s \<Rightarrow> py_get_default mapping s item | _ \<Rightarrow> item)"

definition oidc_role :: "dict \<Rightarrow> dict \<Rightarrow> role option result" where
  "oidc_role provider claims =
     (let role = claim_value claims (py_get_default provider ''role_claim'' (JStr ''role''));
          mapping = py_get_default provider ''role_mapping'' (JObj []);
          role' = (if is_jstr role \<and> is_jobj mapping then mapped_role (jobj mapping) role else role)
      in if is_jlist role' then
           rbind (raise_if (is_jobj mapping \<and> \<not> list_all py_hashable (jlist role')) (TypeError ''unhashable type'')) (\<lambda>_.
           let mapped = (if is_jobj mapping then map (mapped_role (jobj mapping)) (jlist role') else jlist role');
               supported = List.map_filter role_of_json mapped
           in Inr (if supported = [] then None else Some (Max (set supported))))
         else Inr (role_of_json role'))"

definition oidc_principal_of :: "dict \<Rightarrow> dict \<Rightarrow> principal result" where
  "oidc_principal_of provider claims =
     rbind (rbind (oidc_role provider claims) (lift_option (HTTPException 403 ''OIDC token has an unsupported role''))) (\<lambda>role.
     rbind (tenant_of_json (HTTPException 403 ''OIDC token has an invalid tenant'')
              (claim_value claims (py_get_default provider ''tenant_claim'' (JStr ''tenant_id'')))) (\<lambda>tenant.
     rbind (subject_of_json (HTTPException 403 ''OIDC token has an invalid subject'')
              (claim_value claims (py_get_default provider ''subject_claim'' (JStr ''sub'')))) (\<lambda>subject.
     Inr \<lparr>p_subject = subject, p_role = role, p_tenant_id = tenant\<rparr>)))"

definition oidc_principal ::
  "env \<Rightarrow> auth_config \<Rightarrow> jwt_library \<Rightarrow> http_client \<Rightarrow> string \<Rightarrow> discovery_cache \<Rightarrow> discovery_cache \<times> principal result" where
  "oidc_principal env cfg jwt http token cache =
     (case token_claims env cfg jwt http ''OIDC'' (oidc_providers cfg) token cache of
        (cache', r) \<Rightarrow>
          (cache', rbind (unauthorized_on_error ''OIDC token validation failed'' r) (\<lambda>(provider, claims).
                     oidc_principal_of provider claims)))"

text \<open>\<open>isinstance(v, (int, float))\<close> and the number.\<close>

fun json_number :: "json \<Rightarrow> rat option" where
  "json_number (JInt n) = Some (of_int n)"
| "json_number (JBool b) = Some (if b then 1 else 0)"
| "json_number (JFloat r) = Some r"
| "json_number _ = None"

definition lifetime_ok :: "int \<Rightarrow> dict \<Rightarrow> bool" where
  "lifetime_ok limit claims =
     (case (json_number (py_get claims ''iat''), json_number (py_get claims ''exp'')) of
        (Some issued_at, Some expires_at) \<Rightarrow> issued_at < expires_at \<and> expires_at - issued_at \<le> of_int limit
      | _ \<Rightarrow> False)"

definition workload_principal_of :: "auth_config \<Rightarrow> dict \<Rightarrow> dict \<Rightarrow> principal result" where
  "workload_principal_of cfg provider claims =
     rbind (lift_option (HTTPException 500 ''Workload identity provider role is invalid'') (role_of_json (py_get provider ''role''))) (\<lambda>role.
     rbind (tenant_of_json (HTTPException 500 ''Workload identity provider tenant is invalid'') (py_get provider ''tenant_id'')) (\<lambda>tenant.
     rbind (subject_of_json (HTTPException 403 ''Workload identity token has an invalid subject'')
              (claim_value claims (py_get_default provider ''subject_claim'' (JStr ''sub'')))) (\<lambda>subject.
     let limit = py_get_default provider ''max_token_seconds'' (JInt (au_workload_max_token_seconds cfg)) in
     rbind (raise_if (\<not> is_jint limit \<or> \<not> (60 \<le> jint limit \<and> jint limit \<le> 3600))
              (HTTPException 500 ''Workload identity maximum token lifetime is invalid'')) (\<lambda>_.
     rbind (raise_if (\<not> lifetime_ok (jint limit) claims) (HTTPException 401 ''Workload identity token lifetime is invalid'')) (\<lambda>_.
     Inr \<lparr>p_subject = ''workload:'' @ py_strip subject, p_role = role, p_tenant_id = tenant\<rparr>)))))"

definition workload_identity_principal ::
  "env \<Rightarrow> auth_config \<Rightarrow> jwt_library \<Rightarrow> http_client \<Rightarrow> string \<Rightarrow> discovery_cache \<Rightarrow> discovery_cache \<times> principal result" where
  "workload_identity_principal env cfg jwt http token cache =
     (case token_claims env cfg jwt http ''Workload identity'' (workload_identity_providers cfg) token cache of
        (cache', r) \<Rightarrow>
          (cache', rbind (unauthorized_on_error ''Workload identity token validation failed'' r) (\<lambda>(provider, claims).
                     workload_principal_of cfg provider claims)))"

section \<open>The dependency of every route\<close>

record credentials_sent =
  cs_api_key :: "string option"
  cs_authorization :: "string option"
  cs_service_account_key :: "string option"
  cs_workload_token :: "string option"

definition development_principal :: "auth_config \<Rightarrow> principal" where
  "development_principal cfg = \<lparr>p_subject = ''development'', p_role = Administrator, p_tenant_id = au_default_tenant cfg\<rparr>"

definition sent :: "string option \<Rightarrow> string" where
  "sent h = (case h of None \<Rightarrow> [] | Some s \<Rightarrow> s)"

definition service_account_principal :: "env \<Rightarrow> pbkdf2 \<Rightarrow> string \<Rightarrow> db \<Rightarrow> db \<times> principal result" where
  "service_account_principal env kdf key db =
     (case authenticate_service_account env kdf key db of
        (db', None) \<Rightarrow> (db', Inl (HTTPException 401 ''A valid service account key is required''))
      | (db', Some i) \<Rightarrow> (db', Inr \<lparr>p_subject = id_subject i, p_role = id_role i, p_tenant_id = id_tenant_id i\<rparr>))"

definition current_principal ::
  "env \<Rightarrow> auth_config \<Rightarrow> pbkdf2 \<Rightarrow> jwt_library \<Rightarrow> http_client \<Rightarrow> credentials_sent \<Rightarrow> discovery_cache \<times> db \<Rightarrow>
     (discovery_cache \<times> db) \<times> principal result" where
  "current_principal env cfg kdf jwt http req s =
     (case s of (cache, db) \<Rightarrow>
        if cfg_auth_disabled (env_settings env) then (s, Inr (development_principal cfg))
        else if sent (cs_authorization req) \<noteq> [] then
          (case py_partition CHR '' '' (sent (cs_authorization req)) of
             (scheme, found, token) \<Rightarrow>
               if py_lower scheme \<noteq> ''bearer'' \<or> token = []
               then (s, Inl (HTTPException 401 ''Authorization must use a Bearer token''))
               else case oidc_principal env cfg jwt http token cache of (cache', r) \<Rightarrow> ((cache', db), r))
        else if sent (cs_workload_token req) \<noteq> [] then
          (case workload_identity_principal env cfg jwt http (sent (cs_workload_token req)) cache of
             (cache', r) \<Rightarrow> ((cache', db), r))
        else if sent (cs_service_account_key req) \<noteq> [] then
          (case service_account_principal env kdf (sent (cs_service_account_key req)) db of (db', r) \<Rightarrow> ((cache, db'), r))
        else (s, api_key_principal cfg (cs_api_key req)))"

definition clear_oidc_discovery_cache :: "discovery_cache \<Rightarrow> discovery_cache" where
  "clear_oidc_discovery_cache cache = Map.empty"

definition oidc_configuration :: "auth_config \<Rightarrow> dict result" where
  "oidc_configuration cfg =
     rbind (oidc_providers cfg) (\<lambda>providers.
     rbind (workload_identity_providers cfg) (\<lambda>workloads.
     Inr [(''enabled'', JBool (providers \<noteq> [])),
          (''providers'', JList (map (\<lambda>(name, p). JObj
             [(''name'', JStr name), (''issuer'', py_get p ''issuer''), (''audience'', py_get p ''audience''),
              (''discovery'', JBool (py_truthy (py_get p ''discovery_url'') \<or> \<not> py_truthy (py_get p ''jwks_url'')))]) providers)),
          (''validation'', JStr ''signature-issuer-audience-expiry''),
          (''discovery_cache_seconds'', JInt (au_discovery_cache_seconds cfg)),
          (''service_accounts'', JBool True),
          (''workload_identity'', JObj
             [(''enabled'', JBool (workloads \<noteq> [])), (''header'', JStr ''X-Workload-Identity-Token''),
              (''max_token_seconds'', JInt (au_workload_max_token_seconds cfg)),
              (''providers'', JList (map (\<lambda>(name, p). JObj
                 [(''name'', JStr name), (''issuer'', py_get p ''issuer''), (''audience'', py_get p ''audience''),
                  (''tenant_id'', py_get p ''tenant_id''), (''role'', py_get p ''role'')]) workloads)),
              (''validation'', JStr ''signature-issuer-audience-expiry-lifetime'')])]))"

text \<open>The sign-in status the application shows.\<close>

definition auth_status :: "env \<Rightarrow> auth_config \<Rightarrow> principal \<Rightarrow> dict result" where
  "auth_status env cfg who =
     rbind (oidc_configuration cfg) (\<lambda>oidc.
     Inr [(''auth_disabled'', JBool (cfg_auth_disabled (env_settings env))),
          (''principal'', JObj [(''subject'', JStr (p_subject who)), (''role'', JStr (role_str (p_role who))),
                              (''tenant_id'', JStr (p_tenant_id who))]),
          (''oidc'', JObj oidc)])"


section \<open>Where the key set comes from\<close>

lemma https_textD: "https_text v \<Longrightarrow> v = JStr (jstr v) \<and> take 8 (jstr v) = ''https://''"
  by (cases v) (auto simp: https_text_def)

lemma lift_option_Inr [simp]: "lift_option e x = Inr y \<longleftrightarrow> x = Some y"
  by (cases x) (auto simp: lift_option_def)

lemma tenant_of_json_Inr: "tenant_of_json e v = Inr t \<longleftrightarrow> v = JStr t \<and> tenant_pattern t"
  by (cases v) (auto simp: tenant_of_json_def)

lemma subject_of_json_Inr: "subject_of_json e v = Inr t \<longleftrightarrow> v = JStr t \<and> subject_ok t"
  by (cases v) (auto simp: subject_of_json_def)

lemma unauthorized_Inr [simp]: "unauthorized_on_error m r = Inr x \<longleftrightarrow> r = Inr x"
  by (auto simp: unauthorized_on_error_def split: sum.splits py_error.splits)

text \<open>A response a discovery document is taken from, and the document the cache or the server gives for a URL.\<close>

definition accepted_response :: "http_response \<Rightarrow> dict \<Rightarrow> bool" where
  "accepted_response r metadata \<longleftrightarrow> hr_ok r \<and> hr_length r \<le> 65536 \<and> hr_json r = Some (JObj metadata)"

definition metadata_of :: "env \<Rightarrow> http_client \<Rightarrow> discovery_cache \<Rightarrow> string \<Rightarrow> dict \<Rightarrow> bool" where
  "metadata_of env http cache url metadata \<longleftrightarrow>
     (\<exists>expires. cache url = Some (expires, metadata) \<and> env_monotonic env < expires) \<or>
     (\<exists>r. hc_get http url = Some r \<and> accepted_response r metadata)"

text \<open>A URL of the issuer's own host that uses HTTPS.\<close>

definition discovery_site :: "env \<Rightarrow> dict \<Rightarrow> string \<Rightarrow> bool" where
  "discovery_site env provider url \<longleftrightarrow>
     take 8 url = ''https://'' \<and>
     (\<exists>issuer host. py_get provider ''issuer'' = JStr issuer \<and> take 8 issuer = ''https://'' \<and>
        url_hostname env issuer = Inr host \<and> url_hostname env url = Inr host)"

text \<open>
  The key set of a provider: the one configured, or the one the issuer's metadata names, on the issuer's host or on a
  host that the provider allows.
\<close>

definition trusted_key_set :: "env \<Rightarrow> http_client \<Rightarrow> discovery_cache \<Rightarrow> dict \<Rightarrow> string \<Rightarrow> bool" where
  "trusted_key_set env http cache provider jwks \<longleftrightarrow>
     take 8 jwks = ''https://'' \<and>
     (py_get provider ''jwks_url'' = JStr jwks \<or>
      \<not> py_truthy (py_get provider ''jwks_url'') \<and>
      (\<exists>url metadata host issuer_host hosts.
         discovery_site env provider url \<and> metadata_of env http cache url metadata \<and>
         py_eq (py_get metadata ''issuer'') (py_get provider ''issuer'') \<and> py_get metadata ''jwks_uri'' = JStr jwks \<and>
         url_hostname env jwks = Inr (Some host) \<and> url_hostname env (jstr (py_get provider ''issuer'')) = Inr issuer_host \<and>
         configured_hosts provider = Inr hosts \<and> (issuer_host = Some (py_lower host) \<or> py_lower host \<in> set hosts)))"

text \<open>Claims that the library verified: the signature under a trusted key set, the algorithm, the audience and the issuer.\<close>

definition verified_by ::
  "env \<Rightarrow> jwt_library \<Rightarrow> http_client \<Rightarrow> discovery_cache \<Rightarrow> dict \<Rightarrow> json \<Rightarrow> string \<Rightarrow> dict \<Rightarrow> bool" where
  "verified_by env jwt http cache provider issuer token claims \<longleftrightarrow>
     py_eq (py_get provider ''issuer'') issuer \<and>
     (\<exists>jwks keys key algorithms audience.
        trusted_key_set env http cache provider jwks \<and> hc_key_set http jwks = Some keys \<and>
        jwt_signing_key jwt keys token = Some key \<and>
        algorithms \<noteq> [] \<and> (\<forall>a \<in> set algorithms. py_in a (map JStr token_algorithms)) \<and>
        py_get provider ''audience'' = JStr audience \<and> audience \<noteq> [] \<and>
        jwt_verified jwt token key algorithms audience issuer = Some claims)"

lemma load_discovery:
  assumes "load_oidc_discovery env cfg http url cache = (cache', Inr metadata)"
  shows "metadata_of env http cache url metadata"
proof (cases "\<exists>e m. cache url = Some (e, m) \<and> env_monotonic env < e")
  case True
  with assms show ?thesis by (auto simp: load_oidc_discovery_def metadata_of_def Let_def)
next
  case False
  with assms have "\<exists>r. hc_get http url = Some r \<and> accepted_response r metadata"
    by (auto simp: load_oidc_discovery_def accepted_response_def Let_def split: option.splits if_splits json.splits)
  then show ?thesis by (simp add: metadata_of_def)
qed

lemma discovery_url_site: "discovery_url env p = Inr url \<Longrightarrow> discovery_site env p url"
  using https_textD by (fastforce simp: discovery_url_def discovery_site_def result_simps Let_def)

lemma configured_hosts_nonempty: "configured_hosts p = Inr hosts \<Longrightarrow> [] \<notin> set hosts"
  by (auto simp: configured_hosts_def Let_def py_lower_def list_all_iff split: if_splits)

lemma py_partition_not_found: "py_partition c s = (a, False, r) \<Longrightarrow> a = s"
  by (induction c s arbitrary: a rule: py_partition.induct) (auto split: prod.splits if_splits)

lemma py_partition_rest: "py_partition c s = (a, False, r) \<Longrightarrow> r = []"
  by (induction c s arbitrary: a rule: py_partition.induct) (auto split: prod.splits if_splits)

lemma netloc_hostname_nonempty: "netloc_hostname n \<noteq> Some []"
  by (auto simp: netloc_hostname_def Let_def py_lower_def split: prod.splits if_splits dest: py_partition_not_found)

lemma discovered:
  assumes "discovered_jwks env p metadata = Inr jwks"
  shows "py_eq (py_get metadata ''issuer'') (py_get p ''issuer'') \<and> py_get metadata ''jwks_uri'' = JStr jwks \<and>
         take 8 jwks = ''https://'' \<and>
         (\<exists>host issuer_host hosts. url_hostname env jwks = Inr (Some host) \<and>
            url_hostname env (jstr (py_get p ''issuer'')) = Inr issuer_host \<and>
            configured_hosts p = Inr hosts \<and> (issuer_host = Some (py_lower host) \<or> py_lower host \<in> set hosts))"
proof -
  from assms obtain ih hosts host where x: "py_eq (py_get metadata ''issuer'') (py_get p ''issuer'')"
    "https_text (py_get metadata ''jwks_uri'')" "url_hostname env (jstr (py_get p ''issuer'')) = Inr ih"
    "configured_hosts p = Inr hosts" "url_hostname env (jstr (py_get metadata ''jwks_uri'')) = Inr host"
    "Some (py_lower (case host of None \<Rightarrow> [] | Some h \<Rightarrow> h)) \<in> set (ih # map Some hosts)"
    "jwks = jstr (py_get metadata ''jwks_uri'')"
    by (auto simp: discovered_jwks_def Let_def result_simps)
  from x(3) netloc_hostname_nonempty have "ih \<noteq> Some []" by (auto simp: url_hostname_def result_simps)
  with x(6) configured_hosts_nonempty[OF x(4)] obtain h where h: "host = Some h"
    by (cases host) (auto simp: py_lower_def)
  with x https_textD[OF x(2)] show ?thesis by auto
qed

lemma resolved_provider:
  assumes "resolved_oidc_provider env cfg http p cache = (cache', Inr q)" and "https_text (py_get q ''jwks_url'')"
  shows "trusted_key_set env http cache p (jstr (py_get q ''jwks_url'')) \<and>
         (\<forall>k. k \<noteq> ''jwks_url'' \<longrightarrow> dict_get q k = dict_get p k)"
proof (cases "py_truthy (py_get p ''jwks_url'')")
  case True
  with assms have "q = p" by (simp add: resolved_oidc_provider_def)
  with assms(2) https_textD[of "py_get q ''jwks_url''"] show ?thesis by (simp add: trusted_key_set_def)
next
  case False
  with assms obtain url metadata jwks where u: "discovery_url env p = Inr url"
    "load_oidc_discovery env cfg http url cache = (cache', Inr metadata)"
    "discovered_jwks env p metadata = Inr jwks" "q = dict_set ''jwks_url'' (JStr jwks) p"
    by (auto simp: resolved_oidc_provider_def result_simps split: sum.splits prod.splits)
  from discovered[OF u(3)] load_discovery[OF u(2)] discovery_url_site[OF u(1)] False
  have "trusted_key_set env http cache p jwks" unfolding trusted_key_set_def by blast
  then show ?thesis by (simp add: u(4))
qed

lemma unsupported_False: "unsupported_algorithm xs = Inr False \<Longrightarrow> \<forall>a \<in> set xs. py_in a (map JStr token_algorithms)"
  by (induction xs rule: unsupported_algorithm.induct) (auto split: if_splits)

lemma verified_claims_Inr:
  assumes "verified_claims jwt http kind issuer token q = Inr claims"
  obtains keys key algorithms audience where "https_text (py_get q ''jwks_url'')"
    "hc_key_set http (jstr (py_get q ''jwks_url'')) = Some keys" "jwt_signing_key jwt keys token = Some key" "algorithms \<noteq> []"
    "\<forall>a \<in> set algorithms. py_in a (map JStr token_algorithms)" "py_get q ''audience'' = JStr audience" "audience \<noteq> []"
    "jwt_verified jwt token key algorithms audience issuer = Some claims"
proof -
  from assms obtain algs keys key where x: "provider_algorithms kind q = Inr algs" "https_text (py_get q ''jwks_url'')"
    "is_jstr (py_get q ''audience'')" "jstr (py_get q ''audience'') \<noteq> []"
    "hc_key_set http (jstr (py_get q ''jwks_url'')) = Some keys" "jwt_signing_key jwt keys token = Some key"
    "jwt_verified jwt token key algs (jstr (py_get q ''audience'')) issuer = Some claims"
    by (auto simp: verified_claims_def result_simps Let_def)
  from x(1) have "algs \<noteq> []" "\<forall>a \<in> set algs. py_in a (map JStr token_algorithms)"
    by (auto simp: provider_algorithms_def Let_def result_simps split: if_splits dest!: unsupported_False)
  with x that[of keys key algs "jstr (py_get q ''audience'')"] show thesis by (auto simp: is_jstr_iff)
qed

lemma provider_for_Some: "provider_for ps iss = Some p \<Longrightarrow> p \<in> snd ` set ps \<and> py_eq (py_get p ''issuer'') iss"
  by (auto simp: provider_for_def find_Some_iff)

lemma token_claims_Inr:
  assumes "token_claims env cfg jwt http kind configured token cache = (cache', Inr (q, claims))"
  obtains unverified ps p where "jwt_unverified jwt token = Some unverified" "configured = Inr ps" "p \<in> snd ` set ps"
    "verified_by env jwt http cache p (py_get unverified ''iss'') token claims"
    "\<And>k. k \<noteq> ''jwks_url'' \<Longrightarrow> dict_get q k = dict_get p k"
proof -
  from assms obtain u ps where u: "jwt_unverified jwt token = Some u" "configured = Inr ps"
    by (auto simp: token_claims_def split: option.splits sum.splits)
  with assms obtain p where p: "provider_for ps (py_get u ''iss'') = Some p" "p \<noteq> []"
    by (auto simp: token_claims_def Let_def split: option.splits list.splits)
  then obtain a as where c: "p = a # as" by (cases p) auto
  obtain c' r where r: "resolved_oidc_provider env cfg http p cache = (c', r)" by fastforce
  with assms u p c have v: "r = Inr q" "verified_claims jwt http kind (py_get u ''iss'') token q = Inr claims"
    by (auto simp: token_claims_def Let_def result_simps split: sum.splits)
  from v(2) obtain keys key algs aud where w: "https_text (py_get q ''jwks_url'')"
    "hc_key_set http (jstr (py_get q ''jwks_url'')) = Some keys" "jwt_signing_key jwt keys token = Some key" "algs \<noteq> []"
    "\<forall>a \<in> set algs. py_in a (map JStr token_algorithms)" "py_get q ''audience'' = JStr aud" "aud \<noteq> []"
    "jwt_verified jwt token key algs aud (py_get u ''iss'') = Some claims"
    by (rule verified_claims_Inr)
  from resolved_provider[OF r[unfolded v(1)] w(1)]
  have t: "trusted_key_set env http cache p (jstr (py_get q ''jwks_url''))"
    and k: "\<And>k. k \<noteq> ''jwks_url'' \<Longrightarrow> dict_get q k = dict_get p k" by auto
  from k[of "''audience''"] w(6) have "py_get p ''audience'' = JStr aud" by (simp add: py_get_conv)
  with t w provider_for_Some[OF p(1)] have "verified_by env jwt http cache p (py_get u ''iss'') token claims"
    unfolding verified_by_def by blast
  with u provider_for_Some[OF p(1)] k that show thesis by blast
qed

section \<open>Bearer and workload tokens\<close>

lemma same_entries: "dict_get q k = dict_get p k \<Longrightarrow> py_get_default q k v = py_get_default p k v \<and> py_get q k = py_get p k"
  by (simp add: py_get_default_def py_get_def dict_get_def)

lemma length_dropWhile_strip: "length (py_strip s) \<le> length s"
  unfolding py_strip_def length_rev by (rule order_trans[OF length_dropWhile_le]) (simp add: length_dropWhile_le)

lemma oidc_principal_Inr:
  assumes "oidc_principal env cfg jwt http token cache = (cache', Inr who)"
  shows "\<exists>providers provider unverified claims.
     oidc_providers cfg = Inr providers \<and> provider \<in> snd ` set providers \<and> jwt_unverified jwt token = Some unverified \<and>
     verified_by env jwt http cache provider (py_get unverified ''iss'') token claims \<and>
     oidc_principal_of provider claims = Inr who"
proof -
  from assms obtain q claims where t: "token_claims env cfg jwt http ''OIDC'' (oidc_providers cfg) token cache = (cache', Inr (q, claims))"
    and w: "oidc_principal_of q claims = Inr who"
    by (auto simp: oidc_principal_def result_simps split: prod.splits)
  from t obtain u ps p where u: "jwt_unverified jwt token = Some u" "oidc_providers cfg = Inr ps" "p \<in> snd ` set ps"
    "verified_by env jwt http cache p (py_get u ''iss'') token claims"
    and k: "\<And>k. k \<noteq> ''jwks_url'' \<Longrightarrow> dict_get q k = dict_get p k"
    by (rule token_claims_Inr) (rule that; simp)
  have "oidc_principal_of p claims = oidc_principal_of q claims"
    by (simp add: oidc_principal_of_def oidc_role_def same_entries[OF k])
  with u w show ?thesis
    by (intro exI[of _ ps] exI[of _ p] exI[of _ u] exI[of _ claims]) (simp only: simp_thms)
qed

lemma workload_principal_Inr:
  assumes "workload_identity_principal env cfg jwt http token cache = (cache', Inr who)"
  shows "\<exists>providers provider unverified claims.
     workload_identity_providers cfg = Inr providers \<and> provider \<in> snd ` set providers \<and>
     jwt_unverified jwt token = Some unverified \<and>
     verified_by env jwt http cache provider (py_get unverified ''iss'') token claims \<and>
     workload_principal_of cfg provider claims = Inr who"
proof -
  from assms obtain q claims where
    t: "token_claims env cfg jwt http ''Workload identity'' (workload_identity_providers cfg) token cache = (cache', Inr (q, claims))"
    and w: "workload_principal_of cfg q claims = Inr who"
    by (auto simp: workload_identity_principal_def result_simps split: prod.splits)
  from t obtain u ps p where u: "jwt_unverified jwt token = Some u" "workload_identity_providers cfg = Inr ps" "p \<in> snd ` set ps"
    "verified_by env jwt http cache p (py_get u ''iss'') token claims"
    and k: "\<And>k. k \<noteq> ''jwks_url'' \<Longrightarrow> dict_get q k = dict_get p k"
    by (rule token_claims_Inr) (rule that; simp)
  have "workload_principal_of cfg p claims = workload_principal_of cfg q claims"
    by (simp add: workload_principal_of_def same_entries[OF k])
  with u w show ?thesis
    by (intro exI[of _ ps] exI[of _ p] exI[of _ u] exI[of _ claims]) (simp only: simp_thms)
qed

lemma workload_principal_of_Inr:
  assumes "workload_principal_of cfg p claims = Inr who"
  shows "role_of_json (py_get p ''role'') = Some (p_role who) \<and> py_get p ''tenant_id'' = JStr (p_tenant_id who) \<and>
    tenant_pattern (p_tenant_id who) \<and>
    (\<exists>subject. claim_value claims (py_get_default p ''subject_claim'' (JStr ''sub'')) = JStr subject \<and>
       p_subject who = ''workload:'' @ py_strip subject) \<and> length (p_subject who) \<le> 329 \<and>
    (\<exists>iat exp. json_number (py_get claims ''iat'') = Some iat \<and> json_number (py_get claims ''exp'') = Some exp \<and>
       iat < exp \<and> exp - iat \<le> 3600)"
proof -
  from assms obtain role tenant subject where r: "role_of_json (py_get p ''role'') = Some role"
    "py_get p ''tenant_id'' = JStr tenant" "tenant_pattern tenant"
    "claim_value claims (py_get_default p ''subject_claim'' (JStr ''sub'')) = JStr subject" "subject_ok subject"
    and l: "jint (py_get_default p ''max_token_seconds'' (JInt (au_workload_max_token_seconds cfg))) \<le> 3600"
    "lifetime_ok (jint (py_get_default p ''max_token_seconds'' (JInt (au_workload_max_token_seconds cfg)))) claims"
    and who: "who = \<lparr>p_subject = ''workload:'' @ py_strip subject, p_role = role, p_tenant_id = tenant\<rparr>"
    by (auto simp: workload_principal_of_def result_simps Let_def tenant_of_json_Inr subject_of_json_Inr)
  from l(2) obtain iat exp where t: "json_number (py_get claims ''iat'') = Some iat" "json_number (py_get claims ''exp'') = Some exp"
    "iat < exp" "exp - iat \<le> of_int (jint (py_get_default p ''max_token_seconds'' (JInt (au_workload_max_token_seconds cfg))))"
    by (auto simp: lifetime_ok_def split: option.splits)
  from l(1) have "(of_int (jint (py_get_default p ''max_token_seconds'' (JInt (au_workload_max_token_seconds cfg)))) :: rat) \<le> of_int 3600"
    by (simp only: of_int_le_iff)
  with t(4) have "exp - iat \<le> 3600" by simp
  moreover have "length (py_strip subject) \<le> 320"
    using r(5) length_dropWhile_strip[of subject] by (simp add: subject_ok_def)
  ultimately show ?thesis using r t(1,2,3) by (simp add: who)
qed

section \<open>Requests to other servers\<close>

definition configured_provider :: "auth_config \<Rightarrow> dict \<Rightarrow> bool" where
  "configured_provider cfg provider \<longleftrightarrow>
     (\<exists>providers. (oidc_providers cfg = Inr providers \<or> workload_identity_providers cfg = Inr providers) \<and>
        provider \<in> snd ` set providers)"

text \<open>
  Where the key set of a provider may be read: the HTTPS URL that its configuration names or, without one, an HTTPS URL
  on the host of its issuer or on a host that its configuration allows.
\<close>

definition key_set_site :: "env \<Rightarrow> dict \<Rightarrow> string \<Rightarrow> bool" where
  "key_set_site env provider url \<longleftrightarrow>
     take 8 url = ''https://'' \<and>
     (py_get provider ''jwks_url'' = JStr url \<or>
      \<not> py_truthy (py_get provider ''jwks_url'') \<and>
      (\<exists>host issuer_host hosts. url_hostname env url = Inr (Some host) \<and>
         url_hostname env (jstr (py_get provider ''issuer'')) = Inr issuer_host \<and>
         configured_hosts provider = Inr hosts \<and> (issuer_host = Some (py_lower host) \<or> py_lower host \<in> set hosts)))"

text \<open>Two clients that give the same answers wherever a provider may be looked up.\<close>

definition same_answers :: "env \<Rightarrow> http_client \<Rightarrow> http_client \<Rightarrow> dict \<Rightarrow> bool" where
  "same_answers env http http' provider \<longleftrightarrow>
     (\<forall>url. discovery_site env provider url \<longrightarrow> hc_get http url = hc_get http' url) \<and>
     (\<forall>url. key_set_site env provider url \<longrightarrow> hc_key_set http url = hc_key_set http' url)"

lemma load_discovery_http:
  "hc_get http url = hc_get http' url \<Longrightarrow> load_oidc_discovery env cfg http url cache = load_oidc_discovery env cfg http' url cache"
  by (simp add: load_oidc_discovery_def)

lemma resolved_http:
  assumes "same_answers env http http' p"
  shows "resolved_oidc_provider env cfg http p cache = resolved_oidc_provider env cfg http' p cache"
proof (cases "discovery_url env p")
  case (Inr url)
  have "hc_get http url = hc_get http' url"
    using discovery_url_site[OF Inr] assms by (simp add: same_answers_def)
  then have "load_oidc_discovery env cfg http url cache = load_oidc_discovery env cfg http' url cache"
    by (rule load_discovery_http)
  with Inr show ?thesis by (simp add: resolved_oidc_provider_def)
qed (simp add: resolved_oidc_provider_def)

lemma verified_http:
  assumes "same_answers env http http' p" and "resolved_oidc_provider env cfg http p cache = (cache', Inr q)"
  shows "verified_claims jwt http kind issuer token q = verified_claims jwt http' kind issuer token q"
proof (cases "https_text (py_get q ''jwks_url'')")
  case True
  from resolved_provider[OF assms(2) True] have "key_set_site env p (jstr (py_get q ''jwks_url''))"
    unfolding trusted_key_set_def key_set_site_def by blast
  with assms(1) have "hc_key_set http (jstr (py_get q ''jwks_url'')) = hc_key_set http' (jstr (py_get q ''jwks_url''))"
    by (simp add: same_answers_def)
  then show ?thesis by (simp add: verified_claims_def Let_def)
qed (simp add: verified_claims_def Let_def raise_if_def)

lemma token_claims_http:
  assumes "\<And>ps p. configured = Inr ps \<Longrightarrow> p \<in> snd ` set ps \<Longrightarrow> same_answers env http http' p"
  shows "token_claims env cfg jwt http kind configured token cache = token_claims env cfg jwt http' kind configured token cache"
proof (cases "jwt_unverified jwt token")
  case (Some u)
  show ?thesis
  proof (cases configured)
    case (Inr ps)
    show ?thesis
    proof (cases "provider_for ps (py_get u ''iss'')")
      case (Some p)
      with assms[OF Inr] provider_for_Some[OF Some] have same: "same_answers env http http' p" by blast
      obtain c r where r: "resolved_oidc_provider env cfg http p cache = (c, r)" by fastforce
      then have r': "resolved_oidc_provider env cfg http' p cache = (c, r)" by (simp add: resolved_http[OF same])
      show ?thesis
      proof (cases r)
        case (Inr q)
        from verified_http[OF same r[unfolded Inr]] \<open>configured = Inr ps\<close> Some r r' Inr \<open>jwt_unverified jwt token = Some u\<close>
        show ?thesis by (cases p) (simp_all add: token_claims_def Let_def)
      qed (use \<open>configured = Inr ps\<close> Some r r' \<open>jwt_unverified jwt token = Some u\<close> in
            \<open>cases p; simp add: token_claims_def Let_def\<close>)
    qed (use \<open>configured = Inr ps\<close> \<open>jwt_unverified jwt token = Some u\<close> in \<open>simp add: token_claims_def Let_def\<close>)
  qed (use \<open>jwt_unverified jwt token = Some u\<close> in \<open>simp add: token_claims_def\<close>)
qed (simp add: token_claims_def)

text \<open>
  C8: With authentication on, a bearer token yields a principal only when the JWT library verified its claims under a
  key set of a configured provider (the configured HTTPS URL, or the one that the HTTPS metadata of the issuer's host
  names on an allowed host), with asymmetric algorithms only, the configured audience and the provider's issuer; role,
  tenant and subject are the claims the provider's configuration points to, and the database is untouched.\<close>

theorem bearer_authentication_sound:
  assumes "\<not> cfg_auth_disabled (env_settings env)" and "sent (cs_authorization req) \<noteq> []"
    and "current_principal env cfg kdf jwt http req (cache, db) = (s', Inr who)"
  shows "\<exists>scheme token providers provider unverified claims.
     py_partition CHR '' '' (sent (cs_authorization req)) = (scheme, True, token) \<and> py_lower scheme = ''bearer'' \<and>
     oidc_providers cfg = Inr providers \<and> provider \<in> snd ` set providers \<and> jwt_unverified jwt token = Some unverified \<and>
     verified_by env jwt http cache provider (py_get unverified ''iss'') token claims \<and>
     oidc_role provider claims = Inr (Some (p_role who)) \<and>
     claim_value claims (py_get_default provider ''tenant_claim'' (JStr ''tenant_id'')) = JStr (p_tenant_id who) \<and>
     tenant_pattern (p_tenant_id who) \<and>
     claim_value claims (py_get_default provider ''subject_claim'' (JStr ''sub'')) = JStr (p_subject who) \<and>
     subject_ok (p_subject who) \<and> snd s' = db"
proof -
  obtain scheme found token where h: "py_partition CHR '' '' (sent (cs_authorization req)) = (scheme, found, token)"
    by (cases "py_partition CHR '' '' (sent (cs_authorization req))") auto
  with assms obtain c where o: "py_lower scheme = ''bearer''" "token \<noteq> []"
    "oidc_principal env cfg jwt http token cache = (c, Inr who)" "snd s' = db"
    by (auto simp: current_principal_def split: if_splits prod.splits)
  have found: found
    using h o(2) py_partition_rest[of "CHR '' ''" "sent (cs_authorization req)" scheme token] by (cases found) auto
  from oidc_principal_Inr[OF o(3)] obtain ps p u claims where v: "oidc_providers cfg = Inr ps" "p \<in> snd ` set ps"
    "jwt_unverified jwt token = Some u" "verified_by env jwt http cache p (py_get u ''iss'') token claims"
    and w: "oidc_principal_of p claims = Inr who"
    by blast
  from w have "oidc_role p claims = Inr (Some (p_role who)) \<and>
     claim_value claims (py_get_default p ''tenant_claim'' (JStr ''tenant_id'')) = JStr (p_tenant_id who) \<and>
     tenant_pattern (p_tenant_id who) \<and>
     claim_value claims (py_get_default p ''subject_claim'' (JStr ''sub'')) = JStr (p_subject who) \<and>
     subject_ok (p_subject who)"
    by (auto simp: oidc_principal_of_def result_simps tenant_of_json_Inr subject_of_json_Inr)
  with h found o v show ?thesis
    by (intro exI[of _ scheme] exI[of _ token] exI[of _ ps] exI[of _ p] exI[of _ u] exI[of _ claims]) simp
qed

text \<open>
  C9: A workload identity token yields a principal only from claims verified in the same way; its role and tenant are
  those the configuration gives the provider, never the token's; its subject carries the prefix \<open>workload:\<close> and has at
  most 329 characters; and the token's lifetime is positive and at most one hour.\<close>

theorem workload_authentication_bounded:
  assumes "\<not> cfg_auth_disabled (env_settings env)" and "sent (cs_authorization req) = []"
    and "sent (cs_workload_token req) \<noteq> []"
    and "current_principal env cfg kdf jwt http req (cache, db) = (s', Inr who)"
  shows "\<exists>providers provider unverified claims subject iat exp.
     workload_identity_providers cfg = Inr providers \<and> provider \<in> snd ` set providers \<and>
     jwt_unverified jwt (sent (cs_workload_token req)) = Some unverified \<and>
     verified_by env jwt http cache provider (py_get unverified ''iss'') (sent (cs_workload_token req)) claims \<and>
     role_of_json (py_get provider ''role'') = Some (p_role who) \<and>
     py_get provider ''tenant_id'' = JStr (p_tenant_id who) \<and> tenant_pattern (p_tenant_id who) \<and>
     claim_value claims (py_get_default provider ''subject_claim'' (JStr ''sub'')) = JStr subject \<and>
     p_subject who = ''workload:'' @ py_strip subject \<and> length (p_subject who) \<le> 329 \<and>
     json_number (py_get claims ''iat'') = Some iat \<and> json_number (py_get claims ''exp'') = Some exp \<and>
     iat < exp \<and> exp - iat \<le> 3600 \<and> snd s' = db"
proof -
  from assms obtain c where o: "workload_identity_principal env cfg jwt http (sent (cs_workload_token req)) cache = (c, Inr who)"
    "snd s' = db"
    by (auto simp: current_principal_def split: if_splits prod.splits)
  from workload_principal_Inr[OF o(1)] obtain ps p u claims where v: "workload_identity_providers cfg = Inr ps"
    "p \<in> snd ` set ps" "jwt_unverified jwt (sent (cs_workload_token req)) = Some u"
    "verified_by env jwt http cache p (py_get u ''iss'') (sent (cs_workload_token req)) claims"
    and w: "workload_principal_of cfg p claims = Inr who"
    by blast
  from workload_principal_of_Inr[OF w] obtain subject iat exp where
    "claim_value claims (py_get_default p ''subject_claim'' (JStr ''sub'')) = JStr subject"
    "p_subject who = ''workload:'' @ py_strip subject"
    "json_number (py_get claims ''iat'') = Some iat" "json_number (py_get claims ''exp'') = Some exp"
    "iat < exp" "exp - iat \<le> 3600"
    by blast
  with workload_principal_of_Inr[OF w] o v show ?thesis
    by (intro exI[of _ ps] exI[of _ p] exI[of _ u] exI[of _ claims] exI[of _ subject] exI[of _ iat] exI[of _ exp]) simp
qed

text \<open>
  C10: To authenticate a request the service reads metadata only from HTTPS URLs on the host of the issuer of a
  configured provider, and key sets only from the HTTPS URL that a provider configures or, where it configures none, from
  HTTPS URLs on the host of its issuer or on one of the hosts it allows: two networks that agree on those URLs give the
  same principal, the same error, the same cache and the same database for every request.\<close>

theorem discovery_confined:
  assumes "\<And>p url. configured_provider cfg p \<Longrightarrow> discovery_site env p url \<Longrightarrow> hc_get http url = hc_get http' url"
    and "\<And>p url. configured_provider cfg p \<Longrightarrow> key_set_site env p url \<Longrightarrow> hc_key_set http url = hc_key_set http' url"
  shows "current_principal env cfg kdf jwt http req s = current_principal env cfg kdf jwt http' req s"
proof -
  have t: "token_claims env cfg jwt http kind configured token cache = token_claims env cfg jwt http' kind configured token cache"
    if "configured = oidc_providers cfg \<or> configured = workload_identity_providers cfg" for kind configured token cache
  proof (rule token_claims_http)
    fix ps p
    assume "configured = Inr ps" "p \<in> snd ` set ps"
    with that have "configured_provider cfg p" unfolding configured_provider_def by metis
    with assms show "same_answers env http http' p" by (simp add: same_answers_def)
  qed
  have o: "oidc_principal env cfg jwt http = oidc_principal env cfg jwt http'"
    by (intro ext) (simp add: oidc_principal_def t[OF disjI1[OF refl]])
  have w: "workload_identity_principal env cfg jwt http = workload_identity_principal env cfg jwt http'"
    by (intro ext) (simp add: workload_identity_principal_def t[OF disjI2[OF refl]])
  show ?thesis unfolding current_principal_def o w by (rule refl)
qed

section \<open>A concrete sign-in\<close>

definition auth_env :: env where
  "auth_env = base_env\<lparr>env_settings := default_settings\<lparr>cfg_auth_disabled := False\<rparr>\<rparr>"

definition sample_claims :: dict where
  "sample_claims =
     [(''iss'', JStr ''https://id.test''), (''sub'', JStr ''development''), (''tid'', JStr ''default''),
      (''roles'', JList [JStr ''ODG.Admin'']), (''iat'', JInt 100), (''exp'', JInt 700)]"

definition sample_metadata :: dict where
  "sample_metadata = [(''issuer'', JStr ''https://id.test''), (''jwks_uri'', JStr ''https://id.test/keys'')]"

definition sample_jwt :: jwt_library where
  "sample_jwt =
     \<lparr>jwt_unverified = (\<lambda>token. if token = ''t'' then Some sample_claims else None),
      jwt_signing_key = (\<lambda>keys token. if keys = JObj [(''keys'', JList [JStr ''k''])] then Some ''k'' else None),
      jwt_verified = (\<lambda>token key algorithms audience issuer.
        if token = ''t'' \<and> key = ''k'' \<and> algorithms = [JStr ''RS256''] \<and> audience = ''odg'' \<and> issuer = JStr ''https://id.test''
        then Some sample_claims else None)\<rparr>"

definition sample_http :: http_client where
  "sample_http =
     \<lparr>hc_get = (\<lambda>url. if url = ''https://id.test/.well-known/openid-configuration''
        then Some \<lparr>hr_ok = True, hr_length = 10, hr_json = Some (JObj sample_metadata)\<rparr> else None),
      hc_key_set = (\<lambda>url. if url = ''https://id.test/keys'' then Some (JObj [(''keys'', JList [JStr ''k''])]) else None)\<rparr>"

text \<open>A network on which everything but the issuer's host answers with the key set of somebody else.\<close>

definition own_site :: "string \<Rightarrow> bool" where
  "own_site url \<longleftrightarrow> take 8 url = ''https://'' \<and>
     (case url_hostname auth_env url of Inr (Some h) \<Rightarrow> py_lower h = ''id.test'' | _ \<Rightarrow> False)"

definition hostile_http :: http_client where
  "hostile_http =
     \<lparr>hc_get = (\<lambda>url. if own_site url then hc_get sample_http url
        else Some \<lparr>hr_ok = True, hr_length = 10, hr_json = Some (JObj [(''jwks_uri'', JStr ''http://evil.test'')])\<rparr>),
      hc_key_set = (\<lambda>url. if own_site url then hc_key_set sample_http url
        else Some (JObj []))\<rparr>"

definition sample_auth :: auth_config where
  "sample_auth =
     \<lparr>au_api_keys = Some (JObj []),
      au_oidc_providers = Some (JObj [(''main'', JObj [(''issuer'', JStr ''https://id.test''), (''audience'', JStr ''odg''),
        (''tenant_claim'', JStr ''tid''), (''role_claim'', JStr ''roles''),
        (''role_mapping'', JObj [(''ODG.Admin'', JStr ''administrator'')])])]),
      au_oidc_issuer = [], au_oidc_audience = [], au_oidc_jwks_url = [],
      au_workload_providers = Some (JObj [(''batch'', JObj [(''issuer'', JStr ''https://id.test''), (''audience'', JStr ''odg''),
        (''role'', JStr ''analyst''), (''tenant_id'', JStr ''default'')])]),
      au_workload_max_token_seconds = 900, au_discovery_cache_seconds = 3600, au_default_tenant = ''default''\<rparr>"

definition bearer :: credentials_sent where
  "bearer = \<lparr>cs_api_key = None, cs_authorization = Some ''Bearer t'', cs_service_account_key = None, cs_workload_token = None\<rparr>"

definition workload_call :: credentials_sent where
  "workload_call = \<lparr>cs_api_key = None, cs_authorization = None, cs_service_account_key = None, cs_workload_token = Some ''t''\<rparr>"

definition signed_in :: principal where
  "signed_in = \<lparr>p_subject = ''development'', p_role = Administrator, p_tenant_id = ''default''\<rparr>"

lemma bearer_signs_in:
  "\<exists>s'. current_principal auth_env sample_auth (\<lambda>a b n. []) sample_jwt sample_http bearer (Map.empty, db) = (s', Inr signed_in) \<and>
     snd s' = db"
proof -
  have "snd (oidc_principal auth_env sample_auth sample_jwt sample_http ''t'' Map.empty) = Inr signed_in"
    by code_simp
  moreover have "\<not> cfg_auth_disabled (env_settings auth_env)" by (simp add: auth_env_def)
  moreover have "py_partition CHR '' '' ''Bearer t'' = (''Bearer'', True, ''t'')" "py_lower ''Bearer'' = ''bearer''"
    by code_simp+
  ultimately show ?thesis
    by (auto simp: current_principal_def bearer_def sent_def split: prod.splits)
qed

theorem bearer_authentication_sound_witness:
  "\<exists>provider unverified claims.
     verified_by auth_env sample_jwt sample_http Map.empty provider (py_get unverified ''iss'') ''t'' claims \<and>
     oidc_role provider claims = Inr (Some Administrator)"
proof -
  obtain s' where c: "current_principal auth_env sample_auth (\<lambda>a b n. []) sample_jwt sample_http bearer (Map.empty, empty_db) =
      (s', Inr signed_in)"
    using bearer_signs_in by blast
  have b: "\<not> cfg_auth_disabled (env_settings auth_env)" "sent (cs_authorization bearer) = ''Bearer t''"
    by (simp_all add: auth_env_def bearer_def sent_def)
  have "py_partition CHR '' '' ''Bearer t'' = (''Bearer'', True, ''t'')" by code_simp
  with bearer_authentication_sound[OF b(1) _ c] b(2) show ?thesis
    by (auto simp: signed_in_def)
qed

theorem workload_authentication_bounded_witness:
  "\<exists>s' who. current_principal auth_env sample_auth (\<lambda>a b n. []) sample_jwt sample_http workload_call (Map.empty, empty_db) =
       (s', Inr who) \<and> p_subject who = ''workload:development'' \<and> length (p_subject who) \<le> 329"
proof -
  have "snd (workload_identity_principal auth_env sample_auth sample_jwt sample_http ''t'' Map.empty) =
      Inr \<lparr>p_subject = ''workload:development'', p_role = Analyst, p_tenant_id = ''default''\<rparr>"
    by code_simp
  then obtain cache' where "workload_identity_principal auth_env sample_auth sample_jwt sample_http ''t'' Map.empty =
      (cache', Inr \<lparr>p_subject = ''workload:development'', p_role = Analyst, p_tenant_id = ''default''\<rparr>)"
    by (metis prod.collapse)
  moreover have b: "\<not> cfg_auth_disabled (env_settings auth_env)" "sent (cs_authorization workload_call) = []"
    "sent (cs_workload_token workload_call) \<noteq> []" "sent (cs_workload_token workload_call) = ''t''"
    by (simp_all add: auth_env_def workload_call_def sent_def)
  ultimately obtain s' where c: "current_principal auth_env sample_auth (\<lambda>a b n. []) sample_jwt sample_http workload_call
      (Map.empty, empty_db) = (s', Inr \<lparr>p_subject = ''workload:development'', p_role = Analyst, p_tenant_id = ''default''\<rparr>)"
    by (auto simp: current_principal_def)
  from workload_authentication_bounded[OF b(1,2,3) c] c show ?thesis by auto
qed

lemma sample_provider:
  assumes "configured_provider sample_auth p"
  shows "py_get p ''issuer'' = JStr ''https://id.test'' \<and> py_get p ''jwks_url'' = JNull \<and> configured_hosts p = Inr []"
  using assms
  by (auto simp: configured_provider_def sample_auth_def oidc_providers_def workload_identity_providers_def
      provider_objects_def py_get_def py_get_default_def configured_hosts_def)

theorem discovery_confined_witness:
  "hc_key_set hostile_http ''https://keys.test'' \<noteq> hc_key_set sample_http ''https://keys.test'' \<and>
   current_principal auth_env sample_auth (\<lambda>a b n. []) sample_jwt hostile_http bearer (Map.empty, empty_db) =
   current_principal auth_env sample_auth (\<lambda>a b n. []) sample_jwt sample_http bearer (Map.empty, empty_db)"
proof
  have host: "url_hostname auth_env ''https://id.test'' = Inr (Some ''id.test'')" "py_lower ''id.test'' = ''id.test''"
    and other: "\<not> own_site ''https://keys.test''" by code_simp+
  from other show "hc_key_set hostile_http ''https://keys.test'' \<noteq> hc_key_set sample_http ''https://keys.test''"
    by (simp add: hostile_http_def sample_http_def)
  show "current_principal auth_env sample_auth (\<lambda>a b n. []) sample_jwt hostile_http bearer (Map.empty, empty_db) =
    current_principal auth_env sample_auth (\<lambda>a b n. []) sample_jwt sample_http bearer (Map.empty, empty_db)"
  proof (rule discovery_confined)
    fix p url assume p: "configured_provider sample_auth p"
    note q = sample_provider[OF p]
    show "hc_get hostile_http url = hc_get sample_http url" if "discovery_site auth_env p url"
      using that q host by (auto simp: discovery_site_def hostile_http_def own_site_def)
    show "hc_key_set hostile_http url = hc_key_set sample_http url" if "key_set_site auth_env p url"
      using that q host by (auto simp: key_set_site_def hostile_http_def own_site_def)
  qed
qed

section \<open>The reserved subject\<close>

lemma authenticated_subject:
  "authenticate_service_account env kdf key db = (db', Some i) \<Longrightarrow> \<exists>x. id_subject i = ''service-account:'' @ x"
  by (auto simp: authenticate_service_account_def split: option.splits prod.splits if_splits)

text \<open>
  The subject \<open>development\<close> is exempt from the rule that a bundle is approved by another identity, and authentication
  does not reserve it: an administrator who signs in with that subject, by a bearer token or an API key, submits and approves
  the bundle they created. Workload identities and service accounts never carry it.\<close>

theorem development_subject_unreserved:
  assumes "\<not> cfg_auth_disabled (env_settings env)" and "current_principal env cfg kdf jwt http req s = (s', Inr who)"
    and "p_subject who = ''development''" and "p_role who = Administrator"
    and "create_policy_bundle env bid who body (snd s') = Inr (db1, b)"
  shows "(sent (cs_authorization req) \<noteq> [] \<or> sent (cs_workload_token req) = [] \<and> sent (cs_service_account_key req) = []) \<and>
    (\<exists>db2 db3 r. submit_policy_bundle env registry us uuid who bid db1 = (db2, Inr (submitted_bundle (env_now env) b)) \<and>
       approve_policy_bundle env registry usn who bid db2 = Inr (db3, r) \<and> bundle_status r = BApproved \<and>
       bundle_created_by r = p_subject who \<and> bundle_approved_by r = Some (p_subject who) \<and> r \<in> set (db_bundles db3))"
proof
  obtain cache db where s: "s = (cache, db)" by (cases s)
  show "sent (cs_authorization req) \<noteq> [] \<or> sent (cs_workload_token req) = [] \<and> sent (cs_service_account_key req) = []"
  proof (rule ccontr)
    assume n: "\<not> ?thesis"
    show False
    proof (cases "sent (cs_workload_token req) = []")
      case False
      with n workload_authentication_bounded[OF assms(1) _ False assms(2)[unfolded s]] assms(3) show False by auto
    next
      case True
      with n assms(1,2,3) show False
        by (auto simp: current_principal_def s service_account_principal_def split: prod.splits option.splits
            dest!: authenticated_subject)
    qed
  qed
  have n: "\<not> same_identity (p_subject who) who" by (simp add: same_identity_def assms(3))
  obtain db2 db3 where p:
    "submit_policy_bundle env registry us uuid who bid db1 = (db2, Inr (submitted_bundle (env_now env) b))"
    "approve_policy_bundle env registry usn who bid db2 =
       Inr (db3, approved_bundle (env_now env) (p_subject who) (submitted_bundle (env_now env) b))"
    "db_bundles db3 = db_bundles (snd s') @ [approved_bundle (env_now env) (p_subject who) (submitted_bundle (env_now env) b)]"
    by (rule bundle_path[OF assms(5) assms(4) refl n])
  have "bundle_created_by b = p_subject who"
    using assms(5) by (auto simp: create_bundle_Inr new_bundle_def)
  with p show "\<exists>db2 db3 r. submit_policy_bundle env registry us uuid who bid db1 = (db2, Inr (submitted_bundle (env_now env) b)) \<and>
       approve_policy_bundle env registry usn who bid db2 = Inr (db3, r) \<and> bundle_status r = BApproved \<and>
       bundle_created_by r = p_subject who \<and> bundle_approved_by r = Some (p_subject who) \<and> r \<in> set (db_bundles db3)"
    by (intro exI[of _ db2] exI[of _ db3] exI[of _ "approved_bundle (env_now env) (p_subject who) (submitted_bundle (env_now env) b)"])
       (simp add: approved_bundle_def submitted_bundle_def)
qed

theorem development_subject_unreserved_witness:
  "\<exists>db2 db3 r. approve_policy_bundle auth_env [] (\<lambda>k n. (''d'', ''j'')) signed_in ''b1'' db2 = Inr (db3, r) \<and>
     bundle_status r = BApproved \<and> bundle_created_by r = ''development'' \<and> bundle_approved_by r = Some ''development''"
proof -
  obtain s' where c: "current_principal auth_env sample_auth (\<lambda>a b n. []) sample_jwt sample_http bearer (Map.empty, empty_db) =
      (s', Inr signed_in)" and e: "snd s' = empty_db"
    using bearer_signs_in by blast
  have "is_ok (create_policy_bundle auth_env ''b1'' signed_in small_bundle empty_db)" by code_simp
  then obtain db1 b where b: "create_policy_bundle auth_env ''b1'' signed_in small_bundle (snd s') = Inr (db1, b)"
    by (auto simp: is_ok_iff e)
  have w: "\<not> cfg_auth_disabled (env_settings auth_env)" "p_subject signed_in = ''development''" "p_role signed_in = Administrator"
    by (simp_all add: auth_env_def signed_in_def)
  from development_subject_unreserved[OF w(1) c w(2,3) b, of "[]" "\<lambda>n. (''d'', ''j'')" "''t1''" "\<lambda>k n. (''d'', ''j'')"] w(2)
  show ?thesis by auto
qed

end
