(* ===== verification/Graph.thy ===== *)
theory Graph
  imports PolicyBundles
begin

text \<open>
  \<open>app/services/graph.py\<close> with its routes in \<open>app/v13.py\<close>, \<open>app/v14.py\<close> and \<open>app/main.py\<close>: the edges an OpenLineage event adds, the
  breadth-first query of a neighbourhood, the explanation of the paths between two nodes, and the exports. The session
  does not flush before a query (\<open>autoflush=False\<close>), so within a transaction a query does not see the rows added in it.
  The sign that joins the steps of an explanation is outside the characters of the model: an explanation is the list of its steps.
\<close>

section \<open>Nodes and edges\<close>

type_synonym node = "string \<times> string"
type_synonym edge_key = "node \<times> string \<times> node"

definition edge_source :: "graph_edge \<Rightarrow> node" where
  "edge_source e = (edge_source_type e, edge_source_id e)"

definition edge_target :: "graph_edge \<Rightarrow> node" where
  "edge_target e = (edge_target_type e, edge_target_id e)"

definition edge_key :: "graph_edge \<Rightarrow> edge_key" where
  "edge_key e = (edge_source e, edge_relationship e, edge_target e)"

definition node_json :: "node \<Rightarrow> json" where
  "node_json n = JObj [(''type'', JStr (fst n)), (''id'', JStr (snd n))]"

definition edge_response :: "env \<Rightarrow> graph_edge \<Rightarrow> dict" where
  "edge_response env e =
     [(''id'', JInt (int (edge_id e))), (''source'', node_json (edge_source e)), (''relationship'', JStr (edge_relationship e)),
      (''target'', node_json (edge_target e)), (''metadata'', edge_metadata_json e), (''created_at'', jtime env (edge_created_at e))]"

section \<open>OpenLineage events\<close>

definition EVENT_TYPES :: "string list" where
  "EVENT_TYPES = [''START'', ''RUNNING'', ''COMPLETE'', ''ABORT'', ''FAIL'', ''OTHER'']"

definition text_field :: "dict \<Rightarrow> string \<Rightarrow> bool" where
  "text_field d k = (is_jstr (py_get d k) \<and> jstr (py_get d k) \<noteq> [])"

definition named :: "json \<Rightarrow> bool" where
  "named v = (is_jobj v \<and> text_field (jobj v) ''namespace'' \<and> text_field (jobj v) ''name'')"

definition check_datasets :: "dict \<Rightarrow> string \<Rightarrow> unit result" where
  "check_datasets payload collection =
     (let datasets = py_get_default payload collection (JList []) in
      rbind (raise_if (\<not> is_jlist datasets \<or> length (jlist datasets) > 1000)
               (ValueError (''OpenLineage '' @ collection @ '' must be a bounded array''))) (\<lambda>_.
      raise_if (\<not> list_all named (jlist datasets)) (ValueError (''OpenLineage '' @ collection @ '' require namespace and name''))))"

definition validate_openlineage :: "env \<Rightarrow> json \<Rightarrow> unit result" where
  "validate_openlineage env v =
     (let d = jobj v; ty = py_get d ''eventType'' in
      rbind (raise_if (\<not> is_jobj v \<or> length (json_dumps (env_frepr env) '', '' '': '' v) > 1024 * 1024)
               (ValueError ''OpenLineage event must be an object no larger than 1 MiB'')) (\<lambda>_.
      rbind (raise_if (\<not> py_hashable ty) (TypeError ''unhashable type'')) (\<lambda>_.
      rbind (raise_if (\<not> (is_jstr ty \<and> jstr ty \<in> set EVENT_TYPES)) (ValueError ''OpenLineage eventType is invalid'')) (\<lambda>_.
      rbind (raise_if (\<not> is_jstr (py_get d ''eventTime'')) (ValueError ''OpenLineage eventTime is required'')) (\<lambda>_.
      rbind (raise_if (\<not> (is_jobj (py_get d ''run'') \<and> text_field (jobj (py_get d ''run'')) ''runId''))
               (ValueError ''OpenLineage run.runId is required'')) (\<lambda>_.
      rbind (raise_if (\<not> named (py_get d ''job'')) (ValueError ''OpenLineage job namespace and name are required'')) (\<lambda>_.
      rbind (check_datasets d ''inputs'') (\<lambda>_. check_datasets d ''outputs''))))))))"

definition event_time :: "env \<Rightarrow> string \<Rightarrow> time result" where
  "event_time env s =
     (case env_iso env (concat (map (\<lambda>c. if c = CHR ''Z'' then ''+00:00'' else [c]) s)) of
        None \<Rightarrow> Inl (ValueError ''OpenLineage eventTime must be ISO 8601'')
      | Some t \<Rightarrow> Inr t)"

definition dataset_id :: "json \<Rightarrow> string" where
  "dataset_id v = jstr (py_get (jobj v) ''namespace'') @ ''/'' @ jstr (py_get (jobj v) ''name'')"

definition dataset_ids :: "dict \<Rightarrow> string \<Rightarrow> string list" where
  "dataset_ids d collection = map dataset_id (jlist (py_get_default d collection (JList [])))"

text \<open>The edges an event asks for, in the order of the code, with their metadata.\<close>

definition lineage_edges :: "string \<Rightarrow> dict \<Rightarrow> (edge_key \<times> json) list" where
  "lineage_edges event_id d =
     (let run_id = jstr (py_get (jobj (py_get d ''run'')) ''runId''); job_id = dataset_id (py_get d ''job'');
          meta = [(''event_id'', JStr event_id), (''run_id'', JStr run_id)];
          ins = dataset_ids d ''inputs''; outs = dataset_ids d ''outputs''
      in [(((''lineage-run'', run_id), ''instance_of'', (''lineage-job'', job_id)),
           JObj [(''event_id'', JStr event_id), (''event_type'', py_get d ''eventType'')])] @
         map (\<lambda>i. (((''dataset'', i), ''input_to'', (''lineage-job'', job_id)), JObj meta)) ins @
         map (\<lambda>j. (((''lineage-job'', job_id), ''produces'', (''dataset'', j)), JObj meta)) outs @
         concat (map (\<lambda>i. map (\<lambda>j. (((''dataset'', i), ''transforms_into'', (''dataset'', j)),
           JObj (meta @ [(''job'', JStr job_id)]))) outs) ins))"

text \<open>\<open>_ensure_edge\<close> looks only at the edges stored before the transaction; what it adds is kept apart until the commit.\<close>

definition ensure_edge ::
  "string \<Rightarrow> edge_key \<times> json \<Rightarrow> graph_edge list \<times> (edge_key \<times> json) list \<Rightarrow> (graph_edge list \<times> (edge_key \<times> json) list) \<times> nat" where
  "ensure_edge tenant_id w s = (case s of (stored, added) \<Rightarrow>
     (case scalar (\<lambda>e. edge_tenant_id e = tenant_id \<and> edge_key e = fst w) stored of
        Some e \<Rightarrow> ((update_rows (\<lambda>x. edge_id x = edge_id e) (\<lambda>x. x\<lparr>edge_metadata_json := snd w\<rparr>) stored, added), 0)
      | None \<Rightarrow> ((stored, added @ [w]), 1)))"

fun ensure_edges ::
  "string \<Rightarrow> (edge_key \<times> json) list \<Rightarrow> graph_edge list \<times> (edge_key \<times> json) list \<Rightarrow>
     (graph_edge list \<times> (edge_key \<times> json) list) \<times> nat" where
  "ensure_edges tenant_id [] s = (s, 0)"
| "ensure_edges tenant_id (w # ws) s =
     (case ensure_edge tenant_id w s of (s1, n) \<Rightarrow> (case ensure_edges tenant_id ws s1 of (s2, m) \<Rightarrow> (s2, n + m)))"

definition new_edge :: "env \<Rightarrow> string \<Rightarrow> nat \<Rightarrow> edge_key \<times> json \<Rightarrow> graph_edge" where
  "new_edge env tenant_id i w = (case w of ((src, rel, tgt), meta) \<Rightarrow>
     \<lparr>edge_id = i, edge_tenant_id = tenant_id, edge_source_type = fst src, edge_source_id = snd src, edge_relationship = rel,
      edge_target_type = fst tgt, edge_target_id = snd tgt, edge_metadata_json = meta, edge_created_at = env_now env\<rparr>)"

fun insert_edges :: "env \<Rightarrow> string \<Rightarrow> (edge_key \<times> json) list \<Rightarrow> graph_edge list \<Rightarrow> graph_edge list" where
  "insert_edges env tenant_id [] es = es"
| "insert_edges env tenant_id (w # ws) es =
     insert_edges env tenant_id ws (es @ [new_edge env tenant_id (next_id edge_id es) w])"

record ingest_answer =
  ia_idempotent :: bool
  ia_event_id :: string
  ia_edges_created :: nat

text \<open>The event does not check its producer: the commit fails on one that is not a text.\<close>

definition producer_column :: "json \<Rightarrow> string option result" where
  "producer_column v = (case v of JNull \<Rightarrow> Inr None | JStr s \<Rightarrow> Inr (Some s) | _ \<Rightarrow> Inl (OtherError ''DataError''))"

definition ingest_openlineage_event :: "env \<Rightarrow> string \<Rightarrow> json \<Rightarrow> db \<Rightarrow> (db \<times> ingest_answer) result" where
  "ingest_openlineage_event env tenant_id payload db =
     rbind (validate_openlineage env payload) (\<lambda>_.
     let d = jobj payload; event_id = env_sha256 env (canonical_json (env_frepr env) payload) in
     case scalar (\<lambda>l. lin_tenant_id l = tenant_id \<and> lin_event_id l = event_id) (db_lineage db) of
       Some l \<Rightarrow> Inr (db, \<lparr>ia_idempotent = True, ia_event_id = event_id, ia_edges_created = 0\<rparr>)
     | None \<Rightarrow>
         rbind (event_time env (jstr (py_get d ''eventTime''))) (\<lambda>t.
         rbind (producer_column (py_get d ''producer'')) (\<lambda>producer.
         let l = \<lparr>lin_id = next_id lin_id (db_lineage db), lin_tenant_id = tenant_id, lin_event_id = event_id,
                  lin_event_type = jstr (py_get d ''eventType''), lin_event_time = t,
                  lin_run_id = jstr (py_get (jobj (py_get d ''run'')) ''runId''),
                  lin_job_namespace = jstr (py_get (jobj (py_get d ''job'')) ''namespace''),
                  lin_job_name = jstr (py_get (jobj (py_get d ''job'')) ''name''),
                  lin_producer = producer,
                  lin_payload_json = sort_keys payload, lin_created_at = env_now env\<rparr>
         in case ensure_edges tenant_id (lineage_edges event_id d) (db_edges db, []) of ((stored, added), created) \<Rightarrow>
              Inr (db\<lparr>db_lineage := db_lineage db @ [l], db_edges := insert_edges env tenant_id added stored\<rparr>,
                   \<lparr>ia_idempotent = False, ia_event_id = event_id, ia_edges_created = created\<rparr>))))"

section \<open>Querying a neighbourhood\<close>

datatype direction = Inbound | Outbound | Both

definition outward :: "direction \<Rightarrow> bool" where "outward d = (d \<in> {Outbound, Both})"
definition inward :: "direction \<Rightarrow> bool" where "inward d = (d \<in> {Inbound, Both})"

definition touches :: "direction \<Rightarrow> node list \<Rightarrow> graph_edge \<Rightarrow> bool" where
  "touches d frontier e =
     (outward d \<and> edge_source e \<in> set frontier \<or> inward d \<and> edge_target e \<in> set frontier)"

text \<open>The edges of the tenant that a statement selects; an empty set of relationships selects all.\<close>

definition tenant_edges :: "db \<Rightarrow> string \<Rightarrow> string list \<Rightarrow> graph_edge list" where
  "tenant_edges db tenant_id relationships =
     where_rows (\<lambda>e. edge_tenant_id e = tenant_id \<and> (relationships = [] \<or> edge_relationship e \<in> set relationships)) (db_edges db)"

definition visit :: "nat \<Rightarrow> node \<Rightarrow> (node \<times> nat) list \<times> node list \<Rightarrow> (node \<times> nat) list \<times> node list" where
  "visit depth n s = (case s of (depths, next_frontier) \<Rightarrow>
     if n \<in> fst ` set depths then s else (depths @ [(n, depth)], next_frontier @ [n]))"

definition visit_edge :: "nat \<Rightarrow> graph_edge \<Rightarrow> (node \<times> nat) list \<times> node list \<Rightarrow> (node \<times> nat) list \<times> node list" where
  "visit_edge depth e s = visit depth (edge_target e) (visit depth (edge_source e) s)"

text \<open>\<open>edges_by_id[edge.id] = edge\<close>.\<close>

definition keep_edge :: "graph_edge \<Rightarrow> graph_edge list \<Rightarrow> graph_edge list" where
  "keep_edge e es = (if edge_id e \<in> edge_id ` set es then es else es @ [e])"

fun query_loop ::
  "direction \<Rightarrow> graph_edge list \<Rightarrow> nat \<Rightarrow> nat \<Rightarrow> nat \<Rightarrow> graph_edge list \<Rightarrow> (node \<times> nat) list \<Rightarrow> node list \<Rightarrow>
     graph_edge list \<times> (node \<times> nat) list \<times> bool" where
  "query_loop dir rows max_edges 0 depth kept depths frontier = (kept, depths, False)"
| "query_loop dir rows max_edges (Suc n) depth kept depths frontier =
     (if frontier = [] \<or> length kept \<ge> max_edges then (kept, depths, length kept \<ge> max_edges)
      else
        let found = take (max_edges - length kept) (filter (touches dir frontier) rows) in
        case fold (visit_edge depth) found (depths, []) of (depths', frontier') \<Rightarrow>
          query_loop dir rows max_edges n (Suc depth) (fold keep_edge found kept) depths' frontier')"

record graph_answer =
  ga_start :: node
  ga_max_depth :: int
  ga_nodes :: "(node \<times> nat) list"
  ga_edges :: "graph_edge list"
  ga_truncated :: bool

definition query_graph :: "env \<Rightarrow> db \<Rightarrow> string \<Rightarrow> node \<Rightarrow> int \<Rightarrow> direction \<Rightarrow> string list \<Rightarrow> nat \<Rightarrow> graph_answer" where
  "query_graph env db tenant_id start max_depth dir relationships max_edges =
     (let bounded_depth = min max_depth (cfg_graph_max_depth (env_settings env)) in
      case query_loop dir (tenant_edges db tenant_id relationships) max_edges (nat bounded_depth) 1 [] [(start, 0)] [start] of
        (kept, depths, truncated) \<Rightarrow>
          \<lparr>ga_start = start, ga_max_depth = bounded_depth, ga_nodes = sort_key (\<lambda>(n, d). (d, n)) depths, ga_edges = kept,
           ga_truncated = truncated\<rparr>)"

section \<open>Explaining paths\<close>

definition other_end :: "node \<Rightarrow> graph_edge \<Rightarrow> node" where
  "other_end n e = (if edge_source e = n then edge_target e else edge_source e)"

text \<open>The edges of one node: the queue gets the paths that go on, the answers those that reach the target.\<close>

type_synonym open_path = "node \<times> graph_edge list \<times> node list"

fun follow_edges ::
  "node \<Rightarrow> nat \<Rightarrow> open_path \<Rightarrow> graph_edge list \<Rightarrow> graph_edge list list \<Rightarrow> open_path list \<Rightarrow> graph_edge list list \<times> open_path list" where
  "follow_edges target max_paths p [] paths queue = (paths, queue)"
| "follow_edges target max_paths (n, path, visited) (e # es) paths queue =
     (let m = other_end n e in
      if m \<in> set visited then follow_edges target max_paths (n, path, visited) es paths queue
      else if m = target then
        let paths' = paths @ [path @ [e]] in
        if length paths' \<ge> max_paths then (paths', queue) else follow_edges target max_paths (n, path, visited) es paths' queue
      else follow_edges target max_paths (n, path, visited) es paths (queue @ [(m, path @ [e], visited @ [m])]))"

definition edges_of :: "direction \<Rightarrow> graph_edge list \<Rightarrow> node \<Rightarrow> graph_edge list" where
  "edges_of dir rows n = take 1000 (filter (touches dir [n]) (order_by edge_id rows))"

definition weight :: "nat \<Rightarrow> open_path list \<Rightarrow> nat" where
  "weight depth queue = sum_list (map (\<lambda>(n, path, visited). 1001 ^ (depth - length path)) queue)"

lemma follow_edges_queue:
  "\<exists>items. snd (follow_edges target k (n, path, visited) es paths queue) = queue @ items \<and> length items \<le> length es \<and>
     (\<forall>x \<in> set items. length (fst (snd x)) = Suc (length path))"
proof (induction es arbitrary: paths queue)
  case (Cons e es)
  let ?m = "other_end n e"
  show ?case
  proof (cases "?m \<in> set visited \<or> ?m = target")
    case True
    with Cons[of paths queue] Cons[of "paths @ [path @ [e]]" queue] show ?thesis
      by (auto simp: Let_def intro: exI[of _ "[]"] le_SucI)
  next
    case False
    from Cons[of paths "queue @ [(?m, path @ [e], visited @ [?m])]"] obtain items where
      "snd (follow_edges target k (n, path, visited) es paths (queue @ [(?m, path @ [e], visited @ [?m])])) = queue @ [(?m, path @ [e], visited @ [?m])] @ items"
      "length items \<le> length es" "\<forall>x \<in> set items. length (fst (snd x)) = Suc (length path)" by auto
    with False show ?thesis
      by (intro exI[of _ "(?m, path @ [e], visited @ [?m]) # items"]) (auto simp: Let_def)
  qed
qed simp

lemma weight_items:
  assumes "\<forall>x \<in> set items. length (fst (snd x)) = Suc l" and "length items \<le> 1000" and "l < depth"
  shows "weight depth items < 1001 ^ (depth - l)"
proof -
  have "weight depth items \<le> length items * 1001 ^ (depth - Suc l)"
    using assms(1) unfolding weight_def by (induction items) auto
  also have "\<dots> \<le> 1000 * 1001 ^ (depth - Suc l)" using assms(2) by simp
  also have "\<dots> < 1001 * 1001 ^ (depth - Suc l)" by simp
  also have "\<dots> = 1001 ^ (depth - l)" using assms(3) by (metis Suc_diff_Suc power_Suc)
  finally show ?thesis .
qed

function path_loop ::
  "direction \<Rightarrow> graph_edge list \<Rightarrow> node \<Rightarrow> nat \<Rightarrow> nat \<Rightarrow> open_path list \<Rightarrow> graph_edge list list \<Rightarrow> graph_edge list list" where
  "path_loop dir rows target max_paths depth [] paths = paths"
| "path_loop dir rows target max_paths depth ((n, path, visited) # queue) paths =
     (if length paths \<ge> max_paths then paths
      else if length path \<ge> depth then path_loop dir rows target max_paths depth queue paths
      else case follow_edges target max_paths (n, path, visited) (edges_of dir rows n) paths queue of
        (paths', queue') \<Rightarrow> path_loop dir rows target max_paths depth queue' paths')"
  by pat_completeness auto
termination
proof (relation "measure (\<lambda>(dir, rows, target, max_paths, depth, queue, paths). weight depth queue)", goal_cases)
  case (2 dir rows target max_paths depth n path visited queue paths)
  then show ?case by (simp add: weight_def)
next
  case (3 dir rows target max_paths depth n path visited queue paths paths' queue')
  then have "queue' = snd (follow_edges target max_paths (n, path, visited) (edges_of dir rows n) paths queue)" by (metis snd_conv)
  with follow_edges_queue[of target max_paths n path visited "edges_of dir rows n" paths queue] obtain items where
    "queue' = queue @ items" "length items \<le> length (edges_of dir rows n)" "\<forall>x \<in> set items. length (fst (snd x)) = Suc (length path)"
    by auto
  with weight_items[of items "length path" depth] 3 show ?case by (simp add: weight_def edges_of_def)
qed simp

record path_step =
  ps_edge :: graph_edge
  ps_from :: node
  ps_to :: node
  ps_explanation :: string

definition step_explanation :: "node \<Rightarrow> graph_edge \<Rightarrow> string" where
  "step_explanation current e =
     (if current = edge_source e
      then edge_source_type e @ '' '' @ edge_source_id e @ '' '' @ edge_relationship e @ '' '' @ edge_target_type e @ '' '' @ edge_target_id e
      else edge_target_type e @ '' '' @ edge_target_id e @ '' is reached through inbound '' @ edge_relationship e @ '' from '' @
        edge_source_type e @ '' '' @ edge_source_id e)"

text \<open>\<open>_path_response\<close>.\<close>

fun path_response :: "node \<Rightarrow> graph_edge list \<Rightarrow> path_step list" where
  "path_response current [] = []"
| "path_response current (e # es) =
     (let m = (if current = edge_source e then edge_target e else edge_source e) in
      \<lparr>ps_edge = e, ps_from = current, ps_to = m, ps_explanation = step_explanation current e\<rparr> # path_response m es)"

record paths_answer =
  pa_max_depth :: int
  pa_paths :: "path_step list list"
  pa_found :: bool
  pa_truncated :: bool

definition explain_paths :: "env \<Rightarrow> db \<Rightarrow> string \<Rightarrow> node \<Rightarrow> node \<Rightarrow> int \<Rightarrow> direction \<Rightarrow> nat \<Rightarrow> paths_answer" where
  "explain_paths env db tenant_id source target max_depth dir max_paths =
     (let bounded_depth = min max_depth (cfg_graph_max_depth (env_settings env));
          paths = path_loop dir (tenant_edges db tenant_id []) target max_paths (nat bounded_depth) [(source, [], [source])] []
      in \<lparr>pa_max_depth = bounded_depth, pa_paths = map (path_response source) paths, pa_found = (paths \<noteq> []),
          pa_truncated = (length paths \<ge> max_paths)\<rparr>)"


section \<open>Exports\<close>

record graph_export =
  ge_tenant_id :: string
  ge_edges :: "graph_edge list"
  ge_truncated :: bool

definition export_graph_edges :: "env \<Rightarrow> db \<Rightarrow> string \<Rightarrow> string list \<Rightarrow> int \<Rightarrow> graph_export" where
  "export_graph_edges env db tenant_id relationships limit =
     (let bounded = nat (min limit (cfg_graph_max_export_edges (env_settings env)));
          rows = take (Suc bounded) (order_by edge_id (tenant_edges db tenant_id relationships))
      in \<lparr>ge_tenant_id = tenant_id, ge_edges = take bounded rows, ge_truncated = (length rows > bounded)\<rparr>)"

text \<open>A field and a row as \<open>csv.writer\<close> writes them.\<close>

definition csv_field :: "string \<Rightarrow> string" where
  "csv_field s =
     (if list_ex (\<lambda>c. c \<in> {CHR '','', char_of (34::nat), char_of (10::nat), char_of (13::nat)}) s
      then [char_of (34::nat)] @ concat (map (\<lambda>c. if c = char_of (34::nat) then [c, c] else [c]) s) @ [char_of (34::nat)]
      else s)"

definition csv_row :: "string list \<Rightarrow> string" where
  "csv_row cells = join '','' (map csv_field cells) @ [char_of (13::nat), char_of (10::nat)]"

definition CSV_HEADER :: "string list" where
  "CSV_HEADER = [''source_type'', ''source_id'', ''relationship'', ''target_type'', ''target_id'', ''created_at'', ''metadata_json'']"

definition csv_graph_response :: "env \<Rightarrow> graph_export \<Rightarrow> string" where
  "csv_graph_response env x =
     csv_row CSV_HEADER @
     concat (map (\<lambda>e. csv_row [edge_source_type e, edge_source_id e, edge_relationship e, edge_target_type e, edge_target_id e,
       env_isoformat env (edge_created_at e), json_dumps (env_frepr env) '', '' '': '' (sort_keys (edge_metadata_json e))]) (ge_edges x))"

text \<open>\<open>xml.sax.saxutils.escape\<close>.\<close>

definition xml_escape :: "string \<Rightarrow> string" where
  "xml_escape s = concat (map (\<lambda>c. if c = CHR ''&'' then ''&amp;'' else if c = CHR ''<'' then ''&lt;''
     else if c = CHR ''>'' then ''&gt;'' else [c]) s)"

definition node_key :: "node \<Rightarrow> string" where
  "node_key n = fst n @ '':'' @ snd n"

text \<open>The dictionary of nodes: the last node written under a key stays; keys are listed in order, the first is \<open>n1\<close>.\<close>

definition graphml_nodes :: "graph_edge list \<Rightarrow> (string \<times> node) list" where
  "graphml_nodes es = fold (\<lambda>e d. AList.update (node_key (edge_target e)) (edge_target e)
     (AList.update (node_key (edge_source e)) (edge_source e) d)) es []"

definition quoted :: "string \<Rightarrow> string" where
  "quoted s = [char_of (34::nat)] @ s @ [char_of (34::nat)]"

definition index_of :: "string \<Rightarrow> string list \<Rightarrow> nat" where
  "index_of k ks = length (takeWhile (\<lambda>x. x \<noteq> k) ks)"

definition node_ref :: "string list \<Rightarrow> node \<Rightarrow> string" where
  "node_ref ks n = ''n'' @ show_nat (Suc (index_of (node_key n) ks))"

definition graphml_response :: "graph_export \<Rightarrow> string" where
  "graphml_response x =
     (let nodes = graphml_nodes (ge_edges x); ks = sort (map fst nodes);
          label = (\<lambda>k. case map_of nodes k of None \<Rightarrow> ([], []) | Some n \<Rightarrow> n)
      in join [char_of (10::nat)]
       ([''<?xml version='' @ quoted ''1.0'' @ '' encoding='' @ quoted ''UTF-8'' @ ''?>'',
         ''<graphml xmlns='' @ quoted ''http://graphml.graphdrawing.org/xmlns'' @ ''>''] @
        map (\<lambda>(i, f, nm). ''<key id='' @ quoted i @ '' for='' @ quoted f @ '' attr.name='' @ quoted nm @ '' attr.type='' @ quoted ''string'' @ ''/>'')
          [(''type'', ''node'', ''type''), (''label'', ''node'', ''label''), (''relationship'', ''edge'', ''relationship'')] @
        [''<graph edgedefault='' @ quoted ''directed'' @ ''>''] @
        map (\<lambda>k. ''<node id='' @ quoted (''n'' @ show_nat (Suc (index_of k ks))) @ ''><data key='' @ quoted ''type'' @ ''>'' @ xml_escape (fst (label k)) @
             ''</data><data key='' @ quoted ''label'' @ ''>'' @ xml_escape (snd (label k)) @ ''</data></node>'') ks @
        map (\<lambda>(i, e). ''<edge id='' @ quoted (''e'' @ show_nat (Suc i)) @ '' source='' @ quoted (node_ref ks (edge_source e)) @
             '' target='' @ quoted (node_ref ks (edge_target e)) @ ''><data key='' @ quoted ''relationship'' @ ''>'' @
             xml_escape (edge_relationship e) @ ''</data></edge>'') (enumerate 0 (ge_edges x)) @
        [''</graph>'', ''</graphml>'']))"

section \<open>Routes\<close>

definition relationship_set :: "string option \<Rightarrow> string list" where
  "relationship_set text = remdups (filter (\<lambda>s. s \<noteq> []) (map py_strip (py_split CHR '','' (case text of None \<Rightarrow> [] | Some s \<Rightarrow> s))))"

definition ingest_lineage_event :: "env \<Rightarrow> principal \<Rightarrow> json \<Rightarrow> db \<Rightarrow> (db \<times> ingest_answer) result" where
  "ingest_lineage_event env who payload db =
     rbind (require_role ConnectorOperator who) (\<lambda>_. bad_request (ingest_openlineage_event env (p_tenant_id who) payload db))"

definition node_ok :: "node \<Rightarrow> bool" where
  "node_ok n = (field_length 1 80 (fst n) \<and> field_length 1 320 (snd n))"

definition advanced_graph_query :: "env \<Rightarrow> principal \<Rightarrow> node \<Rightarrow> int \<Rightarrow> direction \<Rightarrow> string option \<Rightarrow> db \<Rightarrow> graph_answer result" where
  "advanced_graph_query env who start max_depth dir relationships db =
     rbind (require_role ReadOnly who) (\<lambda>_.
     rbind (check_body (node_ok start \<and> 1 \<le> max_depth \<and> max_depth \<le> 10 \<and> opt_field 0 1000 relationships)) (\<lambda>_.
     Inr (query_graph env db (p_tenant_id who) start max_depth dir (relationship_set relationships) 5000)))"

definition graph_path_explanations :: "env \<Rightarrow> principal \<Rightarrow> node \<Rightarrow> node \<Rightarrow> int \<Rightarrow> direction \<Rightarrow> nat \<Rightarrow> db \<Rightarrow> paths_answer result" where
  "graph_path_explanations env who source target max_depth dir max_paths db =
     rbind (require_role ReadOnly who) (\<lambda>_.
     rbind (check_body (node_ok source \<and> node_ok target \<and> 1 \<le> max_depth \<and> max_depth \<le> 10 \<and> 1 \<le> max_paths \<and> max_paths \<le> 50)) (\<lambda>_.
     Inr (explain_paths env db (p_tenant_id who) source target max_depth dir max_paths)))"

datatype export_format = ExportJson | ExportCsv | ExportGraphml
datatype export_answer = JsonAnswer dict | TextAnswer string

definition export_graph :: "env \<Rightarrow> principal \<Rightarrow> export_format \<Rightarrow> string option \<Rightarrow> int \<Rightarrow> db \<Rightarrow> export_answer result" where
  "export_graph env who fmt relationships limit db =
     rbind (require_role Auditor who) (\<lambda>_.
     rbind (check_body (opt_field 0 1000 relationships \<and> 1 \<le> limit \<and> limit \<le> 100000)) (\<lambda>_.
     let x = export_graph_edges env db (p_tenant_id who) (relationship_set relationships) limit in
     Inr (case fmt of
            ExportJson \<Rightarrow> JsonAnswer [(''tenant_id'', JStr (ge_tenant_id x)),
              (''edges'', JList (map (\<lambda>e. JObj (edge_response env e)) (ge_edges x))),
              (''count'', JInt (int (length (ge_edges x)))), (''truncated'', JBool (ge_truncated x))]
          | ExportCsv \<Rightarrow> TextAnswer (csv_graph_response env x)
          | ExportGraphml \<Rightarrow> TextAnswer (graphml_response x))))"

definition graph_relationships :: "env \<Rightarrow> principal \<Rightarrow> int option \<Rightarrow> string option \<Rightarrow> nat \<Rightarrow> db \<Rightarrow> dict list result" where
  "graph_relationships env who asset agent n db =
     rbind (require_role ReadOnly who) (\<lambda>_.
     rbind (check_body (1 \<le> n \<and> n \<le> 2000)) (\<lambda>_.
     Inr (map (edge_response env) (take n (order_by_desc edge_created_at (where_rows (\<lambda>e. edge_tenant_id e = p_tenant_id who \<and>
       (case asset of None \<Rightarrow> True | Some i \<Rightarrow> (''asset'', show_int i) \<in> {edge_source e, edge_target e}) \<and>
       (truthy_opt agent \<longrightarrow> Some (edge_source_id e) = agent \<and> edge_source_type e = ''agent'')) (db_edges db)))))))"


section \<open>Distances\<close>

text \<open>The relation between neighbours in a direction.\<close>

definition linked :: "direction \<Rightarrow> graph_edge list \<Rightarrow> (node \<times> node) set" where
  "linked dir rows = {(u, v). \<exists>e \<in> set rows. outward dir \<and> edge_source e = u \<and> edge_target e = v \<or>
     inward dir \<and> edge_target e = u \<and> edge_source e = v}"

text \<open>The node is reached in that many steps and not in fewer.\<close>

definition at_distance :: "(node \<times> node) set \<Rightarrow> node \<Rightarrow> node \<Rightarrow> nat \<Rightarrow> bool" where
  "at_distance R s n d \<longleftrightarrow> (s, n) \<in> R ^^ d \<and> (\<forall>k < d. (s, n) \<notin> R ^^ k)"

lemma at_distance_unique: "at_distance R s n d \<Longrightarrow> at_distance R s n d' \<Longrightarrow> d = d'"
  by (metis at_distance_def nat_neq_iff)

lemma at_distance_0 [simp]: "at_distance R s n 0 \<longleftrightarrow> n = s"
  by (auto simp: at_distance_def)

lemma reached_at_distance:
  assumes "(s, n) \<in> R ^^ k"
  shows "\<exists>d \<le> k. at_distance R s n d"
proof (intro exI conjI)
  let ?d = "LEAST d. (s, n) \<in> R ^^ d"
  show "?d \<le> k" using assms by (rule Least_le[of "\<lambda>d. (s, n) \<in> R ^^ d"])
  show "at_distance R s n ?d"
    using LeastI[of "\<lambda>d. (s, n) \<in> R ^^ d", OF assms] not_less_Least[of _ "\<lambda>d. (s, n) \<in> R ^^ d"] by (auto simp: at_distance_def)
qed

text \<open>A node comes next exactly when it is new and has a neighbour at the distance before.\<close>

lemma at_distance_Suc:
  "at_distance R s n (Suc d) \<longleftrightarrow> (\<exists>m. at_distance R s m d \<and> (m, n) \<in> R) \<and> (\<forall>k \<le> d. \<not> at_distance R s n k)"
proof
  assume a: "at_distance R s n (Suc d)"
  then obtain m where m: "(s, m) \<in> R ^^ d" "(m, n) \<in> R" by (auto simp: at_distance_def)
  have "(s, m) \<notin> R ^^ k" if "k < d" for k
  proof
    assume "(s, m) \<in> R ^^ k"
    with m(2) have "(s, n) \<in> R ^^ Suc k" by auto
    moreover have "Suc k < Suc d" using that by simp
    ultimately show False using a unfolding at_distance_def by blast
  qed
  with m have "at_distance R s m d" by (simp add: at_distance_def)
  moreover have "\<forall>k \<le> d. \<not> at_distance R s n k" using a by (auto simp: at_distance_def)
  ultimately show "(\<exists>m. at_distance R s m d \<and> (m, n) \<in> R) \<and> (\<forall>k \<le> d. \<not> at_distance R s n k)" using m(2) by blast
next
  assume a: "(\<exists>m. at_distance R s m d \<and> (m, n) \<in> R) \<and> (\<forall>k \<le> d. \<not> at_distance R s n k)"
  then have "(s, n) \<in> R ^^ Suc d" by (auto simp: at_distance_def)
  moreover have "(s, n) \<notin> R ^^ k" if "k < Suc d" for k
    using a reached_at_distance[of s n k R] that by (meson le_trans less_Suc_eq_le)
  ultimately show "at_distance R s n (Suc d)" by (simp add: at_distance_def)
qed

section \<open>One round of the query\<close>

lemma visit_spec:
  assumes "visit d n (depths, nxt) = (depths', nxt')"
  shows "set depths' = set depths \<union> (if n \<in> fst ` set depths then {} else {(n, d)})"
    "set nxt' = set nxt \<union> (if n \<in> fst ` set depths then {} else {n})"
    "distinct (map fst depths) \<Longrightarrow> distinct (map fst depths')"
  using assms by (auto simp: visit_def split: if_splits)

lemma two_steps:
  "(if a \<in> D then {} else {f a}) \<union> (if b \<in> insert a D then {} else {f b}) = f ` ({a, b} - D)"
  "f ` (F - D) \<union> f ` (E - (D \<union> F)) = f ` (F \<union> E - D)"
  "(F - D) \<union> (E - (D \<union> F)) = F \<union> E - D"
  by auto

lemma visit_edge_spec:
  assumes "visit_edge d e (depths, nxt) = (depths', nxt')"
  shows "set depths' = set depths \<union> (\<lambda>n. (n, d)) ` ({edge_source e, edge_target e} - fst ` set depths)"
    "set nxt' = set nxt \<union> ({edge_source e, edge_target e} - fst ` set depths)"
    "fst ` set depths' = fst ` set depths \<union> {edge_source e, edge_target e}"
    "distinct (map fst depths) \<Longrightarrow> distinct (map fst depths')"
proof -
  obtain d1 n1 where 1: "visit d (edge_source e) (depths, nxt) = (d1, n1)" by fastforce
  with assms have 2: "visit d (edge_target e) (d1, n1) = (depths', nxt')" by (simp add: visit_edge_def)
  note s1 = visit_spec[OF 1] and s2 = visit_spec[OF 2]
  have f: "fst ` set d1 = insert (edge_source e) (fst ` set depths)"
    unfolding s1(1) by (simp add: image_Un insert_absorb)
  show "set depths' = set depths \<union> (\<lambda>n. (n, d)) ` ({edge_source e, edge_target e} - fst ` set depths)"
    by (simp only: s2(1) f) (simp only: s1(1) Un_assoc two_steps(1)[where f = "\<lambda>n. (n, d)"])
  show "set nxt' = set nxt \<union> ({edge_source e, edge_target e} - fst ` set depths)"
    by (simp only: s2(2) f) (simp only: s1(2) Un_assoc two_steps(1)[where f = "\<lambda>n. n"] image_ident)
  show "fst ` set depths' = fst ` set depths \<union> {edge_source e, edge_target e}"
    unfolding s2(1) image_Un f by (simp add: insert_commute insert_absorb)
  show "distinct (map fst depths) \<Longrightarrow> distinct (map fst depths')" using s1(3) s2(3) by simp
qed

text \<open>A round adds, at its depth, the ends of its edges that have no depth yet.\<close>

lemma visit_round:
  assumes "fold (visit_edge d) es (depths, nxt) = (depths', nxt')" and "distinct (map fst depths)"
  shows "set depths' = set depths \<union> (\<lambda>n. (n, d)) ` (edge_source ` set es \<union> edge_target ` set es - fst ` set depths) \<and>
    set nxt' = set nxt \<union> (edge_source ` set es \<union> edge_target ` set es - fst ` set depths) \<and> distinct (map fst depths')"
  using assms
proof (induction es arbitrary: depths nxt)
  case (Cons e es)
  obtain d2 n2 where 2: "visit_edge d e (depths, nxt) = (d2, n2)" by fastforce
  note s = visit_edge_spec[OF 2]
  have r: "fold (visit_edge d) es (d2, n2) = (depths', nxt')" using Cons.prems(1) 2 by simp
  let ?E = "edge_source ` set es \<union> edge_target ` set es" and ?F = "{edge_source e, edge_target e}"
  have e: "edge_source ` set (e # es) \<union> edge_target ` set (e # es) = ?F \<union> ?E" by auto
  note ih = Cons.IH[OF r s(4)[OF Cons.prems(2)], unfolded s(3)]
  have "set depths' = (set depths \<union> (\<lambda>n. (n, d)) ` (?F - fst ` set depths)) \<union> (\<lambda>n. (n, d)) ` (?E - (fst ` set depths \<union> ?F))"
    using ih by (simp only: s(1))
  moreover have "set nxt' = (set nxt \<union> (?F - fst ` set depths)) \<union> (?E - (fst ` set depths \<union> ?F))"
    using ih by (simp only: s(2))
  ultimately show ?case
    using ih unfolding e by (simp only: Un_assoc[of "set depths"] Un_assoc[of "set nxt"] two_steps(2,3))
qed simp

section \<open>The whole query\<close>

lemma touched_ends_near:
  "touches dir frontier e \<Longrightarrow> e \<in> set rows \<Longrightarrow>
     edge_source e \<in> set frontier \<union> linked dir rows `` set frontier \<and> edge_target e \<in> set frontier \<union> linked dir rows `` set frontier"
  unfolding touches_def linked_def by blast

lemma linked_touched:
  "v \<in> linked dir rows `` set frontier \<Longrightarrow> \<exists>e \<in> set rows. touches dir frontier e \<and> (v = edge_source e \<or> v = edge_target e)"
  unfolding touches_def linked_def by blast

text \<open>What holds after the rounds up to a depth: the depths are the distances, the frontier is the last of them.\<close>

definition query_inv :: "direction \<Rightarrow> graph_edge list \<Rightarrow> node \<Rightarrow> nat \<Rightarrow> graph_edge list \<Rightarrow> (node \<times> nat) list \<Rightarrow> node list \<Rightarrow> bool" where
  "query_inv dir rows s d kept depths frontier \<longleftrightarrow>
     set depths = {(n, k). k \<le> d \<and> at_distance (linked dir rows) s n k} \<and> distinct (map fst depths) \<and>
     set frontier = {n. at_distance (linked dir rows) s n d} \<and> distinct kept \<and>
     set kept = {e \<in> set rows. \<exists>k < d. \<exists>n. at_distance (linked dir rows) s n k \<and> touches dir [n] e}"

lemma query_inv_start: "query_inv dir rows s 0 [] [(s, 0)] [s]"
  by (auto simp: query_inv_def)

lemma touches_frontier: "touches dir frontier e \<longleftrightarrow> (\<exists>n \<in> set frontier. touches dir [n] e)"
  by (auto simp: touches_def)

lemma keep_edge_set: "unique_key edge_id rows \<Longrightarrow> set kept \<subseteq> set rows \<Longrightarrow> set es \<subseteq> set rows \<Longrightarrow>
    set (fold keep_edge es kept) = set kept \<union> set es \<and> (distinct kept \<longrightarrow> distinct (fold keep_edge es kept))"
proof (induction es arbitrary: kept)
  case (Cons e es)
  have "edge_id e \<in> edge_id ` set kept \<longleftrightarrow> e \<in> set kept"
  proof
    assume "edge_id e \<in> edge_id ` set kept"
    then obtain x where x: "x \<in> set kept" "edge_id x = edge_id e" by auto
    moreover have "x \<in> set rows" "e \<in> set rows" using x(1) Cons.prems by auto
    ultimately have "x = e" using unique_key_eq[OF Cons.prems(1)] by blast
    with x show "e \<in> set kept" by simp
  qed simp
  then have "set (keep_edge e kept) = set kept \<union> {e}" "distinct kept \<longrightarrow> distinct (keep_edge e kept)" by (auto simp: keep_edge_def)
  with Cons.IH[of "keep_edge e kept"] Cons.prems show ?case by simp
qed simp

lemma query_inv_round:
  assumes inv: "query_inv dir rows s d kept depths frontier" and u: "unique_key edge_id rows"
    and f: "fold (visit_edge (Suc d)) (filter (touches dir frontier) rows) (depths, []) = (depths', frontier')"
  shows "query_inv dir rows s (Suc d) (fold keep_edge (filter (touches dir frontier) rows) kept) depths' frontier'"
proof -
  let ?R = "linked dir rows" and ?T = "{e \<in> set rows. touches dir frontier e}"
  let ?ends = "edge_source ` ?T \<union> edge_target ` ?T"
  from inv have dep: "set depths = {(n, k). k \<le> d \<and> at_distance ?R s n k}" and fr: "set frontier = {n. at_distance ?R s n d}"
    and kept: "set kept = {e \<in> set rows. \<exists>k < d. \<exists>n. at_distance ?R s n k \<and> touches dir [n] e}"
    and dist: "distinct (map fst depths)" "distinct kept" by (auto simp: query_inv_def)
  have known: "fst ` set depths = {n. \<exists>k \<le> d. at_distance ?R s n k}" by (force simp: dep)
  have new: "?ends - fst ` set depths = {n. at_distance ?R s n (Suc d)}"
  proof -
    have "?ends - fst ` set depths = ?R `` set frontier - fst ` set depths"
    proof (intro equalityI subsetI)
      fix v assume v: "v \<in> ?ends - fst ` set depths"
      then have "v \<in> set frontier \<union> ?R `` set frontier" using touched_ends_near[of dir frontier _ rows] by blast
      moreover have "v \<notin> set frontier" using v fr known by blast
      ultimately show "v \<in> ?R `` set frontier - fst ` set depths" using v by blast
    next
      fix v assume v: "v \<in> ?R `` set frontier - fst ` set depths"
      then show "v \<in> ?ends - fst ` set depths" using linked_touched[of v dir rows frontier] by blast
    qed
    also have "\<dots> = {n. at_distance ?R s n (Suc d)}"
      unfolding known fr at_distance_Suc by blast
    finally show ?thesis .
  qed
  from visit_round[OF f dist(1)] have r: "set depths' = set depths \<union> (\<lambda>n. (n, Suc d)) ` {n. at_distance ?R s n (Suc d)}"
    "set frontier' = {n. at_distance ?R s n (Suc d)}" "distinct (map fst depths')"
    by (simp_all add: new)
  have "set depths' = {(n, k). k \<le> Suc d \<and> at_distance ?R s n k}"
    unfolding r(1) dep by (auto simp: le_Suc_eq)
  moreover have "set (fold keep_edge (filter (touches dir frontier) rows) kept) = set kept \<union> ?T"
      "distinct (fold keep_edge (filter (touches dir frontier) rows) kept)"
    using keep_edge_set[OF u, of kept "filter (touches dir frontier) rows"] kept dist(2) by auto
  moreover have "set kept \<union> ?T = {e \<in> set rows. \<exists>k < Suc d. \<exists>n. at_distance ?R s n k \<and> touches dir [n] e}"
    unfolding kept touches_frontier[of dir frontier] fr by (auto simp: less_Suc_eq)
  ultimately show ?thesis using r by (simp add: query_inv_def)
qed

text \<open>With room for twice the edges no statement is cut short.\<close>

lemma query_loop_inv:
  assumes inv: "query_inv dir rows s d kept depths frontier" and u: "unique_key edge_id rows"
    and room: "2 * length rows \<le> max_edges" "0 < max_edges"
    and q: "query_loop dir rows max_edges n (Suc d) kept depths frontier = (kept', depths', truncated)"
  shows "\<not> truncated \<and> (\<exists>m f. m \<le> d + n \<and> query_inv dir rows s m kept' depths' f \<and> (m = d + n \<or> f = []))"
  using inv q
proof (induction n arbitrary: d kept depths frontier)
  case 0
  then show ?case by auto
next
  case (Suc n)
  have "set kept \<subseteq> set rows" "distinct kept" using Suc.prems(1) by (auto simp: query_inv_def)
  then have len: "length kept \<le> length rows" by (metis card_length card_mono distinct_card finite_set le_trans)
  have kept: "length kept < max_edges \<or> rows = []"
    using len room by (cases rows) auto
  show ?case
  proof (cases "frontier = [] \<or> length kept \<ge> max_edges")
    case True
    moreover have "\<not> length kept \<ge> max_edges" using len room by linarith
    ultimately show ?thesis using Suc.prems by (intro conjI exI[of _ d] exI[of _ frontier]) auto
  next
    case False
    let ?found = "filter (touches dir frontier) rows"
    have "length ?found \<le> max_edges - length kept" using len room length_filter_le[of "touches dir frontier" rows] by linarith
    then have found: "take (max_edges - length kept) ?found = ?found" by simp
    obtain depths1 frontier1 where f: "fold (visit_edge (Suc d)) ?found (depths, []) = (depths1, frontier1)" by fastforce
    from Suc.IH[OF query_inv_round[OF Suc.prems(1) u f]] Suc.prems(2) False found f show ?thesis by (auto simp: Let_def)
  qed
qed

text \<open>Beyond an empty frontier nothing is reached.\<close>

lemma empty_frontier:
  assumes "query_inv dir rows s m kept depths []" and "m \<le> k"
  shows "\<not> at_distance (linked dir rows) s n k"
  using assms(2)
proof (induction k arbitrary: n rule: dec_induct)
  case base
  from assms(1) have "{n. at_distance (linked dir rows) s n m} = {}" by (simp add: query_inv_def)
  then show ?case by blast
next
  case (step k)
  then show ?case unfolding at_distance_Suc by blast
qed

section \<open>Properties\<close>

text \<open>
  C32: when the limit leaves room for twice the edges of the tenant, the query of a neighbourhood is exact: it lists
  every node within the depth, once, with its distance from the start in the direction asked for, and exactly the edges
  that touch a node nearer than the depth, and it reports no truncation.
\<close>

theorem query_graph_exact:
  assumes "unique_key edge_id (db_edges db)" and "2 * length (tenant_edges db tenant_id rels) \<le> max_edges" and "0 < max_edges"
    and "min max_depth (cfg_graph_max_depth (env_settings env)) = int depth"
  shows "\<not> ga_truncated (query_graph env db tenant_id s max_depth dir rels max_edges) \<and>
    distinct (map fst (ga_nodes (query_graph env db tenant_id s max_depth dir rels max_edges))) \<and>
    set (ga_nodes (query_graph env db tenant_id s max_depth dir rels max_edges)) =
      {(n, k). k \<le> depth \<and> at_distance (linked dir (tenant_edges db tenant_id rels)) s n k} \<and>
    set (ga_edges (query_graph env db tenant_id s max_depth dir rels max_edges)) =
      {e \<in> set (tenant_edges db tenant_id rels). \<exists>k < depth. \<exists>n. at_distance (linked dir (tenant_edges db tenant_id rels)) s n k \<and>
         touches dir [n] e}"
proof -
  let ?rows = "tenant_edges db tenant_id rels"
  have u: "unique_key edge_id ?rows"
    using assms(1) by (auto simp: tenant_edges_def where_rows_def unique_key_def distinct_map intro: inj_on_subset)
  obtain kept depths truncated where q: "query_loop dir ?rows max_edges depth (Suc 0) [] [(s, 0)] [s] = (kept, depths, truncated)"
    by (metis prod_cases3)
  from query_loop_inv[OF query_inv_start u assms(2,3) q] obtain m f where
    t: "\<not> truncated" and m: "m \<le> depth" "query_inv dir ?rows s m kept depths f" "m = depth \<or> f = []" by fastforce
  have far: "m = depth \<or> (\<forall>n k. m \<le> k \<longrightarrow> \<not> at_distance (linked dir ?rows) s n k)"
    using empty_frontier[of dir ?rows s m kept depths] m(2,3) by blast
  have "set depths = {(n, k). k \<le> m \<and> at_distance (linked dir ?rows) s n k}" using m(2) by (simp add: query_inv_def)
  also have "\<dots> = {(n, k). k \<le> depth \<and> at_distance (linked dir ?rows) s n k}"
    using far m(1) by (intro Collect_cong) (metis (mono_tags, lifting) case_prod_beta le_trans nat_le_linear)
  finally have "set depths = {(n, k). k \<le> depth \<and> at_distance (linked dir ?rows) s n k}" .
  moreover have "set kept = {e \<in> set ?rows. \<exists>k < depth. \<exists>n. at_distance (linked dir ?rows) s n k \<and> touches dir [n] e}"
  proof -
    have "set kept = {e \<in> set ?rows. \<exists>k < m. \<exists>n. at_distance (linked dir ?rows) s n k \<and> touches dir [n] e}"
      using m(2) by (simp add: query_inv_def)
    also have "\<dots> = {e \<in> set ?rows. \<exists>k < depth. \<exists>n. at_distance (linked dir ?rows) s n k \<and> touches dir [n] e}"
      using far m(1) by (intro Collect_cong) (meson less_le_trans not_le)
    finally show ?thesis .
  qed
  moreover have "distinct (map fst depths)" using m(2) by (simp add: query_inv_def)
  moreover have "distinct (map fst (sort_key (\<lambda>(n, d). (d, n)) depths)) = distinct (map fst depths)"
    by (metis distinct_map mset_map mset_sort set_sort distinct_sort)
  ultimately show ?thesis
    using q t by (simp add: query_graph_def assms(4))
qed


section \<open>The paths that are found\<close>

text \<open>The nodes of a path that starts at a node, and the paths that follow edges in a direction without meeting a node again.\<close>

fun walk :: "node \<Rightarrow> graph_edge list \<Rightarrow> node list" where
  "walk n [] = [n]"
| "walk n (e # es) = n # walk (other_end n e) es"

fun follows :: "direction \<Rightarrow> graph_edge list \<Rightarrow> node \<Rightarrow> graph_edge list \<Rightarrow> bool" where
  "follows dir rows n [] = True"
| "follows dir rows n (e # es) = (e \<in> set rows \<and> touches dir [n] e \<and> follows dir rows (other_end n e) es)"

definition simple_path :: "direction \<Rightarrow> graph_edge list \<Rightarrow> node \<Rightarrow> node \<Rightarrow> graph_edge list \<Rightarrow> bool" where
  "simple_path dir rows s t p = (p \<noteq> [] \<and> follows dir rows s p \<and> distinct (walk s p) \<and> last (walk s p) = t)"

text \<open>The ends of an open path that reach the target through new nodes only.\<close>

fun leads :: "direction \<Rightarrow> graph_edge list \<Rightarrow> node \<Rightarrow> node \<Rightarrow> node set \<Rightarrow> graph_edge list \<Rightarrow> bool" where
  "leads dir rows t n V [] = (n = t)"
| "leads dir rows t n V (e # es) =
     (e \<in> set rows \<and> touches dir [n] e \<and> other_end n e \<notin> V \<and> leads dir rows t (other_end n e) (insert (other_end n e) V) es)"

lemma walk_not_Nil [simp]: "walk n p \<noteq> []" "n \<in> set (walk n p)"
  by (cases p; simp)+

lemma leads_iff:
  "leads dir rows t n V p \<longleftrightarrow> follows dir rows n p \<and> distinct (tl (walk n p)) \<and> set (tl (walk n p)) \<inter> V = {} \<and> last (walk n p) = t"
proof (induction p arbitrary: n V)
  case (Cons e es)
  obtain m ms where w: "walk (other_end n e) es = m # ms" "m = other_end n e" by (cases es) auto
  show ?case unfolding leads.simps Cons.IH by (auto simp: w)
qed simp

lemma leads_simple: "p \<noteq> [] \<and> leads dir rows t s {s} p \<longleftrightarrow> simple_path dir rows s t p"
proof -
  obtain ms where w: "walk s p = s # ms" by (cases p) auto
  show ?thesis unfolding leads_iff simple_path_def w by auto
qed

lemma leads_end: "t \<in> V \<Longrightarrow> leads dir rows t n V p \<Longrightarrow> p = []"
proof (induction p arbitrary: n V)
  case (Cons e es)
  from Cons.prems Cons.IH[of "insert (other_end n e) V" "other_end n e"] have "es = []" by simp
  with Cons.prems show ?case by auto
qed simp

definition completions :: "direction \<Rightarrow> graph_edge list \<Rightarrow> node \<Rightarrow> nat \<Rightarrow> open_path \<Rightarrow> graph_edge list set" where
  "completions dir rows t depth x = (case x of (n, path, visited) \<Rightarrow>
     {path @ q | q. q \<noteq> [] \<and> length path + length q \<le> depth \<and> leads dir rows t n (set visited) q})"

definition through :: "direction \<Rightarrow> graph_edge list \<Rightarrow> node \<Rightarrow> nat \<Rightarrow> open_path \<Rightarrow> graph_edge list \<Rightarrow> graph_edge list set" where
  "through dir rows t depth x es = (case x of (n, path, visited) \<Rightarrow>
     {path @ e # q | e q. e \<in> set es \<and> length path + Suc (length q) \<le> depth \<and> leads dir rows t n (set visited) (e # q)})"

definition answers :: "direction \<Rightarrow> graph_edge list \<Rightarrow> node \<Rightarrow> nat \<Rightarrow> graph_edge list list \<Rightarrow> open_path list \<Rightarrow> graph_edge list set" where
  "answers dir rows t depth paths queue = set paths \<union> \<Union> (completions dir rows t depth ` set queue)"

lemma through_Cons:
  "through dir rows t depth x (e # es) = through dir rows t depth x [e] \<union> through dir rows t depth x es"
  by (auto simp: through_def split: prod.splits)

lemma through_one:
  assumes "e \<in> set rows" and "touches dir [n] e" and "length path < depth"
  shows "through dir rows t depth (n, path, visited) [e] =
    (if other_end n e \<in> set visited then {}
     else if other_end n e = t then {path @ [e]}
     else completions dir rows t depth (other_end n e, path @ [e], visited @ [other_end n e]))"
proof -
  have "q = []" if "leads dir rows t t (insert t (set visited)) q" for q
    using that leads_end[of t "insert t (set visited)"] by blast
  moreover have "q \<noteq> []" if "leads dir rows t (other_end n e) V q" "other_end n e \<noteq> t" for q V
    using that by (cases q) auto
  ultimately show ?thesis
    using assms by (auto simp: through_def completions_def)
qed

lemma follow_edges_answers:
  assumes "set es \<subseteq> {e \<in> set rows. touches dir [n] e}" and "length path < depth"
    and "follow_edges t k (n, path, visited) es paths queue = (paths', queue')"
  shows "length paths \<le> length paths' \<and>
    answers dir rows t depth paths' queue' \<subseteq> answers dir rows t depth paths queue \<union> through dir rows t depth (n, path, visited) es \<and>
    (length paths' < k \<longrightarrow>
      answers dir rows t depth paths' queue' = answers dir rows t depth paths queue \<union> through dir rows t depth (n, path, visited) es)"
  using assms(1,3)
proof (induction es arbitrary: paths queue)
  case Nil
  then show ?case by (simp add: through_def)
next
  case (Cons e es)
  let ?m = "other_end n e"
  have e: "e \<in> set rows" "touches dir [n] e" and es: "set es \<subseteq> {e \<in> set rows. touches dir [n] e}" using Cons.prems(1) by auto
  note one = through_one[OF e assms(2), of t visited]
  show ?case
  proof (cases "?m \<in> set visited")
    case True
    with Cons.IH[OF es, of paths queue] Cons.prems(2) one show ?thesis by (simp add: Let_def through_Cons[of _ _ _ _ _ e es])
  next
    case new: False
    show ?thesis
    proof (cases "?m = t")
      case True
      have a: "answers dir rows t depth (paths @ [path @ [e]]) queue = answers dir rows t depth paths queue \<union> {path @ [e]}"
        by (auto simp: answers_def)
      show ?thesis
      proof (cases "length (paths @ [path @ [e]]) \<ge> k")
        case stop: True
        with new True Cons.prems(2) have "paths' = paths @ [path @ [e]]" "queue' = queue" by (auto simp: Let_def)
        with stop a one new True show ?thesis by (auto simp: through_Cons[of _ _ _ _ _ e es])
      next
        case False
        with new True Cons.prems(2) have "follow_edges t k (n, path, visited) es (paths @ [path @ [e]]) queue = (paths', queue')"
          by (simp add: Let_def)
        from Cons.IH[OF es this] one new True a show ?thesis by (simp add: through_Cons[of _ _ _ _ _ e es] Un_assoc)
      qed
    next
      case False
      let ?x = "(?m, path @ [e], visited @ [?m])"
      have a: "answers dir rows t depth paths (queue @ [?x]) = answers dir rows t depth paths queue \<union> completions dir rows t depth ?x"
        by (auto simp: answers_def)
      from new False Cons.prems(2) have "follow_edges t k (n, path, visited) es paths (queue @ [?x]) = (paths', queue')"
        by (simp add: Let_def)
      from Cons.IH[OF es this] one new False a show ?thesis by (simp add: through_Cons[of _ _ _ _ _ e es] Un_assoc)
    qed
  qed
qed

lemma completions_through:
  "completions dir rows t depth x = through dir rows t depth x (filter (touches dir [fst x]) rows)"
proof (rule set_eqI)
  fix p
  obtain n path visited where x: "x = (n, path, visited)" by (metis prod_cases3)
  show "p \<in> completions dir rows t depth x \<longleftrightarrow> p \<in> through dir rows t depth x (filter (touches dir [fst x]) rows)"
    unfolding x completions_def through_def by (auto simp: neq_Nil_conv)
qed

lemma through_mono: "set es \<subseteq> set es' \<Longrightarrow> through dir rows t depth x es \<subseteq> through dir rows t depth x es'"
  by (auto simp: through_def split: prod.splits)

lemma edges_of_set:
  "set (edges_of dir rows n) \<subseteq> {e \<in> set rows. touches dir [n] e}"
  "length (filter (touches dir [n]) rows) \<le> 1000 \<Longrightarrow> set (edges_of dir rows n) = {e \<in> set rows. touches dir [n] e}"
proof -
  show "set (edges_of dir rows n) \<subseteq> {e \<in> set rows. touches dir [n] e}"
    by (auto simp: edges_of_def order_by_def dest: in_set_takeD)
  assume "length (filter (touches dir [n]) rows) \<le> 1000"
  moreover have "length (filter (touches dir [n]) (order_by edge_id rows)) = length (filter (touches dir [n]) rows)"
    by (simp add: order_by_def filter_sort)
  ultimately show "set (edges_of dir rows n) = {e \<in> set rows. touches dir [n] e}"
    by (simp add: edges_of_def order_by_def)
qed

lemma path_loop_answers:
  "length paths \<le> length (path_loop dir rows t k depth queue paths) \<and>
   set (path_loop dir rows t k depth queue paths) \<subseteq> answers dir rows t depth paths queue \<and>
   ((\<forall>n. length (filter (touches dir [n]) rows) \<le> 1000) \<and> length (path_loop dir rows t k depth queue paths) < k \<longrightarrow>
     set (path_loop dir rows t k depth queue paths) = answers dir rows t depth paths queue)"
proof (induction dir rows t k depth queue paths rule: path_loop.induct)
  case (1 dir rows t k depth paths)
  then show ?case by (simp add: answers_def)
next
  case (2 dir rows t k depth n path visited queue paths)
  let ?x = "(n, path, visited)"
  have all: "answers dir rows t depth paths (?x # queue) = answers dir rows t depth paths queue \<union> completions dir rows t depth ?x"
    by (auto simp: answers_def)
  consider "length paths \<ge> k" | "length paths < k" "length path \<ge> depth" | "length paths < k" "length path < depth" by linarith
  then show ?case
  proof cases
    case 1
    then show ?thesis by (simp add: answers_def)
  next
    case 2
    have "q = []" if "length path + length q \<le> depth" for q :: "graph_edge list"
      using that 2 by (cases q) auto
    then have "completions dir rows t depth ?x = {}" by (auto simp: completions_def)
    with 2 "2.IH"(1) show ?thesis by (simp add: all)
  next
    case 3
    obtain paths' queue' where f: "follow_edges t k ?x (edges_of dir rows n) paths queue = (paths', queue')" by fastforce
    note fa = follow_edges_answers[OF edges_of_set(1) 3(2) f]
    have le: "through dir rows t depth ?x (edges_of dir rows n) \<subseteq> completions dir rows t depth ?x"
      unfolding completions_through by (rule through_mono) (use edges_of_set(1)[of dir rows n] in auto)
    have eq: "through dir rows t depth ?x (edges_of dir rows n) = completions dir rows t depth ?x"
      if "\<forall>n. length (filter (touches dir [n]) rows) \<le> 1000"
      unfolding completions_through
      by (intro equalityI through_mono) (use edges_of_set(2)[of dir n rows] that in auto)
    have r: "path_loop dir rows t k depth (?x # queue) paths = path_loop dir rows t k depth queue' paths'" using 3 f by simp
    have ih: "length paths' \<le> length (path_loop dir rows t k depth queue' paths') \<and>
      set (path_loop dir rows t k depth queue' paths') \<subseteq> answers dir rows t depth paths' queue' \<and>
      ((\<forall>n. length (filter (touches dir [n]) rows) \<le> 1000) \<and> length (path_loop dir rows t k depth queue' paths') < k \<longrightarrow>
        set (path_loop dir rows t k depth queue' paths') = answers dir rows t depth paths' queue')"
      using "2.IH"(2)[OF _ _ f[symmetric]] 3 by simp
    show ?thesis unfolding r all
    proof (intro conjI impI)
      show "length paths \<le> length (path_loop dir rows t k depth queue' paths')" using ih fa by (meson le_trans)
      show "set (path_loop dir rows t k depth queue' paths') \<subseteq> answers dir rows t depth paths queue \<union> completions dir rows t depth ?x"
        using ih fa le by blast
      assume a: "(\<forall>n. length (filter (touches dir [n]) rows) \<le> 1000) \<and> length (path_loop dir rows t k depth queue' paths') < k"
      then have "length paths' < k" using ih by (meson le_less_trans)
      with a ih fa eq
      show "set (path_loop dir rows t k depth queue' paths') = answers dir rows t depth paths queue \<union> completions dir rows t depth ?x"
        by blast
    qed
  qed
qed

lemma path_response_edges [simp]: "map ps_edge (path_response n p) = p"
  by (induction p arbitrary: n) (simp_all add: Let_def)

text \<open>What an explanation is: a simple path in the edges of the tenant, no longer than the depth.\<close>

definition explains :: "env \<Rightarrow> db \<Rightarrow> string \<Rightarrow> node \<Rightarrow> node \<Rightarrow> int \<Rightarrow> direction \<Rightarrow> graph_edge list \<Rightarrow> bool" where
  "explains env db tenant_id s t max_depth dir p =
     (simple_path dir (tenant_edges db tenant_id []) s t p \<and>
      int (length p) \<le> max 0 (min max_depth (cfg_graph_max_depth (env_settings env))))"

text \<open>
  C33: an explanation is a path: it follows edges of the tenant in the direction asked for from the source to the target,
  meets no node twice and is no longer than the depth; and when no node has more than a thousand such edges and the
  answer is not marked truncated, every path of that kind is listed.
\<close>

theorem explained_paths_exact:
  "(\<forall>x \<in> set (pa_paths (explain_paths env db tenant_id s t max_depth dir k)).
      explains env db tenant_id s t max_depth dir (map ps_edge x)) \<and>
   ((\<forall>n. length (filter (touches dir [n]) (tenant_edges db tenant_id [])) \<le> 1000) \<and>
      \<not> pa_truncated (explain_paths env db tenant_id s t max_depth dir k) \<longrightarrow>
    (\<lambda>x. map ps_edge x) ` set (pa_paths (explain_paths env db tenant_id s t max_depth dir k)) =
      {p. explains env db tenant_id s t max_depth dir p})"
proof -
  let ?rows = "tenant_edges db tenant_id []" and ?d = "nat (min max_depth (cfg_graph_max_depth (env_settings env)))"
  let ?paths = "path_loop dir ?rows t k ?d [(s, [], [s])] []"
  have "answers dir ?rows t ?d [] [(s, [], [s])] = {p. p \<noteq> [] \<and> length p \<le> ?d \<and> leads dir ?rows t s {s} p}"
    by (auto simp: answers_def completions_def)
  also have "\<dots> = {p. explains env db tenant_id s t max_depth dir p}"
    using leads_simple[of _ dir ?rows t s] unfolding explains_def by (intro Collect_cong) (smt (verit) le_nat_iff nat_int nat_le_iff of_nat_0_le_iff int_nat_eq)
  finally have a: "answers dir ?rows t ?d [] [(s, [], [s])] = {p. explains env db tenant_id s t max_depth dir p}" .
  have r: "(\<lambda>x. map ps_edge x) ` set (pa_paths (explain_paths env db tenant_id s t max_depth dir k)) = set ?paths"
    "pa_truncated (explain_paths env db tenant_id s t max_depth dir k) = (length ?paths \<ge> k)"
    by (simp_all add: explain_paths_def Let_def image_image)
  from path_loop_answers[of "[]" dir ?rows t k ?d "[(s, [], [s])]"] show ?thesis
    unfolding a r(2) r(1)[symmetric] by (auto simp: not_le)
qed

section \<open>A small graph\<close>

definition link :: "nat \<Rightarrow> string \<Rightarrow> string \<Rightarrow> graph_edge" where
  "link i a b = \<lparr>edge_id = i, edge_tenant_id = ''default'', edge_source_type = ''dataset'', edge_source_id = a,
     edge_relationship = ''feeds'', edge_target_type = ''dataset'', edge_target_id = b, edge_metadata_json = JObj [],
     edge_created_at = 0\<rparr>"

text \<open>Two ways from \<open>a\<close> to \<open>d\<close>, and an edge back.\<close>

definition diamond :: db where
  "diamond = empty_db\<lparr>db_edges := [link 1 ''a'' ''b'', link 2 ''a'' ''c'', link 3 ''b'' ''d'', link 4 ''c'' ''d'', link 5 ''d'' ''a'']\<rparr>"

lemma diamond_edges: "tenant_edges diamond ''default'' [] = db_edges diamond"
  by code_simp

lemma diamond_keys: "unique_key edge_id (db_edges diamond)"
  by (simp add: unique_key_def diamond_def link_def)

lemma diamond_depth: "min 3 (cfg_graph_max_depth (env_settings base_env)) = int 3"
  by code_simp

theorem query_graph_exact_witness:
  "\<not> ga_truncated (query_graph base_env diamond ''default'' (''dataset'', ''a'') 3 Outbound [] 5000) \<and>
   map snd (ga_nodes (query_graph base_env diamond ''default'' (''dataset'', ''a'') 3 Outbound [] 5000)) = [0, 1, 1, 2] \<and>
   set (ga_nodes (query_graph base_env diamond ''default'' (''dataset'', ''a'') 3 Outbound [] 5000)) =
     {(n, k). k \<le> 3 \<and> at_distance (linked Outbound (tenant_edges diamond ''default'' [])) (''dataset'', ''a'') n k}"
proof (intro conjI)
  have "2 * length (tenant_edges diamond ''default'' []) \<le> 5000" unfolding diamond_edges by (simp add: diamond_def)
  note q = query_graph_exact[OF diamond_keys this _ diamond_depth, of "(''dataset'', ''a'')" Outbound, simplified]
  show "\<not> ga_truncated (query_graph base_env diamond ''default'' (''dataset'', ''a'') 3 Outbound [] 5000)" using q by blast
  show "set (ga_nodes (query_graph base_env diamond ''default'' (''dataset'', ''a'') 3 Outbound [] 5000)) =
     {(n, k). k \<le> 3 \<and> at_distance (linked Outbound (tenant_edges diamond ''default'' [])) (''dataset'', ''a'') n k}"
    using q by blast
qed code_simp

lemma diamond_narrow: "length (filter (touches dir [n]) (tenant_edges diamond ''default'' [])) \<le> 1000"
proof -
  have "length (filter (touches dir [n]) (db_edges diamond)) \<le> length (db_edges diamond)" by (rule length_filter_le)
  also have "\<dots> \<le> 1000" by (simp add: diamond_def)
  finally show ?thesis unfolding diamond_edges .
qed

theorem explained_paths_exact_witness:
  "map (map (edge_id \<circ> ps_edge)) (pa_paths (explain_paths base_env diamond ''default'' (''dataset'', ''a'') (''dataset'', ''d'') 3 Outbound 10)) =
     [[1, 3], [2, 4]] \<and>
   (\<lambda>x. map ps_edge x) ` set (pa_paths (explain_paths base_env diamond ''default'' (''dataset'', ''a'') (''dataset'', ''d'') 3 Outbound 10)) =
     {p. explains base_env diamond ''default'' (''dataset'', ''a'') (''dataset'', ''d'') 3 Outbound p}"
proof
  have "\<not> pa_truncated (explain_paths base_env diamond ''default'' (''dataset'', ''a'') (''dataset'', ''d'') 3 Outbound 10)" by code_simp
  with explained_paths_exact[of base_env diamond "''default''" "(''dataset'', ''a'')" "(''dataset'', ''d'')" 3 Outbound 10] diamond_narrow
  show "(\<lambda>x. map ps_edge x) ` set (pa_paths (explain_paths base_env diamond ''default'' (''dataset'', ''a'') (''dataset'', ''d'') 3 Outbound 10)) =
     {p. explains base_env diamond ''default'' (''dataset'', ''a'') (''dataset'', ''d'') 3 Outbound p}" by blast
qed code_simp

section \<open>The limit of a query\<close>

lemma keep_edge_length:
  assumes "unique_key edge_id rows" and "set es \<subseteq> set rows" and "distinct es"
  shows "length (fold keep_edge es []) = length es"
proof -
  have "set (fold keep_edge es []) = set es" "distinct (fold keep_edge es [])"
    using keep_edge_set[OF assms(1) _ assms(2), of "[]"] by auto
  with assms(3) show ?thesis by (metis distinct_card)
qed

lemma unique_key_distinct: "unique_key k xs \<Longrightarrow> distinct xs"
  by (simp add: unique_key_def distinct_map)

text \<open>
  The limit on the edges of a query is not always reported: a query of depth one from a node with more edges than the
  limit returns as many edges as the limit allows and says that nothing was cut.
\<close>

theorem query_truncation_unreported:
  assumes "min max_depth (cfg_graph_max_depth (env_settings env)) = 1" and "unique_key edge_id (db_edges db)"
    and "max_edges < length (filter (touches dir [s]) (tenant_edges db tenant_id rels))" and "0 < max_edges"
  shows "length (ga_edges (query_graph env db tenant_id s max_depth dir rels max_edges)) = max_edges \<and>
    \<not> ga_truncated (query_graph env db tenant_id s max_depth dir rels max_edges)"
proof -
  let ?rows = "tenant_edges db tenant_id rels"
  let ?found = "take max_edges (filter (touches dir [s]) ?rows)"
  have u: "unique_key edge_id ?rows"
    using assms(2) by (auto simp: tenant_edges_def where_rows_def unique_key_def distinct_map intro: inj_on_subset)
  have "length (fold keep_edge ?found []) = length ?found"
    using unique_key_distinct[OF u] by (intro keep_edge_length[OF u]) (auto dest: in_set_takeD)
  also have "\<dots> = max_edges" using assms(3) by simp
  finally have len: "length (fold keep_edge ?found []) = max_edges" .
  obtain depths' frontier' where "fold (visit_edge 1) ?found ([(s, 0)], []) = (depths', frontier')" by fastforce
  with assms(1,4) len show ?thesis by (simp add: query_graph_def Let_def)
qed

theorem query_truncation_unreported_witness:
  "length (ga_edges (query_graph base_env diamond ''default'' (''dataset'', ''a'') 1 Outbound [] 1)) = 1 \<and>
   \<not> ga_truncated (query_graph base_env diamond ''default'' (''dataset'', ''a'') 1 Outbound [] 1)"
proof (rule query_truncation_unreported[OF _ diamond_keys])
  show "min 1 (cfg_graph_max_depth (env_settings base_env)) = 1" by code_simp
  show "1 < length (filter (touches Outbound [(''dataset'', ''a'')]) (tenant_edges diamond ''default'' []))" by code_simp
qed simp


section \<open>What an event leaves\<close>

lemma ensure_edge_spec:
  assumes "ensure_edge t w (stored, added) = ((stored', added'), n)"
  shows "map (edge_metadata_json_update (\<lambda>_. JNull)) stored' = map (edge_metadata_json_update (\<lambda>_. JNull)) stored \<and>
    (\<exists>new. added' = added @ new \<and> length new = n \<and> set new \<subseteq> {w}) \<and>
    ((\<exists>e \<in> set stored. edge_tenant_id e = t \<and> edge_key e = fst w) \<or> w \<in> set added')"
  using assms
  by (auto simp: ensure_edge_def update_rows_def dest: scalar_Some split: option.splits)

lemma same_but_metadata:
  assumes "map (edge_metadata_json_update (\<lambda>_. JNull)) xs = map (edge_metadata_json_update (\<lambda>_. JNull)) ys"
  shows "map (\<lambda>e. (edge_tenant_id e, edge_key e)) xs = map (\<lambda>e. (edge_tenant_id e, edge_key e)) ys"
  using arg_cong[OF assms, of "map (\<lambda>e. (edge_tenant_id e, edge_key e))"]
  by (simp add: edge_key_def edge_source_def edge_target_def o_def)

lemma ensure_edges_spec:
  assumes "ensure_edges t ws (stored, added) = ((stored', added'), n)"
  shows "map (edge_metadata_json_update (\<lambda>_. JNull)) stored' = map (edge_metadata_json_update (\<lambda>_. JNull)) stored \<and>
    (\<exists>new. added' = added @ new \<and> length new = n \<and> set new \<subseteq> set ws) \<and>
    (\<forall>w \<in> set ws. (t, fst w) \<in> set (map (\<lambda>e. (edge_tenant_id e, edge_key e)) stored) \<or> w \<in> set added')"
  using assms
proof (induction ws arbitrary: stored added n)
  case (Cons w ws)
  obtain s1 a1 k where 1: "ensure_edge t w (stored, added) = ((s1, a1), k)" by (metis prod_cases3 surj_pair)
  obtain m where 2: "ensure_edges t ws (s1, a1) = ((stored', added'), m)" "n = k + m"
    using Cons.prems 1 by (auto split: prod.splits)
  note e = ensure_edge_spec[OF 1] and ih = Cons.IH[OF 2(1)]
  from e have k: "map (\<lambda>e. (edge_tenant_id e, edge_key e)) s1 = map (\<lambda>e. (edge_tenant_id e, edge_key e)) stored"
    by (intro same_but_metadata) blast
  from e ih obtain new1 new2 where n: "a1 = added @ new1" "length new1 = k" "set new1 \<subseteq> {w}"
    "added' = a1 @ new2" "length new2 = m" "set new2 \<subseteq> set ws" by blast
  show ?case
  proof (intro conjI)
    show "map (edge_metadata_json_update (\<lambda>_. JNull)) stored' = map (edge_metadata_json_update (\<lambda>_. JNull)) stored"
      using e ih by simp
    show "\<exists>new. added' = added @ new \<and> length new = n \<and> set new \<subseteq> set (w # ws)"
      using n 2(2) by (intro exI[of _ "new1 @ new2"]) auto
    have "(t, fst w) \<in> set (map (\<lambda>e. (edge_tenant_id e, edge_key e)) stored) \<or> w \<in> set added'"
      using e n by (force simp: image_iff)
    with ih k show "\<forall>x \<in> set (w # ws). (t, fst x) \<in> set (map (\<lambda>e. (edge_tenant_id e, edge_key e)) stored) \<or> x \<in> set added'"
      by simp
  qed
qed simp

lemma insert_edges_spec:
  "\<exists>new. insert_edges env t ws es = es @ new \<and> map (\<lambda>e. (edge_tenant_id e, edge_key e)) new = map (\<lambda>w. (t, fst w)) ws"
proof (induction ws arbitrary: es)
  case (Cons w ws)
  let ?e = "new_edge env t (next_id edge_id es) w"
  from Cons[of "es @ [?e]"] obtain new where
    n: "insert_edges env t ws (es @ [?e]) = (es @ [?e]) @ new" "map (\<lambda>e. (edge_tenant_id e, edge_key e)) new = map (\<lambda>w. (t, fst w)) ws" by auto
  have "(edge_tenant_id ?e, edge_key ?e) = (t, fst w)"
    by (simp add: new_edge_def edge_key_def edge_source_def edge_target_def split: prod.split)
  with n show ?case by (intro exI[of _ "?e # new"]) simp
qed simp

text \<open>An event that is ingested: it is valid and new, is stored, and writes the edges it asks for.\<close>

lemma ingest_new:
  assumes "ingest_openlineage_event env t payload db = Inr (db', a)" and "\<not> ia_idempotent a"
  obtains stored added n l where "ensure_edges t (lineage_edges (ia_event_id a) (jobj payload)) (db_edges db, []) = ((stored, added), n)"
    "db_edges db' = insert_edges env t added stored" "validate_openlineage env payload = Inr ()"
    "ia_event_id a = env_sha256 env (canonical_json (env_frepr env) payload)" "ia_edges_created a = n"
    "db_lineage db' = db_lineage db @ [l]" "lin_tenant_id l = t" "lin_event_id l = ia_event_id a"
proof -
  let ?id = "env_sha256 env (canonical_json (env_frepr env) payload)"
  let ?ws = "lineage_edges ?id (jobj payload)"
  obtain stored added n where e: "ensure_edges t ?ws (db_edges db, []) = ((stored, added), n)" by (metis prod_cases3 surj_pair)
  have ok: "validate_openlineage env payload = Inr ()"
    using assms(1) by (cases "validate_openlineage env payload") (simp_all add: ingest_openlineage_event_def)
  note r = assms(1)[unfolded ingest_openlineage_event_def ok rbind_simps Let_def]
  have none: "scalar (\<lambda>l. lin_tenant_id l = t \<and> lin_event_id l = ?id) (db_lineage db) = None"
  proof (rule ccontr)
    assume "scalar (\<lambda>l. lin_tenant_id l = t \<and> lin_event_id l = ?id) (db_lineage db) \<noteq> None"
    then obtain l where "scalar (\<lambda>l. lin_tenant_id l = t \<and> lin_event_id l = ?id) (db_lineage db) = Some l" by blast
    with r have "a = \<lparr>ia_idempotent = True, ia_event_id = ?id, ia_edges_created = 0\<rparr>" by simp
    with assms(2) show False by simp
  qed
  note r1 = r[unfolded none option.case]
  obtain tm where tm: "event_time env (jstr (py_get (jobj payload) ''eventTime'')) = Inr tm"
    using r1 by (cases "event_time env (jstr (py_get (jobj payload) ''eventTime''))") simp_all
  obtain pr where pr: "producer_column (py_get (jobj payload) ''producer'') = Inr pr"
    using r1 tm by (cases "producer_column (py_get (jobj payload) ''producer'')") simp_all
  have "ia_event_id a = ?id \<and> ia_edges_created a = n \<and> db_edges db' = insert_edges env t added stored \<and>
    (\<exists>l. db_lineage db' = db_lineage db @ [l] \<and> lin_tenant_id l = t \<and> lin_event_id l = ?id)"
    using r1[unfolded tm pr rbind_simps e prod.case sum.inject prod.inject] by (elim conjE, hypsubst) simp
  with e ok that show thesis by metis
qed

text \<open>A known event changes nothing.\<close>

lemma ingest_known:
  assumes "ingest_openlineage_event env t payload db = Inr (db', a)" and "ia_idempotent a"
  shows "db' = db"
proof -
  let ?id = "env_sha256 env (canonical_json (env_frepr env) payload)"
  have ok: "validate_openlineage env payload = Inr ()"
    using assms(1) by (cases "validate_openlineage env payload") (simp_all add: ingest_openlineage_event_def)
  note r = assms(1)[unfolded ingest_openlineage_event_def ok rbind_simps Let_def]
  show ?thesis
  proof (cases "scalar (\<lambda>l. lin_tenant_id l = t \<and> lin_event_id l = ?id) (db_lineage db)")
    case None
    note r1 = r[unfolded None option.case]
    obtain tm where tm: "event_time env (jstr (py_get (jobj payload) ''eventTime'')) = Inr tm"
      using r1 by (cases "event_time env (jstr (py_get (jobj payload) ''eventTime''))") simp_all
    obtain pr where pr: "producer_column (py_get (jobj payload) ''producer'') = Inr pr"
      using r1 tm by (cases "producer_column (py_get (jobj payload) ''producer'')") simp_all
    obtain stored added n where e: "ensure_edges t (lineage_edges ?id (jobj payload)) (db_edges db, []) = ((stored, added), n)"
      by (metis prod_cases3 surj_pair)
    have "\<not> ia_idempotent a"
      using r1[unfolded tm pr rbind_simps e prod.case sum.inject prod.inject] by (elim conjE, hypsubst) simp
    with assms(2) show ?thesis by simp
  next
    case (Some l)
    from r[unfolded Some option.case] show ?thesis by simp
  qed
qed

text \<open>
  Ingesting an OpenLineage event keeps every stored edge (an edge asked for again gets the new metadata only), adds as
  many edges as it reports, all of them among those the event asks for, leaves every edge asked for in the tenant's graph,
  and ingesting the event again changes nothing.
\<close>

theorem lineage_ingested:
  assumes "ingest_openlineage_event env t payload db = Inr (db', a)" and "\<not> ia_idempotent a"
  shows "(\<exists>new. map (edge_metadata_json_update (\<lambda>_. JNull)) (db_edges db') =
           map (edge_metadata_json_update (\<lambda>_. JNull)) (db_edges db) @ map (edge_metadata_json_update (\<lambda>_. JNull)) new \<and>
         length new = ia_edges_created a \<and>
         (\<forall>e \<in> set new. edge_tenant_id e = t \<and> edge_key e \<in> fst ` set (lineage_edges (ia_event_id a) (jobj payload)))) \<and>
    (\<forall>w \<in> set (lineage_edges (ia_event_id a) (jobj payload)).
       \<exists>e \<in> set (db_edges db'). edge_tenant_id e = t \<and> edge_key e = fst w) \<and>
    ingest_openlineage_event env t payload db' = Inr (db', \<lparr>ia_idempotent = True, ia_event_id = ia_event_id a, ia_edges_created = 0\<rparr>)"
proof -
  let ?key = "\<lambda>e. (edge_tenant_id e, edge_key e)"
  let ?id = "env_sha256 env (canonical_json (env_frepr env) payload)"
  let ?ws = "lineage_edges ?id (jobj payload)"
  from ingest_new[OF assms] obtain stored added n l where e: "ensure_edges t ?ws (db_edges db, []) = ((stored, added), n)"
    and ok: "validate_openlineage env payload = Inr ()" and a: "ia_event_id a = ?id" "ia_edges_created a = n"
    and l: "lin_tenant_id l = t" "lin_event_id l = ?id"
    and db': "db_lineage db' = db_lineage db @ [l]" "db_edges db' = insert_edges env t added stored"
    by metis
  from insert_edges_spec[of env t added stored] obtain new where
    new: "db_edges db' = stored @ new" "map ?key new = map (\<lambda>w. (t, fst w)) added" using db'(2) by auto
  note s = ensure_edges_spec[OF e]
  then have k: "map ?key stored = map ?key (db_edges db)" by (intro same_but_metadata) blast
  from s have added: "length added = n" "set added \<subseteq> set ?ws" by auto
  have len: "length new = n" using arg_cong[OF new(2), of length] added by simp
  have keys: "?key ` set new = (\<lambda>w. (t, fst w)) ` set added" using arg_cong[OF new(2), of set] by simp
  show ?thesis
  proof (intro conjI exI[of _ new])
    show "map (edge_metadata_json_update (\<lambda>_. JNull)) (db_edges db') =
        map (edge_metadata_json_update (\<lambda>_. JNull)) (db_edges db) @ map (edge_metadata_json_update (\<lambda>_. JNull)) new"
      using s new(1) by simp
    show "length new = ia_edges_created a" using len a by simp
    show "\<forall>e \<in> set new. edge_tenant_id e = t \<and> edge_key e \<in> fst ` set (lineage_edges (ia_event_id a) (jobj payload))"
    proof
      fix x assume "x \<in> set new"
      then have "?key x \<in> (\<lambda>w. (t, fst w)) ` set added" unfolding keys[symmetric] by (rule imageI)
      with added(2) a(1) show "edge_tenant_id x = t \<and> edge_key x \<in> fst ` set (lineage_edges (ia_event_id a) (jobj payload))" by auto
    qed
    show "\<forall>w \<in> set (lineage_edges (ia_event_id a) (jobj payload)). \<exists>e \<in> set (db_edges db'). edge_tenant_id e = t \<and> edge_key e = fst w"
    proof
      fix w assume "w \<in> set (lineage_edges (ia_event_id a) (jobj payload))"
      with s a(1) have "(t, fst w) \<in> set (map ?key (db_edges db)) \<or> w \<in> set added" by auto
      then have "(t, fst w) \<in> ?key ` set (stored @ new)" 
        unfolding set_append image_Un keys using arg_cong[OF k, of set] by auto
      then show "\<exists>e \<in> set (db_edges db'). edge_tenant_id e = t \<and> edge_key e = fst w" unfolding new(1) by auto
    qed
    have "\<exists>x. scalar (\<lambda>l. lin_tenant_id l = t \<and> lin_event_id l = ?id) (db_lineage db') = Some x"
      using l db'(1) by (intro scalar_ex[of l]) auto
    then show "ingest_openlineage_event env t payload db' =
        Inr (db', \<lparr>ia_idempotent = True, ia_event_id = ia_event_id a, ia_edges_created = 0\<rparr>)"
      using ok a by (auto simp: ingest_openlineage_event_def)
  qed
qed

definition sample_event :: json where
  "sample_event = JObj [(''eventType'', JStr ''COMPLETE''), (''eventTime'', JStr ''2026-01-01T00:00:00Z''),
     (''run'', JObj [(''runId'', JStr ''r'')]), (''job'', JObj [(''namespace'', JStr ''n''), (''name'', JStr ''j'')]),
     (''inputs'', JList [JObj [(''namespace'', JStr ''n''), (''name'', JStr ''a'')]]),
     (''outputs'', JList [JObj [(''namespace'', JStr ''n''), (''name'', JStr ''b'')]])]"

lemma sample_event_valid: "validate_openlineage base_env sample_event = Inr ()"
proof -
  have "length (json_dumps (env_frepr base_env) '', '' '': '' sample_event) \<le> 400" by code_simp
  then have "\<not> length (json_dumps (env_frepr base_env) '', '' '': '' sample_event) > 1024 * 1024" by simp
  moreover have "named (py_get (jobj sample_event) ''job'')" "text_field (jobj (py_get (jobj sample_event) ''run'')) ''runId''"
    "check_datasets (jobj sample_event) ''inputs'' = Inr ()" "check_datasets (jobj sample_event) ''outputs'' = Inr ()"
    "py_get (jobj sample_event) ''eventType'' = JStr ''COMPLETE''" "is_jstr (py_get (jobj sample_event) ''eventTime'')"
    "is_jobj (py_get (jobj sample_event) ''run'')" "is_jobj sample_event" "py_hashable (JStr ''COMPLETE'')" "''COMPLETE'' \<in> set EVENT_TYPES"
    by code_simp+
  ultimately show ?thesis by (simp add: validate_openlineage_def Let_def)
qed
theorem lineage_ingested_witness:
  "case ingest_openlineage_event base_env ''default'' sample_event empty_db of
     Inl _ \<Rightarrow> False
   | Inr (db', a) \<Rightarrow> ia_edges_created a = 4 \<and> length (db_edges db') = 4 \<and>
       ingest_openlineage_event base_env ''default'' sample_event db' =
         Inr (db', \<lparr>ia_idempotent = True, ia_event_id = ia_event_id a, ia_edges_created = 0\<rparr>)"
proof -
  have ok: "case ingest_openlineage_event base_env ''default'' sample_event empty_db of
     Inl _ \<Rightarrow> False | Inr (db', a) \<Rightarrow> \<not> ia_idempotent a \<and> ia_edges_created a = 4 \<and> length (db_edges db') = 4"
    unfolding ingest_openlineage_event_def sample_event_valid rbind_simps by code_simp
  then obtain db' a where r: "ingest_openlineage_event base_env ''default'' sample_event empty_db = Inr (db', a)" "\<not> ia_idempotent a"
    "ia_edges_created a = 4" "length (db_edges db') = 4" by (auto split: sum.splits)
  from lineage_ingested[OF r(1,2)] r show ?thesis by simp
qed

end
