(* ===== verification/Ownership.thy ===== *)
theory Ownership
  imports ServiceAccounts
begin

text \<open>
  \<open>app/services/ownership.py\<close> without its schedules, with the routes in \<open>app/v15.py\<close> and \<open>app/v17.py\<close>: campaigns that ask the
  owners of a scope of assets to confirm their ownership, the assignments of a campaign, their remediation, and the
  escalation of overdue campaigns. The tables of ownership are a record of their own beside \<open>db\<close>; a column that holds the
  JSON text of a list is that list. An operation reads the clock once. A notification that cannot be queued is logged only.
\<close>

section \<open>Tables\<close>

datatype campaign_state = CampDraft | CampActive | CampCompleted
datatype assignment_state = AsgPending | AsgAttested | AsgRemediation | AsgResolved
datatype escalation_state = EscPending | EscRunning | EscQueued | EscFailed

type_synonym scope = "(string \<times> string list) list"

record ownership_campaign =
  camp_id :: nat
  camp_tenant_id :: string
  camp_campaign_id :: string
  camp_name :: string
  camp_description :: string
  camp_status :: campaign_state
  camp_scope_json :: scope
  camp_source_schedule_id :: "string option"
  camp_escalation_policy_id :: "string option"
  camp_notification_endpoint_ids_json :: "string list"
  camp_due_at :: time
  camp_created_by :: string
  camp_created_at :: time
  camp_launched_at :: "time option"
  camp_completed_at :: "time option"

record ownership_schedule =
  osched_id :: nat
  osched_tenant_id :: string
  osched_schedule_id :: string
  osched_name :: string
  osched_description :: string
  osched_scope_json :: scope
  osched_due_days :: int
  osched_max_assets :: int
  osched_schedule_type :: string
  osched_interval_seconds :: int
  osched_cron_expression :: "string option"
  osched_timezone :: string
  osched_maintenance_windows_json :: "json list"
  osched_escalation_policy_id :: "string option"
  osched_notification_endpoint_ids_json :: "string list"
  osched_enabled :: bool
  osched_next_run_at :: time
  osched_last_enqueued_at :: "time option"
  osched_created_by :: string
  osched_created_at :: time
  osched_updated_at :: time

record ownership_assignment =
  asg_id :: nat
  asg_tenant_id :: string
  asg_assignment_id :: string
  asg_campaign_id :: string
  asg_asset_id :: nat
  asg_owner :: string
  asg_status :: assignment_state
  asg_attested_owner :: "string option"
  asg_attestation_note :: "string option"
  asg_remediation_action :: "string option"
  asg_remediation_due_at :: "time option"
  asg_attested_by :: "string option"
  asg_attested_at :: "time option"
  asg_resolved_by :: "string option"
  asg_resolved_at :: "time option"
  asg_created_at :: time

record escalation_stage =
  stg_key :: string
  stg_offset_hours :: int
  stg_recipient :: string
  stg_endpoint_ids :: "string list"

record escalation_policy =
  epol_id :: nat
  epol_tenant_id :: string
  epol_policy_id :: string
  epol_name :: string
  epol_description :: string
  epol_stages_json :: "escalation_stage list"
  epol_enabled :: bool
  epol_created_by :: string
  epol_created_at :: time
  epol_updated_at :: time

record escalation_event =
  eev_id :: nat
  eev_tenant_id :: string
  eev_event_id :: string
  eev_campaign_id :: string
  eev_policy_id :: string
  eev_stage_key :: string
  eev_offset_hours :: int
  eev_recipient :: string
  eev_status :: escalation_state
  eev_attempts :: nat
  eev_assignment_count :: nat
  eev_delivery_count :: nat
  eev_error :: "string option"
  eev_triggered_at :: time
  eev_next_attempt_at :: time
  eev_queued_at :: "time option"

record ownership =
  own_campaigns :: "ownership_campaign list"
  own_schedules :: "ownership_schedule list"
  own_assignments :: "ownership_assignment list"
  own_policies :: "escalation_policy list"
  own_events :: "escalation_event list"

type_synonym own_state = "db \<times> ownership"

definition update_campaigns :: "(ownership_campaign \<Rightarrow> bool) \<Rightarrow> (ownership_campaign \<Rightarrow> ownership_campaign) \<Rightarrow> ownership \<Rightarrow> ownership" where
  "update_campaigns P f own = own\<lparr>own_campaigns := update_rows P f (own_campaigns own)\<rparr>"

definition update_assignments ::
  "(ownership_assignment \<Rightarrow> bool) \<Rightarrow> (ownership_assignment \<Rightarrow> ownership_assignment) \<Rightarrow> ownership \<Rightarrow> ownership" where
  "update_assignments P f own = own\<lparr>own_assignments := update_rows P f (own_assignments own)\<rparr>"

definition update_events :: "(escalation_event \<Rightarrow> bool) \<Rightarrow> (escalation_event \<Rightarrow> escalation_event) \<Rightarrow> ownership \<Rightarrow> ownership" where
  "update_events P f own = own\<lparr>own_events := update_rows P f (own_events own)\<rparr>"

section \<open>Responses\<close>

fun camp_status_str :: "campaign_state \<Rightarrow> string" where
  "camp_status_str CampDraft = ''draft''"
| "camp_status_str CampActive = ''active''"
| "camp_status_str CampCompleted = ''completed''"

fun asg_status_str :: "assignment_state \<Rightarrow> string" where
  "asg_status_str AsgPending = ''pending''"
| "asg_status_str AsgAttested = ''attested''"
| "asg_status_str AsgRemediation = ''remediation-required''"
| "asg_status_str AsgResolved = ''resolved''"

fun esc_status_str :: "escalation_state \<Rightarrow> string" where
  "esc_status_str EscPending = ''pending''"
| "esc_status_str EscRunning = ''running''"
| "esc_status_str EscQueued = ''queued''"
| "esc_status_str EscFailed = ''failed''"

definition scope_doc :: "scope \<Rightarrow> json" where
  "scope_doc s = JObj (map (\<lambda>(k, vs). (k, jstrs vs)) s)"

type_synonym counts = "(assignment_state \<times> nat) list"

definition counts_doc :: "counts \<Rightarrow> json" where
  "counts_doc cs = JObj (map (\<lambda>(s, n). (asg_status_str s, JInt (int n))) cs)"

definition count_of :: "counts \<Rightarrow> assignment_state \<Rightarrow> nat" where
  "count_of cs s = (case map_of cs s of None \<Rightarrow> 0 | Some n \<Rightarrow> n)"

definition campaign_response :: "(time \<Rightarrow> json) \<Rightarrow> ownership_campaign \<Rightarrow> counts \<Rightarrow> dict" where
  "campaign_response show c counts =
     [(''campaign_id'', JStr (camp_campaign_id c)), (''name'', JStr (camp_name c)), (''description'', JStr (camp_description c)),
      (''status'', JStr (camp_status_str (camp_status c))), (''scope'', scope_doc (camp_scope_json c)),
      (''source_schedule_id'', jopt JStr (camp_source_schedule_id c)),
      (''escalation_policy_id'', jopt JStr (camp_escalation_policy_id c)),
      (''notification_endpoint_ids'', jstrs (camp_notification_endpoint_ids_json c)), (''due_at'', show (camp_due_at c)),
      (''counts'', counts_doc counts), (''created_by'', JStr (camp_created_by c)), (''created_at'', show (camp_created_at c)),
      (''launched_at'', jopt show (camp_launched_at c)), (''completed_at'', jopt show (camp_completed_at c))]"

definition assignment_response :: "(time \<Rightarrow> json) \<Rightarrow> ownership_assignment \<Rightarrow> dict" where
  "assignment_response show a =
     [(''assignment_id'', JStr (asg_assignment_id a)), (''campaign_id'', JStr (asg_campaign_id a)),
      (''asset_id'', JInt (int (asg_asset_id a))), (''owner'', JStr (asg_owner a)), (''status'', JStr (asg_status_str (asg_status a))),
      (''attested_owner'', jopt JStr (asg_attested_owner a)), (''attestation_note'', jopt JStr (asg_attestation_note a)),
      (''remediation_action'', jopt JStr (asg_remediation_action a)), (''remediation_due_at'', jopt show (asg_remediation_due_at a)),
      (''attested_by'', jopt JStr (asg_attested_by a)), (''attested_at'', jopt show (asg_attested_at a)),
      (''resolved_by'', jopt JStr (asg_resolved_by a)), (''resolved_at'', jopt show (asg_resolved_at a)),
      (''created_at'', show (asg_created_at a))]"

text \<open>A dictionary of counters keeps the order in which the keys first occur.\<close>

definition of_campaign :: "string \<Rightarrow> string \<Rightarrow> ownership_assignment \<Rightarrow> bool" where
  "of_campaign tenant_id campaign_id a = (asg_tenant_id a = tenant_id \<and> asg_campaign_id a = campaign_id)"

definition campaign_counts :: "ownership \<Rightarrow> string \<Rightarrow> string \<Rightarrow> counts" where
  "campaign_counts own tenant_id campaign_id =
     (let states = map asg_status (where_rows (of_campaign tenant_id campaign_id) (own_assignments own))
      in map (\<lambda>s. (s, count_list states s)) (rev (remdups (rev states))))"

section \<open>Scopes and references\<close>

definition SCOPE_FIELDS :: "string list" where
  "SCOPE_FIELDS = [''source'', ''business_domain'', ''sensitivity'', ''owner'']"

definition scope_value :: "string \<Rightarrow> data_asset \<Rightarrow> string" where
  "scope_value field a =
     (if field = ''source'' then asset_source a else if field = ''business_domain'' then asset_business_domain a
      else if field = ''sensitivity'' then asset_sensitivity a else asset_owner a)"

definition scope_values :: "string \<Rightarrow> json \<Rightarrow> string list result" where
  "scope_values field v =
     (let values = (if is_jlist v then jlist v else [v]) in
      if values = [] \<or> 100 < length values \<or> list_ex (\<lambda>i. \<not> is_jstr i \<or> py_strip (jstr i) = []) values
      then Inl (ValueError (''Ownership scope '' @ field @ '' must contain non-empty strings''))
      else Inr (sorted_set (map (\<lambda>i. py_strip (jstr i)) values)))"

text \<open>The normalised scope, with its keys sorted as the column stores it.\<close>

definition validate_scope :: "json \<Rightarrow> scope result" where
  "validate_scope v =
     (if \<not> is_jobj v then Inl (ValueError ''Ownership campaign scope must be an object'')
      else
        let unknown = filter (\<lambda>k. k \<notin> set SCOPE_FIELDS) (map fst (jobj v)) in
        if unknown \<noteq> [] then Inl (ValueError (''Unsupported ownership scope fields: '' @ join '', '' (sorted_set unknown)))
        else rbind (rmap (\<lambda>(k, x). rbind (scope_values k x) (\<lambda>vs. Inr (k, vs))) (jobj v)) (\<lambda>s. Inr (sort_key fst s)))"

definition validate_notification_endpoints :: "db \<Rightarrow> string \<Rightarrow> string list \<Rightarrow> string list result" where
  "validate_notification_endpoints db tenant_id ids =
     (let normalized = sorted_set ids in
      if list_ex (\<lambda>i. i = [] \<or> 36 < length i) normalized
      then Inl (ValueError ''Ownership notification endpoint identifiers are invalid'')
      else if set normalized \<subseteq> endpoint_endpoint_id ` set (enabled_endpoints db tenant_id) then Inr normalized
      else Inl (ValueError ''Ownership notification endpoints must exist and be enabled in the tenant''))"

definition usable_policy :: "string \<Rightarrow> string \<Rightarrow> escalation_policy \<Rightarrow> bool" where
  "usable_policy tenant_id policy_id p = (epol_tenant_id p = tenant_id \<and> epol_policy_id p = policy_id \<and> epol_enabled p)"

definition validate_escalation_policy :: "ownership \<Rightarrow> string \<Rightarrow> string option \<Rightarrow> string option result" where
  "validate_escalation_policy own tenant_id policy_id =
     (case policy_id of
        None \<Rightarrow> Inr None
      | Some i \<Rightarrow>
          (case scalar (usable_policy tenant_id i) (own_policies own) of
             None \<Rightarrow> Inl (ValueError ''Ownership escalation policy is missing or disabled'')
           | Some p \<Rightarrow> Inr (Some (epol_policy_id p))))"


section \<open>Campaigns\<close>

definition new_campaign ::
  "env \<Rightarrow> string \<Rightarrow> string \<Rightarrow> string \<Rightarrow> string \<Rightarrow> scope \<Rightarrow> time \<Rightarrow> string \<Rightarrow> string option \<Rightarrow> string list \<Rightarrow> string option \<Rightarrow>
     ownership \<Rightarrow> ownership_campaign" where
  "new_campaign env uuid tenant_id name description scope due_at created_by schedule_id endpoint_ids policy_id own =
     \<lparr>camp_id = next_id camp_id (own_campaigns own), camp_tenant_id = tenant_id, camp_campaign_id = uuid, camp_name = name,
      camp_description = description, camp_status = CampDraft, camp_scope_json = scope, camp_source_schedule_id = schedule_id,
      camp_escalation_policy_id = policy_id, camp_notification_endpoint_ids_json = sorted_set endpoint_ids,
      camp_due_at = due_at, camp_created_by = created_by, camp_created_at = env_now env, camp_launched_at = None,
      camp_completed_at = None\<rparr>"

definition campaign_conflict :: "ownership_campaign \<Rightarrow> ownership_campaign \<Rightarrow> bool" where
  "campaign_conflict c x =
     (camp_tenant_id x = camp_tenant_id c \<and> (camp_campaign_id x = camp_campaign_id c \<or> camp_name x = camp_name c))"

text \<open>The due date is a wall-clock time; the offset it came with is dropped.\<close>

definition create_campaign ::
  "env \<Rightarrow> string \<Rightarrow> string \<Rightarrow> string \<Rightarrow> string \<Rightarrow> json \<Rightarrow> time \<Rightarrow> string \<Rightarrow> string option \<Rightarrow> string list \<Rightarrow> string option \<Rightarrow>
     ownership \<Rightarrow> (ownership \<times> ownership_campaign) result" where
  "create_campaign env uuid tenant_id name description scope due_at created_by schedule_id endpoint_ids policy_id own =
     rbind (validate_scope scope) (\<lambda>normalized.
     rbind (raise_if (due_at \<le> env_now env) (ValueError ''Ownership campaign due date must be in the future'')) (\<lambda>_.
     rbind (validate_escalation_policy own tenant_id policy_id) (\<lambda>policy.
     let c = new_campaign env uuid tenant_id name description normalized due_at created_by schedule_id endpoint_ids policy own in
     rbind (raise_if (list_ex (campaign_conflict c) (own_campaigns own)) (OtherError ''IntegrityError'')) (\<lambda>_.
     Inr (own\<lparr>own_campaigns := own_campaigns own @ [c]\<rparr>, c)))))"

definition in_scope :: "scope \<Rightarrow> data_asset \<Rightarrow> bool" where
  "in_scope s a = list_all (\<lambda>(field, values). scope_value field a \<in> set values) s"

definition campaign_assets :: "ownership_campaign \<Rightarrow> int \<Rightarrow> db \<Rightarrow> data_asset list" where
  "campaign_assets c max_assets db =
     take (nat max_assets) (order_by asset_id
       (where_rows (\<lambda>a. asset_tenant_id a = camp_tenant_id c \<and> in_scope (camp_scope_json c) a) (db_assets db)))"

definition new_assignment :: "env \<Rightarrow> (nat \<Rightarrow> string) \<Rightarrow> ownership_campaign \<Rightarrow> nat \<Rightarrow> nat \<Rightarrow> data_asset \<Rightarrow> ownership_assignment" where
  "new_assignment env uuids c first n a =
     \<lparr>asg_id = first + n, asg_tenant_id = camp_tenant_id c, asg_assignment_id = uuids n, asg_campaign_id = camp_campaign_id c,
      asg_asset_id = asset_id a, asg_owner = asset_owner a, asg_status = AsgPending, asg_attested_owner = None,
      asg_attestation_note = None, asg_remediation_action = None, asg_remediation_due_at = None, asg_attested_by = None,
      asg_attested_at = None, asg_resolved_by = None, asg_resolved_at = None, asg_created_at = env_now env\<rparr>"

definition new_assignments :: "env \<Rightarrow> (nat \<Rightarrow> string) \<Rightarrow> ownership_campaign \<Rightarrow> data_asset list \<Rightarrow> ownership \<Rightarrow> ownership_assignment list" where
  "new_assignments env uuids c assets own =
     map (\<lambda>(n, a). new_assignment env uuids c (next_id asg_id (own_assignments own)) n a) (enumerate 0 assets)"

text \<open>The unique constraints of the assignments.\<close>

definition assignments_unique :: "ownership_assignment list \<Rightarrow> bool" where
  "assignments_unique rows =
     (distinct (map (\<lambda>a. (asg_tenant_id a, asg_assignment_id a)) rows) \<and>
      distinct (map (\<lambda>a. (asg_tenant_id a, asg_campaign_id a, asg_asset_id a)) rows))"

text \<open>An empty list of endpoints notifies the subscribers of the event.\<close>

definition endpoint_choice :: "string list \<Rightarrow> string list option" where
  "endpoint_choice ids = (if ids = [] then None else Some ids)"

definition queue_campaign_event ::
  "env \<Rightarrow> registration list \<Rightarrow> uuids \<Rightarrow> ownership_campaign \<Rightarrow> string \<Rightarrow> db \<Rightarrow> db" where
  "queue_campaign_event env registry us c event_type db =
     fst (queue_integration_event env registry us db (camp_tenant_id c) event_type (JObj (campaign_response (payload_time env) c []))
            (''ownership:'' @ camp_campaign_id c) (endpoint_choice (camp_notification_endpoint_ids_json c)) None)"

definition find_campaign :: "ownership \<Rightarrow> string \<Rightarrow> string \<Rightarrow> ownership_campaign option" where
  "find_campaign own tenant_id campaign_id =
     scalar (\<lambda>c. camp_tenant_id c = tenant_id \<and> camp_campaign_id c = campaign_id) (own_campaigns own)"

definition queue_assignment_event ::
  "env \<Rightarrow> registration list \<Rightarrow> uuids \<Rightarrow> ownership_assignment \<Rightarrow> string \<Rightarrow> own_state \<Rightarrow> own_state" where
  "queue_assignment_event env registry us a event_type s =
     (case s of (db, own) \<Rightarrow>
       (fst (queue_integration_event env registry us db (asg_tenant_id a) event_type (JObj (assignment_response (payload_time env) a))
               (''ownership:'' @ asg_assignment_id a)
               (endpoint_choice (case find_campaign own (asg_tenant_id a) (asg_campaign_id a) of
                  None \<Rightarrow> [] | Some c \<Rightarrow> camp_notification_endpoint_ids_json c)) None), own))"

definition launched_campaign :: "time \<Rightarrow> ownership_campaign \<Rightarrow> ownership_campaign" where
  "launched_campaign now c = c\<lparr>camp_status := CampActive, camp_launched_at := Some now\<rparr>"

definition launch_campaign ::
  "env \<Rightarrow> registration list \<Rightarrow> (nat \<Rightarrow> string) \<Rightarrow> uuids \<Rightarrow> ownership_campaign \<Rightarrow> int \<Rightarrow> own_state \<Rightarrow>
     (own_state \<times> ownership_campaign \<times> nat) result" where
  "launch_campaign env registry uuids us c max_assets s =
     (case s of (db, own) \<Rightarrow>
      rbind (raise_if (camp_status c \<noteq> CampDraft) (ValueError ''Only draft ownership campaigns can be launched'')) (\<lambda>_.
      rbind (raise_if (camp_due_at c \<le> env_now env) (ValueError ''Expired ownership campaigns cannot be launched'')) (\<lambda>_.
      rbind (raise_if (\<not> (1 \<le> max_assets \<and> max_assets \<le> 100000))
               (ValueError ''Ownership campaign asset limit must be 1 to 100000'')) (\<lambda>_.
      let assets = campaign_assets c max_assets db; rows = new_assignments env uuids c assets own;
          c' = launched_campaign (env_now env) c in
      rbind (raise_if (assets = []) (ValueError ''Ownership campaign scope matched no assets'')) (\<lambda>_.
      rbind (raise_if (\<not> assignments_unique (own_assignments own @ rows)) (OtherError ''IntegrityError'')) (\<lambda>_.
      Inr ((queue_campaign_event env registry us c' ''ownership.campaign.launched'' db,
            update_campaigns (\<lambda>x. camp_id x = camp_id c) (\<lambda>x. c') (own\<lparr>own_assignments := own_assignments own @ rows\<rparr>)),
           c', length assets)))))))"

section \<open>Assignments\<close>

definition outstanding :: "ownership_assignment \<Rightarrow> bool" where
  "outstanding a = (asg_status a \<in> {AsgPending, AsgRemediation})"

definition completed_campaign :: "time \<Rightarrow> ownership_campaign \<Rightarrow> ownership_campaign" where
  "completed_campaign now c = c\<lparr>camp_status := CampCompleted, camp_completed_at := Some now\<rparr>"

definition complete_campaign_if_ready ::
  "env \<Rightarrow> registration list \<Rightarrow> uuids \<Rightarrow> string \<Rightarrow> string \<Rightarrow> own_state \<Rightarrow> own_state" where
  "complete_campaign_if_ready env registry us tenant_id campaign_id s =
     (case s of (db, own) \<Rightarrow>
       if scalar (\<lambda>a. of_campaign tenant_id campaign_id a \<and> outstanding a) (own_assignments own) \<noteq> None then s
       else case scalar (\<lambda>c. camp_tenant_id c = tenant_id \<and> camp_campaign_id c = campaign_id \<and> camp_status c = CampActive)
                   (own_campaigns own) of
              None \<Rightarrow> s
            | Some c \<Rightarrow>
                let c' = completed_campaign (env_now env) c in
                (queue_campaign_event env registry us c' ''ownership.campaign.completed'' db,
                 update_campaigns (\<lambda>x. camp_id x = camp_id c) (\<lambda>x. c') own))"

definition update_assets :: "(data_asset \<Rightarrow> bool) \<Rightarrow> (data_asset \<Rightarrow> data_asset) \<Rightarrow> db \<Rightarrow> db" where
  "update_assets P f db = db\<lparr>db_assets := update_rows P f (db_assets db)\<rparr>"

record attestation =
  att_confirmed :: bool
  att_owner :: "string option"
  att_note :: string
  att_action :: "string option"
  att_due_at :: "datetime option"

text \<open>What an attestation writes: the owner of the asset, if it is confirmed, and the row of the assignment.\<close>

definition attested ::
  "env \<Rightarrow> ownership_assignment \<Rightarrow> attestation \<Rightarrow> db \<Rightarrow> (db \<times> ownership_assignment) result" where
  "attested env a r db =
     (if att_confirmed r then
        let owner = py_strip (if truthy_opt (att_owner r) then the (att_owner r) else asg_owner a) in
        rbind (raise_if (owner = []) (ValueError ''Confirmed ownership requires a non-empty owner'')) (\<lambda>_.
        case scalar (\<lambda>x. asset_tenant_id x = asg_tenant_id a \<and> asset_id x = asg_asset_id a) (db_assets db) of
          None \<Rightarrow> Inl (ValueError ''Campaign asset no longer exists'')
        | Some x \<Rightarrow> Inr (update_assets (\<lambda>y. asset_id y = asset_id x) (\<lambda>y. y\<lparr>asset_owner := owner\<rparr>) db,
                       a\<lparr>asg_owner := owner, asg_attested_owner := Some owner, asg_status := AsgAttested,
                         asg_remediation_action := None, asg_remediation_due_at := None\<rparr>))
      else
        rbind (raise_if (case att_owner r of None \<Rightarrow> False | Some w \<Rightarrow> py_strip w = [])
                 (ValueError ''Attested ownership must be non-empty when provided'')) (\<lambda>_.
        rbind (raise_if (\<not> truthy_opt (att_action r) \<or> att_due_at r = None)
                 (ValueError ''Unconfirmed ownership requires a remediation action and due date'')) (\<lambda>_.
        rbind (raise_if (dt_wall (the (att_due_at r)) \<le> env_now env)
                 (ValueError ''Ownership remediation due date must be in the future'')) (\<lambda>_.
        Inr (db, a\<lparr>asg_status := AsgRemediation, asg_remediation_action := att_action r,
                   asg_remediation_due_at := Some (dt_wall (the (att_due_at r))),
                   asg_attested_owner := (if truthy_opt (att_owner r) then map_option py_strip (att_owner r) else None)\<rparr>)))))"

definition replace_assignment :: "ownership_assignment \<Rightarrow> ownership \<Rightarrow> ownership" where
  "replace_assignment a own = update_assignments (\<lambda>x. asg_id x = asg_id a) (\<lambda>x. a) own"

definition attest_assignment ::
  "env \<Rightarrow> registration list \<Rightarrow> uuids \<Rightarrow> uuids \<Rightarrow> ownership_assignment \<Rightarrow> attestation \<Rightarrow> string \<Rightarrow> own_state \<Rightarrow>
     (own_state \<times> ownership_assignment) result" where
  "attest_assignment env registry us us' a r attested_by s =
     (case s of (db, own) \<Rightarrow>
      rbind (raise_if (\<not> outstanding a) (ValueError ''Ownership assignment is already complete'')) (\<lambda>_.
      rbind (attested env a r db) (\<lambda>(db1, a1).
      let a2 = a1\<lparr>asg_attestation_note := Some (att_note r), asg_attested_by := Some attested_by, asg_attested_at := Some (env_now env)\<rparr>;
          s1 = (db1, replace_assignment a2 own);
          s2 = (if asg_status a2 = AsgRemediation
                then queue_assignment_event env registry us a2 ''ownership.assignment.remediation-required'' s1 else s1)
      in Inr (complete_campaign_if_ready env registry us' (asg_tenant_id a2) (asg_campaign_id a2) s2, a2))))"

definition update_remediation ::
  "env \<Rightarrow> ownership_assignment \<Rightarrow> string \<Rightarrow> datetime \<Rightarrow> ownership \<Rightarrow> (ownership \<times> ownership_assignment) result" where
  "update_remediation env a action due_at own =
     rbind (raise_if (asg_status a \<noteq> AsgRemediation) (ValueError ''Only remediation-required assignments can be updated'')) (\<lambda>_.
     rbind (raise_if (dt_wall due_at \<le> env_now env) (ValueError ''Ownership remediation due date must be in the future'')) (\<lambda>_.
     let a' = a\<lparr>asg_remediation_action := Some action, asg_remediation_due_at := Some (dt_wall due_at)\<rparr>
     in Inr (replace_assignment a' own, a')))"

definition resolve_remediation ::
  "env \<Rightarrow> registration list \<Rightarrow> uuids \<Rightarrow> ownership_assignment \<Rightarrow> string \<Rightarrow> own_state \<Rightarrow> (own_state \<times> ownership_assignment) result" where
  "resolve_remediation env registry us a resolved_by s =
     (case s of (db, own) \<Rightarrow>
      rbind (raise_if (asg_status a \<noteq> AsgRemediation) (ValueError ''Only remediation-required assignments can be resolved'')) (\<lambda>_.
      let a' = a\<lparr>asg_status := AsgResolved, asg_resolved_by := Some resolved_by, asg_resolved_at := Some (env_now env)\<rparr>
      in Inr (complete_campaign_if_ready env registry us (asg_tenant_id a') (asg_campaign_id a') (db, replace_assignment a' own), a')))"

section \<open>Escalation policies\<close>

definition stage_key_ok :: "string \<Rightarrow> bool" where
  "stage_key_ok k = (k \<noteq> [] \<and> length k \<le> 80 \<and> list_all (\<lambda>c. py_isalnum [c] \<or> c \<in> set ''_.-'') k)"

text \<open>The stages of a request, whose fields have the types of their schema, checked in order.\<close>

fun check_stages :: "db \<Rightarrow> string \<Rightarrow> string list \<Rightarrow> int list \<Rightarrow> escalation_stage list \<Rightarrow> escalation_stage list result" where
  "check_stages db tenant_id keys offsets [] = Inr []"
| "check_stages db tenant_id keys offsets (s # ss) =
     rbind (raise_if (\<not> stage_key_ok (stg_key s)) (ValueError ''Ownership escalation stage key is invalid'')) (\<lambda>_.
     rbind (raise_if (stg_key s \<in> set keys \<or> \<not> (- 8760 \<le> stg_offset_hours s \<and> stg_offset_hours s \<le> 8760))
              (ValueError ''Ownership escalation stage key or offset is invalid'')) (\<lambda>_.
     rbind (raise_if (stg_offset_hours s \<in> set offsets) (ValueError ''Ownership escalation stage offsets must be unique'')) (\<lambda>_.
     rbind (raise_if (stg_recipient s \<notin> {''owner'', ''data-owner'', ''administrator''})
              (ValueError ''Ownership escalation stage recipient is invalid'')) (\<lambda>_.
     rbind (validate_notification_endpoints db tenant_id (stg_endpoint_ids s)) (\<lambda>ids.
     rbind (check_stages db tenant_id (stg_key s # keys) (stg_offset_hours s # offsets) ss) (\<lambda>rest.
     Inr (s\<lparr>stg_endpoint_ids := ids\<rparr> # rest)))))))"

definition validate_escalation_stages :: "db \<Rightarrow> string \<Rightarrow> escalation_stage list \<Rightarrow> escalation_stage list result" where
  "validate_escalation_stages db tenant_id stages =
     rbind (raise_if (\<not> (1 \<le> length stages \<and> length stages \<le> 20))
              (ValueError ''Ownership escalation policies require 1 to 20 stages'')) (\<lambda>_.
     rbind (check_stages db tenant_id [] [] stages) (\<lambda>normalized.
     Inr (sort_key stg_offset_hours (sort_key stg_key normalized))))"

definition policy_conflict :: "escalation_policy \<Rightarrow> escalation_policy \<Rightarrow> bool" where
  "policy_conflict p x =
     (epol_tenant_id x = epol_tenant_id p \<and> (epol_policy_id x = epol_policy_id p \<or> epol_name x = epol_name p))"

definition create_escalation_policy ::
  "env \<Rightarrow> string \<Rightarrow> string \<Rightarrow> string \<Rightarrow> string \<Rightarrow> escalation_stage list \<Rightarrow> bool \<Rightarrow> string \<Rightarrow> own_state \<Rightarrow>
     (ownership \<times> escalation_policy) result" where
  "create_escalation_policy env uuid tenant_id name description stages enabled created_by s =
     (case s of (db, own) \<Rightarrow>
      rbind (validate_escalation_stages db tenant_id stages) (\<lambda>normalized.
      let p = \<lparr>epol_id = next_id epol_id (own_policies own), epol_tenant_id = tenant_id, epol_policy_id = uuid, epol_name = name,
               epol_description = description, epol_stages_json = normalized, epol_enabled = enabled, epol_created_by = created_by,
               epol_created_at = env_now env, epol_updated_at = env_now env\<rparr> in
      rbind (raise_if (list_ex (policy_conflict p) (own_policies own)) (OtherError ''IntegrityError'')) (\<lambda>_.
      Inr (own\<lparr>own_policies := own_policies own @ [p]\<rparr>, p))))"

record policy_update =
  pu_description :: "string option"
  pu_stages :: "escalation_stage list option"
  pu_enabled :: "bool option"

definition given_or :: "'a option \<Rightarrow> 'a \<Rightarrow> 'a" where
  "given_or x d = (case x of None \<Rightarrow> d | Some v \<Rightarrow> v)"

definition update_escalation_policy ::
  "env \<Rightarrow> escalation_policy \<Rightarrow> policy_update \<Rightarrow> own_state \<Rightarrow> (ownership \<times> escalation_policy) result" where
  "update_escalation_policy env p r s =
     (case s of (db, own) \<Rightarrow>
      rbind (case pu_stages r of
               None \<Rightarrow> Inr (epol_stages_json p)
             | Some stages \<Rightarrow> validate_escalation_stages db (epol_tenant_id p) stages) (\<lambda>stages.
      let p' = p\<lparr>epol_stages_json := stages, epol_description := given_or (pu_description r) (epol_description p),
                 epol_enabled := given_or (pu_enabled r) (epol_enabled p), epol_updated_at := env_now env\<rparr>
      in Inr (own\<lparr>own_policies := update_rows (\<lambda>x. epol_id x = epol_id p) (\<lambda>x. p') (own_policies own)\<rparr>, p')))"

definition stage_doc :: "escalation_stage \<Rightarrow> json" where
  "stage_doc s = JObj
     [(''endpoint_ids'', jstrs (stg_endpoint_ids s)), (''key'', JStr (stg_key s)), (''offset_hours'', JInt (stg_offset_hours s)),
      (''recipient'', JStr (stg_recipient s))]"

definition escalation_policy_response :: "env \<Rightarrow> escalation_policy \<Rightarrow> dict" where
  "escalation_policy_response env p =
     [(''policy_id'', JStr (epol_policy_id p)), (''name'', JStr (epol_name p)), (''description'', JStr (epol_description p)),
      (''stages'', JList (map stage_doc (epol_stages_json p))), (''enabled'', JBool (epol_enabled p)),
      (''created_by'', JStr (epol_created_by p)), (''created_at'', jtime env (epol_created_at p)),
      (''updated_at'', jtime env (epol_updated_at p))]"

section \<open>Escalation\<close>

definition stage_event :: "ownership_campaign \<Rightarrow> escalation_stage \<Rightarrow> escalation_event \<Rightarrow> bool" where
  "stage_event c g e =
     (eev_tenant_id e = camp_tenant_id c \<and> eev_campaign_id e = camp_campaign_id c \<and> eev_stage_key e = stg_key g)"

text \<open>A claim that has expired counts as a failure.\<close>

definition expire_claims :: "env \<Rightarrow> ownership_campaign \<Rightarrow> escalation_stage \<Rightarrow> ownership \<Rightarrow> ownership" where
  "expire_claims env c g own =
     update_events (\<lambda>e. stage_event c g e \<and> eev_status e = EscRunning \<and> eev_next_attempt_at e \<le> env_now env)
       (\<lambda>e. e\<lparr>eev_status := EscFailed, eev_error := Some ''Escalation claim expired before completion''\<rparr>) own"

definition new_event ::
  "env \<Rightarrow> string \<Rightarrow> ownership_campaign \<Rightarrow> escalation_policy \<Rightarrow> escalation_stage \<Rightarrow> nat \<Rightarrow> ownership \<Rightarrow> escalation_event" where
  "new_event env uuid c p g remaining own =
     \<lparr>eev_id = next_id eev_id (own_events own), eev_tenant_id = camp_tenant_id c, eev_event_id = uuid,
      eev_campaign_id = camp_campaign_id c, eev_policy_id = epol_policy_id p, eev_stage_key = stg_key g,
      eev_offset_hours = stg_offset_hours g, eev_recipient = stg_recipient g, eev_status = EscPending, eev_attempts = 0,
      eev_assignment_count = remaining, eev_delivery_count = 0, eev_error = None, eev_triggered_at = env_now env,
      eev_next_attempt_at = env_now env, eev_queued_at = None\<rparr>"

definition claimable_event :: "time \<Rightarrow> escalation_event \<Rightarrow> escalation_event \<Rightarrow> bool" where
  "claimable_event now e x = (eev_id x = eev_id e \<and> eev_status x \<in> {EscPending, EscFailed} \<and> eev_next_attempt_at x \<le> now)"

definition claimed_event :: "env \<Rightarrow> escalation_event \<Rightarrow> escalation_event" where
  "claimed_event env x =
     x\<lparr>eev_status := EscRunning, eev_attempts := eev_attempts x + 1, eev_error := None,
       eev_next_attempt_at := env_now env + td_seconds (cfg_worker_claim_timeout_seconds (env_settings env))\<rparr>"

definition escalation_payload ::
  "env \<Rightarrow> ownership_campaign \<Rightarrow> escalation_policy \<Rightarrow> escalation_stage \<Rightarrow> escalation_event \<Rightarrow> counts \<Rightarrow> nat \<Rightarrow> json" where
  "escalation_payload env c p g e counts remaining = JObj
     [(''campaign'', JObj (campaign_response (payload_time env) c counts)),
      (''escalation'', JObj [(''event_id'', JStr (eev_event_id e)), (''policy_id'', JStr (epol_policy_id p)),
         (''stage_key'', JStr (stg_key g)), (''offset_hours'', JInt (stg_offset_hours g)), (''recipient'', JStr (stg_recipient g)),
         (''outstanding_assignments'', JInt (int remaining))])]"

definition escalation_key :: "ownership_campaign \<Rightarrow> escalation_stage \<Rightarrow> string" where
  "escalation_key c g = ''ownership-escalation:'' @ camp_campaign_id c @ '':'' @ stg_key g"

definition escalation_type :: "escalation_stage \<Rightarrow> string" where
  "escalation_type g = (if stg_offset_hours g < 0 then ''ownership.campaign.reminder'' else ''ownership.campaign.escalated'')"

definition escalation_endpoints :: "ownership_campaign \<Rightarrow> escalation_stage \<Rightarrow> string list option" where
  "escalation_endpoints c g =
     endpoint_choice (if stg_endpoint_ids g = [] then camp_notification_endpoint_ids_json c else stg_endpoint_ids g)"

definition settled_event :: "env \<Rightarrow> (py_error \<Rightarrow> string) \<Rightarrow> integration_delivery list result \<Rightarrow> escalation_event \<Rightarrow> escalation_event" where
  "settled_event env safe_error r x =
     (case r of
        Inr ds \<Rightarrow> x\<lparr>eev_status := EscQueued, eev_delivery_count := length ds, eev_queued_at := Some (env_now env), eev_error := None\<rparr>
      | Inl e \<Rightarrow> x\<lparr>eev_status := EscFailed, eev_error := Some (safe_error e),
                  eev_next_attempt_at := env_now env + td_seconds (min 300 (2 ^ max 1 (eev_attempts x)))\<rparr>)"

text \<open>The identifiers of a stage: of its event, and of the deliveries. The result says whether the stage was queued now.\<close>

definition queue_escalation_stage ::
  "env \<Rightarrow> (py_error \<Rightarrow> string) \<Rightarrow> registration list \<Rightarrow> string \<times> uuids \<Rightarrow> ownership_campaign \<Rightarrow> escalation_policy \<Rightarrow>
     escalation_stage \<Rightarrow> counts \<Rightarrow> nat \<Rightarrow> own_state \<Rightarrow> own_state \<times> bool" where
  "queue_escalation_stage env safe_error registry uuids c p g counts remaining s =
     (case s of (db, own) \<Rightarrow>
      let now = env_now env; own1 = expire_claims env c g own; found = scalar (stage_event c g) (own_events own1) in
      if (case found of None \<Rightarrow> False | Some e \<Rightarrow> eev_status e = EscQueued \<or> now < eev_next_attempt_at e) then ((db, own1), False)
      else
        let e = (case found of Some e \<Rightarrow> e | None \<Rightarrow> new_event env (fst uuids) c p g remaining own1);
            own2 = (case found of Some _ \<Rightarrow> own1 | None \<Rightarrow> own1\<lparr>own_events := own_events own1 @ [e]\<rparr>)
        in if row_count (claimable_event now e) (own_events own2) \<noteq> 1
           then ((db, update_events (claimable_event now e) (claimed_event env) own2), False)
           else
             let own3 = update_events (claimable_event now e) (claimed_event env) own2;
                 q = queue_integration_event env registry (snd uuids) db (camp_tenant_id c) (escalation_type g)
                       (escalation_payload env c p g e counts remaining) (''ownership-escalation:'' @ eev_event_id e)
                       (escalation_endpoints c g) (Some (escalation_key c g))
             in ((fst q, update_events (\<lambda>x. eev_id x = eev_id e) (settled_event env safe_error (snd q)) own3), is_ok (snd q)))"

definition stage_due :: "time \<Rightarrow> ownership_campaign \<Rightarrow> escalation_stage \<Rightarrow> bool" where
  "stage_due now c g = (camp_due_at c + td_hours (stg_offset_hours g) \<le> now)"

text \<open>The stages of one campaign; the second component counts the stages tried, the third those queued.\<close>

fun escalate_stages ::
  "env \<Rightarrow> (py_error \<Rightarrow> string) \<Rightarrow> registration list \<Rightarrow> (nat \<Rightarrow> string \<times> uuids) \<Rightarrow> ownership_campaign \<Rightarrow> escalation_policy \<Rightarrow>
     counts \<Rightarrow> nat \<Rightarrow> escalation_stage list \<Rightarrow> own_state \<times> nat \<times> nat \<Rightarrow> own_state \<times> nat \<times> nat" where
  "escalate_stages env safe_error registry uuids c p counts remaining [] x = x"
| "escalate_stages env safe_error registry uuids c p counts remaining (g # gs) (s, n, queued) =
     (if \<not> stage_due (env_now env) c g
      then escalate_stages env safe_error registry uuids c p counts remaining gs (s, n, queued)
      else case queue_escalation_stage env safe_error registry (uuids n) c p g counts remaining s of
             (s', ok) \<Rightarrow> escalate_stages env safe_error registry uuids c p counts remaining gs
                           (s', Suc n, if ok then Suc queued else queued))"

definition escalate_campaign ::
  "env \<Rightarrow> (py_error \<Rightarrow> string) \<Rightarrow> registration list \<Rightarrow> (nat \<Rightarrow> string \<times> uuids) \<Rightarrow> ownership_campaign \<Rightarrow>
     own_state \<times> nat \<times> nat \<Rightarrow> own_state \<times> nat \<times> nat" where
  "escalate_campaign env safe_error registry uuids c x =
     (case x of ((db, own), n, queued) \<Rightarrow>
       (case (case camp_escalation_policy_id c of None \<Rightarrow> None
              | Some i \<Rightarrow> scalar (usable_policy (camp_tenant_id c) i) (own_policies own)) of
          None \<Rightarrow> x
        | Some p \<Rightarrow>
            let counts = campaign_counts own (camp_tenant_id c) (camp_campaign_id c);
                remaining = count_of counts AsgPending + count_of counts AsgRemediation
            in if remaining = 0 then x
               else escalate_stages env safe_error registry uuids c p counts remaining (epol_stages_json p) x))"

definition escalating_campaigns :: "nat \<Rightarrow> ownership \<Rightarrow> ownership_campaign list" where
  "escalating_campaigns limit own =
     take limit (order_by camp_due_at
       (where_rows (\<lambda>c. camp_status c = CampActive \<and> camp_escalation_policy_id c \<noteq> None) (own_campaigns own)))"

definition enqueue_due_ownership_escalations ::
  "env \<Rightarrow> (py_error \<Rightarrow> string) \<Rightarrow> registration list \<Rightarrow> (nat \<Rightarrow> string \<times> uuids) \<Rightarrow> nat \<Rightarrow> own_state \<Rightarrow> own_state \<times> nat" where
  "enqueue_due_ownership_escalations env safe_error registry uuids limit s =
     (case fold (escalate_campaign env safe_error registry uuids) (escalating_campaigns limit (snd s)) (s, 0, 0) of
        (s', n, queued) \<Rightarrow> (s', queued))"

section \<open>Trends\<close>

definition day_us :: time where "day_us = 86400000000"

record day_counts =
  dc_launched :: nat
  dc_completed :: nat
  dc_created :: nat
  dc_attested :: nat
  dc_resolved :: nat

definition in_day :: "int \<Rightarrow> time option \<Rightarrow> bool" where
  "in_day day t = (case t of None \<Rightarrow> False | Some u \<Rightarrow> u div day_us = day)"

definition since :: "time \<Rightarrow> time option \<Rightarrow> bool" where
  "since start t = (case t of None \<Rightarrow> False | Some u \<Rightarrow> start \<le> u)"

definition median :: "rat list \<Rightarrow> rat" where
  "median xs =
     (let s = sort xs; n = length s in
      if n mod 2 = 1 then s ! (n div 2) else (s ! (n div 2 - 1) + s ! (n div 2)) / 2)"

definition day_row :: "ownership_campaign list \<Rightarrow> ownership_assignment list \<Rightarrow> int \<Rightarrow> day_counts" where
  "day_row campaigns assignments day =
     \<lparr>dc_launched = row_count (\<lambda>c. in_day day (camp_launched_at c)) campaigns,
      dc_completed = row_count (\<lambda>c. in_day day (camp_completed_at c)) campaigns,
      dc_created = row_count (\<lambda>a. in_day day (Some (asg_created_at a))) assignments,
      dc_attested = row_count (\<lambda>a. in_day day (asg_attested_at a)) assignments,
      dc_resolved = row_count (\<lambda>a. in_day day (asg_resolved_at a)) assignments\<rparr>"

definition trend_campaigns :: "ownership \<Rightarrow> string \<Rightarrow> time \<Rightarrow> ownership_campaign list" where
  "trend_campaigns own tenant_id start =
     where_rows (\<lambda>c. camp_tenant_id c = tenant_id \<and>
       (start \<le> camp_created_at c \<or> since start (camp_launched_at c) \<or> since start (camp_completed_at c))) (own_campaigns own)"

definition trend_assignments :: "ownership \<Rightarrow> string \<Rightarrow> time \<Rightarrow> ownership_assignment list" where
  "trend_assignments own tenant_id start =
     where_rows (\<lambda>a. asg_tenant_id a = tenant_id \<and>
       (start \<le> asg_created_at a \<or> since start (asg_attested_at a) \<or> since start (asg_resolved_at a))) (own_assignments own)"

definition response_hours :: "ownership_assignment list \<Rightarrow> rat list" where
  "response_hours rows =
     List.map_filter (\<lambda>a. map_option (\<lambda>t. of_int (t - asg_created_at a) / 3600000000) (asg_attested_at a)) rows"

text \<open>The rounding of \<open>round(x, digits)\<close> is an argument.\<close>

definition rate :: "(rat \<Rightarrow> nat \<Rightarrow> rat) \<Rightarrow> nat \<Rightarrow> nat \<Rightarrow> rat option" where
  "rate rnd part whole = (if whole = 0 then None else Some (rnd (of_nat part / of_nat whole) 4))"

record trends =
  tr_start :: time
  tr_end :: time
  tr_campaign_completion_rate :: "rat option"
  tr_assignment_attestation_rate :: "rat option"
  tr_median_response_hours :: "rat option"
  tr_active_campaigns :: nat
  tr_overdue_campaigns :: nat
  tr_overdue_nonresponses :: nat
  tr_series :: "(int \<times> day_counts) list"

definition ownership_trends :: "env \<Rightarrow> (rat \<Rightarrow> nat \<Rightarrow> rat) \<Rightarrow> ownership \<Rightarrow> string \<Rightarrow> int \<Rightarrow> trends result" where
  "ownership_trends env rnd own tenant_id days =
     (if \<not> (1 \<le> days \<and> days \<le> 366) then Inl (ValueError ''Ownership trend window must be 1 to 366 days'')
      else
        let now = env_now env; first = (now - td_days (days - 1)) div day_us; start = first * day_us;
            campaigns = trend_campaigns own tenant_id start; assignments = trend_assignments own tenant_id start;
            rows = map (\<lambda>d. (d, day_row campaigns assignments d)) [first..first + days - 1];
            total = (\<lambda>f. sum_list (map (\<lambda>(d, r). f r) rows)); hours = response_hours assignments;
            active = where_rows (\<lambda>c. camp_tenant_id c = tenant_id \<and> camp_status c = CampActive) (own_campaigns own);
            overdue = remdups (map camp_campaign_id (filter (\<lambda>c. camp_due_at c < now) active))
        in Inr \<lparr>tr_start = start, tr_end = now,
             tr_campaign_completion_rate = rate rnd (total dc_completed) (total dc_launched),
             tr_assignment_attestation_rate = rate rnd (total dc_attested) (total dc_created),
             tr_median_response_hours = (if hours = [] then None else Some (rnd (median hours) 2)),
             tr_active_campaigns = length active, tr_overdue_campaigns = length overdue,
             tr_overdue_nonresponses = row_count (\<lambda>a. asg_tenant_id a = tenant_id \<and> asg_campaign_id a \<in> set overdue \<and>
                asg_status a = AsgPending) (own_assignments own),
             tr_series = rows\<rparr>)"

definition opt_rate :: "rat option \<Rightarrow> json" where
  "opt_rate r = jopt JFloat r"

definition trends_response :: "env \<Rightarrow> int \<Rightarrow> trends \<Rightarrow> dict" where
  "trends_response env days t =
     [(''window'', JObj [(''days'', JInt days), (''start'', jtime env (tr_start t)), (''end'', jtime env (tr_end t))]),
      (''summary'', JObj [(''campaign_completion_rate'', opt_rate (tr_campaign_completion_rate t)),
         (''assignment_attestation_rate'', opt_rate (tr_assignment_attestation_rate t)),
         (''median_response_hours'', opt_rate (tr_median_response_hours t)),
         (''active_campaigns'', JInt (int (tr_active_campaigns t))), (''overdue_campaigns'', JInt (int (tr_overdue_campaigns t))),
         (''overdue_nonresponses'', JInt (int (tr_overdue_nonresponses t)))]),
      (''series'', JList (map (\<lambda>(d, r). JObj
         [(''date'', JStr (take 10 (env_isoformat env (d * day_us)))), (''campaigns_launched'', JInt (int (dc_launched r))),
          (''campaigns_completed'', JInt (int (dc_completed r))), (''assignments_created'', JInt (int (dc_created r))),
          (''assignments_attested'', JInt (int (dc_attested r))), (''remediations_resolved'', JInt (int (dc_resolved r)))])
        (tr_series t)))]"

section \<open>Routes\<close>

record campaign_create =
  occ_name :: string
  occ_description :: string
  occ_scope :: dict
  occ_due_at :: datetime
  occ_escalation_policy_id :: "string option"

definition campaign_create_ok :: "campaign_create \<Rightarrow> bool" where
  "campaign_create_ok r =
     (field_length 1 160 (occ_name r) \<and> length (occ_description r) \<le> 2000 \<and> opt_field 0 36 (occ_escalation_policy_id r))"

definition create_ownership_campaign :: "env \<Rightarrow> string \<Rightarrow> principal \<Rightarrow> campaign_create \<Rightarrow> own_state \<Rightarrow> (own_state \<times> dict) result" where
  "create_ownership_campaign env uuid who r s =
     rbind (require_role DataOwner who) (\<lambda>_.
     rbind (check_body (campaign_create_ok r)) (\<lambda>_.
     rbind (bad_request (conflict_on_integrity ''Ownership campaign name already exists''
              (create_campaign env uuid (p_tenant_id who) (occ_name r) (occ_description r) (JObj (occ_scope r))
                 (dt_wall (occ_due_at r)) (p_subject who) None [] (occ_escalation_policy_id r) (snd s)))) (\<lambda>(own, c).
     Inr ((fst s, own), campaign_response (jtime env) c []))))"

definition with_counts :: "env \<Rightarrow> ownership \<Rightarrow> ownership_campaign \<Rightarrow> dict" where
  "with_counts env own c = campaign_response (jtime env) c (campaign_counts own (camp_tenant_id c) (camp_campaign_id c))"

definition list_ownership_campaigns :: "env \<Rightarrow> principal \<Rightarrow> campaign_state option \<Rightarrow> ownership \<Rightarrow> dict list result" where
  "list_ownership_campaigns env who status own =
     rbind (require_role Auditor who) (\<lambda>_.
     Inr (map (with_counts env own) (order_by_desc camp_created_at (where_rows (\<lambda>c. camp_tenant_id c = p_tenant_id who \<and>
       (case status of None \<Rightarrow> True | Some x \<Rightarrow> camp_status c = x)) (own_campaigns own)))))"

definition campaign_or_404 :: "ownership \<Rightarrow> string \<Rightarrow> string \<Rightarrow> ownership_campaign result" where
  "campaign_or_404 own tenant_id campaign_id =
     (case find_campaign own tenant_id campaign_id of
        None \<Rightarrow> Inl (HTTPException 404 ''Ownership campaign not found'') | Some c \<Rightarrow> Inr c)"

definition get_ownership_campaign :: "env \<Rightarrow> principal \<Rightarrow> string \<Rightarrow> ownership \<Rightarrow> dict result" where
  "get_ownership_campaign env who campaign_id own =
     rbind (require_role Auditor who) (\<lambda>_.
     rbind (campaign_or_404 own (p_tenant_id who) campaign_id) (\<lambda>c. Inr (with_counts env own c)))"

definition launch_ownership_attestations ::
  "env \<Rightarrow> registration list \<Rightarrow> (nat \<Rightarrow> string) \<Rightarrow> uuids \<Rightarrow> principal \<Rightarrow> string \<Rightarrow> int \<Rightarrow> own_state \<Rightarrow> (own_state \<times> dict) result" where
  "launch_ownership_attestations env registry uuids us who campaign_id max_assets s =
     rbind (require_role DataOwner who) (\<lambda>_.
     rbind (check_body (1 \<le> max_assets \<and> max_assets \<le> 100000)) (\<lambda>_.
     rbind (campaign_or_404 (snd s) (p_tenant_id who) campaign_id) (\<lambda>c.
     rbind (conflict_on_value_error (launch_campaign env registry uuids us c max_assets s)) (\<lambda>(s', c', n).
     Inr (s', with_counts env (snd s') c' @ [(''assignment_count'', JInt (int n))])))))"

definition list_ownership_assignments ::
  "env \<Rightarrow> principal \<Rightarrow> string \<Rightarrow> assignment_state option \<Rightarrow> nat \<Rightarrow> ownership \<Rightarrow> dict list result" where
  "list_ownership_assignments env who campaign_id status limit own =
     rbind (require_role Auditor who) (\<lambda>_.
     rbind (check_body (1 \<le> limit \<and> limit \<le> 5000)) (\<lambda>_.
     rbind (campaign_or_404 own (p_tenant_id who) campaign_id) (\<lambda>_.
     Inr (map (assignment_response (jtime env)) (take limit (order_by asg_created_at
       (where_rows (\<lambda>a. of_campaign (p_tenant_id who) campaign_id a \<and>
          (case status of None \<Rightarrow> True | Some x \<Rightarrow> asg_status a = x)) (own_assignments own))))))))"

definition assignment_or_404 :: "ownership \<Rightarrow> string \<Rightarrow> string \<Rightarrow> ownership_assignment result" where
  "assignment_or_404 own tenant_id assignment_id =
     (case scalar (\<lambda>a. asg_tenant_id a = tenant_id \<and> asg_assignment_id a = assignment_id) (own_assignments own) of
        None \<Rightarrow> Inl (HTTPException 404 ''Ownership assignment not found'') | Some a \<Rightarrow> Inr a)"

definition attestation_ok :: "attestation \<Rightarrow> bool" where
  "attestation_ok r = (opt_field 1 320 (att_owner r) \<and> length (att_note r) \<le> 2000 \<and> opt_field 0 2000 (att_action r))"

definition attest_catalog_ownership ::
  "env \<Rightarrow> registration list \<Rightarrow> uuids \<Rightarrow> uuids \<Rightarrow> principal \<Rightarrow> string \<Rightarrow> attestation \<Rightarrow> own_state \<Rightarrow> (own_state \<times> dict) result" where
  "attest_catalog_ownership env registry us us' who assignment_id r s =
     rbind (require_role DataOwner who) (\<lambda>_.
     rbind (check_body (attestation_ok r)) (\<lambda>_.
     rbind (assignment_or_404 (snd s) (p_tenant_id who) assignment_id) (\<lambda>a.
     rbind (conflict_on_value_error (attest_assignment env registry us us' a r (p_subject who) s)) (\<lambda>(s', a').
     Inr (s', assignment_response (jtime env) a')))))"

definition update_catalog_ownership_remediation ::
  "env \<Rightarrow> principal \<Rightarrow> string \<Rightarrow> string \<Rightarrow> datetime \<Rightarrow> own_state \<Rightarrow> (own_state \<times> dict) result" where
  "update_catalog_ownership_remediation env who assignment_id action due_at s =
     rbind (require_role DataOwner who) (\<lambda>_.
     rbind (check_body (field_length 3 2000 action)) (\<lambda>_.
     rbind (assignment_or_404 (snd s) (p_tenant_id who) assignment_id) (\<lambda>a.
     rbind (conflict_on_value_error (update_remediation env a action due_at (snd s))) (\<lambda>(own, a').
     Inr ((fst s, own), assignment_response (jtime env) a')))))"

definition resolve_catalog_ownership_remediation ::
  "env \<Rightarrow> registration list \<Rightarrow> uuids \<Rightarrow> principal \<Rightarrow> string \<Rightarrow> own_state \<Rightarrow> (own_state \<times> dict) result" where
  "resolve_catalog_ownership_remediation env registry us who assignment_id s =
     rbind (require_role DataOwner who) (\<lambda>_.
     rbind (assignment_or_404 (snd s) (p_tenant_id who) assignment_id) (\<lambda>a.
     rbind (conflict_on_value_error (resolve_remediation env registry us a (p_subject who) s)) (\<lambda>(s', a').
     Inr (s', assignment_response (jtime env) a'))))"

record policy_create =
  epc_name :: string
  epc_description :: string
  epc_stages :: "escalation_stage list"
  epc_enabled :: bool

definition stage_ok :: "escalation_stage \<Rightarrow> bool" where
  "stage_ok g =
     (field_length 1 80 (stg_key g) \<and> list_all name_char (stg_key g) \<and> - 8760 \<le> stg_offset_hours g \<and> stg_offset_hours g \<le> 8760 \<and>
      stg_recipient g \<in> {''owner'', ''data-owner'', ''administrator''} \<and> length (stg_endpoint_ids g) \<le> 50)"

definition policy_create_ok :: "policy_create \<Rightarrow> bool" where
  "policy_create_ok r =
     (field_length 1 160 (epc_name r) \<and> length (epc_description r) \<le> 2000 \<and> 1 \<le> length (epc_stages r) \<and>
      length (epc_stages r) \<le> 20 \<and> list_all stage_ok (epc_stages r))"

definition create_ownership_escalation_policy ::
  "env \<Rightarrow> string \<Rightarrow> principal \<Rightarrow> policy_create \<Rightarrow> own_state \<Rightarrow> (own_state \<times> dict) result" where
  "create_ownership_escalation_policy env uuid who r s =
     rbind (require_role DataOwner who) (\<lambda>_.
     rbind (check_body (policy_create_ok r)) (\<lambda>_.
     rbind (bad_request (conflict_on_integrity ''Ownership escalation policy name already exists''
              (create_escalation_policy env uuid (p_tenant_id who) (epc_name r) (epc_description r) (epc_stages r) (epc_enabled r)
                 (p_subject who) s))) (\<lambda>(own, p).
     Inr ((fst s, own), escalation_policy_response env p))))"

definition list_ownership_escalation_policies :: "env \<Rightarrow> principal \<Rightarrow> bool option \<Rightarrow> ownership \<Rightarrow> dict list result" where
  "list_ownership_escalation_policies env who enabled own =
     rbind (require_role Auditor who) (\<lambda>_.
     Inr (map (escalation_policy_response env) (order_by_desc epol_created_at (where_rows (\<lambda>p. epol_tenant_id p = p_tenant_id who \<and>
       (case enabled of None \<Rightarrow> True | Some b \<Rightarrow> epol_enabled p = b)) (own_policies own)))))"

definition policy_update_ok :: "policy_update \<Rightarrow> bool" where
  "policy_update_ok r =
     ((case pu_description r of None \<Rightarrow> True | Some d \<Rightarrow> length d \<le> 2000) \<and>
      (case pu_stages r of None \<Rightarrow> True | Some ss \<Rightarrow> 1 \<le> length ss \<and> length ss \<le> 20 \<and> list_all stage_ok ss))"

definition update_ownership_escalation_policy ::
  "env \<Rightarrow> principal \<Rightarrow> string \<Rightarrow> policy_update \<Rightarrow> own_state \<Rightarrow> (own_state \<times> dict) result" where
  "update_ownership_escalation_policy env who policy_id r s =
     rbind (require_role DataOwner who) (\<lambda>_.
     rbind (check_body (policy_update_ok r)) (\<lambda>_.
     case scalar (\<lambda>p. epol_tenant_id p = p_tenant_id who \<and> epol_policy_id p = policy_id) (own_policies (snd s)) of
       None \<Rightarrow> Inl (HTTPException 404 ''Ownership escalation policy not found'')
     | Some p \<Rightarrow>
         rbind (bad_request (update_escalation_policy env p r s)) (\<lambda>(own, p').
         Inr ((fst s, own), escalation_policy_response env p'))))"

definition escalation_event_response :: "env \<Rightarrow> escalation_event \<Rightarrow> dict" where
  "escalation_event_response env e =
     [(''event_id'', JStr (eev_event_id e)), (''campaign_id'', JStr (eev_campaign_id e)), (''policy_id'', JStr (eev_policy_id e)),
      (''stage_key'', JStr (eev_stage_key e)), (''offset_hours'', JInt (eev_offset_hours e)), (''recipient'', JStr (eev_recipient e)),
      (''status'', JStr (esc_status_str (eev_status e))), (''attempts'', JInt (int (eev_attempts e))),
      (''assignment_count'', JInt (int (eev_assignment_count e))), (''delivery_count'', JInt (int (eev_delivery_count e))),
      (''error'', jopt JStr (eev_error e)), (''triggered_at'', jtime env (eev_triggered_at e)),
      (''queued_at'', jopt (jtime env) (eev_queued_at e))]"

definition list_ownership_escalation_events ::
  "env \<Rightarrow> principal \<Rightarrow> escalation_state option \<Rightarrow> nat \<Rightarrow> ownership \<Rightarrow> dict list result" where
  "list_ownership_escalation_events env who status limit own =
     rbind (require_role Auditor who) (\<lambda>_.
     rbind (check_body (1 \<le> limit \<and> limit \<le> 1000)) (\<lambda>_.
     Inr (map (escalation_event_response env) (take limit (order_by_desc eev_triggered_at
       (where_rows (\<lambda>e. eev_tenant_id e = p_tenant_id who \<and> (case status of None \<Rightarrow> True | Some x \<Rightarrow> eev_status e = x))
          (own_events own)))))))"

definition get_ownership_analytics_trends :: "env \<Rightarrow> (rat \<Rightarrow> nat \<Rightarrow> rat) \<Rightarrow> principal \<Rightarrow> int \<Rightarrow> ownership \<Rightarrow> dict result" where
  "get_ownership_analytics_trends env rnd who days own =
     rbind (require_role Auditor who) (\<lambda>_.
     rbind (check_body (1 \<le> days \<and> days \<le> 366)) (\<lambda>_.
     rbind (ownership_trends env rnd own (p_tenant_id who) days) (\<lambda>t. Inr (trends_response env days t))))"


section \<open>Tables and their keys\<close>

definition camp_key :: "ownership_campaign \<Rightarrow> string \<times> string" where
  "camp_key c = (camp_tenant_id c, camp_campaign_id c)"

definition asg_camp :: "ownership_assignment \<Rightarrow> string \<times> string" where
  "asg_camp a = (asg_tenant_id a, asg_campaign_id a)"

lemma of_campaign_key: "of_campaign t i a \<longleftrightarrow> asg_camp a = (t, i)"
  by (simp add: of_campaign_def asg_camp_def)

text \<open>The row of a table that a copy with the same identifier replaces.\<close>

lemma replace_row:
  assumes "unique_key k t" and "r \<in> set t" and "k r' = k r"
  shows "set (update_rows (\<lambda>x. k x = k r') (\<lambda>x. r') t) = insert r' (set t - {r})"
proof -
  have "(if k x = k r' then r' else x) = (if x = r then r' else x)" if "x \<in> set t" for x
    using unique_key_eq[OF assms(1) that assms(2)] assms(3) by auto
  then have "(\<lambda>x. if k x = k r' then r' else x) ` set t = (\<lambda>x. if x = r then r' else x) ` set t"
    by (intro image_cong) auto
  then show ?thesis using assms(2) by (auto simp: set_update_rows)
qed

lemma replace_keeps:
  assumes "unique_key k t" and "r \<in> set t" and "k r' = k r" and "g r' = g r"
  shows "map g (update_rows (\<lambda>x. k x = k r') (\<lambda>x. r') t) = map g t"
proof -
  have "g (if k x = k r' then r' else x) = g x" if "x \<in> set t" for x
    using unique_key_eq[OF assms(1) that assms(2)] assms(3,4) by auto
  then show ?thesis by (simp add: update_rows_def)
qed

definition state_ok :: "ownership_assignment list \<Rightarrow> ownership_campaign \<Rightarrow> bool" where
  "state_ok rows c \<longleftrightarrow>
     (camp_status c = CampDraft \<longrightarrow> (\<forall>a \<in> set rows. asg_camp a \<noteq> camp_key c)) \<and>
     (camp_status c = CampActive \<longleftrightarrow> (\<exists>a \<in> set rows. asg_camp a = camp_key c \<and> outstanding a)) \<and>
     (camp_status c = CampCompleted \<longrightarrow> (\<exists>a \<in> set rows. asg_camp a = camp_key c))"

definition own_keys :: "ownership \<Rightarrow> bool" where
  "own_keys own \<longleftrightarrow>
     unique_key camp_id (own_campaigns own) \<and> unique_key camp_key (own_campaigns own) \<and> unique_key asg_id (own_assignments own) \<and>
     asg_camp ` set (own_assignments own) \<subseteq> camp_key ` set (own_campaigns own)"

definition own_ok :: "ownership \<Rightarrow> bool" where
  "own_ok own \<longleftrightarrow> own_keys own \<and> (\<forall>c \<in> set (own_campaigns own). state_ok (own_assignments own) c)"

text \<open>One campaign may still be active although nothing of it is outstanding: an assignment was just settled.\<close>

definition settling_ok :: "string \<times> string \<Rightarrow> ownership \<Rightarrow> bool" where
  "settling_ok k own \<longleftrightarrow>
     own_keys own \<and> (\<forall>c \<in> set (own_campaigns own). camp_key c \<noteq> k \<longrightarrow> state_ok (own_assignments own) c) \<and>
     (\<exists>a \<in> set (own_assignments own). asg_camp a = k) \<and>
     (\<forall>c \<in> set (own_campaigns own). camp_key c = k \<longrightarrow> camp_status c \<noteq> CampDraft \<and>
        ((\<exists>a \<in> set (own_assignments own). asg_camp a = k \<and> outstanding a) \<longrightarrow> camp_status c = CampActive))"

lemma fields_update [simp]:
  "own_campaigns (update_campaigns P f own) = update_rows P f (own_campaigns own)"
  "own_assignments (update_campaigns P f own) = own_assignments own"
  "own_campaigns (update_assignments R g own) = own_campaigns own"
  "own_assignments (update_assignments R g own) = update_rows R g (own_assignments own)"
  "own_events (update_campaigns P f own) = own_events own" "own_events (update_assignments R g own) = own_events own"
  "own_campaigns (update_events Q h own) = own_campaigns own" "own_assignments (update_events Q h own) = own_assignments own"
  "own_events (update_events Q h own) = update_rows Q h (own_events own)"
  "own_policies (update_campaigns P f own) = own_policies own" "own_policies (update_assignments R g own) = own_policies own"
  "own_policies (update_events Q h own) = own_policies own" "own_schedules (update_campaigns P f own) = own_schedules own"
  "own_schedules (update_assignments R g own) = own_schedules own" "own_schedules (update_events Q h own) = own_schedules own"
  by (simp_all add: update_campaigns_def update_assignments_def update_events_def)

lemma replace_campaign_keys:
  assumes "own_keys own" and "c \<in> set (own_campaigns own)" and "camp_id c' = camp_id c" "camp_key c' = camp_key c"
  shows "own_keys (update_campaigns (\<lambda>x. camp_id x = camp_id c') (\<lambda>x. c') own)"
proof -
  have u: "unique_key camp_id (own_campaigns own)" using assms(1) by (simp add: own_keys_def)
  have "map camp_key (update_rows (\<lambda>x. camp_id x = camp_id c') (\<lambda>x. c') (own_campaigns own)) = map camp_key (own_campaigns own)"
    by (rule replace_keeps[OF u assms(2,3,4)])
  moreover have "map camp_id (update_rows (\<lambda>x. camp_id x = camp_id c') (\<lambda>x. c') (own_campaigns own)) = map camp_id (own_campaigns own)"
    by (rule replace_keeps[OF u assms(2,3,3)])
  ultimately show ?thesis
    using assms(1) by (auto simp: own_keys_def unique_key_def simp flip: set_map)
qed

lemma completes:
  assumes "settling_ok (t, i) own"
  shows "own_ok (snd (complete_campaign_if_ready env registry us t i (db, own)))"
proof (cases "scalar (\<lambda>a. of_campaign t i a \<and> outstanding a) (own_assignments own)")
  case (Some a)
  then have "a \<in> set (own_assignments own)" "asg_camp a = (t, i)" "outstanding a"
    by (auto dest!: scalar_Some simp: of_campaign_key)
  with assms Some show ?thesis
    by (auto simp: complete_campaign_if_ready_def own_ok_def settling_ok_def state_ok_def)
next
  case None
  then have none: "\<not> (asg_camp a = (t, i) \<and> outstanding a)" if "a \<in> set (own_assignments own)" for a
    using that by (auto simp: scalar_None of_campaign_key)
  show ?thesis
  proof (cases "scalar (\<lambda>c. camp_tenant_id c = t \<and> camp_campaign_id c = i \<and> camp_status c = CampActive) (own_campaigns own)")
    case (Some c)
    define c' where "c' = completed_campaign (env_now env) c"
    from Some have c: "c \<in> set (own_campaigns own)" "camp_key c = (t, i)"
      by (auto dest!: scalar_Some simp: camp_key_def)
    have k: "camp_id c' = camp_id c" "camp_key c' = camp_key c" by (simp_all add: c'_def completed_campaign_def camp_key_def)
    have keys: "own_keys own" using assms by (simp add: settling_ok_def)
    have rows: "set (update_rows (\<lambda>x. camp_id x = camp_id c') (\<lambda>x. c') (own_campaigns own)) = insert c' (set (own_campaigns own) - {c})"
      by (rule replace_row) (use keys c k in \<open>auto simp: own_keys_def\<close>)
    have other: "camp_key x \<noteq> (t, i)" if "x \<in> set (own_campaigns own) - {c}" for x
      using unique_key_eq[of camp_key "own_campaigns own" x c] keys c that by (auto simp: own_keys_def)
    have "state_ok (own_assignments own) c'"
      using assms none k c by (auto simp: state_ok_def settling_ok_def c'_def completed_campaign_def)
    moreover have "snd (complete_campaign_if_ready env registry us t i (db, own)) =
        update_campaigns (\<lambda>x. camp_id x = camp_id c') (\<lambda>x. c') own"
      using None Some by (simp add: complete_campaign_if_ready_def c'_def[symmetric] k Let_def)
    ultimately show ?thesis
      using replace_campaign_keys[OF keys c(1) k] rows other assms by (auto simp: own_ok_def settling_ok_def)
  next
    case no: None
    with None have "snd (complete_campaign_if_ready env registry us t i (db, own)) = own"
      by (simp add: complete_campaign_if_ready_def)
    moreover have "camp_status c \<noteq> CampActive" if "c \<in> set (own_campaigns own)" "camp_key c = (t, i)" for c
      using no that by (auto simp: scalar_None camp_key_def)
    ultimately show ?thesis
      using assms none by (auto simp: own_ok_def settling_ok_def state_ok_def)
  qed
qed

lemma replace_assignment_settling:
  assumes "own_ok own" and "a \<in> set (own_assignments own)" and "asg_id a' = asg_id a" "asg_camp a' = asg_camp a"
    and "outstanding a"
  shows "settling_ok (asg_camp a) (replace_assignment a' own)"
proof -
  let ?rows = "update_rows (\<lambda>x. asg_id x = asg_id a') (\<lambda>x. a') (own_assignments own)"
  from assms(1) have keys: "own_keys own" and ok: "\<And>c. c \<in> set (own_campaigns own) \<Longrightarrow> state_ok (own_assignments own) c"
    by (auto simp: own_ok_def)
  have u: "unique_key asg_id (own_assignments own)" using keys by (simp add: own_keys_def)
  have rows: "set ?rows = insert a' (set (own_assignments own) - {a})" by (rule replace_row[OF u assms(2,3)])
  have "map asg_camp ?rows = map asg_camp (own_assignments own)" by (rule replace_keeps[OF u assms(2,3,4)])
  moreover have "map asg_id ?rows = map asg_id (own_assignments own)" by (rule replace_keeps[OF u assms(2,3,3)])
  ultimately have "own_keys (replace_assignment a' own)"
    using keys by (auto simp: own_keys_def unique_key_def replace_assignment_def simp flip: set_map)
  moreover have "state_ok ?rows c" if "c \<in> set (own_campaigns own)" "camp_key c \<noteq> asg_camp a" for c
    using ok[OF that(1)] that(2) assms(4) by (auto simp: state_ok_def rows)
  moreover have "camp_status c = CampActive" if "c \<in> set (own_campaigns own)" "camp_key c = asg_camp a" for c
    using ok[OF that(1)] assms(2,5) that(2) by (auto simp: state_ok_def)
  ultimately show ?thesis
    by (auto simp: settling_ok_def replace_assignment_def rows assms(4))
qed

lemma create_campaign_Inr:
  assumes "create_campaign env uuid t name d scope due by sid eps pid own = Inr (own', c)"
  obtains normalized pol where "validate_scope scope = Inr normalized" "env_now env < due"
    "c = new_campaign env uuid t name d normalized due by sid eps pol own"
    "\<not> list_ex (campaign_conflict c) (own_campaigns own)" "own' = own\<lparr>own_campaigns := own_campaigns own @ [c]\<rparr>"
  using assms by (auto simp: create_campaign_def result_simps Let_def)

lemma create_campaign_ok:
  assumes "own_ok own" and "create_campaign env uuid t name d scope due by sid eps pid own = Inr (own', c)"
  shows "own_ok own'"
proof -
  from assms(2) obtain normalized pol where c: "c = new_campaign env uuid t name d normalized due by sid eps pol own"
    "\<not> list_ex (campaign_conflict c) (own_campaigns own)" "own' = own\<lparr>own_campaigns := own_campaigns own @ [c]\<rparr>"
    by (rule create_campaign_Inr)
  have id: "camp_id c = next_id camp_id (own_campaigns own)" "camp_status c = CampDraft" by (simp_all add: c(1) new_campaign_def)
  have new: "camp_key c \<notin> camp_key ` set (own_campaigns own)"
    using c(2) by (auto simp: list_ex_iff campaign_conflict_def camp_key_def)
  have "asg_camp ` set (own_assignments own) \<subseteq> camp_key ` set (own_campaigns own)"
    using assms(1) by (simp add: own_ok_def own_keys_def)
  with new have none: "\<forall>a \<in> set (own_assignments own). asg_camp a \<noteq> camp_key c" by (metis imageI subsetD)
  have "own_keys own'"
    using assms(1) new unique_key_insert[of camp_id "own_campaigns own" c] id
    by (auto simp: own_ok_def own_keys_def c(3) unique_key_def)
  with assms(1) none id show ?thesis by (auto simp: own_ok_def c(3) state_ok_def)
qed

lemma launch_campaign_Inr:
  assumes "launch_campaign env registry uuids us c n (db, own) = Inr (s', c', m)"
  obtains rows where "camp_status c = CampDraft" "env_now env < camp_due_at c" "campaign_assets c n db \<noteq> []"
    "rows = new_assignments env uuids c (campaign_assets c n db) own" "assignments_unique (own_assignments own @ rows)"
    "c' = launched_campaign (env_now env) c" "m = length (campaign_assets c n db)"
    "snd s' = update_campaigns (\<lambda>x. camp_id x = camp_id c') (\<lambda>x. c') (own\<lparr>own_assignments := own_assignments own @ rows\<rparr>)"
    "fst s' = queue_campaign_event env registry us c' ''ownership.campaign.launched'' db"
  using assms by (auto simp: launch_campaign_def result_simps Let_def launched_campaign_def)

lemma new_assignments_facts:
  "a \<in> set (new_assignments env uuids c assets own) \<Longrightarrow> asg_camp a = camp_key c \<and> asg_status a = AsgPending \<and> outstanding a"
  "new_assignments env uuids c assets own = [] \<longleftrightarrow> assets = []"
  "map asg_id (new_assignments env uuids c assets own) = map ((+) (next_id asg_id (own_assignments own))) [0..<length assets]"
  "map asg_asset_id (new_assignments env uuids c assets own) = map asset_id assets"
  by (auto simp: new_assignments_def new_assignment_def asg_camp_def camp_key_def outstanding_def enumerate_eq_zip
      intro!: nth_equalityI)

lemma launch_campaign_ok:
  assumes "own_ok own" and "c \<in> set (own_campaigns own)"
    and "launch_campaign env registry uuids us c n (db, own) = Inr (s', c', m)"
  shows "own_ok (snd s')"
proof -
  from assms(3) obtain rows where l: "camp_status c = CampDraft" "campaign_assets c n db \<noteq> []"
    "rows = new_assignments env uuids c (campaign_assets c n db) own" "c' = launched_campaign (env_now env) c"
    and s': "snd s' = update_campaigns (\<lambda>x. camp_id x = camp_id c') (\<lambda>x. c') (own\<lparr>own_assignments := own_assignments own @ rows\<rparr>)"
    by (rule launch_campaign_Inr)
  have k: "camp_id c' = camp_id c" "camp_key c' = camp_key c" "camp_status c' = CampActive"
    by (simp_all add: l(4) launched_campaign_def camp_key_def)
  have keys: "own_keys own" using assms(1) by (simp add: own_ok_def)
  have ids: "asg_id a \<noteq> asg_id x" if "a \<in> set rows" "x \<in> set (own_assignments own)" for a x
  proof -
    have "asg_id a \<in> set (map asg_id rows)" using that(1) by simp
    then have "next_id asg_id (own_assignments own) \<le> asg_id a" by (auto simp: l(3) new_assignments_facts(3))
    with next_id_upper[OF that(2), of asg_id] show ?thesis by simp
  qed
  have "distinct (map asg_id rows)" by (simp add: l(3) new_assignments_facts(3) distinct_map)
  then have "unique_key asg_id (own_assignments own @ rows)"
    using keys ids by (fastforce simp: own_keys_def unique_key_def)
  moreover have "asg_camp ` set rows \<subseteq> camp_key ` set (own_campaigns own)"
    using assms(2) by (auto simp: l(3) new_assignments_facts(1))
  ultimately have keys': "own_keys (own\<lparr>own_assignments := own_assignments own @ rows\<rparr>)"
    using keys by (auto simp: own_keys_def)
  have set': "set (own_campaigns (snd s')) = insert c' (set (own_campaigns own) - {c})"
    unfolding s' fields_update by (simp, rule replace_row) (use keys assms(2) k in \<open>auto simp: own_keys_def\<close>)
  have other: "camp_key x \<noteq> camp_key c" if "x \<in> set (own_campaigns own) - {c}" for x
    using unique_key_eq[of camp_key "own_campaigns own" x c] keys assms(2) that by (auto simp: own_keys_def)
  from l(2) obtain a where "a \<in> set rows" by (metis l(3) new_assignments_facts(2) hd_in_set)
  then have new: "state_ok (own_assignments own @ rows) c'"
    using k by (auto simp: state_ok_def l(3) dest: new_assignments_facts(1) intro!: bexI[of _ a])
  have "state_ok (own_assignments own @ rows) x" if "x \<in> set (own_campaigns own) - {c}" for x
  proof -
    have "state_ok (own_assignments own) x" using assms(1) that by (simp add: own_ok_def)
    with other[OF that] show ?thesis by (auto simp: state_ok_def l(3) dest!: new_assignments_facts(1))
  qed
  with new replace_campaign_keys[OF keys', of c c'] assms(2) k set' show ?thesis
    by (auto simp: own_ok_def s')
qed

lemma attested_row:
  assumes "attested env a r db = Inr (db', a')"
  shows "asg_id a' = asg_id a \<and> asg_camp a' = asg_camp a \<and> db_deliveries db' = db_deliveries db"
  using assms by (auto simp: attested_def result_simps Let_def asg_camp_def update_assets_def split: if_splits option.splits)

lemma attest_assignment_Inr:
  assumes "attest_assignment env registry us us' a r by (db, own) = Inr (s', a')"
  obtains db1 a1 db2 where "outstanding a" "attested env a r db = Inr (db1, a1)"
    "a' = a1\<lparr>asg_attestation_note := Some (att_note r), asg_attested_by := Some by, asg_attested_at := Some (env_now env)\<rparr>"
    "s' = complete_campaign_if_ready env registry us' (asg_tenant_id a') (asg_campaign_id a') (db2, replace_assignment a' own)"
    "(db2, replace_assignment a' own) =
       (if asg_status a' = AsgRemediation
        then queue_assignment_event env registry us a' ''ownership.assignment.remediation-required'' (db1, replace_assignment a' own)
        else (db1, replace_assignment a' own))"
proof -
  from assms obtain db1 a1 where o: "outstanding a" "attested env a r db = Inr (db1, a1)"
    by (auto simp: attest_assignment_def result_simps)
  define a2 where "a2 = a1\<lparr>asg_attestation_note := Some (att_note r), asg_attested_by := Some by, asg_attested_at := Some (env_now env)\<rparr>"
  define s2 where "s2 = (if asg_status a2 = AsgRemediation
        then queue_assignment_event env registry us a2 ''ownership.assignment.remediation-required'' (db1, replace_assignment a2 own)
        else (db1, replace_assignment a2 own))"
  have "snd s2 = replace_assignment a2 own" by (simp add: s2_def queue_assignment_event_def)
  then obtain db2 where db2: "s2 = (db2, replace_assignment a2 own)" by (metis prod.collapse)
  from assms o have e: "a' = a2" and s': "s' = complete_campaign_if_ready env registry us' (asg_tenant_id a2) (asg_campaign_id a2) s2"
    unfolding attest_assignment_def by (auto simp: Let_def s2_def a2_def)
  show thesis
  proof (rule that[OF o])
    show "a' = a1\<lparr>asg_attestation_note := Some (att_note r), asg_attested_by := Some by, asg_attested_at := Some (env_now env)\<rparr>"
      by (simp only: e a2_def)
    show "s' = complete_campaign_if_ready env registry us' (asg_tenant_id a') (asg_campaign_id a') (db2, replace_assignment a' own)"
      by (simp only: s' e db2)
    show "(db2, replace_assignment a' own) =
       (if asg_status a' = AsgRemediation
        then queue_assignment_event env registry us a' ''ownership.assignment.remediation-required'' (db1, replace_assignment a' own)
        else (db1, replace_assignment a' own))"
      unfolding e db2[symmetric] by (rule s2_def)
  qed
qed

lemma attest_assignment_ok:
  assumes "own_ok own" and "a \<in> set (own_assignments own)"
    and "attest_assignment env registry us us' a r by (db, own) = Inr (s', a')"
  shows "own_ok (snd s')"
proof -
  from assms(3) obtain db1 a1 db2 where t: "outstanding a" "attested env a r db = Inr (db1, a1)"
    "a' = a1\<lparr>asg_attestation_note := Some (att_note r), asg_attested_by := Some by, asg_attested_at := Some (env_now env)\<rparr>"
    "s' = complete_campaign_if_ready env registry us' (asg_tenant_id a') (asg_campaign_id a') (db2, replace_assignment a' own)"
    by (rule attest_assignment_Inr)
  from attested_row[OF t(2)] have k: "asg_id a' = asg_id a" "asg_camp a' = asg_camp a"
    by (simp_all add: t(3) asg_camp_def)
  then have "(asg_tenant_id a', asg_campaign_id a') = asg_camp a" by (simp add: asg_camp_def)
  with completes[of "asg_tenant_id a'" "asg_campaign_id a'"] replace_assignment_settling[OF assms(1,2) k t(1)] show ?thesis
    by (simp add: t(4))
qed

lemma resolve_remediation_Inr:
  assumes "resolve_remediation env registry us a by (db, own) = Inr (s', a')"
  shows "asg_status a = AsgRemediation \<and>
    a' = a\<lparr>asg_status := AsgResolved, asg_resolved_by := Some by, asg_resolved_at := Some (env_now env)\<rparr> \<and>
    s' = complete_campaign_if_ready env registry us (asg_tenant_id a') (asg_campaign_id a') (db, replace_assignment a' own)"
  using assms by (auto simp: resolve_remediation_def result_simps Let_def)

lemma resolve_remediation_ok:
  assumes "own_ok own" and "a \<in> set (own_assignments own)" and "resolve_remediation env registry us a by (db, own) = Inr (s', a')"
  shows "own_ok (snd s')"
proof -
  note r = resolve_remediation_Inr[OF assms(3)]
  then have k: "asg_id a' = asg_id a" "asg_camp a' = asg_camp a" "outstanding a" by (auto simp: asg_camp_def outstanding_def)
  then have "(asg_tenant_id a', asg_campaign_id a') = asg_camp a" by (simp add: asg_camp_def)
  with completes[of "asg_tenant_id a'" "asg_campaign_id a'"] replace_assignment_settling[OF assms(1,2) k] r show ?thesis
    by simp
qed

lemma update_remediation_ok:
  assumes "own_ok own" and "a \<in> set (own_assignments own)" and "update_remediation env a act due own = Inr (own', a')"
  shows "own_ok own'"
proof -
  from assms(3) have a': "asg_status a = AsgRemediation" "asg_id a' = asg_id a" "asg_camp a' = asg_camp a" "asg_status a' = AsgRemediation"
    and own': "own' = replace_assignment a' own"
    by (auto simp: update_remediation_def result_simps Let_def asg_camp_def)
  let ?rows = "update_rows (\<lambda>x. asg_id x = asg_id a') (\<lambda>x. a') (own_assignments own)"
  have keys: "own_keys own" using assms(1) by (simp add: own_ok_def)
  then have u: "unique_key asg_id (own_assignments own)" by (simp add: own_keys_def)
  have rows: "set ?rows = insert a' (set (own_assignments own) - {a})" by (rule replace_row[OF u assms(2) a'(2)])
  have "state_ok ?rows c = state_ok (own_assignments own) c" for c
    using a'(1,3,4) assms(2) by (auto simp: state_ok_def rows outstanding_def)
  moreover have "own_keys own'"
    using keys replace_keeps[OF u assms(2) a'(2,3)] replace_keeps[OF u assms(2) a'(2,2)]
    by (auto simp: own' own_keys_def unique_key_def replace_assignment_def simp flip: set_map)
  ultimately show ?thesis using assms(1) by (simp add: own_ok_def own' replace_assignment_def)
qed

section \<open>Deliveries and escalation events\<close>

definition keys_once :: "db \<Rightarrow> bool" where
  "keys_once db \<longleftrightarrow> (\<forall>t eid k. k \<noteq> [] \<longrightarrow> row_count (keyed t eid (Some k)) (db_deliveries db) \<le> 1)"

lemma queue_delivery_once:
  assumes "keys_once db" and "queue_delivery env registry uuid t ty payload by key ep db = (db', r)"
  shows "keys_once db'"
proof (cases "truthy_opt key \<and> (\<exists>d \<in> set (db_deliveries db). keyed t (endpoint_endpoint_id ep) key d)")
  case True
  with queue_delivery_cases[OF assms(2)] assms(1) show ?thesis by (simp add: keys_once_def)
next
  case False
  let ?d = "new_delivery db (env_now env) (fst uuid) t (endpoint_endpoint_id ep) key ty payload None"
  have d: "db_deliveries db' = db_deliveries db @ [?d]" using queue_delivery_cases[OF assms(2)] False by auto
  have "row_count (keyed t' eid (Some k)) (db_deliveries db') \<le> 1" if "k \<noteq> []" for t' eid k
  proof (cases "t' = t \<and> eid = endpoint_endpoint_id ep \<and> Some k = key")
    case True
    with that False have "row_count (keyed t' eid (Some k)) (db_deliveries db) = 0"
      by (auto simp: truthy_opt_def row_count_zero)
    then show ?thesis by (simp add: d row_count_append row_count_Cons)
  next
    case False
    then have "\<not> keyed t' eid (Some k) ?d" by (auto simp: keyed_def new_delivery_def)
    with assms(1) that show ?thesis by (simp add: d row_count_append row_count_Cons keys_once_def)
  qed
  then show ?thesis by (simp add: keys_once_def)
qed

lemma queue_for_once:
  assumes "keys_once db" and "queue_for_endpoints env registry us n t ty payload by ids key eps db = (db', r)"
  shows "keys_once db'"
  using assms
proof (induction eps arbitrary: n db db' r)
  case (Cons ep eps)
  obtain db1 r1 where one: "queue_delivery env registry (us n) t ty payload by key ep db = (db1, r1)" by fastforce
  obtain db2 r2 where rest: "queue_for_endpoints env registry us (Suc n) t ty payload by ids key eps db1 = (db2, r2)" by fastforce
  have "keys_once db1" by (rule queue_delivery_once[OF Cons.prems(1) one])
  with Cons.IH[OF this rest] Cons.IH[OF Cons.prems(1)] Cons.prems(2) one rest show ?case
    by (auto split: if_splits sum.splits)
qed simp

lemma queue_event_once:
  "keys_once db \<Longrightarrow> keys_once (fst (queue_integration_event env registry us db t ty payload by ids key))"
  by (cases "queue_for_endpoints env registry us 0 t ty (sort_keys payload) by ids key (enabled_endpoints db t) db")
     (auto simp: queue_integration_event_def serialize_payload_def dest: queue_for_once)

lemma queue_campaign_event_once: "keys_once db \<Longrightarrow> keys_once (queue_campaign_event env registry us c ty db)"
  by (simp add: queue_campaign_event_def queue_event_once)

definition event_key :: "escalation_event \<Rightarrow> string \<times> string \<times> string" where
  "event_key e = (eev_tenant_id e, eev_campaign_id e, eev_stage_key e)"

definition events_ok :: "ownership \<Rightarrow> bool" where
  "events_ok own \<longleftrightarrow> unique_key eev_id (own_events own) \<and> unique_key event_key (own_events own)"

definition queued_events :: "ownership \<Rightarrow> escalation_event set" where
  "queued_events own = {e \<in> set (own_events own). eev_status e = EscQueued}"

text \<open>What every step keeps: one event per stage, events that were queued, one delivery per key.\<close>

definition keeps :: "own_state \<Rightarrow> own_state \<Rightarrow> bool" where
  "keeps s s' \<longleftrightarrow>
     (events_ok (snd s) \<longrightarrow> events_ok (snd s') \<and> queued_events (snd s) \<subseteq> queued_events (snd s')) \<and>
     (keys_once (fst s) \<longrightarrow> keys_once (fst s'))"

lemma keeps_refl [simp]: "keeps s s"
  by (simp add: keeps_def)

lemma keeps_trans: "keeps s s' \<Longrightarrow> keeps s' s'' \<Longrightarrow> keeps s s''"
  by (auto simp: keeps_def)

lemma keeps_same: "own_events own' = own_events own \<Longrightarrow> (keys_once db \<Longrightarrow> keys_once db') \<Longrightarrow> keeps (db, own) (db', own')"
  by (simp add: keeps_def events_ok_def queued_events_def)

lemma update_events_ok:
  assumes "events_ok own" and "\<And>e. eev_id (f e) = eev_id e \<and> event_key (f e) = event_key e"
  shows "events_ok (update_events P f own)"
  using assms by (simp add: events_ok_def unique_key_update)

lemma update_keeps_queued:
  assumes "\<And>e. e \<in> queued_events own \<Longrightarrow> \<not> P e"
  shows "queued_events own \<subseteq> queued_events (update_events P f own)"
  using assms by (force simp: queued_events_def set_update_rows)

lemma stage_event_key: "stage_event c g e \<longleftrightarrow> event_key e = (camp_tenant_id c, camp_campaign_id c, stg_key g)"
  by (simp add: stage_event_def event_key_def)

lemma queue_stage_keeps:
  "keeps (db, own) (fst (queue_escalation_stage env safe_error registry uuids c p g counts remaining (db, own)))"
proof -
  define own1 where "own1 = expire_claims env c g own"
  define found where "found = scalar (stage_event c g) (own_events own1)"
  define e where "e = (case found of Some e \<Rightarrow> e | None \<Rightarrow> new_event env (fst uuids) c p g remaining own1)"
  define own2 where "own2 = (case found of Some _ \<Rightarrow> own1 | None \<Rightarrow> own1\<lparr>own_events := own_events own1 @ [e]\<rparr>)"
  define own3 where "own3 = update_events (claimable_event (env_now env) e) (claimed_event env) own2"
  define q where "q = queue_integration_event env registry (snd uuids) db (camp_tenant_id c) (escalation_type g)
     (escalation_payload env c p g e counts remaining) (''ownership-escalation:'' @ eev_event_id e)
     (escalation_endpoints c g) (Some (escalation_key c g))"
  define own4 where "own4 = update_events (\<lambda>x. eev_id x = eev_id e) (settled_event env safe_error (snd q)) own3"
  have k1: "keeps (db, own) (db, own1)"
    unfolding keeps_def own1_def expire_claims_def
    by (auto intro!: update_events_ok update_keeps_queued[THEN subsetD] simp: event_key_def) (auto simp: queued_events_def)
  show ?thesis
  proof (cases "case found of None \<Rightarrow> False | Some e \<Rightarrow> eev_status e = EscQueued \<or> env_now env < eev_next_attempt_at e")
    case True
    then have "fst (queue_escalation_stage env safe_error registry uuids c p g counts remaining (db, own)) = (db, own1)"
      by (simp add: queue_escalation_stage_def own1_def[symmetric] found_def[symmetric] Let_def)
    with k1 show ?thesis by simp
  next
    case False
    have ok2: "events_ok own2 \<and> queued_events own1 \<subseteq> queued_events own2 \<and> (\<forall>x \<in> queued_events own1. eev_id x \<noteq> eev_id e)"
      if ok: "events_ok own1"
    proof (cases found)
      case None
      then have e: "e = new_event env (fst uuids) c p g remaining own1" and own2: "own2 = own1\<lparr>own_events := own_events own1 @ [e]\<rparr>"
        by (simp_all add: e_def own2_def)
      have "event_key e \<notin> event_key ` set (own_events own1)"
        using None by (auto simp: found_def scalar_None stage_event_key e new_event_def event_key_def)
      moreover have i: "eev_id e = next_id eev_id (own_events own1)" by (simp add: e new_event_def)
      ultimately have "events_ok own2"
        using ok unique_key_insert[of eev_id "own_events own1" e] by (auto simp: events_ok_def own2 unique_key_def)
      moreover have "eev_id x \<noteq> eev_id e" if "x \<in> queued_events own1" for x
        using next_id_upper[of x "own_events own1" eev_id] that i by (auto simp: queued_events_def)
      ultimately show ?thesis by (auto simp: own2 queued_events_def)
    next
      case (Some y)
      then have y: "e = y" "own2 = own1" "y \<in> set (own_events own1)" "eev_status y \<noteq> EscQueued"
        using False by (auto simp: e_def own2_def found_def dest: scalar_Some)
      have "eev_id x \<noteq> eev_id e" if "x \<in> queued_events own1" for x
        using unique_key_eq[of eev_id "own_events own1" x y] ok that y by (auto simp: events_ok_def queued_events_def)
      with ok y show ?thesis by auto
    qed
    have ok3: "events_ok own3 \<and> queued_events own1 \<subseteq> queued_events own3" if "events_ok own1"
    proof -
      have "queued_events own2 \<subseteq> queued_events own3"
        unfolding own3_def by (rule update_keeps_queued) (auto simp: queued_events_def claimable_event_def)
      moreover have "events_ok own3"
        unfolding own3_def by (rule update_events_ok) (use ok2[OF that] in \<open>auto simp: claimed_event_def event_key_def\<close>)
      ultimately show ?thesis using ok2[OF that] by auto
    qed
    have ok4: "events_ok own4 \<and> queued_events own1 \<subseteq> queued_events own4" if "events_ok own1"
    proof -
      have "x \<in> queued_events own4" if "x \<in> queued_events own1" for x
        using ok3[OF \<open>events_ok own1\<close>] ok2[OF \<open>events_ok own1\<close>] that
        by (force simp: own4_def queued_events_def set_update_rows)
      moreover have "events_ok own4"
        unfolding own4_def
        by (rule update_events_ok) (use ok3[OF that] in \<open>auto simp: settled_event_def event_key_def split: sum.splits\<close>)
      ultimately show ?thesis by auto
    qed
    have "fst (queue_escalation_stage env safe_error registry uuids c p g counts remaining (db, own)) \<in> {(db, own3), (fst q, own4)}"
      using False unfolding own4_def q_def own3_def own2_def e_def found_def own1_def
      by (simp add: queue_escalation_stage_def Let_def)
    moreover have "keeps (db, own1) (db, own3)" using ok3 by (simp add: keeps_def)
    moreover have "keeps (db, own1) (fst q, own4)" using ok4 by (simp add: keeps_def q_def queue_event_once)
    ultimately show ?thesis using keeps_trans[OF k1] by auto
  qed
qed

lemma queue_stage_frame:
  "own_campaigns (snd (fst (queue_escalation_stage env safe_error registry uuids c p g counts remaining s))) = own_campaigns (snd s)"
  "own_assignments (snd (fst (queue_escalation_stage env safe_error registry uuids c p g counts remaining s))) = own_assignments (snd s)"
  "own_policies (snd (fst (queue_escalation_stage env safe_error registry uuids c p g counts remaining s))) = own_policies (snd s)"
  "own_schedules (snd (fst (queue_escalation_stage env safe_error registry uuids c p g counts remaining s))) = own_schedules (snd s)"
  by (auto simp: queue_escalation_stage_def expire_claims_def Let_def split: prod.splits option.splits)

definition same_campaigns :: "own_state \<Rightarrow> own_state \<Rightarrow> bool" where
  "same_campaigns s s' \<longleftrightarrow> own_campaigns (snd s') = own_campaigns (snd s) \<and> own_assignments (snd s') = own_assignments (snd s)"

lemma escalate_stages_keeps:
  "keeps s (fst (escalate_stages env safe_error registry uuids c p counts remaining gs (s, n, m))) \<and>
   same_campaigns s (fst (escalate_stages env safe_error registry uuids c p counts remaining gs (s, n, m)))"
proof (induction gs arbitrary: s n m)
  case (Cons g gs)
  obtain s' ok where q: "queue_escalation_stage env safe_error registry (uuids n) c p g counts remaining s = (s', ok)" by fastforce
  have "keeps s s'" using queue_stage_keeps[of "fst s" "snd s" env safe_error registry "uuids n" c p g counts remaining] q by simp
  moreover have "same_campaigns s s'"
    using queue_stage_frame[of env safe_error registry "uuids n" c p g counts remaining s] q by (simp add: same_campaigns_def)
  ultimately show ?case
    using Cons[of s' "Suc n"] Cons[of s] q by (auto intro: keeps_trans simp: same_campaigns_def)
qed (simp add: same_campaigns_def)

lemma escalate_campaign_keeps:
  "keeps (fst x) (fst (escalate_campaign env safe_error registry uuids c x)) \<and>
   same_campaigns (fst x) (fst (escalate_campaign env safe_error registry uuids c x))"
  using escalate_stages_keeps
  by (auto simp: escalate_campaign_def Let_def same_campaigns_def split: prod.splits option.splits)

lemma escalations_keep:
  "keeps s (fst (enqueue_due_ownership_escalations env safe_error registry uuids limit s)) \<and>
   same_campaigns s (fst (enqueue_due_ownership_escalations env safe_error registry uuids limit s))"
proof -
  have "keeps (fst x) (fst (fold (escalate_campaign env safe_error registry uuids) cs x)) \<and>
      same_campaigns (fst x) (fst (fold (escalate_campaign env safe_error registry uuids) cs x))" for cs x
  proof (induction cs arbitrary: x)
    case (Cons c cs)
    show ?case
      using Cons[of "escalate_campaign env safe_error registry uuids c x"]
        escalate_campaign_keeps[of x env safe_error registry uuids c]
      by (auto intro: keeps_trans simp: same_campaigns_def)
  qed (simp add: same_campaigns_def)
  from this[of "(s, 0, 0)"] show ?thesis
    by (simp add: enqueue_due_ownership_escalations_def split: prod.splits)
       (metis fst_conv)
qed

section \<open>Campaigns through any sequence of operations\<close>

text \<open>
  The steps of the service on campaigns, assignments and policies, at any times, and changes of the catalogue by others. The
  operations on schedules, which leave those tables as they are, join them in \<open>OwnershipSchedules.schedule_step\<close>.
\<close>

inductive own_step :: "registration list \<Rightarrow> own_state \<Rightarrow> own_state \<Rightarrow> bool" for registry where
  CampaignCreated: "create_campaign env uuid t name d scope due by sid eps pid own = Inr (own', c) \<Longrightarrow>
    own_step registry (db, own) (db, own')"
| CampaignLaunched: "c \<in> set (own_campaigns own) \<Longrightarrow> launch_campaign env registry uuids us c n (db, own) = Inr (s', c', m) \<Longrightarrow>
    own_step registry (db, own) s'"
| AssignmentAttested: "a \<in> set (own_assignments own) \<Longrightarrow> attest_assignment env registry us us' a r by (db, own) = Inr (s', a') \<Longrightarrow>
    own_step registry (db, own) s'"
| RemediationUpdated: "a \<in> set (own_assignments own) \<Longrightarrow> update_remediation env a act due own = Inr (own', a') \<Longrightarrow>
    own_step registry (db, own) (db, own')"
| RemediationResolved: "a \<in> set (own_assignments own) \<Longrightarrow> resolve_remediation env registry us a by (db, own) = Inr (s', a') \<Longrightarrow>
    own_step registry (db, own) s'"
| PolicyCreated: "create_escalation_policy env uuid t name d stages enabled by (db, own) = Inr (own', p) \<Longrightarrow>
    own_step registry (db, own) (db, own')"
| PolicyUpdated: "update_escalation_policy env p u (db, own) = Inr (own', p') \<Longrightarrow> own_step registry (db, own) (db, own')"
| EscalationsQueued: "enqueue_due_ownership_escalations env safe_error registry uuids limit (db, own) = (s', n) \<Longrightarrow>
    own_step registry (db, own) s'"
| CatalogChanged: "own_step registry (db, own) (db\<lparr>db_assets := assets\<rparr>, own)"

lemma policy_changes:
  "create_escalation_policy env uuid t name d stages enabled by (db, own) = Inr (own', p) \<Longrightarrow>
   own_campaigns own' = own_campaigns own \<and> own_assignments own' = own_assignments own \<and> own_events own' = own_events own"
  "update_escalation_policy env p u (db, own) = Inr (own', p') \<Longrightarrow>
   own_campaigns own' = own_campaigns own \<and> own_assignments own' = own_assignments own \<and> own_events own' = own_events own"
  by (auto simp: create_escalation_policy_def update_escalation_policy_def result_simps Let_def)

lemma own_ok_same: "own_campaigns own' = own_campaigns own \<Longrightarrow> own_assignments own' = own_assignments own \<Longrightarrow> own_ok own' = own_ok own"
  by (simp add: own_ok_def own_keys_def)

lemma own_step_ok: "own_step registry s s' \<Longrightarrow> own_ok (snd s) \<Longrightarrow> own_ok (snd s')"
proof (induction rule: own_step.induct)
  case (EscalationsQueued env safe_error uuids limit db own s' n)
  then have "same_campaigns (db, own) s'"
    using escalations_keep[of "(db, own)" env safe_error registry uuids limit] by simp
  then have "own_ok (snd s') = own_ok own" by (intro own_ok_same) (simp_all add: same_campaigns_def)
  with EscalationsQueued(2) show ?case by simp
next
  case PolicyCreated
  from policy_changes(1)[OF PolicyCreated(1)] PolicyCreated(2) show ?case by (simp add: own_ok_def own_keys_def)
next
  case PolicyUpdated
  from policy_changes(2)[OF PolicyUpdated(1)] PolicyUpdated(2) show ?case by (simp add: own_ok_def own_keys_def)
qed (simp_all, (erule (1) create_campaign_ok launch_campaign_ok attest_assignment_ok update_remediation_ok resolve_remediation_ok, assumption?)+)

lemma own_steps_ok: "(own_step registry)\<^sup>*\<^sup>* s s' \<Longrightarrow> own_ok (snd s) \<Longrightarrow> own_ok (snd s')"
  by (induction rule: rtranclp_induct) (auto intro: own_step_ok)

lemma complete_events:
  "own_events (snd (complete_campaign_if_ready env registry us t i (db, own))) = own_events own"
  "keys_once db \<Longrightarrow> keys_once (fst (complete_campaign_if_ready env registry us t i (db, own)))"
  by (auto simp: complete_campaign_if_ready_def Let_def queue_campaign_event_once split: option.splits)

lemma keeps_complete: "own_events own' = own_events own \<Longrightarrow> (keys_once db \<Longrightarrow> keys_once db') \<Longrightarrow>
   keeps (db, own) (complete_campaign_if_ready env registry us t i (db', own'))"
  by (simp add: keeps_def events_ok_def queued_events_def complete_events)

lemma own_step_keeps: "own_step registry s s' \<Longrightarrow> keeps s s'"
proof (induction rule: own_step.induct)
  case (CampaignLaunched c own env uuids us n db s' c' m)
  from CampaignLaunched(2) obtain rows where
    "snd s' = update_campaigns (\<lambda>x. camp_id x = camp_id c') (\<lambda>x. c') (own\<lparr>own_assignments := own_assignments own @ rows\<rparr>)"
    "fst s' = queue_campaign_event env registry us c' ''ownership.campaign.launched'' db"
    by (rule launch_campaign_Inr)
  then show ?case by (simp add: keeps_def events_ok_def queued_events_def queue_campaign_event_once)
next
  case (AssignmentAttested a own env us us' r who db s' a')
  from AssignmentAttested(2) obtain db1 a1 db2 where t: "attested env a r db = Inr (db1, a1)"
    "s' = complete_campaign_if_ready env registry us' (asg_tenant_id a') (asg_campaign_id a') (db2, replace_assignment a' own)"
    "(db2, replace_assignment a' own) =
       (if asg_status a' = AsgRemediation
        then queue_assignment_event env registry us a' ''ownership.assignment.remediation-required'' (db1, replace_assignment a' own)
        else (db1, replace_assignment a' own))"
    by (rule attest_assignment_Inr)
  have "keys_once db1" if "keys_once db"
    using attested_row[OF t(1)] that by (simp add: keys_once_def)
  with t(3) have "keys_once db2" if "keys_once db"
    using that by (auto simp: queue_assignment_event_def queue_event_once split: if_splits)
  then show ?case unfolding t(2) by (intro keeps_complete) (simp_all add: replace_assignment_def)
next
  case (RemediationResolved a own env us who db s' a')
  note r = resolve_remediation_Inr[OF RemediationResolved(2)]
  then have s': "s' = complete_campaign_if_ready env registry us (asg_tenant_id a') (asg_campaign_id a') (db, replace_assignment a' own)"
    by blast
  show ?case unfolding s' by (intro keeps_complete) (simp_all add: replace_assignment_def)
next
  case (EscalationsQueued env safe_error uuids limit db own s' n)
  then show ?case using escalations_keep[of "(db, own)" env safe_error registry uuids limit] by simp
next
  case (CatalogChanged db own assets)
  then show ?case by (intro keeps_same) (simp_all add: keys_once_def)
qed (auto intro!: keeps_same dest: policy_changes elim!: create_campaign_Inr
    simp: update_remediation_def result_simps Let_def replace_assignment_def)

lemma own_steps_keep: "(own_step registry)\<^sup>*\<^sup>* s s' \<Longrightarrow> keeps s s'"
  by (induction rule: rtranclp_induct) (auto intro: keeps_trans own_step_keeps)

definition empty_ownership :: ownership where
  "empty_ownership = \<lparr>own_campaigns = [], own_schedules = [], own_assignments = [], own_policies = [], own_events = []\<rparr>"

lemma empty_ok [simp]: "own_ok empty_ownership" "events_ok empty_ownership"
  by (simp_all add: empty_ownership_def own_ok_def own_keys_def unique_key_def events_ok_def)

text \<open>
  C14: Through any sequence of operations from an empty register, a campaign is active exactly while an assignment of it
  waits for an attestation or a remediation, a draft has no assignments, and a completed campaign has some, all of them
  attested or resolved.\<close>

theorem campaign_states:
  assumes "(own_step registry)\<^sup>*\<^sup>* (db, empty_ownership) s" and "c \<in> set (own_campaigns (snd s))"
    and "rows = filter (of_campaign (camp_tenant_id c) (camp_campaign_id c)) (own_assignments (snd s))"
  shows "(camp_status c = CampDraft \<longleftrightarrow> rows = []) \<and>
         (camp_status c = CampActive \<longleftrightarrow> (\<exists>a \<in> set rows. asg_status a \<in> {AsgPending, AsgRemediation})) \<and>
         (camp_status c = CampCompleted \<longleftrightarrow> rows \<noteq> [] \<and> (\<forall>a \<in> set rows. asg_status a \<in> {AsgAttested, AsgResolved}))"
proof -
  have "own_ok (snd s)" using own_steps_ok[OF assms(1)] by simp
  with assms(2) have ok: "state_ok (own_assignments (snd s)) c" by (simp add: own_ok_def)
  have rows: "set rows = {a \<in> set (own_assignments (snd s)). asg_camp a = camp_key c}"
    by (auto simp: assms(3) of_campaign_key camp_key_def)
  then have empty: "rows = [] \<longleftrightarrow> (\<forall>a \<in> set (own_assignments (snd s)). asg_camp a \<noteq> camp_key c)"
    by (metis (mono_tags, lifting) Collect_empty_eq set_empty)
  have out: "asg_status a \<in> {AsgPending, AsgRemediation} \<longleftrightarrow> outstanding a" for a by (simp add: outstanding_def)
  have settled: "asg_status a \<in> {AsgAttested, AsgResolved} \<longleftrightarrow> \<not> outstanding a" for a
    by (cases "asg_status a") (simp_all add: outstanding_def)
  show ?thesis
    using ok unfolding out settled empty state_ok_def rows by (cases "camp_status c") auto
qed

text \<open>
  C15: Through any sequence of operations there is at most one escalation event for a stage of a campaign, an event that was
  queued stays as it is, and an endpoint has at most one delivery for a stage, however often claims expire or fail.\<close>

theorem escalations_once:
  assumes "(own_step registry)\<^sup>*\<^sup>* s s'" and "events_ok (snd s)" and "keys_once (fst s)"
  shows "row_count (stage_event c g) (own_events (snd s')) \<le> 1 \<and>
         row_count (keyed t eid (Some (escalation_key c g))) (db_deliveries (fst s')) \<le> 1 \<and>
         {e \<in> set (own_events (snd s)). eev_status e = EscQueued} \<subseteq> set (own_events (snd s'))"
proof -
  from own_steps_keep[OF assms(1)] assms(2,3) have k: "events_ok (snd s')" "keys_once (fst s')"
    "queued_events (snd s) \<subseteq> queued_events (snd s')"
    by (auto simp: keeps_def)
  have "row_count (stage_event c g) (own_events (snd s')) \<le> 1"
  proof (cases "\<exists>e \<in> set (own_events (snd s')). stage_event c g e")
    case True
    then obtain e where e: "e \<in> set (own_events (snd s'))" "stage_event c g e" by blast
    then have "row_count (stage_event c g) (own_events (snd s')) = 1"
      using unique_row_count[where k = event_key and P = "stage_event c g" and t = "own_events (snd s')" and r = e] k(1)
      by (simp add: events_ok_def stage_event_key)
    then show ?thesis by simp
  qed (simp add: row_count_zero[THEN iffD2])
  moreover have "escalation_key c g \<noteq> []" by (simp add: escalation_key_def)
  ultimately show ?thesis using k by (auto simp: keys_once_def queued_events_def)
qed

section \<open>Attestation\<close>

text \<open>When an attestation is accepted.\<close>

definition attestable :: "env \<Rightarrow> ownership_assignment \<Rightarrow> attestation \<Rightarrow> db \<Rightarrow> bool" where
  "attestable env a r db \<longleftrightarrow>
     outstanding a \<and>
     (if att_confirmed r
      then py_strip (if truthy_opt (att_owner r) then the (att_owner r) else asg_owner a) \<noteq> [] \<and>
           (\<exists>x \<in> set (db_assets db). asset_tenant_id x = asg_tenant_id a \<and> asset_id x = asg_asset_id a)
      else (\<forall>w. att_owner r = Some w \<longrightarrow> py_strip w \<noteq> []) \<and> truthy_opt (att_action r) \<and>
           (\<exists>d. att_due_at r = Some d \<and> env_now env < dt_wall d))"

lemma attested_is_ok: "is_ok (attested env a r db) \<longleftrightarrow> outstanding a \<longrightarrow> attestable env a r db"
  if "outstanding a"
  using that by (auto simp: attested_def attestable_def is_ok_iff result_simps Let_def scalar_None dest: scalar_Some split: option.splits)

lemma attest_is_ok:
  "is_ok (attest_assignment env registry us us' a r who (db, own)) \<longleftrightarrow> attestable env a r db"
proof (cases "outstanding a")
  case True
  then have "is_ok (attest_assignment env registry us us' a r who (db, own)) \<longleftrightarrow> is_ok (attested env a r db)"
    by (cases "attested env a r db") (auto simp: attest_assignment_def Let_def)
  with attested_is_ok[OF True] True show ?thesis by simp
qed (simp add: attest_assignment_def attestable_def)

lemma queue_event_assets: "db_assets (fst (queue_integration_event env registry us db t ty payload creator ids key)) = db_assets db"
proof -
  have "db_assets (fst (queue_for_endpoints env registry us n t ty doc creator ids key eps db)) = db_assets db" for n doc eps db
  proof (induction eps arbitrary: n db)
    case (Cons ep eps)
    have "db_assets (fst (queue_delivery env registry (us n) t ty doc creator key ep db)) = db_assets db"
      by (auto simp: queue_delivery_def Let_def split: option.splits sum.splits dest!: enqueue_job_Inr)
    with Cons show ?case by (auto split: prod.splits sum.splits) (metis fst_conv)+
  qed simp
  then show ?thesis by (simp add: queue_integration_event_def split: sum.splits)
qed

lemma complete_frame:
  "own_assignments (snd (complete_campaign_if_ready env registry us t i s)) = own_assignments (snd s)"
  "db_assets (fst (complete_campaign_if_ready env registry us t i s)) = db_assets (fst s)"
  by (auto simp: complete_campaign_if_ready_def Let_def queue_campaign_event_def queue_event_assets split: option.splits prod.splits)

text \<open>
  C16: An attestation is accepted exactly when its assignment waits for one and its fields fit. A confirmed one makes the
  attested owner the owner of the asset, and of no other asset; an unconfirmed one leaves the catalogue and opens a
  remediation that is due in the future; no other assignment changes.\<close>

theorem attestation_exact:
  assumes "own_ok own" and "a \<in> set (own_assignments own)" and "unique_key asset_id (db_assets db)"
  shows "(is_ok (attest_assignment env registry us us' a r who (db, own)) \<longleftrightarrow> attestable env a r db) \<and>
    (\<forall>s' a'. attest_assignment env registry us us' a r who (db, own) = Inr (s', a') \<longrightarrow>
       set (own_assignments (snd s')) = insert a' (set (own_assignments own) - {a}) \<and>
       asg_attested_by a' = Some who \<and> asg_assignment_id a' = asg_assignment_id a \<and> asg_asset_id a' = asg_asset_id a \<and>
       (if att_confirmed r
        then asg_status a' = AsgAttested \<and>
             asg_owner a' = py_strip (if truthy_opt (att_owner r) then the (att_owner r) else asg_owner a) \<and>
             db_assets (fst s') = map (\<lambda>x. if asset_id x = asg_asset_id a then x\<lparr>asset_owner := asg_owner a'\<rparr> else x) (db_assets db)
        else asg_status a' = AsgRemediation \<and> db_assets (fst s') = db_assets db \<and>
             (\<exists>t. asg_remediation_due_at a' = Some t \<and> env_now env < t)))"
proof (intro conjI allI impI)
  show "is_ok (attest_assignment env registry us us' a r who (db, own)) \<longleftrightarrow> attestable env a r db" by (rule attest_is_ok)
  fix s' a' assume s: "attest_assignment env registry us us' a r who (db, own) = Inr (s', a')"
  then obtain db1 a1 db2 where t: "attested env a r db = Inr (db1, a1)"
    "a' = a1\<lparr>asg_attestation_note := Some (att_note r), asg_attested_by := Some who, asg_attested_at := Some (env_now env)\<rparr>"
    "s' = complete_campaign_if_ready env registry us' (asg_tenant_id a') (asg_campaign_id a') (db2, replace_assignment a' own)"
    and q: "(db2, replace_assignment a' own) =
       (if asg_status a' = AsgRemediation
        then queue_assignment_event env registry us a' ''ownership.assignment.remediation-required'' (db1, replace_assignment a' own)
        else (db1, replace_assignment a' own))"
    by (rule attest_assignment_Inr)
  from attested_row[OF t(1)] have id: "asg_id a' = asg_id a" by (simp add: t(2))
  have "unique_key asg_id (own_assignments own)" using assms(1) by (simp add: own_ok_def own_keys_def)
  from replace_row[OF this assms(2) id]
  show "set (own_assignments (snd s')) = insert a' (set (own_assignments own) - {a})"
    by (simp add: t(3) complete_frame replace_assignment_def)
  show "asg_attested_by a' = Some who" by (simp add: t(2))
  have c: "asg_assignment_id a1 = asg_assignment_id a \<and> asg_asset_id a1 = asg_asset_id a"
    using t(1) by (auto simp: attested_def result_simps Let_def split: if_splits option.splits)
  then show "asg_assignment_id a' = asg_assignment_id a" "asg_asset_id a' = asg_asset_id a" by (simp_all add: t(2))
  have "db_assets db2 = db_assets db1"
    using q by (auto simp: queue_assignment_event_def queue_event_assets split: if_splits)
  then have assets: "db_assets (fst s') = db_assets db1" by (simp add: t(3) complete_frame)
  show "if att_confirmed r
        then asg_status a' = AsgAttested \<and>
             asg_owner a' = py_strip (if truthy_opt (att_owner r) then the (att_owner r) else asg_owner a) \<and>
             db_assets (fst s') = map (\<lambda>x. if asset_id x = asg_asset_id a then x\<lparr>asset_owner := asg_owner a'\<rparr> else x) (db_assets db)
        else asg_status a' = AsgRemediation \<and> db_assets (fst s') = db_assets db \<and>
             (\<exists>t. asg_remediation_due_at a' = Some t \<and> env_now env < t)"
  proof (cases "att_confirmed r")
    case True
    with t(1) obtain x where x: "scalar (\<lambda>x. asset_tenant_id x = asg_tenant_id a \<and> asset_id x = asg_asset_id a) (db_assets db) = Some x"
      by (auto simp: attested_def result_simps Let_def split: option.splits)
    then have "asset_id x = asg_asset_id a" by (auto dest: scalar_Some)
    with True t(1) x show ?thesis
      by (auto simp: attested_def result_simps Let_def assets t(2) update_assets_def update_rows_def)
  next
    case False
    with t(1) show ?thesis
      by (auto simp: attested_def result_simps Let_def assets t(2))
  qed
qed

section \<open>Starvation\<close>

definition fully_queued :: "ownership \<Rightarrow> ownership_campaign \<Rightarrow> bool" where
  "fully_queued own c \<longleftrightarrow>
     (\<forall>i p. camp_escalation_policy_id c = Some i \<longrightarrow> scalar (usable_policy (camp_tenant_id c) i) (own_policies own) = Some p \<longrightarrow>
        (\<forall>g \<in> set (epol_stages_json p). \<exists>e \<in> set (own_events own). stage_event c g e \<and> eev_status e = EscQueued))"

lemma queued_stage_idle:
  assumes "events_ok own" and "e \<in> set (own_events own)" "stage_event c g e" "eev_status e = EscQueued"
  shows "queue_escalation_stage env safe_error registry uuids c p g counts remaining (db, own) = ((db, own), False)"
proof -
  have one: "x = e" if "x \<in> set (own_events own)" "stage_event c g x" for x
    using assms that unique_key_eq[of event_key "own_events own" x e] by (simp add: events_ok_def stage_event_key)
  have "update_rows (\<lambda>x. stage_event c g x \<and> eev_status x = EscRunning \<and> eev_next_attempt_at x \<le> env_now env)
      (\<lambda>e. e\<lparr>eev_status := EscFailed, eev_error := Some ''Escalation claim expired before completion''\<rparr>) (own_events own) = own_events own"
    by (rule update_rows_none) (use one assms(4) in auto)
  then have "expire_claims env c g own = own" by (simp add: expire_claims_def update_events_def)
  moreover have "scalar (stage_event c g) (own_events own) = Some e"
    by (rule scalar_unique[of event_key]) (use assms in \<open>auto simp: events_ok_def stage_event_key\<close>)
  ultimately show ?thesis using assms(4) by (simp add: queue_escalation_stage_def)
qed

lemma queued_campaign_idle:
  assumes "events_ok own" and "fully_queued own c"
  shows "\<exists>n'. escalate_campaign env safe_error registry uuids c ((db, own), n, m) = ((db, own), n', m)"
proof -
  have stages: "\<exists>n'. escalate_stages env safe_error registry uuids c p counts remaining gs ((db, own), n, m) = ((db, own), n', m)"
    if "\<forall>g \<in> set gs. \<exists>e \<in> set (own_events own). stage_event c g e \<and> eev_status e = EscQueued" for p counts remaining gs n
    using that
  proof (induction gs arbitrary: n)
    case (Cons g gs)
    from Cons.prems obtain e where "e \<in> set (own_events own)" "stage_event c g e" "eev_status e = EscQueued" by auto
    with queued_stage_idle[OF assms(1)] Cons show ?case by auto
  qed simp
  show ?thesis
  proof (cases "case camp_escalation_policy_id c of None \<Rightarrow> None
      | Some i \<Rightarrow> scalar (usable_policy (camp_tenant_id c) i) (own_policies own)")
    case (Some p)
    then have "\<forall>g \<in> set (epol_stages_json p). \<exists>e \<in> set (own_events own). stage_event c g e \<and> eev_status e = EscQueued"
      using assms(2) by (auto simp: fully_queued_def split: option.splits)
    with stages Some show ?thesis by (auto simp: escalate_campaign_def Let_def)
  qed (simp add: escalate_campaign_def)
qed

text \<open>
  C17: Escalation can starve: when the campaigns that come first by their due date, as many as the limit of a run, are
  active with all their stages queued, a run changes nothing and queues nothing, at any time and however many campaigns
  with due stages come after them.\<close>

theorem escalations_starved:
  assumes "events_ok own" and "\<forall>c \<in> set (escalating_campaigns limit own). fully_queued own c"
  shows "enqueue_due_ownership_escalations env safe_error registry uuids limit (db, own) = ((db, own), 0)"
proof -
  have "\<exists>n'. fold (escalate_campaign env safe_error registry uuids) cs ((db, own), n, m) = ((db, own), n', m)"
    if "\<forall>c \<in> set cs. fully_queued own c" for cs n m
    using that
  proof (induction cs arbitrary: n)
    case (Cons c cs)
    from Cons.prems queued_campaign_idle[OF assms(1), of c env safe_error registry uuids db n m] Cons.IH show ?case by auto
  qed simp
  from this[OF assms(2), of 0 0] show ?thesis by (auto simp: enqueue_due_ownership_escalations_def)
qed

section \<open>A concrete campaign\<close>

definition own_db :: db where
  "own_db = empty_db\<lparr>db_assets := [sample_asset ''Confidential'' ''Finance'']\<rparr>"

definition sample_campaign :: ownership_campaign where
  "sample_campaign = new_campaign base_env ''c1'' ''default'' ''Q1'' [] [(''business_domain'', [''Finance''])] 2000000000 ''ada'' None []
     (Some ''p1'') empty_ownership"

definition active_campaign :: ownership_campaign where
  "active_campaign = launched_campaign (env_now base_env) sample_campaign"

definition sample_assignment :: ownership_assignment where
  "sample_assignment = new_assignment base_env (\<lambda>n. ''a1'') sample_campaign 1 0 (sample_asset ''Confidential'' ''Finance'')"

definition one_hour_stage :: escalation_stage where
  "one_hour_stage = \<lparr>stg_key = ''late'', stg_offset_hours = 1, stg_recipient = ''owner'', stg_endpoint_ids = []\<rparr>"

definition sample_policy :: escalation_policy where
  "sample_policy = \<lparr>epol_id = 1, epol_tenant_id = ''default'', epol_policy_id = ''p1'', epol_name = ''p'', epol_description = [],
     epol_stages_json = [one_hour_stage], epol_enabled = True, epol_created_by = ''ada'', epol_created_at = 0, epol_updated_at = 0\<rparr>"

definition policy_own :: ownership where
  "policy_own = empty_ownership\<lparr>own_policies := [sample_policy]\<rparr>"

definition active_own :: ownership where
  "active_own = policy_own\<lparr>own_campaigns := [active_campaign], own_assignments := [sample_assignment]\<rparr>"

lemma no_endpoints: "db_endpoints db = [] \<Longrightarrow> fst (queue_integration_event env registry us db t ty payload creator ids key) = db"
  by (simp add: queue_integration_event_def enabled_endpoints_def where_rows_def split: sum.splits)

lemma policy_step: "own_step [] (own_db, empty_ownership) (own_db, policy_own)"
proof (rule PolicyCreated)
  show "create_escalation_policy (base_env\<lparr>env_now := 0\<rparr>) ''p1'' ''default'' ''p'' [] [one_hour_stage] True ''ada'' (own_db, empty_ownership) =
      Inr (policy_own, sample_policy)"
    by code_simp
qed

lemma create_step: "own_step [] (own_db, policy_own) (own_db, policy_own\<lparr>own_campaigns := [sample_campaign]\<rparr>)"
proof (rule CampaignCreated)
  show "create_campaign base_env ''c1'' ''default'' ''Q1'' [] (JObj [(''business_domain'', JStr ''Finance'')]) 2000000000 ''ada'' None []
      (Some ''p1'') policy_own = Inr (policy_own\<lparr>own_campaigns := [sample_campaign]\<rparr>, sample_campaign)"
    by code_simp
qed

lemma launch_step: "own_step [] (own_db, policy_own\<lparr>own_campaigns := [sample_campaign]\<rparr>) (own_db, active_own)"
proof -
  have a: "campaign_assets sample_campaign 10 own_db = [sample_asset ''Confidential'' ''Finance'']" by code_simp
  have r: "new_assignments base_env (\<lambda>n. ''a1'') sample_campaign [sample_asset ''Confidential'' ''Finance'']
      (policy_own\<lparr>own_campaigns := [sample_campaign]\<rparr>) = [sample_assignment]"
    by code_simp
  have c: "camp_status sample_campaign = CampDraft" "env_now base_env < camp_due_at sample_campaign" by code_simp+
  have e: "db_endpoints own_db = []" "own_assignments policy_own = []"
    by (simp_all add: own_db_def empty_db_def policy_own_def empty_ownership_def)
  have "launch_campaign base_env [] (\<lambda>n. ''a1'') (\<lambda>n. (''d'', ''j'')) sample_campaign 10
      (own_db, policy_own\<lparr>own_campaigns := [sample_campaign]\<rparr>) = Inr ((own_db, active_own), active_campaign, 1)"
    using c by (simp add: launch_campaign_def a r queue_campaign_event_def no_endpoints[OF e(1)] assignments_unique_def active_own_def
      e(2) update_campaigns_def active_campaign_def Let_def)
  then show ?thesis by (intro CampaignLaunched) auto
qed

lemma reach_active: "(own_step [])\<^sup>*\<^sup>* (own_db, empty_ownership) (own_db, active_own)"
  using policy_step create_step launch_step by (meson rtranclp.rtrancl_into_rtrancl rtranclp.rtrancl_refl)

theorem campaign_states_witness:
  "camp_status active_campaign = CampActive \<and> (\<exists>a \<in> set (own_assignments active_own). asg_status a \<in> {AsgPending, AsgRemediation})"
proof -
  have "active_campaign \<in> set (own_campaigns (snd (own_db, active_own)))" by (simp add: active_own_def)
  from campaign_states[OF reach_active this refl] have
    "camp_status active_campaign = CampActive \<longleftrightarrow> (\<exists>a \<in> set (filter (of_campaign (camp_tenant_id active_campaign)
       (camp_campaign_id active_campaign)) (own_assignments active_own)). asg_status a \<in> {AsgPending, AsgRemediation})"
    by simp
  moreover have "camp_status active_campaign = CampActive" by (simp add: active_campaign_def launched_campaign_def)
  ultimately show ?thesis by auto
qed

definition confirmation :: attestation where
  "confirmation = \<lparr>att_confirmed = True, att_owner = Some '' Treasury '', att_note = [], att_action = None, att_due_at = None\<rparr>"

theorem attestation_exact_witness:
  "\<exists>s' a'. attest_assignment base_env [] (\<lambda>n. (''d'', ''j'')) (\<lambda>n. (''d'', ''j'')) sample_assignment confirmation ''ada'' (own_db, active_own) =
       Inr (s', a') \<and> asg_owner a' = ''Treasury'' \<and> map asset_owner (db_assets (fst s')) = [''Treasury'']"
proof -
  have ok: "own_ok active_own" using own_steps_ok[OF reach_active] by simp
  have m: "sample_assignment \<in> set (own_assignments active_own)" by (simp add: active_own_def)
  have u: "unique_key asset_id (db_assets own_db)" by (simp add: own_db_def unique_key_def)
  have strip: "py_strip '' Treasury '' = ''Treasury''" by code_simp
  have s: "outstanding sample_assignment" "asg_asset_id sample_assignment = 1" "asg_tenant_id sample_assignment = ''default''"
    by code_simp+
  have "attestable base_env sample_assignment confirmation own_db"
    using s strip by (simp add: attestable_def confirmation_def truthy_opt_def own_db_def sample_asset_def)
  with attestation_exact[OF ok m u, of base_env "[]" "\<lambda>n. (''d'', ''j'')" "\<lambda>n. (''d'', ''j'')" confirmation "''ada''"]
  obtain s' a' where a: "attest_assignment base_env [] (\<lambda>n. (''d'', ''j'')) (\<lambda>n. (''d'', ''j'')) sample_assignment confirmation ''ada''
      (own_db, active_own) = Inr (s', a')" "asg_owner a' = ''Treasury''"
    "db_assets (fst s') = map (\<lambda>x. if asset_id x = 1 then x\<lparr>asset_owner := ''Treasury''\<rparr> else x) (db_assets own_db)"
    by (auto simp: is_ok_iff confirmation_def truthy_opt_def strip s)
  then show ?thesis by (auto simp: own_db_def sample_asset_def)
qed

definition late_env :: env where
  "late_env = base_env\<lparr>env_now := 2000000000 + td_hours 2\<rparr>"

text \<open>A second campaign, due later; the stage of the first has been queued.\<close>

definition waiting_campaign :: ownership_campaign where
  "waiting_campaign = active_campaign\<lparr>camp_id := 2, camp_campaign_id := ''c2'', camp_name := ''Q2'', camp_due_at := 2000000001\<rparr>"

definition starving_own :: ownership where
  "starving_own = active_own\<lparr>own_campaigns := [active_campaign, waiting_campaign],
     own_assignments := [sample_assignment, sample_assignment\<lparr>asg_id := 2, asg_assignment_id := ''a2'', asg_campaign_id := ''c2''\<rparr>],
     own_events := [(new_event late_env ''e1'' active_campaign sample_policy one_hour_stage 1 active_own)\<lparr>eev_status := EscQueued\<rparr>]\<rparr>"

theorem escalations_starved_witness:
  "stage_due (env_now late_env) waiting_campaign one_hour_stage \<and>
   count_of (campaign_counts starving_own ''default'' ''c2'') AsgPending = 1 \<and>
   enqueue_due_ownership_escalations late_env (\<lambda>e. []) [] (\<lambda>n. (''e2'', \<lambda>n. (''d'', ''j''))) 1 (own_db, starving_own) =
     ((own_db, starving_own), 0)"
proof -
  have first: "escalating_campaigns 1 starving_own = [active_campaign]" by code_simp
  have "events_ok starving_own" by (simp add: starving_own_def events_ok_def unique_key_def)
  moreover have "fully_queued starving_own active_campaign"
    by (auto simp: fully_queued_def starving_own_def stage_event_def new_event_def active_own_def policy_own_def sample_policy_def
        active_campaign_def sample_campaign_def new_campaign_def launched_campaign_def usable_policy_def scalar_Cons)
  ultimately have "enqueue_due_ownership_escalations late_env (\<lambda>e. []) [] (\<lambda>n. (''e2'', \<lambda>n. (''d'', ''j''))) 1 (own_db, starving_own) =
     ((own_db, starving_own), 0)"
    using escalations_starved[of starving_own 1] first by simp
  moreover have "stage_due (env_now late_env) waiting_campaign one_hour_stage" by code_simp
  moreover have "count_of (campaign_counts starving_own ''default'' ''c2'') AsgPending = 1" by code_simp
  ultimately show ?thesis by simp
qed

theorem escalations_once_witness:
  "\<exists>s'. own_step [] (own_db, starving_own) s' \<and> own_events (snd s') \<noteq> [] \<and>
     (\<forall>c g. row_count (stage_event c g) (own_events (snd s')) \<le> 1)"
proof -
  obtain s' n where e: "enqueue_due_ownership_escalations late_env (\<lambda>e. []) [] (\<lambda>n. (''e2'', \<lambda>n. (''d'', ''j''))) 2 (own_db, starving_own) = (s', n)"
    by fastforce
  then have st: "own_step [] (own_db, starving_own) s'" by (rule EscalationsQueued)
  have ok: "events_ok (snd (own_db, starving_own))" "keys_once (fst (own_db, starving_own))"
    by (simp_all add: starving_own_def events_ok_def unique_key_def keys_once_def own_db_def empty_db_def row_count_def)
  from st have "(own_step [])\<^sup>*\<^sup>* (own_db, starving_own) s'" by blast
  note once = escalations_once[OF this ok]
  have "own_events starving_own \<noteq> []" "\<forall>e \<in> set (own_events starving_own). eev_status e = EscQueued" by (simp_all add: starving_own_def)
  with once have "own_events (snd s') \<noteq> []" by (cases "own_events starving_own") fastforce+
  with st once show ?thesis by blast
qed

end
