(* ===== verification/Schedules.thy ===== *)
theory Schedules
  imports PolicyBundles
begin

text \<open>
  \<open>app/services/schedules.py\<close> with its routes in \<open>app/v13.py\<close>: the connector schedules (interval or cron, time zone,
  maintenance windows), their queueing by the worker and the request budgets of the providers. A time zone is a parameter: for
  a known name the offset of local time at an instant. The calendar is the proleptic Gregorian one of \<open>datetime\<close>. A loop that
  does not end is the error \<open>diverges\<close>. After a commit the session reloads a row when an attribute is read
  (\<open>expire_on_commit\<close>), so only the first schedule of a run is read from the statement that selected it.
\<close>

section \<open>Local time\<close>

type_synonym zones = "string \<Rightarrow> (time \<Rightarrow> time) option"

record local_time =
  lt_minute :: int
  lt_hour :: int
  lt_day :: int
  lt_month :: int
  lt_weekday :: int

definition minute_us :: time where "minute_us = 60000000"

text \<open>Month and day of a day counted from 1970-01-01; years begin in March, in eras of 400 of them.\<close>

definition civil_month_day :: "int \<Rightarrow> int \<times> int" where
  "civil_month_day days =
     (let doe = (days + 719468) mod 146097;
          yoe = (doe - doe div 1460 + doe div 36524 - doe div 146096) div 365;
          doy = doe - (365 * yoe + yoe div 4 - yoe div 100);
          mp = (5 * doy + 2) div 153
      in (if mp < 10 then mp + 3 else mp - 9, doy - (153 * mp + 2) div 5 + 1))"

definition local_time_of :: "time \<Rightarrow> local_time" where
  "local_time_of w =
     (let days = w div (1440 * minute_us); minutes = w div minute_us mod 1440
      in \<lparr>lt_minute = minutes mod 60, lt_hour = minutes div 60, lt_day = snd (civil_month_day days),
          lt_month = fst (civil_month_day days), lt_weekday = (days + 3) mod 7\<rparr>)"

definition at_zone :: "(time \<Rightarrow> time) \<Rightarrow> time \<Rightarrow> local_time" where
  "at_zone offset t = local_time_of (t + offset t)"

section \<open>Cron expressions\<close>

record cron =
  cron_minutes :: "int list"
  cron_hours :: "int list"
  cron_days :: "int list"
  cron_months :: "int list"
  cron_weekdays :: "int list"
  cron_day_wildcard :: bool
  cron_weekday_wildcard :: bool

text \<open>\<open>s.split()\<close>.\<close>

fun space_pieces :: "string \<Rightarrow> string list" where
  "space_pieces [] = [[]]"
| "space_pieces (c # cs) =
     (if py_space c then [] # space_pieces cs
      else case space_pieces cs of [] \<Rightarrow> [[c]] | p # ps \<Rightarrow> (c # p) # ps)"

definition py_words :: "string \<Rightarrow> string list" where
  "py_words s = filter (\<lambda>w. w \<noteq> []) (space_pieces s)"

definition cron_number :: "string \<Rightarrow> string \<Rightarrow> int result" where
  "cron_number m s = (if py_isdigit s then py_int_of_digits s else Inl (ValueError m))"

text \<open>\<open>range(start, end + 1, step)\<close> for a positive step.\<close>

definition stepped :: "int \<Rightarrow> int \<Rightarrow> int \<Rightarrow> int list" where
  "stepped start end step = (if start > end then [] else map (\<lambda>i. start + int i * step) [0..<Suc (nat ((end - start) div step))])"

definition cron_step :: "bool \<Rightarrow> string \<Rightarrow> int result" where
  "cron_step separator s =
     (if separator
      then rbind (cron_number ''Cron steps must be positive integers'' s) (\<lambda>n.
           if n < 1 then Inl (ValueError ''Cron steps must be positive integers'') else Inr n)
      else Inr 1)"

definition cron_bounds :: "int \<Rightarrow> int \<Rightarrow> string \<Rightarrow> (int \<times> int) result" where
  "cron_bounds minimum maximum base =
     (if base = ''*'' then Inr (minimum, maximum)
      else if CHR ''-'' \<in> set base then
        (case py_partition CHR ''-'' base of (a, _, b) \<Rightarrow>
           if py_isdigit a \<and> py_isdigit b
           then rbind (py_int_of_digits a) (\<lambda>s. rbind (py_int_of_digits b) (\<lambda>e. Inr (s, e)))
           else Inl (ValueError ''Cron ranges must use integers''))
      else rbind (cron_number ''Cron fields support integers, ranges, lists, and steps'' base) (\<lambda>n. Inr (n, n)))"

definition cron_item :: "int \<Rightarrow> int \<Rightarrow> bool \<Rightarrow> string \<Rightarrow> int list result" where
  "cron_item minimum maximum normalize_weekday item =
     (case py_partition CHR ''/'' item of (base, separator, step_text) \<Rightarrow>
      rbind (cron_step separator step_text) (\<lambda>step.
      rbind (cron_bounds minimum maximum base) (\<lambda>(start, end).
      if start < minimum \<or> end > maximum \<or> start > end then Inl (ValueError ''Cron field value is outside its allowed range'')
      else Inr (map (\<lambda>v. if normalize_weekday \<and> v = 7 then 0 else v) (stepped start end step)))))"

definition parse_cron_field :: "int \<Rightarrow> int \<Rightarrow> bool \<Rightarrow> string \<Rightarrow> int list result" where
  "parse_cron_field minimum maximum normalize_weekday field =
     rbind (rmap (cron_item minimum maximum normalize_weekday) (py_split CHR '','' field)) (\<lambda>parts.
     if concat parts = [] then Inl (ValueError ''Cron field cannot be empty'') else Inr (concat parts))"

definition parse_cron :: "string \<Rightarrow> cron result" where
  "parse_cron expression =
     (case py_words expression of
        [minute, hour, day, month, weekday] \<Rightarrow>
          rbind (parse_cron_field 0 59 False minute) (\<lambda>mi.
          rbind (parse_cron_field 0 23 False hour) (\<lambda>ho.
          rbind (parse_cron_field 1 31 False day) (\<lambda>da.
          rbind (parse_cron_field 1 12 False month) (\<lambda>mo.
          rbind (parse_cron_field 0 7 True weekday) (\<lambda>we.
          Inr \<lparr>cron_minutes = mi, cron_hours = ho, cron_days = da, cron_months = mo, cron_weekdays = we,
               cron_day_wildcard = (day = ''*''), cron_weekday_wildcard = (weekday = ''*'')\<rparr>)))))
      | _ \<Rightarrow> Inl (ValueError ''Cron expression must contain five fields''))"

section \<open>Maintenance windows\<close>

definition clock_minutes :: "json \<Rightarrow> int result" where
  "clock_minutes v =
     (let m = ''Maintenance window times must use HH:MM'' in
      rbind (raise_if (\<not> is_jstr v \<or> length (jstr v) \<noteq> 5 \<or> jstr v ! 2 \<noteq> CHR '':'') (ValueError m)) (\<lambda>_.
      case py_split CHR '':'' (jstr v) of
        [hour_text, minute_text] \<Rightarrow>
          if \<not> py_isdigit hour_text \<or> \<not> py_isdigit minute_text then Inl (ValueError m)
          else rbind (py_int_of_digits hour_text) (\<lambda>hour. rbind (py_int_of_digits minute_text) (\<lambda>minute.
            if hour > 23 \<or> minute > 59 then Inl (ValueError ''Maintenance window times must use a valid 24-hour clock'')
            else Inr (hour * 60 + minute)))
      | _ \<Rightarrow> Inl (ValueError ''too many values to unpack'')))"

definition day_number :: "json \<Rightarrow> int option" where
  "day_number v = (case v of JInt n \<Rightarrow> Some n | JBool b \<Rightarrow> Some (if b then 1 else 0) | _ \<Rightarrow> None)"

definition window_days :: "dict \<Rightarrow> json" where
  "window_days w = py_get_default w ''days'' (JList (map JInt [0..6]))"

definition validate_window :: "json \<Rightarrow> unit result" where
  "validate_window v =
     rbind (raise_if (\<not> is_jobj v \<or> \<not> fst ` set (jobj v) \<subseteq> {''days'', ''start'', ''end''})
              (ValueError ''Maintenance windows support only days, start, and end'')) (\<lambda>_.
     rbind (raise_if (let d = window_days (jobj v) in \<not> is_jlist d \<or> jlist d = [] \<or>
                list_ex (\<lambda>x. case day_number x of None \<Rightarrow> True | Some n \<Rightarrow> n < 0 \<or> n > 6) (jlist d))
              (ValueError ''Maintenance window days must use Monday=0 through Sunday=6'')) (\<lambda>_.
     rbind (clock_minutes (py_get (jobj v) ''start'')) (\<lambda>start.
     rbind (clock_minutes (py_get (jobj v) ''end'')) (\<lambda>end.
     raise_if (start = end) (ValueError ''Maintenance window start and end must differ'')))))"

definition validate_maintenance_windows :: "json list \<Rightarrow> unit result" where
  "validate_maintenance_windows windows =
     rbind (raise_if (length windows > 20) (ValueError ''Maintenance windows must be an array of at most 20 entries'')) (\<lambda>_.
     rforall validate_window windows)"

text \<open>One window at a local time of the day.\<close>

definition covers :: "local_time \<Rightarrow> json list \<Rightarrow> int \<Rightarrow> int \<Rightarrow> bool" where
  "covers l days start end =
     (let current = lt_hour l * 60 + lt_minute l; on_day = (\<lambda>d. Some d \<in> day_number ` set days)
      in start < end \<and> on_day (lt_weekday l) \<and> start \<le> current \<and> current < end \<or>
         start > end \<and> (on_day (lt_weekday l) \<and> current \<ge> start \<or> on_day ((lt_weekday l - 1) mod 7) \<and> current < end))"

fun in_maintenance :: "local_time \<Rightarrow> json list \<Rightarrow> bool result" where
  "in_maintenance l [] = Inr False"
| "in_maintenance l (w # ws) =
     rbind (rbind (py_getitem (jobj w) ''start'') clock_minutes) (\<lambda>start.
     rbind (rbind (py_getitem (jobj w) ''end'') clock_minutes) (\<lambda>end.
     if covers l (jlist (window_days (jobj w))) start end then Inr True else in_maintenance l ws))"

section \<open>The next run\<close>

definition calendar_match :: "cron \<Rightarrow> local_time \<Rightarrow> bool" where
  "calendar_match c l =
     (let day_match = lt_day l \<in> set (cron_days c); weekday_match = (lt_weekday l + 1) mod 7 \<in> set (cron_weekdays c)
      in if cron_day_wildcard c \<or> cron_weekday_wildcard c then day_match \<and> weekday_match else day_match \<or> weekday_match)"

definition cron_matches :: "cron \<Rightarrow> local_time \<Rightarrow> bool" where
  "cron_matches c l =
     (lt_minute l \<in> set (cron_minutes c) \<and> lt_hour l \<in> set (cron_hours c) \<and> lt_month l \<in> set (cron_months c) \<and> calendar_match c l)"

definition cron_eligible :: "cron \<Rightarrow> json list \<Rightarrow> local_time \<Rightarrow> bool result" where
  "cron_eligible c windows l =
     (if cron_matches c l then rbind (in_maintenance l windows) (\<lambda>b. Inr (\<not> b)) else Inr False)"

text \<open>The first of so many minutes, counted from one of them, at which a test holds.\<close>

function first_minute :: "(time \<Rightarrow> bool result) \<Rightarrow> py_error \<Rightarrow> int \<Rightarrow> time \<Rightarrow> time result" where
  "first_minute ok e n candidate =
     (if n \<le> 0 then Inl e
      else rbind (ok candidate) (\<lambda>b. if b then Inr candidate else first_minute ok e (n - 1) (candidate + minute_us)))"
  by pat_completeness auto
termination by (relation "measure (\<lambda>(ok, e, n, candidate). nat n)") auto

declare first_minute.simps [simp del]

definition zone_of :: "zones \<Rightarrow> string \<Rightarrow> (time \<Rightarrow> time) result" where
  "zone_of zones name = (case zones name of None \<Rightarrow> Inl (OtherError ''ZoneInfoNotFoundError'') | Some z \<Rightarrow> Inr z)"

definition next_cron_run :: "zones \<Rightarrow> string \<Rightarrow> string \<Rightarrow> time \<Rightarrow> json list \<Rightarrow> time result" where
  "next_cron_run zones expression timezone_name after windows =
     rbind (parse_cron expression) (\<lambda>c.
     rbind (zone_of zones timezone_name) (\<lambda>z.
     first_minute (\<lambda>t. cron_eligible c windows (at_zone z t))
       (ValueError ''Cron schedule has no eligible run within one year'') 527040 (after div minute_us * minute_us + minute_us)))"

definition skip_maintenance :: "zones \<Rightarrow> time \<Rightarrow> string \<Rightarrow> json list \<Rightarrow> time result" where
  "skip_maintenance zones candidate timezone_name windows =
     rbind (zone_of zones timezone_name) (\<lambda>z.
     first_minute (\<lambda>t. rbind (in_maintenance (at_zone z t) windows) (\<lambda>b. Inr (\<not> b)))
       (ValueError ''Maintenance windows leave no eligible time within seven days'') 10080 candidate)"

text \<open>\<open>while candidate <= after: candidate += interval\<close>; it ends when the interval is positive.\<close>

partial_function (option) advance :: "time \<Rightarrow> time \<Rightarrow> time \<Rightarrow> time option" where
  "advance interval after candidate = (if candidate \<le> after then advance interval after (candidate + interval) else Some candidate)"

declare advance.simps [code]

definition windows_of :: "connector_schedule \<Rightarrow> json list" where
  "windows_of s = jlist (sched_maintenance_windows_json s)"

text \<open>The next run from the fields of a schedule; the schedules of ownership campaigns are passed in too.\<close>

definition next_run_of :: "zones \<Rightarrow> string \<Rightarrow> int \<Rightarrow> string option \<Rightarrow> string \<Rightarrow> json list \<Rightarrow> time \<Rightarrow> time \<Rightarrow> time result" where
  "next_run_of zones schedule_type interval_seconds cron_expression timezone_name windows next_run_at after =
     (if schedule_type = ''cron''
      then next_cron_run zones (case cron_expression of None \<Rightarrow> [] | Some c \<Rightarrow> c) timezone_name after windows
      else case advance (td_seconds interval_seconds) after next_run_at of
             None \<Rightarrow> Inl (OtherError ''diverges'')
           | Some candidate \<Rightarrow> skip_maintenance zones candidate timezone_name windows)"

definition next_schedule_run :: "zones \<Rightarrow> connector_schedule \<Rightarrow> time \<Rightarrow> time result" where
  "next_schedule_run zones s after =
     next_run_of zones (sched_schedule_type s) (sched_interval_seconds s) (sched_cron_expression s) (sched_timezone s)
       (windows_of s) (sched_next_run_at s) after"

section \<open>Creating and changing schedules\<close>

definition validate_schedule_definition :: "zones \<Rightarrow> string \<Rightarrow> int \<Rightarrow> string option \<Rightarrow> string \<Rightarrow> json list \<Rightarrow> unit result" where
  "validate_schedule_definition zones schedule_type interval_seconds cron_expression timezone_name windows =
     rbind (raise_if (schedule_type \<notin> {''interval'', ''cron''}) (ValueError ''Schedule type must be interval or cron'')) (\<lambda>_.
     rbind (raise_if (\<not> (60 \<le> interval_seconds \<and> interval_seconds \<le> 604800))
              (ValueError ''Interval must be between 60 seconds and 7 days'')) (\<lambda>_.
     rbind (raise_if (zones timezone_name = None) (ValueError ''Schedule timezone is invalid'')) (\<lambda>_.
     rbind (if schedule_type = ''cron''
            then (case cron_expression of
                    None \<Rightarrow> Inl (ValueError ''Cron schedules require cron_expression'')
                  | Some c \<Rightarrow> if c = [] then Inl (ValueError ''Cron schedules require cron_expression'')
                              else rbind (parse_cron c) (\<lambda>_. Inr ()))
            else raise_if (truthy_opt cron_expression) (ValueError ''Interval schedules cannot define cron_expression'')) (\<lambda>_.
     validate_maintenance_windows windows))))"

text \<open>\<open>next_run_at\<close> of a schedule whose cadence is new.\<close>

definition first_run :: "env \<Rightarrow> zones \<Rightarrow> string \<Rightarrow> string option \<Rightarrow> string \<Rightarrow> json list \<Rightarrow> time result" where
  "first_run env zones schedule_type cron_expression timezone_name windows =
     (if schedule_type = ''cron''
      then next_cron_run zones (case cron_expression of None \<Rightarrow> [] | Some c \<Rightarrow> c) timezone_name (env_now env) windows
      else skip_maintenance zones (env_now env) timezone_name windows)"

definition dict_merge :: "dict \<Rightarrow> dict \<Rightarrow> dict" where
  "dict_merge d d' = fold (\<lambda>(k, v). dict_set k v) d' d"

definition create_schedule ::
  "env \<Rightarrow> zones \<Rightarrow> registration list \<Rightarrow> string \<Rightarrow> string \<Rightarrow> string \<Rightarrow> string \<Rightarrow> int \<Rightarrow> dict \<Rightarrow> string \<Rightarrow> bool \<Rightarrow> string \<Rightarrow>
     string option \<Rightarrow> string \<Rightarrow> json list \<Rightarrow> db \<Rightarrow> (db \<times> connector_schedule) result" where
  "create_schedule env zones registry uuid tenant_id connector_type account interval_seconds payload created_by enabled
      schedule_type cron_expression timezone_name windows db =
     (let normalized = dict_merge [(''connector_type'', JStr connector_type), (''account'', JStr account)] payload in
      rbind (validate_job_payload env registry ''connector.scan'' normalized) (\<lambda>_.
      rbind (connector_registration registry (JStr connector_type)) (\<lambda>reg.
      rbind (enforce_connector_policy env (Some db) tenant_id (reg_manifest reg)) (\<lambda>_.
      rbind (validate_schedule_definition zones schedule_type interval_seconds cron_expression timezone_name windows) (\<lambda>_.
      rbind (first_run env zones schedule_type cron_expression timezone_name windows) (\<lambda>next.
      let s = \<lparr>sched_id = next_id sched_id (db_schedules db), sched_tenant_id = tenant_id, sched_schedule_id = uuid,
               sched_connector_type = connector_type, sched_account = account, sched_interval_seconds = interval_seconds,
               sched_schedule_type = schedule_type, sched_cron_expression = cron_expression, sched_timezone = timezone_name,
               sched_maintenance_windows_json = JList windows, sched_payload_json = JObj normalized, sched_enabled = enabled,
               sched_next_run_at = next, sched_last_enqueued_at = None, sched_created_by = created_by,
               sched_created_at = env_now env, sched_updated_at = env_now env\<rparr>
      in Inr (db\<lparr>db_schedules := db_schedules db @ [s]\<rparr>, s)))))))"

section \<open>Queueing due schedules\<close>

definition due_schedules :: "time \<Rightarrow> nat \<Rightarrow> db \<Rightarrow> connector_schedule list" where
  "due_schedules now n db =
     take n (order_by sched_next_run_at (where_rows (\<lambda>s. sched_enabled s \<and> sched_next_run_at s \<le> now) (db_schedules db)))"

text \<open>The claim of an occurrence: it succeeds when the row still is as it was read.\<close>

definition claimed_rows :: "connector_schedule \<Rightarrow> connector_schedule \<Rightarrow> bool" where
  "claimed_rows r s = (sched_id s = sched_id r \<and> sched_enabled s \<and> sched_next_run_at s = sched_next_run_at r)"

definition claim_schedule :: "zones \<Rightarrow> time \<Rightarrow> connector_schedule \<Rightarrow> db \<Rightarrow> (db \<times> bool) result" where
  "claim_schedule zones now r db =
     rbind (next_schedule_run zones r now) (\<lambda>next.
     Inr (db\<lparr>db_schedules := update_rows (claimed_rows r)
            (\<lambda>s. s\<lparr>sched_next_run_at := next, sched_last_enqueued_at := Some now, sched_updated_at := now\<rparr>) (db_schedules db)\<rparr>,
          row_count (claimed_rows r) (db_schedules db) = 1))"

definition row_by_id :: "nat \<Rightarrow> db \<Rightarrow> connector_schedule result" where
  "row_by_id i db = (case scalar (\<lambda>s. sched_id s = i) (db_schedules db) of None \<Rightarrow> Inl (OtherError ''ObjectDeletedError'') | Some s \<Rightarrow> Inr s)"

text \<open>One turn of the loop: what is committed before an exception stays.\<close>

definition enqueue_schedule ::
  "env \<Rightarrow> zones \<Rightarrow> registration list \<Rightarrow> string \<Rightarrow> connector_schedule result \<Rightarrow> db \<Rightarrow> db \<times> bool result" where
  "enqueue_schedule env zones registry uuid row db =
     (case rbind row (\<lambda>r. claim_schedule zones (env_now env) r db) of
        Inl e \<Rightarrow> (db, Inl e)
      | Inr (db1, claimed) \<Rightarrow>
          if \<not> claimed then (db1, Inr False)
          else case rbind (rbind row (\<lambda>r. row_by_id (sched_id r) db1)) (\<lambda>s.
                 enqueue_job env registry uuid db1 (sched_tenant_id s) ''connector.scan'' (jobj (sched_payload_json s))
                   (''schedule:'' @ sched_schedule_id s) 3) of
               Inl e \<Rightarrow> (db1, Inl e)
             | Inr (db2, _) \<Rightarrow> (db2, Inr True))"

text \<open>The first row is as it was selected, the others are loaded again.\<close>

fun enqueue_loop ::
  "env \<Rightarrow> zones \<Rightarrow> registration list \<Rightarrow> (nat \<Rightarrow> string) \<Rightarrow> bool \<Rightarrow> nat \<Rightarrow> connector_schedule list \<Rightarrow> db \<Rightarrow> db \<times> nat result" where
  "enqueue_loop env zones registry uuids fresh n [] db = (db, Inr n)"
| "enqueue_loop env zones registry uuids fresh n (r # rs) db =
     (case enqueue_schedule env zones registry (uuids n) (if fresh then Inr r else row_by_id (sched_id r) db) db of
        (db1, Inl e) \<Rightarrow> (db1, Inl e)
      | (db1, Inr claimed) \<Rightarrow> enqueue_loop env zones registry uuids False (if claimed then Suc n else n) rs db1)"

definition enqueue_due_schedules ::
  "env \<Rightarrow> zones \<Rightarrow> registration list \<Rightarrow> (nat \<Rightarrow> string) \<Rightarrow> nat \<Rightarrow> db \<Rightarrow> db \<times> nat result" where
  "enqueue_due_schedules env zones registry uuids n db =
     enqueue_loop env zones registry uuids True 0 (due_schedules (env_now env) n db) db"

section \<open>Routes of the schedules\<close>

record schedule_create =
  sc_connector_type :: string
  sc_account :: string
  sc_schedule_type :: string
  sc_interval_seconds :: int
  sc_cron_expression :: "string option"
  sc_timezone :: string
  sc_windows :: "json list"
  sc_enabled :: bool
  sc_secret_ref :: "string option"
  sc_cursor :: "string option"
  sc_max_items :: int
  sc_api_url :: "string option"
  sc_site_id :: "string option"
  sc_drive_id :: "string option"
  sc_region :: "string option"
  sc_prefix :: string
  sc_impersonate_user :: "string option"
  sc_schemas :: "string list"

definition slug_char :: "char \<Rightarrow> bool" where
  "slug_char c = (let n = (of_char c :: nat) in 97 \<le> n \<and> n \<le> 122 \<or> 48 \<le> n \<and> n \<le> 57)"

definition secret_ref_ok :: "string \<Rightarrow> bool" where
  "secret_ref_ok s =
     list_ex (\<lambda>p. take (length p) s = p \<and> length s > length p \<and> char_of (10::nat) \<notin> set (drop (length p) s)) [''env:'', ''file:'']"

definition schedule_create_ok :: "schedule_create \<Rightarrow> bool" where
  "schedule_create_ok r =
     (field_length 1 80 (sc_connector_type r) \<and> list_all (\<lambda>p. p \<noteq> [] \<and> list_all slug_char p) (py_split CHR ''-'' (sc_connector_type r)) \<and>
      field_length 1 240 (sc_account r) \<and> sc_schedule_type r \<in> {''interval'', ''cron''} \<and>
      60 \<le> sc_interval_seconds r \<and> sc_interval_seconds r \<le> 604800 \<and> opt_field 9 120 (sc_cron_expression r) \<and>
      field_length 1 120 (sc_timezone r) \<and> length (sc_windows r) \<le> 20 \<and> list_all is_jobj (sc_windows r) \<and>
      (case sc_secret_ref r of None \<Rightarrow> True | Some s \<Rightarrow> secret_ref_ok s) \<and> 1 \<le> sc_max_items r \<and> sc_max_items r \<le> 5000 \<and>
      length (sc_schemas r) \<le> 100)"

definition given :: "string \<Rightarrow> string option \<Rightarrow> dict" where
  "given k v = (case v of None \<Rightarrow> [] | Some s \<Rightarrow> [(k, JStr s)])"

text \<open>\<open>model_dump\<close> without the excluded and the absent fields.\<close>

definition schedule_payload :: "schedule_create \<Rightarrow> dict" where
  "schedule_payload r =
     [(''schedule_type'', JStr (sc_schedule_type r))] @ given ''cron_expression'' (sc_cron_expression r) @
     [(''timezone'', JStr (sc_timezone r)), (''maintenance_windows'', JList (sc_windows r))] @ given ''secret_ref'' (sc_secret_ref r) @
     given ''cursor'' (sc_cursor r) @ [(''max_items'', JInt (sc_max_items r))] @ given ''api_url'' (sc_api_url r) @
     given ''site_id'' (sc_site_id r) @ given ''drive_id'' (sc_drive_id r) @ given ''region'' (sc_region r) @
     [(''prefix'', JStr (sc_prefix r))] @ given ''impersonate_user'' (sc_impersonate_user r) @
     [(''schemas'', JList (map JStr (sc_schemas r)))]"

definition schedule_response :: "env \<Rightarrow> connector_schedule \<Rightarrow> dict" where
  "schedule_response env s =
     [(''schedule_id'', JStr (sched_schedule_id s)), (''tenant_id'', JStr (sched_tenant_id s)),
      (''connector_type'', JStr (sched_connector_type s)), (''account'', JStr (sched_account s)),
      (''schedule_type'', JStr (sched_schedule_type s)), (''interval_seconds'', JInt (sched_interval_seconds s)),
      (''cron_expression'', jopt JStr (sched_cron_expression s)), (''timezone'', JStr (sched_timezone s)),
      (''maintenance_windows'', sched_maintenance_windows_json s), (''enabled'', JBool (sched_enabled s)),
      (''next_run_at'', jtime env (sched_next_run_at s)), (''last_enqueued_at'', jopt (jtime env) (sched_last_enqueued_at s)),
      (''configuration'', JObj (filter (\<lambda>(k, v). k \<noteq> ''secret_ref'') (jobj (sched_payload_json s)))),
      (''has_secret_ref'', JBool (''secret_ref'' \<in> fst ` set (jobj (sched_payload_json s)))),
      (''created_by'', JStr (sched_created_by s)), (''created_at'', jtime env (sched_created_at s)),
      (''updated_at'', jtime env (sched_updated_at s))]"

definition create_connector_schedule ::
  "env \<Rightarrow> zones \<Rightarrow> registration list \<Rightarrow> string \<Rightarrow> principal \<Rightarrow> schedule_create \<Rightarrow> db \<Rightarrow> (db \<times> dict) result" where
  "create_connector_schedule env zones registry uuid who r db =
     rbind (require_role ConnectorOperator who) (\<lambda>_.
     rbind (check_body (schedule_create_ok r)) (\<lambda>_.
     rbind (bad_request (create_schedule env zones registry uuid (p_tenant_id who) (sc_connector_type r) (sc_account r)
              (sc_interval_seconds r) (schedule_payload r) (p_subject who) (sc_enabled r) (sc_schedule_type r) (sc_cron_expression r)
              (sc_timezone r) (sc_windows r) db)) (\<lambda>(db', s). Inr (db', schedule_response env s))))"

definition list_connector_schedules :: "env \<Rightarrow> principal \<Rightarrow> db \<Rightarrow> dict list result" where
  "list_connector_schedules env who db =
     rbind (require_role Auditor who) (\<lambda>_. Inr (map (schedule_response env)
       (order_by_desc sched_created_at (where_rows (\<lambda>s. sched_tenant_id s = p_tenant_id who) (db_schedules db)))))"

definition schedule_for_tenant :: "db \<Rightarrow> string \<Rightarrow> string \<Rightarrow> connector_schedule option" where
  "schedule_for_tenant db schedule_id tenant_id =
     scalar (\<lambda>s. sched_tenant_id s = tenant_id \<and> sched_schedule_id s = schedule_id) (db_schedules db)"

text \<open>The body of a change: a field that is given as null counts as set.\<close>

record schedule_update =
  su_enabled :: "bool option"
  su_schedule_type :: "string option"
  su_interval_seconds :: "int option"
  su_cron_expression :: "string option"
  su_timezone :: "string option"
  su_windows :: "json list option"
  su_next_run_at :: "datetime option"
  su_fields_set :: "string list"

definition schedule_update_ok :: "schedule_update \<Rightarrow> bool" where
  "schedule_update_ok r =
     ((case su_schedule_type r of None \<Rightarrow> True | Some t \<Rightarrow> t \<in> {''interval'', ''cron''}) \<and>
      (case su_interval_seconds r of None \<Rightarrow> True | Some n \<Rightarrow> 60 \<le> n \<and> n \<le> 604800) \<and>
      opt_field 9 120 (su_cron_expression r) \<and> opt_field 1 120 (su_timezone r) \<and>
      (case su_windows r of None \<Rightarrow> True | Some ws \<Rightarrow> length ws \<le> 20 \<and> list_all is_jobj ws))"

definition or_old :: "'a option \<Rightarrow> 'a \<Rightarrow> 'a" where
  "or_old new old = (case new of None \<Rightarrow> old | Some v \<Rightarrow> v)"

definition changed_schedule :: "schedule_update \<Rightarrow> connector_schedule \<Rightarrow> connector_schedule" where
  "changed_schedule r s =
     s\<lparr>sched_enabled := or_old (su_enabled r) (sched_enabled s),
       sched_schedule_type := or_old (su_schedule_type r) (sched_schedule_type s),
       sched_interval_seconds := or_old (su_interval_seconds r) (sched_interval_seconds s),
       sched_cron_expression := (if su_schedule_type r = Some ''interval'' then None
                                 else case su_cron_expression r of None \<Rightarrow> sched_cron_expression s | Some c \<Rightarrow> Some c),
       sched_timezone := or_old (su_timezone r) (sched_timezone s),
       sched_next_run_at := (case su_next_run_at r of None \<Rightarrow> sched_next_run_at s | Some d \<Rightarrow> drop_tzinfo d)\<rparr>"

definition cadence_fields :: "string list" where
  "cadence_fields = [''schedule_type'', ''interval_seconds'', ''cron_expression'', ''timezone'', ''maintenance_windows'']"

definition rescheduled :: "env \<Rightarrow> zones \<Rightarrow> schedule_update \<Rightarrow> connector_schedule \<Rightarrow> time result" where
  "rescheduled env zones r s =
     (if su_next_run_at r = None \<and> set (su_fields_set r) \<inter> set cadence_fields \<noteq> {}
      then first_run env zones (sched_schedule_type s) (sched_cron_expression s) (sched_timezone s) (windows_of s)
      else if su_enabled r = Some True \<and> su_next_run_at r = None \<and> sched_next_run_at s < env_now env then Inr (env_now env)
      else Inr (sched_next_run_at s))"

definition update_connector_schedule ::
  "env \<Rightarrow> zones \<Rightarrow> principal \<Rightarrow> string \<Rightarrow> schedule_update \<Rightarrow> db \<Rightarrow> (db \<times> dict) result" where
  "update_connector_schedule env zones who schedule_id r db =
     rbind (require_role ConnectorOperator who) (\<lambda>_.
     rbind (check_body (schedule_update_ok r)) (\<lambda>_.
     case schedule_for_tenant db schedule_id (p_tenant_id who) of
       None \<Rightarrow> Inl (HTTPException 404 ''Connector schedule not found'')
     | Some s \<Rightarrow>
         let windows = or_old (su_windows r) (windows_of s); c = changed_schedule r s in
         rbind (bad_request (validate_schedule_definition zones (sched_schedule_type c) (sched_interval_seconds c)
                  (sched_cron_expression c) (sched_timezone c) windows)) (\<lambda>_.
         let c1 = c\<lparr>sched_maintenance_windows_json := JList windows\<rparr> in
         rbind (rescheduled env zones r c1) (\<lambda>next.
         let c2 = c1\<lparr>sched_next_run_at := next, sched_updated_at := env_now env\<rparr> in
         Inr (db\<lparr>db_schedules := update_rows (\<lambda>x. sched_id x = sched_id s) (\<lambda>_. c2) (db_schedules db)\<rparr>, schedule_response env c2)))))"

definition delete_connector_schedule :: "principal \<Rightarrow> string \<Rightarrow> db \<Rightarrow> db result" where
  "delete_connector_schedule who schedule_id db =
     rbind (require_role ConnectorOperator who) (\<lambda>_.
     case schedule_for_tenant db schedule_id (p_tenant_id who) of
       None \<Rightarrow> Inl (HTTPException 404 ''Connector schedule not found'')
     | Some s \<Rightarrow> Inr (db\<lparr>db_schedules := filter (\<lambda>x. sched_id x \<noteq> sched_id s) (db_schedules db)\<rparr>))"

section \<open>Request budgets of the providers\<close>

definition find_budget :: "db \<Rightarrow> string \<Rightarrow> string \<Rightarrow> provider_rate_limit option" where
  "find_budget db tenant_id provider = scalar (\<lambda>b. budget_tenant_id b = tenant_id \<and> budget_provider b = provider) (db_budgets db)"

definition configure_provider_budget :: "env \<Rightarrow> string \<Rightarrow> string \<Rightarrow> int \<Rightarrow> int \<Rightarrow> db \<Rightarrow> db \<times> provider_rate_limit" where
  "configure_provider_budget env tenant_id provider max_requests window_seconds db =
     (case find_budget db tenant_id provider of
        Some b \<Rightarrow>
          let b' = b\<lparr>budget_max_requests := max_requests, budget_window_seconds := window_seconds, budget_used_requests := 0,
                     budget_window_started_at := env_now env, budget_updated_at := env_now env\<rparr>
          in (db\<lparr>db_budgets := update_rows (\<lambda>x. budget_id x = budget_id b) (\<lambda>_. b') (db_budgets db)\<rparr>, b')
      | None \<Rightarrow>
          let b' = \<lparr>budget_id = next_id budget_id (db_budgets db), budget_tenant_id = tenant_id, budget_provider = provider,
                    budget_max_requests = max_requests, budget_window_seconds = window_seconds, budget_used_requests = 0,
                    budget_window_started_at = env_now env, budget_updated_at = env_now env\<rparr>
          in (db\<lparr>db_budgets := db_budgets db @ [b']\<rparr>, b'))"

text \<open>What an attempt does with the row it read: each update asks for the row as it was read.\<close>

datatype attempt = Granted | Exceeded int | Again

definition budget_attempt :: "time \<Rightarrow> int \<Rightarrow> provider_rate_limit \<Rightarrow> db \<Rightarrow> db \<times> attempt" where
  "budget_attempt now units b db =
     (let window_ends = budget_window_started_at b + td_seconds (budget_window_seconds b) in
      if now \<ge> window_ends then
        (db\<lparr>db_budgets := update_rows (\<lambda>x. budget_id x = budget_id b \<and> budget_window_started_at x = budget_window_started_at b)
           (\<lambda>x. x\<lparr>budget_used_requests := 0, budget_window_started_at := now, budget_updated_at := now\<rparr>) (db_budgets db)\<rparr>, Again)
      else if budget_used_requests b + units > budget_max_requests b then
        (db, Exceeded (max 1 ((window_ends - now) div 1000000 + 1)))
      else
        let P = (\<lambda>x. budget_id x = budget_id b \<and> budget_used_requests x = budget_used_requests b \<and>
                     budget_window_started_at x = budget_window_started_at b) in
        (db\<lparr>db_budgets := update_rows P
           (\<lambda>x. x\<lparr>budget_used_requests := budget_used_requests b + units, budget_updated_at := now\<rparr>) (db_budgets db)\<rparr>,
         if row_count P (db_budgets db) = 1 then Granted else Again))"

fun consume_loop :: "nat \<Rightarrow> time \<Rightarrow> string \<Rightarrow> string \<Rightarrow> int \<Rightarrow> db \<Rightarrow> db \<times> unit result" where
  "consume_loop 0 now tenant_id provider units db = (db, Inl (RuntimeError ''Provider request budget could not be updated''))"
| "consume_loop (Suc n) now tenant_id provider units db =
     (case find_budget db tenant_id provider of
        None \<Rightarrow> (db, Inr ())
      | Some b \<Rightarrow>
          (case budget_attempt now units b db of
             (db1, Granted) \<Rightarrow> (db1, Inr ())
           | (db1, Exceeded s) \<Rightarrow> (db1, Inl (ProviderRateLimitExceeded provider s))
           | (db1, Again) \<Rightarrow> consume_loop n now tenant_id provider units db1))"

definition consume_provider_budget :: "env \<Rightarrow> string \<Rightarrow> string \<Rightarrow> int \<Rightarrow> db \<Rightarrow> db \<times> unit result" where
  "consume_provider_budget env tenant_id provider units db = consume_loop 3 (env_now env) tenant_id provider units db"

definition rate_limit_response :: "env \<Rightarrow> provider_rate_limit \<Rightarrow> dict" where
  "rate_limit_response env b =
     [(''provider'', JStr (budget_provider b)), (''max_requests'', JInt (budget_max_requests b)),
      (''window_seconds'', JInt (budget_window_seconds b)), (''used_requests'', JInt (budget_used_requests b)),
      (''window_started_at'', jtime env (budget_window_started_at b)),
      (''window_ends_at'', jtime env (budget_window_started_at b + td_seconds (budget_window_seconds b))),
      (''updated_at'', jtime env (budget_updated_at b))]"

definition BUDGET_PROVIDERS :: "string list" where
  "BUDGET_PROVIDERS = [''aws-s3'', ''google-drive'', ''github'', ''gitlab'', ''sharepoint'']"

definition update_provider_rate_limit :: "env \<Rightarrow> principal \<Rightarrow> string \<Rightarrow> int \<Rightarrow> int \<Rightarrow> db \<Rightarrow> (db \<times> dict) result" where
  "update_provider_rate_limit env who provider max_requests window_seconds db =
     rbind (require_role Administrator who) (\<lambda>_.
     rbind (check_body (1 \<le> max_requests \<and> max_requests \<le> 1000000 \<and> 1 \<le> window_seconds \<and> window_seconds \<le> 86400)) (\<lambda>_.
     if provider \<notin> set BUDGET_PROVIDERS then Inl (HTTPException 404 ''Unsupported connector provider'')
     else case configure_provider_budget env (p_tenant_id who) provider max_requests window_seconds db of
            (db', b) \<Rightarrow> Inr (db', rate_limit_response env b)))"

definition list_provider_rate_limits :: "env \<Rightarrow> principal \<Rightarrow> db \<Rightarrow> dict list result" where
  "list_provider_rate_limits env who db =
     rbind (require_role Auditor who) (\<lambda>_. Inr (map (rate_limit_response env)
       (order_by budget_provider (where_rows (\<lambda>b. budget_tenant_id b = p_tenant_id who) (db_budgets db)))))"


section \<open>The search of a minute\<close>

lemma first_minute_Inr:
  "first_minute ok e n c = Inr t \<longleftrightarrow>
   (\<exists>k. 0 \<le> k \<and> k < n \<and> t = c + k * minute_us \<and> ok t = Inr True \<and> (\<forall>j. 0 \<le> j \<and> j < k \<longrightarrow> ok (c + j * minute_us) = Inr False))"
proof (induction ok e n c rule: first_minute.induct)
  case (1 ok e n c)
  show ?case
  proof (cases "n \<le> 0")
    case True
    then show ?thesis by (auto simp: first_minute.simps[of ok e n c])
  next
    case n: False
    show ?thesis
    proof (cases "ok c")
      case (Inl x)
      have "\<not> (0 \<le> k \<and> k < n \<and> ok (c + k * minute_us) = Inr True \<and> (\<forall>j. 0 \<le> j \<and> j < k \<longrightarrow> ok (c + j * minute_us) = Inr False))" for k
        using Inl by (cases "k = 0") (auto intro!: exI[of _ 0])
      with Inl n show ?thesis by (auto simp: first_minute.simps[of ok e n c])
    next
      case (Inr b)
      show ?thesis
      proof (cases b)
        case True
        have "k = 0" if "0 \<le> k" "\<forall>j. 0 \<le> j \<and> j < k \<longrightarrow> ok (c + j * minute_us) = Inr False" for k
          using that Inr True spec[of _ 0] by (cases "k = 0") auto
        with n Inr True show ?thesis by (force simp: first_minute.simps[of ok e n c])
      next
        case False
        have "first_minute ok e n c = Inr t \<longleftrightarrow> first_minute ok e (n - 1) (c + minute_us) = Inr t" using n Inr False by (simp add: first_minute.simps[of ok e n c])
        also have "\<dots> \<longleftrightarrow> (\<exists>k. 0 \<le> k \<and> k < n - 1 \<and> t = c + minute_us + k * minute_us \<and> ok t = Inr True \<and>
            (\<forall>j. 0 \<le> j \<and> j < k \<longrightarrow> ok (c + minute_us + j * minute_us) = Inr False))"
          using 1 n Inr False by blast
        also have "\<dots> \<longleftrightarrow> (\<exists>k. 0 \<le> k \<and> k < n \<and> t = c + k * minute_us \<and> ok t = Inr True \<and>
            (\<forall>j. 0 \<le> j \<and> j < k \<longrightarrow> ok (c + j * minute_us) = Inr False))" (is "?A \<longleftrightarrow> ?B")
        proof
          assume ?A
          then obtain k where k: "0 \<le> k" "k < n - 1" "t = c + minute_us + k * minute_us" "ok t = Inr True"
            "\<forall>j. 0 \<le> j \<and> j < k \<longrightarrow> ok (c + minute_us + j * minute_us) = Inr False" by blast
          have "ok (c + j * minute_us) = Inr False" if "0 \<le> j" "j < k + 1" for j
            using k(5)[rule_format, of "j - 1"] that Inr False by (cases "j = 0") (auto simp: algebra_simps)
          with k show ?B by (intro exI[of _ "k + 1"]) (auto simp: algebra_simps)
        next
          assume ?B
          then obtain k where k: "0 \<le> k" "k < n" "t = c + k * minute_us" "ok t = Inr True"
            "\<forall>j. 0 \<le> j \<and> j < k \<longrightarrow> ok (c + j * minute_us) = Inr False" by blast
          have "k \<noteq> 0" using k(3,4) Inr False by auto
          moreover have "ok (c + minute_us + j * minute_us) = Inr False" if "0 \<le> j" "j < k - 1" for j
            using k(5)[rule_format, of "j + 1"] that by (simp add: algebra_simps)
          ultimately show ?A using k by (intro exI[of _ "k - 1"]) (auto simp: algebra_simps)
        qed
        finally show ?thesis .
      qed
    qed
  qed
qed

lemma first_minute_none:
  "(\<forall>k. 0 \<le> k \<and> k < n \<longrightarrow> ok (c + k * minute_us) = Inr False) \<Longrightarrow> first_minute ok e n c = Inl e"
proof (induction ok e n c rule: first_minute.induct)
  case (1 ok e n c)
  show ?case
  proof (cases "n \<le> 0")
    case False
    then have "ok c = Inr False" using 1(2)[rule_format, of 0] by simp
    moreover have "first_minute ok e (n - 1) (c + minute_us) = Inl e"
    proof (rule 1(1)[OF False, of False])
      show "\<forall>k. 0 \<le> k \<and> k < n - 1 \<longrightarrow> ok (c + minute_us + k * minute_us) = Inr False"
      proof (intro allI impI)
        fix k assume "0 \<le> k \<and> k < n - 1"
        then show "ok (c + minute_us + k * minute_us) = Inr False" using 1(2)[rule_format, of "k + 1"] by (simp add: algebra_simps)
      qed
    qed simp_all
    ultimately show ?thesis using False by (simp add: first_minute.simps[of ok e n c])
  qed (simp add: first_minute.simps[of ok e n c])
qed

lemma first_minute_now: "0 < n \<Longrightarrow> ok c = Inr True \<Longrightarrow> first_minute ok e n c = Inr c"
  by (simp add: first_minute.simps)

section \<open>Windows\<close>

definition in_window :: "local_time \<Rightarrow> json \<Rightarrow> bool" where
  "in_window l w = (case (clock_minutes (py_get (jobj w) ''start''), clock_minutes (py_get (jobj w) ''end'')) of
     (Inr start, Inr end) \<Rightarrow> covers l (jlist (window_days (jobj w))) start end | _ \<Rightarrow> False)"

lemma clock_minutes_getitem: "clock_minutes (py_get d k) = Inr n \<Longrightarrow> rbind (py_getitem d k) clock_minutes = Inr n"
  by (cases "map_of d k") (auto simp: py_getitem_def py_get_def clock_minutes_def)

lemma in_maintenance_valid:
  assumes "rforall validate_window ws = Inr ()"
  shows "in_maintenance l ws = Inr (list_ex (in_window l) ws)"
proof -
  have "\<forall>w \<in> set ws. validate_window w = Inr ()" using assms by (simp add: rforall_Inr)
  then show ?thesis
  proof (induction ws)
    case (Cons w ws)
    then have "validate_window w = Inr ()" by simp
    then obtain s e where "clock_minutes (py_get (jobj w) ''start'') = Inr s" "clock_minutes (py_get (jobj w) ''end'') = Inr e"
      by (auto simp: validate_window_def rbind_Inr_iff)
    with Cons show ?case by (simp add: clock_minutes_getitem in_window_def)
  qed simp
qed

lemma valid_windows: "validate_maintenance_windows ws = Inr () \<Longrightarrow> rforall validate_window ws = Inr ()"
  by (simp add: validate_maintenance_windows_def rbind_Inr_iff)

section \<open>The next run of a cron expression\<close>

text \<open>A minute at which a schedule may run.\<close>

definition runs_at :: "cron \<Rightarrow> (time \<Rightarrow> time) \<Rightarrow> json list \<Rightarrow> time \<Rightarrow> bool" where
  "runs_at c z windows t =
     (t mod minute_us = 0 \<and> cron_matches c (at_zone z t) \<and> \<not> list_ex (in_window (at_zone z t)) windows)"

definition year_end :: "time \<Rightarrow> time" where
  "year_end after = after div minute_us * minute_us + 527040 * minute_us"

lemma minutes_after:
  "t mod minute_us = 0 \<and> after < t \<and> t \<le> year_end after \<longleftrightarrow>
   (\<exists>k. 0 \<le> k \<and> k < 527040 \<and> t = after div minute_us * minute_us + minute_us + k * minute_us)"
proof
  assume t: "t mod minute_us = 0 \<and> after < t \<and> t \<le> year_end after"
  then obtain m where m: "t = m * minute_us" by (metis mod_0_imp_dvd dvd_def mult.commute)
  have "after div minute_us < m" "m \<le> after div minute_us + 527040"
    using t by (simp_all add: m year_end_def minute_us_def; linarith)+
  then show "\<exists>k. 0 \<le> k \<and> k < 527040 \<and> t = after div minute_us * minute_us + minute_us + k * minute_us"
    by (intro exI[of _ "m - after div minute_us - 1"]) (auto simp: m algebra_simps)
next
  assume "\<exists>k. 0 \<le> k \<and> k < 527040 \<and> t = after div minute_us * minute_us + minute_us + k * minute_us"
  then obtain k where k: "0 \<le> k" "k < 527040" "t = (after div minute_us + 1 + k) * minute_us" by (auto simp: algebra_simps)
  then show "t mod minute_us = 0 \<and> after < t \<and> t \<le> year_end after"
    by (simp add: year_end_def minute_us_def; linarith)
qed

lemma cron_eligible_runs:
  assumes "rforall validate_window ws = Inr ()" and "t mod minute_us = 0"
  shows "cron_eligible c ws (at_zone z t) = Inr (runs_at c z ws t)"
  by (simp add: cron_eligible_def in_maintenance_valid[OF assms(1)] runs_at_def assms(2))

text \<open>
  C36: the next run of a cron schedule is the first minute after the given time, within 366 days, whose local minute, hour,
  month and day fit the expression and which no maintenance window covers; the computation fails exactly when there is none.
\<close>

theorem next_cron_run_exact:
  assumes "parse_cron expression = Inr c" and "zones tz = Some z" and "validate_maintenance_windows ws = Inr ()"
  shows "(next_cron_run zones expression tz after ws = Inr t \<longleftrightarrow>
      runs_at c z ws t \<and> after < t \<and> t \<le> year_end after \<and> (\<forall>u. after < u \<and> u < t \<longrightarrow> \<not> runs_at c z ws u)) \<and>
    (is_ok (next_cron_run zones expression tz after ws) \<longleftrightarrow> (\<exists>u. runs_at c z ws u \<and> after < u \<and> u \<le> year_end after))"
proof -
  define start where "start = after div minute_us * minute_us + minute_us"
  let ?ok = "\<lambda>t. cron_eligible c ws (at_zone z t)" and ?e = "ValueError ''Cron schedule has no eligible run within one year''"
  note valid = valid_windows[OF assms(3)]
  have r: "next_cron_run zones expression tz after ws = first_minute ?ok ?e 527040 start"
    by (simp add: next_cron_run_def assms(1,2) zone_of_def start_def)
  have el: "?ok (start + k * minute_us) = Inr (runs_at c z ws (start + k * minute_us))" for k
  proof (rule cron_eligible_runs[OF valid])
    have "start + k * minute_us = (after div minute_us + 1 + k) * minute_us" by (simp add: start_def algebra_simps)
    then show "(start + k * minute_us) mod minute_us = 0" by simp
  qed
  have mins: "runs_at c z ws u \<and> after < u \<and> u \<le> year_end after \<longleftrightarrow>
      (\<exists>k. 0 \<le> k \<and> k < 527040 \<and> u = start + k * minute_us) \<and> runs_at c z ws u" for u
  proof (cases "u mod minute_us = 0")
    case True
    with minutes_after[of u after, folded start_def] have "after < u \<and> u \<le> year_end after \<longleftrightarrow> (\<exists>k. 0 \<le> k \<and> k < 527040 \<and> u = start + k * minute_us)"
      by simp
    then show ?thesis by blast
  qed (simp add: runs_at_def)
  have pos: "0 < minute_us" by (simp add: minute_us_def)
  have first: "next_cron_run zones expression tz after ws = Inr t \<longleftrightarrow>
      runs_at c z ws t \<and> after < t \<and> t \<le> year_end after \<and> (\<forall>u. after < u \<and> u < t \<longrightarrow> \<not> runs_at c z ws u)" for t
  proof
    assume "next_cron_run zones expression tz after ws = Inr t"
    then obtain k where k: "0 \<le> k" "k < 527040" "t = start + k * minute_us" "runs_at c z ws t"
      "\<forall>j. 0 \<le> j \<and> j < k \<longrightarrow> \<not> runs_at c z ws (start + j * minute_us)"
      unfolding r first_minute_Inr by (auto simp: el)
    have in_range: "after < t \<and> t \<le> year_end after" using mins[of t] k by blast
    have "\<not> runs_at c z ws u" if "after < u" "u < t" for u
    proof
      assume "runs_at c z ws u"
      moreover have "u \<le> year_end after" using that(2) in_range by simp
      ultimately have "runs_at c z ws u \<and> after < u \<and> u \<le> year_end after" using that(1) by simp
      from iffD1[OF mins this] obtain j where j: "0 \<le> j" "u = start + j * minute_us" by (elim conjE exE)
      with that k(3) pos have "j < k" by simp
      with k(5) j \<open>runs_at c z ws u\<close> show False by blast
    qed
    with in_range k(4) show "runs_at c z ws t \<and> after < t \<and> t \<le> year_end after \<and> (\<forall>u. after < u \<and> u < t \<longrightarrow> \<not> runs_at c z ws u)"
      by blast
  next
    assume a: "runs_at c z ws t \<and> after < t \<and> t \<le> year_end after \<and> (\<forall>u. after < u \<and> u < t \<longrightarrow> \<not> runs_at c z ws u)"
    then obtain k where k: "0 \<le> k" "k < 527040" "t = start + k * minute_us" using mins[of t] by blast
    have "\<not> runs_at c z ws (start + j * minute_us)" if "0 \<le> j" "j < k" for j
    proof -
      have "after < start + j * minute_us" using minutes_after[of "start + j * minute_us" after] that k(2) unfolding start_def by force
      moreover have "start + j * minute_us < t" using that k(3) pos by simp
      ultimately show ?thesis using a by blast
    qed
    with a k show "next_cron_run zones expression tz after ws = Inr t"
      unfolding r first_minute_Inr by (intro exI[of _ k]) (auto simp: el)
  qed
  have "is_ok (next_cron_run zones expression tz after ws) \<longleftrightarrow> (\<exists>u. runs_at c z ws u \<and> after < u \<and> u \<le> year_end after)"
  proof
    assume "is_ok (next_cron_run zones expression tz after ws)"
    then show "\<exists>u. runs_at c z ws u \<and> after < u \<and> u \<le> year_end after" using first by (auto simp: is_ok_iff)
  next
    assume "\<exists>u. runs_at c z ws u \<and> after < u \<and> u \<le> year_end after"
    then obtain u where u: "runs_at c z ws u \<and> after < u \<and> u \<le> year_end after" by blast
    from iffD1[OF mins u] obtain k where "0 \<le> k" "k < 527040" "u = start + k * minute_us" by (elim conjE exE)
    with u have "\<exists>k :: nat. k < 527040 \<and> runs_at c z ws (start + int k * minute_us)"
      by (intro exI[of _ "nat k"]) auto
    then obtain k :: nat where k: "k < 527040" "runs_at c z ws (start + int k * minute_us)"
      "\<forall>j < k. \<not> runs_at c z ws (start + int j * minute_us)"
      using exists_least_iff[of "\<lambda>k. k < 527040 \<and> runs_at c z ws (start + int k * minute_us)"] by force
    have "first_minute ?ok ?e 527040 start = Inr (start + int k * minute_us)"
      unfolding first_minute_Inr
    proof (intro exI[of _ "int k"] conjI allI impI)
      fix j assume "0 \<le> j \<and> j < int k"
      then show "?ok (start + j * minute_us) = Inr False" unfolding el using k(3)[rule_format, of "nat j"] by (auto simp: nat_less_iff)
    qed (use k in \<open>auto simp: el\<close>)
    then show "is_ok (next_cron_run zones expression tz after ws)" using r by simp
  qed
  with first show ?thesis by blast
qed


section \<open>The loop of an interval\<close>

lemma advance_ends:
  assumes "0 < interval"
  shows "\<exists>k \<ge> 0. advance interval after candidate = Some (candidate + k * interval) \<and> after < candidate + k * interval \<and>
    (k = 0 \<or> candidate + (k - 1) * interval \<le> after)"
proof (induction "nat (after - candidate + 1)" arbitrary: candidate rule: less_induct)
  case less
  show ?case
  proof (cases "candidate \<le> after")
    case True
    have "nat (after - (candidate + interval) + 1) < nat (after - candidate + 1)" using True assms by simp
    from less[OF this] obtain k where k: "0 \<le> k" "advance interval after (candidate + interval) = Some (candidate + interval + k * interval)"
      "after < candidate + interval + k * interval" "k = 0 \<or> candidate + interval + (k - 1) * interval \<le> after" by blast
    have "advance interval after candidate = advance interval after (candidate + interval)"
      using True by (simp add: advance.simps[of interval after candidate])
    with k True show ?thesis by (intro exI[of _ "k + 1"]) (auto simp: algebra_simps)
  next
    case False
    then show ?thesis by (intro exI[of _ 0]) (simp add: advance.simps[of interval after candidate])
  qed
qed

lemma advance_later: "after < candidate \<Longrightarrow> advance interval after candidate = Some candidate"
  by (simp add: advance.simps)

lemma advance_after: "advance interval after candidate = Some t \<Longrightarrow> after < t"
proof (rule advance.raw_induct[where P = "\<lambda>i a c t. a < t"], goal_cases)
  case (1 f i a c t)
  then show ?case by (auto split: if_splits)
qed

lemma skip_maintenance_later: "skip_maintenance zones c tz ws = Inr t \<Longrightarrow> c \<le> t"
  unfolding skip_maintenance_def rbind_Inr_iff first_minute_Inr minute_us_def by auto

lemma skip_maintenance_again:
  assumes "skip_maintenance zones c tz ws = Inr t"
  shows "skip_maintenance zones t tz ws = Inr t"
proof -
  from assms obtain z where z: "zone_of zones tz = Inr z"
    "rbind (in_maintenance (at_zone z t) ws) (\<lambda>b. Inr (\<not> b)) = Inr True"
    unfolding skip_maintenance_def rbind_Inr_iff first_minute_Inr by auto
  then show ?thesis unfolding skip_maintenance_def by (simp add: first_minute_now)
qed

lemma next_cron_run_later: "next_cron_run zones ex tz after ws = Inr t \<Longrightarrow> after < t"
proof -
  assume "next_cron_run zones ex tz after ws = Inr t"
  then obtain k where k: "0 \<le> k" "t = after div minute_us * minute_us + minute_us + k * minute_us"
    unfolding next_cron_run_def rbind_Inr_iff first_minute_Inr by auto
  have "after < after div minute_us * minute_us + minute_us" by (simp add: minute_us_def)
  also have "\<dots> \<le> t" using k by (simp add: minute_us_def)
  finally show ?thesis .
qed

text \<open>Whatever a schedule is, its next run is after the time it is asked for, and asking again gives it again.\<close>

lemma next_run_of_later:
  assumes "next_run_of zones ty interval cr tz ws next now = Inr t"
  shows "now < t"
proof (cases "ty = ''cron''")
  case True
  with assms show ?thesis by (auto simp: next_run_of_def dest: next_cron_run_later)
next
  case False
  with assms obtain c where c: "advance (td_seconds interval) now next = Some c" "skip_maintenance zones c tz ws = Inr t"
    by (auto simp: next_run_of_def split: option.splits)
  from advance_after[OF c(1)] skip_maintenance_later[OF c(2)] show ?thesis by simp
qed

lemma next_schedule_run_later: "next_schedule_run zones s now = Inr t \<Longrightarrow> now < t"
  by (simp add: next_schedule_run_def next_run_of_later)

lemma next_schedule_run_again:
  assumes "next_schedule_run zones s now = Inr t"
    and "sched_schedule_type s' = sched_schedule_type s" "sched_cron_expression s' = sched_cron_expression s"
    "sched_timezone s' = sched_timezone s" "sched_maintenance_windows_json s' = sched_maintenance_windows_json s"
    "sched_interval_seconds s' = sched_interval_seconds s" "sched_next_run_at s' = t"
  shows "next_schedule_run zones s' now = Inr t"
proof (cases "sched_schedule_type s = ''cron''")
  case True
  with assms show ?thesis by (simp add: next_schedule_run_def next_run_of_def windows_of_def)
next
  case False
  with assms(1) obtain c where "skip_maintenance zones c (sched_timezone s) (windows_of s) = Inr t"
    by (auto simp: next_schedule_run_def next_run_of_def split: option.splits)
  then have "skip_maintenance zones t (sched_timezone s) (windows_of s) = Inr t" by (rule skip_maintenance_again)
  with False assms(2-) next_schedule_run_later[OF assms(1)] show ?thesis
    by (simp add: next_schedule_run_def next_run_of_def windows_of_def advance_later)
qed


section \<open>A turn of the queueing\<close>

definition moved :: "zones \<Rightarrow> time \<Rightarrow> connector_schedule \<Rightarrow> connector_schedule" where
  "moved zones now s = s\<lparr>sched_next_run_at := (case next_schedule_run zones s now of Inl _ \<Rightarrow> sched_next_run_at s | Inr t \<Rightarrow> t),
     sched_last_enqueued_at := Some now, sched_updated_at := now\<rparr>"

lemma moved_simps [simp]:
  "sched_id (moved zones now s) = sched_id s" "sched_enabled (moved zones now s) = sched_enabled s"
  "sched_tenant_id (moved zones now s) = sched_tenant_id s" "sched_schedule_id (moved zones now s) = sched_schedule_id s"
  "sched_payload_json (moved zones now s) = sched_payload_json s"
  by (simp_all add: moved_def)

lemma ids_moved: "map sched_id (map (\<lambda>s. if s = r then moved zones now s else s) xs) = map sched_id xs"
  by (induction xs) auto

definition scan_job_of :: "connector_schedule \<Rightarrow> background_job \<Rightarrow> bool" where
  "scan_job_of s j = (job_tenant_id j = sched_tenant_id s \<and> job_job_type j = ''connector.scan'' \<and> job_status j = JobPending \<and>
     job_payload_json j = JObj (jobj (sched_payload_json s)) \<and> job_created_by j = ''schedule:'' @ sched_schedule_id s)"

text \<open>Whether the job of a schedule is accepted depends on the capability policies, not on the rest of the database.\<close>

definition scan_accepted :: "env \<Rightarrow> registration list \<Rightarrow> db \<Rightarrow> connector_schedule \<Rightarrow> bool" where
  "scan_accepted env registry db s =
     is_ok (enqueue_job env registry [] db (sched_tenant_id s) ''connector.scan'' (jobj (sched_payload_json s)) [] 3)"

lemma enqueue_job_accepted:
  assumes "db_capability_policies db' = db_capability_policies db"
  shows "is_ok (enqueue_job env registry u db t ty p b m) = is_ok (enqueue_job env registry u' db' t ty p b' m')"
proof -
  have "enforce_connector_policy env (Some db') = enforce_connector_policy env (Some db)"
    by (simp add: fun_eq_iff enforce_connector_policy_def connector_policy_def assms)
  then show ?thesis by (simp add: enqueue_job_def is_ok_iff rbind_Inr_iff Let_def)
qed

lemma row_by_id_unique: "unique_key sched_id (db_schedules db) \<Longrightarrow> r \<in> set (db_schedules db) \<Longrightarrow> row_by_id (sched_id r) db = Inr r"
  by (simp add: row_by_id_def scalar_unique[where k = sched_id])

lemma claimed_rows_self:
  assumes "unique_key sched_id (db_schedules db)" and "r \<in> set (db_schedules db)" and "sched_enabled r"
  shows "s \<in> set (db_schedules db) \<Longrightarrow> claimed_rows r s \<longleftrightarrow> s = r" and "row_count (claimed_rows r) (db_schedules db) = 1"
proof -
  show "s \<in> set (db_schedules db) \<Longrightarrow> claimed_rows r s \<longleftrightarrow> s = r"
    using assms unique_key_eq[OF assms(1) _ assms(2)] by (auto simp: claimed_rows_def)
  show "row_count (claimed_rows r) (db_schedules db) = 1"
    using assms by (intro unique_row_count[where k = sched_id and r = r]) (auto simp: claimed_rows_def)
qed

text \<open>A turn over a row as it is stored.\<close>

lemma enqueue_schedule_turn:
  assumes u: "unique_key sched_id (db_schedules db)" and r: "r \<in> set (db_schedules db)" and en: "sched_enabled r"
    and e: "enqueue_schedule env zones registry uuid (Inr r) db = (db1, res)"
  shows "(case next_schedule_run zones r (env_now env) of
      Inl x \<Rightarrow> db1 = db \<and> res = Inl x
    | Inr t \<Rightarrow> db_schedules db1 = map (\<lambda>s. if s = r then moved zones (env_now env) s else s) (db_schedules db) \<and>
        db_capability_policies db1 = db_capability_policies db \<and>
        (if scan_accepted env registry db r then res = Inr True \<and> (\<exists>j. db_jobs db1 = db_jobs db @ [j] \<and> scan_job_of r j)
         else (\<exists>x. res = Inl x) \<and> db_jobs db1 = db_jobs db))"
proof (cases "next_schedule_run zones r (env_now env)")
  case (Inl x)
  with e show ?thesis by (simp add: enqueue_schedule_def claim_schedule_def)
next
  case (Inr t)
  let ?now = "env_now env"
  define dbc where "dbc = db\<lparr>db_schedules := map (\<lambda>s. if s = r then moved zones ?now s else s) (db_schedules db)\<rparr>"
  have "update_rows (claimed_rows r) (\<lambda>s. s\<lparr>sched_next_run_at := t, sched_last_enqueued_at := Some ?now, sched_updated_at := ?now\<rparr>)
      (db_schedules db) = map (\<lambda>s. if s = r then moved zones ?now s else s) (db_schedules db)"
    using claimed_rows_self(1)[OF u r en] by (auto simp: update_rows_def moved_def Inr)
  then have claim: "claim_schedule zones ?now r db = Inr (dbc, True)"
    by (simp add: claim_schedule_def Inr claimed_rows_self(2)[OF u r en] dbc_def)
  have uc: "unique_key sched_id (db_schedules dbc)"
    using u by (simp add: dbc_def unique_key_def ids_moved del: map_map)
  have "moved zones ?now r \<in> set (db_schedules dbc)" using r by (auto simp: dbc_def)
  from row_by_id_unique[OF uc this] have load: "row_by_id (sched_id r) dbc = Inr (moved zones ?now r)" by simp
  let ?job = "enqueue_job env registry uuid dbc (sched_tenant_id r) ''connector.scan'' (jobj (sched_payload_json r))
    (''schedule:'' @ sched_schedule_id r) 3"
  have acc: "is_ok ?job = scan_accepted env registry db r"
    unfolding scan_accepted_def by (rule enqueue_job_accepted) (simp add: dbc_def)
  show ?thesis
  proof (cases ?job)
    case (Inl x)
    with e claim load acc Inr show ?thesis by (simp add: enqueue_schedule_def) (auto simp: dbc_def)
  next
    case (Inr q)
    obtain db2 j where q: "q = (db2, j)" by fastforce
    from enqueue_job_Inr[OF Inr[unfolded q]] have j: "db2 = dbc\<lparr>db_jobs := db_jobs dbc @ [j]\<rparr>" "scan_job_of r j"
      by (auto simp: scan_job_of_def new_job_def)
    from Inr q e claim load have "db1 = db2" "res = Inr True" by (simp_all add: enqueue_schedule_def)
    with j acc Inr \<open>next_schedule_run zones r ?now = Inr t\<close> show ?thesis by (auto simp: dbc_def)
  qed
qed

section \<open>A run\<close>

text \<open>A run over rows as they are stored.\<close>

lemma enqueue_loop_ids:
  "map sched_id rows = map sched_id rows' \<Longrightarrow> enqueue_loop env zones registry uuids False n rows db = enqueue_loop env zones registry uuids False n rows' db"
proof (induction rows arbitrary: rows' n db)
  case (Cons r rows)
  then obtain r' rs' where "rows' = r' # rs'" "sched_id r' = sched_id r" "map sched_id rows = map sched_id rs'" by (cases rows') auto
  with Cons.IH show ?case by (auto split: prod.split sum.split)
qed simp

definition run_rows :: "db \<Rightarrow> connector_schedule list \<Rightarrow> bool" where
  "run_rows db rows = (unique_key sched_id (db_schedules db) \<and> set rows \<subseteq> set (db_schedules db) \<and> distinct rows \<and> (\<forall>r \<in> set rows. sched_enabled r))"

lemma run_rows_Cons:
  assumes "run_rows db (r # rows)"
    and "db_schedules db1 = map (\<lambda>s. if s = r then moved zones now s else s) (db_schedules db)"
  shows "run_rows db1 rows" and "moved zones now r \<notin> set rows"
proof -
  from assms(1) have u: "unique_key sched_id (db_schedules db)" and r: "r \<in> set (db_schedules db)" "r \<notin> set rows"
    and rows: "set rows \<subseteq> set (db_schedules db)" by (auto simp: run_rows_def)
  show "moved zones now r \<notin> set rows"
  proof
    assume m: "moved zones now r \<in> set rows"
    then have "moved zones now r = r" using unique_key_eq[OF u] rows r by (metis moved_simps(1) subsetD)
    with m r show False by simp
  qed
  have "set rows \<subseteq> set (db_schedules db1)" using rows r(2) by (auto simp: assms(2))
  moreover have "unique_key sched_id (db_schedules db1)"
    using u by (simp add: assms(2) unique_key_def ids_moved del: map_map)
  ultimately show "run_rows db1 rows" using assms(1) by (simp add: run_rows_def)
qed

lemma enqueue_loop_run:
  assumes "run_rows db rows" and "enqueue_loop env zones registry uuids fresh n rows db = (db', res)"
  shows "if \<forall>r \<in> set rows. is_ok (next_schedule_run zones r (env_now env)) \<and> scan_accepted env registry db r
    then res = Inr (n + length rows) \<and>
      db_schedules db' = map (\<lambda>s. if s \<in> set rows then moved zones (env_now env) s else s) (db_schedules db) \<and>
      db_capability_policies db' = db_capability_policies db \<and> (\<exists>js. db_jobs db' = db_jobs db @ js \<and> list_all2 scan_job_of rows js)
    else \<exists>x. res = Inl x"
  using assms
proof (induction rows arbitrary: fresh n db)
  case (Cons r rows)
  let ?now = "env_now env" and ?ok = "\<lambda>db r. is_ok (next_schedule_run zones r (env_now env)) \<and> scan_accepted env registry db r"
  from Cons.prems(1) have u: "unique_key sched_id (db_schedules db)" and r: "r \<in> set (db_schedules db)" and en: "sched_enabled r"
    by (auto simp: run_rows_def)
  have "(if fresh then Inr r else row_by_id (sched_id r) db) = Inr r" using row_by_id_unique[OF u r] by simp
  moreover obtain db1 res1 where 1: "enqueue_schedule env zones registry (uuids n) (Inr r) db = (db1, res1)" by fastforce
  ultimately have loop: "enqueue_loop env zones registry uuids fresh n (r # rows) db =
      (case res1 of Inl e \<Rightarrow> (db1, Inl e) | Inr claimed \<Rightarrow> enqueue_loop env zones registry uuids False (if claimed then Suc n else n) rows db1)"
    by (simp split: sum.split)
  note turn = enqueue_schedule_turn[OF u r en 1]
  show ?case
  proof (cases "?ok db r")
    case True
    then obtain t where t: "next_schedule_run zones r ?now = Inr t" by (auto simp: is_ok_iff)
    with turn True obtain j where j: "db_schedules db1 = map (\<lambda>s. if s = r then moved zones ?now s else s) (db_schedules db)"
      "db_capability_policies db1 = db_capability_policies db" "res1 = Inr True" "db_jobs db1 = db_jobs db @ [j]" "scan_job_of r j"
      by auto
    note rest = run_rows_Cons[OF Cons.prems(1) j(1)]
    have l: "enqueue_loop env zones registry uuids False (Suc n) rows db1 = (db', res)" using Cons.prems(2) loop j(3) by simp
    have acc: "scan_accepted env registry db1 = scan_accepted env registry db"
      unfolding scan_accepted_def fun_eq_iff using enqueue_job_accepted[OF j(2)] by metis
    have both: "map (\<lambda>s. if s \<in> set rows then moved zones ?now s else s) (db_schedules db1) =
        map (\<lambda>s. if s \<in> set (r # rows) then moved zones ?now s else s) (db_schedules db)"
      using rest(2) by (auto simp: j(1))
    show ?thesis
    proof (cases "\<forall>x \<in> set rows. ?ok db x")
      case all: True
      with Cons.IH[OF rest(1) l] acc obtain js where
        "res = Inr (Suc n + length rows)" "db_schedules db' = map (\<lambda>s. if s \<in> set rows then moved zones ?now s else s) (db_schedules db1)"
        "db_capability_policies db' = db_capability_policies db1" "db_jobs db' = db_jobs db1 @ js" "list_all2 scan_job_of rows js"
        by auto
      with True all j both show ?thesis by (auto intro!: exI[of _ "j # js"])
    next
      case False
      with Cons.IH[OF rest(1) l] acc show ?thesis by auto
    qed
  next
    case False
    then have "\<exists>x. res1 = Inl x" using turn by (cases "next_schedule_run zones r ?now") auto
    with Cons.prems(2) loop False show ?thesis by auto
  qed
qed simp

lemma due_run_rows:
  assumes "unique_key sched_id (db_schedules db)"
  shows "run_rows db (due_schedules now k db)"
proof -
  have "distinct (db_schedules db)" using assms by (simp add: unique_key_def distinct_map)
  then have "distinct (due_schedules now k db)"
    by (simp add: due_schedules_def order_by_def where_rows_def)
  with assms show ?thesis
    by (auto simp: run_rows_def due_schedules_def store dest!: in_set_takeD)
qed

lemma due_schedules_due: "r \<in> set (due_schedules now k db) \<Longrightarrow> sched_next_run_at r \<le> now"
  by (auto simp: due_schedules_def store dest!: in_set_takeD)

section \<open>Properties of the queueing\<close>

text \<open>
  C35: a run of the queue that returns has queued, for each schedule it selected, exactly one scan job under the name and with
  the payload of the schedule, has moved the run of each beyond the present and changed nothing else; it returns exactly when
  every selected schedule has a next run and its job is accepted.
\<close>

theorem due_schedules_enqueued:
  assumes "unique_key sched_id (db_schedules db)"
    and "enqueue_due_schedules env zones registry uuids k db = (db', res)"
  shows "(is_ok res \<longleftrightarrow> (\<forall>s \<in> set (due_schedules (env_now env) k db).
            is_ok (next_schedule_run zones s (env_now env)) \<and> scan_accepted env registry db s)) \<and>
    (\<forall>n. res = Inr n \<longrightarrow> n = length (due_schedules (env_now env) k db) \<and>
      (\<exists>js. db_jobs db' = db_jobs db @ js \<and> list_all2 scan_job_of (due_schedules (env_now env) k db) js) \<and>
      db_schedules db' = map (\<lambda>s. if s \<in> set (due_schedules (env_now env) k db) then moved zones (env_now env) s else s) (db_schedules db) \<and>
      (\<forall>s \<in> set (due_schedules (env_now env) k db). env_now env < sched_next_run_at (moved zones (env_now env) s)))"
proof -
  let ?due = "due_schedules (env_now env) k db"
  let ?all = "\<forall>s \<in> set ?due. is_ok (next_schedule_run zones s (env_now env)) \<and> scan_accepted env registry db s"
  note run = enqueue_loop_run[OF due_run_rows[OF assms(1)] assms(2)[unfolded enqueue_due_schedules_def]]
  show ?thesis
  proof (cases ?all)
    case True
    then have "\<forall>s \<in> set ?due. env_now env < sched_next_run_at (moved zones (env_now env) s)"
      using next_schedule_run_later by (fastforce simp: moved_def is_ok_iff)
    with True run show ?thesis by auto
  next
    case False
    with run obtain x where "res = Inl x" by (auto split: if_splits)
    with False show ?thesis by auto
  qed
qed

text \<open>
  A schedule can be queued again at once by a second worker: when it has selected the same due schedules before the
  first worker's run and goes on after it, the reloaded rows satisfy the claim, and every schedule but the first gets
  another job although none is due.
\<close>

theorem late_worker_enqueues_again:
  assumes "unique_key sched_id (db_schedules db)" and "due_schedules (env_now env) k db \<noteq> []"
    and "enqueue_due_schedules env zones registry uuids k db = (db1, Inr n)"
  shows "\<exists>db2. enqueue_loop env zones registry uuids' True 0 (due_schedules (env_now env) k db) db1 = (db2, Inr (n - 1)) \<and>
    length (db_jobs db2) = length (db_jobs db) + n + (n - 1) \<and>
    (\<forall>s \<in> set (due_schedules (env_now env) k db). \<exists>s' \<in> set (db_schedules db1). sched_id s' = sched_id s \<and> sched_next_run_at s' > env_now env)"
proof -
  let ?now = "env_now env" and ?due = "due_schedules (env_now env) k db" and ?m = "moved zones (env_now env)"
  from assms(2) obtain r rs where due: "?due = r # rs" by (cases ?due) auto
  note rr = due_run_rows[OF assms(1), of ?now k]
  from due_schedules_enqueued[OF assms(1,3)] have ok: "\<forall>s \<in> set ?due. is_ok (next_schedule_run zones s ?now) \<and> scan_accepted env registry db s"
    and n: "n = length ?due" and jobs: "\<exists>js. db_jobs db1 = db_jobs db @ js \<and> list_all2 scan_job_of ?due js"
    and sch: "db_schedules db1 = map (\<lambda>s. if s \<in> set ?due then ?m s else s) (db_schedules db)"
    and later: "\<forall>s \<in> set ?due. ?now < sched_next_run_at (?m s)" by auto
  have pol: "db_capability_policies db1 = db_capability_policies db"
    using enqueue_loop_run[OF rr assms(3)[unfolded enqueue_due_schedules_def]] ok by simp
  have acc: "scan_accepted env registry db1 s = scan_accepted env registry db s" for s
    unfolding scan_accepted_def by (rule enqueue_job_accepted[OF pol[symmetric]])
  have moved_stored: "?m s \<in> set (db_schedules db1)" if "s \<in> set ?due" for s
    using that rr by (auto simp: sch run_rows_def)
  have u1: "unique_key sched_id (db_schedules db1)"
  proof -
    have "map sched_id (db_schedules db1) = map sched_id (db_schedules db)" by (auto simp: sch)
    with assms(1) show ?thesis by (simp add: unique_key_def)
  qed
  have r: "r \<in> set ?due" by (simp add: due)
  obtain t where t: "next_schedule_run zones r ?now = Inr t" using ok r by (auto simp: is_ok_iff)
  have none: "\<not> claimed_rows r s" if "s \<in> set (db_schedules db1)" for s
  proof
    assume c: "claimed_rows r s"
    then have "s = ?m r" using unique_key_eq[OF u1 that moved_stored[OF r]] by (simp add: claimed_rows_def)
    with c later r due_schedules_due[OF r] show False by (auto simp: claimed_rows_def)
  qed
  have "enqueue_schedule env zones registry (uuids' 0) (Inr r) db1 = (db1, Inr False)"
    using none by (simp add: enqueue_schedule_def claim_schedule_def t update_rows_none row_count_zero[THEN iffD2])
  then have loop: "enqueue_loop env zones registry uuids' True 0 ?due db1 = enqueue_loop env zones registry uuids' False 0 (map ?m rs) db1"
    using enqueue_loop_ids[of rs "map ?m rs"] by (simp add: due comp_def)
  have "run_rows db1 (map ?m rs)"
  proof -
    have rs: "set rs \<subseteq> set (db_schedules db)" using rr by (auto simp: run_rows_def due)
    have "inj_on ?m (set rs)"
    proof (rule inj_onI)
      fix a b assume ab: "a \<in> set rs" "b \<in> set rs" "?m a = ?m b"
      then have "sched_id (?m a) = sched_id (?m b)" by simp
      with ab(1,2) rs show "a = b" by (auto intro: unique_key_eq[OF assms(1)])
    qed
    with rr u1 moved_stored show ?thesis by (auto simp: run_rows_def due distinct_map)
  qed
  moreover have "is_ok (next_schedule_run zones (?m s) ?now) \<and> scan_accepted env registry db1 (?m s)" if "s \<in> set ?due" for s
  proof -
    from ok that obtain x where x: "next_schedule_run zones s ?now = Inr x" by (auto simp: is_ok_iff)
    have "next_schedule_run zones (?m s) ?now = Inr x"
      by (rule next_schedule_run_again[OF x]) (simp_all add: moved_def x)
    moreover have "scan_accepted env registry db (?m s) = scan_accepted env registry db s" by (simp add: scan_accepted_def)
    ultimately show ?thesis using ok that acc by simp
  qed
  moreover obtain db2 res where l: "enqueue_loop env zones registry uuids' False 0 (map ?m rs) db1 = (db2, res)" by fastforce
  ultimately have "res = Inr (length rs) \<and> (\<exists>js. db_jobs db2 = db_jobs db1 @ js \<and> list_all2 scan_job_of (map ?m rs) js)"
    using enqueue_loop_run[of db1 "map ?m rs" env zones registry uuids' False 0 db2 res] by (auto simp: due)
  then obtain js' where js': "res = Inr (length rs)" "db_jobs db2 = db_jobs db1 @ js'" "length js' = length rs"
    by (auto dest: list_all2_lengthD)
  from jobs have "length (db_jobs db1) = length (db_jobs db) + n" by (auto simp: n dest: list_all2_lengthD)
  with js' have "length (db_jobs db2) = length (db_jobs db) + n + (n - 1)" "n - 1 = length rs" by (simp_all add: n due)
  moreover have "enqueue_loop env zones registry uuids' True 0 ?due db1 = (db2, Inr (length rs))" using loop l js'(1) by simp
  moreover have "\<forall>s \<in> set ?due. \<exists>s' \<in> set (db_schedules db1). sched_id s' = sched_id s \<and> sched_next_run_at s' > ?now"
    using moved_stored later by (metis moved_simps(1))
  ultimately show ?thesis by (intro exI[of _ db2]) simp
qed

section \<open>A schedule that stops the queue\<close>

text \<open>Two windows without a gap: each is valid, and together they cover every minute.\<close>

definition whole_day :: "json list" where
  "whole_day = [JObj [(''start'', JStr ''00:00''), (''end'', JStr ''12:00'')], JObj [(''start'', JStr ''12:00''), (''end'', JStr ''00:00'')]]"

lemma whole_day_valid: "validate_maintenance_windows whole_day = Inr ()"
  by code_simp

lemma whole_day_bounds:
  "clock_minutes (JStr ''00:00'') = Inr 0" "clock_minutes (JStr ''12:00'') = Inr 720"
  by code_simp+

lemma every_day: "0 \<le> d \<Longrightarrow> d \<le> 6 \<Longrightarrow> Some d \<in> day_number ` set (map JInt [0..6])"
  by (auto simp: day_number_def image_image)

lemma weekday_bounds: "0 \<le> lt_weekday (at_zone z t) \<and> lt_weekday (at_zone z t) \<le> 6"
  by (simp add: at_zone_def local_time_of_def Let_def)

lemma whole_day_covers: "in_maintenance (at_zone z t) whole_day = Inr True"
proof -
  let ?l = "at_zone z t" and ?cur = "lt_hour (at_zone z t) * 60 + lt_minute (at_zone z t)"
  have "0 \<le> ?cur" by (simp add: at_zone_def local_time_of_def Let_def)
  moreover have "covers ?l (map JInt [0..6]) 0 720" if "0 \<le> ?cur" "?cur < 720"
    using that every_day weekday_bounds[of z t] by (simp add: covers_def Let_def)
  moreover have "covers ?l (map JInt [0..6]) 720 0" if "720 \<le> ?cur"
    using that every_day weekday_bounds[of z t] by (simp add: covers_def Let_def)
  ultimately have "covers ?l (map JInt [0..6]) 0 720 \<or> covers ?l (map JInt [0..6]) 720 0" by linarith
  then show ?thesis
    by (auto simp: whole_day_def py_getitem_def window_days_def py_get_default_def dict_get_def whole_day_bounds)
qed

lemma whole_day_no_time:
  assumes "zones tz = Some z"
  shows "skip_maintenance zones c tz whole_day = Inl (ValueError ''Maintenance windows leave no eligible time within seven days'')"
  using assms by (auto simp: skip_maintenance_def zone_of_def whole_day_covers intro: first_minute_none)

definition blocking :: "zones \<Rightarrow> connector_schedule \<Rightarrow> bool" where
  "blocking zones s = (sched_enabled s \<and> sched_schedule_type s \<noteq> ''cron'' \<and> windows_of s = whole_day \<and> zones (sched_timezone s) \<noteq> None)"

lemma blocking_no_run: "blocking zones s \<Longrightarrow> \<not> is_ok (next_schedule_run zones s now)"
  by (auto simp: blocking_def next_schedule_run_def next_run_of_def whole_day_no_time split: option.split)

text \<open>A run changes only the rows it selected, whether it returns or not.\<close>

lemma enqueue_loop_keeps:
  assumes "run_rows db rows" and "s \<in> set (db_schedules db)" and "\<not> is_ok (next_schedule_run zones s (env_now env))"
    and "enqueue_loop env zones registry uuids fresh n rows db = (db', res)"
  shows "s \<in> set (db_schedules db')"
  using assms(1,2,4)
proof (induction rows arbitrary: fresh n db)
  case (Cons r rows)
  let ?now = "env_now env"
  from Cons.prems(1) have u: "unique_key sched_id (db_schedules db)" and r: "r \<in> set (db_schedules db)" and en: "sched_enabled r"
    by (auto simp: run_rows_def)
  have "(if fresh then Inr r else row_by_id (sched_id r) db) = Inr r" using row_by_id_unique[OF u r] by simp
  moreover obtain db1 res1 where 1: "enqueue_schedule env zones registry (uuids n) (Inr r) db = (db1, res1)" by fastforce
  ultimately have loop: "(db', res) =
      (case res1 of Inl e \<Rightarrow> (db1, Inl e) | Inr claimed \<Rightarrow> enqueue_loop env zones registry uuids False (if claimed then Suc n else n) rows db1)"
    using Cons.prems(3) by (simp split: sum.split)
  note turn = enqueue_schedule_turn[OF u r en 1]
  show ?case
  proof (cases "next_schedule_run zones r ?now")
    case (Inl x)
    with turn loop Cons.prems(2) show ?thesis by simp
  next
    case (Inr t)
    with turn have j: "db_schedules db1 = map (\<lambda>s. if s = r then moved zones ?now s else s) (db_schedules db)" by simp
    have "s \<noteq> r" using assms(3) Inr by auto
    then have s: "s \<in> set (db_schedules db1)" using Cons.prems(2) by (auto simp: j)
    show ?thesis
    proof (cases res1)
      case (Inr claimed)
      with loop Cons.IH[OF run_rows_Cons(1)[OF Cons.prems(1) j] s] show ?thesis by auto
    qed (use loop s in simp)
  qed
qed simp

definition stop_change :: "time \<Rightarrow> schedule_update" where
  "stop_change t =
     \<lparr>su_enabled = None, su_schedule_type = None, su_interval_seconds = None, su_cron_expression = None, su_timezone = None,
      su_windows = Some whole_day, su_next_run_at = Some \<lparr>dt_wall = t, dt_offset = None\<rparr>,
      su_fields_set = [''maintenance_windows'', ''next_run_at'']\<rparr>"

text \<open>
  C34: a connector operator of one tenant can stop the queue of all: giving a schedule maintenance windows that cover the whole
  day together with an explicit next run is accepted, and from then on every run that selects the schedule, at whatever
  time, ends with an exception and leaves the schedule as it is, so that it is selected again.
\<close>

theorem schedule_stops_queue:
  assumes "schedule_for_tenant db schedule_id (p_tenant_id who) = Some s" and "ConnectorOperator \<le> p_role who"
    and "unique_key sched_id (db_schedules db)" and "sched_enabled s" and "sched_schedule_type s = ''interval''"
    and "sched_cron_expression s = None" and "60 \<le> sched_interval_seconds s" and "sched_interval_seconds s \<le> 604800"
    and "zones (sched_timezone s) \<noteq> None"
  shows "\<exists>db' answer s'. update_connector_schedule env zones who schedule_id (stop_change t) db = Inr (db', answer) \<and>
    s' \<in> set (db_schedules db') \<and> sched_id s' = sched_id s \<and> sched_enabled s' \<and> sched_next_run_at s' = t \<and>
    (\<forall>env' registry uuids k. s' \<in> set (due_schedules (env_now env') k db') \<longrightarrow>
       \<not> is_ok (snd (enqueue_due_schedules env' zones registry uuids k db')) \<and>
       s' \<in> set (db_schedules (fst (enqueue_due_schedules env' zones registry uuids k db'))))"
proof -
  define s' where "s' = s\<lparr>sched_cron_expression := None, sched_next_run_at := t, sched_maintenance_windows_json := JList whole_day, sched_updated_at := env_now env\<rparr>"
  define db' where "db' = db\<lparr>db_schedules := update_rows (\<lambda>x. sched_id x = sched_id s) (\<lambda>_. s') (db_schedules db)\<rparr>"
  have s: "s \<in> set (db_schedules db)" using assms(1) by (auto simp: schedule_for_tenant_def dest: scalar_Some)
  obtain z where "zones (sched_timezone s) = Some z" using assms(9) by blast
  then have "validate_schedule_definition zones (sched_schedule_type s) (sched_interval_seconds s) None (sched_timezone s) whole_day = Inr ()"
    using assms by (simp add: validate_schedule_definition_def whole_day_valid truthy_opt_def)
  moreover have "schedule_update_ok (stop_change t)"
    by (simp add: stop_change_def schedule_update_ok_def opt_field_def) (simp add: whole_day_def)
  ultimately have upd: "update_connector_schedule env zones who schedule_id (stop_change t) db = Inr (db', schedule_response env s')"
    using assms(1,6) leD[OF assms(2)]
    by (simp add: update_connector_schedule_def require_role_def check_body_def bad_request_def changed_schedule_def or_old_def
        stop_change_def rescheduled_def drop_tzinfo_def s'_def db'_def Let_def)
  have stored: "s' \<in> set (db_schedules db')" using s by (auto simp: db'_def set_update_rows)
  have u: "unique_key sched_id (db_schedules db')"
  proof -
    have "map sched_id (db_schedules db') = map sched_id (db_schedules db)"
      unfolding db'_def by (simp add: s'_def update_rows_def)
    with assms(3) show ?thesis by (simp add: unique_key_def)
  qed
  have block: "blocking zones s'" using assms by (simp add: blocking_def s'_def windows_of_def)
  have "\<not> is_ok (snd (enqueue_due_schedules env' zones registry uuids k db')) \<and>
       s' \<in> set (db_schedules (fst (enqueue_due_schedules env' zones registry uuids k db')))"
    if due: "s' \<in> set (due_schedules (env_now env') k db')" for env' registry uuids k
  proof -
    obtain db2 res where e: "enqueue_due_schedules env' zones registry uuids k db' = (db2, res)" by fastforce
    note run = e[unfolded enqueue_due_schedules_def]
    have "\<exists>x. res = Inl x"
      using enqueue_loop_run[OF due_run_rows[OF u] run] due blocking_no_run[OF block] by (auto split: if_splits)
    with enqueue_loop_keeps[OF due_run_rows[OF u] stored blocking_no_run[OF block] run] show ?thesis by (auto simp: e)
  qed
  with upd stored show ?thesis by (intro exI[of _ db'] exI[of _ "schedule_response env s'"] exI[of _ s']) (use assms(4) in \<open>simp add: s'_def\<close>)
qed

section \<open>Concrete schedules\<close>

definition utc_only :: zones where
  "utc_only name = (if name = ''UTC'' then Some (\<lambda>_. 0) else None)"

definition s3_schedule :: "nat \<Rightarrow> connector_schedule" where
  "s3_schedule i = \<lparr>sched_id = i, sched_tenant_id = ''default'', sched_schedule_id = show_nat i, sched_connector_type = ''aws-s3'',
     sched_account = ''a'', sched_interval_seconds = 3600, sched_schedule_type = ''interval'', sched_cron_expression = None,
     sched_timezone = ''UTC'', sched_maintenance_windows_json = JList [],
     sched_payload_json = JObj [(''connector_type'', JStr ''aws-s3''), (''account'', JStr ''a'')], sched_enabled = True,
     sched_next_run_at = 0, sched_last_enqueued_at = None, sched_created_by = ''op'', sched_created_at = 0, sched_updated_at = 0\<rparr>"

definition two_schedules :: db where
  "two_schedules = empty_db\<lparr>db_schedules := [s3_schedule 1, s3_schedule 2]\<rparr>"

lemma two_schedules_keys: "unique_key sched_id (db_schedules two_schedules)"
  by (simp add: unique_key_def two_schedules_def s3_schedule_def)

lemma two_due: "due_schedules (env_now base_env) 50 two_schedules = [s3_schedule 1, s3_schedule 2]"
  by (simp add: due_schedules_def two_schedules_def where_rows_def order_by_def base_env_def s3_schedule_def)

lemma s3_schedule_next: "next_schedule_run utc_only (s3_schedule i) (env_now base_env) = Inr 3600000000"
  by (simp add: next_schedule_run_def next_run_of_def s3_schedule_def advance.simps td_seconds_def base_env_def windows_of_def skip_maintenance_def
      zone_of_def utc_only_def first_minute_now)

lemma s3_schedule_accepted: "scan_accepted base_env builtin_registry two_schedules (s3_schedule i)"
proof -
  have "scan_accepted base_env builtin_registry empty_db (s3_schedule 1)" by code_simp
  moreover have "scan_accepted base_env builtin_registry two_schedules (s3_schedule i) = scan_accepted base_env builtin_registry empty_db (s3_schedule 1)"
    unfolding scan_accepted_def by (simp add: s3_schedule_def) (rule enqueue_job_accepted, simp add: two_schedules_def)
  ultimately show ?thesis by simp
qed

lemma two_schedules_run:
  "\<exists>db'. enqueue_due_schedules base_env utc_only builtin_registry show_nat 50 two_schedules = (db', Inr 2) \<and>
     due_schedules (env_now base_env) 50 db' = []"
proof -
  obtain db' res where r: "enqueue_due_schedules base_env utc_only builtin_registry show_nat 50 two_schedules = (db', res)" by fastforce
  from enqueue_loop_run[OF due_run_rows[OF two_schedules_keys] r[unfolded enqueue_due_schedules_def]]
  have "res = Inr 2" "db_schedules db' = map (moved utc_only (env_now base_env)) (db_schedules two_schedules)"
    by (simp_all add: two_due s3_schedule_next s3_schedule_accepted) (simp add: two_schedules_def)
  moreover from this(2) have "due_schedules (env_now base_env) 50 db' = []"
    by (simp add: due_schedules_def where_rows_def order_by_def two_schedules_def moved_def s3_schedule_next) (simp add: base_env_def)
  ultimately show ?thesis using r by simp
qed

theorem next_cron_run_exact_witness:
  "next_cron_run utc_only ''*/5 * * * *'' ''UTC'' 180000000 [] = Inr 300000000 \<and>
   (case parse_cron ''*/5 * * * *'' of Inl _ \<Rightarrow> False
    | Inr c \<Rightarrow> (\<forall>u. 180000000 < u \<and> u < 300000000 \<longrightarrow> \<not> runs_at c (\<lambda>_. 0) [] u))"
proof -
  have r: "next_cron_run utc_only ''*/5 * * * *'' ''UTC'' 180000000 [] = Inr 300000000" by code_simp
  have "is_ok (parse_cron ''*/5 * * * *'')" by code_simp
  then obtain c where c: "parse_cron ''*/5 * * * *'' = Inr c" by (auto simp: is_ok_iff)
  have z: "utc_only ''UTC'' = Some (\<lambda>_. 0)" by (simp add: utc_only_def)
  have v: "validate_maintenance_windows [] = Inr ()" by (simp add: validate_maintenance_windows_def)
  have "\<forall>u. 180000000 < u \<and> u < 300000000 \<longrightarrow> \<not> runs_at c (\<lambda>_. 0) [] u"
    using iffD1[OF conjunct1[OF next_cron_run_exact[of _ c utc_only _ _ _ 180000000 300000000, OF c z v]] r] by blast
  with r c show ?thesis by simp
qed

theorem due_schedules_enqueued_witness:
  "\<exists>db'. enqueue_due_schedules base_env utc_only builtin_registry show_nat 50 two_schedules = (db', Inr 2) \<and>
     length (db_jobs db') = 2 \<and> map sched_id (due_schedules (env_now base_env) 50 two_schedules) = [1, 2]"
proof -
  obtain db' where r: "enqueue_due_schedules base_env utc_only builtin_registry show_nat 50 two_schedules = (db', Inr 2)"
    using two_schedules_run by blast
  note d = conjunct2[OF due_schedules_enqueued[OF two_schedules_keys r], rule_format, OF refl]
  from conjunct1[OF conjunct2[OF d]] obtain js where js: "db_jobs db' = db_jobs two_schedules @ js"
    "list_all2 scan_job_of (due_schedules (env_now base_env) 50 two_schedules) js" by blast
  then have "length js = 2" using conjunct1[OF d] by (simp add: list_all2_lengthD[symmetric])
  have "map sched_id (due_schedules (env_now base_env) 50 two_schedules) = [1, 2]" unfolding two_due by (simp add: s3_schedule_def)
  with r js(1) \<open>length js = 2\<close> show ?thesis by (intro exI[of _ db']) (simp add: two_schedules_def empty_db_def)
qed

theorem late_worker_enqueues_again_witness:
  "\<exists>db1 db2. enqueue_due_schedules base_env utc_only builtin_registry show_nat 50 two_schedules = (db1, Inr 2) \<and>
     due_schedules (env_now base_env) 50 db1 = [] \<and>
     enqueue_loop base_env utc_only builtin_registry show_nat True 0 (due_schedules (env_now base_env) 50 two_schedules) db1 = (db2, Inr 1) \<and>
     length (db_jobs db2) = 3"
proof -
  obtain db1 where r: "enqueue_due_schedules base_env utc_only builtin_registry show_nat 50 two_schedules = (db1, Inr 2)"
    and none: "due_schedules (env_now base_env) 50 db1 = []" using two_schedules_run by blast
  have "map sched_id (due_schedules (env_now base_env) 50 two_schedules) = [1, 2]" unfolding two_due by (simp add: s3_schedule_def)
  then have "due_schedules (env_now base_env) 50 two_schedules \<noteq> []" by auto
  from late_worker_enqueues_again[OF two_schedules_keys this r, of show_nat] r none show ?thesis
    by (auto simp: two_schedules_def empty_db_def)
qed

theorem schedule_stops_queue_witness:
  "\<exists>db' answer. update_connector_schedule base_env utc_only \<lparr>p_subject = ''op'', p_role = ConnectorOperator, p_tenant_id = ''default''\<rparr> ''2''
       (stop_change 0) two_schedules = Inr (db', answer) \<and>
     \<not> is_ok (snd (enqueue_due_schedules base_env utc_only builtin_registry show_nat (length (db_schedules db')) db'))"
proof -
  let ?who = "\<lparr>p_subject = ''op'', p_role = ConnectorOperator, p_tenant_id = ''default''\<rparr>"
  have f: "schedule_for_tenant two_schedules ''2'' (p_tenant_id ?who) = Some (s3_schedule 2)" by code_simp
  have "utc_only (sched_timezone (s3_schedule 2)) \<noteq> None" by (simp add: utc_only_def s3_schedule_def)
  with schedule_stops_queue[OF f _ two_schedules_keys, of utc_only base_env 0] obtain db' answer s' where
    u: "update_connector_schedule base_env utc_only ?who ''2'' (stop_change 0) two_schedules = Inr (db', answer)"
      "s' \<in> set (db_schedules db')" "sched_id s' = 2" "sched_enabled s'" "sched_next_run_at s' = 0" and
    stop: "\<forall>env' registry uuids k. s' \<in> set (due_schedules (env_now env') k db') \<longrightarrow>
      \<not> is_ok (snd (enqueue_due_schedules env' utc_only registry uuids k db'))"
    by (auto simp: s3_schedule_def)
  have "s' \<in> set (due_schedules (env_now base_env) (length (db_schedules db')) db')"
    using u(2,4,5) by (simp add: due_schedules_def order_by_def where_rows_def take_all base_env_def)
  with u(1) stop show ?thesis by blast
qed


section \<open>Budgets under any interleaving\<close>

text \<open>
  Consumers of one budget: each reads the row and later attempts with what it read, at any time, while others do the same.
  The last component counts the units granted since the window was last opened.
\<close>

type_synonym budget_world = "db \<times> (nat \<Rightarrow> provider_rate_limit option) \<times> int"

definition opens_window :: "time \<Rightarrow> provider_rate_limit \<Rightarrow> db \<Rightarrow> bool" where
  "opens_window now b db =
     (now \<ge> budget_window_started_at b + td_seconds (budget_window_seconds b) \<and>
      list_ex (\<lambda>x. budget_id x = budget_id b \<and> budget_window_started_at x = budget_window_started_at b) (db_budgets db))"

inductive budget_step :: "nat \<Rightarrow> budget_world \<Rightarrow> budget_world \<Rightarrow> bool" for i where
  read_row: "scalar (\<lambda>b. budget_id b = i) (db_budgets db) = Some b \<Longrightarrow> budget_step i (db, snaps, g) (db, snaps(c := Some b), g)"
| attempt: "snaps c = Some b \<Longrightarrow> 0 \<le> units \<Longrightarrow> budget_attempt now units b db = (db', out) \<Longrightarrow>
    g' = (if out = Granted then g + units else if opens_window now b db then 0 else g) \<Longrightarrow>
    budget_step i (db, snaps, g) (db', snaps(c := None), g')"

definition budget_inv :: "nat \<Rightarrow> int \<Rightarrow> budget_world \<Rightarrow> bool" where
  "budget_inv i limit w = (case w of (db, snaps, g) \<Rightarrow>
     unique_key budget_id (db_budgets db) \<and>
     (\<exists>r \<in> set (db_budgets db). budget_id r = i \<and> budget_max_requests r = limit \<and> budget_used_requests r = g \<and> g \<le> limit) \<and>
     (\<forall>c b. snaps c = Some b \<longrightarrow> budget_id b = i \<and> budget_max_requests b = limit))"

lemma update_budget_row:
  assumes "unique_key budget_id xs" and "r \<in> set xs" and "\<And>x. P x \<Longrightarrow> budget_id x = budget_id r" and "\<And>x. budget_id (f x) = budget_id x"
  shows "unique_key budget_id (update_rows P f xs) \<and> (if P r then f r else r) \<in> set (update_rows P f xs)"
proof
  have "map budget_id (update_rows P f xs) = map budget_id xs" by (rule map_update_rows) (rule assms(4))
  with assms(1) show "unique_key budget_id (update_rows P f xs)" by (simp add: unique_key_def)
  show "(if P r then f r else r) \<in> set (update_rows P f xs)" using assms(2) by (auto simp: set_update_rows)
qed

lemma budget_step_inv:
  assumes "budget_step i w w'" and "budget_inv i limit w" and "0 \<le> limit"
  shows "budget_inv i limit w'"
  using assms
proof (induction rule: budget_step.induct)
  case (read_row db b snaps g c)
  then obtain r where "r \<in> set (db_budgets db)" "budget_id r = i" "budget_max_requests r = limit" "unique_key budget_id (db_budgets db)"
    by (auto simp: budget_inv_def)
  moreover have "b \<in> set (db_budgets db)" "budget_id b = i" using scalar_Some[OF read_row(1)] by auto
  ultimately have "b = r" using unique_key_eq by metis
  with read_row.prems(1) \<open>budget_id r = i\<close> \<open>budget_max_requests r = limit\<close> show ?case by (auto simp: budget_inv_def)
next
  case (attempt snaps c b units now db db' out g' g)
  from attempt.prems(1) obtain r where r: "r \<in> set (db_budgets db)" "budget_id r = i" "budget_max_requests r = limit"
    "budget_used_requests r = g" "g \<le> limit" and u: "unique_key budget_id (db_budgets db)"
    and snaps: "\<forall>c b. snaps c = Some b \<longrightarrow> budget_id b = i \<and> budget_max_requests b = limit" by (auto simp: budget_inv_def)
  have b: "budget_id b = i" "budget_max_requests b = limit" using snaps attempt(1) by auto
  have rest: "\<forall>c' b'. (snaps(c := None)) c' = Some b' \<longrightarrow> budget_id b' = i \<and> budget_max_requests b' = limit"
    using snaps by auto
  let ?ends = "budget_window_started_at b + td_seconds (budget_window_seconds b)"
  consider (ended) "now \<ge> ?ends" | (full) "now < ?ends" "budget_used_requests b + units > budget_max_requests b"
    | (grant) "now < ?ends" "budget_used_requests b + units \<le> budget_max_requests b" by linarith
  then show ?case
  proof cases
    case ended
    let ?P = "\<lambda>x. budget_id x = budget_id b \<and> budget_window_started_at x = budget_window_started_at b"
    let ?f = "\<lambda>x. x\<lparr>budget_used_requests := 0, budget_window_started_at := now, budget_updated_at := now\<rparr>"
    have d: "db' = db\<lparr>db_budgets := update_rows ?P ?f (db_budgets db)\<rparr>" "out = Again"
      using attempt(3) ended by (simp_all add: budget_attempt_def Let_def)
    have up: "unique_key budget_id (update_rows ?P ?f (db_budgets db)) \<and> (if ?P r then ?f r else r) \<in> set (update_rows ?P ?f (db_budgets db))"
      by (rule update_budget_row[OF u r(1)]) (auto simp: b r)
    have "opens_window now b db \<longleftrightarrow> ?P r"
    proof -
      have "?P x \<Longrightarrow> x \<in> set (db_budgets db) \<Longrightarrow> x = r" for x using unique_key_eq[OF u _ r(1)] b r(2) by simp
      then show ?thesis using ended r(1) by (auto simp: opens_window_def list_ex_iff)
    qed
    then have "budget_used_requests (if ?P r then ?f r else r) = g'" using attempt(4) d r(4) by simp
    moreover have "g' \<le> limit" using attempt(4) d r(5) assms(3) by simp
    ultimately show ?thesis using up rest r b
      by (simp add: budget_inv_def d) (intro bexI[of _ "if ?P r then ?f r else r"], auto)
  next
    case full
    then have "db' = db" "out \<noteq> Granted" using attempt(3) by (auto simp: budget_attempt_def Let_def)
    moreover from full have "\<not> opens_window now b db" by (simp add: opens_window_def)
    ultimately show ?thesis using attempt(4) r u rest by (auto simp: budget_inv_def)
  next
    case grant
    let ?P = "\<lambda>x. budget_id x = budget_id b \<and> budget_used_requests x = budget_used_requests b \<and>
      budget_window_started_at x = budget_window_started_at b"
    let ?f = "\<lambda>x. x\<lparr>budget_used_requests := budget_used_requests b + units, budget_updated_at := now\<rparr>"
    have d: "db' = db\<lparr>db_budgets := update_rows ?P ?f (db_budgets db)\<rparr>" "out = (if row_count ?P (db_budgets db) = 1 then Granted else Again)"
      using attempt(3) grant by (auto simp: budget_attempt_def Let_def)
    have up: "unique_key budget_id (update_rows ?P ?f (db_budgets db)) \<and> (if ?P r then ?f r else r) \<in> set (update_rows ?P ?f (db_budgets db))"
      by (rule update_budget_row[OF u r(1)]) (auto simp: b r)
    have one: "row_count ?P (db_budgets db) = 1" if "?P r"
      by (rule unique_row_count[where k = budget_id and P = ?P, OF u r(1) that]) (auto simp: b r)
    have zero: "row_count ?P (db_budgets db) = 0" if "\<not> ?P r"
      using that unique_key_eq[OF u _ r(1)] b r(2) by (auto simp: row_count_zero)
    have out: "out = Granted \<longleftrightarrow> ?P r"
    proof (cases "?P r")
      case True
      with d(2) one[OF True] show ?thesis by simp
    next
      case False
      with d(2) zero[OF False] show ?thesis by simp
    qed
    have "\<not> opens_window now b db" using grant by (simp add: opens_window_def)
    then have g': "g' = (if ?P r then g + units else g)" using attempt(4) out by simp
    then have "budget_used_requests (if ?P r then ?f r else r) = g'" "g' \<le> limit" using r(4,5) grant(2) b by auto
    then show ?thesis using up rest r b
      by (simp add: budget_inv_def d) (intro bexI[of _ "if ?P r then ?f r else r"], auto)
  qed
qed

text \<open>
  C37: however consumers read and update the budget of a provider while it is not configured anew, in every window at most the configured number of requests
  is granted, and the row counts exactly the granted ones.
\<close>

theorem budget_respected:
  assumes "(budget_step i)\<^sup>*\<^sup>* (db, (\<lambda>_. None), 0) (db', snaps, g)" and "unique_key budget_id (db_budgets db)"
    and "r \<in> set (db_budgets db)" and "budget_id r = i" and "budget_used_requests r = 0" and "0 \<le> budget_max_requests r"
  shows "g \<le> budget_max_requests r \<and>
    (\<exists>r' \<in> set (db_budgets db'). budget_id r' = i \<and> budget_used_requests r' = g \<and> budget_max_requests r' = budget_max_requests r)"
proof -
  have "budget_inv i (budget_max_requests r) (db, (\<lambda>_. None), 0)" using assms(2-) by (auto simp: budget_inv_def)
  with assms(1) have "budget_inv i (budget_max_requests r) (db', snaps, g)"
    by (induction rule: rtranclp_induct) (auto dest: budget_step_inv[OF _ _ assms(6)])
  then show ?thesis by (auto simp: budget_inv_def)
qed

definition one_budget :: db where
  "one_budget = fst (configure_provider_budget base_env ''default'' ''github'' 1 60 empty_db)"

text \<open>Two consumers read the budget of one request; the second to attempt gets nothing.\<close>

theorem budget_respected_witness:
  "\<exists>b db1 db2 snaps. find_budget one_budget ''default'' ''github'' = Some b \<and>
     budget_attempt (env_now base_env) 1 b one_budget = (db1, Granted) \<and> budget_attempt (env_now base_env) 1 b db1 = (db2, Again) \<and>
     (budget_step (budget_id b))\<^sup>*\<^sup>* (one_budget, (\<lambda>_. None), 0) (db2, snaps, 1) \<and> (1::int) \<le> budget_max_requests b"
proof -
  define b where "b = \<lparr>budget_id = 1, budget_tenant_id = ''default'', budget_provider = ''github'', budget_max_requests = 1,
    budget_window_seconds = 60, budget_used_requests = 0, budget_window_started_at = env_now base_env, budget_updated_at = env_now base_env\<rparr>"
  have db: "db_budgets one_budget = [b]"
    by (simp add: one_budget_def configure_provider_budget_def find_budget_def b_def empty_db_def next_id_def Let_def)
  let ?now = "env_now base_env"
  have "\<exists>d. budget_attempt ?now 1 b one_budget = (d, Granted) \<and> db_budgets d = [b\<lparr>budget_used_requests := 1\<rparr>]"
    unfolding budget_attempt_def db by (simp add: Let_def row_count_def b_def td_seconds_def)
  then obtain db1 where a1: "budget_attempt ?now 1 b one_budget = (db1, Granted)" and db1: "db_budgets db1 = [b\<lparr>budget_used_requests := 1\<rparr>]"
    by blast
  have "\<exists>d. budget_attempt ?now 1 b db1 = (d, Again)"
    unfolding budget_attempt_def db1 by (simp add: Let_def row_count_def b_def td_seconds_def)
  then obtain db2 where a2: "budget_attempt ?now 1 b db1 = (db2, Again)" by blast
  have "scalar (\<lambda>x. budget_id x = 1) (db_budgets one_budget) = Some b" by (simp add: db scalar_Cons b_def)
  note read = budget_step.read_row[of 1 one_budget, OF this]
  let ?s2 = "(\<lambda>_. None)(0 := Some b, Suc 0 := Some b)"
  have no: "\<not> opens_window ?now b d" for d by (simp add: opens_window_def b_def td_seconds_def)
  have "(budget_step 1)\<^sup>*\<^sup>* (one_budget, (\<lambda>_. None), 0) (one_budget, ?s2, 0)"
    using read[of "\<lambda>_. None" 0 0] read[of "(\<lambda>_. None)(0 := Some b)" 0 "Suc 0"] by (meson rtranclp.rtrancl_into_rtrancl rtranclp.rtrancl_refl)
  also have "budget_step 1 (one_budget, ?s2, 0) (db1, ?s2(0 := None), 1)"
    by (rule budget_step.attempt[OF _ _ a1]) (simp_all add: fun_upd_def)
  also have "budget_step 1 (db1, ?s2(0 := None), 1) (db2, ?s2(0 := None, Suc 0 := None), 1)"
    by (rule budget_step.attempt[OF _ _ a2]) (simp_all add: no)
  finally have run: "(budget_step 1)\<^sup>*\<^sup>* (one_budget, (\<lambda>_. None), 0) (db2, ?s2(0 := None, Suc 0 := None), 1)" .
  from budget_respected[OF run, of b] have "(1::int) \<le> budget_max_requests b" by (simp add: db unique_key_def b_def)
  moreover have "find_budget one_budget ''default'' ''github'' = Some b" by (simp add: find_budget_def db scalar_Cons b_def)
  moreover have "budget_id b = 1" by (simp add: b_def)
  ultimately show ?thesis using a1 a2 run
    by (intro exI[of _ b] exI[of _ db1] exI[of _ db2] exI[of _ "?s2(0 := None, Suc 0 := None)"]) (simp del: fun_upd_apply)
qed

end
