(* ===== verification/OwnershipSchedules.thy ===== *)
theory OwnershipSchedules
  imports Ownership Schedules
begin

text \<open>
  The schedules of ownership campaigns: the part of \<open>app/services/ownership.py\<close> that creates, queues and executes them, with
  the routes in \<open>app/v16.py\<close>. The calendar is that of \<open>Schedules\<close>. After a commit the session reloads a row when an
  attribute is read, so only the first schedule of a run is read from the statement that selected it.
\<close>

section \<open>Creating and changing schedules\<close>

definition osched_conflict :: "ownership_schedule \<Rightarrow> ownership_schedule \<Rightarrow> bool" where
  "osched_conflict s x =
     (osched_tenant_id x = osched_tenant_id s \<and> (osched_schedule_id x = osched_schedule_id s \<or> osched_name x = osched_name s))"

record own_schedule_create =
  osc_name :: string
  osc_description :: string
  osc_scope :: dict
  osc_due_days :: int
  osc_max_assets :: int
  osc_schedule_type :: string
  osc_interval_seconds :: int
  osc_cron_expression :: "string option"
  osc_timezone :: string
  osc_windows :: "json list"
  osc_escalation_policy_id :: "string option"
  osc_notification_endpoint_ids :: "string list"
  osc_enabled :: bool

definition create_campaign_schedule ::
  "env \<Rightarrow> zones \<Rightarrow> string \<Rightarrow> string \<Rightarrow> own_schedule_create \<Rightarrow> string \<Rightarrow> own_state \<Rightarrow> (ownership \<times> ownership_schedule) result" where
  "create_campaign_schedule env zones uuid tenant_id r created_by st =
     (case st of (db, own) \<Rightarrow>
      rbind (validate_scope (JObj (osc_scope r))) (\<lambda>scope.
      rbind (validate_schedule_definition zones (osc_schedule_type r) (osc_interval_seconds r) (osc_cron_expression r)
               (osc_timezone r) (osc_windows r)) (\<lambda>_.
      rbind (raise_if (\<not> (1 \<le> osc_due_days r \<and> osc_due_days r \<le> 365))
               (ValueError ''Ownership campaign due days must be 1 to 365'')) (\<lambda>_.
      rbind (raise_if (\<not> (1 \<le> osc_max_assets r \<and> osc_max_assets r \<le> 100000))
               (ValueError ''Ownership campaign asset limit must be 1 to 100000'')) (\<lambda>_.
      rbind (validate_notification_endpoints db tenant_id (osc_notification_endpoint_ids r)) (\<lambda>ids.
      rbind (validate_escalation_policy own tenant_id (osc_escalation_policy_id r)) (\<lambda>policy.
      rbind (first_run env zones (osc_schedule_type r) (osc_cron_expression r) (osc_timezone r) (osc_windows r)) (\<lambda>next.
      let s = \<lparr>osched_id = next_id osched_id (own_schedules own), osched_tenant_id = tenant_id, osched_schedule_id = uuid,
               osched_name = osc_name r, osched_description = osc_description r, osched_scope_json = scope,
               osched_due_days = osc_due_days r, osched_max_assets = osc_max_assets r, osched_schedule_type = osc_schedule_type r,
               osched_interval_seconds = osc_interval_seconds r, osched_cron_expression = osc_cron_expression r,
               osched_timezone = osc_timezone r, osched_maintenance_windows_json = osc_windows r,
               osched_escalation_policy_id = policy, osched_notification_endpoint_ids_json = ids, osched_enabled = osc_enabled r,
               osched_next_run_at = next, osched_last_enqueued_at = None, osched_created_by = created_by,
               osched_created_at = env_now env, osched_updated_at = env_now env\<rparr> in
      rbind (raise_if (list_ex (osched_conflict s) (own_schedules own)) (OtherError ''IntegrityError'')) (\<lambda>_.
      Inr (own\<lparr>own_schedules := own_schedules own @ [s]\<rparr>, s))))))))))"

definition campaign_schedule_response :: "env \<Rightarrow> ownership_schedule \<Rightarrow> dict" where
  "campaign_schedule_response env s =
     [(''schedule_id'', JStr (osched_schedule_id s)), (''name'', JStr (osched_name s)),
      (''description'', JStr (osched_description s)), (''scope'', scope_doc (osched_scope_json s)),
      (''due_days'', JInt (osched_due_days s)), (''max_assets'', JInt (osched_max_assets s)),
      (''schedule_type'', JStr (osched_schedule_type s)), (''interval_seconds'', JInt (osched_interval_seconds s)),
      (''cron_expression'', jopt JStr (osched_cron_expression s)), (''timezone'', JStr (osched_timezone s)),
      (''maintenance_windows'', JList (osched_maintenance_windows_json s)),
      (''escalation_policy_id'', jopt JStr (osched_escalation_policy_id s)),
      (''notification_endpoint_ids'', jstrs (osched_notification_endpoint_ids_json s)), (''enabled'', JBool (osched_enabled s)),
      (''next_run_at'', jtime env (osched_next_run_at s)), (''last_enqueued_at'', jopt (jtime env) (osched_last_enqueued_at s)),
      (''created_by'', JStr (osched_created_by s)), (''created_at'', jtime env (osched_created_at s)),
      (''updated_at'', jtime env (osched_updated_at s))]"

section \<open>Queueing due schedules\<close>

definition due_campaign_schedules :: "time \<Rightarrow> nat \<Rightarrow> ownership \<Rightarrow> ownership_schedule list" where
  "due_campaign_schedules now n own =
     take n (order_by osched_next_run_at (where_rows (\<lambda>s. osched_enabled s \<and> osched_next_run_at s \<le> now) (own_schedules own)))"

definition next_campaign_run :: "zones \<Rightarrow> ownership_schedule \<Rightarrow> time \<Rightarrow> time result" where
  "next_campaign_run zones s after =
     next_run_of zones (osched_schedule_type s) (osched_interval_seconds s) (osched_cron_expression s) (osched_timezone s)
       (osched_maintenance_windows_json s) (osched_next_run_at s) after"

definition claimed_campaign_rows :: "ownership_schedule \<Rightarrow> ownership_schedule \<Rightarrow> bool" where
  "claimed_campaign_rows r s = (osched_id s = osched_id r \<and> osched_enabled s \<and> osched_next_run_at s = osched_next_run_at r)"

definition campaign_row_by_id :: "nat \<Rightarrow> ownership \<Rightarrow> ownership_schedule result" where
  "campaign_row_by_id i own =
     (case scalar (\<lambda>s. osched_id s = i) (own_schedules own) of
        None \<Rightarrow> Inl (OtherError ''ObjectDeletedError'') | Some s \<Rightarrow> Inr s)"

text \<open>One turn of the loop: what is committed before an exception stays.\<close>

definition enqueue_campaign_schedule ::
  "env \<Rightarrow> zones \<Rightarrow> registration list \<Rightarrow> string \<Rightarrow> ownership_schedule result \<Rightarrow> own_state \<Rightarrow> own_state \<times> bool result" where
  "enqueue_campaign_schedule env zones registry uuid row st =
     (case st of (db, own) \<Rightarrow>
      case rbind row (\<lambda>r. rbind (next_campaign_run zones r (env_now env)) (\<lambda>next. Inr (r, next))) of
        Inl e \<Rightarrow> (st, Inl e)
      | Inr (r, next) \<Rightarrow>
          let own1 = own\<lparr>own_schedules := update_rows (claimed_campaign_rows r)
                (\<lambda>s. s\<lparr>osched_next_run_at := next, osched_last_enqueued_at := Some (env_now env), osched_updated_at := env_now env\<rparr>)
                (own_schedules own)\<rparr>
          in if row_count (claimed_campaign_rows r) (own_schedules own) \<noteq> 1 then ((db, own1), Inr False)
             else case rbind (campaign_row_by_id (osched_id r) own1) (\<lambda>s.
                    enqueue_job env registry uuid db (osched_tenant_id s) ''ownership.campaign.launch''
                      [(''schedule_id'', JStr (osched_schedule_id s)), (''scheduled_for'', JStr (env_isoformat env (osched_next_run_at r)))]
                      (''ownership-schedule:'' @ osched_schedule_id s) 3) of
                    Inl e \<Rightarrow> ((db, own1), Inl e)
                  | Inr (db', _) \<Rightarrow> ((db', own1), Inr True))"

fun enqueue_campaign_loop ::
  "env \<Rightarrow> zones \<Rightarrow> registration list \<Rightarrow> (nat \<Rightarrow> string) \<Rightarrow> bool \<Rightarrow> nat \<Rightarrow> ownership_schedule list \<Rightarrow> own_state \<Rightarrow>
     own_state \<times> nat result" where
  "enqueue_campaign_loop env zones registry uuids fresh n [] st = (st, Inr n)"
| "enqueue_campaign_loop env zones registry uuids fresh n (r # rs) st =
     (case enqueue_campaign_schedule env zones registry (uuids n)
             (if fresh then Inr r else campaign_row_by_id (osched_id r) (snd st)) st of
        (st1, Inl e) \<Rightarrow> (st1, Inl e)
      | (st1, Inr claimed) \<Rightarrow>
          enqueue_campaign_loop env zones registry uuids False (if claimed then Suc n else n) rs st1)"

definition enqueue_due_ownership_campaigns ::
  "env \<Rightarrow> zones \<Rightarrow> registration list \<Rightarrow> (nat \<Rightarrow> string) \<Rightarrow> nat \<Rightarrow> own_state \<Rightarrow> own_state \<times> nat result" where
  "enqueue_due_ownership_campaigns env zones registry uuids limit st =
     enqueue_campaign_loop env zones registry uuids True 0 (due_campaign_schedules (env_now env) limit (snd st)) st"

section \<open>Executing a scheduled campaign\<close>

text \<open>\<open>s.replace(p, '''')\<close> for a text \<open>p\<close> that is not empty.\<close>

function remove_text :: "string \<Rightarrow> string \<Rightarrow> string" where
  "remove_text p [] = []"
| "remove_text p (c # cs) =
     (if take (length p) (c # cs) = p then remove_text p (drop (length p - 1) cs) else c # remove_text p cs)"
  by pat_completeness auto
termination by (relation "measure (\<lambda>(p, s). length s)") auto

definition run_stamp :: "string \<Rightarrow> string" where
  "run_stamp scheduled_for = take 15 (filter (\<lambda>c. c \<notin> set ''-:'') (remove_text ''+00:00'' scheduled_for))"

text \<open>The separator is a middle dot between blanks.\<close>

definition scheduled_name :: "ownership_schedule \<Rightarrow> string \<Rightarrow> string" where
  "scheduled_name s scheduled_for =
     take 140 (osched_name s) @ [CHR '' '', char_of (183::nat), CHR '' ''] @ run_stamp scheduled_for"

definition find_campaign_schedule :: "ownership \<Rightarrow> string \<Rightarrow> string \<Rightarrow> ownership_schedule option" where
  "find_campaign_schedule own tenant_id schedule_id =
     scalar (\<lambda>s. osched_tenant_id s = tenant_id \<and> osched_schedule_id s = schedule_id) (own_schedules own)"

definition existing_campaign :: "ownership \<Rightarrow> string \<Rightarrow> string \<Rightarrow> string \<Rightarrow> ownership_campaign option" where
  "existing_campaign own tenant_id schedule_id name =
     scalar (\<lambda>c. camp_tenant_id c = tenant_id \<and> camp_source_schedule_id c = Some schedule_id \<and> camp_name c = name) (own_campaigns own)"

definition total_count :: "counts \<Rightarrow> nat" where
  "total_count cs = sum_list (map snd cs)"

text \<open>The campaign of an occurrence, the number of its assignments, and whether it was there before.\<close>

definition execute_scheduled_campaign ::
  "env \<Rightarrow> registration list \<Rightarrow> string \<Rightarrow> (nat \<Rightarrow> string) \<Rightarrow> uuids \<Rightarrow> string \<Rightarrow> string \<Rightarrow> string \<Rightarrow> own_state \<Rightarrow>
     own_state \<times> (ownership_campaign \<times> nat \<times> bool) result" where
  "execute_scheduled_campaign env registry uuid uuids us tenant_id schedule_id scheduled_for st =
     (case st of (db, own) \<Rightarrow>
      case find_campaign_schedule own tenant_id schedule_id of
        None \<Rightarrow> (st, Inl (ValueError ''Ownership campaign schedule not found''))
      | Some s \<Rightarrow>
          let name = scheduled_name s scheduled_for;
              launched = (\<lambda>c own0 known. case launch_campaign env registry uuids us c (osched_max_assets s) (db, own0) of
                            Inl e \<Rightarrow> ((db, own0), Inl e)
                          | Inr (st', c', n) \<Rightarrow> (st', Inr (c', n, known)))
          in case existing_campaign own tenant_id (osched_schedule_id s) name of
               Some c \<Rightarrow>
                 if camp_status c = CampDraft then launched c own True
                 else (st, Inr (c, total_count (campaign_counts own tenant_id (camp_campaign_id c)), True))
             | None \<Rightarrow>
                 (case create_campaign env uuid tenant_id name (osched_description s) (scope_doc (osched_scope_json s))
                         (env_now env + td_days (osched_due_days s)) (''ownership-schedule:'' @ osched_schedule_id s)
                         (Some (osched_schedule_id s)) (osched_notification_endpoint_ids_json s) (osched_escalation_policy_id s) own of
                    Inl e \<Rightarrow> (st, Inl e)
                  | Inr (own1, c) \<Rightarrow> launched c own1 False))"

definition scheduled_result :: "env \<Rightarrow> ownership \<Rightarrow> ownership_campaign \<times> nat \<times> bool \<Rightarrow> dict" where
  "scheduled_result env own r =
     (case r of (c, n, known) \<Rightarrow>
       [(''campaign'', JObj (with_counts env own c)), (''assignment_count'', JInt (int n)), (''idempotent'', JBool known)])"

section \<open>Routes\<close>

definition own_schedule_create_ok :: "own_schedule_create \<Rightarrow> bool" where
  "own_schedule_create_ok r =
     (field_length 1 160 (osc_name r) \<and> length (osc_description r) \<le> 2000 \<and> 1 \<le> osc_due_days r \<and> osc_due_days r \<le> 365 \<and>
      1 \<le> osc_max_assets r \<and> osc_max_assets r \<le> 100000 \<and> osc_schedule_type r \<in> {''interval'', ''cron''} \<and>
      60 \<le> osc_interval_seconds r \<and> osc_interval_seconds r \<le> 604800 \<and> opt_field 9 120 (osc_cron_expression r) \<and>
      field_length 1 120 (osc_timezone r) \<and> length (osc_windows r) \<le> 20 \<and> list_all is_jobj (osc_windows r) \<and>
      opt_field 0 36 (osc_escalation_policy_id r) \<and> length (osc_notification_endpoint_ids r) \<le> 50)"

definition create_ownership_schedule ::
  "env \<Rightarrow> zones \<Rightarrow> string \<Rightarrow> principal \<Rightarrow> own_schedule_create \<Rightarrow> own_state \<Rightarrow> (own_state \<times> dict) result" where
  "create_ownership_schedule env zones uuid who r st =
     rbind (require_role DataOwner who) (\<lambda>_.
     rbind (check_body (own_schedule_create_ok r)) (\<lambda>_.
     rbind (bad_request (conflict_on_integrity ''Ownership campaign schedule name already exists''
              (create_campaign_schedule env zones uuid (p_tenant_id who) r (p_subject who) st))) (\<lambda>(own, s).
     Inr ((fst st, own), campaign_schedule_response env s))))"

definition list_ownership_schedules :: "env \<Rightarrow> principal \<Rightarrow> bool option \<Rightarrow> ownership \<Rightarrow> dict list result" where
  "list_ownership_schedules env who enabled own =
     rbind (require_role Auditor who) (\<lambda>_.
     Inr (map (campaign_schedule_response env) (order_by_desc osched_created_at
       (where_rows (\<lambda>s. osched_tenant_id s = p_tenant_id who \<and> (case enabled of None \<Rightarrow> True | Some b \<Rightarrow> osched_enabled s = b))
          (own_schedules own)))))"

record own_schedule_update =
  osu_enabled :: "bool option"
  osu_description :: "string option"
  osu_scope :: "dict option"
  osu_due_days :: "int option"
  osu_max_assets :: "int option"
  osu_schedule_type :: "string option"
  osu_interval_seconds :: "int option"
  osu_cron_expression :: "string option"
  osu_timezone :: "string option"
  osu_windows :: "json list option"
  osu_escalation_policy_id :: "string option"
  osu_notification_endpoint_ids :: "string list option"
  osu_next_run_at :: "datetime option"
  osu_fields_set :: "string list"

definition int_field :: "int \<Rightarrow> int \<Rightarrow> int option \<Rightarrow> bool" where
  "int_field lo hi v = (case v of None \<Rightarrow> True | Some n \<Rightarrow> lo \<le> n \<and> n \<le> hi)"

definition own_schedule_update_ok :: "own_schedule_update \<Rightarrow> bool" where
  "own_schedule_update_ok r =
     (opt_field 0 2000 (osu_description r) \<and> int_field 1 365 (osu_due_days r) \<and> int_field 1 100000 (osu_max_assets r) \<and>
      (case osu_schedule_type r of None \<Rightarrow> True | Some t \<Rightarrow> t \<in> {''interval'', ''cron''}) \<and>
      int_field 60 604800 (osu_interval_seconds r) \<and> opt_field 9 120 (osu_cron_expression r) \<and> opt_field 1 120 (osu_timezone r) \<and>
      (case osu_windows r of None \<Rightarrow> True | Some ws \<Rightarrow> length ws \<le> 20 \<and> list_all is_jobj ws) \<and>
      opt_field 0 36 (osu_escalation_policy_id r) \<and>
      (case osu_notification_endpoint_ids r of None \<Rightarrow> True | Some ids \<Rightarrow> length ids \<le> 50))"

text \<open>The fields that a request gives replace those of the schedule; an interval schedule has no expression.\<close>

definition changed_campaign_schedule ::
  "own_schedule_update \<Rightarrow> scope \<Rightarrow> string option \<Rightarrow> ownership_schedule \<Rightarrow> ownership_schedule" where
  "changed_campaign_schedule r scope policy s =
     s\<lparr>osched_enabled := given_or (osu_enabled r) (osched_enabled s),
       osched_description := given_or (osu_description r) (osched_description s), osched_scope_json := scope,
       osched_due_days := given_or (osu_due_days r) (osched_due_days s),
       osched_max_assets := given_or (osu_max_assets r) (osched_max_assets s),
       osched_schedule_type := given_or (osu_schedule_type r) (osched_schedule_type s),
       osched_interval_seconds := given_or (osu_interval_seconds r) (osched_interval_seconds s),
       osched_cron_expression := (if osu_schedule_type r = Some ''interval'' then None
          else case osu_cron_expression r of None \<Rightarrow> osched_cron_expression s | Some e \<Rightarrow> Some e),
       osched_timezone := given_or (osu_timezone r) (osched_timezone s), osched_escalation_policy_id := policy,
       osched_next_run_at := (case osu_next_run_at r of None \<Rightarrow> osched_next_run_at s | Some t \<Rightarrow> dt_wall t)\<rparr>"

definition update_ownership_schedule ::
  "env \<Rightarrow> zones \<Rightarrow> principal \<Rightarrow> string \<Rightarrow> own_schedule_update \<Rightarrow> own_state \<Rightarrow> (own_state \<times> dict) result" where
  "update_ownership_schedule env zones who schedule_id r st =
     (case st of (db, own) \<Rightarrow>
      rbind (require_role DataOwner who) (\<lambda>_.
      rbind (check_body (own_schedule_update_ok r)) (\<lambda>_.
      case find_campaign_schedule own (p_tenant_id who) schedule_id of
        None \<Rightarrow> Inl (HTTPException 404 ''Ownership campaign schedule not found'')
      | Some s \<Rightarrow>
          let windows = given_or (osu_windows r) (osched_maintenance_windows_json s) in
          rbind (bad_request
            (rbind (case osu_scope r of None \<Rightarrow> Inr (osched_scope_json s) | Some d \<Rightarrow> validate_scope (JObj d)) (\<lambda>scope.
             rbind (validate_notification_endpoints db (p_tenant_id who)
                      (given_or (osu_notification_endpoint_ids r) (osched_notification_endpoint_ids_json s))) (\<lambda>ids.
             rbind (case osu_escalation_policy_id r of None \<Rightarrow> Inr (osched_escalation_policy_id s)
                    | Some i \<Rightarrow> validate_escalation_policy own (p_tenant_id who) (Some i)) (\<lambda>policy.
             let c = changed_campaign_schedule r scope policy s in
             rbind (validate_schedule_definition zones (osched_schedule_type c) (osched_interval_seconds c)
                      (osched_cron_expression c) (osched_timezone c) windows) (\<lambda>_.
             rbind (if osu_next_run_at r = None \<and> set (osu_fields_set r) \<inter> set cadence_fields \<noteq> {}
                    then first_run env zones (osched_schedule_type c) (osched_cron_expression c) (osched_timezone c) windows
                    else Inr (osched_next_run_at c)) (\<lambda>next.
             Inr (c\<lparr>osched_next_run_at := next, osched_maintenance_windows_json := windows,
                    osched_notification_endpoint_ids_json := ids, osched_updated_at := env_now env\<rparr>)))))))) (\<lambda>c.
          Inr ((db, own\<lparr>own_schedules := update_rows (\<lambda>x. osched_id x = osched_id s) (\<lambda>x. c) (own_schedules own)\<rparr>),
               campaign_schedule_response env c)))))"

definition delete_ownership_schedule :: "principal \<Rightarrow> string \<Rightarrow> ownership \<Rightarrow> ownership result" where
  "delete_ownership_schedule who schedule_id own =
     rbind (require_role DataOwner who) (\<lambda>_.
     case find_campaign_schedule own (p_tenant_id who) schedule_id of
       None \<Rightarrow> Inl (HTTPException 404 ''Ownership campaign schedule not found'')
     | Some s \<Rightarrow> Inr (own\<lparr>own_schedules := filter (\<lambda>x. osched_id x \<noteq> osched_id s) (own_schedules own)\<rparr>))"


section \<open>Claims move a schedule on\<close>

lemma next_campaign_run_later: "next_campaign_run zones s now = Inr t \<Longrightarrow> now < t"
  by (simp add: next_campaign_run_def next_run_of_later)

section \<open>An occurrence is executed once\<close>

text \<open>The campaigns of a register by name; the identity of a campaign that was launched.\<close>

definition camp_named :: "ownership_campaign \<Rightarrow> string \<times> string" where
  "camp_named c = (camp_tenant_id c, camp_name c)"

definition named_ok :: "ownership \<Rightarrow> bool" where
  "named_ok own \<longleftrightarrow> unique_key camp_named (own_campaigns own)"

definition same_identity_of :: "ownership_campaign \<Rightarrow> ownership_campaign \<Rightarrow> bool" where
  "same_identity_of c x \<longleftrightarrow>
     camp_id x = camp_id c \<and> camp_key x = camp_key c \<and> camp_name x = camp_name c \<and>
     camp_source_schedule_id x = camp_source_schedule_id c"

definition launched_as :: "ownership_campaign \<Rightarrow> nat \<Rightarrow> ownership \<Rightarrow> bool" where
  "launched_as c n own \<longleftrightarrow>
     (\<exists>x \<in> set (own_campaigns own). same_identity_of c x \<and> camp_status x \<noteq> CampDraft) \<and>
     length (filter (\<lambda>a. asg_camp a = camp_key c) (own_assignments own)) = n"

lemma replace_launched:
  assumes "unique_key camp_id (own_campaigns own)" and "y \<in> set (own_campaigns own)" and "camp_id y' = camp_id y"
    and "camp_key y' = camp_key y" "camp_name y' = camp_name y" "camp_source_schedule_id y' = camp_source_schedule_id y"
    and "camp_status y \<noteq> CampDraft \<Longrightarrow> camp_status y' \<noteq> CampDraft"
    and "x \<in> set (own_campaigns own)" "same_identity_of c x" "camp_status x \<noteq> CampDraft"
  shows "\<exists>x' \<in> set (update_rows (\<lambda>z. camp_id z = camp_id y') (\<lambda>z. y') (own_campaigns own)). same_identity_of c x' \<and> camp_status x' \<noteq> CampDraft"
proof (cases "x = y")
  case True
  have "y' \<in> set (update_rows (\<lambda>z. camp_id z = camp_id y') (\<lambda>z. y') (own_campaigns own))"
    unfolding replace_row[OF assms(1,2,3)] by simp
  with True assms show ?thesis by (auto simp: same_identity_of_def)
next
  case False
  with assms(8) have "x \<in> set (update_rows (\<lambda>z. camp_id z = camp_id y') (\<lambda>z. y') (own_campaigns own))"
    unfolding replace_row[OF assms(1,2,3)] by simp
  with assms show ?thesis by blast
qed

lemma replace_count:
  assumes "unique_key asg_id (own_assignments own)" and "a \<in> set (own_assignments own)" and "asg_id a' = asg_id a" "asg_camp a' = asg_camp a"
  shows "length (filter (\<lambda>x. asg_camp x = k) (update_rows (\<lambda>x. asg_id x = asg_id a') (\<lambda>x. a') (own_assignments own))) =
         length (filter (\<lambda>x. asg_camp x = k) (own_assignments own))"
proof -
  have "length (filter (\<lambda>x. asg_camp x = k) rows) = count_list (map asg_camp rows) k" for rows
    by (induction rows) auto
  with replace_keeps[OF assms(1,2,3,4)] show ?thesis by simp
qed

lemma complete_keeps_launched:
  assumes "unique_key camp_id (own_campaigns own)" and "launched_as c n own"
  shows "launched_as c n (snd (complete_campaign_if_ready env registry us t i (db, own)))"
proof -
  from assms(2) obtain x where x: "x \<in> set (own_campaigns own)" "same_identity_of c x" "camp_status x \<noteq> CampDraft"
    and n: "length (filter (\<lambda>a. asg_camp a = camp_key c) (own_assignments own)) = n"
    by (auto simp: launched_as_def)
  define r where "r = snd (complete_campaign_if_ready env registry us t i (db, own))"
  have "r = own \<or> (\<exists>y \<in> set (own_campaigns own). r = update_campaigns
      (\<lambda>z. camp_id z = camp_id (completed_campaign (env_now env) y)) (\<lambda>z. completed_campaign (env_now env) y) own)"
    by (auto simp: r_def complete_campaign_if_ready_def Let_def completed_campaign_def split: option.splits dest!: scalar_Some)
  then consider "r = own" | y where "y \<in> set (own_campaigns own)"
    "r = update_campaigns (\<lambda>z. camp_id z = camp_id (completed_campaign (env_now env) y)) (\<lambda>z. completed_campaign (env_now env) y) own"
    by blast
  then show ?thesis
  proof cases
    case 1
    with assms(2) show ?thesis by (simp add: r_def)
  next
    case 2
    have "\<exists>x' \<in> set (own_campaigns r). same_identity_of c x' \<and> camp_status x' \<noteq> CampDraft"
      unfolding 2(2) fields_update
      by (rule replace_launched[OF assms(1) 2(1) _ _ _ _ _ x]) (simp_all add: completed_campaign_def camp_key_def)
    moreover have "own_assignments r = own_assignments own" by (simp add: 2(2))
    ultimately show ?thesis using n by (simp add: launched_as_def r_def[symmetric])
  qed
qed

lemma replace_assignment_launched:
  assumes "own_ok own" and "launched_as c n own" and "a \<in> set (own_assignments own)" and "asg_id a' = asg_id a" "asg_camp a' = asg_camp a"
  shows "launched_as c n (replace_assignment a' own)"
  using assms replace_count[of own a a' "camp_key c"]
  by (simp add: launched_as_def replace_assignment_def own_ok_def own_keys_def)

lemma own_step_launched:
  assumes "own_step registry s s'" and "own_ok (snd s)" and "launched_as c n (snd s)"
  shows "launched_as c n (snd s')"
  using assms
proof (induction rule: own_step.induct)
  case (CampaignCreated env uuid t name d scope due creator sid eps pid own own' y db)
  then show ?case by (auto simp: launched_as_def elim!: create_campaign_Inr)
next
  case (CampaignLaunched y own env uuids us m db s' y' k)
  from CampaignLaunched(2) obtain rows where l: "camp_status y = CampDraft"
    "rows = new_assignments env uuids y (campaign_assets y m db) own" "y' = launched_campaign (env_now env) y"
    and s': "snd s' = update_campaigns (\<lambda>x. camp_id x = camp_id y') (\<lambda>x. y') (own\<lparr>own_assignments := own_assignments own @ rows\<rparr>)"
    by (rule launch_campaign_Inr)
  have keys: "unique_key camp_id (own_campaigns own)" "unique_key camp_key (own_campaigns own)"
    using CampaignLaunched(3) by (simp_all add: own_ok_def own_keys_def)
  from CampaignLaunched(4) obtain x where x: "x \<in> set (own_campaigns own)" "same_identity_of c x" "camp_status x \<noteq> CampDraft"
    by (auto simp: launched_as_def)
  with l(1) keys(2) CampaignLaunched(1) have "camp_key y \<noteq> camp_key c"
    using unique_key_eq[of camp_key "own_campaigns own" x y] by (auto simp: same_identity_of_def)
  then have none: "filter (\<lambda>a. asg_camp a = camp_key c) rows = []"
    by (auto simp: filter_empty_conv l(2) dest!: new_assignments_facts(1))
  have "\<exists>x' \<in> set (update_rows (\<lambda>x. camp_id x = camp_id y') (\<lambda>x. y') (own_campaigns own)). same_identity_of c x' \<and> camp_status x' \<noteq> CampDraft"
    by (rule replace_launched[OF keys(1) CampaignLaunched(1) _ _ _ _ _ x]) (simp_all add: l(3) launched_campaign_def camp_key_def)
  with CampaignLaunched(4) none show ?case by (simp add: launched_as_def s')
next
  case (AssignmentAttested a own env us us' r who db s' a')
  from AssignmentAttested(2) obtain db1 a1 db2 where t: "attested env a r db = Inr (db1, a1)"
    "a' = a1\<lparr>asg_attestation_note := Some (att_note r), asg_attested_by := Some who, asg_attested_at := Some (env_now env)\<rparr>"
    "s' = complete_campaign_if_ready env registry us' (asg_tenant_id a') (asg_campaign_id a') (db2, replace_assignment a' own)"
    by (rule attest_assignment_Inr)
  from attested_row[OF t(1)] have k: "asg_id a' = asg_id a" "asg_camp a' = asg_camp a" by (simp_all add: t(2) asg_camp_def)
  have "launched_as c n (replace_assignment a' own)"
    using replace_assignment_launched[OF _ _ AssignmentAttested(1) k] AssignmentAttested(3,4) by simp
  with AssignmentAttested(3) show ?case
    unfolding t(3) by (intro complete_keeps_launched) (simp_all add: own_ok_def own_keys_def replace_assignment_def)
next
  case (RemediationUpdated a own env act due own' a' db)
  from RemediationUpdated(2) have "asg_id a' = asg_id a" "asg_camp a' = asg_camp a" "own' = replace_assignment a' own"
    by (auto simp: update_remediation_def result_simps Let_def asg_camp_def)
  with replace_assignment_launched[OF _ _ RemediationUpdated(1)] RemediationUpdated(3,4) show ?case by simp
next
  case (RemediationResolved a own env us who db s' a')
  note r = resolve_remediation_Inr[OF RemediationResolved(2)]
  then have k: "asg_id a' = asg_id a" "asg_camp a' = asg_camp a"
    and s': "s' = complete_campaign_if_ready env registry us (asg_tenant_id a') (asg_campaign_id a') (db, replace_assignment a' own)"
    by (auto simp: asg_camp_def)
  have "launched_as c n (replace_assignment a' own)"
    using replace_assignment_launched[OF _ _ RemediationResolved(1) k] RemediationResolved(3,4) by simp
  with RemediationResolved(3) show ?case
    unfolding s' by (intro complete_keeps_launched) (simp_all add: own_ok_def own_keys_def replace_assignment_def)
next
  case PolicyCreated
  from policy_changes(1)[OF PolicyCreated(1)] PolicyCreated(3) show ?case by (simp add: launched_as_def)
next
  case PolicyUpdated
  from policy_changes(2)[OF PolicyUpdated(1)] PolicyUpdated(3) show ?case by (simp add: launched_as_def)
next
  case (EscalationsQueued env safe_error uuids limit db own s' k)
  then have "same_campaigns (db, own) s'"
    using escalations_keep[of "(db, own)" env safe_error registry uuids limit] by simp
  with EscalationsQueued(3) show ?case by (simp add: same_campaigns_def launched_as_def)
qed simp

lemma own_steps_launched:
  assumes "(own_step registry)\<^sup>*\<^sup>* s s'" and "own_ok (snd s)" and "launched_as c n (snd s)"
  shows "launched_as c n (snd s')"
  using assms(1)
proof (induction rule: rtranclp_induct)
  case (step y z)
  from own_steps_ok[OF step(1)] assms(2) own_step_launched[OF step(2)] step(3) show ?case by blast
qed (rule assms(3))

lemma escalations_schedules:
  "own_schedules (snd (fst (enqueue_due_ownership_escalations env safe_error registry uuids limit s))) = own_schedules (snd s)"
proof -
  have stages: "own_schedules (snd (fst (escalate_stages env safe_error registry uuids c p counts remaining gs x))) = own_schedules (snd (fst x))"
    for c p counts remaining gs x
  proof (induction gs arbitrary: x)
    case (Cons g gs)
    obtain st n m where x: "x = (st, n, m)" by (cases x) auto
    obtain st' ok where q: "queue_escalation_stage env safe_error registry (uuids n) c p g counts remaining st = (st', ok)" by fastforce
    with queue_stage_frame(4)[of env safe_error registry "uuids n" c p g counts remaining st] have "own_schedules (snd st') = own_schedules (snd st)"
      by simp
    with Cons q show ?case by (simp add: x)
  qed simp
  have "own_schedules (snd (fst (escalate_campaign env safe_error registry uuids c x))) = own_schedules (snd (fst x))" for c x
    using stages by (auto simp: escalate_campaign_def Let_def split: prod.splits option.splits)
  then have "own_schedules (snd (fst (fold (escalate_campaign env safe_error registry uuids) cs x))) = own_schedules (snd (fst x))" for cs x
    by (induction cs arbitrary: x) simp_all
  moreover obtain st n m where
    "fold (escalate_campaign env safe_error registry uuids) (escalating_campaigns limit (snd s)) (s, 0, 0) = (st, n, m)"
    by (rule prod_cases3)
  ultimately show ?thesis
    by (simp add: enqueue_due_ownership_escalations_def) (metis fst_conv)
qed

text \<open>Names stay unique, and the operations on campaigns leave the schedules alone.\<close>

lemma complete_names:
  assumes "unique_key camp_id (own_campaigns own)"
  shows "map camp_named (own_campaigns (snd (complete_campaign_if_ready env registry us t i (db, own)))) = map camp_named (own_campaigns own) \<and>
         own_schedules (snd (complete_campaign_if_ready env registry us t i (db, own))) = own_schedules own"
proof -
  have "map camp_named (update_rows (\<lambda>z. camp_id z = camp_id (completed_campaign (env_now env) y)) (\<lambda>z. completed_campaign (env_now env) y)
      (own_campaigns own)) = map camp_named (own_campaigns own)" if "y \<in> set (own_campaigns own)" for y
    by (rule replace_keeps[OF assms that]) (simp_all add: completed_campaign_def camp_named_def)
  then show ?thesis
    by (auto simp: complete_campaign_if_ready_def Let_def completed_campaign_def split: option.splits dest!: scalar_Some)
qed

definition names_kept :: "ownership \<Rightarrow> ownership \<Rightarrow> bool" where
  "names_kept own own' \<longleftrightarrow> own_schedules own' = own_schedules own \<and> (named_ok own \<longrightarrow> named_ok own')"

lemma names_kept_map:
  "map camp_named (own_campaigns own') = map camp_named (own_campaigns own) \<Longrightarrow> own_schedules own' = own_schedules own \<Longrightarrow> names_kept own own'"
  by (simp add: names_kept_def named_ok_def unique_key_def)

lemma create_names: "create_campaign env uuid t name d scope due creator sid eps pid own = Inr (own', c) \<Longrightarrow> names_kept own own'"
proof (erule create_campaign_Inr)
  fix normalized pol
  assume "\<not> list_ex (campaign_conflict c) (own_campaigns own)" and own': "own' = own\<lparr>own_campaigns := own_campaigns own @ [c]\<rparr>"
  then have "camp_named c \<notin> camp_named ` set (own_campaigns own)"
    by (auto simp: list_ex_iff campaign_conflict_def camp_named_def)
  then show ?thesis by (simp add: names_kept_def named_ok_def unique_key_def own')
qed

lemma launch_names:
  assumes "unique_key camp_id (own_campaigns own)" and "c \<in> set (own_campaigns own)"
    and "launch_campaign env registry uuids us c n (db, own) = Inr (s', c', m)"
  shows "names_kept own (snd s')"
proof -
  from assms(3) obtain rows where c': "c' = launched_campaign (env_now env) c"
    and s': "snd s' = update_campaigns (\<lambda>x. camp_id x = camp_id c') (\<lambda>x. c') (own\<lparr>own_assignments := own_assignments own @ rows\<rparr>)"
    by (rule launch_campaign_Inr)
  have "map camp_named (update_rows (\<lambda>x. camp_id x = camp_id c') (\<lambda>x. c') (own_campaigns own)) = map camp_named (own_campaigns own)"
    by (rule replace_keeps[OF assms(1,2)]) (simp_all add: c' launched_campaign_def camp_named_def)
  then show ?thesis by (intro names_kept_map) (simp_all add: s')
qed

lemma own_step_names:
  assumes "own_step registry s s'" and "own_ok (snd s)"
  shows "names_kept (snd s) (snd s')"
  using assms
proof (induction rule: own_step.induct)
  case CampaignCreated
  then show ?case by (simp add: create_names)
next
  case (CampaignLaunched y own env uuids us m db s' y' k)
  then show ?case by (simp add: launch_names own_ok_def own_keys_def)
next
  case (AssignmentAttested a own env us us' r who db s' a')
  from AssignmentAttested(2) obtain db1 a1 db2 where
    "s' = complete_campaign_if_ready env registry us' (asg_tenant_id a') (asg_campaign_id a') (db2, replace_assignment a' own)"
    by (rule attest_assignment_Inr)
  then show ?case
    using AssignmentAttested(3) complete_names[of "replace_assignment a' own"]
    by (intro names_kept_map) (simp_all add: own_ok_def own_keys_def replace_assignment_def)
next
  case (RemediationResolved a own env us who db s' a')
  note r = resolve_remediation_Inr[OF RemediationResolved(2)]
  then have s': "s' = complete_campaign_if_ready env registry us (asg_tenant_id a') (asg_campaign_id a') (db, replace_assignment a' own)"
    by blast
  then show ?case
    using RemediationResolved(3) complete_names[of "replace_assignment a' own"]
    by (intro names_kept_map) (simp_all add: own_ok_def own_keys_def replace_assignment_def)
next
  case (EscalationsQueued env safe_error uuids limit db own s' k)
  then have "own_campaigns (snd s') = own_campaigns own"
    using escalations_keep[of "(db, own)" env safe_error registry uuids limit] by (simp add: same_campaigns_def)
  moreover have "own_schedules (snd s') = own_schedules own"
    using escalations_schedules[of env safe_error registry uuids limit "(db, own)"] EscalationsQueued(1) by simp
  ultimately show ?case by (intro names_kept_map) simp_all
qed (auto intro!: names_kept_map simp: update_remediation_def create_escalation_policy_def update_escalation_policy_def result_simps
    Let_def replace_assignment_def)

lemma own_steps_names:
  assumes "(own_step registry)\<^sup>*\<^sup>* s s'" and "own_ok (snd s)"
  shows "names_kept (snd s) (snd s')"
  using assms(1)
proof (induction rule: rtranclp_induct)
  case (step y z)
  from own_steps_ok[OF step(1)] assms(2) own_step_names[OF step(2)] step(3) show ?case by (auto simp: names_kept_def)
qed (simp add: names_kept_def)

section \<open>Executing again\<close>

lemma total_count_length: "total_count (campaign_counts own t i) = length (filter (\<lambda>a. asg_camp a = (t, i)) (own_assignments own))"
proof -
  let ?xs = "map asg_status (filter (\<lambda>a. asg_camp a = (t, i)) (own_assignments own))"
  have "of_campaign t i = (\<lambda>a. asg_camp a = (t, i))" by (simp add: fun_eq_iff of_campaign_key)
  then have "total_count (campaign_counts own t i) = sum_list (map (count_list ?xs) (rev (remdups (rev ?xs))))"
    by (simp add: total_count_def campaign_counts_def Let_def where_rows_def comp_def)
  also have "\<dots> = sum (count_list ?xs) (set ?xs)"
    by (subst sum_list_distinct_conv_sum_set) simp_all
  also have "\<dots> = length ?xs" by (rule sum_count_set) simp_all
  finally show ?thesis by simp
qed

lemma launch_launched:
  assumes "own_ok own" and "c \<in> set (own_campaigns own)"
    and "launch_campaign env registry uuids us c m (db, own) = Inr (s', c', n)"
  shows "launched_as c n (snd s') \<and> same_identity_of c c'"
proof -
  from assms(3) obtain rows where l: "camp_status c = CampDraft" "n = length (campaign_assets c m db)"
    "rows = new_assignments env uuids c (campaign_assets c m db) own" "c' = launched_campaign (env_now env) c"
    and s': "snd s' = update_campaigns (\<lambda>x. camp_id x = camp_id c') (\<lambda>x. c') (own\<lparr>own_assignments := own_assignments own @ rows\<rparr>)"
    by (rule launch_campaign_Inr)
  have id: "same_identity_of c c'" by (simp add: same_identity_of_def l(4) launched_campaign_def camp_key_def)
  have u: "unique_key camp_id (own_campaigns own)" using assms(1) by (simp add: own_ok_def own_keys_def)
  have "c' \<in> set (own_campaigns (snd s'))"
    using replace_row[OF u assms(2), of c'] by (simp add: s' l(4) launched_campaign_def)
  moreover have "camp_status c' \<noteq> CampDraft" by (simp add: l(4) launched_campaign_def)
  moreover have "filter (\<lambda>a. asg_camp a = camp_key c) (own_assignments own) = []"
    using assms(1,2) l(1) by (auto simp: own_ok_def state_ok_def filter_empty_conv)
  moreover have "filter (\<lambda>a. asg_camp a = camp_key c) rows = rows"
    by (simp add: filter_id_conv l(3) new_assignments_facts(1))
  moreover have "length rows = n" by (simp add: l(2,3) new_assignments_def)
  ultimately show ?thesis using id by (auto simp: launched_as_def s')
qed

text \<open>What a successful execution leaves: the campaign of the occurrence, launched, with that many assignments.\<close>

lemma executed:
  assumes "execute_scheduled_campaign env registry uuid uuids us t sid stamp (db, own) = (s', Inr (c, n, known))"
    and "own_ok own" and "find_campaign_schedule own t sid = Some sched"
  shows "own_ok (snd s') \<and> names_kept own (snd s') \<and> launched_as c n (snd s') \<and> camp_tenant_id c = t \<and>
         camp_source_schedule_id c = Some (osched_schedule_id sched) \<and> camp_name c = scheduled_name sched stamp"
proof -
  let ?name = "scheduled_name sched stamp"
  have launch: "own_ok (snd s'') \<and> names_kept own0 (snd s'') \<and> launched_as c' n' (snd s'') \<and> same_identity_of c0 c'"
    if "own_ok own0" "c0 \<in> set (own_campaigns own0)"
      "launch_campaign env registry uuids us c0 m (db, own0) = Inr (s'', c', n')" for own0 c0 m s'' c' n'
  proof -
    have "own_ok (snd s'')" by (rule launch_campaign_ok[OF that])
    moreover have "names_kept own0 (snd s'')" using that launch_names by (simp add: own_ok_def own_keys_def)
    moreover have "launched_as c0 n' (snd s'')" "same_identity_of c0 c'" using launch_launched[OF that] by auto
    moreover have "launched_as c' n' (snd s'')"
      using calculation(3,4) by (auto simp: launched_as_def same_identity_of_def)
    ultimately show ?thesis by blast
  qed
  show ?thesis
  proof (cases "existing_campaign own t (osched_schedule_id sched) ?name")
    case (Some c0)
    then have c0: "c0 \<in> set (own_campaigns own)" "camp_tenant_id c0 = t" "camp_source_schedule_id c0 = Some (osched_schedule_id sched)"
      "camp_name c0 = ?name"
      by (auto simp: existing_campaign_def dest!: scalar_Some)
    show ?thesis
    proof (cases "camp_status c0 = CampDraft")
      case True
      with assms(1,3) Some obtain s'' where "launch_campaign env registry uuids us c0 (osched_max_assets sched) (db, own) = Inr (s'', c, n)"
        "s' = s''"
        by (auto simp: execute_scheduled_campaign_def Let_def split: sum.splits)
      with launch[OF assms(2) c0(1)] c0 show ?thesis by (fastforce simp: same_identity_of_def camp_key_def)
    next
      case False
      with assms(1,3) Some have "s' = (db, own)" "c = c0" "n = total_count (campaign_counts own t (camp_campaign_id c0))"
        by (auto simp: execute_scheduled_campaign_def Let_def)
      with c0 False assms(2) show ?thesis
        by (auto simp: launched_as_def total_count_length camp_key_def names_kept_def same_identity_of_def)
    qed
  next
    case None
    with assms(1,3) obtain own1 c0 s'' where cr: "create_campaign env uuid t ?name (osched_description sched) (scope_doc (osched_scope_json sched))
        (env_now env + td_days (osched_due_days sched)) (''ownership-schedule:'' @ osched_schedule_id sched) (Some (osched_schedule_id sched))
        (osched_notification_endpoint_ids_json sched) (osched_escalation_policy_id sched) own = Inr (own1, c0)"
      and l: "launch_campaign env registry uuids us c0 (osched_max_assets sched) (db, own1) = Inr (s'', c, n)" "s' = s''"
      by (auto simp: execute_scheduled_campaign_def Let_def split: sum.splits prod.splits)
    from cr obtain scope pol where c0: "c0 = new_campaign env uuid t ?name (osched_description sched) scope
        (env_now env + td_days (osched_due_days sched)) (''ownership-schedule:'' @ osched_schedule_id sched) (Some (osched_schedule_id sched))
        (osched_notification_endpoint_ids_json sched) pol own"
      "own1 = own\<lparr>own_campaigns := own_campaigns own @ [c0]\<rparr>"
      by (rule create_campaign_Inr)
    have "own_ok own1" by (rule create_campaign_ok[OF assms(2) cr])
    moreover have "c0 \<in> set (own_campaigns own1)" by (simp add: c0(2))
    ultimately have x: "own_ok (snd s'')" "names_kept own1 (snd s'')" "launched_as c n (snd s'')" "same_identity_of c0 c"
      using launch[OF _ _ l(1)] by auto
    with create_names[OF cr] have "names_kept own (snd s'')" by (auto simp: names_kept_def)
    with x l(2) c0(1) show ?thesis by (auto simp: same_identity_of_def camp_key_def new_campaign_def)
  qed
qed

section \<open>Schedules beside campaigns\<close>

text \<open>
  Every operation on campaigns and on their schedules: those of \<open>own_step\<close>, the routes that create, change and delete a
  schedule, the run that queues the due ones, and the execution of an occurrence, whether it returns or raises.
\<close>

inductive schedule_step :: "registration list \<Rightarrow> own_state \<Rightarrow> own_state \<Rightarrow> bool" for registry where
  CampaignOperation: "own_step registry s s' \<Longrightarrow> schedule_step registry s s'"
| ScheduleCreated: "create_ownership_schedule env zones uuid who r (db, own) = Inr (s', d) \<Longrightarrow> schedule_step registry (db, own) s'"
| ScheduleUpdated: "update_ownership_schedule env zones who sid u (db, own) = Inr (s', d) \<Longrightarrow> schedule_step registry (db, own) s'"
| ScheduleDeleted: "delete_ownership_schedule who sid own = Inr own' \<Longrightarrow> schedule_step registry (db, own) (db, own')"
| SchedulesQueued: "enqueue_due_ownership_campaigns env zones registry uuids limit (db, own) = (s', r) \<Longrightarrow>
    schedule_step registry (db, own) s'"
| ScheduleExecuted: "execute_scheduled_campaign env registry uuid uuids' us t sid stamp (db, own) = (s', r') \<Longrightarrow>
    schedule_step registry (db, own) s'"

definition osched_key :: "ownership_schedule \<Rightarrow> string \<times> string" where
  "osched_key s = (osched_tenant_id s, osched_schedule_id s)"

text \<open>What no operation changes of a schedule.\<close>

definition osched_ident :: "ownership_schedule \<Rightarrow> nat \<times> (string \<times> string) \<times> string" where
  "osched_ident s = (osched_id s, osched_key s, osched_name s)"

definition schedules_ok :: "ownership \<Rightarrow> bool" where
  "schedules_ok own \<longleftrightarrow> unique_key osched_id (own_schedules own) \<and> unique_key osched_key (own_schedules own)"

lemma schedules_ident:
  assumes "map osched_ident (own_schedules own') = map osched_ident (own_schedules own)"
  shows "schedules_ok own' = schedules_ok own \<and>
         map_option osched_ident (find_campaign_schedule own' t sid) = map_option osched_ident (find_campaign_schedule own t sid)"
proof -
  have "map_option osched_ident (scalar (\<lambda>s. osched_tenant_id s = t \<and> osched_schedule_id s = sid) xs) =
      scalar (\<lambda>(i, k, n). k = (t, sid)) (map osched_ident xs)" for xs
    by (induction xs) (auto simp: scalar_Cons osched_ident_def osched_key_def)
  moreover have "map osched_id xs = map fst (map osched_ident xs)" "map osched_key xs = map (fst \<circ> snd) (map osched_ident xs)" for xs
    by (simp_all add: osched_ident_def comp_def)
  ultimately show ?thesis
    using assms by (simp only: schedules_ok_def unique_key_def find_campaign_schedule_def)
qed

text \<open>The campaigns and assignments are those before, and a schedule that is found still is the one found before.\<close>

definition only_schedules :: "ownership \<Rightarrow> ownership \<Rightarrow> bool" where
  "only_schedules own own' \<longleftrightarrow>
     own_campaigns own' = own_campaigns own \<and> own_assignments own' = own_assignments own \<and>
     (schedules_ok own \<longrightarrow> schedules_ok own' \<and>
       (\<forall>t sid x y. find_campaign_schedule own t sid = Some x \<longrightarrow> find_campaign_schedule own' t sid = Some y \<longrightarrow>
          osched_ident y = osched_ident x))"

lemma only_schedules_ident:
  assumes "map osched_ident (own_schedules own') = map osched_ident (own_schedules own)"
    and "own_campaigns own' = own_campaigns own" "own_assignments own' = own_assignments own"
  shows "only_schedules own own'"
proof -
  have "osched_ident y = osched_ident x"
    if "find_campaign_schedule own t sid = Some x" "find_campaign_schedule own' t sid = Some y" for t sid x y
    using schedules_ident[OF assms(1), of t sid] that by simp
  with assms schedules_ident[OF assms(1)] show ?thesis by (auto simp: only_schedules_def)
qed

lemma update_ident:
  assumes "\<And>s. s \<in> set rows \<Longrightarrow> P s \<Longrightarrow> osched_ident (f s) = osched_ident s"
  shows "map osched_ident (update_rows P f rows) = map osched_ident rows"
  using assms by (auto simp: update_rows_def)

lemma unique_key_filter: "unique_key f rows \<Longrightarrow> unique_key f (filter P rows)"
  by (simp add: unique_key_def distinct_map_filter)

lemma create_only_schedules:
  assumes "create_campaign_schedule env zones uuid t r who (db, own) = Inr (own', s)"
  shows "only_schedules own own'"
proof -
  from assms have own': "own' = own\<lparr>own_schedules := own_schedules own @ [s]\<rparr>" "osched_id s = next_id osched_id (own_schedules own)"
    and new: "\<not> list_ex (osched_conflict s) (own_schedules own)"
    by (auto simp: create_campaign_schedule_def result_simps Let_def)
  have "unique_key osched_id (own_schedules own')" if "unique_key osched_id (own_schedules own)"
    using that unique_key_insert[of osched_id "own_schedules own" s] own'(2) by (simp add: own'(1))
  moreover from new have "osched_key s \<notin> osched_key ` set (own_schedules own)"
    by (auto simp: list_ex_iff osched_conflict_def osched_key_def)
  then have "unique_key osched_key (own_schedules own')" if "unique_key osched_key (own_schedules own)"
    using that by (simp add: unique_key_def own'(1))
  moreover have "y = x" if "find_campaign_schedule own u sid = Some x" "find_campaign_schedule own' u sid = Some y" for u sid x y
    using that by (simp add: find_campaign_schedule_def own'(1) scalar_append)
  ultimately show ?thesis by (auto simp: only_schedules_def schedules_ok_def own'(1))
qed

lemma delete_only_schedules:
  assumes "delete_ownership_schedule who i own = Inr own'"
  shows "only_schedules own own'"
proof -
  from assms obtain d where "find_campaign_schedule own (p_tenant_id who) i = Some d"
    and own': "own' = own\<lparr>own_schedules := filter (\<lambda>x. osched_id x \<noteq> osched_id d) (own_schedules own)\<rparr>"
    by (auto simp: delete_ownership_schedule_def result_simps split: option.splits)
  have "y = x" if "schedules_ok own" "find_campaign_schedule own t sid = Some x" "find_campaign_schedule own' t sid = Some y" for t sid x y
  proof -
    from that(2,3) have "x \<in> set (own_schedules own)" "y \<in> set (own_schedules own)" "osched_key x = osched_key y"
      by (auto simp: find_campaign_schedule_def own' osched_key_def dest!: scalar_Some)
    with that(1) show ?thesis using unique_key_eq[of osched_key "own_schedules own" x y] by (simp add: schedules_ok_def)
  qed
  then have "schedules_ok own \<longrightarrow> (\<forall>t sid x y. find_campaign_schedule own t sid = Some x \<longrightarrow>
      find_campaign_schedule own' t sid = Some y \<longrightarrow> osched_ident y = osched_ident x)"
    by blast
  moreover have "schedules_ok own \<longrightarrow> schedules_ok own'"
    by (simp add: schedules_ok_def own' unique_key_filter)
  ultimately show ?thesis by (simp add: only_schedules_def own')
qed

lemma update_only_schedules:
  assumes "update_ownership_schedule env zones who i u (db, own) = Inr (s', d)" and "unique_key osched_id (own_schedules own)"
  shows "only_schedules own (snd s')"
proof -
  from assms(1) obtain s scope policy windows ids nx where f: "find_campaign_schedule own (p_tenant_id who) i = Some s"
    and s': "s' = (db, own\<lparr>own_schedules := update_rows (\<lambda>x. osched_id x = osched_id s)
       (\<lambda>x. (changed_campaign_schedule u scope policy s)\<lparr>osched_next_run_at := nx, osched_maintenance_windows_json := windows,
              osched_notification_endpoint_ids_json := ids, osched_updated_at := env_now env\<rparr>) (own_schedules own)\<rparr>)"
    by (auto simp: update_ownership_schedule_def result_simps bad_request_Inr Let_def split: option.splits)
  have "s \<in> set (own_schedules own)" using f by (auto simp: find_campaign_schedule_def dest!: scalar_Some)
  then have same: "x = s" if "x \<in> set (own_schedules own)" "osched_id x = osched_id s" for x
    using that unique_key_eq[OF assms(2)] by blast
  have "osched_ident ((changed_campaign_schedule u scope policy s)\<lparr>osched_next_run_at := nx, osched_maintenance_windows_json := windows,
      osched_notification_endpoint_ids_json := ids, osched_updated_at := env_now env\<rparr>) = osched_ident s"
    by (simp add: osched_ident_def osched_key_def changed_campaign_schedule_def)
  then show ?thesis
    by (intro only_schedules_ident) (auto simp: s' dest: same intro!: update_ident)
qed

lemma queued_only_schedules:
  assumes "enqueue_due_ownership_campaigns env zones registry uuids limit (db, own) = (s', r)"
  shows "only_schedules own (snd s')"
proof -
  have one: "map osched_ident (own_schedules (snd st')) = map osched_ident (own_schedules (snd st)) \<and>
      own_campaigns (snd st') = own_campaigns (snd st) \<and> own_assignments (snd st') = own_assignments (snd st)"
    if "enqueue_campaign_schedule env zones registry uuid row st = (st', ok)" for uuid row st st' ok
    using that
    by (auto simp: enqueue_campaign_schedule_def Let_def osched_ident_def osched_key_def split: prod.splits sum.splits if_splits
        intro!: update_ident)
  have loop: "map osched_ident (own_schedules (snd st')) = map osched_ident (own_schedules (snd st)) \<and>
      own_campaigns (snd st') = own_campaigns (snd st) \<and> own_assignments (snd st') = own_assignments (snd st)"
    if "enqueue_campaign_loop env zones registry uuids fresh n rows st = (st', ok)" for fresh n rows st st' ok
    using that
  proof (induction rows arbitrary: fresh n st)
    case (Cons x xs)
    obtain st1 r1 where e: "enqueue_campaign_schedule env zones registry (uuids n)
        (if fresh then Inr x else campaign_row_by_id (osched_id x) (snd st)) st = (st1, r1)" by fastforce
    from one[OF e] Cons.IH[of False _ st1] Cons.prems e show ?case by (cases r1) auto
  qed simp
  from assms loop[of True 0 _ "(db, own)"] show ?thesis
    by (intro only_schedules_ident) (simp_all add: enqueue_due_ownership_campaigns_def)
qed

text \<open>An execution is at most the creation of a campaign and its launch.\<close>

lemma executed_steps:
  assumes "execute_scheduled_campaign env registry uuid uuids us t sid stamp (db, own) = (s', r)"
  shows "(own_step registry)\<^sup>*\<^sup>* (db, own) s'"
proof -
  have launch: "(own_step registry)\<^sup>*\<^sup>* (db, st_own) s''"
    if "(case launch_campaign env registry uuids us c m (db, st_own) of
           Inl e \<Rightarrow> ((db, st_own), Inl e) | Inr (st', c', n) \<Rightarrow> (st', Inr (c', n, known))) = (s'', r'')"
      "c \<in> set (own_campaigns st_own)" for st_own c m known s'' and r'' :: "(ownership_campaign \<times> nat \<times> bool) result"
    using that by (auto split: sum.splits prod.splits intro: CampaignLaunched)
  show ?thesis
  proof (cases "find_campaign_schedule own t sid")
    case None
    with assms show ?thesis by (simp add: execute_scheduled_campaign_def)
  next
    case (Some s)
    let ?name = "scheduled_name s stamp"
    show ?thesis
    proof (cases "existing_campaign own t (osched_schedule_id s) ?name")
      case (Some c)
      then have "c \<in> set (own_campaigns own)" by (auto simp: existing_campaign_def dest!: scalar_Some)
      with assms Some \<open>find_campaign_schedule own t sid = Some s\<close> launch[where c = c and st_own = own] show ?thesis
        by (simp add: execute_scheduled_campaign_def Let_def split: if_splits)
    next
      case None
      let ?create = "create_campaign env uuid t ?name (osched_description s) (scope_doc (osched_scope_json s))
        (env_now env + td_days (osched_due_days s)) (''ownership-schedule:'' @ osched_schedule_id s)
        (Some (osched_schedule_id s)) (osched_notification_endpoint_ids_json s) (osched_escalation_policy_id s) own"
      show ?thesis
      proof (cases ?create)
        case (Inl e)
        with assms None Some show ?thesis by (simp add: execute_scheduled_campaign_def Let_def)
      next
        case (Inr x)
        obtain own1 c where x: "x = (own1, c)" by fastforce
        from Inr have "own_step registry (db, own) (db, own1)" unfolding x by (rule CampaignCreated)
        moreover have "c \<in> set (own_campaigns own1)" using Inr unfolding x by (auto elim!: create_campaign_Inr)
        ultimately show ?thesis
          using assms None Some Inr launch[where c = c and st_own = own1]
          by (simp add: x execute_scheduled_campaign_def Let_def) (rule converse_rtranclp_into_rtranclp)
      qed
    qed
  qed
qed

text \<open>What an executed occurrence and its schedule keep through the operations.\<close>

definition occurrence_kept :: "ownership_campaign \<Rightarrow> nat \<Rightarrow> ownership \<Rightarrow> bool" where
  "occurrence_kept c n own \<longleftrightarrow> own_ok own \<and> named_ok own \<and> schedules_ok own \<and> launched_as c n own"

lemma own_steps_kept:
  assumes "(own_step registry)\<^sup>*\<^sup>* s s'" and "occurrence_kept c n (snd s)"
  shows "occurrence_kept c n (snd s') \<and> own_schedules (snd s') = own_schedules (snd s)"
proof -
  have ok: "own_ok (snd s)" and l: "launched_as c n (snd s)" and rest: "named_ok (snd s)" "schedules_ok (snd s)"
    using assms(2) by (simp_all add: occurrence_kept_def)
  have "own_ok (snd s')" "launched_as c n (snd s')" "names_kept (snd s) (snd s')"
    by (rule own_steps_ok[OF assms(1) ok] own_steps_launched[OF assms(1) ok l] own_steps_names[OF assms(1) ok])+
  with rest show ?thesis by (simp add: occurrence_kept_def names_kept_def schedules_ok_def)
qed

lemma only_schedules_kept: "only_schedules own own' \<Longrightarrow> occurrence_kept c n own \<Longrightarrow> occurrence_kept c n own'"
  using own_ok_same[of own' own] by (simp add: only_schedules_def occurrence_kept_def named_ok_def launched_as_def)

lemma schedule_step_kept:
  assumes "schedule_step registry s s'" and "occurrence_kept c n (snd s)"
  shows "occurrence_kept c n (snd s') \<and>
    (\<forall>t sid x y. find_campaign_schedule (snd s) t sid = Some x \<longrightarrow> find_campaign_schedule (snd s') t sid = Some y \<longrightarrow>
       osched_ident y = osched_ident x)"
proof -
  have "only_schedules (snd s) (snd s') \<or> (own_step registry)\<^sup>*\<^sup>* s s'"
    using assms
  proof (induction rule: schedule_step.induct)
    case (ScheduleCreated env zones uuid who r db own s' d)
    then obtain own' x where "create_campaign_schedule env zones uuid (p_tenant_id who) r (p_subject who) (db, own) = Inr (own', x)"
      "snd s' = own'"
      by (auto simp: create_ownership_schedule_def result_simps bad_request_Inr conflict_on_integrity_def split: sum.splits py_error.splits if_splits)
    from create_only_schedules[OF this(1)] this(2) show ?case by simp
  next
    case (ScheduleUpdated env zones who sid u db own s' d)
    then show ?case using update_only_schedules by (simp add: occurrence_kept_def schedules_ok_def)
  next
    case (SchedulesQueued env zones uuids limit db own s' r)
    then show ?case using queued_only_schedules by simp
  next
    case (ScheduleExecuted env uuid uuids' us t sid stamp db own s' r')
    then show ?case using executed_steps by blast
  qed (auto dest: delete_only_schedules)
  then show ?thesis
  proof
    assume o: "only_schedules (snd s) (snd s')"
    with only_schedules_kept[OF o assms(2)] assms(2) show ?thesis by (auto simp: only_schedules_def occurrence_kept_def)
  next
    assume "(own_step registry)\<^sup>*\<^sup>* s s'"
    from own_steps_kept[OF this assms(2)] show ?thesis by (auto simp: find_campaign_schedule_def)
  qed
qed

text \<open>
  C18: A scheduled occurrence is executed once: when its execution has returned a campaign with its assignments, executing it
  again, with any identifiers and at any later time, returns the same campaign and the same number of assignments, reports it
  as known and changes nothing, whatever operations on campaigns and schedules ran in between, as long as the schedule exists.
  Once the schedule is deleted, an execution raises and changes nothing.\<close>

theorem scheduled_campaign_once:
  assumes "own_ok own" and "named_ok own" and "schedules_ok own"
    and "execute_scheduled_campaign env registry uuid uuids us t sid stamp (db, own) = (s1, Inr (c, n, known))"
    and "(\<lambda>s s'. schedule_step registry s s' \<and> find_campaign_schedule (snd s') t sid \<noteq> None)\<^sup>*\<^sup>* s1 s2"
  shows "(\<exists>c'. execute_scheduled_campaign env' registry uuid' uuids' us' t sid stamp s2 = (s2, Inr (c', n, True)) \<and>
            camp_campaign_id c' = camp_campaign_id c \<and> camp_status c' \<noteq> CampDraft) \<and>
         (schedule_step registry s2 s3 \<and> find_campaign_schedule (snd s3) t sid = None \<longrightarrow>
            execute_scheduled_campaign env' registry uuid' uuids' us' t sid stamp s3 =
              (s3, Inl (ValueError ''Ownership campaign schedule not found'')))"
proof (intro conjI impI)
  from assms(4) obtain sched where f: "find_campaign_schedule own t sid = Some sched"
    by (auto simp: execute_scheduled_campaign_def split: option.splits)
  note x = executed[OF assms(4,1) f]
  let ?kept = "\<lambda>s. occurrence_kept c n (snd s) \<and>
      (\<exists>y. find_campaign_schedule (snd s) t sid = Some y \<and> osched_ident y = osched_ident sched)"
  have "?kept s1"
    using x f assms(2,3) by (simp add: occurrence_kept_def names_kept_def schedules_ok_def find_campaign_schedule_def)
  with assms(5) have "?kept s2"
  proof (induction rule: rtranclp_induct)
    case (step s s')
    then obtain y z where y: "occurrence_kept c n (snd s)" "find_campaign_schedule (snd s) t sid = Some y"
      "osched_ident y = osched_ident sched" "find_campaign_schedule (snd s') t sid = Some z"
      by auto
    with schedule_step_kept[of registry s s' c n] step(2) show ?case by metis
  qed
  then obtain sched2 where k2: "occurrence_kept c n (snd s2)" and f2: "find_campaign_schedule (snd s2) t sid = Some sched2"
    and i: "osched_schedule_id sched2 = osched_schedule_id sched" "osched_name sched2 = osched_name sched"
    by (auto simp: osched_ident_def osched_key_def)
  have name: "scheduled_name sched2 stamp = scheduled_name sched stamp" by (simp add: scheduled_name_def i)
  from k2 obtain y where y: "y \<in> set (own_campaigns (snd s2))" "same_identity_of c y" "camp_status y \<noteq> CampDraft"
    and n: "length (filter (\<lambda>a. asg_camp a = camp_key c) (own_assignments (snd s2))) = n"
    by (auto simp: occurrence_kept_def launched_as_def)
  have k: "camp_tenant_id y = t" "camp_campaign_id y = camp_campaign_id c" "camp_name y = scheduled_name sched stamp"
    "camp_source_schedule_id y = Some (osched_schedule_id sched)" "camp_key c = (t, camp_campaign_id y)"
    using y(2) x by (auto simp: same_identity_of_def camp_key_def)
  have "existing_campaign (snd s2) t (osched_schedule_id sched) (scheduled_name sched stamp) = Some y"
    unfolding existing_campaign_def
    by (rule scalar_unique[of camp_named]) (use k2 y k in \<open>auto simp: occurrence_kept_def named_ok_def camp_named_def\<close>)
  then have "execute_scheduled_campaign env' registry uuid' uuids' us' t sid stamp s2 = (s2, Inr (y, n, True))"
    using f2 y(3) n k(5) by (cases s2) (simp add: execute_scheduled_campaign_def Let_def total_count_length i name)
  with k y show "\<exists>c'. execute_scheduled_campaign env' registry uuid' uuids' us' t sid stamp s2 = (s2, Inr (c', n, True)) \<and>
      camp_campaign_id c' = camp_campaign_id c \<and> camp_status c' \<noteq> CampDraft" by blast
next
  assume "schedule_step registry s2 s3 \<and> find_campaign_schedule (snd s3) t sid = None"
  then show "execute_scheduled_campaign env' registry uuid' uuids' us' t sid stamp s3 =
      (s3, Inl (ValueError ''Ownership campaign schedule not found''))"
    by (cases s3) (simp add: execute_scheduled_campaign_def)
qed

section \<open>A concrete occurrence\<close>

definition weekly :: ownership_schedule where
  "weekly = \<lparr>osched_id = 1, osched_tenant_id = ''default'', osched_schedule_id = ''s1'', osched_name = ''Weekly'', osched_description = [],
     osched_scope_json = [(''business_domain'', [''Finance''])], osched_due_days = 14, osched_max_assets = 10,
     osched_schedule_type = ''interval'', osched_interval_seconds = 604800, osched_cron_expression = None, osched_timezone = ''UTC'',
     osched_maintenance_windows_json = [], osched_escalation_policy_id = None, osched_notification_endpoint_ids_json = [],
     osched_enabled = True, osched_next_run_at = 0, osched_last_enqueued_at = None, osched_created_by = ''ada'', osched_created_at = 0,
     osched_updated_at = 0\<rparr>"

definition weekly_own :: ownership where
  "weekly_own = empty_ownership\<lparr>own_schedules := [weekly]\<rparr>"

definition weekly_campaign :: ownership_campaign where
  "weekly_campaign = new_campaign base_env ''c9'' ''default'' (scheduled_name weekly ''2026-01-05T00:00:00'') []
     [(''business_domain'', [''Finance''])] (env_now base_env + td_days 14) ''ownership-schedule:s1'' (Some ''s1'') [] None weekly_own"

lemma weekly_stamp: "run_stamp ''2026-01-05T00:00:00+00:00'' = ''20260105T000000''"
  by code_simp

lemma weekly_created:
  "create_campaign base_env ''c9'' ''default'' (scheduled_name weekly ''2026-01-05T00:00:00'') []
     (scope_doc [(''business_domain'', [''Finance''])]) (env_now base_env + td_days 14) ''ownership-schedule:s1'' (Some ''s1'') [] None
     weekly_own = Inr (weekly_own\<lparr>own_campaigns := [weekly_campaign]\<rparr>, weekly_campaign)"
  by code_simp

lemma weekly_executed:
  "\<exists>s1 c. execute_scheduled_campaign base_env [] ''c9'' (\<lambda>n. ''a1'') (\<lambda>n. (''d'', ''j'')) ''default'' ''s1'' ''2026-01-05T00:00:00''
     (own_db, weekly_own) = (s1, Inr (c, 1, False)) \<and> camp_campaign_id c = ''c9''"
proof -
  have a: "campaign_assets weekly_campaign 10 own_db = [sample_asset ''Confidential'' ''Finance'']" by code_simp
  have c: "camp_status weekly_campaign = CampDraft" "env_now base_env < camp_due_at weekly_campaign" "camp_campaign_id weekly_campaign = ''c9''"
    by (simp_all add: weekly_campaign_def new_campaign_def td_days_def td_seconds_def)
  have e: "own_assignments weekly_own = []" by (simp add: weekly_own_def empty_ownership_def)
  have l: "launch_campaign base_env [] (\<lambda>n. ''a1'') (\<lambda>n. (''d'', ''j'')) weekly_campaign 10
      (own_db, weekly_own\<lparr>own_campaigns := [weekly_campaign]\<rparr>) = Inr (s, launched_campaign (env_now base_env) weekly_campaign, 1)"
    if "s = (queue_campaign_event base_env [] (\<lambda>n. (''d'', ''j'')) (launched_campaign (env_now base_env) weekly_campaign)
              ''ownership.campaign.launched'' own_db,
            update_campaigns (\<lambda>x. camp_id x = camp_id weekly_campaign) (\<lambda>x. launched_campaign (env_now base_env) weekly_campaign)
              (weekly_own\<lparr>own_campaigns := [weekly_campaign], own_assignments := new_assignments base_env (\<lambda>n. ''a1'') weekly_campaign
                 [sample_asset ''Confidential'' ''Finance''] (weekly_own\<lparr>own_campaigns := [weekly_campaign]\<rparr>)\<rparr>))" for s
    using c that by (simp add: launch_campaign_def a assignments_unique_def e new_assignments_def Let_def)
  have "find_campaign_schedule weekly_own ''default'' ''s1'' = Some weekly"
    by (simp add: find_campaign_schedule_def weekly_own_def weekly_def scalar_Cons)
  moreover have "existing_campaign weekly_own t i nm = None" for t i nm
    by (simp add: existing_campaign_def weekly_own_def empty_ownership_def)
  moreover have w: "osched_description weekly = []" "osched_scope_json weekly = [(''business_domain'', [''Finance''])]"
    "osched_due_days weekly = 14" "osched_schedule_id weekly = ''s1''" "osched_notification_endpoint_ids_json weekly = []"
    "osched_escalation_policy_id weekly = None" "osched_max_assets weekly = 10"
    by (simp_all add: weekly_def)
  ultimately show ?thesis
    using l[OF refl] c(3) weekly_created by (simp add: execute_scheduled_campaign_def Let_def launched_campaign_def)
qed

text \<open>The occurrence is executed, executed again, and once more after its schedule was deleted.\<close>

theorem scheduled_campaign_once_witness:
  "\<exists>s1 s3 c c'. execute_scheduled_campaign base_env [] ''c9'' (\<lambda>n. ''a1'') (\<lambda>n. (''d'', ''j'')) ''default'' ''s1'' ''2026-01-05T00:00:00''
       (own_db, weekly_own) = (s1, Inr (c, 1, False)) \<and>
     execute_scheduled_campaign (base_env\<lparr>env_now := 2000000000\<rparr>) [] ''c10'' (\<lambda>n. ''a2'') (\<lambda>n. (''d'', ''j'')) ''default'' ''s1''
       ''2026-01-05T00:00:00'' s1 = (s1, Inr (c', 1, True)) \<and> camp_campaign_id c' = ''c9'' \<and>
     schedule_step [] s1 s3 \<and>
     execute_scheduled_campaign (base_env\<lparr>env_now := 2000000000\<rparr>) [] ''c10'' (\<lambda>n. ''a2'') (\<lambda>n. (''d'', ''j'')) ''default'' ''s1''
       ''2026-01-05T00:00:00'' s3 = (s3, Inl (ValueError ''Ownership campaign schedule not found''))"
proof -
  obtain s1 c where r: "execute_scheduled_campaign base_env [] ''c9'' (\<lambda>n. ''a1'') (\<lambda>n. (''d'', ''j'')) ''default'' ''s1''
     ''2026-01-05T00:00:00'' (own_db, weekly_own) = (s1, Inr (c, 1, False))" and c: "camp_campaign_id c = ''c9''"
    using weekly_executed by blast
  have ok: "own_ok weekly_own" "named_ok weekly_own" "schedules_ok weekly_own"
    by (simp_all add: weekly_own_def empty_ownership_def own_ok_def own_keys_def named_ok_def schedules_ok_def unique_key_def)
  have w: "osched_tenant_id weekly = ''default''" "osched_schedule_id weekly = ''s1''" by (simp_all add: weekly_def)
  have f: "find_campaign_schedule weekly_own ''default'' ''s1'' = Some weekly"
    by (simp add: find_campaign_schedule_def weekly_own_def scalar_Cons w)
  have rows: "own_schedules (snd s1) = [weekly]"
    using executed[OF r ok(1) f] by (simp add: names_kept_def weekly_own_def)
  define s3 where "s3 = (fst s1, snd s1\<lparr>own_schedules := []\<rparr>)"
  have "p_tenant_id sample_owner = ''default''" "p_role sample_owner = DataOwner" by (simp_all add: sample_owner_def)
  then have "delete_ownership_schedule sample_owner ''s1'' (snd s1) = Inr (snd s1\<lparr>own_schedules := []\<rparr>)"
    by (simp add: delete_ownership_schedule_def require_role_Inr rbind_Inr_iff find_campaign_schedule_def rows scalar_Cons w)
  then have d: "schedule_step [] s1 s3" unfolding s3_def by (metis ScheduleDeleted prod.collapse)
  moreover have "find_campaign_schedule (snd s3) ''default'' ''s1'' = None"
    by (simp add: s3_def find_campaign_schedule_def)
  ultimately show ?thesis
    using scheduled_campaign_once[OF ok r rtranclp.rtrancl_refl, of "base_env\<lparr>env_now := 2000000000\<rparr>" "''c10''" "\<lambda>n. ''a2''"
        "\<lambda>n. (''d'', ''j'')" s3] r c
    by metis
qed

end
