(* ===== verification/AiLineage.thy ===== *)
theory AiLineage
  imports ServiceAccounts Graph Outbox RuntimePolicy
begin

text \<open>
  \<open>app/services/ai_resources.py\<close> with its routes in \<open>app/v18.py\<close>: the register of AI resources, the relationships declared
  or observed between them, and the edge of the graph that mirrors each relationship. Relationships and observations are
  the record \<open>ai_lineage\<close>, kept beside the tables of \<open>db\<close>; an operation reads the clock once. A relationship is identified
  by its two ends and its name, the \<open>edge_key\<close> of \<open>Graph\<close>.
\<close>

section \<open>Tables\<close>

record ai_relationship =
  rel_id :: nat
  rel_tenant_id :: string
  rel_relationship_id :: string
  rel_source_type :: string
  rel_source_id :: string
  rel_relationship :: string
  rel_target_type :: string
  rel_target_id :: string
  rel_expected :: bool
  rel_status :: string
  rel_observation_count :: nat
  rel_metadata_json :: json
  rel_first_observed_at :: "time option"
  rel_last_observed_at :: "time option"
  rel_created_by :: string
  rel_created_at :: time
  rel_updated_at :: time

record lineage_observation =
  obs_id :: nat
  obs_tenant_id :: string
  obs_event_id :: string
  obs_relationship_id :: string
  obs_source_type :: string
  obs_source_id :: string
  obs_relationship :: string
  obs_target_type :: string
  obs_target_id :: string
  obs_drift_detected :: bool
  obs_metadata_json :: json
  obs_observed_at :: time
  obs_recorded_at :: time

record ai_lineage =
  ail_relationships :: "ai_relationship list"
  ail_observations :: "lineage_observation list"

type_synonym ai_state = "db \<times> ai_lineage"

definition rel_key :: "ai_relationship \<Rightarrow> edge_key" where
  "rel_key r = ((rel_source_type r, rel_source_id r), rel_relationship r, (rel_target_type r, rel_target_id r))"

definition obs_key :: "lineage_observation \<Rightarrow> edge_key" where
  "obs_key o' = ((obs_source_type o', obs_source_id o'), obs_relationship o', (obs_target_type o', obs_target_id o'))"

section \<open>Metadata\<close>

definition FORBIDDEN_METADATA_KEYS :: "string list" where
  "FORBIDDEN_METADATA_KEYS =
     [''authorization'', ''credential'', ''credentials'', ''password'', ''prompt'', ''response'', ''secret'', ''token'']"

definition normalized_key :: "string \<Rightarrow> string" where
  "normalized_key k = map (\<lambda>c. if c = CHR ''-'' then CHR ''_'' else c) (py_lower k)"

fun inspect_metadata :: "string list \<Rightarrow> json \<Rightarrow> unit result" where
  "inspect_metadata path (JObj d) =
     rforall (\<lambda>(k, v).
       rbind (raise_if (normalized_key k \<in> set FORBIDDEN_METADATA_KEYS)
                (ValueError (''AI resource metadata cannot include '' @ join ''.'' (path @ [k])))) (\<lambda>_.
       inspect_metadata (path @ [k]) v)) d"
| "inspect_metadata path (JList xs) =
     rbind (raise_if (length xs > 1000) (ValueError ''AI resource metadata list is too large'')) (\<lambda>_.
     rforall (inspect_metadata path) xs)"
| "inspect_metadata path (JStr s) = raise_if (length s > 2000) (ValueError ''AI resource metadata value is too large'')"
| "inspect_metadata path _ = Inr ()"

text \<open>The answer is the document that the stored text, written with sorted keys, parses to.\<close>

definition bounded_metadata :: "env \<Rightarrow> json \<Rightarrow> json result" where
  "bounded_metadata env v =
     rbind (raise_if (\<not> is_jobj v) (ValueError ''AI resource metadata must be an object'')) (\<lambda>_.
     rbind (raise_if (int (length (canonical_json (env_frepr env) v)) > 32768) (ValueError ''AI resource metadata exceeds 32 KiB'')) (\<lambda>_.
     rbind (inspect_metadata [] v) (\<lambda>_. Inr (sort_keys v))))"

section \<open>The register of resources\<close>

record resource_create =
  rc_resource_key :: string
  rc_resource_type :: string
  rc_name :: string
  rc_owner :: string
  rc_provider :: string
  rc_region :: string
  rc_status :: resource_state
  rc_risk_tier :: string
  rc_metadata :: json

definition AI_RESOURCE_TYPES :: "string list" where
  "AI_RESOURCE_TYPES = [''model'', ''prompt'', ''vector-index'', ''tool'', ''endpoint'', ''ai-system'']"

definition RISK_TIERS :: "string list" where
  "RISK_TIERS = [''low'', ''medium'', ''high'', ''critical'']"

definition resource_create_ok :: "resource_create \<Rightarrow> bool" where
  "resource_create_ok v =
     (field_length 1 320 (rc_resource_key v) \<and> rc_resource_type v \<in> set AI_RESOURCE_TYPES \<and> field_length 1 240 (rc_name v) \<and>
      field_length 1 320 (rc_owner v) \<and> field_length 0 160 (rc_provider v) \<and> field_length 0 120 (rc_region v) \<and>
      rc_risk_tier v \<in> set RISK_TIERS \<and> is_jobj (rc_metadata v))"

definition new_resource :: "env \<Rightarrow> db \<Rightarrow> string \<Rightarrow> resource_create \<Rightarrow> string \<Rightarrow> json \<Rightarrow> ai_resource" where
  "new_resource env db tenant_id v created_by metadata =
     \<lparr>res_id = next_id res_id (db_resources db), res_tenant_id = tenant_id, res_resource_key = rc_resource_key v,
      res_resource_type = rc_resource_type v, res_name = rc_name v, res_owner = rc_owner v, res_provider = rc_provider v,
      res_region = rc_region v, res_status = rc_status v, res_risk_tier = rc_risk_tier v, res_metadata_json = metadata,
      res_created_by = created_by, res_created_at = env_now env, res_updated_at = env_now env\<rparr>"

definition create_ai_resource :: "env \<Rightarrow> string \<Rightarrow> resource_create \<Rightarrow> string \<Rightarrow> db \<Rightarrow> (db \<times> ai_resource) result" where
  "create_ai_resource env tenant_id v created_by db =
     rbind (bounded_metadata env (rc_metadata v)) (\<lambda>metadata.
     let r = new_resource env db tenant_id v created_by metadata in
     rbind (raise_if (list_ex (\<lambda>x. res_tenant_id x = tenant_id \<and> res_resource_key x = res_resource_key r) (db_resources db))
              (OtherError ''IntegrityError'')) (\<lambda>_.
     Inr (db\<lparr>db_resources := db_resources db @ [r]\<rparr>, r)))"

record resource_update =
  ru_name :: "string option"
  ru_owner :: "string option"
  ru_provider :: "string option"
  ru_region :: "string option"
  ru_status :: "resource_state option"
  ru_risk_tier :: "string option"
  ru_metadata :: "json option"

definition resource_update_ok :: "resource_update \<Rightarrow> bool" where
  "resource_update_ok u =
     (opt_field 1 240 (ru_name u) \<and> opt_field 1 320 (ru_owner u) \<and> opt_field 0 160 (ru_provider u) \<and> opt_field 0 120 (ru_region u) \<and>
      (case ru_risk_tier u of None \<Rightarrow> True | Some t \<Rightarrow> t \<in> set RISK_TIERS) \<and>
      (case ru_metadata u of None \<Rightarrow> True | Some v \<Rightarrow> is_jobj v))"

definition changed :: "'a option \<Rightarrow> 'a \<Rightarrow> 'a" where
  "changed v old = (case v of None \<Rightarrow> old | Some x \<Rightarrow> x)"

definition updated_resource :: "time \<Rightarrow> resource_update \<Rightarrow> json option \<Rightarrow> ai_resource \<Rightarrow> ai_resource" where
  "updated_resource now u metadata r =
     r\<lparr>res_name := changed (ru_name u) (res_name r), res_owner := changed (ru_owner u) (res_owner r),
       res_provider := changed (ru_provider u) (res_provider r), res_region := changed (ru_region u) (res_region r),
       res_status := changed (ru_status u) (res_status r), res_risk_tier := changed (ru_risk_tier u) (res_risk_tier r),
       res_metadata_json := changed metadata (res_metadata_json r), res_updated_at := now\<rparr>"

definition update_ai_resource :: "env \<Rightarrow> ai_resource \<Rightarrow> resource_update \<Rightarrow> db \<Rightarrow> (db \<times> ai_resource) result" where
  "update_ai_resource env r u db =
     rbind (case ru_metadata u of None \<Rightarrow> Inr None | Some v \<Rightarrow> rbind (bounded_metadata env v) (\<lambda>m. Inr (Some m))) (\<lambda>metadata.
     let r' = updated_resource (env_now env) u metadata r in
     Inr (db\<lparr>db_resources := update_rows (\<lambda>x. res_id x = res_id r) (\<lambda>_. r') (db_resources db)\<rparr>, r'))"

definition resource_status_str :: "resource_state \<Rightarrow> string" where
  "resource_status_str s = (case s of ResDraft \<Rightarrow> ''draft'' | ResReview \<Rightarrow> ''review'' | ResApproved \<Rightarrow> ''approved'' | ResDisabled \<Rightarrow> ''disabled'')"

definition ai_resource_response :: "env \<Rightarrow> ai_resource \<Rightarrow> dict" where
  "ai_resource_response env r =
     [(''resource_key'', JStr (res_resource_key r)), (''resource_type'', JStr (res_resource_type r)), (''name'', JStr (res_name r)),
      (''owner'', JStr (res_owner r)), (''provider'', JStr (res_provider r)), (''region'', JStr (res_region r)),
      (''status'', JStr (resource_status_str (res_status r))), (''risk_tier'', JStr (res_risk_tier r)),
      (''metadata'', res_metadata_json r), (''created_by'', JStr (res_created_by r)),
      (''created_at'', jtime env (res_created_at r)), (''updated_at'', jtime env (res_updated_at r))]"

section \<open>References\<close>

definition REFERENCE_TYPES :: "string list" where
  "REFERENCE_TYPES = AI_RESOURCE_TYPES @ [''agent'', ''asset'', ''data_asset'', ''dataset'']"

definition names_asset :: "string \<Rightarrow> data_asset \<Rightarrow> bool" where
  "names_asset reference_id a =
     (asset_external_id a = reference_id \<or>
      (case py_int_of_string reference_id of None \<Rightarrow> False | Some n \<Rightarrow> int (asset_id a) = n))"

definition validate_reference :: "db \<Rightarrow> string \<Rightarrow> node \<Rightarrow> unit result" where
  "validate_reference db tenant_id n = (case n of (reference_type, reference_id) \<Rightarrow>
     rbind (raise_if (reference_type \<notin> set REFERENCE_TYPES) (ValueError ''AI lineage reference type is unsupported'')) (\<lambda>_.
     if reference_type \<in> set AI_RESOURCE_TYPES
     then raise_if (scalar (\<lambda>r. res_tenant_id r = tenant_id \<and> res_resource_type r = reference_type \<and>
            res_resource_key r = reference_id) (db_resources db) = None) (ValueError ''AI lineage resource is not registered'')
     else if reference_type = ''agent''
     then raise_if (scalar (\<lambda>a. agent_tenant_id a = tenant_id \<and> agent_key a = reference_id) (db_agents db) = None)
            (ValueError ''AI lineage agent is not registered'')
     else if reference_type \<in> {''asset'', ''data_asset''}
     then raise_if (scalar (\<lambda>a. asset_tenant_id a = tenant_id \<and> names_asset reference_id a) (db_assets db) = None)
            (ValueError ''AI lineage data asset is not registered'')
     else Inr ()))"

section \<open>Relationships\<close>

definition relationship_of :: "string \<Rightarrow> edge_key \<Rightarrow> ai_relationship \<Rightarrow> bool" where
  "relationship_of tenant_id k r = (rel_tenant_id r = tenant_id \<and> rel_key r = k)"

definition find_relationship :: "ai_lineage \<Rightarrow> string \<Rightarrow> edge_key \<Rightarrow> ai_relationship option" where
  "find_relationship ail tenant_id k = scalar (relationship_of tenant_id k) (ail_relationships ail)"

definition new_relationship ::
  "env \<Rightarrow> string \<Rightarrow> ai_lineage \<Rightarrow> string \<Rightarrow> edge_key \<Rightarrow> bool \<Rightarrow> json \<Rightarrow> string \<Rightarrow> ai_relationship" where
  "new_relationship env uuid ail tenant_id k expected metadata created_by = (case k of (src, rel, tgt) \<Rightarrow>
     \<lparr>rel_id = next_id rel_id (ail_relationships ail), rel_tenant_id = tenant_id, rel_relationship_id = uuid,
      rel_source_type = fst src, rel_source_id = snd src, rel_relationship = rel, rel_target_type = fst tgt,
      rel_target_id = snd tgt, rel_expected = expected, rel_status = ''active'', rel_observation_count = 0,
      rel_metadata_json = metadata, rel_first_observed_at = None, rel_last_observed_at = None, rel_created_by = created_by,
      rel_created_at = env_now env, rel_updated_at = env_now env\<rparr>)"

text \<open>Inserting a relationship: its identifier is unique in the tenant.\<close>

definition insert_relationship :: "ai_relationship \<Rightarrow> ai_lineage \<Rightarrow> ai_lineage result" where
  "insert_relationship r ail =
     rbind (raise_if (list_ex (\<lambda>x. rel_tenant_id x = rel_tenant_id r \<and>
              (rel_key x = rel_key r \<or> rel_relationship_id x = rel_relationship_id r)) (ail_relationships ail))
              (OtherError ''IntegrityError'')) (\<lambda>_.
     Inr (ail\<lparr>ail_relationships := ail_relationships ail @ [r]\<rparr>))"

definition replace_relationship :: "ai_relationship \<Rightarrow> ai_lineage \<Rightarrow> ai_lineage" where
  "replace_relationship r ail = ail\<lparr>ail_relationships := update_rows (\<lambda>x. rel_id x = rel_id r) (\<lambda>_. r) (ail_relationships ail)\<rparr>"

definition edge_mirror :: "(time \<Rightarrow> string) \<Rightarrow> ai_relationship \<Rightarrow> json" where
  "edge_mirror fmt r = sort_keys (JObj
     [(''relationship_id'', JStr (rel_relationship_id r)), (''expected'', JBool (rel_expected r)), (''status'', JStr (rel_status r)),
      (''observation_count'', JInt (int (rel_observation_count r))),
      (''first_observed_at'', jopt (\<lambda>t. JStr (fmt t)) (rel_first_observed_at r)),
      (''last_observed_at'', jopt (\<lambda>t. JStr (fmt t)) (rel_last_observed_at r))])"

definition sync_graph_edge :: "env \<Rightarrow> ai_relationship \<Rightarrow> db \<Rightarrow> db" where
  "sync_graph_edge env r db =
     (case scalar (\<lambda>e. edge_tenant_id e = rel_tenant_id r \<and> edge_key e = rel_key r) (db_edges db) of
        Some e \<Rightarrow> db\<lparr>db_edges := update_rows (\<lambda>x. edge_id x = edge_id e) (\<lambda>x. x\<lparr>edge_metadata_json := edge_mirror (env_isoformat env) r\<rparr>) (db_edges db)\<rparr>
      | None \<Rightarrow> db\<lparr>db_edges := db_edges db @
          [new_edge env (rel_tenant_id r) (next_id edge_id (db_edges db)) (rel_key r, edge_mirror (env_isoformat env) r)]\<rparr>)"

definition declare_relationship ::
  "env \<Rightarrow> string \<Rightarrow> string \<Rightarrow> edge_key \<Rightarrow> bool \<Rightarrow> json \<Rightarrow> string \<Rightarrow> ai_state \<Rightarrow> (ai_state \<times> ai_relationship \<times> bool) result" where
  "declare_relationship env uuid tenant_id k expected metadata created_by s = (case s of (db, ail) \<Rightarrow>
     rbind (validate_reference db tenant_id (fst k)) (\<lambda>_.
     rbind (validate_reference db tenant_id (snd (snd k))) (\<lambda>_.
     rbind (bounded_metadata env metadata) (\<lambda>m.
     case find_relationship ail tenant_id k of
       Some existing \<Rightarrow>
         let r = existing\<lparr>rel_expected := expected, rel_status := ''active'', rel_metadata_json := m, rel_updated_at := env_now env\<rparr>
         in Inr ((sync_graph_edge env r db, replace_relationship r ail), r, False)
     | None \<Rightarrow>
         let r = new_relationship env uuid ail tenant_id k expected m created_by
         in rbind (insert_relationship r ail) (\<lambda>ail'. Inr ((sync_graph_edge env r db, ail'), r, True))))))"

section \<open>Observations\<close>

definition event_of :: "string \<Rightarrow> string \<Rightarrow> lineage_observation \<Rightarrow> bool" where
  "event_of tenant_id event_id o' = (obs_tenant_id o' = tenant_id \<and> obs_event_id o' = event_id)"

definition find_observation :: "ai_lineage \<Rightarrow> string \<Rightarrow> string \<Rightarrow> lineage_observation option" where
  "find_observation ail tenant_id event_id = scalar (event_of tenant_id event_id) (ail_observations ail)"

text \<open>The relationship an observation belongs to, recorded as unexpected when nobody declared it.\<close>

definition observed_relationship ::
  "env \<Rightarrow> string \<Rightarrow> string \<Rightarrow> edge_key \<Rightarrow> string \<Rightarrow> ai_lineage \<Rightarrow> (ai_lineage \<times> ai_relationship) result" where
  "observed_relationship env uuid tenant_id k recorded_by ail =
     (case find_relationship ail tenant_id k of
        Some r \<Rightarrow> Inr (ail, r)
      | None \<Rightarrow>
          let r = new_relationship env uuid ail tenant_id k False (JObj []) recorded_by
          in rbind (insert_relationship r ail) (\<lambda>ail'. Inr (ail', r)))"

definition counted_relationship :: "time \<Rightarrow> time \<Rightarrow> ai_relationship \<Rightarrow> ai_relationship" where
  "counted_relationship now t r =
     r\<lparr>rel_observation_count := Suc (rel_observation_count r),
       rel_first_observed_at := (case rel_first_observed_at r of None \<Rightarrow> Some t | Some x \<Rightarrow> Some x),
       rel_last_observed_at := Some t, rel_updated_at := now\<rparr>"

definition new_observation ::
  "env \<Rightarrow> ai_lineage \<Rightarrow> string \<Rightarrow> string \<Rightarrow> edge_key \<Rightarrow> ai_relationship \<Rightarrow> json \<Rightarrow> time \<Rightarrow> lineage_observation" where
  "new_observation env ail tenant_id event_id k r metadata t = (case k of (src, rel, tgt) \<Rightarrow>
     \<lparr>obs_id = next_id obs_id (ail_observations ail), obs_tenant_id = tenant_id, obs_event_id = event_id,
      obs_relationship_id = rel_relationship_id r, obs_source_type = fst src, obs_source_id = snd src, obs_relationship = rel,
      obs_target_type = fst tgt, obs_target_id = snd tgt, obs_drift_detected = (\<not> rel_expected r \<or> rel_status r \<noteq> ''active''),
      obs_metadata_json = metadata, obs_observed_at = t, obs_recorded_at = env_now env\<rparr>)"

definition observe_relationship ::
  "env \<Rightarrow> string \<Rightarrow> string \<Rightarrow> string \<Rightarrow> edge_key \<Rightarrow> datetime \<Rightarrow> json \<Rightarrow> string \<Rightarrow> ai_state \<Rightarrow>
     (ai_state \<times> lineage_observation \<times> ai_relationship option \<times> bool) result" where
  "observe_relationship env uuid tenant_id event_id k observed_at metadata recorded_by s = (case s of (db, ail) \<Rightarrow>
     (case find_observation ail tenant_id event_id of
        Some existing \<Rightarrow>
          rbind (raise_if (obs_key existing \<noteq> k) (ValueError ''AI lineage event id was already used for a different relationship'')) (\<lambda>_.
          Inr (s, existing, scalar (\<lambda>r. rel_tenant_id r = tenant_id \<and> rel_relationship_id r = obs_relationship_id existing)
                 (ail_relationships ail), True))
      | None \<Rightarrow>
          rbind (validate_reference db tenant_id (fst k)) (\<lambda>_.
          rbind (validate_reference db tenant_id (snd (snd k))) (\<lambda>_.
          rbind (bounded_metadata env metadata) (\<lambda>m.
          rbind (observed_relationship env uuid tenant_id k recorded_by ail) (\<lambda>(ail1, r).
          let t = drop_tzinfo observed_at; r' = counted_relationship (env_now env) t r;
              x = new_observation env ail tenant_id event_id k r m t
          in Inr ((sync_graph_edge env r' db,
                   (replace_relationship r' ail1)\<lparr>ail_observations := ail_observations ail @ [x]\<rparr>), x, Some r', False)))))))"

definition relationship_response :: "env \<Rightarrow> ai_relationship \<Rightarrow> dict" where
  "relationship_response env r =
     [(''relationship_id'', JStr (rel_relationship_id r)), (''source'', node_json (rel_source_type r, rel_source_id r)),
      (''relationship'', JStr (rel_relationship r)), (''target'', node_json (rel_target_type r, rel_target_id r)),
      (''expected'', JBool (rel_expected r)), (''status'', JStr (rel_status r)),
      (''observation_count'', JInt (int (rel_observation_count r))), (''metadata'', rel_metadata_json r),
      (''first_observed_at'', jopt (jtime env) (rel_first_observed_at r)), (''last_observed_at'', jopt (jtime env) (rel_last_observed_at r)),
      (''created_by'', JStr (rel_created_by r)), (''created_at'', jtime env (rel_created_at r)), (''updated_at'', jtime env (rel_updated_at r))]"

definition observation_response :: "env \<Rightarrow> lineage_observation \<Rightarrow> dict" where
  "observation_response env x =
     [(''event_id'', JStr (obs_event_id x)), (''relationship_id'', JStr (obs_relationship_id x)),
      (''source'', node_json (obs_source_type x, obs_source_id x)), (''relationship'', JStr (obs_relationship x)),
      (''target'', node_json (obs_target_type x, obs_target_id x)), (''drift_detected'', JBool (obs_drift_detected x)),
      (''metadata'', obs_metadata_json x), (''observed_at'', jtime env (obs_observed_at x)), (''recorded_at'', jtime env (obs_recorded_at x))]"

section \<open>Routes\<close>

definition create_registered_ai_resource :: "env \<Rightarrow> principal \<Rightarrow> resource_create \<Rightarrow> db \<Rightarrow> (db \<times> dict) result" where
  "create_registered_ai_resource env who req db =
     rbind (require_role DataOwner who) (\<lambda>_.
     rbind (check_body (resource_create_ok req)) (\<lambda>_.
     rbind (bad_request (conflict_on_integrity ''AI resource key already exists''
              (create_ai_resource env (p_tenant_id who) req (p_subject who) db))) (\<lambda>(db', r).
     Inr (db', ai_resource_response env r))))"

definition list_registered_ai_resources ::
  "env \<Rightarrow> principal \<Rightarrow> string option \<Rightarrow> string option \<Rightarrow> nat \<Rightarrow> db \<Rightarrow> dict list result" where
  "list_registered_ai_resources env who resource_type status n db =
     rbind (require_role ReadOnly who) (\<lambda>_.
     rbind (check_body (opt_field 0 40 resource_type \<and> opt_field 0 40 status \<and> 1 \<le> n \<and> n \<le> 1000)) (\<lambda>_.
     Inr (map (ai_resource_response env) (take n (order_by res_name (where_rows (\<lambda>r. res_tenant_id r = p_tenant_id who \<and>
       (truthy_opt resource_type \<longrightarrow> Some (res_resource_type r) = resource_type) \<and>
       (truthy_opt status \<longrightarrow> Some (resource_status_str (res_status r)) = status)) (db_resources db)))))))"

definition find_ai_resource :: "db \<Rightarrow> string \<Rightarrow> string \<Rightarrow> ai_resource option" where
  "find_ai_resource db tenant_id k = scalar (\<lambda>r. res_tenant_id r = tenant_id \<and> res_resource_key r = k) (db_resources db)"

definition ai_resource_or_404 :: "db \<Rightarrow> string \<Rightarrow> string \<Rightarrow> ai_resource result" where
  "ai_resource_or_404 db tenant_id k =
     (case find_ai_resource db tenant_id k of None \<Rightarrow> Inl (HTTPException 404 ''AI resource not found'') | Some r \<Rightarrow> Inr r)"

definition get_registered_ai_resource :: "env \<Rightarrow> principal \<Rightarrow> string \<Rightarrow> db \<Rightarrow> dict result" where
  "get_registered_ai_resource env who k db =
     rbind (require_role ReadOnly who) (\<lambda>_.
     rbind (ai_resource_or_404 db (p_tenant_id who) k) (\<lambda>r. Inr (ai_resource_response env r)))"

definition update_registered_ai_resource :: "env \<Rightarrow> principal \<Rightarrow> string \<Rightarrow> resource_update \<Rightarrow> db \<Rightarrow> (db \<times> dict) result" where
  "update_registered_ai_resource env who k req db =
     rbind (require_role DataOwner who) (\<lambda>_.
     rbind (check_body (resource_update_ok req)) (\<lambda>_.
     rbind (ai_resource_or_404 db (p_tenant_id who) k) (\<lambda>r.
     rbind (bad_request (update_ai_resource env r req db)) (\<lambda>(db', r'). Inr (db', ai_resource_response env r')))))"

definition relationship_char :: "char \<Rightarrow> bool" where
  "relationship_char c = (let n = (of_char c :: nat) in 97 \<le> n \<and> n \<le> 122 \<or> 48 \<le> n \<and> n \<le> 57 \<or> n = 95 \<or> n = 46 \<or> n = 45)"

definition relationship_name_ok :: "string \<Rightarrow> bool" where
  "relationship_name_ok s = (field_length 1 120 s \<and>
     (case s of [] \<Rightarrow> False | c # cs \<Rightarrow> CHR ''a'' \<le> c \<and> c \<le> CHR ''z'' \<and> list_all relationship_char cs))"

definition relationship_ok :: "edge_key \<Rightarrow> json \<Rightarrow> bool" where
  "relationship_ok k metadata = (Graph.node_ok (fst k) \<and> relationship_name_ok (fst (snd k)) \<and> Graph.node_ok (snd (snd k)) \<and> is_jobj metadata)"

definition create_ai_lineage_relationship ::
  "env \<Rightarrow> string \<Rightarrow> principal \<Rightarrow> edge_key \<Rightarrow> bool \<Rightarrow> json \<Rightarrow> ai_state \<Rightarrow> (ai_state \<times> dict) result" where
  "create_ai_lineage_relationship env uuid who k expected metadata s =
     rbind (require_role DataOwner who) (\<lambda>_.
     rbind (check_body (relationship_ok k metadata)) (\<lambda>_.
     rbind (bad_request (conflict_on_integrity ''AI lineage relationship already exists''
              (declare_relationship env uuid (p_tenant_id who) k expected metadata (p_subject who) s))) (\<lambda>(s', r, created).
     Inr (s', (''created'', JBool created) # relationship_response env r))))"

definition list_ai_lineage_relationships ::
  "env \<Rightarrow> principal \<Rightarrow> bool option \<Rightarrow> string option \<Rightarrow> nat \<Rightarrow> ai_lineage \<Rightarrow> dict list result" where
  "list_ai_lineage_relationships env who expected status n ail =
     rbind (require_role ReadOnly who) (\<lambda>_.
     rbind (check_body (opt_field 0 40 status \<and> 1 \<le> n \<and> n \<le> 1000)) (\<lambda>_.
     Inr (map (relationship_response env) (take n (order_by_desc rel_updated_at (where_rows (\<lambda>r. rel_tenant_id r = p_tenant_id who \<and>
       (case expected of None \<Rightarrow> True | Some b \<Rightarrow> rel_expected r = b) \<and>
       (truthy_opt status \<longrightarrow> Some (rel_status r) = status)) (ail_relationships ail)))))))"

definition observed_answer :: "env \<Rightarrow> lineage_observation \<Rightarrow> ai_relationship \<Rightarrow> bool \<Rightarrow> dict" where
  "observed_answer env x r idempotent =
     [(''idempotent'', JBool idempotent), (''observation'', JObj (observation_response env x)),
      (''relationship'', JObj (relationship_response env r))]"

definition create_ai_lineage_observation ::
  "env \<Rightarrow> string \<Rightarrow> principal \<Rightarrow> string \<Rightarrow> edge_key \<Rightarrow> datetime \<Rightarrow> json \<Rightarrow> ai_state \<Rightarrow> (ai_state \<times> dict) result" where
  "create_ai_lineage_observation env uuid who event_id k observed_at metadata s =
     rbind (require_role Analyst who) (\<lambda>_.
     rbind (check_body (field_length 3 240 event_id \<and> relationship_ok k metadata)) (\<lambda>_.
     rbind (bad_request (conflict_on_integrity ''AI lineage observation already exists''
              (observe_relationship env uuid (p_tenant_id who) event_id k observed_at metadata (p_subject who) s)))
       (\<lambda>(s', x, relation, idempotent).
     case relation of
       None \<Rightarrow> Inl (OtherError ''AttributeError'')
     | Some r \<Rightarrow> Inr (s', observed_answer env x r idempotent))))"


definition list_ai_lineage_drift :: "env \<Rightarrow> principal \<Rightarrow> nat \<Rightarrow> ai_lineage \<Rightarrow> dict list result" where
  "list_ai_lineage_drift env who n ail =
     rbind (require_role Auditor who) (\<lambda>_.
     rbind (check_body (1 \<le> n \<and> n \<le> 1000)) (\<lambda>_.
     Inr (map (observation_response env) (take n (order_by_desc obs_observed_at (where_rows (\<lambda>x. obs_tenant_id x = p_tenant_id who \<and>
       obs_drift_detected x) (ail_observations ail)))))))"

section \<open>What the register keeps\<close>

definition of_relationship :: "ai_relationship \<Rightarrow> lineage_observation \<Rightarrow> bool" where
  "of_relationship r x = (obs_tenant_id x = rel_tenant_id r \<and> obs_relationship_id x = rel_relationship_id r)"

definition observations_of :: "ai_lineage \<Rightarrow> ai_relationship \<Rightarrow> lineage_observation list" where
  "observations_of ail r = where_rows (of_relationship r) (ail_observations ail)"

definition counted :: "ai_lineage \<Rightarrow> ai_relationship \<Rightarrow> bool" where
  "counted ail r \<longleftrightarrow>
     rel_status r = ''active'' \<and> rel_observation_count r = length (observations_of ail r) \<and>
     rel_first_observed_at r = map_option obs_observed_at (case observations_of ail r of [] \<Rightarrow> None | x # _ \<Rightarrow> Some x) \<and>
     rel_last_observed_at r = map_option obs_observed_at (case rev (observations_of ail r) of [] \<Rightarrow> None | x # _ \<Rightarrow> Some x)"

definition mirror_of :: "ai_relationship \<Rightarrow> graph_edge \<Rightarrow> bool" where
  "mirror_of r e = (edge_tenant_id e = rel_tenant_id r \<and> edge_key e = rel_key r)"

definition mirrored :: "(time \<Rightarrow> string) \<Rightarrow> db \<Rightarrow> ai_relationship \<Rightarrow> bool" where
  "mirrored fmt db r = (map_option edge_metadata_json (scalar (mirror_of r) (db_edges db)) = Some (edge_mirror fmt r))"

definition tenant_key :: "ai_relationship \<Rightarrow> string \<times> edge_key" where
  "tenant_key r = (rel_tenant_id r, rel_key r)"

definition tenant_rel_id :: "ai_relationship \<Rightarrow> string \<times> string" where
  "tenant_rel_id r = (rel_tenant_id r, rel_relationship_id r)"

definition tenant_event :: "lineage_observation \<Rightarrow> string \<times> string" where
  "tenant_event x = (obs_tenant_id x, obs_event_id x)"

text \<open>The register apart from the graph, and with the graph; \<open>k\<close> is a relationship whose edge is still to be written.\<close>

definition register_ok :: "ai_lineage \<Rightarrow> bool" where
  "register_ok ail \<longleftrightarrow>
     unique_key rel_id (ail_relationships ail) \<and> unique_key tenant_key (ail_relationships ail) \<and>
     unique_key tenant_rel_id (ail_relationships ail) \<and> unique_key tenant_event (ail_observations ail) \<and>
     (\<forall>r \<in> set (ail_relationships ail). counted ail r) \<and>
     (\<forall>x \<in> set (ail_observations ail). \<exists>r \<in> set (ail_relationships ail). of_relationship r x \<and> rel_key r = obs_key x)"

definition mirrored_but :: "(time \<Rightarrow> string) \<Rightarrow> (string \<times> edge_key) set \<Rightarrow> ai_state \<Rightarrow> bool" where
  "mirrored_but fmt K s \<longleftrightarrow>
     unique_key edge_id (db_edges (fst s)) \<and>
     (\<forall>r \<in> set (ail_relationships (snd s)). tenant_key r \<notin> K \<longrightarrow> mirrored fmt (fst s) r)"

lemma new_edge_simps:
  "edge_id (new_edge env t i (k, m)) = i" "edge_tenant_id (new_edge env t i (k, m)) = t"
  "edge_key (new_edge env t i (k, m)) = k" "edge_metadata_json (new_edge env t i (k, m)) = m"
  by (simp_all add: new_edge_def edge_key_def edge_source_def edge_target_def split: prod.split)

lemma sync_unique: "unique_key edge_id (db_edges db) \<Longrightarrow> unique_key edge_id (db_edges (sync_graph_edge env r db))"
  by (auto simp: sync_graph_edge_def new_edge_simps unique_key_update split: option.splits intro!: unique_key_insert)

lemma mirror_eq: "(\<lambda>e. edge_tenant_id e = rel_tenant_id r \<and> edge_key e = rel_key r) = mirror_of r"
  by (simp add: mirror_of_def fun_eq_iff)

lemma sync_mirrors:
  assumes "unique_key edge_id (db_edges db)" and "tenant_key q \<noteq> tenant_key r \<or> q = r"
  shows "map_option edge_metadata_json (scalar (mirror_of q) (db_edges (sync_graph_edge env r db))) =
    (if q = r then Some (edge_mirror (env_isoformat env) r) else map_option edge_metadata_json (scalar (mirror_of q) (db_edges db)))"
proof (cases "scalar (mirror_of r) (db_edges db)")
  case None
  let ?e = "new_edge env (rel_tenant_id r) (next_id edge_id (db_edges db)) (rel_key r, edge_mirror (env_isoformat env) r)"
  have e: "db_edges (sync_graph_edge env r db) = db_edges db @ [?e]"
    using None by (simp add: sync_graph_edge_def mirror_eq)
  have "mirror_of q ?e \<longleftrightarrow> q = r" using assms(2) by (auto simp: mirror_of_def new_edge_simps tenant_key_def)
  then show ?thesis
    unfolding e using None by (auto simp: scalar_append scalar_Cons new_edge_simps split: option.splits)
next
  case (Some e)
  have mem: "e \<in> set (db_edges db)" "mirror_of r e" using scalar_Some[OF Some] by simp_all
  let ?f = "\<lambda>x. x\<lparr>edge_metadata_json := edge_mirror (env_isoformat env) r\<rparr>"
  have e: "db_edges (sync_graph_edge env r db) = update_rows (\<lambda>x. edge_id x = edge_id e) ?f (db_edges db)"
    using Some by (simp add: sync_graph_edge_def mirror_eq)
  have f: "mirror_of p (?f x) = mirror_of p x" for p x
    by (simp add: mirror_of_def edge_key_def edge_source_def edge_target_def)
  have s: "scalar (mirror_of q) (db_edges (sync_graph_edge env r db)) =
      map_option (\<lambda>x. if edge_id x = edge_id e then ?f x else x) (scalar (mirror_of q) (db_edges db))"
    unfolding e by (rule scalar_update) (simp add: f)
  show ?thesis
  proof (cases "q = r")
    case True
    then show ?thesis using s Some by simp
  next
    case False
    have "edge_id x \<noteq> edge_id e" if "scalar (mirror_of q) (db_edges db) = Some x" for x
    proof
      assume i: "edge_id x = edge_id e"
      from scalar_Some[OF that] have x: "x \<in> set (db_edges db)" "mirror_of q x" by simp_all
      from unique_key_eq[OF assms(1) x(1) mem(1) i] x(2) mem(2) False assms(2) show False
        by (auto simp: mirror_of_def tenant_key_def)
    qed
    then show ?thesis using s False by (cases "scalar (mirror_of q) (db_edges db)") auto
  qed
qed

lemma new_relationship_simps:
  "rel_id (new_relationship env uuid ail t k e m b) = next_id rel_id (ail_relationships ail)"
  "rel_tenant_id (new_relationship env uuid ail t k e m b) = t"
  "rel_relationship_id (new_relationship env uuid ail t k e m b) = uuid"
  "rel_key (new_relationship env uuid ail t k e m b) = k"
  "rel_status (new_relationship env uuid ail t k e m b) = ''active''"
  "rel_expected (new_relationship env uuid ail t k e m b) = e"
  "rel_observation_count (new_relationship env uuid ail t k e m b) = 0"
  "rel_first_observed_at (new_relationship env uuid ail t k e m b) = None"
  "rel_last_observed_at (new_relationship env uuid ail t k e m b) = None"
  by (simp_all add: new_relationship_def rel_key_def split: prod.split)

lemma insert_relationship_Inr:
  "insert_relationship r ail = Inr ail' \<longleftrightarrow>
     (\<forall>x \<in> set (ail_relationships ail). tenant_key x \<noteq> tenant_key r \<and> tenant_rel_id x \<noteq> tenant_rel_id r) \<and>
     ail' = ail\<lparr>ail_relationships := ail_relationships ail @ [r]\<rparr>"
  by (auto simp: insert_relationship_def result_simps list_ex_iff tenant_key_def tenant_rel_id_def)

lemma inserted_ok:
  assumes ok: "register_ok ail" and i: "insert_relationship r ail = Inr ail'"
    and r: "rel_id r = next_id rel_id (ail_relationships ail)" "rel_status r = ''active''" "rel_observation_count r = 0"
      "rel_first_observed_at r = None" "rel_last_observed_at r = None"
  shows "register_ok ail'"
proof -
  from i have fresh: "\<forall>x \<in> set (ail_relationships ail). tenant_key x \<noteq> tenant_key r \<and> tenant_rel_id x \<noteq> tenant_rel_id r"
    and ail': "ail' = ail\<lparr>ail_relationships := ail_relationships ail @ [r]\<rparr>" by (simp_all add: insert_relationship_Inr)
  have obs: "observations_of ail' q = observations_of ail q" for q by (simp add: observations_of_def ail')
  have none: "observations_of ail r = []"
    using ok fresh
    by (fastforce simp: register_ok_def observations_of_def where_rows_def filter_empty_conv of_relationship_def tenant_rel_id_def)
  have c: "counted ail' q" if "q \<in> set (ail_relationships ail')" for q
  proof (cases "q = r")
    case True
    then show ?thesis using none r by (simp add: counted_def obs)
  next
    case False
    with that ok ail' have "counted ail q" by (auto simp: register_ok_def)
    then show ?thesis by (simp add: counted_def obs)
  qed
  have u: "unique_key rel_id (ail_relationships ail')" "unique_key tenant_key (ail_relationships ail')"
    "unique_key tenant_rel_id (ail_relationships ail')"
    using ok fresh r(1) unique_key_insert[of rel_id "ail_relationships ail" r]
    by (auto simp: register_ok_def ail' unique_key_def)
  from ok u c show ?thesis by (auto simp: register_ok_def ail')
qed

lemma inserted_mirrored:
  "mirrored_but fmt K (db, ail) \<Longrightarrow> insert_relationship r ail = Inr ail' \<Longrightarrow>
   mirrored_but fmt (insert (tenant_key r) K) (db, ail')"
  by (auto simp: mirrored_but_def insert_relationship_Inr)

lemma replace_set:
  assumes "unique_key rel_id (ail_relationships ail)" and "r0 \<in> set (ail_relationships ail)" and "rel_id r = rel_id r0"
  shows "set (ail_relationships (replace_relationship r ail)) = insert r (set (ail_relationships ail) - {r0})"
  using assms unique_key_eq[OF assms(1)] by (auto simp: replace_relationship_def set_update_rows)

lemma replace_self:
  assumes "unique_key rel_id (ail_relationships ail)" and "r \<in> set (ail_relationships ail)"
  shows "replace_relationship r ail = ail"
proof -
  have "update_rows (\<lambda>x. rel_id x = rel_id r) (\<lambda>_. r) (ail_relationships ail) = ail_relationships ail"
    unfolding update_rows_def using unique_key_eq[OF assms(1) _ assms(2)] by (intro map_idI) auto
  then show ?thesis by (simp add: replace_relationship_def)
qed

lemma replace_keys:
  assumes "unique_key rel_id (ail_relationships ail)" and "r0 \<in> set (ail_relationships ail)" and "rel_id r = rel_id r0" and "g r = g r0"
  shows "map g (ail_relationships (replace_relationship r ail)) = map g (ail_relationships ail)"
  unfolding replace_relationship_def update_rows_def
  using unique_key_eq[OF assms(1) _ assms(2)] assms(3,4) by (auto simp: o_def)

text \<open>One relationship is replaced by a row with the same keys, with the observations that its new counts include.\<close>

lemma replaced_ok:
  assumes ok: "register_ok ail" and r0: "r0 \<in> set (ail_relationships ail)"
    and r: "rel_id r = rel_id r0" "tenant_key r = tenant_key r0" "tenant_rel_id r = tenant_rel_id r0"
    and ail': "ail' = (replace_relationship r ail)\<lparr>ail_observations := ail_observations ail @ xs\<rparr>"
    and xs: "\<forall>x \<in> set xs. of_relationship r x \<and> rel_key r = obs_key x" "unique_key tenant_event (ail_observations ail @ xs)"
    and c: "counted ail' r"
  shows "register_ok ail'"
proof -
  have u: "unique_key rel_id (ail_relationships ail)" using ok by (simp add: register_ok_def)
  have rows: "set (ail_relationships ail') = insert r (set (ail_relationships ail) - {r0})"
    using replace_set[OF u r0 r(1)] ail' by simp
  have uniq: "unique_key rel_id (ail_relationships ail')" "unique_key tenant_key (ail_relationships ail')"
    "unique_key tenant_rel_id (ail_relationships ail')"
    using ok replace_keys[OF u r0 r(1), of rel_id] replace_keys[OF u r0 r(1), of tenant_key] replace_keys[OF u r0 r(1), of tenant_rel_id] r
    by (simp_all add: register_ok_def unique_key_def ail')
  have other: "counted ail' q" if "q \<in> set (ail_relationships ail)" "q \<noteq> r0" for q
  proof -
    have "tenant_rel_id q \<noteq> tenant_rel_id r0"
      using ok that r0 unique_key_eq[of tenant_rel_id "ail_relationships ail" q r0] by (auto simp: register_ok_def)
    then have "observations_of ail' q = observations_of ail q"
      using xs(1) r(3) by (auto simp: observations_of_def where_rows_def ail' of_relationship_def tenant_rel_id_def filter_empty_conv)
    moreover have "counted ail q" using ok that(1) by (simp add: register_ok_def)
    ultimately show ?thesis by (simp add: counted_def)
  qed
  have same: "of_relationship r x = of_relationship r0 x" "rel_key r = rel_key r0" for x
    using r(2,3) by (simp_all add: of_relationship_def tenant_rel_id_def tenant_key_def)
  have old: "\<exists>q \<in> set (ail_relationships ail'). of_relationship q x \<and> rel_key q = obs_key x" if "x \<in> set (ail_observations ail)" for x
  proof -
    from ok that obtain q where q: "q \<in> set (ail_relationships ail)" "of_relationship q x" "rel_key q = obs_key x"
      by (auto simp: register_ok_def)
    then show ?thesis unfolding rows using same by (cases "q = r0") auto
  qed
  have "\<exists>q \<in> set (ail_relationships ail'). of_relationship q x \<and> rel_key q = obs_key x" if "x \<in> set (ail_observations ail')" for x
    using that old xs(1) rows by (auto simp: ail')
  then show ?thesis using uniq other c xs(2) rows by (auto simp: register_ok_def ail')
qed

lemma replaced_mirrored:
  assumes m: "mirrored_but (env_isoformat env) (insert (tenant_key r0) K) (db, ail)" and ok: "register_ok ail" and r0: "r0 \<in> set (ail_relationships ail)"
    and r: "rel_id r = rel_id r0" "tenant_key r = tenant_key r0"
    and ail': "ail_relationships ail' = ail_relationships (replace_relationship r ail)"
  shows "mirrored_but (env_isoformat env) (K - {tenant_key r0}) (sync_graph_edge env r db, ail')"
proof -
  have u: "unique_key rel_id (ail_relationships ail)" "unique_key tenant_key (ail_relationships ail)" using ok by (simp_all add: register_ok_def)
  have e: "unique_key edge_id (db_edges db)" using m by (simp add: mirrored_but_def)
  have "mirrored (env_isoformat env) (sync_graph_edge env r db) q"
    if q: "q \<in> set (ail_relationships ail')" "tenant_key q \<notin> K - {tenant_key r0}" for q
  proof -
    from q(1) ail' replace_set[OF u(1) r0 r(1)] consider "q = r" | "q \<in> set (ail_relationships ail)" "q \<noteq> r0" by auto
    then show ?thesis
    proof cases
      case 1
      then show ?thesis using sync_mirrors[OF e, of r r env] by (simp add: mirrored_def)
    next
      case 2
      have k: "tenant_key q \<noteq> tenant_key r0" using unique_key_eq[OF u(2) 2(1) r0] 2(2) by auto
      then have "q \<noteq> r" using r(2) by auto
      with sync_mirrors[OF e, of q r env] k r(2) m 2(1) q(2) show ?thesis by (auto simp: mirrored_def mirrored_but_def)
    qed
  qed
  then show ?thesis using sync_unique[OF e] by (simp add: mirrored_but_def)
qed


section \<open>Every operation keeps it\<close>

text \<open>The tenants and ends of the edges; each relationship has one, and syncing it makes sure of that.\<close>

definition edge_keys :: "db \<Rightarrow> (string \<times> edge_key) set" where
  "edge_keys db = (\<lambda>e. (edge_tenant_id e, edge_key e)) ` set (db_edges db)"

definition linked :: "ai_state \<Rightarrow> bool" where
  "linked s \<longleftrightarrow> tenant_key ` set (ail_relationships (snd s)) \<subseteq> edge_keys (fst s)"

lemma sync_keys: "edge_keys (sync_graph_edge env r db) = insert (tenant_key r) (edge_keys db)"
proof (cases "scalar (mirror_of r) (db_edges db)")
  case None
  then show ?thesis
    by (auto simp: sync_graph_edge_def mirror_eq edge_keys_def new_edge_simps tenant_key_def)
next
  case (Some e)
  let ?f = "\<lambda>x. x\<lparr>edge_metadata_json := edge_mirror (env_isoformat env) r\<rparr>"
  have "tenant_key r \<in> edge_keys db"
    using scalar_Some[OF Some] unfolding edge_keys_def by (intro image_eqI[of _ _ e]) (simp_all add: mirror_of_def tenant_key_def)
  moreover have "edge_keys (sync_graph_edge env r db) = edge_keys db"
  proof -
    have k: "edge_keys d = set (map (\<lambda>e. (edge_tenant_id e, edge_key e)) (db_edges d))" for d by (simp add: edge_keys_def)
    have m: "map (\<lambda>e. (edge_tenant_id e, edge_key e)) (update_rows (\<lambda>x. edge_id x = edge_id e) ?f (db_edges db)) =
        map (\<lambda>e. (edge_tenant_id e, edge_key e)) (db_edges db)"
      by (simp add: update_rows_def edge_key_def edge_source_def edge_target_def)
    have "db_edges (sync_graph_edge env r db) = update_rows (\<lambda>x. edge_id x = edge_id e) ?f (db_edges db)"
      using Some by (simp add: sync_graph_edge_def mirror_eq)
    then show ?thesis unfolding k by (simp only: m)
  qed
  ultimately show ?thesis by (simp add: insert_absorb)
qed

lemma linked_sync:
  assumes "linked (db, ail)"
    and "tenant_key ` set (ail_relationships ail') \<subseteq> insert (tenant_key r) (tenant_key ` set (ail_relationships ail))"
  shows "linked (sync_graph_edge env r db, ail')"
  using assms unfolding linked_def fst_conv snd_conv sync_keys by blast

text \<open>\<open>K\<close> are the relationships whose edge was rewritten by something else.\<close>

definition ai_ok :: "(time \<Rightarrow> string) \<Rightarrow> (string \<times> edge_key) set \<Rightarrow> ai_state \<Rightarrow> bool" where
  "ai_ok fmt K s \<longleftrightarrow> register_ok (snd s) \<and> mirrored_but fmt K s \<and> linked s"

lemma find_relationship_Some:
  assumes "find_relationship ail t k = Some r"
  shows "r \<in> set (ail_relationships ail)" "rel_tenant_id r = t" "rel_key r = k"
  using scalar_Some[OF assms[unfolded find_relationship_def]] by (simp_all add: relationship_of_def)

lemma mirrored_weaken: "mirrored_but fmt K s \<Longrightarrow> K \<subseteq> K' \<Longrightarrow> mirrored_but fmt K' s"
  by (auto simp: mirrored_but_def)

lemma declare_ok:
  assumes ok: "ai_ok (env_isoformat env) K s" and d: "declare_relationship env uuid t k expected metadata created_by s = Inr (s', r, created)"
  shows "ai_ok (env_isoformat env) (K - {(t, k)}) s'"
proof -
  obtain db ail where s: "s = (db, ail)" by (cases s)
  from ok have reg: "register_ok ail" and mir: "mirrored_but (env_isoformat env) K (db, ail)" and lnk: "linked (db, ail)"
    by (simp_all add: ai_ok_def s)
  obtain m where run: "(case find_relationship ail t k of
       Some existing \<Rightarrow>
         let r = existing\<lparr>rel_expected := expected, rel_status := ''active'', rel_metadata_json := m, rel_updated_at := env_now env\<rparr>
         in Inr ((sync_graph_edge env r db, replace_relationship r ail), r, False)
     | None \<Rightarrow>
         let r = new_relationship env uuid ail t k expected m created_by
         in rbind (insert_relationship r ail) (\<lambda>ail'. Inr ((sync_graph_edge env r db, ail'), r, True))) = Inr (s', r, created)"
    using d by (auto simp: declare_relationship_def s result_simps)
  show ?thesis
  proof (cases "find_relationship ail t k")
    case (Some e)
    note e = find_relationship_Some[OF Some]
    from run Some have r: "r = e\<lparr>rel_expected := expected, rel_status := ''active'', rel_metadata_json := m, rel_updated_at := env_now env\<rparr>"
      and s': "s' = (sync_graph_edge env r db, replace_relationship r ail)" by (auto simp: Let_def)
    have keys: "rel_id r = rel_id e" "tenant_key r = tenant_key e" "tenant_rel_id r = tenant_rel_id e"
      by (simp_all add: r tenant_key_def tenant_rel_id_def rel_key_def)
    have "counted ail e" using reg e(1) by (simp add: register_ok_def)
    then have c: "counted ((replace_relationship r ail)\<lparr>ail_observations := ail_observations ail @ []\<rparr>) r"
      by (simp add: counted_def observations_of_def of_relationship_def[abs_def] r)
    have "(replace_relationship r ail)\<lparr>ail_observations := ail_observations ail @ []\<rparr> = replace_relationship r ail"
      by (simp add: replace_relationship_def)
    moreover have "register_ok ((replace_relationship r ail)\<lparr>ail_observations := ail_observations ail @ []\<rparr>)"
      using reg by (intro replaced_ok[OF reg e(1) keys refl _ _ c]) (simp_all add: register_ok_def)
    moreover have "mirrored_but (env_isoformat env) (K - {tenant_key e}) (sync_graph_edge env r db, replace_relationship r ail)"
      by (rule replaced_mirrored[OF mirrored_weaken[OF mir subset_insertI] reg e(1) keys(1,2) refl])
    moreover have "linked (sync_graph_edge env r db, replace_relationship r ail)"
      using replace_set[OF _ e(1) keys(1)] reg by (intro linked_sync[OF lnk]) (auto simp: register_ok_def)
    moreover have "tenant_key e = (t, k)" using e by (simp add: tenant_key_def)
    ultimately show ?thesis by (simp add: ai_ok_def s')
  next
    case None
    from run None have r: "r = new_relationship env uuid ail t k expected m created_by"
      and "rbind (insert_relationship r ail) (\<lambda>ail'. Inr ((sync_graph_edge env r db, ail'), r, True)) = Inr (s', r, created)"
      by (auto simp: Let_def result_simps)
    then obtain ail' where i: "insert_relationship r ail = Inr ail'" and s': "s' = (sync_graph_edge env r db, ail')"
      by (auto simp: result_simps)
    have reg': "register_ok ail'" by (rule inserted_ok[OF reg i]) (simp_all add: r new_relationship_simps)
    have mem: "r \<in> set (ail_relationships ail')" using i by (auto simp: insert_relationship_Inr)
    have "mirrored_but (env_isoformat env) (K - {tenant_key r}) (sync_graph_edge env r db, ail')"
      using reg' by (intro replaced_mirrored[OF inserted_mirrored[OF mir i] reg' mem])
        (simp_all add: replace_self[OF _ mem] register_ok_def)
    moreover have "tenant_key r = (t, k)" by (simp add: r tenant_key_def new_relationship_simps)
    moreover have "linked (sync_graph_edge env r db, ail')"
      using i by (intro linked_sync[OF lnk]) (auto simp: insert_relationship_Inr)
    ultimately show ?thesis using reg' by (simp add: ai_ok_def s')
  qed
qed

lemma counted_after:
  assumes c: "counted ail r" and x: "of_relationship r x"
    and obs: "ail_observations ail' = ail_observations ail @ [x]" "obs_observed_at x = t"
  shows "counted ail' (counted_relationship now t r)"
proof -
  have o: "observations_of ail' (counted_relationship now t r) = observations_of ail r @ [x]"
    using x by (simp add: observations_of_def where_rows_def obs of_relationship_def[abs_def] counted_relationship_def)
  show ?thesis
    unfolding counted_def o using c obs(2)
    by (cases "observations_of ail r") (auto simp: counted_def counted_relationship_def)
qed

lemma new_observation_simps:
  "obs_tenant_id (new_observation env ail t ev k r m tm) = t" "obs_event_id (new_observation env ail t ev k r m tm) = ev"
  "obs_relationship_id (new_observation env ail t ev k r m tm) = rel_relationship_id r"
  "obs_key (new_observation env ail t ev k r m tm) = k"
  "obs_drift_detected (new_observation env ail t ev k r m tm) = (\<not> rel_expected r \<or> rel_status r \<noteq> ''active'')"
  "obs_observed_at (new_observation env ail t ev k r m tm) = tm"
  by (simp_all add: new_observation_def obs_key_def split: prod.split)

text \<open>The relationship an observation goes to, found or inserted.\<close>

lemma observed_relationship_Inr:
  assumes ok: "ai_ok fmt K (db, ail)" and o: "observed_relationship env uuid t k by' ail = Inr (ail1, r)"
  shows "register_ok ail1 \<and> mirrored_but fmt (insert (tenant_key r) K) (db, ail1) \<and> r \<in> set (ail_relationships ail1) \<and>
    tenant_key ` set (ail_relationships ail1) \<subseteq> insert (tenant_key r) (tenant_key ` set (ail_relationships ail)) \<and>
    rel_tenant_id r = t \<and> rel_key r = k \<and> ail_observations ail1 = ail_observations ail \<and>
    (find_relationship ail t k = Some r \<or> find_relationship ail t k = None \<and> \<not> rel_expected r)"
proof (cases "find_relationship ail t k")
  case (Some e)
  with o find_relationship_Some[OF Some] ok show ?thesis
    by (auto simp: observed_relationship_def ai_ok_def intro: mirrored_weaken[OF _ subset_insertI])
next
  case None
  from o None have r: "r = new_relationship env uuid ail t k False (JObj []) by'" and i: "insert_relationship r ail = Inr ail1"
    by (auto simp: observed_relationship_def Let_def result_simps)
  from ok have reg: "register_ok ail" and mir: "mirrored_but fmt K (db, ail)" by (simp_all add: ai_ok_def)
  have "register_ok ail1" by (rule inserted_ok[OF reg i]) (simp_all add: r new_relationship_simps)
  moreover have "mirrored_but fmt (insert (tenant_key r) K) (db, ail1)" by (rule inserted_mirrored[OF mir i])
  moreover have "r \<in> set (ail_relationships ail1)" "ail_observations ail1 = ail_observations ail"
    "tenant_key ` set (ail_relationships ail1) \<subseteq> insert (tenant_key r) (tenant_key ` set (ail_relationships ail))"
    using i by (auto simp: insert_relationship_Inr)
  ultimately show ?thesis using None by (simp add: r new_relationship_simps)
qed

text \<open>A recorded observation: what was checked, and the new state.\<close>

lemma observe_new:
  assumes "observe_relationship env uuid t ev k at' metadata by' (db, ail) = Inr (s', x, rel, False)"
  obtains m ail1 r where "find_observation ail t ev = None" "bounded_metadata env metadata = Inr m"
    "observed_relationship env uuid t k by' ail = Inr (ail1, r)"
    "x = new_observation env ail t ev k r m (drop_tzinfo at')"
    "rel = Some (counted_relationship (env_now env) (drop_tzinfo at') r)"
    "s' = (sync_graph_edge env (counted_relationship (env_now env) (drop_tzinfo at') r) db,
       (replace_relationship (counted_relationship (env_now env) (drop_tzinfo at') r) ail1)\<lparr>ail_observations := ail_observations ail @ [x]\<rparr>)"
proof -
  have none: "find_observation ail t ev = None"
    using assms by (cases "find_observation ail t ev") (auto simp: observe_relationship_def result_simps)
  from assms obtain m ail1 r where "bounded_metadata env metadata = Inr m"
    "observed_relationship env uuid t k by' ail = Inr (ail1, r)"
    "s' = (sync_graph_edge env (counted_relationship (env_now env) (drop_tzinfo at') r) db,
       (replace_relationship (counted_relationship (env_now env) (drop_tzinfo at') r) ail1)
         \<lparr>ail_observations := ail_observations ail @ [new_observation env ail t ev k r m (drop_tzinfo at')]\<rparr>)"
    "x = new_observation env ail t ev k r m (drop_tzinfo at')"
    "rel = Some (counted_relationship (env_now env) (drop_tzinfo at') r)"
    unfolding observe_relationship_def prod.case none option.case Let_def by (auto simp: result_simps)
  with that none show thesis by blast
qed

lemma observe_again:
  assumes "observe_relationship env uuid t ev k at' metadata by' s = Inr (s', x, rel, True)"
  shows "s' = s \<and> find_observation (snd s) t ev = Some x \<and> obs_key x = k"
proof (cases s)
  case (Pair db ail)
  with assms show ?thesis
    by (cases "find_observation ail t ev") (auto simp: observe_relationship_def result_simps Let_def)
qed

lemma observe_ok:
  assumes ok: "ai_ok (env_isoformat env) K s" and o: "observe_relationship env uuid t ev k at' metadata by' s = Inr (s', x, rel, i)"
  shows "ai_ok (env_isoformat env) (if i then K else K - {(t, k)}) s'"
proof (cases i)
  case True
  with o have "observe_relationship env uuid t ev k at' metadata by' s = Inr (s', x, rel, True)" by simp
  from observe_again[OF this] ok True show ?thesis by simp
next
  case False
  obtain db ail where s: "s = (db, ail)" by (cases s)
  from o False s have o': "observe_relationship env uuid t ev k at' metadata by' (db, ail) = Inr (s', x, rel, False)" by simp
  then obtain m ail1 r where none: "find_observation ail t ev = None" and rel: "observed_relationship env uuid t k by' ail = Inr (ail1, r)"
    and x: "x = new_observation env ail t ev k r m (drop_tzinfo at')"
    and s': "s' = (sync_graph_edge env (counted_relationship (env_now env) (drop_tzinfo at') r) db,
       (replace_relationship (counted_relationship (env_now env) (drop_tzinfo at') r) ail1)\<lparr>ail_observations := ail_observations ail @ [x]\<rparr>)"
    by (rule observe_new)
  let ?r = "counted_relationship (env_now env) (drop_tzinfo at') r"
  note f = observed_relationship_Inr[OF ok[unfolded s] rel]
  then have reg: "register_ok ail1" and mem: "r \<in> set (ail_relationships ail1)" and obs: "ail_observations ail1 = ail_observations ail" by simp_all
  have keys: "rel_id ?r = rel_id r" "tenant_key ?r = tenant_key r" "tenant_rel_id ?r = tenant_rel_id r" "rel_key ?r = rel_key r"
    by (simp_all add: counted_relationship_def tenant_key_def tenant_rel_id_def rel_key_def)
  have of: "of_relationship r x" "of_relationship ?r x" using f by (simp_all add: of_relationship_def x new_observation_simps counted_relationship_def)
  have fresh: "unique_key tenant_event (ail_observations ail1 @ [x])"
    using reg none by (auto simp: register_ok_def unique_key_def obs find_observation_def scalar_None event_of_def tenant_event_def x new_observation_simps)
  have c: "counted ((replace_relationship ?r ail1)\<lparr>ail_observations := ail_observations ail @ [x]\<rparr>) ?r"
  proof (rule counted_after[of ail1])
    show "counted ail1 r" using reg mem by (simp add: register_ok_def)
    show "of_relationship r x" by (rule of(1))
    show "obs_observed_at x = drop_tzinfo at'" by (simp add: x new_observation_simps)
  qed (simp add: obs)
  have "register_ok ((replace_relationship ?r ail1)\<lparr>ail_observations := ail_observations ail @ [x]\<rparr>)"
    using fresh c of f by (intro replaced_ok[OF reg mem keys(1-3), where xs = "[x]"]) (simp_all add: obs keys(4) x new_observation_simps)
  moreover have "mirrored_but (env_isoformat env) (K - {tenant_key r})
      (sync_graph_edge env ?r db, (replace_relationship ?r ail1)\<lparr>ail_observations := ail_observations ail @ [x]\<rparr>)"
    using f by (intro replaced_mirrored[OF _ reg mem keys(1,2)]) simp_all
  moreover have "tenant_key r = (t, k)" using f by (simp add: tenant_key_def)
  moreover have "linked (sync_graph_edge env ?r db, (replace_relationship ?r ail1)\<lparr>ail_observations := ail_observations ail @ [x]\<rparr>)"
  proof (rule linked_sync)
    show "linked (db, ail)" using ok by (simp add: ai_ok_def s)
    show "tenant_key ` set (ail_relationships ((replace_relationship ?r ail1)\<lparr>ail_observations := ail_observations ail @ [x]\<rparr>))
        \<subseteq> insert (tenant_key ?r) (tenant_key ` set (ail_relationships ail))"
      using f keys(2) replace_set[OF _ mem keys(1)] reg by (auto simp: register_ok_def)
  qed
  ultimately show ?thesis using False by (simp add: ai_ok_def s')
qed


section \<open>Runs of the register\<close>

definition no_lineage :: ai_lineage where
  "no_lineage = \<lparr>ail_relationships = [], ail_observations = []\<rparr>"

text \<open>
  The operations of the service, by any callers at any times; \<open>fmt\<close> is \<open>isoformat\<close>. Beside those of the register, OpenLineage
  events write edges of the same graph, and other components (usage events, connectors) add edges to it. Each step tells
  which edges it wrote: that of one relationship of a tenant, or those an event asked for.
\<close>

datatype ai_op = OpOther | OpMirrored string edge_key | OpIngested string "edge_key list"

inductive ai_op_step :: "(time \<Rightarrow> string) \<Rightarrow> ai_op \<Rightarrow> ai_state \<Rightarrow> ai_state \<Rightarrow> bool" for fmt where
  created: "create_ai_resource env t v by' db = Inr (db', r) \<Longrightarrow> ai_op_step fmt OpOther (db, ail) (db', ail)"
| updated: "update_ai_resource env r u db = Inr (db', r') \<Longrightarrow> ai_op_step fmt OpOther (db, ail) (db', ail)"
| declared: "env_isoformat env = fmt \<Longrightarrow> declare_relationship env uuid t k expected m by' s = Inr (s', r, new) \<Longrightarrow>
    ai_op_step fmt (OpMirrored t k) s s'"
| observed: "env_isoformat env = fmt \<Longrightarrow> observe_relationship env uuid t ev k at' m by' s = Inr (s', x, rel, again) \<Longrightarrow>
    ai_op_step fmt (if again then OpOther else OpMirrored t k) s s'"
| ingested: "ingest_openlineage_event env t payload db = Inr (db', a) \<Longrightarrow>
    ai_op_step fmt (if ia_idempotent a then OpOther else OpIngested t (map fst (lineage_edges (ia_event_id a) (jobj payload))))
      (db, ail) (db', ail)"
| joined: "db_edges db' = db_edges db @ new \<Longrightarrow> unique_key edge_id (db_edges db') \<Longrightarrow> ai_op_step fmt OpOther (db, ail) (db', ail)"

definition ai_step :: "(time \<Rightarrow> string) \<Rightarrow> ai_state \<Rightarrow> ai_state \<Rightarrow> bool" where
  "ai_step fmt s s' \<longleftrightarrow> (\<exists>op. ai_op_step fmt op s s')"

text \<open>The runs of the register from an empty one, with what each step wrote, and the relationships whose edge an event wrote last.\<close>

inductive ai_run :: "(time \<Rightarrow> string) \<Rightarrow> ai_op list \<Rightarrow> ai_state \<Rightarrow> bool" for fmt where
  start: "unique_key edge_id (db_edges db) \<Longrightarrow> ai_run fmt [] (db, no_lineage)"
| step: "ai_run fmt ops s \<Longrightarrow> ai_op_step fmt op s s' \<Longrightarrow> ai_run fmt (ops @ [op]) s'"

fun after_op :: "ai_op \<Rightarrow> (string \<times> edge_key) set \<Rightarrow> (string \<times> edge_key) set" where
  "after_op OpOther K = K"
| "after_op (OpMirrored t k) K = K - {(t, k)}"
| "after_op (OpIngested t ks) K = K \<union> Pair t ` set ks"

definition rewritten :: "ai_op list \<Rightarrow> (string \<times> edge_key) set" where
  "rewritten ops = fold after_op ops {}"

definition ai_reachable :: "(time \<Rightarrow> string) \<Rightarrow> ai_state \<Rightarrow> bool" where
  "ai_reachable fmt s \<longleftrightarrow> (\<exists>ops. ai_run fmt ops s)"

lemma created_edges: "create_ai_resource env t v by' db = Inr (db', r) \<Longrightarrow> db_edges db' = db_edges db"
  by (auto simp: create_ai_resource_def result_simps Let_def)

lemma updated_edges: "update_ai_resource env r u db = Inr (db', r') \<Longrightarrow> db_edges db' = db_edges db"
  by (auto simp: update_ai_resource_def result_simps Let_def)

text \<open>What an event does to the stored edges: it rewrites the metadata of those it asks for and appends the others.\<close>

lemma ensure_edge_other:
  assumes e: "ensure_edge t w (stored, added) = ((stored', added'), n)" and u: "unique_key edge_id stored"
    and q: "tenant_key q \<noteq> (t, fst w)"
  shows "unique_key edge_id stored' \<and> scalar (mirror_of q) stored' = scalar (mirror_of q) stored"
proof (cases "scalar (\<lambda>e. edge_tenant_id e = t \<and> edge_key e = fst w) stored")
  case None
  with e u show ?thesis by (simp add: ensure_edge_def)
next
  case (Some x)
  let ?f = "\<lambda>y. y\<lparr>edge_metadata_json := snd w\<rparr>"
  have stored': "stored' = update_rows (\<lambda>y. edge_id y = edge_id x) ?f stored" using e Some by (simp add: ensure_edge_def)
  have mem: "x \<in> set stored" "(edge_tenant_id x, edge_key x) = (t, fst w)" using scalar_Some[OF Some] by simp_all
  have f: "mirror_of q (?f y) = mirror_of q y" for y by (simp add: mirror_of_def edge_key_def edge_source_def edge_target_def)
  have s: "scalar (mirror_of q) stored' = map_option (\<lambda>y. if edge_id y = edge_id x then ?f y else y) (scalar (mirror_of q) stored)"
    unfolding stored' by (rule scalar_update) (simp add: f)
  have "edge_id y \<noteq> edge_id x" if "scalar (mirror_of q) stored = Some y" for y
    using scalar_Some[OF that] unique_key_eq[OF u _ mem(1), of y] mem(2) q by (auto simp: mirror_of_def tenant_key_def)
  then have "scalar (mirror_of q) stored' = scalar (mirror_of q) stored"
    unfolding s by (cases "scalar (mirror_of q) stored") auto
  moreover have "unique_key edge_id stored'" unfolding stored' using u by (simp add: unique_key_update)
  ultimately show ?thesis by simp
qed

lemma ensure_edges_other:
  assumes "ensure_edges t ws (stored, added) = ((stored', added'), n)" and "unique_key edge_id stored"
    and "tenant_key q \<notin> Pair t ` fst ` set ws"
  shows "unique_key edge_id stored' \<and> scalar (mirror_of q) stored' = scalar (mirror_of q) stored"
  using assms
proof (induction ws arbitrary: stored added n)
  case (Cons w ws)
  obtain s1 a1 k where 1: "ensure_edge t w (stored, added) = ((s1, a1), k)" by (metis prod_cases3 surj_pair)
  obtain m where 2: "ensure_edges t ws (s1, a1) = ((stored', added'), m)"
    using Cons.prems 1 by (auto split: prod.splits)
  from Cons.prems(3) have q: "tenant_key q \<noteq> (t, fst w)" "tenant_key q \<notin> Pair t ` fst ` set ws" by auto
  from ensure_edge_other[OF 1 Cons.prems(2) q(1)] Cons.IH[OF 2 _ q(2)] show ?case by simp
qed simp

lemma insert_edges_unique: "unique_key edge_id es \<Longrightarrow> unique_key edge_id (insert_edges env t ws es)"
proof (induction ws arbitrary: es)
  case (Cons w ws)
  have "unique_key edge_id (es @ [new_edge env t (next_id edge_id es) w])"
    by (rule unique_key_insert[OF Cons.prems]) (cases w; simp add: new_edge_simps)
  then show ?case by (simp add: Cons.IH)
qed simp

lemma ingested_edges:
  assumes "ingest_openlineage_event env t payload db = Inr (db', a)" and "\<not> ia_idempotent a" and u: "unique_key edge_id (db_edges db)"
  obtains new where "unique_key edge_id (db_edges db')" "edge_keys db \<subseteq> edge_keys db'"
    "\<And>q. tenant_key q \<notin> Pair t ` fst ` set (lineage_edges (ia_event_id a) (jobj payload)) \<Longrightarrow> tenant_key q \<in> edge_keys db \<Longrightarrow>
       scalar (mirror_of q) (db_edges db') = scalar (mirror_of q) (db_edges db)"
proof -
  let ?ws = "lineage_edges (ia_event_id a) (jobj payload)"
  obtain stored added n where e: "ensure_edges t ?ws (db_edges db, []) = ((stored, added), n)"
    and db': "db_edges db' = insert_edges env t added stored"
    by (rule ingest_new[OF assms(1,2)])
  obtain new where new: "db_edges db' = stored @ new" using insert_edges_spec[of env t added stored] db' by auto
  have keys: "map (\<lambda>e. (edge_tenant_id e, edge_key e)) stored = map (\<lambda>e. (edge_tenant_id e, edge_key e)) (db_edges db)"
    using ensure_edges_spec[OF e] by (intro same_but_metadata) blast
  have meta: "map (edge_metadata_json_update (\<lambda>_. JNull)) stored = map (edge_metadata_json_update (\<lambda>_. JNull)) (db_edges db)"
    using ensure_edges_spec[OF e] by blast
  have "map edge_id stored = map edge_id (db_edges db)"
    using arg_cong[OF meta, of "map edge_id"] by (simp add: o_def)
  then have us: "unique_key edge_id stored" using u by (simp add: unique_key_def)
  have ek: "edge_keys db \<subseteq> edge_keys db'" using arg_cong[OF keys, of set] by (auto simp: edge_keys_def new)
  have same: "scalar (mirror_of q) (db_edges db') = scalar (mirror_of q) (db_edges db)"
    if q: "tenant_key q \<notin> Pair t ` fst ` set ?ws" "tenant_key q \<in> edge_keys db" for q
  proof -
    from q(2) obtain x where "x \<in> set (db_edges db)" "mirror_of q x" by (auto simp: edge_keys_def mirror_of_def tenant_key_def)
    then obtain y where "scalar (mirror_of q) (db_edges db) = Some y" by (metis scalar_ex)
    with ensure_edges_other[OF e u q(1)] show ?thesis by (simp add: new scalar_append)
  qed
  show thesis by (rule that[OF _ ek same]) (simp add: db' insert_edges_unique[OF us])
qed

lemma ai_ok_edges: "db_edges db' = db_edges db \<Longrightarrow> ai_ok fmt K (db, ail) \<Longrightarrow> ai_ok fmt K (db', ail)"
  by (simp add: ai_ok_def mirrored_but_def mirrored_def linked_def edge_keys_def)

lemma joined_ok:
  assumes "db_edges db' = db_edges db @ new" and "unique_key edge_id (db_edges db')" and ok: "ai_ok fmt K (db, ail)"
  shows "ai_ok fmt K (db', ail)"
proof -
  have "mirrored fmt db r \<Longrightarrow> mirrored fmt db' r" for r
    by (auto simp: mirrored_def assms(1) scalar_append)
  with ok assms(2) show ?thesis by (auto simp: ai_ok_def mirrored_but_def linked_def edge_keys_def assms(1))
qed

lemma ingested_ok:
  assumes i: "ingest_openlineage_event env t payload db = Inr (db', a)" and ok: "ai_ok fmt K (db, ail)"
  shows "ai_ok fmt (if ia_idempotent a then K else K \<union> Pair t ` fst ` set (lineage_edges (ia_event_id a) (jobj payload))) (db', ail)"
proof (cases "ia_idempotent a")
  case True
  with ingest_known[OF i] ok show ?thesis by simp
next
  case False
  let ?ks = "Pair t ` fst ` set (lineage_edges (ia_event_id a) (jobj payload))"
  have "unique_key edge_id (db_edges db)" using ok by (simp add: ai_ok_def mirrored_but_def)
  then obtain e: "unique_key edge_id (db_edges db')" "edge_keys db \<subseteq> edge_keys db'"
    "\<And>q. tenant_key q \<notin> ?ks \<Longrightarrow> tenant_key q \<in> edge_keys db \<Longrightarrow>
       scalar (mirror_of q) (db_edges db') = scalar (mirror_of q) (db_edges db)"
    by (rule ingested_edges[OF i False]) blast
  have "mirrored fmt db' r" if "r \<in> set (ail_relationships ail)" "tenant_key r \<notin> K \<union> ?ks" for r
    using that e(3)[of r] ok by (auto simp: ai_ok_def mirrored_but_def mirrored_def linked_def)
  with ok e(1,2) False show ?thesis by (auto simp: ai_ok_def mirrored_but_def linked_def)
qed

lemma ai_op_step_ok: "ai_op_step fmt op s s' \<Longrightarrow> ai_ok fmt K s \<Longrightarrow> ai_ok fmt (after_op op K) s'"
proof (induction rule: ai_op_step.induct)
  case (observed env uuid t ev k at' m by' s s' x rel again)
  with observe_ok[of env K s uuid t ev k at' m by' s' x rel again] show ?case by (cases again) simp_all
next
  case (ingested env t payload db db' a ail)
  from ingested_ok[OF ingested] show ?case by (cases "ia_idempotent a") (simp_all add: image_image)
next
  case (declared env uuid t k expected m by' s s' r new)
  with declare_ok[of env K s uuid t k expected m by' s' r new] show ?case by simp
qed (auto intro: ai_ok_edges created_edges updated_edges joined_ok)

lemma run_ok: "ai_run fmt ops s \<Longrightarrow> ai_ok fmt (rewritten ops) s"
proof (induction rule: ai_run.induct)
  case (start db)
  then show ?case
    by (simp add: ai_ok_def register_ok_def mirrored_but_def no_lineage_def unique_key_def linked_def)
next
  case (step ops s op s')
  from ai_op_step_ok[OF step(2) step(3)] show ?case by (simp add: rewritten_def)
qed

lemma reachable_ok: "ai_reachable fmt s \<Longrightarrow> \<exists>K. ai_ok fmt K s"
  unfolding ai_reachable_def using run_ok by blast

lemma reachable_step: "ai_reachable fmt s \<Longrightarrow> (ai_step fmt)\<^sup>*\<^sup>* s s' \<Longrightarrow> ai_reachable fmt s'"
proof (rotate_tac, induction rule: rtranclp_induct)
  case (step y z)
  then show ?case by (auto simp: ai_reachable_def ai_step_def intro: ai_run.step)
qed

text \<open>Observations are only ever appended.\<close>

lemma declare_observations:
  "declare_relationship env uuid t k expected m by' s = Inr (s', r, new) \<Longrightarrow> ail_observations (snd s') = ail_observations (snd s)"
  by (cases s; cases "find_relationship (snd s) t k")
    (auto simp: declare_relationship_def result_simps Let_def replace_relationship_def insert_relationship_def)

lemma observe_observations:
  "observe_relationship env uuid t ev k at' m by' s = Inr (s', x, rel, again) \<Longrightarrow>
     \<exists>xs. ail_observations (snd s') = ail_observations (snd s) @ xs"
  using observe_again[of env uuid t ev k at' m by' s s' x rel]
  by (cases s; cases again) (auto elim!: observe_new)

lemma ai_step_observations: "ai_step fmt s s' \<Longrightarrow> \<exists>xs. ail_observations (snd s') = ail_observations (snd s) @ xs"
  unfolding ai_step_def
  by (elim exE, erule ai_op_step.cases) (auto dest: declare_observations observe_observations)

lemma ai_steps_observations: "(ai_step fmt)\<^sup>*\<^sup>* s s' \<Longrightarrow> \<exists>xs. ail_observations (snd s') = ail_observations (snd s) @ xs"
proof (induction rule: rtranclp_induct)
  case (step y z)
  from step.IH ai_step_observations[OF step.hyps(2)] show ?case by auto
qed simp

section \<open>Properties\<close>

text \<open>
  C27: Through any run of declarations, observations, changes of resources, OpenLineage events and additions of edges, a
  relationship counts exactly the observations recorded for it, and its first and last times are those of the observations
  recorded first and last; every observation belongs to the relationship between the ends it names. The tenant's graph
  always holds an edge between the ends of a relationship, and its metadata is the current state of the relationship unless
  an OpenLineage event that names this edge was ingested after the relationship was last declared or observed.
\<close>

theorem lineage_mirrored:
  assumes "ai_run fmt ops (db, ail)"
  shows "(\<forall>r \<in> set (ail_relationships ail).
       rel_observation_count r = length (observations_of ail r) \<and>
       rel_first_observed_at r = (if observations_of ail r = [] then None else Some (obs_observed_at (hd (observations_of ail r)))) \<and>
       rel_last_observed_at r = (if observations_of ail r = [] then None else Some (obs_observed_at (last (observations_of ail r)))) \<and>
       (\<exists>e \<in> set (db_edges db). edge_tenant_id e = rel_tenant_id r \<and> edge_key e = rel_key r \<and>
          ((rel_tenant_id r, rel_key r) \<notin> rewritten ops \<longrightarrow> edge_metadata_json e = edge_mirror fmt r))) \<and>
    (\<forall>x \<in> set (ail_observations ail). \<exists>r \<in> set (ail_relationships ail). x \<in> set (observations_of ail r) \<and> rel_key r = obs_key x)"
proof (intro conjI ballI)
  note ok = run_ok[OF assms]
  {
    fix r assume r: "r \<in> set (ail_relationships ail)"
    with ok have c: "counted ail r" by (simp add: ai_ok_def register_ok_def)
    then show "rel_observation_count r = length (observations_of ail r)" by (simp add: counted_def)
    show "rel_first_observed_at r = (if observations_of ail r = [] then None else Some (obs_observed_at (hd (observations_of ail r))))"
      using c by (auto simp: counted_def split: list.splits)
    show "rel_last_observed_at r = (if observations_of ail r = [] then None else Some (obs_observed_at (last (observations_of ail r))))"
      using c by (cases "observations_of ail r" rule: rev_cases) (auto simp: counted_def)
    show "\<exists>e \<in> set (db_edges db). edge_tenant_id e = rel_tenant_id r \<and> edge_key e = rel_key r \<and>
        ((rel_tenant_id r, rel_key r) \<notin> rewritten ops \<longrightarrow> edge_metadata_json e = edge_mirror fmt r)"
    proof (cases "tenant_key r \<in> rewritten ops")
      case True
      from ok r have "tenant_key r \<in> edge_keys db" by (auto simp: ai_ok_def linked_def)
      with True show ?thesis by (auto simp: edge_keys_def tenant_key_def)
    next
      case False
      with ok r have "mirrored fmt db r" by (simp add: ai_ok_def mirrored_but_def)
      then obtain e where "scalar (mirror_of r) (db_edges db) = Some e" "edge_metadata_json e = edge_mirror fmt r" by (auto simp: mirrored_def)
      then show ?thesis using scalar_Some[of "mirror_of r"] by (auto simp: mirror_of_def)
    qed
  next
    fix x assume "x \<in> set (ail_observations ail)"
    then show "\<exists>r \<in> set (ail_relationships ail). x \<in> set (observations_of ail r) \<and> rel_key r = obs_key x"
      using ok by (auto simp: ai_ok_def register_ok_def observations_of_def set_where_rows)
  }
qed

text \<open>
  C28: An observation is recorded once per event id. It is flagged as drift exactly when the tenant had not declared that
  relationship as expected; whatever happens later, reporting the event again for the same relationship returns the
  recorded observation and changes nothing, whatever time and metadata it carries, and reporting it for another
  relationship is refused.
\<close>

theorem observation_recorded_once:
  assumes "ai_reachable fmt s" and "env_isoformat env = fmt"
    and o: "observe_relationship env uuid t ev k at' m by' s = Inr (s1, x, rel, False)" and later: "(ai_step fmt)\<^sup>*\<^sup>* s1 s2"
  shows "obs_drift_detected x = (\<not> (\<exists>r \<in> set (ail_relationships (snd s)). rel_tenant_id r = t \<and> rel_key r = k \<and> rel_expected r)) \<and>
    (\<exists>r \<in> set (ail_relationships (snd s2)). rel_tenant_id r = t \<and> rel_key r = k \<and>
      (\<forall>env' uuid' k' at'' m' who. observe_relationship env' uuid' t ev k' at'' m' who s2 =
         (if k' = k then Inr (s2, x, Some r, True)
          else Inl (ValueError ''AI lineage event id was already used for a different relationship''))))"
proof -
  obtain db ail where s: "s = (db, ail)" by (cases s)
  obtain K where ok: "ai_ok fmt K s" using reachable_ok[OF assms(1)] ..
  from o obtain mm ail1 r where none: "find_observation ail t ev = None" and rel: "observed_relationship env uuid t k by' ail = Inr (ail1, r)"
    and x: "x = new_observation env ail t ev k r mm (drop_tzinfo at')"
    and s1: "s1 = (sync_graph_edge env (counted_relationship (env_now env) (drop_tzinfo at') r) db,
       (replace_relationship (counted_relationship (env_now env) (drop_tzinfo at') r) ail1)\<lparr>ail_observations := ail_observations ail @ [x]\<rparr>)"
    unfolding s by (rule observe_new)
  note f = observed_relationship_Inr[OF ok[unfolded s] rel]
  have active: "rel_status r = ''active''" 
  proof -
    from f have "register_ok ail1" "r \<in> set (ail_relationships ail1)" by blast+
    then have "counted ail1 r" by (simp add: register_ok_def)
    then show ?thesis by (simp add: counted_def)
  qed
  have uk: "unique_key tenant_key (ail_relationships ail)" using ok by (simp add: s ai_ok_def register_ok_def)
  have drift: "obs_drift_detected x = (\<not> (\<exists>r \<in> set (ail_relationships ail). rel_tenant_id r = t \<and> rel_key r = k \<and> rel_expected r))"
  proof (cases "find_relationship ail t k")
    case (Some e)
    with f have e: "r = e" by simp
    note fs = find_relationship_Some[OF Some]
    have only: "q = e" if "q \<in> set (ail_relationships ail)" "rel_tenant_id q = t" "rel_key q = k" for q
      using unique_key_eq[OF uk that(1) fs(1)] that fs by (simp add: tenant_key_def)
    have "(\<exists>q \<in> set (ail_relationships ail). rel_tenant_id q = t \<and> rel_key q = k \<and> rel_expected q) = rel_expected e"
      using fs only by blast
    then show ?thesis using active by (simp add: x new_observation_simps e)
  next
    case None
    with f have "\<not> rel_expected r" by simp
    with None show ?thesis
      by (auto simp: x new_observation_simps find_relationship_def scalar_None relationship_of_def)
  qed
  have s1_reach: "ai_reachable fmt s1"
    by (rule reachable_step[OF assms(1) r_into_rtranclp]) (use observed[OF assms(2) o] in \<open>auto simp: ai_step_def\<close>)
  from reachable_ok[OF reachable_step[OF this later]] obtain K2 where ok2: "ai_ok fmt K2 s2" ..
  obtain xs where xs: "ail_observations (snd s2) = (ail_observations ail @ [x]) @ xs"
    using ai_steps_observations[OF later] by (auto simp: s1)
  have found: "find_observation (snd s2) t ev = Some x"
    using none unfolding find_observation_def xs scalar_append
    by (auto simp: scalar_Cons event_of_def x new_observation_simps)
  obtain r2 where r2: "r2 \<in> set (ail_relationships (snd s2))" "of_relationship r2 x" "rel_key r2 = obs_key x"
    using ok2 xs by (auto simp: ai_ok_def register_ok_def)
  have k: "obs_key x = k" by (simp add: x new_observation_simps)
  have rel2: "scalar (\<lambda>r. rel_tenant_id r = t \<and> rel_relationship_id r = obs_relationship_id x) (ail_relationships (snd s2)) = Some r2"
  proof (rule scalar_unique[of tenant_rel_id])
    show "unique_key tenant_rel_id (ail_relationships (snd s2))" using ok2 by (simp add: ai_ok_def register_ok_def)
    show "rel_tenant_id r2 = t \<and> rel_relationship_id r2 = obs_relationship_id x"
      using r2(2) by (simp add: of_relationship_def x new_observation_simps)
    then show "\<And>r'. rel_tenant_id r' = t \<and> rel_relationship_id r' = obs_relationship_id x \<Longrightarrow> tenant_rel_id r' = tenant_rel_id r2"
      by (simp add: tenant_rel_id_def)
  qed (rule r2(1))
  have again: "observe_relationship env' uuid' t ev k' at'' m' who s2 = (if k' = k then Inr (s2, x, Some r2, True)
      else Inl (ValueError ''AI lineage event id was already used for a different relationship''))" for env' uuid' k' at'' m' who
    using found rel2 k by (cases s2) (simp add: observe_relationship_def)
  have "rel_tenant_id r2 = t" using r2(2) by (simp add: of_relationship_def x new_observation_simps)
  with drift again r2 k show ?thesis by (auto simp: s)
qed


text \<open>A declared flow between two datasets, observed twice: the second report is of an earlier time.\<close>

definition feeds :: edge_key where
  "feeds = ((''dataset'', ''a''), ''feeds'', (''dataset'', ''b''))"

definition observe_feeds :: "string \<Rightarrow> time \<Rightarrow> ai_state \<Rightarrow> (ai_state \<times> lineage_observation \<times> ai_relationship option \<times> bool) result" where
  "observe_feeds ev t s =
     observe_relationship base_env ''u2'' ''default'' ev feeds \<lparr>dt_wall = t, dt_offset = None\<rparr> (JObj []) ''probe'' s"

definition feeds_run :: "(ai_state \<times> ai_state \<times> lineage_observation \<times> ai_state) result" where
  "feeds_run =
     rbind (declare_relationship base_env ''u1'' ''default'' feeds True (JObj []) ''owner'' (empty_db, no_lineage)) (\<lambda>(s1, _, _).
     rbind (observe_feeds ''e1'' 200 s1) (\<lambda>(s2, x, _, again1).
     rbind (observe_feeds ''e2'' 100 s2) (\<lambda>(s3, _, _, again2).
     if again1 \<or> again2 then Inl (OtherError []) else Inr (s1, s2, x, s3))))"

lemma feeds_ok:
  "ok_with (\<lambda>(s1, s2, x, s3). map rel_observation_count (ail_relationships (snd s3)) = [2] \<and>
     map rel_first_observed_at (ail_relationships (snd s3)) = [Some 200] \<and>
     map rel_last_observed_at (ail_relationships (snd s3)) = [Some 100] \<and>
     map rel_expected (ail_relationships (snd s1)) = [True] \<and> map rel_key (ail_relationships (snd s1)) = [feeds] \<and>
     map rel_tenant_id (ail_relationships (snd s1)) = [''default'']) feeds_run"
  by code_simp

lemma feeds_steps:
  obtains s1 s2 x rel s3 where "ai_reachable (env_isoformat base_env) s1" "observe_feeds ''e1'' 200 s1 = Inr (s2, x, rel, False)"
    "(ai_step (env_isoformat base_env))\<^sup>*\<^sup>* s2 s3"
    "ai_run (env_isoformat base_env) [OpMirrored ''default'' feeds, OpMirrored ''default'' feeds, OpMirrored ''default'' feeds] s3"
    "map rel_observation_count (ail_relationships (snd s3)) = [2]"
    "map rel_first_observed_at (ail_relationships (snd s3)) = [Some 200]"
    "map rel_last_observed_at (ail_relationships (snd s3)) = [Some 100]"
    "map rel_expected (ail_relationships (snd s1)) = [True]" "map rel_key (ail_relationships (snd s1)) = [feeds]"
    "map rel_tenant_id (ail_relationships (snd s1)) = [''default'']"
proof -
  obtain p where p: "feeds_run = Inr p" and P: "(case p of (s1, s2, x, s3) \<Rightarrow> map rel_observation_count (ail_relationships (snd s3)) = [2] \<and>
     map rel_first_observed_at (ail_relationships (snd s3)) = [Some 200] \<and>
     map rel_last_observed_at (ail_relationships (snd s3)) = [Some 100] \<and>
     map rel_expected (ail_relationships (snd s1)) = [True] \<and> map rel_key (ail_relationships (snd s1)) = [feeds] \<and>
     map rel_tenant_id (ail_relationships (snd s1)) = [''default''])" by (rule ok_withE[OF feeds_ok])
  obtain s1 s2 x s3 where pp: "p = (s1, s2, x, s3)" by (cases p)
  have run: "feeds_run = Inr (s1, s2, x, s3)"
    and facts: "map rel_observation_count (ail_relationships (snd s3)) = [2]"
    "map rel_first_observed_at (ail_relationships (snd s3)) = [Some 200]"
    "map rel_last_observed_at (ail_relationships (snd s3)) = [Some 100]"
    "map rel_expected (ail_relationships (snd s1)) = [True]" "map rel_key (ail_relationships (snd s1)) = [feeds]"
    "map rel_tenant_id (ail_relationships (snd s1)) = [''default'']"
    using p P by (simp_all add: pp)
  from run obtain r c rel rel' y where
    d: "declare_relationship base_env ''u1'' ''default'' feeds True (JObj []) ''owner'' (empty_db, no_lineage) = Inr (s1, r, c)"
    and o1: "observe_feeds ''e1'' 200 s1 = Inr (s2, x, rel, False)" and o2: "observe_feeds ''e2'' 100 s2 = Inr (s3, y, rel', False)"
    by (auto simp: feeds_run_def result_simps split: if_splits)
  let ?fmt = "env_isoformat base_env"
  have "ai_run ?fmt [] (empty_db, no_lineage)"
    by (rule ai_run.start) (simp add: unique_key_def empty_db_def)
  from ai_run.step[OF this declared[OF refl d]] have run1: "ai_run ?fmt [OpMirrored ''default'' feeds] s1" by simp
  have st: "ai_op_step ?fmt (OpMirrored ''default'' feeds) s1 s2" "ai_op_step ?fmt (OpMirrored ''default'' feeds) s2 s3"
    using observed[OF refl o1[unfolded observe_feeds_def]] observed[OF refl o2[unfolded observe_feeds_def]] by simp_all
  from ai_run.step[OF ai_run.step[OF run1 st(1)] st(2)]
  have run3: "ai_run ?fmt [OpMirrored ''default'' feeds, OpMirrored ''default'' feeds, OpMirrored ''default'' feeds] s3" by simp
  have r1: "ai_reachable ?fmt s1" unfolding ai_reachable_def using run1 by blast
  have s3: "(ai_step ?fmt)\<^sup>*\<^sup>* s2 s3" unfolding ai_step_def using st(2) by blast
  show thesis by (rule that[OF r1 o1 s3 run3 facts])
qed

theorem lineage_mirrored_witness:
  "\<exists>ops db ail r. ai_run (env_isoformat base_env) ops (db, ail) \<and> rewritten ops = {} \<and> ail_relationships ail = [r] \<and>
     length (observations_of ail r) = 2 \<and>
     (\<exists>e \<in> set (db_edges db). edge_metadata_json e = edge_mirror (env_isoformat base_env) r) \<and>
     rel_first_observed_at r = Some 200 \<and> rel_last_observed_at r = Some 100"
proof -
  let ?ops = "[OpMirrored ''default'' feeds, OpMirrored ''default'' feeds, OpMirrored ''default'' feeds]"
  obtain s1 s2 x rel s3 where r3: "ai_run (env_isoformat base_env) ?ops s3"
    and f: "map rel_observation_count (ail_relationships (snd s3)) = [2]" "map rel_first_observed_at (ail_relationships (snd s3)) = [Some 200]"
      "map rel_last_observed_at (ail_relationships (snd s3)) = [Some 100]" by (rule feeds_steps)
  obtain db ail where s3: "s3 = (db, ail)" by (cases s3)
  from f(1) s3 obtain r where r: "ail_relationships ail = [r]" "rel_observation_count r = 2" by auto
  have w: "rewritten ?ops = {}" by (simp add: rewritten_def)
  have "rel_observation_count r = length (observations_of ail r)" "\<exists>e \<in> set (db_edges db). edge_metadata_json e = edge_mirror (env_isoformat base_env) r"
    using lineage_mirrored[OF r3[unfolded s3]] r(1) w by auto
  with r f s3 r3 w show ?thesis by (intro exI[of _ ?ops] exI[of _ db] exI[of _ ail] exI[of _ r]) simp
qed

text \<open>An event that names the edge of a declared flow replaces its metadata.\<close>

definition flow :: edge_key where
  "flow = ((''dataset'', ''n/a''), ''transforms_into'', (''dataset'', ''n/b''))"

lemma event_rewrites_mirror:
  assumes "ingest_openlineage_event base_env ''default'' sample_event db = Inr (db', a)" and "\<not> ia_idempotent a"
  shows "ai_op_step fmt (OpIngested ''default'' (map fst (lineage_edges (ia_event_id a) (jobj sample_event)))) (db, ail) (db', ail) \<and>
         flow \<in> set (map fst (lineage_edges (ia_event_id a) (jobj sample_event)))"
proof
  from ingested[OF assms(1), of fmt ail] assms(2)
  show "ai_op_step fmt (OpIngested ''default'' (map fst (lineage_edges (ia_event_id a) (jobj sample_event)))) (db, ail) (db', ail)" by simp
  show "flow \<in> set (map fst (lineage_edges (ia_event_id a) (jobj sample_event)))"
    by (simp add: lineage_edges_def sample_event_def flow_def Let_def dataset_ids_def dataset_id_def py_get_def py_get_default_def)
qed

theorem observation_recorded_once_witness:
  "\<exists>s1 s2 x rel s3. observe_feeds ''e1'' 200 s1 = Inr (s2, x, rel, False) \<and> \<not> obs_drift_detected x \<and>
     (\<exists>r. observe_feeds ''e1'' 300 s3 = Inr (s3, x, Some r, True))"
proof -
  obtain s1 s2 x rel s3 where r1: "ai_reachable (env_isoformat base_env) s1" and o1: "observe_feeds ''e1'' 200 s1 = Inr (s2, x, rel, False)"
    and s3: "(ai_step (env_isoformat base_env))\<^sup>*\<^sup>* s2 s3"
    and f: "map rel_expected (ail_relationships (snd s1)) = [True]" "map rel_key (ail_relationships (snd s1)) = [feeds]"
    "map rel_tenant_id (ail_relationships (snd s1)) = [''default'']" by (rule feeds_steps)
  note t = observation_recorded_once[OF r1 refl o1[unfolded observe_feeds_def] s3]
  have "\<not> obs_drift_detected x" using t f by auto
  moreover from t obtain r where again: "\<forall>env' uuid' k' at'' m' who. observe_relationship env' uuid' ''default'' ''e1'' k' at'' m' who s3 =
         (if k' = feeds then Inr (s3, x, Some r, True)
          else Inl (ValueError ''AI lineage event id was already used for a different relationship''))" by blast
  have "observe_feeds ''e1'' 300 s3 = Inr (s3, x, Some r, True)"
    unfolding observe_feeds_def again[THEN spec, THEN spec, THEN spec, THEN spec, THEN spec, THEN spec] by simp
  ultimately show ?thesis using o1 by blast
qed

end
