(* ===== verification/GenaiTelemetry.thy ===== *)
theory GenaiTelemetry
  imports AiLineage
begin

text \<open>
  \<open>app/services/genai_telemetry.py\<close> with its routes in \<open>app/v19.py\<close>: the ingestion of OpenTelemetry traces. A GenAI span
  becomes an event without its content, a model that is not registered becomes a resource in review, and a known agent is
  observed to invoke the model. The session does not flush before a query, so an event added in a request is found by the
  request's own queries only once something has flushed it: the rows added and not yet flushed are kept apart. An
  operation reads the clock once; the doubles of the code are the rationals they denote, rounded where it rounds.
\<close>

section \<open>Numbers\<close>

function bit_length :: "int \<Rightarrow> int" where
  "bit_length n = (if n \<le> 0 then 0 else 1 + bit_length (n div 2))"
  by auto
termination by (relation "measure nat") auto

declare bit_length.simps [simp del]

definition half_even :: "rat \<Rightarrow> int" where
  "half_even x = (let n = \<lfloor>x\<rfloor>; r = x - of_int n in
     if r < 1 / 2 then n else if 1 / 2 < r then n + 1 else if even n then n else n + 1)"

text \<open>The double nearest to a rational: 53 significant bits, ties to even.\<close>

definition to_double :: "rat \<Rightarrow> rat" where
  "to_double x =
     (if x = 0 then 0
      else case quotient_of \<bar>x\<bar> of (p, q) \<Rightarrow>
        let e0 = bit_length p - bit_length q - 53;
            e = (if \<bar>x\<bar> / 2 powi e0 < 2 ^ 53 then e0 else e0 + 1)
        in of_int (half_even (x / 2 powi e)) * 2 powi e)"

text \<open>\<open>n / d\<close> on integers.\<close>

definition true_div :: "int \<Rightarrow> int \<Rightarrow> rat result" where
  "true_div n d = (let x = to_double (of_int n / of_int d) in
     if \<bar>x\<bar> \<ge> 2 ^ 1024 then Inl (OtherError ''OverflowError'') else Inr x)"

text \<open>\<open>datetime.fromtimestamp(x, tz=UTC).replace(tzinfo=None)\<close> for a time after the epoch.\<close>

definition from_timestamp :: "rat \<Rightarrow> time result" where
  "from_timestamp x =
     (let t = \<lfloor>x\<rfloor> * 1000000 + half_even (to_double ((x - of_int \<lfloor>x\<rfloor>) * 1000000)); s = t div 1000000 in
      if s \<ge> 2 ^ 63 then Inl (OtherError ''OverflowError'')
      else if s > 67768036191676799 then Inl (OSError ''Value too large for defined data type'')
      else if s \<ge> 253402300800 then Inl (ValueError ''year is out of range'')
      else Inr t)"

text \<open>\<open>int(v)\<close>, where a \<open>TypeError\<close> or a \<open>ValueError\<close> is \<open>None\<close>.\<close>

definition int_of_json :: "json \<Rightarrow> int option" where
  "int_of_json v = (case v of
       JInt n \<Rightarrow> Some n | JBool b \<Rightarrow> Some (if b then 1 else 0) | JFloat r \<Rightarrow> Some (if 0 \<le> r then \<lfloor>r\<rfloor> else \<lceil>r\<rceil>)
     | JStr s \<Rightarrow> py_int_of_string s | _ \<Rightarrow> None)"

definition nonnegative_int :: "json \<Rightarrow> int" where
  "nonnegative_int v = (case int_of_json (if py_truthy v then v else JInt 0) of None \<Rightarrow> 0 | Some n \<Rightarrow> max 0 n)"

section \<open>Attributes\<close>

text \<open>The items a comprehension draws from a value.\<close>

definition not_iterable :: "json \<Rightarrow> bool" where
  "not_iterable v = (case v of JList xs \<Rightarrow> False | JObj d \<Rightarrow> False | JStr s \<Rightarrow> False | _ \<Rightarrow> True)"

definition scalar_items :: "json \<Rightarrow> json list" where
  "scalar_items v = (case v of JObj d \<Rightarrow> map (\<lambda>(k, x). JStr k) d | JStr s \<Rightarrow> map (\<lambda>c. JStr [c]) s | _ \<Rightarrow> [])"

definition first_key :: "string list \<Rightarrow> dict \<Rightarrow> json option" where
  "first_key ks d = (case find (\<lambda>k. dict_get d k \<noteq> None) ks of None \<Rightarrow> None | Some k \<Rightarrow> dict_get d k)"

lemma size_map_of: "map_of d k = Some v \<Longrightarrow> size v < size (JObj d)"
  by (induction d) (auto split: if_splits)

lemma size_py_get: "size (py_get d k) < size (JObj d)"
  by (cases "map_of d k") (auto simp: py_get_def dest: size_map_of)

lemma size_values: "size (py_get_default (jobj v) k (JList [])) \<le> size v" if "is_jobj v"
proof (cases v)
  case (JObj d)
  show ?thesis
  proof (cases "map_of d k")
    case (Some x)
    then show ?thesis using size_map_of[OF Some] by (simp add: JObj py_get_default_def)
  qed (simp add: JObj py_get_default_def)
qed (use that in simp_all)

lemma jlist_self: "is_jlist x \<Longrightarrow> JList (jlist x) = x"
  by (cases x) auto

lemma values_smaller:
  assumes "is_jobj v" "is_jobj (py_get (jobj v) k)" "is_jlist x" "x = py_get_default (jobj (py_get (jobj v) k)) ''values'' (JList [])"
  shows "size (JList (jlist x)) < size v"
proof -
  have "size (JList (jlist x)) = size x" using jlist_self[OF assms(3)] by simp
  also have "\<dots> \<le> size (py_get (jobj v) k)" unfolding assms(4) by (rule size_values[OF assms(2)])
  also have "\<dots> < size (JObj (jobj v))" by (rule size_py_get)
  also have "\<dots> = size v" using assms(1) by (cases v) auto
  finally show ?thesis .
qed

function any_value :: "json \<Rightarrow> json result" and attributes_onto :: "dict \<Rightarrow> json list \<Rightarrow> dict result"
    and any_values :: "json list \<Rightarrow> json list result" where
  "any_value v =
     (if \<not> is_jobj v then Inr v
      else case first_key [''stringValue'', ''intValue'', ''doubleValue'', ''boolValue''] (jobj v) of
        Some x \<Rightarrow> Inr x
      | None \<Rightarrow>
          if is_jobj (py_get (jobj v) ''arrayValue'')
          then (let items = py_get_default (jobj (py_get (jobj v) ''arrayValue'')) ''values'' (JList []) in
                if not_iterable items then Inl (TypeError ''object is not iterable'')
                else if is_jlist items then rbind (any_values (jlist items)) (\<lambda>xs. Inr (JList xs))
                else Inr (JList (scalar_items items)))
          else if is_jobj (py_get (jobj v) ''kvlistValue'')
          then (let items = py_get_default (jobj (py_get (jobj v) ''kvlistValue'')) ''values'' (JList []) in
                if is_jlist items then rbind (attributes_onto [] (jlist items)) (\<lambda>d. Inr (JObj d)) else Inr (JObj []))
          else Inr JNull)"
| "attributes_onto acc [] = Inr acc"
| "attributes_onto acc (item # items) =
     (if is_jobj item \<and> is_jstr (py_get (jobj item) ''key'')
      then rbind (any_value (py_get (jobj item) ''value'')) (\<lambda>x.
           attributes_onto (dict_set (jstr (py_get (jobj item) ''key'')) x acc) items)
      else attributes_onto acc items)"
| "any_values [] = Inr []"
| "any_values (x # xs) = rbind (any_value x) (\<lambda>y. rbind (any_values xs) (\<lambda>ys. Inr (y # ys)))"
  by pat_completeness auto

termination
proof (relation "measure (\<lambda>x. case x of Inl v \<Rightarrow> size v | Inr (Inl (acc, xs)) \<Rightarrow> size (JList xs) | Inr (Inr xs) \<Rightarrow> size (JList xs))", goal_cases)
  case (2 v x)
  then show ?case unfolding in_measure sum.case by (intro values_smaller) simp_all
next
  case (3 v x)
  then show ?case unfolding in_measure sum.case prod.case by (intro values_smaller) simp_all
next
  case (4 acc item items)
  with size_py_get[of "jobj item" "''value''"] show ?case by (cases item) auto
qed auto

declare any_value.simps [simp del]

definition attributes_of :: "json \<Rightarrow> dict result" where
  "attributes_of v = (if is_jlist v then attributes_onto [] (jlist v) else Inr [])"

text \<open>\<open>{**a, **b}\<close>.\<close>

definition merged :: "dict \<Rightarrow> dict \<Rightarrow> dict" where
  "merged a b = fold (\<lambda>(k, v) d. dict_set k v d) b a"

definition begins_with :: "string \<Rightarrow> string \<Rightarrow> bool" where
  "begins_with p s = (take (length p) s = p)"

definition CONTENT_ATTRIBUTE_PREFIXES :: "string list" where
  "CONTENT_ATTRIBUTE_PREFIXES =
     [''gen_ai.input.messages'', ''gen_ai.output.messages'', ''gen_ai.system_instructions'', ''gen_ai.prompt'',
      ''gen_ai.completion'', ''gen_ai.tool.call.arguments'', ''gen_ai.tool.call.result'', ''llm.prompts'', ''llm.completions'']"

definition content_key :: "string \<Rightarrow> bool" where
  "content_key k = list_ex (\<lambda>p. begins_with p k) CONTENT_ATTRIBUTE_PREFIXES"

definition is_genai_span :: "dict \<Rightarrow> bool" where
  "is_genai_span attributes = list_ex (\<lambda>(k, v). begins_with ''gen_ai.'' k) attributes"

lemma size_taken [termination_simp]: "x \<in> set (take n xs) \<Longrightarrow> size x \<le> size_list size xs"
  by (auto dest!: in_set_takeD intro: size_list_estimation' order.refl)

lemma size_taken_pair [termination_simp]:
  "(k, v) \<in> set (take n d) \<Longrightarrow> size v \<le> size_list (\<lambda>x. Suc (size (snd x))) d"
  by (force dest!: in_set_takeD intro!: size_list_estimation')

fun bounded_value :: "json \<Rightarrow> json" where
  "bounded_value (JStr s) = JStr (take 1024 s)"
| "bounded_value (JList xs) = JList (map bounded_value (take 50 xs))"
| "bounded_value (JObj d) =
     JObj (fold (\<lambda>(k, v) e. dict_set k v e) (map (\<lambda>(k, v). (take 160 k, bounded_value v)) (take 50 d)) [])"
| "bounded_value v = v"

definition kept_key :: "string \<Rightarrow> bool" where
  "kept_key k = (begins_with ''gen_ai.'' k \<or> begins_with ''opendatagraph.'' k \<or>
     k \<in> {''service.name'', ''deployment.environment.name'', ''cloud.region''})"

fun metadata_onto :: "dict \<Rightarrow> dict \<Rightarrow> dict" where
  "metadata_onto acc [] = acc"
| "metadata_onto acc ((k, v) # d) =
     (if content_key k then metadata_onto acc d
      else if kept_key k then metadata_onto (dict_set (take 160 k) (bounded_value v) acc) d
      else metadata_onto acc d)"

definition metadata_attributes :: "dict \<Rightarrow> dict \<times> bool" where
  "metadata_attributes attributes = (metadata_onto [] attributes, list_ex (\<lambda>(k, v). content_key k) attributes)"

definition bounded_text :: "env \<Rightarrow> json \<Rightarrow> nat \<Rightarrow> string" where
  "bounded_text env v n = (if v = JNull then [] else take n (py_strip (py_str (env_frepr env) v)))"

fun first_text :: "env \<Rightarrow> dict \<Rightarrow> string list \<Rightarrow> string" where
  "first_text env attributes [] = []"
| "first_text env attributes (k # ks) =
     (if py_get attributes k \<noteq> JNull then bounded_text env (py_get attributes k) 320 else first_text env attributes ks)"

definition finish_reasons :: "env \<Rightarrow> dict \<Rightarrow> string list" where
  "finish_reasons env attributes =
     (let v = py_get_default attributes ''gen_ai.response.finish_reasons'' (JList []);
          items = (if is_jstr v then [v] else jlist v)
      in filter (\<lambda>t. t \<noteq> []) (map (\<lambda>x. bounded_text env x 80) (take 20 items)))"

section \<open>Spans\<close>

definition span_time :: "env \<Rightarrow> dict \<Rightarrow> time result" where
  "span_time env sp =
     (let n = (case int_of_json (py_get_default sp ''startTimeUnixNano'' (JInt 0)) of None \<Rightarrow> 0 | Some n \<Rightarrow> n) in
      if n \<le> 0 then Inr (env_now env) else rbind (true_div n 1000000000) from_timestamp)"

definition duration_ms :: "dict \<Rightarrow> rat result" where
  "duration_ms sp =
     (case (int_of_json (py_get_default sp ''startTimeUnixNano'' (JInt 0)),
            int_of_json (py_get_default sp ''endTimeUnixNano'' (JInt 0))) of
        (Some b, Some e) \<Rightarrow> if b \<le> e then true_div (e - b) 1000000 else Inr 0
      | _ \<Rightarrow> Inr 0)"

text \<open>A span with the attributes of its resource and of its scope.\<close>

type_synonym span = "dict \<times> dict \<times> dict"

definition inner_attributes :: "json \<Rightarrow> dict result" where
  "inner_attributes v = attributes_of (if is_jobj v then py_get_default (jobj v) ''attributes'' (JList []) else JList [])"

fun scope_spans_of :: "dict \<Rightarrow> json list \<Rightarrow> span list result" where
  "scope_spans_of ra [] = Inr []"
| "scope_spans_of ra (x # xs) =
     (if \<not> is_jobj x then scope_spans_of ra xs
      else rbind (inner_attributes (py_get_default (jobj x) ''scope'' (JObj []))) (\<lambda>sa.
           rbind (scope_spans_of ra xs) (\<lambda>rest.
           Inr (map (\<lambda>s. (ra, sa, jobj s)) (filter is_jobj (jlist (py_get_default (jobj x) ''spans'' (JList [])))) @ rest))))"

fun resource_spans_of :: "json list \<Rightarrow> span list result" where
  "resource_spans_of [] = Inr []"
| "resource_spans_of (x # xs) =
     (if \<not> is_jobj x then resource_spans_of xs
      else rbind (inner_attributes (py_get_default (jobj x) ''resource'' (JObj []))) (\<lambda>ra.
           rbind (scope_spans_of ra (jlist (py_get_default (jobj x) ''scopeSpans''
                    (py_get_default (jobj x) ''instrumentationLibrarySpans'' (JList []))))) (\<lambda>ss.
           rbind (resource_spans_of xs) (\<lambda>rest. Inr (ss @ rest)))))"

definition spans_of :: "dict \<Rightarrow> span list result" where
  "spans_of payload =
     (let v = py_get_default payload ''resourceSpans'' (JList []) in
      rbind (raise_if (\<not> is_jlist v) (ValueError ''OTLP resourceSpans must be an array'')) (\<lambda>_. resource_spans_of (jlist v)))"

section \<open>Events\<close>

record telemetry_event =
  tel_id :: nat
  tel_tenant_id :: string
  tel_event_id :: string
  tel_trace_id :: string
  tel_span_id :: string
  tel_operation :: string
  tel_provider :: string
  tel_model :: string
  tel_agent_key :: string
  tel_input_tokens :: int
  tel_output_tokens :: int
  tel_duration_ms :: rat
  tel_finish_reasons_json :: "string list"
  tel_attributes_sha256 :: string
  tel_content_discarded :: bool
  tel_occurred_at :: time
  tel_created_at :: time

definition telemetry_event_of :: "string \<Rightarrow> string \<Rightarrow> telemetry_event \<Rightarrow> bool" where
  "telemetry_event_of tenant_id event_id e = (tel_tenant_id e = tenant_id \<and> tel_event_id e = event_id)"

definition new_telemetry_event :: "env \<Rightarrow> string \<Rightarrow> dict \<Rightarrow> dict \<Rightarrow> string \<Rightarrow> string \<Rightarrow> telemetry_event result" where
  "new_telemetry_event env tenant_id attributes sp trace_id span_id =
     (let meta = metadata_attributes attributes; operation = first_text env attributes [''gen_ai.operation.name''] in
      rbind (span_time env sp) (\<lambda>occurred_at.
      rbind (duration_ms sp) (\<lambda>duration.
      Inr \<lparr>tel_id = 0, tel_tenant_id = tenant_id, tel_event_id = ''otel:'' @ trace_id @ '':'' @ span_id,
           tel_trace_id = trace_id, tel_span_id = span_id,
           tel_operation = (if operation \<noteq> [] then operation else bounded_text env (py_get sp ''name'') 160),
           tel_provider = first_text env attributes [''gen_ai.provider.name'', ''gen_ai.system''],
           tel_model = first_text env attributes [''gen_ai.response.model'', ''gen_ai.request.model''],
           tel_agent_key = first_text env attributes [''opendatagraph.agent.key'', ''gen_ai.agent.id'', ''gen_ai.agent.name''],
           tel_input_tokens = nonnegative_int (py_get attributes ''gen_ai.usage.input_tokens''),
           tel_output_tokens = nonnegative_int (py_get attributes ''gen_ai.usage.output_tokens''),
           tel_duration_ms = duration, tel_finish_reasons_json = finish_reasons env attributes,
           tel_attributes_sha256 = env_sha256 env (canonical_json (env_frepr env) (JObj (fst meta))),
           tel_content_discarded = snd meta, tel_occurred_at = occurred_at, tel_created_at = env_now env\<rparr>)))"

text \<open>Writing the rows added so far: the event id is unique in the tenant.\<close>

fun flush_events :: "telemetry_event list \<Rightarrow> telemetry_event list \<Rightarrow> telemetry_event list result" where
  "flush_events stored [] = Inr stored"
| "flush_events stored (e # es) =
     rbind (raise_if (list_ex (telemetry_event_of (tel_tenant_id e) (tel_event_id e)) stored) (OtherError ''IntegrityError'')) (\<lambda>_.
     flush_events (stored @ [e\<lparr>tel_id := next_id tel_id stored\<rparr>]) es)"

section \<open>Ingestion\<close>

record ingestion =
  ing_state :: ai_state
  ing_stored :: "telemetry_event list"
  ing_added :: "telemetry_event list"
  ing_imported :: nat
  ing_duplicate :: nat
  ing_ignored :: nat
  ing_discovered :: nat
  ing_relationships :: nat
  ing_discarded :: nat
  ing_event_ids :: "string list"

definition flush_added :: "ingestion \<Rightarrow> ingestion result" where
  "flush_added st = rbind (flush_events (ing_stored st) (ing_added st)) (\<lambda>t. Inr (st\<lparr>ing_stored := t, ing_added := []\<rparr>))"

definition resource_key_of :: "env \<Rightarrow> string \<Rightarrow> string \<Rightarrow> string" where
  "resource_key_of env provider model =
     (let raw = ''otel-model:'' @ (if provider \<noteq> [] then provider else ''unknown'') @ '':'' @ model
      in if length raw \<le> 320 then raw else ''otel-model:'' @ env_sha256 env raw)"

definition discovered_resource :: "env \<Rightarrow> string \<Rightarrow> string \<Rightarrow> resource_create" where
  "discovered_resource env provider model =
     \<lparr>rc_resource_key = resource_key_of env provider model, rc_resource_type = ''model'', rc_name = take 240 model,
      rc_owner = ''unassigned'', rc_provider = take 160 provider, rc_region = [], rc_status = ResReview,
      rc_risk_tier = ''high'', rc_metadata = JObj [(''discovered_by'', JStr ''opentelemetry'')]\<rparr>"

definition discover_model ::
  "env \<Rightarrow> string \<Rightarrow> string \<Rightarrow> string \<Rightarrow> string \<Rightarrow> ingestion \<Rightarrow> (ingestion \<times> ai_resource) result" where
  "discover_model env tenant_id provider model recorded_by st =
     (case find_ai_resource (fst (ing_state st)) tenant_id (resource_key_of env provider model) of
        Some r \<Rightarrow> Inr (st, r)
      | None \<Rightarrow>
          rbind (create_ai_resource env tenant_id (discovered_resource env provider model) recorded_by (fst (ing_state st))) (\<lambda>(db, r).
          rbind (flush_added st) (\<lambda>st'.
          Inr (st'\<lparr>ing_state := (db, snd (ing_state st')), ing_discovered := Suc (ing_discovered st')\<rparr>, r))))"

definition known_agent :: "db \<Rightarrow> string \<Rightarrow> string \<Rightarrow> bool" where
  "known_agent db tenant_id k = (scalar (\<lambda>a. agent_tenant_id a = tenant_id \<and> agent_key a = k) (db_agents db) \<noteq> None)"

definition observe_invocation ::
  "env \<Rightarrow> string \<Rightarrow> string \<Rightarrow> string \<Rightarrow> telemetry_event \<Rightarrow> ai_resource \<Rightarrow> ingestion \<Rightarrow> ingestion result" where
  "observe_invocation env uuid tenant_id recorded_by e r st =
     rbind (observe_relationship env uuid tenant_id (tel_event_id e)
              ((''agent'', tel_agent_key e), ''invokes'', (''model'', res_resource_key r))
              \<lparr>dt_wall = tel_occurred_at e, dt_offset = None\<rparr>
              (JObj [(''source'', JStr ''opentelemetry''), (''provider'', JStr (tel_provider e))]) recorded_by (ing_state st))
       (\<lambda>(s', x, relation, idempotent).
     if idempotent then Inr st
     else rbind (flush_added st) (\<lambda>st'. Inr (st'\<lparr>ing_state := s', ing_relationships := Suc (ing_relationships st')\<rparr>)))"

definition observe_model :: "env \<Rightarrow> string \<Rightarrow> string \<Rightarrow> string \<Rightarrow> telemetry_event \<Rightarrow> ingestion \<Rightarrow> ingestion result" where
  "observe_model env uuid tenant_id recorded_by e st =
     (if tel_model e = [] then Inr st
      else rbind (discover_model env tenant_id (tel_provider e) (tel_model e) recorded_by st) (\<lambda>(st1, r).
        if tel_agent_key e \<noteq> [] \<and> known_agent (fst (ing_state st1)) tenant_id (tel_agent_key e)
        then observe_invocation env uuid tenant_id recorded_by e r st1 else Inr st1))"

definition import_event :: "telemetry_event \<Rightarrow> ingestion \<Rightarrow> ingestion" where
  "import_event e st = st\<lparr>ing_added := ing_added st @ [e], ing_imported := Suc (ing_imported st),
     ing_event_ids := ing_event_ids st @ [tel_event_id e],
     ing_discarded := ing_discarded st + (if tel_content_discarded e then 1 else 0)\<rparr>"

definition span_attributes :: "span \<Rightarrow> dict result" where
  "span_attributes x = (case x of (ra, sa, sp) \<Rightarrow>
     rbind (attributes_of (py_get_default sp ''attributes'' (JList []))) (\<lambda>pa. Inr (merged (merged ra sa) pa)))"

definition ingest_span :: "env \<Rightarrow> string \<Rightarrow> string \<Rightarrow> string \<Rightarrow> span \<Rightarrow> ingestion \<Rightarrow> ingestion result" where
  "ingest_span env uuid tenant_id recorded_by x st =
     rbind (span_attributes x) (\<lambda>attributes.
     let sp = snd (snd x); trace_id = bounded_text env (py_get sp ''traceId'') 64; span_id = bounded_text env (py_get sp ''spanId'') 64 in
     if \<not> is_genai_span attributes \<or> trace_id = [] \<or> span_id = [] then Inr (st\<lparr>ing_ignored := Suc (ing_ignored st)\<rparr>)
     else if scalar (telemetry_event_of tenant_id (''otel:'' @ trace_id @ '':'' @ span_id)) (ing_stored st) \<noteq> None
     then Inr (st\<lparr>ing_duplicate := Suc (ing_duplicate st)\<rparr>)
     else rbind (new_telemetry_event env tenant_id attributes sp trace_id span_id) (\<lambda>e.
          observe_model env uuid tenant_id recorded_by e (import_event e st)))"

fun ingest_spans :: "env \<Rightarrow> (nat \<Rightarrow> string) \<Rightarrow> string \<Rightarrow> string \<Rightarrow> nat \<Rightarrow> span list \<Rightarrow> ingestion \<Rightarrow> ingestion result" where
  "ingest_spans env uuids tenant_id recorded_by n [] st = Inr st"
| "ingest_spans env uuids tenant_id recorded_by n (x # xs) st =
     rbind (ingest_span env (uuids n) tenant_id recorded_by x st) (ingest_spans env uuids tenant_id recorded_by (Suc n) xs)"

record ingest_report =
  ig_imported :: nat
  ig_duplicates :: nat
  ig_ignored :: nat
  ig_discovered :: nat
  ig_relationships :: nat
  ig_discarded :: nat

definition batch_digest :: "env \<Rightarrow> string \<Rightarrow> string list \<Rightarrow> string" where
  "batch_digest env tenant_id ids =
     env_sha256 env (canonical_json (env_frepr env) (JObj [(''tenant_id'', JStr tenant_id), (''event_ids'', JList (map JStr (sort ids)))]))"

definition batch_payload :: "string \<Rightarrow> ingestion \<Rightarrow> json" where
  "batch_payload digest st = JObj
     [(''batch_sha256'', JStr digest), (''imported'', JInt (int (ing_imported st))), (''duplicates'', JInt (int (ing_duplicate st))),
      (''ignored'', JInt (int (ing_ignored st))), (''models_discovered'', JInt (int (ing_discovered st))),
      (''relationships_observed'', JInt (int (ing_relationships st))), (''content_discarded'', JInt (int (ing_discarded st)))]"

definition announce_batch :: "env \<Rightarrow> string \<Rightarrow> string \<Rightarrow> ingestion \<Rightarrow> db result" where
  "announce_batch env uuid tenant_id st =
     (if ing_imported st = 0 then Inr (fst (ing_state st))
      else let digest = batch_digest env tenant_id (ing_event_ids st) in
        rbind (queue_outbox_event env uuid (fst (ing_state st)) tenant_id ''telemetry-batch'' digest ''telemetry.genai.observed''
                 (batch_payload digest st) (Some (''genai-telemetry:'' @ digest))) (\<lambda>(db, e). Inr db))"

type_synonym telemetry_state = "ai_state \<times> telemetry_event list"

definition start_ingestion :: "telemetry_state \<Rightarrow> ingestion" where
  "start_ingestion s =
     \<lparr>ing_state = fst s, ing_stored = snd s, ing_added = [], ing_imported = 0, ing_duplicate = 0, ing_ignored = 0,
      ing_discovered = 0, ing_relationships = 0, ing_discarded = 0, ing_event_ids = []\<rparr>"

definition ingest_report_of :: "ingestion \<Rightarrow> ingest_report" where
  "ingest_report_of st =
     \<lparr>ig_imported = ing_imported st, ig_duplicates = ing_duplicate st, ig_ignored = ing_ignored st, ig_discovered = ing_discovered st,
      ig_relationships = ing_relationships st, ig_discarded = ing_discarded st\<rparr>"

definition MAX_OTLP_PAYLOAD_BYTES :: int where "MAX_OTLP_PAYLOAD_BYTES = 2 * 1024 * 1024"
definition MAX_OTLP_SPANS :: int where "MAX_OTLP_SPANS = 5000"

definition batch_limit :: "int \<Rightarrow> int" where
  "batch_limit batch_max = min (max 1 batch_max) MAX_OTLP_SPANS"

definition ingest_batch ::
  "env \<Rightarrow> int \<Rightarrow> (nat \<Rightarrow> string) \<Rightarrow> string \<Rightarrow> string \<Rightarrow> string \<Rightarrow> span list \<Rightarrow> telemetry_state \<Rightarrow> (telemetry_state \<times> ingest_report) result" where
  "ingest_batch env batch_max uuids uuid tenant_id recorded_by spans s =
     rbind (raise_if (int (length spans) > batch_limit batch_max)
              (ValueError (''OTLP request exceeds the configured limit of '' @ show_int (batch_limit batch_max) @ '' spans''))) (\<lambda>_.
     rbind (ingest_spans env uuids tenant_id recorded_by 0 spans (start_ingestion s)) (\<lambda>st.
     rbind (announce_batch env uuid tenant_id st) (\<lambda>db.
     rbind (flush_added st) (\<lambda>st'.
     Inr (((db, snd (ing_state st')), ing_stored st'), ingest_report_of st')))))"

definition ingest_otlp_genai ::
  "env \<Rightarrow> int \<Rightarrow> (nat \<Rightarrow> string) \<Rightarrow> string \<Rightarrow> string \<Rightarrow> dict \<Rightarrow> string \<Rightarrow> telemetry_state \<Rightarrow> (telemetry_state \<times> ingest_report) result" where
  "ingest_otlp_genai env batch_max uuids uuid tenant_id payload recorded_by s =
     rbind (raise_if (int (length (json_dumps (env_frepr env) '','' '':'' (JObj payload))) > MAX_OTLP_PAYLOAD_BYTES)
              (ValueError ''OTLP request exceeds 2 MiB'')) (\<lambda>_.
     rbind (spans_of payload) (\<lambda>spans. ingest_batch env batch_max uuids uuid tenant_id recorded_by spans s))"

definition telemetry_response :: "env \<Rightarrow> telemetry_event \<Rightarrow> dict" where
  "telemetry_response env e =
     [(''event_id'', JStr (tel_event_id e)), (''trace_id'', JStr (tel_trace_id e)), (''span_id'', JStr (tel_span_id e)),
      (''operation'', JStr (tel_operation e)), (''provider'', JStr (tel_provider e)), (''model'', JStr (tel_model e)),
      (''agent_key'', JStr (tel_agent_key e)), (''input_tokens'', JInt (tel_input_tokens e)), (''output_tokens'', JInt (tel_output_tokens e)),
      (''duration_ms'', JFloat (tel_duration_ms e)), (''finish_reasons'', JList (map JStr (tel_finish_reasons_json e))),
      (''attributes_sha256'', JStr (tel_attributes_sha256 e)), (''content_discarded'', JBool (tel_content_discarded e)),
      (''occurred_at'', jtime env (tel_occurred_at e)), (''created_at'', jtime env (tel_created_at e))]"

section \<open>Routes\<close>

definition genai_answer :: "ingest_report \<Rightarrow> dict" where
  "genai_answer a =
     [(''accepted'', JBool True), (''imported'', JInt (int (ig_imported a))), (''duplicates'', JInt (int (ig_duplicates a))),
      (''ignored'', JInt (int (ig_ignored a))), (''models_discovered'', JInt (int (ig_discovered a))),
      (''relationships_observed'', JInt (int (ig_relationships a))), (''content_discarded'', JInt (int (ig_discarded a)))]"

definition ingest_genai_traces ::
  "env \<Rightarrow> int \<Rightarrow> (nat \<Rightarrow> string) \<Rightarrow> string \<Rightarrow> principal \<Rightarrow> dict \<Rightarrow> telemetry_state \<Rightarrow> (telemetry_state \<times> dict) result" where
  "ingest_genai_traces env batch_max uuids uuid who payload s =
     rbind (require_role Analyst who) (\<lambda>_.
     rbind (bad_request (conflict_on_integrity ''Telemetry event conflicts with existing data''
              (ingest_otlp_genai env batch_max uuids uuid (p_tenant_id who) payload (p_subject who) s))) (\<lambda>(s', a).
     Inr (s', genai_answer a)))"

definition list_genai_events ::
  "env \<Rightarrow> principal \<Rightarrow> string option \<Rightarrow> string option \<Rightarrow> nat \<Rightarrow> telemetry_event list \<Rightarrow> dict list result" where
  "list_genai_events env who agent model n events =
     rbind (require_role Auditor who) (\<lambda>_.
     rbind (check_body (opt_field 0 320 agent \<and> opt_field 0 320 model \<and> 1 \<le> n \<and> n \<le> 1000)) (\<lambda>_.
     Inr (map (telemetry_response env) (take n (order_by_desc tel_occurred_at (where_rows (\<lambda>e. tel_tenant_id e = p_tenant_id who \<and>
       (truthy_opt agent \<longrightarrow> Some (tel_agent_key e) = agent) \<and> (truthy_opt model \<longrightarrow> Some (tel_model e) = model)) events))))))"


section \<open>What a batch adds\<close>

definition tel_key :: "telemetry_event \<Rightarrow> string \<times> string" where
  "tel_key e = (tel_tenant_id e, tel_event_id e)"

lemma event_known: "scalar (telemetry_event_of t ev) es = None \<longleftrightarrow> (t, ev) \<notin> tel_key ` set es"
  by (auto simp: scalar_None telemetry_event_of_def tel_key_def)

lemma flush_events_spec:
  "flush_events stored es = Inr t \<Longrightarrow>
     (\<exists>new. t = stored @ new \<and> map tel_key new = map tel_key es) \<and> (unique_key tel_key stored \<longrightarrow> unique_key tel_key t) \<and>
     distinct (map tel_key es) \<and> set (map tel_key es) \<inter> tel_key ` set stored = {}"
proof (induction es arbitrary: stored)
  case (Cons e es)
  let ?e = "e\<lparr>tel_id := next_id tel_id stored\<rparr>"
  have k: "tel_key ?e = tel_key e" by (simp add: tel_key_def)
  from Cons.prems have r: "flush_events (stored @ [?e]) es = Inr t" and f: "tel_key e \<notin> tel_key ` set stored"
    by (auto simp: result_simps list_ex_iff telemetry_event_of_def tel_key_def)
  from Cons.IH[OF r] obtain new where n: "t = (stored @ [?e]) @ new" "map tel_key new = map tel_key es"
    and u: "unique_key tel_key (stored @ [?e]) \<longrightarrow> unique_key tel_key t" and d: "distinct (map tel_key es)"
    and i: "set (map tel_key es) \<inter> tel_key ` set (stored @ [?e]) = {}" by blast
  have "unique_key tel_key stored \<longrightarrow> unique_key tel_key t" using u f by (simp add: unique_key_def k)
  moreover have "tel_key e \<notin> set (map tel_key es)" using i k by auto
  moreover have "map tel_key (?e # new) = map tel_key (e # es)" "t = stored @ ?e # new" using n k by simp_all
  moreover have "distinct (map tel_key (e # es))" using d calculation(2) by simp
  moreover have "set (map tel_key (e # es)) \<inter> tel_key ` set stored = {}" using f i by auto
  ultimately show ?case by blast
qed (simp add: unique_key_def)

text \<open>What a step of the loop may do besides counting: leave the added rows, or write them all.\<close>

definition settles :: "ingestion \<Rightarrow> ingestion \<Rightarrow> bool" where
  "settles st st' \<longleftrightarrow>
     ing_imported st' = ing_imported st \<and> ing_duplicate st' = ing_duplicate st \<and> ing_ignored st' = ing_ignored st \<and>
     (ing_stored st' = ing_stored st \<and> ing_added st' = ing_added st \<or>
      flush_events (ing_stored st) (ing_added st) = Inr (ing_stored st') \<and> ing_added st' = [])"

lemma settles_refl: "settles st st" by (simp add: settles_def)

lemma settles_trans: "settles a b \<Longrightarrow> settles b c \<Longrightarrow> settles a c"
  by (auto simp: settles_def)

lemma settles_fields:
  "settles a b \<Longrightarrow> ing_imported b' = ing_imported b \<Longrightarrow> ing_duplicate b' = ing_duplicate b \<Longrightarrow> ing_ignored b' = ing_ignored b \<Longrightarrow>
     ing_stored b' = ing_stored b \<Longrightarrow> ing_added b' = ing_added b \<Longrightarrow> settles a b'"
  by (simp add: settles_def)

lemma flush_settles: "flush_added st = Inr st' \<Longrightarrow> settles st st'"
  by (auto simp: flush_added_def result_simps settles_def)

lemma discover_settles: "discover_model env t p m by' st = Inr (st', r) \<Longrightarrow> settles st st'"
  by (auto simp: discover_model_def result_simps settles_refl split: option.splits elim!: settles_fields[OF flush_settles])

lemma invocation_settles: "observe_invocation env uuid t by' e r st = Inr st' \<Longrightarrow> settles st st'"
  by (auto simp: observe_invocation_def result_simps settles_refl split: if_splits elim!: settles_fields[OF flush_settles])

lemma observe_model_settles: "observe_model env uuid t by' e st = Inr st' \<Longrightarrow> settles st st'"
  by (auto simp: observe_model_def result_simps settles_refl split: if_splits
        dest!: discover_settles invocation_settles intro: settles_trans)

text \<open>The event id of a span, if it is one that is recorded.\<close>

definition span_event :: "env \<Rightarrow> span \<Rightarrow> string option result" where
  "span_event env x =
     rbind (span_attributes x) (\<lambda>attributes.
     let sp = snd (snd x); trace_id = bounded_text env (py_get sp ''traceId'') 64; span_id = bounded_text env (py_get sp ''spanId'') 64 in
     Inr (if \<not> is_genai_span attributes \<or> trace_id = [] \<or> span_id = [] then None
          else Some (''otel:'' @ trace_id @ '':'' @ span_id)))"

lemma span_event_env: "env_frepr env' = env_frepr env \<Longrightarrow> span_event env' x = span_event env x"
proof -
  assume "env_frepr env' = env_frepr env"
  then have "bounded_text env' = bounded_text env" by (intro ext) (simp add: bounded_text_def)
  then show ?thesis by (simp add: span_event_def)
qed

lemma ingest_span_ignored: "span_event env x = Inr None \<Longrightarrow> ingest_span env uuid t by' x st = Inr (st\<lparr>ing_ignored := Suc (ing_ignored st)\<rparr>)"
  by (auto simp: span_event_def ingest_span_def result_simps Let_def split: if_splits)

lemma ingest_span_duplicate:
  "span_event env x = Inr (Some ev) \<Longrightarrow> (t, ev) \<in> tel_key ` set (ing_stored st) \<Longrightarrow>
     ingest_span env uuid t by' x st = Inr (st\<lparr>ing_duplicate := Suc (ing_duplicate st)\<rparr>)"
  using event_known[of t ev "ing_stored st"]
  by (auto simp: span_event_def ingest_span_def result_simps Let_def split: if_splits)

lemma ingest_span_new:
  assumes "span_event env x = Inr (Some ev)" and "(t, ev) \<notin> tel_key ` set (ing_stored st)"
  shows "\<exists>a sp trace_id span_id. span_attributes x = Inr a \<and>
     ingest_span env uuid t by' x st = rbind (new_telemetry_event env t a sp trace_id span_id)
       (\<lambda>e. observe_model env uuid t by' e (import_event e st)) \<and>
     (\<forall>e. new_telemetry_event env t a sp trace_id span_id = Inr e \<longrightarrow> tel_key e = (t, ev) \<and>
        tel_model e = first_text env a [''gen_ai.response.model'', ''gen_ai.request.model''])"
proof -
  from assms(1) obtain a where a: "span_attributes x = Inr a" and g: "is_genai_span a"
    "bounded_text env (py_get (snd (snd x)) ''traceId'') 64 \<noteq> []" "bounded_text env (py_get (snd (snd x)) ''spanId'') 64 \<noteq> []"
    and ev: "ev = ''otel:'' @ bounded_text env (py_get (snd (snd x)) ''traceId'') 64 @ '':'' @ bounded_text env (py_get (snd (snd x)) ''spanId'') 64"
    by (auto simp: span_event_def result_simps Let_def split: if_splits)
  have none: "scalar (telemetry_event_of t ev) (ing_stored st) = None" using assms(2) by (simp add: event_known)
  define trace span_id where "trace = bounded_text env (py_get (snd (snd x)) ''traceId'') 64"
    and "span_id = bounded_text env (py_get (snd (snd x)) ''spanId'') 64"
  have "\<not> (\<not> is_genai_span a \<or> trace = [] \<or> span_id = [])" using g by (simp add: trace_def span_id_def)
  then have run: "ingest_span env uuid t by' x st = rbind (new_telemetry_event env t a (snd (snd x)) trace span_id)
       (\<lambda>e. observe_model env uuid t by' e (import_event e st))"
    unfolding ingest_span_def a rbind_simps Let_def trace_def[symmetric] span_id_def[symmetric]
    using none[unfolded ev trace_def[symmetric] span_id_def[symmetric]] by simp
  have "tel_key e = (t, ev) \<and> tel_model e = first_text env a [''gen_ai.response.model'', ''gen_ai.request.model'']"
    if "new_telemetry_event env t a (snd (snd x)) trace span_id = Inr e" for e
    using that unfolding ev trace_def[symmetric] span_id_def[symmetric]
    by (auto simp: new_telemetry_event_def Let_def result_simps tel_key_def simp del: first_text.simps)
  with a run show ?thesis by blast
qed

lemma ingest_span_event: "ingest_span env uuid t by' x st = Inr st' \<Longrightarrow> \<exists>o'. span_event env x = Inr o'"
  by (auto simp: span_event_def ingest_span_def result_simps Let_def)

text \<open>One span: it is counted once, and what it adds is kept.\<close>

definition adds :: "string \<Rightarrow> ingestion \<Rightarrow> ingestion \<Rightarrow> bool" where
  "adds t st st' \<longleftrightarrow>
     (\<exists>new ks. ing_stored st' = ing_stored st @ new \<and>
        map tel_key (ing_stored st' @ ing_added st') = map tel_key (ing_stored st @ ing_added st) @ ks \<and>
        length ks + ing_imported st = ing_imported st' \<and> set ks \<subseteq> {t} \<times> UNIV) \<and>
     (unique_key tel_key (ing_stored st) \<longrightarrow> unique_key tel_key (ing_stored st'))"

lemma adds_trans:
  assumes "adds t a b" and "adds t b c" shows "adds t a c"
proof -
  from assms obtain n1 k1 n2 k2 where
    1: "ing_stored b = ing_stored a @ n1" "map tel_key (ing_stored b @ ing_added b) = map tel_key (ing_stored a @ ing_added a) @ k1"
      "length k1 + ing_imported a = ing_imported b" "set k1 \<subseteq> {t} \<times> UNIV" and
    2: "ing_stored c = ing_stored b @ n2" "map tel_key (ing_stored c @ ing_added c) = map tel_key (ing_stored b @ ing_added b) @ k2"
      "length k2 + ing_imported b = ing_imported c" "set k2 \<subseteq> {t} \<times> UNIV"
    unfolding adds_def by metis
  have "ing_stored c = ing_stored a @ n1 @ n2 \<and>
      map tel_key (ing_stored c @ ing_added c) = map tel_key (ing_stored a @ ing_added a) @ (k1 @ k2) \<and>
      length (k1 @ k2) + ing_imported a = ing_imported c \<and> set (k1 @ k2) \<subseteq> {t} \<times> UNIV"
    using 1 2 by auto
  with assms show ?thesis unfolding adds_def by blast
qed

lemma settles_adds: "settles st st' \<Longrightarrow> adds t st st'"
proof -
  assume s: "settles st st'"
  show ?thesis
  proof (cases "ing_stored st' = ing_stored st \<and> ing_added st' = ing_added st")
    case True
    with s show ?thesis by (auto simp: adds_def settles_def intro!: exI[of _ "[]"])
  next
    case False
    with s have f: "flush_events (ing_stored st) (ing_added st) = Inr (ing_stored st')" "ing_added st' = []"
      "ing_imported st' = ing_imported st" by (auto simp: settles_def)
    from flush_events_spec[OF f(1)] obtain new where n: "ing_stored st' = ing_stored st @ new" "map tel_key new = map tel_key (ing_added st)"
      and u: "unique_key tel_key (ing_stored st) \<longrightarrow> unique_key tel_key (ing_stored st')" by blast
    have "ing_stored st' = ing_stored st @ new \<and>
        map tel_key (ing_stored st' @ ing_added st') = map tel_key (ing_stored st @ ing_added st) @ [] \<and>
        length [] + ing_imported st = ing_imported st' \<and> set [] \<subseteq> {t} \<times> UNIV"
      using n f(2,3) by simp
    with u show ?thesis unfolding adds_def by blast
  qed
qed

lemma import_adds: "tel_key e = (t, ev) \<Longrightarrow> adds t st (import_event e st)"
  by (auto simp: adds_def import_event_def intro!: exI[of _ "[(t, ev)]"])

definition counts_one :: "ingestion \<Rightarrow> ingestion \<Rightarrow> bool" where
  "counts_one st st' \<longleftrightarrow> ing_imported st' + ing_duplicate st' + ing_ignored st' = Suc (ing_imported st + ing_duplicate st + ing_ignored st)"

lemma ingest_span_adds:
  assumes "ingest_span env uuid t by' x st = Inr st'"
  shows "adds t st st' \<and> counts_one st st' \<and>
    (\<forall>ev. span_event env x = Inr (Some ev) \<longrightarrow> (t, ev) \<in> tel_key ` set (ing_stored st' @ ing_added st') \<and> ing_ignored st' = ing_ignored st) \<and>
    (span_event env x = Inr None \<longrightarrow> ing_ignored st' = Suc (ing_ignored st))"
proof -
  obtain o' where o': "span_event env x = Inr o'" using ingest_span_event[OF assms] by blast
  show ?thesis
  proof (cases o')
    case None
    with assms ingest_span_ignored[of env x uuid t by' st] o' have "st' = st\<lparr>ing_ignored := Suc (ing_ignored st)\<rparr>" by simp
    then show ?thesis using o' None by (auto simp: adds_def counts_one_def intro!: exI[of _ "[]"])
  next
    case (Some ev)
    show ?thesis
    proof (cases "(t, ev) \<in> tel_key ` set (ing_stored st)")
      case True
      with assms ingest_span_duplicate[of env x ev t st uuid by'] o' Some have "st' = st\<lparr>ing_duplicate := Suc (ing_duplicate st)\<rparr>" by simp
      then show ?thesis using o' Some True by (auto simp: adds_def counts_one_def intro!: exI[of _ "[]"])
    next
      case False
      from ingest_span_new[OF o'[unfolded Some] False, of uuid by'] obtain a sp trace span_id where
        r: "ingest_span env uuid t by' x st = rbind (new_telemetry_event env t a sp trace span_id)
          (\<lambda>e. observe_model env uuid t by' e (import_event e st))"
        and k: "\<forall>e. new_telemetry_event env t a sp trace span_id = Inr e \<longrightarrow> tel_key e = (t, ev)" by blast
      from assms[unfolded r] obtain e where
        e: "tel_key e = (t, ev)" and m: "observe_model env uuid t by' e (import_event e st) = Inr st'"
        using k by (auto simp: rbind_Inr_iff)
      from observe_model_settles[OF m] have s: "settles (import_event e st) st'" .
      have a: "adds t (import_event e st) st'" by (rule settles_adds[OF s])
      have "set (map tel_key (ing_stored (import_event e st) @ ing_added (import_event e st))) \<subseteq>
          set (map tel_key (ing_stored st' @ ing_added st'))"
        using a unfolding adds_def by (metis Un_upper1 set_append)
      moreover have "(t, ev) \<in> set (map tel_key (ing_stored (import_event e st) @ ing_added (import_event e st)))"
        using e by (simp add: import_event_def)
      ultimately have "(t, ev) \<in> tel_key ` set (ing_stored st' @ ing_added st')" by (metis list.set_map subsetD)
      moreover have "counts_one st st'" "ing_ignored st' = ing_ignored st" using s by (simp_all add: settles_def counts_one_def import_event_def)
      ultimately show ?thesis using adds_trans[OF import_adds[OF e] a] o' Some by auto
    qed
  qed
qed


lemma adds_refl: "adds t st st"
  by (auto simp: adds_def intro!: exI[of _ "[]"])

text \<open>The number of spans that are recorded, or would be.\<close>

definition recorded_spans :: "env \<Rightarrow> span list \<Rightarrow> nat" where
  "recorded_spans env spans = length (filter (\<lambda>x. case span_event env x of Inr (Some ev) \<Rightarrow> True | _ \<Rightarrow> False) spans)"

lemma adds_keys: "adds t a b \<Longrightarrow> tel_key ` set (ing_stored a @ ing_added a) \<subseteq> tel_key ` set (ing_stored b @ ing_added b)"
proof -
  assume "adds t a b"
  then obtain ks where "map tel_key (ing_stored b @ ing_added b) = map tel_key (ing_stored a @ ing_added a) @ ks" by (auto simp: adds_def)
  from arg_cong[OF this, of set] show ?thesis by auto
qed

lemma ingest_spans_adds:
  "ingest_spans env uuids t by' n spans st = Inr st' \<Longrightarrow>
     adds t st st' \<and>
     ing_imported st' + ing_duplicate st' + ing_ignored st' = length spans + ing_imported st + ing_duplicate st + ing_ignored st \<and>
     ing_ignored st' + recorded_spans env spans = length spans + ing_ignored st \<and>
     (\<forall>x \<in> set spans. \<exists>o'. span_event env x = Inr o' \<and>
        (\<forall>ev. o' = Some ev \<longrightarrow> (t, ev) \<in> tel_key ` set (ing_stored st' @ ing_added st')))"
proof (induction spans arbitrary: n st)
  case (Cons x xs)
  from Cons.prems obtain st1 where 1: "ingest_span env (uuids n) t by' x st = Inr st1"
    and 2: "ingest_spans env uuids t by' (Suc n) xs st1 = Inr st'" by (auto simp: rbind_Inr_iff)
  note a = ingest_span_adds[OF 1] and ih = Cons.IH[OF 2]
  obtain o' where o': "span_event env x = Inr o'" using ingest_span_event[OF 1] by blast
  have sub: "tel_key ` set (ing_stored st1 @ ing_added st1) \<subseteq> tel_key ` set (ing_stored st' @ ing_added st')"
    using adds_keys ih by blast
  have "adds t st st'" using adds_trans a ih by blast
  moreover have "ing_imported st' + ing_duplicate st' + ing_ignored st' =
      length (x # xs) + ing_imported st + ing_duplicate st + ing_ignored st"
    using ih a by (simp add: counts_one_def)
  moreover have "ing_ignored st' + recorded_spans env (x # xs) = length (x # xs) + ing_ignored st"
    using ih a o' by (cases o') (auto simp: recorded_spans_def)
  moreover have "\<forall>ev. o' = Some ev \<longrightarrow> (t, ev) \<in> tel_key ` set (ing_stored st' @ ing_added st')"
    using a o' sub by blast
  ultimately show ?case using ih o' by simp
qed (simp add: adds_refl recorded_spans_def)

lemma ingest_spans_again:
  assumes "\<forall>x \<in> set spans. \<exists>o'. span_event env x = Inr o' \<and> (\<forall>ev. o' = Some ev \<longrightarrow> (t, ev) \<in> tel_key ` set (ing_stored st))"
  shows "ingest_spans env uuids t by' n spans st =
    Inr (st\<lparr>ing_duplicate := ing_duplicate st + recorded_spans env spans,
            ing_ignored := ing_ignored st + (length spans - recorded_spans env spans)\<rparr>)"
  using assms
proof (induction spans arbitrary: n st)
  case (Cons x xs)
  then obtain o' where o': "span_event env x = Inr o'" "\<forall>ev. o' = Some ev \<longrightarrow> (t, ev) \<in> tel_key ` set (ing_stored st)" by auto
  have le: "recorded_spans env xs \<le> length xs" by (simp add: recorded_spans_def)
  show ?case
  proof (cases o')
    case None
    have "ingest_spans env uuids t by' n (x # xs) st = ingest_spans env uuids t by' (Suc n) xs (st\<lparr>ing_ignored := Suc (ing_ignored st)\<rparr>)"
      using ingest_span_ignored[of env x "uuids n" t by' st] o'(1) None by simp
    also have "\<dots> = Inr ((st\<lparr>ing_ignored := Suc (ing_ignored st)\<rparr>)\<lparr>ing_duplicate := ing_duplicate st + recorded_spans env xs,
            ing_ignored := Suc (ing_ignored st) + (length xs - recorded_spans env xs)\<rparr>)"
      using Cons.IH[of "st\<lparr>ing_ignored := Suc (ing_ignored st)\<rparr>" "Suc n"] Cons.prems by simp
    also have "recorded_spans env (x # xs) = recorded_spans env xs" using o'(1) None by (simp add: recorded_spans_def)
    ultimately show ?thesis using le by (simp add: Suc_diff_le)
  next
    case (Some ev)
    have "ingest_spans env uuids t by' n (x # xs) st = ingest_spans env uuids t by' (Suc n) xs (st\<lparr>ing_duplicate := Suc (ing_duplicate st)\<rparr>)"
      using ingest_span_duplicate[of env x ev t st "uuids n" by'] o' Some by simp
    also have "\<dots> = Inr ((st\<lparr>ing_duplicate := Suc (ing_duplicate st)\<rparr>)\<lparr>ing_duplicate := Suc (ing_duplicate st) + recorded_spans env xs,
            ing_ignored := ing_ignored st + (length xs - recorded_spans env xs)\<rparr>)"
      using Cons.IH[of "st\<lparr>ing_duplicate := Suc (ing_duplicate st)\<rparr>" "Suc n"] Cons.prems by simp
    also have "recorded_spans env (x # xs) = Suc (recorded_spans env xs)" using o'(1) Some by (simp add: recorded_spans_def)
    ultimately show ?thesis by simp
  qed
qed (simp add: recorded_spans_def)

text \<open>A batch that is accepted: what was checked, and what is stored.\<close>

lemma ingest_batch_Inr:
  assumes "ingest_batch env batch_max uuids uuid t by' spans s = Inr (s', a)"
  obtains st db st' where "int (length spans) \<le> batch_limit batch_max"
    "ingest_spans env uuids t by' 0 spans (start_ingestion s) = Inr st" "announce_batch env uuid t st = Inr db"
    "flush_added st = Inr st'" "s' = ((db, snd (ing_state st')), ing_stored st')" "a = ingest_report_of st'"
  using assms that by (auto simp: ingest_batch_def rbind_Inr_iff)

lemma ingest_batch_stored:
  assumes r: "ingest_batch env batch_max uuids uuid t by' spans s = Inr (s', a)"
  shows "ig_imported a + ig_duplicates a + ig_ignored a = length spans \<and> ig_ignored a + recorded_spans env spans = length spans \<and>
    int (length spans) \<le> batch_limit batch_max \<and>
    (\<exists>new. snd s' = snd s @ new \<and> length new = ig_imported a \<and> (\<forall>e \<in> set new. tel_tenant_id e = t)) \<and>
    (unique_key tel_key (snd s) \<longrightarrow> unique_key tel_key (snd s')) \<and>
    (\<forall>x \<in> set spans. \<exists>o'. span_event env x = Inr o' \<and> (\<forall>ev. o' = Some ev \<longrightarrow> (t, ev) \<in> tel_key ` set (snd s')))"
proof -
  from r obtain st db st' where lim: "int (length spans) \<le> batch_limit batch_max"
    and run: "ingest_spans env uuids t by' 0 spans (start_ingestion s) = Inr st" and f: "flush_added st = Inr st'"
    and s': "snd s' = ing_stored st'" and a: "a = ingest_report_of st'" by (rule ingest_batch_Inr) auto
  note i = ingest_spans_adds[OF run]
  from f have empty: "ing_added st' = []" by (auto simp: flush_added_def rbind_Inr_iff)
  have s: "settles st st'" by (rule flush_settles[OF f])
  then have ad: "adds t (start_ingestion s) st'" using adds_trans i settles_adds by blast
  then obtain new ks where n: "ing_stored st' = snd s @ new" "map tel_key (snd s @ new) = map tel_key (snd s) @ ks"
    "length ks = ing_imported st'" "set ks \<subseteq> {t} \<times> UNIV" using empty by (auto simp: adds_def start_ingestion_def)
  from n(2) have ks: "map tel_key new = ks" by simp
  have "length new = ing_imported st'" using arg_cong[OF ks, of length] n(3) by simp
  moreover have "tel_tenant_id e = t" if "e \<in> set new" for e
  proof -
    from that have "tel_key e \<in> set ks" unfolding ks[symmetric] by simp
    with n(4) show ?thesis by (auto simp: tel_key_def)
  qed
  ultimately have new: "\<exists>new. snd s' = snd s @ new \<and> length new = ig_imported a \<and> (\<forall>e \<in> set new. tel_tenant_id e = t)"
    using n(1) by (intro exI[of _ new]) (simp add: a s' ingest_report_of_def)
  have sub: "tel_key ` set (ing_stored st @ ing_added st) \<subseteq> tel_key ` set (snd s')"
    using adds_keys[OF settles_adds[OF s]] empty s' by simp
  have "\<exists>o'. span_event env x = Inr o' \<and> (\<forall>ev. o' = Some ev \<longrightarrow> (t, ev) \<in> tel_key ` set (snd s'))" if "x \<in> set spans" for x
    using i that sub by blast
  moreover have "ig_imported a + ig_duplicates a + ig_ignored a = length spans" "ig_ignored a + recorded_spans env spans = length spans"
    using i s by (simp_all add: a ingest_report_of_def start_ingestion_def settles_def)
  moreover have "unique_key tel_key (snd s) \<longrightarrow> unique_key tel_key (snd s')" using ad by (simp add: adds_def s' start_ingestion_def)
  ultimately show ?thesis using lim new by blast
qed

lemma ingest_batch_again:
  assumes "\<forall>x \<in> set spans. \<exists>o'. span_event env x = Inr o' \<and> (\<forall>ev. o' = Some ev \<longrightarrow> (t, ev) \<in> tel_key ` set (snd s))"
    and "int (length spans) \<le> batch_limit batch_max"
  shows "ingest_batch env batch_max uuids uuid t by' spans s =
    Inr (s, \<lparr>ig_imported = 0, ig_duplicates = recorded_spans env spans, ig_ignored = length spans - recorded_spans env spans,
             ig_discovered = 0, ig_relationships = 0, ig_discarded = 0\<rparr>)"
proof -
  have "ingest_spans env uuids t by' 0 spans (start_ingestion s) =
    Inr ((start_ingestion s)\<lparr>ing_duplicate := recorded_spans env spans, ing_ignored := length spans - recorded_spans env spans\<rparr>)"
    using ingest_spans_again[of spans env t "start_ingestion s" uuids by' 0] assms(1) by (simp add: start_ingestion_def)
  then show ?thesis
    using assms(2) by (simp add: ingest_batch_def announce_batch_def flush_added_def start_ingestion_def ingest_report_of_def)
qed

section \<open>Properties\<close>

text \<open>
  C30: An accepted batch counts every span once, as imported, duplicate or ignored, and adds exactly the imported events, for
  the tenant, with event ids that are unique in it; sending the payload again at any later time, by anyone, imports nothing:
  every span that was imported or a duplicate is a duplicate, and no table changes.
\<close>

theorem telemetry_batch_once:
  assumes "ingest_otlp_genai env batch_max uuids uuid t payload by' s = Inr (s', a)" and "unique_key tel_key (snd s)"
    and "env_frepr env' = env_frepr env"
  shows "(\<exists>spans. spans_of payload = Inr spans \<and> ig_imported a + ig_duplicates a + ig_ignored a = length spans \<and>
       int (length spans) \<le> batch_limit batch_max) \<and>
    (\<exists>new. snd s' = snd s @ new \<and> length new = ig_imported a \<and> (\<forall>e \<in> set new. tel_tenant_id e = t)) \<and> unique_key tel_key (snd s') \<and>
    ingest_otlp_genai env' batch_max uuids' uuid' t payload who s' =
      Inr (s', \<lparr>ig_imported = 0, ig_duplicates = ig_imported a + ig_duplicates a, ig_ignored = ig_ignored a, ig_discovered = 0,
                ig_relationships = 0, ig_discarded = 0\<rparr>)"
proof -
  from assms(1) obtain spans where size: "\<not> int (length (json_dumps (env_frepr env) '','' '':'' (JObj payload))) > MAX_OTLP_PAYLOAD_BYTES"
    and sp: "spans_of payload = Inr spans" and r: "ingest_batch env batch_max uuids uuid t by' spans s = Inr (s', a)"
    by (auto simp: ingest_otlp_genai_def rbind_Inr_iff)
  note b = ingest_batch_stored[OF r]
  have sub: "tel_key ` set (snd s) \<subseteq> tel_key ` set (snd s')" using b by auto
  have "recorded_spans env' spans = recorded_spans env spans" by (simp add: recorded_spans_def span_event_env[OF assms(3)])
  moreover have "recorded_spans env spans = ig_imported a + ig_duplicates a" "length spans - recorded_spans env spans = ig_ignored a" using b by auto
  moreover have "ingest_batch env' batch_max uuids' uuid' t who spans s' =
    Inr (s', \<lparr>ig_imported = 0, ig_duplicates = recorded_spans env' spans, ig_ignored = length spans - recorded_spans env' spans,
             ig_discovered = 0, ig_relationships = 0, ig_discarded = 0\<rparr>)"
    using b by (intro ingest_batch_again) (simp_all add: span_event_env[OF assms(3)])
  ultimately have "ingest_otlp_genai env' batch_max uuids' uuid' t payload who s' =
      Inr (s', \<lparr>ig_imported = 0, ig_duplicates = ig_imported a + ig_duplicates a, ig_ignored = ig_ignored a, ig_discovered = 0,
                ig_relationships = 0, ig_discarded = 0\<rparr>)"
    using size sp assms(3) by (simp add: ingest_otlp_genai_def)
  then show ?thesis using b sp assms(2) by auto
qed


section \<open>A payload without its content\<close>

text \<open>The payload in which every attribute of a content key has lost its value.\<close>

definition redact_item :: "json \<Rightarrow> json" where
  "redact_item v =
     (if is_jobj v \<and> is_jstr (py_get (jobj v) ''key'') \<and> content_key (jstr (py_get (jobj v) ''key''))
      then JObj [(''key'', py_get (jobj v) ''key'')] else v)"

definition on_items :: "(json \<Rightarrow> json) \<Rightarrow> json \<Rightarrow> json" where
  "on_items f v = (case v of JList xs \<Rightarrow> JList (map f xs) | _ \<Rightarrow> v)"

definition on_key :: "string \<Rightarrow> (json \<Rightarrow> json) \<Rightarrow> dict \<Rightarrow> dict" where
  "on_key k f d = map (\<lambda>(k', v). (k', if k' = k then f v else v)) d"

definition on_object :: "(dict \<Rightarrow> dict) \<Rightarrow> json \<Rightarrow> json" where
  "on_object f v = (case v of JObj d \<Rightarrow> JObj (f d) | _ \<Rightarrow> v)"

definition redact_attributes :: "dict \<Rightarrow> dict" where
  "redact_attributes = on_key ''attributes'' (on_items redact_item)"

definition redact_scope_span :: "dict \<Rightarrow> dict" where
  "redact_scope_span d = on_key ''spans'' (on_items (on_object redact_attributes)) (on_key ''scope'' (on_object redact_attributes) d)"

definition redact_resource_span :: "dict \<Rightarrow> dict" where
  "redact_resource_span d =
     on_key ''instrumentationLibrarySpans'' (on_items (on_object redact_scope_span))
       (on_key ''scopeSpans'' (on_items (on_object redact_scope_span)) (on_key ''resource'' (on_object redact_attributes) d))"

definition without_content :: "dict \<Rightarrow> dict" where
  "without_content = on_key ''resourceSpans'' (on_items (on_object redact_resource_span))"

lemma map_of_on_key: "map_of (on_key k f d) k' = map_option (if k' = k then f else id) (map_of d k')"
  by (induction d) (auto simp: on_key_def)

lemma py_get_on_key: "k' \<noteq> k \<Longrightarrow> py_get (on_key k f d) k' = py_get d k'"
  by (simp add: py_get_def map_of_on_key option.map_id)

lemma py_get_default_on_key:
  "py_get_default (on_key k f d) k' v = (if k' = k then (case map_of d k of None \<Rightarrow> v | Some x \<Rightarrow> f x) else py_get_default d k' v)"
  by (simp add: py_get_default_def map_of_on_key option.map_id split: option.split)

lemma on_object_simps [simp]: "is_jobj (on_object f v) = is_jobj v" "is_jobj v \<Longrightarrow> jobj (on_object f v) = f (jobj v)"
  by (cases v; simp add: on_object_def)+

lemma on_items_simps [simp]: "is_jlist (on_items f v) = is_jlist v" "jlist (on_items f v) = map f (jlist v)"
  by (cases v; simp add: on_items_def)+

text \<open>Two dictionaries with the same keys, whose values agree except under content keys.\<close>

definition agree :: "dict \<Rightarrow> dict \<Rightarrow> bool" where
  "agree = list_all2 (\<lambda>p q. fst p = fst q \<and> (content_key (fst p) \<or> snd p = snd q))"

lemma agree_refl [simp]: "agree a a"
  by (simp add: agree_def list.rel_refl)

lemma agree_set: "agree a b \<Longrightarrow> content_key k \<or> v = v' \<Longrightarrow> agree (dict_set k v a) (dict_set k v' b)"
  unfolding agree_def dict_set_def by (induction rule: list_all2_induct) auto

lemma agree_merged: "agree c d \<Longrightarrow> agree a b \<Longrightarrow> agree (merged a c) (merged b d)"
  unfolding merged_def
proof -
  assume "agree c d" "agree a b"
  then show "agree (fold (\<lambda>(k, v) d. dict_set k v d) c a) (fold (\<lambda>(k, v) d. dict_set k v d) d b)"
  proof (induction c arbitrary: d a b)
    case (Cons p c)
    then obtain q e where d: "d = q # e" "fst p = fst q" "content_key (fst p) \<or> snd p = snd q" "agree c e"
      by (auto simp: agree_def list_all2_Cons1)
    then have "agree (dict_set (fst p) (snd p) a) (dict_set (fst q) (snd q) b)" using agree_set[OF Cons.prems(2)] by metis
    from Cons.IH[OF d(4) this] show ?case by (simp add: d(1) split_beta)
  qed (auto simp: agree_def)
qed

lemma agree_map_of: "agree a b \<Longrightarrow> \<not> content_key k \<Longrightarrow> map_of a k = map_of b k"
  unfolding agree_def by (induction rule: list_all2_induct) (auto split: prod.splits)

lemma agree_get: "agree a b \<Longrightarrow> \<not> content_key k \<Longrightarrow> py_get a k = py_get b k"
  by (simp add: py_get_def agree_map_of)

lemma agree_get_default: "agree a b \<Longrightarrow> \<not> content_key k \<Longrightarrow> py_get_default a k v = py_get_default b k v"
  by (simp add: py_get_default_def agree_map_of)

lemma agree_genai: "agree a b \<Longrightarrow> is_genai_span a = is_genai_span b"
  unfolding agree_def is_genai_span_def by (induction rule: list_all2_induct) auto

lemma agree_metadata: "agree a b \<Longrightarrow> metadata_attributes a = metadata_attributes b"
proof -
  assume "agree a b"
  then have "metadata_onto acc a = metadata_onto acc b \<and> list_ex (\<lambda>(k, v). content_key k) a = list_ex (\<lambda>(k, v). content_key k) b" for acc
    unfolding agree_def by (induction arbitrary: acc rule: list_all2_induct) (auto split: prod.splits)
  then show ?thesis by (simp add: metadata_attributes_def)
qed

lemma agree_first_text: "agree a b \<Longrightarrow> list_all (\<lambda>k. \<not> content_key k) ks \<Longrightarrow> first_text env a ks = first_text env b ks"
  by (induction ks) (auto simp: agree_get)

lemma read_keys:
  "list_all (\<lambda>k. \<not> content_key k)
     [''gen_ai.operation.name'', ''gen_ai.provider.name'', ''gen_ai.system'', ''gen_ai.response.model'', ''gen_ai.request.model'',
      ''opendatagraph.agent.key'', ''gen_ai.agent.id'', ''gen_ai.agent.name'', ''gen_ai.usage.input_tokens'',
      ''gen_ai.usage.output_tokens'', ''gen_ai.response.finish_reasons'']"
  by code_simp

lemma event_of_agreeing:
  assumes "agree a b" and t: "span_time env sp' = span_time env sp" "duration_ms sp' = duration_ms sp" "py_get sp' ''name'' = py_get sp ''name''"
  shows "new_telemetry_event env tenant_id b sp' trace span_id = new_telemetry_event env tenant_id a sp trace span_id"
proof -
  have f: "first_text env b ks = first_text env a ks" if "list_all (\<lambda>k. \<not> content_key k) ks" for ks
    using agree_first_text[OF assms(1) that, of env] by simp
  have "first_text env b [''gen_ai.operation.name''] = first_text env a [''gen_ai.operation.name'']"
    "first_text env b [''gen_ai.provider.name'', ''gen_ai.system''] = first_text env a [''gen_ai.provider.name'', ''gen_ai.system'']"
    "first_text env b [''gen_ai.response.model'', ''gen_ai.request.model''] = first_text env a [''gen_ai.response.model'', ''gen_ai.request.model'']"
    "first_text env b [''opendatagraph.agent.key'', ''gen_ai.agent.id'', ''gen_ai.agent.name''] =
     first_text env a [''opendatagraph.agent.key'', ''gen_ai.agent.id'', ''gen_ai.agent.name'']"
    by (rule f, use read_keys in simp)+
  moreover have "py_get b ''gen_ai.usage.input_tokens'' = py_get a ''gen_ai.usage.input_tokens''"
    "py_get b ''gen_ai.usage.output_tokens'' = py_get a ''gen_ai.usage.output_tokens''"
    by (rule agree_get[OF assms(1), symmetric], use read_keys in simp)+
  moreover have "finish_reasons env b = finish_reasons env a"
    unfolding finish_reasons_def using agree_get_default[OF assms(1), of "''gen_ai.response.finish_reasons''"] read_keys by simp
  moreover note agree_metadata[OF assms(1)] t
  ultimately show ?thesis unfolding new_telemetry_event_def by (simp only: Let_def)
qed

section \<open>Attributes without their content\<close>

lemma any_value_null: "any_value JNull = Inr JNull"
  by (subst any_value.simps) simp

lemma redact_item_keys: "is_jobj (redact_item v) = is_jobj v" "py_get (jobj (redact_item v)) ''key'' = py_get (jobj v) ''key''"
  by (auto simp: redact_item_def py_get_def)

lemma redacted_attributes_onto:
  "attributes_onto acc items = Inr a \<Longrightarrow> agree acc acc' \<Longrightarrow> \<exists>b. attributes_onto acc' (map redact_item items) = Inr b \<and> agree a b"
proof (induction items arbitrary: acc acc')
  case (Cons item items)
  show ?case
  proof (cases "is_jobj item \<and> is_jstr (py_get (jobj item) ''key'')")
    case True
    then obtain x where x: "any_value (py_get (jobj item) ''value'') = Inr x"
      and r: "attributes_onto (dict_set (jstr (py_get (jobj item) ''key'')) x acc) items = Inr a"
      using Cons.prems(1) by (auto simp: rbind_Inr_iff)
    have "\<exists>y. any_value (py_get (jobj (redact_item item)) ''value'') = Inr y \<and> (content_key (jstr (py_get (jobj item) ''key'')) \<or> x = y)"
      using x True any_value_null by (auto simp: redact_item_def py_get_def)
    then obtain y where y: "any_value (py_get (jobj (redact_item item)) ''value'') = Inr y"
      "content_key (jstr (py_get (jobj item) ''key'')) \<or> x = y" by blast
    from Cons.IH[OF r agree_set[OF Cons.prems(2) y(2)]] show ?thesis
      using True y(1) by (simp add: redact_item_keys)
  next
    case False
    have "attributes_onto acc (item # items) = attributes_onto acc items" using False by (simp only: attributes_onto.simps if_False)
    moreover have "attributes_onto acc' (map redact_item (item # items)) = attributes_onto acc' (map redact_item items)"
      using False by (simp only: list.map attributes_onto.simps redact_item_keys if_False)
    ultimately show ?thesis using Cons by metis
  qed
qed auto

lemma redacted_attributes:
  assumes "attributes_of (py_get_default d ''attributes'' (JList [])) = Inr a"
  shows "\<exists>b. attributes_of (py_get_default (redact_attributes d) ''attributes'' (JList [])) = Inr b \<and> agree a b"
proof (cases "map_of d ''attributes''")
  case None
  then show ?thesis using assms by (simp add: redact_attributes_def py_get_default_on_key py_get_default_def map_of_on_key)
next
  case (Some v)
  with assms redacted_attributes_onto[of "[]" "jlist v" a "[]"] show ?thesis
    by (auto simp: redact_attributes_def py_get_default_on_key py_get_default_def map_of_on_key attributes_of_def split: if_splits)
qed

lemma redacted_inner:
  assumes "inner_attributes (py_get_default d k (JObj [])) = Inr a"
  shows "\<exists>b. inner_attributes (py_get_default (on_key k (on_object redact_attributes) d) k (JObj [])) = Inr b \<and> agree a b"
proof (cases "map_of d k")
  case None
  then show ?thesis using assms by (simp add: py_get_default_on_key py_get_default_def map_of_on_key)
next
  case (Some v)
  with assms redacted_attributes[of "jobj v" a] show ?thesis
    by (auto simp: py_get_default_on_key py_get_default_def map_of_on_key inner_attributes_def split: if_splits)
qed

section \<open>Spans without their content\<close>

definition same_span :: "span \<Rightarrow> span \<Rightarrow> bool" where
  "same_span x y \<longleftrightarrow> agree (fst x) (fst y) \<and> agree (fst (snd x)) (fst (snd y)) \<and> snd (snd y) = redact_attributes (snd (snd x))"

lemma redacted_list:
  "jlist (py_get_default (on_key k (on_items f) d) k (JList [])) = map f (jlist (py_get_default d k (JList [])))"
  by (simp add: py_get_default_on_key py_get_default_def map_of_on_key split: option.split)

lemma redacted_scope_spans:
  "scope_spans_of ra xs = Inr ss \<Longrightarrow> agree ra rb \<Longrightarrow>
     \<exists>ss'. scope_spans_of rb (map (on_object redact_scope_span) xs) = Inr ss' \<and> list_all2 same_span ss ss'"
proof (induction xs arbitrary: ss)
  case (Cons x xs)
  show ?case
  proof (cases "is_jobj x")
    case True
    with Cons.prems(1) obtain sa rest where sa: "inner_attributes (py_get_default (jobj x) ''scope'' (JObj [])) = Inr sa"
      and rest: "scope_spans_of ra xs = Inr rest"
      and ss: "ss = map (\<lambda>s. (ra, sa, jobj s)) (filter is_jobj (jlist (py_get_default (jobj x) ''spans'' (JList [])))) @ rest"
      by (auto simp: rbind_Inr_iff)
    let ?spans = "jlist (py_get_default (jobj x) ''spans'' (JList []))"
    from redacted_inner[OF sa] obtain sb where
      sb: "inner_attributes (py_get_default (redact_scope_span (jobj x)) ''scope'' (JObj [])) = Inr sb" "agree sa sb"
      by (auto simp: redact_scope_span_def py_get_default_on_key)
    from Cons.IH[OF rest Cons.prems(2)] obtain rest' where
      r: "scope_spans_of rb (map (on_object redact_scope_span) xs) = Inr rest'" "list_all2 same_span rest rest'" by blast
    have l: "jlist (py_get_default (redact_scope_span (jobj x)) ''spans'' (JList [])) = map (on_object redact_attributes) ?spans"
      unfolding redact_scope_span_def redacted_list by (simp add: py_get_default_on_key)
    have "list_all2 same_span (map (\<lambda>s. (ra, sa, jobj s)) (filter is_jobj ys))
        (map (\<lambda>s. (rb, sb, jobj s)) (filter is_jobj (map (on_object redact_attributes) ys)))" for ys
      by (induction ys) (simp_all add: same_span_def Cons.prems(2) sb(2))
    with r show ?thesis using True sb(1) l by (simp add: ss list_all2_appendI)
  qed (use Cons in simp)
qed simp

lemma redacted_resource_spans:
  "resource_spans_of xs = Inr ss \<Longrightarrow>
     \<exists>ss'. resource_spans_of (map (on_object redact_resource_span) xs) = Inr ss' \<and> list_all2 same_span ss ss'"
proof (induction xs arbitrary: ss)
  case (Cons x xs)
  show ?case
  proof (cases "is_jobj x")
    case True
    let ?inner = "\<lambda>d. jlist (py_get_default d ''scopeSpans'' (py_get_default d ''instrumentationLibrarySpans'' (JList [])))"
    from True Cons.prems obtain ra ss1 rest where ra: "inner_attributes (py_get_default (jobj x) ''resource'' (JObj [])) = Inr ra"
      and ss1: "scope_spans_of ra (?inner (jobj x)) = Inr ss1" and rest: "resource_spans_of xs = Inr rest" and ss: "ss = ss1 @ rest"
      by (auto simp: rbind_Inr_iff)
    from redacted_inner[OF ra] obtain rb where
      rb: "inner_attributes (py_get_default (redact_resource_span (jobj x)) ''resource'' (JObj [])) = Inr rb" "agree ra rb"
      by (auto simp: redact_resource_span_def py_get_default_on_key)
    have l: "?inner (redact_resource_span (jobj x)) = map (on_object redact_scope_span) (?inner (jobj x))"
      by (auto simp: redact_resource_span_def py_get_default_on_key map_of_on_key py_get_default_def split: option.splits)
    from redacted_scope_spans[OF ss1 rb(2)] obtain ss1' where
      1: "scope_spans_of rb (map (on_object redact_scope_span) (?inner (jobj x))) = Inr ss1'" "list_all2 same_span ss1 ss1'" by blast
    from Cons.IH[OF rest] obtain rest' where
      r: "resource_spans_of (map (on_object redact_resource_span) xs) = Inr rest'" "list_all2 same_span rest rest'" by blast
    show ?thesis using True rb(1) l 1 r by (simp add: ss list_all2_appendI)
  qed (use Cons in simp)
qed simp

lemma redacted_spans:
  assumes "spans_of payload = Inr spans"
  shows "\<exists>spans'. spans_of (without_content payload) = Inr spans' \<and> list_all2 same_span spans spans'"
proof -
  let ?v = "py_get_default payload ''resourceSpans'' (JList [])"
  from assms have v: "is_jlist ?v" and r: "resource_spans_of (jlist ?v) = Inr spans" by (auto simp: spans_of_def Let_def rbind_Inr_iff)
  let ?w = "py_get_default (without_content payload) ''resourceSpans'' (JList [])"
  have "is_jlist ?w" using v by (auto simp: without_content_def py_get_default_on_key py_get_default_def map_of_on_key split: option.splits)
  moreover have "jlist ?w = map (on_object redact_resource_span) (jlist ?v)" unfolding without_content_def by (rule redacted_list)
  ultimately show ?thesis using redacted_resource_spans[OF r] by (simp add: spans_of_def)
qed


section \<open>Ingesting without the content\<close>

lemma redact_other: "py_get (redact_attributes d) k = py_get d k" "py_get_default (redact_attributes d) k v = py_get_default d k v"
  if "k \<noteq> ''attributes''"
  using that by (simp_all add: redact_attributes_def py_get_on_key py_get_default_on_key)

lemma redacted_span_attributes:
  assumes "span_attributes x = Inr a" and "same_span x y"
  shows "\<exists>b. span_attributes y = Inr b \<and> agree a b"
proof -
  obtain ra sa sp ra' sa' sp' where x: "x = (ra, sa, sp)" and y: "y = (ra', sa', sp')" by (cases x, cases y)
  from assms(1) obtain pa where pa: "attributes_of (py_get_default sp ''attributes'' (JList [])) = Inr pa"
    and a: "a = merged (merged ra sa) pa" by (auto simp: span_attributes_def x rbind_Inr_iff)
  from redacted_attributes[OF pa] obtain pb where "attributes_of (py_get_default (redact_attributes sp) ''attributes'' (JList [])) = Inr pb"
    "agree pa pb" by blast
  with assms(2) show ?thesis
    by (auto simp: span_attributes_def same_span_def x y a intro!: agree_merged)
qed

lemma redacted_ingest_span:
  assumes r: "ingest_span env uuid t by' x st = Inr st'" and s: "same_span x y"
  shows "ingest_span env uuid t by' y st = Inr st'"
proof -
  from r obtain a where a: "span_attributes x = Inr a" by (auto simp: ingest_span_def rbind_Inr_iff)
  from redacted_span_attributes[OF a s] obtain b where b: "span_attributes y = Inr b" "agree a b" by blast
  have sp: "snd (snd y) = redact_attributes (snd (snd x))" using s by (simp add: same_span_def)
  have t: "span_time env (redact_attributes d) = span_time env d" "duration_ms (redact_attributes d) = duration_ms d" for d
    by (simp_all add: span_time_def duration_ms_def redact_other)
  have e: "new_telemetry_event env tt b (redact_attributes d) tr si = new_telemetry_event env tt a d tr si" for tt d tr si
    by (rule event_of_agreeing[OF b(2) t]) (simp add: redact_other)
  have "ingest_span env uuid t by' y st = ingest_span env uuid t by' x st"
    unfolding ingest_span_def a b(1) rbind_simps sp Let_def by (simp add: redact_other e agree_genai[OF b(2)])
  with r show ?thesis by simp
qed

lemma redacted_ingest_spans:
  "ingest_spans env uuids t by' n xs st = Inr st' \<Longrightarrow> list_all2 same_span xs ys \<Longrightarrow> ingest_spans env uuids t by' n ys st = Inr st'"
proof (induction xs arbitrary: ys n st)
  case (Cons x xs)
  then obtain y ys' where ys: "ys = y # ys'" "same_span x y" "list_all2 same_span xs ys'" by (auto simp: list_all2_Cons1)
  from Cons.prems(1) obtain st1 where 1: "ingest_span env (uuids n) t by' x st = Inr st1"
    and 2: "ingest_spans env uuids t by' (Suc n) xs st1 = Inr st'" by (auto simp: rbind_Inr_iff)
  show ?case using redacted_ingest_span[OF 1 ys(2)] Cons.IH[OF 2 ys(3)] by (simp add: ys(1))
qed simp

text \<open>The payload without its content is no longer.\<close>

lemma join_mono: "list_all2 (\<lambda>a b. length a \<le> length b) xs ys \<Longrightarrow> length (join sep xs) \<le> length (join sep ys)"
proof (induction xs arbitrary: ys)
  case (Cons x xs)
  then obtain y ys' where y: "ys = y # ys'" "length x \<le> length y" "list_all2 (\<lambda>a b. length a \<le> length b) xs ys'"
    by (auto simp: list_all2_Cons1)
  from Cons.IH[OF y(3)] y(2,3) show ?case unfolding y(1) by (cases xs; cases ys') auto
qed simp

lemma join_member: "x \<in> set xs \<Longrightarrow> length x \<le> length (join sep xs)"
  by (induction sep xs rule: join.induct) auto

definition dumped :: "(rat \<Rightarrow> string) \<Rightarrow> json \<Rightarrow> nat" where
  "dumped frepr v = length (json_dumps frepr '','' '':'' v)"

lemma dumped_item: "dumped frepr (redact_item v) \<le> dumped frepr v"
proof (cases "is_jobj v \<and> is_jstr (py_get (jobj v) ''key'') \<and> content_key (jstr (py_get (jobj v) ''key''))")
  case True
  then obtain d where v: "v = JObj d" by (cases v) auto
  with True obtain x where x: "map_of d ''key'' = Some x" "py_get d ''key'' = x" by (cases "map_of d ''key''") (auto simp: py_get_def)
  have "length (json_quote ''key'' @ '':'' @ json_dumps frepr '','' '':'' x) \<le>
      length (join '','' (map (\<lambda>(k, v). json_quote k @ '':'' @ json_dumps frepr '','' '':'' v) d))"
    by (rule join_member) (use map_of_SomeD[OF x(1)] in force)
  then show ?thesis using True by (simp add: redact_item_def v x dumped_def)
qed (auto simp: redact_item_def)

lemma dumped_items: "(\<And>x. dumped frepr (f x) \<le> dumped frepr x) \<Longrightarrow> dumped frepr (on_items f v) \<le> dumped frepr v"
  by (cases v) (auto simp: on_items_def dumped_def list.rel_map intro!: join_mono list.rel_refl)

lemma dumped_key: "(\<And>x. dumped frepr (f x) \<le> dumped frepr x) \<Longrightarrow> dumped frepr (JObj (on_key k f d)) \<le> dumped frepr (JObj d)"
  by (auto simp: on_key_def dumped_def list.rel_map intro!: join_mono list.rel_refl)

lemma dumped_object: "(\<And>d. dumped frepr (JObj (f d)) \<le> dumped frepr (JObj d)) \<Longrightarrow> dumped frepr (on_object f v) \<le> dumped frepr v"
  by (cases v) (auto simp: on_object_def)

lemma dumped_without_content: "dumped frepr (JObj (without_content d)) \<le> dumped frepr (JObj d)"
proof -
  have 1: "dumped frepr (JObj (redact_attributes d)) \<le> dumped frepr (JObj d)" for d
    unfolding redact_attributes_def by (intro dumped_key dumped_items dumped_item)
  have 2: "dumped frepr (JObj (redact_scope_span d)) \<le> dumped frepr (JObj d)" for d
    unfolding redact_scope_span_def by (rule order.trans[OF dumped_key dumped_key]; intro dumped_items dumped_object 1)
  have 3: "dumped frepr (JObj (redact_resource_span d)) \<le> dumped frepr (JObj d)" for d
    unfolding redact_resource_span_def
    by (rule order.trans[OF dumped_key order.trans[OF dumped_key dumped_key]]; intro dumped_items dumped_object 1 2)
  show ?thesis unfolding without_content_def by (intro dumped_key dumped_items dumped_object 3)
qed

text \<open>
  C29: What the ingestion stores and answers does not depend on the content of prompts, completions, messages, system
  instructions, tool arguments and tool results: whenever a payload is accepted, the payload from which the values of all such
  attributes have been removed is accepted with the same answer and leaves every table in the same state.
\<close>

theorem telemetry_content_unread:
  assumes "ingest_otlp_genai env batch_max uuids uuid t payload by' s = Inr (s', a)"
  shows "ingest_otlp_genai env batch_max uuids uuid t (without_content payload) by' s = Inr (s', a)"
proof -
  from assms obtain spans where size: "\<not> int (dumped (env_frepr env) (JObj payload)) > MAX_OTLP_PAYLOAD_BYTES"
    and sp: "spans_of payload = Inr spans" and r: "ingest_batch env batch_max uuids uuid t by' spans s = Inr (s', a)"
    by (auto simp: ingest_otlp_genai_def rbind_Inr_iff dumped_def)
  from redacted_spans[OF sp] obtain spans' where sp': "spans_of (without_content payload) = Inr spans'" and
    same: "list_all2 same_span spans spans'" by blast
  from r obtain st db st' where b: "int (length spans) \<le> batch_limit batch_max"
    "ingest_spans env uuids t by' 0 spans (start_ingestion s) = Inr st" "announce_batch env uuid t st = Inr db"
    "flush_added st = Inr st'" "s' = ((db, snd (ing_state st')), ing_stored st')" "a = ingest_report_of st'" by (rule ingest_batch_Inr)
  have "ingest_batch env batch_max uuids uuid t by' spans' s = Inr (s', a)"
    using b redacted_ingest_spans[OF b(2) same] list_all2_lengthD[OF same] by (simp add: ingest_batch_def)
  moreover have "\<not> int (dumped (env_frepr env) (JObj (without_content payload))) > MAX_OTLP_PAYLOAD_BYTES"
    using size dumped_without_content[of "env_frepr env" payload] by simp
  ultimately show ?thesis using sp' by (simp add: ingest_otlp_genai_def dumped_def)
qed

section \<open>A span repeated in a batch\<close>

definition names_no_model :: "env \<Rightarrow> span \<Rightarrow> bool" where
  "names_no_model env x \<longleftrightarrow>
     (\<forall>a. span_attributes x = Inr a \<longrightarrow> first_text env a [''gen_ai.response.model'', ''gen_ai.request.model''] = [])"

lemma unflushed_span:
  assumes r: "ingest_span env uuid t by' x st = Inr st'" and m: "names_no_model env x"
  shows "ing_stored st' = ing_stored st \<and> (\<exists>es. ing_added st' = ing_added st @ es) \<and>
    (\<forall>ev. span_event env x = Inr (Some ev) \<longrightarrow> (t, ev) \<notin> tel_key ` set (ing_stored st) \<longrightarrow>
       (\<exists>e. ing_added st' = ing_added st @ [e] \<and> tel_key e = (t, ev)))"
proof -
  obtain o' where o': "span_event env x = Inr o'" using ingest_span_event[OF r] by blast
  show ?thesis
  proof (cases o')
    case None
    with r ingest_span_ignored[of env x uuid t by' st] o' show ?thesis by auto
  next
    case (Some ev)
    show ?thesis
    proof (cases "(t, ev) \<in> tel_key ` set (ing_stored st)")
      case True
      with r ingest_span_duplicate[of env x ev t st uuid by'] o' Some show ?thesis by auto
    next
      case False
      from ingest_span_new[OF o'[unfolded Some] False, of uuid by'] obtain a sp trace span_id where
        a: "span_attributes x = Inr a" and
        run: "ingest_span env uuid t by' x st = rbind (new_telemetry_event env t a sp trace span_id)
          (\<lambda>e. observe_model env uuid t by' e (import_event e st))"
        and k: "\<forall>e. new_telemetry_event env t a sp trace span_id = Inr e \<longrightarrow> tel_key e = (t, ev) \<and>
          tel_model e = first_text env a [''gen_ai.response.model'', ''gen_ai.request.model'']" by blast
      from r[unfolded run] obtain e where e: "new_telemetry_event env t a sp trace span_id = Inr e"
        and o: "observe_model env uuid t by' e (import_event e st) = Inr st'" by (auto simp: rbind_Inr_iff)
      have "tel_model e = []" using k e m a unfolding names_no_model_def by metis
      with o have "st' = import_event e st" by (simp add: observe_model_def)
      then show ?thesis using o' Some k e by (auto simp: import_event_def)
    qed
  qed
qed

lemma unflushed_spans:
  "ingest_spans env uuids t by' n xs st = Inr st' \<Longrightarrow> list_all (names_no_model env) xs \<Longrightarrow>
     ing_stored st' = ing_stored st \<and> (\<exists>es. ing_added st' = ing_added st @ es)"
proof (induction xs arbitrary: n st)
  case (Cons x xs)
  from Cons.prems(1) obtain st1 where 1: "ingest_span env (uuids n) t by' x st = Inr st1"
    and 2: "ingest_spans env uuids t by' (Suc n) xs st1 = Inr st'" by (auto simp: rbind_Inr_iff)
  from unflushed_span[OF 1] Cons.IH[OF 2] Cons.prems(2) show ?case by auto
qed auto

lemma ingest_spans_append:
  "ingest_spans env uuids t by' n (xs @ ys) st = rbind (ingest_spans env uuids t by' n xs st) (ingest_spans env uuids t by' (n + length xs) ys)"
proof (induction xs arbitrary: n st)
  case (Cons x xs)
  have "ingest_spans env uuids t by' (Suc n) (xs @ ys) =
      (\<lambda>s. rbind (ingest_spans env uuids t by' (Suc n) xs s) (ingest_spans env uuids t by' (Suc n + length xs) ys))"
    by (intro ext) (rule Cons.IH)
  then show ?case by (simp add: rbind_assoc)
qed simp

text \<open>
  C31: A span that occurs twice in a batch is not counted as a duplicate when nothing was written between: in a batch none of
  whose spans names a model, a new span that is repeated makes the whole batch fail.
\<close>

theorem repeated_span_refused:
  assumes "spans_of payload = Inr (xs @ x # ys @ y # zs)" and "list_all (names_no_model env) (xs @ x # ys @ y # zs)"
    and "span_event env x = Inr (Some ev)" and "span_event env y = Inr (Some ev)" and "\<forall>e \<in> set (snd s). tel_key e \<noteq> (t, ev)"
  shows "\<not> is_ok (ingest_otlp_genai env batch_max uuids uuid t payload by' s)"
proof
  assume "is_ok (ingest_otlp_genai env batch_max uuids uuid t payload by' s)"
  then obtain s' a where "ingest_batch env batch_max uuids uuid t by' (xs @ x # ys @ y # zs) s = Inr (s', a)"
    using assms(1) by (auto simp: is_ok_iff ingest_otlp_genai_def rbind_Inr_iff)
  then obtain st st' where run: "ingest_spans env uuids t by' 0 (xs @ x # ys @ y # zs) (start_ingestion s) = Inr st"
    and fl: "flush_added st = Inr st'" by (rule ingest_batch_Inr)
  let ?n = "length xs"
  from run obtain s1 where 1: "ingest_spans env uuids t by' 0 xs (start_ingestion s) = Inr s1"
    and "ingest_spans env uuids t by' ?n (x # ys @ y # zs) s1 = Inr st" by (auto simp: ingest_spans_append rbind_Inr_iff simp del: ingest_spans.simps)
  then obtain s2 where 2: "ingest_span env (uuids ?n) t by' x s1 = Inr s2"
    and "ingest_spans env uuids t by' (Suc ?n) (ys @ y # zs) s2 = Inr st" by (auto simp: rbind_Inr_iff)
  then obtain s3 where 3: "ingest_spans env uuids t by' (Suc ?n) ys s2 = Inr s3"
    and "ingest_spans env uuids t by' (Suc ?n + length ys) (y # zs) s3 = Inr st"
    by (auto simp: ingest_spans_append rbind_Inr_iff simp del: ingest_spans.simps)
  then obtain s4 where 4: "ingest_span env (uuids (Suc ?n + length ys)) t by' y s3 = Inr s4"
    and 5: "ingest_spans env uuids t by' (Suc (Suc ?n + length ys)) zs s4 = Inr st" by (auto simp: rbind_Inr_iff)
  have m: "list_all (names_no_model env) xs" "names_no_model env x" "list_all (names_no_model env) ys" "names_no_model env y"
    "list_all (names_no_model env) zs" using assms(2) by simp_all
  have stored: "ing_stored s1 = snd s" "ing_stored s2 = snd s" "ing_stored s3 = snd s"
    using unflushed_spans[OF 1 m(1)] unflushed_span[OF 2 m(2)] unflushed_spans[OF 3 m(3)] by (simp_all add: start_ingestion_def)
  have new: "(t, ev) \<notin> tel_key ` set (snd s)" using assms(5) by auto
  from unflushed_span[OF 2 m(2)] assms(3) new stored obtain e where e: "ing_added s2 = ing_added s1 @ [e]" "tel_key e = (t, ev)" by auto
  from unflushed_span[OF 4 m(4)] assms(4) new stored obtain e' where e': "ing_added s4 = ing_added s3 @ [e']" "tel_key e' = (t, ev)" by auto
  from unflushed_spans[OF 3 m(3)] obtain es where es: "ing_added s3 = ing_added s2 @ es" by auto
  from unflushed_spans[OF 5 m(5)] obtain es' where es': "ing_added st = ing_added s4 @ es'" by auto
  have "ing_added st = (ing_added s1 @ e # es) @ e' # es'" by (simp add: es' e' es e)
  moreover from fl have "distinct (map tel_key (ing_added st))"
    by (auto simp: flush_added_def rbind_Inr_iff dest: flush_events_spec)
  ultimately show False using e(2) e'(2) by simp
qed


section \<open>A small trace\<close>

definition sample_chat :: dict where
  "sample_chat =
     [(''traceId'', JStr ''t''), (''spanId'', JStr ''s''), (''endTimeUnixNano'', JNull),
      (''attributes'', JList [JObj [(''key'', JStr ''gen_ai.operation.name''), (''value'', JObj [(''stringValue'', JStr ''chat'')])],
                             JObj [(''key'', JStr ''gen_ai.prompt''), (''value'', JObj [(''stringValue'', JStr ''hello'')])]])]"

definition trace_of :: "dict list \<Rightarrow> dict" where
  "trace_of spans = [(''resourceSpans'', JList [JObj [(''scopeSpans'', JList [JObj [(''spans'', JList (map JObj spans))]])]])]"

definition ingest_sample :: "dict \<Rightarrow> telemetry_state \<Rightarrow> (telemetry_state \<times> ingest_report) result" where
  "ingest_sample payload s = ingest_otlp_genai base_env 500 (\<lambda>n. ''u'') ''v'' ''default'' payload ''collector'' s"

definition no_telemetry :: telemetry_state where
  "no_telemetry = ((empty_db, no_lineage), [])"

lemma sample_ingested:
  obtains s' a where "ingest_sample (trace_of [sample_chat]) no_telemetry = Inr (s', a)" "ig_imported a = 1" "ig_duplicates a = 0" "ig_ignored a = 0"
    "map tel_content_discarded (snd s') = [True]"
proof -
  have "ok_with (\<lambda>(s', a). ig_imported a = 1 \<and> ig_duplicates a = 0 \<and> ig_ignored a = 0 \<and> map tel_content_discarded (snd s') = [True])
      (ingest_sample (trace_of [sample_chat]) no_telemetry)"
    by code_simp
  then show thesis using that by (auto elim!: ok_withE)
qed

theorem telemetry_batch_once_witness:
  "\<exists>s' a. ingest_sample (trace_of [sample_chat]) no_telemetry = Inr (s', a) \<and> ig_imported a = 1 \<and>
     ingest_sample (trace_of [sample_chat]) s' =
       Inr (s', \<lparr>ig_imported = 0, ig_duplicates = 1, ig_ignored = 0, ig_discovered = 0, ig_relationships = 0, ig_discarded = 0\<rparr>)"
proof -
  obtain s' a where r: "ingest_sample (trace_of [sample_chat]) no_telemetry = Inr (s', a)" "ig_imported a = 1" "ig_duplicates a = 0" "ig_ignored a = 0"
    by (rule sample_ingested)
  have "unique_key tel_key (snd no_telemetry)" by (simp add: no_telemetry_def unique_key_def)
  from telemetry_batch_once[OF r(1)[unfolded ingest_sample_def] this refl] r show ?thesis
    unfolding ingest_sample_def by (intro exI[of _ s'] exI[of _ a]) simp
qed

theorem telemetry_content_unread_witness:
  "\<exists>s' a. ingest_sample (trace_of [sample_chat]) no_telemetry = Inr (s', a) \<and> map tel_content_discarded (snd s') = [True] \<and>
     ingest_sample (without_content (trace_of [sample_chat])) no_telemetry = Inr (s', a) \<and>
     without_content (trace_of [sample_chat]) \<noteq> trace_of [sample_chat]"
proof -
  obtain s' a where r: "ingest_sample (trace_of [sample_chat]) no_telemetry = Inr (s', a)" "map tel_content_discarded (snd s') = [True]"
    by (rule sample_ingested)
  have "without_content (trace_of [sample_chat]) \<noteq> trace_of [sample_chat]" by code_simp
  moreover have "ingest_sample (without_content (trace_of [sample_chat])) no_telemetry = Inr (s', a)"
    using telemetry_content_unread[OF r(1)[unfolded ingest_sample_def]] by (simp add: ingest_sample_def)
  ultimately show ?thesis using r by (intro exI[of _ s'] exI[of _ a]) simp
qed

theorem repeated_span_refused_witness:
  "is_ok (ingest_sample (trace_of [sample_chat]) no_telemetry) \<and> \<not> is_ok (ingest_sample (trace_of [sample_chat, sample_chat]) no_telemetry)"
proof -
  let ?x = "([], [], sample_chat) :: dict \<times> dict \<times> dict"
  have "ok_with (\<lambda>a. first_text base_env a [''gen_ai.response.model'', ''gen_ai.request.model''] = []) (span_attributes ?x)" by code_simp
  then have m: "names_no_model base_env ?x" by (auto simp: names_no_model_def elim!: ok_withE)
  have sp: "spans_of (trace_of [sample_chat, sample_chat]) = Inr ([] @ ?x # [] @ ?x # [])" by code_simp
  have ev: "span_event base_env ?x = Inr (Some ''otel:t:s'')" by code_simp
  have "\<not> is_ok (ingest_sample (trace_of [sample_chat, sample_chat]) no_telemetry)"
    unfolding ingest_sample_def by (rule repeated_span_refused[OF sp _ ev ev]) (use m in \<open>simp_all add: no_telemetry_def\<close>)
  then show ?thesis by (metis is_ok_simps(1) sample_ingested)
qed

end
