(* ===== verification/Spec2Isabelle.thy ===== *)
theory Spec2Isabelle
  imports PolicyRegister AuthzSearch EnforcementPoint Auth Graph OwnershipSchedules GenaiTelemetry
begin

text \<open>
  OpenDataGraph decides whether AI agents and other subjects may use data, records every decision, and
  keeps the policies that decide under governance. This library models the core of its Python services
  (\<open>app/\<close>) and the enforcement SDK, and proves what makes them correct.

  \<^bold>\<open>The program and its parts.\<close> A request of a policy enforcement point reaches
  \<open>runtime_authorization.py\<close>, which looks up the agent, the asset or the AI resource, and decides by
  \<open>policy.py\<close> (a registered agent on a registered asset) or by the tenant's policies alone
  (\<open>policy_engine.py\<close>). The policies in force are those of the tenant's active bundle
  (\<open>policy_governance.py\<close>, \<open>v13.py\<close>, \<open>v14.py\<close>), or the shipped files; a rollout
  (\<open>policy_rollouts.py\<close>) evaluates a candidate bundle beside them and answers a share of the
  requests with it. The decision is stored as a receipt under its idempotency key, announced through the
  outbox (\<open>outbox.py\<close>), signed later by the worker (\<open>evidence_signing.py\<close>), and reported back
  by the enforcement point (\<open>enforcement.py\<close>). The outbox hands its events to
  \<open>integrations.py\<close>, whose deliveries are background jobs (\<open>jobs.py\<close>); approvals open and close
  review tasks (\<open>governance.py\<close>), which queue events too. Connectors (\<open>sdk.py\<close>,
  \<open>registry.py\<close>) are run by jobs under the capability policy of the tenant.

  \<^bold>\<open>State.\<close> Services share a relational database. A mapped class of \<open>app/models.py\<close> is a record, its
  columns \<open>prefix_column\<close>; \<open>db\<close> holds one list of rows for each table, in the order of
  the primary key, and a query is \<open>scalar\<close>, \<open>where_rows\<close>, \<open>order_by\<close> or a conditional
  \<open>update_rows\<close> (\<open>Prelude\<close>). A handler takes the state and returns it updated; an exception is a value
  of \<open>py_error\<close>. Where an exception leaves the state as it was (the session is rolled back) the result is
  \<open>(state \<times> 'a) result\<close>; where a commit precedes a possible failure it is \<open>state \<times> 'a result\<close>. The
  caches of the process (policies, running rollout, discovered key sets) are explicit arguments. The tables of
  campaigns and their schedules (record \<open>ownership\<close>), of AI resources and lineage (record \<open>ai_lineage\<close>) and of telemetry
  events are kept beside \<open>db\<close>, as only their own services use them. Times are microseconds, naive UTC.

  \<^bold>\<open>Theories.\<close>
  \<^item> \<open>Prelude\<close>: results, JSON documents with Python's truthiness, equality and text, string methods,
    tables; the collections \<open>store\<close> and \<open>result_simps\<close>.
  \<^item> \<open>Models\<close>: \<open>app/models.py\<close>, the settings read, and what a request reads from outside (\<open>env\<close>).
  \<^item> \<open>Caching\<close>, \<open>WorkQueue\<close>, \<open>IdempotentStore\<close>: the contracts shared by several services,
    as locales: a cache with a lifetime (interpreted by the policy and the rollout cache), a table drained
    by claims (jobs, outbox, receipts), a table written under idempotency keys (outbox, receipts).
  \<^item> \<open>PolicyEngine\<close>: \<open>policy_engine.py\<close>; validation characterised, evaluation specified, the
    strongest decision first.
  \<^item> \<open>Policy\<close>: \<open>policy.py\<close>, \<open>agents.py\<close>; what a plain allow requires, denial by a policy, the scope of
    exceptions, bounds of the result, the shipped policies.
  \<^item> \<open>Connectors\<close>: \<open>sdk.py\<close>, \<open>registry.py\<close>, \<open>security.py\<close>; URL check, payloads, capability policy.
  \<^item> \<open>Jobs\<close>: \<open>jobs.py\<close>; a job runs on one worker unless recovery took it from a worker that outlived its claim, attempts
    are bounded between retries, every due job is served.
  \<^item> \<open>Integrations\<close>: \<open>integrations.py\<close>; which endpoints get an event, the request sent, CEF escaping.
  \<^item> \<open>Outbox\<close>: \<open>outbox.py\<close>; the payload check at every depth, idempotent queueing, delivery of every
    due event.
  \<^item> \<open>Governance\<close>: \<open>governance.py\<close>; one open task per subject, framing of the other tables.
  \<^item> \<open>PolicyBundles\<close>: bundles, exceptions and delegations; approval by another identity (the
    subject \<open>development\<close> is exempt), final revocation, expiry, the comparison of bundles.
  \<^item> \<open>RuntimePolicy\<close>: \<open>evaluate_policy_only\<close>; failing closed except under an active exception for
    the agent and the asset, well-formed results, a transparent memo.
  \<^item> \<open>PolicyRollouts\<close>: \<open>policy_rollouts.py\<close>, routes of \<open>v19.py\<close>; the canary share, exact replays.
  \<^item> \<open>PolicyRegister\<close>: bundles and rollouts as one transition relation that refines an abstract
    register of four moves; the policies in force are valid and approved.
  \<^item> \<open>EvidenceSigning\<close>: \<open>evidence_signing.py\<close>, \<open>secrets.py\<close>; base64, signing and verifying.
  \<^item> \<open>RuntimeReceipts\<close>: the rest of \<open>runtime_authorization.py\<close>, routes of \<open>v18.py\<close>; receipts decided
    once per key while they are retained, receipts signed with a key verify, batches.
  \<^item> \<open>AuthzSearch\<close>: \<open>authzen_search.py\<close>; exact pages, and when a page token is accepted.
  \<^item> \<open>Enforcement\<close>: \<open>enforcement.py\<close> and its routes; every applied event was justified by its receipt when it was recorded.
  \<^item> \<open>EnforcementPoint\<close>: the Python enforcement SDK; the operation runs only under the decision's conditions, and what the
    client reports is what the service records.
  \<^item> \<open>ServiceAccounts\<close>: \<open>service_accounts.py\<close> and its routes in \<open>v15.py\<close>; at most two usable credentials per account, disabled
    accounts stay locked out, and a rotation can revive a retired credential.
  \<^item> \<open>Auth\<close>: \<open>auth.py\<close>; the principal of a request, from a bearer token, a workload token, a service account key or an
    API key; claims are used only when verified under a configured issuer, the discovery document and the key set are
    fetched from the issuer's host or an allowed one only, and the subject that is exempt from the approval rule is not reserved.
  \<^item> \<open>Graph\<close>: \<open>graph.py\<close> and its routes; lineage events add exactly their edges, queries and explanations are exact when
    nothing is cut, and a cut in the last round is not reported.
  \<^item> \<open>Schedules\<close>: \<open>schedules.py\<close> and its routes; the next run of a cron expression is the first fitting minute within 366
    days (the bound of the code's search), a run of the queue that returns serves every due schedule once, budgets hold under
    any interleaving; a schedule without an eligible minute stops the queue, and a late worker queues schedules again.
  \<^item> \<open>Ownership\<close>, \<open>OwnershipSchedules\<close>: \<open>ownership.py\<close> and its routes in \<open>v15.py\<close>, \<open>v16.py\<close> and \<open>v17.py\<close>; their tables
    are the record \<open>ownership\<close> beside \<open>db\<close>. A campaign is active exactly while an assignment is outstanding, a stage is
    escalated once, an occurrence of a schedule is executed once while the schedule exists, and escalation can starve.
  \<^item> \<open>AiLineage\<close>: \<open>ai_resources.py\<close> and its routes in \<open>v18.py\<close>; the register of AI resources and the relationships declared
    and observed between them (the record \<open>ai_lineage\<close> beside \<open>db\<close>): counts and times are those of the recorded observations,
    the graph mirrors every relationship until a lineage event rewrites its edge, and an event is recorded once.
  \<^item> \<open>GenaiTelemetry\<close>: \<open>genai_telemetry.py\<close> and its routes in \<open>v19.py\<close>; the ingestion of OpenTelemetry traces, its events
    being a table beside \<open>ai_lineage\<close>: the content of prompts and answers is not read, a batch is counted once, and a
    span repeated within a batch that names no model refuses it.

  \<^bold>\<open>Parameters.\<close> Code outside the repository is an argument: SHA-256 and HMAC, the text of a float and of a time,
  the HTTP client, the \<open>cryptography\<close> package, KMS, cosign and the files and variables of the operating
  system (records \<open>env\<close>, \<open>transport\<close>, \<open>crypto\<close>), the JWT library and the client that fetches
  discovery documents and key sets (\<open>jwt_library\<close>, \<open>http_client\<close>), the offsets of time zones, the rounding of floats. What is assumed of one is a named hypothesis of the
  property that needs it (\<open>verifies_own\<close>: a library accepts the signatures it makes). UUIDs and the clock of each
  turn of a loop are arguments.

  \<^bold>\<open>Bounds.\<close> Every loop of the code ranges over a list, so every model terminates by structural recursion
  or a measure and no fuel is used. Python integers are unbounded and are \<open>int\<close>; counters that only grow from
  zero are \<open>nat\<close>. Strings are over code points below 256.

  \<^bold>\<open>Not modelled.\<close> Isolation of concurrent transactions: a statement or a handler is atomic, interleaving is
  between them (workers interleave at their claims and settlements, consumers of a budget between reading and updating). Listing routes that only select and print, metrics and logging. Services whose work is file, network or archive
  output, and those left out for another reason, are listed in the manifest.
\<close>

end
